(* ===== verification/SFE_Prelude.thy ===== *)
theory SFE_Prelude
  imports Main "HOL-Library.Word" "HOL-Library.Monad_Syntax"
begin

text \<open>
  Shared vocabulary of the development: the machine integers of the kernel code, byte-addressed
  packet memory with the 16 and 32 bit loads and stores of a little-endian host, and the
  arithmetic of the Internet checksum (ones' complement sums, read modulo 65535).
\<close>

unbundle bit_operations_syntax

section \<open>Machine integers\<close>

type_synonym u8 = "8 word"
type_synonym u16 = "16 word"
type_synonym u32 = "32 word"
type_synonym u64 = "64 word"

text \<open>\<open>be16\<close> and \<open>be32\<close> are fields in network byte order, held as the host loads them.\<close>

type_synonym be16 = "16 word"
type_synonym be32 = "32 word"

named_theorems mem_simps \<open>loads from packet memory after stores\<close>
named_theorems csum_simps \<open>ones' complement checksum arithmetic\<close>

section \<open>Packet memory\<close>

text \<open>
  The bytes from \<open>skb->data\<close> on, as a total function: an access past the end of the packet
  reads whatever the memory holds there, as the C code would.
\<close>

type_synonym mem = "nat \<Rightarrow> u8"

definition ld16 :: "mem \<Rightarrow> nat \<Rightarrow> u16" where
  "ld16 m k = (ucast (m k) :: u16) OR push_bit 8 (ucast (m (k + 1)))"

definition ld32 :: "mem \<Rightarrow> nat \<Rightarrow> u32" where
  "ld32 m k = (ucast (ld16 m k) :: u32) OR push_bit 16 (ucast (ld16 m (k + 2)))"

definition st8 :: "mem \<Rightarrow> nat \<Rightarrow> u8 \<Rightarrow> mem" where
  "st8 m k v = m(k := v)"

definition st16 :: "mem \<Rightarrow> nat \<Rightarrow> u16 \<Rightarrow> mem" where
  "st16 m k v = m(k := ucast v, k + 1 := ucast (drop_bit 8 v))"

definition st32 :: "mem \<Rightarrow> nat \<Rightarrow> u32 \<Rightarrow> mem" where
  "st32 m k v = st16 (st16 m k (ucast v)) (k + 2) (ucast (drop_bit 16 v))"

text \<open>\<open>ntohs\<close> and \<open>ntohl\<close> on a little-endian host swap the bytes.\<close>

definition ntohs :: "be16 \<Rightarrow> u16" where
  "ntohs w = push_bit 8 w OR drop_bit 8 w"

definition ntohl :: "be32 \<Rightarrow> u32" where
  "ntohl w = push_bit 24 w OR (push_bit 8 w AND 0xff0000) OR (drop_bit 8 w AND 0xff00) OR drop_bit 24 w"

lemma ld16_st16_same [simp, mem_simps]: "ld16 (st16 m k v) k = v"
  unfolding ld16_def st16_def
  by (rule bit_word_eqI) (auto simp: bit_simps)

lemma ld16_st16_other [simp, mem_simps]:
  "j + 1 < k \<or> k + 1 < j \<Longrightarrow> ld16 (st16 m k v) j = ld16 m j"
  by (auto simp: ld16_def st16_def)

lemma ld16_st8_other [simp, mem_simps]:
  "j + 1 < k \<or> k < j \<Longrightarrow> ld16 (st8 m k v) j = ld16 m j"
  by (auto simp: ld16_def st8_def)

lemma ld16_st32_other [simp, mem_simps]:
  "j + 1 < k \<or> k + 3 < j \<Longrightarrow> ld16 (st32 m k v) j = ld16 m j"
  by (auto simp: st32_def)

lemma ld16_st32_lo [simp, mem_simps]: "ld16 (st32 m k v) k = ucast v"
  by (simp add: st32_def)

lemma ld16_st32_hi [simp, mem_simps]: "ld16 (st32 m k v) (k + 2) = ucast (drop_bit 16 v)"
  by (simp add: st32_def)

lemma ld32_st32_same [simp, mem_simps]: "ld32 (st32 m k v) k = v"
  unfolding ld32_def
  by (simp only: ld16_st32_lo ld16_st32_hi) (rule bit_word_eqI, auto simp: bit_simps)

lemma st8_apply [mem_simps]: "st8 m k v j = (if j = k then v else m j)"
  by (simp add: st8_def)

lemma st16_apply [mem_simps]:
  "st16 m k v j = (if j = k then ucast v else if j = k + 1 then ucast (drop_bit 8 v) else m j)"
  by (simp add: st16_def)

lemma st16_apply_other [simp]: "j \<noteq> k \<Longrightarrow> j \<noteq> k + 1 \<Longrightarrow> st16 m k v j = m j"
  by (simp add: st16_def)

lemma st32_apply_other [simp]: "j < k \<or> k + 3 < j \<Longrightarrow> st32 m k v j = m j"
  by (auto simp: st32_def)

lemma ld32_st16_other [simp, mem_simps]:
  "j + 3 < k \<or> k + 1 < j \<Longrightarrow> ld32 (st16 m k v) j = ld32 m j"
  by (auto simp: ld32_def)

lemma ld32_st8_other [simp, mem_simps]:
  "j + 3 < k \<or> k < j \<Longrightarrow> ld32 (st8 m k v) j = ld32 m j"
  by (auto simp: ld32_def)

lemma ld32_st32_other [simp, mem_simps]:
  "j + 3 < k \<or> k + 3 < j \<Longrightarrow> ld32 (st32 m k v) j = ld32 m j"
  by (auto simp: ld32_def)

lemma st8_apply_other [simp]: "j \<noteq> k \<Longrightarrow> st8 m k v j = m j"
  by (simp add: st8_def)

lemma st8_apply_same [simp]: "st8 m k v k = v"
  by (simp add: st8_def)

lemma ld32_lo: "ucast (ld32 m k) = ld16 m k"
  unfolding ld32_def by (rule bit_word_eqI) (auto simp: bit_simps)

lemma ld32_hi: "ucast (drop_bit 16 (ld32 m k)) = ld16 m (k + 2)"
  unfolding ld32_def by (rule bit_word_eqI) (auto simp: bit_simps dest: bit_imp_le_length)

section \<open>The Internet checksum\<close>

text \<open>One folding step, \<open>sum = (sum & 0xffff) + (sum >> 16)\<close>, on a \<open>u32\<close>.\<close>

definition csum_fold :: "u32 \<Rightarrow> u32" where
  "csum_fold s = (s AND 0xffff) + drop_bit 16 s"

text \<open>Two sums are equal as ones' complement sums when they agree modulo 65535.\<close>

abbreviation csum_eq :: "nat \<Rightarrow> nat \<Rightarrow> bool" where
  "csum_eq a b \<equiv> a mod 65535 = b mod 65535"

lemma unat_u32_less: "unat (s :: u32) < 4294967296"
  using unsigned_less [of s] by simp

lemma unat_and_ffff: "unat ((s :: u32) AND 0xffff) = unat s mod 65536"
proof -
  have "s AND 0xffff = take_bit 16 s"
    by (simp add: take_bit_eq_mask mask_eq_exp_minus_1)
  then show ?thesis
    by (simp only: unsigned_take_bit_eq) (simp add: take_bit_eq_mod)
qed

lemma unat_shr16: "unat (drop_bit 16 (s :: u32)) = unat s div 65536"
  by (simp only: unat_drop_bit_eq) (simp add: drop_bit_eq_div)

lemma unat_csum_fold: "unat (csum_fold s) = unat s mod 65536 + unat s div 65536"
proof -
  have "unat s div 65536 < 65536"
    using unat_u32_less [of s] by (simp add: less_mult_imp_div_less)
  moreover have "unat s mod 65536 < 65536" by simp
  ultimately have "unat s mod 65536 + unat s div 65536 < 4294967296" by linarith
  then show ?thesis
    by (simp add: csum_fold_def unat_word_ariths unat_and_ffff unat_shr16)
qed

lemma csum_fold_cong [csum_simps]: "csum_eq (unat (csum_fold s)) (unat s)"
proof -
  have "unat s = 65535 * (unat s div 65536) + (unat s mod 65536 + unat s div 65536)"
    by simp
  then show ?thesis
    unfolding unat_csum_fold by (metis mod_mult_self4)
qed

lemma csum_fold_twice_bound: "unat (csum_fold (csum_fold s)) < 65536"
proof -
  have "unat s div 65536 < 65536"
    using unat_u32_less [of s] by (simp add: less_mult_imp_div_less)
  moreover have "unat s mod 65536 < 65536" by simp
  ultimately have le: "unat (csum_fold s) \<le> 131070"
    unfolding unat_csum_fold by linarith
  show ?thesis
  proof (cases "unat (csum_fold s) < 65536")
    case True
    then show ?thesis unfolding unat_csum_fold [of "csum_fold s"] by simp
  next
    case False
    with le have "unat (csum_fold s) div 65536 = 1"
      by (simp add: div_nat_eqI)
    moreover have "unat (csum_fold s) = 65536 * (unat (csum_fold s) div 65536) + unat (csum_fold s) mod 65536"
      by simp
    ultimately show ?thesis
      unfolding unat_csum_fold [of "csum_fold s"] using le by linarith
  qed
qed

lemma csum_fold_pos: "0 < unat s \<Longrightarrow> 0 < unat (csum_fold s)"
  unfolding unat_csum_fold by (cases "unat s < 65536") (auto simp: div_greater_zero_iff)

end
