(* ===== verification/SFE_Types.thy ===== *)
theory SFE_Types
  imports SFE_Prelude
begin

text \<open>
  The structures of \<open>sfe_cm.h\<close> that the connection manager and the engines exchange, and the
  parts of the kernel's \<open>struct net_device\<close> and \<open>struct sk_buff\<close> that the engines read or write.
  A device is named by its address, as the C code does.
\<close>

section \<open>Devices and socket buffers\<close>

text \<open>\<open>dev_ptr\<close> is a \<open>struct net_device *\<close>, a \<open>size_t\<close> where the code hashes it.\<close>

type_synonym dev_ptr = "64 word"

text \<open>A MAC address: an array of bytes of which the first \<open>ETH_ALEN\<close> count.\<close>

type_synonym mac = mem

datatype header_create = Eth_header | Other_header

record net_device =
  nd_registered :: bool \<comment> \<open>\<open>reg_state == NETREG_REGISTERED\<close>\<close>
  nd_pointopoint :: bool \<comment> \<open>\<open>flags & IFF_POINTOPOINT\<close>\<close>
  nd_header_ops :: "header_create option" \<comment> \<open>\<open>header_ops\<close> and its \<open>create\<close>, None for NULL\<close>
  nd_dev_addr :: mac
  nd_bridge_port :: bool \<comment> \<open>\<open>priv_flags & IFF_BRIDGE_PORT\<close>\<close>
  nd_mtu :: u32

record sk_buff =
  skb_mem :: mem \<comment> \<open>the bytes from \<open>skb->data\<close> on\<close>
  skb_len :: u32
  skb_ip_summed_partial :: bool \<comment> \<open>\<open>ip_summed == CHECKSUM_PARTIAL\<close>\<close>
  skb_is_gso :: bool
  skb_dev :: dev_ptr
  skb_priority :: u32
  skb_mark :: u32

text \<open>\<open>__skb_push\<close>: the data pointer moves back over \<open>n\<close> bytes of headroom, shown as zeros.\<close>

definition skb_push :: "mem \<Rightarrow> nat \<Rightarrow> mem" where
  "skb_push m n = (\<lambda>k. if k < n then 0 else m (k - n))"

section \<open>Messages of the connection manager\<close>

text \<open>The address union \<open>sfe_ip_addr_t\<close>: the IPv4 address shares the first word of the IPv6 one.\<close>

record sfe_ip_addr =
  ip6_0 :: be32
  ip6_1 :: be32
  ip6_2 :: be32
  ip6_3 :: be32

abbreviation sa_ip :: "sfe_ip_addr \<Rightarrow> be32" where
  "sa_ip a \<equiv> ip6_0 a"

text \<open>The C type \<open>int\<close> of \<open>protocol\<close> is held as its 32 bit pattern.\<close>

definition SFE_CREATE_FLAG_NO_SEQ_CHECK :: u32 where "SFE_CREATE_FLAG_NO_SEQ_CHECK = 1"
definition SFE_CREATE_FLAG_REMARK_PRIORITY :: u32 where "SFE_CREATE_FLAG_REMARK_PRIORITY = 2"
definition SFE_CREATE_FLAG_REMARK_DSCP :: u32 where "SFE_CREATE_FLAG_REMARK_DSCP = 4"

record sfe_connection_create =
  sic_protocol :: u32
  sic_src_dev :: dev_ptr
  sic_dest_dev :: dev_ptr
  sic_flags :: u32
  sic_src_mtu :: u32
  sic_dest_mtu :: u32
  sic_src_ip :: sfe_ip_addr
  sic_src_ip_xlate :: sfe_ip_addr
  sic_dest_ip :: sfe_ip_addr
  sic_dest_ip_xlate :: sfe_ip_addr
  sic_src_port :: be16
  sic_src_port_xlate :: be16
  sic_dest_port :: be16
  sic_dest_port_xlate :: be16
  sic_src_mac :: mac
  sic_src_mac_xlate :: mac
  sic_dest_mac :: mac
  sic_dest_mac_xlate :: mac
  sic_src_td_window_scale :: u8
  sic_src_td_max_window :: u32
  sic_src_td_end :: u32
  sic_src_td_max_end :: u32
  sic_dest_td_window_scale :: u8
  sic_dest_td_max_window :: u32
  sic_dest_td_end :: u32
  sic_dest_td_max_end :: u32
  sic_mark :: u32
  sic_original_accel :: u32
  sic_reply_accel :: u32
  sic_src_priority :: u32
  sic_dest_priority :: u32
  sic_src_dscp :: u32
  sic_dest_dscp :: u32

record sfe_connection_destroy =
  sid_protocol :: u32
  sid_src_ip :: sfe_ip_addr
  sid_dest_ip :: sfe_ip_addr
  sid_src_port :: be16
  sid_dest_port :: be16

datatype sfe_sync_reason = SFE_SYNC_REASON_STATS | SFE_SYNC_REASON_FLUSH | SFE_SYNC_REASON_DESTROY

record sfe_connection_sync =
  sis_src_dev :: dev_ptr
  sis_dest_dev :: dev_ptr
  sis_is_v6 :: bool
  sis_protocol :: u32
  sis_src_ip :: sfe_ip_addr
  sis_src_ip_xlate :: sfe_ip_addr
  sis_src_port :: be16
  sis_src_port_xlate :: be16
  sis_dest_ip :: sfe_ip_addr
  sis_dest_ip_xlate :: sfe_ip_addr
  sis_dest_port :: be16
  sis_dest_port_xlate :: be16
  sis_src_td_max_window :: u32
  sis_src_td_end :: u32
  sis_src_td_max_end :: u32
  sis_src_packet_count :: u64
  sis_src_byte_count :: u64
  sis_src_new_packet_count :: u32
  sis_src_new_byte_count :: u32
  sis_dest_td_max_window :: u32
  sis_dest_td_end :: u32
  sis_dest_td_max_end :: u32
  sis_dest_packet_count :: u64
  sis_dest_byte_count :: u64
  sis_dest_new_packet_count :: u32
  sis_dest_new_byte_count :: u32
  sis_reason :: sfe_sync_reason
  sis_delta_jiffies :: u64

record sfe_connection_mark =
  mk_protocol :: u32
  mk_src_ip :: sfe_ip_addr
  mk_dest_ip :: sfe_ip_addr
  mk_src_port :: be16
  mk_dest_port :: be16
  mk_mark :: u32

definition ip4_addr :: "be32 \<Rightarrow> sfe_ip_addr" where
  "ip4_addr a = \<lparr>ip6_0 = a, ip6_1 = 0, ip6_2 = 0, ip6_3 = 0\<rparr>"

definition sfe_ipv6_addr_equal :: "sfe_ip_addr \<Rightarrow> sfe_ip_addr \<Rightarrow> bool" where
  "sfe_ipv6_addr_equal a b \<longleftrightarrow> ip6_0 a = ip6_0 b \<and> ip6_1 a = ip6_1 b \<and> ip6_2 a = ip6_2 b \<and> ip6_3 a = ip6_3 b"

definition sfe_ipv4_addr_equal :: "be32 \<Rightarrow> be32 \<Rightarrow> bool" where
  "sfe_ipv4_addr_equal a b \<longleftrightarrow> a = b"

definition sfe_addr_equal :: "sfe_ip_addr \<Rightarrow> sfe_ip_addr \<Rightarrow> bool \<Rightarrow> bool" where
  "sfe_addr_equal a b is_v4 = (if is_v4 then sfe_ipv4_addr_equal (sa_ip a) (sa_ip b) else sfe_ipv6_addr_equal a b)"

text \<open>Protocol numbers of the Linux headers.\<close>

definition IPPROTO_ICMP :: u8 where "IPPROTO_ICMP = 1"
definition IPPROTO_TCP :: u8 where "IPPROTO_TCP = 6"
definition IPPROTO_UDP :: u8 where "IPPROTO_UDP = 17"

lemmas ipproto_defs = IPPROTO_ICMP_def IPPROTO_TCP_def IPPROTO_UDP_def

lemma sfe_ipv6_addr_equal_iff: "sfe_ipv6_addr_equal a b \<longleftrightarrow> sfe_ip_addr.truncate a = sfe_ip_addr.truncate b"
  by (simp add: sfe_ipv6_addr_equal_def sfe_ip_addr.truncate_def)

end
