(* ===== verification/Dll.thy ===== *)
theory Dll
  imports SFE_Prelude
begin

text \<open>
  Intrusive doubly linked lists, as the engine keeps four of: the two families of hash chains,
  the list of all connections and the list of active matches. A list is described by one function
  per pointer field (Burstall's heap per field), so the lemmas apply to every list of the engine
  whatever record its links sit in.
\<close>

section \<open>The list relation\<close>

type_synonym ptr = nat

type_synonym link = "ptr \<Rightarrow> ptr option"

text \<open>
  \<open>dseg nx pv p h xs\<close>: starting at \<open>h\<close>, the \<open>next\<close> fields run through exactly \<open>xs\<close> and then NULL,
  and each node's \<open>prev\<close> field is the node before it, \<open>p\<close> for the first one.
\<close>

fun dseg :: "link \<Rightarrow> link \<Rightarrow> ptr option \<Rightarrow> ptr option \<Rightarrow> ptr list \<Rightarrow> bool" where
  "dseg nx pv p h [] \<longleftrightarrow> h = None"
| "dseg nx pv p h (x # xs) \<longleftrightarrow> h = Some x \<and> pv x = p \<and> dseg nx pv (Some x) (nx x) xs"

text \<open>A list with a head pointer only, and one that also keeps a pointer to its last node.\<close>

definition dlist :: "link \<Rightarrow> link \<Rightarrow> ptr option \<Rightarrow> ptr list \<Rightarrow> bool" where
  "dlist nx pv h xs \<longleftrightarrow> dseg nx pv None h xs \<and> distinct xs"

definition dqueue :: "link \<Rightarrow> link \<Rightarrow> ptr option \<Rightarrow> ptr option \<Rightarrow> ptr list \<Rightarrow> bool" where
  "dqueue nx pv h t xs \<longleftrightarrow> dlist nx pv h xs \<and> t = (if xs = [] then None else Some (last xs))"

lemma dseg_cong:
  "(\<And>x. x \<in> set xs \<Longrightarrow> nx' x = nx x \<and> pv' x = pv x) \<Longrightarrow> dseg nx' pv' p h xs = dseg nx pv p h xs"
  by (induction xs arbitrary: p h) auto

lemma dlist_cong:
  "(\<And>x. x \<in> set xs \<Longrightarrow> nx' x = nx x \<and> pv' x = pv x) \<Longrightarrow> dlist nx' pv' h xs = dlist nx pv h xs"
  unfolding dlist_def by (metis dseg_cong)

lemma dseg_upd [simp]:
  "x \<notin> set xs \<Longrightarrow> dseg (nx(x := v)) pv p h xs = dseg nx pv p h xs"
  "x \<notin> set xs \<Longrightarrow> dseg nx (pv(x := v)) p h xs = dseg nx pv p h xs"
  by (auto intro!: dseg_cong)

lemma dlist_upd [simp]:
  "x \<notin> set xs \<Longrightarrow> dlist (nx(x := v)) pv h xs = dlist nx pv h xs"
  "x \<notin> set xs \<Longrightarrow> dlist nx (pv(x := v)) h xs = dlist nx pv h xs"
  by (simp_all add: dlist_def)

lemma dqueue_upd [simp]:
  "x \<notin> set xs \<Longrightarrow> dqueue (nx(x := v)) pv h t xs = dqueue nx pv h t xs"
  "x \<notin> set xs \<Longrightarrow> dqueue nx (pv(x := v)) h t xs = dqueue nx pv h t xs"
  by (simp_all add: dqueue_def)

lemma dlist_Nil [simp]: "dlist nx pv h [] \<longleftrightarrow> h = None"
  by (simp add: dlist_def)

lemma dqueue_Nil [simp]: "dqueue nx pv h t [] \<longleftrightarrow> h = None \<and> t = None"
  by (auto simp: dqueue_def)

lemma dseg_unique: "dseg nx pv p h xs \<Longrightarrow> dseg nx pv p h ys \<Longrightarrow> xs = ys"
proof (induction xs arbitrary: p h ys)
  case Nil
  then show ?case by (cases ys) auto
next
  case (Cons x xs)
  then show ?case by (cases ys) auto
qed

lemma dlist_head: "dlist nx pv h xs \<Longrightarrow> h = (case xs of [] \<Rightarrow> None | x # _ \<Rightarrow> Some x)"
  by (cases xs) (auto simp: dlist_def)

lemma dlist_None [simp]: "dlist nx pv None xs \<longleftrightarrow> xs = []"
  by (cases xs) (auto simp: dlist_def)

lemma dlist_in_head: "dlist nx pv (Some x) xs \<Longrightarrow> x \<in> set xs"
  by (cases xs) (auto simp: dlist_def)

text \<open>Where a node's own links lead.\<close>

lemma dseg_next_in: "dseg nx pv p h xs \<Longrightarrow> x \<in> set xs \<Longrightarrow> nx x = Some y \<Longrightarrow> y \<in> set xs"
proof (induction xs arbitrary: p h)
  case (Cons a xs)
  then show ?case by (cases xs) auto
qed simp

lemma dseg_prev_in:
  "dseg nx pv p h xs \<Longrightarrow> x \<in> set xs \<Longrightarrow> pv x = Some y \<Longrightarrow> pv x = p \<or> y \<in> set xs"
proof (induction xs arbitrary: p h)
  case (Cons a xs)
  then show ?case by (cases xs) (auto; metis)+
qed simp

lemma dlist_next_in: "dlist nx pv h xs \<Longrightarrow> x \<in> set xs \<Longrightarrow> nx x = Some y \<Longrightarrow> y \<in> set xs"
  by (auto simp: dlist_def intro: dseg_next_in)

lemma dlist_prev_in: "dlist nx pv h xs \<Longrightarrow> x \<in> set xs \<Longrightarrow> pv x = Some y \<Longrightarrow> y \<in> set xs"
  unfolding dlist_def using dseg_prev_in by fastforce

lemma dseg_next_not_self:
  "dseg nx pv p h xs \<Longrightarrow> distinct xs \<Longrightarrow> x \<in> set xs \<Longrightarrow> nx x \<noteq> Some x"
proof (induction xs arbitrary: p h)
  case (Cons a xs)
  then show ?case by (cases xs) auto
qed simp

lemma dseg_prev_next:
  "dseg nx pv p h xs \<Longrightarrow> distinct xs \<Longrightarrow> x \<in> set xs \<Longrightarrow> pv x = Some q \<Longrightarrow> q \<in> set xs
    \<Longrightarrow> p \<noteq> Some q \<Longrightarrow> nx q = Some x"
proof (induction xs arbitrary: p h)
  case (Cons a xs)
  show ?case
  proof (cases "x = a")
    case True
    with Cons.prems show ?thesis by auto
  next
    case False
    with Cons.prems have x: "x \<in> set xs" by simp
    show ?thesis
    proof (cases "q = a")
      case True
      with Cons.prems x show ?thesis
      proof (cases xs)
        case (Cons b ys)
        show ?thesis
        proof (cases "x = b")
          case True
          with Cons Cons.prems \<open>q = a\<close> show ?thesis by simp
        next
          case False
          with Cons x have "x \<in> set ys" by simp
          moreover from Cons Cons.prems have "dseg nx pv (Some b) (nx b) ys" by simp
          ultimately have "pv x = Some b \<or> q \<in> set ys"
            using dseg_prev_in \<open>pv x = Some q\<close> by fastforce
          with Cons Cons.prems \<open>q = a\<close> show ?thesis by auto
        qed
      qed simp
    next
      case False
      with Cons.prems x show ?thesis by (auto intro: Cons.IH)
    qed
  qed
qed simp

lemma dlist_prev_next:
  "dlist nx pv h xs \<Longrightarrow> x \<in> set xs \<Longrightarrow> pv x = Some q \<Longrightarrow> nx q = Some x"
  unfolding dlist_def using dlist_prev_in [unfolded dlist_def] by (blast intro: dseg_prev_next)

lemma dlist_prev_None:
  assumes "dlist nx pv h xs" and "x \<in> set xs"
  shows "pv x = None \<longleftrightarrow> h = Some x"
proof (cases xs)
  case (Cons a ys)
  with assms have h: "h = Some a" "pv a = None" and s: "dseg nx pv (Some a) (nx a) ys" and d: "distinct (a # ys)"
    by (auto simp: dlist_def)
  show ?thesis
  proof (cases "x = a")
    case False
    with assms Cons have "x \<in> set ys" by simp
    with s have "pv x \<noteq> None"
      by (induction ys arbitrary: a) (auto; metis)+
    with h False show ?thesis by auto
  qed (use h in auto)
qed (use assms in simp)

lemma dseg_next_None:
  "dseg nx pv p h xs \<Longrightarrow> distinct xs \<Longrightarrow> x \<in> set xs \<Longrightarrow> nx x = None \<longleftrightarrow> x = last xs"
proof (induction xs arbitrary: p h)
  case (Cons a xs)
  then show ?case by (cases xs) auto
qed simp

lemma dlist_next_None: "dlist nx pv h xs \<Longrightarrow> x \<in> set xs \<Longrightarrow> nx x = None \<longleftrightarrow> x = last xs"
  by (auto simp: dlist_def dseg_next_None)

lemma dlist_next_prev:
  assumes "dlist nx pv h xs" and "x \<in> set xs" and "nx x = Some y"
  shows "pv y = Some x"
proof -
  have "dseg nx pv p h xs \<Longrightarrow> x \<in> set xs \<Longrightarrow> nx x = Some y \<Longrightarrow> pv y = Some x" for p h
  proof (induction xs arbitrary: p h)
    case (Cons a xs)
    then show ?case by (cases xs) auto
  qed simp
  with assms show ?thesis by (auto simp: dlist_def)
qed

section \<open>Insertion at the head\<close>

text \<open>
  \<^verbatim>\<open>x->prev = NULL; if (h) h->prev = x; x->next = h; h = x;\<close>
\<close>

definition push_pv :: "link \<Rightarrow> ptr option \<Rightarrow> ptr \<Rightarrow> link" where
  "push_pv pv h x = (case h of None \<Rightarrow> pv(x := None) | Some q \<Rightarrow> pv(x := None, q := Some x))"

lemma dlist_push:
  assumes "dlist nx pv h xs" and "x \<notin> set xs"
  shows "dlist (nx(x := h)) (push_pv pv h x) (Some x) (x # xs)"
proof (cases xs)
  case Nil
  with assms show ?thesis by (simp add: dlist_def push_pv_def)
next
  case (Cons a ys)
  with assms have h: "h = Some a" and d: "distinct (x # a # ys)" and s: "dseg nx pv (Some a) (nx a) ys"
    by (auto simp: dlist_def)
  have "dseg (nx(x := h)) (push_pv pv h x) (Some a) (nx a) ys = dseg nx pv (Some a) (nx a) ys"
    using d h by (intro dseg_cong) (auto simp: push_pv_def)
  with h d s Cons show ?thesis by (auto simp: dlist_def push_pv_def)
qed

section \<open>Insertion at the tail\<close>

text \<open>
  \<^verbatim>\<open>x->prev = t; if (t) t->next = x; else h = x; t = x;\<close> for a node whose \<open>next\<close> is NULL.
\<close>

definition snoc_nx :: "link \<Rightarrow> ptr option \<Rightarrow> ptr \<Rightarrow> link" where
  "snoc_nx nx t x = (case t of None \<Rightarrow> nx | Some q \<Rightarrow> nx(q := Some x))"

definition snoc_hd :: "ptr option \<Rightarrow> ptr option \<Rightarrow> ptr \<Rightarrow> ptr option" where
  "snoc_hd h t x = (case t of None \<Rightarrow> Some x | Some q \<Rightarrow> h)"

lemma dseg_snoc:
  "dseg nx pv p h xs \<Longrightarrow> distinct (xs @ [x]) \<Longrightarrow> xs \<noteq> [] \<Longrightarrow> nx x = None
    \<Longrightarrow> dseg (nx(last xs := Some x)) (pv(x := Some (last xs))) p h (xs @ [x])"
proof (induction xs arbitrary: p h)
  case (Cons a xs)
  then show ?case by (cases xs) auto
qed simp

lemma dqueue_snoc:
  assumes "dqueue nx pv h t xs" and "x \<notin> set xs" and "nx x = None"
  shows "dqueue (snoc_nx nx t x) (pv(x := t)) (snoc_hd h t x) (Some x) (xs @ [x])"
proof (cases "xs = []")
  case True
  with assms show ?thesis by (simp add: dqueue_def dlist_def snoc_nx_def snoc_hd_def)
next
  case False
  with assms have "t = Some (last xs)" and "dseg nx pv None h xs" and "distinct xs"
    by (auto simp: dqueue_def dlist_def)
  with False assms show ?thesis
    by (simp add: dqueue_def dlist_def snoc_nx_def snoc_hd_def dseg_snoc)
qed

section \<open>Removal of a node\<close>

text \<open>
  \<^verbatim>\<open>if (x->prev) x->prev->next = x->next; else h = x->next;\<close>
  \<^verbatim>\<open>if (x->next) x->next->prev = x->prev; else t = x->prev;\<close>
\<close>

definition unl_nx :: "link \<Rightarrow> link \<Rightarrow> ptr \<Rightarrow> link" where
  "unl_nx nx pv x = (case pv x of None \<Rightarrow> nx | Some q \<Rightarrow> nx(q := nx x))"

definition unl_pv :: "link \<Rightarrow> link \<Rightarrow> ptr \<Rightarrow> link" where
  "unl_pv nx pv x = (case nx x of None \<Rightarrow> pv | Some q \<Rightarrow> pv(q := pv x))"

definition unl_hd :: "link \<Rightarrow> link \<Rightarrow> ptr \<Rightarrow> ptr option \<Rightarrow> ptr option" where
  "unl_hd nx pv x h = (case pv x of None \<Rightarrow> nx x | Some q \<Rightarrow> h)"

definition unl_tl :: "link \<Rightarrow> link \<Rightarrow> ptr \<Rightarrow> ptr option \<Rightarrow> ptr option" where
  "unl_tl nx pv x t = (case nx x of None \<Rightarrow> pv x | Some q \<Rightarrow> t)"

lemma unl_nx_other: "(\<And>q. pv x = Some q \<Longrightarrow> q \<noteq> y) \<Longrightarrow> unl_nx nx pv x y = nx y"
  by (auto simp: unl_nx_def split: option.splits)

lemma unl_pv_other: "(\<And>q. nx x = Some q \<Longrightarrow> q \<noteq> y) \<Longrightarrow> unl_pv nx pv x y = pv y"
  by (auto simp: unl_pv_def split: option.splits)

lemma unlink_outside:
  assumes "dlist nx pv h xs" and "x \<in> set xs" and "y \<notin> set xs"
  shows "unl_nx nx pv x y = nx y" and "unl_pv nx pv x y = pv y"
proof -
  have "pv x = Some q \<Longrightarrow> q \<noteq> y" and "nx x = Some q \<Longrightarrow> q \<noteq> y" for q
    using dlist_prev_in [OF assms(1,2)] dlist_next_in [OF assms(1,2)] assms(3) by metis+
  then show "unl_nx nx pv x y = nx y" and "unl_pv nx pv x y = pv y"
    by (simp_all add: unl_nx_other unl_pv_other)
qed

lemma dseg_unlink:
  "dseg nx pv p h xs \<Longrightarrow> distinct xs \<Longrightarrow> x \<in> set xs \<Longrightarrow> (\<And>q. p = Some q \<Longrightarrow> q \<notin> set xs)
    \<Longrightarrow> dseg (unl_nx nx pv x) (unl_pv nx pv x) p (if h = Some x then nx x else h) (remove1 x xs)"
proof (induction xs arbitrary: p h)
  case (Cons a xs)
  from Cons.prems have seg: "dseg nx pv (Some a) (nx a) xs" and a: "h = Some a" "pv a = p"
    and d: "distinct xs" "a \<notin> set xs"
    by auto
  show ?case
  proof (cases "x = a")
    case True
    show ?thesis
    proof (cases xs)
      case (Cons b ys)
      with seg have nb: "nx a = Some b" and sb: "dseg nx pv (Some b) (nx b) ys" by auto
      have "unl_nx nx pv x y = nx y" if "y \<in> set xs" for y
        using that Cons.prems(4) a True by (intro unl_nx_other) auto
      moreover have "unl_pv nx pv x y = pv y" if "y \<in> set ys" for y
        using that nb True Cons d by (intro unl_pv_other) auto
      moreover have "unl_pv nx pv x b = p"
        using nb a True by (simp add: unl_pv_def)
      ultimately show ?thesis
        using sb nb a True Cons
        by (simp add: dseg_cong [of ys "unl_nx nx pv a" nx "unl_pv nx pv a" pv])
    qed (use seg a True in simp)
  next
    case False
    with Cons.prems have x: "x \<in> set xs" by simp
    have IH: "dseg (unl_nx nx pv x) (unl_pv nx pv x) (Some a) (if nx a = Some x then nx x else nx a) (remove1 x xs)"
      using seg d x by (intro Cons.IH) auto
    have "nx x \<noteq> Some a"
      using dseg_next_in [OF seg x] d by auto
    then have pa: "unl_pv nx pv x a = p"
      using a by (auto simp: unl_pv_def split: option.splits)
    have "pv x = Some a \<longleftrightarrow> nx a = Some x"
    proof
      assume "pv x = Some a"
      then show "nx a = Some x"
        using Cons.prems x by (intro dseg_prev_next [OF Cons.prems(1,2,3)]) auto
    next
      assume "nx a = Some x"
      with seg x show "pv x = Some a" by (cases xs) auto
    qed
    then have na: "unl_nx nx pv x a = (if nx a = Some x then nx x else nx a)"
      by (auto simp: unl_nx_def split: option.splits)
    show ?thesis
      using IH pa na False a by simp
  qed
qed simp

lemma dlist_unlink:
  assumes "dlist nx pv h xs" and "x \<in> set xs"
  shows "dlist (unl_nx nx pv x) (unl_pv nx pv x) (unl_hd nx pv x h) (remove1 x xs)"
proof -
  from assms have "dseg (unl_nx nx pv x) (unl_pv nx pv x) None (if h = Some x then nx x else h) (remove1 x xs)"
    by (intro dseg_unlink) (auto simp: dlist_def)
  moreover have "unl_hd nx pv x h = (if h = Some x then nx x else h)"
    using dlist_prev_None [OF assms] by (auto simp: unl_hd_def split: option.splits)
  ultimately show ?thesis
    using assms by (simp add: dlist_def)
qed

lemma dlist_prev_last:
  "dlist nx pv h (ys @ [y, x]) \<Longrightarrow> pv x = Some y"
proof -
  have "dseg nx pv p h (ys @ [y, x]) \<Longrightarrow> pv x = Some y" for p h
    by (induction ys arbitrary: p h) auto
  then show "dlist nx pv h (ys @ [y, x]) \<Longrightarrow> pv x = Some y" by (auto simp: dlist_def)
qed

lemma dqueue_unlink:
  assumes q: "dqueue nx pv h t xs" and x: "x \<in> set xs"
  shows "dqueue (unl_nx nx pv x) (unl_pv nx pv x) (unl_hd nx pv x h) (unl_tl nx pv x t) (remove1 x xs)"
proof -
  from q have l: "dlist nx pv h xs" and t: "t = Some (last xs)" and d: "distinct xs"
    using x by (auto simp: dqueue_def dlist_def)
  have "unl_tl nx pv x t = (if remove1 x xs = [] then None else Some (last (remove1 x xs)))"
  proof (cases "x = last xs")
    case True
    with x obtain ys where xs: "xs = ys @ [x]"
      by (metis append_butlast_last_id empty_iff list.set(1))
    with d have r: "remove1 x xs = ys" by (simp add: remove1_append)
    have "nx x = None" using dlist_next_None [OF l x] True by simp
    moreover have "pv x = (if ys = [] then None else Some (last ys))"
    proof (cases "ys = []")
      case True
      with l xs show ?thesis by (simp add: dlist_def)
    next
      case False
      then obtain zs z where "ys = zs @ [z]" by (metis append_butlast_last_id)
      with l xs have "pv x = Some z" by (simp add: dlist_prev_last)
      with \<open>ys = zs @ [z]\<close> show ?thesis by simp
    qed
    ultimately show ?thesis using r by (simp add: unl_tl_def)
  next
    case False
    then have "nx x \<noteq> None" using dlist_next_None [OF l x] by simp
    moreover obtain ys zs where xs: "xs = ys @ x # zs" and "x \<notin> set ys"
      using split_list_first [OF x] by blast
    then have "remove1 x xs = ys @ zs" by (simp add: remove1_append)
    moreover have "zs \<noteq> []" using False xs by auto
    ultimately show ?thesis using t xs by (auto simp: unl_tl_def)
  qed
  with dlist_unlink [OF l x] show ?thesis by (simp add: dqueue_def)
qed

section \<open>Moving a node to the head\<close>

text \<open>
  The reorder step of the match lookup, for a node that is not the head:
  \<^verbatim>\<open>if (x->next) x->next->prev = x->prev; x->prev->next = x->next;\<close>
  \<^verbatim>\<open>x->prev = NULL; x->next = h; h->prev = x; h = x;\<close>
\<close>

definition front_nx :: "link \<Rightarrow> link \<Rightarrow> ptr option \<Rightarrow> ptr \<Rightarrow> link" where
  "front_nx nx pv h x = (unl_nx nx pv x)(x := h)"

definition front_pv :: "link \<Rightarrow> link \<Rightarrow> ptr option \<Rightarrow> ptr \<Rightarrow> link" where
  "front_pv nx pv h x = push_pv (unl_pv nx pv x) h x"

lemma dlist_front:
  assumes l: "dlist nx pv h xs" and x: "x \<in> set xs" and h: "h \<noteq> Some x"
  shows "dlist (front_nx nx pv h x) (front_pv nx pv h x) (Some x) (x # remove1 x xs)"
proof -
  have "unl_hd nx pv x h = h"
    using dlist_prev_None [OF l x] h by (auto simp: unl_hd_def split: option.splits)
  with dlist_unlink [OF l x] have "dlist (unl_nx nx pv x) (unl_pv nx pv x) h (remove1 x xs)"
    by simp
  then show ?thesis
    unfolding front_nx_def front_pv_def
    using l by (intro dlist_push) (auto simp: dlist_def)
qed

section \<open>Searching along the links\<close>

text \<open>
  The search loops of the engine, \<^verbatim>\<open>do { p = p->next } while (p && !match)\<close>: the first node from
  \<open>p\<close> on that satisfies \<open>P\<close>, or NULL. The outer option is the loop's own result: on a cyclic chain
  it does not return.
\<close>

partial_function (option) chain_find :: "link \<Rightarrow> (ptr \<Rightarrow> bool) \<Rightarrow> ptr option \<Rightarrow> ptr option option" where
  "chain_find nx P p =
     (case p of None \<Rightarrow> Some None
      | Some x \<Rightarrow> if P x then Some (Some x) else chain_find nx P (nx x))"

lemma chain_find_None [simp]: "chain_find nx P None = Some None"
  by (simp add: chain_find.simps)

lemma chain_find_Some [simp]:
  "chain_find nx P (Some x) = (if P x then Some (Some x) else chain_find nx P (nx x))"
  by (simp add: chain_find.simps)

declare chain_find.simps [code]

lemma chain_find_dseg: "dseg nx pv p h xs \<Longrightarrow> chain_find nx P h = Some (find P xs)"
  by (induction xs arbitrary: p h) auto

lemma chain_find_dlist: "dlist nx pv h xs \<Longrightarrow> chain_find nx P h = Some (find P xs)"
  by (auto simp: dlist_def intro: chain_find_dseg)

end
