(* ===== verification/SFE_Kernel.thy ===== *)
theory SFE_Kernel
  imports SFE_Types Dll
begin

text \<open>
  What the two engines share: the kernel services they call, error numbers, flag words, MAC
  addresses, the buffer of a sync message, and the offsets in the transport headers.
\<close>

text \<open>\<open>flags & f\<close> read as a truth value.\<close>

definition has_flag :: "u32 \<Rightarrow> u32 \<Rightarrow> bool" where
  "has_flag flags f \<longleftrightarrow> flags AND f \<noteq> 0"

text \<open>A \<open>u32\<close> read as an \<open>s32\<close>.\<close>

abbreviation s32 :: "u32 \<Rightarrow> int" where
  "s32 w \<equiv> sint w"

definition EINVAL :: int where "EINVAL = 22"
definition ENOMEM :: int where "ENOMEM = 12"
definition EADDRINUSE :: int where "EADDRINUSE = 98"

definition ETH_ALEN :: nat where "ETH_ALEN = 6"

text \<open>\<open>memcpy(dst, src, ETH_ALEN)\<close>.\<close>

definition mac_copy :: "mac \<Rightarrow> mac \<Rightarrow> mac" where
  "mac_copy dst src = (\<lambda>k. if k < ETH_ALEN then src k else dst k)"

text \<open>Calls of the sync callback: the callback pointer and the message.\<close>

type_synonym syncs = "(ptr \<times> sfe_connection_sync) list"

text \<open>A message buffer on the stack, its bytes undefined before it is filled and shown as zeros.\<close>

definition stack_sis :: sfe_connection_sync where
  "stack_sis = \<lparr>sis_src_dev = 0, sis_dest_dev = 0, sis_is_v6 = False, sis_protocol = 0,
     sis_src_ip = ip4_addr 0, sis_src_ip_xlate = ip4_addr 0, sis_src_port = 0, sis_src_port_xlate = 0,
     sis_dest_ip = ip4_addr 0, sis_dest_ip_xlate = ip4_addr 0, sis_dest_port = 0, sis_dest_port_xlate = 0,
     sis_src_td_max_window = 0, sis_src_td_end = 0, sis_src_td_max_end = 0, sis_src_packet_count = 0,
     sis_src_byte_count = 0, sis_src_new_packet_count = 0, sis_src_new_byte_count = 0,
     sis_dest_td_max_window = 0, sis_dest_td_end = 0, sis_dest_td_max_end = 0, sis_dest_packet_count = 0,
     sis_dest_byte_count = 0, sis_dest_new_packet_count = 0, sis_dest_new_byte_count = 0,
     sis_reason = SFE_SYNC_REASON_STATS, sis_delta_jiffies = 0\<rparr>"

text \<open>
  \<open>k_may_pull skb n\<close>: the result of \<open>pskb_may_pull\<close>; \<open>k_hard_header skb dev type daddr saddr len\<close>:
  the buffer after \<open>dev_hard_header\<close>; \<open>k_jiffies\<close>: the time.
\<close>

record kernel =
  k_may_pull :: "sk_buff \<Rightarrow> u32 \<Rightarrow> bool"
  k_hard_header :: "sk_buff \<Rightarrow> dev_ptr \<Rightarrow> u16 \<Rightarrow> mac \<Rightarrow> mac \<Rightarrow> u32 \<Rightarrow> sk_buff"
  k_jiffies :: u64

section \<open>Transport headers\<close>

definition UDPH_LEN :: u32 where "UDPH_LEN = 8"
definition TCPH_LEN :: u32 where "TCPH_LEN = 20"
definition ICMPH_LEN :: u32 where "ICMPH_LEN = 8"
definition ETH_HLEN :: nat where "ETH_HLEN = 14"
definition th_source :: nat where "th_source = 0"
definition th_dest :: nat where "th_dest = 2"
definition udp_check :: nat where "udp_check = 6"
definition tcp_seq :: nat where "tcp_seq = 4"
definition tcp_ack_seq :: nat where "tcp_ack_seq = 8"
definition tcp_flag_offs :: nat where "tcp_flag_offs = 12"
definition tcp_window :: nat where "tcp_window = 14"
definition tcp_check :: nat where "tcp_check = 16"


end
