(* ===== verification/Flow_Table.thy ===== *)
theory Flow_Table
  imports Dll
begin

text \<open>
  The pointer structure of a shortcut engine, independent of the address family: a table of
  connections in hash chains and in one queue, two matches per connection in hash chains of their
  own, and the queue of active matches. The engine theories show that their record operations
  act on this view as the operations here do, and take the structural invariant from here.
\<close>

section \<open>Families of hash chains\<close>

text \<open>
  Chain \<open>i\<close> starts at \<open>hds i\<close> and holds exactly the members of \<open>L\<close> whose hash \<open>ix\<close> is \<open>i\<close>.
\<close>

definition chains ::
  "link \<Rightarrow> link \<Rightarrow> (nat \<Rightarrow> ptr option) \<Rightarrow> (ptr \<Rightarrow> nat) \<Rightarrow> (nat \<Rightarrow> ptr list) \<Rightarrow> ptr set \<Rightarrow> bool" where
  "chains nx pv hds ix g L \<longleftrightarrow> (\<forall>i. dlist nx pv (hds i) (g i) \<and> set (g i) = {x \<in> L. ix x = i})"

lemma chainsD:
  assumes "chains nx pv hds ix g L"
  shows "dlist nx pv (hds i) (g i)" and "set (g i) = {x \<in> L. ix x = i}" and "x \<in> L \<Longrightarrow> x \<in> set (g (ix x))"
  using assms by (auto simp: chains_def)

lemma chains_cong:
  assumes "\<And>x. x \<in> L \<Longrightarrow> nx' x = nx x \<and> pv' x = pv x \<and> ix' x = ix x"
  shows "chains nx' pv' hds ix' g L \<longleftrightarrow> chains nx pv hds ix g L"
proof -
  have ix: "{x \<in> L. ix' x = i} = {x \<in> L. ix x = i}" for i using assms by auto
  have "set (g i) = {x \<in> L. ix x = i} \<Longrightarrow> dlist nx' pv' (hds i) (g i) = dlist nx pv (hds i) (g i)" for i
    using assms by (intro dlist_cong) auto
  then show ?thesis unfolding chains_def ix by blast
qed

definition push_hd :: "(nat \<Rightarrow> ptr option) \<Rightarrow> (ptr \<Rightarrow> nat) \<Rightarrow> ptr \<Rightarrow> (nat \<Rightarrow> ptr option)" where
  "push_hd hds ix x = hds(ix x := Some x)"

definition drop_hd :: "link \<Rightarrow> link \<Rightarrow> (nat \<Rightarrow> ptr option) \<Rightarrow> (ptr \<Rightarrow> nat) \<Rightarrow> ptr \<Rightarrow> (nat \<Rightarrow> ptr option)" where
  "drop_hd nx pv hds ix x = (case pv x of None \<Rightarrow> hds(ix x := nx x) | Some q \<Rightarrow> hds)"

lemma chains_push:
  assumes c: "chains nx pv hds ix g L" and x: "x \<notin> L"
  shows "chains (nx(x := hds (ix x))) (push_pv pv (hds (ix x)) x) (push_hd hds ix x) ix
           (g(ix x := x # g (ix x))) (insert x L)"
proof -
  let ?nx = "nx(x := hds (ix x))" and ?pv = "push_pv pv (hds (ix x)) x"
  have "dlist ?nx ?pv (push_hd hds ix x i) ((g(ix x := x # g (ix x))) i)" for i
  proof (cases "i = ix x")
    case True
    then show ?thesis
      using chainsD(1,2) [OF c, of "ix x"] x by (simp add: push_hd_def dlist_push)
  next
    case False
    have "?nx y = nx y \<and> ?pv y = pv y" if "y \<in> set (g i)" for y
    proof -
      have "y \<in> L" "ix y = i" using that chainsD(2) [OF c, of i] by auto
      moreover have "hds (ix x) = Some q \<Longrightarrow> ix q = ix x" for q
        using chainsD(1,2) [OF c, of "ix x"] dlist_in_head by fastforce
      ultimately show ?thesis
        using x False by (auto simp: push_pv_def split: option.splits)
    qed
    then have "dlist ?nx ?pv (hds i) (g i)"
      using chainsD(1) [OF c, of i] by (subst dlist_cong) auto
    with False show ?thesis by (simp add: push_hd_def)
  qed
  then show ?thesis
    using chainsD(2) [OF c] x by (auto simp: chains_def)
qed

lemma chains_unlink_other:
  assumes c: "chains nx pv hds ix g L" and x: "x \<in> L" and "ix y \<noteq> ix x" and "y \<in> L"
  shows "unl_nx nx pv x y = nx y" and "unl_pv nx pv x y = pv y"
proof -
  have "pv x = Some q \<Longrightarrow> ix q = ix x" and "nx x = Some q \<Longrightarrow> ix q = ix x" for q
    using chainsD(1,2) [OF c, of "ix x"] chainsD(3) [OF c x]
      dlist_prev_in [of nx pv "hds (ix x)" "g (ix x)" x q] dlist_next_in [of nx pv "hds (ix x)" "g (ix x)" x q]
    by auto
  then show "unl_nx nx pv x y = nx y" and "unl_pv nx pv x y = pv y"
    using assms(3) by (metis unl_nx_other, metis unl_pv_other)
qed

lemma chains_unlink:
  assumes c: "chains nx pv hds ix g L" and x: "x \<in> L"
  shows "chains (unl_nx nx pv x) (unl_pv nx pv x) (drop_hd nx pv hds ix x) ix
           (g(ix x := remove1 x (g (ix x)))) (L - {x})"
proof -
  have "dlist (unl_nx nx pv x) (unl_pv nx pv x) (drop_hd nx pv hds ix x i) ((g(ix x := remove1 x (g (ix x)))) i)"
    (is "?D i") for i
  proof (cases "i = ix x")
    case True
    then show ?thesis
      using dlist_unlink [OF chainsD(1) [OF c, of "ix x"] chainsD(3) [OF c x]]
      by (simp add: drop_hd_def unl_hd_def split: option.splits)
  next
    case False
    then have "dlist (unl_nx nx pv x) (unl_pv nx pv x) (hds i) (g i)"
      using chainsD(1,2) [OF c, of i] chains_unlink_other [OF c x] by (subst dlist_cong) auto
    with False show ?thesis by (simp add: drop_hd_def split: option.splits)
  qed
  moreover have "distinct (g (ix x))" using chainsD(1) [OF c] by (simp add: dlist_def)
  ultimately show ?thesis
    using chainsD(2) [OF c] by (auto simp: chains_def)
qed

lemma chains_front:
  assumes c: "chains nx pv hds ix g L" and x: "x \<in> L" and h: "hds (ix x) \<noteq> Some x"
  shows "chains (front_nx nx pv (hds (ix x)) x) (front_pv nx pv (hds (ix x)) x) (push_hd hds ix x) ix
           (g(ix x := x # remove1 x (g (ix x)))) L"
proof -
  have "drop_hd nx pv hds ix x = hds"
    using dlist_prev_None [OF chainsD(1) [OF c] chainsD(3) [OF c x]] h
    by (auto simp: drop_hd_def split: option.splits)
  with chains_unlink [OF c x] have c': "chains (unl_nx nx pv x) (unl_pv nx pv x) hds ix (g(ix x := remove1 x (g (ix x)))) (L - {x})"
    by simp
  from chains_push [OF c', of x] x show ?thesis
    by (simp add: front_nx_def front_pv_def insert_absorb)
qed

section \<open>The view\<close>

text \<open>
  Connections: \<open>cnx, cpv\<close> their chain links, \<open>anx, apv\<close> the links of the list of all connections,
  \<open>ckey\<close> and \<open>cix\<close> the lookup key and its hash, \<open>com, crm\<close> the original and reply match. Matches:
  \<open>mnx, mpv\<close> the chain links, \<open>vnx, vpv, von\<close> the active list and the flag of membership, \<open>mkey\<close>
  and \<open>mix\<close> the key and its hash, \<open>mco\<close> the connection and \<open>mct\<close> the counter match.
\<close>

record ('k, 'j) ftab =
  cnx :: link
  cpv :: link
  chd :: "nat \<Rightarrow> ptr option"
  anx :: link
  apv :: link
  ahd :: "ptr option"
  atl :: "ptr option"
  mnx :: link
  mpv :: link
  mhd :: "nat \<Rightarrow> ptr option"
  vnx :: link
  vpv :: link
  vhd :: "ptr option"
  vtl :: "ptr option"
  von :: "ptr \<Rightarrow> bool"
  ckey :: "ptr \<Rightarrow> 'k"
  cix :: "ptr \<Rightarrow> nat"
  mkey :: "ptr \<Rightarrow> 'j"
  mix :: "ptr \<Rightarrow> nat"
  com :: "ptr \<Rightarrow> ptr"
  crm :: "ptr \<Rightarrow> ptr"
  mco :: "ptr \<Rightarrow> ptr"
  mct :: "ptr \<Rightarrow> ptr"

text \<open>The lists the links describe.\<close>

record lists =
  gc :: "nat \<Rightarrow> ptr list"
  ga :: "ptr list"
  gm :: "nat \<Rightarrow> ptr list"
  gv :: "ptr list"

definition ft_live :: "('k, 'j) ftab \<Rightarrow> ptr set \<Rightarrow> ptr set" where
  "ft_live t C = com t ` C \<union> crm t ` C"

definition conns_ok :: "('k, 'j) ftab \<Rightarrow> lists \<Rightarrow> bool" where
  "conns_ok t g \<longleftrightarrow> chains (cnx t) (cpv t) (chd t) (cix t) (gc g) (set (ga g))
     \<and> dqueue (anx t) (apv t) (ahd t) (atl t) (ga g) \<and> inj_on (ckey t) (set (ga g))"

definition matches_ok :: "('k, 'j) ftab \<Rightarrow> lists \<Rightarrow> ptr set \<Rightarrow> bool" where
  "matches_ok t g L \<longleftrightarrow> chains (mnx t) (mpv t) (mhd t) (mix t) (gm g) L
     \<and> dqueue (vnx t) (vpv t) (vhd t) (vtl t) (gv g) \<and> set (gv g) = {m \<in> L. von t m}
     \<and> (\<forall>m \<in> L. \<not> von t m \<longrightarrow> vnx t m = None)"

definition pairs_ok :: "('k, 'j) ftab \<Rightarrow> ptr set \<Rightarrow> bool" where
  "pairs_ok t C \<longleftrightarrow> (\<forall>c \<in> C. com t c \<noteq> crm t c \<and> mco t (com t c) = c \<and> mco t (crm t c) = c
     \<and> mct t (com t c) = crm t c \<and> mct t (crm t c) = com t c)"

definition ft_inv :: "('k, 'j) ftab \<Rightarrow> lists \<Rightarrow> bool" where
  "ft_inv t g \<longleftrightarrow> conns_ok t g \<and> matches_ok t g (ft_live t (set (ga g))) \<and> pairs_ok t (set (ga g))"

section \<open>Operations on the view\<close>

definition ft_insert_match :: "('k, 'j) ftab \<Rightarrow> ptr \<Rightarrow> ('k, 'j) ftab" where
  "ft_insert_match t m = t\<lparr>mnx := (mnx t)(m := mhd t (mix t m)),
     mpv := push_pv (mpv t) (mhd t (mix t m)) m, mhd := push_hd (mhd t) (mix t) m\<rparr>"

definition ft_inactive :: "('k, 'j) ftab \<Rightarrow> ptr \<Rightarrow> ('k, 'j) ftab" where
  "ft_inactive t m = t\<lparr>vnx := unl_nx (vnx t) (vpv t) m, vpv := unl_pv (vnx t) (vpv t) m,
     vhd := unl_hd (vnx t) (vpv t) m (vhd t), vtl := unl_tl (vnx t) (vpv t) m (vtl t)\<rparr>"

definition ft_remove_match :: "('k, 'j) ftab \<Rightarrow> ptr \<Rightarrow> ('k, 'j) ftab" where
  "ft_remove_match t m =
     (let t = t\<lparr>mnx := unl_nx (mnx t) (mpv t) m, mpv := unl_pv (mnx t) (mpv t) m,
                mhd := drop_hd (mnx t) (mpv t) (mhd t) (mix t) m\<rparr>
      in if von t m then ft_inactive t m else t)"

definition ft_insert_conn :: "('k, 'j) ftab \<Rightarrow> ptr \<Rightarrow> ('k, 'j) ftab" where
  "ft_insert_conn t c =
     (let t = t\<lparr>cnx := (cnx t)(c := chd t (cix t c)), cpv := push_pv (cpv t) (chd t (cix t c)) c,
                chd := push_hd (chd t) (cix t) c,
                apv := (apv t)(c := atl t), anx := (snoc_nx (anx t) (atl t) c)(c := None),
                ahd := snoc_hd (ahd t) (atl t) c, atl := Some c\<rparr>
      in ft_insert_match (ft_insert_match t (com t c)) (crm t c))"

definition ft_remove_conn :: "('k, 'j) ftab \<Rightarrow> ptr \<Rightarrow> ('k, 'j) ftab" where
  "ft_remove_conn t c =
     (let t = ft_remove_match (ft_remove_match t (crm t c)) (com t c)
      in t\<lparr>cnx := unl_nx (cnx t) (cpv t) c, cpv := unl_pv (cnx t) (cpv t) c,
           chd := drop_hd (cnx t) (cpv t) (chd t) (cix t) c,
           anx := unl_nx (anx t) (apv t) c, apv := unl_pv (anx t) (apv t) c,
           ahd := unl_hd (anx t) (apv t) c (ahd t), atl := unl_tl (anx t) (apv t) c (atl t)\<rparr>)"

definition ft_front :: "('k, 'j) ftab \<Rightarrow> ptr \<Rightarrow> ('k, 'j) ftab" where
  "ft_front t m = t\<lparr>mnx := front_nx (mnx t) (mpv t) (mhd t (mix t m)) m,
     mpv := front_pv (mnx t) (mpv t) (mhd t (mix t m)) m, mhd := push_hd (mhd t) (mix t) m\<rparr>"

definition ft_activate :: "('k, 'j) ftab \<Rightarrow> ptr \<Rightarrow> ('k, 'j) ftab" where
  "ft_activate t m = (if von t m then t
     else t\<lparr>von := (von t)(m := True), vpv := (vpv t)(m := vtl t), vnx := snoc_nx (vnx t) (vtl t) m,
            vhd := snoc_hd (vhd t) (vtl t) m, vtl := Some m\<rparr>)"

text \<open>Taking a match off the active list and clearing its links, as the periodic sync does.\<close>

definition ft_deactivate :: "('k, 'j) ftab \<Rightarrow> ptr \<Rightarrow> ('k, 'j) ftab" where
  "ft_deactivate t m =
     (let t' = ft_inactive t m
      in t'\<lparr>von := (von t)(m := False), vnx := (vnx t')(m := None)\<rparr>)"

section \<open>The invariant under the operations\<close>

lemma matches_ok_insert:
  assumes m: "matches_ok t g L" and x: "x \<notin> L" and off: "\<not> von t x" "vnx t x = None"
  shows "matches_ok (ft_insert_match t x) (g\<lparr>gm := (gm g)(mix t x := x # gm g (mix t x))\<rparr>) (insert x L)"
  using m x off chains_push [of "mnx t" "mpv t" "mhd t" "mix t" "gm g" L x]
  by (auto simp: matches_ok_def ft_insert_match_def)

lemma matches_ok_remove:
  assumes m: "matches_ok t g L" and x: "x \<in> L"
  shows "matches_ok (ft_remove_match t x)
           (g\<lparr>gm := (gm g)(mix t x := remove1 x (gm g (mix t x))), gv := remove1 x (gv g)\<rparr>) (L - {x})"
proof -
  from m x have c: "chains (unl_nx (mnx t) (mpv t) x) (unl_pv (mnx t) (mpv t) x)
      (drop_hd (mnx t) (mpv t) (mhd t) (mix t) x) (mix t) ((gm g)(mix t x := remove1 x (gm g (mix t x)))) (L - {x})"
    by (intro chains_unlink) (auto simp: matches_ok_def)
  from m have q: "dqueue (vnx t) (vpv t) (vhd t) (vtl t) (gv g)" and d: "distinct (gv g)"
    and s: "set (gv g) = {m \<in> L. von t m}" and o: "\<forall>m \<in> L. \<not> von t m \<longrightarrow> vnx t m = None"
    by (auto simp: matches_ok_def dqueue_def dlist_def)
  show ?thesis
  proof (cases "von t x")
    case True
    with x s have xv: "x \<in> set (gv g)" by simp
    have l: "dlist (vnx t) (vpv t) (vhd t) (gv g)"
      using q by (simp add: dqueue_def)
    have "unl_nx (vnx t) (vpv t) x m = vnx t m" if "\<not> von t m" for m
      using that s by (intro unlink_outside(1) [OF l xv]) simp
    then have "\<forall>m \<in> L - {x}. \<not> von t m \<longrightarrow> unl_nx (vnx t) (vpv t) x m = None"
      using o by simp
    moreover have "set (remove1 x (gv g)) = {m \<in> L - {x}. von t m}"
      using s d by auto
    ultimately show ?thesis
      using c dqueue_unlink [OF q xv] True
      by (simp add: matches_ok_def ft_remove_match_def ft_inactive_def Let_def)
  next
    case False
    with s have "remove1 x (gv g) = gv g" by (simp add: remove1_idem)
    moreover have "set (gv g) = {m \<in> L - {x}. von t m}"
      using s False by auto
    ultimately show ?thesis
      using c q o False by (simp add: matches_ok_def ft_remove_match_def Let_def)
  qed
qed

lemma ft_remove_match_frame [simp]:
  "cnx (ft_remove_match t m) = cnx t" "cpv (ft_remove_match t m) = cpv t" "chd (ft_remove_match t m) = chd t"
  "anx (ft_remove_match t m) = anx t" "apv (ft_remove_match t m) = apv t" "ahd (ft_remove_match t m) = ahd t"
  "atl (ft_remove_match t m) = atl t" "ckey (ft_remove_match t m) = ckey t" "cix (ft_remove_match t m) = cix t"
  "mkey (ft_remove_match t m) = mkey t" "mix (ft_remove_match t m) = mix t" "com (ft_remove_match t m) = com t"
  "crm (ft_remove_match t m) = crm t" "mco (ft_remove_match t m) = mco t" "mct (ft_remove_match t m) = mct t"
  "von (ft_remove_match t m) = von t"
  by (simp_all add: ft_remove_match_def ft_inactive_def Let_def)

lemma ft_insert_match_frame [simp]:
  "cnx (ft_insert_match t m) = cnx t" "cpv (ft_insert_match t m) = cpv t" "chd (ft_insert_match t m) = chd t"
  "anx (ft_insert_match t m) = anx t" "apv (ft_insert_match t m) = apv t" "ahd (ft_insert_match t m) = ahd t"
  "atl (ft_insert_match t m) = atl t" "ckey (ft_insert_match t m) = ckey t" "cix (ft_insert_match t m) = cix t"
  "mkey (ft_insert_match t m) = mkey t" "mix (ft_insert_match t m) = mix t" "com (ft_insert_match t m) = com t"
  "crm (ft_insert_match t m) = crm t" "mco (ft_insert_match t m) = mco t" "mct (ft_insert_match t m) = mct t"
  "von (ft_insert_match t m) = von t" "vnx (ft_insert_match t m) = vnx t"
  by (simp_all add: ft_insert_match_def)

text \<open>The lists after the removal and after the insertion of a connection.\<close>

definition lists_remove_match :: "('k, 'j) ftab \<Rightarrow> lists \<Rightarrow> ptr \<Rightarrow> lists" where
  "lists_remove_match t g m = g\<lparr>gm := (gm g)(mix t m := remove1 m (gm g (mix t m))), gv := remove1 m (gv g)\<rparr>"

definition lists_remove :: "('k, 'j) ftab \<Rightarrow> lists \<Rightarrow> ptr \<Rightarrow> lists" where
  "lists_remove t g c = (lists_remove_match t (lists_remove_match t g (crm t c)) (com t c))
     \<lparr>gc := (gc g)(cix t c := remove1 c (gc g (cix t c))), ga := remove1 c (ga g)\<rparr>"

definition lists_insert_match :: "('k, 'j) ftab \<Rightarrow> lists \<Rightarrow> ptr \<Rightarrow> lists" where
  "lists_insert_match t g m = g\<lparr>gm := (gm g)(mix t m := m # gm g (mix t m))\<rparr>"

definition lists_insert :: "('k, 'j) ftab \<Rightarrow> lists \<Rightarrow> ptr \<Rightarrow> lists" where
  "lists_insert t g c = (lists_insert_match t (lists_insert_match t g (com t c)) (crm t c))
     \<lparr>gc := (gc g)(cix t c := c # gc g (cix t c)), ga := ga g @ [c]\<rparr>"

lemma pairs_ok_disjoint:
  assumes "pairs_ok t C" and "c \<in> C" and "d \<in> C" and "c \<noteq> d"
  shows "com t c \<noteq> com t d" "com t c \<noteq> crm t d" "crm t c \<noteq> com t d" "crm t c \<noteq> crm t d"
  using assms unfolding pairs_ok_def by metis+

lemma ft_live_remove:
  assumes "pairs_ok t C" and "c \<in> C"
  shows "ft_live t (C - {c}) = ft_live t C - {crm t c} - {com t c}"
  using assms pairs_ok_disjoint [OF assms] by (auto simp: ft_live_def pairs_ok_def) metis+

lemma ft_remove_conn_inv:
  assumes i: "ft_inv t g" and c: "c \<in> set (ga g)"
  shows "ft_inv (ft_remove_conn t c) (lists_remove t g c)"
proof -
  let ?L = "ft_live t (set (ga g))"
  let ?t1 = "ft_remove_match t (crm t c)"
  let ?g1 = "lists_remove_match t g (crm t c)"
  let ?t2 = "ft_remove_match ?t1 (com t c)"
  let ?g2 = "lists_remove_match t ?g1 (com t c)"
  from i have co: "conns_ok t g" and mo: "matches_ok t g ?L" and po: "pairs_ok t (set (ga g))"
    by (simp_all add: ft_inv_def)
  have cr: "com t c \<in> ?L" "crm t c \<in> ?L" "com t c \<noteq> crm t c"
    using c po by (auto simp: ft_live_def pairs_ok_def)
  have "matches_ok ?t1 ?g1 (?L - {crm t c})"
    using matches_ok_remove [OF mo cr(2)] by (simp add: lists_remove_match_def)
  then have m2: "matches_ok ?t2 ?g2 (?L - {crm t c} - {com t c})"
    using matches_ok_remove [of ?t1 ?g1 "?L - {crm t c}" "com t c"] cr by (simp add: lists_remove_match_def)
  have d: "distinct (ga g)" and sub: "set (remove1 c (ga g)) = set (ga g) - {c}"
    using co by (auto simp: conns_ok_def dqueue_def dlist_def)
  have "matches_ok (ft_remove_conn t c) (lists_remove t g c) (ft_live (ft_remove_conn t c) (set (ga (lists_remove t g c))))"
    using m2 ft_live_remove [OF po c] sub
    by (simp add: ft_remove_conn_def lists_remove_def lists_remove_match_def matches_ok_def Let_def ft_live_def)
  moreover have "conns_ok (ft_remove_conn t c) (lists_remove t g c)"
    using co c sub chains_unlink [of "cnx t" "cpv t" "chd t" "cix t" "gc g" "set (ga g)" c]
      dqueue_unlink [of "anx t" "apv t" "ahd t" "atl t" "ga g" c]
    by (auto simp: conns_ok_def ft_remove_conn_def lists_remove_def lists_remove_match_def Let_def
        intro: inj_on_subset)
  moreover have "pairs_ok (ft_remove_conn t c) (set (ga (lists_remove t g c)))"
    using po sub by (auto simp: pairs_ok_def ft_remove_conn_def lists_remove_def Let_def)
  ultimately show ?thesis by (simp add: ft_inv_def)
qed

lemma dqueue_snoc_reset:
  assumes "dqueue nx pv h t xs" and "x \<notin> set xs"
  shows "dqueue ((snoc_nx nx t x)(x := None)) (pv(x := t)) (snoc_hd h t x) (Some x) (xs @ [x])"
proof -
  have "dqueue (nx(x := None)) pv h t xs"
    using assms by simp
  moreover have "t \<noteq> Some x"
    using assms by (auto simp: dqueue_def split: if_splits)
  then have "snoc_nx (nx(x := None)) t x = (snoc_nx nx t x)(x := None)"
    by (auto simp: snoc_nx_def fun_upd_twist split: option.splits)
  ultimately show ?thesis
    using dqueue_snoc [of "nx(x := None)" pv h t xs x] assms(2) by simp
qed

lemma ft_insert_conn_inv:
  assumes i: "ft_inv t g" and c: "c \<notin> set (ga g)"
    and key: "ckey t c \<notin> ckey t ` set (ga g)"
    and fresh: "com t c \<notin> ft_live t (set (ga g))" "crm t c \<notin> ft_live t (set (ga g))" "com t c \<noteq> crm t c"
    and bk: "mco t (com t c) = c" "mco t (crm t c) = c" "mct t (com t c) = crm t c" "mct t (crm t c) = com t c"
    and off: "\<not> von t (com t c)" "\<not> von t (crm t c)" "vnx t (com t c) = None" "vnx t (crm t c) = None"
  shows "ft_inv (ft_insert_conn t c) (lists_insert t g c)"
proof -
  let ?L = "ft_live t (set (ga g))"
  let ?g1 = "lists_insert_match t g (com t c)"
  let ?g2 = "lists_insert_match t ?g1 (crm t c)"
  from i have co: "conns_ok t g" and mo: "matches_ok t g ?L" and po: "pairs_ok t (set (ga g))"
    by (simp_all add: ft_inv_def)
  have m1: "matches_ok (ft_insert_match t (com t c)) ?g1 (insert (com t c) ?L)"
    using matches_ok_insert [OF mo fresh(1) off(1,3)] by (simp add: lists_insert_match_def)
  have m2: "matches_ok (ft_insert_match (ft_insert_match t (com t c)) (crm t c)) ?g2 (insert (crm t c) (insert (com t c) ?L))"
    using matches_ok_insert [OF m1, of "crm t c"] fresh off by (simp add: lists_insert_match_def)
  have "ft_live (ft_insert_conn t c) (set (ga (lists_insert t g c))) = insert (crm t c) (insert (com t c) ?L)"
    by (auto simp: ft_live_def ft_insert_conn_def lists_insert_def Let_def)
  then have "matches_ok (ft_insert_conn t c) (lists_insert t g c) (ft_live (ft_insert_conn t c) (set (ga (lists_insert t g c))))"
    using m2 by (simp add: matches_ok_def ft_insert_conn_def lists_insert_def lists_insert_match_def
        ft_insert_match_def Let_def)
  moreover have "conns_ok (ft_insert_conn t c) (lists_insert t g c)"
    using co c key chains_push [of "cnx t" "cpv t" "chd t" "cix t" "gc g" "set (ga g)" c]
      dqueue_snoc_reset [of "anx t" "apv t" "ahd t" "atl t" "ga g" c]
    by (auto simp: conns_ok_def ft_insert_conn_def lists_insert_def Let_def)
  moreover have "pairs_ok (ft_insert_conn t c) (set (ga (lists_insert t g c)))"
    using po fresh bk by (auto simp: pairs_ok_def ft_insert_conn_def lists_insert_def Let_def)
  ultimately show ?thesis by (simp add: ft_inv_def)
qed

lemma ft_front_inv:
  assumes i: "ft_inv t g" and m: "m \<in> ft_live t (set (ga g))" and h: "mhd t (mix t m) \<noteq> Some m"
  shows "ft_inv (ft_front t m) (g\<lparr>gm := (gm g)(mix t m := m # remove1 m (gm g (mix t m)))\<rparr>)"
  using i m h chains_front [of "mnx t" "mpv t" "mhd t" "mix t" "gm g" "ft_live t (set (ga g))" m]
  by (auto simp: ft_inv_def conns_ok_def matches_ok_def pairs_ok_def ft_front_def ft_live_def)

lemma ft_activate_inv:
  assumes i: "ft_inv t g" and m: "m \<in> ft_live t (set (ga g))"
  shows "ft_inv (ft_activate t m) (if von t m then g else g\<lparr>gv := gv g @ [m]\<rparr>)"
proof (cases "von t m")
  case False
  let ?L = "ft_live t (set (ga g))"
  from i have mo: "matches_ok t g ?L" by (simp add: ft_inv_def)
  then have q: "dqueue (vnx t) (vpv t) (vhd t) (vtl t) (gv g)" and s: "set (gv g) = {m \<in> ?L. von t m}"
    and o: "\<forall>m \<in> ?L. \<not> von t m \<longrightarrow> vnx t m = None"
    by (auto simp: matches_ok_def)
  have "dqueue (snoc_nx (vnx t) (vtl t) m) ((vpv t)(m := vtl t)) (snoc_hd (vhd t) (vtl t) m) (Some m) (gv g @ [m])"
    using q s o m False by (intro dqueue_snoc) auto
  moreover have "snoc_nx (vnx t) (vtl t) m k = None" if "k \<in> ?L" "\<not> von t k" for k
  proof -
    have "vtl t = Some r \<Longrightarrow> r \<in> set (gv g)" for r
      using q by (auto simp: dqueue_def split: if_splits)
    with that s o show ?thesis by (auto simp: snoc_nx_def split: option.splits)
  qed
  ultimately show ?thesis
    using i s m False by (auto simp: ft_inv_def conns_ok_def matches_ok_def pairs_ok_def ft_activate_def ft_live_def)
qed (use i in \<open>simp add: ft_activate_def\<close>)

lemma ft_deactivate_inv:
  assumes i: "ft_inv t g" and m: "m \<in> set (gv g)"
  shows "ft_inv (ft_deactivate t m) (g\<lparr>gv := remove1 m (gv g)\<rparr>)"
proof -
  let ?L = "ft_live t (set (ga g))"
  let ?nx = "unl_nx (vnx t) (vpv t) m"
  from i have q: "dqueue (vnx t) (vpv t) (vhd t) (vtl t) (gv g)" and s: "set (gv g) = {m \<in> ?L. von t m}"
    and o: "\<forall>m \<in> ?L. \<not> von t m \<longrightarrow> vnx t m = None" and d: "distinct (gv g)"
    by (auto simp: ft_inv_def matches_ok_def dqueue_def dlist_def)
  have "dqueue ?nx (unl_pv (vnx t) (vpv t) m) (unl_hd (vnx t) (vpv t) m (vhd t))
      (unl_tl (vnx t) (vpv t) m (vtl t)) (remove1 m (gv g))"
    by (rule dqueue_unlink [OF q m])
  then have q': "dqueue (?nx(m := None)) (unl_pv (vnx t) (vpv t) m) (unl_hd (vnx t) (vpv t) m (vhd t))
      (unl_tl (vnx t) (vpv t) m (vtl t)) (remove1 m (gv g))"
    using d by simp
  have l: "dlist (vnx t) (vpv t) (vhd t) (gv g)"
    using q by (simp add: dqueue_def)
  have "?nx k = vnx t k" if "\<not> von t k" for k
    using that s by (intro unlink_outside(1) [OF l m]) simp
  then have o': "\<forall>k \<in> ?L. \<not> ((von t)(m := False)) k \<longrightarrow> (?nx(m := None)) k = None"
    using o by simp
  have s': "set (remove1 m (gv g)) = {k \<in> ?L. ((von t)(m := False)) k}"
    using s d by auto
  have "ft_live (ft_deactivate t m) C = ft_live t C" for C
    by (simp add: ft_live_def ft_deactivate_def ft_inactive_def Let_def)
  with i q' s' o' show ?thesis
    by (simp add: ft_inv_def conns_ok_def matches_ok_def pairs_ok_def ft_deactivate_def ft_inactive_def Let_def)
qed

section \<open>Writes outside the table\<close>

text \<open>The invariant only reads the entries the tables reach.\<close>

definition ft_agree :: "('k, 'j) ftab \<Rightarrow> ('k, 'j) ftab \<Rightarrow> ptr set \<Rightarrow> ptr set \<Rightarrow> bool" where
  "ft_agree t t' C L \<longleftrightarrow> chd t' = chd t \<and> ahd t' = ahd t \<and> atl t' = atl t \<and> mhd t' = mhd t
     \<and> vhd t' = vhd t \<and> vtl t' = vtl t
     \<and> (\<forall>c \<in> C. cnx t' c = cnx t c \<and> cpv t' c = cpv t c \<and> anx t' c = anx t c \<and> apv t' c = apv t c
          \<and> ckey t' c = ckey t c \<and> cix t' c = cix t c \<and> com t' c = com t c \<and> crm t' c = crm t c)
     \<and> (\<forall>m \<in> L. mnx t' m = mnx t m \<and> mpv t' m = mpv t m \<and> vnx t' m = vnx t m \<and> vpv t' m = vpv t m
          \<and> von t' m = von t m \<and> mix t' m = mix t m \<and> mco t' m = mco t m \<and> mct t' m = mct t m)"

lemma ft_agree_live:
  assumes "ft_agree t t' C L" and "D \<subseteq> C"
  shows "ft_live t' D = ft_live t D"
  using assms by (auto simp: ft_agree_def ft_live_def image_iff subset_iff)

lemma dqueue_cong:
  "(\<And>x. x \<in> set xs \<Longrightarrow> nx' x = nx x \<and> pv' x = pv x) \<Longrightarrow> dqueue nx' pv' h t xs = dqueue nx pv h t xs"
  unfolding dqueue_def by (metis dlist_cong)

lemma ft_inv_agree:
  assumes i: "ft_inv t g" and a: "ft_agree t t' (set (ga g)) (ft_live t (set (ga g)))"
  shows "ft_inv t' g"
proof -
  let ?C = "set (ga g)" and ?L = "ft_live t (set (ga g))"
  have l: "ft_live t' ?C = ?L" by (rule ft_agree_live [OF a order_refl])
  have cl: "com t c \<in> ?L" "crm t c \<in> ?L" if "c \<in> ?C" for c
    using that by (auto simp: ft_live_def)
  from i have co: "conns_ok t g" and mo: "matches_ok t g ?L" and po: "pairs_ok t ?C"
    by (simp_all add: ft_inv_def)
  have "conns_ok t' g"
    using co a chains_cong [of ?C "cnx t'" "cnx t" "cpv t'" "cpv t" "cix t'" "cix t" "chd t" "gc g"]
      dqueue_cong [of "ga g" "anx t'" "anx t" "apv t'" "apv t" "ahd t" "atl t"]
      inj_on_cong [of ?C "ckey t'" "ckey t"]
    by (simp add: conns_ok_def ft_agree_def)
  moreover have "set (gv g) \<subseteq> ?L" using mo by (auto simp: matches_ok_def)
  then have "dqueue (vnx t') (vpv t') (vhd t) (vtl t) (gv g) = dqueue (vnx t) (vpv t) (vhd t) (vtl t) (gv g)"
    using a by (intro dqueue_cong) (auto simp: ft_agree_def)
  moreover have "{m \<in> ?L. von t' m} = {m \<in> ?L. von t m}"
    using a by (auto simp: ft_agree_def)
  ultimately have "conns_ok t' g \<and> matches_ok t' g ?L"
    using mo a chains_cong [of ?L "mnx t'" "mnx t" "mpv t'" "mpv t" "mix t'" "mix t" "mhd t" "gm g"]
    by (simp add: matches_ok_def ft_agree_def)
  moreover have "pairs_ok t' ?C"
    using po a cl by (simp add: pairs_ok_def ft_agree_def)
  ultimately show ?thesis by (simp add: ft_inv_def l)
qed

end
