(* ===== verification/SFE_IPv4_State.thy ===== *)
theory SFE_IPv4_State
  imports SFE_Kernel Flow_Table
begin

text \<open>
  The data of \<open>sfe_ipv4.c\<close>: match and connection entries, the exception events, the per-module
  structure \<open>struct sfe_ipv4\<close> with the memory its entries live in, and how that state is seen as a
  flow table. \<open>CONFIG_XFRM\<close> is taken as set and \<open>CONFIG_NF_FLOW_COOKIE\<close> as unset.
\<close>

section \<open>Entries\<close>

definition SFE_IPV4_CONNECTION_MATCH_FLAG_XLATE_SRC :: u32 where
  "SFE_IPV4_CONNECTION_MATCH_FLAG_XLATE_SRC = 1"
definition SFE_IPV4_CONNECTION_MATCH_FLAG_XLATE_DEST :: u32 where
  "SFE_IPV4_CONNECTION_MATCH_FLAG_XLATE_DEST = 2"
definition SFE_IPV4_CONNECTION_MATCH_FLAG_NO_SEQ_CHECK :: u32 where
  "SFE_IPV4_CONNECTION_MATCH_FLAG_NO_SEQ_CHECK = 4"
definition SFE_IPV4_CONNECTION_MATCH_FLAG_WRITE_FAST_ETH_HDR :: u32 where
  "SFE_IPV4_CONNECTION_MATCH_FLAG_WRITE_FAST_ETH_HDR = 8"
definition SFE_IPV4_CONNECTION_MATCH_FLAG_WRITE_L2_HDR :: u32 where
  "SFE_IPV4_CONNECTION_MATCH_FLAG_WRITE_L2_HDR = 16"
definition SFE_IPV4_CONNECTION_MATCH_FLAG_PRIORITY_REMARK :: u32 where
  "SFE_IPV4_CONNECTION_MATCH_FLAG_PRIORITY_REMARK = 32"
definition SFE_IPV4_CONNECTION_MATCH_FLAG_DSCP_REMARK :: u32 where
  "SFE_IPV4_CONNECTION_MATCH_FLAG_DSCP_REMARK = 64"

lemmas match_flag_defs =
  SFE_IPV4_CONNECTION_MATCH_FLAG_XLATE_SRC_def SFE_IPV4_CONNECTION_MATCH_FLAG_XLATE_DEST_def
  SFE_IPV4_CONNECTION_MATCH_FLAG_NO_SEQ_CHECK_def SFE_IPV4_CONNECTION_MATCH_FLAG_WRITE_FAST_ETH_HDR_def
  SFE_IPV4_CONNECTION_MATCH_FLAG_WRITE_L2_HDR_def SFE_IPV4_CONNECTION_MATCH_FLAG_PRIORITY_REMARK_def
  SFE_IPV4_CONNECTION_MATCH_FLAG_DSCP_REMARK_def

record sfe_ipv4_tcp_connection_match =
  tcp_win_scale :: u8
  tcp_max_win :: u32
  tcp_end :: u32
  tcp_max_end :: u32

record sfe_ipv4_connection_match =
  cm_next :: "ptr option"
  cm_prev :: "ptr option"
  cm_connection :: ptr
  cm_counter_match :: ptr
  cm_active_next :: "ptr option"
  cm_active_prev :: "ptr option"
  cm_active :: bool
  cm_match_dev :: dev_ptr
  cm_match_protocol :: u8
  cm_match_src_ip :: be32
  cm_match_dest_ip :: be32
  cm_match_src_port :: be16
  cm_match_dest_port :: be16
  cm_flags :: u32
  cm_flow_accel :: u32
  cm_tcp :: sfe_ipv4_tcp_connection_match
  cm_rx_packet_count :: u32
  cm_rx_byte_count :: u32
  cm_xlate_src_ip :: be32
  cm_xlate_src_port :: be16
  cm_xlate_src_csum_adjustment :: u16
  cm_xlate_src_partial_csum_adjustment :: u16
  cm_xlate_dest_ip :: be32
  cm_xlate_dest_port :: be16
  cm_xlate_dest_csum_adjustment :: u16
  cm_xlate_dest_partial_csum_adjustment :: u16
  cm_priority :: u32
  cm_dscp :: u32
  cm_xmit_dev :: dev_ptr
  cm_xmit_dev_mtu :: u16
  cm_xmit_dest_mac :: mac
  cm_xmit_src_mac :: mac
  cm_rx_packet_count64 :: u64
  cm_rx_byte_count64 :: u64

record sfe_ipv4_connection =
  c_next :: "ptr option"
  c_prev :: "ptr option"
  c_protocol :: u32
  c_src_ip :: be32
  c_src_ip_xlate :: be32
  c_dest_ip :: be32
  c_dest_ip_xlate :: be32
  c_src_port :: be16
  c_src_port_xlate :: be16
  c_dest_port :: be16
  c_dest_port_xlate :: be16
  c_original_match :: ptr
  c_original_dev :: dev_ptr
  c_reply_match :: ptr
  c_reply_dev :: dev_ptr
  c_last_sync_jiffies :: u64
  c_all_connections_next :: "ptr option"
  c_all_connections_prev :: "ptr option"
  c_mark :: u32
  c_debug_read_seq :: u32

section \<open>Exception events\<close>

datatype sfe_ipv4_exception_events =
    UDP_HEADER_INCOMPLETE
  | UDP_NO_CONNECTION
  | UDP_IP_OPTIONS_OR_INITIAL_FRAGMENT
  | UDP_SMALL_TTL
  | UDP_NEEDS_FRAGMENTATION
  | TCP_HEADER_INCOMPLETE
  | TCP_NO_CONNECTION_SLOW_FLAGS
  | TCP_NO_CONNECTION_FAST_FLAGS
  | TCP_IP_OPTIONS_OR_INITIAL_FRAGMENT
  | TCP_SMALL_TTL
  | TCP_NEEDS_FRAGMENTATION
  | TCP_FLAGS
  | TCP_SEQ_EXCEEDS_RIGHT_EDGE
  | TCP_SMALL_DATA_OFFS
  | TCP_BAD_SACK
  | TCP_BIG_DATA_OFFS
  | TCP_SEQ_BEFORE_LEFT_EDGE
  | TCP_ACK_EXCEEDS_RIGHT_EDGE
  | TCP_ACK_BEFORE_LEFT_EDGE
  | ICMP_HEADER_INCOMPLETE
  | ICMP_UNHANDLED_TYPE
  | ICMP_IPV4_HEADER_INCOMPLETE
  | ICMP_IPV4_NON_V4
  | ICMP_IPV4_IP_OPTIONS_INCOMPLETE
  | ICMP_IPV4_UDP_HEADER_INCOMPLETE
  | ICMP_IPV4_TCP_HEADER_INCOMPLETE
  | ICMP_IPV4_UNHANDLED_PROTOCOL
  | ICMP_NO_CONNECTION
  | ICMP_FLUSHED_CONNECTION
  | HEADER_INCOMPLETE
  | BAD_TOTAL_LENGTH
  | NON_V4
  | NON_INITIAL_FRAGMENT
  | DATAGRAM_INCOMPLETE
  | IP_OPTIONS_INCOMPLETE
  | UNHANDLED_PROTOCOL

section \<open>The per-module structure\<close>

text \<open>
  \<open>matches\<close> and \<open>connections\<close> are the memory the entries live in, one entry per address, and
  \<open>live_matches\<close> and \<open>live_connections\<close> the addresses \<open>kmalloc\<close> has handed out and \<open>kfree\<close> has
  not taken back. \<open>dev_refs\<close> counts the references the engine holds on each device
  (\<open>dev_hold\<close> minus \<open>dev_put\<close>). The callback is an opaque function pointer, NULL when None.
\<close>

record sfe_ipv4 =
  matches :: "ptr \<Rightarrow> sfe_ipv4_connection_match"
  connections :: "ptr \<Rightarrow> sfe_ipv4_connection"
  live_matches :: "ptr set"
  live_connections :: "ptr set"
  dev_refs :: "dev_ptr \<Rightarrow> int"
  active_head :: "ptr option"
  active_tail :: "ptr option"
  all_connections_head :: "ptr option"
  all_connections_tail :: "ptr option"
  num_connections :: u32
  timer_expires :: u64
  sync_rule_callback :: "ptr option"
  conn_hash :: "nat \<Rightarrow> ptr option"
  conn_match_hash :: "nat \<Rightarrow> ptr option"
  connection_create_requests :: u32
  connection_create_collisions :: u32
  connection_destroy_requests :: u32
  connection_destroy_misses :: u32
  connection_match_hash_hits :: u32
  connection_match_hash_reorders :: u32
  connection_flushes :: u32
  packets_forwarded :: u32
  packets_not_forwarded :: u32
  exception_events :: "sfe_ipv4_exception_events \<Rightarrow> u32"
  connection_create_requests64 :: u64
  connection_create_collisions64 :: u64
  connection_destroy_requests64 :: u64
  connection_destroy_misses64 :: u64
  connection_match_hash_hits64 :: u64
  connection_match_hash_reorders64 :: u64
  connection_flushes64 :: u64
  packets_forwarded64 :: u64
  packets_not_forwarded64 :: u64
  exception_events64 :: "sfe_ipv4_exception_events \<Rightarrow> u64"
  debug_dev :: u32
  debug_read_seq :: u32

text \<open>Writes through a match or connection pointer.\<close>

definition upd_cm :: "ptr \<Rightarrow> (sfe_ipv4_connection_match \<Rightarrow> sfe_ipv4_connection_match) \<Rightarrow> sfe_ipv4 \<Rightarrow> sfe_ipv4" where
  "upd_cm p f si = si\<lparr>matches := (matches si)(p := f (matches si p))\<rparr>"

definition upd_c :: "ptr \<Rightarrow> (sfe_ipv4_connection \<Rightarrow> sfe_ipv4_connection) \<Rightarrow> sfe_ipv4 \<Rightarrow> sfe_ipv4" where
  "upd_c p f si = si\<lparr>connections := (connections si)(p := f (connections si p))\<rparr>"

text \<open>\<open>if (p) p->... = ...\<close>\<close>

definition upd_cm_opt :: "ptr option \<Rightarrow> (sfe_ipv4_connection_match \<Rightarrow> sfe_ipv4_connection_match) \<Rightarrow> sfe_ipv4 \<Rightarrow> sfe_ipv4" where
  "upd_cm_opt po f si = (case po of None \<Rightarrow> si | Some p \<Rightarrow> upd_cm p f si)"

definition upd_c_opt :: "ptr option \<Rightarrow> (sfe_ipv4_connection \<Rightarrow> sfe_ipv4_connection) \<Rightarrow> sfe_ipv4 \<Rightarrow> sfe_ipv4" where
  "upd_c_opt po f si = (case po of None \<Rightarrow> si | Some p \<Rightarrow> upd_c p f si)"

text \<open>The state of the zero-initialised \<open>__si\<close>.\<close>

definition init_match :: sfe_ipv4_connection_match where
  "init_match = \<lparr>cm_next = None, cm_prev = None, cm_connection = 0, cm_counter_match = 0,
     cm_active_next = None, cm_active_prev = None, cm_active = False, cm_match_dev = 0,
     cm_match_protocol = 0, cm_match_src_ip = 0, cm_match_dest_ip = 0, cm_match_src_port = 0,
     cm_match_dest_port = 0, cm_flags = 0, cm_flow_accel = 0,
     cm_tcp = \<lparr>tcp_win_scale = 0, tcp_max_win = 0, tcp_end = 0, tcp_max_end = 0\<rparr>,
     cm_rx_packet_count = 0, cm_rx_byte_count = 0, cm_xlate_src_ip = 0, cm_xlate_src_port = 0,
     cm_xlate_src_csum_adjustment = 0, cm_xlate_src_partial_csum_adjustment = 0,
     cm_xlate_dest_ip = 0, cm_xlate_dest_port = 0, cm_xlate_dest_csum_adjustment = 0,
     cm_xlate_dest_partial_csum_adjustment = 0, cm_priority = 0, cm_dscp = 0, cm_xmit_dev = 0,
     cm_xmit_dev_mtu = 0, cm_xmit_dest_mac = (\<lambda>_. 0), cm_xmit_src_mac = (\<lambda>_. 0),
     cm_rx_packet_count64 = 0, cm_rx_byte_count64 = 0\<rparr>"

definition init_connection :: sfe_ipv4_connection where
  "init_connection = \<lparr>c_next = None, c_prev = None, c_protocol = 0, c_src_ip = 0, c_src_ip_xlate = 0,
     c_dest_ip = 0, c_dest_ip_xlate = 0, c_src_port = 0, c_src_port_xlate = 0, c_dest_port = 0,
     c_dest_port_xlate = 0, c_original_match = 0, c_original_dev = 0, c_reply_match = 0,
     c_reply_dev = 0, c_last_sync_jiffies = 0, c_all_connections_next = None,
     c_all_connections_prev = None, c_mark = 0, c_debug_read_seq = 0\<rparr>"

definition init_si :: sfe_ipv4 where
  "init_si = \<lparr>matches = (\<lambda>_. init_match), connections = (\<lambda>_. init_connection), live_matches = {},
     live_connections = {}, dev_refs = (\<lambda>_. 0), active_head = None, active_tail = None,
     all_connections_head = None, all_connections_tail = None, num_connections = 0, timer_expires = 0,
     sync_rule_callback = None, conn_hash = (\<lambda>_. None), conn_match_hash = (\<lambda>_. None),
     connection_create_requests = 0, connection_create_collisions = 0, connection_destroy_requests = 0,
     connection_destroy_misses = 0, connection_match_hash_hits = 0, connection_match_hash_reorders = 0,
     connection_flushes = 0, packets_forwarded = 0, packets_not_forwarded = 0,
     exception_events = (\<lambda>_. 0), connection_create_requests64 = 0, connection_create_collisions64 = 0,
     connection_destroy_requests64 = 0, connection_destroy_misses64 = 0, connection_match_hash_hits64 = 0,
     connection_match_hash_reorders64 = 0, connection_flushes64 = 0, packets_forwarded64 = 0,
     packets_not_forwarded64 = 0, exception_events64 = (\<lambda>_. 0), debug_dev = 0, debug_read_seq = 0\<rparr>"

end
