(* ===== verification/SFE_IPv4_Table.thy ===== *)
theory SFE_IPv4_Table
  imports SFE_IPv4_State
begin

text \<open>
  The hash tables of the IPv4 engine: the two hashes, the lookups (the match lookup moves what it
  finds to the front of its chain), insertion and removal of matches and connections. Each
  operation is shown to act on the flow table view as the generic operation does, which gives the
  structural invariant \<open>sfe_wf\<close> and, from it, what the lookups find.
\<close>

section \<open>Hashes\<close>

definition SFE_IPV4_CONNECTION_HASH_SHIFT :: nat where "SFE_IPV4_CONNECTION_HASH_SHIFT = 12"
definition SFE_IPV4_CONNECTION_HASH_MASK :: u32 where "SFE_IPV4_CONNECTION_HASH_MASK = 4095"

definition sfe_ipv4_get_connection_match_hash ::
  "dev_ptr \<Rightarrow> u8 \<Rightarrow> be32 \<Rightarrow> be16 \<Rightarrow> be32 \<Rightarrow> be16 \<Rightarrow> nat" where
  "sfe_ipv4_get_connection_match_hash dev protocol src_ip src_port dest_ip dest_port =
     (let hash = (ucast dev :: u32) XOR ntohl (src_ip XOR dest_ip) XOR ucast protocol
                   XOR ucast (ntohs (src_port XOR dest_port))
      in unat ((drop_bit SFE_IPV4_CONNECTION_HASH_SHIFT hash XOR hash) AND SFE_IPV4_CONNECTION_HASH_MASK))"

definition sfe_ipv4_get_connection_hash :: "u8 \<Rightarrow> be32 \<Rightarrow> be16 \<Rightarrow> be32 \<Rightarrow> be16 \<Rightarrow> nat" where
  "sfe_ipv4_get_connection_hash protocol src_ip src_port dest_ip dest_port =
     (let hash = ntohl (src_ip XOR dest_ip) XOR ucast protocol XOR ucast (ntohs (src_port XOR dest_port))
      in unat ((drop_bit SFE_IPV4_CONNECTION_HASH_SHIFT hash XOR hash) AND SFE_IPV4_CONNECTION_HASH_MASK))"

section \<open>The lookup of a match\<close>

text \<open>The comparison of the lookup loops.\<close>

definition match_is :: "sfe_ipv4_connection_match \<Rightarrow> dev_ptr \<Rightarrow> u8 \<Rightarrow> be32 \<Rightarrow> be16 \<Rightarrow> be32 \<Rightarrow> be16 \<Rightarrow> bool" where
  "match_is cm dev protocol src_ip src_port dest_ip dest_port \<longleftrightarrow>
     cm_match_src_port cm = src_port \<and> cm_match_dest_port cm = dest_port
     \<and> cm_match_src_ip cm = src_ip \<and> cm_match_dest_ip cm = dest_ip
     \<and> cm_match_protocol cm = protocol \<and> cm_match_dev cm = dev"

text \<open>
  The outer option is None where the loop does not return. On a NULL result the state is as before.
\<close>

definition sfe_ipv4_find_sfe_ipv4_connection_match ::
  "sfe_ipv4 \<Rightarrow> dev_ptr \<Rightarrow> u8 \<Rightarrow> be32 \<Rightarrow> be16 \<Rightarrow> be32 \<Rightarrow> be16 \<Rightarrow> (ptr option \<times> sfe_ipv4) option" where
  "sfe_ipv4_find_sfe_ipv4_connection_match si dev protocol src_ip src_port dest_ip dest_port =
     (let conn_match_idx = sfe_ipv4_get_connection_match_hash dev protocol src_ip src_port dest_ip dest_port;
          is = (\<lambda>p. match_is (matches si p) dev protocol src_ip src_port dest_ip dest_port)
      in case conn_match_hash si conn_match_idx of
           None \<Rightarrow> Some (None, si)
         | Some head \<Rightarrow>
             if is head
             then Some (Some head, si\<lparr>connection_match_hash_hits := connection_match_hash_hits si + 1\<rparr>)
             else do {
               r \<leftarrow> chain_find (\<lambda>p. cm_next (matches si p)) is (cm_next (matches si head));
               case r of
                 None \<Rightarrow> Some (None, si)
               | Some cm \<Rightarrow>
                   let si = upd_cm_opt (cm_next (matches si cm)) (\<lambda>n. n\<lparr>cm_prev := cm_prev (matches si cm)\<rparr>) si;
                       si = upd_cm_opt (cm_prev (matches si cm)) (\<lambda>p. p\<lparr>cm_next := cm_next (matches si cm)\<rparr>) si;
                       si = upd_cm cm (\<lambda>m. m\<lparr>cm_prev := None, cm_next := Some head\<rparr>) si;
                       si = upd_cm head (\<lambda>m. m\<lparr>cm_prev := Some cm\<rparr>) si
                   in Some (Some cm, si\<lparr>conn_match_hash := (conn_match_hash si)(conn_match_idx := Some cm),
                                        connection_match_hash_reorders := connection_match_hash_reorders si + 1\<rparr>)
             })"

section \<open>Insertion and removal of a match\<close>

definition cm_hash :: "sfe_ipv4_connection_match \<Rightarrow> nat" where
  "cm_hash m = sfe_ipv4_get_connection_match_hash (cm_match_dev m) (cm_match_protocol m)
     (cm_match_src_ip m) (cm_match_src_port m) (cm_match_dest_ip m) (cm_match_dest_port m)"

definition sfe_ipv4_insert_sfe_ipv4_connection_match :: "sfe_ipv4 \<Rightarrow> ptr \<Rightarrow> sfe_ipv4" where
  "sfe_ipv4_insert_sfe_ipv4_connection_match si cm =
     (let conn_match_idx = cm_hash (matches si cm);
          prev_head = conn_match_hash si conn_match_idx;
          si = upd_cm cm (\<lambda>m. m\<lparr>cm_prev := None\<rparr>) si;
          si = upd_cm_opt prev_head (\<lambda>m. m\<lparr>cm_prev := Some cm\<rparr>) si;
          si = upd_cm cm (\<lambda>m. m\<lparr>cm_next := prev_head\<rparr>) si
      in si\<lparr>conn_match_hash := (conn_match_hash si)(conn_match_idx := Some cm)\<rparr>)"

definition sfe_ipv4_remove_sfe_ipv4_connection_match :: "sfe_ipv4 \<Rightarrow> ptr \<Rightarrow> sfe_ipv4" where
  "sfe_ipv4_remove_sfe_ipv4_connection_match si cm =
     (let si = (case cm_prev (matches si cm) of
                  Some p \<Rightarrow> upd_cm p (\<lambda>m. m\<lparr>cm_next := cm_next (matches si cm)\<rparr>) si
                | None \<Rightarrow> si\<lparr>conn_match_hash := (conn_match_hash si)
                                 (cm_hash (matches si cm) := cm_next (matches si cm))\<rparr>);
          si = upd_cm_opt (cm_next (matches si cm)) (\<lambda>m. m\<lparr>cm_prev := cm_prev (matches si cm)\<rparr>) si
      in if cm_active (matches si cm)
         then let si = (case cm_active_prev (matches si cm) of
                          Some p \<Rightarrow> upd_cm p (\<lambda>m. m\<lparr>cm_active_next := cm_active_next (matches si cm)\<rparr>) si
                        | None \<Rightarrow> si\<lparr>active_head := cm_active_next (matches si cm)\<rparr>)
              in (case cm_active_next (matches si cm) of
                    Some n \<Rightarrow> upd_cm n (\<lambda>m. m\<lparr>cm_active_prev := cm_active_prev (matches si cm)\<rparr>) si
                  | None \<Rightarrow> si\<lparr>active_tail := cm_active_prev (matches si cm)\<rparr>)
         else si)"

section \<open>Connections\<close>

definition connection_is :: "sfe_ipv4_connection \<Rightarrow> u32 \<Rightarrow> be32 \<Rightarrow> be16 \<Rightarrow> be32 \<Rightarrow> be16 \<Rightarrow> bool" where
  "connection_is c protocol src_ip src_port dest_ip dest_port \<longleftrightarrow>
     c_src_port c = src_port \<and> c_dest_port c = dest_port
     \<and> c_src_ip c = src_ip \<and> c_dest_ip c = dest_ip \<and> c_protocol c = protocol"

definition sfe_ipv4_find_sfe_ipv4_connection ::
  "sfe_ipv4 \<Rightarrow> u32 \<Rightarrow> be32 \<Rightarrow> be16 \<Rightarrow> be32 \<Rightarrow> be16 \<Rightarrow> ptr option option" where
  "sfe_ipv4_find_sfe_ipv4_connection si protocol src_ip src_port dest_ip dest_port =
     (let conn_idx = sfe_ipv4_get_connection_hash (ucast protocol) src_ip src_port dest_ip dest_port;
          is = (\<lambda>p. connection_is (connections si p) protocol src_ip src_port dest_ip dest_port)
      in case conn_hash si conn_idx of
           None \<Rightarrow> Some None
         | Some c \<Rightarrow> if is c then Some (Some c)
                     else chain_find (\<lambda>p. c_next (connections si p)) is (c_next (connections si c)))"

definition c_hash :: "sfe_ipv4_connection \<Rightarrow> nat" where
  "c_hash c = sfe_ipv4_get_connection_hash (ucast (c_protocol c)) (c_src_ip c) (c_src_port c)
     (c_dest_ip c) (c_dest_port c)"

text \<open>
  Insertion and removal, with the connection's own links and its matches as the two halves of each
  function.
\<close>

definition link_connection :: "sfe_ipv4 \<Rightarrow> ptr \<Rightarrow> sfe_ipv4" where
  "link_connection si c =
     (let conn_idx = c_hash (connections si c);
          prev_head = conn_hash si conn_idx;
          si = upd_c c (\<lambda>x. x\<lparr>c_prev := None\<rparr>) si;
          si = upd_c_opt prev_head (\<lambda>x. x\<lparr>c_prev := Some c\<rparr>) si;
          si = upd_c c (\<lambda>x. x\<lparr>c_next := prev_head\<rparr>) si;
          si = si\<lparr>conn_hash := (conn_hash si)(conn_idx := Some c)\<rparr>;
          si = (case all_connections_tail si of
                  Some t \<Rightarrow> upd_c t (\<lambda>x. x\<lparr>c_all_connections_next := Some c\<rparr>)
                              (upd_c c (\<lambda>x. x\<lparr>c_all_connections_prev := all_connections_tail si\<rparr>) si)
                | None \<Rightarrow> (upd_c c (\<lambda>x. x\<lparr>c_all_connections_prev := None\<rparr>) si)\<lparr>all_connections_head := Some c\<rparr>);
          si = si\<lparr>all_connections_tail := Some c\<rparr>;
          si = upd_c c (\<lambda>x. x\<lparr>c_all_connections_next := None\<rparr>) si
      in si\<lparr>num_connections := num_connections si + 1\<rparr>)"

definition sfe_ipv4_insert_sfe_ipv4_connection :: "sfe_ipv4 \<Rightarrow> ptr \<Rightarrow> sfe_ipv4" where
  "sfe_ipv4_insert_sfe_ipv4_connection si c =
     (let si = link_connection si c;
          si = sfe_ipv4_insert_sfe_ipv4_connection_match si (c_original_match (connections si c))
      in sfe_ipv4_insert_sfe_ipv4_connection_match si (c_reply_match (connections si c)))"

definition unlink_connection :: "sfe_ipv4 \<Rightarrow> ptr \<Rightarrow> sfe_ipv4" where
  "unlink_connection si c =
     (let si = (case c_prev (connections si c) of
                  Some p \<Rightarrow> upd_c p (\<lambda>x. x\<lparr>c_next := c_next (connections si c)\<rparr>) si
                | None \<Rightarrow> si\<lparr>conn_hash := (conn_hash si)(c_hash (connections si c) := c_next (connections si c))\<rparr>);
          si = upd_c_opt (c_next (connections si c)) (\<lambda>x. x\<lparr>c_prev := c_prev (connections si c)\<rparr>) si;
          si = (case c_all_connections_prev (connections si c) of
                  Some p \<Rightarrow> upd_c p (\<lambda>x. x\<lparr>c_all_connections_next := c_all_connections_next (connections si c)\<rparr>) si
                | None \<Rightarrow> si\<lparr>all_connections_head := c_all_connections_next (connections si c)\<rparr>);
          si = (case c_all_connections_next (connections si c) of
                  Some n \<Rightarrow> upd_c n (\<lambda>x. x\<lparr>c_all_connections_prev := c_all_connections_prev (connections si c)\<rparr>) si
                | None \<Rightarrow> si\<lparr>all_connections_tail := c_all_connections_prev (connections si c)\<rparr>)
      in si\<lparr>num_connections := num_connections si - 1\<rparr>)"

definition sfe_ipv4_remove_sfe_ipv4_connection :: "sfe_ipv4 \<Rightarrow> ptr \<Rightarrow> sfe_ipv4" where
  "sfe_ipv4_remove_sfe_ipv4_connection si c =
     (let si = sfe_ipv4_remove_sfe_ipv4_connection_match si (c_reply_match (connections si c));
          si = sfe_ipv4_remove_sfe_ipv4_connection_match si (c_original_match (connections si c))
      in unlink_connection si c)"

section \<open>The flow table view\<close>

type_synonym conn_key = "u32 \<times> be32 \<times> be16 \<times> be32 \<times> be16"
type_synonym match_key = "dev_ptr \<times> u8 \<times> be32 \<times> be16 \<times> be32 \<times> be16"

definition c_key :: "sfe_ipv4_connection \<Rightarrow> conn_key" where
  "c_key c = (c_protocol c, c_src_ip c, c_src_port c, c_dest_ip c, c_dest_port c)"

definition cm_key :: "sfe_ipv4_connection_match \<Rightarrow> match_key" where
  "cm_key m = (cm_match_dev m, cm_match_protocol m, cm_match_src_ip m, cm_match_src_port m,
     cm_match_dest_ip m, cm_match_dest_port m)"

definition ft :: "sfe_ipv4 \<Rightarrow> (conn_key, match_key) ftab" where
  "ft si = \<lparr>cnx = (\<lambda>p. c_next (connections si p)), cpv = (\<lambda>p. c_prev (connections si p)), chd = conn_hash si,
     anx = (\<lambda>p. c_all_connections_next (connections si p)),
     apv = (\<lambda>p. c_all_connections_prev (connections si p)),
     ahd = all_connections_head si, atl = all_connections_tail si,
     mnx = (\<lambda>p. cm_next (matches si p)), mpv = (\<lambda>p. cm_prev (matches si p)), mhd = conn_match_hash si,
     vnx = (\<lambda>p. cm_active_next (matches si p)), vpv = (\<lambda>p. cm_active_prev (matches si p)),
     vhd = active_head si, vtl = active_tail si, von = (\<lambda>p. cm_active (matches si p)),
     ckey = (\<lambda>p. c_key (connections si p)), cix = (\<lambda>p. c_hash (connections si p)),
     mkey = (\<lambda>p. cm_key (matches si p)), mix = (\<lambda>p. cm_hash (matches si p)),
     com = (\<lambda>p. c_original_match (connections si p)), crm = (\<lambda>p. c_reply_match (connections si p)),
     mco = (\<lambda>p. cm_connection (matches si p)), mct = (\<lambda>p. cm_counter_match (matches si p))\<rparr>"

lemma ft_sel [simp]:
  "cnx (ft si) = (\<lambda>p. c_next (connections si p))" "cpv (ft si) = (\<lambda>p. c_prev (connections si p))"
  "chd (ft si) = conn_hash si" "anx (ft si) = (\<lambda>p. c_all_connections_next (connections si p))"
  "apv (ft si) = (\<lambda>p. c_all_connections_prev (connections si p))" "ahd (ft si) = all_connections_head si"
  "atl (ft si) = all_connections_tail si" "mnx (ft si) = (\<lambda>p. cm_next (matches si p))"
  "mpv (ft si) = (\<lambda>p. cm_prev (matches si p))" "mhd (ft si) = conn_match_hash si"
  "vnx (ft si) = (\<lambda>p. cm_active_next (matches si p))" "vpv (ft si) = (\<lambda>p. cm_active_prev (matches si p))"
  "vhd (ft si) = active_head si" "vtl (ft si) = active_tail si" "von (ft si) = (\<lambda>p. cm_active (matches si p))"
  "ckey (ft si) = (\<lambda>p. c_key (connections si p))" "cix (ft si) = (\<lambda>p. c_hash (connections si p))"
  "mkey (ft si) = (\<lambda>p. cm_key (matches si p))" "mix (ft si) = (\<lambda>p. cm_hash (matches si p))"
  "com (ft si) = (\<lambda>p. c_original_match (connections si p))" "crm (ft si) = (\<lambda>p. c_reply_match (connections si p))"
  "mco (ft si) = (\<lambda>p. cm_connection (matches si p))" "mct (ft si) = (\<lambda>p. cm_counter_match (matches si p))"
  by (simp_all add: ft_def)


lemmas upd_defs = upd_cm_def upd_c_def upd_cm_opt_def upd_c_opt_def

lemma key_hash_cong:
  "cm_hash m' = cm_hash m" if "cm_key m' = cm_key m"
  using that by (simp add: cm_key_def cm_hash_def)

text \<open>How each kind of write shows in the view.\<close>

lemma ft_upd_cm [simp]:
  "ft (upd_cm p (\<lambda>m. m\<lparr>cm_next := v\<rparr>) si) = (ft si)\<lparr>mnx := (mnx (ft si))(p := v)\<rparr>"
  "ft (upd_cm p (\<lambda>m. m\<lparr>cm_prev := v\<rparr>) si) = (ft si)\<lparr>mpv := (mpv (ft si))(p := v)\<rparr>"
  "ft (upd_cm p (\<lambda>m. m\<lparr>cm_active_next := v\<rparr>) si) = (ft si)\<lparr>vnx := (vnx (ft si))(p := v)\<rparr>"
  "ft (upd_cm p (\<lambda>m. m\<lparr>cm_active_prev := v\<rparr>) si) = (ft si)\<lparr>vpv := (vpv (ft si))(p := v)\<rparr>"
  "ft (upd_cm p (\<lambda>m. m\<lparr>cm_active := b\<rparr>) si) = (ft si)\<lparr>von := (von (ft si))(p := b)\<rparr>"
  by (simp_all add: ft_def upd_cm_def fun_eq_iff cm_hash_def cm_key_def)

lemma ft_upd_c [simp]:
  "ft (upd_c p (\<lambda>m. m\<lparr>c_next := v\<rparr>) si) = (ft si)\<lparr>cnx := (cnx (ft si))(p := v)\<rparr>"
  "ft (upd_c p (\<lambda>m. m\<lparr>c_prev := v\<rparr>) si) = (ft si)\<lparr>cpv := (cpv (ft si))(p := v)\<rparr>"
  "ft (upd_c p (\<lambda>m. m\<lparr>c_all_connections_next := v\<rparr>) si) = (ft si)\<lparr>anx := (anx (ft si))(p := v)\<rparr>"
  "ft (upd_c p (\<lambda>m. m\<lparr>c_all_connections_prev := v\<rparr>) si) = (ft si)\<lparr>apv := (apv (ft si))(p := v)\<rparr>"
  by (simp_all add: ft_def upd_c_def fun_eq_iff c_hash_def c_key_def)

lemma ft_upd_si [simp]:
  "ft (si\<lparr>conn_match_hash := h\<rparr>) = (ft si)\<lparr>mhd := h\<rparr>"
  "ft (si\<lparr>conn_hash := h\<rparr>) = (ft si)\<lparr>chd := h\<rparr>"
  "ft (si\<lparr>active_head := q\<rparr>) = (ft si)\<lparr>vhd := q\<rparr>"
  "ft (si\<lparr>active_tail := q\<rparr>) = (ft si)\<lparr>vtl := q\<rparr>"
  "ft (si\<lparr>all_connections_head := q\<rparr>) = (ft si)\<lparr>ahd := q\<rparr>"
  "ft (si\<lparr>all_connections_tail := q\<rparr>) = (ft si)\<lparr>atl := q\<rparr>"
  "ft (si\<lparr>num_connections := n\<rparr>) = ft si"
  "ft (si\<lparr>connection_match_hash_hits := n\<rparr>) = ft si"
  "ft (si\<lparr>connection_match_hash_reorders := n\<rparr>) = ft si"
  by (simp_all add: ft_def)

text \<open>Reading a link back from the view, for use from right to left.\<close>

lemma ft_read:
  "cm_next (matches si p) = mnx (ft si) p" "cm_prev (matches si p) = mpv (ft si) p"
  "cm_active_next (matches si p) = vnx (ft si) p" "cm_active_prev (matches si p) = vpv (ft si) p"
  "cm_active (matches si p) = von (ft si) p" "cm_hash (matches si p) = mix (ft si) p"
  "c_next (connections si p) = cnx (ft si) p" "c_prev (connections si p) = cpv (ft si) p"
  "c_all_connections_next (connections si p) = anx (ft si) p"
  "c_all_connections_prev (connections si p) = apv (ft si) p"
  "c_hash (connections si p) = cix (ft si) p"
  "c_original_match (connections si p) = com (ft si) p" "c_reply_match (connections si p) = crm (ft si) p"
  "conn_match_hash si = mhd (ft si)" "conn_hash si = chd (ft si)"
  "active_head si = vhd (ft si)" "active_tail si = vtl (ft si)"
  "all_connections_head si = ahd (ft si)" "all_connections_tail si = atl (ft si)"
  by simp_all

lemma ft_insert_match:
  "ft (sfe_ipv4_insert_sfe_ipv4_connection_match si cm) = ft_insert_match (ft si) cm"
  unfolding sfe_ipv4_insert_sfe_ipv4_connection_match_def Let_def upd_cm_opt_def ft_insert_match_def
    push_pv_def push_hd_def
  by (cases "mhd (ft si) (mix (ft si) cm)") (simp_all add: ft_read del: ft_sel)

lemma ft_remove_match:
  "ft (sfe_ipv4_remove_sfe_ipv4_connection_match si cm) = ft_remove_match (ft si) cm"
  unfolding sfe_ipv4_remove_sfe_ipv4_connection_match_def Let_def upd_cm_opt_def ft_remove_match_def
    ft_inactive_def unl_nx_def unl_pv_def unl_hd_def unl_tl_def drop_hd_def
  by (cases "mpv (ft si) cm"; cases "mnx (ft si) cm"; cases "von (ft si) cm"; cases "vnx (ft si) cm"; cases "vpv (ft si) cm")
    (auto simp: ft_read simp del: ft_sel)


lemma ft_unlink_connection:
  "ft (unlink_connection si c) = (ft si)\<lparr>
     cnx := unl_nx (cnx (ft si)) (cpv (ft si)) c, cpv := unl_pv (cnx (ft si)) (cpv (ft si)) c,
     chd := drop_hd (cnx (ft si)) (cpv (ft si)) (chd (ft si)) (cix (ft si)) c,
     anx := unl_nx (anx (ft si)) (apv (ft si)) c, apv := unl_pv (anx (ft si)) (apv (ft si)) c,
     ahd := unl_hd (anx (ft si)) (apv (ft si)) c (ahd (ft si)),
     atl := unl_tl (anx (ft si)) (apv (ft si)) c (atl (ft si))\<rparr>"
  unfolding unlink_connection_def Let_def upd_c_opt_def unl_nx_def unl_pv_def unl_hd_def unl_tl_def drop_hd_def
  by (cases "cpv (ft si) c"; cases "cnx (ft si) c"; cases "anx (ft si) c"; cases "apv (ft si) c")
    (auto simp: ft_read simp del: ft_sel)

lemma ft_remove_connection:
  "ft (sfe_ipv4_remove_sfe_ipv4_connection si c) = ft_remove_conn (ft si) c"
  by (simp add: sfe_ipv4_remove_sfe_ipv4_connection_def Let_def ft_unlink_connection ft_remove_match ft_remove_conn_def
      ft_read del: ft_sel)

lemma ft_link_connection:
  "ft (link_connection si c) = (ft si)\<lparr>
     cnx := (cnx (ft si))(c := chd (ft si) (cix (ft si) c)),
     cpv := push_pv (cpv (ft si)) (chd (ft si) (cix (ft si) c)) c,
     chd := push_hd (chd (ft si)) (cix (ft si)) c,
     apv := (apv (ft si))(c := atl (ft si)), anx := (snoc_nx (anx (ft si)) (atl (ft si)) c)(c := None),
     ahd := snoc_hd (ahd (ft si)) (atl (ft si)) c, atl := Some c\<rparr>"
  unfolding link_connection_def Let_def upd_c_opt_def push_pv_def push_hd_def snoc_nx_def snoc_hd_def
  by (cases "chd (ft si) (cix (ft si) c)"; cases "atl (ft si)") (auto simp: ft_read simp del: ft_sel)

lemma ft_insert_connection:
  "ft (sfe_ipv4_insert_sfe_ipv4_connection si c) = ft_insert_conn (ft si) c"
  by (simp add: sfe_ipv4_insert_sfe_ipv4_connection_def Let_def ft_link_connection ft_insert_match ft_insert_conn_def
      ft_read del: ft_sel)


section \<open>The well-formed states\<close>

text \<open>
  \<open>sfe_inv si g P\<close>: the links of \<open>si\<close> describe the lists \<open>g\<close>, and the connections in \<open>P\<close> are out of
  the tables but not freed yet (the code flushes them after it has dropped the lock). The memory
  in use is exactly that of the connections in the tables and of those in \<open>P\<close>, the connection
  count is that of the tables, and every connection not freed holds one reference on each of its
  two devices.
\<close>

definition refs_of :: "sfe_ipv4 \<Rightarrow> ptr list \<Rightarrow> dev_ptr \<Rightarrow> int" where
  "refs_of si cs d = (\<Sum>c\<leftarrow>cs. of_bool (c_original_dev (connections si c) = d) + of_bool (c_reply_dev (connections si c) = d))"

definition mem_ok :: "sfe_ipv4 \<Rightarrow> ptr list \<Rightarrow> bool" where
  "mem_ok si cs \<longleftrightarrow> distinct cs \<and> live_connections si = set cs \<and> live_matches si = ft_live (ft si) (set cs)
     \<and> pairs_ok (ft si) (set cs) \<and> dev_refs si = refs_of si cs"

definition sfe_inv :: "sfe_ipv4 \<Rightarrow> lists \<Rightarrow> ptr list \<Rightarrow> bool" where
  "sfe_inv si g P \<longleftrightarrow> ft_inv (ft si) g \<and> mem_ok si (ga g @ P) \<and> num_connections si = of_nat (length (ga g))"

definition sfe_wf :: "sfe_ipv4 \<Rightarrow> bool" where
  "sfe_wf si \<longleftrightarrow> (\<exists>g. sfe_inv si g [])"

definition empty_lists :: lists where
  "empty_lists = \<lparr>gc = (\<lambda>_. []), ga = [], gm = (\<lambda>_. []), gv = []\<rparr>"

lemma sfe_inv_init: "sfe_inv init_si empty_lists []"
  by (simp add: sfe_inv_def mem_ok_def refs_of_def init_si_def empty_lists_def ft_inv_def conns_ok_def
      matches_ok_def pairs_ok_def ft_live_def chains_def fun_eq_iff)

section \<open>What the operations leave alone\<close>

text \<open>
  The table operations write links only: everything else of every entry is as it was. The record
  with its links blanked is the part that stays.
\<close>

definition cm_data :: "sfe_ipv4_connection_match \<Rightarrow> sfe_ipv4_connection_match" where
  "cm_data m = m\<lparr>cm_next := None, cm_prev := None, cm_active_next := None, cm_active_prev := None\<rparr>"

definition c_data :: "sfe_ipv4_connection \<Rightarrow> sfe_ipv4_connection" where
  "c_data c = c\<lparr>c_next := None, c_prev := None, c_all_connections_next := None, c_all_connections_prev := None\<rparr>"

definition same_data :: "sfe_ipv4 \<Rightarrow> sfe_ipv4 \<Rightarrow> bool" where
  "same_data si si' \<longleftrightarrow> (\<forall>p. cm_data (matches si' p) = cm_data (matches si p))
     \<and> (\<forall>p. c_data (connections si' p) = c_data (connections si p))
     \<and> live_matches si' = live_matches si \<and> live_connections si' = live_connections si
     \<and> dev_refs si' = dev_refs si \<and> sync_rule_callback si' = sync_rule_callback si
     \<and> exception_events si' = exception_events si \<and> packets_forwarded si' = packets_forwarded si
     \<and> packets_not_forwarded si' = packets_not_forwarded si"

lemma same_data_refl [simp]: "same_data si si"
  by (simp add: same_data_def)

lemma same_data_trans [trans]: "same_data a b \<Longrightarrow> same_data b c \<Longrightarrow> same_data a c"
  by (simp add: same_data_def)

lemma same_data_upd [simp]:
  "same_data si (upd_cm p (\<lambda>m. m\<lparr>cm_next := v\<rparr>) si') = same_data si si'"
  "same_data si (upd_cm p (\<lambda>m. m\<lparr>cm_prev := v\<rparr>) si') = same_data si si'"
  "same_data si (upd_cm p (\<lambda>m. m\<lparr>cm_active_next := v\<rparr>) si') = same_data si si'"
  "same_data si (upd_cm p (\<lambda>m. m\<lparr>cm_active_prev := v\<rparr>) si') = same_data si si'"
  "same_data si (upd_c p (\<lambda>m. m\<lparr>c_next := v\<rparr>) si') = same_data si si'"
  "same_data si (upd_c p (\<lambda>m. m\<lparr>c_prev := v\<rparr>) si') = same_data si si'"
  "same_data si (upd_c p (\<lambda>m. m\<lparr>c_all_connections_next := v\<rparr>) si') = same_data si si'"
  "same_data si (upd_c p (\<lambda>m. m\<lparr>c_all_connections_prev := v\<rparr>) si') = same_data si si'"
  "same_data si (si'\<lparr>conn_match_hash := h\<rparr>) = same_data si si'"
  "same_data si (si'\<lparr>conn_hash := h\<rparr>) = same_data si si'"
  "same_data si (si'\<lparr>active_head := q\<rparr>) = same_data si si'"
  "same_data si (si'\<lparr>active_tail := q\<rparr>) = same_data si si'"
  "same_data si (si'\<lparr>all_connections_head := q\<rparr>) = same_data si si'"
  "same_data si (si'\<lparr>all_connections_tail := q\<rparr>) = same_data si si'"
  "same_data si (si'\<lparr>num_connections := n\<rparr>) = same_data si si'"
  "same_data si (si'\<lparr>connection_match_hash_hits := n\<rparr>) = same_data si si'"
  "same_data si (si'\<lparr>connection_match_hash_reorders := n\<rparr>) = same_data si si'"
  by (auto simp: same_data_def upd_cm_def upd_c_def cm_data_def c_data_def)

lemma same_data_upd_opt [simp]:
  "same_data si (upd_cm_opt q (\<lambda>m. m\<lparr>cm_next := v\<rparr>) si') = same_data si si'"
  "same_data si (upd_cm_opt q (\<lambda>m. m\<lparr>cm_prev := v\<rparr>) si') = same_data si si'"
  "same_data si (upd_c_opt q (\<lambda>m. m\<lparr>c_next := v\<rparr>) si') = same_data si si'"
  "same_data si (upd_c_opt q (\<lambda>m. m\<lparr>c_prev := v\<rparr>) si') = same_data si si'"
  by (simp_all add: upd_cm_opt_def upd_c_opt_def split: option.splits)

lemma same_data_insert_match [simp]:
  "same_data si (sfe_ipv4_insert_sfe_ipv4_connection_match si' cm) = same_data si si'"
  by (simp add: sfe_ipv4_insert_sfe_ipv4_connection_match_def Let_def)

lemma same_data_remove_match [simp]:
  "same_data si (sfe_ipv4_remove_sfe_ipv4_connection_match si' cm) = same_data si si'"
  by (simp add: sfe_ipv4_remove_sfe_ipv4_connection_match_def Let_def split: option.split)

lemma same_data_link_connection [simp]: "same_data si (link_connection si' c) = same_data si si'"
  by (simp add: link_connection_def Let_def split: option.split)

lemma same_data_unlink_connection [simp]: "same_data si (unlink_connection si' c) = same_data si si'"
  by (simp add: unlink_connection_def Let_def split: option.split)

lemma same_data_insert_connection: "same_data si (sfe_ipv4_insert_sfe_ipv4_connection si c)"
  by (simp add: sfe_ipv4_insert_sfe_ipv4_connection_def Let_def)

lemma same_data_remove_connection: "same_data si (sfe_ipv4_remove_sfe_ipv4_connection si c)"
  by (simp add: sfe_ipv4_remove_sfe_ipv4_connection_def Let_def)


lemma same_dataD:
  assumes "same_data si si'"
  shows "c_protocol (connections si' p) = c_protocol (connections si p)"
    and "c_src_ip (connections si' p) = c_src_ip (connections si p)"
    and "c_dest_ip (connections si' p) = c_dest_ip (connections si p)"
    and "c_src_port (connections si' p) = c_src_port (connections si p)"
    and "c_dest_port (connections si' p) = c_dest_port (connections si p)"
    and "c_original_match (connections si' p) = c_original_match (connections si p)"
    and "c_reply_match (connections si' p) = c_reply_match (connections si p)"
    and "c_original_dev (connections si' p) = c_original_dev (connections si p)"
    and "c_reply_dev (connections si' p) = c_reply_dev (connections si p)"
    and "c_mark (connections si' p) = c_mark (connections si p)"
    and "cm_connection (matches si' q) = cm_connection (matches si q)"
    and "cm_counter_match (matches si' q) = cm_counter_match (matches si q)"
    and "cm_active (matches si' q) = cm_active (matches si q)"
    and "cm_key (matches si' q) = cm_key (matches si q)"
    and "cm_flags (matches si' q) = cm_flags (matches si q)"
    and "cm_tcp (matches si' q) = cm_tcp (matches si q)"
proof -
  have c: "c_data (connections si' p) = c_data (connections si p)"
    and m: "cm_data (matches si' q) = cm_data (matches si q)"
    using assms by (simp_all add: same_data_def)
  from c show "c_protocol (connections si' p) = c_protocol (connections si p)"
    and "c_src_ip (connections si' p) = c_src_ip (connections si p)"
    and "c_dest_ip (connections si' p) = c_dest_ip (connections si p)"
    and "c_src_port (connections si' p) = c_src_port (connections si p)"
    and "c_dest_port (connections si' p) = c_dest_port (connections si p)"
    and "c_original_match (connections si' p) = c_original_match (connections si p)"
    and "c_reply_match (connections si' p) = c_reply_match (connections si p)"
    and "c_original_dev (connections si' p) = c_original_dev (connections si p)"
    and "c_reply_dev (connections si' p) = c_reply_dev (connections si p)"
    and "c_mark (connections si' p) = c_mark (connections si p)"
    by (cases "connections si' p", cases "connections si p", simp add: c_data_def)+
  from m show "cm_connection (matches si' q) = cm_connection (matches si q)"
    and "cm_counter_match (matches si' q) = cm_counter_match (matches si q)"
    and "cm_active (matches si' q) = cm_active (matches si q)"
    and "cm_key (matches si' q) = cm_key (matches si q)"
    and "cm_flags (matches si' q) = cm_flags (matches si q)"
    and "cm_tcp (matches si' q) = cm_tcp (matches si q)"
    by (cases "matches si' q", cases "matches si q", simp add: cm_data_def cm_key_def)+
qed

lemma same_data_mem:
  assumes d: "same_data si si'" and s: "set cs' = set cs" and dist: "distinct cs'" "distinct cs"
    and m: "mem_ok si cs"
  shows "mem_ok si' cs'"
proof -
  have "refs_of si' cs' dv = refs_of si cs dv" for dv
    unfolding refs_of_def using same_dataD(8,9) [OF d] s dist
    by (simp add: sum_list_distinct_conv_sum_set)
  with m show ?thesis
    using d s dist same_dataD [OF d]
    by (auto simp: mem_ok_def ft_live_def pairs_ok_def same_data_def)
qed

lemma num_remove_match [simp]:
  "num_connections (sfe_ipv4_remove_sfe_ipv4_connection_match si cm) = num_connections si"
  by (simp add: sfe_ipv4_remove_sfe_ipv4_connection_match_def Let_def upd_defs split: option.split)

lemma num_insert_match [simp]:
  "num_connections (sfe_ipv4_insert_sfe_ipv4_connection_match si cm) = num_connections si"
  by (simp add: sfe_ipv4_insert_sfe_ipv4_connection_match_def Let_def upd_defs split: option.split)

lemma num_remove_connection:
  "num_connections (sfe_ipv4_remove_sfe_ipv4_connection si c) = num_connections si - 1"
proof -
  have "num_connections (unlink_connection s c) = num_connections s - 1" for s
    by (simp add: unlink_connection_def Let_def upd_defs split: option.split)
  then show ?thesis by (simp add: sfe_ipv4_remove_sfe_ipv4_connection_def Let_def)
qed

lemma num_insert_connection:
  "num_connections (sfe_ipv4_insert_sfe_ipv4_connection si c) = num_connections si + 1"
proof -
  have "num_connections (link_connection s c) = num_connections s + 1" for s
    by (simp add: link_connection_def Let_def upd_defs split: option.split)
  then show ?thesis by (simp add: sfe_ipv4_insert_sfe_ipv4_connection_def Let_def)
qed

lemma sfe_inv_remove:
  assumes i: "sfe_inv si g P" and c: "c \<in> set (ga g)"
  shows "sfe_inv (sfe_ipv4_remove_sfe_ipv4_connection si c) (lists_remove (ft si) g c) (c # P)"
proof -
  let ?si = "sfe_ipv4_remove_sfe_ipv4_connection si c"
  have ga: "ga (lists_remove (ft si) g c) = remove1 c (ga g)" by (simp add: lists_remove_def)
  have f: "ft_inv (ft ?si) (lists_remove (ft si) g c)"
    using i c by (simp add: ft_remove_connection ft_remove_conn_inv sfe_inv_def)
  have m: "mem_ok si (ga g @ P)" using i by (simp add: sfe_inv_def)
  then have d: "distinct (ga g @ P)" by (simp add: mem_ok_def)
  have "mem_ok ?si (remove1 c (ga g) @ c # P)"
    by (rule same_data_mem [OF same_data_remove_connection _ _ d m]) (use d c in auto)
  moreover have "length (ga g) = Suc (length (remove1 c (ga g)))"
    using c by (simp add: length_remove1) (metis Suc_pred length_pos_if_in_set)
  ultimately show ?thesis
    using i f ga by (simp add: sfe_inv_def num_remove_connection)
qed

section \<open>What the lookups find\<close>

lemma find_connection_spec:
  assumes i: "ft_inv (ft si) g"
  shows "\<exists>r. sfe_ipv4_find_sfe_ipv4_connection si protocol src_ip src_port dest_ip dest_port = Some r
    \<and> (\<forall>c. r = Some c \<longleftrightarrow> c \<in> set (ga g)
             \<and> c_key (connections si c) = (protocol, src_ip, src_port, dest_ip, dest_port))"
proof -
  let ?ix = "sfe_ipv4_get_connection_hash (ucast protocol) src_ip src_port dest_ip dest_port"
  let ?is = "\<lambda>p. connection_is (connections si p) protocol src_ip src_port dest_ip dest_port"
  have is_key: "?is p \<longleftrightarrow> c_key (connections si p) = (protocol, src_ip, src_port, dest_ip, dest_port)" for p
    by (auto simp: connection_is_def c_key_def)
  have ch: "chains (cnx (ft si)) (cpv (ft si)) (chd (ft si)) (cix (ft si)) (gc g) (set (ga g))"
    and inj: "inj_on (ckey (ft si)) (set (ga g))"
    using i by (auto simp: ft_inv_def conns_ok_def)
  have l: "dlist (cnx (ft si)) (cpv (ft si)) (conn_hash si ?ix) (gc g ?ix)"
    and mem: "set (gc g ?ix) = {c \<in> set (ga g). c_hash (connections si c) = ?ix}"
    using chainsD(1,2) [OF ch, of ?ix] by simp_all
  have "sfe_ipv4_find_sfe_ipv4_connection si protocol src_ip src_port dest_ip dest_port
      = chain_find (cnx (ft si)) ?is (conn_hash si ?ix)"
    by (simp add: sfe_ipv4_find_sfe_ipv4_connection_def Let_def split: option.split)
  also have "\<dots> = Some (find ?is (gc g ?ix))"
    by (rule chain_find_dlist [OF l])
  finally have f: "sfe_ipv4_find_sfe_ipv4_connection si protocol src_ip src_port dest_ip dest_port
      = Some (find ?is (gc g ?ix))" .
  have "find ?is (gc g ?ix) = Some c \<longleftrightarrow> c \<in> set (ga g) \<and> ?is c" for c
  proof
    assume "find ?is (gc g ?ix) = Some c"
    then have "c \<in> set (gc g ?ix)" "?is c"
      by (auto simp: find_Some_iff)
    with mem show "c \<in> set (ga g) \<and> ?is c" by auto
  next
    assume c: "c \<in> set (ga g) \<and> ?is c"
    then have "c_hash (connections si c) = ?ix"
      by (auto simp: connection_is_def c_hash_def)
    with c mem have "c \<in> set (gc g ?ix)" by auto
    with c obtain d where d: "find ?is (gc g ?ix) = Some d"
      by (cases "find ?is (gc g ?ix)") (auto simp: find_None_iff)
    then have dm: "d \<in> set (gc g ?ix)" and di: "?is d"
      by (auto simp: find_Some_iff)
    have "d \<in> set (ga g)" using dm mem by simp
    moreover have "c_key (connections si d) = c_key (connections si c)"
      using is_key [of d] is_key [of c] di c by simp
    ultimately have "d = c"
      using inj_onD [OF inj, of d c] c by simp
    with d show "find ?is (gc g ?ix) = Some c" by simp
  qed
  with f is_key show ?thesis by simp
qed


text \<open>The move to the front, as the match lookup writes it.\<close>

definition reorder_match :: "sfe_ipv4 \<Rightarrow> nat \<Rightarrow> ptr \<Rightarrow> ptr \<Rightarrow> sfe_ipv4" where
  "reorder_match si idx head cm =
     (let si = upd_cm_opt (cm_next (matches si cm)) (\<lambda>n. n\<lparr>cm_prev := cm_prev (matches si cm)\<rparr>) si;
          si = upd_cm_opt (cm_prev (matches si cm)) (\<lambda>p. p\<lparr>cm_next := cm_next (matches si cm)\<rparr>) si;
          si = upd_cm cm (\<lambda>m. m\<lparr>cm_prev := None, cm_next := Some head\<rparr>) si;
          si = upd_cm head (\<lambda>m. m\<lparr>cm_prev := Some cm\<rparr>) si
      in si\<lparr>conn_match_hash := (conn_match_hash si)(idx := Some cm),
            connection_match_hash_reorders := connection_match_hash_reorders si + 1\<rparr>)"

lemma ft_upd_cm2 [simp]:
  "ft (upd_cm p (\<lambda>m. m\<lparr>cm_prev := v, cm_next := w\<rparr>) si)
    = (ft si)\<lparr>mpv := (mpv (ft si))(p := v), mnx := (mnx (ft si))(p := w)\<rparr>"
  by (simp add: ft_def upd_cm_def fun_eq_iff cm_hash_def cm_key_def)

lemma same_data_upd2 [simp]:
  "same_data si (upd_cm p (\<lambda>m. m\<lparr>cm_prev := v, cm_next := w\<rparr>) si') = same_data si si'"
  by (auto simp: same_data_def upd_cm_def cm_data_def)

lemma ft_reorder_match:
  assumes "conn_match_hash si idx = Some head" and "idx = cm_hash (matches si cm)"
  shows "ft (reorder_match si idx head cm) = ft_front (ft si) cm"
  using assms
  unfolding reorder_match_def Let_def upd_cm_opt_def ft_front_def front_nx_def front_pv_def push_pv_def
    push_hd_def unl_nx_def unl_pv_def
  by (cases "mpv (ft si) cm"; cases "mnx (ft si) cm") (auto simp: ft_read fun_upd_twist simp del: ft_sel)

lemma same_data_reorder_match: "same_data si (reorder_match si idx head cm)"
  by (simp add: reorder_match_def Let_def)

lemma num_reorder_match: "num_connections (reorder_match si idx head cm) = num_connections si"
  by (simp add: reorder_match_def Let_def upd_defs split: option.split)

lemma find_match_spec:
  assumes i: "ft_inv (ft si) g"
  defines "L \<equiv> ft_live (ft si) (set (ga g))"
  shows "\<exists>r si' g'. sfe_ipv4_find_sfe_ipv4_connection_match si dev protocol src_ip src_port dest_ip dest_port = Some (r, si')
    \<and> same_data si si' \<and> num_connections si' = num_connections si
    \<and> ft_inv (ft si') g' \<and> ga g' = ga g \<and> gv g' = gv g
    \<and> (case r of None \<Rightarrow> si' = si \<and> (\<forall>m \<in> L. cm_key (matches si m) \<noteq> (dev, protocol, src_ip, src_port, dest_ip, dest_port))
        | Some m \<Rightarrow> m \<in> L \<and> cm_key (matches si m) = (dev, protocol, src_ip, src_port, dest_ip, dest_port))"
proof -
  let ?ix = "sfe_ipv4_get_connection_match_hash dev protocol src_ip src_port dest_ip dest_port"
  let ?key = "(dev, protocol, src_ip, src_port, dest_ip, dest_port)"
  let ?is = "\<lambda>p. match_is (matches si p) dev protocol src_ip src_port dest_ip dest_port"
  let ?find = "sfe_ipv4_find_sfe_ipv4_connection_match si dev protocol src_ip src_port dest_ip dest_port"
  have is_key: "?is p \<longleftrightarrow> cm_key (matches si p) = ?key" for p
    by (auto simp: match_is_def cm_key_def)
  have key_ix: "?is p \<Longrightarrow> cm_hash (matches si p) = ?ix" for p
    by (auto simp: match_is_def cm_hash_def)
  have ch: "chains (mnx (ft si)) (mpv (ft si)) (mhd (ft si)) (mix (ft si)) (gm g) L"
    using i by (auto simp: ft_inv_def matches_ok_def L_def)
  have l: "dlist (mnx (ft si)) (mpv (ft si)) (conn_match_hash si ?ix) (gm g ?ix)"
    and mem: "set (gm g ?ix) = {m \<in> L. cm_hash (matches si m) = ?ix}"
    using chainsD(1,2) [OF ch, of ?ix] by simp_all
  have none: "\<forall>m \<in> L. cm_key (matches si m) \<noteq> ?key" if "\<forall>m \<in> set (gm g ?ix). \<not> ?is m"
    using that mem key_ix is_key by auto
  show ?thesis
  proof (cases "gm g ?ix")
    case Nil
    with l have "conn_match_hash si ?ix = None" by simp
    then have "?find = Some (None, si)"
      by (simp add: sfe_ipv4_find_sfe_ipv4_connection_match_def Let_def)
    with i none Nil show ?thesis by (auto intro!: exI [of _ g])
  next
    case (Cons x xs)
    with l have h: "conn_match_hash si ?ix = Some x" and s: "dseg (mnx (ft si)) (mpv (ft si)) (Some x) (cm_next (matches si x)) xs"
      and d: "distinct (x # xs)"
      by (auto simp: dlist_def)
    show ?thesis
    proof (cases "?is x")
      case True
      with h have "?find = Some (Some x, si\<lparr>connection_match_hash_hits := connection_match_hash_hits si + 1\<rparr>)"
        by (simp add: sfe_ipv4_find_sfe_ipv4_connection_match_def Let_def)
      moreover have "x \<in> L" using mem Cons by auto
      ultimately show ?thesis using i True is_key by (auto intro!: exI [of _ g])
    next
      case False
      have loop: "chain_find (\<lambda>p. cm_next (matches si p)) ?is (cm_next (matches si x)) = Some (find ?is xs)"
        using chain_find_dseg [OF s] by simp
      show ?thesis
      proof (cases "find ?is xs")
        case None
        with h False loop have "?find = Some (None, si)"
          by (simp add: sfe_ipv4_find_sfe_ipv4_connection_match_def Let_def)
        moreover have "\<forall>m \<in> set (gm g ?ix). \<not> ?is m"
          using None False Cons by (auto simp: find_None_iff)
        ultimately show ?thesis using i none by (auto intro!: exI [of _ g])
      next
        case (Some m)
        then have m: "m \<in> set xs" "?is m" by (auto simp: find_Some_iff)
        with mem Cons have mL: "m \<in> L" and mix: "cm_hash (matches si m) = ?ix" by auto
        from h False loop Some have "?find = Some (Some m, reorder_match si ?ix x m)"
          by (simp add: sfe_ipv4_find_sfe_ipv4_connection_match_def reorder_match_def Let_def)
        moreover have "ft (reorder_match si ?ix x m) = ft_front (ft si) m"
          by (rule ft_reorder_match [OF h]) (use mix in simp)
        moreover have "ft_inv (ft_front (ft si) m) (g\<lparr>gm := (gm g)(mix (ft si) m := m # remove1 m (gm g (mix (ft si) m)))\<rparr>)"
          by (rule ft_front_inv [OF i]) (use mL mix h d m in \<open>auto simp: L_def\<close>)
        ultimately show ?thesis
          using mL m is_key same_data_reorder_match num_reorder_match by fastforce
      qed
    qed
  qed
qed

end
