(* ===== verification/SFE_Csum.thy ===== *)
theory SFE_Csum
  imports SFE_Prelude
begin

text \<open>
  The checksum arithmetic both engines use: sums of address words and of the words of a datagram, and
  the update of a transport checksum. Sums are compared modulo 65535, which is equality of ones'
  complement sums.
\<close>

text \<open>
  \<^verbatim>\<open>sum = csum + adjustment; sum = (sum & 0xffff) + (sum >> 16); check = (u16)sum;\<close>
\<close>

definition csum_update :: "u16 \<Rightarrow> u16 \<Rightarrow> u16" where
  "csum_update csum adjustment = ucast (csum_fold ((ucast csum :: u32) + ucast adjustment))"

definition ip_sum :: "be32 \<Rightarrow> nat" where
  "ip_sum a = unat (ucast (drop_bit 16 a) :: u16) + unat (ucast a :: u16)"

lemma unat_u16_less: "unat (w :: u16) < 65536"
  using unsigned_less [of w] by simp

lemma unat_ucast_u16_u32 [simp]: "unat (ucast (w :: u16) :: u32) = unat w"
  by (simp add: unsigned_ucast_eq take_bit_nat_eq_self unat_u16_less order_less_trans [OF unat_u16_less])

lemma unat_ucast_u32_u16: "unat (ucast (w :: u32) :: u16) = unat w mod 65536"
  by (simp only: unsigned_ucast_eq) (simp add: take_bit_eq_mod)

lemma unat_not_word_aux: "unat (NOT (w :: 'a :: len word)) = 2 ^ LENGTH('a) - 1 - unat w"
proof -
  have "int (unat (NOT w)) = 2 ^ LENGTH('a) - 1 - int (unat w)"
    by (simp add: unsigned_not_eq take_bit_not_eq_mask_diff mask_eq_exp_minus_1 take_bit_int_eq_self_iff)
  then have "int (unat (NOT w) + unat w + 1) = int (2 ^ LENGTH('a))"
    by simp
  then have "unat (NOT w) + unat w + 1 = 2 ^ LENGTH('a)"
    by (simp only: of_nat_eq_iff)
  then show ?thesis by linarith
qed

lemma unat_not_u16: "unat (NOT (w :: u16)) = 65535 - unat w"
  by (simp add: unat_not_word_aux)

lemma unat_not_u32: "unat (NOT (w :: u32)) = 4294967295 - unat w"
  by (simp add: unat_not_word_aux)

lemma ip_sum_cong: "csum_eq (ip_sum a) (unat a)"
proof -
  have "unat a div 65536 < 65536"
    by (rule less_mult_imp_div_less) (use unat_u32_less [of a] in simp)
  then have h: "unat a div 65536 mod 65536 = unat a div 65536"
    by (rule mod_less)
  have "unat a = (unat a div 65536 + unat a mod 65536) + 65535 * (unat a div 65536)"
    by simp
  then have "unat a mod 65535 = (unat a div 65536 + unat a mod 65536) mod 65535"
    by (metis mod_mult_self2)
  then show ?thesis
    by (simp only: ip_sum_def unat_ucast_u32_u16 unat_shr16 h)
qed

lemma csum_eq_add: "csum_eq a b \<Longrightarrow> csum_eq c d \<Longrightarrow> csum_eq (a + c) (b + d)"
  by (rule mod_add_cong)

lemma csum_eq_cancel: "csum_eq (a + c) (b + c) \<Longrightarrow> csum_eq a b"
  unfolding nat_mod_eq_iff by (simp add: add.assoc add.left_commute [of c])

lemma unat_and_low: "unat (ucast ((a :: u32) AND 0xffff) :: u16) = unat (ucast a :: u16)"
  by (simp only: unat_ucast_u32_u16 unat_and_ffff mod_mod_trivial)

lemma unat_not_hi: "unat (ucast (drop_bit 16 (NOT (a :: u32))) :: u16) = 65535 - unat (ucast (drop_bit 16 a) :: u16)"
proof -
  have "(ucast (drop_bit 16 (NOT a)) :: u16) = NOT (ucast (drop_bit 16 a))"
    by (rule bit_word_eqI) (auto simp: bit_simps)
  then show ?thesis by (simp only: unat_not_u16)
qed

lemma unat_not_lo: "unat (ucast (NOT (a :: u32)) :: u16) = 65535 - unat (ucast a :: u16)"
proof -
  have "(ucast (NOT a) :: u16) = NOT (ucast a)"
    by (rule bit_word_eqI) (auto simp: bit_simps)
  then show ?thesis by (simp only: unat_not_u16)
qed

lemma csum_fold_0: "unat s = 0 \<Longrightarrow> unat (csum_fold s) = 0"
  unfolding unat_csum_fold by simp

text \<open>A sum of a few 16 bit values does not wrap in a \<open>u32\<close>.\<close>

lemma unat_plus_u32: "unat (a :: u32) + unat b < 4294967296 \<Longrightarrow> unat (a + b) = unat a + unat b"
  by (simp add: unat_word_ariths)

lemma unat_fold_twice_u16: "unat (ucast (csum_fold (csum_fold s)) :: u16) = unat (csum_fold (csum_fold s))"
  unfolding unat_ucast_u32_u16 by (rule mod_less [OF csum_fold_twice_bound])

lemma csum_fold_twice_cong: "csum_eq (unat (ucast (csum_fold (csum_fold s)) :: u16)) (unat s)"
  unfolding unat_fold_twice_u16 by (simp only: csum_fold_cong)

lemma unat_xor_ffff: "unat ((w :: u16) XOR 0xffff) = 65535 - unat w"
proof -
  have "(0xffff :: u16) = - 1" by simp
  then have "w XOR 0xffff = w XOR - 1" by (simp only:)
  also have "\<dots> = NOT w" by simp
  finally have "w XOR 0xffff = NOT w" .
  then show ?thesis by (simp only: unat_not_u16)
qed

lemma st16_st16: "st16 (st16 m k v) k w = st16 m k w"
  by (auto simp: st16_def)

lemma csum_update_cong: "csum_eq (unat (csum_update c a)) (unat c + unat a)"
proof -
  have s: "unat ((ucast c :: u32) + ucast a) = unat c + unat a"
    using unat_u16_less [of c] unat_u16_less [of a] by (simp add: unat_plus_u32)
  have "unat (csum_fold ((ucast c :: u32) + ucast a)) < 65536"
  proof (cases "unat c + unat a < 65536")
    case True
    then show ?thesis by (simp add: unat_csum_fold s)
  next
    case False
    then have "(unat c + unat a) div 65536 = 1"
      using unat_u16_less [of c] unat_u16_less [of a] by (intro div_nat_eqI) simp_all
    moreover have "unat c + unat a = 65536 * ((unat c + unat a) div 65536) + (unat c + unat a) mod 65536"
      by simp
    ultimately show ?thesis
      unfolding unat_csum_fold s using unat_u16_less [of c] unat_u16_less [of a] by linarith
  qed
  then have "unat (csum_update c a) = unat (csum_fold ((ucast c :: u32) + ucast a))"
    unfolding csum_update_def unat_ucast_u32_u16 by (rule mod_less)
  then show ?thesis by (simp only: csum_fold_cong s)
qed

section \<open>The words of a datagram\<close>

text \<open>
  The sum of the 16 bit words of \<open>n\<close> bytes from offset \<open>off\<close> on, an odd last byte padded with a
  zero byte.
\<close>

definition words_sum :: "mem \<Rightarrow> nat \<Rightarrow> nat \<Rightarrow> nat" where
  "words_sum m off n = (\<Sum>i\<leftarrow>[0..<n div 2]. unat (ld16 m (off + 2 * i)))
     + (if odd n then unat (m (off + n - 1)) else 0)"

lemma words_sum_cong:
  "(\<And>k. off \<le> k \<Longrightarrow> k < off + n \<Longrightarrow> m' k = m k) \<Longrightarrow> words_sum m' off n = words_sum m off n"
  unfolding words_sum_def ld16_def
  by (intro arg_cong2 [where f = "(+)"] arg_cong [where f = sum_list] map_cong refl) (auto elim!: oddE)

lemma words_sum_shift: "words_sum m (off + d) n = words_sum (\<lambda>k. m (k + d)) off n"
proof -
  have "ld16 m (off + d + 2 * i) = ld16 (\<lambda>k. m (k + d)) (off + 2 * i)" for i
    by (simp add: ld16_def add_ac)
  moreover have "odd n \<Longrightarrow> off + d + n - 1 = off + n - 1 + d" by (auto elim: oddE)
  ultimately show ?thesis by (simp add: words_sum_def)
qed

lemma words_sum_st16:
  assumes "2 * j + 1 < n"
  shows "words_sum (st16 m (off + 2 * j) v) off n + unat (ld16 m (off + 2 * j)) = words_sum m off n + unat v"
proof -
  let ?m = "st16 m (off + 2 * j) v"
  let ?f = "\<lambda>m i. unat (ld16 m (off + 2 * i))"
  have j: "j < n div 2" using assms by linarith
  then have sp: "{0..<n div 2} = insert j ({0..<n div 2} - {j})" by auto
  have o: "ld16 ?m (off + 2 * i) = ld16 m (off + 2 * i)" if "i \<noteq> j" for i
    using that by (intro ld16_st16_other) linarith
  have "(\<Sum>i\<in>{0..<n div 2} - {j}. ?f ?m i) = (\<Sum>i\<in>{0..<n div 2} - {j}. ?f m i)"
    by (rule sum.cong) (use o in auto)
  moreover have "(\<Sum>i\<in>{0..<n div 2}. ?f k i) = ?f k j + (\<Sum>i\<in>{0..<n div 2} - {j}. ?f k i)" for k
    by (subst sp, subst sum.insert) auto
  moreover have "(\<Sum>i\<leftarrow>[0..<n div 2]. ?f k i) = (\<Sum>i\<in>{0..<n div 2}. ?f k i)" for k
    by (simp add: interv_sum_list_conv_sum_set_nat)
  moreover have "odd n \<Longrightarrow> ?m (off + n - 1) = m (off + n - 1)"
    using assms by (intro st16_apply_other) (auto elim!: oddE)
  ultimately show ?thesis by (simp add: words_sum_def)
qed

text \<open>A checksum in use stays in use: the update of a nonzero checksum is not zero.\<close>

text \<open>
  Rewriting one port (the word \<open>j\<close>) together with the check field (the word \<open>k\<close>) by an adjustment that
  accounts for the port and the change of the address sum from \<open>A\<close> to \<open>A'\<close> keeps the whole sum.
\<close>

lemma words_sum_xlate:
  assumes n: "2 * j + 1 < n" "2 * k + 1 < n" and jk: "j \<noteq> k"
    and law: "csum_eq (unat adj + A' + unat port') (A + unat (ld16 m (off + 2 * j)))"
    and m': "m' = st16 (st16 m (off + 2 * j) port') (off + 2 * k) (csum_update (ld16 m (off + 2 * k)) adj)"
  shows "csum_eq (A' + words_sum m' off n) (A + words_sum m off n)"
proof -
  let ?port = "ld16 m (off + 2 * j)" and ?chk = "ld16 m (off + 2 * k)"
  let ?m1 = "st16 m (off + 2 * j) port'"
  have k1: "ld16 ?m1 (off + 2 * k) = ?chk"
    using jk by (intro ld16_st16_other) linarith
  have a: "words_sum ?m1 off n + unat ?port = words_sum m off n + unat port'"
    by (rule words_sum_st16 [OF n(1)])
  have b: "words_sum m' off n + unat ?chk = words_sum ?m1 off n + unat (csum_update ?chk adj)"
    using words_sum_st16 [OF n(2), of ?m1 off] by (simp only: m' k1)
  let ?x = "unat ?chk + unat ?port + unat port'"
  have "A' + words_sum m' off n + ?x
      = unat (csum_update ?chk adj) + (A' + unat port' + (words_sum m off n + unat port'))"
    using a b by linarith
  also have "csum_eq \<dots> (unat ?chk + unat adj + (A' + unat port' + (words_sum m off n + unat port')))"
    by (rule csum_eq_add [OF csum_update_cong refl])
  also have "unat ?chk + unat adj + (A' + unat port' + (words_sum m off n + unat port'))
      = (unat adj + A' + unat port') + (unat ?chk + words_sum m off n + unat port')"
    by linarith
  also have "csum_eq \<dots> ((A + unat ?port) + (unat ?chk + words_sum m off n + unat port'))"
    by (rule csum_eq_add [OF law refl])
  also have "(A + unat ?port) + (unat ?chk + words_sum m off n + unat port')
      = A + words_sum m off n + ?x" by linarith
  finally show ?thesis by (rule csum_eq_cancel)
qed

lemma csum_update_nonzero:
  assumes "c \<noteq> 0"
  shows "csum_update c a \<noteq> 0"
proof
  assume z: "csum_update c a = 0"
  let ?s = "(ucast c :: u32) + ucast a"
  have b: "unat c < 65536" "unat a < 65536" by (rule unat_u16_less)+
  have s: "unat ?s = unat c + unat a" using b by (simp add: unat_plus_u32)
  have "unat c \<noteq> 0" using assms by (simp add: unat_eq_0)
  then have "0 < unat ?s" unfolding s by simp
  then have p: "0 < unat (csum_fold ?s)" by (rule csum_fold_pos)
  have "unat (csum_fold ?s) mod 65536 = 0"
    using z unfolding csum_update_def by (metis unat_0 unat_ucast_u32_u16)
  then have d: "65536 \<le> unat (csum_fold ?s)" using p by (metis dvd_imp_le mod_eq_0_iff_dvd)
  have "(unat c + unat a) div 65536 \<le> 1" using b by (simp add: less_Suc_eq_le [symmetric] div_less_iff_less_mult)
  moreover have "unat c + unat a = 65536 * ((unat c + unat a) div 65536) + (unat c + unat a) mod 65536" by simp
  ultimately show False using d b unfolding unat_csum_fold s by linarith
qed

lemma st16_ld16: "st16 m k (ld16 x j) = m(k := x j, k + 1 := x (j + 1))"
proof -
  have "(ucast (ld16 x j) :: u8) = x j" "(ucast (drop_bit 8 (ld16 x j)) :: u8) = x (j + 1)"
    unfolding ld16_def by (rule bit_word_eqI, auto simp: bit_simps dest: bit_imp_le_length)+
  then show ?thesis by (simp add: st16_def)
qed

end
