(* ===== verification/SFE_IPv4_Csum.thy ===== *)
theory SFE_IPv4_Csum
  imports SFE_IPv4_State SFE_Csum
begin

text \<open>
  The checksum arithmetic of the IPv4 engine: the header checksum it writes, the adjustments it
  precomputes for a translated flow (RFC 1624) and the update of a transport checksum with them.
  Sums are compared modulo 65535, which is equality of ones' complement sums.
\<close>

section \<open>The operations\<close>

text \<open>
  The function clears the check field of the header at offset \<open>iph\<close> and returns the checksum; the
  result here is that pair.
\<close>

definition sfe_ipv4_gen_ip_csum :: "mem \<Rightarrow> nat \<Rightarrow> u16 \<times> mem" where
  "sfe_ipv4_gen_ip_csum m iph =
     (let m = st16 m (iph + 10) 0;
          i = (\<lambda>k. (ucast (ld16 m (iph + 2 * k)) :: u32));
          sum = i 0 + i 1 + i 2 + i 3 + i 4 + i 5 + i 6 + i 7 + i 8 + i 9;
          sum = csum_fold sum;
          sum = csum_fold sum
      in (ucast sum XOR 0xffff, m))"

definition sfe_ipv4_connection_match_compute_translations ::
  "sfe_ipv4_connection_match \<Rightarrow> sfe_ipv4_connection_match" where
  "sfe_ipv4_connection_match_compute_translations cm =
     (let cm = (if has_flag (cm_flags cm) SFE_IPV4_CONNECTION_MATCH_FLAG_XLATE_SRC
                then let src_ip_hi = (ucast (drop_bit 16 (cm_match_src_ip cm)) :: u16);
                         src_ip_lo = (ucast (cm_match_src_ip cm AND 0xffff) :: u16);
                         xlate_src_ip = NOT (cm_xlate_src_ip cm);
                         xlate_src_ip_hi = (ucast (drop_bit 16 xlate_src_ip) :: u16);
                         xlate_src_ip_lo = (ucast (xlate_src_ip AND 0xffff) :: u16);
                         xlate_src_port = NOT (cm_xlate_src_port cm);
                         adj = (ucast src_ip_hi :: u32) + ucast src_ip_lo + ucast (cm_match_src_port cm)
                               + ucast xlate_src_ip_hi + ucast xlate_src_ip_lo + ucast xlate_src_port;
                         adj = csum_fold adj;
                         adj = csum_fold adj
                     in cm\<lparr>cm_xlate_src_csum_adjustment := ucast adj\<rparr>
                else cm);
          cm = (if has_flag (cm_flags cm) SFE_IPV4_CONNECTION_MATCH_FLAG_XLATE_DEST
                then let dest_ip_hi = (ucast (drop_bit 16 (cm_match_dest_ip cm)) :: u16);
                         dest_ip_lo = (ucast (cm_match_dest_ip cm AND 0xffff) :: u16);
                         xlate_dest_ip = NOT (cm_xlate_dest_ip cm);
                         xlate_dest_ip_hi = (ucast (drop_bit 16 xlate_dest_ip) :: u16);
                         xlate_dest_ip_lo = (ucast (xlate_dest_ip AND 0xffff) :: u16);
                         xlate_dest_port = NOT (cm_xlate_dest_port cm);
                         adj = (ucast dest_ip_hi :: u32) + ucast dest_ip_lo + ucast (cm_match_dest_port cm)
                               + ucast xlate_dest_ip_hi + ucast xlate_dest_ip_lo + ucast xlate_dest_port;
                         adj = csum_fold adj;
                         adj = csum_fold adj
                     in cm\<lparr>cm_xlate_dest_csum_adjustment := ucast adj\<rparr>
                else cm);
          cm = (if has_flag (cm_flags cm) SFE_IPV4_CONNECTION_MATCH_FLAG_XLATE_SRC
                then let adj = NOT (cm_match_src_ip cm) + cm_xlate_src_ip cm;
                         adj = (if adj < cm_xlate_src_ip cm then adj + 1 else adj);
                         adj = csum_fold adj;
                         adj = csum_fold adj
                     in cm\<lparr>cm_xlate_src_partial_csum_adjustment := ucast adj\<rparr>
                else cm)
      in if has_flag (cm_flags cm) SFE_IPV4_CONNECTION_MATCH_FLAG_XLATE_DEST
         then let adj = NOT (cm_match_dest_ip cm) + cm_xlate_dest_ip cm;
                  adj = (if adj < cm_xlate_dest_ip cm then adj + 1 else adj);
                  adj = csum_fold adj;
                  adj = csum_fold adj
              in cm\<lparr>cm_xlate_dest_partial_csum_adjustment := ucast adj\<rparr>
         else cm)"

section \<open>Sums of words and addresses\<close>

definition ip_header_sum :: "mem \<Rightarrow> nat \<Rightarrow> nat" where
  "ip_header_sum m iph = (\<Sum>k\<leftarrow>[0..<10]. unat (ld16 m (iph + 2 * k)))"

section \<open>The header checksum\<close>

lemma gen_ip_csum_mem: "snd (sfe_ipv4_gen_ip_csum m iph) = st16 m (iph + 10) 0"
  by (simp add: sfe_ipv4_gen_ip_csum_def Let_def)

lemma ip_header_sum_expand:
  "ip_header_sum m iph = unat (ld16 m iph) + unat (ld16 m (iph + 2)) + unat (ld16 m (iph + 4))
     + unat (ld16 m (iph + 6)) + unat (ld16 m (iph + 8)) + unat (ld16 m (iph + 10)) + unat (ld16 m (iph + 12))
     + unat (ld16 m (iph + 14)) + unat (ld16 m (iph + 16)) + unat (ld16 m (iph + 18))"
  by (simp add: ip_header_sum_def upt_rec)

lemma ip_header_sum_check:
  "ip_header_sum (st16 m (iph + 10) c) iph = ip_header_sum (st16 m (iph + 10) 0) iph + unat c"
  unfolding ip_header_sum_expand by simp

lemma gen_ip_csum_value:
  "\<exists>f. f < 65536 \<and> csum_eq f (ip_header_sum (st16 m (iph + 10) 0) iph)
     \<and> unat (fst (sfe_ipv4_gen_ip_csum m iph)) = 65535 - f
     \<and> (f = 0 \<longleftrightarrow> ip_header_sum (st16 m (iph + 10) 0) iph = 0)"
proof -
  let ?m = "st16 m (iph + 10) 0"
  define s where "s = (ucast (ld16 ?m iph) :: u32) + ucast (ld16 ?m (iph + 2)) + ucast (ld16 ?m (iph + 4))
     + ucast (ld16 ?m (iph + 6)) + ucast (ld16 ?m (iph + 8)) + ucast (ld16 ?m (iph + 10)) + ucast (ld16 ?m (iph + 12))
     + ucast (ld16 ?m (iph + 14)) + ucast (ld16 ?m (iph + 16)) + ucast (ld16 ?m (iph + 18))"
  have b: "unat (ld16 ?m k) < 65536" for k by (rule unat_u16_less)
  have s: "unat s = ip_header_sum ?m iph"
    unfolding s_def ip_header_sum_expand
    using b [of iph] b [of "iph + 2"] b [of "iph + 4"] b [of "iph + 6"] b [of "iph + 8"] b [of "iph + 10"]
      b [of "iph + 12"] b [of "iph + 14"] b [of "iph + 16"] b [of "iph + 18"]
    by (simp add: unat_plus_u32 del: ld16_st16_same ld16_st16_other)
  have g: "fst (sfe_ipv4_gen_ip_csum m iph) = ucast (csum_fold (csum_fold s)) XOR 0xffff"
    unfolding sfe_ipv4_gen_ip_csum_def Let_def fst_conv s_def by simp
  have "unat (csum_fold (csum_fold s)) = 0 \<longleftrightarrow> unat s = 0"
    using csum_fold_pos [of s] csum_fold_pos [of "csum_fold s"] csum_fold_0 [of s] csum_fold_0 [of "csum_fold s"]
    by fastforce
  then show ?thesis
    using csum_fold_twice_bound [of s] csum_fold_twice_cong [of s] s
    by (intro exI [of _ "unat (csum_fold (csum_fold s))"])
      (simp add: g unat_xor_ffff unat_fold_twice_u16)
qed

lemma gen_ip_csum_valid:
  fixes m iph
  defines "m' \<equiv> st16 (snd (sfe_ipv4_gen_ip_csum m iph)) (iph + 10) (fst (sfe_ipv4_gen_ip_csum m iph))"
  shows "csum_eq (ip_header_sum m' iph) 0" and "0 < ip_header_sum m' iph"
proof -
  obtain f where f: "f < 65536" "csum_eq f (ip_header_sum (st16 m (iph + 10) 0) iph)"
      "unat (fst (sfe_ipv4_gen_ip_csum m iph)) = 65535 - f"
      "f = 0 \<longleftrightarrow> ip_header_sum (st16 m (iph + 10) 0) iph = 0"
    using gen_ip_csum_value [of m iph] by (elim exE conjE) (rule that)
  have e: "ip_header_sum m' iph = ip_header_sum (st16 m (iph + 10) 0) iph + (65535 - f)"
    unfolding m'_def gen_ip_csum_mem st16_st16 f(3) [symmetric] by (rule ip_header_sum_check)
  have "csum_eq (ip_header_sum m' iph) (f + (65535 - f))"
    unfolding e by (rule csum_eq_add [OF f(2) [symmetric] refl])
  also have "f + (65535 - f) = 65535" using f(1) by simp
  finally show "csum_eq (ip_header_sum m' iph) 0" by simp
  show "0 < ip_header_sum m' iph"
    unfolding e using f(1,4) by (cases "f = 0") simp_all
qed

section \<open>The adjustments of a translated flow\<close>

text \<open>The adjustment computed from an address and port and their translations.\<close>

definition csum_adjustment :: "be32 \<Rightarrow> be16 \<Rightarrow> be32 \<Rightarrow> be16 \<Rightarrow> u16" where
  "csum_adjustment ip port ip' port' =
     ucast (csum_fold (csum_fold ((ucast (ucast (drop_bit 16 ip) :: u16) :: u32) + ucast (ucast (ip AND 0xffff) :: u16)
       + ucast port + ucast (ucast (drop_bit 16 (NOT ip')) :: u16) + ucast (ucast (NOT ip' AND 0xffff) :: u16)
       + ucast (NOT port'))))"

definition partial_csum_adjustment :: "be32 \<Rightarrow> be32 \<Rightarrow> u16" where
  "partial_csum_adjustment ip ip' =
     (let adj = NOT ip + ip'; adj = (if adj < ip' then adj + 1 else adj)
      in ucast (csum_fold (csum_fold adj)))"

lemma compute_translations_eq:
  "sfe_ipv4_connection_match_compute_translations cm =
     (let s = has_flag (cm_flags cm) SFE_IPV4_CONNECTION_MATCH_FLAG_XLATE_SRC;
          d = has_flag (cm_flags cm) SFE_IPV4_CONNECTION_MATCH_FLAG_XLATE_DEST
      in cm\<lparr>cm_xlate_src_csum_adjustment := (if s then csum_adjustment (cm_match_src_ip cm) (cm_match_src_port cm)
               (cm_xlate_src_ip cm) (cm_xlate_src_port cm) else cm_xlate_src_csum_adjustment cm),
           cm_xlate_dest_csum_adjustment := (if d then csum_adjustment (cm_match_dest_ip cm) (cm_match_dest_port cm)
               (cm_xlate_dest_ip cm) (cm_xlate_dest_port cm) else cm_xlate_dest_csum_adjustment cm),
           cm_xlate_src_partial_csum_adjustment := (if s then partial_csum_adjustment (cm_match_src_ip cm)
               (cm_xlate_src_ip cm) else cm_xlate_src_partial_csum_adjustment cm),
           cm_xlate_dest_partial_csum_adjustment := (if d then partial_csum_adjustment (cm_match_dest_ip cm)
               (cm_xlate_dest_ip cm) else cm_xlate_dest_partial_csum_adjustment cm)\<rparr>)"
proof -
  show ?thesis
    unfolding sfe_ipv4_connection_match_compute_translations_def csum_adjustment_def [symmetric] Let_def
      partial_csum_adjustment_def [unfolded Let_def, symmetric]
    by (cases "has_flag (cm_flags cm) SFE_IPV4_CONNECTION_MATCH_FLAG_XLATE_SRC";
        cases "has_flag (cm_flags cm) SFE_IPV4_CONNECTION_MATCH_FLAG_XLATE_DEST")
      (simp_all add: csum_adjustment_def [symmetric])
qed

lemma unat_sum6:
  fixes a b c d e f :: u32
  assumes "unat a < 65536" "unat b < 65536" "unat c < 65536" "unat d < 65536" "unat e < 65536" "unat f < 65536"
  shows "unat (a + b + c + d + e + f) = unat a + unat b + unat c + unat d + unat e + unat f"
  using assms by (simp add: unat_plus_u32)

lemma csum_adjustment_law:
  "csum_eq (unat (csum_adjustment ip port ip' port') + ip_sum ip' + unat port') (ip_sum ip + unat port)"
proof -
  define s where "s = (ucast (ucast (drop_bit 16 ip) :: u16) :: u32) + ucast (ucast (ip AND 0xffff) :: u16)
       + ucast port + ucast (ucast (drop_bit 16 (NOT ip')) :: u16) + ucast (ucast (NOT ip' AND 0xffff) :: u16)
       + ucast (NOT port')"
  define a b c d where "a = unat (ucast (drop_bit 16 ip) :: u16)" and "b = unat (ucast ip :: u16)"
    and "c = unat (ucast (drop_bit 16 ip') :: u16)" and "d = unat (ucast ip' :: u16)"
  have lt: "a < 65536" "b < 65536" "c < 65536" "d < 65536" "unat port < 65536" "unat port' < 65536"
    unfolding a_def b_def c_def d_def by (rule unat_u16_less)+
  have bs: "unat (ucast (ip AND 0xffff) :: u16) = b" "unat (ucast (NOT ip' AND 0xffff) :: u16) = 65535 - d"
    "unat (ucast (drop_bit 16 (NOT ip')) :: u16) = 65535 - c"
    unfolding b_def d_def c_def by (simp_all only: unat_and_low unat_not_lo unat_not_hi)
  have s: "unat s = a + b + unat port + (65535 - c) + (65535 - d) + (65535 - unat port')"
    unfolding s_def
    by (subst unat_sum6) (simp_all only: unat_ucast_u16_u32 unat_u16_less bs unat_not_u16 a_def [symmetric] lt)
  have "csum_eq (unat (csum_adjustment ip port ip' port') + (c + d + unat port')) (unat s + (c + d + unat port'))"
    unfolding csum_adjustment_def s_def [symmetric] by (rule csum_eq_add [OF csum_fold_twice_cong refl])
  also have "unat s + (c + d + unat port') = (a + b + unat port) + 65535 * 3"
    unfolding s using lt by linarith
  also have "csum_eq \<dots> (a + b + unat port)" by (rule mod_mult_self2)
  finally show ?thesis
    by (simp only: ip_sum_def a_def [symmetric] b_def [symmetric] c_def [symmetric] d_def [symmetric] add.assoc)
qed

lemma partial_csum_adjustment_law:
  "csum_eq (unat (partial_csum_adjustment ip ip') + unat ip) (unat ip')"
proof -
  let ?n = "4294967295 - unat ip + unat ip'"
  define a where "a = (let adj = NOT ip + ip' in if adj < ip' then adj + 1 else adj)"
  have lt: "unat ip < 4294967296" "unat ip' < 4294967296" by (rule unat_u32_less)+
  have sum: "unat (NOT ip + ip') = ?n mod 4294967296"
    by (simp add: unat_word_ariths unat_not_u32)
  have "unat a = ?n \<or> unat a + 4294967295 = ?n"
  proof (cases "?n < 4294967296")
    case True
    then have "unat (NOT ip + ip') = ?n" unfolding sum by (rule mod_less)
    moreover then have "\<not> NOT ip + ip' < ip'" by (simp add: word_less_nat_alt)
    ultimately show ?thesis by (simp add: a_def Let_def)
  next
    case False
    then have n: "unat (NOT ip + ip') = ?n - 4294967296"
      unfolding sum using lt by (subst le_mod_geq) simp_all
    then have l: "NOT ip + ip' < ip'"
      unfolding word_less_nat_alt n using lt False by linarith
    have "unat (NOT ip + ip' + 1) = unat (NOT ip + ip') + 1"
      by (subst unat_plus_u32) (use n lt False in \<open>simp_all\<close>)
    then have "unat a = ?n - 4294967295"
      using l n False by (simp add: a_def)
    with False show ?thesis by linarith
  qed
  then have "csum_eq (unat a) ?n"
  proof
    assume "unat a + 4294967295 = ?n"
    then have "?n = unat a + 65535 * 65537" by simp
    then show ?thesis by (simp only: mod_mult_self2)
  qed simp
  then have "csum_eq (unat (partial_csum_adjustment ip ip') + unat ip) (?n + unat ip)"
    unfolding partial_csum_adjustment_def Let_def a_def [unfolded Let_def, symmetric]
    using csum_fold_twice_cong [of a] by (intro csum_eq_add refl) simp
  also have "?n + unat ip = unat ip' + 65535 * 65537" using lt by linarith
  finally show ?thesis by (simp only: mod_mult_self2)
qed

section \<open>The checksum of a datagram\<close>

text \<open>
  The sum a transport checksum covers: pseudo header (addresses, protocol, length in network byte
  order) and datagram.
\<close>

definition transport_sum :: "be32 \<Rightarrow> be32 \<Rightarrow> u8 \<Rightarrow> mem \<Rightarrow> nat \<Rightarrow> nat \<Rightarrow> nat" where
  "transport_sum src dest protocol m off n =
     ip_sum src + ip_sum dest + unat (ntohs (ucast protocol)) + unat (ntohs (of_nat n)) + words_sum m off n"

definition transport_csum_ok :: "be32 \<Rightarrow> be32 \<Rightarrow> u8 \<Rightarrow> mem \<Rightarrow> nat \<Rightarrow> nat \<Rightarrow> bool" where
  "transport_csum_ok src dest protocol m off n \<longleftrightarrow> csum_eq (transport_sum src dest protocol m off n) 0"

lemma transport_xlate_aux:
  assumes n: "2 * j + 1 < n" "2 * k + 1 < n" and jk: "j \<noteq> k"
    and m': "m' = st16 (st16 m (off + 2 * j) port') (off + 2 * k)
                   (csum_update (ld16 m (off + 2 * k)) (csum_adjustment ip (ld16 m (off + 2 * j)) ip' port'))"
  shows "csum_eq (ip_sum ip' + words_sum m' off n) (ip_sum ip + words_sum m off n)"
  by (rule words_sum_xlate [OF n jk csum_adjustment_law m'])

lemma transport_xlate_src:
  assumes "2 * j + 1 < n" "2 * k + 1 < n" "j \<noteq> k"
    and "m' = st16 (st16 m (off + 2 * j) port') (off + 2 * k)
                   (csum_update (ld16 m (off + 2 * k)) (csum_adjustment ip (ld16 m (off + 2 * j)) ip' port'))"
  shows "transport_csum_ok ip' dest protocol m' off n \<longleftrightarrow> transport_csum_ok ip dest protocol m off n"
proof -
  have "csum_eq (transport_sum ip' dest protocol m' off n) (transport_sum ip dest protocol m off n)"
    using csum_eq_add [OF transport_xlate_aux [OF assms] refl, of "ip_sum dest + unat (ntohs (ucast protocol)) + unat (ntohs (of_nat n))"]
    by (simp only: transport_sum_def add_ac)
  then show ?thesis by (simp only: transport_csum_ok_def)
qed

lemma transport_xlate_dest:
  assumes "2 * j + 1 < n" "2 * k + 1 < n" "j \<noteq> k"
    and "m' = st16 (st16 m (off + 2 * j) port') (off + 2 * k)
                   (csum_update (ld16 m (off + 2 * k)) (csum_adjustment ip (ld16 m (off + 2 * j)) ip' port'))"
  shows "transport_csum_ok src ip' protocol m' off n \<longleftrightarrow> transport_csum_ok src ip protocol m off n"
proof -
  have "csum_eq (transport_sum src ip' protocol m' off n) (transport_sum src ip protocol m off n)"
    using csum_eq_add [OF transport_xlate_aux [OF assms] refl, of "ip_sum src + unat (ntohs (ucast protocol)) + unat (ntohs (of_nat n))"]
    by (simp only: transport_sum_def add_ac)
  then show ?thesis by (simp only: transport_csum_ok_def)
qed

end
