(* ===== verification/SFE_IPv4_Rules.thy ===== *)
theory SFE_IPv4_Rules
  imports SFE_IPv4_Table SFE_IPv4_Csum
begin

text \<open>
  The control path of the IPv4 engine: statistics, sync messages, flushing, and the operations the
  connection manager calls (create, update, mark and destroy a rule, destroy all rules of a device,
  register the sync callback), the periodic sync, module init and exit. Calls of the sync callback
  are returned as a list of the callback pointer and the message.
\<close>

section \<open>Statistics\<close>

definition sfe_ipv4_connection_match_update_summary_stats ::
  "sfe_ipv4_connection_match \<Rightarrow> sfe_ipv4_connection_match" where
  "sfe_ipv4_connection_match_update_summary_stats cm =
     cm\<lparr>cm_rx_packet_count64 := cm_rx_packet_count64 cm + ucast (cm_rx_packet_count cm),
        cm_rx_packet_count := 0,
        cm_rx_byte_count64 := cm_rx_byte_count64 cm + ucast (cm_rx_byte_count cm),
        cm_rx_byte_count := 0\<rparr>"

definition sfe_ipv4_update_summary_stats :: "sfe_ipv4 \<Rightarrow> sfe_ipv4" where
  "sfe_ipv4_update_summary_stats si =
     si\<lparr>connection_create_requests64 := connection_create_requests64 si + ucast (connection_create_requests si),
        connection_create_requests := 0,
        connection_create_collisions64 := connection_create_collisions64 si + ucast (connection_create_collisions si),
        connection_create_collisions := 0,
        connection_destroy_requests64 := connection_destroy_requests64 si + ucast (connection_destroy_requests si),
        connection_destroy_requests := 0,
        connection_destroy_misses64 := connection_destroy_misses64 si + ucast (connection_destroy_misses si),
        connection_destroy_misses := 0,
        connection_match_hash_hits64 := connection_match_hash_hits64 si + ucast (connection_match_hash_hits si),
        connection_match_hash_hits := 0,
        connection_match_hash_reorders64 := connection_match_hash_reorders64 si + ucast (connection_match_hash_reorders si),
        connection_match_hash_reorders := 0,
        connection_flushes64 := connection_flushes64 si + ucast (connection_flushes si),
        connection_flushes := 0,
        packets_forwarded64 := packets_forwarded64 si + ucast (packets_forwarded si),
        packets_forwarded := 0,
        packets_not_forwarded64 := packets_not_forwarded64 si + ucast (packets_not_forwarded si),
        packets_not_forwarded := 0,
        exception_events64 := (\<lambda>e. exception_events64 si e + ucast (exception_events si e)),
        exception_events := (\<lambda>_. 0)\<rparr>"

section \<open>Sync messages and flushing\<close>

text \<open>\<open>dev_hold\<close> and \<open>dev_put\<close>.\<close>

definition dev_hold :: "dev_ptr \<Rightarrow> sfe_ipv4 \<Rightarrow> sfe_ipv4" where
  "dev_hold d si = si\<lparr>dev_refs := (dev_refs si)(d := dev_refs si d + 1)\<rparr>"

definition dev_put :: "dev_ptr \<Rightarrow> sfe_ipv4 \<Rightarrow> sfe_ipv4" where
  "dev_put d si = si\<lparr>dev_refs := (dev_refs si)(d := dev_refs si d - 1)\<rparr>"

text \<open>Writing the IPv4 member of an address union.\<close>

definition set_ip :: "be32 \<Rightarrow> sfe_ip_addr \<Rightarrow> sfe_ip_addr" where
  "set_ip ip a = a\<lparr>ip6_0 := ip\<rparr>"

definition sfe_ipv4_gen_sync_sfe_ipv4_connection ::
  "sfe_ipv4 \<Rightarrow> ptr \<Rightarrow> sfe_connection_sync \<Rightarrow> sfe_sync_reason \<Rightarrow> u64 \<Rightarrow> sfe_connection_sync \<times> sfe_ipv4" where
  "sfe_ipv4_gen_sync_sfe_ipv4_connection si cp sis reason now_jiffies =
     (let c = connections si cp;
          sis = sis\<lparr>sis_is_v6 := False, sis_protocol := c_protocol c,
                    sis_src_ip := set_ip (c_src_ip c) (sis_src_ip sis),
                    sis_src_ip_xlate := set_ip (c_src_ip_xlate c) (sis_src_ip_xlate sis),
                    sis_dest_ip := set_ip (c_dest_ip c) (sis_dest_ip sis),
                    sis_dest_ip_xlate := set_ip (c_dest_ip_xlate c) (sis_dest_ip_xlate sis),
                    sis_src_port := c_src_port c, sis_src_port_xlate := c_src_port_xlate c,
                    sis_dest_port := c_dest_port c, sis_dest_port_xlate := c_dest_port_xlate c\<rparr>;
          original_cm = c_original_match c;
          reply_cm = c_reply_match c;
          original_tcp = cm_tcp (matches si original_cm);
          reply_tcp = cm_tcp (matches si reply_cm);
          sis = sis\<lparr>sis_src_td_max_window := tcp_max_win original_tcp, sis_src_td_end := tcp_end original_tcp,
                    sis_src_td_max_end := tcp_max_end original_tcp,
                    sis_dest_td_max_window := tcp_max_win reply_tcp, sis_dest_td_end := tcp_end reply_tcp,
                    sis_dest_td_max_end := tcp_max_end reply_tcp,
                    sis_src_new_packet_count := cm_rx_packet_count (matches si original_cm),
                    sis_src_new_byte_count := cm_rx_byte_count (matches si original_cm),
                    sis_dest_new_packet_count := cm_rx_packet_count (matches si reply_cm),
                    sis_dest_new_byte_count := cm_rx_byte_count (matches si reply_cm)\<rparr>;
          si = upd_cm original_cm sfe_ipv4_connection_match_update_summary_stats si;
          si = upd_cm reply_cm sfe_ipv4_connection_match_update_summary_stats si;
          sis = sis\<lparr>sis_src_dev := cm_match_dev (matches si original_cm),
                    sis_src_packet_count := cm_rx_packet_count64 (matches si original_cm),
                    sis_src_byte_count := cm_rx_byte_count64 (matches si original_cm),
                    sis_dest_dev := cm_match_dev (matches si reply_cm),
                    sis_dest_packet_count := cm_rx_packet_count64 (matches si reply_cm),
                    sis_dest_byte_count := cm_rx_byte_count64 (matches si reply_cm),
                    sis_reason := reason,
                    sis_delta_jiffies := now_jiffies - c_last_sync_jiffies c\<rparr>;
          si = upd_c cp (\<lambda>c. c\<lparr>c_last_sync_jiffies := now_jiffies\<rparr>) si
      in (sis, si))"

text \<open>\<open>kfree\<close> takes the address out of the live set.\<close>

definition sfe_ipv4_flush_sfe_ipv4_connection ::
  "u64 \<Rightarrow> sfe_ipv4 \<Rightarrow> ptr \<Rightarrow> sfe_sync_reason \<Rightarrow> sfe_ipv4 \<times> syncs" where
  "sfe_ipv4_flush_sfe_ipv4_connection jiffies si c reason =
     (let si = si\<lparr>connection_flushes := connection_flushes si + 1\<rparr>;
          (si, out) = (case sync_rule_callback si of
              None \<Rightarrow> (si, [])
            | Some cb \<Rightarrow> let (sis, si) = sfe_ipv4_gen_sync_sfe_ipv4_connection si c stack_sis reason jiffies
                         in (si, [(cb, sis)]));
          si = dev_put (c_original_dev (connections si c)) si;
          si = dev_put (c_reply_dev (connections si c)) si;
          si = si\<lparr>live_matches := live_matches si - {c_original_match (connections si c)}\<rparr>;
          si = si\<lparr>live_matches := live_matches si - {c_reply_match (connections si c)}\<rparr>;
          si = si\<lparr>live_connections := live_connections si - {c}\<rparr>
      in (si, out))"

section \<open>Updating and marking a rule\<close>

definition tcp_state_max ::
  "u32 \<Rightarrow> u32 \<Rightarrow> u32 \<Rightarrow> sfe_ipv4_tcp_connection_match \<Rightarrow> sfe_ipv4_tcp_connection_match" where
  "tcp_state_max max_window td_end td_max_end tcp =
     (let tcp = (if tcp_max_win tcp < max_window then tcp\<lparr>tcp_max_win := max_window\<rparr> else tcp);
          tcp = (if s32 (tcp_end tcp - td_end) < 0 then tcp\<lparr>tcp_end := td_end\<rparr> else tcp)
      in if s32 (tcp_max_end tcp - td_max_end) < 0 then tcp\<lparr>tcp_max_end := td_max_end\<rparr> else tcp)"

definition cm_clear_flag :: "u32 \<Rightarrow> sfe_ipv4_connection_match \<Rightarrow> sfe_ipv4_connection_match" where
  "cm_clear_flag f m = m\<lparr>cm_flags := cm_flags m AND NOT f\<rparr>"

definition cm_set_flag :: "u32 \<Rightarrow> sfe_ipv4_connection_match \<Rightarrow> sfe_ipv4_connection_match" where
  "cm_set_flag f m = m\<lparr>cm_flags := cm_flags m OR f\<rparr>"

definition sfe_ipv4_update_tcp_state :: "sfe_ipv4 \<Rightarrow> ptr \<Rightarrow> sfe_connection_create \<Rightarrow> sfe_ipv4" where
  "sfe_ipv4_update_tcp_state si c sic =
     (let orig_cm = c_original_match (connections si c);
          repl_cm = c_reply_match (connections si c);
          si = upd_cm orig_cm (\<lambda>m. m\<lparr>cm_tcp := tcp_state_max (sic_src_td_max_window sic)
                 (sic_src_td_end sic) (sic_src_td_max_end sic) (cm_tcp m)\<rparr>) si;
          si = upd_cm repl_cm (\<lambda>m. m\<lparr>cm_tcp := tcp_state_max (sic_dest_td_max_window sic)
                 (sic_dest_td_end sic) (sic_dest_td_max_end sic) (cm_tcp m)\<rparr>) si;
          si = upd_cm orig_cm (cm_clear_flag SFE_IPV4_CONNECTION_MATCH_FLAG_NO_SEQ_CHECK) si;
          si = upd_cm repl_cm (cm_clear_flag SFE_IPV4_CONNECTION_MATCH_FLAG_NO_SEQ_CHECK) si
      in if has_flag (sic_flags sic) SFE_CREATE_FLAG_NO_SEQ_CHECK
         then upd_cm repl_cm (cm_set_flag SFE_IPV4_CONNECTION_MATCH_FLAG_NO_SEQ_CHECK)
                (upd_cm orig_cm (cm_set_flag SFE_IPV4_CONNECTION_MATCH_FLAG_NO_SEQ_CHECK) si)
         else si)"

definition sfe_ipv4_update_protocol_state :: "sfe_ipv4 \<Rightarrow> ptr \<Rightarrow> sfe_connection_create \<Rightarrow> sfe_ipv4" where
  "sfe_ipv4_update_protocol_state si c sic =
     (if sic_protocol sic = ucast IPPROTO_TCP then sfe_ipv4_update_tcp_state si c sic else si)"

definition sfe_ipv4_update_rule :: "sfe_ipv4 \<Rightarrow> sfe_connection_create \<Rightarrow> sfe_ipv4 option" where
  "sfe_ipv4_update_rule si sic = do {
     r \<leftarrow> sfe_ipv4_find_sfe_ipv4_connection si (sic_protocol sic) (sa_ip (sic_src_ip sic)) (sic_src_port sic)
            (sa_ip (sic_dest_ip sic)) (sic_dest_port sic);
     case r of None \<Rightarrow> Some si | Some c \<Rightarrow> Some (sfe_ipv4_update_protocol_state si c sic) }"

definition sfe_ipv4_mark_rule :: "sfe_ipv4 \<Rightarrow> sfe_connection_mark \<Rightarrow> sfe_ipv4 option" where
  "sfe_ipv4_mark_rule si mark = do {
     r \<leftarrow> sfe_ipv4_find_sfe_ipv4_connection si (mk_protocol mark) (sa_ip (mk_src_ip mark)) (mk_src_port mark)
            (sa_ip (mk_dest_ip mark)) (mk_dest_port mark);
     case r of None \<Rightarrow> Some si | Some c \<Rightarrow> Some (upd_c c (\<lambda>c. c\<lparr>c_mark := mk_mark mark\<rparr>) si) }"

section \<open>Creating a rule\<close>

definition SFE_IPV4_DSCP_SHIFT :: nat where "SFE_IPV4_DSCP_SHIFT = 2"

text \<open>The remark fields, which keep what the memory held where the flag is not set.\<close>

definition set_remark ::
  "u32 \<Rightarrow> u32 \<Rightarrow> u32 \<Rightarrow> sfe_ipv4_connection_match \<Rightarrow> sfe_ipv4_connection_match" where
  "set_remark flags priority dscp m =
     (let m = (if has_flag flags SFE_CREATE_FLAG_REMARK_PRIORITY
               then cm_set_flag SFE_IPV4_CONNECTION_MATCH_FLAG_PRIORITY_REMARK (m\<lparr>cm_priority := priority\<rparr>)
               else m)
      in if has_flag flags SFE_CREATE_FLAG_REMARK_DSCP
         then cm_set_flag SFE_IPV4_CONNECTION_MATCH_FLAG_DSCP_REMARK
                (m\<lparr>cm_dscp := push_bit SFE_IPV4_DSCP_SHIFT dscp\<rparr>)
         else m)"

definition set_l2_flags :: "net_device \<Rightarrow> sfe_ipv4_connection_match \<Rightarrow> sfe_ipv4_connection_match" where
  "set_l2_flags dev m =
     (if nd_pointopoint dev then m
      else let m = cm_set_flag SFE_IPV4_CONNECTION_MATCH_FLAG_WRITE_L2_HDR m
           in if nd_header_ops dev = Some Eth_header
              then cm_set_flag SFE_IPV4_CONNECTION_MATCH_FLAG_WRITE_FAST_ETH_HDR m
              else m)"

definition fill_original_cm ::
  "(dev_ptr \<Rightarrow> net_device) \<Rightarrow> sfe_connection_create \<Rightarrow> ptr \<Rightarrow> ptr \<Rightarrow>
   sfe_ipv4_connection_match \<Rightarrow> sfe_ipv4_connection_match" where
  "fill_original_cm devs sic c reply_cm m =
     (let dest_dev = sic_dest_dev sic; src_dev = sic_src_dev sic;
          m = m\<lparr>cm_match_dev := src_dev, cm_match_protocol := ucast (sic_protocol sic),
                cm_match_src_ip := sa_ip (sic_src_ip sic), cm_match_src_port := sic_src_port sic,
                cm_match_dest_ip := sa_ip (sic_dest_ip sic), cm_match_dest_port := sic_dest_port sic\<rparr>;
          m = m\<lparr>cm_xlate_src_ip := sa_ip (sic_src_ip_xlate sic), cm_xlate_src_port := sic_src_port_xlate sic,
                cm_xlate_dest_ip := sa_ip (sic_dest_ip_xlate sic), cm_xlate_dest_port := sic_dest_port_xlate sic\<rparr>;
          m = m\<lparr>cm_rx_packet_count := 0, cm_rx_packet_count64 := 0, cm_rx_byte_count := 0,
                cm_rx_byte_count64 := 0, cm_xmit_dev := dest_dev, cm_xmit_dev_mtu := ucast (sic_dest_mtu sic),
                cm_xmit_src_mac := mac_copy (cm_xmit_src_mac m) (nd_dev_addr (devs dest_dev)),
                cm_xmit_dest_mac := mac_copy (cm_xmit_dest_mac m) (sic_dest_mac_xlate sic),
                cm_connection := c, cm_counter_match := reply_cm, cm_flags := 0\<rparr>;
          m = set_remark (sic_flags sic) (sic_src_priority sic) (sic_src_dscp sic) m;
          m = m\<lparr>cm_flow_accel := sic_original_accel sic, cm_active_next := None, cm_active_prev := None,
                cm_active := False\<rparr>
      in set_l2_flags (devs dest_dev) m)"

definition fill_reply_cm ::
  "(dev_ptr \<Rightarrow> net_device) \<Rightarrow> sfe_connection_create \<Rightarrow> ptr \<Rightarrow> ptr \<Rightarrow>
   sfe_ipv4_connection_match \<Rightarrow> sfe_ipv4_connection_match" where
  "fill_reply_cm devs sic c original_cm m =
     (let dest_dev = sic_dest_dev sic; src_dev = sic_src_dev sic;
          m = m\<lparr>cm_match_dev := dest_dev, cm_match_protocol := ucast (sic_protocol sic),
                cm_match_src_ip := sa_ip (sic_dest_ip_xlate sic), cm_match_src_port := sic_dest_port_xlate sic,
                cm_match_dest_ip := sa_ip (sic_src_ip_xlate sic), cm_match_dest_port := sic_src_port_xlate sic\<rparr>;
          m = m\<lparr>cm_xlate_src_ip := sa_ip (sic_dest_ip sic), cm_xlate_src_port := sic_dest_port sic,
                cm_xlate_dest_ip := sa_ip (sic_src_ip sic), cm_xlate_dest_port := sic_src_port sic\<rparr>;
          m = m\<lparr>cm_rx_packet_count := 0, cm_rx_packet_count64 := 0, cm_rx_byte_count := 0,
                cm_rx_byte_count64 := 0, cm_xmit_dev := src_dev, cm_xmit_dev_mtu := ucast (sic_src_mtu sic),
                cm_xmit_src_mac := mac_copy (cm_xmit_src_mac m) (nd_dev_addr (devs src_dev)),
                cm_xmit_dest_mac := mac_copy (cm_xmit_dest_mac m) (sic_src_mac sic),
                cm_connection := c, cm_counter_match := original_cm, cm_flags := 0\<rparr>;
          m = set_remark (sic_flags sic) (sic_dest_priority sic) (sic_dest_dscp sic) m;
          m = m\<lparr>cm_flow_accel := sic_reply_accel sic, cm_active_next := None, cm_active_prev := None,
                cm_active := False\<rparr>
      in set_l2_flags (devs src_dev) m)"

definition set_xlate_flags :: "sfe_connection_create \<Rightarrow> ptr \<Rightarrow> ptr \<Rightarrow> sfe_ipv4 \<Rightarrow> sfe_ipv4" where
  "set_xlate_flags sic original_cm reply_cm si =
     (let si = (if sa_ip (sic_dest_ip sic) \<noteq> sa_ip (sic_dest_ip_xlate sic) \<or> sic_dest_port sic \<noteq> sic_dest_port_xlate sic
                then upd_cm reply_cm (cm_set_flag SFE_IPV4_CONNECTION_MATCH_FLAG_XLATE_SRC)
                       (upd_cm original_cm (cm_set_flag SFE_IPV4_CONNECTION_MATCH_FLAG_XLATE_DEST) si)
                else si)
      in if sa_ip (sic_src_ip sic) \<noteq> sa_ip (sic_src_ip_xlate sic) \<or> sic_src_port sic \<noteq> sic_src_port_xlate sic
         then upd_cm reply_cm (cm_set_flag SFE_IPV4_CONNECTION_MATCH_FLAG_XLATE_DEST)
                (upd_cm original_cm (cm_set_flag SFE_IPV4_CONNECTION_MATCH_FLAG_XLATE_SRC) si)
         else si)"

definition fill_connection ::
  "u64 \<Rightarrow> sfe_connection_create \<Rightarrow> ptr \<Rightarrow> ptr \<Rightarrow> sfe_ipv4_connection \<Rightarrow> sfe_ipv4_connection" where
  "fill_connection jiffies sic original_cm reply_cm c =
     c\<lparr>c_protocol := sic_protocol sic, c_src_ip := sa_ip (sic_src_ip sic),
       c_src_ip_xlate := sa_ip (sic_src_ip_xlate sic), c_src_port := sic_src_port sic,
       c_src_port_xlate := sic_src_port_xlate sic, c_original_dev := sic_src_dev sic,
       c_original_match := original_cm, c_dest_ip := sa_ip (sic_dest_ip sic),
       c_dest_ip_xlate := sa_ip (sic_dest_ip_xlate sic), c_dest_port := sic_dest_port sic,
       c_dest_port_xlate := sic_dest_port_xlate sic, c_reply_dev := sic_dest_dev sic,
       c_reply_match := reply_cm, c_mark := sic_mark sic, c_debug_read_seq := 0,
       c_last_sync_jiffies := jiffies\<rparr>"

definition tcp_state_init :: "u8 \<Rightarrow> u32 \<Rightarrow> u32 \<Rightarrow> u32 \<Rightarrow> sfe_ipv4_tcp_connection_match" where
  "tcp_state_init win_scale max_window td_end td_max_end =
     \<lparr>tcp_win_scale = win_scale, tcp_max_win = (if max_window \<noteq> 0 then max_window else 1),
      tcp_end = td_end, tcp_max_end = td_max_end\<rparr>"

definition init_protocol_state :: "sfe_connection_create \<Rightarrow> ptr \<Rightarrow> ptr \<Rightarrow> sfe_ipv4 \<Rightarrow> sfe_ipv4" where
  "init_protocol_state sic original_cm reply_cm si =
     (if sic_protocol sic = ucast IPPROTO_TCP
      then let si = upd_cm original_cm (\<lambda>m. m\<lparr>cm_tcp := tcp_state_init (sic_src_td_window_scale sic)
                      (sic_src_td_max_window sic) (sic_src_td_end sic) (sic_src_td_max_end sic)\<rparr>) si;
               si = upd_cm reply_cm (\<lambda>m. m\<lparr>cm_tcp := tcp_state_init (sic_dest_td_window_scale sic)
                      (sic_dest_td_max_window sic) (sic_dest_td_end sic) (sic_dest_td_max_end sic)\<rparr>) si
           in if has_flag (sic_flags sic) SFE_CREATE_FLAG_NO_SEQ_CHECK
              then upd_cm reply_cm (cm_set_flag SFE_IPV4_CONNECTION_MATCH_FLAG_NO_SEQ_CHECK)
                     (upd_cm original_cm (cm_set_flag SFE_IPV4_CONNECTION_MATCH_FLAG_NO_SEQ_CHECK) si)
              else si
      else si)"

text \<open>Everything \<open>sfe_ipv4_create_rule\<close> does once it has its three objects.\<close>

definition build_rule ::
  "(dev_ptr \<Rightarrow> net_device) \<Rightarrow> u64 \<Rightarrow> sfe_connection_create \<Rightarrow> ptr \<Rightarrow> ptr \<Rightarrow> ptr \<Rightarrow> sfe_ipv4 \<Rightarrow> sfe_ipv4" where
  "build_rule devs jiffies sic c original_cm reply_cm si =
     (let si = upd_cm original_cm (fill_original_cm devs sic c reply_cm) si;
          si = upd_cm reply_cm (fill_reply_cm devs sic c original_cm) si;
          si = set_xlate_flags sic original_cm reply_cm si;
          si = upd_c c (fill_connection jiffies sic original_cm reply_cm) si;
          si = dev_hold (c_original_dev (connections si c)) si;
          si = dev_hold (c_reply_dev (connections si c)) si;
          si = init_protocol_state sic original_cm reply_cm si;
          si = upd_cm original_cm sfe_ipv4_connection_match_compute_translations si;
          si = upd_cm reply_cm sfe_ipv4_connection_match_compute_translations si
      in sfe_ipv4_insert_sfe_ipv4_connection si c)"

text \<open>
  \<open>kc\<close>, \<open>ko\<close> and \<open>kr\<close> are what the three calls of \<open>kmalloc\<close> return. What a later failure frees
  again was never used, so the state is that before the allocation.
\<close>

definition sfe_ipv4_create_rule ::
  "(dev_ptr \<Rightarrow> net_device) \<Rightarrow> u64 \<Rightarrow> ptr option \<Rightarrow> ptr option \<Rightarrow> ptr option \<Rightarrow>
   sfe_ipv4 \<Rightarrow> sfe_connection_create \<Rightarrow> (int \<times> sfe_ipv4) option" where
  "sfe_ipv4_create_rule devs jiffies kc ko kr si sic =
     (if \<not> nd_registered (devs (sic_dest_dev sic)) \<or> \<not> nd_registered (devs (sic_src_dev sic))
      then Some (- EINVAL, si)
      else let si = si\<lparr>connection_create_requests := connection_create_requests si + 1\<rparr>
      in do {
        r \<leftarrow> sfe_ipv4_find_sfe_ipv4_connection si (sic_protocol sic) (sa_ip (sic_src_ip sic)) (sic_src_port sic)
               (sa_ip (sic_dest_ip sic)) (sic_dest_port sic);
        case r of
          Some c \<Rightarrow> let si = si\<lparr>connection_create_collisions := connection_create_collisions si + 1\<rparr>
                    in Some (- EADDRINUSE, sfe_ipv4_update_protocol_state si c sic)
        | None \<Rightarrow>
            (case kc of None \<Rightarrow> Some (- ENOMEM, si)
             | Some c \<Rightarrow>
                (case ko of None \<Rightarrow> Some (- ENOMEM, si)
                 | Some original_cm \<Rightarrow>
                    (case kr of None \<Rightarrow> Some (- ENOMEM, si)
                     | Some reply_cm \<Rightarrow>
                        let si = si\<lparr>live_connections := insert c (live_connections si),
                                    live_matches := insert original_cm (insert reply_cm (live_matches si))\<rparr>
                        in Some (0, build_rule devs jiffies sic c original_cm reply_cm si)))) })"

section \<open>Destroying rules\<close>

definition sfe_ipv4_destroy_rule :: "u64 \<Rightarrow> sfe_ipv4 \<Rightarrow> sfe_connection_destroy \<Rightarrow> (sfe_ipv4 \<times> syncs) option" where
  "sfe_ipv4_destroy_rule jiffies si sid =
     (let si = si\<lparr>connection_destroy_requests := connection_destroy_requests si + 1\<rparr>
      in do {
        r \<leftarrow> sfe_ipv4_find_sfe_ipv4_connection si (sid_protocol sid) (sa_ip (sid_src_ip sid)) (sid_src_port sid)
               (sa_ip (sid_dest_ip sid)) (sid_dest_port sid);
        case r of
          None \<Rightarrow> Some (si\<lparr>connection_destroy_misses := connection_destroy_misses si + 1\<rparr>, [])
        | Some c \<Rightarrow> Some (sfe_ipv4_flush_sfe_ipv4_connection jiffies
                             (sfe_ipv4_remove_sfe_ipv4_connection si c) c SFE_SYNC_REASON_DESTROY) })"

definition sfe_ipv4_register_sync_rule_callback :: "sfe_ipv4 \<Rightarrow> ptr option \<Rightarrow> sfe_ipv4" where
  "sfe_ipv4_register_sync_rule_callback si cb = si\<lparr>sync_rule_callback := cb\<rparr>"

text \<open>The device test of \<open>sfe_ipv4_destroy_all_rules_for_dev\<close>; the NULL device is 0.\<close>

definition uses_dev :: "sfe_ipv4_connection \<Rightarrow> dev_ptr \<Rightarrow> bool" where
  "uses_dev c dev \<longleftrightarrow> dev = 0 \<or> dev = c_original_dev c \<or> dev = c_reply_dev c"

partial_function (option) sfe_ipv4_destroy_all_rules_for_dev ::
  "u64 \<Rightarrow> dev_ptr \<Rightarrow> sfe_ipv4 \<Rightarrow> (sfe_ipv4 \<times> syncs) option" where
  "sfe_ipv4_destroy_all_rules_for_dev jiffies dev si = do {
     r \<leftarrow> chain_find (\<lambda>p. c_all_connections_next (connections si p)) (\<lambda>p. uses_dev (connections si p) dev)
            (all_connections_head si);
     case r of
       None \<Rightarrow> Some (si, [])
     | Some c \<Rightarrow> do {
         let (si, out) = sfe_ipv4_flush_sfe_ipv4_connection jiffies
               (sfe_ipv4_remove_sfe_ipv4_connection si c) c SFE_SYNC_REASON_DESTROY;
         (si, out') \<leftarrow> sfe_ipv4_destroy_all_rules_for_dev jiffies dev si;
         Some (si, out @ out') } }"

section \<open>The periodic sync\<close>

text \<open>
  Taking the counter match of \<open>cm\<close> and \<open>cm\<close> itself off the active list. The code reads
  \<open>counter_cm->active_prev\<close> without a test: None where that pointer is NULL.
\<close>

definition deactivate_counter :: "sfe_ipv4 \<Rightarrow> ptr \<Rightarrow> sfe_ipv4 option" where
  "deactivate_counter si counter_cm =
     (if cm_active (matches si counter_cm)
      then let si = upd_cm counter_cm (\<lambda>m. m\<lparr>cm_active := False\<rparr>) si
      in (case cm_active_prev (matches si counter_cm) of
            None \<Rightarrow> None
          | Some p \<Rightarrow>
              let si = upd_cm p (\<lambda>m. m\<lparr>cm_active_next := cm_active_next (matches si counter_cm)\<rparr>) si;
                  si = (case cm_active_next (matches si counter_cm) of
                          Some n \<Rightarrow> upd_cm n (\<lambda>m. m\<lparr>cm_active_prev := cm_active_prev (matches si counter_cm)\<rparr>) si
                        | None \<Rightarrow> si\<lparr>active_tail := cm_active_prev (matches si counter_cm)\<rparr>);
                  si = upd_cm counter_cm (\<lambda>m. m\<lparr>cm_active_next := None\<rparr>) si;
                  si = upd_cm counter_cm (\<lambda>m. m\<lparr>cm_active_prev := None\<rparr>) si
              in Some si)
      else Some si)"

definition deactivate_head :: "sfe_ipv4 \<Rightarrow> ptr \<Rightarrow> sfe_ipv4" where
  "deactivate_head si cm =
     (let si = upd_cm cm (\<lambda>m. m\<lparr>cm_active := False\<rparr>) si;
          si = si\<lparr>active_head := cm_active_next (matches si cm)\<rparr>;
          si = (case cm_active_next (matches si cm) of
                  Some n \<Rightarrow> upd_cm n (\<lambda>m. m\<lparr>cm_active_prev := None\<rparr>) si
                | None \<Rightarrow> si\<lparr>active_tail := None\<rparr>)
      in upd_cm cm (\<lambda>m. m\<lparr>cm_active_next := None\<rparr>) si)"

text \<open>The loop, \<open>quota\<close> counted down. The lock is released only while the callback runs.\<close>

fun periodic_sync_loop :: "nat \<Rightarrow> ptr \<Rightarrow> u64 \<Rightarrow> sfe_ipv4 \<Rightarrow> (sfe_ipv4 \<times> syncs) option" where
  "periodic_sync_loop 0 cb now_jiffies si = Some (si, [])"
| "periodic_sync_loop (Suc quota) cb now_jiffies si =
     (case active_head si of
        None \<Rightarrow> Some (si, [])
      | Some cm \<Rightarrow> do {
          si \<leftarrow> deactivate_counter si (cm_counter_match (matches si cm));
          let si = deactivate_head si cm;
          let (sis, si) = sfe_ipv4_gen_sync_sfe_ipv4_connection si (cm_connection (matches si cm)) stack_sis
                            SFE_SYNC_REASON_STATS now_jiffies;
          (si, out) \<leftarrow> periodic_sync_loop quota cb now_jiffies si;
          Some (si, (cb, sis) # out) })"

text \<open>\<open>hz\<close> is the kernel's tick rate \<open>HZ\<close>, \<open>jiffies'\<close> the time when the timer is set again.\<close>

definition sfe_ipv4_periodic_sync :: "u64 \<Rightarrow> u64 \<Rightarrow> u64 \<Rightarrow> sfe_ipv4 \<Rightarrow> (sfe_ipv4 \<times> syncs) option" where
  "sfe_ipv4_periodic_sync hz now_jiffies jiffies' si = do {
     (si, out) \<leftarrow> (case sync_rule_callback si of
         None \<Rightarrow> Some (si, [])
       | Some cb \<Rightarrow> let si = sfe_ipv4_update_summary_stats si;
                         quota = (num_connections si + 63) div 64
                     in periodic_sync_loop (unat quota) cb now_jiffies si);
     Some (si\<lparr>timer_expires := jiffies' + (hz + 99) div 100\<rparr>, out) }"

section \<open>The debug device's write, module init and exit\<close>

definition sfe_ipv4_debug_dev_write :: "sfe_ipv4 \<Rightarrow> nat \<Rightarrow> sfe_ipv4 \<times> nat" where
  "sfe_ipv4_debug_dev_write si len =
     (let si = sfe_ipv4_update_summary_stats si
      in (si\<lparr>packets_forwarded64 := 0, packets_not_forwarded64 := 0, connection_create_requests64 := 0,
             connection_create_collisions64 := 0, connection_destroy_requests64 := 0,
             connection_destroy_misses64 := 0, connection_flushes64 := 0, connection_match_hash_hits64 := 0,
             connection_match_hash_reorders64 := 0\<rparr>, len))"

text \<open>
  The three kernel calls \<open>kobject_create_and_add\<close>, \<open>sysfs_create_file\<close> and \<open>register_chrdev\<close>
  with what they return; the kernel objects registered when it fails are released again.
\<close>

definition sfe_ipv4_init :: "u64 \<Rightarrow> u64 \<Rightarrow> bool \<Rightarrow> int \<Rightarrow> int \<Rightarrow> sfe_ipv4 \<Rightarrow> int \<times> sfe_ipv4" where
  "sfe_ipv4_init hz jiffies kobject sysfs chrdev si =
     (if \<not> kobject then (- 1, si)
      else if sysfs \<noteq> 0 then (sysfs, si)
      else if chrdev < 0 then (chrdev, si)
      else (0, si\<lparr>debug_dev := word_of_int chrdev, timer_expires := jiffies + (hz + 99) div 100\<rparr>))"

definition sfe_ipv4_exit :: "u64 \<Rightarrow> sfe_ipv4 \<Rightarrow> (sfe_ipv4 \<times> syncs) option" where
  "sfe_ipv4_exit jiffies si = sfe_ipv4_destroy_all_rules_for_dev jiffies 0 si"

end
