(* ===== verification/SFE_IPv4_Rules_Inv.thy ===== *)
theory SFE_IPv4_Rules_Inv
  imports SFE_IPv4_Rules
begin

text \<open>
  The control path keeps the structural invariant: which writes leave the tables alone, the
  invariant under each operation, and the engine's rules as a map from keys that each operation
  updates at one point.
\<close>

section \<open>Writes that leave the tables alone\<close>

text \<open>
  The shape of a state is what the invariant reads. Most writes of the engine (counters, protocol
  state, flags, marks) keep it.
\<close>

definition cm_view :: "sfe_ipv4_connection_match \<Rightarrow>
    (ptr option \<times> ptr option) \<times> (ptr option \<times> ptr option) \<times> bool \<times> match_key \<times> ptr \<times> ptr" where
  "cm_view m = ((cm_next m, cm_prev m), (cm_active_next m, cm_active_prev m), cm_active m, cm_key m,
     cm_connection m, cm_counter_match m)"

definition c_view :: "sfe_ipv4_connection \<Rightarrow>
    (ptr option \<times> ptr option) \<times> (ptr option \<times> ptr option) \<times> conn_key \<times> (ptr \<times> ptr) \<times> (dev_ptr \<times> dev_ptr)" where
  "c_view c = ((c_next c, c_prev c), (c_all_connections_next c, c_all_connections_prev c), c_key c,
     (c_original_match c, c_reply_match c), (c_original_dev c, c_reply_dev c))"

definition keeps_cm :: "(sfe_ipv4_connection_match \<Rightarrow> sfe_ipv4_connection_match) \<Rightarrow> bool" where
  "keeps_cm f \<longleftrightarrow> (\<forall>m. cm_view (f m) = cm_view m)"

definition keeps_c :: "(sfe_ipv4_connection \<Rightarrow> sfe_ipv4_connection) \<Rightarrow> bool" where
  "keeps_c f \<longleftrightarrow> (\<forall>c. c_view (f c) = c_view c)"

definition same_shape :: "sfe_ipv4 \<Rightarrow> sfe_ipv4 \<Rightarrow> bool" where
  "same_shape si si' \<longleftrightarrow> ft si' = ft si \<and> live_matches si' = live_matches si
     \<and> live_connections si' = live_connections si \<and> dev_refs si' = dev_refs si
     \<and> (\<forall>p. c_view (connections si' p) = c_view (connections si p)) \<and> num_connections si' = num_connections si"

lemma same_shape_refl [simp]: "same_shape si si"
  by (simp add: same_shape_def)

lemma same_shape_trans: "same_shape a b \<Longrightarrow> same_shape b c \<Longrightarrow> same_shape a c"
  by (simp add: same_shape_def)

lemma sfe_inv_same_shape:
  assumes "same_shape si si'" and "sfe_inv si g P"
  shows "sfe_inv si' g P"
proof -
  have "refs_of si' cs d = refs_of si cs d" for cs d
    using assms(1) by (simp add: refs_of_def same_shape_def c_view_def)
  with assms show ?thesis
    by (simp add: sfe_inv_def same_shape_def mem_ok_def fun_eq_iff)
qed

lemma same_shape_key:
  assumes "same_shape si si'"
  shows "c_key (connections si' p) = c_key (connections si p)"
    and "c_original_match (connections si' p) = c_original_match (connections si p)"
    and "c_reply_match (connections si' p) = c_reply_match (connections si p)"
    and "c_original_dev (connections si' p) = c_original_dev (connections si p)"
    and "c_reply_dev (connections si' p) = c_reply_dev (connections si p)"
  using assms by (simp_all add: same_shape_def c_view_def)

lemma cm_view_upd [simp]:
  "keeps_cm (\<lambda>m. m\<lparr>cm_tcp := f m\<rparr>)"
  "keeps_cm (cm_set_flag fl)" "keeps_cm (cm_clear_flag fl)"
  "keeps_cm sfe_ipv4_connection_match_update_summary_stats"
  "keeps_cm sfe_ipv4_connection_match_compute_translations"
  "keeps_c (\<lambda>c. c\<lparr>c_mark := v\<rparr>)" "keeps_c (\<lambda>c. c\<lparr>c_last_sync_jiffies := j\<rparr>)"
  "keeps_c (\<lambda>c. c\<lparr>c_debug_read_seq := w\<rparr>)"
  by (simp_all add: keeps_cm_def keeps_c_def cm_view_def c_view_def cm_key_def c_key_def cm_set_flag_def
      cm_clear_flag_def sfe_ipv4_connection_match_update_summary_stats_def compute_translations_eq Let_def)

lemma keeps_cmD:
  assumes "keeps_cm f"
  shows "cm_next (f m) = cm_next m" "cm_prev (f m) = cm_prev m" "cm_active_next (f m) = cm_active_next m"
    "cm_active_prev (f m) = cm_active_prev m" "cm_active (f m) = cm_active m" "cm_key (f m) = cm_key m"
    "cm_connection (f m) = cm_connection m" "cm_counter_match (f m) = cm_counter_match m"
    "cm_hash (f m) = cm_hash m"
proof -
  have "cm_view (f m) = cm_view m" using assms by (simp add: keeps_cm_def)
  then show "cm_next (f m) = cm_next m" "cm_prev (f m) = cm_prev m" "cm_active_next (f m) = cm_active_next m"
    "cm_active_prev (f m) = cm_active_prev m" "cm_active (f m) = cm_active m" and k: "cm_key (f m) = cm_key m"
    and "cm_connection (f m) = cm_connection m" "cm_counter_match (f m) = cm_counter_match m"
    unfolding cm_view_def by simp_all
  show "cm_hash (f m) = cm_hash m" by (rule key_hash_cong [OF k])
qed

lemma c_hash_cong: "c_key c' = c_key c \<Longrightarrow> c_hash c' = c_hash c"
  by (simp add: c_key_def c_hash_def)

lemma keeps_cD:
  assumes "keeps_c f"
  shows "c_next (f c) = c_next c" "c_prev (f c) = c_prev c"
    "c_all_connections_next (f c) = c_all_connections_next c"
    "c_all_connections_prev (f c) = c_all_connections_prev c" "c_key (f c) = c_key c"
    "c_original_match (f c) = c_original_match c" "c_reply_match (f c) = c_reply_match c"
    "c_hash (f c) = c_hash c"
proof -
  have "c_view (f c) = c_view c" using assms by (simp add: keeps_c_def)
  then show "c_next (f c) = c_next c" "c_prev (f c) = c_prev c"
    "c_all_connections_next (f c) = c_all_connections_next c"
    "c_all_connections_prev (f c) = c_all_connections_prev c" and k: "c_key (f c) = c_key c"
    and "c_original_match (f c) = c_original_match c" "c_reply_match (f c) = c_reply_match c"
    unfolding c_view_def by simp_all
  show "c_hash (f c) = c_hash c" by (rule c_hash_cong [OF k])
qed

lemma ft_upd_keeps [simp]:
  "keeps_cm f \<Longrightarrow> ft (upd_cm p f si) = ft si"
  "keeps_c h \<Longrightarrow> ft (upd_c p h si) = ft si"
  by (simp_all add: ft_def upd_cm_def upd_c_def fun_eq_iff keeps_cmD keeps_cD)

lemma same_shape_upd_cm [simp]: "keeps_cm f \<Longrightarrow> same_shape si (upd_cm p f si') = same_shape si si'"
  by (simp add: same_shape_def) (simp add: upd_cm_def)

lemma c_view_upd: "keeps_c f \<Longrightarrow> c_view (connections (upd_c p f si) q) = c_view (connections si q)"
  by (simp add: upd_c_def keeps_c_def)

lemma same_shape_upd_c [simp]: "keeps_c f \<Longrightarrow> same_shape si (upd_c p f si') = same_shape si si'"
  by (simp add: same_shape_def c_view_upd) (simp add: upd_c_def)

lemma ft_si [simp]:
  "ft (si\<lparr>connection_create_requests := n\<rparr>) = ft si"
  "ft (si\<lparr>connection_create_collisions := n\<rparr>) = ft si"
  "ft (si\<lparr>connection_destroy_requests := n\<rparr>) = ft si"
  "ft (si\<lparr>connection_destroy_misses := n\<rparr>) = ft si"
  "ft (si\<lparr>connection_flushes := n\<rparr>) = ft si"
  "ft (si\<lparr>packets_forwarded := n\<rparr>) = ft si"
  "ft (si\<lparr>packets_not_forwarded := n\<rparr>) = ft si"
  "ft (si\<lparr>exception_events := ev\<rparr>) = ft si"
  "ft (si\<lparr>connection_create_requests64 := w\<rparr>) = ft si"
  "ft (si\<lparr>connection_create_collisions64 := w\<rparr>) = ft si"
  "ft (si\<lparr>connection_destroy_requests64 := w\<rparr>) = ft si"
  "ft (si\<lparr>connection_destroy_misses64 := w\<rparr>) = ft si"
  "ft (si\<lparr>connection_match_hash_hits64 := w\<rparr>) = ft si"
  "ft (si\<lparr>connection_match_hash_reorders64 := w\<rparr>) = ft si"
  "ft (si\<lparr>connection_flushes64 := w\<rparr>) = ft si"
  "ft (si\<lparr>packets_forwarded64 := w\<rparr>) = ft si"
  "ft (si\<lparr>packets_not_forwarded64 := w\<rparr>) = ft si"
  "ft (si\<lparr>exception_events64 := ew\<rparr>) = ft si"
  "ft (si\<lparr>timer_expires := w\<rparr>) = ft si"
  "ft (si\<lparr>sync_rule_callback := cb\<rparr>) = ft si"
  "ft (si\<lparr>debug_dev := n\<rparr>) = ft si"
  "ft (si\<lparr>debug_read_seq := n\<rparr>) = ft si"
  by (simp_all add: ft_def)

lemma same_shape_si [simp]:
  "same_shape si (si'\<lparr>connection_create_requests := n\<rparr>) = same_shape si si'"
  "same_shape si (si'\<lparr>connection_create_collisions := n\<rparr>) = same_shape si si'"
  "same_shape si (si'\<lparr>connection_destroy_requests := n\<rparr>) = same_shape si si'"
  "same_shape si (si'\<lparr>connection_destroy_misses := n\<rparr>) = same_shape si si'"
  "same_shape si (si'\<lparr>connection_match_hash_hits := n\<rparr>) = same_shape si si'"
  "same_shape si (si'\<lparr>connection_match_hash_reorders := n\<rparr>) = same_shape si si'"
  "same_shape si (si'\<lparr>connection_flushes := n\<rparr>) = same_shape si si'"
  "same_shape si (si'\<lparr>packets_forwarded := n\<rparr>) = same_shape si si'"
  "same_shape si (si'\<lparr>packets_not_forwarded := n\<rparr>) = same_shape si si'"
  "same_shape si (si'\<lparr>exception_events := ev\<rparr>) = same_shape si si'"
  "same_shape si (si'\<lparr>connection_create_requests64 := w\<rparr>) = same_shape si si'"
  "same_shape si (si'\<lparr>connection_create_collisions64 := w\<rparr>) = same_shape si si'"
  "same_shape si (si'\<lparr>connection_destroy_requests64 := w\<rparr>) = same_shape si si'"
  "same_shape si (si'\<lparr>connection_destroy_misses64 := w\<rparr>) = same_shape si si'"
  "same_shape si (si'\<lparr>connection_match_hash_hits64 := w\<rparr>) = same_shape si si'"
  "same_shape si (si'\<lparr>connection_match_hash_reorders64 := w\<rparr>) = same_shape si si'"
  "same_shape si (si'\<lparr>connection_flushes64 := w\<rparr>) = same_shape si si'"
  "same_shape si (si'\<lparr>packets_forwarded64 := w\<rparr>) = same_shape si si'"
  "same_shape si (si'\<lparr>packets_not_forwarded64 := w\<rparr>) = same_shape si si'"
  "same_shape si (si'\<lparr>exception_events64 := ew\<rparr>) = same_shape si si'"
  "same_shape si (si'\<lparr>timer_expires := w\<rparr>) = same_shape si si'"
  "same_shape si (si'\<lparr>sync_rule_callback := cb\<rparr>) = same_shape si si'"
  "same_shape si (si'\<lparr>debug_dev := n\<rparr>) = same_shape si si'"
  "same_shape si (si'\<lparr>debug_read_seq := n\<rparr>) = same_shape si si'"
  by (simp_all add: same_shape_def)

lemma same_shape_update_summary_stats [simp]:
  "same_shape si (sfe_ipv4_update_summary_stats si') = same_shape si si'"
  unfolding sfe_ipv4_update_summary_stats_def by (simp only: same_shape_si)

lemma same_shape_update_protocol_state [simp]:
  "same_shape si (sfe_ipv4_update_protocol_state si' c sic) = same_shape si si'"
  by (simp add: sfe_ipv4_update_protocol_state_def sfe_ipv4_update_tcp_state_def Let_def)

lemma same_shape_gen_sync [simp]:
  "same_shape si (snd (sfe_ipv4_gen_sync_sfe_ipv4_connection si' c sis reason now)) = same_shape si si'"
  by (simp add: sfe_ipv4_gen_sync_sfe_ipv4_connection_def Let_def)

section \<open>The invariant under flush, destroy, update and mark\<close>

lemma flush_state:
  obtains si1 where "same_shape si si1"
    and "fst (sfe_ipv4_flush_sfe_ipv4_connection j si c reason) =
      (let si2 = dev_put (c_reply_dev (connections si c)) (dev_put (c_original_dev (connections si c)) si1)
       in si2\<lparr>live_matches := live_matches si - {c_original_match (connections si c)} - {c_reply_match (connections si c)},
              live_connections := live_connections si - {c}\<rparr>)"
proof -
  let ?si0 = "si\<lparr>connection_flushes := connection_flushes si + 1\<rparr>"
  define si1 where "si1 = (case sync_rule_callback si of None \<Rightarrow> ?si0
    | Some cb \<Rightarrow> snd (sfe_ipv4_gen_sync_sfe_ipv4_connection ?si0 c stack_sis reason j))"
  have s: "same_shape si si1" by (simp add: si1_def split: option.split)
  note k = same_shape_key [OF s, of c]
  have l: "live_matches si1 = live_matches si" "live_connections si1 = live_connections si"
    using s by (simp_all add: same_shape_def)
  have e: "fst (sfe_ipv4_flush_sfe_ipv4_connection j si c reason) =
      (let si = dev_put (c_original_dev (connections si1 c)) si1;
          si = dev_put (c_reply_dev (connections si c)) si;
          si = si\<lparr>live_matches := live_matches si - {c_original_match (connections si c)}\<rparr>;
          si = si\<lparr>live_matches := live_matches si - {c_reply_match (connections si c)}\<rparr>
      in si\<lparr>live_connections := live_connections si - {c}\<rparr>)"
    by (cases "sync_rule_callback si")
      (simp_all add: sfe_ipv4_flush_sfe_ipv4_connection_def si1_def Let_def split_beta)
  show thesis
    by (rule that [OF s]) (simp add: e Let_def dev_put_def k l)
qed

lemma flush_inv:
  assumes i: "sfe_inv si g P" and c: "c \<in> set P"
  shows "sfe_inv (fst (sfe_ipv4_flush_sfe_ipv4_connection j si c reason)) g (remove1 c P)"
proof -
  let ?si' = "fst (sfe_ipv4_flush_sfe_ipv4_connection j si c reason)"
  let ?C = "set (ga g @ P)"
  obtain si1 where s: "same_shape si si1" and e: "?si' =
      (let si2 = dev_put (c_reply_dev (connections si c)) (dev_put (c_original_dev (connections si c)) si1)
       in si2\<lparr>live_matches := live_matches si - {c_original_match (connections si c)} - {c_reply_match (connections si c)},
              live_connections := live_connections si - {c}\<rparr>)"
    by (rule flush_state)
  from i have m: "mem_ok si (ga g @ P)" by (simp add: sfe_inv_def)
  then have d: "distinct (ga g @ P)" and po: "pairs_ok (ft si) ?C" by (simp_all add: mem_ok_def)
  have f: "ft ?si' = ft si"
    using s by (simp add: e Let_def dev_put_def same_shape_def ft_def)
  have C: "set (ga g @ remove1 c P) = ?C - {c}" using d c by auto
  have "c \<in> ?C" using c by simp
  note fl = ft_live_remove [OF po this]
  have "live_matches ?si' = ft_live (ft ?si') (set (ga g @ remove1 c P))"
    unfolding C f fl using m by (auto simp: e Let_def dev_put_def mem_ok_def)
  moreover have "live_connections ?si' = ?C - {c}"
    using m by (simp add: e Let_def dev_put_def mem_ok_def)
  moreover have "pairs_ok (ft si) (?C - {c})"
    using po by (auto simp: pairs_ok_def)
  moreover have "dev_refs ?si' dv = refs_of ?si' (ga g @ remove1 c P) dv" for dv
  proof -
    have "refs_of ?si' (ga g @ remove1 c P) dv = refs_of si (ga g @ remove1 c P) dv"
      using same_shape_key(4,5) [OF s] by (simp add: refs_of_def e Let_def dev_put_def)
    moreover have "refs_of si (ga g @ P) dv = refs_of si (ga g @ remove1 c P) dv
        + of_bool (c_original_dev (connections si c) = dv) + of_bool (c_reply_dev (connections si c) = dv)"
      using c by (simp add: refs_of_def sum_list_map_remove1)
    moreover have "dev_refs si1 dv = refs_of si (ga g @ P) dv"
      using m s by (simp add: mem_ok_def same_shape_def)
    moreover have "dev_refs ?si' dv = dev_refs si1 dv - of_bool (c_original_dev (connections si c) = dv)
        - of_bool (c_reply_dev (connections si c) = dv)"
      by (auto simp: e Let_def dev_put_def)
    ultimately show ?thesis by linarith
  qed
  ultimately have "mem_ok ?si' (ga g @ remove1 c P)"
    using d C by (simp add: mem_ok_def f fun_eq_iff) (use d in blast)
  moreover have "num_connections ?si' = num_connections si"
    using s by (simp add: e Let_def dev_put_def same_shape_def)
  ultimately show ?thesis using i f by (simp add: sfe_inv_def)
qed

lemma remove_flush_inv:
  assumes "sfe_inv si g P" and "c \<in> set (ga g)"
  shows "sfe_inv (fst (sfe_ipv4_flush_sfe_ipv4_connection j (sfe_ipv4_remove_sfe_ipv4_connection si c) c reason))
           (lists_remove (ft si) g c) P"
  using flush_inv [OF sfe_inv_remove [OF assms], of c] by simp

section \<open>The table as a map\<close>

text \<open>
  The abstract value of the engine: which connection a key has, and the part of a connection that
  the connection manager chose (translations, devices, mark).
\<close>

type_synonym rule = "be32 \<times> be16 \<times> be32 \<times> be16 \<times> dev_ptr \<times> dev_ptr \<times> u32"

definition sfe_lookup :: "sfe_ipv4 \<Rightarrow> conn_key \<Rightarrow> ptr option" where
  "sfe_lookup si = (\<lambda>(protocol, src_ip, src_port, dest_ip, dest_port).
     case sfe_ipv4_find_sfe_ipv4_connection si protocol src_ip src_port dest_ip dest_port of
       None \<Rightarrow> None | Some r \<Rightarrow> r)"

definition c_rule :: "sfe_ipv4_connection \<Rightarrow> rule" where
  "c_rule c = (c_src_ip_xlate c, c_src_port_xlate c, c_dest_ip_xlate c, c_dest_port_xlate c,
     c_original_dev c, c_reply_dev c, c_mark c)"

definition sfe_rules :: "sfe_ipv4 \<Rightarrow> conn_key \<Rightarrow> rule option" where
  "sfe_rules si key = map_option (\<lambda>c. c_rule (connections si c)) (sfe_lookup si key)"

lemma find_connection_inv:
  assumes "sfe_inv si g P"
  obtains r where "sfe_ipv4_find_sfe_ipv4_connection si protocol src_ip src_port dest_ip dest_port = Some r"
    and "\<And>c. r = Some c \<longleftrightarrow> c \<in> set (ga g)
             \<and> c_key (connections si c) = (protocol, src_ip, src_port, dest_ip, dest_port)"
proof -
  from assms have "ft_inv (ft si) g" by (simp add: sfe_inv_def)
  from find_connection_spec [OF this, of protocol src_ip src_port dest_ip dest_port]
  show thesis by (elim exE conjE) (rule that, assumption, erule spec)
qed

lemma find_connection_lookup:
  assumes "sfe_inv si g P"
  shows "sfe_ipv4_find_sfe_ipv4_connection si protocol src_ip src_port dest_ip dest_port
    = Some (sfe_lookup si (protocol, src_ip, src_port, dest_ip, dest_port))"
  by (rule find_connection_inv [OF assms, of protocol src_ip src_port dest_ip dest_port]) (simp add: sfe_lookup_def)

lemma lookup_iff:
  assumes "sfe_inv si g P"
  shows "sfe_lookup si key = Some c \<longleftrightarrow> c \<in> set (ga g) \<and> c_key (connections si c) = key"
proof -
  obtain protocol src_ip src_port dest_ip dest_port where k: "key = (protocol, src_ip, src_port, dest_ip, dest_port)"
    by (cases key)
  obtain r where f: "sfe_ipv4_find_sfe_ipv4_connection si protocol src_ip src_port dest_ip dest_port = Some r"
    and r: "\<And>c. r = Some c \<longleftrightarrow> c \<in> set (ga g)
             \<and> c_key (connections si c) = (protocol, src_ip, src_port, dest_ip, dest_port)"
    by (rule find_connection_inv [OF assms, of protocol src_ip src_port dest_ip dest_port]) blast
  have "sfe_lookup si key = r" by (simp add: sfe_lookup_def k f)
  then show ?thesis by (simp only: r k)
qed

lemma lookup_None:
  assumes "sfe_inv si g P"
  shows "sfe_lookup si key = None \<longleftrightarrow> (\<forall>c \<in> set (ga g). c_key (connections si c) \<noteq> key)"
  using lookup_iff [OF assms] by (metis not_Some_eq)

lemma lookup_eqI:
  assumes i: "sfe_inv si g P" and i': "sfe_inv si' g' P'"
    and e: "\<And>c. (c \<in> set (ga g') \<and> c_key (connections si' c) = key) \<longleftrightarrow> (c \<in> set (ga g) \<and> c_key (connections si c) = key)"
  shows "sfe_lookup si' key = sfe_lookup si key"
proof (cases "sfe_lookup si key")
  case None
  then have "\<forall>c \<in> set (ga g). c_key (connections si c) \<noteq> key" by (simp only: lookup_None [OF i])
  then have "\<forall>c \<in> set (ga g'). c_key (connections si' c) \<noteq> key" using e by blast
  then have "sfe_lookup si' key = None" by (simp only: lookup_None [OF i'])
  with None show ?thesis by simp
next
  case (Some c)
  then have "c \<in> set (ga g) \<and> c_key (connections si c) = key" by (simp only: lookup_iff [OF i])
  then have "c \<in> set (ga g') \<and> c_key (connections si' c) = key" using e by blast
  then have "sfe_lookup si' key = Some c" by (simp only: lookup_iff [OF i'])
  with Some show ?thesis by simp
qed

lemma lookup_same_shape:
  assumes "sfe_inv si g P" and s: "same_shape si si'"
  shows "sfe_lookup si' = sfe_lookup si"
proof
  show "sfe_lookup si' key = sfe_lookup si key" for key
    by (rule lookup_eqI [OF assms(1) sfe_inv_same_shape [OF s assms(1)]]) (simp only: same_shape_key [OF s])
qed

text \<open>States whose connections still carry the same rules.\<close>

definition same_rules :: "sfe_ipv4 \<Rightarrow> sfe_ipv4 \<Rightarrow> bool" where
  "same_rules si si' \<longleftrightarrow> (\<forall>p. c_key (connections si' p) = c_key (connections si p)
     \<and> c_rule (connections si' p) = c_rule (connections si p))"

lemma same_rules_data:
  assumes "same_data si si'" shows "same_rules si si'"
proof -
  have "c_key (connections si' p) = c_key (connections si p) \<and> c_rule (connections si' p) = c_rule (connections si p)" for p
  proof -
    have "c_data (connections si' p) = c_data (connections si p)" using assms by (simp add: same_data_def)
    then show ?thesis
      by (cases "connections si' p", cases "connections si p") (simp add: c_data_def c_key_def c_rule_def)
  qed
  then show ?thesis by (simp add: same_rules_def)
qed

lemma gen_sync_rules:
  "same_rules si (snd (sfe_ipv4_gen_sync_sfe_ipv4_connection si c sis reason now))"
  by (simp add: same_rules_def sfe_ipv4_gen_sync_sfe_ipv4_connection_def Let_def upd_c_def upd_cm_def
      c_key_def c_rule_def)

lemma flush_rules: "same_rules si (fst (sfe_ipv4_flush_sfe_ipv4_connection j si c reason))"
proof -
  let ?si0 = "si\<lparr>connection_flushes := connection_flushes si + 1\<rparr>"
  show ?thesis
    using gen_sync_rules [of ?si0 c stack_sis reason j]
    by (cases "sync_rule_callback si")
      (simp_all add: sfe_ipv4_flush_sfe_ipv4_connection_def same_rules_def Let_def split_beta dev_put_def)
qed

lemma same_rules_trans: "same_rules a b \<Longrightarrow> same_rules b c \<Longrightarrow> same_rules a c"
  by (simp add: same_rules_def)

lemma remove_flush_rules:
  "same_rules si (fst (sfe_ipv4_flush_sfe_ipv4_connection j (sfe_ipv4_remove_sfe_ipv4_connection si c) c reason))"
  by (rule same_rules_trans [OF same_rules_data [OF same_data_remove_connection] flush_rules])

lemma lookup_remove:
  fixes j reason
  assumes i: "sfe_inv si g P" and c: "c \<in> set (ga g)"
  defines "si' \<equiv> fst (sfe_ipv4_flush_sfe_ipv4_connection j (sfe_ipv4_remove_sfe_ipv4_connection si c) c reason)"
  shows "sfe_lookup si' = (sfe_lookup si)(c_key (connections si c) := None)"
proof
  fix key
  note i' = remove_flush_inv [OF i c, of j reason, folded si'_def]
  have k: "c_key (connections si' p) = c_key (connections si p)" for p
    using remove_flush_rules [of si j c reason] by (simp add: same_rules_def si'_def)
  have d: "distinct (ga g)" using i by (simp add: sfe_inv_def mem_ok_def)
  have ga: "ga (lists_remove (ft si) g c) = remove1 c (ga g)" by (simp add: lists_remove_def)
  have inj: "inj_on (\<lambda>p. c_key (connections si p)) (set (ga g))"
    using i by (simp add: sfe_inv_def ft_inv_def conns_ok_def)
  show "sfe_lookup si' key = ((sfe_lookup si)(c_key (connections si c) := None)) key"
  proof (cases "key = c_key (connections si c)")
    case True
    then have "\<forall>x \<in> set (ga (lists_remove (ft si) g c)). c_key (connections si' x) \<noteq> key"
      using inj c d by (auto simp: ga k inj_on_def)
    then have "sfe_lookup si' key = None" by (simp only: lookup_None [OF i'])
    with True show ?thesis by simp
  next
    case False
    then have "sfe_lookup si' key = sfe_lookup si key"
      using d by (intro lookup_eqI [OF i i']) (auto simp: ga k)
    with False show ?thesis by simp
  qed
qed

section \<open>The operations\<close>

lemma rules_same_shape:
  assumes "sfe_inv si g P" and "same_shape si si'" and "same_rules si si'"
  shows "sfe_rules si' = sfe_rules si"
  using lookup_same_shape [OF assms(1,2)] assms(3)
  by (auto simp: sfe_rules_def fun_eq_iff same_rules_def intro!: option.map_cong)

lemma same_rules_refl [simp]: "same_rules si si"
  by (simp add: same_rules_def)

lemma same_rules_upd [simp]:
  "same_rules si (upd_cm p f si') = same_rules si si'"
  "same_rules si (si'\<lparr>connection_create_requests := n\<rparr>) = same_rules si si'"
  "same_rules si (si'\<lparr>connection_create_collisions := n\<rparr>) = same_rules si si'"
  "same_rules si (si'\<lparr>connection_destroy_requests := n\<rparr>) = same_rules si si'"
  "same_rules si (si'\<lparr>connection_destroy_misses := n\<rparr>) = same_rules si si'"
  by (simp_all add: same_rules_def upd_cm_def)

lemma update_protocol_state_rules [simp]:
  "same_rules si (sfe_ipv4_update_protocol_state si' c sic) = same_rules si si'"
  by (simp add: sfe_ipv4_update_protocol_state_def sfe_ipv4_update_tcp_state_def Let_def)

definition sic_key :: "sfe_connection_create \<Rightarrow> conn_key" where
  "sic_key sic = (sic_protocol sic, sa_ip (sic_src_ip sic), sic_src_port sic, sa_ip (sic_dest_ip sic), sic_dest_port sic)"

definition sid_key :: "sfe_connection_destroy \<Rightarrow> conn_key" where
  "sid_key sid = (sid_protocol sid, sa_ip (sid_src_ip sid), sid_src_port sid, sa_ip (sid_dest_ip sid), sid_dest_port sid)"

definition mk_key :: "sfe_connection_mark \<Rightarrow> conn_key" where
  "mk_key mk = (mk_protocol mk, sa_ip (mk_src_ip mk), mk_src_port mk, sa_ip (mk_dest_ip mk), mk_dest_port mk)"

lemma update_rule_result:
  assumes "sfe_inv si g P"
  shows "sfe_ipv4_update_rule si sic = Some (case sfe_lookup si (sic_key sic) of
     None \<Rightarrow> si | Some c \<Rightarrow> sfe_ipv4_update_protocol_state si c sic)"
  unfolding sfe_ipv4_update_rule_def find_connection_lookup [OF assms] sic_key_def
  by (simp split: option.split)

lemma update_rule_inv:
  assumes "sfe_inv si g P" and "sfe_ipv4_update_rule si sic = Some si'"
  shows "sfe_inv si' g P" and "sfe_rules si' = sfe_rules si"
proof -
  have s: "same_shape si si'" "same_rules si si'"
    using assms(2) unfolding update_rule_result [OF assms(1)] by (auto split: option.splits)
  show "sfe_inv si' g P" by (rule sfe_inv_same_shape [OF s(1) assms(1)])
  show "sfe_rules si' = sfe_rules si" by (rule rules_same_shape [OF assms(1) s])
qed

lemma mark_rule_result:
  assumes "sfe_inv si g P"
  shows "sfe_ipv4_mark_rule si mk = Some (case sfe_lookup si (mk_key mk) of
     None \<Rightarrow> si | Some c \<Rightarrow> upd_c c (\<lambda>c. c\<lparr>c_mark := mk_mark mk\<rparr>) si)"
  unfolding sfe_ipv4_mark_rule_def find_connection_lookup [OF assms] mk_key_def
  by (simp split: option.split)

lemma mark_rule_inv:
  assumes "sfe_inv si g P" and "sfe_ipv4_mark_rule si mk = Some si'"
  shows "sfe_inv si' g P"
proof -
  have "same_shape si si'"
    using assms(2) unfolding mark_rule_result [OF assms(1)] by (auto split: option.splits)
  from sfe_inv_same_shape [OF this assms(1)] show ?thesis .
qed

definition set_mark :: "u32 \<Rightarrow> rule \<Rightarrow> rule" where
  "set_mark m = (\<lambda>(a, b, c, d, e, f, _). (a, b, c, d, e, f, m))"

lemma mark_rule_rules:
  assumes i: "sfe_inv si g P" and m: "sfe_ipv4_mark_rule si mk = Some si'"
  shows "sfe_rules si' = (sfe_rules si)(mk_key mk := map_option (set_mark (mk_mark mk)) (sfe_rules si (mk_key mk)))"
proof (cases "sfe_lookup si (mk_key mk)")
  case None
  with m show ?thesis
    unfolding mark_rule_result [OF i] by (auto simp: sfe_rules_def fun_eq_iff)
next
  case (Some c)
  then have e: "si' = upd_c c (\<lambda>c. c\<lparr>c_mark := mk_mark mk\<rparr>) si"
    using m unfolding mark_rule_result [OF i] by simp
  have l: "sfe_lookup si' = sfe_lookup si"
    unfolding e by (rule lookup_same_shape [OF i]) simp
  have u: "c_rule (connections si' x) = (if x = c then set_mark (mk_mark mk) (c_rule (connections si c)) else c_rule (connections si x))" for x
    by (simp add: e upd_c_def c_rule_def set_mark_def)
  have k: "key = mk_key mk" if "sfe_lookup si key = Some c" for key
    using that Some unfolding lookup_iff [OF i] by simp
  show ?thesis
  proof
    fix key
    show "sfe_rules si' key = ((sfe_rules si)(mk_key mk := map_option (set_mark (mk_mark mk)) (sfe_rules si (mk_key mk)))) key"
      using Some k [of key] by (cases "sfe_lookup si key") (auto simp: sfe_rules_def l u)
  qed
qed

lemma destroy_rule_result:
  assumes i: "sfe_inv si g P"
  defines "si1 \<equiv> si\<lparr>connection_destroy_requests := connection_destroy_requests si + 1\<rparr>"
  shows "sfe_ipv4_destroy_rule j si sid = Some (case sfe_lookup si (sid_key sid) of
     None \<Rightarrow> (si1\<lparr>connection_destroy_misses := connection_destroy_misses si + 1\<rparr>, [])
   | Some c \<Rightarrow> sfe_ipv4_flush_sfe_ipv4_connection j (sfe_ipv4_remove_sfe_ipv4_connection si1 c) c SFE_SYNC_REASON_DESTROY)"
proof -
  have s: "same_shape si si1" by (simp add: si1_def)
  have l: "sfe_ipv4_find_sfe_ipv4_connection si1 (sid_protocol sid) (sa_ip (sid_src_ip sid)) (sid_src_port sid)
      (sa_ip (sid_dest_ip sid)) (sid_dest_port sid) = Some (sfe_lookup si (sid_key sid))"
    unfolding find_connection_lookup [OF sfe_inv_same_shape [OF s i]] sid_key_def lookup_same_shape [OF i s] ..
  show ?thesis
    unfolding sfe_ipv4_destroy_rule_def Let_def si1_def [symmetric] l
    by (simp add: si1_def split: option.split)
qed

lemma destroy_rule_inv:
  assumes i: "sfe_inv si g P" and d: "sfe_ipv4_destroy_rule j si sid = Some (si', out)"
  shows "\<exists>g'. sfe_inv si' g' P \<and> set (ga g') = {c \<in> set (ga g). c_key (connections si c) \<noteq> sid_key sid}"
    and "sfe_rules si' = (sfe_rules si)(sid_key sid := None)"
proof -
  define si1 where "si1 = si\<lparr>connection_destroy_requests := connection_destroy_requests si + 1\<rparr>"
  have s: "same_shape si si1" by (simp add: si1_def)
  have r1: "same_rules si si1" by (simp add: si1_def same_rules_def)
  note i1 = sfe_inv_same_shape [OF s i]
  have "(\<exists>g'. sfe_inv si' g' P \<and> set (ga g') = {c \<in> set (ga g). c_key (connections si c) \<noteq> sid_key sid})
      \<and> sfe_rules si' = (sfe_rules si)(sid_key sid := None)"
  proof (cases "sfe_lookup si (sid_key sid)")
    case None
    then have e: "si' = si1\<lparr>connection_destroy_misses := connection_destroy_misses si + 1\<rparr>"
      using d unfolding destroy_rule_result [OF i] by (simp add: si1_def)
    have s2: "same_shape si si'" and r2: "same_rules si si'" by (simp_all add: e si1_def same_rules_def)
    have "sfe_rules si' = sfe_rules si" by (rule rules_same_shape [OF i s2 r2])
    moreover have "sfe_rules si (sid_key sid) = None" using None by (simp add: sfe_rules_def)
    moreover have "set (ga g) = {c \<in> set (ga g). c_key (connections si c) \<noteq> sid_key sid}"
      using None unfolding lookup_None [OF i] by auto
    ultimately show ?thesis using sfe_inv_same_shape [OF s2 i] by (auto simp: fun_eq_iff)
  next
    case (Some c)
    then have e: "si' = fst (sfe_ipv4_flush_sfe_ipv4_connection j (sfe_ipv4_remove_sfe_ipv4_connection si1 c) c SFE_SYNC_REASON_DESTROY)"
      using d unfolding destroy_rule_result [OF i] by (simp add: si1_def)
    from Some have c: "c \<in> set (ga g)" and k: "c_key (connections si c) = sid_key sid"
      by (simp_all only: lookup_iff [OF i])
    have k1: "c_key (connections si1 c) = sid_key sid" using k by (simp add: si1_def)
    have l: "sfe_lookup si' = (sfe_lookup si)(sid_key sid := None)"
      unfolding e lookup_remove [OF i1 c] k1 lookup_same_shape [OF i s] ..
    have "same_rules si si'"
      unfolding e by (rule same_rules_trans [OF r1 remove_flush_rules])
    then have "sfe_rules si' = (sfe_rules si)(sid_key sid := None)"
      unfolding sfe_rules_def l by (auto simp: fun_eq_iff same_rules_def intro!: option.map_cong)
    moreover have "sfe_inv si' (lists_remove (ft si1) g c) P"
      unfolding e by (rule remove_flush_inv [OF i1 c])
    moreover have "set (ga (lists_remove (ft si1) g c)) = {x \<in> set (ga g). c_key (connections si x) \<noteq> sid_key sid}"
    proof -
      have "distinct (ga g)" using i by (simp add: sfe_inv_def mem_ok_def)
      moreover have "inj_on (\<lambda>p. c_key (connections si p)) (set (ga g))"
        using i by (simp add: sfe_inv_def ft_inv_def conns_ok_def)
      ultimately show ?thesis using c k by (auto simp: lists_remove_def inj_on_def)
    qed
    ultimately show ?thesis by blast
  qed
  then show "\<exists>g'. sfe_inv si' g' P \<and> set (ga g') = {c \<in> set (ga g). c_key (connections si c) \<noteq> sid_key sid}"
    and "sfe_rules si' = (sfe_rules si)(sid_key sid := None)" by blast+
qed

section \<open>Destroying all rules of a device\<close>

definition sis_key :: "sfe_connection_sync \<Rightarrow> conn_key" where
  "sis_key sis = (sis_protocol sis, sa_ip (sis_src_ip sis), sis_src_port sis, sa_ip (sis_dest_ip sis), sis_dest_port sis)"

definition rule_uses :: "dev_ptr \<Rightarrow> rule \<Rightarrow> bool" where
  "rule_uses dev = (\<lambda>(_, _, _, _, d, d', _). dev = 0 \<or> dev = d \<or> dev = d')"

lemma uses_dev_rule: "uses_dev c dev \<longleftrightarrow> rule_uses dev (c_rule c)"
  by (simp add: uses_dev_def rule_uses_def c_rule_def)

lemma gen_sync_key:
  "sis_key (fst (sfe_ipv4_gen_sync_sfe_ipv4_connection si c sis reason now)) = c_key (connections si c)"
  "sis_reason (fst (sfe_ipv4_gen_sync_sfe_ipv4_connection si c sis reason now)) = reason"
  by (simp_all add: sis_key_def c_key_def sfe_ipv4_gen_sync_sfe_ipv4_connection_def Let_def set_ip_def)

lemma flush_syncs:
  "map (\<lambda>(cb, sis). (cb, sis_key sis, sis_reason sis)) (snd (sfe_ipv4_flush_sfe_ipv4_connection j si c reason))
    = (case sync_rule_callback si of None \<Rightarrow> [] | Some cb \<Rightarrow> [(cb, c_key (connections si c), reason)])"
  by (simp add: sfe_ipv4_flush_sfe_ipv4_connection_def Let_def split_beta gen_sync_key split: option.split)

lemma gen_sync_callback [simp]:
  "sync_rule_callback (snd (sfe_ipv4_gen_sync_sfe_ipv4_connection si c sis reason now)) = sync_rule_callback si"
  by (simp add: sfe_ipv4_gen_sync_sfe_ipv4_connection_def Let_def upd_c_def upd_cm_def)

lemma flush_callback [simp]:
  "sync_rule_callback (fst (sfe_ipv4_flush_sfe_ipv4_connection j si c reason)) = sync_rule_callback si"
  by (simp add: sfe_ipv4_flush_sfe_ipv4_connection_def Let_def split_beta dev_put_def split: option.split)

lemma remove_callback [simp]:
  "sync_rule_callback (sfe_ipv4_remove_sfe_ipv4_connection si c) = sync_rule_callback si"
  using same_data_remove_connection [of si c] by (simp add: same_data_def)

lemma filter_remove1_not: "\<not> Q x \<Longrightarrow> filter Q (remove1 x xs) = filter Q xs"
  by (induction xs) auto

lemma find_Some_sat: "find Q xs = Some x \<Longrightarrow> Q x"
  by (auto simp: find_Some_iff)

lemma filter_remove1_find:
  "find Q xs = Some x \<Longrightarrow> filter Q xs = x # filter Q (remove1 x xs)"
  by (induction xs) (auto split: if_splits dest: find_Some_sat)

text \<open>What the sync messages say, for a list of destroyed connections.\<close>

definition syncs_of :: "ptr option \<Rightarrow> sfe_sync_reason \<Rightarrow> conn_key list \<Rightarrow> (ptr \<times> conn_key \<times> sfe_sync_reason) list" where
  "syncs_of cb reason ks = (case cb of None \<Rightarrow> [] | Some f \<Rightarrow> map (\<lambda>k. (f, k, reason)) ks)"

lemma destroy_all_find:
  assumes "sfe_inv si g P"
  shows "chain_find (\<lambda>p. c_all_connections_next (connections si p)) Q (all_connections_head si) = Some (find Q (ga g))"
  by (rule chain_find_dlist [of _ "apv (ft si)"])
    (use assms in \<open>simp add: sfe_inv_def ft_inv_def conns_ok_def dqueue_def\<close>)

lemma destroy_all_spec:
  assumes "sfe_inv si g P"
  shows "\<exists>si' out g'. sfe_ipv4_destroy_all_rules_for_dev j dev si = Some (si', out) \<and> sfe_inv si' g' P
    \<and> ga g' = filter (\<lambda>c. \<not> uses_dev (connections si c) dev) (ga g) \<and> same_rules si si'
    \<and> sync_rule_callback si' = sync_rule_callback si
    \<and> map (\<lambda>(cb, sis). (cb, sis_key sis, sis_reason sis)) out
        = syncs_of (sync_rule_callback si) SFE_SYNC_REASON_DESTROY
            (map (\<lambda>c. c_key (connections si c)) (filter (\<lambda>c. uses_dev (connections si c) dev) (ga g)))"
  using assms
proof (induction "length (ga g)" arbitrary: si g rule: less_induct)
  case less
  let ?U = "\<lambda>c. uses_dev (connections si c) dev"
  note simps = sfe_ipv4_destroy_all_rules_for_dev.simps [of j dev si]
  note find = destroy_all_find [OF less.prems, of ?U]
  show ?case
  proof (cases "find ?U (ga g)")
    case None
    then have no: "\<forall>c \<in> set (ga g). \<not> ?U c" by (auto simp: find_None_iff)
    have "sfe_ipv4_destroy_all_rules_for_dev j dev si = Some (si, [])"
      using simps by (simp add: find None)
    moreover have "filter (\<lambda>c. \<not> ?U c) (ga g) = ga g" "filter ?U (ga g) = []"
      using no by (simp_all add: filter_id_conv filter_empty_conv)
    ultimately show ?thesis
      using less.prems by (intro exI [of _ si] exI [of _ "[]"] exI [of _ g]) (simp add: syncs_of_def split: option.split)
  next
    case (Some c)
    then have c: "c \<in> set (ga g)" and Uc: "?U c" by (auto simp: find_Some_iff)
    let ?rm = "sfe_ipv4_remove_sfe_ipv4_connection si c"
    let ?fl = "sfe_ipv4_flush_sfe_ipv4_connection j ?rm c SFE_SYNC_REASON_DESTROY"
    let ?g = "lists_remove (ft si) g c"
    have ga: "ga ?g = remove1 c (ga g)" by (simp add: lists_remove_def)
    have d: "distinct (ga g)" using less.prems by (simp add: sfe_inv_def mem_ok_def)
    have r: "same_rules si (fst ?fl)" by (rule remove_flush_rules)
    then have U: "uses_dev (connections (fst ?fl) x) dev \<longleftrightarrow> ?U x" for x
      by (simp add: uses_dev_rule same_rules_def)
    have rm: "c_key (connections ?rm c) = c_key (connections si c)"
      using same_rules_data [OF same_data_remove_connection [of si c]] by (simp add: same_rules_def)
    have "length (ga ?g) < length (ga g)"
      using c by (simp add: ga length_remove1) (use length_pos_if_in_set in fastforce)
    from less.hyps [OF this remove_flush_inv [OF less.prems c, of j SFE_SYNC_REASON_DESTROY]]
    obtain si' out g' where IH: "sfe_ipv4_destroy_all_rules_for_dev j dev (fst ?fl) = Some (si', out)"
      "sfe_inv si' g' P" "ga g' = filter (\<lambda>x. \<not> ?U x) (ga ?g)" "same_rules (fst ?fl) si'"
      "sync_rule_callback si' = sync_rule_callback si"
      "map (\<lambda>(cb, sis). (cb, sis_key sis, sis_reason sis)) out
        = syncs_of (sync_rule_callback si) SFE_SYNC_REASON_DESTROY
            (map (\<lambda>x. c_key (connections (fst ?fl) x)) (filter ?U (ga ?g)))"
      unfolding U flush_callback remove_callback by (elim exE conjE) (rule that)
    have e: "sfe_ipv4_destroy_all_rules_for_dev j dev si = Some (si', snd ?fl @ out)"
      using simps IH(1) by (simp add: find Some split_beta)
    have g': "ga g' = filter (\<lambda>c. \<not> ?U c) (ga g)"
      using Uc by (simp add: IH(3) ga filter_remove1_not)
    have "map (\<lambda>(cb, sis). (cb, sis_key sis, sis_reason sis)) (snd ?fl @ out)
        = syncs_of (sync_rule_callback si) SFE_SYNC_REASON_DESTROY
            (map (\<lambda>c. c_key (connections si c)) (filter ?U (ga g)))"
      unfolding filter_remove1_find [OF Some] map_append IH(6) flush_syncs ga
      using r by (simp add: rm syncs_of_def same_rules_def split: option.split)
    with e g' IH(2,5) same_rules_trans [OF r IH(4)] show ?thesis
      by (intro exI [of _ si'] exI [of _ "snd ?fl @ out"] exI [of _ g']) simp
  qed
qed

lemma destroy_all_rules:
  assumes i: "sfe_inv si g P" and i': "sfe_inv si' g' P'"
    and g: "ga g' = filter (\<lambda>c. \<not> uses_dev (connections si c) dev) (ga g)" and r: "same_rules si si'"
  shows "sfe_rules si' = (\<lambda>key. case sfe_rules si key of None \<Rightarrow> None | Some r \<Rightarrow> if rule_uses dev r then None else Some r)"
proof
  fix key
  show "sfe_rules si' key = (case sfe_rules si key of None \<Rightarrow> None | Some r \<Rightarrow> if rule_uses dev r then None else Some r)"
  proof (cases "sfe_lookup si key")
    case None
    then have "\<forall>c \<in> set (ga g'). c_key (connections si' c) \<noteq> key"
      using r unfolding lookup_None [OF i] by (auto simp: g same_rules_def)
    then have "sfe_lookup si' key = None" by (simp only: lookup_None [OF i'])
    with None show ?thesis by (simp add: sfe_rules_def)
  next
    case (Some c)
    then have c: "c \<in> set (ga g)" "c_key (connections si c) = key" by (simp_all only: lookup_iff [OF i])
    have cr: "c_rule (connections si' c) = c_rule (connections si c)" using r by (simp add: same_rules_def)
    show ?thesis
    proof (cases "uses_dev (connections si c) dev")
      case True
      have "inj_on (\<lambda>p. c_key (connections si p)) (set (ga g))"
        using i by (simp add: sfe_inv_def ft_inv_def conns_ok_def)
      then have "\<forall>x \<in> set (ga g'). c_key (connections si' x) \<noteq> key"
        using r True c by (auto simp: g same_rules_def inj_on_def)
      then have "sfe_lookup si' key = None" by (simp only: lookup_None [OF i'])
      with Some True show ?thesis by (simp add: sfe_rules_def uses_dev_rule)
    next
      case False
      then have "sfe_lookup si' key = Some c"
        using r c by (simp add: lookup_iff [OF i'] g same_rules_def)
      with Some False cr show ?thesis by (simp add: sfe_rules_def uses_dev_rule)
    qed
  qed
qed

section \<open>Creating a rule\<close>

text \<open>The two matches as \<open>build_rule\<close> leaves them, apart from their links.\<close>

definition xlate_dest :: "sfe_connection_create \<Rightarrow> bool" where
  "xlate_dest sic \<longleftrightarrow> sa_ip (sic_dest_ip sic) \<noteq> sa_ip (sic_dest_ip_xlate sic) \<or> sic_dest_port sic \<noteq> sic_dest_port_xlate sic"

definition xlate_src :: "sfe_connection_create \<Rightarrow> bool" where
  "xlate_src sic \<longleftrightarrow> sa_ip (sic_src_ip sic) \<noteq> sa_ip (sic_src_ip_xlate sic) \<or> sic_src_port sic \<noteq> sic_src_port_xlate sic"

definition doif :: "bool \<Rightarrow> ('a \<Rightarrow> 'a) \<Rightarrow> 'a \<Rightarrow> 'a" where
  "doif b f x = (if b then f x else x)"

definition xlate_flags :: "bool \<Rightarrow> bool \<Rightarrow> sfe_ipv4_connection_match \<Rightarrow> sfe_ipv4_connection_match" where
  "xlate_flags dest src m = doif src (cm_set_flag SFE_IPV4_CONNECTION_MATCH_FLAG_XLATE_SRC)
     (doif dest (cm_set_flag SFE_IPV4_CONNECTION_MATCH_FLAG_XLATE_DEST) m)"

definition xlate_flags' :: "bool \<Rightarrow> bool \<Rightarrow> sfe_ipv4_connection_match \<Rightarrow> sfe_ipv4_connection_match" where
  "xlate_flags' dest src m = doif dest (cm_set_flag SFE_IPV4_CONNECTION_MATCH_FLAG_XLATE_DEST)
     (doif src (cm_set_flag SFE_IPV4_CONNECTION_MATCH_FLAG_XLATE_SRC) m)"

definition tcp_init :: "sfe_connection_create \<Rightarrow> sfe_ipv4_tcp_connection_match \<Rightarrow>
    sfe_ipv4_connection_match \<Rightarrow> sfe_ipv4_connection_match" where
  "tcp_init sic tcp m = doif (sic_protocol sic = ucast IPPROTO_TCP)
     (\<lambda>m. doif (has_flag (sic_flags sic) SFE_CREATE_FLAG_NO_SEQ_CHECK)
            (cm_set_flag SFE_IPV4_CONNECTION_MATCH_FLAG_NO_SEQ_CHECK) (m\<lparr>cm_tcp := tcp\<rparr>)) m"

definition sic_src_tcp :: "sfe_connection_create \<Rightarrow> sfe_ipv4_tcp_connection_match" where
  "sic_src_tcp sic = tcp_state_init (sic_src_td_window_scale sic) (sic_src_td_max_window sic)
     (sic_src_td_end sic) (sic_src_td_max_end sic)"

definition sic_dest_tcp :: "sfe_connection_create \<Rightarrow> sfe_ipv4_tcp_connection_match" where
  "sic_dest_tcp sic = tcp_state_init (sic_dest_td_window_scale sic) (sic_dest_td_max_window sic)
     (sic_dest_td_end sic) (sic_dest_td_max_end sic)"

definition new_original :: "(dev_ptr \<Rightarrow> net_device) \<Rightarrow> sfe_connection_create \<Rightarrow> ptr \<Rightarrow> ptr \<Rightarrow>
    sfe_ipv4_connection_match \<Rightarrow> sfe_ipv4_connection_match" where
  "new_original devs sic c r m = sfe_ipv4_connection_match_compute_translations
     (tcp_init sic (sic_src_tcp sic) (xlate_flags (xlate_dest sic) (xlate_src sic) (fill_original_cm devs sic c r m)))"

definition new_reply :: "(dev_ptr \<Rightarrow> net_device) \<Rightarrow> sfe_connection_create \<Rightarrow> ptr \<Rightarrow> ptr \<Rightarrow>
    sfe_ipv4_connection_match \<Rightarrow> sfe_ipv4_connection_match" where
  "new_reply devs sic c oc m = sfe_ipv4_connection_match_compute_translations
     (tcp_init sic (sic_dest_tcp sic) (xlate_flags' (xlate_src sic) (xlate_dest sic) (fill_reply_cm devs sic c oc m)))"

definition built :: "(dev_ptr \<Rightarrow> net_device) \<Rightarrow> u64 \<Rightarrow> sfe_connection_create \<Rightarrow> ptr \<Rightarrow> ptr \<Rightarrow> ptr \<Rightarrow> sfe_ipv4 \<Rightarrow> sfe_ipv4" where
  "built devs jiffies sic c oc r si = dev_hold (sic_dest_dev sic) (dev_hold (sic_src_dev sic)
     (si\<lparr>matches := (matches si)(oc := new_original devs sic c r (matches si oc), r := new_reply devs sic c oc (matches si r)),
         connections := (connections si)(c := fill_connection jiffies sic oc r (connections si c))\<rparr>))"

lemma upd_cm_id: "upd_cm p (\<lambda>m. m) si = si"
  by (simp add: upd_cm_def)

lemma upd_cm_comp: "upd_cm p f (upd_cm p h si) = upd_cm p (\<lambda>m. f (h m)) si"
  by (simp add: upd_cm_def)

lemma upd_cm_swap: "p \<noteq> q \<Longrightarrow> upd_cm p f (upd_cm q h si) = upd_cm q h (upd_cm p f si)"
  by (simp add: upd_cm_def fun_upd_twist)

lemma set_xlate_flags_eq:
  assumes "oc \<noteq> r"
  shows "set_xlate_flags sic oc r si =
    upd_cm r (xlate_flags' (xlate_src sic) (xlate_dest sic)) (upd_cm oc (xlate_flags (xlate_dest sic) (xlate_src sic)) si)"
  unfolding set_xlate_flags_def xlate_dest_def [symmetric] xlate_src_def [symmetric]
  by (cases "xlate_dest sic"; cases "xlate_src sic")
    (simp_all add: xlate_flags_def [abs_def] xlate_flags'_def [abs_def] doif_def upd_cm_id upd_cm_comp
      upd_cm_swap [OF assms] cong: if_cong)

lemma init_protocol_state_eq:
  assumes "oc \<noteq> r"
  shows "init_protocol_state sic oc r si =
    upd_cm r (tcp_init sic (sic_dest_tcp sic)) (upd_cm oc (tcp_init sic (sic_src_tcp sic)) si)"
  unfolding init_protocol_state_def sic_src_tcp_def [symmetric] sic_dest_tcp_def [symmetric] Let_def
  by (cases "sic_protocol sic = ucast IPPROTO_TCP"; cases "has_flag (sic_flags sic) SFE_CREATE_FLAG_NO_SEQ_CHECK")
    (simp_all add: tcp_init_def [abs_def] doif_def upd_cm_id upd_cm_comp upd_cm_swap [OF assms])

lemma build_rule_eq:
  assumes "oc \<noteq> r"
  shows "build_rule devs jiffies sic c oc r si
    = sfe_ipv4_insert_sfe_ipv4_connection (built devs jiffies sic c oc r si) c"
  unfolding build_rule_def Let_def set_xlate_flags_eq [OF assms] init_protocol_state_eq [OF assms]
  by (rule arg_cong2 [where f = sfe_ipv4_insert_sfe_ipv4_connection, OF _ refl])
    (use assms in \<open>simp add: built_def dev_hold_def upd_cm_def upd_c_def fill_connection_def
      new_original_def new_reply_def fun_upd_twist\<close>)

lemma keeps_cm_comp: "keeps_cm f \<Longrightarrow> keeps_cm h \<Longrightarrow> keeps_cm (\<lambda>m. f (h m))"
  by (simp add: keeps_cm_def)

lemma keeps_cm_doif: "keeps_cm f \<Longrightarrow> keeps_cm (doif b f)"
  by (simp add: keeps_cm_def doif_def)

lemma keeps_cm_new [simp]:
  "keeps_cm (xlate_flags b b')" "keeps_cm (xlate_flags' b b')" "keeps_cm (tcp_init sic tcp)"
  by (simp_all add: keeps_cm_def doif_def xlate_flags_def xlate_flags'_def tcp_init_def cm_set_flag_def cm_view_def cm_key_def)

lemma set_remark_fields [simp]:
  "cm_connection (set_remark fl pr ds m) = cm_connection m" "cm_counter_match (set_remark fl pr ds m) = cm_counter_match m"
  "cm_key (set_remark fl pr ds m) = cm_key m"
  "cm_next (set_remark fl pr ds m) = cm_next m" "cm_prev (set_remark fl pr ds m) = cm_prev m"
  by (simp_all add: set_remark_def cm_set_flag_def Let_def cm_key_def)

lemma set_l2_flags_fields [simp]:
  "cm_connection (set_l2_flags d m) = cm_connection m" "cm_counter_match (set_l2_flags d m) = cm_counter_match m"
  "cm_key (set_l2_flags d m) = cm_key m" "cm_active (set_l2_flags d m) = cm_active m"
  "cm_active_next (set_l2_flags d m) = cm_active_next m" "cm_active_prev (set_l2_flags d m) = cm_active_prev m"
  by (simp_all add: set_l2_flags_def cm_set_flag_def Let_def cm_key_def)

lemma cm_key_irrelevant [simp]:
  "cm_key (m\<lparr>cm_flow_accel := a\<rparr>) = cm_key m" "cm_key (m\<lparr>cm_active_next := q\<rparr>) = cm_key m"
  "cm_key (m\<lparr>cm_active_prev := q\<rparr>) = cm_key m" "cm_key (m\<lparr>cm_active := b\<rparr>) = cm_key m"
  by (simp_all add: cm_key_def)

definition sic_original_key :: "sfe_connection_create \<Rightarrow> match_key" where
  "sic_original_key sic = (sic_src_dev sic, ucast (sic_protocol sic), sa_ip (sic_src_ip sic), sic_src_port sic,
     sa_ip (sic_dest_ip sic), sic_dest_port sic)"

definition sic_reply_key :: "sfe_connection_create \<Rightarrow> match_key" where
  "sic_reply_key sic = (sic_dest_dev sic, ucast (sic_protocol sic), sa_ip (sic_dest_ip_xlate sic), sic_dest_port_xlate sic,
     sa_ip (sic_src_ip_xlate sic), sic_src_port_xlate sic)"

lemma fill_original_fields:
  "cm_key (fill_original_cm devs sic c r m) = sic_original_key sic"
  "cm_active (fill_original_cm devs sic c r m) = False" "cm_active_next (fill_original_cm devs sic c r m) = None"
  "cm_connection (fill_original_cm devs sic c r m) = c" "cm_counter_match (fill_original_cm devs sic c r m) = r"
  by (simp_all add: fill_original_cm_def Let_def) (simp add: cm_key_def sic_original_key_def)

lemma fill_reply_fields:
  "cm_key (fill_reply_cm devs sic c oc m) = sic_reply_key sic"
  "cm_active (fill_reply_cm devs sic c oc m) = False" "cm_active_next (fill_reply_cm devs sic c oc m) = None"
  "cm_connection (fill_reply_cm devs sic c oc m) = c" "cm_counter_match (fill_reply_cm devs sic c oc m) = oc"
  by (simp_all add: fill_reply_cm_def Let_def) (simp add: cm_key_def sic_reply_key_def)

lemma new_original_fields:
  "cm_key (new_original devs sic c r m) = sic_original_key sic"
  "cm_active (new_original devs sic c r m) = False" "cm_active_next (new_original devs sic c r m) = None"
  "cm_connection (new_original devs sic c r m) = c" "cm_counter_match (new_original devs sic c r m) = r"
  unfolding new_original_def
  by (simp_all add: keeps_cmD [of sfe_ipv4_connection_match_compute_translations]
      keeps_cmD [of "tcp_init sic (sic_src_tcp sic)"] keeps_cmD [of "xlate_flags b b'" for b b'] fill_original_fields)

lemma new_reply_fields:
  "cm_key (new_reply devs sic c oc m) = sic_reply_key sic"
  "cm_active (new_reply devs sic c oc m) = False" "cm_active_next (new_reply devs sic c oc m) = None"
  "cm_connection (new_reply devs sic c oc m) = c" "cm_counter_match (new_reply devs sic c oc m) = oc"
  unfolding new_reply_def
  by (simp_all add: keeps_cmD [of sfe_ipv4_connection_match_compute_translations]
      keeps_cmD [of "tcp_init sic (sic_dest_tcp sic)"] keeps_cmD [of "xlate_flags' b b'" for b b'] fill_reply_fields)

lemma fill_connection_fields:
  "c_key (fill_connection j sic oc r x) = sic_key sic"
  "c_original_match (fill_connection j sic oc r x) = oc" "c_reply_match (fill_connection j sic oc r x) = r"
  "c_original_dev (fill_connection j sic oc r x) = sic_src_dev sic" "c_reply_dev (fill_connection j sic oc r x) = sic_dest_dev sic"
  by (simp_all add: fill_connection_def c_key_def sic_key_def)

text \<open>What \<open>kmalloc\<close> promises: three objects not in use.\<close>

definition fresh :: "sfe_ipv4 \<Rightarrow> ptr \<Rightarrow> ptr \<Rightarrow> ptr \<Rightarrow> bool" where
  "fresh si c oc r \<longleftrightarrow> c \<notin> live_connections si \<and> oc \<notin> live_matches si \<and> r \<notin> live_matches si \<and> oc \<noteq> r"

lemma built_fields:
  "matches (built devs j sic c oc r si) = (matches si)(oc := new_original devs sic c r (matches si oc), r := new_reply devs sic c oc (matches si r))"
  "connections (built devs j sic c oc r si) = (connections si)(c := fill_connection j sic oc r (connections si c))"
  "dev_refs (built devs j sic c oc r si) d = dev_refs si d + of_bool (sic_src_dev sic = d) + of_bool (sic_dest_dev sic = d)"
  "live_matches (built devs j sic c oc r si) = live_matches si"
  "live_connections (built devs j sic c oc r si) = live_connections si"
  "num_connections (built devs j sic c oc r si) = num_connections si"
  "conn_hash (built devs j sic c oc r si) = conn_hash si" "conn_match_hash (built devs j sic c oc r si) = conn_match_hash si"
  "all_connections_head (built devs j sic c oc r si) = all_connections_head si"
  "all_connections_tail (built devs j sic c oc r si) = all_connections_tail si"
  "active_head (built devs j sic c oc r si) = active_head si" "active_tail (built devs j sic c oc r si) = active_tail si"
  by (simp_all add: built_def dev_hold_def)

lemma mem_live:
  assumes "mem_ok si cs"
  shows "c \<notin> live_connections si \<Longrightarrow> c \<notin> set cs"
    and "x \<in> set cs \<Longrightarrow> m \<notin> live_matches si \<Longrightarrow> m \<noteq> c_original_match (connections si x) \<and> m \<noteq> c_reply_match (connections si x)"
  using assms by (auto simp: mem_ok_def ft_live_def)

lemma create_agree:
  assumes i: "sfe_inv si g P" and f: "fresh si c oc r"
  shows "ft_agree (ft si) (ft (built devs j sic c oc r si)) (set (ga g @ P)) (ft_live (ft si) (set (ga g @ P)))"
proof -
  have m: "mem_ok si (ga g @ P)" using i by (simp add: sfe_inv_def)
  have "c \<notin> set (ga g @ P)" using mem_live(1) [OF m] f by (simp add: fresh_def)
  moreover have "oc \<notin> ft_live (ft si) (set (ga g @ P))" "r \<notin> ft_live (ft si) (set (ga g @ P))"
    using m f by (simp_all add: mem_ok_def fresh_def)
  ultimately have "x \<in> set (ga g @ P) \<Longrightarrow> connections (built devs j sic c oc r si) x = connections si x"
    and "y \<in> ft_live (ft si) (set (ga g @ P)) \<Longrightarrow> matches (built devs j sic c oc r si) y = matches si y" for x y
    by (auto simp: built_fields)
  then show ?thesis by (simp add: ft_agree_def built_fields)
qed

definition alloc :: "ptr \<Rightarrow> ptr \<Rightarrow> ptr \<Rightarrow> sfe_ipv4 \<Rightarrow> sfe_ipv4" where
  "alloc c oc r si = si\<lparr>live_connections := insert c (live_connections si),
                        live_matches := insert oc (insert r (live_matches si))\<rparr>"

lemma alloc_sel [simp]:
  "connections (alloc c oc r si) = connections si" "matches (alloc c oc r si) = matches si"
  "dev_refs (alloc c oc r si) = dev_refs si" "num_connections (alloc c oc r si) = num_connections si"
  by (simp_all add: alloc_def)

lemma ft_built_alloc: "ft (built devs j sic c oc r (alloc c oc r si)) = ft (built devs j sic c oc r si)"
  by (simp add: ft_def built_def dev_hold_def alloc_def)

lemma built_alloc_fields:
  "matches (built devs j sic c oc r (alloc c oc r si)) = matches (built devs j sic c oc r si)"
  "connections (built devs j sic c oc r (alloc c oc r si)) = connections (built devs j sic c oc r si)"
  "dev_refs (built devs j sic c oc r (alloc c oc r si)) = dev_refs (built devs j sic c oc r si)"
  by (simp_all add: built_def dev_hold_def alloc_def)

lemma ft_agree_mono: "ft_agree t t' C L \<Longrightarrow> C' \<subseteq> C \<Longrightarrow> L' \<subseteq> L \<Longrightarrow> ft_agree t t' C' L'"
  by (auto simp: ft_agree_def)

lemma built_mem:
  assumes i: "sfe_inv si g P" and f: "fresh si c oc r"
  shows "mem_ok (built devs j sic c oc r (alloc c oc r si)) (c # ga g @ P)"
proof -
  let ?b = "built devs j sic c oc r (alloc c oc r si)"
  let ?C = "set (ga g @ P)" and ?L = "ft_live (ft si) (set (ga g @ P))"
  have m: "mem_ok si (ga g @ P)" using i by (simp add: sfe_inv_def)
  note a = create_agree [OF i f, of devs j sic]
  have c: "c \<notin> ?C" using mem_live(1) [OF m] f by (simp add: fresh_def)
  have cs: "connections ?b x = connections si x" if "x \<in> ?C" for x
    using that c by (auto simp: built_fields built_alloc_fields)
  have "ft_live (ft ?b) (insert c ?C) = insert oc (insert r ?L)"
    using ft_agree_live [OF a order_refl]
    by (auto simp: ft_built_alloc ft_live_def built_fields fill_connection_fields)
  moreover have "live_matches ?b = insert oc (insert r ?L)" "live_connections ?b = insert c ?C"
    using m by (simp_all add: built_fields alloc_def mem_ok_def)
  moreover have "pairs_ok (ft ?b) (insert c ?C)"
  proof -
    have "pairs_ok (ft si) ?C" using m by (simp add: mem_ok_def)
    moreover have "com (ft si) x \<in> ?L \<and> crm (ft si) x \<in> ?L" if "x \<in> ?C" for x
      using that by (auto simp: ft_live_def)
    ultimately have "pairs_ok (ft ?b) ?C"
      using a unfolding pairs_ok_def ft_agree_def ft_built_alloc by metis
    moreover have "oc \<noteq> r" using f by (simp add: fresh_def)
    ultimately show ?thesis
      by (simp add: pairs_ok_def built_fields built_alloc_fields fill_connection_fields new_original_fields new_reply_fields)
  qed
  moreover have "dev_refs ?b dv = refs_of ?b (c # ga g @ P) dv" for dv
  proof -
    have "refs_of ?b (ga g @ P) dv = refs_of si (ga g @ P) dv"
      unfolding refs_of_def by (rule arg_cong [where f = sum_list], rule map_cong) (simp_all only: cs)
    then have "refs_of ?b (c # ga g @ P) dv = of_bool (sic_src_dev sic = dv) + of_bool (sic_dest_dev sic = dv) + refs_of si (ga g @ P) dv"
      by (simp add: refs_of_def built_fields built_alloc_fields fill_connection_fields)
    moreover have "dev_refs si dv = refs_of si (ga g @ P) dv" using m by (simp add: mem_ok_def)
    ultimately show ?thesis by (simp add: built_fields built_alloc_fields)
  qed
  ultimately show ?thesis
    using c m by (simp add: mem_ok_def fun_eq_iff)
qed

lemma build_rule_inv:
  fixes devs j
  assumes i: "sfe_inv si g P" and f: "fresh si c oc r"
    and k: "sfe_lookup si (sic_key sic) = None"
  defines "si' \<equiv> build_rule devs j sic c oc r (alloc c oc r si)"
  shows "\<exists>g'. sfe_inv si' g' P \<and> ga g' = ga g @ [c]"
proof -
  let ?b = "built devs j sic c oc r (alloc c oc r si)"
  let ?C = "set (ga g)"
  have m: "mem_ok si (ga g @ P)" and fi: "ft_inv (ft si) g" using i by (simp_all add: sfe_inv_def)
  have si': "si' = sfe_ipv4_insert_sfe_ipv4_connection ?b c"
    unfolding si'_def using f by (intro build_rule_eq) (simp add: fresh_def)
  have a: "ft_agree (ft si) (ft ?b) ?C (ft_live (ft si) ?C)"
    unfolding ft_built_alloc
    by (rule ft_agree_mono [OF create_agree [OF i f]]) (auto simp: ft_live_def)
  have c: "c \<notin> set (ga g @ P)" using mem_live(1) [OF m] f by (simp add: fresh_def)
  have live: "ft_live (ft ?b) ?C \<subseteq> live_matches si"
    using m ft_agree_live [OF a order_refl] by (auto simp: mem_ok_def ft_live_def)
  have key: "ckey (ft ?b) c \<notin> ckey (ft ?b) ` ?C"
  proof
    assume "ckey (ft ?b) c \<in> ckey (ft ?b) ` ?C"
    then obtain x where x: "x \<in> ?C" and e: "c_key (connections ?b c) = c_key (connections ?b x)" by auto
    have "x \<noteq> c" using x c by auto
    with e have "c_key (connections si x) = sic_key sic"
      by (simp add: built_fields fill_connection_fields)
    with k x show False unfolding lookup_None [OF i] by blast
  qed
  have "ft_inv (ft_insert_conn (ft ?b) c) (lists_insert (ft ?b) g c)"
    by (rule ft_insert_conn_inv [OF ft_inv_agree [OF fi a]])
      (use c key live f in \<open>auto simp: fresh_def built_fields built_alloc_fields fill_connection_fields
        new_original_fields new_reply_fields\<close>)
  then have "ft_inv (ft si') (lists_insert (ft ?b) g c)"
    by (simp only: si' ft_insert_connection)
  moreover have ga: "ga (lists_insert (ft ?b) g c) = ga g @ [c]" by (simp add: lists_insert_def)
  moreover have "mem_ok si' ((ga g @ [c]) @ P)"
    unfolding si'
    by (rule same_data_mem [OF same_data_insert_connection _ _ _ built_mem [OF i f]]) (use m c in \<open>auto simp: mem_ok_def\<close>)
  moreover have "num_connections si' = of_nat (length (ga g @ [c]))"
    using i by (simp add: si' num_insert_connection built_fields alloc_def sfe_inv_def add.commute)
  ultimately show ?thesis by (auto simp: sfe_inv_def)
qed

definition sic_rule :: "sfe_connection_create \<Rightarrow> rule" where
  "sic_rule sic = (sa_ip (sic_src_ip_xlate sic), sic_src_port_xlate sic, sa_ip (sic_dest_ip_xlate sic),
     sic_dest_port_xlate sic, sic_src_dev sic, sic_dest_dev sic, sic_mark sic)"

lemma build_rule_rules:
  fixes devs j
  assumes i: "sfe_inv si g P" and f: "fresh si c oc r"
    and k: "sfe_lookup si (sic_key sic) = None"
  defines "si' \<equiv> build_rule devs j sic c oc r (alloc c oc r si)"
  shows "sfe_lookup si' = (sfe_lookup si)(sic_key sic \<mapsto> c)"
    and "sfe_rules si' = (sfe_rules si)(sic_key sic \<mapsto> sic_rule sic)"
proof -
  let ?b = "built devs j sic c oc r (alloc c oc r si)"
  have si': "si' = sfe_ipv4_insert_sfe_ipv4_connection ?b c"
    unfolding si'_def using f by (intro build_rule_eq) (simp add: fresh_def)
  obtain g' where i': "sfe_inv si' g' P" and ga: "ga g' = ga g @ [c]"
    using build_rule_inv [OF i f k, of devs j] unfolding si'_def [symmetric] by (elim exE conjE) (rule that)
  have m: "mem_ok si (ga g @ P)" using i by (simp add: sfe_inv_def)
  have c: "c \<notin> set (ga g)" using mem_live(1) [OF m] f by (simp add: fresh_def)
  have r: "same_rules ?b si'" unfolding si' by (rule same_rules_data [OF same_data_insert_connection])
  have kc: "c_key (connections si' c) = sic_key sic" "c_rule (connections si' c) = sic_rule sic"
    using r by (simp_all add: same_rules_def built_fields fill_connection_def c_key_def sic_key_def c_rule_def sic_rule_def)
  have ko: "c_key (connections si' x) = c_key (connections si x)" "c_rule (connections si' x) = c_rule (connections si x)"
    if "x \<noteq> c" for x
    using r that by (simp_all add: same_rules_def built_fields alloc_def)
  have old: "sfe_lookup si key = Some x \<Longrightarrow> x \<noteq> c" for key x
    using c unfolding lookup_iff [OF i] by auto
  have l: "sfe_lookup si' key = ((sfe_lookup si)(sic_key sic \<mapsto> c)) key" for key
  proof (cases "key = sic_key sic")
    case True
    then show ?thesis using kc by (simp add: lookup_iff [OF i'] ga)
  next
    case False
    have "c_key (connections si' x) = key \<longleftrightarrow> x \<noteq> c \<and> c_key (connections si x) = key" for x
      using False kc ko by (cases "x = c") auto
    then have "sfe_lookup si' key = sfe_lookup si key"
      using c by (intro lookup_eqI [OF i i']) (auto simp: ga)
    with False show ?thesis by simp
  qed
  then show l': "sfe_lookup si' = (sfe_lookup si)(sic_key sic \<mapsto> c)" by (rule ext)
  show "sfe_rules si' = (sfe_rules si)(sic_key sic \<mapsto> sic_rule sic)"
  proof
    show "sfe_rules si' key = ((sfe_rules si)(sic_key sic \<mapsto> sic_rule sic)) key" for key
      using old [of key] kc ko by (cases "sfe_lookup si key") (auto simp: sfe_rules_def l)
  qed
qed

definition devs_up :: "(dev_ptr \<Rightarrow> net_device) \<Rightarrow> sfe_connection_create \<Rightarrow> bool" where
  "devs_up devs sic \<longleftrightarrow> nd_registered (devs (sic_dest_dev sic)) \<and> nd_registered (devs (sic_src_dev sic))"

lemma create_rule_result:
  assumes i: "sfe_inv si g P"
  defines "si1 \<equiv> si\<lparr>connection_create_requests := connection_create_requests si + 1\<rparr>"
  shows "sfe_ipv4_create_rule devs j kc ko kr si sic = Some
    (if \<not> devs_up devs sic then (- EINVAL, si)
     else case sfe_lookup si (sic_key sic) of
       Some c \<Rightarrow> (- EADDRINUSE, sfe_ipv4_update_protocol_state
                     (si1\<lparr>connection_create_collisions := connection_create_collisions si + 1\<rparr>) c sic)
     | None \<Rightarrow> (case (kc, ko, kr) of
           (Some c, Some oc, Some r) \<Rightarrow> (0, build_rule devs j sic c oc r (alloc c oc r si1))
         | _ \<Rightarrow> (- ENOMEM, si1)))"
proof -
  have s: "same_shape si si1" by (simp add: si1_def)
  have l: "sfe_ipv4_find_sfe_ipv4_connection si1 (sic_protocol sic) (sa_ip (sic_src_ip sic)) (sic_src_port sic)
      (sa_ip (sic_dest_ip sic)) (sic_dest_port sic) = Some (sfe_lookup si (sic_key sic))"
    unfolding find_connection_lookup [OF sfe_inv_same_shape [OF s i]] sic_key_def lookup_same_shape [OF i s] ..
  have e: "connection_create_collisions si1 = connection_create_collisions si"
    "live_connections si1 = live_connections si" "live_matches si1 = live_matches si"
    by (simp_all add: si1_def)
  show ?thesis
    unfolding sfe_ipv4_create_rule_def si1_def [symmetric] Let_def l devs_up_def
    by (simp add: e alloc_def split: option.split)
qed

lemma create_rule_inv:
  assumes i: "sfe_inv si g P" and e: "sfe_ipv4_create_rule devs j kc ko kr si sic = Some (rc, si')"
    and f: "\<And>c oc r. kc = Some c \<Longrightarrow> ko = Some oc \<Longrightarrow> kr = Some r \<Longrightarrow> fresh si c oc r"
  shows "\<exists>g'. sfe_inv si' g' P"
    and "rc = 0 \<Longrightarrow> sfe_rules si (sic_key sic) = None \<and> sfe_rules si' = (sfe_rules si)(sic_key sic \<mapsto> sic_rule sic)"
    and "rc \<noteq> 0 \<Longrightarrow> sfe_rules si' = sfe_rules si"
proof -
  define si1 where "si1 = si\<lparr>connection_create_requests := connection_create_requests si + 1\<rparr>"
  have s1: "same_shape si si1" "same_rules si si1" by (simp_all add: si1_def)
  note R = create_rule_result [OF i, of devs j kc ko kr sic, unfolded e, folded si1_def]
  have "(rc = 0 \<and> (\<exists>g'. sfe_inv si' g' P) \<and> sfe_rules si (sic_key sic) = None
           \<and> sfe_rules si' = (sfe_rules si)(sic_key sic \<mapsto> sic_rule sic))
      \<or> (rc \<noteq> 0 \<and> same_shape si si' \<and> same_rules si si')"
  proof (cases "devs_up devs sic \<and> sfe_lookup si (sic_key sic) = None \<and> kc \<noteq> None \<and> ko \<noteq> None \<and> kr \<noteq> None")
    case True
    then obtain c oc r where k: "kc = Some c" "ko = Some oc" "kr = Some r" by blast
    have fr: "fresh si1 c oc r" using f [OF k] by (simp add: fresh_def si1_def)
    have l: "sfe_lookup si1 (sic_key sic) = None" using True lookup_same_shape [OF i s1(1)] by simp
    have r: "sfe_rules si1 = sfe_rules si" by (rule rules_same_shape [OF i s1])
    have E: "rc = 0" "si' = build_rule devs j sic c oc r (alloc c oc r si1)" using R True k by simp_all
    show ?thesis
      using build_rule_inv [OF sfe_inv_same_shape [OF s1(1) i] fr l, of devs j]
        build_rule_rules(2) [OF sfe_inv_same_shape [OF s1(1) i] fr l, of devs j] True
      unfolding E r by (auto simp: sfe_rules_def)
  next
    case False
    then have "rc \<noteq> 0 \<and> same_shape si si' \<and> same_rules si si'"
      using R s1 by (auto simp: EINVAL_def ENOMEM_def EADDRINUSE_def split: if_splits option.splits)
    then show ?thesis ..
  qed
  moreover have "\<exists>g'. sfe_inv si' g' P" if "same_shape si si'"
    using sfe_inv_same_shape [OF that i] by blast
  ultimately show "\<exists>g'. sfe_inv si' g' P"
    and "rc = 0 \<Longrightarrow> sfe_rules si (sic_key sic) = None \<and> sfe_rules si' = (sfe_rules si)(sic_key sic \<mapsto> sic_rule sic)"
    and "rc \<noteq> 0 \<Longrightarrow> sfe_rules si' = sfe_rules si"
    using rules_same_shape [OF i] by blast+
qed

end
