(* ===== verification/SFE_IPv4_Sync.thy ===== *)
theory SFE_IPv4_Sync
  imports SFE_IPv4_Rules_Inv
begin

text \<open>
  The periodic sync: taking matches off the active list keeps the tables well formed and never
  follows a NULL pointer, each connection is reported at most once per run, and no packet or byte
  count is lost.
\<close>

section \<open>Taking matches off the active list\<close>

lemma ft_vpv_off:
  "ft_inv t g \<Longrightarrow> m \<notin> set (gv g) \<Longrightarrow> ft_inv (t\<lparr>vpv := (vpv t)(m := v)\<rparr>) g"
  by (simp add: ft_inv_def conns_ok_def matches_ok_def pairs_ok_def ft_live_def)

lemma ft_deactivate_counter:
  assumes "von (ft si) cc" and "vpv (ft si) cc = Some p"
  shows "\<exists>si'. deactivate_counter si cc = Some si'
    \<and> ft si' = (ft_deactivate (ft si) cc)\<lparr>vpv := (vpv (ft_deactivate (ft si) cc))(cc := None)\<rparr>"
  using assms
  unfolding deactivate_counter_def Let_def ft_deactivate_def ft_inactive_def unl_nx_def unl_pv_def unl_hd_def unl_tl_def
  by (cases "vnx (ft si) cc") (auto simp: ft_read simp del: ft_sel)

lemma ft_deactivate_head:
  assumes "vpv (ft si) cm = None"
  shows "ft (deactivate_head si cm) = ft_deactivate (ft si) cm"
  using assms
  unfolding deactivate_head_def Let_def ft_deactivate_def ft_inactive_def unl_nx_def unl_pv_def unl_hd_def unl_tl_def
  by (cases "vnx (ft si) cm") (auto simp: ft_read simp del: ft_sel)

lemma deactivate_frame:
  "connections (deactivate_head si cm) = connections si" "live_matches (deactivate_head si cm) = live_matches si"
  "live_connections (deactivate_head si cm) = live_connections si" "dev_refs (deactivate_head si cm) = dev_refs si"
  "num_connections (deactivate_head si cm) = num_connections si"
  "deactivate_counter si cc = Some si' \<Longrightarrow> connections si' = connections si \<and> live_matches si' = live_matches si
     \<and> live_connections si' = live_connections si \<and> dev_refs si' = dev_refs si \<and> num_connections si' = num_connections si"
  by (auto simp: deactivate_head_def deactivate_counter_def Let_def upd_cm_def split: option.splits if_splits)

lemma sfe_inv_deactivate:
  assumes i: "sfe_inv si g P" and f: "ft_inv (ft si') g'" and ga: "ga g' = ga g"
    and e: "com (ft si') = com (ft si)" "crm (ft si') = crm (ft si)" "mco (ft si') = mco (ft si)" "mct (ft si') = mct (ft si)"
    and s: "connections si' = connections si" "live_matches si' = live_matches si"
      "live_connections si' = live_connections si" "dev_refs si' = dev_refs si" "num_connections si' = num_connections si"
  shows "sfe_inv si' g' P"
proof -
  have "ft_live (ft si') C = ft_live (ft si) C" "pairs_ok (ft si') C = pairs_ok (ft si) C" for C
    unfolding ft_live_def pairs_ok_def e by (rule refl)+
  moreover have "refs_of si' cs d = refs_of si cs d" for cs d by (simp add: refs_of_def s)
  ultimately show ?thesis using i f by (simp add: sfe_inv_def mem_ok_def ga s fun_eq_iff)
qed

text \<open>One round: the head of the active list and its counter match leave the list.\<close>

lemma deactivate_round:
  assumes i: "sfe_inv si g P" and h: "active_head si = Some cm"
  shows "\<exists>si1 g'. deactivate_counter si (cm_counter_match (matches si cm)) = Some si1
    \<and> sfe_inv (deactivate_head si1 cm) g' P \<and> ga g' = ga g
    \<and> gv g' = remove1 cm (remove1 (cm_counter_match (matches si cm)) (gv g))
    \<and> cm \<in> set (gv g) \<and> cm_connection (matches (deactivate_head si1 cm) cm) = cm_connection (matches si cm)
    \<and> cm_connection (matches si cm) \<in> set (ga g) \<and> connections (deactivate_head si1 cm) = connections si"
proof -
  let ?cc = "cm_counter_match (matches si cm)"
  from i have fi: "ft_inv (ft si) g" by (simp add: sfe_inv_def)
  then have q: "dqueue (vnx (ft si)) (vpv (ft si)) (Some cm) (active_tail si) (gv g)"
    and s: "set (gv g) = {m \<in> ft_live (ft si) (set (ga g)). von (ft si) m}" and po: "pairs_ok (ft si) (set (ga g))"
    using h by (simp_all add: ft_inv_def matches_ok_def)
  from q obtain ms where v: "gv g = cm # ms" and dl: "dlist (vnx (ft si)) (vpv (ft si)) (Some cm) (gv g)"
    and d: "distinct (gv g)"
    by (cases "gv g") (auto simp: dqueue_def dlist_def)
  have cm: "cm \<in> set (gv g)" by (simp add: v)
  with s obtain c where c: "c \<in> set (ga g)" and cs: "cm = com (ft si) c \<or> cm = crm (ft si) c"
    by (auto simp: ft_live_def)
  then have co: "mco (ft si) cm = c" and cc: "?cc \<noteq> cm" "?cc \<in> ft_live (ft si) (set (ga g))"
    using po by (auto simp: pairs_ok_def ft_live_def)
  have pv: "vpv (ft si) cm = None" using q v by (simp add: dqueue_def dlist_def)
  obtain si1 where d1: "deactivate_counter si ?cc = Some si1"
    and i1: "sfe_inv si1 (g\<lparr>gv := remove1 ?cc (gv g)\<rparr>) P" and pv1: "vpv (ft si1) cm = None"
    and e1: "mco (ft si1) = mco (ft si)"
  proof (cases "von (ft si) ?cc")
    case False
    then have "deactivate_counter si ?cc = Some si" by (simp add: deactivate_counter_def)
    moreover have "remove1 ?cc (gv g) = gv g" using s False by (simp add: remove1_idem)
    ultimately show thesis using that [of si] i pv by simp
  next
    case True
    then have m: "?cc \<in> set (gv g)" using s cc by simp
    have "vpv (ft si) ?cc \<noteq> None"
      using dlist_prev_None [OF dl m] cc(1) by auto
    then obtain p where p: "vpv (ft si) ?cc = Some p" by blast
    let ?t = "ft_deactivate (ft si) ?cc"
    obtain si1 where d1: "deactivate_counter si ?cc = Some si1" and f1: "ft si1 = ?t\<lparr>vpv := (vpv ?t)(?cc := None)\<rparr>"
      using ft_deactivate_counter [OF True p] by (elim exE conjE) (rule that)
    have "ft_inv (?t\<lparr>vpv := (vpv ?t)(?cc := None)\<rparr>) (g\<lparr>gv := remove1 ?cc (gv g)\<rparr>)"
      using d by (intro ft_vpv_off ft_deactivate_inv [OF fi m]) simp
    then have fi1: "ft_inv (ft si1) (g\<lparr>gv := remove1 ?cc (gv g)\<rparr>)" by (simp only: f1)
    have e: "com (ft si1) = com (ft si)" "crm (ft si1) = crm (ft si)" "mco (ft si1) = mco (ft si)" "mct (ft si1) = mct (ft si)"
      unfolding f1 by (simp_all add: ft_deactivate_def ft_inactive_def Let_def del: ft_sel)
    have i1: "sfe_inv si1 (g\<lparr>gv := remove1 ?cc (gv g)\<rparr>) P"
      by (rule sfe_inv_deactivate [OF i fi1 _ e]) (use deactivate_frame(6) [OF d1] in simp_all)
    have hd1: "vhd (ft si1) = Some cm"
      using p h unfolding f1 by (simp add: ft_deactivate_def ft_inactive_def Let_def unl_hd_def)
    have "gv (g\<lparr>gv := remove1 ?cc (gv g)\<rparr>) = cm # remove1 ?cc ms" using cc(1) v by auto
    then have "vpv (ft si1) cm = None"
      using fi1 hd1 by (simp add: ft_inv_def matches_ok_def dqueue_def dlist_def)
    from d1 i1 this e(3) show thesis by (rule that)
  qed
  let ?g1 = "g\<lparr>gv := remove1 ?cc (gv g)\<rparr>"
  have m1: "cm \<in> set (gv ?g1)" using cc(1) v by auto
  have f2: "ft (deactivate_head si1 cm) = ft_deactivate (ft si1) cm" by (rule ft_deactivate_head [OF pv1])
  have fi1: "ft_inv (ft si1) ?g1" using i1 by (simp add: sfe_inv_def)
  have fi2: "ft_inv (ft (deactivate_head si1 cm)) (?g1\<lparr>gv := remove1 cm (gv ?g1)\<rparr>)"
    unfolding f2 by (rule ft_deactivate_inv [OF fi1 m1])
  have i2: "sfe_inv (deactivate_head si1 cm) (?g1\<lparr>gv := remove1 cm (gv ?g1)\<rparr>) P"
    by (rule sfe_inv_deactivate [OF i1 fi2])
      (simp_all add: f2 ft_deactivate_def ft_inactive_def Let_def deactivate_frame del: ft_sel)
  have "mco (ft (deactivate_head si1 cm)) cm = mco (ft si) cm"
    unfolding f2 e1 [symmetric] by (simp add: ft_deactivate_def ft_inactive_def Let_def del: ft_sel)
  then show ?thesis
    using d1 i2 cm co c deactivate_frame(1) deactivate_frame(6) [OF d1]
    by (intro exI [of _ si1] exI [of _ "?g1\<lparr>gv := remove1 cm (gv ?g1)\<rparr>"]) simp
qed

section \<open>The loop\<close>

lemma gen_sync_inv:
  assumes "sfe_inv si g P"
  shows "sfe_inv (snd (sfe_ipv4_gen_sync_sfe_ipv4_connection si c sis reason now)) g P"
  by (rule sfe_inv_same_shape [OF _ assms]) simp

lemma gen_sync_connection:
  "cm_connection (matches (snd (sfe_ipv4_gen_sync_sfe_ipv4_connection si c sis reason now)) m) = cm_connection (matches si m)"
  by (simp add: sfe_ipv4_gen_sync_sfe_ipv4_connection_def Let_def upd_cm_def upd_c_def
      sfe_ipv4_connection_match_update_summary_stats_def)

lemma deactivate_connection:
  "cm_connection (matches (deactivate_head si cm) m) = cm_connection (matches si m)"
  "deactivate_counter si cc = Some si' \<Longrightarrow> cm_connection (matches si' m) = cm_connection (matches si m)"
  by (auto simp: deactivate_head_def deactivate_counter_def Let_def upd_cm_def split: option.splits if_splits)

lemma active_pair:
  assumes i: "sfe_inv si g P" and m: "m \<in> set (gv g)" "m' \<in> set (gv g)"
    and e: "cm_connection (matches si m) = cm_connection (matches si m')" and n: "m \<noteq> m'"
  shows "m' = cm_counter_match (matches si m)"
proof -
  have s: "set (gv g) \<subseteq> ft_live (ft si) (set (ga g))" and po: "pairs_ok (ft si) (set (ga g))"
    using i by (auto simp: sfe_inv_def ft_inv_def matches_ok_def)
  have "\<exists>c \<in> set (ga g). x = com (ft si) c \<or> x = crm (ft si) c" if "x \<in> set (gv g)" for x
    using s that by (auto simp: ft_live_def)
  from this [OF m(1)] this [OF m(2)] obtain c c' where "c \<in> set (ga g)" "m = com (ft si) c \<or> m = crm (ft si) c"
    "c' \<in> set (ga g)" "m' = com (ft si) c' \<or> m' = crm (ft si) c'"
    by blast
  with po e n show ?thesis by (auto simp: pairs_ok_def)
qed

text \<open>
  The connections a run reports, by the matches at the head of the list: distinct, all in the
  table, and none of them still has an active match afterwards.
\<close>

lemma periodic_sync_loop_spec:
  assumes "sfe_inv si g P"
  shows "\<exists>si' out g' cs. periodic_sync_loop quota cb now si = Some (si', out) \<and> sfe_inv si' g' P \<and> ga g' = ga g
    \<and> same_rules si si'
    \<and> map (\<lambda>(f, sis). (f, sis_key sis, sis_reason sis)) out
        = map (\<lambda>c. (cb, c_key (connections si c), SFE_SYNC_REASON_STATS)) cs
    \<and> distinct cs \<and> set cs \<subseteq> (\<lambda>m. cm_connection (matches si m)) ` set (gv g) \<inter> set (ga g) \<and> length cs \<le> quota
    \<and> (length cs < quota \<longrightarrow> gv g' = [])
    \<and> set (gv g') \<subseteq> {m \<in> set (gv g). cm_connection (matches si m) \<notin> set cs}"
  using assms
proof (induction quota arbitrary: si g)
  case 0
  then show ?case by (intro exI [of _ si] exI [of _ "[]"] exI [of _ g]) auto
next
  case (Suc quota)
  show ?case
  proof (cases "active_head si")
    case None
    then have "gv g = []"
      using Suc.prems by (simp add: sfe_inv_def ft_inv_def matches_ok_def dqueue_def)
    with None Suc.prems show ?thesis
      by (intro exI [of _ si] exI [of _ "[]"] exI [of _ g]) auto
  next
    case (Some cm)
    let ?cc = "cm_counter_match (matches si cm)" and ?c = "cm_connection (matches si cm)"
    obtain si1 g1 where d1: "deactivate_counter si ?cc = Some si1"
      and i1: "sfe_inv (deactivate_head si1 cm) g1 P" and ga1: "ga g1 = ga g"
      and gv1: "gv g1 = remove1 cm (remove1 ?cc (gv g))" and cm: "cm \<in> set (gv g)"
      and c1: "cm_connection (matches (deactivate_head si1 cm) cm) = ?c" and cga: "?c \<in> set (ga g)"
      and con: "connections (deactivate_head si1 cm) = connections si"
      using deactivate_round [OF Suc.prems Some] by (elim exE conjE) (rule that)
    let ?si1 = "deactivate_head si1 cm"
    let ?gs = "sfe_ipv4_gen_sync_sfe_ipv4_connection ?si1 ?c stack_sis SFE_SYNC_REASON_STATS now"
    have mc: "cm_connection (matches (snd ?gs) m) = cm_connection (matches si m)" for m
      by (simp add: gen_sync_connection deactivate_connection(1) deactivate_connection(2) [OF d1])
    have r1: "same_rules si (snd ?gs)"
      using gen_sync_rules [of ?si1 ?c stack_sis SFE_SYNC_REASON_STATS now] by (simp add: same_rules_def con)
    from Suc.IH [OF gen_sync_inv [OF i1, of ?c stack_sis SFE_SYNC_REASON_STATS now]]
    obtain si' out g' cs where IH: "periodic_sync_loop quota cb now (snd ?gs) = Some (si', out)" "sfe_inv si' g' P"
      "ga g' = ga g1" "same_rules (snd ?gs) si'"
      "map (\<lambda>(f, sis). (f, sis_key sis, sis_reason sis)) out
        = map (\<lambda>c. (cb, c_key (connections (snd ?gs) c), SFE_SYNC_REASON_STATS)) cs"
      "distinct cs" "set cs \<subseteq> (\<lambda>m. cm_connection (matches si m)) ` set (gv g1) \<inter> set (ga g1)" "length cs \<le> quota"
      "length cs < quota \<longrightarrow> gv g' = []" "set (gv g') \<subseteq> {m \<in> set (gv g1). cm_connection (matches si m) \<notin> set cs}"
      unfolding mc by (elim exE conjE) (rule that)
    have dv: "distinct (gv g)"
      using Suc.prems by (simp add: sfe_inv_def ft_inv_def matches_ok_def dqueue_def dlist_def)
    have sg1: "set (gv g1) = set (gv g) - {?cc, cm}" using dv by (auto simp: gv1)
    have noc: "cm_connection (matches si m) \<noteq> ?c" if "m \<in> set (gv g1)" for m
    proof
      assume c: "cm_connection (matches si m) = ?c"
      have m: "m \<in> set (gv g)" "cm \<noteq> m" "m \<noteq> ?cc" using that sg1 by blast+
      show False using active_pair [OF Suc.prems cm m(1) c [symmetric] m(2)] m(3) by (rule notE [rotated])
    qed
    have e: "periodic_sync_loop (Suc quota) cb now si = Some (si', (cb, fst ?gs) # out)"
      using Some IH(1) by (simp add: d1 c1 split_beta)
    have n1: "map (\<lambda>(f, sis). (f, sis_key sis, sis_reason sis)) ((cb, fst ?gs) # out)
        = map (\<lambda>c. (cb, c_key (connections si c), SFE_SYNC_REASON_STATS)) (?c # cs)"
      using IH(5) r1 by (simp add: gen_sync_key con same_rules_def)
    have "?c \<notin> set cs"
    proof
      assume "?c \<in> set cs"
      then obtain m where m: "m \<in> set (gv g1)" and e: "?c = cm_connection (matches si m)" using IH(7) by blast
      show False using noc [OF m] by (rule notE) (rule e [symmetric])
    qed
    then have n2: "distinct (?c # cs)" using IH(6) by simp
    have n3: "set (?c # cs) \<subseteq> (\<lambda>m. cm_connection (matches si m)) ` set (gv g) \<inter> set (ga g)"
      using IH(7) cm cga sg1 ga1 by auto
    have n4: "set (gv g') \<subseteq> {m \<in> set (gv g). cm_connection (matches si m) \<notin> set (?c # cs)}"
      using IH(10) noc sg1 by auto
    have n5: "ga g' = ga g" using IH(3) ga1 by simp
    have n6: "length (?c # cs) \<le> Suc quota" "length (?c # cs) < Suc quota \<longrightarrow> gv g' = []"
      using IH(8,9) by simp_all
    show ?thesis
      by (intro exI [of _ si'] exI [of _ "(cb, fst ?gs) # out"] exI [of _ g'] exI [of _ "?c # cs"] conjI)
        (rule e IH(2) n5 same_rules_trans [OF r1 IH(4)] n1 n2 n3 n6 n4)+
  qed
qed

section \<open>The whole run\<close>

lemma periodic_sync_spec:
  assumes i: "sfe_inv si g P"
  shows "\<exists>si' out g' cs. sfe_ipv4_periodic_sync hz now j si = Some (si', out) \<and> sfe_inv si' g' P \<and> ga g' = ga g
    \<and> same_rules si si' \<and> timer_expires si' = j + (hz + 99) div 100
    \<and> map (\<lambda>(f, sis). (f, sis_key sis, sis_reason sis)) out
        = syncs_of (sync_rule_callback si) SFE_SYNC_REASON_STATS (map (\<lambda>c. c_key (connections si c)) cs)
    \<and> distinct cs \<and> set cs \<subseteq> set (ga g)
    \<and> (sync_rule_callback si \<noteq> None \<longrightarrow> length cs \<le> unat ((num_connections si + 63) div 64)
        \<and> (length cs < unat ((num_connections si + 63) div 64) \<longrightarrow> gv g' = []))"
proof (cases "sync_rule_callback si")
  case None
  have "sfe_ipv4_periodic_sync hz now j si = Some (si\<lparr>timer_expires := j + (hz + 99) div 100\<rparr>, [])"
    by (simp add: sfe_ipv4_periodic_sync_def None)
  moreover have "sfe_inv (si\<lparr>timer_expires := j + (hz + 99) div 100\<rparr>) g P"
    by (rule sfe_inv_same_shape [OF _ i]) simp
  ultimately show ?thesis
    by (intro exI [of _ "si\<lparr>timer_expires := j + (hz + 99) div 100\<rparr>"] exI [of _ "[]"] exI [of _ g])
      (simp add: None syncs_of_def same_rules_def)
next
  case (Some cb)
  let ?si = "sfe_ipv4_update_summary_stats si"
  let ?q = "unat ((num_connections si + 63) div 64)"
  have c: "connections ?si = connections si" "num_connections ?si = num_connections si" "matches ?si = matches si"
    by (simp_all add: sfe_ipv4_update_summary_stats_def)
  have "sfe_inv ?si g P" by (rule sfe_inv_same_shape [OF _ i]) simp
  from periodic_sync_loop_spec [OF this, of ?q cb now]
  obtain si' out g' cs where L: "periodic_sync_loop ?q cb now ?si = Some (si', out)" "sfe_inv si' g' P" "ga g' = ga g"
    "same_rules ?si si'" "map (\<lambda>(f, sis). (f, sis_key sis, sis_reason sis)) out
        = map (\<lambda>c. (cb, c_key (connections si c), SFE_SYNC_REASON_STATS)) cs"
    "distinct cs" "set cs \<subseteq> (\<lambda>m. cm_connection (matches si m)) ` set (gv g) \<inter> set (ga g)" "length cs \<le> ?q"
    "length cs < ?q \<longrightarrow> gv g' = []"
    unfolding c by (elim exE conjE) (rule that)
  have e: "sfe_ipv4_periodic_sync hz now j si = Some (si'\<lparr>timer_expires := j + (hz + 99) div 100\<rparr>, out)"
    by (simp add: sfe_ipv4_periodic_sync_def Some c L(1))
  have "sfe_inv (si'\<lparr>timer_expires := j + (hz + 99) div 100\<rparr>) g' P"
    by (rule sfe_inv_same_shape [OF _ L(2)]) simp
  moreover have "same_rules si (si'\<lparr>timer_expires := j + (hz + 99) div 100\<rparr>)"
    using L(4) by (simp add: same_rules_def c)
  ultimately show ?thesis
    using e L(3,5,6,8,9) IntD2 [OF subsetD [OF L(7)]]
    by (intro exI [of _ "si'\<lparr>timer_expires := j + (hz + 99) div 100\<rparr>"] exI [of _ out] exI [of _ g'] exI [of _ cs])
      (simp add: Some syncs_of_def subset_iff)
qed

text \<open>The counts a match has seen, and what a sync message says of them.\<close>

definition cm_packets :: "sfe_ipv4_connection_match \<Rightarrow> u64" where
  "cm_packets m = cm_rx_packet_count64 m + ucast (cm_rx_packet_count m)"

definition cm_bytes :: "sfe_ipv4_connection_match \<Rightarrow> u64" where
  "cm_bytes m = cm_rx_byte_count64 m + ucast (cm_rx_byte_count m)"

lemma summary_counts:
  "cm_packets (sfe_ipv4_connection_match_update_summary_stats m) = cm_packets m"
  "cm_bytes (sfe_ipv4_connection_match_update_summary_stats m) = cm_bytes m"
  "cm_rx_packet_count64 (sfe_ipv4_connection_match_update_summary_stats m) = cm_packets m"
  "cm_rx_byte_count64 (sfe_ipv4_connection_match_update_summary_stats m) = cm_bytes m"
  by (simp_all add: cm_packets_def cm_bytes_def sfe_ipv4_connection_match_update_summary_stats_def)

lemma gen_sync_counts:
  fixes si c sis reason now
  assumes "c_original_match (connections si c) \<noteq> c_reply_match (connections si c)"
  defines "r \<equiv> sfe_ipv4_gen_sync_sfe_ipv4_connection si c sis reason now"
  shows "cm_packets (matches (snd r) m) = cm_packets (matches si m)" "cm_bytes (matches (snd r) m) = cm_bytes (matches si m)"
    and "sis_src_packet_count (fst r) = cm_packets (matches si (c_original_match (connections si c)))"
    and "sis_src_byte_count (fst r) = cm_bytes (matches si (c_original_match (connections si c)))"
    and "sis_dest_packet_count (fst r) = cm_packets (matches si (c_reply_match (connections si c)))"
    and "sis_dest_byte_count (fst r) = cm_bytes (matches si (c_reply_match (connections si c)))"
  using assms(1) unfolding r_def sfe_ipv4_gen_sync_sfe_ipv4_connection_def Let_def upd_cm_def upd_c_def
  by (simp_all add: summary_counts)

end
