(* ===== verification/SFE_TCP.thy ===== *)
theory SFE_TCP
  imports SFE_Kernel SFE_Csum
begin

text \<open>
  TCP as both engines read it: the option loop that looks for SACK blocks, which the two C files hold
  word for word, its termination, and the flag words.
\<close>

section \<open>TCP options\<close>

definition TCPOPT_EOL :: u8 where "TCPOPT_EOL = 0"
definition TCPOPT_NOP :: u8 where "TCPOPT_NOP = 1"
definition TCPOPT_SACK :: u8 where "TCPOPT_SACK = 5"
definition TCPOPT_TIMESTAMP :: u8 where "TCPOPT_TIMESTAMP = 8"
definition TCPOLEN_TIMESTAMP :: u8 where "TCPOLEN_TIMESTAMP = 10"
definition TCPOLEN_SACK_PERBLOCK :: u8 where "TCPOLEN_SACK_PERBLOCK = 8"

text \<open>A big-endian 32 bit value, as the SACK loop assembles it from four bytes.\<close>

definition be32_at :: "mem \<Rightarrow> nat \<Rightarrow> u32" where
  "be32_at m p = push_bit 24 (ucast (m p)) OR push_bit 16 (ucast (m (p + 1)))
                 OR push_bit 8 (ucast (m (p + 2))) OR ucast (m (p + 3))"

text \<open>The inner loop over the blocks of a SACK option at \<open>ptr\<close>; \<open>re\<close> is a byte.\<close>

partial_function (option) sack_blocks :: "mem \<Rightarrow> nat \<Rightarrow> u8 \<Rightarrow> u8 \<Rightarrow> u32 \<Rightarrow> u32 option" where
  "sack_blocks m ptr osize re sack =
     (if re < osize
      then let sack_re = be32_at m (ptr + unat re);
               sack = (if sack_re > sack then sack_re else sack)
           in sack_blocks m ptr osize (re + TCPOLEN_SACK_PERBLOCK) sack
      else Some sack)"

text \<open>The loop over the options; the result is the return value and the updated \<open>*ack\<close>.\<close>

partial_function (option) sack_options :: "mem \<Rightarrow> nat \<Rightarrow> u32 \<Rightarrow> u32 \<Rightarrow> u32 \<Rightarrow> (bool \<times> u32) option" where
  "sack_options m th data_offs len ack =
     (if len < data_offs
      then let ptr = th + unat len; kind = m ptr
           in if kind = TCPOPT_NOP then sack_options m th data_offs (len + 1) ack
              else if kind = TCPOPT_SACK
              then let osize = m (ptr + 1)
                   in if osize < 1 + 1 + TCPOLEN_SACK_PERBLOCK
                         \<or> (osize - (1 + 1)) mod TCPOLEN_SACK_PERBLOCK \<noteq> 0
                         \<or> (ucast osize :: u32) > data_offs - len
                      then Some (False, ack)
                      else do {
                        sack \<leftarrow> sack_blocks m ptr osize (1 + 1 + 4) 0;
                        sack_options m th data_offs (len + ucast osize) (if sack > ack then sack else ack) }
              else if kind = TCPOPT_EOL then Some (True, ack)
              else let osize = m (ptr + 1)
                   in if osize < 2 then Some (False, ack)
                      else sack_options m th data_offs (len + ucast osize) ack
      else Some (True, ack))"

declare sack_blocks.simps [code] sack_options.simps [code]

lemma unat_u8_less: "unat (w :: u8) < 256"
  using unsigned_less [of w] by simp

lemma unat_ucast_u8_u32: "unat (ucast (w :: u8) :: u32) = unat w"
  by (simp add: unsigned_ucast_eq take_bit_nat_eq_self order_less_trans [OF unat_u8_less])

lemma unat_shr4: "unat (drop_bit 4 (w :: u8)) = unat w div 16"
  by (simp only: unat_drop_bit_eq) (simp add: drop_bit_eq_div)

lemma sack_blocks_returns:
  assumes "unat osize \<le> 247"
  shows "\<exists>r. sack_blocks m ptr osize re sack = Some r"
proof (induction "unat osize - unat re" arbitrary: re sack rule: less_induct)
  case less
  show ?case
  proof (cases "re < osize")
    case True
    then have l: "unat re < unat osize" by (simp add: word_less_nat_alt)
    have e: "unat (re + TCPOLEN_SACK_PERBLOCK) = unat re + 8"
      using l assms by (simp add: TCPOLEN_SACK_PERBLOCK_def unat_word_ariths)
    have "unat osize - unat (re + TCPOLEN_SACK_PERBLOCK) < unat osize - unat re"
      using l e by linarith
    note IH = less.hyps [OF this]
    show ?thesis
      by (subst sack_blocks.simps) (simp add: True Let_def IH)
  next
    case False
    then show ?thesis by (subst sack_blocks.simps) simp
  qed
qed

lemma sack_options_returns:
  assumes d: "data_offs \<le> 240"
  shows "\<exists>r. sack_options m th data_offs len ack = Some r"
proof (induction "unat data_offs - unat len" arbitrary: len ack rule: less_induct)
  case less
  have IH: "\<exists>r. sack_options m th data_offs (len + n) ack' = Some r"
    if l: "len < data_offs" and n: "0 < unat n" "unat n < 256" for n ack'
  proof -
    have "unat len < unat data_offs" "unat data_offs \<le> 240"
      using l d by (simp_all add: word_less_nat_alt word_le_nat_alt)
    moreover then have "unat (len + n) = unat len + unat n"
      using n by (intro unat_plus_u32) linarith
    ultimately have "unat data_offs - unat (len + n) < unat data_offs - unat len"
      using n by linarith
    then show ?thesis by (rule less.hyps)
  qed
  show ?case
  proof (cases "len < data_offs")
    case False
    then show ?thesis by (subst sack_options.simps) auto
  next
    case True
    let ?kind = "m (th + unat len)" and ?osize = "m (th + unat len + 1)"
    have us: "unat (ucast ?osize :: u32) = unat ?osize" "unat ?osize < 256"
      by (rule unat_ucast_u8_u32) (rule unat_u8_less)
    consider "?kind = TCPOPT_NOP" | "?kind \<noteq> TCPOPT_NOP" "?kind = TCPOPT_SACK"
      | "?kind \<noteq> TCPOPT_NOP" "?kind \<noteq> TCPOPT_SACK" by blast
    then show ?thesis
    proof cases
      case 1
      with IH [OF True, of 1 ack] show ?thesis by (subst sack_options.simps) (simp add: True Let_def)
    next
      case 2
      show ?thesis
      proof (cases "?osize < 1 + 1 + TCPOLEN_SACK_PERBLOCK \<or> (?osize - (1 + 1)) mod TCPOLEN_SACK_PERBLOCK \<noteq> 0
           \<or> (ucast ?osize :: u32) > data_offs - len")
        case bad: True
        with 2 show ?thesis by (subst sack_options.simps) (auto simp: True Let_def)
      next
        case good: False
        have "\<not> (ucast ?osize :: u32) > data_offs - len" using good by blast
        then have "unat ?osize \<le> unat (data_offs - len)" using us by (simp add: word_le_nat_alt not_less)
        moreover have "unat (data_offs - len) \<le> 240"
          using True d by (simp add: unat_sub word_le_nat_alt word_less_nat_alt)
        ultimately have "unat ?osize \<le> 247" by linarith
        then obtain s where s: "sack_blocks m (th + unat len) ?osize (1 + 1 + 4) 0 = Some s"
          using sack_blocks_returns by blast
        have "0 < unat ?osize" using good by (auto simp: TCPOLEN_SACK_PERBLOCK_def word_less_nat_alt)
        with IH [OF True, of "ucast ?osize" "if s > ack then s else ack"] us good 2 s
        show ?thesis by (subst sack_options.simps) (auto simp: True Let_def)
      qed
    next
      case 3
      show ?thesis
      proof (cases "?kind = TCPOPT_EOL \<or> ?osize < 2")
        case True
        with 3 \<open>len < data_offs\<close> show ?thesis by (subst sack_options.simps) (auto simp: Let_def)
      next
        case False
        then have "0 < unat ?osize" by (auto simp: word_less_nat_alt)
        with IH [OF True, of "ucast ?osize" ack] us False 3 show ?thesis
          by (subst sack_options.simps) (auto simp: True Let_def)
      qed
    qed
  qed
qed

lemma doff_bound: "push_bit 2 (ucast (drop_bit 4 (b :: u8))) \<le> (240 :: u32)"
proof -
  have "unat (drop_bit 4 b) < 16"
    unfolding unat_shr4 by (rule less_mult_imp_div_less) (use unat_u8_less [of b] in simp)
  then have "unat (ucast (drop_bit 4 b) :: u32) < 16" by (simp only: unat_ucast_u8_u32)
  moreover have "unat (push_bit 2 w) = unat w * 4" if "unat w < 16" for w :: u32
    using that by (simp add: push_bit_eq_mult unat_word_ariths)
  ultimately have "unat (push_bit 2 (ucast (drop_bit 4 b)) :: u32) < 64" by simp
  then show ?thesis by (simp add: word_le_nat_alt)
qed

section \<open>TCP flags\<close>

text \<open>The flag word is compared as loaded, with the masks in network byte order.\<close>

definition TCP_FLAG_ACK :: be32 where "TCP_FLAG_ACK = ntohl 0x00100000"
definition TCP_FLAG_RST :: be32 where "TCP_FLAG_RST = ntohl 0x00040000"
definition TCP_FLAG_SYN :: be32 where "TCP_FLAG_SYN = ntohl 0x00020000"
definition TCP_FLAG_FIN :: be32 where "TCP_FLAG_FIN = ntohl 0x00010000"
definition fast_flags :: "be32 \<Rightarrow> bool" where
  "fast_flags flags \<longleftrightarrow> flags AND (TCP_FLAG_SYN OR TCP_FLAG_RST OR TCP_FLAG_FIN OR TCP_FLAG_ACK) = TCP_FLAG_ACK"

end
