(* ===== verification/SFE_IPv4_Recv.thy ===== *)
theory SFE_IPv4_Recv
  imports SFE_IPv4_Rules SFE_TCP
begin

text \<open>
  The data path of the IPv4 engine: \<open>sfe_ipv4_recv\<close> and the UDP, TCP and ICMP handlers. A packet
  starts at offset 0 of the buffer memory, its transport header at \<open>ihl\<close>. The kernel services the
  handlers use are fields of a record of parameters.
\<close>

text \<open>
  What a handler leaves behind: its return value, the engine, the buffer, the buffers given to
  \<open>dev_queue_xmit\<close> and the sync callbacks made.
\<close>

record recv_result =
  r_ret :: nat
  r_si :: sfe_ipv4
  r_skb :: sk_buff
  r_xmit :: "sk_buff list"
  r_sync :: syncs

section \<open>Header fields\<close>

text \<open>Offsets in \<open>struct sfe_ipv4_ip_hdr\<close> and the transport headers, and sizes of the headers.\<close>

definition IPH_LEN :: u32 where "IPH_LEN = 20"
definition ETH_P_IP :: u16 where "ETH_P_IP = 0x0800"

definition ip_version :: "mem \<Rightarrow> nat \<Rightarrow> u8" where "ip_version m o' = drop_bit 4 (m o')"
definition ip_ihl :: "mem \<Rightarrow> nat \<Rightarrow> u32" where "ip_ihl m o' = ucast (m o' AND 0xf)"
definition ip_tos :: nat where "ip_tos = 1"
definition ip_tot_len :: nat where "ip_tot_len = 2"
definition ip_frag_off :: nat where "ip_frag_off = 6"
definition ip_ttl :: nat where "ip_ttl = 8"
definition ip_protocol :: nat where "ip_protocol = 9"
definition ip_check :: nat where "ip_check = 10"
definition ip_saddr :: nat where "ip_saddr = 12"
definition ip_daddr :: nat where "ip_daddr = 16"
lemmas hdr_defs = ip_tos_def ip_tot_len_def ip_frag_off_def ip_ttl_def ip_protocol_def ip_check_def
  ip_saddr_def ip_daddr_def th_source_def th_dest_def udp_check_def tcp_seq_def tcp_ack_seq_def
  tcp_flag_offs_def tcp_window_def tcp_check_def

section \<open>Dropping and flushing\<close>

definition exception :: "sfe_ipv4_exception_events \<Rightarrow> sfe_ipv4 \<Rightarrow> sfe_ipv4" where
  "exception e si = si\<lparr>exception_events := (exception_events si)(e := exception_events si e + 1),
                       packets_not_forwarded := packets_not_forwarded si + 1\<rparr>"

text \<open>Count the exception and leave the packet to the slow path.\<close>

definition not_forwarded :: "sfe_ipv4_exception_events \<Rightarrow> sfe_ipv4 \<Rightarrow> sk_buff \<Rightarrow> recv_result" where
  "not_forwarded e si skb = \<lparr>r_ret = 0, r_si = exception e si, r_skb = skb, r_xmit = [], r_sync = []\<rparr>"

text \<open>The same, after taking the connection of \<open>cm\<close> out of the tables, and then flush it.\<close>

definition flush_not_forwarded ::
  "kernel \<Rightarrow> sfe_ipv4_exception_events \<Rightarrow> ptr \<Rightarrow> sfe_ipv4 \<Rightarrow> sk_buff \<Rightarrow> recv_result" where
  "flush_not_forwarded k e cm si skb =
     (let c = cm_connection (matches si cm);
          si = sfe_ipv4_remove_sfe_ipv4_connection si c;
          si = exception e si;
          (si, out) = sfe_ipv4_flush_sfe_ipv4_connection (k_jiffies k) si c SFE_SYNC_REASON_FLUSH
      in \<lparr>r_ret = 0, r_si = si, r_skb = skb, r_xmit = [], r_sync = out\<rparr>)"

section \<open>Forwarding\<close>

definition SFE_IPV4_DSCP_MASK :: u32 where "SFE_IPV4_DSCP_MASK = 3"

definition remark_dscp :: "sfe_ipv4_connection_match \<Rightarrow> mem \<Rightarrow> mem" where
  "remark_dscp cm m =
     (if has_flag (cm_flags cm) SFE_IPV4_CONNECTION_MATCH_FLAG_DSCP_REMARK
      then st8 m ip_tos (ucast ((ucast (m ip_tos) AND SFE_IPV4_DSCP_MASK) OR cm_dscp cm))
      else m)"

text \<open>The translations of \<open>sfe_ipv4_recv_udp\<close>: a zero checksum stays as it is.\<close>

definition udp_xlate_src :: "bool \<Rightarrow> nat \<Rightarrow> sfe_ipv4_connection_match \<Rightarrow> mem \<Rightarrow> mem" where
  "udp_xlate_src partial ihl cm m =
     (if has_flag (cm_flags cm) SFE_IPV4_CONNECTION_MATCH_FLAG_XLATE_SRC
      then let m = st32 m ip_saddr (cm_xlate_src_ip cm);
               m = st16 m (ihl + th_source) (cm_xlate_src_port cm);
               udp_csum = ld16 m (ihl + udp_check)
           in if udp_csum \<noteq> 0
              then st16 m (ihl + udp_check)
                     (csum_update udp_csum (if partial then cm_xlate_src_partial_csum_adjustment cm
                                            else cm_xlate_src_csum_adjustment cm))
              else m
      else m)"

definition udp_xlate_dest :: "bool \<Rightarrow> nat \<Rightarrow> sfe_ipv4_connection_match \<Rightarrow> mem \<Rightarrow> mem" where
  "udp_xlate_dest partial ihl cm m =
     (if has_flag (cm_flags cm) SFE_IPV4_CONNECTION_MATCH_FLAG_XLATE_DEST
      then let m = st32 m ip_daddr (cm_xlate_dest_ip cm);
               m = st16 m (ihl + th_dest) (cm_xlate_dest_port cm);
               udp_csum = ld16 m (ihl + udp_check)
           in if udp_csum \<noteq> 0
              then st16 m (ihl + udp_check)
                     (csum_update udp_csum (if partial then cm_xlate_dest_partial_csum_adjustment cm
                                            else cm_xlate_dest_csum_adjustment cm))
              else m
      else m)"

definition tcp_xlate_src :: "bool \<Rightarrow> nat \<Rightarrow> sfe_ipv4_connection_match \<Rightarrow> mem \<Rightarrow> mem" where
  "tcp_xlate_src partial ihl cm m =
     (if has_flag (cm_flags cm) SFE_IPV4_CONNECTION_MATCH_FLAG_XLATE_SRC
      then let m = st32 m ip_saddr (cm_xlate_src_ip cm);
               m = st16 m (ihl + th_source) (cm_xlate_src_port cm);
               tcp_csum = ld16 m (ihl + tcp_check)
           in st16 m (ihl + tcp_check)
                (csum_update tcp_csum (if partial then cm_xlate_src_partial_csum_adjustment cm
                                       else cm_xlate_src_csum_adjustment cm))
      else m)"

definition tcp_xlate_dest :: "bool \<Rightarrow> nat \<Rightarrow> sfe_ipv4_connection_match \<Rightarrow> mem \<Rightarrow> mem" where
  "tcp_xlate_dest partial ihl cm m =
     (if has_flag (cm_flags cm) SFE_IPV4_CONNECTION_MATCH_FLAG_XLATE_DEST
      then let m = st32 m ip_daddr (cm_xlate_dest_ip cm);
               m = st16 m (ihl + th_dest) (cm_xlate_dest_port cm);
               tcp_csum = ld16 m (ihl + tcp_check)
           in st16 m (ihl + tcp_check)
                (csum_update tcp_csum (if partial then cm_xlate_dest_partial_csum_adjustment cm
                                       else cm_xlate_dest_csum_adjustment cm))
      else m)"

text \<open>\<open>iph->check = sfe_ipv4_gen_ip_csum(iph)\<close>.\<close>

definition replace_ip_csum :: "mem \<Rightarrow> mem" where
  "replace_ip_csum m = (let (csum, m) = sfe_ipv4_gen_ip_csum m 0 in st16 m ip_check csum)"

text \<open>Entering the active list at its tail.\<close>

definition mark_active :: "ptr \<Rightarrow> sfe_ipv4 \<Rightarrow> sfe_ipv4" where
  "mark_active cm si =
     (if cm_active (matches si cm) then si
      else let si = upd_cm cm (\<lambda>m. m\<lparr>cm_active := True\<rparr>) si;
               si = upd_cm cm (\<lambda>m. m\<lparr>cm_active_prev := active_tail si\<rparr>) si;
               si = (case active_tail si of
                       Some t \<Rightarrow> upd_cm t (\<lambda>m. m\<lparr>cm_active_next := Some cm\<rparr>) si
                     | None \<Rightarrow> si\<lparr>active_head := Some cm\<rparr>)
           in si\<lparr>active_tail := Some cm\<rparr>)"

text \<open>The layer 2 header: none, the fast Ethernet one, or whatever the device writes.\<close>

definition write_eth_hdr :: "sfe_ipv4_connection_match \<Rightarrow> mem \<Rightarrow> mem" where
  "write_eth_hdr cm m =
     (let m = skb_push m ETH_HLEN;
          m = st16 m 12 (ntohs ETH_P_IP);
          m = st16 m 0 (ld16 (cm_xmit_dest_mac cm) 0);
          m = st16 m 2 (ld16 (cm_xmit_dest_mac cm) 2);
          m = st16 m 4 (ld16 (cm_xmit_dest_mac cm) 4);
          m = st16 m 6 (ld16 (cm_xmit_src_mac cm) 0);
          m = st16 m 8 (ld16 (cm_xmit_src_mac cm) 2)
      in st16 m 10 (ld16 (cm_xmit_src_mac cm) 4))"

definition write_l2_hdr :: "kernel \<Rightarrow> sfe_ipv4_connection_match \<Rightarrow> u32 \<Rightarrow> sk_buff \<Rightarrow> sk_buff" where
  "write_l2_hdr k cm len skb =
     (if has_flag (cm_flags cm) SFE_IPV4_CONNECTION_MATCH_FLAG_WRITE_L2_HDR
      then if \<not> has_flag (cm_flags cm) SFE_IPV4_CONNECTION_MATCH_FLAG_WRITE_FAST_ETH_HDR
           then k_hard_header k skb (cm_xmit_dev cm) ETH_P_IP (cm_xmit_dest_mac cm) (cm_xmit_src_mac cm) len
           else skb\<lparr>skb_mem := write_eth_hdr cm (skb_mem skb), skb_len := skb_len skb + of_nat ETH_HLEN\<rparr>
      else skb)"

text \<open>From the IP checksum to \<open>dev_queue_xmit\<close>, the same in both handlers.\<close>

definition forward_tail :: "kernel \<Rightarrow> u32 \<Rightarrow> ptr \<Rightarrow> sfe_ipv4 \<Rightarrow> sk_buff \<Rightarrow> recv_result" where
  "forward_tail k len cm si skb =
     (let skb = skb\<lparr>skb_mem := replace_ip_csum (skb_mem skb)\<rparr>;
          si = upd_cm cm (\<lambda>m. m\<lparr>cm_rx_packet_count := cm_rx_packet_count m + 1\<rparr>) si;
          si = upd_cm cm (\<lambda>m. m\<lparr>cm_rx_byte_count := cm_rx_byte_count m + len\<rparr>) si;
          si = mark_active cm si;
          cmv = matches si cm;
          skb = skb\<lparr>skb_dev := cm_xmit_dev cmv\<rparr>;
          skb = write_l2_hdr k cmv len skb;
          skb = (if has_flag (cm_flags cmv) SFE_IPV4_CONNECTION_MATCH_FLAG_PRIORITY_REMARK
                 then skb\<lparr>skb_priority := cm_priority cmv\<rparr> else skb);
          skb = skb\<lparr>skb_mark := c_mark (connections si (cm_connection cmv))\<rparr>;
          si = si\<lparr>packets_forwarded := packets_forwarded si + 1\<rparr>
      in \<lparr>r_ret = 1, r_si = si, r_skb = skb, r_xmit = [skb], r_sync = []\<rparr>)"

definition udp_forward :: "kernel \<Rightarrow> u32 \<Rightarrow> nat \<Rightarrow> ptr \<Rightarrow> u8 \<Rightarrow> sfe_ipv4 \<Rightarrow> sk_buff \<Rightarrow> recv_result" where
  "udp_forward k len ihl cm ttl si skb =
     (let cmv = matches si cm;
          m = remark_dscp cmv (skb_mem skb);
          m = st8 m ip_ttl (ttl - 1);
          m = udp_xlate_src (skb_ip_summed_partial skb) ihl cmv m;
          m = udp_xlate_dest (skb_ip_summed_partial skb) ihl cmv m
      in forward_tail k len cm si (skb\<lparr>skb_mem := m\<rparr>))"

definition tcp_forward :: "kernel \<Rightarrow> u32 \<Rightarrow> nat \<Rightarrow> ptr \<Rightarrow> u8 \<Rightarrow> sfe_ipv4 \<Rightarrow> sk_buff \<Rightarrow> recv_result" where
  "tcp_forward k len ihl cm ttl si skb =
     (let cmv = matches si cm;
          m = remark_dscp cmv (skb_mem skb);
          m = st8 m ip_ttl (ttl - 1);
          m = tcp_xlate_src (skb_ip_summed_partial skb) ihl cmv m;
          m = tcp_xlate_dest (skb_ip_summed_partial skb) ihl cmv m
      in forward_tail k len cm si (skb\<lparr>skb_mem := m\<rparr>))"

section \<open>UDP\<close>

definition sfe_ipv4_recv_udp ::
  "kernel \<Rightarrow> sfe_ipv4 \<Rightarrow> sk_buff \<Rightarrow> dev_ptr \<Rightarrow> u32 \<Rightarrow> u32 \<Rightarrow> bool \<Rightarrow> recv_result option" where
  "sfe_ipv4_recv_udp k si skb dev len ihl flush_on_find =
     (if \<not> k_may_pull k skb (UDPH_LEN + ihl) then Some (not_forwarded UDP_HEADER_INCOMPLETE si skb)
      else let m = skb_mem skb;
               src_ip = ld32 m ip_saddr;
               dest_ip = ld32 m ip_daddr;
               src_port = ld16 m (unat ihl + th_source);
               dest_port = ld16 m (unat ihl + th_dest)
      in do {
        (r, si) \<leftarrow> sfe_ipv4_find_sfe_ipv4_connection_match si dev IPPROTO_UDP src_ip src_port dest_ip dest_port;
        case r of
          None \<Rightarrow> Some (not_forwarded UDP_NO_CONNECTION si skb)
        | Some cm \<Rightarrow> Some (
            if flush_on_find then flush_not_forwarded k UDP_IP_OPTIONS_OR_INITIAL_FRAGMENT cm si skb
            else if cm_flow_accel (matches si cm) = 0
            then \<lparr>r_ret = 0, r_si = si\<lparr>packets_not_forwarded := packets_not_forwarded si + 1\<rparr>,
                  r_skb = skb, r_xmit = [], r_sync = []\<rparr>
            else let ttl = m ip_ttl
                 in if ttl < 2 then flush_not_forwarded k UDP_SMALL_TTL cm si skb
                    else if len > ucast (cm_xmit_dev_mtu (matches si cm))
                    then flush_not_forwarded k UDP_NEEDS_FRAGMENTATION cm si skb
                    else udp_forward k len (unat ihl) cm ttl si skb) })"

section \<open>TCP options\<close>

definition sfe_ipv4_process_tcp_option_sack :: "mem \<Rightarrow> nat \<Rightarrow> u32 \<Rightarrow> u32 \<Rightarrow> (bool \<times> u32) option" where
  "sfe_ipv4_process_tcp_option_sack m th data_offs ack =
     (let ptr = th + unat TCPH_LEN
      in if data_offs = TCPH_LEN + ucast TCPOLEN_TIMESTAMP + 1 + 1 \<and> m ptr = TCPOPT_NOP \<and> m (ptr + 1) = TCPOPT_NOP
            \<and> m (ptr + 2) = TCPOPT_TIMESTAMP \<and> m (ptr + 3) = TCPOLEN_TIMESTAMP
         then Some (True, ack)
         else sack_options m th data_offs TCPH_LEN ack)"

section \<open>TCP\<close>

definition SFE_IPV4_TCP_MAX_ACK_WINDOW :: u32 where "SFE_IPV4_TCP_MAX_ACK_WINDOW = 65520"

text \<open>
  The sequence number checks: the exception the packet raises, or the three numbers the window
  update needs (\<open>end\<close>, \<open>ack\<close> and \<open>sack\<close>).
\<close>

definition tcp_seq_check ::
  "mem \<Rightarrow> nat \<Rightarrow> u32 \<Rightarrow> sfe_ipv4_tcp_connection_match \<Rightarrow> sfe_ipv4_tcp_connection_match \<Rightarrow>
   (sfe_ipv4_exception_events + (u32 \<times> u32 \<times> u32)) option" where
  "tcp_seq_check m th len tcp counter_tcp =
     (let seq = ntohl (ld32 m (th + tcp_seq))
      in if s32 (seq - (tcp_max_end tcp + 1)) > 0 then Some (Inl TCP_SEQ_EXCEEDS_RIGHT_EDGE)
      else let data_offs = push_bit 2 (ucast (drop_bit 4 (m (th + tcp_flag_offs)))) :: u32
      in if data_offs < TCPH_LEN then Some (Inl TCP_SMALL_DATA_OFFS)
      else let ack = ntohl (ld32 m (th + tcp_ack_seq))
      in do {
        (ok, sack) \<leftarrow> sfe_ipv4_process_tcp_option_sack m th data_offs ack;
        if \<not> ok then Some (Inl TCP_BAD_SACK)
        else let data_offs = data_offs + IPH_LEN
        in if len < data_offs then Some (Inl TCP_BIG_DATA_OFFS)
        else let end' = seq + len - data_offs
        in if s32 (end' - (tcp_end tcp - tcp_max_win counter_tcp - 1)) < 0 then Some (Inl TCP_SEQ_BEFORE_LEFT_EDGE)
        else if s32 (sack - (tcp_end counter_tcp + 1)) > 0 then Some (Inl TCP_ACK_EXCEEDS_RIGHT_EDGE)
        else let left_edge = tcp_end counter_tcp - tcp_max_win tcp - SFE_IPV4_TCP_MAX_ACK_WINDOW - 1
        in if s32 (sack - left_edge) < 0 then Some (Inl TCP_ACK_BEFORE_LEFT_EDGE)
        else Some (Inr (end', ack, sack)) })"

text \<open>The window update. A shift count of 32 or more is undefined in C; it gives 0 here.\<close>

definition tcp_window_update :: "mem \<Rightarrow> nat \<Rightarrow> ptr \<Rightarrow> ptr \<Rightarrow> u32 \<Rightarrow> u32 \<Rightarrow> u32 \<Rightarrow> sfe_ipv4 \<Rightarrow> sfe_ipv4" where
  "tcp_window_update m th cm counter_cm end' ack sack si =
     (let scaled_win = push_bit (unat (tcp_win_scale (cm_tcp (matches si cm)))) (ucast (ntohs (ld16 m (th + tcp_window)))) :: u32;
          scaled_win = scaled_win + (sack - ack);
          si = (if tcp_max_win (cm_tcp (matches si cm)) < scaled_win
                then upd_cm cm (\<lambda>x. x\<lparr>cm_tcp := (cm_tcp x)\<lparr>tcp_max_win := scaled_win\<rparr>\<rparr>) si else si);
          si = (if s32 (end' - tcp_end (cm_tcp (matches si cm))) \<ge> 0
                then upd_cm cm (\<lambda>x. x\<lparr>cm_tcp := (cm_tcp x)\<lparr>tcp_end := end'\<rparr>\<rparr>) si else si);
          max_end = sack + scaled_win
      in if s32 (max_end - tcp_max_end (cm_tcp (matches si counter_cm))) \<ge> 0
         then upd_cm counter_cm (\<lambda>x. x\<lparr>cm_tcp := (cm_tcp x)\<lparr>tcp_max_end := max_end\<rparr>\<rparr>) si else si)"

text \<open>From the flag test on, for a packet of a known flow that may be forwarded.\<close>

definition recv_tcp_checked ::
  "kernel \<Rightarrow> sfe_ipv4 \<Rightarrow> sk_buff \<Rightarrow> u32 \<Rightarrow> u32 \<Rightarrow> ptr \<Rightarrow> u8 \<Rightarrow> recv_result option" where
  "recv_tcp_checked k si skb len ihl cm ttl =
     (let counter_cm = cm_counter_match (matches si cm); m = skb_mem skb
      in if has_flag (cm_flags (matches si cm)) SFE_IPV4_CONNECTION_MATCH_FLAG_NO_SEQ_CHECK
         then Some (tcp_forward k len (unat ihl) cm ttl si skb)
         else do {
           v \<leftarrow> tcp_seq_check m (unat ihl) len (cm_tcp (matches si cm)) (cm_tcp (matches si counter_cm));
           case v of
             Inl e \<Rightarrow> Some (flush_not_forwarded k e cm si skb)
           | Inr (end', ack, sack) \<Rightarrow>
               let si = tcp_window_update m (unat ihl) cm counter_cm end' ack sack si
               in Some (tcp_forward k len (unat ihl) cm ttl si skb) })"

definition sfe_ipv4_recv_tcp ::
  "kernel \<Rightarrow> sfe_ipv4 \<Rightarrow> sk_buff \<Rightarrow> dev_ptr \<Rightarrow> u32 \<Rightarrow> u32 \<Rightarrow> bool \<Rightarrow> recv_result option" where
  "sfe_ipv4_recv_tcp k si skb dev len ihl flush_on_find =
     (if \<not> k_may_pull k skb (TCPH_LEN + ihl) then Some (not_forwarded TCP_HEADER_INCOMPLETE si skb)
      else let m = skb_mem skb;
               src_ip = ld32 m ip_saddr;
               dest_ip = ld32 m ip_daddr;
               src_port = ld16 m (unat ihl + th_source);
               dest_port = ld16 m (unat ihl + th_dest);
               flags = ld32 m (unat ihl + tcp_flag_offs)
      in do {
        (r, si) \<leftarrow> sfe_ipv4_find_sfe_ipv4_connection_match si dev IPPROTO_TCP src_ip src_port dest_ip dest_port;
        case r of
          None \<Rightarrow> Some (not_forwarded (if fast_flags flags then TCP_NO_CONNECTION_FAST_FLAGS
                                       else TCP_NO_CONNECTION_SLOW_FLAGS) si skb)
        | Some cm \<Rightarrow>
            if flush_on_find then Some (flush_not_forwarded k TCP_IP_OPTIONS_OR_INITIAL_FRAGMENT cm si skb)
            else if cm_flow_accel (matches si cm) = 0
            then Some \<lparr>r_ret = 0, r_si = si\<lparr>packets_not_forwarded := packets_not_forwarded si + 1\<rparr>,
                       r_skb = skb, r_xmit = [], r_sync = []\<rparr>
            else let ttl = m ip_ttl
                 in if ttl < 2 then Some (flush_not_forwarded k TCP_SMALL_TTL cm si skb)
                    else if len > ucast (cm_xmit_dev_mtu (matches si cm)) \<and> \<not> skb_is_gso skb
                    then Some (flush_not_forwarded k TCP_NEEDS_FRAGMENTATION cm si skb)
                    else if \<not> fast_flags flags then Some (flush_not_forwarded k TCP_FLAGS cm si skb)
                    else recv_tcp_checked k si skb len ihl cm ttl })"

section \<open>ICMP\<close>

definition ICMP_DEST_UNREACH :: u8 where "ICMP_DEST_UNREACH = 3"
definition ICMP_TIME_EXCEEDED :: u8 where "ICMP_TIME_EXCEEDED = 11"

definition sfe_ipv4_recv_icmp ::
  "kernel \<Rightarrow> sfe_ipv4 \<Rightarrow> sk_buff \<Rightarrow> dev_ptr \<Rightarrow> u32 \<Rightarrow> u32 \<Rightarrow> recv_result option" where
  "sfe_ipv4_recv_icmp k si skb dev len ihl =
     (let pull_len = ICMPH_LEN + ihl; m = skb_mem skb; icmph = unat ihl
      in if \<not> k_may_pull k skb pull_len then Some (not_forwarded ICMP_HEADER_INCOMPLETE si skb)
      else if m icmph \<noteq> ICMP_DEST_UNREACH \<and> m icmph \<noteq> ICMP_TIME_EXCEEDED
      then Some (not_forwarded ICMP_UNHANDLED_TYPE si skb)
      else let pull_len = pull_len + IPH_LEN
      in if \<not> k_may_pull k skb pull_len then Some (not_forwarded ICMP_IPV4_HEADER_INCOMPLETE si skb)
      else let icmp_iph = icmph + unat ICMPH_LEN
      in if ip_version m icmp_iph \<noteq> 4 then Some (not_forwarded ICMP_IPV4_NON_V4 si skb)
      else let icmp_ihl_words = ip_ihl m icmp_iph;
               icmp_ihl = push_bit 2 icmp_ihl_words;
               pull_len = pull_len + (icmp_ihl - IPH_LEN)
      in if \<not> k_may_pull k skb pull_len then Some (not_forwarded ICMP_IPV4_IP_OPTIONS_INCOMPLETE si skb)
      else let icmp_trans_h = icmp_iph + 4 * unat icmp_ihl_words;
               protocol = m (icmp_iph + ip_protocol)
      in if protocol \<noteq> IPPROTO_UDP \<and> protocol \<noteq> IPPROTO_TCP
      then Some (not_forwarded ICMP_IPV4_UNHANDLED_PROTOCOL si skb)
      else if \<not> k_may_pull k skb (pull_len + 8)
      then Some (not_forwarded (if protocol = IPPROTO_UDP then ICMP_IPV4_UDP_HEADER_INCOMPLETE
                                else ICMP_IPV4_TCP_HEADER_INCOMPLETE) si skb)
      else let src_port = ld16 m (icmp_trans_h + th_source);
               dest_port = ld16 m (icmp_trans_h + th_dest);
               src_ip = ld32 m (icmp_iph + ip_saddr);
               dest_ip = ld32 m (icmp_iph + ip_daddr)
      in do {
        (r, si) \<leftarrow> sfe_ipv4_find_sfe_ipv4_connection_match si dev protocol dest_ip dest_port src_ip src_port;
        case r of
          None \<Rightarrow> Some (not_forwarded ICMP_NO_CONNECTION si skb)
        | Some cm \<Rightarrow> Some (flush_not_forwarded k ICMP_FLUSHED_CONNECTION cm si skb) })"

section \<open>The entry point\<close>

definition IP_MF :: u32 where "IP_MF = 0x2000"
definition IP_OFFSET :: u32 where "IP_OFFSET = 0x1FFF"

definition sfe_ipv4_recv :: "kernel \<Rightarrow> dev_ptr \<Rightarrow> sfe_ipv4 \<Rightarrow> sk_buff \<Rightarrow> recv_result option" where
  "sfe_ipv4_recv k dev si skb =
     (let len = skb_len skb; m = skb_mem skb
      in if \<not> k_may_pull k skb IPH_LEN then Some (not_forwarded HEADER_INCOMPLETE si skb)
      else let tot_len = ucast (ntohs (ld16 m ip_tot_len)) :: u32
      in if tot_len < IPH_LEN then Some (not_forwarded BAD_TOTAL_LENGTH si skb)
      else if ip_version m 0 \<noteq> 4 then Some (not_forwarded NON_V4 si skb)
      else if tot_len > len then Some (not_forwarded DATAGRAM_INCOMPLETE si skb)
      else let frag_off = ucast (ntohs (ld16 m ip_frag_off)) :: u32
      in if frag_off AND IP_OFFSET \<noteq> 0 then Some (not_forwarded NON_INITIAL_FRAGMENT si skb)
      else let flush_on_find = (frag_off AND IP_MF \<noteq> 0);
               ihl = push_bit 2 (ip_ihl m 0);
               ip_options = (ihl \<noteq> IPH_LEN)
      in if ip_options \<and> len < ihl then Some (not_forwarded IP_OPTIONS_INCOMPLETE si skb)
      else let flush_on_find = (flush_on_find \<or> ip_options);
               protocol = m ip_protocol
      in if protocol = IPPROTO_UDP then sfe_ipv4_recv_udp k si skb dev len ihl flush_on_find
      else if protocol = IPPROTO_TCP then sfe_ipv4_recv_tcp k si skb dev len ihl flush_on_find
      else if protocol = IPPROTO_ICMP then sfe_ipv4_recv_icmp k si skb dev len ihl
      else Some (not_forwarded UNHANDLED_PROTOCOL si skb))"

end
