(* ===== verification/SFE_IPv4_Forward.thy ===== *)
theory SFE_IPv4_Forward
  imports SFE_IPv4_Recv
begin

text \<open>
  What forwarding does to the bytes of a packet with a 20 byte header: the rewritten fields, the
  valid header checksum, the transport checksum that stays valid under translation, and the
  Ethernet header in front.
\<close>

section \<open>Flows with correct adjustments\<close>

definition adj_ok :: "sfe_ipv4_connection_match \<Rightarrow> bool" where
  "adj_ok cm \<longleftrightarrow>
     (has_flag (cm_flags cm) SFE_IPV4_CONNECTION_MATCH_FLAG_XLATE_SRC \<longrightarrow>
        cm_xlate_src_csum_adjustment cm = csum_adjustment (cm_match_src_ip cm) (cm_match_src_port cm)
          (cm_xlate_src_ip cm) (cm_xlate_src_port cm)
        \<and> cm_xlate_src_partial_csum_adjustment cm = partial_csum_adjustment (cm_match_src_ip cm) (cm_xlate_src_ip cm))
     \<and> (has_flag (cm_flags cm) SFE_IPV4_CONNECTION_MATCH_FLAG_XLATE_DEST \<longrightarrow>
        cm_xlate_dest_csum_adjustment cm = csum_adjustment (cm_match_dest_ip cm) (cm_match_dest_port cm)
          (cm_xlate_dest_ip cm) (cm_xlate_dest_port cm)
        \<and> cm_xlate_dest_partial_csum_adjustment cm = partial_csum_adjustment (cm_match_dest_ip cm) (cm_xlate_dest_ip cm))"

lemma adj_ok_compute: "adj_ok (sfe_ipv4_connection_match_compute_translations cm)"
  by (simp add: adj_ok_def compute_translations_eq Let_def)

text \<open>The addresses and ports a packet of a flow carries before and after.\<close>

definition matches_flow :: "sfe_ipv4_connection_match \<Rightarrow> nat \<Rightarrow> mem \<Rightarrow> bool" where
  "matches_flow cm ihl m \<longleftrightarrow> cm_match_src_ip cm = ld32 m ip_saddr \<and> cm_match_dest_ip cm = ld32 m ip_daddr
     \<and> cm_match_src_port cm = ld16 m (ihl + th_source) \<and> cm_match_dest_port cm = ld16 m (ihl + th_dest)"

definition out_src_ip :: "sfe_ipv4_connection_match \<Rightarrow> be32" where
  "out_src_ip cm = (if has_flag (cm_flags cm) SFE_IPV4_CONNECTION_MATCH_FLAG_XLATE_SRC
     then cm_xlate_src_ip cm else cm_match_src_ip cm)"

definition out_dest_ip :: "sfe_ipv4_connection_match \<Rightarrow> be32" where
  "out_dest_ip cm = (if has_flag (cm_flags cm) SFE_IPV4_CONNECTION_MATCH_FLAG_XLATE_DEST
     then cm_xlate_dest_ip cm else cm_match_dest_ip cm)"

definition out_src_port :: "sfe_ipv4_connection_match \<Rightarrow> be16" where
  "out_src_port cm = (if has_flag (cm_flags cm) SFE_IPV4_CONNECTION_MATCH_FLAG_XLATE_SRC
     then cm_xlate_src_port cm else cm_match_src_port cm)"

definition out_dest_port :: "sfe_ipv4_connection_match \<Rightarrow> be16" where
  "out_dest_port cm = (if has_flag (cm_flags cm) SFE_IPV4_CONNECTION_MATCH_FLAG_XLATE_DEST
     then cm_xlate_dest_port cm else cm_match_dest_port cm)"

section \<open>The rewritten packet\<close>

definition udp_rewrite :: "bool \<Rightarrow> sfe_ipv4_connection_match \<Rightarrow> u8 \<Rightarrow> mem \<Rightarrow> mem" where
  "udp_rewrite partial cm ttl m = replace_ip_csum (udp_xlate_dest partial 20 cm (udp_xlate_src partial 20 cm
     (st8 (remark_dscp cm m) ip_ttl (ttl - 1))))"

definition tcp_rewrite :: "bool \<Rightarrow> sfe_ipv4_connection_match \<Rightarrow> u8 \<Rightarrow> mem \<Rightarrow> mem" where
  "tcp_rewrite partial cm ttl m = replace_ip_csum (tcp_xlate_dest partial 20 cm (tcp_xlate_src partial 20 cm
     (st8 (remark_dscp cm m) ip_ttl (ttl - 1))))"

lemma replace_ip_csum_eq:
  "replace_ip_csum m = st16 m 10 (fst (sfe_ipv4_gen_ip_csum m 0))"
proof -
  have "snd (sfe_ipv4_gen_ip_csum m 0) = st16 m 10 0" using gen_ip_csum_mem [of m 0] by simp
  then show ?thesis
    unfolding replace_ip_csum_def by (simp add: split_beta ip_check_def st16_st16)
qed

lemma replace_ip_csum_other [simp]:
  "j < 10 \<or> 11 < j \<Longrightarrow> replace_ip_csum m j = m j"
  "j < 9 \<or> 11 < j \<Longrightarrow> ld16 (replace_ip_csum m) j = ld16 m j"
  "j < 7 \<or> 11 < j \<Longrightarrow> ld32 (replace_ip_csum m) j = ld32 m j"
  unfolding replace_ip_csum_eq by auto

lemma replace_ip_csum_valid:
  "csum_eq (ip_header_sum (replace_ip_csum m) 0) 0" "0 < ip_header_sum (replace_ip_csum m) 0"
  using gen_ip_csum_valid [of m 0] by (simp_all add: replace_ip_csum_def split_beta ip_check_def)

lemma rewrite_ip_valid:
  "csum_eq (ip_header_sum (udp_rewrite partial cm ttl m) 0) 0" "0 < ip_header_sum (udp_rewrite partial cm ttl m) 0"
  "csum_eq (ip_header_sum (tcp_rewrite partial cm ttl m) 0) 0" "0 < ip_header_sum (tcp_rewrite partial cm ttl m) 0"
  unfolding udp_rewrite_def tcp_rewrite_def by (rule replace_ip_csum_valid)+

lemma remark_dscp_other [simp]:
  "j \<noteq> 1 \<Longrightarrow> remark_dscp cm m j = m j"
  "1 < j \<Longrightarrow> ld16 (remark_dscp cm m) j = ld16 m j"
  "1 < j \<Longrightarrow> ld32 (remark_dscp cm m) j = ld32 m j"
  by (auto simp: remark_dscp_def ip_tos_def)

lemma udp_rewrite_fields:
  assumes f: "matches_flow cm 20 m"
  shows "ld32 (udp_rewrite partial cm ttl m) ip_saddr = out_src_ip cm"
    and "ld32 (udp_rewrite partial cm ttl m) ip_daddr = out_dest_ip cm"
    and "ld16 (udp_rewrite partial cm ttl m) (20 + th_source) = out_src_port cm"
    and "ld16 (udp_rewrite partial cm ttl m) (20 + th_dest) = out_dest_port cm"
    and "udp_rewrite partial cm ttl m ip_ttl = ttl - 1"
    and "28 \<le> j \<Longrightarrow> udp_rewrite partial cm ttl m j = m j"
    and "j \<in> {0, 2, 3, 4, 5, 6, 7, 9} \<Longrightarrow> udp_rewrite partial cm ttl m j = m j"
  using f unfolding udp_rewrite_def udp_xlate_src_def udp_xlate_dest_def matches_flow_def
    out_src_ip_def out_dest_ip_def out_src_port_def out_dest_port_def hdr_defs
  by (auto simp: Let_def)

lemma tcp_rewrite_fields:
  assumes f: "matches_flow cm 20 m"
  shows "ld32 (tcp_rewrite partial cm ttl m) ip_saddr = out_src_ip cm"
    and "ld32 (tcp_rewrite partial cm ttl m) ip_daddr = out_dest_ip cm"
    and "ld16 (tcp_rewrite partial cm ttl m) (20 + th_source) = out_src_port cm"
    and "ld16 (tcp_rewrite partial cm ttl m) (20 + th_dest) = out_dest_port cm"
    and "tcp_rewrite partial cm ttl m ip_ttl = ttl - 1"
    and "24 \<le> j \<Longrightarrow> j \<notin> {36, 37} \<Longrightarrow> tcp_rewrite partial cm ttl m j = m j"
    and "j \<in> {0, 2, 3, 4, 5, 6, 7, 9} \<Longrightarrow> tcp_rewrite partial cm ttl m j = m j"
  using f unfolding tcp_rewrite_def tcp_xlate_src_def tcp_xlate_dest_def matches_flow_def
    out_src_ip_def out_dest_ip_def out_src_port_def out_dest_port_def hdr_defs
  by (auto simp: Let_def)

section \<open>The transport checksum\<close>

lemma transport_csum_ok_cong:
  "(\<And>k. off \<le> k \<Longrightarrow> m' k = m k) \<Longrightarrow> transport_csum_ok src dest p m' off n = transport_csum_ok src dest p m off n"
  unfolding transport_csum_ok_def transport_sum_def using words_sum_cong [of off n m' m] by simp

lemma src_step:
  assumes "2 * k + 1 < n" "k \<noteq> 0"
    and "m' = st16 (st16 (st32 m 12 ip') 20 port') (20 + 2 * k)
                (csum_update (ld16 m (20 + 2 * k)) (csum_adjustment ip (ld16 m 20) ip' port'))"
  shows "transport_csum_ok ip' dest p m' 20 n = transport_csum_ok ip dest p m 20 n"
proof -
  let ?m = "st32 m 12 ip'"
  have "transport_csum_ok ip' dest p m' 20 n = transport_csum_ok ip dest p ?m 20 n"
    by (rule transport_xlate_src [of 0 n k _ ?m]) (use assms in simp_all)
  also have "\<dots> = transport_csum_ok ip dest p m 20 n"
    by (rule transport_csum_ok_cong) simp
  finally show ?thesis .
qed

lemma dest_step:
  assumes "2 * k + 1 < n" "3 < n" "k \<noteq> 1"
    and "m' = st16 (st16 (st32 m 16 ip') 22 port') (20 + 2 * k)
                (csum_update (ld16 m (20 + 2 * k)) (csum_adjustment ip (ld16 m 22) ip' port'))"
  shows "transport_csum_ok src ip' p m' 20 n = transport_csum_ok src ip p m 20 n"
proof -
  let ?m = "st32 m 16 ip'"
  have "20 + 2 * k + 1 < 22 \<or> 23 < 20 + 2 * k" using assms(3) by linarith
  then have "transport_csum_ok src ip' p m' 20 n = transport_csum_ok src ip p ?m 20 n"
    by (intro transport_xlate_dest [of 1 n k _ ?m]) (use assms in simp_all)
  also have "\<dots> = transport_csum_ok src ip p m 20 n"
    by (rule transport_csum_ok_cong) simp
  finally show ?thesis .
qed

lemma udp_xlate_src_csum:
  assumes a: "adj_ok cm" and ip: "cm_match_src_ip cm = ld32 m 12" and port: "cm_match_src_port cm = ld16 m 20"
    and nz: "ld16 m 26 \<noteq> 0" and n: "8 \<le> n"
  shows "transport_csum_ok (out_src_ip cm) dest p (udp_xlate_src False 20 cm m) 20 n
       = transport_csum_ok (ld32 m 12) dest p m 20 n"
proof (cases "has_flag (cm_flags cm) SFE_IPV4_CONNECTION_MATCH_FLAG_XLATE_SRC")
  case True
  show ?thesis
    unfolding out_src_ip_def if_P [OF True]
    by (rule src_step [of 3]) (use a n nz True ip port in \<open>simp_all add: udp_xlate_src_def Let_def hdr_defs adj_ok_def\<close>)
qed (simp add: udp_xlate_src_def out_src_ip_def ip)

lemma udp_xlate_dest_csum:
  assumes a: "adj_ok cm" and ip: "cm_match_dest_ip cm = ld32 m 16" and port: "cm_match_dest_port cm = ld16 m 22"
    and nz: "ld16 m 26 \<noteq> 0" and n: "8 \<le> n"
  shows "transport_csum_ok src (out_dest_ip cm) p (udp_xlate_dest False 20 cm m) 20 n
       = transport_csum_ok src (ld32 m 16) p m 20 n"
proof (cases "has_flag (cm_flags cm) SFE_IPV4_CONNECTION_MATCH_FLAG_XLATE_DEST")
  case True
  show ?thesis
    unfolding out_dest_ip_def if_P [OF True]
    by (rule dest_step [of 3]) (use a n nz True ip port in \<open>simp_all add: udp_xlate_dest_def Let_def hdr_defs adj_ok_def\<close>)
qed (simp add: udp_xlate_dest_def out_dest_ip_def ip)

lemma tcp_xlate_src_csum:
  assumes a: "adj_ok cm" and ip: "cm_match_src_ip cm = ld32 m 12" and port: "cm_match_src_port cm = ld16 m 20"
    and n: "20 \<le> n"
  shows "transport_csum_ok (out_src_ip cm) dest p (tcp_xlate_src False 20 cm m) 20 n
       = transport_csum_ok (ld32 m 12) dest p m 20 n"
proof (cases "has_flag (cm_flags cm) SFE_IPV4_CONNECTION_MATCH_FLAG_XLATE_SRC")
  case True
  show ?thesis
    unfolding out_src_ip_def if_P [OF True]
    by (rule src_step [of 8]) (use a n True ip port in \<open>simp_all add: tcp_xlate_src_def Let_def hdr_defs adj_ok_def\<close>)
qed (simp add: tcp_xlate_src_def out_src_ip_def ip)

lemma tcp_xlate_dest_csum:
  assumes a: "adj_ok cm" and ip: "cm_match_dest_ip cm = ld32 m 16" and port: "cm_match_dest_port cm = ld16 m 22"
    and n: "20 \<le> n"
  shows "transport_csum_ok src (out_dest_ip cm) p (tcp_xlate_dest False 20 cm m) 20 n
       = transport_csum_ok src (ld32 m 16) p m 20 n"
proof (cases "has_flag (cm_flags cm) SFE_IPV4_CONNECTION_MATCH_FLAG_XLATE_DEST")
  case True
  show ?thesis
    unfolding out_dest_ip_def if_P [OF True]
    by (rule dest_step [of 8]) (use a n True ip port in \<open>simp_all add: tcp_xlate_dest_def Let_def hdr_defs adj_ok_def\<close>)
qed (simp add: tcp_xlate_dest_def out_dest_ip_def ip)

lemma udp_rewrite_csum:
  assumes a: "adj_ok cm" and f: "matches_flow cm 20 m" and nz: "ld16 m 26 \<noteq> 0" and n: "8 \<le> n"
  shows "transport_csum_ok (out_src_ip cm) (out_dest_ip cm) p (udp_rewrite False cm ttl m) 20 n
       = transport_csum_ok (ld32 m ip_saddr) (ld32 m ip_daddr) p m 20 n"
proof -
  let ?m0 = "st8 (remark_dscp cm m) ip_ttl (ttl - 1)"
  let ?m1 = "udp_xlate_src False 20 cm ?m0"
  let ?m2 = "udp_xlate_dest False 20 cm ?m1"
  have m0: "ld32 ?m0 12 = ld32 m 12" "ld32 ?m0 16 = ld32 m 16" "ld16 ?m0 20 = ld16 m 20" "ld16 ?m0 22 = ld16 m 22"
    "ld16 ?m0 26 = ld16 m 26"
    by (simp_all add: ip_ttl_def)
  have m1: "ld32 ?m1 16 = ld32 m 16" "ld16 ?m1 22 = ld16 m 22" "ld16 ?m1 26 \<noteq> 0"
    using nz m0 csum_update_nonzero by (auto simp: udp_xlate_src_def Let_def hdr_defs)
  have "transport_csum_ok (out_src_ip cm) (out_dest_ip cm) p (replace_ip_csum ?m2) 20 n
      = transport_csum_ok (out_src_ip cm) (out_dest_ip cm) p ?m2 20 n"
    by (rule transport_csum_ok_cong) simp
  also have "\<dots> = transport_csum_ok (out_src_ip cm) (ld32 m 16) p ?m1 20 n"
    using udp_xlate_dest_csum [OF a _ _ m1(3) n] f m1 by (simp add: matches_flow_def hdr_defs)
  also have "\<dots> = transport_csum_ok (ld32 m 12) (ld32 m 16) p ?m0 20 n"
    using udp_xlate_src_csum [OF a, of ?m0] f m0 nz n by (simp add: matches_flow_def hdr_defs)
  also have "\<dots> = transport_csum_ok (ld32 m 12) (ld32 m 16) p m 20 n"
    by (rule transport_csum_ok_cong) (simp add: ip_ttl_def)
  finally show ?thesis by (simp add: udp_rewrite_def hdr_defs)
qed

lemma udp_rewrite_zero_csum:
  assumes "ld16 m 26 = 0"
  shows "ld16 (udp_rewrite partial cm ttl m) 26 = 0"
  using assms unfolding udp_rewrite_def by (auto simp: udp_xlate_src_def udp_xlate_dest_def Let_def hdr_defs)

lemma udp_rewrite_nonzero_csum:
  assumes "ld16 m 26 \<noteq> 0"
  shows "ld16 (udp_rewrite partial cm ttl m) 26 \<noteq> 0"
  using assms csum_update_nonzero unfolding udp_rewrite_def
  by (auto simp: udp_xlate_src_def udp_xlate_dest_def Let_def hdr_defs)

lemma tcp_rewrite_csum:
  assumes a: "adj_ok cm" and f: "matches_flow cm 20 m" and n: "20 \<le> n"
  shows "transport_csum_ok (out_src_ip cm) (out_dest_ip cm) p (tcp_rewrite False cm ttl m) 20 n
       = transport_csum_ok (ld32 m ip_saddr) (ld32 m ip_daddr) p m 20 n"
proof -
  let ?m0 = "st8 (remark_dscp cm m) ip_ttl (ttl - 1)"
  let ?m1 = "tcp_xlate_src False 20 cm ?m0"
  let ?m2 = "tcp_xlate_dest False 20 cm ?m1"
  have m0: "ld32 ?m0 12 = ld32 m 12" "ld32 ?m0 16 = ld32 m 16" "ld16 ?m0 20 = ld16 m 20" "ld16 ?m0 22 = ld16 m 22"
    by (simp_all add: ip_ttl_def)
  have m1: "ld32 ?m1 16 = ld32 m 16" "ld16 ?m1 22 = ld16 m 22"
    using m0 by (auto simp: tcp_xlate_src_def Let_def hdr_defs)
  have "transport_csum_ok (out_src_ip cm) (out_dest_ip cm) p (replace_ip_csum ?m2) 20 n
      = transport_csum_ok (out_src_ip cm) (out_dest_ip cm) p ?m2 20 n"
    by (rule transport_csum_ok_cong) simp
  also have "\<dots> = transport_csum_ok (out_src_ip cm) (ld32 m 16) p ?m1 20 n"
    using tcp_xlate_dest_csum [OF a _ _ n, of ?m1] f m1 by (simp add: matches_flow_def hdr_defs)
  also have "\<dots> = transport_csum_ok (ld32 m 12) (ld32 m 16) p ?m0 20 n"
    using tcp_xlate_src_csum [OF a _ _ n, of ?m0] f m0 by (simp add: matches_flow_def hdr_defs)
  also have "\<dots> = transport_csum_ok (ld32 m 12) (ld32 m 16) p m 20 n"
    by (rule transport_csum_ok_cong) (simp add: ip_ttl_def)
  finally show ?thesis by (simp add: tcp_rewrite_def hdr_defs)
qed

text \<open>
  With \<open>CHECKSUM_PARTIAL\<close> the check field holds the sum of the pseudo header, for the device to
  complete.
\<close>

definition pseudo_ok :: "be32 \<Rightarrow> be32 \<Rightarrow> u8 \<Rightarrow> nat \<Rightarrow> u16 \<Rightarrow> bool" where
  "pseudo_ok src dest protocol n c \<longleftrightarrow>
     csum_eq (unat c) (ip_sum src + ip_sum dest + unat (ntohs (ucast protocol)) + unat (ntohs (of_nat n)))"

lemma partial_step:
  assumes "csum_eq (unat c) (ip_sum ip + x)"
  shows "csum_eq (unat (csum_update c (partial_csum_adjustment ip ip'))) (ip_sum ip' + x)"
proof -
  let ?a = "unat (partial_csum_adjustment ip ip')"
  have "csum_eq (unat (csum_update c (partial_csum_adjustment ip ip')) + unat ip) ((unat c + ?a) + unat ip)"
    by (rule csum_eq_add [OF csum_update_cong refl])
  also have "(unat c + ?a) + unat ip = unat c + (?a + unat ip)" by simp
  also have "csum_eq \<dots> ((ip_sum ip + x) + unat ip')"
    by (rule csum_eq_add [OF assms partial_csum_adjustment_law])
  also have "(ip_sum ip + x) + unat ip' = ip_sum ip + (x + unat ip')" by simp
  also have "csum_eq \<dots> (unat ip + (x + ip_sum ip'))"
    by (rule csum_eq_add [OF ip_sum_cong csum_eq_add [OF refl ip_sum_cong [symmetric]]])
  also have "unat ip + (x + ip_sum ip') = (ip_sum ip' + x) + unat ip" by simp
  finally show ?thesis by (rule csum_eq_cancel)
qed

lemma pseudo_src:
  assumes "pseudo_ok ip dest p n c"
  shows "pseudo_ok ip' dest p n (csum_update c (partial_csum_adjustment ip ip'))"
  using partial_step [of c ip "ip_sum dest + unat (ntohs (ucast p)) + unat (ntohs (of_nat n))" ip'] assms
  by (simp only: pseudo_ok_def add.assoc)

lemma pseudo_dest:
  assumes "pseudo_ok src ip p n c"
  shows "pseudo_ok src ip' p n (csum_update c (partial_csum_adjustment ip ip'))"
  using partial_step [of c ip "ip_sum src + unat (ntohs (ucast p)) + unat (ntohs (of_nat n))" ip'] assms
  by (simp only: pseudo_ok_def add_ac)

lemma tcp_rewrite_partial:
  assumes a: "adj_ok cm" and c: "pseudo_ok (cm_match_src_ip cm) (cm_match_dest_ip cm) p n (ld16 m 36)"
  shows "pseudo_ok (out_src_ip cm) (out_dest_ip cm) p n (ld16 (tcp_rewrite True cm ttl m) 36)"
proof -
  let ?m0 = "st8 (remark_dscp cm m) ip_ttl (ttl - 1)"
  let ?m1 = "tcp_xlate_src True 20 cm ?m0"
  let ?m2 = "tcp_xlate_dest True 20 cm ?m1"
  have "ld16 ?m0 36 = ld16 m 36" by (simp add: ip_ttl_def)
  then have 1: "pseudo_ok (out_src_ip cm) (cm_match_dest_ip cm) p n (ld16 ?m1 36)"
    using a c pseudo_src by (auto simp: tcp_xlate_src_def Let_def hdr_defs out_src_ip_def adj_ok_def)
  then have "pseudo_ok (out_src_ip cm) (out_dest_ip cm) p n (ld16 ?m2 36)"
    using a pseudo_dest by (auto simp: tcp_xlate_dest_def Let_def hdr_defs out_dest_ip_def adj_ok_def)
  then show ?thesis by (simp add: tcp_rewrite_def)
qed

lemma udp_rewrite_partial:
  assumes a: "adj_ok cm" and c: "pseudo_ok (cm_match_src_ip cm) (cm_match_dest_ip cm) p n (ld16 m 26)"
    and nz: "ld16 m 26 \<noteq> 0"
  shows "pseudo_ok (out_src_ip cm) (out_dest_ip cm) p n (ld16 (udp_rewrite True cm ttl m) 26)"
proof -
  let ?m0 = "st8 (remark_dscp cm m) ip_ttl (ttl - 1)"
  let ?m1 = "udp_xlate_src True 20 cm ?m0"
  let ?m2 = "udp_xlate_dest True 20 cm ?m1"
  have m0: "ld16 ?m0 26 = ld16 m 26" by (simp add: ip_ttl_def)
  then have 1: "pseudo_ok (out_src_ip cm) (cm_match_dest_ip cm) p n (ld16 ?m1 26)"
    using a c nz pseudo_src by (auto simp: udp_xlate_src_def Let_def hdr_defs out_src_ip_def adj_ok_def)
  have "ld16 ?m1 26 \<noteq> 0"
    using nz m0 csum_update_nonzero by (auto simp: udp_xlate_src_def Let_def hdr_defs)
  then have "pseudo_ok (out_src_ip cm) (out_dest_ip cm) p n (ld16 ?m2 26)"
    using 1 a pseudo_dest by (auto simp: udp_xlate_dest_def Let_def hdr_defs out_dest_ip_def adj_ok_def)
  then show ?thesis by (simp add: udp_rewrite_def)
qed

section \<open>The Ethernet header\<close>

lemma write_eth_hdr_bytes:
  "k < 6 \<Longrightarrow> write_eth_hdr cm m k = cm_xmit_dest_mac cm k"
  "k < 6 \<Longrightarrow> write_eth_hdr cm m (6 + k) = cm_xmit_src_mac cm k"
  "write_eth_hdr cm m 12 = 0x08" "write_eth_hdr cm m 13 = 0x00"
  "write_eth_hdr cm m (14 + j) = m j"
proof -
  have p: "st16 (skb_push m ETH_HLEN) 12 (ntohs ETH_P_IP) = (skb_push m ETH_HLEN)(12 := 8, 13 := 0)"
  proof -
    have "(ucast (ntohs ETH_P_IP) :: u8) = 8" "(ucast (drop_bit 8 (ntohs ETH_P_IP)) :: u8) = 0"
      by (simp_all add: ETH_P_IP_def ntohs_def)
    then show ?thesis by (simp add: st16_def)
  qed
  show "k < 6 \<Longrightarrow> write_eth_hdr cm m k = cm_xmit_dest_mac cm k"
    and "k < 6 \<Longrightarrow> write_eth_hdr cm m (6 + k) = cm_xmit_src_mac cm k"
    by (auto simp: write_eth_hdr_def Let_def p st16_ld16 numeral_eq_Suc less_Suc_eq)
  show "write_eth_hdr cm m 12 = 0x08" "write_eth_hdr cm m 13 = 0x00" "write_eth_hdr cm m (14 + j) = m j"
    by (simp_all add: write_eth_hdr_def Let_def p st16_ld16) (simp add: skb_push_def ETH_HLEN_def)
qed

end
