(* ===== verification/SFE_IPv4_Adjust.thy ===== *)
theory SFE_IPv4_Adjust
  imports SFE_IPv4_Sync SFE_IPv4_Forward
begin

text \<open>
  The second invariant of the engine: every match in use carries checksum adjustments that belong
  to its translations. Every operation keeps it; creating a rule establishes it.
\<close>

definition adj_inv :: "sfe_ipv4 \<Rightarrow> bool" where
  "adj_inv si \<longleftrightarrow> (\<forall>m \<in> live_matches si. adj_ok (matches si m))"

definition same_adj :: "sfe_ipv4 \<Rightarrow> sfe_ipv4 \<Rightarrow> bool" where
  "same_adj si si' \<longleftrightarrow> live_matches si' \<subseteq> live_matches si \<and> (\<forall>p. adj_ok (matches si p) \<longrightarrow> adj_ok (matches si' p))"

definition keeps_adj :: "(sfe_ipv4_connection_match \<Rightarrow> sfe_ipv4_connection_match) \<Rightarrow> bool" where
  "keeps_adj f \<longleftrightarrow> (\<forall>m. adj_ok m \<longrightarrow> adj_ok (f m))"

lemma adj_inv_same: "same_adj si si' \<Longrightarrow> adj_inv si \<Longrightarrow> adj_inv si'"
  by (auto simp: adj_inv_def same_adj_def)

lemma same_adj_refl [simp]: "same_adj si si"
  by (simp add: same_adj_def)

lemma same_adj_trans: "same_adj a b \<Longrightarrow> same_adj b c \<Longrightarrow> same_adj a c"
  by (auto simp: same_adj_def)

lemma adj_ok_data: "adj_ok (cm_data m) = adj_ok m"
  by (simp add: adj_ok_def cm_data_def)

lemma same_adj_data: "same_data si si' \<Longrightarrow> same_adj si si'"
  unfolding same_adj_def same_data_def by (metis adj_ok_data order_refl)

lemma has_flag_or: "has_flag (a OR b) f \<longleftrightarrow> has_flag a f \<or> has_flag b f"
  by (auto simp: has_flag_def bit.conj_disj_distrib2 or_eq_0_iff)

lemma has_flag_no_seq [simp]:
  "has_flag (fl OR SFE_IPV4_CONNECTION_MATCH_FLAG_NO_SEQ_CHECK) SFE_IPV4_CONNECTION_MATCH_FLAG_XLATE_SRC
     = has_flag fl SFE_IPV4_CONNECTION_MATCH_FLAG_XLATE_SRC"
  "has_flag (fl OR SFE_IPV4_CONNECTION_MATCH_FLAG_NO_SEQ_CHECK) SFE_IPV4_CONNECTION_MATCH_FLAG_XLATE_DEST
     = has_flag fl SFE_IPV4_CONNECTION_MATCH_FLAG_XLATE_DEST"
  "has_flag (fl AND NOT SFE_IPV4_CONNECTION_MATCH_FLAG_NO_SEQ_CHECK) SFE_IPV4_CONNECTION_MATCH_FLAG_XLATE_SRC
     = has_flag fl SFE_IPV4_CONNECTION_MATCH_FLAG_XLATE_SRC"
  "has_flag (fl AND NOT SFE_IPV4_CONNECTION_MATCH_FLAG_NO_SEQ_CHECK) SFE_IPV4_CONNECTION_MATCH_FLAG_XLATE_DEST
     = has_flag fl SFE_IPV4_CONNECTION_MATCH_FLAG_XLATE_DEST"
proof -
  have n: "NOT 4 AND (1 :: u32) = 1" "NOT 4 AND (2 :: u32) = 2" by simp_all
  show "has_flag (fl OR SFE_IPV4_CONNECTION_MATCH_FLAG_NO_SEQ_CHECK) SFE_IPV4_CONNECTION_MATCH_FLAG_XLATE_SRC
     = has_flag fl SFE_IPV4_CONNECTION_MATCH_FLAG_XLATE_SRC"
    and "has_flag (fl OR SFE_IPV4_CONNECTION_MATCH_FLAG_NO_SEQ_CHECK) SFE_IPV4_CONNECTION_MATCH_FLAG_XLATE_DEST
     = has_flag fl SFE_IPV4_CONNECTION_MATCH_FLAG_XLATE_DEST"
    unfolding has_flag_or by (simp_all add: has_flag_def match_flag_defs)
  show "has_flag (fl AND NOT SFE_IPV4_CONNECTION_MATCH_FLAG_NO_SEQ_CHECK) SFE_IPV4_CONNECTION_MATCH_FLAG_XLATE_SRC
     = has_flag fl SFE_IPV4_CONNECTION_MATCH_FLAG_XLATE_SRC"
    and "has_flag (fl AND NOT SFE_IPV4_CONNECTION_MATCH_FLAG_NO_SEQ_CHECK) SFE_IPV4_CONNECTION_MATCH_FLAG_XLATE_DEST
     = has_flag fl SFE_IPV4_CONNECTION_MATCH_FLAG_XLATE_DEST"
    unfolding has_flag_def match_flag_defs and.assoc n by (rule refl)+
qed

lemma keeps_adj_simps [simp]:
  "keeps_adj (\<lambda>m. m\<lparr>cm_tcp := f m\<rparr>)"
  "keeps_adj (cm_set_flag SFE_IPV4_CONNECTION_MATCH_FLAG_NO_SEQ_CHECK)"
  "keeps_adj (cm_clear_flag SFE_IPV4_CONNECTION_MATCH_FLAG_NO_SEQ_CHECK)"
  "keeps_adj sfe_ipv4_connection_match_update_summary_stats"
  "keeps_adj (\<lambda>m. m\<lparr>cm_rx_packet_count := h m\<rparr>)" "keeps_adj (\<lambda>m. m\<lparr>cm_rx_byte_count := h m\<rparr>)"
  "keeps_adj (\<lambda>m. m\<lparr>cm_active := b\<rparr>)" "keeps_adj (\<lambda>m. m\<lparr>cm_active_prev := q\<rparr>)"
  "keeps_adj (\<lambda>m. m\<lparr>cm_active_next := q\<rparr>)"
  by (simp_all add: keeps_adj_def adj_ok_def cm_set_flag_def cm_clear_flag_def
      sfe_ipv4_connection_match_update_summary_stats_def)

lemma same_adj_upd_cm: "keeps_adj f \<Longrightarrow> same_adj si si' \<Longrightarrow> same_adj si (upd_cm p f si')"
  by (simp add: same_adj_def upd_cm_def keeps_adj_def)

lemma same_adj_frame:
  "matches si' = matches si \<Longrightarrow> live_matches si' \<subseteq> live_matches si \<Longrightarrow> same_adj si si'"
  by (simp add: same_adj_def)

lemma gen_sync_adj: "same_adj si (snd (sfe_ipv4_gen_sync_sfe_ipv4_connection si c sis reason now))"
proof -
  let ?f = sfe_ipv4_connection_match_update_summary_stats
  have "same_adj si (upd_cm (c_reply_match (connections si c)) ?f (upd_cm (c_original_match (connections si c)) ?f si))"
    by (intro same_adj_upd_cm) simp_all
  then show ?thesis
    by (simp add: sfe_ipv4_gen_sync_sfe_ipv4_connection_def Let_def same_adj_def upd_c_def)
qed

lemma flush_adj: "same_adj si (fst (sfe_ipv4_flush_sfe_ipv4_connection j si c reason))"
proof (cases "sync_rule_callback si")
  case None
  then show ?thesis
    by (intro same_adj_frame) (auto simp: sfe_ipv4_flush_sfe_ipv4_connection_def Let_def dev_put_def)
next
  case (Some cb)
  let ?si0 = "si\<lparr>connection_flushes := connection_flushes si + 1\<rparr>"
  have "same_adj si (snd (sfe_ipv4_gen_sync_sfe_ipv4_connection ?si0 c stack_sis reason j))"
    by (rule same_adj_trans [OF same_adj_frame gen_sync_adj]) simp_all
  then show ?thesis
    by (rule same_adj_trans [OF _ same_adj_frame])
      (use Some in \<open>auto simp: sfe_ipv4_flush_sfe_ipv4_connection_def Let_def dev_put_def split_beta\<close>)
qed

lemma remove_flush_adj:
  "same_adj si (fst (sfe_ipv4_flush_sfe_ipv4_connection j (sfe_ipv4_remove_sfe_ipv4_connection si c) c reason))"
  by (rule same_adj_trans [OF same_adj_data [OF same_data_remove_connection] flush_adj])

lemma update_protocol_state_adj: "same_adj si (sfe_ipv4_update_protocol_state si c sic)"
  by (auto simp: sfe_ipv4_update_protocol_state_def sfe_ipv4_update_tcp_state_def Let_def intro!: same_adj_upd_cm)

lemma new_adj: "adj_ok (new_original devs sic c r m)" "adj_ok (new_reply devs sic c oc m)"
  by (simp_all add: new_original_def new_reply_def adj_ok_compute)

lemma create_rule_adj:
  assumes i: "sfe_inv si g P" and a: "adj_inv si" and f: "\<And>c oc r. kc = Some c \<Longrightarrow> ko = Some oc \<Longrightarrow> kr = Some r \<Longrightarrow> fresh si c oc r"
    and e: "sfe_ipv4_create_rule devs j kc ko kr si sic = Some (rc, si')"
  shows "adj_inv si'"
proof -
  define si1 where "si1 = si\<lparr>connection_create_requests := connection_create_requests si + 1\<rparr>"
  note R = create_rule_result [OF i, of devs j kc ko kr sic, unfolded e, folded si1_def]
  have a1: "adj_inv si1" by (rule adj_inv_same [OF same_adj_frame a]) (simp_all add: si1_def)
  have u: "adj_inv (sfe_ipv4_update_protocol_state (si1\<lparr>connection_create_collisions := n\<rparr>) c sic)" for n c
    by (rule adj_inv_same [OF same_adj_trans [OF same_adj_frame update_protocol_state_adj] a1]) simp_all
  show ?thesis
  proof (cases "devs_up devs sic \<and> sfe_lookup si (sic_key sic) = None \<and> kc \<noteq> None \<and> ko \<noteq> None \<and> kr \<noteq> None")
    case True
    then obtain c oc r where k: "kc = Some c" "ko = Some oc" "kr = Some r" by blast
    have ne: "oc \<noteq> r" using f [OF k] by (simp add: fresh_def)
    let ?b = "built devs j sic c oc r (alloc c oc r si1)"
    have "adj_inv ?b"
      using a1 by (auto simp: adj_inv_def built_fields new_adj) (simp_all add: alloc_def)
    then have "adj_inv (sfe_ipv4_insert_sfe_ipv4_connection ?b c)"
      by (rule adj_inv_same [OF same_adj_data [OF same_data_insert_connection]])
    moreover have "si' = sfe_ipv4_insert_sfe_ipv4_connection ?b c"
      using R True k by (simp add: build_rule_eq [OF ne])
    ultimately show ?thesis by simp
  next
    case False
    then show ?thesis using R a a1 u by (auto split: if_splits option.splits)
  qed
qed

lemma destroy_rule_adj:
  assumes i: "sfe_inv si g P" and a: "adj_inv si" and d: "sfe_ipv4_destroy_rule j si sid = Some (si', out)"
  shows "adj_inv si'"
proof -
  have f1: "same_adj si (si\<lparr>connection_destroy_requests := n\<rparr>)" "same_adj si (si\<lparr>connection_destroy_requests := n, connection_destroy_misses := n'\<rparr>)" for n n'
    by (rule same_adj_frame, simp_all)+
  have "same_adj si si'"
    using d f1 same_adj_trans [OF f1(1) remove_flush_adj]
    unfolding destroy_rule_result [OF i] by (auto split: option.splits) (metis fst_conv)
  then show ?thesis using a by (rule adj_inv_same)
qed

lemma destroy_all_adj:
  assumes "sfe_inv si g P" and "sfe_ipv4_destroy_all_rules_for_dev j dev si = Some (si', out)"
  shows "same_adj si si'"
  using assms
proof (induction "length (ga g)" arbitrary: si g out rule: less_induct)
  case less
  let ?U = "\<lambda>c. uses_dev (connections si c) dev"
  note e = less.prems(2) [unfolded sfe_ipv4_destroy_all_rules_for_dev.simps [of j dev si] destroy_all_find [OF less.prems(1), of ?U]]
  show ?case
  proof (cases "find ?U (ga g)")
    case None
    then show ?thesis using e by simp
  next
    case (Some c)
    then have c: "c \<in> set (ga g)" by (auto simp: find_Some_iff)
    let ?fl = "sfe_ipv4_flush_sfe_ipv4_connection j (sfe_ipv4_remove_sfe_ipv4_connection si c) c SFE_SYNC_REASON_DESTROY"
    have ga: "ga (lists_remove (ft si) g c) = remove1 c (ga g)" by (simp add: lists_remove_def)
    have l: "length (ga (lists_remove (ft si) g c)) < length (ga g)"
      using c by (simp add: ga length_remove1) (use length_pos_if_in_set in fastforce)
    obtain out' where "sfe_ipv4_destroy_all_rules_for_dev j dev (fst ?fl) = Some (si', out')"
      using e Some by (auto simp: split_beta Option.bind_eq_Some_conv)
    from less.hyps [OF l remove_flush_inv [OF less.prems(1) c, of j SFE_SYNC_REASON_DESTROY] this]
    show ?thesis by (rule same_adj_trans [OF remove_flush_adj])
  qed
qed

lemma mark_rule_adj:
  assumes i: "sfe_inv si g P" and m: "sfe_ipv4_mark_rule si mk = Some si'"
  shows "same_adj si si'"
  using m unfolding mark_rule_result [OF i]
  by (auto simp: upd_c_def intro!: same_adj_frame split: option.splits)

lemma update_rule_adj:
  assumes i: "sfe_inv si g P" and u: "sfe_ipv4_update_rule si sic = Some si'"
  shows "same_adj si si'"
  using u update_protocol_state_adj unfolding update_rule_result [OF i] by (auto split: option.splits)

lemma deactivate_adj:
  "same_adj si (deactivate_head si cm)" "deactivate_counter si cc = Some si' \<Longrightarrow> same_adj si si'"
proof -
  have cm: "adj_ok (m\<lparr>cm_active := b\<rparr>) = adj_ok m" "adj_ok (m\<lparr>cm_active_next := q\<rparr>) = adj_ok m"
    "adj_ok (m\<lparr>cm_active_prev := q\<rparr>) = adj_ok m" for m b q
    by (simp_all add: adj_ok_def)
  show "same_adj si (deactivate_head si cm)"
    by (simp add: same_adj_def deactivate_head_def Let_def upd_cm_def cm split: option.split)
  show "deactivate_counter si cc = Some si' \<Longrightarrow> same_adj si si'"
    by (auto simp: same_adj_def deactivate_counter_def Let_def upd_cm_def cm split: option.splits if_splits)
qed

lemma periodic_sync_loop_adj:
  "periodic_sync_loop quota cb now si = Some (si', out) \<Longrightarrow> same_adj si si'"
proof (induction quota cb now si arbitrary: out rule: periodic_sync_loop.induct)
  case (2 quota cb now si)
  show ?case
  proof (cases "active_head si")
    case None
    with 2 show ?thesis by simp
  next
    case (Some cm)
    with 2 obtain si1 where d: "deactivate_counter si (cm_counter_match (matches si cm)) = Some si1"
      by (auto simp: Option.bind_eq_Some_conv)
    let ?si2 = "deactivate_head si1 cm"
    let ?gs = "sfe_ipv4_gen_sync_sfe_ipv4_connection ?si2 (cm_connection (matches ?si2 cm)) stack_sis SFE_SYNC_REASON_STATS now"
    have a: "same_adj si (snd ?gs)"
      by (rule same_adj_trans [OF deactivate_adj(2) [OF d] same_adj_trans [OF deactivate_adj(1) gen_sync_adj]])
    from 2(2) Some d obtain out' where "periodic_sync_loop quota cb now (snd ?gs) = Some (si', out')"
      by (auto simp: Option.bind_eq_Some_conv split_beta Let_def)
    from 2(1) [OF Some d refl _ refl this, of "fst ?gs"] show ?thesis
      by (intro same_adj_trans [OF a]) simp
  qed
qed simp

lemma periodic_sync_adj:
  assumes "sfe_ipv4_periodic_sync hz now j si = Some (si', out)"
  shows "same_adj si si'"
proof (cases "sync_rule_callback si")
  case None
  with assms show ?thesis by (auto simp: sfe_ipv4_periodic_sync_def intro: same_adj_frame)
next
  case (Some cb)
  let ?si = "sfe_ipv4_update_summary_stats si"
  obtain si1 where l: "periodic_sync_loop (unat ((num_connections ?si + 63) div 64)) cb now ?si = Some (si1, out)"
    and e: "si' = si1\<lparr>timer_expires := j + (hz + 99) div 100\<rparr>"
    using assms Some by (auto simp: sfe_ipv4_periodic_sync_def Let_def Option.bind_eq_Some_conv)
  have "same_adj si ?si" by (rule same_adj_frame) (simp_all add: sfe_ipv4_update_summary_stats_def)
  from same_adj_trans [OF this periodic_sync_loop_adj [OF l]]
  have "same_adj si si1" .
  then show ?thesis unfolding e by (rule same_adj_trans) (rule same_adj_frame, simp_all)
qed

end
