(* ===== verification/SFE_IPv4_Recv_Inv.thy ===== *)
theory SFE_IPv4_Recv_Inv
  imports SFE_IPv4_Adjust
begin

text \<open>
  The data path on a well-formed engine: it always returns, keeps the invariant, leaves a packet it
  does not forward untouched, and counts every packet exactly once. The option parser returns for
  every data offset a TCP header can encode.
\<close>

section \<open>The option parser\<close>

lemma process_sack_returns:
  "data_offs \<le> 240 \<Longrightarrow> \<exists>r. sfe_ipv4_process_tcp_option_sack m th data_offs ack = Some r"
  using sack_options_returns unfolding sfe_ipv4_process_tcp_option_sack_def Let_def by auto

lemma tcp_seq_check_returns: "\<exists>r. tcp_seq_check m th len tcp counter_tcp = Some r"
proof -
  obtain r where "sfe_ipv4_process_tcp_option_sack m th (push_bit 2 (ucast (drop_bit 4 (m (th + tcp_flag_offs)))))
      (ntohl (ld32 m (th + tcp_ack_seq))) = Some r"
    using process_sack_returns [OF doff_bound] by blast
  then show ?thesis unfolding tcp_seq_check_def Let_def by (simp split: prod.split)
qed

section \<open>The engine under the data path\<close>

lemma ft_mark_active: "ft (mark_active cm si) = ft_activate (ft si) cm"
  unfolding mark_active_def Let_def ft_activate_def snoc_nx_def snoc_hd_def
  by (cases "von (ft si) cm"; cases "vtl (ft si)") (auto simp: ft_read simp del: ft_sel)

lemma mark_active_frame [simp]:
  "connections (mark_active cm si) = connections si" "live_matches (mark_active cm si) = live_matches si"
  "live_connections (mark_active cm si) = live_connections si" "dev_refs (mark_active cm si) = dev_refs si"
  "num_connections (mark_active cm si) = num_connections si"
  "packets_forwarded (mark_active cm si) = packets_forwarded si"
  "packets_not_forwarded (mark_active cm si) = packets_not_forwarded si"
  "exception_events (mark_active cm si) = exception_events si"
  "sync_rule_callback (mark_active cm si) = sync_rule_callback si"
  by (simp_all add: mark_active_def Let_def upd_cm_def split: option.split)

lemma sfe_inv_mark_active:
  assumes i: "sfe_inv si g P" and m: "cm \<in> ft_live (ft si) (set (ga g))"
  shows "\<exists>g'. sfe_inv (mark_active cm si) g' P \<and> ga g' = ga g"
proof -
  let ?g = "if von (ft si) cm then g else g\<lparr>gv := gv g @ [cm]\<rparr>"
  have fi: "ft_inv (ft si) g" using i by (simp add: sfe_inv_def)
  have "ft_inv (ft (mark_active cm si)) ?g"
    unfolding ft_mark_active by (rule ft_activate_inv [OF fi m])
  moreover have "com (ft (mark_active cm si)) = com (ft si)" "crm (ft (mark_active cm si)) = crm (ft si)"
    "mco (ft (mark_active cm si)) = mco (ft si)" "mct (ft (mark_active cm si)) = mct (ft si)"
    unfolding ft_mark_active by (simp_all add: ft_activate_def del: ft_sel)
  then have "ft_live (ft (mark_active cm si)) C = ft_live (ft si) C" "pairs_ok (ft (mark_active cm si)) C = pairs_ok (ft si) C" for C
    unfolding ft_live_def pairs_ok_def by simp_all
  moreover have "refs_of (mark_active cm si) cs d = refs_of si cs d" for cs d by (simp add: refs_of_def)
  ultimately have "sfe_inv (mark_active cm si) ?g P"
    using i by (simp add: sfe_inv_def mem_ok_def fun_eq_iff)
  then show ?thesis by (intro exI [of _ ?g]) simp
qed

lemma same_shape_exception [simp]: "same_shape si (exception e si') = same_shape si si'"
  by (simp add: exception_def)

lemma same_rules_exception [simp]: "same_rules si (exception e si') = same_rules si si'"
  by (simp add: exception_def same_rules_def)

lemma keeps_cm_counts [simp]:
  "keeps_cm (\<lambda>m. m\<lparr>cm_rx_packet_count := f m\<rparr>)" "keeps_cm (\<lambda>m. m\<lparr>cm_rx_byte_count := f m\<rparr>)"
  by (simp_all add: keeps_cm_def cm_view_def cm_key_def)

lemma window_update_shape [simp]:
  "same_shape si (tcp_window_update m th cm counter_cm e a s si') = same_shape si si'"
  "same_rules si (tcp_window_update m th cm counter_cm e a s si') = same_rules si si'"
  by (simp_all add: tcp_window_update_def Let_def)

lemma live_key_unique:
  assumes i: "sfe_inv si g P" and s: "same_shape si si'"
  shows "ft_live (ft si') C = ft_live (ft si) C"
  using s by (simp add: same_shape_def)

section \<open>What one packet does\<close>

text \<open>
  \<open>kept\<close>: the rules are as before. \<open>flushed c\<close>: connection \<open>c\<close> is gone, reported once if a
  callback is registered, and the other rules are as before.
\<close>

definition flushed :: "sfe_ipv4 \<Rightarrow> ptr \<Rightarrow> recv_result \<Rightarrow> bool" where
  "flushed si c res \<longleftrightarrow> sfe_rules (r_si res) = (sfe_rules si)(c_key (connections si c) := None)
     \<and> sfe_lookup si (c_key (connections si c)) = Some c
     \<and> map (\<lambda>(cb, sis). (cb, sis_key sis, sis_reason sis)) (r_sync res)
         = syncs_of (sync_rule_callback si) SFE_SYNC_REASON_FLUSH [c_key (connections si c)]"

definition dropped :: "sfe_ipv4 \<Rightarrow> sk_buff \<Rightarrow> recv_result \<Rightarrow> bool" where
  "dropped si skb res \<longleftrightarrow> r_ret res = 0 \<and> r_skb res = skb \<and> r_xmit res = []
     \<and> packets_forwarded (r_si res) = packets_forwarded si
     \<and> packets_not_forwarded (r_si res) = packets_not_forwarded si + 1"

definition forwarded :: "sfe_ipv4 \<Rightarrow> recv_result \<Rightarrow> bool" where
  "forwarded si res \<longleftrightarrow> r_ret res = 1 \<and> r_xmit res = [r_skb res] \<and> r_sync res = []
     \<and> packets_forwarded (r_si res) = packets_forwarded si + 1
     \<and> packets_not_forwarded (r_si res) = packets_not_forwarded si
     \<and> exception_events (r_si res) = exception_events si"

definition kept :: "sfe_ipv4 \<Rightarrow> recv_result \<Rightarrow> bool" where
  "kept si res \<longleftrightarrow> sfe_rules (r_si res) = sfe_rules si \<and> r_sync res = []"

text \<open>The exception counters: event \<open>e\<close> counted once, or none.\<close>

definition counted :: "sfe_ipv4_exception_events option \<Rightarrow> sfe_ipv4 \<Rightarrow> sfe_ipv4 \<Rightarrow> bool" where
  "counted eo si si' \<longleftrightarrow> exception_events si' = (case eo of None \<Rightarrow> exception_events si
     | Some e \<Rightarrow> (exception_events si)(e := exception_events si e + 1))"

definition recv_outcome :: "sfe_ipv4 \<Rightarrow> sk_buff \<Rightarrow> recv_result \<Rightarrow> bool" where
  "recv_outcome si skb res \<longleftrightarrow>
     dropped si skb res \<and> (\<exists>eo. counted eo si (r_si res)) \<and> (kept si res \<or> (\<exists>c. flushed si c res))
     \<or> forwarded si res \<and> kept si res"

lemma flush_counters:
  "packets_forwarded (fst (sfe_ipv4_flush_sfe_ipv4_connection j si c reason)) = packets_forwarded si"
  "packets_not_forwarded (fst (sfe_ipv4_flush_sfe_ipv4_connection j si c reason)) = packets_not_forwarded si"
  "exception_events (fst (sfe_ipv4_flush_sfe_ipv4_connection j si c reason)) = exception_events si"
  by (simp_all add: sfe_ipv4_flush_sfe_ipv4_connection_def sfe_ipv4_gen_sync_sfe_ipv4_connection_def
      Let_def split_beta dev_put_def upd_cm_def upd_c_def split: option.split)

lemma not_forwarded_ok:
  assumes i: "sfe_inv si g P"
  shows "sfe_inv (r_si (not_forwarded e si skb)) g P" and "dropped si skb (not_forwarded e si skb)"
    and "kept si (not_forwarded e si skb)" and "counted (Some e) si (r_si (not_forwarded e si skb))"
proof -
  show "sfe_inv (r_si (not_forwarded e si skb)) g P"
    by (rule sfe_inv_same_shape [OF _ i]) (simp add: not_forwarded_def)
  have "sfe_rules (exception e si) = sfe_rules si"
    by (rule rules_same_shape [OF i]) simp_all
  then show "kept si (not_forwarded e si skb)" by (simp add: kept_def not_forwarded_def)
  show "dropped si skb (not_forwarded e si skb)" "counted (Some e) si (r_si (not_forwarded e si skb))"
    by (simp_all add: dropped_def not_forwarded_def counted_def exception_def)
qed

lemma flush_not_forwarded_ok:
  fixes k e skb
  assumes i: "sfe_inv si g P" and m: "cm \<in> ft_live (ft si) (set (ga g))"
  defines "res \<equiv> flush_not_forwarded k e cm si skb"
  shows "\<exists>g'. sfe_inv (r_si res) g' P" and "dropped si skb res" and "flushed si (cm_connection (matches si cm)) res"
    and "counted (Some e) si (r_si res)"
proof -
  let ?c = "cm_connection (matches si cm)"
  let ?si1 = "sfe_ipv4_remove_sfe_ipv4_connection si ?c"
  let ?fl = "sfe_ipv4_flush_sfe_ipv4_connection (k_jiffies k) (exception e ?si1) ?c SFE_SYNC_REASON_FLUSH"
  have res: "res = \<lparr>r_ret = 0, r_si = fst ?fl, r_skb = skb, r_xmit = [], r_sync = snd ?fl\<rparr>"
    by (simp add: res_def flush_not_forwarded_def Let_def split_beta)
  have "pairs_ok (ft si) (set (ga g))" using i by (simp add: sfe_inv_def ft_inv_def)
  then have c: "?c \<in> set (ga g)" using m by (auto simp: ft_live_def pairs_ok_def)
  have i1: "sfe_inv (exception e ?si1) (lists_remove (ft si) g ?c) (?c # P)"
    by (rule sfe_inv_same_shape [OF _ sfe_inv_remove [OF i c]]) simp
  have i2: "sfe_inv (fst ?fl) (lists_remove (ft si) g ?c) P"
    using flush_inv [OF i1, of ?c "k_jiffies k" SFE_SYNC_REASON_FLUSH] by simp
  then show "\<exists>g'. sfe_inv (r_si res) g' P" by (auto simp: res)
  have sd: "same_data si ?si1" by (rule same_data_remove_connection)
  then show "dropped si skb res" "counted (Some e) si (r_si res)"
    by (simp_all add: res dropped_def counted_def flush_counters exception_def same_data_def)
  have r: "same_rules si (fst ?fl)"
    by (rule same_rules_trans [OF _ flush_rules]) (simp add: same_rules_data [OF sd])
  have d: "distinct (ga g)" using i by (simp add: sfe_inv_def mem_ok_def)
  have inj: "inj_on (\<lambda>p. c_key (connections si p)) (set (ga g))"
    using i by (simp add: sfe_inv_def ft_inv_def conns_ok_def)
  have look: "sfe_lookup si (c_key (connections si ?c)) = Some ?c" using c by (simp add: lookup_iff [OF i])
  have "sfe_rules (fst ?fl) key = ((sfe_rules si)(c_key (connections si ?c) := None)) key" for key
  proof (cases "key = c_key (connections si ?c)")
    case True
    have "\<forall>x \<in> set (ga (lists_remove (ft si) g ?c)). c_key (connections (fst ?fl) x) \<noteq> key"
      using r inj c d True by (auto simp: lists_remove_def same_rules_def inj_on_def)
    then have "sfe_lookup (fst ?fl) key = None" by (simp only: lookup_None [OF i2])
    with True show ?thesis by (simp add: sfe_rules_def)
  next
    case False
    have "sfe_lookup (fst ?fl) key = sfe_lookup si key"
      by (rule lookup_eqI [OF i i2]) (use r d False in \<open>auto simp: lists_remove_def same_rules_def\<close>)
    then show ?thesis using False r by (auto simp: sfe_rules_def same_rules_def intro!: option.map_cong)
  qed
  moreover have "sync_rule_callback (exception e ?si1) = sync_rule_callback si"
    "c_key (connections (exception e ?si1) ?c) = c_key (connections si ?c)"
    using same_rules_data [OF sd] sd by (simp_all add: exception_def same_rules_def same_data_def)
  ultimately show "flushed si ?c res"
    by (simp add: flushed_def res look flush_syncs syncs_of_def fun_eq_iff split: option.split)
qed

lemma find_match_inv:
  assumes i: "sfe_inv si g P"
  obtains r si1 g1 where "sfe_ipv4_find_sfe_ipv4_connection_match si dev protocol src_ip src_port dest_ip dest_port = Some (r, si1)"
    and "sfe_inv si1 g1 P" and "ga g1 = ga g" and "same_data si si1" and "sfe_rules si1 = sfe_rules si"
    and "sfe_lookup si1 = sfe_lookup si"
    and "case r of None \<Rightarrow> si1 = si \<and> (\<forall>m \<in> ft_live (ft si) (set (ga g)). cm_key (matches si m) \<noteq> (dev, protocol, src_ip, src_port, dest_ip, dest_port))
       | Some cm \<Rightarrow> cm \<in> ft_live (ft si1) (set (ga g1)) \<and> cm_key (matches si1 cm) = (dev, protocol, src_ip, src_port, dest_ip, dest_port)"
proof -
  have fi: "ft_inv (ft si) g" using i by (simp add: sfe_inv_def)
  from find_match_spec [OF fi, of dev protocol src_ip src_port dest_ip dest_port]
  obtain r si1 g1 where F: "sfe_ipv4_find_sfe_ipv4_connection_match si dev protocol src_ip src_port dest_ip dest_port = Some (r, si1)"
    "same_data si si1" "num_connections si1 = num_connections si" "ft_inv (ft si1) g1" "ga g1 = ga g" "gv g1 = gv g"
    "case r of None \<Rightarrow> si1 = si \<and> (\<forall>m \<in> ft_live (ft si) (set (ga g)). cm_key (matches si m) \<noteq> (dev, protocol, src_ip, src_port, dest_ip, dest_port))
       | Some m \<Rightarrow> m \<in> ft_live (ft si) (set (ga g)) \<and> cm_key (matches si m) = (dev, protocol, src_ip, src_port, dest_ip, dest_port)"
    by (elim exE conjE) (rule that)
  have m: "mem_ok si (ga g @ P)" using i by (simp add: sfe_inv_def)
  then have "mem_ok si1 (ga g @ P)" by (intro same_data_mem [OF F(2) _ _ _ m]) (simp_all add: mem_ok_def)
  then have i1: "sfe_inv si1 g1 P" using F(3,4,5) i by (simp add: sfe_inv_def)
  note r1 = same_rules_data [OF F(2)]
  have l: "sfe_lookup si1 = sfe_lookup si"
  proof
    show "sfe_lookup si1 key = sfe_lookup si key" for key
      using r1 by (intro lookup_eqI [OF i i1]) (simp add: F(5) same_rules_def)
  qed
  have "sfe_rules si1 = sfe_rules si"
    using r1 by (auto simp: sfe_rules_def fun_eq_iff l same_rules_def intro!: option.map_cong)
  moreover have "ft_live (ft si1) C = ft_live (ft si) C" for C
    using same_dataD(6,7) [OF F(2)] by (simp add: ft_live_def)
  then have "case r of None \<Rightarrow> si1 = si \<and> (\<forall>m \<in> ft_live (ft si) (set (ga g)). cm_key (matches si m) \<noteq> (dev, protocol, src_ip, src_port, dest_ip, dest_port))
       | Some cm \<Rightarrow> cm \<in> ft_live (ft si1) (set (ga g1)) \<and> cm_key (matches si1 cm) = (dev, protocol, src_ip, src_port, dest_ip, dest_port)"
    using F(5,7) same_dataD(14) [OF F(2)] by (simp split: option.splits)
  ultimately show thesis using F(1,2,5) i1 l by (intro that)
qed

text \<open>States that agree on everything an outcome is measured against.\<close>

definition same_base :: "sfe_ipv4 \<Rightarrow> sfe_ipv4 \<Rightarrow> bool" where
  "same_base si si1 \<longleftrightarrow> same_adj si si1 \<and> same_rules si si1 \<and> sfe_rules si1 = sfe_rules si \<and> sfe_lookup si1 = sfe_lookup si
     \<and> sync_rule_callback si1 = sync_rule_callback si \<and> exception_events si1 = exception_events si
     \<and> packets_forwarded si1 = packets_forwarded si \<and> packets_not_forwarded si1 = packets_not_forwarded si"

lemma outcome_same_base:
  assumes s: "same_base si si1" and o: "recv_outcome si1 skb res"
  shows "recv_outcome si skb res"
proof -
  have k: "c_key (connections si1 c) = c_key (connections si c)" for c
    using s by (simp add: same_base_def same_rules_def)
  have e: "dropped si1 skb res = dropped si skb res" "forwarded si1 res = forwarded si res" "kept si1 res = kept si res"
    "flushed si1 c res = flushed si c res" "counted eo si1 x = counted eo si x" for c eo x
    using s by (simp_all add: dropped_def forwarded_def kept_def flushed_def counted_def k same_base_def
        split: option.split)
  show ?thesis using o unfolding recv_outcome_def e .
qed

lemma window_update_base:
  assumes i: "sfe_inv si g P"
  shows "same_base si (tcp_window_update m th cm counter_cm e a s si)"
proof -
  let ?si = "tcp_window_update m th cm counter_cm e a s si"
  have "sfe_rules ?si = sfe_rules si" by (rule rules_same_shape [OF i]) simp_all
  moreover have "sfe_lookup ?si = sfe_lookup si" by (rule lookup_same_shape [OF i]) simp
  moreover have "sync_rule_callback ?si = sync_rule_callback si \<and> exception_events ?si = exception_events si
     \<and> packets_forwarded ?si = packets_forwarded si \<and> packets_not_forwarded ?si = packets_not_forwarded si"
    by (simp add: tcp_window_update_def Let_def upd_cm_def)
  moreover have "same_adj si ?si"
    by (auto simp: tcp_window_update_def Let_def intro!: same_adj_upd_cm)
  ultimately show ?thesis by (simp add: same_base_def)
qed

lemma forward_tail_ok:
  fixes k len skb
  assumes i: "sfe_inv si g P" and m: "cm \<in> ft_live (ft si) (set (ga g))"
  defines "res \<equiv> forward_tail k len cm si skb"
  shows "\<exists>g'. sfe_inv (r_si res) g' P" and "forwarded si res" and "kept si res"
proof -
  let ?f = "\<lambda>m. m\<lparr>cm_rx_packet_count := cm_rx_packet_count m + 1\<rparr>"
  let ?h = "\<lambda>m. m\<lparr>cm_rx_byte_count := cm_rx_byte_count m + len\<rparr>"
  let ?si1 = "upd_cm cm ?h (upd_cm cm ?f si)"
  have s1: "same_shape si ?si1" by simp
  have i1: "sfe_inv ?si1 g P" by (rule sfe_inv_same_shape [OF s1 i])
  have "cm \<in> ft_live (ft ?si1) (set (ga g))" using m by simp
  from sfe_inv_mark_active [OF i1 this]
  obtain g' where i2: "sfe_inv (mark_active cm ?si1) g' P" and ga: "ga g' = ga g" by blast
  have r: "r_si res = (mark_active cm ?si1)\<lparr>packets_forwarded := packets_forwarded (mark_active cm ?si1) + 1\<rparr>"
    by (simp add: res_def forward_tail_def Let_def)
  have i3: "sfe_inv (r_si res) g' P" unfolding r by (rule sfe_inv_same_shape [OF _ i2]) simp
  then show "\<exists>g'. sfe_inv (r_si res) g' P" by blast
  have sr: "connections (r_si res) = connections si" by (simp add: r upd_cm_def)
  have "sfe_lookup (r_si res) key = sfe_lookup si key" for key
    by (rule lookup_eqI [OF i i3]) (simp add: ga sr)
  then have "sfe_rules (r_si res) = sfe_rules si" by (simp add: sfe_rules_def sr fun_eq_iff)
  moreover have "r_sync res = []" by (simp add: res_def forward_tail_def Let_def)
  ultimately show "kept si res" by (simp add: kept_def)
  show "forwarded si res"
    by (simp add: forwarded_def r) (simp add: res_def forward_tail_def Let_def upd_cm_def)
qed

lemma recv_ok_intros:
  assumes "sfe_inv si g P"
  shows "\<exists>g'. sfe_inv (r_si (not_forwarded e si skb)) g' P \<and> recv_outcome si skb (not_forwarded e si skb)"
    and "cm \<in> ft_live (ft si) (set (ga g)) \<Longrightarrow>
      \<exists>g'. sfe_inv (r_si (flush_not_forwarded k e cm si skb)) g' P \<and> recv_outcome si skb (flush_not_forwarded k e cm si skb)"
    and "cm \<in> ft_live (ft si) (set (ga g)) \<Longrightarrow>
      \<exists>g'. sfe_inv (r_si (forward_tail k len cm si skb')) g' P \<and> recv_outcome si skb (forward_tail k len cm si skb')"
    and "\<exists>g'. sfe_inv (si\<lparr>packets_not_forwarded := packets_not_forwarded si + 1\<rparr>) g' P
      \<and> recv_outcome si skb \<lparr>r_ret = 0, r_si = si\<lparr>packets_not_forwarded := packets_not_forwarded si + 1\<rparr>,
                             r_skb = skb, r_xmit = [], r_sync = []\<rparr>"
proof -
  note i = assms
  show "\<exists>g'. sfe_inv (r_si (not_forwarded e si skb)) g' P \<and> recv_outcome si skb (not_forwarded e si skb)"
    using not_forwarded_ok [OF i] unfolding recv_outcome_def by blast
  show "\<exists>g'. sfe_inv (r_si (flush_not_forwarded k e cm si skb)) g' P \<and> recv_outcome si skb (flush_not_forwarded k e cm si skb)"
    if "cm \<in> ft_live (ft si) (set (ga g))"
    using flush_not_forwarded_ok [OF i that] unfolding recv_outcome_def by blast
  show "\<exists>g'. sfe_inv (r_si (forward_tail k len cm si skb')) g' P \<and> recv_outcome si skb (forward_tail k len cm si skb')"
    if "cm \<in> ft_live (ft si) (set (ga g))"
    using forward_tail_ok [OF i that] unfolding recv_outcome_def by blast
  let ?si = "si\<lparr>packets_not_forwarded := packets_not_forwarded si + 1\<rparr>"
  have "sfe_inv ?si g P" by (rule sfe_inv_same_shape [OF _ i]) simp
  moreover have "sfe_rules ?si = sfe_rules si"
    by (rule rules_same_shape [OF i]) (simp_all add: same_rules_def)
  moreover have "counted None si ?si" by (simp add: counted_def)
  ultimately show "\<exists>g'. sfe_inv ?si g' P
      \<and> recv_outcome si skb \<lparr>r_ret = 0, r_si = ?si, r_skb = skb, r_xmit = [], r_sync = []\<rparr>"
    unfolding recv_outcome_def dropped_def kept_def by auto
qed

section \<open>The handlers\<close>

lemma same_data_base:
  "same_data si si1 \<Longrightarrow> sfe_rules si1 = sfe_rules si \<Longrightarrow> sfe_lookup si1 = sfe_lookup si \<Longrightarrow> same_base si si1"
  using same_adj_data [of si si1] by (simp add: same_base_def same_rules_data same_data_def)

lemma find_match_base:
  assumes i: "sfe_inv si g P"
  shows "\<exists>r si1 g1. sfe_ipv4_find_sfe_ipv4_connection_match si dev protocol src_ip src_port dest_ip dest_port = Some (r, si1)
    \<and> sfe_inv si1 g1 P \<and> same_base si si1 \<and> (\<forall>cm. r = Some cm \<longrightarrow> cm \<in> ft_live (ft si1) (set (ga g1)))"
proof (rule find_match_inv [OF i, of dev protocol src_ip src_port dest_ip dest_port])
  fix r si1 g1
  assume F: "sfe_ipv4_find_sfe_ipv4_connection_match si dev protocol src_ip src_port dest_ip dest_port = Some (r, si1)"
    and i1: "sfe_inv si1 g1 P" and s: "same_data si si1" "sfe_rules si1 = sfe_rules si" "sfe_lookup si1 = sfe_lookup si"
    and c: "case r of None \<Rightarrow> si1 = si \<and> (\<forall>m \<in> ft_live (ft si) (set (ga g)). cm_key (matches si m) \<noteq> (dev, protocol, src_ip, src_port, dest_ip, dest_port))
       | Some cm \<Rightarrow> cm \<in> ft_live (ft si1) (set (ga g1)) \<and> cm_key (matches si1 cm) = (dev, protocol, src_ip, src_port, dest_ip, dest_port)"
  have "\<forall>cm. r = Some cm \<longrightarrow> cm \<in> ft_live (ft si1) (set (ga g1))"
    using c by (cases r) auto
  with F i1 same_data_base [OF s] show ?thesis by blast
qed

definition recv_returns :: "sfe_ipv4 \<Rightarrow> ptr list \<Rightarrow> sk_buff \<Rightarrow> recv_result option \<Rightarrow> bool" where
  "recv_returns si P skb ro \<longleftrightarrow> (\<exists>res g'. ro = Some res \<and> sfe_inv (r_si res) g' P \<and> recv_outcome si skb res \<and> same_adj si (r_si res))"

lemma recv_returns_base:
  "same_base si si1 \<Longrightarrow> recv_returns si1 P skb ro \<Longrightarrow> recv_returns si P skb ro"
proof -
  assume b: "same_base si si1" and r: "recv_returns si1 P skb ro"
  from r obtain res g' where "ro = Some res" "sfe_inv (r_si res) g' P" "recv_outcome si1 skb res" "same_adj si1 (r_si res)"
    unfolding recv_returns_def by (elim exE conjE) (rule that)
  moreover from b have "same_adj si si1" by (simp add: same_base_def)
  ultimately show "recv_returns si P skb ro"
    using outcome_same_base [OF b] same_adj_trans unfolding recv_returns_def by blast
qed

lemma mark_active_adj: "same_adj si (mark_active cm si)"
proof -
  have cm: "adj_ok (m\<lparr>cm_active := b\<rparr>) = adj_ok m" "adj_ok (m\<lparr>cm_active_next := q\<rparr>) = adj_ok m"
    "adj_ok (m\<lparr>cm_active_prev := q\<rparr>) = adj_ok m" for m b q
    by (simp_all add: adj_ok_def)
  show ?thesis by (simp add: same_adj_def mark_active_def Let_def upd_cm_def cm split: option.split)
qed

lemma forward_tail_adj: "same_adj si (r_si (forward_tail k len cm si skb))"
proof -
  let ?si1 = "upd_cm cm (\<lambda>m. m\<lparr>cm_rx_byte_count := cm_rx_byte_count m + len\<rparr>)
    (upd_cm cm (\<lambda>m. m\<lparr>cm_rx_packet_count := cm_rx_packet_count m + 1\<rparr>) si)"
  have "same_adj si ?si1" by (intro same_adj_upd_cm) simp_all
  from same_adj_trans [OF this mark_active_adj] have "same_adj si (mark_active cm ?si1)" .
  then show ?thesis
    by (rule same_adj_trans) (rule same_adj_frame, simp_all add: forward_tail_def Let_def)
qed

lemma recv_returns_intros:
  assumes "sfe_inv si g P"
  shows "recv_returns si P skb (Some (not_forwarded e si skb))"
    and "cm \<in> ft_live (ft si) (set (ga g)) \<Longrightarrow> recv_returns si P skb (Some (flush_not_forwarded k e cm si skb))"
    and "cm \<in> ft_live (ft si) (set (ga g)) \<Longrightarrow> recv_returns si P skb (Some (forward_tail k len cm si skb'))"
    and "recv_returns si P skb (Some \<lparr>r_ret = 0, r_si = si\<lparr>packets_not_forwarded := packets_not_forwarded si + 1\<rparr>,
                             r_skb = skb, r_xmit = [], r_sync = []\<rparr>)"
proof -
  note ok = recv_ok_intros [OF assms]
  have "same_adj si (exception e si')" if "same_adj si si'" for e si'
    using that by (simp add: same_adj_def exception_def)
  note ex = this
  show "recv_returns si P skb (Some (not_forwarded e si skb))"
    using ok(1) ex unfolding recv_returns_def by (auto simp: not_forwarded_def)
  show "recv_returns si P skb (Some (flush_not_forwarded k e cm si skb))" if "cm \<in> ft_live (ft si) (set (ga g))"
    using ok(2) [OF that] same_adj_trans [OF ex [OF same_adj_data [OF same_data_remove_connection]] flush_adj]
    unfolding recv_returns_def by (auto simp: flush_not_forwarded_def Let_def split_beta)
  show "recv_returns si P skb (Some (forward_tail k len cm si skb'))" if "cm \<in> ft_live (ft si) (set (ga g))"
    using ok(3) [OF that] forward_tail_adj unfolding recv_returns_def by blast
  show "recv_returns si P skb (Some \<lparr>r_ret = 0, r_si = si\<lparr>packets_not_forwarded := packets_not_forwarded si + 1\<rparr>,
                             r_skb = skb, r_xmit = [], r_sync = []\<rparr>)"
    using ok(4) [of skb] unfolding recv_returns_def by (auto intro!: same_adj_frame)
qed

lemma recv_udp_returns:
  assumes i: "sfe_inv si g P"
  shows "recv_returns si P skb (sfe_ipv4_recv_udp k si skb dev len ihl flush_on_find)"
proof (cases "k_may_pull k skb (UDPH_LEN + ihl)")
  case False
  then show ?thesis using recv_returns_intros(1) [OF i] by (simp add: sfe_ipv4_recv_udp_def)
next
  case True
  let ?m = "skb_mem skb"
  obtain r si1 g1 where F: "sfe_ipv4_find_sfe_ipv4_connection_match si dev IPPROTO_UDP (ld32 ?m ip_saddr)
      (ld16 ?m (unat ihl + th_source)) (ld32 ?m ip_daddr) (ld16 ?m (unat ihl + th_dest)) = Some (r, si1)"
    and i1: "sfe_inv si1 g1 P" and b: "same_base si si1"
    and live: "\<forall>cm. r = Some cm \<longrightarrow> cm \<in> ft_live (ft si1) (set (ga g1))"
    using find_match_base [OF i, of dev IPPROTO_UDP "ld32 ?m ip_saddr" "ld16 ?m (unat ihl + th_source)"
          "ld32 ?m ip_daddr" "ld16 ?m (unat ihl + th_dest)"] by (elim exE conjE) (rule that)
  note R = recv_returns_intros [OF i1]
  show ?thesis
  proof (cases r)
    case None
    then show ?thesis using True F by (simp add: sfe_ipv4_recv_udp_def Let_def recv_returns_base [OF b R(1)])
  next
    case (Some cm)
    have L: "cm \<in> ft_live (ft si1) (set (ga g1))" using live Some by simp
    show ?thesis
      by (rule recv_returns_base [OF b])
        (use True F Some R(2) [OF L] R(3) [OF L] R(4) in \<open>simp add: sfe_ipv4_recv_udp_def Let_def udp_forward_def\<close>)
  qed
qed

lemma recv_tcp_checked_returns:
  assumes i: "sfe_inv si g P" and L: "cm \<in> ft_live (ft si) (set (ga g))"
  shows "recv_returns si P skb (recv_tcp_checked k si skb len ihl cm ttl)"
proof -
  note R = recv_returns_intros [OF i]
  let ?cc = "cm_counter_match (matches si cm)"
  obtain v where v: "tcp_seq_check (skb_mem skb) (unat ihl) len (cm_tcp (matches si cm)) (cm_tcp (matches si ?cc)) = Some v"
    using tcp_seq_check_returns by blast
  show ?thesis
  proof (cases "has_flag (cm_flags (matches si cm)) SFE_IPV4_CONNECTION_MATCH_FLAG_NO_SEQ_CHECK")
    case True
    then show ?thesis using R(3) [OF L] by (simp add: recv_tcp_checked_def tcp_forward_def Let_def)
  next
    case False
    show ?thesis
    proof (cases v)
      case (Inl e)
      then show ?thesis using False v R(2) [OF L] by (simp add: recv_tcp_checked_def Let_def)
    next
      case (Inr w)
      obtain e a s where w: "w = (e, a, s)" by (cases w)
      let ?si = "tcp_window_update (skb_mem skb) (unat ihl) cm ?cc e a s si"
      have sh: "same_shape si ?si" by simp
      have "cm \<in> ft_live (ft ?si) (set (ga g))" using L sh by (simp add: same_shape_def)
      note R' = recv_returns_base [OF window_update_base [OF i] recv_returns_intros(3) [OF sfe_inv_same_shape [OF sh i] this]]
      show ?thesis
        using False v Inr w R' by (simp add: recv_tcp_checked_def Let_def tcp_forward_def)
    qed
  qed
qed

lemma recv_tcp_returns:
  assumes i: "sfe_inv si g P"
  shows "recv_returns si P skb (sfe_ipv4_recv_tcp k si skb dev len ihl flush_on_find)"
proof (cases "k_may_pull k skb (TCPH_LEN + ihl)")
  case False
  then show ?thesis using recv_returns_intros(1) [OF i] by (simp add: sfe_ipv4_recv_tcp_def)
next
  case True
  let ?m = "skb_mem skb"
  obtain r si1 g1 where F: "sfe_ipv4_find_sfe_ipv4_connection_match si dev IPPROTO_TCP (ld32 ?m ip_saddr)
      (ld16 ?m (unat ihl + th_source)) (ld32 ?m ip_daddr) (ld16 ?m (unat ihl + th_dest)) = Some (r, si1)"
    and i1: "sfe_inv si1 g1 P" and b: "same_base si si1"
    and live: "\<forall>cm. r = Some cm \<longrightarrow> cm \<in> ft_live (ft si1) (set (ga g1))"
    using find_match_base [OF i, of dev IPPROTO_TCP "ld32 ?m ip_saddr" "ld16 ?m (unat ihl + th_source)"
          "ld32 ?m ip_daddr" "ld16 ?m (unat ihl + th_dest)"] by (elim exE conjE) (rule that)
  note R = recv_returns_intros [OF i1]
  show ?thesis
  proof (cases r)
    case None
    then show ?thesis using True F by (simp add: sfe_ipv4_recv_tcp_def Let_def recv_returns_base [OF b R(1)])
  next
    case (Some cm)
    have L: "cm \<in> ft_live (ft si1) (set (ga g1))" using live Some by simp
    show ?thesis
      by (rule recv_returns_base [OF b])
        (use True F Some R(2) [OF L] recv_tcp_checked_returns [OF i1 L] R(4) in \<open>simp add: sfe_ipv4_recv_tcp_def Let_def\<close>)
  qed
qed

lemma recv_icmp_returns:
  assumes i: "sfe_inv si g P"
  shows "recv_returns si P skb (sfe_ipv4_recv_icmp k si skb dev len ihl)"
proof -
  have F: "recv_returns si P skb (do {
        (r, si) \<leftarrow> sfe_ipv4_find_sfe_ipv4_connection_match si dev protocol dest_ip dest_port src_ip src_port;
        case r of
          None \<Rightarrow> Some (not_forwarded ICMP_NO_CONNECTION si skb)
        | Some cm \<Rightarrow> Some (flush_not_forwarded k ICMP_FLUSHED_CONNECTION cm si skb) })"
    for protocol dest_ip dest_port src_ip src_port
  proof -
    obtain r si1 g1 where F: "sfe_ipv4_find_sfe_ipv4_connection_match si dev protocol dest_ip dest_port src_ip src_port = Some (r, si1)"
      and i1: "sfe_inv si1 g1 P" and b: "same_base si si1"
      and live: "\<forall>cm. r = Some cm \<longrightarrow> cm \<in> ft_live (ft si1) (set (ga g1))"
      using find_match_base [OF i, of dev protocol dest_ip dest_port src_ip src_port] by (elim exE conjE) (rule that)
    show ?thesis
      by (rule recv_returns_base [OF b])
        (use F recv_returns_intros(1,2) [OF i1] live in \<open>simp split: option.split\<close>)
  qed
  show ?thesis
    unfolding sfe_ipv4_recv_icmp_def Let_def
    by (simp add: F recv_returns_intros(1) [OF i])
qed

lemma recv_returns_recv:
  assumes i: "sfe_inv si g P"
  shows "recv_returns si P skb (sfe_ipv4_recv k dev si skb)"
  unfolding sfe_ipv4_recv_def Let_def
  by (simp add: recv_returns_intros(1) [OF i] recv_udp_returns [OF i] recv_tcp_returns [OF i] recv_icmp_returns [OF i])

end
