(* ===== verification/SFE_IPv4_Packet.thy ===== *)
theory SFE_IPv4_Packet
  imports SFE_IPv4_Recv_Inv
begin

text \<open>
  The packet a forwarding leaves behind, from the entry point \<open>sfe_ipv4_recv\<close>: which flow it
  belongs to, which guards it passed, and that its bytes are the rewritten ones behind the layer 2
  header of the flow.
\<close>

section \<open>The buffer handed to the device\<close>

definition sent :: "kernel \<Rightarrow> sfe_ipv4_connection_match \<Rightarrow> u32 \<Rightarrow> u32 \<Rightarrow> sk_buff \<Rightarrow> mem \<Rightarrow> sk_buff" where
  "sent k cm mark len skb out =
     (let skb = skb\<lparr>skb_mem := out, skb_dev := cm_xmit_dev cm\<rparr>;
          skb = write_l2_hdr k cm len skb;
          skb = (if has_flag (cm_flags cm) SFE_IPV4_CONNECTION_MATCH_FLAG_PRIORITY_REMARK
                 then skb\<lparr>skb_priority := cm_priority cm\<rparr> else skb)
      in skb\<lparr>skb_mark := mark\<rparr>)"

text \<open>The part of a match that forwarding reads.\<close>

definition cm_core :: "sfe_ipv4_connection_match \<Rightarrow> sfe_ipv4_connection_match" where
  "cm_core m = m\<lparr>cm_next := None, cm_prev := None, cm_active_next := None, cm_active_prev := None, cm_active := False,
     cm_rx_packet_count := 0, cm_rx_byte_count := 0, cm_tcp := \<lparr>tcp_win_scale = 0, tcp_max_win = 0, tcp_end = 0, tcp_max_end = 0\<rparr>\<rparr>"

lemma core_sent: "sent k (cm_core m) mark len skb out = sent k m mark len skb out"
  by (simp add: sent_def cm_core_def write_l2_hdr_def write_eth_hdr_def Let_def)

lemma core_sel:
  "cm_flags (cm_core m) = cm_flags m" "cm_dscp (cm_core m) = cm_dscp m"
  "cm_xlate_src_ip (cm_core m) = cm_xlate_src_ip m" "cm_xlate_src_port (cm_core m) = cm_xlate_src_port m"
  "cm_xlate_src_csum_adjustment (cm_core m) = cm_xlate_src_csum_adjustment m"
  "cm_xlate_src_partial_csum_adjustment (cm_core m) = cm_xlate_src_partial_csum_adjustment m"
  "cm_xlate_dest_ip (cm_core m) = cm_xlate_dest_ip m" "cm_xlate_dest_port (cm_core m) = cm_xlate_dest_port m"
  "cm_xlate_dest_csum_adjustment (cm_core m) = cm_xlate_dest_csum_adjustment m"
  "cm_xlate_dest_partial_csum_adjustment (cm_core m) = cm_xlate_dest_partial_csum_adjustment m"
  by (simp_all add: cm_core_def)

lemma core_xlate:
  "remark_dscp (cm_core m) x = remark_dscp m x"
  "udp_xlate_src p ihl (cm_core m) x = udp_xlate_src p ihl m x"
  "udp_xlate_dest p ihl (cm_core m) x = udp_xlate_dest p ihl m x"
  "tcp_xlate_src p ihl (cm_core m) x = tcp_xlate_src p ihl m x"
  "tcp_xlate_dest p ihl (cm_core m) x = tcp_xlate_dest p ihl m x"
  unfolding remark_dscp_def udp_xlate_src_def udp_xlate_dest_def tcp_xlate_src_def tcp_xlate_dest_def core_sel
  by (rule refl)+

lemma core_rewrite:
  "udp_rewrite p (cm_core m) ttl x = udp_rewrite p m ttl x" "tcp_rewrite p (cm_core m) ttl x = tcp_rewrite p m ttl x"
  by (simp_all only: udp_rewrite_def tcp_rewrite_def core_xlate)

lemma core_fields:
  "cm_connection (cm_core m) = cm_connection m" "cm_key (cm_core m) = cm_key m"
  "cm_flow_accel (cm_core m) = cm_flow_accel m" "cm_xmit_dev_mtu (cm_core m) = cm_xmit_dev_mtu m"
  by (simp_all add: cm_core_def cm_key_def)

lemma core_eq:
  assumes "cm_core m' = cm_core m"
  shows "sent k m' mark len skb out = sent k m mark len skb out"
    and "udp_rewrite p m' ttl x = udp_rewrite p m ttl x" "tcp_rewrite p m' ttl x = tcp_rewrite p m ttl x"
    and "cm_connection m' = cm_connection m" "cm_key m' = cm_key m" "cm_flow_accel m' = cm_flow_accel m"
    and "cm_xmit_dev_mtu m' = cm_xmit_dev_mtu m"
  using assms core_sent core_rewrite core_fields by metis+

definition same_core :: "sfe_ipv4 \<Rightarrow> sfe_ipv4 \<Rightarrow> bool" where
  "same_core si si' \<longleftrightarrow> (\<forall>p. cm_core (matches si' p) = cm_core (matches si p))
     \<and> (\<forall>p. c_mark (connections si' p) = c_mark (connections si p))"

lemma same_core_trans: "same_core a b \<Longrightarrow> same_core b c \<Longrightarrow> same_core a c"
  by (simp add: same_core_def)

lemma same_core_data:
  assumes s: "same_data si si'" shows "same_core si si'"
proof -
  have "cm_core (cm_data m) = cm_core m" for m by (simp add: cm_core_def cm_data_def)
  then have "cm_core (matches si' p) = cm_core (matches si p)" for p
    using s unfolding same_data_def by metis
  then show ?thesis using same_dataD(10) [OF s] by (simp add: same_core_def)
qed

lemma same_core_upd:
  assumes "\<And>m. cm_core (f m) = cm_core m"
  shows "same_core si (upd_cm p f si') = same_core si si'"
proof -
  have "cm_core (matches (upd_cm p f si') q) = cm_core (matches si' q)" for q
    using assms by (simp add: upd_cm_def)
  then show ?thesis by (simp add: same_core_def) (simp add: upd_cm_def)
qed

lemma window_update_core: "same_core si (tcp_window_update m th cm counter_cm e a s si)"
proof -
  have u: "cm_core (x\<lparr>cm_tcp := v\<rparr>) = cm_core x" for x v by (simp add: cm_core_def)
  have r: "same_core si si" by (simp add: same_core_def)
  show ?thesis by (simp add: tcp_window_update_def Let_def same_core_upd u r)
qed

lemma forward_tail_core:
  "cm_core (matches (mark_active cm (upd_cm cm (\<lambda>m. m\<lparr>cm_rx_byte_count := h m\<rparr>)
     (upd_cm cm (\<lambda>m. m\<lparr>cm_rx_packet_count := f m\<rparr>) si))) p) = cm_core (matches si p)"
  by (simp add: cm_core_def mark_active_def Let_def upd_cm_def split: option.split)

lemma forward_tail_skb:
  "r_skb (forward_tail k len cm si skb) = sent k (matches si cm)
     (c_mark (connections si (cm_connection (matches si cm)))) len skb (replace_ip_csum (skb_mem skb))"
proof -
  define si1 where "si1 = mark_active cm (upd_cm cm (\<lambda>m. m\<lparr>cm_rx_byte_count := cm_rx_byte_count m + len\<rparr>)
     (upd_cm cm (\<lambda>m. m\<lparr>cm_rx_packet_count := cm_rx_packet_count m + 1\<rparr>) si))"
  have "r_skb (forward_tail k len cm si skb) = sent k (matches si1 cm)
     (c_mark (connections si1 (cm_connection (matches si1 cm)))) len skb (replace_ip_csum (skb_mem skb))"
    by (simp add: forward_tail_def sent_def Let_def si1_def)
  moreover have "connections si1 = connections si" by (simp add: si1_def upd_cm_def)
  moreover have "cm_core (matches si1 cm) = cm_core (matches si cm)" unfolding si1_def by (rule forward_tail_core)
  ultimately show ?thesis using core_eq(1,4) by metis
qed

lemma sent_mem_irrelevant: "sent k cm mark len (skb\<lparr>skb_mem := x\<rparr>) out = sent k cm mark len skb out"
  by (simp add: sent_def)

lemma udp_forward_skb:
  "r_skb (udp_forward k len 20 cm ttl si skb) = sent k (matches si cm)
     (c_mark (connections si (cm_connection (matches si cm)))) len skb
     (udp_rewrite (skb_ip_summed_partial skb) (matches si cm) ttl (skb_mem skb))"
  by (simp add: udp_forward_def Let_def forward_tail_skb sent_mem_irrelevant udp_rewrite_def)

lemma tcp_forward_skb:
  "r_skb (tcp_forward k len 20 cm ttl si skb) = sent k (matches si cm)
     (c_mark (connections si (cm_connection (matches si cm)))) len skb
     (tcp_rewrite (skb_ip_summed_partial skb) (matches si cm) ttl (skb_mem skb))"
  by (simp add: tcp_forward_def Let_def forward_tail_skb sent_mem_irrelevant tcp_rewrite_def)

section \<open>What a forwarded packet went through\<close>

lemma drop_returns_0 [simp]: "r_ret (not_forwarded e si skb) = 0" "r_ret (flush_not_forwarded k e cm si skb) = 0"
  by (simp_all add: not_forwarded_def flush_not_forwarded_def Let_def split_beta)

lemma recv_udp_forwards:
  assumes "sfe_ipv4_recv_udp k si skb dev len ihl flush_on_find = Some res" and "r_ret res = 1"
  shows "\<exists>cm si1. sfe_ipv4_find_sfe_ipv4_connection_match si dev IPPROTO_UDP (ld32 (skb_mem skb) ip_saddr)
      (ld16 (skb_mem skb) (unat ihl + th_source)) (ld32 (skb_mem skb) ip_daddr) (ld16 (skb_mem skb) (unat ihl + th_dest))
      = Some (Some cm, si1)
    \<and> \<not> flush_on_find \<and> cm_flow_accel (matches si1 cm) \<noteq> 0 \<and> 2 \<le> skb_mem skb ip_ttl
    \<and> len \<le> ucast (cm_xmit_dev_mtu (matches si1 cm)) \<and> k_may_pull k skb (UDPH_LEN + ihl)
    \<and> res = udp_forward k len (unat ihl) cm (skb_mem skb ip_ttl) si1 skb"
proof -
  let ?m = "skb_mem skb"
  let ?find = "sfe_ipv4_find_sfe_ipv4_connection_match si dev IPPROTO_UDP (ld32 ?m ip_saddr)
      (ld16 ?m (unat ihl + th_source)) (ld32 ?m ip_daddr) (ld16 ?m (unat ihl + th_dest))"
  have pull: "k_may_pull k skb (UDPH_LEN + ihl)"
    by (rule ccontr) (use assms in \<open>auto simp: sfe_ipv4_recv_udp_def\<close>)
  obtain r si1 where F: "?find = Some (r, si1)"
    using assms(1) pull by (cases ?find) (auto simp: sfe_ipv4_recv_udp_def Let_def)
  obtain cm where r: "r = Some cm"
    using assms pull F by (cases r) (auto simp: sfe_ipv4_recv_udp_def Let_def)
  have E: "res = (if flush_on_find then flush_not_forwarded k UDP_IP_OPTIONS_OR_INITIAL_FRAGMENT cm si1 skb
      else if cm_flow_accel (matches si1 cm) = 0
      then \<lparr>r_ret = 0, r_si = si1\<lparr>packets_not_forwarded := packets_not_forwarded si1 + 1\<rparr>, r_skb = skb, r_xmit = [], r_sync = []\<rparr>
      else if ?m ip_ttl < 2 then flush_not_forwarded k UDP_SMALL_TTL cm si1 skb
      else if len > ucast (cm_xmit_dev_mtu (matches si1 cm)) then flush_not_forwarded k UDP_NEEDS_FRAGMENTATION cm si1 skb
      else udp_forward k len (unat ihl) cm (?m ip_ttl) si1 skb)"
    using assms(1) pull F r by (simp add: sfe_ipv4_recv_udp_def Let_def split: if_splits)
  show ?thesis
    using F r pull E assms(2) by (intro exI [of _ cm] exI [of _ si1]) (auto simp: not_less split: if_splits)
qed

lemma recv_tcp_checked_forwards:
  assumes "recv_tcp_checked k si skb len ihl cm ttl = Some res" and "r_ret res = 1"
  shows "\<exists>si2. same_core si si2 \<and> res = tcp_forward k len (unat ihl) cm ttl si2 skb
    \<and> (has_flag (cm_flags (matches si cm)) SFE_IPV4_CONNECTION_MATCH_FLAG_NO_SEQ_CHECK
        \<or> (\<exists>w. tcp_seq_check (skb_mem skb) (unat ihl) len (cm_tcp (matches si cm))
                 (cm_tcp (matches si (cm_counter_match (matches si cm)))) = Some (Inr w)))"
proof (cases "has_flag (cm_flags (matches si cm)) SFE_IPV4_CONNECTION_MATCH_FLAG_NO_SEQ_CHECK")
  case True
  with assms show ?thesis by (intro exI [of _ si]) (simp add: recv_tcp_checked_def Let_def same_core_def)
next
  case False
  let ?cc = "cm_counter_match (matches si cm)"
  obtain v where v: "tcp_seq_check (skb_mem skb) (unat ihl) len (cm_tcp (matches si cm)) (cm_tcp (matches si ?cc)) = Some v"
    using tcp_seq_check_returns by blast
  show ?thesis
  proof (cases v)
    case (Inl e)
    with False v assms show ?thesis by (auto simp: recv_tcp_checked_def Let_def)
  next
    case (Inr w)
    obtain e a s where w: "w = (e, a, s)" by (cases w)
    with False v Inr assms show ?thesis
      by (intro exI [of _ "tcp_window_update (skb_mem skb) (unat ihl) cm ?cc e a s si"])
        (simp add: recv_tcp_checked_def Let_def window_update_core)
  qed
qed

lemma recv_tcp_forwards:
  assumes "sfe_ipv4_recv_tcp k si skb dev len ihl flush_on_find = Some res" and "r_ret res = 1"
  shows "\<exists>cm si1. sfe_ipv4_find_sfe_ipv4_connection_match si dev IPPROTO_TCP (ld32 (skb_mem skb) ip_saddr)
      (ld16 (skb_mem skb) (unat ihl + th_source)) (ld32 (skb_mem skb) ip_daddr) (ld16 (skb_mem skb) (unat ihl + th_dest))
      = Some (Some cm, si1)
    \<and> \<not> flush_on_find \<and> cm_flow_accel (matches si1 cm) \<noteq> 0 \<and> 2 \<le> skb_mem skb ip_ttl
    \<and> (len \<le> ucast (cm_xmit_dev_mtu (matches si1 cm)) \<or> skb_is_gso skb) \<and> k_may_pull k skb (TCPH_LEN + ihl)
    \<and> fast_flags (ld32 (skb_mem skb) (unat ihl + tcp_flag_offs))
    \<and> recv_tcp_checked k si1 skb len ihl cm (skb_mem skb ip_ttl) = Some res"
proof -
  let ?m = "skb_mem skb"
  let ?find = "sfe_ipv4_find_sfe_ipv4_connection_match si dev IPPROTO_TCP (ld32 ?m ip_saddr)
      (ld16 ?m (unat ihl + th_source)) (ld32 ?m ip_daddr) (ld16 ?m (unat ihl + th_dest))"
  have pull: "k_may_pull k skb (TCPH_LEN + ihl)"
    by (rule ccontr) (use assms in \<open>auto simp: sfe_ipv4_recv_tcp_def\<close>)
  obtain r si1 where F: "?find = Some (r, si1)"
    using assms(1) pull by (cases ?find) (auto simp: sfe_ipv4_recv_tcp_def Let_def)
  obtain cm where r: "r = Some cm"
    using assms pull F by (cases r) (auto simp: sfe_ipv4_recv_tcp_def Let_def)
  have E: "(if flush_on_find then Some (flush_not_forwarded k TCP_IP_OPTIONS_OR_INITIAL_FRAGMENT cm si1 skb)
      else if cm_flow_accel (matches si1 cm) = 0
      then Some \<lparr>r_ret = 0, r_si = si1\<lparr>packets_not_forwarded := packets_not_forwarded si1 + 1\<rparr>, r_skb = skb, r_xmit = [], r_sync = []\<rparr>
      else if ?m ip_ttl < 2 then Some (flush_not_forwarded k TCP_SMALL_TTL cm si1 skb)
      else if len > ucast (cm_xmit_dev_mtu (matches si1 cm)) \<and> \<not> skb_is_gso skb
      then Some (flush_not_forwarded k TCP_NEEDS_FRAGMENTATION cm si1 skb)
      else if \<not> fast_flags (ld32 ?m (unat ihl + tcp_flag_offs)) then Some (flush_not_forwarded k TCP_FLAGS cm si1 skb)
      else recv_tcp_checked k si1 skb len ihl cm (?m ip_ttl)) = Some res"
    using assms(1) pull F r by (simp add: sfe_ipv4_recv_tcp_def Let_def cong: if_cong)
  show ?thesis
    using F r pull E assms(2) by (intro exI [of _ cm] exI [of _ si1]) (auto simp: not_less split: if_splits)
qed

text \<open>The flow and the bytes of a forwarded packet.\<close>

definition guards_passed :: "kernel \<Rightarrow> sk_buff \<Rightarrow> bool" where
  "guards_passed k skb \<longleftrightarrow> (let m = skb_mem skb in ip_version m 0 = 4 \<and> push_bit 2 (ip_ihl m 0) = IPH_LEN
     \<and> (ucast (ntohs (ld16 m ip_tot_len)) :: u32) \<le> skb_len skb \<and> IPH_LEN \<le> ucast (ntohs (ld16 m ip_tot_len))
     \<and> (ucast (ntohs (ld16 m ip_frag_off)) :: u32) AND IP_OFFSET = 0 \<and> (ucast (ntohs (ld16 m ip_frag_off)) :: u32) AND IP_MF = 0
     \<and> 2 \<le> m ip_ttl)"

definition packet_key :: "dev_ptr \<Rightarrow> mem \<Rightarrow> match_key" where
  "packet_key dev m = (dev, m ip_protocol, ld32 m ip_saddr, ld16 m (20 + th_source), ld32 m ip_daddr, ld16 m (20 + th_dest))"

lemma recv_cases:
  assumes "sfe_ipv4_recv k dev si skb = Some res" and "r_ret res = 1"
  shows "\<exists>ihl f. (let m = skb_mem skb in ip_version m 0 = 4
     \<and> (ucast (ntohs (ld16 m ip_tot_len)) :: u32) \<le> skb_len skb \<and> IPH_LEN \<le> ucast (ntohs (ld16 m ip_tot_len))
     \<and> (ucast (ntohs (ld16 m ip_frag_off)) :: u32) AND IP_OFFSET = 0
     \<and> ihl = push_bit 2 (ip_ihl m 0) \<and> f = ((ucast (ntohs (ld16 m ip_frag_off)) :: u32) AND IP_MF \<noteq> 0 \<or> ihl \<noteq> IPH_LEN)
     \<and> (m ip_protocol = IPPROTO_UDP \<and> sfe_ipv4_recv_udp k si skb dev (skb_len skb) ihl f = Some res
        \<or> m ip_protocol = IPPROTO_TCP \<and> sfe_ipv4_recv_tcp k si skb dev (skb_len skb) ihl f = Some res
        \<or> m ip_protocol = IPPROTO_ICMP \<and> sfe_ipv4_recv_icmp k si skb dev (skb_len skb) ihl = Some res))"
  using assms unfolding sfe_ipv4_recv_def Let_def
  by (intro exI [of _ "push_bit 2 (ip_ihl (skb_mem skb) 0)"] exI)
    (auto simp: not_less split: if_splits)

lemma recv_icmp_ret:
  assumes "sfe_ipv4_recv_icmp k si skb dev len ihl = Some res"
  shows "r_ret res = 0"
  using assms unfolding sfe_ipv4_recv_icmp_def Let_def
  by (auto simp: Option.bind_eq_Some_conv split: if_splits option.splits)

lemma recv_forwarded_packet:
  assumes i: "sfe_inv si g P" and r: "sfe_ipv4_recv k dev si skb = Some res" and f: "r_ret res = 1"
  shows "\<exists>cm. cm \<in> ft_live (ft si) (set (ga g)) \<and> cm_key (matches si cm) = packet_key dev (skb_mem skb) \<and> guards_passed k skb
    \<and> cm_flow_accel (matches si cm) \<noteq> 0
    \<and> (skb_mem skb ip_protocol = IPPROTO_UDP \<and> skb_len skb \<le> ucast (cm_xmit_dev_mtu (matches si cm)) \<and>
       r_skb res = sent k (matches si cm) (c_mark (connections si (cm_connection (matches si cm)))) (skb_len skb) skb
         (udp_rewrite (skb_ip_summed_partial skb) (matches si cm) (skb_mem skb ip_ttl) (skb_mem skb))
     \<or> skb_mem skb ip_protocol = IPPROTO_TCP \<and> fast_flags (ld32 (skb_mem skb) (20 + tcp_flag_offs)) \<and>
       (skb_len skb \<le> ucast (cm_xmit_dev_mtu (matches si cm)) \<or> skb_is_gso skb) \<and>
       r_skb res = sent k (matches si cm) (c_mark (connections si (cm_connection (matches si cm)))) (skb_len skb) skb
         (tcp_rewrite (skb_ip_summed_partial skb) (matches si cm) (skb_mem skb ip_ttl) (skb_mem skb)))"
proof -
  let ?m = "skb_mem skb" and ?len = "skb_len skb"
  obtain ihl fl where C: "ip_version ?m 0 = 4"
     "(ucast (ntohs (ld16 ?m ip_tot_len)) :: u32) \<le> ?len" "IPH_LEN \<le> ucast (ntohs (ld16 ?m ip_tot_len))"
     "(ucast (ntohs (ld16 ?m ip_frag_off)) :: u32) AND IP_OFFSET = 0" "ihl = push_bit 2 (ip_ihl ?m 0)"
     "fl = ((ucast (ntohs (ld16 ?m ip_frag_off)) :: u32) AND IP_MF \<noteq> 0 \<or> ihl \<noteq> IPH_LEN)"
     "?m ip_protocol = IPPROTO_UDP \<and> sfe_ipv4_recv_udp k si skb dev ?len ihl fl = Some res
      \<or> ?m ip_protocol = IPPROTO_TCP \<and> sfe_ipv4_recv_tcp k si skb dev ?len ihl fl = Some res
      \<or> ?m ip_protocol = IPPROTO_ICMP \<and> sfe_ipv4_recv_icmp k si skb dev ?len ihl = Some res"
    using recv_cases [OF r f] unfolding Let_def by (elim exE conjE) (rule that)
  have live: "cm \<in> ft_live (ft si) (set (ga g)) \<and> cm_key (matches si cm) = (dev, p, a, b, c, d) \<and> same_data si si1"
    if F: "sfe_ipv4_find_sfe_ipv4_connection_match si dev p a b c d = Some (Some cm, si1)" for cm si1 p a b c d
  proof -
    have fi: "ft_inv (ft si) g" using i by (simp add: sfe_inv_def)
    from find_match_spec [OF fi, of dev p a b c d] F show ?thesis by auto
  qed
  have u20: "unat IPH_LEN = 20" by (simp add: IPH_LEN_def)
  from C(7) show ?thesis
  proof (elim disjE conjE)
    assume p: "?m ip_protocol = IPPROTO_UDP" and R: "sfe_ipv4_recv_udp k si skb dev ?len ihl fl = Some res"
    obtain cm si1 where U: "sfe_ipv4_find_sfe_ipv4_connection_match si dev IPPROTO_UDP (ld32 ?m ip_saddr)
        (ld16 ?m (unat ihl + th_source)) (ld32 ?m ip_daddr) (ld16 ?m (unat ihl + th_dest)) = Some (Some cm, si1)"
      "\<not> fl" "cm_flow_accel (matches si1 cm) \<noteq> 0" "2 \<le> ?m ip_ttl" "?len \<le> ucast (cm_xmit_dev_mtu (matches si1 cm))"
      "res = udp_forward k ?len (unat ihl) cm (?m ip_ttl) si1 skb"
      using recv_udp_forwards [OF R f] by (elim exE conjE) (rule that)
    have ihl: "ihl = IPH_LEN" and nf: "(ucast (ntohs (ld16 ?m ip_frag_off)) :: u32) AND IP_MF = 0" using U(2) C(6) by simp_all
    note L = live [OF U(1)]
    have sc: "same_core si si1" using L by (simp add: same_core_data)
    then have core: "cm_core (matches si1 cm) = cm_core (matches si cm)" by (simp add: same_core_def)
    note ce = core_eq [OF core]
    have "r_skb res = sent k (matches si cm) (c_mark (connections si (cm_connection (matches si cm)))) ?len skb
        (udp_rewrite (skb_ip_summed_partial skb) (matches si cm) (?m ip_ttl) ?m)"
      unfolding U(6) ihl u20 udp_forward_skb ce using sc by (simp add: same_core_def)
    then show ?thesis
      using L C(1-5) ihl nf U(3,4,5) p ce(6,7)
      by (intro exI [of _ cm]) (simp add: packet_key_def guards_passed_def Let_def u20)
  next
    assume p: "?m ip_protocol = IPPROTO_TCP" and R: "sfe_ipv4_recv_tcp k si skb dev ?len ihl fl = Some res"
    obtain cm si1 where U: "sfe_ipv4_find_sfe_ipv4_connection_match si dev IPPROTO_TCP (ld32 ?m ip_saddr)
        (ld16 ?m (unat ihl + th_source)) (ld32 ?m ip_daddr) (ld16 ?m (unat ihl + th_dest)) = Some (Some cm, si1)"
      "\<not> fl" "cm_flow_accel (matches si1 cm) \<noteq> 0" "2 \<le> ?m ip_ttl"
      "?len \<le> ucast (cm_xmit_dev_mtu (matches si1 cm)) \<or> skb_is_gso skb"
      "fast_flags (ld32 ?m (unat ihl + tcp_flag_offs))"
      "recv_tcp_checked k si1 skb ?len ihl cm (?m ip_ttl) = Some res"
      using recv_tcp_forwards [OF R f] by (elim exE conjE) (rule that)
    obtain si2 where s2: "same_core si1 si2" and rs: "res = tcp_forward k ?len (unat ihl) cm (?m ip_ttl) si2 skb"
      using recv_tcp_checked_forwards [OF U(7) f] by blast
    have ihl: "ihl = IPH_LEN" and nf: "(ucast (ntohs (ld16 ?m ip_frag_off)) :: u32) AND IP_MF = 0" using U(2) C(6) by simp_all
    note L = live [OF U(1)]
    have s1: "same_core si si1" using L by (simp add: same_core_data)
    note sc = same_core_trans [OF s1 s2]
    then have core: "cm_core (matches si2 cm) = cm_core (matches si cm)" by (simp add: same_core_def)
    note ce = core_eq [OF core]
    have core1: "cm_core (matches si1 cm) = cm_core (matches si cm)" using s1 by (simp add: same_core_def)
    have "r_skb res = sent k (matches si cm) (c_mark (connections si (cm_connection (matches si cm)))) ?len skb
        (tcp_rewrite (skb_ip_summed_partial skb) (matches si cm) (?m ip_ttl) ?m)"
      unfolding rs ihl u20 tcp_forward_skb ce using sc by (simp add: same_core_def)
    then show ?thesis
      using L C(1-5) ihl nf U(3,4,5,6) p core_eq(6,7) [OF core1]
      by (intro exI [of _ cm]) (simp add: packet_key_def guards_passed_def Let_def u20)
  next
    assume "sfe_ipv4_recv_icmp k si skb dev ?len ihl = Some res"
    with f show ?thesis using recv_icmp_ret by fastforce
  qed
qed

end
