(* ===== verification/Engine_Interface.thy ===== *)
theory Engine_Interface
  imports Flow_Table
begin

text \<open>
  What the connection manager relies on: an engine holds a finite-looking map from flow keys to
  rules, every request returns, keeps the engine well formed and acts on that map as its abstract
  effect says. The laws are proved for an engine by an interpretation; what the manager's requests
  then amount to is proved here once.
\<close>

section \<open>Requests act as their effect on the map\<close>

locale rule_engine =
  fixes inv :: "'s \<Rightarrow> bool"
    and rules :: "'s \<Rightarrow> 'k \<Rightarrow> 'r option"
    and run :: "'c \<Rightarrow> 's \<Rightarrow> 's option"
    and enabled :: "'c \<Rightarrow> 's \<Rightarrow> bool"
    and effect :: "'c \<Rightarrow> ('k \<Rightarrow> 'r option) \<Rightarrow> 'k \<Rightarrow> 'r option"
  assumes run_law: "inv s \<Longrightarrow> enabled c s \<Longrightarrow> \<exists>s'. run c s = Some s' \<and> inv s' \<and> rules s' = effect c (rules s)"
begin

fun run_all :: "'c list \<Rightarrow> 's \<Rightarrow> 's option" where
  "run_all [] s = Some s"
| "run_all (c # cs) s = Option.bind (run c s) (run_all cs)"

text \<open>Every request of the list can be served when its turn comes.\<close>

fun enabled_all :: "'c list \<Rightarrow> 's \<Rightarrow> bool" where
  "enabled_all [] s \<longleftrightarrow> True"
| "enabled_all (c # cs) s \<longleftrightarrow> enabled c s \<and> (\<forall>s'. run c s = Some s' \<longrightarrow> enabled_all cs s')"

lemma run_all_refines:
  "inv s \<Longrightarrow> enabled_all cs s \<Longrightarrow> \<exists>s'. run_all cs s = Some s' \<and> inv s' \<and> rules s' = fold effect cs (rules s)"
proof (induction cs arbitrary: s)
  case (Cons c cs)
  from Cons.prems obtain s1 where s1: "run c s = Some s1" "inv s1" "rules s1 = effect c (rules s)"
    using run_law [of s c] by auto
  with Cons.prems have "enabled_all cs s1" by simp
  from Cons.IH [OF s1(2) this] s1 show ?case by auto
qed simp

lemma run_all_append:
  "run_all (cs @ ds) s = Option.bind (run_all cs s) (run_all ds)"
  by (induction cs arbitrary: s) (auto split: Option.bind_split)

end

section \<open>Engines with devices\<close>

text \<open>\<open>down d\<close> is the request made when device \<open>d\<close> goes down.\<close>

locale device_engine = rule_engine inv rules run enabled effect
  for inv :: "'s \<Rightarrow> bool" and rules :: "'s \<Rightarrow> 'k \<Rightarrow> 'r option" and run :: "'c \<Rightarrow> 's \<Rightarrow> 's option"
    and enabled :: "'c \<Rightarrow> 's \<Rightarrow> bool" and effect :: "'c \<Rightarrow> ('k \<Rightarrow> 'r option) \<Rightarrow> 'k \<Rightarrow> 'r option" +
  fixes uses :: "'d \<Rightarrow> 'r \<Rightarrow> bool" and down :: "'d \<Rightarrow> 'c"
  assumes down_enabled: "enabled (down d) s"
    and down_law: "effect (down d) m = (\<lambda>k. case m k of None \<Rightarrow> None | Some r \<Rightarrow> if uses d r then None else Some r)"
begin

lemma down_rules:
  assumes "inv s"
  shows "\<exists>s'. run (down d) s = Some s' \<and> inv s' \<and> (\<forall>k r. rules s' k = Some r \<longleftrightarrow> rules s k = Some r \<and> \<not> uses d r)"
  using run_law [OF assms down_enabled, of d] by (auto simp: down_law split: option.splits if_splits)

text \<open>A second event for the same device finds nothing left to do.\<close>

lemma down_idem: "effect (down d) (effect (down d) m) = effect (down d) m"
  by (auto simp: down_law fun_eq_iff split: option.split)

lemma down_commute: "effect (down d) (effect (down e) m) = effect (down e) (effect (down d) m)"
  by (auto simp: down_law fun_eq_iff split: option.split)

end

end
