(* ===== verification/SFE_IPv4_Engine.thy ===== *)
theory SFE_IPv4_Engine
  imports SFE_IPv4_Packet Engine_Interface
begin

text \<open>
  The IPv4 engine as a provider of the manager's interface, and as a transition system: whole
  requests, packets, timer runs, and the unlocked gap between taking a connection out of the tables
  and freeing it, during which other CPUs run.
\<close>

section \<open>Well-formed engines\<close>

definition sfe_good :: "sfe_ipv4 \<Rightarrow> bool" where
  "sfe_good si \<longleftrightarrow> sfe_wf si \<and> adj_inv si"

lemma sfe_good_init: "sfe_good init_si"
  using sfe_inv_init by (auto simp: sfe_good_def sfe_wf_def adj_inv_def init_si_def)

lemma sfe_rules_init: "sfe_rules init_si = (\<lambda>_. None)"
proof
  show "sfe_rules init_si key = None" for key
    using lookup_None [OF sfe_inv_init, of key] by (simp add: sfe_rules_def empty_lists_def)
qed

section \<open>Requests\<close>

datatype request =
    Create "dev_ptr \<Rightarrow> net_device" u64 "ptr option" "ptr option" "ptr option" sfe_connection_create
  | Update sfe_connection_create
  | Mark sfe_connection_mark
  | Destroy u64 sfe_connection_destroy
  | Destroy_dev u64 dev_ptr
  | Register "ptr option"
  | Timer u64 u64 u64

fun run_request :: "request \<Rightarrow> sfe_ipv4 \<Rightarrow> sfe_ipv4 option" where
  "run_request (Create devs j kc ko kr sic) si = map_option snd (sfe_ipv4_create_rule devs j kc ko kr si sic)"
| "run_request (Update sic) si = sfe_ipv4_update_rule si sic"
| "run_request (Mark mk) si = sfe_ipv4_mark_rule si mk"
| "run_request (Destroy j sid) si = map_option fst (sfe_ipv4_destroy_rule j si sid)"
| "run_request (Destroy_dev j dev) si = map_option fst (sfe_ipv4_destroy_all_rules_for_dev j dev si)"
| "run_request (Register cb) si = Some (sfe_ipv4_register_sync_rule_callback si cb)"
| "run_request (Timer hz now j) si = map_option fst (sfe_ipv4_periodic_sync hz now j si)"

text \<open>\<open>kmalloc\<close> returns objects not in use, or NULL.\<close>

fun request_enabled :: "request \<Rightarrow> sfe_ipv4 \<Rightarrow> bool" where
  "request_enabled (Create devs j kc ko kr sic) si \<longleftrightarrow>
     (case (kc, ko, kr) of (Some c, Some oc, Some r) \<Rightarrow> fresh si c oc r | _ \<Rightarrow> True)"
| "request_enabled _ si \<longleftrightarrow> True"

fun request_effect :: "request \<Rightarrow> (conn_key \<Rightarrow> rule option) \<Rightarrow> conn_key \<Rightarrow> rule option" where
  "request_effect (Create devs j kc ko kr sic) m =
     (if devs_up devs sic \<and> m (sic_key sic) = None \<and> kc \<noteq> None \<and> ko \<noteq> None \<and> kr \<noteq> None
      then m(sic_key sic \<mapsto> sic_rule sic) else m)"
| "request_effect (Mark mk) m = m(mk_key mk := map_option (set_mark (mk_mark mk)) (m (mk_key mk)))"
| "request_effect (Destroy j sid) m = m(sid_key sid := None)"
| "request_effect (Destroy_dev j dev) m =
     (\<lambda>k. case m k of None \<Rightarrow> None | Some r \<Rightarrow> if rule_uses dev r then None else Some r)"
| "request_effect _ m = m"

lemma rules_same_lists:
  assumes i: "sfe_inv si g P" and i': "sfe_inv si' g' P'" and ga: "ga g' = ga g" and r: "same_rules si si'"
  shows "sfe_rules si' = sfe_rules si"
proof
  fix key
  have "sfe_lookup si' key = sfe_lookup si key"
    by (rule lookup_eqI [OF i i']) (use r in \<open>simp add: ga same_rules_def\<close>)
  then show "sfe_rules si' key = sfe_rules si key"
    using r by (auto simp: sfe_rules_def same_rules_def intro!: option.map_cong)
qed

lemma create_request:
  assumes i: "sfe_inv si g P" and a: "adj_inv si" and e: "request_enabled (Create devs j kc ko kr sic) si"
  shows "\<exists>si' g'. run_request (Create devs j kc ko kr sic) si = Some si' \<and> sfe_inv si' g' P \<and> adj_inv si'
    \<and> sfe_rules si' = request_effect (Create devs j kc ko kr sic) (sfe_rules si)"
proof -
  have "sfe_ipv4_create_rule devs j kc ko kr si sic \<noteq> None"
    unfolding create_rule_result [OF i] by (rule option.distinct)
  then obtain rc si' where c: "sfe_ipv4_create_rule devs j kc ko kr si sic = Some (rc, si')" by auto
  have f: "fresh si c oc r" if "kc = Some c" "ko = Some oc" "kr = Some r" for c oc r
    using e that by simp
  have rc: "rc = 0 \<longleftrightarrow> devs_up devs sic \<and> sfe_rules si (sic_key sic) = None \<and> kc \<noteq> None \<and> ko \<noteq> None \<and> kr \<noteq> None"
    using create_rule_result [OF i, of devs j kc ko kr sic] c
    by (auto simp: sfe_rules_def EINVAL_def ENOMEM_def EADDRINUSE_def split: if_splits option.splits)
  have ci: "\<exists>g'. sfe_inv si' g' P"
    "rc = 0 \<Longrightarrow> sfe_rules si (sic_key sic) = None \<and> sfe_rules si' = (sfe_rules si)(sic_key sic \<mapsto> sic_rule sic)"
    "rc \<noteq> 0 \<Longrightarrow> sfe_rules si' = sfe_rules si"
    by (rule create_rule_inv [OF i c], rule f, assumption+)+
  have a': "adj_inv si'" using create_rule_adj [OF i a _ c] f by blast
  have R: "sfe_rules si' = request_effect (Create devs j kc ko kr sic) (sfe_rules si)"
  proof (cases "rc = 0")
    case True
    show ?thesis unfolding conjunct2 [OF ci(2) [OF True]] request_effect.simps if_P [OF rc [THEN iffD1, OF True]] by (rule refl)
  next
    case False
    with rc have "\<not> (devs_up devs sic \<and> sfe_rules si (sic_key sic) = None \<and> kc \<noteq> None \<and> ko \<noteq> None \<and> kr \<noteq> None)" by blast
    then show ?thesis unfolding ci(3) [OF False] request_effect.simps by (rule if_not_P [symmetric])
  qed
  obtain g' where g': "sfe_inv si' g' P" using ci(1) by (elim exE)
  show ?thesis by (intro exI [of _ si'] exI [of _ g'] conjI g' a' R) (simp add: c)
qed

lemma run_request_law:
  assumes i: "sfe_inv si g P" and a: "adj_inv si" and e: "request_enabled c si"
  shows "\<exists>si' g'. run_request c si = Some si' \<and> sfe_inv si' g' P \<and> adj_inv si' \<and> sfe_rules si' = request_effect c (sfe_rules si)"
proof (cases c)
  case (Create devs j kc ko kr sic)
  then show ?thesis using create_request [OF i a] e by simp
next
  case (Update sic)
  obtain si' where u: "sfe_ipv4_update_rule si sic = Some si'" using update_rule_result [OF i] by simp
  then show ?thesis
    using update_rule_inv [OF i u] adj_inv_same [OF update_rule_adj [OF i u] a] Update by auto
next
  case (Mark mk)
  obtain si' where u: "sfe_ipv4_mark_rule si mk = Some si'" using mark_rule_result [OF i] by simp
  then show ?thesis
    using mark_rule_inv [OF i u] mark_rule_rules [OF i u] adj_inv_same [OF mark_rule_adj [OF i u] a] Mark by auto
next
  case (Destroy j sid)
  have "sfe_ipv4_destroy_rule j si sid \<noteq> None"
    unfolding destroy_rule_result [OF i] by (rule option.distinct)
  then obtain si' out where u: "sfe_ipv4_destroy_rule j si sid = Some (si', out)" by auto
  then show ?thesis
    using destroy_rule_inv [OF i u] destroy_rule_adj [OF i a u] Destroy by auto
next
  case (Destroy_dev j dev)
  from destroy_all_spec [OF i, of j dev]
  obtain si' out g' where u: "sfe_ipv4_destroy_all_rules_for_dev j dev si = Some (si', out)" and i': "sfe_inv si' g' P"
    and ga: "ga g' = filter (\<lambda>c. \<not> uses_dev (connections si c) dev) (ga g)" and r: "same_rules si si'"
    by (elim exE conjE) (rule that)
  show ?thesis
    using u i' destroy_all_rules [OF i i' ga r] adj_inv_same [OF destroy_all_adj [OF i u] a] Destroy_dev by auto
next
  case (Register cb)
  let ?si = "sfe_ipv4_register_sync_rule_callback si cb"
  have s: "same_shape si ?si" "same_rules si ?si"
    by (simp_all add: sfe_ipv4_register_sync_rule_callback_def same_rules_def)
  have "same_adj si ?si" by (rule same_adj_frame) (simp_all add: sfe_ipv4_register_sync_rule_callback_def)
  then show ?thesis
    using sfe_inv_same_shape [OF s(1) i] rules_same_shape [OF i s] adj_inv_same [OF _ a] Register by auto
next
  case (Timer hz now j)
  from periodic_sync_spec [OF i, of hz now j]
  obtain si' out g' where u: "sfe_ipv4_periodic_sync hz now j si = Some (si', out)" and i': "sfe_inv si' g' P"
    and ga: "ga g' = ga g" and r: "same_rules si si'"
    by (elim exE conjE) (rule that)
  show ?thesis
    using u i' rules_same_lists [OF i i' ga r] adj_inv_same [OF periodic_sync_adj [OF u] a] Timer by auto
qed

interpretation v4: rule_engine sfe_good sfe_rules run_request request_enabled request_effect
proof
  fix si c
  assume g: "sfe_good si" and e: "request_enabled c si"
  then obtain g where "sfe_inv si g []" "adj_inv si" by (auto simp: sfe_good_def sfe_wf_def)
  from run_request_law [OF this e]
  show "\<exists>s'. run_request c si = Some s' \<and> sfe_good s' \<and> sfe_rules s' = request_effect c (sfe_rules si)"
    by (auto simp: sfe_good_def sfe_wf_def)
qed

interpretation v4d: device_engine sfe_good sfe_rules run_request request_enabled request_effect rule_uses "Destroy_dev j"
  for j
  by unfold_locales simp_all

section \<open>The engine as a transition system\<close>

text \<open>
  \<open>Pend\<close> steps are the halves the code runs under the lock and after it: any connection of the
  tables is unlinked, and any unlinked one is flushed later, with other steps in between.
\<close>

inductive engine_step :: "sfe_ipv4 \<times> ptr list \<Rightarrow> sfe_ipv4 \<times> ptr list \<Rightarrow> bool" where
  request: "request_enabled c si \<Longrightarrow> run_request c si = Some si' \<Longrightarrow> engine_step (si, P) (si', P)"
| packet: "sfe_ipv4_recv k dev si skb = Some res \<Longrightarrow> engine_step (si, P) (r_si res, P)"
| unlink: "sfe_lookup si key = Some c \<Longrightarrow> engine_step (si, P) (sfe_ipv4_remove_sfe_ipv4_connection si c, c # P)"
| flush: "c \<in> set P \<Longrightarrow> engine_step (si, P) (fst (sfe_ipv4_flush_sfe_ipv4_connection j si c reason), remove1 c P)"

inductive_cases engine_stepE: "engine_step s s'"

inductive_simps engine_step_simps: "engine_step (si, P) (si', P')"

inductive engine_reach :: "sfe_ipv4 \<times> ptr list \<Rightarrow> bool" where
  start: "engine_reach (init_si, [])"
| next_step: "engine_reach s \<Longrightarrow> engine_step s s' \<Longrightarrow> engine_reach s'"

lemma recv_inv:
  assumes i: "sfe_inv si g P" and a: "adj_inv si" and r: "sfe_ipv4_recv k dev si skb = Some res"
  shows "\<exists>g'. sfe_inv (r_si res) g' P" and "adj_inv (r_si res)" and "recv_outcome si skb res"
proof -
  from recv_returns_recv [OF i, of skb k dev] r
  have R: "(\<exists>g'. sfe_inv (r_si res) g' P) \<and> recv_outcome si skb res \<and> same_adj si (r_si res)"
    by (auto simp: recv_returns_def)
  then show "\<exists>g'. sfe_inv (r_si res) g' P" "recv_outcome si skb res" by auto
  from R show "adj_inv (r_si res)" using adj_inv_same [OF _ a] by blast
qed

lemma step_inv:
  assumes "engine_step s s'" and "\<exists>g. sfe_inv (fst s) g (snd s)" and "adj_inv (fst s)"
  shows "(\<exists>g. sfe_inv (fst s') g (snd s')) \<and> adj_inv (fst s')"
  using assms
proof (cases rule: engine_step.cases)
  case (request c si si' P)
  with assms obtain g where "sfe_inv si g P" "adj_inv si" by auto
  from run_request_law [OF this request(3)] request show ?thesis by auto
next
  case (packet k dev si skb res P)
  with assms obtain g where "sfe_inv si g P" "adj_inv si" by auto
  from recv_inv [OF this packet(3)] packet show ?thesis by auto
next
  case (unlink si key c P)
  with assms obtain g where i: "sfe_inv si g P" and a: "adj_inv si" by auto
  then have "c \<in> set (ga g)" using unlink(3) by (simp add: lookup_iff)
  from sfe_inv_remove [OF i this] adj_inv_same [OF same_adj_data [OF same_data_remove_connection] a] unlink
  show ?thesis by auto
next
  case (flush c P si j reason)
  with assms obtain g where i: "sfe_inv si g P" and a: "adj_inv si" by auto
  from flush_inv [OF i flush(3)] adj_inv_same [OF flush_adj a] flush show ?thesis by auto
qed

lemma reach_inv: "engine_reach s \<Longrightarrow> (\<exists>g. sfe_inv (fst s) g (snd s)) \<and> adj_inv (fst s)"
proof (induction rule: engine_reach.induct)
  case start
  then show ?case using sfe_inv_init sfe_good_init by (auto simp: sfe_good_def)
next
  case (next_step s s')
  then show ?case using step_inv [OF next_step(2)] by blast
qed

lemma quiet_engine:
  assumes i: "sfe_inv si g []" and n: "sfe_rules si = (\<lambda>_. None)"
  shows "live_connections si = {}" "live_matches si = {}" "dev_refs si = (\<lambda>_. 0)" "num_connections si = 0"
    and "all_connections_head si = None" "active_head si = None"
    and "conn_hash si i = None" "conn_match_hash si i = None"
proof -
  have "ga g = []"
  proof (rule ccontr)
    assume "ga g \<noteq> []"
    then obtain c where "c \<in> set (ga g)" by (cases "ga g") auto
    then have "sfe_lookup si (c_key (connections si c)) = Some c" by (simp add: lookup_iff [OF i])
    then have "sfe_rules si (c_key (connections si c)) \<noteq> None" by (simp add: sfe_rules_def)
    with n show False by simp
  qed
  note e = this
  have fi: "ft_inv (ft si) g" and m: "mem_ok si (ga g @ [])" and nc: "num_connections si = of_nat (length (ga g))"
    using i by (simp_all add: sfe_inv_def)
  show "live_connections si = {}" "live_matches si = {}" "dev_refs si = (\<lambda>_. 0)"
    using m by (simp_all add: mem_ok_def ft_live_def refs_of_def fun_eq_iff e)
  show "num_connections si = 0" using nc by (simp add: e)
  show "all_connections_head si = None"
    using fi by (simp add: ft_inv_def conns_ok_def dqueue_def e)
  have L: "ft_live (ft si) (set (ga g)) = {}" by (simp add: ft_live_def e)
  have v: "gv g = []" using fi L by (simp add: ft_inv_def matches_ok_def)
  have "dqueue (vnx (ft si)) (vpv (ft si)) (active_head si) (active_tail si) (gv g)"
    using fi unfolding ft_inv_def matches_ok_def by simp
  then show "active_head si = None" unfolding v by (simp add: dqueue_def)
  have c: "chains (cnx (ft si)) (cpv (ft si)) (conn_hash si) (cix (ft si)) (gc g) {}"
    and k: "chains (mnx (ft si)) (mpv (ft si)) (conn_match_hash si) (mix (ft si)) (gm g) {}"
    using fi L by (simp_all add: ft_inv_def conns_ok_def matches_ok_def e)
  show "conn_hash si i = None" using chainsD(1,2) [OF c, of i] by simp
  show "conn_match_hash si i = None" using chainsD(1,2) [OF k, of i] by simp
qed

end
