(* ===== verification/SFE_Printf.thy ===== *)
theory SFE_Printf
  imports SFE_Prelude
begin

text \<open>
  The conversions of \<open>snprintf\<close> the kernel code uses, as strings, with bounds on their lengths.
\<close>

section \<open>Conversions\<close>

text \<open>Decimal digits, \<open>%d\<close> of a \<open>u32\<close>, and \<open>%u\<close> and \<open>%llu\<close>.\<close>

fun digits :: "nat \<Rightarrow> string" where
  "digits n = (if n < 10 then [char_of (48 + n)] else digits (n div 10) @ [char_of (48 + n mod 10)])"

definition print_d :: "u32 \<Rightarrow> string" where
  "print_d w = (if sint w < 0 then CHR ''-'' # digits (nat (- sint w)) else digits (nat (sint w)))"

definition print_u :: "'a::len word \<Rightarrow> string" where
  "print_u w = digits (unat w)"

text \<open>\<open>%08x\<close>, and \<open>%pI4\<close> of an address in network byte order.\<close>

definition hex_digit :: "nat \<Rightarrow> char" where
  "hex_digit n = (if n < 10 then char_of (48 + n) else char_of (87 + n))"

definition print_08x :: "u32 \<Rightarrow> string" where
  "print_08x w = map (\<lambda>i. hex_digit (unat (drop_bit (28 - 4 * i) w AND 0xf))) [0..<8]"

definition print_ip4 :: "be32 \<Rightarrow> string" where
  "print_ip4 a = print_u (a AND 0xff) @ ''.'' @ print_u (drop_bit 8 a AND 0xff) @ ''.''
     @ print_u (drop_bit 16 a AND 0xff) @ ''.'' @ print_u (drop_bit 24 a)"

text \<open>\<open>%pI6\<close> of four words in network byte order: eight groups of four digits.\<close>

definition print_02x :: "u32 \<Rightarrow> string" where
  "print_02x w = [hex_digit (unat (drop_bit 4 w AND 0xf)), hex_digit (unat (w AND 0xf))]"

definition print_ip6_word :: "be32 \<Rightarrow> string" where
  "print_ip6_word w = print_02x w @ print_02x (drop_bit 8 w) @ '':'' @ print_02x (drop_bit 16 w) @ print_02x (drop_bit 24 w)"

definition print_ip6 :: "be32 \<times> be32 \<times> be32 \<times> be32 \<Rightarrow> string" where
  "print_ip6 a = (case a of (w0, w1, w2, w3) \<Rightarrow>
     print_ip6_word w0 @ '':'' @ print_ip6_word w1 @ '':'' @ print_ip6_word w2 @ '':'' @ print_ip6_word w3)"

section \<open>Lengths\<close>

lemma print_ip6_length: "length (print_ip6 a) = 39"
  by (simp add: print_ip6_def print_ip6_word_def print_02x_def split: prod.split)

lemma digits_length: "n < 10 ^ k \<Longrightarrow> 0 < k \<Longrightarrow> length (digits n) \<le> k"
proof (induction k arbitrary: n)
  case (Suc k)
  show ?case
  proof (cases "n < 10")
    case False
    then have "n div 10 < 10 ^ k" "0 < k" using Suc.prems by (auto simp: less_mult_imp_div_less mult.commute intro: gr0I)
    from Suc.IH [OF this] False show ?thesis by (subst digits.simps) simp
  qed (subst digits.simps, simp)
qed simp

declare digits.simps [simp del]

lemma print_d_length: "length (print_d w) \<le> 11"
proof -
  have "- (2 ^ 31) \<le> sint w" and "sint w < 2 ^ 31"
    using sint_ge [of w] sint_lt [of w] by simp_all
  then have "nat (sint w) < 10 ^ 10" "nat (- sint w) < 10 ^ 10" by auto
  then show ?thesis
    using digits_length [of "nat (sint w)" 10] digits_length [of "nat (- sint w)" 10] by (simp add: print_d_def)
qed

lemma print_u32_length: "length (print_u (w :: u32)) \<le> 10"
proof -
  have "unat w < 10 ^ 10" using unsigned_less [of w, where 'a = nat] by simp
  then show ?thesis unfolding print_u_def by (rule digits_length) simp
qed

lemma print_u64_length: "length (print_u (w :: u64)) \<le> 20"
proof -
  have "unat w < 10 ^ 20" using unsigned_less [of w, where 'a = nat] by simp
  then show ?thesis unfolding print_u_def by (rule digits_length) simp
qed

lemma print_08x_length [simp]: "length (print_08x w) = 8"
  by (simp add: print_08x_def)

lemma byte_length: "w < (256 :: u32) \<Longrightarrow> length (print_u w) \<le> 3"
  unfolding print_u_def by (rule digits_length) (simp_all add: word_less_nat_alt)

lemma print_ip4_length: "length (print_ip4 a) \<le> 15"
proof -
  have "drop_bit 24 a < 256"
    unfolding word_less_nat_alt by (simp add: unat_drop_bit_eq drop_bit_eq_div) (use unsigned_less [of a, where 'a = nat] in \<open>simp add: unat_div\<close>)
  moreover have "w AND 0xff < 256" for w :: u32
    using and_mask_less' [of 8 w] by (simp add: mask_eq_exp_minus_1)
  ultimately have "length (print_u (drop_bit 24 a)) \<le> 3" "length (print_u (a AND 0xff)) \<le> 3"
    "length (print_u (drop_bit 8 a AND 0xff)) \<le> 3" "length (print_u (drop_bit 16 a AND 0xff)) \<le> 3"
    by (auto intro: byte_length)
  then show ?thesis by (simp add: print_ip4_def)
qed

end
