(* ===== verification/SFE_Debug_Msg.thy ===== *)
theory SFE_Debug_Msg
  imports SFE_Printf SFE_Types
begin

text \<open>
  What the debug devices of both engines share: the message buffer, its way to user space, and the
  pieces of XML they print.
\<close>

section \<open>Message buffers\<close>

definition CHAR_DEV_MSG_SIZE :: nat where "CHAR_DEV_MSG_SIZE = 768"

text \<open>The result of the n-th \<open>copy_to_user\<close>, device names and the time.\<close>

record debug_env =
  de_copy_ok :: "nat \<Rightarrow> bool"
  de_name :: "dev_ptr \<Rightarrow> string"
  de_jiffies :: u64

text \<open>\<open>snprintf(msg, CHAR_DEV_MSG_SIZE, ...)\<close>: the text that fits and a zero; the rest of the buffer stays.\<close>

definition snprintf_msg :: "string \<Rightarrow> (nat \<Rightarrow> char) \<Rightarrow> nat \<Rightarrow> char" where
  "snprintf_msg s msg = (let n = min (length s) (CHAR_DEV_MSG_SIZE - 1)
                         in (\<lambda>i. if i < n then s ! i else if i = n then char_of (0 :: nat) else msg i))"

definition copy_to_user :: "nat \<Rightarrow> (nat \<Rightarrow> char) \<Rightarrow> (nat \<Rightarrow> char) \<Rightarrow> nat \<Rightarrow> char" where
  "copy_to_user off msg user = (\<lambda>i. if off \<le> i \<and> i < off + CHAR_DEV_MSG_SIZE then msg (i - off) else user i)"

section \<open>XML\<close>

definition newline :: string where "newline = [char_of (10 :: nat)]"
definition tab :: string where "tab = [char_of (9 :: nat)]"

text \<open>\<open>name="value" \<close>\<close>

definition attr :: "string \<Rightarrow> string \<Rightarrow> string" where
  "attr name value = name @ ''='' @ [char_of (34 :: nat)] @ value @ [char_of (34 :: nat)] @ '' ''"

definition exception_xml :: "string \<Rightarrow> u64 \<Rightarrow> string" where
  "exception_xml name ct =
     tab @ tab @ ''<exception '' @ attr ''name'' name @ attr ''count'' (print_u ct) @ ''/>'' @ newline"

section \<open>Lengths, searches and texts in memory\<close>

lemma attr_length: "length (attr name v) = length name + length v + 4"
  by (simp add: attr_def)

lemma newline_tab [simp]: "length newline = 1" "length tab = 1"
  by (simp_all add: newline_def tab_def)

lemma print_u16_length: "length (print_u (w :: u16)) \<le> 5"
proof -
  have "unat w < 10 ^ 5" using unsigned_less [of w, where 'a = nat] by simp
  then show ?thesis unfolding print_u_def by (rule digits_length) simp
qed

lemma find_filter:
  "find P xs = Some x \<Longrightarrow> distinct xs \<Longrightarrow> filter P xs = x # filter (\<lambda>y. P y \<and> y \<noteq> x) xs"
proof (induction xs)
  case (Cons a xs)
  show ?case
  proof (cases "P a")
    case True
    with Cons.prems have "x = a" "a \<notin> set xs" by simp_all
    moreover from this have "filter P xs = filter (\<lambda>y. P y \<and> y \<noteq> a) xs" by (intro filter_cong) auto
    ultimately show ?thesis using True by simp
  next
    case False
    with Cons show ?thesis by auto
  qed
qed simp

lemma find_None_filter: "find P xs = None \<longleftrightarrow> filter P xs = []"
  by (auto simp: find_None_iff filter_empty_conv)

definition text_at :: "(nat \<Rightarrow> char) \<Rightarrow> nat \<Rightarrow> string \<Rightarrow> bool" where
  "text_at user off s \<longleftrightarrow> (\<forall>i < length s. user (off + i) = s ! i)"

lemma text_at_append: "text_at user off (s @ t) \<longleftrightarrow> text_at user off s \<and> text_at user (off + length s) t"
proof -
  have "text_at user off (s @ t)" if "text_at user off s" "text_at user (off + length s) t"
    unfolding text_at_def
  proof (intro allI impI)
    fix i assume i: "i < length (s @ t)"
    show "user (off + i) = (s @ t) ! i"
    proof (cases "i < length s")
      case False
      then have "off + i = off + length s + (i - length s)" and "i - length s < length t" using i by simp_all
      with that(2) have "user (off + i) = t ! (i - length s)" unfolding text_at_def by metis
      with False show ?thesis by (simp add: nth_append)
    qed (use that(1) in \<open>simp add: text_at_def nth_append\<close>)
  qed
  moreover have "text_at user off s \<and> text_at user (off + length s) t" if a: "text_at user off (s @ t)"
  proof -
    have "user (off + i) = s ! i" if "i < length s" for i using a that by (simp add: text_at_def nth_append)
    moreover have "user (off + length s + i) = t ! i" if "i < length t" for i
      using a [unfolded text_at_def, rule_format, of "length s + i"] that by (simp add: nth_append add.assoc)
    ultimately show ?thesis by (simp add: text_at_def)
  qed
  ultimately show ?thesis by blast
qed

end
