(* ===== verification/SFE_Example.thy ===== *)
theory SFE_Example
  imports SFE_Kernel SFE_Debug_Msg
begin

text \<open>The device, MAC address, kernel and reader of the concrete engines on which the properties are witnessed.\<close>

definition example_dev :: net_device where
  "example_dev = \<lparr>nd_registered = True, nd_pointopoint = False, nd_header_ops = Some Eth_header,
     nd_dev_addr = (\<lambda>k. if k = 5 then 2 else 0), nd_bridge_port = False, nd_mtu = 1500\<rparr>"

definition example_mac :: mac where
  "example_mac = (\<lambda>k. if k = 0 then 2 else if k = 5 then 9 else 0)"

definition example_kernel :: kernel where
  "example_kernel = \<lparr>k_may_pull = (\<lambda>skb n. n \<le> skb_len skb), k_hard_header = (\<lambda>skb dev type da sa len. skb), k_jiffies = 0\<rparr>"

definition example_env :: debug_env where
  "example_env = \<lparr>de_copy_ok = (\<lambda>_. True), de_name = (\<lambda>d. if d = 1 then ''lan'' else ''wan''), de_jiffies = 1000\<rparr>"

end
