(* ===== verification/SFE_IPv4_Example.thy ===== *)
theory SFE_IPv4_Example
  imports SFE_IPv4_Engine SFE_Example
begin

text \<open>
  A concrete engine: one UDP flow from 10.0.0.2:4096 on device 1 to 8.8.8.8:53 on device 2, its
  source translated to 1.2.3.4:20480, and a packet of it. The witnesses of the properties use them.
\<close>

declare sfe_ipv4_destroy_all_rules_for_dev.simps [code]

definition example_sic :: sfe_connection_create where
  "example_sic = \<lparr>sic_protocol = 17, sic_src_dev = 1, sic_dest_dev = 2, sic_flags = 0, sic_src_mtu = 1500,
     sic_dest_mtu = 1500, sic_src_ip = ip4_addr 0x0200000a, sic_src_ip_xlate = ip4_addr 0x04030201,
     sic_dest_ip = ip4_addr 0x08080808, sic_dest_ip_xlate = ip4_addr 0x08080808,
     sic_src_port = 0x0010, sic_src_port_xlate = 0x0050, sic_dest_port = 0x3500, sic_dest_port_xlate = 0x3500,
     sic_src_mac = example_mac, sic_src_mac_xlate = example_mac, sic_dest_mac = example_mac,
     sic_dest_mac_xlate = example_mac, sic_src_td_window_scale = 0, sic_src_td_max_window = 0,
     sic_src_td_end = 0, sic_src_td_max_end = 0, sic_dest_td_window_scale = 0, sic_dest_td_max_window = 0,
     sic_dest_td_end = 0, sic_dest_td_max_end = 0, sic_mark = 7, sic_original_accel = 1, sic_reply_accel = 1,
     sic_src_priority = 0, sic_dest_priority = 0, sic_src_dscp = 0, sic_dest_dscp = 0\<rparr>"

definition example_si :: sfe_ipv4 where
  "example_si = build_rule (\<lambda>_. example_dev) 0 example_sic 2 3 4
     (alloc 2 3 4 (init_si\<lparr>connection_create_requests := 1\<rparr>))"

text \<open>28 bytes: an IPv4 header (ttl 64) and a UDP header with checksum 0xabcd.\<close>

definition example_mem :: mem where
  "example_mem = (\<lambda>k. if k < 28 then [0x45, 0, 0, 28, 0, 0, 0, 0, 64, 17, 0, 0, 10, 0, 0, 2, 8, 8, 8, 8,
     0x10, 0, 0, 0x35, 0, 8, 0xab, 0xcd] ! k else 0)"

definition example_skb :: sk_buff where
  "example_skb = \<lparr>skb_mem = example_mem, skb_len = 28, skb_ip_summed_partial = False, skb_is_gso = False,
     skb_dev = 1, skb_priority = 0, skb_mark = 0\<rparr>"

lemma example_create:
  "sfe_ipv4_create_rule (\<lambda>_. example_dev) 0 (Some 2) (Some 3) (Some 4) init_si example_sic = Some (0, example_si)"
proof -
  have "devs_up (\<lambda>_. example_dev) example_sic" by (simp add: devs_up_def example_dev_def)
  moreover have "sfe_lookup init_si key = None" for key
    by (simp add: lookup_None [OF sfe_inv_init] empty_lists_def)
  moreover have "connection_create_requests init_si = 0" by (simp add: init_si_def)
  ultimately show ?thesis
    using create_rule_result [OF sfe_inv_init, of "\<lambda>_. example_dev" 0 "Some 2" "Some 3" "Some 4" example_sic]
    by (simp add: example_si_def)
qed

lemma example_fresh: "fresh init_si 2 3 4"
  by (simp add: fresh_def init_si_def)

lemma example_good: "sfe_good example_si"
  using create_rule_inv(1) [OF sfe_inv_init example_create] create_rule_adj [OF sfe_inv_init _ _ example_create]
    example_fresh sfe_good_init
  by (auto simp: sfe_good_def sfe_wf_def)

lemma example_recv: "map_option r_ret (sfe_ipv4_recv example_kernel 1 example_si example_skb) = Some 1"
  by code_simp

section \<open>A TCP flow beside it\<close>

definition example_tcp_sic :: sfe_connection_create where
  "example_tcp_sic = example_sic\<lparr>sic_protocol := 6, sic_flags := SFE_CREATE_FLAG_NO_SEQ_CHECK, sic_src_td_max_window := 1000, sic_src_td_end := 100,
     sic_src_td_max_end := 1000, sic_dest_td_max_window := 1000, sic_dest_td_end := 100, sic_dest_td_max_end := 1000\<rparr>"

definition example_tcp_si :: sfe_ipv4 where
  "example_tcp_si = build_rule (\<lambda>_. example_dev) 0 example_tcp_sic 5 6 7
     (alloc 5 6 7 (example_si\<lparr>connection_create_requests := connection_create_requests example_si + 1\<rparr>))"

text \<open>40 bytes: an IPv4 header and a TCP header with the ACK flag, sequence and acknowledgement number 10.\<close>

definition example_tcp_mem :: mem where
  "example_tcp_mem = (\<lambda>k. if k < 40 then [0x45, 0, 0, 40, 0, 0, 0, 0, 64, 6, 0, 0, 10, 0, 0, 2, 8, 8, 8, 8,
     0x10, 0, 0, 0x35, 0, 0, 0, 10, 0, 0, 0, 10, 0x50, 0x10, 0, 100, 0xab, 0xcd, 0, 0] ! k else 0)"

definition example_tcp_skb :: sk_buff where
  "example_tcp_skb = example_skb\<lparr>skb_mem := example_tcp_mem, skb_len := 40\<rparr>"

lemma example_lookup_tcp: "sfe_lookup example_si (sic_key example_tcp_sic) = None"
  by code_simp

lemma example_tcp_fresh: "fresh example_si 5 6 7"
  by (simp add: fresh_def example_si_def) code_simp

lemma example_tcp_create:
  "sfe_ipv4_create_rule (\<lambda>_. example_dev) 0 (Some 5) (Some 6) (Some 7) example_si example_tcp_sic = Some (0, example_tcp_si)"
proof -
  obtain g where i: "sfe_inv example_si g []" using example_good by (auto simp: sfe_good_def sfe_wf_def)
  have "devs_up (\<lambda>_. example_dev) example_tcp_sic" by (simp add: devs_up_def example_dev_def)
  then show ?thesis
    using create_rule_result [OF i, of "\<lambda>_. example_dev" 0 "Some 5" "Some 6" "Some 7" example_tcp_sic] example_lookup_tcp
    by (simp add: example_tcp_si_def)
qed

lemma example_tcp_good: "sfe_good example_tcp_si"
proof -
  obtain g where i: "sfe_inv example_si g []" and a: "adj_inv example_si"
    using example_good by (auto simp: sfe_good_def sfe_wf_def)
  show ?thesis
    using create_rule_inv(1) [OF i example_tcp_create] create_rule_adj [OF i a _ example_tcp_create] example_tcp_fresh
    by (auto simp: sfe_good_def sfe_wf_def)
qed

lemma example_tcp_recv: "map_option r_ret (sfe_ipv4_recv example_kernel 1 example_tcp_si example_tcp_skb) = Some 1"
  by code_simp

end
