(* ===== verification/SFE_IPv4_Props.thy ===== *)
theory SFE_IPv4_Props
  imports SFE_IPv4_Example
begin

text \<open>
  The properties of the IPv4 engine, each over the whole operations of the code, with a witness at
  the concrete engine of \<open>SFE_IPv4_Example\<close> where it has hypotheses.
\<close>

section \<open>Forwarding\<close>

text \<open>The flow a packet belongs to: a match in use, with the packet's key, that may be accelerated.\<close>

definition flow_of :: "sfe_ipv4 \<Rightarrow> dev_ptr \<Rightarrow> mem \<Rightarrow> ptr \<Rightarrow> bool" where
  "flow_of si dev m cm \<longleftrightarrow> cm \<in> live_matches si \<and> cm_key (matches si cm) = packet_key dev m
     \<and> cm_flow_accel (matches si cm) \<noteq> 0"

text \<open>What the IP header, the ports and the rest of the packet look like after the rewriting.\<close>

definition translated :: "sfe_ipv4_connection_match \<Rightarrow> mem \<Rightarrow> mem \<Rightarrow> bool" where
  "translated cm m out \<longleftrightarrow> ld32 out ip_saddr = out_src_ip cm \<and> ld32 out ip_daddr = out_dest_ip cm
     \<and> ld16 out (20 + th_source) = out_src_port cm \<and> ld16 out (20 + th_dest) = out_dest_port cm
     \<and> out ip_ttl = m ip_ttl - 1 \<and> (\<forall>j \<in> {0, 2, 3, 4, 5, 6, 7, 9}. out j = m j)
     \<and> csum_eq (ip_header_sum out 0) 0 \<and> 0 < ip_header_sum out 0"

definition sent_as :: "kernel \<Rightarrow> sfe_ipv4 \<Rightarrow> ptr \<Rightarrow> sk_buff \<Rightarrow> mem \<Rightarrow> sk_buff" where
  "sent_as k si cm skb out =
     sent k (matches si cm) (c_mark (connections si (cm_connection (matches si cm)))) (skb_len skb) skb out"

lemma key_flow: "cm_key cm = packet_key dev m \<Longrightarrow> matches_flow cm 20 m"
  by (auto simp: cm_key_def packet_key_def matches_flow_def)

lemma good_invE:
  assumes "sfe_good si" obtains g where "sfe_inv si g []" and "adj_inv si"
  using assms by (auto simp: sfe_good_def sfe_wf_def)

lemma inv_live: "sfe_inv si g [] \<Longrightarrow> ft_live (ft si) (set (ga g)) = live_matches si"
  by (simp add: sfe_inv_def mem_ok_def)

lemma Some_pairE: "y = Some x \<Longrightarrow> (\<And>a b. y = Some (a, b) \<Longrightarrow> thesis) \<Longrightarrow> thesis"
  by (cases x) simp

lemma forwarded_flow:
  assumes g: "sfe_good si" and r: "sfe_ipv4_recv k dev si skb = Some res" and f: "r_ret res = 1"
  shows "\<exists>cm out. flow_of si dev (skb_mem skb) cm \<and> adj_ok (matches si cm) \<and> guards_passed k skb
    \<and> r_skb res = sent_as k si cm skb out
    \<and> (skb_mem skb ip_protocol = IPPROTO_UDP \<and> skb_len skb \<le> ucast (cm_xmit_dev_mtu (matches si cm))
         \<and> out = udp_rewrite (skb_ip_summed_partial skb) (matches si cm) (skb_mem skb ip_ttl) (skb_mem skb)
       \<or> skb_mem skb ip_protocol = IPPROTO_TCP
         \<and> (skb_len skb \<le> ucast (cm_xmit_dev_mtu (matches si cm)) \<or> skb_is_gso skb)
         \<and> out = tcp_rewrite (skb_ip_summed_partial skb) (matches si cm) (skb_mem skb ip_ttl) (skb_mem skb))"
proof -
  from g obtain g0 where i: "sfe_inv si g0 []" and a: "adj_inv si" by (rule good_invE)
  note L = inv_live [OF i]
  obtain cm where C: "cm \<in> live_matches si" "cm_key (matches si cm) = packet_key dev (skb_mem skb)" "guards_passed k skb"
    "cm_flow_accel (matches si cm) \<noteq> 0" and D: "skb_mem skb ip_protocol = IPPROTO_UDP \<and> skb_len skb \<le> ucast (cm_xmit_dev_mtu (matches si cm)) \<and>
       r_skb res = sent k (matches si cm) (c_mark (connections si (cm_connection (matches si cm)))) (skb_len skb) skb
         (udp_rewrite (skb_ip_summed_partial skb) (matches si cm) (skb_mem skb ip_ttl) (skb_mem skb))
     \<or> skb_mem skb ip_protocol = IPPROTO_TCP \<and> fast_flags (ld32 (skb_mem skb) (20 + tcp_flag_offs)) \<and>
       (skb_len skb \<le> ucast (cm_xmit_dev_mtu (matches si cm)) \<or> skb_is_gso skb) \<and>
       r_skb res = sent k (matches si cm) (c_mark (connections si (cm_connection (matches si cm)))) (skb_len skb) skb
         (tcp_rewrite (skb_ip_summed_partial skb) (matches si cm) (skb_mem skb ip_ttl) (skb_mem skb))"
    using recv_forwarded_packet [OF i r f, unfolded L] by (elim exE conjE) (rule that)
  have F: "flow_of si dev (skb_mem skb) cm" "adj_ok (matches si cm)"
    using C a by (simp_all add: flow_of_def adj_inv_def)
  show ?thesis using F C D by (intro exI [of _ cm]) (auto simp: sent_as_def)
qed

lemma udp_translated: "matches_flow cm 20 m \<Longrightarrow> translated cm m (udp_rewrite p cm (m ip_ttl) m)"
  unfolding translated_def by (intro conjI ballI udp_rewrite_fields rewrite_ip_valid)

lemma tcp_translated: "matches_flow cm 20 m \<Longrightarrow> translated cm m (tcp_rewrite p cm (m ip_ttl) m)"
  unfolding translated_def by (intro conjI ballI tcp_rewrite_fields rewrite_ip_valid)

lemma flow_matches: "flow_of si dev m cm \<Longrightarrow> matches_flow (matches si cm) 20 m"
  by (simp add: flow_of_def key_flow)

text \<open>
  C1: A packet that \<open>sfe_ipv4_recv\<close> forwards (return value 1) passed every guard of the fast path
  and belongs to a flow of the tables. Exactly one buffer is transmitted; its bytes are those of the
  packet with the addresses and ports of the flow's translation, the TTL one less, and an IP header
  whose checksum is valid, behind the layer 2 header of the flow.
\<close>

theorem recv_forwards_translated:
  assumes "sfe_good si" and "sfe_ipv4_recv k dev si skb = Some res" and "r_ret res = 1"
  shows "\<exists>cm out. flow_of si dev (skb_mem skb) cm \<and> guards_passed k skb
    \<and> r_xmit res = [sent_as k si cm skb out] \<and> translated (matches si cm) (skb_mem skb) out"
proof -
  from assms(1) obtain g where i: "sfe_inv si g []" and "adj_inv si" by (rule good_invE)
  have x: "r_xmit res = [r_skb res]"
    using recv_inv(3) [OF i \<open>adj_inv si\<close> assms(2)] assms(3) by (auto simp: recv_outcome_def dropped_def forwarded_def)
  obtain cm out where F: "flow_of si dev (skb_mem skb) cm" "guards_passed k skb" "r_skb res = sent_as k si cm skb out"
    and o: "out = udp_rewrite (skb_ip_summed_partial skb) (matches si cm) (skb_mem skb ip_ttl) (skb_mem skb)
        \<or> out = tcp_rewrite (skb_ip_summed_partial skb) (matches si cm) (skb_mem skb ip_ttl) (skb_mem skb)"
    using forwarded_flow [OF assms] by auto
  have "translated (matches si cm) (skb_mem skb) out"
    using o udp_translated [OF flow_matches [OF F(1)]] tcp_translated [OF flow_matches [OF F(1)]] by auto
  with F x show ?thesis by auto
qed

lemma recv_forwards_translated_witness:
  "\<exists>res cm out. sfe_ipv4_recv example_kernel 1 example_si example_skb = Some res
     \<and> flow_of example_si 1 example_mem cm \<and> r_xmit res = [sent_as example_kernel example_si cm example_skb out]
     \<and> translated (matches example_si cm) example_mem out"
proof -
  obtain res where r: "sfe_ipv4_recv example_kernel 1 example_si example_skb = Some res" "r_ret res = 1"
    using example_recv by auto
  have m: "skb_mem example_skb = example_mem" by (simp add: example_skb_def)
  from recv_forwards_translated [OF example_good r] r(1) show ?thesis unfolding m by auto
qed

text \<open>
  C2: Forwarding a UDP packet leaves its checksum as good or as bad as it was: a packet without a
  checksum still has none, one with a checksum never loses it, and a complete checksum is valid for
  the new addresses and ports exactly when it was valid for the old ones; a partial one (hardware
  offload) stays the pseudo header sum. The payload is unchanged.
\<close>

theorem forwarded_udp_checksum:
  assumes "sfe_good si" and "sfe_ipv4_recv k dev si skb = Some res" and "r_ret res = 1"
    and "skb_mem skb ip_protocol = IPPROTO_UDP"
  shows "\<exists>cm out. flow_of si dev (skb_mem skb) cm \<and> r_skb res = sent_as k si cm skb out
    \<and> (ld16 out (20 + udp_check) = 0 \<longleftrightarrow> ld16 (skb_mem skb) (20 + udp_check) = 0)
    \<and> (\<forall>n \<ge> 8. \<not> skb_ip_summed_partial skb \<and> ld16 (skb_mem skb) (20 + udp_check) \<noteq> 0 \<longrightarrow>
          transport_csum_ok (ld32 out ip_saddr) (ld32 out ip_daddr) IPPROTO_UDP out 20 n
            = transport_csum_ok (ld32 (skb_mem skb) ip_saddr) (ld32 (skb_mem skb) ip_daddr) IPPROTO_UDP (skb_mem skb) 20 n)
    \<and> (\<forall>n. skb_ip_summed_partial skb \<and> ld16 (skb_mem skb) (20 + udp_check) \<noteq> 0
          \<and> pseudo_ok (ld32 (skb_mem skb) ip_saddr) (ld32 (skb_mem skb) ip_daddr) IPPROTO_UDP n (ld16 (skb_mem skb) (20 + udp_check)) \<longrightarrow>
          pseudo_ok (ld32 out ip_saddr) (ld32 out ip_daddr) IPPROTO_UDP n (ld16 out (20 + udp_check)))
    \<and> (\<forall>j \<ge> 28. out j = skb_mem skb j)"
proof -
  let ?m = "skb_mem skb" and ?p = "skb_ip_summed_partial skb"
  obtain cm out where F: "flow_of si dev ?m cm" "adj_ok (matches si cm)" "r_skb res = sent_as k si cm skb out"
    and o: "out = udp_rewrite ?p (matches si cm) (?m ip_ttl) ?m"
    using forwarded_flow [OF assms(1-3)] assms(4) by (auto simp: ipproto_defs)
  note fl = flow_matches [OF F(1)]
  have a: "ld32 out ip_saddr = out_src_ip (matches si cm)" "ld32 out ip_daddr = out_dest_ip (matches si cm)"
    unfolding o by (rule udp_rewrite_fields [OF fl])+
  have c: "20 + udp_check = 26" by (simp add: udp_check_def)
  have ip: "cm_match_src_ip (matches si cm) = ld32 ?m ip_saddr" "cm_match_dest_ip (matches si cm) = ld32 ?m ip_daddr"
    using fl by (simp_all add: matches_flow_def)
  show ?thesis
  proof (intro exI [of _ cm] exI [of _ out] conjI F allI impI)
    show "(ld16 out (20 + udp_check) = 0) = (ld16 ?m (20 + udp_check) = 0)"
      unfolding c o using udp_rewrite_zero_csum udp_rewrite_nonzero_csum by blast
  next
    fix n :: nat assume n: "8 \<le> n" and nz: "\<not> ?p \<and> ld16 ?m (20 + udp_check) \<noteq> 0"
    show "transport_csum_ok (ld32 out ip_saddr) (ld32 out ip_daddr) IPPROTO_UDP out 20 n
        = transport_csum_ok (ld32 ?m ip_saddr) (ld32 ?m ip_daddr) IPPROTO_UDP ?m 20 n"
      unfolding a unfolding o using udp_rewrite_csum [OF F(2) fl _ n] nz unfolding c by simp
  next
    fix n assume h: "?p \<and> ld16 ?m (20 + udp_check) \<noteq> 0
          \<and> pseudo_ok (ld32 ?m ip_saddr) (ld32 ?m ip_daddr) IPPROTO_UDP n (ld16 ?m (20 + udp_check))"
    then show "pseudo_ok (ld32 out ip_saddr) (ld32 out ip_daddr) IPPROTO_UDP n (ld16 out (20 + udp_check))"
      unfolding a unfolding o c using udp_rewrite_partial [OF F(2)] by (simp add: ip)
  next
    fix j :: nat assume "28 \<le> j"
    then show "out j = ?m j" unfolding o by (rule udp_rewrite_fields(6) [OF fl])
  qed
qed

lemma forwarded_udp_checksum_witness:
  "\<exists>res cm out. sfe_ipv4_recv example_kernel 1 example_si example_skb = Some res
     \<and> r_skb res = sent_as example_kernel example_si cm example_skb out
     \<and> transport_csum_ok (ld32 out ip_saddr) (ld32 out ip_daddr) IPPROTO_UDP out 20 8
        = transport_csum_ok (ld32 example_mem ip_saddr) (ld32 example_mem ip_daddr) IPPROTO_UDP example_mem 20 8"
proof -
  obtain res where r: "sfe_ipv4_recv example_kernel 1 example_si example_skb = Some res" "r_ret res = 1"
    using example_recv by auto
  have m: "skb_mem example_skb = example_mem" and p: "\<not> skb_ip_summed_partial example_skb" by (simp_all add: example_skb_def)
  have u: "skb_mem example_skb ip_protocol = IPPROTO_UDP" and n: "ld16 example_mem (20 + udp_check) \<noteq> 0"
    by (simp_all add: m example_mem_def hdr_defs ipproto_defs ld16_def)
  from forwarded_udp_checksum [OF example_good r u] r(1) p n show ?thesis unfolding m by blast
qed

text \<open>
  C3: Forwarding a TCP packet leaves its checksum as good or as bad as it was, complete or partial,
  and changes no byte of the TCP header besides ports and checksum, and none of the payload.
\<close>

theorem forwarded_tcp_checksum:
  assumes "sfe_good si" and "sfe_ipv4_recv k dev si skb = Some res" and "r_ret res = 1"
    and "skb_mem skb ip_protocol = IPPROTO_TCP"
  shows "\<exists>cm out. flow_of si dev (skb_mem skb) cm \<and> r_skb res = sent_as k si cm skb out
    \<and> (\<forall>n \<ge> 20. \<not> skb_ip_summed_partial skb \<longrightarrow>
          transport_csum_ok (ld32 out ip_saddr) (ld32 out ip_daddr) IPPROTO_TCP out 20 n
            = transport_csum_ok (ld32 (skb_mem skb) ip_saddr) (ld32 (skb_mem skb) ip_daddr) IPPROTO_TCP (skb_mem skb) 20 n)
    \<and> (\<forall>n. skb_ip_summed_partial skb
          \<and> pseudo_ok (ld32 (skb_mem skb) ip_saddr) (ld32 (skb_mem skb) ip_daddr) IPPROTO_TCP n (ld16 (skb_mem skb) (20 + tcp_check)) \<longrightarrow>
          pseudo_ok (ld32 out ip_saddr) (ld32 out ip_daddr) IPPROTO_TCP n (ld16 out (20 + tcp_check)))
    \<and> (\<forall>j \<ge> 24. j \<notin> {36, 37} \<longrightarrow> out j = skb_mem skb j)"
proof -
  let ?m = "skb_mem skb" and ?p = "skb_ip_summed_partial skb"
  obtain cm out where F: "flow_of si dev ?m cm" "adj_ok (matches si cm)" "r_skb res = sent_as k si cm skb out"
    and o: "out = tcp_rewrite ?p (matches si cm) (?m ip_ttl) ?m"
    using forwarded_flow [OF assms(1-3)] assms(4) by (auto simp: ipproto_defs)
  note fl = flow_matches [OF F(1)]
  have a: "ld32 out ip_saddr = out_src_ip (matches si cm)" "ld32 out ip_daddr = out_dest_ip (matches si cm)"
    unfolding o by (rule tcp_rewrite_fields [OF fl])+
  have c: "20 + tcp_check = 36" by (simp add: tcp_check_def)
  have ip: "cm_match_src_ip (matches si cm) = ld32 ?m ip_saddr" "cm_match_dest_ip (matches si cm) = ld32 ?m ip_daddr"
    using fl by (simp_all add: matches_flow_def)
  show ?thesis
  proof (intro exI [of _ cm] exI [of _ out] conjI F allI impI)
    fix n :: nat assume n: "20 \<le> n" and "\<not> ?p"
    then show "transport_csum_ok (ld32 out ip_saddr) (ld32 out ip_daddr) IPPROTO_TCP out 20 n
        = transport_csum_ok (ld32 ?m ip_saddr) (ld32 ?m ip_daddr) IPPROTO_TCP ?m 20 n"
      unfolding a unfolding o using tcp_rewrite_csum [OF F(2) fl n] by simp
  next
    fix n assume "?p \<and> pseudo_ok (ld32 ?m ip_saddr) (ld32 ?m ip_daddr) IPPROTO_TCP n (ld16 ?m (20 + tcp_check))"
    then show "pseudo_ok (ld32 out ip_saddr) (ld32 out ip_daddr) IPPROTO_TCP n (ld16 out (20 + tcp_check))"
      unfolding a unfolding o c using tcp_rewrite_partial [OF F(2)] by (simp add: ip)
  next
    fix j :: nat assume "24 \<le> j" "j \<notin> {36, 37}"
    then show "out j = ?m j" unfolding o by (rule tcp_rewrite_fields(6) [OF fl])
  qed
qed

lemma forwarded_tcp_checksum_witness:
  "\<exists>res cm out. sfe_ipv4_recv example_kernel 1 example_tcp_si example_tcp_skb = Some res
     \<and> r_skb res = sent_as example_kernel example_tcp_si cm example_tcp_skb out
     \<and> transport_csum_ok (ld32 out ip_saddr) (ld32 out ip_daddr) IPPROTO_TCP out 20 20
        = transport_csum_ok (ld32 example_tcp_mem ip_saddr) (ld32 example_tcp_mem ip_daddr) IPPROTO_TCP example_tcp_mem 20 20"
proof -
  obtain res where r: "sfe_ipv4_recv example_kernel 1 example_tcp_si example_tcp_skb = Some res" "r_ret res = 1"
    using example_tcp_recv by auto
  have m: "skb_mem example_tcp_skb = example_tcp_mem" and p: "\<not> skb_ip_summed_partial example_tcp_skb"
    by (simp_all add: example_tcp_skb_def example_skb_def)
  have u: "skb_mem example_tcp_skb ip_protocol = IPPROTO_TCP"
    by (simp add: m example_tcp_mem_def hdr_defs ipproto_defs)
  from forwarded_tcp_checksum [OF example_tcp_good r u] r(1) p show ?thesis unfolding m by blast
qed

text \<open>
  C4: Whatever the packet and the device, \<open>sfe_ipv4_recv\<close> returns (the option parser and the chain
  walks end), the engine stays well formed, and exactly one of three things has happened: the
  packet is counted, left alone and given back with its flow untouched, or with its flow removed and
  reported to the sync callback, or it is transmitted and counted as forwarded.
\<close>

theorem recv_total:
  assumes "sfe_good si"
  shows "\<exists>res. sfe_ipv4_recv k dev si skb = Some res \<and> sfe_good (r_si res) \<and> recv_outcome si skb res"
proof -
  from assms obtain g where i: "sfe_inv si g []" and a: "adj_inv si" by (rule good_invE)
  obtain res where r: "sfe_ipv4_recv k dev si skb = Some res"
    using recv_returns_recv [OF i, of skb k dev] by (auto simp: recv_returns_def)
  with recv_inv [OF i a r] show ?thesis by (auto simp: sfe_good_def sfe_wf_def)
qed

lemma recv_total_witness:
  "sfe_good example_si \<and> (\<exists>res. sfe_ipv4_recv example_kernel 2 example_si example_skb = Some res \<and> sfe_good (r_si res)
     \<and> recv_outcome example_si example_skb res)"
  using recv_total [OF example_good] example_good by blast

section \<open>The control path as updates of a map\<close>

text \<open>
  C5: Creating a rule answers \<open>-EINVAL\<close> when a device is not registered, \<open>-EADDRINUSE\<close> when the flow
  is known, \<open>-ENOMEM\<close> when an allocation fails, and otherwise 0; only then does the map of rules
  change, at the key of the request and to the rule of the request. The engine stays well formed.
\<close>

theorem create_rule_refines:
  assumes "sfe_good si" and "request_enabled (Create devs j kc ko kr sic) si"
  shows "\<exists>rc si'. sfe_ipv4_create_rule devs j kc ko kr si sic = Some (rc, si') \<and> sfe_good si'
    \<and> rc = (if \<not> devs_up devs sic then - EINVAL else if sfe_rules si (sic_key sic) \<noteq> None then - EADDRINUSE
            else if kc = None \<or> ko = None \<or> kr = None then - ENOMEM else 0)
    \<and> sfe_rules si' = (if rc = 0 then (sfe_rules si)(sic_key sic \<mapsto> sic_rule sic) else sfe_rules si)"
proof -
  from assms(1) obtain g where i: "sfe_inv si g []" and a: "adj_inv si" by (rule good_invE)
  obtain rc si' where c: "sfe_ipv4_create_rule devs j kc ko kr si sic = Some (rc, si')"
    by (rule Some_pairE [OF create_rule_result [OF i, of devs j kc ko kr sic]])
  have rc: "rc = (if \<not> devs_up devs sic then - EINVAL else if sfe_rules si (sic_key sic) \<noteq> None then - EADDRINUSE
            else if kc = None \<or> ko = None \<or> kr = None then - ENOMEM else 0)"
    using create_rule_result [OF i, of devs j kc ko kr sic] c
    by (auto simp: sfe_rules_def split: if_splits option.splits)
  have rc0: "rc = 0 \<longleftrightarrow> devs_up devs sic \<and> sfe_rules si (sic_key sic) = None \<and> kc \<noteq> None \<and> ko \<noteq> None \<and> kr \<noteq> None"
    unfolding rc by (simp add: EINVAL_def EADDRINUSE_def ENOMEM_def del: not_None_eq)
  obtain s' g' where R: "run_request (Create devs j kc ko kr sic) si = Some s'" "sfe_inv s' g' []" "adj_inv s'"
    "sfe_rules s' = request_effect (Create devs j kc ko kr sic) (sfe_rules si)"
    using create_request [OF i a assms(2)] by (elim exE conjE) (rule that)
  have "s' = si'" using R(1) c by simp
  then have "sfe_good si'" "sfe_rules si' = (if rc = 0 then (sfe_rules si)(sic_key sic \<mapsto> sic_rule sic) else sfe_rules si)"
    using R(2,3,4) rc0 by (auto simp: sfe_good_def sfe_wf_def)
  with c rc show ?thesis by auto
qed

lemma create_rule_refines_witness:
  "\<exists>si'. sfe_ipv4_create_rule (\<lambda>_. example_dev) 0 (Some 2) (Some 3) (Some 4) init_si example_sic = Some (0, si')
     \<and> sfe_rules si' = [sic_key example_sic \<mapsto> sic_rule example_sic]"
proof -
  have "request_enabled (Create (\<lambda>_. example_dev) 0 (Some 2) (Some 3) (Some 4) example_sic) init_si"
    using example_fresh by simp
  from create_rule_refines [OF sfe_good_init this] show ?thesis
    by (auto simp: sfe_rules_init devs_up_def example_dev_def)
qed

text \<open>
  C6: Destroying a rule always returns, removes exactly the rule of the request's key and tells the
  sync callback of exactly that connection, with reason DESTROY, when there was one.
\<close>

theorem destroy_rule_refines:
  assumes "sfe_good si"
  shows "\<exists>si' out. sfe_ipv4_destroy_rule j si sid = Some (si', out) \<and> sfe_good si'
    \<and> sfe_rules si' = (sfe_rules si)(sid_key sid := None)
    \<and> map (\<lambda>(cb, sis). (cb, sis_key sis, sis_reason sis)) out
        = (if sfe_rules si (sid_key sid) = None then []
           else syncs_of (sync_rule_callback si) SFE_SYNC_REASON_DESTROY [sid_key sid])"
proof -
  from assms obtain g where i: "sfe_inv si g []" and a: "adj_inv si" by (rule good_invE)
  obtain si' out where u: "sfe_ipv4_destroy_rule j si sid = Some (si', out)"
    by (rule Some_pairE [OF destroy_rule_result [OF i, of j sid]])
  have "sfe_good si'"
    using destroy_rule_inv(1) [OF i u] destroy_rule_adj [OF i a u] by (auto simp: sfe_good_def sfe_wf_def)
  moreover have "map (\<lambda>(cb, sis). (cb, sis_key sis, sis_reason sis)) out
        = (if sfe_rules si (sid_key sid) = None then []
           else syncs_of (sync_rule_callback si) SFE_SYNC_REASON_DESTROY [sid_key sid])"
  proof (cases "sfe_lookup si (sid_key sid)")
    case None
    then show ?thesis using destroy_rule_result [OF i, of j sid] u by (simp add: sfe_rules_def)
  next
    case (Some c)
    let ?si1 = "si\<lparr>connection_destroy_requests := connection_destroy_requests si + 1\<rparr>"
    have "snd (the (sfe_ipv4_destroy_rule j si sid))
        = snd (sfe_ipv4_flush_sfe_ipv4_connection j (sfe_ipv4_remove_sfe_ipv4_connection ?si1 c) c SFE_SYNC_REASON_DESTROY)"
      unfolding destroy_rule_result [OF i] by (simp add: Some)
    then have o: "out = snd (sfe_ipv4_flush_sfe_ipv4_connection j (sfe_ipv4_remove_sfe_ipv4_connection ?si1 c) c SFE_SYNC_REASON_DESTROY)"
      by (simp add: u)
    have k: "c_key (connections si c) = sid_key sid" using Some by (simp add: lookup_iff [OF i])
    have "c_key (connections (sfe_ipv4_remove_sfe_ipv4_connection ?si1 c) c) = c_key (connections ?si1 c)"
      using same_rules_data [OF same_data_remove_connection] by (simp add: same_rules_def)
    then show ?thesis unfolding o flush_syncs by (simp add: Some k sfe_rules_def syncs_of_def split: option.split)
  qed
  ultimately show ?thesis using u destroy_rule_inv(2) [OF i u] by blast
qed

definition example_sid :: sfe_connection_destroy where
  "example_sid = \<lparr>sid_protocol = 17, sid_src_ip = ip4_addr 0x0200000a, sid_dest_ip = ip4_addr 0x08080808,
     sid_src_port = 0x0010, sid_dest_port = 0x3500\<rparr>"

lemma destroy_rule_refines_witness:
  "\<exists>si' out. sfe_ipv4_destroy_rule 5 example_si example_sid = Some (si', out) \<and> sfe_good si'
     \<and> sfe_rules si' (sid_key example_sid) = None"
  using destroy_rule_refines [OF example_good, of 5 example_sid] by auto

end
