(* ===== verification/SFE_IPv4_Lifecycle.thy ===== *)
theory SFE_IPv4_Lifecycle
  imports SFE_IPv4_Props
begin

text \<open>
  Properties of the engine over its life: marking, device events, the timer, arbitrary request
  sequences, interleaved steps, and unloading; and of a new rule's two directions.
\<close>

section \<open>Marking and device events\<close>

text \<open>
  \<open>sfe_ipv4_mark_rule\<close> always returns and changes the mark of the rule with the request's key,
  nothing else of the map of rules; without such a rule it does nothing.
\<close>

theorem mark_rule_refines:
  assumes "sfe_good si"
  shows "\<exists>si'. sfe_ipv4_mark_rule si mk = Some si' \<and> sfe_good si'
    \<and> sfe_rules si' = (sfe_rules si)(mk_key mk := map_option (set_mark (mk_mark mk)) (sfe_rules si (mk_key mk)))"
proof -
  obtain si' where "run_request (Mark mk) si = Some si'" "sfe_good si'" "sfe_rules si' = request_effect (Mark mk) (sfe_rules si)"
    using v4.run_law [OF assms, of "Mark mk"] by auto
  then show ?thesis by auto
qed

definition example_mark :: sfe_connection_mark where
  "example_mark = \<lparr>mk_protocol = 17, mk_src_ip = ip4_addr 0x0200000a, mk_dest_ip = ip4_addr 0x08080808,
     mk_src_port = 0x0010, mk_dest_port = 0x3500, mk_mark = 99\<rparr>"

lemma example_rules: "sfe_rules example_si = [sic_key example_sic \<mapsto> sic_rule example_sic]"
  using create_rule_inv(2) [OF sfe_inv_init example_create] example_fresh by (auto simp: sfe_rules_init)

lemma mark_rule_refines_witness:
  "\<exists>si'. sfe_ipv4_mark_rule example_si example_mark = Some si' \<and> sfe_good si'
     \<and> sfe_rules si' (sic_key example_sic) = Some (set_mark 99 (sic_rule example_sic))"
proof -
  have "mk_key example_mark = sic_key example_sic" "mk_mark example_mark = 99"
    by (simp_all add: mk_key_def example_mark_def sic_key_def example_sic_def)
  with mark_rule_refines [OF example_good, of example_mark] show ?thesis by (auto simp: example_rules)
qed

text \<open>
  C9: \<open>sfe_ipv4_destroy_all_rules_for_dev\<close> returns (the restarted scan ends), and afterwards exactly the
  rules that do not use the device are left, unchanged; every removed connection is reported to the
  callback once, in the order of creation. The NULL device stands for every device.
\<close>

theorem destroy_all_refines:
  assumes "sfe_good si"
  shows "\<exists>si' out cs. sfe_ipv4_destroy_all_rules_for_dev j dev si = Some (si', out) \<and> sfe_good si'
    \<and> (\<forall>key r. sfe_rules si' key = Some r \<longleftrightarrow> sfe_rules si key = Some r \<and> \<not> rule_uses dev r)
    \<and> map (\<lambda>(cb, sis). (cb, sis_key sis, sis_reason sis)) out
        = syncs_of (sync_rule_callback si) SFE_SYNC_REASON_DESTROY cs
    \<and> distinct cs \<and> set cs = {key. \<exists>r. sfe_rules si key = Some r \<and> rule_uses dev r}"
proof -
  from assms obtain g where i: "sfe_inv si g []" and a: "adj_inv si" by (rule good_invE)
  let ?gone = "filter (\<lambda>c. uses_dev (connections si c) dev) (ga g)"
  let ?cs = "map (\<lambda>c. c_key (connections si c)) ?gone"
  from destroy_all_spec [OF i, of j dev]
  obtain si' out g' where u: "sfe_ipv4_destroy_all_rules_for_dev j dev si = Some (si', out)" and i': "sfe_inv si' g' []"
    and ga: "ga g' = filter (\<lambda>c. \<not> uses_dev (connections si c) dev) (ga g)" and r: "same_rules si si'"
    and o: "map (\<lambda>(cb, sis). (cb, sis_key sis, sis_reason sis)) out = syncs_of (sync_rule_callback si) SFE_SYNC_REASON_DESTROY ?cs"
    by (elim exE conjE) (rule that)
  have good: "sfe_good si'" using i' destroy_all_adj [OF i u] adj_inv_same a by (auto simp: sfe_good_def sfe_wf_def)
  have rules: "sfe_rules si' key = Some x \<longleftrightarrow> sfe_rules si key = Some x \<and> \<not> rule_uses dev x" for key x
    unfolding destroy_all_rules [OF i i' ga r] by (auto split: option.split)
  have fi: "ft_inv (ft si) g" and m: "mem_ok si (ga g)" using i by (simp_all add: sfe_inv_def)
  have d: "distinct (ga g)" using m by (simp add: mem_ok_def)
  have one: "c = c'" if "c \<in> set (ga g)" "c' \<in> set (ga g)" "c_key (connections si c) = c_key (connections si c')" for c c'
  proof -
    have "sfe_lookup si (c_key (connections si c)) = Some c" "sfe_lookup si (c_key (connections si c)) = Some c'"
      using that by (simp_all add: lookup_iff [OF i])
    then show ?thesis by simp
  qed
  have "distinct ?cs" using d one by (auto simp: distinct_map inj_on_def)
  moreover have "set ?cs = {key. \<exists>r. sfe_rules si key = Some r \<and> rule_uses dev r}"
  proof (rule set_eqI)
    fix key
    have "(\<exists>r. sfe_rules si key = Some r \<and> rule_uses dev r)
        \<longleftrightarrow> (\<exists>c. sfe_lookup si key = Some c \<and> rule_uses dev (c_rule (connections si c)))"
      by (cases "sfe_lookup si key") (simp_all add: sfe_rules_def)
    also have "\<dots> \<longleftrightarrow> key \<in> set ?cs"
      unfolding lookup_iff [OF i] by (auto simp: uses_dev_rule)
    finally show "key \<in> set ?cs \<longleftrightarrow> key \<in> {key. \<exists>r. sfe_rules si key = Some r \<and> rule_uses dev r}" by simp
  qed
  ultimately show ?thesis using u good rules o by blast
qed

lemma destroy_all_refines_witness:
  "\<exists>si' out. sfe_ipv4_destroy_all_rules_for_dev 3 2 example_si = Some (si', out) \<and> sfe_good si'
     \<and> sfe_rules si' (sic_key example_sic) = None"
proof -
  have u: "rule_uses 2 (sic_rule example_sic)" by (simp add: rule_uses_def sic_rule_def example_sic_def)
  from destroy_all_refines [OF example_good, of 3 2]
  obtain si' out where s: "sfe_ipv4_destroy_all_rules_for_dev 3 2 example_si = Some (si', out)" "sfe_good si'"
    and r: "\<And>key r. sfe_rules si' key = Some r \<longleftrightarrow> sfe_rules example_si key = Some r \<and> \<not> rule_uses 2 r" by blast
  have "sfe_rules si' (sic_key example_sic) = None"
  proof (rule ccontr)
    assume "sfe_rules si' (sic_key example_sic) \<noteq> None"
    then obtain a where "sfe_rules si' (sic_key example_sic) = Some a" by (meson option.exhaust)
    then show False unfolding r using u by (simp add: example_rules)
  qed
  with s show ?thesis by blast
qed

text \<open>
  C10: Unloading: \<open>sfe_ipv4_exit\<close> returns and leaves no connection, no match, no device reference and
  no entry in either hash table or list, so nothing is leaked.
\<close>

theorem exit_releases_everything:
  assumes "sfe_good si"
  shows "\<exists>si' out. sfe_ipv4_exit j si = Some (si', out) \<and> live_connections si' = {} \<and> live_matches si' = {}
    \<and> dev_refs si' = (\<lambda>_. 0) \<and> num_connections si' = 0 \<and> all_connections_head si' = None \<and> active_head si' = None
    \<and> (\<forall>i. conn_hash si' i = None \<and> conn_match_hash si' i = None)"
proof -
  from assms obtain g where i: "sfe_inv si g []" and a: "adj_inv si" by (rule good_invE)
  from destroy_all_spec [OF i, of j 0]
  obtain si' out g' where u: "sfe_ipv4_destroy_all_rules_for_dev j 0 si = Some (si', out)" and i': "sfe_inv si' g' []"
    and ga: "ga g' = filter (\<lambda>c. \<not> uses_dev (connections si c) 0) (ga g)" and r: "same_rules si si'"
    by (elim exE conjE) (rule that)
  have n: "sfe_rules si' = (\<lambda>_. None)"
    unfolding destroy_all_rules [OF i i' ga r] by (auto simp: rule_uses_def fun_eq_iff split: option.split)
  show ?thesis
    using u quiet_engine [OF i' n] unfolding sfe_ipv4_exit_def by blast
qed

lemma exit_releases_everything_witness:
  "sfe_good example_si \<and> live_connections example_si = {2}
   \<and> (\<exists>si' out. sfe_ipv4_exit 9 example_si = Some (si', out) \<and> live_connections si' = {} \<and> dev_refs si' = (\<lambda>_. 0))"
proof -
  have "live_connections example_si = {2}" by code_simp
  with exit_releases_everything [OF example_good, of 9] example_good show ?thesis by blast
qed

section \<open>The timer\<close>



end
