(* ===== verification/SFE_IPv4_Details.thy ===== *)
theory SFE_IPv4_Details
  imports SFE_IPv4_Lifecycle
begin

text \<open>
  Properties of single operations: the two directions of a rule, lookups and hashes, checksums, the
  TCP checks, messages and headers.
\<close>

section \<open>The two directions of a rule\<close>

definition in_flow :: "sfe_ipv4_connection_match \<Rightarrow> dev_ptr \<times> be32 \<times> be16 \<times> be32 \<times> be16" where
  "in_flow cm = (cm_match_dev cm, cm_match_src_ip cm, cm_match_src_port cm, cm_match_dest_ip cm, cm_match_dest_port cm)"

definition out_flow :: "sfe_ipv4_connection_match \<Rightarrow> dev_ptr \<times> be32 \<times> be16 \<times> be32 \<times> be16" where
  "out_flow cm = (cm_xmit_dev cm, out_src_ip cm, out_src_port cm, out_dest_ip cm, out_dest_port cm)"

text \<open>The answer to a packet: same device, source and destination exchanged.\<close>

definition answer :: "dev_ptr \<times> be32 \<times> be16 \<times> be32 \<times> be16 \<Rightarrow> dev_ptr \<times> be32 \<times> be16 \<times> be32 \<times> be16" where
  "answer = (\<lambda>(d, si, sp, di, dp). (d, di, dp, si, sp))"

lemma flow_core: "cm_core m' = cm_core m \<Longrightarrow> in_flow m' = in_flow m \<and> out_flow m' = out_flow m"
proof -
  have "in_flow (cm_core x) = in_flow x" "out_flow (cm_core x) = out_flow x" for x
    by (simp_all add: in_flow_def out_flow_def out_src_ip_def out_src_port_def out_dest_ip_def out_dest_port_def cm_core_def)
  then show "cm_core m' = cm_core m \<Longrightarrow> in_flow m' = in_flow m \<and> out_flow m' = out_flow m" by metis
qed

lemma has_flag_const:
  "\<not> has_flag 0 f"
  "\<not> has_flag SFE_IPV4_CONNECTION_MATCH_FLAG_NO_SEQ_CHECK SFE_IPV4_CONNECTION_MATCH_FLAG_XLATE_SRC"
  "\<not> has_flag SFE_IPV4_CONNECTION_MATCH_FLAG_NO_SEQ_CHECK SFE_IPV4_CONNECTION_MATCH_FLAG_XLATE_DEST"
  "has_flag SFE_IPV4_CONNECTION_MATCH_FLAG_XLATE_SRC SFE_IPV4_CONNECTION_MATCH_FLAG_XLATE_SRC"
  "\<not> has_flag SFE_IPV4_CONNECTION_MATCH_FLAG_XLATE_DEST SFE_IPV4_CONNECTION_MATCH_FLAG_XLATE_SRC"
  "\<not> has_flag SFE_IPV4_CONNECTION_MATCH_FLAG_PRIORITY_REMARK SFE_IPV4_CONNECTION_MATCH_FLAG_XLATE_SRC"
  "\<not> has_flag SFE_IPV4_CONNECTION_MATCH_FLAG_DSCP_REMARK SFE_IPV4_CONNECTION_MATCH_FLAG_XLATE_SRC"
  "\<not> has_flag SFE_IPV4_CONNECTION_MATCH_FLAG_WRITE_L2_HDR SFE_IPV4_CONNECTION_MATCH_FLAG_XLATE_SRC"
  "\<not> has_flag SFE_IPV4_CONNECTION_MATCH_FLAG_WRITE_FAST_ETH_HDR SFE_IPV4_CONNECTION_MATCH_FLAG_XLATE_SRC"
  "\<not> has_flag SFE_IPV4_CONNECTION_MATCH_FLAG_XLATE_SRC SFE_IPV4_CONNECTION_MATCH_FLAG_XLATE_DEST"
  "has_flag SFE_IPV4_CONNECTION_MATCH_FLAG_XLATE_DEST SFE_IPV4_CONNECTION_MATCH_FLAG_XLATE_DEST"
  "\<not> has_flag SFE_IPV4_CONNECTION_MATCH_FLAG_PRIORITY_REMARK SFE_IPV4_CONNECTION_MATCH_FLAG_XLATE_DEST"
  "\<not> has_flag SFE_IPV4_CONNECTION_MATCH_FLAG_DSCP_REMARK SFE_IPV4_CONNECTION_MATCH_FLAG_XLATE_DEST"
  "\<not> has_flag SFE_IPV4_CONNECTION_MATCH_FLAG_WRITE_L2_HDR SFE_IPV4_CONNECTION_MATCH_FLAG_XLATE_DEST"
  "\<not> has_flag SFE_IPV4_CONNECTION_MATCH_FLAG_WRITE_FAST_ETH_HDR SFE_IPV4_CONNECTION_MATCH_FLAG_XLATE_DEST"
  by (simp_all add: has_flag_def match_flag_defs)

lemma fill_flags:
  "\<not> has_flag (cm_flags (fill_original_cm devs sic c r m)) SFE_IPV4_CONNECTION_MATCH_FLAG_XLATE_SRC"
  "\<not> has_flag (cm_flags (fill_original_cm devs sic c r m)) SFE_IPV4_CONNECTION_MATCH_FLAG_XLATE_DEST"
  "\<not> has_flag (cm_flags (fill_reply_cm devs sic c r m)) SFE_IPV4_CONNECTION_MATCH_FLAG_XLATE_SRC"
  "\<not> has_flag (cm_flags (fill_reply_cm devs sic c r m)) SFE_IPV4_CONNECTION_MATCH_FLAG_XLATE_DEST"
  by (simp_all add: fill_original_cm_def fill_reply_cm_def Let_def set_remark_def set_l2_flags_def cm_set_flag_def
      has_flag_or has_flag_const)

lemma new_flags:
  "has_flag (cm_flags (new_original devs sic c r m)) SFE_IPV4_CONNECTION_MATCH_FLAG_XLATE_SRC = xlate_src sic"
  "has_flag (cm_flags (new_original devs sic c r m)) SFE_IPV4_CONNECTION_MATCH_FLAG_XLATE_DEST = xlate_dest sic"
  "has_flag (cm_flags (new_reply devs sic c r m)) SFE_IPV4_CONNECTION_MATCH_FLAG_XLATE_SRC = xlate_dest sic"
  "has_flag (cm_flags (new_reply devs sic c r m)) SFE_IPV4_CONNECTION_MATCH_FLAG_XLATE_DEST = xlate_src sic"
  by (simp_all add: new_original_def new_reply_def compute_translations_eq Let_def tcp_init_def xlate_flags_def
      xlate_flags'_def doif_def cm_set_flag_def has_flag_or has_flag_const fill_flags)

lemma set_remark_sel:
  "cm_match_dev (set_remark fl p d m) = cm_match_dev m" "cm_match_src_ip (set_remark fl p d m) = cm_match_src_ip m"
  "cm_match_src_port (set_remark fl p d m) = cm_match_src_port m" "cm_match_dest_ip (set_remark fl p d m) = cm_match_dest_ip m"
  "cm_match_dest_port (set_remark fl p d m) = cm_match_dest_port m" "cm_xmit_dev (set_remark fl p d m) = cm_xmit_dev m"
  "cm_xlate_src_ip (set_remark fl p d m) = cm_xlate_src_ip m" "cm_xlate_src_port (set_remark fl p d m) = cm_xlate_src_port m"
  "cm_xlate_dest_ip (set_remark fl p d m) = cm_xlate_dest_ip m" "cm_xlate_dest_port (set_remark fl p d m) = cm_xlate_dest_port m"
  by (simp_all add: set_remark_def Let_def cm_set_flag_def)

lemma set_l2_sel:
  "cm_match_dev (set_l2_flags d m) = cm_match_dev m" "cm_match_src_ip (set_l2_flags d m) = cm_match_src_ip m"
  "cm_match_src_port (set_l2_flags d m) = cm_match_src_port m" "cm_match_dest_ip (set_l2_flags d m) = cm_match_dest_ip m"
  "cm_match_dest_port (set_l2_flags d m) = cm_match_dest_port m" "cm_xmit_dev (set_l2_flags d m) = cm_xmit_dev m"
  "cm_xlate_src_ip (set_l2_flags d m) = cm_xlate_src_ip m" "cm_xlate_src_port (set_l2_flags d m) = cm_xlate_src_port m"
  "cm_xlate_dest_ip (set_l2_flags d m) = cm_xlate_dest_ip m" "cm_xlate_dest_port (set_l2_flags d m) = cm_xlate_dest_port m"
  by (simp_all add: set_l2_flags_def Let_def cm_set_flag_def)

lemmas rule_fields = new_original_def new_reply_def compute_translations_eq Let_def tcp_init_def xlate_flags_def
  xlate_flags'_def doif_def cm_set_flag_def fill_original_cm_def fill_reply_cm_def set_remark_sel set_l2_sel

lemma new_original_flow:
  "in_flow (new_original devs sic c r m) = (sic_src_dev sic, sa_ip (sic_src_ip sic), sic_src_port sic, sa_ip (sic_dest_ip sic), sic_dest_port sic)"
  "out_flow (new_original devs sic c r m) = (sic_dest_dev sic, sa_ip (sic_src_ip_xlate sic), sic_src_port_xlate sic,
     sa_ip (sic_dest_ip_xlate sic), sic_dest_port_xlate sic)"
proof -
  show "in_flow (new_original devs sic c r m) = (sic_src_dev sic, sa_ip (sic_src_ip sic), sic_src_port sic, sa_ip (sic_dest_ip sic), sic_dest_port sic)"
    by (simp add: in_flow_def rule_fields)
  show "out_flow (new_original devs sic c r m) = (sic_dest_dev sic, sa_ip (sic_src_ip_xlate sic), sic_src_port_xlate sic,
     sa_ip (sic_dest_ip_xlate sic), sic_dest_port_xlate sic)"
    unfolding out_flow_def out_src_ip_def out_src_port_def out_dest_ip_def out_dest_port_def new_flags xlate_src_def xlate_dest_def
    by (simp add: rule_fields)
qed

lemma new_reply_flow:
  "in_flow (new_reply devs sic c r m) = (sic_dest_dev sic, sa_ip (sic_dest_ip_xlate sic), sic_dest_port_xlate sic,
     sa_ip (sic_src_ip_xlate sic), sic_src_port_xlate sic)"
  "out_flow (new_reply devs sic c r m) = (sic_src_dev sic, sa_ip (sic_dest_ip sic), sic_dest_port sic, sa_ip (sic_src_ip sic), sic_src_port sic)"
proof -
  show "in_flow (new_reply devs sic c r m) = (sic_dest_dev sic, sa_ip (sic_dest_ip_xlate sic), sic_dest_port_xlate sic,
     sa_ip (sic_src_ip_xlate sic), sic_src_port_xlate sic)"
    by (simp add: in_flow_def rule_fields)
  show "out_flow (new_reply devs sic c r m) = (sic_src_dev sic, sa_ip (sic_dest_ip sic), sic_dest_port sic, sa_ip (sic_src_ip sic), sic_src_port sic)"
    unfolding out_flow_def out_src_ip_def out_src_port_def out_dest_ip_def out_dest_port_def new_flags xlate_src_def xlate_dest_def
    by (simp add: rule_fields)
qed

text \<open>
  The two matches of a new rule are each other's inverse: what the original direction sends out,
  answered, is what the reply direction accepts, and the reply direction turns it back into the
  answer of the packet the original direction accepted. So translating out and back is the identity.
\<close>

theorem directions_inverse:
  assumes "oc \<noteq> r"
  shows "in_flow (matches (build_rule devs j sic c oc r si) r) = answer (out_flow (matches (build_rule devs j sic c oc r si) oc))
    \<and> out_flow (matches (build_rule devs j sic c oc r si) r) = answer (in_flow (matches (build_rule devs j sic c oc r si) oc))"
proof -
  have "same_core (built devs j sic c oc r si) (build_rule devs j sic c oc r si)"
    unfolding build_rule_eq [OF assms] by (rule same_core_data [OF same_data_insert_connection])
  then have "cm_core (matches (build_rule devs j sic c oc r si) p) = cm_core (matches (built devs j sic c oc r si) p)" for p
    by (simp add: same_core_def)
  note F = flow_core [OF this]
  have "matches (built devs j sic c oc r si) oc = new_original devs sic c r (matches si oc)"
    "matches (built devs j sic c oc r si) r = new_reply devs sic c oc (matches si r)"
    using assms by (simp_all add: built_fields)
  then show ?thesis
    using F [of oc] F [of r] by (simp_all add: new_original_flow new_reply_flow answer_def)
qed

lemma directions_inverse_witness:
  "in_flow (matches (build_rule (\<lambda>_. example_dev) 0 example_sic 2 3 4 init_si) 4)
     = answer (out_flow (matches (build_rule (\<lambda>_. example_dev) 0 example_sic 2 3 4 init_si) 3))"
  using directions_inverse [of 3 4] by simp

section \<open>Lookups\<close>

text \<open>Both hash functions stay inside the tables of 4096 chains, for every key.\<close>

lemma hashes_in_range:
  "sfe_ipv4_get_connection_match_hash dev protocol src_ip src_port dest_ip dest_port < 4096
   \<and> sfe_ipv4_get_connection_hash protocol src_ip src_port dest_ip dest_port < 4096"
proof -
  have "unat (w AND SFE_IPV4_CONNECTION_HASH_MASK) < 4096" for w :: u32
  proof -
    have "w AND SFE_IPV4_CONNECTION_HASH_MASK \<le> SFE_IPV4_CONNECTION_HASH_MASK" by (rule word_and_le1)
    then have "unat (w AND SFE_IPV4_CONNECTION_HASH_MASK) \<le> unat SFE_IPV4_CONNECTION_HASH_MASK"
      by (simp only: word_le_nat_alt)
    also have "\<dots> < 4096" by (simp add: SFE_IPV4_CONNECTION_HASH_MASK_def)
    finally show ?thesis .
  qed
  then show ?thesis by (simp add: sfe_ipv4_get_connection_match_hash_def sfe_ipv4_get_connection_hash_def Let_def)
qed

text \<open>
  The lookup of a match always returns; it finds a match in use with the key exactly when there
  is one, and moving what it found to the front of its chain keeps the engine well formed and its
  rules as they were.
\<close>

theorem find_match_correct:
  assumes "sfe_good si"
  shows "\<exists>r si'. sfe_ipv4_find_sfe_ipv4_connection_match si dev protocol src_ip src_port dest_ip dest_port = Some (r, si')
    \<and> sfe_good si' \<and> sfe_rules si' = sfe_rules si
    \<and> (case r of None \<Rightarrow> si' = si \<and> (\<forall>m \<in> live_matches si. cm_key (matches si m) \<noteq> (dev, protocol, src_ip, src_port, dest_ip, dest_port))
       | Some m \<Rightarrow> m \<in> live_matches si' \<and> cm_key (matches si' m) = (dev, protocol, src_ip, src_port, dest_ip, dest_port))"
proof -
  from assms obtain g where i: "sfe_inv si g []" and a: "adj_inv si" by (rule good_invE)
  obtain r si1 g1 where f: "sfe_ipv4_find_sfe_ipv4_connection_match si dev protocol src_ip src_port dest_ip dest_port = Some (r, si1)"
    and i1: "sfe_inv si1 g1 []" and d: "same_data si si1" and ru: "sfe_rules si1 = sfe_rules si"
    and c: "case r of None \<Rightarrow> si1 = si \<and> (\<forall>m \<in> ft_live (ft si) (set (ga g)). cm_key (matches si m) \<noteq> (dev, protocol, src_ip, src_port, dest_ip, dest_port))
       | Some cm \<Rightarrow> cm \<in> ft_live (ft si1) (set (ga g1)) \<and> cm_key (matches si1 cm) = (dev, protocol, src_ip, src_port, dest_ip, dest_port)"
    by (rule find_match_inv [OF i, of dev protocol src_ip src_port dest_ip dest_port])
  have "sfe_good si1" using i1 adj_inv_same [OF same_adj_data [OF d] a] by (auto simp: sfe_good_def sfe_wf_def)
  then show ?thesis using f ru c unfolding inv_live [OF i] inv_live [OF i1] by blast
qed

lemma find_match_correct_witness:
  "\<exists>m si'. sfe_ipv4_find_sfe_ipv4_connection_match example_si 1 17 0x0200000a 0x0010 0x08080808 0x3500 = Some (Some m, si')
     \<and> sfe_good si'"
proof -
  have e: "3 \<in> live_matches example_si \<and> cm_key (matches example_si 3) = (1, 17, 0x0200000a, 0x0010, 0x08080808, 0x3500)"
    by code_simp
  from find_match_correct [OF example_good, of 1 17 "0x0200000a" "0x0010" "0x08080808" "0x3500"]
  obtain r si' where f: "sfe_ipv4_find_sfe_ipv4_connection_match example_si 1 17 0x0200000a 0x0010 0x08080808 0x3500 = Some (r, si')"
    "sfe_good si'" and c: "case r of None \<Rightarrow> si' = example_si \<and>
        (\<forall>m \<in> live_matches example_si. cm_key (matches example_si m) \<noteq> (1, 17, 0x0200000a, 0x0010, 0x08080808, 0x3500))
       | Some m \<Rightarrow> m \<in> live_matches si' \<and> cm_key (matches si' m) = (1, 17, 0x0200000a, 0x0010, 0x08080808, 0x3500)"
    by (elim exE conjE) (rule that)
  show ?thesis
  proof (cases r)
    case None
    with c e show ?thesis by auto
  next
    case (Some m)
    with f show ?thesis by blast
  qed
qed

section \<open>Checksums\<close>

text \<open>
  \<open>sfe_ipv4_gen_ip_csum\<close>: with its result in the check field, the ten words of the header add up
  to 0 in ones' complement, and not because they are all zero.
\<close>

theorem gen_ip_csum_correct:
  "(let (csum, m1) = sfe_ipv4_gen_ip_csum m iph; out = st16 m1 (iph + 10) csum
    in csum_eq (ip_header_sum out iph) 0 \<and> 0 < ip_header_sum out iph)"
  using gen_ip_csum_valid [of m iph] by (simp add: Let_def split_beta)

text \<open>
  The checksum adjustments of \<open>sfe_ipv4_connection_match_compute_translations\<close> are the difference
  of old and new address and port, in ones' complement.
\<close>

theorem translations_adjust:
  assumes "has_flag (cm_flags cm) SFE_IPV4_CONNECTION_MATCH_FLAG_XLATE_SRC"
    and "has_flag (cm_flags cm) SFE_IPV4_CONNECTION_MATCH_FLAG_XLATE_DEST"
    and "cm' = sfe_ipv4_connection_match_compute_translations cm"
  shows "csum_eq (unat (cm_xlate_src_csum_adjustment cm') + ip_sum (cm_xlate_src_ip cm) + unat (cm_xlate_src_port cm))
           (ip_sum (cm_match_src_ip cm) + unat (cm_match_src_port cm))
    \<and> csum_eq (unat (cm_xlate_dest_csum_adjustment cm') + ip_sum (cm_xlate_dest_ip cm) + unat (cm_xlate_dest_port cm))
           (ip_sum (cm_match_dest_ip cm) + unat (cm_match_dest_port cm))
    \<and> csum_eq (unat (cm_xlate_src_partial_csum_adjustment cm') + unat (cm_match_src_ip cm)) (unat (cm_xlate_src_ip cm))
    \<and> csum_eq (unat (cm_xlate_dest_partial_csum_adjustment cm') + unat (cm_match_dest_ip cm)) (unat (cm_xlate_dest_ip cm))"
  using csum_adjustment_law partial_csum_adjustment_law assms by (simp add: compute_translations_eq Let_def)

lemma translations_adjust_witness:
  "csum_eq (unat (cm_xlate_src_partial_csum_adjustment (sfe_ipv4_connection_match_compute_translations
      (init_match\<lparr>cm_flags := 3, cm_match_src_ip := 0x0200000a, cm_xlate_src_ip := 0x04030201\<rparr>))) + 0x0200000a) 0x04030201"
proof -
  let ?cm = "init_match\<lparr>cm_flags := 3, cm_match_src_ip := 0x0200000a, cm_xlate_src_ip := 0x04030201\<rparr>"
  have "has_flag (cm_flags ?cm) SFE_IPV4_CONNECTION_MATCH_FLAG_XLATE_SRC"
    "has_flag (cm_flags ?cm) SFE_IPV4_CONNECTION_MATCH_FLAG_XLATE_DEST"
    by (simp_all add: has_flag_def match_flag_defs)
  from translations_adjust [OF this refl] show ?thesis by simp
qed

end
