(* ===== verification/SFE_IPv4_TCP_Props.thy ===== *)
theory SFE_IPv4_TCP_Props
  imports SFE_IPv4_Details
begin

text \<open>
  Properties of the TCP window tracking, of the messages and headers the engine writes, of ICMP
  errors, and of the engine as a transition system.
\<close>

section \<open>TCP options and windows\<close>

text \<open>
  The sequence checks return for every packet: the option parser ends on any bytes, because a
  data offset is at most 60 and every option it steps over has a length of at least 1.
\<close>

theorem tcp_seq_check_terminates:
  "\<exists>v. tcp_seq_check m th len tcp counter_tcp = Some v"
  by (rule tcp_seq_check_returns)

lemma sack_options_ge:
  assumes "sack_options m th data_offs len ack = Some r"
  shows "ack \<le> snd r"
proof (rule sack_options.raw_induct [OF _ assms], goal_cases)
  case (1 f m th data_offs len ack y)
  show ?case
  proof (cases "len < data_offs")
    case False
    with 1(2) show ?thesis by auto
  next
    case True
    let ?kind = "m (th + unat len)" and ?osize = "m (th + unat len + 1)"
    consider (nop) "?kind = TCPOPT_NOP" | (sack) "?kind = TCPOPT_SACK"
      | (eol) "?kind = TCPOPT_EOL" | (other) "?kind \<notin> {TCPOPT_NOP, TCPOPT_SACK, TCPOPT_EOL}" by blast
    then show ?thesis
    proof cases
      case nop
      with 1(2) True have "f m th data_offs (len + 1) ack = Some y" by (simp add: Let_def)
      then show ?thesis by (rule 1(1))
    next
      case sack
      let ?bad = "?osize < 1 + 1 + TCPOLEN_SACK_PERBLOCK \<or> (?osize - (1 + 1)) mod TCPOLEN_SACK_PERBLOCK \<noteq> 0
                         \<or> (ucast ?osize :: u32) > data_offs - len"
      have n: "?kind \<noteq> TCPOPT_NOP" using sack by (simp add: TCPOPT_NOP_def TCPOPT_SACK_def)
      show ?thesis
      proof (cases ?bad)
        case bad: True
        then have "(False, ack) = y"
          using 1(2) True sack n by (simp only: Let_def if_True if_False refl) (simp split: if_splits)
        then show ?thesis by auto
      next
        case False
        then have "sack_blocks m (th + unat len) ?osize (1 + 1 + 4) 0 \<bind> (\<lambda>sack. f m th data_offs (len + ucast ?osize)
            (if sack > ack then sack else ack)) = Some y"
          using 1(2) True sack n by (simp only: Let_def if_True if_False refl)
        then obtain b where "f m th data_offs (len + ucast ?osize) (if b > ack then b else ack) = Some y"
          by (auto simp: bind_eq_Some_conv)
        from 1(1) [OF this] show ?thesis by (auto split: if_splits intro: order_trans less_imp_le)
      qed
    next
      case eol
      with 1(2) True show ?thesis by (auto simp: Let_def TCPOPT_EOL_def TCPOPT_NOP_def TCPOPT_SACK_def)
    next
      case other
      with 1(2) True 1(1) show ?thesis by (auto simp: Let_def split: if_splits)
    qed
  qed
qed

text \<open>
  The acknowledgement \<open>sfe_ipv4_process_tcp_option_sack\<close> hands back is never below the one it was
  given, as unsigned numbers: a SACK block can only raise it.
\<close>

theorem sack_never_lowers_ack:
  assumes "sfe_ipv4_process_tcp_option_sack m th data_offs ack = Some (ok, ack')"
  shows "ack \<le> ack'"
  using assms sack_options_ge [of m th data_offs TCPH_LEN ack "(ok, ack')"]
  by (auto simp: sfe_ipv4_process_tcp_option_sack_def Let_def split: if_splits)

definition example_sack :: mem where
  "example_sack = (\<lambda>k. if k < 32 then ([0, 0, 0, 0, 0, 0, 0, 0, 0, 0, 0, 0, 0, 0, 0, 0, 0, 0, 0, 0,
     1, 1, 5, 10, 0, 0, 0, 50, 0, 0, 0, 90] :: u8 list) ! k else 0)"

lemma example_sack_result: "sfe_ipv4_process_tcp_option_sack example_sack 0 32 40 = Some (True, 90)"
  by code_simp

lemma sack_never_lowers_ack_witness: "(40 :: u32) \<le> 90"
  using sack_never_lowers_ack [OF example_sack_result] .

text \<open>
  The window update never takes back room: the largest window does not shrink, and the end of
  the sender's data and the receiver's right edge only move forward in serial arithmetic.
\<close>

theorem window_update_monotone:
  "let si' = tcp_window_update m th cm counter_cm end' ack sack si;
       tcp = cm_tcp (matches si cm); tcp' = cm_tcp (matches si' cm);
       counter = cm_tcp (matches si counter_cm); counter' = cm_tcp (matches si' counter_cm)
   in tcp_max_win tcp \<le> tcp_max_win tcp' \<and> s32 (tcp_end tcp' - tcp_end tcp) \<ge> 0
      \<and> s32 (end' - tcp_end tcp') \<le> 0 \<and> s32 (tcp_max_end counter' - tcp_max_end counter) \<ge> 0"
  by (auto simp: tcp_window_update_def Let_def upd_cm_def)

lemma tcp_state_max_covers:
  "w \<le> tcp_max_win (tcp_state_max w e me tcp)" "s32 (tcp_end (tcp_state_max w e me tcp) - e) \<ge> 0"
  "s32 (tcp_max_end (tcp_state_max w e me tcp) - me) \<ge> 0"
  by (auto simp: tcp_state_max_def Let_def)

definition tcp_covers :: "u32 \<Rightarrow> u32 \<Rightarrow> u32 \<Rightarrow> sfe_ipv4_tcp_connection_match \<Rightarrow> bool" where
  "tcp_covers w e me tcp \<longleftrightarrow> w \<le> tcp_max_win tcp \<and> s32 (tcp_end tcp - e) \<ge> 0 \<and> s32 (tcp_max_end tcp - me) \<ge> 0"

lemma update_tcp_state_covers:
  assumes "c_original_match (connections si c) = oc" and "c_reply_match (connections si c) = r" and "oc \<noteq> r"
  shows "tcp_covers (sic_src_td_max_window sic) (sic_src_td_end sic) (sic_src_td_max_end sic)
      (cm_tcp (matches (sfe_ipv4_update_tcp_state si c sic) oc))
    \<and> tcp_covers (sic_dest_td_max_window sic) (sic_dest_td_end sic) (sic_dest_td_max_end sic)
      (cm_tcp (matches (sfe_ipv4_update_tcp_state si c sic) r))"
  using assms by (simp add: tcp_covers_def sfe_ipv4_update_tcp_state_def Let_def upd_cm_def cm_set_flag_def
      cm_clear_flag_def tcp_state_max_covers)

text \<open>
  Updating a rule always returns, keeps the engine well formed and the map of rules, and for a
  TCP connection leaves windows at least as large as the request's and right edges not before them.
\<close>

theorem update_rule_correct:
  assumes "sfe_good si"
  shows "\<exists>si'. sfe_ipv4_update_rule si sic = Some si' \<and> sfe_good si' \<and> sfe_rules si' = sfe_rules si
    \<and> (\<forall>c. sfe_lookup si (sic_key sic) = Some c \<and> sic_protocol sic = ucast IPPROTO_TCP \<longrightarrow>
          tcp_covers (sic_src_td_max_window sic) (sic_src_td_end sic) (sic_src_td_max_end sic)
            (cm_tcp (matches si' (c_original_match (connections si c))))
        \<and> tcp_covers (sic_dest_td_max_window sic) (sic_dest_td_end sic) (sic_dest_td_max_end sic)
            (cm_tcp (matches si' (c_reply_match (connections si c)))))"
proof -
  from assms obtain g where i: "sfe_inv si g []" and a: "adj_inv si" by (rule good_invE)
  note u = update_rule_result [OF i, of sic]
  let ?si' = "case sfe_lookup si (sic_key sic) of None \<Rightarrow> si | Some c \<Rightarrow> sfe_ipv4_update_protocol_state si c sic"
  have "sfe_good ?si'" "sfe_rules ?si' = sfe_rules si"
    using update_rule_inv [OF i u] adj_inv_same [OF update_rule_adj [OF i u] a] by (auto simp: sfe_good_def sfe_wf_def)
  moreover have "c_original_match (connections si c) \<noteq> c_reply_match (connections si c)"
    if "sfe_lookup si (sic_key sic) = Some c" for c
  proof -
    have "c \<in> set (ga g)" using that by (simp add: lookup_iff [OF i])
    moreover have "pairs_ok (ft si) (set (ga g))" using i by (simp add: sfe_inv_def mem_ok_def)
    ultimately show ?thesis by (auto simp: pairs_ok_def)
  qed
  ultimately show ?thesis
    using u update_tcp_state_covers by (intro exI [of _ ?si']) (auto simp: sfe_ipv4_update_protocol_state_def)
qed

lemma example_tcp_lookup: "sfe_lookup example_tcp_si (sic_key example_tcp_sic) = Some 5"
  by code_simp

lemma update_rule_correct_witness:
  "\<exists>si'. sfe_ipv4_update_rule example_tcp_si (example_tcp_sic\<lparr>sic_src_td_max_window := 5000\<rparr>) = Some si'
     \<and> sfe_good si' \<and> 5000 \<le> tcp_max_win (cm_tcp (matches si' (c_original_match (connections example_tcp_si 5))))"
proof -
  let ?sic = "example_tcp_sic\<lparr>sic_src_td_max_window := 5000\<rparr>"
  have k: "sic_key ?sic = sic_key example_tcp_sic" by (simp add: sic_key_def)
  have p: "sic_protocol ?sic = ucast IPPROTO_TCP" by (simp add: example_tcp_sic_def IPPROTO_TCP_def)
  from update_rule_correct [OF example_tcp_good, of ?sic] example_tcp_lookup k p
  show ?thesis by (auto simp: tcp_covers_def)
qed

section \<open>Messages and headers\<close>

text \<open>
  Generating a sync message loses no count: packets and bytes of every match, 32 bit and 64 bit
  counters together, are the same before and after, and the message carries them for both directions.
\<close>

theorem gen_sync_keeps_counts:
  assumes "sfe_good si" and "sfe_lookup si key = Some c"
    and "sfe_ipv4_gen_sync_sfe_ipv4_connection si c sis reason now = (sis', si')"
  shows "cm_packets (matches si' m) = cm_packets (matches si m) \<and> cm_bytes (matches si' m) = cm_bytes (matches si m)
    \<and> sis_key sis' = key \<and> sis_reason sis' = reason
    \<and> sis_src_packet_count sis' = cm_packets (matches si (c_original_match (connections si c)))
    \<and> sis_src_byte_count sis' = cm_bytes (matches si (c_original_match (connections si c)))
    \<and> sis_dest_packet_count sis' = cm_packets (matches si (c_reply_match (connections si c)))
    \<and> sis_dest_byte_count sis' = cm_bytes (matches si (c_reply_match (connections si c)))"
proof -
  from assms(1) obtain g where i: "sfe_inv si g []" and "adj_inv si" by (rule good_invE)
  have c: "c \<in> set (ga g)" and k: "c_key (connections si c) = key" using assms(2) by (simp_all add: lookup_iff [OF i])
  have "pairs_ok (ft si) (set (ga g))" using i by (simp add: sfe_inv_def mem_ok_def)
  with c have n: "c_original_match (connections si c) \<noteq> c_reply_match (connections si c)" by (auto simp: pairs_ok_def)
  show ?thesis
    using gen_sync_counts [OF n, of sis reason now] gen_sync_key [of si c sis reason now] assms(3) k by simp
qed

lemma gen_sync_keeps_counts_witness:
  "cm_packets (matches (snd (sfe_ipv4_gen_sync_sfe_ipv4_connection example_tcp_si 5 stack_sis SFE_SYNC_REASON_STATS 4)) 6)
     = cm_packets (matches example_tcp_si 6)"
proof -
  obtain sis' si' where r: "sfe_ipv4_gen_sync_sfe_ipv4_connection example_tcp_si 5 stack_sis SFE_SYNC_REASON_STATS 4 = (sis', si')"
    by (cases "sfe_ipv4_gen_sync_sfe_ipv4_connection example_tcp_si 5 stack_sis SFE_SYNC_REASON_STATS 4")
  from gen_sync_keeps_counts [OF example_tcp_good example_tcp_lookup r, of 6] show ?thesis by (simp add: r)
qed

text \<open>
  The fast Ethernet header is the destination address, the source address and the type of IPv4,
  in front of the packet as it was.
\<close>

theorem eth_header_layout:
  "map (write_eth_hdr cm m) [0..<14] = map (cm_xmit_dest_mac cm) [0..<6] @ map (cm_xmit_src_mac cm) [0..<6] @ [0x08, 0x00]
   \<and> (\<lambda>j. write_eth_hdr cm m (14 + j)) = m"
proof -
  note b = write_eth_hdr_bytes
  have "[0..<14] = [0, 1, 2, 3, 4, 5, 6 + 0, 6 + 1, 6 + 2, 6 + 3, 6 + 4, 6 + 5, 12, 13 :: nat]" by (simp add: upt_rec)
  moreover have "[0..<6] = [0, 1, 2, 3, 4, 5 :: nat]" by (simp add: upt_rec)
  ultimately show ?thesis by (simp only: list.map append.simps b(1) [of 0] b(1) [of 1] b(1) [of 2] b(1) [of 3] b(1) [of 4] b(1) [of 5]
      b(2) [of 0] b(2) [of 1] b(2) [of 2] b(2) [of 3] b(2) [of 4] b(2) [of 5] b(3,4,5))
qed

end
