(* ===== verification/SFE_IPv4_System.thy ===== *)
theory SFE_IPv4_System
  imports SFE_IPv4_TCP_Props
begin

text \<open>
  ICMP errors, and the engine as a whole: what requests in any order amount to, and what holds in
  every state that requests, packets and the unlocked flushes of other CPUs can lead to.
\<close>

section \<open>ICMP errors\<close>

text \<open>The flow an ICMP error reports on, in the direction of the packets this host received.\<close>

definition quoted_key :: "dev_ptr \<Rightarrow> mem \<Rightarrow> nat \<Rightarrow> match_key" where
  "quoted_key dev m icmp =
     (let iph = icmp + 8; trans = iph + 4 * unat (ip_ihl m iph)
      in (dev, m (iph + ip_protocol), ld32 m (iph + ip_daddr), ld16 m (trans + th_dest),
          ld32 m (iph + ip_saddr), ld16 m (trans + th_source)))"

lemma flushed_base:
  assumes s: "same_data si si1" "sfe_rules si1 = sfe_rules si" "sfe_lookup si1 = sfe_lookup si"
    and f: "flushed si1 c res"
  shows "flushed si c res"
  using f same_rules_data [OF s(1)] s by (simp add: flushed_def same_rules_def same_data_def)

lemma recv_icmp_known:
  assumes "\<And>n. k_may_pull k skb n" and "skb_mem skb (unat ihl) \<in> {ICMP_DEST_UNREACH, ICMP_TIME_EXCEEDED}"
    and "ip_version (skb_mem skb) (unat ihl + 8) = 4"
    and "skb_mem skb (unat ihl + 8 + ip_protocol) \<in> {IPPROTO_UDP, IPPROTO_TCP}"
    and "(d, p, a, b, c', e) = quoted_key dev (skb_mem skb) (unat ihl)"
    and "sfe_ipv4_find_sfe_ipv4_connection_match si d p a b c' e = Some (Some cm, si1)"
  shows "sfe_ipv4_recv_icmp k si skb dev len ihl = Some (flush_not_forwarded k ICMP_FLUSHED_CONNECTION cm si1 skb)"
proof -
  have u: "unat ICMPH_LEN = 8" by (simp add: ICMPH_LEN_def)
  show ?thesis
    using assms unfolding sfe_ipv4_recv_icmp_def quoted_key_def Let_def u
    by (auto simp: ipproto_defs ICMP_DEST_UNREACH_def ICMP_TIME_EXCEEDED_def)
qed

text \<open>
  An ICMP destination unreachable or time exceeded message that quotes a packet of a flow of the
  engine takes that flow out: its rule is gone, its connection reported to the callback with reason
  FLUSH, and the message itself is left to the slow path.
\<close>

theorem icmp_error_flushes_flow:
  assumes "sfe_good si" and "\<And>n. k_may_pull k skb n"
    and "skb_mem skb (unat ihl) \<in> {ICMP_DEST_UNREACH, ICMP_TIME_EXCEEDED}"
    and "ip_version (skb_mem skb) (unat ihl + 8) = 4"
    and "skb_mem skb (unat ihl + 8 + ip_protocol) \<in> {IPPROTO_UDP, IPPROTO_TCP}"
    and "m \<in> live_matches si" and "cm_key (matches si m) = quoted_key dev (skb_mem skb) (unat ihl)"
  shows "\<exists>res cm. sfe_ipv4_recv_icmp k si skb dev len ihl = Some res \<and> sfe_good (r_si res)
    \<and> cm \<in> live_matches si \<and> cm_key (matches si cm) = quoted_key dev (skb_mem skb) (unat ihl)
    \<and> dropped si skb res \<and> flushed si (cm_connection (matches si cm)) res"
proof -
  from assms(1) obtain g where i: "sfe_inv si g []" and a: "adj_inv si" by (rule good_invE)
  obtain d p x y z w where q: "quoted_key dev (skb_mem skb) (unat ihl) = (d, p, x, y, z, w)"
    by (cases "quoted_key dev (skb_mem skb) (unat ihl)") auto
  obtain r si1 g1 where f: "sfe_ipv4_find_sfe_ipv4_connection_match si d p x y z w = Some (r, si1)"
    and i1: "sfe_inv si1 g1 []" and D: "same_data si si1" and R: "sfe_rules si1 = sfe_rules si" "sfe_lookup si1 = sfe_lookup si"
    and c: "case r of None \<Rightarrow> si1 = si \<and> (\<forall>m \<in> ft_live (ft si) (set (ga g)). cm_key (matches si m) \<noteq> (d, p, x, y, z, w))
       | Some cm \<Rightarrow> cm \<in> ft_live (ft si1) (set (ga g1)) \<and> cm_key (matches si1 cm) = (d, p, x, y, z, w)"
    by (rule find_match_inv [OF i, of d p x y z w])
  obtain cm where r: "r = Some cm" using c assms(6,7) unfolding inv_live [OF i] q by (cases r) auto
  with c have L: "cm \<in> ft_live (ft si1) (set (ga g1))" and k: "cm_key (matches si1 cm) = (d, p, x, y, z, w)" by simp_all
  define res where "res = flush_not_forwarded k ICMP_FLUSHED_CONNECTION cm si1 skb"
  have e: "sfe_ipv4_recv_icmp k si skb dev len ihl = Some res"
    unfolding res_def using recv_icmp_known [OF assms(2-5) q [symmetric]] f r by simp
  have same: "cm_connection (matches si1 cm) = cm_connection (matches si cm)" "cm_key (matches si1 cm) = cm_key (matches si cm)"
    "live_matches si1 = live_matches si"
    using same_dataD(11,14) [OF D] D by (simp_all add: same_data_def)
  note ok = flush_not_forwarded_ok [OF i1 L, where k = k and e = ICMP_FLUSHED_CONNECTION and skb = skb, folded res_def]
  have "flushed si (cm_connection (matches si cm)) res"
    using flushed_base [OF D R ok(3)] by (simp only: same)
  moreover have "dropped si skb res" using ok(2) D by (simp add: dropped_def same_data_def)
  moreover have "recv_returns si [] skb (Some res)" using recv_icmp_returns [OF i, of skb k dev len ihl] by (simp only: e)
  then have "sfe_good (r_si res)"
    using adj_inv_same [OF _ a] by (auto simp: recv_returns_def sfe_good_def sfe_wf_def)
  ultimately show ?thesis
    using e k L same unfolding inv_live [OF i1] q by auto
qed

text \<open>A destination unreachable message about the packet of \<open>example_mem\<close> after its translation.\<close>

definition example_icmp :: mem where
  "example_icmp = (\<lambda>k. if k < 56 then ([0x45, 0, 0, 56, 0, 0, 0, 0, 64, 1, 0, 0, 9, 9, 9, 9, 1, 2, 3, 4,
     3, 1, 0, 0, 0, 0, 0, 0,
     0x45, 0, 0, 28, 0, 0, 0, 0, 64, 17, 0, 0, 1, 2, 3, 4, 8, 8, 8, 8, 0x50, 0, 0, 0x35, 0, 8, 0, 0] :: u8 list) ! k else 0)"

lemma icmp_error_flushes_flow_witness:
  "\<exists>res c. sfe_ipv4_recv_icmp (example_kernel\<lparr>k_may_pull := \<lambda>_ _. True\<rparr>) example_si
       (example_skb\<lparr>skb_mem := example_icmp, skb_len := 56\<rparr>) 2 56 20 = Some res
     \<and> sfe_good (r_si res) \<and> flushed example_si c res"
proof -
  let ?k = "example_kernel\<lparr>k_may_pull := \<lambda>_ _. True\<rparr>" and ?skb = "example_skb\<lparr>skb_mem := example_icmp, skb_len := 56\<rparr>"
  have 1: "skb_mem ?skb (unat (20 :: u32)) \<in> {ICMP_DEST_UNREACH, ICMP_TIME_EXCEEDED}"
    "ip_version (skb_mem ?skb) (unat (20 :: u32) + 8) = 4"
    "skb_mem ?skb (unat (20 :: u32) + 8 + ip_protocol) \<in> {IPPROTO_UDP, IPPROTO_TCP}"
    by (simp_all add: example_icmp_def ICMP_DEST_UNREACH_def ip_version_def ip_protocol_def ipproto_defs)
  have 2: "4 \<in> live_matches example_si \<and> cm_key (matches example_si 4) = (2, 17, 0x08080808, 0x3500, 0x04030201, 0x0050)"
    by code_simp
  have 3: "quoted_key 2 example_icmp 20 = (2, 17, 0x08080808, 0x3500, 0x04030201, 0x0050)"
    by code_simp
  have 4: "4 \<in> live_matches example_si" "cm_key (matches example_si 4) = quoted_key 2 (skb_mem ?skb) (unat (20 :: u32))"
    using 2 3 by simp_all
  show ?thesis
    using icmp_error_flushes_flow [OF example_good _ 1 4, of ?k 56] by auto
qed

section \<open>Requests in any order\<close>

text \<open>
  C14: Any list of requests, each made when its memory is available, is served to the end; the map of
  rules it leaves is the one its abstract effects leave, and the engine is well formed.
\<close>

theorem requests_refine:
  assumes "sfe_good si" and "v4.enabled_all cs si"
  shows "\<exists>si'. v4.run_all cs si = Some si' \<and> sfe_good si' \<and> sfe_rules si' = fold request_effect cs (sfe_rules si)"
  by (rule v4.run_all_refines [OF assms])

lemma requests_refine_witness:
  "\<exists>si'. v4.run_all [Create (\<lambda>_. example_dev) 0 (Some 2) (Some 3) (Some 4) example_sic, Timer 100 1 1, Destroy 2 example_sid] init_si = Some si'
     \<and> sfe_rules si' = (\<lambda>_. None)"
proof -
  let ?c = "Create (\<lambda>_. example_dev) 0 (Some 2) (Some 3) (Some 4) example_sic"
  have e: "v4.enabled_all [?c, Timer 100 1 1, Destroy 2 example_sid] init_si" using example_fresh by simp
  have "devs_up (\<lambda>_. example_dev) example_sic" "sid_key example_sid = sic_key example_sic"
    by (simp_all add: devs_up_def example_dev_def sid_key_def sic_key_def example_sid_def example_sic_def)
  with requests_refine [OF sfe_good_init e] show ?thesis
    by (auto simp: sfe_rules_init simp del: v4.run_all.simps)
qed



section \<open>Reachable states\<close>

text \<open>
  C12: In every state that requests, packets and removals of connections lead to, with the flushes of
  removed connections delayed arbitrarily, memory and references are exact: the connections in use
  are those in the tables and those waiting to be flushed, each device is held once per connection
  end, the two matches of each are in use and nothing else is, and every checksum adjustment fits.
\<close>

theorem reachable_memory_exact:
  assumes "engine_reach (si, P)"
  shows "\<exists>cs. distinct (cs @ P) \<and> num_connections si = of_nat (length cs)
    \<and> (\<forall>key c. sfe_lookup si key = Some c \<longleftrightarrow> c \<in> set cs \<and> c_key (connections si c) = key)
    \<and> live_connections si = set (cs @ P) \<and> dev_refs si = refs_of si (cs @ P)
    \<and> live_matches si = (\<Union>c \<in> set (cs @ P). {c_original_match (connections si c), c_reply_match (connections si c)})
    \<and> (\<forall>m \<in> live_matches si. adj_ok (matches si m))"
proof -
  from reach_inv [OF assms] obtain g where i: "sfe_inv si g P" and a: "adj_inv si" by auto
  have m: "mem_ok si (ga g @ P)" and n: "num_connections si = of_nat (length (ga g))" using i by (simp_all add: sfe_inv_def)
  have "live_matches si = (\<Union>c \<in> set (ga g @ P). {c_original_match (connections si c), c_reply_match (connections si c)})"
    using m by (auto simp: mem_ok_def ft_live_def)
  with m n a lookup_iff [OF i] show ?thesis
    by (intro exI [of _ "ga g"]) (simp add: mem_ok_def adj_inv_def)
qed

lemma reachable_memory_exact_witness: "dev_refs example_si 1 = 1"
proof -
  have "run_request (Create (\<lambda>_. example_dev) 0 (Some 2) (Some 3) (Some 4) example_sic) init_si = Some example_si"
    using example_create by simp
  moreover have "request_enabled (Create (\<lambda>_. example_dev) 0 (Some 2) (Some 3) (Some 4) example_sic) init_si"
    using example_fresh by simp
  ultimately have "engine_reach (example_si, [])"
    by (intro engine_reach.next_step [OF engine_reach.start] engine_step.request)
  from reachable_memory_exact [OF this] obtain cs where c: "live_connections example_si = set cs" "distinct cs"
    "dev_refs example_si = refs_of example_si cs" by auto
  have "live_connections example_si = {2}" by code_simp
  with c have cs: "cs = [2]" by (cases cs; cases "tl cs") auto
  have "c_original_dev (connections example_si 2) = 1 \<and> c_reply_dev (connections example_si 2) = 2" by code_simp
  then show ?thesis unfolding c(3) cs by (simp add: refs_of_def)
qed

end
