(* ===== verification/SFE_IPv6_State.thy ===== *)
theory SFE_IPv6_State
  imports SFE_Kernel Flow_Table
begin

text \<open>
  The data of \<open>sfe_ipv6.c\<close>: match and connection entries, the exception events, the per-module
  structure \<open>struct sfe_ipv6\<close> with the memory its entries live in, and how that state is seen as a
  flow table. \<open>CONFIG_XFRM\<close> is taken as set and \<open>CONFIG_NF_FLOW_COOKIE\<close> as unset.
\<close>

text \<open>
  The entries and the engine are declared as in the IPv4 file but for the addresses, which are four
  words in network byte order, and the adjustments, of which there is one for each direction. Names
  that the two C files share carry a 6 here.
\<close>

section \<open>Addresses\<close>

text \<open>An address in a packet, a field of \<open>struct sfe_ipv6_ip_hdr\<close>, read and written as a whole.\<close>

definition ld_ip6 :: "mem \<Rightarrow> nat \<Rightarrow> sfe_ip_addr" where
  "ld_ip6 m k = \<lparr>ip6_0 = ld32 m k, ip6_1 = ld32 m (k + 4), ip6_2 = ld32 m (k + 8), ip6_3 = ld32 m (k + 12)\<rparr>"

definition st_ip6 :: "mem \<Rightarrow> nat \<Rightarrow> sfe_ip_addr \<Rightarrow> mem" where
  "st_ip6 m k a = st32 (st32 (st32 (st32 m k (ip6_0 a)) (k + 4) (ip6_1 a)) (k + 8) (ip6_2 a)) (k + 12) (ip6_3 a)"

lemma addr_equal_eq [simp]: "sfe_ipv6_addr_equal a b \<longleftrightarrow> a = b" for a b :: sfe_ip_addr
  by (cases a, cases b) (simp add: sfe_ipv6_addr_equal_def)

lemma ld_ip6_st_ip6 [simp, mem_simps]: "ld_ip6 (st_ip6 m k a) k = a" for a :: sfe_ip_addr
  by (cases a) (simp add: ld_ip6_def st_ip6_def)

lemma st_ip6_other [simp, mem_simps]:
  "j < k \<or> k + 15 < j \<Longrightarrow> st_ip6 m k a j = m j"
  by (auto simp: st_ip6_def)

lemma ld16_st_ip6_other [simp, mem_simps]:
  "j + 1 < k \<or> k + 15 < j \<Longrightarrow> ld16 (st_ip6 m k a) j = ld16 m j"
  by (auto simp: st_ip6_def)

lemma ld_ip6_cong: "(\<And>i. k \<le> i \<Longrightarrow> i < k + 16 \<Longrightarrow> m i = m' i) \<Longrightarrow> ld_ip6 m k = ld_ip6 m' k"
  by (simp add: ld_ip6_def ld32_def ld16_def)

lemma ld_ip6_st_ip6_other [simp, mem_simps]:
  "j + 15 < k \<or> k + 15 < j \<Longrightarrow> ld_ip6 (st_ip6 m k a) j = ld_ip6 m j"
  by (rule ld_ip6_cong) auto

lemma ld_ip6_st16_other [simp, mem_simps]:
  "j + 15 < k \<or> k + 1 < j \<Longrightarrow> ld_ip6 (st16 m k v) j = ld_ip6 m j"
  by (rule ld_ip6_cong) auto

lemma ld_ip6_st8_other [simp, mem_simps]:
  "j + 15 < k \<or> k < j \<Longrightarrow> ld_ip6 (st8 m k v) j = ld_ip6 m j"
  by (rule ld_ip6_cong) auto

section \<open>Entries\<close>

definition SFE_IPV6_CONNECTION_MATCH_FLAG_XLATE_SRC :: u32 where
  "SFE_IPV6_CONNECTION_MATCH_FLAG_XLATE_SRC = 1"
definition SFE_IPV6_CONNECTION_MATCH_FLAG_XLATE_DEST :: u32 where
  "SFE_IPV6_CONNECTION_MATCH_FLAG_XLATE_DEST = 2"
definition SFE_IPV6_CONNECTION_MATCH_FLAG_NO_SEQ_CHECK :: u32 where
  "SFE_IPV6_CONNECTION_MATCH_FLAG_NO_SEQ_CHECK = 4"
definition SFE_IPV6_CONNECTION_MATCH_FLAG_WRITE_FAST_ETH_HDR :: u32 where
  "SFE_IPV6_CONNECTION_MATCH_FLAG_WRITE_FAST_ETH_HDR = 8"
definition SFE_IPV6_CONNECTION_MATCH_FLAG_WRITE_L2_HDR :: u32 where
  "SFE_IPV6_CONNECTION_MATCH_FLAG_WRITE_L2_HDR = 16"
definition SFE_IPV6_CONNECTION_MATCH_FLAG_PRIORITY_REMARK :: u32 where
  "SFE_IPV6_CONNECTION_MATCH_FLAG_PRIORITY_REMARK = 32"
definition SFE_IPV6_CONNECTION_MATCH_FLAG_DSCP_REMARK :: u32 where
  "SFE_IPV6_CONNECTION_MATCH_FLAG_DSCP_REMARK = 64"

lemmas match_flag_defs6 =
  SFE_IPV6_CONNECTION_MATCH_FLAG_XLATE_SRC_def SFE_IPV6_CONNECTION_MATCH_FLAG_XLATE_DEST_def
  SFE_IPV6_CONNECTION_MATCH_FLAG_NO_SEQ_CHECK_def SFE_IPV6_CONNECTION_MATCH_FLAG_WRITE_FAST_ETH_HDR_def
  SFE_IPV6_CONNECTION_MATCH_FLAG_WRITE_L2_HDR_def SFE_IPV6_CONNECTION_MATCH_FLAG_PRIORITY_REMARK_def
  SFE_IPV6_CONNECTION_MATCH_FLAG_DSCP_REMARK_def

record sfe_ipv6_tcp_connection_match =
  tcp_win_scale6 :: u8
  tcp_max_win6 :: u32
  tcp_end6 :: u32
  tcp_max_end6 :: u32

record sfe_ipv6_connection_match =
  cm_next6 :: "ptr option"
  cm_prev6 :: "ptr option"
  cm_connection6 :: ptr
  cm_counter_match6 :: ptr
  cm_active_next6 :: "ptr option"
  cm_active_prev6 :: "ptr option"
  cm_active6 :: bool
  cm_match_dev6 :: dev_ptr
  cm_match_protocol6 :: u8
  cm_match_src_ip6 :: sfe_ip_addr
  cm_match_dest_ip6 :: sfe_ip_addr
  cm_match_src_port6 :: be16
  cm_match_dest_port6 :: be16
  cm_flags6 :: u32
  cm_flow_accel6 :: u32
  cm_tcp6 :: sfe_ipv6_tcp_connection_match
  cm_rx_packet_count6 :: u32
  cm_rx_byte_count6 :: u32
  cm_xlate_src_ip6 :: sfe_ip_addr
  cm_xlate_src_port6 :: be16
  cm_xlate_src_csum_adjustment6 :: u16
  cm_xlate_dest_ip6 :: sfe_ip_addr
  cm_xlate_dest_port6 :: be16
  cm_xlate_dest_csum_adjustment6 :: u16
  cm_priority6 :: u32
  cm_dscp6 :: u32
  cm_xmit_dev6 :: dev_ptr
  cm_xmit_dev_mtu6 :: u16
  cm_xmit_dest_mac6 :: mac
  cm_xmit_src_mac6 :: mac
  cm_rx_packet_count64_v6 :: u64
  cm_rx_byte_count64_v6 :: u64

record sfe_ipv6_connection =
  c_next6 :: "ptr option"
  c_prev6 :: "ptr option"
  c_protocol6 :: u32
  c_src_ip6 :: sfe_ip_addr
  c_src_ip_xlate6 :: sfe_ip_addr
  c_dest_ip6 :: sfe_ip_addr
  c_dest_ip_xlate6 :: sfe_ip_addr
  c_src_port6 :: be16
  c_src_port_xlate6 :: be16
  c_dest_port6 :: be16
  c_dest_port_xlate6 :: be16
  c_original_match6 :: ptr
  c_original_dev6 :: dev_ptr
  c_reply_match6 :: ptr
  c_reply_dev6 :: dev_ptr
  c_last_sync_jiffies6 :: u64
  c_all_connections_next6 :: "ptr option"
  c_all_connections_prev6 :: "ptr option"
  c_mark6 :: u32
  c_debug_read_seq6 :: u32

section \<open>Exception events\<close>

datatype sfe_ipv6_exception_events =
    UDP_HEADER_INCOMPLETE6
  | UDP_NO_CONNECTION6
  | UDP_IP_OPTIONS_OR_INITIAL_FRAGMENT6
  | UDP_SMALL_TTL6
  | UDP_NEEDS_FRAGMENTATION6
  | TCP_HEADER_INCOMPLETE6
  | TCP_NO_CONNECTION_SLOW_FLAGS6
  | TCP_NO_CONNECTION_FAST_FLAGS6
  | TCP_IP_OPTIONS_OR_INITIAL_FRAGMENT6
  | TCP_SMALL_TTL6
  | TCP_NEEDS_FRAGMENTATION6
  | TCP_FLAGS6
  | TCP_SEQ_EXCEEDS_RIGHT_EDGE6
  | TCP_SMALL_DATA_OFFS6
  | TCP_BAD_SACK6
  | TCP_BIG_DATA_OFFS6
  | TCP_SEQ_BEFORE_LEFT_EDGE6
  | TCP_ACK_EXCEEDS_RIGHT_EDGE6
  | TCP_ACK_BEFORE_LEFT_EDGE6
  | ICMP_HEADER_INCOMPLETE6
  | ICMP_UNHANDLED_TYPE6
  | ICMP_IPV6_HEADER_INCOMPLETE
  | ICMP_IPV6_NON_V6
  | ICMP_IPV6_IP_OPTIONS_INCOMPLETE
  | ICMP_IPV6_UDP_HEADER_INCOMPLETE
  | ICMP_IPV6_TCP_HEADER_INCOMPLETE
  | ICMP_IPV6_UNHANDLED_PROTOCOL
  | ICMP_NO_CONNECTION6
  | ICMP_FLUSHED_CONNECTION6
  | HEADER_INCOMPLETE6
  | BAD_TOTAL_LENGTH6
  | NON_V6
  | NON_INITIAL_FRAGMENT6
  | DATAGRAM_INCOMPLETE6
  | IP_OPTIONS_INCOMPLETE6
  | UNHANDLED_PROTOCOL6
  | FLOW_COOKIE_ADD_FAIL

section \<open>The per-module structure\<close>

text \<open>
  \<open>matches6\<close> and \<open>connections6\<close> are the memory the entries live in, one entry per address, and
  \<open>live_matches6\<close> and \<open>live_connections6\<close> the addresses \<open>kmalloc\<close> has handed out and \<open>kfree\<close> has
  not taken back. \<open>dev_refs6\<close> counts the references the engine holds on each device
  (\<open>dev_hold6\<close> minus \<open>dev_put6\<close>). The callback is an opaque function pointer, NULL when None.
\<close>

record sfe_ipv6 =
  matches6 :: "ptr \<Rightarrow> sfe_ipv6_connection_match"
  connections6 :: "ptr \<Rightarrow> sfe_ipv6_connection"
  live_matches6 :: "ptr set"
  live_connections6 :: "ptr set"
  dev_refs6 :: "dev_ptr \<Rightarrow> int"
  active_head6 :: "ptr option"
  active_tail6 :: "ptr option"
  all_connections_head6 :: "ptr option"
  all_connections_tail6 :: "ptr option"
  num_connections6 :: u32
  timer_expires6 :: u64
  sync_rule_callback6 :: "ptr option"
  conn_hash6 :: "nat \<Rightarrow> ptr option"
  conn_match_hash6 :: "nat \<Rightarrow> ptr option"
  connection_create_requests6 :: u32
  connection_create_collisions6 :: u32
  connection_destroy_requests6 :: u32
  connection_destroy_misses6 :: u32
  connection_match_hash_hits6 :: u32
  connection_match_hash_reorders6 :: u32
  connection_flushes6 :: u32
  packets_forwarded6 :: u32
  packets_not_forwarded6 :: u32
  exception_events6 :: "sfe_ipv6_exception_events \<Rightarrow> u32"
  connection_create_requests64_v6 :: u64
  connection_create_collisions64_v6 :: u64
  connection_destroy_requests64_v6 :: u64
  connection_destroy_misses64_v6 :: u64
  connection_match_hash_hits64_v6 :: u64
  connection_match_hash_reorders64_v6 :: u64
  connection_flushes64_v6 :: u64
  packets_forwarded64_v6 :: u64
  packets_not_forwarded64_v6 :: u64
  exception_events64_v6 :: "sfe_ipv6_exception_events \<Rightarrow> u64"
  debug_dev6 :: u32
  debug_read_seq6 :: u32

text \<open>Writes through a match or connection pointer.\<close>

definition upd_cm6 :: "ptr \<Rightarrow> (sfe_ipv6_connection_match \<Rightarrow> sfe_ipv6_connection_match) \<Rightarrow> sfe_ipv6 \<Rightarrow> sfe_ipv6" where
  "upd_cm6 p f si = si\<lparr>matches6 := (matches6 si)(p := f (matches6 si p))\<rparr>"

definition upd_c6 :: "ptr \<Rightarrow> (sfe_ipv6_connection \<Rightarrow> sfe_ipv6_connection) \<Rightarrow> sfe_ipv6 \<Rightarrow> sfe_ipv6" where
  "upd_c6 p f si = si\<lparr>connections6 := (connections6 si)(p := f (connections6 si p))\<rparr>"

text \<open>\<open>if (p) p->... = ...\<close>\<close>

definition upd_cm_opt6 :: "ptr option \<Rightarrow> (sfe_ipv6_connection_match \<Rightarrow> sfe_ipv6_connection_match) \<Rightarrow> sfe_ipv6 \<Rightarrow> sfe_ipv6" where
  "upd_cm_opt6 po f si = (case po of None \<Rightarrow> si | Some p \<Rightarrow> upd_cm6 p f si)"

definition upd_c_opt6 :: "ptr option \<Rightarrow> (sfe_ipv6_connection \<Rightarrow> sfe_ipv6_connection) \<Rightarrow> sfe_ipv6 \<Rightarrow> sfe_ipv6" where
  "upd_c_opt6 po f si = (case po of None \<Rightarrow> si | Some p \<Rightarrow> upd_c6 p f si)"

text \<open>The state of the zero-initialised \<open>__si6\<close>.\<close>

definition init_match6 :: sfe_ipv6_connection_match where
  "init_match6 = \<lparr>cm_next6 = None, cm_prev6 = None, cm_connection6 = 0, cm_counter_match6 = 0,
     cm_active_next6 = None, cm_active_prev6 = None, cm_active6 = False, cm_match_dev6 = 0,
     cm_match_protocol6 = 0, cm_match_src_ip6 = ip4_addr 0, cm_match_dest_ip6 = ip4_addr 0, cm_match_src_port6 = 0,
     cm_match_dest_port6 = 0, cm_flags6 = 0, cm_flow_accel6 = 0,
     cm_tcp6 = \<lparr>tcp_win_scale6 = 0, tcp_max_win6 = 0, tcp_end6 = 0, tcp_max_end6 = 0\<rparr>,
     cm_rx_packet_count6 = 0, cm_rx_byte_count6 = 0, cm_xlate_src_ip6 = ip4_addr 0, cm_xlate_src_port6 = 0,
     cm_xlate_src_csum_adjustment6 = 0,
     cm_xlate_dest_ip6 = ip4_addr 0, cm_xlate_dest_port6 = 0, cm_xlate_dest_csum_adjustment6 = 0,
     cm_priority6 = 0, cm_dscp6 = 0, cm_xmit_dev6 = 0,
     cm_xmit_dev_mtu6 = 0, cm_xmit_dest_mac6 = (\<lambda>_. 0), cm_xmit_src_mac6 = (\<lambda>_. 0),
     cm_rx_packet_count64_v6 = 0, cm_rx_byte_count64_v6 = 0\<rparr>"

definition init_connection6 :: sfe_ipv6_connection where
  "init_connection6 = \<lparr>c_next6 = None, c_prev6 = None, c_protocol6 = 0, c_src_ip6 = ip4_addr 0, c_src_ip_xlate6 = ip4_addr 0,
     c_dest_ip6 = ip4_addr 0, c_dest_ip_xlate6 = ip4_addr 0, c_src_port6 = 0, c_src_port_xlate6 = 0, c_dest_port6 = 0,
     c_dest_port_xlate6 = 0, c_original_match6 = 0, c_original_dev6 = 0, c_reply_match6 = 0,
     c_reply_dev6 = 0, c_last_sync_jiffies6 = 0, c_all_connections_next6 = None,
     c_all_connections_prev6 = None, c_mark6 = 0, c_debug_read_seq6 = 0\<rparr>"

definition init_si6 :: sfe_ipv6 where
  "init_si6 = \<lparr>matches6 = (\<lambda>_. init_match6), connections6 = (\<lambda>_. init_connection6), live_matches6 = {},
     live_connections6 = {}, dev_refs6 = (\<lambda>_. 0), active_head6 = None, active_tail6 = None,
     all_connections_head6 = None, all_connections_tail6 = None, num_connections6 = 0, timer_expires6 = 0,
     sync_rule_callback6 = None, conn_hash6 = (\<lambda>_. None), conn_match_hash6 = (\<lambda>_. None),
     connection_create_requests6 = 0, connection_create_collisions6 = 0, connection_destroy_requests6 = 0,
     connection_destroy_misses6 = 0, connection_match_hash_hits6 = 0, connection_match_hash_reorders6 = 0,
     connection_flushes6 = 0, packets_forwarded6 = 0, packets_not_forwarded6 = 0,
     exception_events6 = (\<lambda>_. 0), connection_create_requests64_v6 = 0, connection_create_collisions64_v6 = 0,
     connection_destroy_requests64_v6 = 0, connection_destroy_misses64_v6 = 0, connection_match_hash_hits64_v6 = 0,
     connection_match_hash_reorders64_v6 = 0, connection_flushes64_v6 = 0, packets_forwarded64_v6 = 0,
     packets_not_forwarded64_v6 = 0, exception_events64_v6 = (\<lambda>_. 0), debug_dev6 = 0, debug_read_seq6 = 0\<rparr>"

end
