(* ===== verification/SFE_IPv6_Table.thy ===== *)
theory SFE_IPv6_Table
  imports SFE_IPv6_State
begin

text \<open>
  The hash tables of the IPv6 engine: the two hashes, the lookups (the match lookup moves what it
  finds to the front of its chain), insertion and removal of matches and connections. Each
  operation is shown to act on the flow table view as the generic operation does, which gives the
  structural invariant \<open>sfe_wf6\<close> and, from it, what the lookups find.
\<close>

section \<open>Hashes\<close>

definition SFE_IPV6_CONNECTION_HASH_SHIFT :: nat where "SFE_IPV6_CONNECTION_HASH_SHIFT = 12"
definition SFE_IPV6_CONNECTION_HASH_MASK :: u32 where "SFE_IPV6_CONNECTION_HASH_MASK = 4095"

text \<open>The loop over the four words of both addresses.\<close>

definition addr_hash :: "sfe_ip_addr \<Rightarrow> sfe_ip_addr \<Rightarrow> u32" where
  "addr_hash a b = foldl (\<lambda>hash (x, y). hash XOR (x XOR y)) 0
     [(ip6_0 a, ip6_0 b), (ip6_1 a, ip6_1 b), (ip6_2 a, ip6_2 b), (ip6_3 a, ip6_3 b)]"

definition sfe_ipv6_get_connection_match_hash ::
  "dev_ptr \<Rightarrow> u8 \<Rightarrow> sfe_ip_addr \<Rightarrow> be16 \<Rightarrow> sfe_ip_addr \<Rightarrow> be16 \<Rightarrow> nat" where
  "sfe_ipv6_get_connection_match_hash dev protocol src_ip src_port dest_ip dest_port =
     (let hash = (ucast dev :: u32) XOR addr_hash src_ip dest_ip XOR ucast protocol
                   XOR ucast (ntohs (src_port XOR dest_port))
      in unat ((drop_bit SFE_IPV6_CONNECTION_HASH_SHIFT hash XOR hash) AND SFE_IPV6_CONNECTION_HASH_MASK))"

definition sfe_ipv6_get_connection_hash :: "u8 \<Rightarrow> sfe_ip_addr \<Rightarrow> be16 \<Rightarrow> sfe_ip_addr \<Rightarrow> be16 \<Rightarrow> nat" where
  "sfe_ipv6_get_connection_hash protocol src_ip src_port dest_ip dest_port =
     (let hash = addr_hash src_ip dest_ip XOR ucast protocol XOR ucast (ntohs (src_port XOR dest_port))
      in unat ((drop_bit SFE_IPV6_CONNECTION_HASH_SHIFT hash XOR hash) AND SFE_IPV6_CONNECTION_HASH_MASK))"

section \<open>The lookup of a match\<close>

text \<open>The comparison of the lookup loops.\<close>

definition match_is6 :: "sfe_ipv6_connection_match \<Rightarrow> dev_ptr \<Rightarrow> u8 \<Rightarrow> sfe_ip_addr \<Rightarrow> be16 \<Rightarrow> sfe_ip_addr \<Rightarrow> be16 \<Rightarrow> bool" where
  "match_is6 cm dev protocol src_ip src_port dest_ip dest_port \<longleftrightarrow>
     cm_match_src_port6 cm = src_port \<and> cm_match_dest_port6 cm = dest_port
     \<and> sfe_ipv6_addr_equal (cm_match_src_ip6 cm) src_ip \<and> sfe_ipv6_addr_equal (cm_match_dest_ip6 cm) dest_ip
     \<and> cm_match_protocol6 cm = protocol \<and> cm_match_dev6 cm = dev"

text \<open>
  The outer option is None where the loop does not return. On a NULL result the state is as before.
\<close>

definition sfe_ipv6_find_connection_match ::
  "sfe_ipv6 \<Rightarrow> dev_ptr \<Rightarrow> u8 \<Rightarrow> sfe_ip_addr \<Rightarrow> be16 \<Rightarrow> sfe_ip_addr \<Rightarrow> be16 \<Rightarrow> (ptr option \<times> sfe_ipv6) option" where
  "sfe_ipv6_find_connection_match si dev protocol src_ip src_port dest_ip dest_port =
     (let conn_match_idx = sfe_ipv6_get_connection_match_hash dev protocol src_ip src_port dest_ip dest_port;
          is = (\<lambda>p. match_is6 (matches6 si p) dev protocol src_ip src_port dest_ip dest_port)
      in case conn_match_hash6 si conn_match_idx of
           None \<Rightarrow> Some (None, si)
         | Some head \<Rightarrow>
             if is head
             then Some (Some head, si\<lparr>connection_match_hash_hits6 := connection_match_hash_hits6 si + 1\<rparr>)
             else do {
               r \<leftarrow> chain_find (\<lambda>p. cm_next6 (matches6 si p)) is (cm_next6 (matches6 si head));
               case r of
                 None \<Rightarrow> Some (None, si)
               | Some cm \<Rightarrow>
                   let si = upd_cm_opt6 (cm_next6 (matches6 si cm)) (\<lambda>n. n\<lparr>cm_prev6 := cm_prev6 (matches6 si cm)\<rparr>) si;
                       si = upd_cm_opt6 (cm_prev6 (matches6 si cm)) (\<lambda>p. p\<lparr>cm_next6 := cm_next6 (matches6 si cm)\<rparr>) si;
                       si = upd_cm6 cm (\<lambda>m. m\<lparr>cm_prev6 := None, cm_next6 := Some head\<rparr>) si;
                       si = upd_cm6 head (\<lambda>m. m\<lparr>cm_prev6 := Some cm\<rparr>) si
                   in Some (Some cm, si\<lparr>conn_match_hash6 := (conn_match_hash6 si)(conn_match_idx := Some cm),
                                        connection_match_hash_reorders6 := connection_match_hash_reorders6 si + 1\<rparr>)
             })"

section \<open>Insertion and removal of a match\<close>

definition cm_hash6 :: "sfe_ipv6_connection_match \<Rightarrow> nat" where
  "cm_hash6 m = sfe_ipv6_get_connection_match_hash (cm_match_dev6 m) (cm_match_protocol6 m)
     (cm_match_src_ip6 m) (cm_match_src_port6 m) (cm_match_dest_ip6 m) (cm_match_dest_port6 m)"

definition sfe_ipv6_insert_connection_match :: "sfe_ipv6 \<Rightarrow> ptr \<Rightarrow> sfe_ipv6" where
  "sfe_ipv6_insert_connection_match si cm =
     (let conn_match_idx = cm_hash6 (matches6 si cm);
          prev_head = conn_match_hash6 si conn_match_idx;
          si = upd_cm6 cm (\<lambda>m. m\<lparr>cm_prev6 := None\<rparr>) si;
          si = upd_cm_opt6 prev_head (\<lambda>m. m\<lparr>cm_prev6 := Some cm\<rparr>) si;
          si = upd_cm6 cm (\<lambda>m. m\<lparr>cm_next6 := prev_head\<rparr>) si
      in si\<lparr>conn_match_hash6 := (conn_match_hash6 si)(conn_match_idx := Some cm)\<rparr>)"

definition sfe_ipv6_remove_connection_match :: "sfe_ipv6 \<Rightarrow> ptr \<Rightarrow> sfe_ipv6" where
  "sfe_ipv6_remove_connection_match si cm =
     (let si = (case cm_prev6 (matches6 si cm) of
                  Some p \<Rightarrow> upd_cm6 p (\<lambda>m. m\<lparr>cm_next6 := cm_next6 (matches6 si cm)\<rparr>) si
                | None \<Rightarrow> si\<lparr>conn_match_hash6 := (conn_match_hash6 si)
                                 (cm_hash6 (matches6 si cm) := cm_next6 (matches6 si cm))\<rparr>);
          si = upd_cm_opt6 (cm_next6 (matches6 si cm)) (\<lambda>m. m\<lparr>cm_prev6 := cm_prev6 (matches6 si cm)\<rparr>) si
      in if cm_active6 (matches6 si cm)
         then let si = (case cm_active_prev6 (matches6 si cm) of
                          Some p \<Rightarrow> upd_cm6 p (\<lambda>m. m\<lparr>cm_active_next6 := cm_active_next6 (matches6 si cm)\<rparr>) si
                        | None \<Rightarrow> si\<lparr>active_head6 := cm_active_next6 (matches6 si cm)\<rparr>)
              in (case cm_active_next6 (matches6 si cm) of
                    Some n \<Rightarrow> upd_cm6 n (\<lambda>m. m\<lparr>cm_active_prev6 := cm_active_prev6 (matches6 si cm)\<rparr>) si
                  | None \<Rightarrow> si\<lparr>active_tail6 := cm_active_prev6 (matches6 si cm)\<rparr>)
         else si)"

section \<open>Connections\<close>

definition connection_is6 :: "sfe_ipv6_connection \<Rightarrow> u32 \<Rightarrow> sfe_ip_addr \<Rightarrow> be16 \<Rightarrow> sfe_ip_addr \<Rightarrow> be16 \<Rightarrow> bool" where
  "connection_is6 c protocol src_ip src_port dest_ip dest_port \<longleftrightarrow>
     c_src_port6 c = src_port \<and> c_dest_port6 c = dest_port
     \<and> sfe_ipv6_addr_equal (c_src_ip6 c) src_ip \<and> sfe_ipv6_addr_equal (c_dest_ip6 c) dest_ip \<and> c_protocol6 c = protocol"

definition sfe_ipv6_find_connection ::
  "sfe_ipv6 \<Rightarrow> u32 \<Rightarrow> sfe_ip_addr \<Rightarrow> be16 \<Rightarrow> sfe_ip_addr \<Rightarrow> be16 \<Rightarrow> ptr option option" where
  "sfe_ipv6_find_connection si protocol src_ip src_port dest_ip dest_port =
     (let conn_idx = sfe_ipv6_get_connection_hash (ucast protocol) src_ip src_port dest_ip dest_port;
          is = (\<lambda>p. connection_is6 (connections6 si p) protocol src_ip src_port dest_ip dest_port)
      in case conn_hash6 si conn_idx of
           None \<Rightarrow> Some None
         | Some c \<Rightarrow> if is c then Some (Some c)
                     else chain_find (\<lambda>p. c_next6 (connections6 si p)) is (c_next6 (connections6 si c)))"

definition c_hash6 :: "sfe_ipv6_connection \<Rightarrow> nat" where
  "c_hash6 c = sfe_ipv6_get_connection_hash (ucast (c_protocol6 c)) (c_src_ip6 c) (c_src_port6 c)
     (c_dest_ip6 c) (c_dest_port6 c)"

text \<open>
  Insertion and removal, with the connection's own links and its matches as the two halves of each
  function.
\<close>

definition link_connection6 :: "sfe_ipv6 \<Rightarrow> ptr \<Rightarrow> sfe_ipv6" where
  "link_connection6 si c =
     (let conn_idx = c_hash6 (connections6 si c);
          prev_head = conn_hash6 si conn_idx;
          si = upd_c6 c (\<lambda>x. x\<lparr>c_prev6 := None\<rparr>) si;
          si = upd_c_opt6 prev_head (\<lambda>x. x\<lparr>c_prev6 := Some c\<rparr>) si;
          si = upd_c6 c (\<lambda>x. x\<lparr>c_next6 := prev_head\<rparr>) si;
          si = si\<lparr>conn_hash6 := (conn_hash6 si)(conn_idx := Some c)\<rparr>;
          si = (case all_connections_tail6 si of
                  Some t \<Rightarrow> upd_c6 t (\<lambda>x. x\<lparr>c_all_connections_next6 := Some c\<rparr>)
                              (upd_c6 c (\<lambda>x. x\<lparr>c_all_connections_prev6 := all_connections_tail6 si\<rparr>) si)
                | None \<Rightarrow> (upd_c6 c (\<lambda>x. x\<lparr>c_all_connections_prev6 := None\<rparr>) si)\<lparr>all_connections_head6 := Some c\<rparr>);
          si = si\<lparr>all_connections_tail6 := Some c\<rparr>;
          si = upd_c6 c (\<lambda>x. x\<lparr>c_all_connections_next6 := None\<rparr>) si
      in si\<lparr>num_connections6 := num_connections6 si + 1\<rparr>)"

definition sfe_ipv6_insert_connection :: "sfe_ipv6 \<Rightarrow> ptr \<Rightarrow> sfe_ipv6" where
  "sfe_ipv6_insert_connection si c =
     (let si = link_connection6 si c;
          si = sfe_ipv6_insert_connection_match si (c_original_match6 (connections6 si c))
      in sfe_ipv6_insert_connection_match si (c_reply_match6 (connections6 si c)))"

definition unlink_connection6 :: "sfe_ipv6 \<Rightarrow> ptr \<Rightarrow> sfe_ipv6" where
  "unlink_connection6 si c =
     (let si = (case c_prev6 (connections6 si c) of
                  Some p \<Rightarrow> upd_c6 p (\<lambda>x. x\<lparr>c_next6 := c_next6 (connections6 si c)\<rparr>) si
                | None \<Rightarrow> si\<lparr>conn_hash6 := (conn_hash6 si)(c_hash6 (connections6 si c) := c_next6 (connections6 si c))\<rparr>);
          si = upd_c_opt6 (c_next6 (connections6 si c)) (\<lambda>x. x\<lparr>c_prev6 := c_prev6 (connections6 si c)\<rparr>) si;
          si = (case c_all_connections_prev6 (connections6 si c) of
                  Some p \<Rightarrow> upd_c6 p (\<lambda>x. x\<lparr>c_all_connections_next6 := c_all_connections_next6 (connections6 si c)\<rparr>) si
                | None \<Rightarrow> si\<lparr>all_connections_head6 := c_all_connections_next6 (connections6 si c)\<rparr>);
          si = (case c_all_connections_next6 (connections6 si c) of
                  Some n \<Rightarrow> upd_c6 n (\<lambda>x. x\<lparr>c_all_connections_prev6 := c_all_connections_prev6 (connections6 si c)\<rparr>) si
                | None \<Rightarrow> si\<lparr>all_connections_tail6 := c_all_connections_prev6 (connections6 si c)\<rparr>)
      in si\<lparr>num_connections6 := num_connections6 si - 1\<rparr>)"

definition sfe_ipv6_remove_connection :: "sfe_ipv6 \<Rightarrow> ptr \<Rightarrow> sfe_ipv6" where
  "sfe_ipv6_remove_connection si c =
     (let si = sfe_ipv6_remove_connection_match si (c_reply_match6 (connections6 si c));
          si = sfe_ipv6_remove_connection_match si (c_original_match6 (connections6 si c))
      in unlink_connection6 si c)"

section \<open>The flow table view\<close>

type_synonym conn_key6 = "u32 \<times> sfe_ip_addr \<times> be16 \<times> sfe_ip_addr \<times> be16"
type_synonym match_key6 = "dev_ptr \<times> u8 \<times> sfe_ip_addr \<times> be16 \<times> sfe_ip_addr \<times> be16"

definition c_key6 :: "sfe_ipv6_connection \<Rightarrow> conn_key6" where
  "c_key6 c = (c_protocol6 c, c_src_ip6 c, c_src_port6 c, c_dest_ip6 c, c_dest_port6 c)"

definition cm_key6 :: "sfe_ipv6_connection_match \<Rightarrow> match_key6" where
  "cm_key6 m = (cm_match_dev6 m, cm_match_protocol6 m, cm_match_src_ip6 m, cm_match_src_port6 m,
     cm_match_dest_ip6 m, cm_match_dest_port6 m)"

definition ft6 :: "sfe_ipv6 \<Rightarrow> (conn_key6, match_key6) ftab" where
  "ft6 si = \<lparr>cnx = (\<lambda>p. c_next6 (connections6 si p)), cpv = (\<lambda>p. c_prev6 (connections6 si p)), chd = conn_hash6 si,
     anx = (\<lambda>p. c_all_connections_next6 (connections6 si p)),
     apv = (\<lambda>p. c_all_connections_prev6 (connections6 si p)),
     ahd = all_connections_head6 si, atl = all_connections_tail6 si,
     mnx = (\<lambda>p. cm_next6 (matches6 si p)), mpv = (\<lambda>p. cm_prev6 (matches6 si p)), mhd = conn_match_hash6 si,
     vnx = (\<lambda>p. cm_active_next6 (matches6 si p)), vpv = (\<lambda>p. cm_active_prev6 (matches6 si p)),
     vhd = active_head6 si, vtl = active_tail6 si, von = (\<lambda>p. cm_active6 (matches6 si p)),
     ckey = (\<lambda>p. c_key6 (connections6 si p)), cix = (\<lambda>p. c_hash6 (connections6 si p)),
     mkey = (\<lambda>p. cm_key6 (matches6 si p)), mix = (\<lambda>p. cm_hash6 (matches6 si p)),
     com = (\<lambda>p. c_original_match6 (connections6 si p)), crm = (\<lambda>p. c_reply_match6 (connections6 si p)),
     mco = (\<lambda>p. cm_connection6 (matches6 si p)), mct = (\<lambda>p. cm_counter_match6 (matches6 si p))\<rparr>"

lemma ft_sel6 [simp]:
  "cnx (ft6 si) = (\<lambda>p. c_next6 (connections6 si p))" "cpv (ft6 si) = (\<lambda>p. c_prev6 (connections6 si p))"
  "chd (ft6 si) = conn_hash6 si" "anx (ft6 si) = (\<lambda>p. c_all_connections_next6 (connections6 si p))"
  "apv (ft6 si) = (\<lambda>p. c_all_connections_prev6 (connections6 si p))" "ahd (ft6 si) = all_connections_head6 si"
  "atl (ft6 si) = all_connections_tail6 si" "mnx (ft6 si) = (\<lambda>p. cm_next6 (matches6 si p))"
  "mpv (ft6 si) = (\<lambda>p. cm_prev6 (matches6 si p))" "mhd (ft6 si) = conn_match_hash6 si"
  "vnx (ft6 si) = (\<lambda>p. cm_active_next6 (matches6 si p))" "vpv (ft6 si) = (\<lambda>p. cm_active_prev6 (matches6 si p))"
  "vhd (ft6 si) = active_head6 si" "vtl (ft6 si) = active_tail6 si" "von (ft6 si) = (\<lambda>p. cm_active6 (matches6 si p))"
  "ckey (ft6 si) = (\<lambda>p. c_key6 (connections6 si p))" "cix (ft6 si) = (\<lambda>p. c_hash6 (connections6 si p))"
  "mkey (ft6 si) = (\<lambda>p. cm_key6 (matches6 si p))" "mix (ft6 si) = (\<lambda>p. cm_hash6 (matches6 si p))"
  "com (ft6 si) = (\<lambda>p. c_original_match6 (connections6 si p))" "crm (ft6 si) = (\<lambda>p. c_reply_match6 (connections6 si p))"
  "mco (ft6 si) = (\<lambda>p. cm_connection6 (matches6 si p))" "mct (ft6 si) = (\<lambda>p. cm_counter_match6 (matches6 si p))"
  by (simp_all add: ft6_def)


lemmas upd_defs6 = upd_cm6_def upd_c6_def upd_cm_opt6_def upd_c_opt6_def

lemma key_hash_cong6:
  "cm_hash6 m' = cm_hash6 m" if "cm_key6 m' = cm_key6 m"
  using that by (simp add: cm_key6_def cm_hash6_def)

text \<open>How each kind of write shows in the view.\<close>

lemma ft_upd_cm6 [simp]:
  "ft6 (upd_cm6 p (\<lambda>m. m\<lparr>cm_next6 := v\<rparr>) si) = (ft6 si)\<lparr>mnx := (mnx (ft6 si))(p := v)\<rparr>"
  "ft6 (upd_cm6 p (\<lambda>m. m\<lparr>cm_prev6 := v\<rparr>) si) = (ft6 si)\<lparr>mpv := (mpv (ft6 si))(p := v)\<rparr>"
  "ft6 (upd_cm6 p (\<lambda>m. m\<lparr>cm_active_next6 := v\<rparr>) si) = (ft6 si)\<lparr>vnx := (vnx (ft6 si))(p := v)\<rparr>"
  "ft6 (upd_cm6 p (\<lambda>m. m\<lparr>cm_active_prev6 := v\<rparr>) si) = (ft6 si)\<lparr>vpv := (vpv (ft6 si))(p := v)\<rparr>"
  "ft6 (upd_cm6 p (\<lambda>m. m\<lparr>cm_active6 := b\<rparr>) si) = (ft6 si)\<lparr>von := (von (ft6 si))(p := b)\<rparr>"
  by (simp_all add: ft6_def upd_cm6_def fun_eq_iff cm_hash6_def cm_key6_def)

lemma ft_upd_c6 [simp]:
  "ft6 (upd_c6 p (\<lambda>m. m\<lparr>c_next6 := v\<rparr>) si) = (ft6 si)\<lparr>cnx := (cnx (ft6 si))(p := v)\<rparr>"
  "ft6 (upd_c6 p (\<lambda>m. m\<lparr>c_prev6 := v\<rparr>) si) = (ft6 si)\<lparr>cpv := (cpv (ft6 si))(p := v)\<rparr>"
  "ft6 (upd_c6 p (\<lambda>m. m\<lparr>c_all_connections_next6 := v\<rparr>) si) = (ft6 si)\<lparr>anx := (anx (ft6 si))(p := v)\<rparr>"
  "ft6 (upd_c6 p (\<lambda>m. m\<lparr>c_all_connections_prev6 := v\<rparr>) si) = (ft6 si)\<lparr>apv := (apv (ft6 si))(p := v)\<rparr>"
  by (simp_all add: ft6_def upd_c6_def fun_eq_iff c_hash6_def c_key6_def)

lemma ft_upd_si6 [simp]:
  "ft6 (si\<lparr>conn_match_hash6 := h\<rparr>) = (ft6 si)\<lparr>mhd := h\<rparr>"
  "ft6 (si\<lparr>conn_hash6 := h\<rparr>) = (ft6 si)\<lparr>chd := h\<rparr>"
  "ft6 (si\<lparr>active_head6 := q\<rparr>) = (ft6 si)\<lparr>vhd := q\<rparr>"
  "ft6 (si\<lparr>active_tail6 := q\<rparr>) = (ft6 si)\<lparr>vtl := q\<rparr>"
  "ft6 (si\<lparr>all_connections_head6 := q\<rparr>) = (ft6 si)\<lparr>ahd := q\<rparr>"
  "ft6 (si\<lparr>all_connections_tail6 := q\<rparr>) = (ft6 si)\<lparr>atl := q\<rparr>"
  "ft6 (si\<lparr>num_connections6 := n\<rparr>) = ft6 si"
  "ft6 (si\<lparr>connection_match_hash_hits6 := n\<rparr>) = ft6 si"
  "ft6 (si\<lparr>connection_match_hash_reorders6 := n\<rparr>) = ft6 si"
  by (simp_all add: ft6_def)

text \<open>Reading a link back from the view, for use from right to left.\<close>

lemma ft_read6:
  "cm_next6 (matches6 si p) = mnx (ft6 si) p" "cm_prev6 (matches6 si p) = mpv (ft6 si) p"
  "cm_active_next6 (matches6 si p) = vnx (ft6 si) p" "cm_active_prev6 (matches6 si p) = vpv (ft6 si) p"
  "cm_active6 (matches6 si p) = von (ft6 si) p" "cm_hash6 (matches6 si p) = mix (ft6 si) p"
  "c_next6 (connections6 si p) = cnx (ft6 si) p" "c_prev6 (connections6 si p) = cpv (ft6 si) p"
  "c_all_connections_next6 (connections6 si p) = anx (ft6 si) p"
  "c_all_connections_prev6 (connections6 si p) = apv (ft6 si) p"
  "c_hash6 (connections6 si p) = cix (ft6 si) p"
  "c_original_match6 (connections6 si p) = com (ft6 si) p" "c_reply_match6 (connections6 si p) = crm (ft6 si) p"
  "conn_match_hash6 si = mhd (ft6 si)" "conn_hash6 si = chd (ft6 si)"
  "active_head6 si = vhd (ft6 si)" "active_tail6 si = vtl (ft6 si)"
  "all_connections_head6 si = ahd (ft6 si)" "all_connections_tail6 si = atl (ft6 si)"
  by simp_all

lemma ft_insert_match6:
  "ft6 (sfe_ipv6_insert_connection_match si cm) = ft_insert_match (ft6 si) cm"
  unfolding sfe_ipv6_insert_connection_match_def Let_def upd_cm_opt6_def ft_insert_match_def
    push_pv_def push_hd_def
  by (cases "mhd (ft6 si) (mix (ft6 si) cm)") (simp_all add: ft_read6 del: ft_sel6)

lemma ft_remove_match6:
  "ft6 (sfe_ipv6_remove_connection_match si cm) = ft_remove_match (ft6 si) cm"
  unfolding sfe_ipv6_remove_connection_match_def Let_def upd_cm_opt6_def ft_remove_match_def
    ft_inactive_def unl_nx_def unl_pv_def unl_hd_def unl_tl_def drop_hd_def
  by (cases "mpv (ft6 si) cm"; cases "mnx (ft6 si) cm"; cases "von (ft6 si) cm"; cases "vnx (ft6 si) cm"; cases "vpv (ft6 si) cm")
    (auto simp: ft_read6 simp del: ft_sel6)


lemma ft_unlink_connection6:
  "ft6 (unlink_connection6 si c) = (ft6 si)\<lparr>
     cnx := unl_nx (cnx (ft6 si)) (cpv (ft6 si)) c, cpv := unl_pv (cnx (ft6 si)) (cpv (ft6 si)) c,
     chd := drop_hd (cnx (ft6 si)) (cpv (ft6 si)) (chd (ft6 si)) (cix (ft6 si)) c,
     anx := unl_nx (anx (ft6 si)) (apv (ft6 si)) c, apv := unl_pv (anx (ft6 si)) (apv (ft6 si)) c,
     ahd := unl_hd (anx (ft6 si)) (apv (ft6 si)) c (ahd (ft6 si)),
     atl := unl_tl (anx (ft6 si)) (apv (ft6 si)) c (atl (ft6 si))\<rparr>"
  unfolding unlink_connection6_def Let_def upd_c_opt6_def unl_nx_def unl_pv_def unl_hd_def unl_tl_def drop_hd_def
  by (cases "cpv (ft6 si) c"; cases "cnx (ft6 si) c"; cases "anx (ft6 si) c"; cases "apv (ft6 si) c")
    (auto simp: ft_read6 simp del: ft_sel6)

lemma ft_remove_connection6:
  "ft6 (sfe_ipv6_remove_connection si c) = ft_remove_conn (ft6 si) c"
  by (simp add: sfe_ipv6_remove_connection_def Let_def ft_unlink_connection6 ft_remove_match6 ft_remove_conn_def
      ft_read6 del: ft_sel6)

lemma ft_link_connection6:
  "ft6 (link_connection6 si c) = (ft6 si)\<lparr>
     cnx := (cnx (ft6 si))(c := chd (ft6 si) (cix (ft6 si) c)),
     cpv := push_pv (cpv (ft6 si)) (chd (ft6 si) (cix (ft6 si) c)) c,
     chd := push_hd (chd (ft6 si)) (cix (ft6 si)) c,
     apv := (apv (ft6 si))(c := atl (ft6 si)), anx := (snoc_nx (anx (ft6 si)) (atl (ft6 si)) c)(c := None),
     ahd := snoc_hd (ahd (ft6 si)) (atl (ft6 si)) c, atl := Some c\<rparr>"
  unfolding link_connection6_def Let_def upd_c_opt6_def push_pv_def push_hd_def snoc_nx_def snoc_hd_def
  by (cases "chd (ft6 si) (cix (ft6 si) c)"; cases "atl (ft6 si)") (auto simp: ft_read6 simp del: ft_sel6)

lemma ft_insert_connection6:
  "ft6 (sfe_ipv6_insert_connection si c) = ft_insert_conn (ft6 si) c"
  by (simp add: sfe_ipv6_insert_connection_def Let_def ft_link_connection6 ft_insert_match6 ft_insert_conn_def
      ft_read6 del: ft_sel6)


section \<open>The well-formed states\<close>

text \<open>
  \<open>sfe_inv6 si g P\<close>: the links of \<open>si\<close> describe the lists \<open>g\<close>, and the connections in \<open>P\<close> are out of
  the tables but not freed yet (the code flushes them after it has dropped the lock). The memory
  in use is exactly that of the connections in the tables and of those in \<open>P\<close>, the connection
  count is that of the tables, and every connection not freed holds one reference on each of its
  two devices.
\<close>

definition refs_of6 :: "sfe_ipv6 \<Rightarrow> ptr list \<Rightarrow> dev_ptr \<Rightarrow> int" where
  "refs_of6 si cs d = (\<Sum>c\<leftarrow>cs. of_bool (c_original_dev6 (connections6 si c) = d) + of_bool (c_reply_dev6 (connections6 si c) = d))"

definition mem_ok6 :: "sfe_ipv6 \<Rightarrow> ptr list \<Rightarrow> bool" where
  "mem_ok6 si cs \<longleftrightarrow> distinct cs \<and> live_connections6 si = set cs \<and> live_matches6 si = ft_live (ft6 si) (set cs)
     \<and> pairs_ok (ft6 si) (set cs) \<and> dev_refs6 si = refs_of6 si cs"

definition sfe_inv6 :: "sfe_ipv6 \<Rightarrow> lists \<Rightarrow> ptr list \<Rightarrow> bool" where
  "sfe_inv6 si g P \<longleftrightarrow> ft_inv (ft6 si) g \<and> mem_ok6 si (ga g @ P) \<and> num_connections6 si = of_nat (length (ga g))"

definition sfe_wf6 :: "sfe_ipv6 \<Rightarrow> bool" where
  "sfe_wf6 si \<longleftrightarrow> (\<exists>g. sfe_inv6 si g [])"

definition empty_lists6 :: lists where
  "empty_lists6 = \<lparr>gc = (\<lambda>_. []), ga = [], gm = (\<lambda>_. []), gv = []\<rparr>"

lemma sfe_inv_init6: "sfe_inv6 init_si6 empty_lists6 []"
  by (simp add: sfe_inv6_def mem_ok6_def refs_of6_def init_si6_def empty_lists6_def ft_inv_def conns_ok_def
      matches_ok_def pairs_ok_def ft_live_def chains_def fun_eq_iff)

section \<open>What the operations leave alone\<close>

text \<open>
  The table operations write links only: everything else of every entry is as it was. The record
  with its links blanked is the part that stays.
\<close>

definition cm_data6 :: "sfe_ipv6_connection_match \<Rightarrow> sfe_ipv6_connection_match" where
  "cm_data6 m = m\<lparr>cm_next6 := None, cm_prev6 := None, cm_active_next6 := None, cm_active_prev6 := None\<rparr>"

definition c_data6 :: "sfe_ipv6_connection \<Rightarrow> sfe_ipv6_connection" where
  "c_data6 c = c\<lparr>c_next6 := None, c_prev6 := None, c_all_connections_next6 := None, c_all_connections_prev6 := None\<rparr>"

definition same_data6 :: "sfe_ipv6 \<Rightarrow> sfe_ipv6 \<Rightarrow> bool" where
  "same_data6 si si' \<longleftrightarrow> (\<forall>p. cm_data6 (matches6 si' p) = cm_data6 (matches6 si p))
     \<and> (\<forall>p. c_data6 (connections6 si' p) = c_data6 (connections6 si p))
     \<and> live_matches6 si' = live_matches6 si \<and> live_connections6 si' = live_connections6 si
     \<and> dev_refs6 si' = dev_refs6 si \<and> sync_rule_callback6 si' = sync_rule_callback6 si
     \<and> exception_events6 si' = exception_events6 si \<and> packets_forwarded6 si' = packets_forwarded6 si
     \<and> packets_not_forwarded6 si' = packets_not_forwarded6 si"

lemma same_data_refl6 [simp]: "same_data6 si si"
  by (simp add: same_data6_def)

lemma same_data_trans6 [trans]: "same_data6 a b \<Longrightarrow> same_data6 b c \<Longrightarrow> same_data6 a c"
  by (simp add: same_data6_def)

lemma same_data_upd6 [simp]:
  "same_data6 si (upd_cm6 p (\<lambda>m. m\<lparr>cm_next6 := v\<rparr>) si') = same_data6 si si'"
  "same_data6 si (upd_cm6 p (\<lambda>m. m\<lparr>cm_prev6 := v\<rparr>) si') = same_data6 si si'"
  "same_data6 si (upd_cm6 p (\<lambda>m. m\<lparr>cm_active_next6 := v\<rparr>) si') = same_data6 si si'"
  "same_data6 si (upd_cm6 p (\<lambda>m. m\<lparr>cm_active_prev6 := v\<rparr>) si') = same_data6 si si'"
  "same_data6 si (upd_c6 p (\<lambda>m. m\<lparr>c_next6 := v\<rparr>) si') = same_data6 si si'"
  "same_data6 si (upd_c6 p (\<lambda>m. m\<lparr>c_prev6 := v\<rparr>) si') = same_data6 si si'"
  "same_data6 si (upd_c6 p (\<lambda>m. m\<lparr>c_all_connections_next6 := v\<rparr>) si') = same_data6 si si'"
  "same_data6 si (upd_c6 p (\<lambda>m. m\<lparr>c_all_connections_prev6 := v\<rparr>) si') = same_data6 si si'"
  "same_data6 si (si'\<lparr>conn_match_hash6 := h\<rparr>) = same_data6 si si'"
  "same_data6 si (si'\<lparr>conn_hash6 := h\<rparr>) = same_data6 si si'"
  "same_data6 si (si'\<lparr>active_head6 := q\<rparr>) = same_data6 si si'"
  "same_data6 si (si'\<lparr>active_tail6 := q\<rparr>) = same_data6 si si'"
  "same_data6 si (si'\<lparr>all_connections_head6 := q\<rparr>) = same_data6 si si'"
  "same_data6 si (si'\<lparr>all_connections_tail6 := q\<rparr>) = same_data6 si si'"
  "same_data6 si (si'\<lparr>num_connections6 := n\<rparr>) = same_data6 si si'"
  "same_data6 si (si'\<lparr>connection_match_hash_hits6 := n\<rparr>) = same_data6 si si'"
  "same_data6 si (si'\<lparr>connection_match_hash_reorders6 := n\<rparr>) = same_data6 si si'"
  by (auto simp: same_data6_def upd_cm6_def upd_c6_def cm_data6_def c_data6_def)

lemma same_data_upd_opt6 [simp]:
  "same_data6 si (upd_cm_opt6 q (\<lambda>m. m\<lparr>cm_next6 := v\<rparr>) si') = same_data6 si si'"
  "same_data6 si (upd_cm_opt6 q (\<lambda>m. m\<lparr>cm_prev6 := v\<rparr>) si') = same_data6 si si'"
  "same_data6 si (upd_c_opt6 q (\<lambda>m. m\<lparr>c_next6 := v\<rparr>) si') = same_data6 si si'"
  "same_data6 si (upd_c_opt6 q (\<lambda>m. m\<lparr>c_prev6 := v\<rparr>) si') = same_data6 si si'"
  by (simp_all add: upd_cm_opt6_def upd_c_opt6_def split: option.splits)

lemma same_data_insert_match6 [simp]:
  "same_data6 si (sfe_ipv6_insert_connection_match si' cm) = same_data6 si si'"
  by (simp add: sfe_ipv6_insert_connection_match_def Let_def)

lemma same_data_remove_match6 [simp]:
  "same_data6 si (sfe_ipv6_remove_connection_match si' cm) = same_data6 si si'"
  by (simp add: sfe_ipv6_remove_connection_match_def Let_def split: option.split)

lemma same_data_link_connection6 [simp]: "same_data6 si (link_connection6 si' c) = same_data6 si si'"
  by (simp add: link_connection6_def Let_def split: option.split)

lemma same_data_unlink_connection6 [simp]: "same_data6 si (unlink_connection6 si' c) = same_data6 si si'"
  by (simp add: unlink_connection6_def Let_def split: option.split)

lemma same_data_insert_connection6: "same_data6 si (sfe_ipv6_insert_connection si c)"
  by (simp add: sfe_ipv6_insert_connection_def Let_def)

lemma same_data_remove_connection6: "same_data6 si (sfe_ipv6_remove_connection si c)"
  by (simp add: sfe_ipv6_remove_connection_def Let_def)


lemma same_dataD6:
  assumes "same_data6 si si'"
  shows "c_protocol6 (connections6 si' p) = c_protocol6 (connections6 si p)"
    and "c_src_ip6 (connections6 si' p) = c_src_ip6 (connections6 si p)"
    and "c_dest_ip6 (connections6 si' p) = c_dest_ip6 (connections6 si p)"
    and "c_src_port6 (connections6 si' p) = c_src_port6 (connections6 si p)"
    and "c_dest_port6 (connections6 si' p) = c_dest_port6 (connections6 si p)"
    and "c_original_match6 (connections6 si' p) = c_original_match6 (connections6 si p)"
    and "c_reply_match6 (connections6 si' p) = c_reply_match6 (connections6 si p)"
    and "c_original_dev6 (connections6 si' p) = c_original_dev6 (connections6 si p)"
    and "c_reply_dev6 (connections6 si' p) = c_reply_dev6 (connections6 si p)"
    and "c_mark6 (connections6 si' p) = c_mark6 (connections6 si p)"
    and "cm_connection6 (matches6 si' q) = cm_connection6 (matches6 si q)"
    and "cm_counter_match6 (matches6 si' q) = cm_counter_match6 (matches6 si q)"
    and "cm_active6 (matches6 si' q) = cm_active6 (matches6 si q)"
    and "cm_key6 (matches6 si' q) = cm_key6 (matches6 si q)"
    and "cm_flags6 (matches6 si' q) = cm_flags6 (matches6 si q)"
    and "cm_tcp6 (matches6 si' q) = cm_tcp6 (matches6 si q)"
proof -
  have c: "c_data6 (connections6 si' p) = c_data6 (connections6 si p)"
    and m: "cm_data6 (matches6 si' q) = cm_data6 (matches6 si q)"
    using assms by (simp_all add: same_data6_def)
  from c show "c_protocol6 (connections6 si' p) = c_protocol6 (connections6 si p)"
    and "c_src_ip6 (connections6 si' p) = c_src_ip6 (connections6 si p)"
    and "c_dest_ip6 (connections6 si' p) = c_dest_ip6 (connections6 si p)"
    and "c_src_port6 (connections6 si' p) = c_src_port6 (connections6 si p)"
    and "c_dest_port6 (connections6 si' p) = c_dest_port6 (connections6 si p)"
    and "c_original_match6 (connections6 si' p) = c_original_match6 (connections6 si p)"
    and "c_reply_match6 (connections6 si' p) = c_reply_match6 (connections6 si p)"
    and "c_original_dev6 (connections6 si' p) = c_original_dev6 (connections6 si p)"
    and "c_reply_dev6 (connections6 si' p) = c_reply_dev6 (connections6 si p)"
    and "c_mark6 (connections6 si' p) = c_mark6 (connections6 si p)"
    by (cases "connections6 si' p", cases "connections6 si p", simp add: c_data6_def)+
  from m show "cm_connection6 (matches6 si' q) = cm_connection6 (matches6 si q)"
    and "cm_counter_match6 (matches6 si' q) = cm_counter_match6 (matches6 si q)"
    and "cm_active6 (matches6 si' q) = cm_active6 (matches6 si q)"
    and "cm_key6 (matches6 si' q) = cm_key6 (matches6 si q)"
    and "cm_flags6 (matches6 si' q) = cm_flags6 (matches6 si q)"
    and "cm_tcp6 (matches6 si' q) = cm_tcp6 (matches6 si q)"
    by (cases "matches6 si' q", cases "matches6 si q", simp add: cm_data6_def cm_key6_def)+
qed

lemma same_data_mem6:
  assumes d: "same_data6 si si'" and s: "set cs' = set cs" and dist: "distinct cs'" "distinct cs"
    and m: "mem_ok6 si cs"
  shows "mem_ok6 si' cs'"
proof -
  have "refs_of6 si' cs' dv = refs_of6 si cs dv" for dv
    unfolding refs_of6_def using same_dataD6(8,9) [OF d] s dist
    by (simp add: sum_list_distinct_conv_sum_set)
  with m show ?thesis
    using d s dist same_dataD6 [OF d]
    by (auto simp: mem_ok6_def ft_live_def pairs_ok_def same_data6_def)
qed

lemma num_remove_match6 [simp]:
  "num_connections6 (sfe_ipv6_remove_connection_match si cm) = num_connections6 si"
  by (simp add: sfe_ipv6_remove_connection_match_def Let_def upd_defs6 split: option.split)

lemma num_insert_match6 [simp]:
  "num_connections6 (sfe_ipv6_insert_connection_match si cm) = num_connections6 si"
  by (simp add: sfe_ipv6_insert_connection_match_def Let_def upd_defs6 split: option.split)

lemma num_remove_connection6:
  "num_connections6 (sfe_ipv6_remove_connection si c) = num_connections6 si - 1"
proof -
  have "num_connections6 (unlink_connection6 s c) = num_connections6 s - 1" for s
    by (simp add: unlink_connection6_def Let_def upd_defs6 split: option.split)
  then show ?thesis by (simp add: sfe_ipv6_remove_connection_def Let_def)
qed

lemma num_insert_connection6:
  "num_connections6 (sfe_ipv6_insert_connection si c) = num_connections6 si + 1"
proof -
  have "num_connections6 (link_connection6 s c) = num_connections6 s + 1" for s
    by (simp add: link_connection6_def Let_def upd_defs6 split: option.split)
  then show ?thesis by (simp add: sfe_ipv6_insert_connection_def Let_def)
qed

lemma sfe_inv_remove6:
  assumes i: "sfe_inv6 si g P" and c: "c \<in> set (ga g)"
  shows "sfe_inv6 (sfe_ipv6_remove_connection si c) (lists_remove (ft6 si) g c) (c # P)"
proof -
  let ?si = "sfe_ipv6_remove_connection si c"
  have ga: "ga (lists_remove (ft6 si) g c) = remove1 c (ga g)" by (simp add: lists_remove_def)
  have f: "ft_inv (ft6 ?si) (lists_remove (ft6 si) g c)"
    using i c by (simp add: ft_remove_connection6 ft_remove_conn_inv sfe_inv6_def)
  have m: "mem_ok6 si (ga g @ P)" using i by (simp add: sfe_inv6_def)
  then have d: "distinct (ga g @ P)" by (simp add: mem_ok6_def)
  have "mem_ok6 ?si (remove1 c (ga g) @ c # P)"
    by (rule same_data_mem6 [OF same_data_remove_connection6 _ _ d m]) (use d c in auto)
  moreover have "length (ga g) = Suc (length (remove1 c (ga g)))"
    using c by (simp add: length_remove1) (metis Suc_pred length_pos_if_in_set)
  ultimately show ?thesis
    using i f ga by (simp add: sfe_inv6_def num_remove_connection6)
qed

section \<open>What the lookups find\<close>

lemma find_connection_spec6:
  assumes i: "ft_inv (ft6 si) g"
  shows "\<exists>r. sfe_ipv6_find_connection si protocol src_ip src_port dest_ip dest_port = Some r
    \<and> (\<forall>c. r = Some c \<longleftrightarrow> c \<in> set (ga g)
             \<and> c_key6 (connections6 si c) = (protocol, src_ip, src_port, dest_ip, dest_port))"
proof -
  let ?ix = "sfe_ipv6_get_connection_hash (ucast protocol) src_ip src_port dest_ip dest_port"
  let ?is = "\<lambda>p. connection_is6 (connections6 si p) protocol src_ip src_port dest_ip dest_port"
  have is_key: "?is p \<longleftrightarrow> c_key6 (connections6 si p) = (protocol, src_ip, src_port, dest_ip, dest_port)" for p
    by (auto simp: connection_is6_def c_key6_def)
  have ch: "chains (cnx (ft6 si)) (cpv (ft6 si)) (chd (ft6 si)) (cix (ft6 si)) (gc g) (set (ga g))"
    and inj: "inj_on (ckey (ft6 si)) (set (ga g))"
    using i by (auto simp: ft_inv_def conns_ok_def)
  have l: "dlist (cnx (ft6 si)) (cpv (ft6 si)) (conn_hash6 si ?ix) (gc g ?ix)"
    and mem: "set (gc g ?ix) = {c \<in> set (ga g). c_hash6 (connections6 si c) = ?ix}"
    using chainsD(1,2) [OF ch, of ?ix] by simp_all
  have "sfe_ipv6_find_connection si protocol src_ip src_port dest_ip dest_port
      = chain_find (cnx (ft6 si)) ?is (conn_hash6 si ?ix)"
    by (simp add: sfe_ipv6_find_connection_def Let_def split: option.split)
  also have "\<dots> = Some (find ?is (gc g ?ix))"
    by (rule chain_find_dlist [OF l])
  finally have f: "sfe_ipv6_find_connection si protocol src_ip src_port dest_ip dest_port
      = Some (find ?is (gc g ?ix))" .
  have "find ?is (gc g ?ix) = Some c \<longleftrightarrow> c \<in> set (ga g) \<and> ?is c" for c
  proof
    assume "find ?is (gc g ?ix) = Some c"
    then have "c \<in> set (gc g ?ix)" "?is c"
      by (auto simp: find_Some_iff)
    with mem show "c \<in> set (ga g) \<and> ?is c" by auto
  next
    assume c: "c \<in> set (ga g) \<and> ?is c"
    then have "c_hash6 (connections6 si c) = ?ix"
      by (auto simp: connection_is6_def c_hash6_def)
    with c mem have "c \<in> set (gc g ?ix)" by auto
    with c obtain d where d: "find ?is (gc g ?ix) = Some d"
      by (cases "find ?is (gc g ?ix)") (auto simp: find_None_iff)
    then have dm: "d \<in> set (gc g ?ix)" and di: "?is d"
      by (auto simp: find_Some_iff)
    have "d \<in> set (ga g)" using dm mem by simp
    moreover have "c_key6 (connections6 si d) = c_key6 (connections6 si c)"
      using is_key [of d] is_key [of c] di c by simp
    ultimately have "d = c"
      using inj_onD [OF inj, of d c] c by simp
    with d show "find ?is (gc g ?ix) = Some c" by simp
  qed
  with f is_key show ?thesis by simp
qed


text \<open>The move to the front, as the match lookup writes it.\<close>

definition reorder_match6 :: "sfe_ipv6 \<Rightarrow> nat \<Rightarrow> ptr \<Rightarrow> ptr \<Rightarrow> sfe_ipv6" where
  "reorder_match6 si idx head cm =
     (let si = upd_cm_opt6 (cm_next6 (matches6 si cm)) (\<lambda>n. n\<lparr>cm_prev6 := cm_prev6 (matches6 si cm)\<rparr>) si;
          si = upd_cm_opt6 (cm_prev6 (matches6 si cm)) (\<lambda>p. p\<lparr>cm_next6 := cm_next6 (matches6 si cm)\<rparr>) si;
          si = upd_cm6 cm (\<lambda>m. m\<lparr>cm_prev6 := None, cm_next6 := Some head\<rparr>) si;
          si = upd_cm6 head (\<lambda>m. m\<lparr>cm_prev6 := Some cm\<rparr>) si
      in si\<lparr>conn_match_hash6 := (conn_match_hash6 si)(idx := Some cm),
            connection_match_hash_reorders6 := connection_match_hash_reorders6 si + 1\<rparr>)"

lemma ft_upd_cm2_v6 [simp]:
  "ft6 (upd_cm6 p (\<lambda>m. m\<lparr>cm_prev6 := v, cm_next6 := w\<rparr>) si)
    = (ft6 si)\<lparr>mpv := (mpv (ft6 si))(p := v), mnx := (mnx (ft6 si))(p := w)\<rparr>"
  by (simp add: ft6_def upd_cm6_def fun_eq_iff cm_hash6_def cm_key6_def)

lemma same_data_upd2_v6 [simp]:
  "same_data6 si (upd_cm6 p (\<lambda>m. m\<lparr>cm_prev6 := v, cm_next6 := w\<rparr>) si') = same_data6 si si'"
  by (auto simp: same_data6_def upd_cm6_def cm_data6_def)

lemma ft_reorder_match6:
  assumes "conn_match_hash6 si idx = Some head" and "idx = cm_hash6 (matches6 si cm)"
  shows "ft6 (reorder_match6 si idx head cm) = ft_front (ft6 si) cm"
  using assms
  unfolding reorder_match6_def Let_def upd_cm_opt6_def ft_front_def front_nx_def front_pv_def push_pv_def
    push_hd_def unl_nx_def unl_pv_def
  by (cases "mpv (ft6 si) cm"; cases "mnx (ft6 si) cm") (auto simp: ft_read6 fun_upd_twist simp del: ft_sel6)

lemma same_data_reorder_match6: "same_data6 si (reorder_match6 si idx head cm)"
  by (simp add: reorder_match6_def Let_def)

lemma num_reorder_match6: "num_connections6 (reorder_match6 si idx head cm) = num_connections6 si"
  by (simp add: reorder_match6_def Let_def upd_defs6 split: option.split)

lemma find_match_spec6:
  assumes i: "ft_inv (ft6 si) g"
  defines "L \<equiv> ft_live (ft6 si) (set (ga g))"
  shows "\<exists>r si' g'. sfe_ipv6_find_connection_match si dev protocol src_ip src_port dest_ip dest_port = Some (r, si')
    \<and> same_data6 si si' \<and> num_connections6 si' = num_connections6 si
    \<and> ft_inv (ft6 si') g' \<and> ga g' = ga g \<and> gv g' = gv g
    \<and> (case r of None \<Rightarrow> si' = si \<and> (\<forall>m \<in> L. cm_key6 (matches6 si m) \<noteq> (dev, protocol, src_ip, src_port, dest_ip, dest_port))
        | Some m \<Rightarrow> m \<in> L \<and> cm_key6 (matches6 si m) = (dev, protocol, src_ip, src_port, dest_ip, dest_port))"
proof -
  let ?ix = "sfe_ipv6_get_connection_match_hash dev protocol src_ip src_port dest_ip dest_port"
  let ?key = "(dev, protocol, src_ip, src_port, dest_ip, dest_port)"
  let ?is = "\<lambda>p. match_is6 (matches6 si p) dev protocol src_ip src_port dest_ip dest_port"
  let ?find = "sfe_ipv6_find_connection_match si dev protocol src_ip src_port dest_ip dest_port"
  have is_key: "?is p \<longleftrightarrow> cm_key6 (matches6 si p) = ?key" for p
    by (auto simp: match_is6_def cm_key6_def)
  have key_ix: "?is p \<Longrightarrow> cm_hash6 (matches6 si p) = ?ix" for p
    by (auto simp: match_is6_def cm_hash6_def)
  have ch: "chains (mnx (ft6 si)) (mpv (ft6 si)) (mhd (ft6 si)) (mix (ft6 si)) (gm g) L"
    using i by (auto simp: ft_inv_def matches_ok_def L_def)
  have l: "dlist (mnx (ft6 si)) (mpv (ft6 si)) (conn_match_hash6 si ?ix) (gm g ?ix)"
    and mem: "set (gm g ?ix) = {m \<in> L. cm_hash6 (matches6 si m) = ?ix}"
    using chainsD(1,2) [OF ch, of ?ix] by simp_all
  have none: "\<forall>m \<in> L. cm_key6 (matches6 si m) \<noteq> ?key" if "\<forall>m \<in> set (gm g ?ix). \<not> ?is m"
    using that mem key_ix is_key by auto
  show ?thesis
  proof (cases "gm g ?ix")
    case Nil
    with l have "conn_match_hash6 si ?ix = None" by simp
    then have "?find = Some (None, si)"
      by (simp add: sfe_ipv6_find_connection_match_def Let_def)
    with i none Nil show ?thesis by (auto intro!: exI [of _ g])
  next
    case (Cons x xs)
    with l have h: "conn_match_hash6 si ?ix = Some x" and s: "dseg (mnx (ft6 si)) (mpv (ft6 si)) (Some x) (cm_next6 (matches6 si x)) xs"
      and d: "distinct (x # xs)"
      by (auto simp: dlist_def)
    show ?thesis
    proof (cases "?is x")
      case True
      with h have "?find = Some (Some x, si\<lparr>connection_match_hash_hits6 := connection_match_hash_hits6 si + 1\<rparr>)"
        by (simp add: sfe_ipv6_find_connection_match_def Let_def)
      moreover have "x \<in> L" using mem Cons by auto
      ultimately show ?thesis using i True is_key by (auto intro!: exI [of _ g])
    next
      case False
      have loop: "chain_find (\<lambda>p. cm_next6 (matches6 si p)) ?is (cm_next6 (matches6 si x)) = Some (find ?is xs)"
        using chain_find_dseg [OF s] by simp
      show ?thesis
      proof (cases "find ?is xs")
        case None
        with h False loop have "?find = Some (None, si)"
          by (simp add: sfe_ipv6_find_connection_match_def Let_def)
        moreover have "\<forall>m \<in> set (gm g ?ix). \<not> ?is m"
          using None False Cons by (auto simp: find_None_iff)
        ultimately show ?thesis using i none by (auto intro!: exI [of _ g])
      next
        case (Some m)
        then have m: "m \<in> set xs" "?is m" by (auto simp: find_Some_iff)
        with mem Cons have mL: "m \<in> L" and mix: "cm_hash6 (matches6 si m) = ?ix" by auto
        from h False loop Some have "?find = Some (Some m, reorder_match6 si ?ix x m)"
          by (simp add: sfe_ipv6_find_connection_match_def reorder_match6_def Let_def)
        moreover have "ft6 (reorder_match6 si ?ix x m) = ft_front (ft6 si) m"
          by (rule ft_reorder_match6 [OF h]) (use mix in simp)
        moreover have "ft_inv (ft_front (ft6 si) m) (g\<lparr>gm := (gm g)(mix (ft6 si) m := m # remove1 m (gm g (mix (ft6 si) m)))\<rparr>)"
          by (rule ft_front_inv [OF i]) (use mL mix h d m in \<open>auto simp: L_def\<close>)
        ultimately show ?thesis
          using mL m is_key same_data_reorder_match6 num_reorder_match6 by fastforce
      qed
    qed
  qed
qed

end
