(* ===== verification/SFE_IPv6_Csum.thy ===== *)
theory SFE_IPv6_Csum
  imports SFE_IPv6_State SFE_Csum
begin

text \<open>
  The checksum arithmetic of the IPv6 engine: one adjustment for each direction, the sum with carry of
  nine words, and the update of a transport checksum with it. An IPv6 header has no checksum of its own.
\<close>

section \<open>The operations\<close>

text \<open>
  The loop over \<open>diff\<close>: \<open>adj += carry; adj += w; carry = (w > adj)\<close>, and the last \<open>adj += carry\<close>.
\<close>

definition carry_step :: "u32 \<times> u32 \<Rightarrow> u32 \<Rightarrow> u32 \<times> u32" where
  "carry_step = (\<lambda>(adj, carry) w. let adj = adj + carry; adj = adj + w in (adj, if w > adj then 1 else 0))"

definition carry_sum :: "u32 list \<Rightarrow> u32" where
  "carry_sum diff = (let (adj, carry) = foldl carry_step (0, 0) diff in adj + carry)"

text \<open>The two ports share one word of \<open>diff\<close>, the old one in the bytes of lower address.\<close>

definition diff_words :: "sfe_ip_addr \<Rightarrow> be16 \<Rightarrow> sfe_ip_addr \<Rightarrow> be16 \<Rightarrow> u32 list" where
  "diff_words match_ip match_port xlate_ip xlate_port =
     [ip6_0 match_ip, ip6_1 match_ip, ip6_2 match_ip, ip6_3 match_ip,
      ucast match_port OR push_bit 16 (ucast (NOT xlate_port)),
      NOT (ip6_0 xlate_ip), NOT (ip6_1 xlate_ip), NOT (ip6_2 xlate_ip), NOT (ip6_3 xlate_ip)]"

definition sfe_ipv6_connection_match_compute_translations ::
  "sfe_ipv6_connection_match \<Rightarrow> sfe_ipv6_connection_match" where
  "sfe_ipv6_connection_match_compute_translations cm =
     (let cm = (if has_flag (cm_flags6 cm) SFE_IPV6_CONNECTION_MATCH_FLAG_XLATE_SRC
                then let adj = carry_sum (diff_words (cm_match_src_ip6 cm) (cm_match_src_port6 cm)
                                                     (cm_xlate_src_ip6 cm) (cm_xlate_src_port6 cm));
                         adj = csum_fold adj;
                         adj = csum_fold adj
                     in cm\<lparr>cm_xlate_src_csum_adjustment6 := ucast adj\<rparr>
                else cm)
      in if has_flag (cm_flags6 cm) SFE_IPV6_CONNECTION_MATCH_FLAG_XLATE_DEST
         then let adj = carry_sum (diff_words (cm_match_dest_ip6 cm) (cm_match_dest_port6 cm)
                                              (cm_xlate_dest_ip6 cm) (cm_xlate_dest_port6 cm));
                  adj = csum_fold adj;
                  adj = csum_fold adj
              in cm\<lparr>cm_xlate_dest_csum_adjustment6 := ucast adj\<rparr>
         else cm)"

section \<open>The sum with carry\<close>

lemma carry_step_value:
  assumes c: "carry = 0 \<or> carry = 1 \<and> unat adj < 4294967295"
    and s: "carry_step (adj, carry) w = (adj', carry')"
  shows "(carry' = 0 \<or> carry' = 1 \<and> unat adj' < 4294967295)
    \<and> csum_eq (unat adj' + unat carry') (unat adj + unat carry + unat w)"
proof -
  let ?a = "adj + carry"
  have a: "unat ?a = unat adj + unat carry"
    using c unat_u32_less [of adj] by (subst unat_plus_u32) auto
  have lt: "unat ?a < 4294967296" "unat w < 4294967296" by (rule unat_u32_less)+
  have s': "adj' = ?a + w" "carry' = (if w > ?a + w then 1 else 0)"
    using s by (auto simp: carry_step_def Let_def)
  have m: "unat adj' = (unat ?a + unat w) mod 4294967296"
    unfolding s'(1) by (simp add: unat_word_ariths)
  show ?thesis
  proof (cases "unat ?a + unat w < 4294967296")
    case True
    then have u: "unat adj' = unat ?a + unat w" using m by simp
    then have "\<not> w > adj'" by (simp add: word_less_nat_alt)
    then have "carry' = 0" using s' by simp
    with u a show ?thesis by simp
  next
    case False
    have u: "unat adj' = unat ?a + unat w - 4294967296"
      unfolding m using lt False by (subst le_mod_geq) simp_all
    have l: "unat adj' < unat w" unfolding u using lt False by linarith
    then have "w > adj'" by (simp only: word_less_nat_alt)
    then have c': "carry' = 1" using s' by simp
    have "unat adj + unat carry + unat w = (unat adj' + unat carry') + 65535 * 65537"
      using u c' a False by simp
    then have "csum_eq (unat adj' + unat carry') (unat adj + unat carry + unat w)"
      by (simp only: mod_mult_self2)
    moreover have "unat adj' < 4294967295" using l lt by linarith
    ultimately show ?thesis using c' by blast
  qed
qed

lemma carry_fold_value:
  assumes "carry = 0 \<or> carry = 1 \<and> unat adj < 4294967295"
    and "foldl carry_step (adj, carry) ws = (adj', carry')"
  shows "(carry' = 0 \<or> carry' = 1 \<and> unat adj' < 4294967295)
    \<and> csum_eq (unat adj' + unat carry') (unat adj + unat carry + (\<Sum>w\<leftarrow>ws. unat w))"
  using assms
proof (induction ws arbitrary: adj carry)
  case (Cons w ws)
  obtain a c where st: "carry_step (adj, carry) w = (a, c)" by (cases "carry_step (adj, carry) w")
  note one = carry_step_value [OF Cons.prems(1) st]
  have "foldl carry_step (a, c) ws = (adj', carry')" using Cons.prems(2) st by simp
  from Cons.IH [OF one [THEN conjunct1] this]
  have r: "carry' = 0 \<or> carry' = 1 \<and> unat adj' < 4294967295"
    and e: "csum_eq (unat adj' + unat carry') (unat a + unat c + (\<Sum>w\<leftarrow>ws. unat w))" by blast+
  have "csum_eq (unat a + unat c + (\<Sum>w\<leftarrow>ws. unat w)) (unat adj + unat carry + unat w + (\<Sum>w\<leftarrow>ws. unat w))"
    by (rule csum_eq_add [OF one [THEN conjunct2] refl])
  with r e show ?case by (simp add: add.assoc)
qed simp

lemma carry_sum_value: "csum_eq (unat (carry_sum ws)) (\<Sum>w\<leftarrow>ws. unat w)"
proof -
  obtain a c where f: "foldl carry_step (0, 0) ws = (a, c)" by (cases "foldl carry_step (0, 0) ws")
  have v: "c = 0 \<or> c = 1 \<and> unat a < 4294967295" "csum_eq (unat a + unat c) (\<Sum>w\<leftarrow>ws. unat w)"
    using carry_fold_value [OF _ f] by simp_all
  from v(1) have "unat (a + c) = unat a + unat c"
    using unat_u32_less [of a] by (subst unat_plus_u32) auto
  with v(2) show ?thesis by (simp add: carry_sum_def f)
qed

section \<open>The adjustment of a translated flow\<close>

definition csum_adjustment6 :: "sfe_ip_addr \<Rightarrow> be16 \<Rightarrow> sfe_ip_addr \<Rightarrow> be16 \<Rightarrow> u16" where
  "csum_adjustment6 ip port ip' port' = ucast (csum_fold (csum_fold (carry_sum (diff_words ip port ip' port'))))"

lemma compute_translations_eq6:
  "sfe_ipv6_connection_match_compute_translations cm =
     (let s = has_flag (cm_flags6 cm) SFE_IPV6_CONNECTION_MATCH_FLAG_XLATE_SRC;
          d = has_flag (cm_flags6 cm) SFE_IPV6_CONNECTION_MATCH_FLAG_XLATE_DEST
      in cm\<lparr>cm_xlate_src_csum_adjustment6 := (if s then csum_adjustment6 (cm_match_src_ip6 cm) (cm_match_src_port6 cm)
               (cm_xlate_src_ip6 cm) (cm_xlate_src_port6 cm) else cm_xlate_src_csum_adjustment6 cm),
           cm_xlate_dest_csum_adjustment6 := (if d then csum_adjustment6 (cm_match_dest_ip6 cm) (cm_match_dest_port6 cm)
               (cm_xlate_dest_ip6 cm) (cm_xlate_dest_port6 cm) else cm_xlate_dest_csum_adjustment6 cm)\<rparr>)"
  unfolding sfe_ipv6_connection_match_compute_translations_def csum_adjustment6_def Let_def by simp

text \<open>The sum of the eight 16 bit words of an address.\<close>

definition ip_sum6 :: "sfe_ip_addr \<Rightarrow> nat" where
  "ip_sum6 a = ip_sum (ip6_0 a) + ip_sum (ip6_1 a) + ip_sum (ip6_2 a) + ip_sum (ip6_3 a)"

lemma ip_sum6_cong: "csum_eq (ip_sum6 a) (unat (ip6_0 a) + unat (ip6_1 a) + unat (ip6_2 a) + unat (ip6_3 a))"
  unfolding ip_sum6_def by (intro csum_eq_add ip_sum_cong)

lemma unat_ports_word:
  "unat ((ucast p :: u32) OR push_bit 16 (ucast (q :: u16))) = unat (p :: u16) + 65536 * unat q"
proof -
  have "(ucast p :: u32) OR push_bit 16 (ucast q) = ucast p + push_bit 16 (ucast q)"
    by (rule disjunctive_add [symmetric]) (auto simp: bit_simps dest: bit_imp_le_length)
  moreover have "unat (push_bit 16 (ucast q) :: u32) = 65536 * unat q"
    using unat_u16_less [of q] by (simp add: push_bit_eq_mult unat_word_ariths)
  ultimately show ?thesis
    using unat_u16_less [of p] unat_u16_less [of q] by (simp add: unat_plus_u32)
qed

lemma csum_adjustment_law6:
  "csum_eq (unat (csum_adjustment6 ip port ip' port') + ip_sum6 ip' + unat port') (ip_sum6 ip + unat port)"
proof -
  define a where "a = unat (ip6_0 ip) + unat (ip6_1 ip) + unat (ip6_2 ip) + unat (ip6_3 ip)"
  define b where "b = unat (ip6_0 ip') + unat (ip6_1 ip') + unat (ip6_2 ip') + unat (ip6_3 ip')"
  define s where "s = (\<Sum>w\<leftarrow>diff_words ip port ip' port'. unat w)"
  have lt: "unat (ip6_0 ip') < 4294967296" "unat (ip6_1 ip') < 4294967296" "unat (ip6_2 ip') < 4294967296"
    "unat (ip6_3 ip') < 4294967296" "unat port' < 65536"
    by (rule unat_u32_less unat_u16_less)+
  have "csum_eq (unat (csum_adjustment6 ip port ip' port') + ip_sum6 ip' + unat port') (s + b + unat port')"
    unfolding csum_adjustment6_def s_def b_def
    by (intro csum_eq_add refl ip_sum6_cong trans [OF csum_fold_twice_cong carry_sum_value])
  also have "s + b + unat port' = (a + unat port) + 65535 * (4 * 65537 + (65535 - unat port') + 1)"
    using lt unfolding s_def a_def b_def diff_words_def
    by (simp add: unat_ports_word unat_not_u32 unat_not_u16)
  also have "csum_eq \<dots> (a + unat port)" by (rule mod_mult_self2)
  also have "csum_eq (a + unat port) (ip_sum6 ip + unat port)"
    unfolding a_def by (rule csum_eq_add [OF ip_sum6_cong [symmetric] refl])
  finally show ?thesis .
qed

section \<open>The checksum of a datagram\<close>

text \<open>
  The sum a transport checksum covers: pseudo header (addresses, the length as 32 bits and the next
  header, in network byte order) and datagram.
\<close>

definition transport_sum6 :: "sfe_ip_addr \<Rightarrow> sfe_ip_addr \<Rightarrow> u8 \<Rightarrow> mem \<Rightarrow> nat \<Rightarrow> nat \<Rightarrow> nat" where
  "transport_sum6 src dest protocol m off n =
     ip_sum6 src + ip_sum6 dest + unat (ntohs (ucast protocol)) + unat (ntohs (of_nat (n div 65536)))
       + unat (ntohs (of_nat n)) + words_sum m off n"

definition transport_csum_ok6 :: "sfe_ip_addr \<Rightarrow> sfe_ip_addr \<Rightarrow> u8 \<Rightarrow> mem \<Rightarrow> nat \<Rightarrow> nat \<Rightarrow> bool" where
  "transport_csum_ok6 src dest protocol m off n \<longleftrightarrow> csum_eq (transport_sum6 src dest protocol m off n) 0"

lemma transport_sum6_split:
  "transport_sum6 src dest p m off n = (ip_sum6 src + words_sum m off n)
     + (ip_sum6 dest + unat (ntohs (ucast p)) + unat (ntohs (of_nat (n div 65536))) + unat (ntohs (of_nat n)))"
  "transport_sum6 src dest p m off n = (ip_sum6 dest + words_sum m off n)
     + (ip_sum6 src + unat (ntohs (ucast p)) + unat (ntohs (of_nat (n div 65536))) + unat (ntohs (of_nat n)))"
  by (simp_all add: transport_sum6_def)

lemma transport_xlate_src6:
  assumes n: "2 * j + 1 < n" "2 * k + 1 < n" and jk: "j \<noteq> k"
    and m': "m' = st16 (st16 m (off + 2 * j) port') (off + 2 * k)
                   (csum_update (ld16 m (off + 2 * k)) (csum_adjustment6 ip (ld16 m (off + 2 * j)) ip' port'))"
  shows "transport_csum_ok6 ip' dest protocol m' off n \<longleftrightarrow> transport_csum_ok6 ip dest protocol m off n"
  unfolding transport_csum_ok6_def transport_sum6_split(1)
  using csum_eq_add [OF words_sum_xlate [OF n jk csum_adjustment_law6 m'] refl] by simp

lemma transport_xlate_dest6:
  assumes n: "2 * j + 1 < n" "2 * k + 1 < n" and jk: "j \<noteq> k"
    and m': "m' = st16 (st16 m (off + 2 * j) port') (off + 2 * k)
                   (csum_update (ld16 m (off + 2 * k)) (csum_adjustment6 ip (ld16 m (off + 2 * j)) ip' port'))"
  shows "transport_csum_ok6 src ip' protocol m' off n \<longleftrightarrow> transport_csum_ok6 src ip protocol m off n"
  unfolding transport_csum_ok6_def transport_sum6_split(2)
  using csum_eq_add [OF words_sum_xlate [OF n jk csum_adjustment_law6 m'] refl] by simp

end
