(* ===== verification/SFE_IPv6_Rules.thy ===== *)
theory SFE_IPv6_Rules
  imports SFE_IPv6_Table SFE_IPv6_Csum
begin

text \<open>
  The control path of the IPv6 engine: statistics, sync messages, flushing, and the operations the
  connection manager calls (create, update, mark and destroy a rule, destroy all rules of a device,
  register the sync callback), the periodic sync, module init and exit. Calls of the sync callback
  are returned as a list of the callback pointer and the message.
\<close>

section \<open>Statistics\<close>

definition sfe_ipv6_connection_match_update_summary_stats ::
  "sfe_ipv6_connection_match \<Rightarrow> sfe_ipv6_connection_match" where
  "sfe_ipv6_connection_match_update_summary_stats cm =
     cm\<lparr>cm_rx_packet_count64_v6 := cm_rx_packet_count64_v6 cm + ucast (cm_rx_packet_count6 cm),
        cm_rx_packet_count6 := 0,
        cm_rx_byte_count64_v6 := cm_rx_byte_count64_v6 cm + ucast (cm_rx_byte_count6 cm),
        cm_rx_byte_count6 := 0\<rparr>"

definition sfe_ipv6_update_summary_stats :: "sfe_ipv6 \<Rightarrow> sfe_ipv6" where
  "sfe_ipv6_update_summary_stats si =
     si\<lparr>connection_create_requests64_v6 := connection_create_requests64_v6 si + ucast (connection_create_requests6 si),
        connection_create_requests6 := 0,
        connection_create_collisions64_v6 := connection_create_collisions64_v6 si + ucast (connection_create_collisions6 si),
        connection_create_collisions6 := 0,
        connection_destroy_requests64_v6 := connection_destroy_requests64_v6 si + ucast (connection_destroy_requests6 si),
        connection_destroy_requests6 := 0,
        connection_destroy_misses64_v6 := connection_destroy_misses64_v6 si + ucast (connection_destroy_misses6 si),
        connection_destroy_misses6 := 0,
        connection_match_hash_hits64_v6 := connection_match_hash_hits64_v6 si + ucast (connection_match_hash_hits6 si),
        connection_match_hash_hits6 := 0,
        connection_match_hash_reorders64_v6 := connection_match_hash_reorders64_v6 si + ucast (connection_match_hash_reorders6 si),
        connection_match_hash_reorders6 := 0,
        connection_flushes64_v6 := connection_flushes64_v6 si + ucast (connection_flushes6 si),
        connection_flushes6 := 0,
        packets_forwarded64_v6 := packets_forwarded64_v6 si + ucast (packets_forwarded6 si),
        packets_forwarded6 := 0,
        packets_not_forwarded64_v6 := packets_not_forwarded64_v6 si + ucast (packets_not_forwarded6 si),
        packets_not_forwarded6 := 0,
        exception_events64_v6 := (\<lambda>e. exception_events64_v6 si e + ucast (exception_events6 si e)),
        exception_events6 := (\<lambda>_. 0)\<rparr>"

section \<open>Sync messages and flushing\<close>

text \<open>\<open>dev_hold6\<close> and \<open>dev_put6\<close>.\<close>

definition dev_hold6 :: "dev_ptr \<Rightarrow> sfe_ipv6 \<Rightarrow> sfe_ipv6" where
  "dev_hold6 d si = si\<lparr>dev_refs6 := (dev_refs6 si)(d := dev_refs6 si d + 1)\<rparr>"

definition dev_put6 :: "dev_ptr \<Rightarrow> sfe_ipv6 \<Rightarrow> sfe_ipv6" where
  "dev_put6 d si = si\<lparr>dev_refs6 := (dev_refs6 si)(d := dev_refs6 si d - 1)\<rparr>"

definition sfe_ipv6_gen_sync_connection ::
  "sfe_ipv6 \<Rightarrow> ptr \<Rightarrow> sfe_connection_sync \<Rightarrow> sfe_sync_reason \<Rightarrow> u64 \<Rightarrow> sfe_connection_sync \<times> sfe_ipv6" where
  "sfe_ipv6_gen_sync_connection si cp sis reason now_jiffies =
     (let c = connections6 si cp;
          sis = sis\<lparr>sis_is_v6 := True, sis_protocol := c_protocol6 c,
                    sis_src_ip := c_src_ip6 c,
                    sis_src_ip_xlate := c_src_ip_xlate6 c,
                    sis_dest_ip := c_dest_ip6 c,
                    sis_dest_ip_xlate := c_dest_ip_xlate6 c,
                    sis_src_port := c_src_port6 c, sis_src_port_xlate := c_src_port_xlate6 c,
                    sis_dest_port := c_dest_port6 c, sis_dest_port_xlate := c_dest_port_xlate6 c\<rparr>;
          original_cm = c_original_match6 c;
          reply_cm = c_reply_match6 c;
          original_tcp = cm_tcp6 (matches6 si original_cm);
          reply_tcp = cm_tcp6 (matches6 si reply_cm);
          sis = sis\<lparr>sis_src_td_max_window := tcp_max_win6 original_tcp, sis_src_td_end := tcp_end6 original_tcp,
                    sis_src_td_max_end := tcp_max_end6 original_tcp,
                    sis_dest_td_max_window := tcp_max_win6 reply_tcp, sis_dest_td_end := tcp_end6 reply_tcp,
                    sis_dest_td_max_end := tcp_max_end6 reply_tcp,
                    sis_src_new_packet_count := cm_rx_packet_count6 (matches6 si original_cm),
                    sis_src_new_byte_count := cm_rx_byte_count6 (matches6 si original_cm),
                    sis_dest_new_packet_count := cm_rx_packet_count6 (matches6 si reply_cm),
                    sis_dest_new_byte_count := cm_rx_byte_count6 (matches6 si reply_cm)\<rparr>;
          si = upd_cm6 original_cm sfe_ipv6_connection_match_update_summary_stats si;
          si = upd_cm6 reply_cm sfe_ipv6_connection_match_update_summary_stats si;
          sis = sis\<lparr>sis_src_dev := cm_match_dev6 (matches6 si original_cm),
                    sis_src_packet_count := cm_rx_packet_count64_v6 (matches6 si original_cm),
                    sis_src_byte_count := cm_rx_byte_count64_v6 (matches6 si original_cm),
                    sis_dest_dev := cm_match_dev6 (matches6 si reply_cm),
                    sis_dest_packet_count := cm_rx_packet_count64_v6 (matches6 si reply_cm),
                    sis_dest_byte_count := cm_rx_byte_count64_v6 (matches6 si reply_cm),
                    sis_reason := reason,
                    sis_delta_jiffies := now_jiffies - c_last_sync_jiffies6 c\<rparr>;
          si = upd_c6 cp (\<lambda>c. c\<lparr>c_last_sync_jiffies6 := now_jiffies\<rparr>) si
      in (sis, si))"

text \<open>\<open>kfree\<close> takes the address out of the live set.\<close>

definition sfe_ipv6_flush_connection ::
  "u64 \<Rightarrow> sfe_ipv6 \<Rightarrow> ptr \<Rightarrow> sfe_sync_reason \<Rightarrow> sfe_ipv6 \<times> syncs" where
  "sfe_ipv6_flush_connection jiffies si c reason =
     (let si = si\<lparr>connection_flushes6 := connection_flushes6 si + 1\<rparr>;
          (si, out) = (case sync_rule_callback6 si of
              None \<Rightarrow> (si, [])
            | Some cb \<Rightarrow> let (sis, si) = sfe_ipv6_gen_sync_connection si c stack_sis reason jiffies
                         in (si, [(cb, sis)]));
          si = dev_put6 (c_original_dev6 (connections6 si c)) si;
          si = dev_put6 (c_reply_dev6 (connections6 si c)) si;
          si = si\<lparr>live_matches6 := live_matches6 si - {c_original_match6 (connections6 si c)}\<rparr>;
          si = si\<lparr>live_matches6 := live_matches6 si - {c_reply_match6 (connections6 si c)}\<rparr>;
          si = si\<lparr>live_connections6 := live_connections6 si - {c}\<rparr>
      in (si, out))"

section \<open>Updating and marking a rule\<close>

definition tcp_state_max6 ::
  "u32 \<Rightarrow> u32 \<Rightarrow> u32 \<Rightarrow> sfe_ipv6_tcp_connection_match \<Rightarrow> sfe_ipv6_tcp_connection_match" where
  "tcp_state_max6 max_window td_end td_max_end tcp =
     (let tcp = (if tcp_max_win6 tcp < max_window then tcp\<lparr>tcp_max_win6 := max_window\<rparr> else tcp);
          tcp = (if s32 (tcp_end6 tcp - td_end) < 0 then tcp\<lparr>tcp_end6 := td_end\<rparr> else tcp)
      in if s32 (tcp_max_end6 tcp - td_max_end) < 0 then tcp\<lparr>tcp_max_end6 := td_max_end\<rparr> else tcp)"

definition cm_clear_flag6 :: "u32 \<Rightarrow> sfe_ipv6_connection_match \<Rightarrow> sfe_ipv6_connection_match" where
  "cm_clear_flag6 f m = m\<lparr>cm_flags6 := cm_flags6 m AND NOT f\<rparr>"

definition cm_set_flag6 :: "u32 \<Rightarrow> sfe_ipv6_connection_match \<Rightarrow> sfe_ipv6_connection_match" where
  "cm_set_flag6 f m = m\<lparr>cm_flags6 := cm_flags6 m OR f\<rparr>"

definition sfe_ipv6_update_tcp_state :: "sfe_ipv6 \<Rightarrow> ptr \<Rightarrow> sfe_connection_create \<Rightarrow> sfe_ipv6" where
  "sfe_ipv6_update_tcp_state si c sic =
     (let orig_cm = c_original_match6 (connections6 si c);
          repl_cm = c_reply_match6 (connections6 si c);
          si = upd_cm6 orig_cm (\<lambda>m. m\<lparr>cm_tcp6 := tcp_state_max6 (sic_src_td_max_window sic)
                 (sic_src_td_end sic) (sic_src_td_max_end sic) (cm_tcp6 m)\<rparr>) si;
          si = upd_cm6 repl_cm (\<lambda>m. m\<lparr>cm_tcp6 := tcp_state_max6 (sic_dest_td_max_window sic)
                 (sic_dest_td_end sic) (sic_dest_td_max_end sic) (cm_tcp6 m)\<rparr>) si;
          si = upd_cm6 orig_cm (cm_clear_flag6 SFE_IPV6_CONNECTION_MATCH_FLAG_NO_SEQ_CHECK) si;
          si = upd_cm6 repl_cm (cm_clear_flag6 SFE_IPV6_CONNECTION_MATCH_FLAG_NO_SEQ_CHECK) si
      in if has_flag (sic_flags sic) SFE_CREATE_FLAG_NO_SEQ_CHECK
         then upd_cm6 repl_cm (cm_set_flag6 SFE_IPV6_CONNECTION_MATCH_FLAG_NO_SEQ_CHECK)
                (upd_cm6 orig_cm (cm_set_flag6 SFE_IPV6_CONNECTION_MATCH_FLAG_NO_SEQ_CHECK) si)
         else si)"

definition sfe_ipv6_update_protocol_state :: "sfe_ipv6 \<Rightarrow> ptr \<Rightarrow> sfe_connection_create \<Rightarrow> sfe_ipv6" where
  "sfe_ipv6_update_protocol_state si c sic =
     (if sic_protocol sic = ucast IPPROTO_TCP then sfe_ipv6_update_tcp_state si c sic else si)"

definition sfe_ipv6_update_rule :: "sfe_ipv6 \<Rightarrow> sfe_connection_create \<Rightarrow> sfe_ipv6 option" where
  "sfe_ipv6_update_rule si sic = do {
     r \<leftarrow> sfe_ipv6_find_connection si (sic_protocol sic) ((sic_src_ip sic)) (sic_src_port sic)
            ((sic_dest_ip sic)) (sic_dest_port sic);
     case r of None \<Rightarrow> Some si | Some c \<Rightarrow> Some (sfe_ipv6_update_protocol_state si c sic) }"

definition sfe_ipv6_mark_rule :: "sfe_ipv6 \<Rightarrow> sfe_connection_mark \<Rightarrow> sfe_ipv6 option" where
  "sfe_ipv6_mark_rule si mark = do {
     r \<leftarrow> sfe_ipv6_find_connection si (mk_protocol mark) ((mk_src_ip mark)) (mk_src_port mark)
            ((mk_dest_ip mark)) (mk_dest_port mark);
     case r of None \<Rightarrow> Some si | Some c \<Rightarrow> Some (upd_c6 c (\<lambda>c. c\<lparr>c_mark6 := mk_mark mark\<rparr>) si) }"

section \<open>Creating a rule\<close>

definition SFE_IPV6_DSCP_SHIFT :: nat where "SFE_IPV6_DSCP_SHIFT = 2"

text \<open>The remark fields, which keep what the memory held where the flag is not set.\<close>

definition set_remark6 ::
  "u32 \<Rightarrow> u32 \<Rightarrow> u32 \<Rightarrow> sfe_ipv6_connection_match \<Rightarrow> sfe_ipv6_connection_match" where
  "set_remark6 flags priority dscp m =
     (let m = (if has_flag flags SFE_CREATE_FLAG_REMARK_PRIORITY
               then cm_set_flag6 SFE_IPV6_CONNECTION_MATCH_FLAG_PRIORITY_REMARK (m\<lparr>cm_priority6 := priority\<rparr>)
               else m)
      in if has_flag flags SFE_CREATE_FLAG_REMARK_DSCP
         then cm_set_flag6 SFE_IPV6_CONNECTION_MATCH_FLAG_DSCP_REMARK
                (m\<lparr>cm_dscp6 := push_bit SFE_IPV6_DSCP_SHIFT dscp\<rparr>)
         else m)"

definition set_l2_flags6 :: "net_device \<Rightarrow> sfe_ipv6_connection_match \<Rightarrow> sfe_ipv6_connection_match" where
  "set_l2_flags6 dev m =
     (if nd_pointopoint dev then m
      else let m = cm_set_flag6 SFE_IPV6_CONNECTION_MATCH_FLAG_WRITE_L2_HDR m
           in if nd_header_ops dev = Some Eth_header
              then cm_set_flag6 SFE_IPV6_CONNECTION_MATCH_FLAG_WRITE_FAST_ETH_HDR m
              else m)"

definition fill_original_cm6 ::
  "(dev_ptr \<Rightarrow> net_device) \<Rightarrow> sfe_connection_create \<Rightarrow> ptr \<Rightarrow> ptr \<Rightarrow>
   sfe_ipv6_connection_match \<Rightarrow> sfe_ipv6_connection_match" where
  "fill_original_cm6 devs sic c reply_cm m =
     (let dest_dev = sic_dest_dev sic; src_dev = sic_src_dev sic;
          m = m\<lparr>cm_match_dev6 := src_dev, cm_match_protocol6 := ucast (sic_protocol sic),
                cm_match_src_ip6 := sic_src_ip sic, cm_match_src_port6 := sic_src_port sic,
                cm_match_dest_ip6 := sic_dest_ip sic, cm_match_dest_port6 := sic_dest_port sic\<rparr>;
          m = m\<lparr>cm_xlate_src_ip6 := sic_src_ip_xlate sic, cm_xlate_src_port6 := sic_src_port_xlate sic,
                cm_xlate_dest_ip6 := sic_dest_ip_xlate sic, cm_xlate_dest_port6 := sic_dest_port_xlate sic\<rparr>;
          m = m\<lparr>cm_rx_packet_count6 := 0, cm_rx_packet_count64_v6 := 0, cm_rx_byte_count6 := 0,
                cm_rx_byte_count64_v6 := 0, cm_xmit_dev6 := dest_dev, cm_xmit_dev_mtu6 := ucast (sic_dest_mtu sic),
                cm_xmit_src_mac6 := mac_copy (cm_xmit_src_mac6 m) (nd_dev_addr (devs dest_dev)),
                cm_xmit_dest_mac6 := mac_copy (cm_xmit_dest_mac6 m) (sic_dest_mac_xlate sic),
                cm_connection6 := c, cm_counter_match6 := reply_cm, cm_flags6 := 0\<rparr>;
          m = set_remark6 (sic_flags sic) (sic_src_priority sic) (sic_src_dscp sic) m;
          m = m\<lparr>cm_flow_accel6 := sic_original_accel sic, cm_active_next6 := None, cm_active_prev6 := None,
                cm_active6 := False\<rparr>
      in set_l2_flags6 (devs dest_dev) m)"

definition fill_reply_cm6 ::
  "(dev_ptr \<Rightarrow> net_device) \<Rightarrow> sfe_connection_create \<Rightarrow> ptr \<Rightarrow> ptr \<Rightarrow>
   sfe_ipv6_connection_match \<Rightarrow> sfe_ipv6_connection_match" where
  "fill_reply_cm6 devs sic c original_cm m =
     (let dest_dev = sic_dest_dev sic; src_dev = sic_src_dev sic;
          m = m\<lparr>cm_match_dev6 := dest_dev, cm_match_protocol6 := ucast (sic_protocol sic),
                cm_match_src_ip6 := sic_dest_ip_xlate sic, cm_match_src_port6 := sic_dest_port_xlate sic,
                cm_match_dest_ip6 := sic_src_ip_xlate sic, cm_match_dest_port6 := sic_src_port_xlate sic\<rparr>;
          m = m\<lparr>cm_xlate_src_ip6 := sic_dest_ip sic, cm_xlate_src_port6 := sic_dest_port sic,
                cm_xlate_dest_ip6 := sic_src_ip sic, cm_xlate_dest_port6 := sic_src_port sic\<rparr>;
          m = m\<lparr>cm_rx_packet_count6 := 0, cm_rx_packet_count64_v6 := 0, cm_rx_byte_count6 := 0,
                cm_rx_byte_count64_v6 := 0, cm_xmit_dev6 := src_dev, cm_xmit_dev_mtu6 := ucast (sic_src_mtu sic),
                cm_xmit_src_mac6 := mac_copy (cm_xmit_src_mac6 m) (nd_dev_addr (devs src_dev)),
                cm_xmit_dest_mac6 := mac_copy (cm_xmit_dest_mac6 m) (sic_src_mac sic),
                cm_connection6 := c, cm_counter_match6 := original_cm, cm_flags6 := 0\<rparr>;
          m = set_remark6 (sic_flags sic) (sic_dest_priority sic) (sic_dest_dscp sic) m;
          m = m\<lparr>cm_flow_accel6 := sic_reply_accel sic, cm_active_next6 := None, cm_active_prev6 := None,
                cm_active6 := False\<rparr>
      in set_l2_flags6 (devs src_dev) m)"

definition set_xlate_flags6 :: "sfe_connection_create \<Rightarrow> ptr \<Rightarrow> ptr \<Rightarrow> sfe_ipv6 \<Rightarrow> sfe_ipv6" where
  "set_xlate_flags6 sic original_cm reply_cm si =
     (let si = (if \<not> sfe_ipv6_addr_equal (sic_dest_ip sic) (sic_dest_ip_xlate sic) \<or> sic_dest_port sic \<noteq> sic_dest_port_xlate sic
                then upd_cm6 reply_cm (cm_set_flag6 SFE_IPV6_CONNECTION_MATCH_FLAG_XLATE_SRC)
                       (upd_cm6 original_cm (cm_set_flag6 SFE_IPV6_CONNECTION_MATCH_FLAG_XLATE_DEST) si)
                else si)
      in if \<not> sfe_ipv6_addr_equal (sic_src_ip sic) (sic_src_ip_xlate sic) \<or> sic_src_port sic \<noteq> sic_src_port_xlate sic
         then upd_cm6 reply_cm (cm_set_flag6 SFE_IPV6_CONNECTION_MATCH_FLAG_XLATE_DEST)
                (upd_cm6 original_cm (cm_set_flag6 SFE_IPV6_CONNECTION_MATCH_FLAG_XLATE_SRC) si)
         else si)"

definition fill_connection6 ::
  "u64 \<Rightarrow> sfe_connection_create \<Rightarrow> ptr \<Rightarrow> ptr \<Rightarrow> sfe_ipv6_connection \<Rightarrow> sfe_ipv6_connection" where
  "fill_connection6 jiffies sic original_cm reply_cm c =
     c\<lparr>c_protocol6 := sic_protocol sic, c_src_ip6 := sic_src_ip sic,
       c_src_ip_xlate6 := sic_src_ip_xlate sic, c_src_port6 := sic_src_port sic,
       c_src_port_xlate6 := sic_src_port_xlate sic, c_original_dev6 := sic_src_dev sic,
       c_original_match6 := original_cm, c_dest_ip6 := sic_dest_ip sic,
       c_dest_ip_xlate6 := sic_dest_ip_xlate sic, c_dest_port6 := sic_dest_port sic,
       c_dest_port_xlate6 := sic_dest_port_xlate sic, c_reply_dev6 := sic_dest_dev sic,
       c_reply_match6 := reply_cm, c_mark6 := sic_mark sic, c_debug_read_seq6 := 0,
       c_last_sync_jiffies6 := jiffies\<rparr>"

definition tcp_state_init6 :: "u8 \<Rightarrow> u32 \<Rightarrow> u32 \<Rightarrow> u32 \<Rightarrow> sfe_ipv6_tcp_connection_match" where
  "tcp_state_init6 win_scale max_window td_end td_max_end =
     \<lparr>tcp_win_scale6 = win_scale, tcp_max_win6 = (if max_window \<noteq> 0 then max_window else 1),
      tcp_end6 = td_end, tcp_max_end6 = td_max_end\<rparr>"

definition init_protocol_state6 :: "sfe_connection_create \<Rightarrow> ptr \<Rightarrow> ptr \<Rightarrow> sfe_ipv6 \<Rightarrow> sfe_ipv6" where
  "init_protocol_state6 sic original_cm reply_cm si =
     (if sic_protocol sic = ucast IPPROTO_TCP
      then let si = upd_cm6 original_cm (\<lambda>m. m\<lparr>cm_tcp6 := tcp_state_init6 (sic_src_td_window_scale sic)
                      (sic_src_td_max_window sic) (sic_src_td_end sic) (sic_src_td_max_end sic)\<rparr>) si;
               si = upd_cm6 reply_cm (\<lambda>m. m\<lparr>cm_tcp6 := tcp_state_init6 (sic_dest_td_window_scale sic)
                      (sic_dest_td_max_window sic) (sic_dest_td_end sic) (sic_dest_td_max_end sic)\<rparr>) si
           in if has_flag (sic_flags sic) SFE_CREATE_FLAG_NO_SEQ_CHECK
              then upd_cm6 reply_cm (cm_set_flag6 SFE_IPV6_CONNECTION_MATCH_FLAG_NO_SEQ_CHECK)
                     (upd_cm6 original_cm (cm_set_flag6 SFE_IPV6_CONNECTION_MATCH_FLAG_NO_SEQ_CHECK) si)
              else si
      else si)"

text \<open>Everything \<open>sfe_ipv6_create_rule\<close> does once it has its three objects.\<close>

definition build_rule6 ::
  "(dev_ptr \<Rightarrow> net_device) \<Rightarrow> u64 \<Rightarrow> sfe_connection_create \<Rightarrow> ptr \<Rightarrow> ptr \<Rightarrow> ptr \<Rightarrow> sfe_ipv6 \<Rightarrow> sfe_ipv6" where
  "build_rule6 devs jiffies sic c original_cm reply_cm si =
     (let si = upd_cm6 original_cm (fill_original_cm6 devs sic c reply_cm) si;
          si = upd_cm6 reply_cm (fill_reply_cm6 devs sic c original_cm) si;
          si = set_xlate_flags6 sic original_cm reply_cm si;
          si = upd_c6 c (fill_connection6 jiffies sic original_cm reply_cm) si;
          si = dev_hold6 (c_original_dev6 (connections6 si c)) si;
          si = dev_hold6 (c_reply_dev6 (connections6 si c)) si;
          si = init_protocol_state6 sic original_cm reply_cm si;
          si = upd_cm6 original_cm sfe_ipv6_connection_match_compute_translations si;
          si = upd_cm6 reply_cm sfe_ipv6_connection_match_compute_translations si
      in sfe_ipv6_insert_connection si c)"

text \<open>
  \<open>kc\<close>, \<open>ko\<close> and \<open>kr\<close> are what the three calls of \<open>kmalloc\<close> return. What a later failure frees
  again was never used, so the state is that before the allocation.
\<close>

definition sfe_ipv6_create_rule ::
  "(dev_ptr \<Rightarrow> net_device) \<Rightarrow> u64 \<Rightarrow> ptr option \<Rightarrow> ptr option \<Rightarrow> ptr option \<Rightarrow>
   sfe_ipv6 \<Rightarrow> sfe_connection_create \<Rightarrow> (int \<times> sfe_ipv6) option" where
  "sfe_ipv6_create_rule devs jiffies kc ko kr si sic =
     (if \<not> nd_registered (devs (sic_dest_dev sic)) \<or> \<not> nd_registered (devs (sic_src_dev sic))
      then Some (- EINVAL, si)
      else let si = si\<lparr>connection_create_requests6 := connection_create_requests6 si + 1\<rparr>
      in do {
        r \<leftarrow> sfe_ipv6_find_connection si (sic_protocol sic) ((sic_src_ip sic)) (sic_src_port sic)
               ((sic_dest_ip sic)) (sic_dest_port sic);
        case r of
          Some c \<Rightarrow> let si = si\<lparr>connection_create_collisions6 := connection_create_collisions6 si + 1\<rparr>
                    in Some (- EADDRINUSE, sfe_ipv6_update_protocol_state si c sic)
        | None \<Rightarrow>
            (case kc of None \<Rightarrow> Some (- ENOMEM, si)
             | Some c \<Rightarrow>
                (case ko of None \<Rightarrow> Some (- ENOMEM, si)
                 | Some original_cm \<Rightarrow>
                    (case kr of None \<Rightarrow> Some (- ENOMEM, si)
                     | Some reply_cm \<Rightarrow>
                        let si = si\<lparr>live_connections6 := insert c (live_connections6 si),
                                    live_matches6 := insert original_cm (insert reply_cm (live_matches6 si))\<rparr>
                        in Some (0, build_rule6 devs jiffies sic c original_cm reply_cm si)))) })"

section \<open>Destroying rules\<close>

definition sfe_ipv6_destroy_rule :: "u64 \<Rightarrow> sfe_ipv6 \<Rightarrow> sfe_connection_destroy \<Rightarrow> (sfe_ipv6 \<times> syncs) option" where
  "sfe_ipv6_destroy_rule jiffies si sid =
     (let si = si\<lparr>connection_destroy_requests6 := connection_destroy_requests6 si + 1\<rparr>
      in do {
        r \<leftarrow> sfe_ipv6_find_connection si (sid_protocol sid) ((sid_src_ip sid)) (sid_src_port sid)
               ((sid_dest_ip sid)) (sid_dest_port sid);
        case r of
          None \<Rightarrow> Some (si\<lparr>connection_destroy_misses6 := connection_destroy_misses6 si + 1\<rparr>, [])
        | Some c \<Rightarrow> Some (sfe_ipv6_flush_connection jiffies
                             (sfe_ipv6_remove_connection si c) c SFE_SYNC_REASON_DESTROY) })"

definition sfe_ipv6_register_sync_rule_callback :: "sfe_ipv6 \<Rightarrow> ptr option \<Rightarrow> sfe_ipv6" where
  "sfe_ipv6_register_sync_rule_callback si cb = si\<lparr>sync_rule_callback6 := cb\<rparr>"

text \<open>The device test of \<open>sfe_ipv6_destroy_all_rules_for_dev\<close>; the NULL device is 0.\<close>

definition uses_dev6 :: "sfe_ipv6_connection \<Rightarrow> dev_ptr \<Rightarrow> bool" where
  "uses_dev6 c dev \<longleftrightarrow> dev = 0 \<or> dev = c_original_dev6 c \<or> dev = c_reply_dev6 c"

partial_function (option) sfe_ipv6_destroy_all_rules_for_dev ::
  "u64 \<Rightarrow> dev_ptr \<Rightarrow> sfe_ipv6 \<Rightarrow> (sfe_ipv6 \<times> syncs) option" where
  "sfe_ipv6_destroy_all_rules_for_dev jiffies dev si = do {
     r \<leftarrow> chain_find (\<lambda>p. c_all_connections_next6 (connections6 si p)) (\<lambda>p. uses_dev6 (connections6 si p) dev)
            (all_connections_head6 si);
     case r of
       None \<Rightarrow> Some (si, [])
     | Some c \<Rightarrow> do {
         let (si, out) = sfe_ipv6_flush_connection jiffies
               (sfe_ipv6_remove_connection si c) c SFE_SYNC_REASON_DESTROY;
         (si, out') \<leftarrow> sfe_ipv6_destroy_all_rules_for_dev jiffies dev si;
         Some (si, out @ out') } }"

section \<open>The periodic sync\<close>

text \<open>
  Taking the counter match of \<open>cm\<close> and \<open>cm\<close> itself off the active list. The code reads
  \<open>counter_cm->active_prev\<close> without a test: None where that pointer is NULL.
\<close>

definition deactivate_counter6 :: "sfe_ipv6 \<Rightarrow> ptr \<Rightarrow> sfe_ipv6 option" where
  "deactivate_counter6 si counter_cm =
     (if cm_active6 (matches6 si counter_cm)
      then let si = upd_cm6 counter_cm (\<lambda>m. m\<lparr>cm_active6 := False\<rparr>) si
      in (case cm_active_prev6 (matches6 si counter_cm) of
            None \<Rightarrow> None
          | Some p \<Rightarrow>
              let si = upd_cm6 p (\<lambda>m. m\<lparr>cm_active_next6 := cm_active_next6 (matches6 si counter_cm)\<rparr>) si;
                  si = (case cm_active_next6 (matches6 si counter_cm) of
                          Some n \<Rightarrow> upd_cm6 n (\<lambda>m. m\<lparr>cm_active_prev6 := cm_active_prev6 (matches6 si counter_cm)\<rparr>) si
                        | None \<Rightarrow> si\<lparr>active_tail6 := cm_active_prev6 (matches6 si counter_cm)\<rparr>);
                  si = upd_cm6 counter_cm (\<lambda>m. m\<lparr>cm_active_next6 := None\<rparr>) si;
                  si = upd_cm6 counter_cm (\<lambda>m. m\<lparr>cm_active_prev6 := None\<rparr>) si
              in Some si)
      else Some si)"

definition deactivate_head6 :: "sfe_ipv6 \<Rightarrow> ptr \<Rightarrow> sfe_ipv6" where
  "deactivate_head6 si cm =
     (let si = upd_cm6 cm (\<lambda>m. m\<lparr>cm_active6 := False\<rparr>) si;
          si = si\<lparr>active_head6 := cm_active_next6 (matches6 si cm)\<rparr>;
          si = (case cm_active_next6 (matches6 si cm) of
                  Some n \<Rightarrow> upd_cm6 n (\<lambda>m. m\<lparr>cm_active_prev6 := None\<rparr>) si
                | None \<Rightarrow> si\<lparr>active_tail6 := None\<rparr>)
      in upd_cm6 cm (\<lambda>m. m\<lparr>cm_active_next6 := None\<rparr>) si)"

text \<open>The loop, \<open>quota\<close> counted down. The lock is released only while the callback runs.\<close>

fun periodic_sync_loop6 :: "nat \<Rightarrow> ptr \<Rightarrow> u64 \<Rightarrow> sfe_ipv6 \<Rightarrow> (sfe_ipv6 \<times> syncs) option" where
  "periodic_sync_loop6 0 cb now_jiffies si = Some (si, [])"
| "periodic_sync_loop6 (Suc quota) cb now_jiffies si =
     (case active_head6 si of
        None \<Rightarrow> Some (si, [])
      | Some cm \<Rightarrow> do {
          si \<leftarrow> deactivate_counter6 si (cm_counter_match6 (matches6 si cm));
          let si = deactivate_head6 si cm;
          let (sis, si) = sfe_ipv6_gen_sync_connection si (cm_connection6 (matches6 si cm)) stack_sis
                            SFE_SYNC_REASON_STATS now_jiffies;
          (si, out) \<leftarrow> periodic_sync_loop6 quota cb now_jiffies si;
          Some (si, (cb, sis) # out) })"

text \<open>\<open>hz\<close> is the kernel's tick rate \<open>HZ\<close>, \<open>jiffies'\<close> the time when the timer is set again.\<close>

definition sfe_ipv6_periodic_sync :: "u64 \<Rightarrow> u64 \<Rightarrow> u64 \<Rightarrow> sfe_ipv6 \<Rightarrow> (sfe_ipv6 \<times> syncs) option" where
  "sfe_ipv6_periodic_sync hz now_jiffies jiffies' si = do {
     (si, out) \<leftarrow> (case sync_rule_callback6 si of
         None \<Rightarrow> Some (si, [])
       | Some cb \<Rightarrow> let si = sfe_ipv6_update_summary_stats si;
                         quota = (num_connections6 si + 63) div 64
                     in periodic_sync_loop6 (unat quota) cb now_jiffies si);
     Some (si\<lparr>timer_expires6 := jiffies' + (hz + 99) div 100\<rparr>, out) }"

section \<open>The debug device's write, module init and exit\<close>

definition sfe_ipv6_debug_dev_write :: "sfe_ipv6 \<Rightarrow> nat \<Rightarrow> sfe_ipv6 \<times> nat" where
  "sfe_ipv6_debug_dev_write si len =
     (let si = sfe_ipv6_update_summary_stats si
      in (si\<lparr>packets_forwarded64_v6 := 0, packets_not_forwarded64_v6 := 0, connection_create_requests64_v6 := 0,
             connection_create_collisions64_v6 := 0, connection_destroy_requests64_v6 := 0,
             connection_destroy_misses64_v6 := 0, connection_flushes64_v6 := 0, connection_match_hash_hits64_v6 := 0,
             connection_match_hash_reorders64_v6 := 0\<rparr>, len))"

text \<open>
  The three kernel calls \<open>kobject_create_and_add\<close>, \<open>sysfs_create_file\<close> and \<open>register_chrdev\<close>
  with what they return; the kernel objects registered when it fails are released again.
\<close>

definition sfe_ipv6_init :: "u64 \<Rightarrow> u64 \<Rightarrow> bool \<Rightarrow> int \<Rightarrow> int \<Rightarrow> sfe_ipv6 \<Rightarrow> int \<times> sfe_ipv6" where
  "sfe_ipv6_init hz jiffies kobject sysfs chrdev si =
     (if \<not> kobject then (- 1, si)
      else if sysfs \<noteq> 0 then (sysfs, si)
      else if chrdev < 0 then (chrdev, si)
      else (0, si\<lparr>debug_dev6 := word_of_int chrdev, timer_expires6 := jiffies + (hz + 99) div 100\<rparr>))"

definition sfe_ipv6_exit :: "u64 \<Rightarrow> sfe_ipv6 \<Rightarrow> (sfe_ipv6 \<times> syncs) option" where
  "sfe_ipv6_exit jiffies si = sfe_ipv6_destroy_all_rules_for_dev jiffies 0 si"

end
