(* ===== verification/SFE_IPv6_Rules_Inv.thy ===== *)
theory SFE_IPv6_Rules_Inv
  imports SFE_IPv6_Rules
begin

text \<open>
  The control path keeps the structural invariant: which writes leave the tables alone, the
  invariant under each operation, and the engine's rules as a map from keys that each operation
  updates at one point.
\<close>

section \<open>Writes that leave the tables alone\<close>

text \<open>
  The shape of a state is what the invariant reads. Most writes of the engine (counters, protocol
  state, flags, marks) keep it.
\<close>

definition cm_view6 :: "sfe_ipv6_connection_match \<Rightarrow>
    (ptr option \<times> ptr option) \<times> (ptr option \<times> ptr option) \<times> bool \<times> match_key6 \<times> ptr \<times> ptr" where
  "cm_view6 m = ((cm_next6 m, cm_prev6 m), (cm_active_next6 m, cm_active_prev6 m), cm_active6 m, cm_key6 m,
     cm_connection6 m, cm_counter_match6 m)"

definition c_view6 :: "sfe_ipv6_connection \<Rightarrow>
    (ptr option \<times> ptr option) \<times> (ptr option \<times> ptr option) \<times> conn_key6 \<times> (ptr \<times> ptr) \<times> (dev_ptr \<times> dev_ptr)" where
  "c_view6 c = ((c_next6 c, c_prev6 c), (c_all_connections_next6 c, c_all_connections_prev6 c), c_key6 c,
     (c_original_match6 c, c_reply_match6 c), (c_original_dev6 c, c_reply_dev6 c))"

definition keeps_cm6 :: "(sfe_ipv6_connection_match \<Rightarrow> sfe_ipv6_connection_match) \<Rightarrow> bool" where
  "keeps_cm6 f \<longleftrightarrow> (\<forall>m. cm_view6 (f m) = cm_view6 m)"

definition keeps_c6 :: "(sfe_ipv6_connection \<Rightarrow> sfe_ipv6_connection) \<Rightarrow> bool" where
  "keeps_c6 f \<longleftrightarrow> (\<forall>c. c_view6 (f c) = c_view6 c)"

definition same_shape6 :: "sfe_ipv6 \<Rightarrow> sfe_ipv6 \<Rightarrow> bool" where
  "same_shape6 si si' \<longleftrightarrow> ft6 si' = ft6 si \<and> live_matches6 si' = live_matches6 si
     \<and> live_connections6 si' = live_connections6 si \<and> dev_refs6 si' = dev_refs6 si
     \<and> (\<forall>p. c_view6 (connections6 si' p) = c_view6 (connections6 si p)) \<and> num_connections6 si' = num_connections6 si"

lemma same_shape_refl6 [simp]: "same_shape6 si si"
  by (simp add: same_shape6_def)

lemma same_shape_trans6: "same_shape6 a b \<Longrightarrow> same_shape6 b c \<Longrightarrow> same_shape6 a c"
  by (simp add: same_shape6_def)

lemma sfe_inv_same_shape6:
  assumes "same_shape6 si si'" and "sfe_inv6 si g P"
  shows "sfe_inv6 si' g P"
proof -
  have "refs_of6 si' cs d = refs_of6 si cs d" for cs d
    using assms(1) by (simp add: refs_of6_def same_shape6_def c_view6_def)
  with assms show ?thesis
    by (simp add: sfe_inv6_def same_shape6_def mem_ok6_def fun_eq_iff)
qed

lemma same_shape_key6:
  assumes "same_shape6 si si'"
  shows "c_key6 (connections6 si' p) = c_key6 (connections6 si p)"
    and "c_original_match6 (connections6 si' p) = c_original_match6 (connections6 si p)"
    and "c_reply_match6 (connections6 si' p) = c_reply_match6 (connections6 si p)"
    and "c_original_dev6 (connections6 si' p) = c_original_dev6 (connections6 si p)"
    and "c_reply_dev6 (connections6 si' p) = c_reply_dev6 (connections6 si p)"
  using assms by (simp_all add: same_shape6_def c_view6_def)

lemma cm_view_upd6 [simp]:
  "keeps_cm6 (\<lambda>m. m\<lparr>cm_tcp6 := f m\<rparr>)"
  "keeps_cm6 (cm_set_flag6 fl)" "keeps_cm6 (cm_clear_flag6 fl)"
  "keeps_cm6 sfe_ipv6_connection_match_update_summary_stats"
  "keeps_cm6 sfe_ipv6_connection_match_compute_translations"
  "keeps_c6 (\<lambda>c. c\<lparr>c_mark6 := v\<rparr>)" "keeps_c6 (\<lambda>c. c\<lparr>c_last_sync_jiffies6 := j\<rparr>)"
  "keeps_c6 (\<lambda>c. c\<lparr>c_debug_read_seq6 := w\<rparr>)"
  by (simp_all add: keeps_cm6_def keeps_c6_def cm_view6_def c_view6_def cm_key6_def c_key6_def cm_set_flag6_def
      cm_clear_flag6_def sfe_ipv6_connection_match_update_summary_stats_def compute_translations_eq6 Let_def)

lemma keeps_cmD6:
  assumes "keeps_cm6 f"
  shows "cm_next6 (f m) = cm_next6 m" "cm_prev6 (f m) = cm_prev6 m" "cm_active_next6 (f m) = cm_active_next6 m"
    "cm_active_prev6 (f m) = cm_active_prev6 m" "cm_active6 (f m) = cm_active6 m" "cm_key6 (f m) = cm_key6 m"
    "cm_connection6 (f m) = cm_connection6 m" "cm_counter_match6 (f m) = cm_counter_match6 m"
    "cm_hash6 (f m) = cm_hash6 m"
proof -
  have "cm_view6 (f m) = cm_view6 m" using assms by (simp add: keeps_cm6_def)
  then show "cm_next6 (f m) = cm_next6 m" "cm_prev6 (f m) = cm_prev6 m" "cm_active_next6 (f m) = cm_active_next6 m"
    "cm_active_prev6 (f m) = cm_active_prev6 m" "cm_active6 (f m) = cm_active6 m" and k: "cm_key6 (f m) = cm_key6 m"
    and "cm_connection6 (f m) = cm_connection6 m" "cm_counter_match6 (f m) = cm_counter_match6 m"
    unfolding cm_view6_def by simp_all
  show "cm_hash6 (f m) = cm_hash6 m" by (rule key_hash_cong6 [OF k])
qed

lemma c_hash_cong6: "c_key6 c' = c_key6 c \<Longrightarrow> c_hash6 c' = c_hash6 c"
  by (simp add: c_key6_def c_hash6_def)

lemma keeps_cD6:
  assumes "keeps_c6 f"
  shows "c_next6 (f c) = c_next6 c" "c_prev6 (f c) = c_prev6 c"
    "c_all_connections_next6 (f c) = c_all_connections_next6 c"
    "c_all_connections_prev6 (f c) = c_all_connections_prev6 c" "c_key6 (f c) = c_key6 c"
    "c_original_match6 (f c) = c_original_match6 c" "c_reply_match6 (f c) = c_reply_match6 c"
    "c_hash6 (f c) = c_hash6 c"
proof -
  have "c_view6 (f c) = c_view6 c" using assms by (simp add: keeps_c6_def)
  then show "c_next6 (f c) = c_next6 c" "c_prev6 (f c) = c_prev6 c"
    "c_all_connections_next6 (f c) = c_all_connections_next6 c"
    "c_all_connections_prev6 (f c) = c_all_connections_prev6 c" and k: "c_key6 (f c) = c_key6 c"
    and "c_original_match6 (f c) = c_original_match6 c" "c_reply_match6 (f c) = c_reply_match6 c"
    unfolding c_view6_def by simp_all
  show "c_hash6 (f c) = c_hash6 c" by (rule c_hash_cong6 [OF k])
qed

lemma ft_upd_keeps6 [simp]:
  "keeps_cm6 f \<Longrightarrow> ft6 (upd_cm6 p f si) = ft6 si"
  "keeps_c6 h \<Longrightarrow> ft6 (upd_c6 p h si) = ft6 si"
  by (simp_all add: ft6_def upd_cm6_def upd_c6_def fun_eq_iff keeps_cmD6 keeps_cD6)

lemma same_shape_upd_cm6 [simp]: "keeps_cm6 f \<Longrightarrow> same_shape6 si (upd_cm6 p f si') = same_shape6 si si'"
  by (simp add: same_shape6_def) (simp add: upd_cm6_def)

lemma c_view_upd6: "keeps_c6 f \<Longrightarrow> c_view6 (connections6 (upd_c6 p f si) q) = c_view6 (connections6 si q)"
  by (simp add: upd_c6_def keeps_c6_def)

lemma same_shape_upd_c6 [simp]: "keeps_c6 f \<Longrightarrow> same_shape6 si (upd_c6 p f si') = same_shape6 si si'"
  by (simp add: same_shape6_def c_view_upd6) (simp add: upd_c6_def)

lemma ft_si6 [simp]:
  "ft6 (si\<lparr>connection_create_requests6 := n\<rparr>) = ft6 si"
  "ft6 (si\<lparr>connection_create_collisions6 := n\<rparr>) = ft6 si"
  "ft6 (si\<lparr>connection_destroy_requests6 := n\<rparr>) = ft6 si"
  "ft6 (si\<lparr>connection_destroy_misses6 := n\<rparr>) = ft6 si"
  "ft6 (si\<lparr>connection_flushes6 := n\<rparr>) = ft6 si"
  "ft6 (si\<lparr>packets_forwarded6 := n\<rparr>) = ft6 si"
  "ft6 (si\<lparr>packets_not_forwarded6 := n\<rparr>) = ft6 si"
  "ft6 (si\<lparr>exception_events6 := ev\<rparr>) = ft6 si"
  "ft6 (si\<lparr>connection_create_requests64_v6 := w\<rparr>) = ft6 si"
  "ft6 (si\<lparr>connection_create_collisions64_v6 := w\<rparr>) = ft6 si"
  "ft6 (si\<lparr>connection_destroy_requests64_v6 := w\<rparr>) = ft6 si"
  "ft6 (si\<lparr>connection_destroy_misses64_v6 := w\<rparr>) = ft6 si"
  "ft6 (si\<lparr>connection_match_hash_hits64_v6 := w\<rparr>) = ft6 si"
  "ft6 (si\<lparr>connection_match_hash_reorders64_v6 := w\<rparr>) = ft6 si"
  "ft6 (si\<lparr>connection_flushes64_v6 := w\<rparr>) = ft6 si"
  "ft6 (si\<lparr>packets_forwarded64_v6 := w\<rparr>) = ft6 si"
  "ft6 (si\<lparr>packets_not_forwarded64_v6 := w\<rparr>) = ft6 si"
  "ft6 (si\<lparr>exception_events64_v6 := ew\<rparr>) = ft6 si"
  "ft6 (si\<lparr>timer_expires6 := w\<rparr>) = ft6 si"
  "ft6 (si\<lparr>sync_rule_callback6 := cb\<rparr>) = ft6 si"
  "ft6 (si\<lparr>debug_dev6 := n\<rparr>) = ft6 si"
  "ft6 (si\<lparr>debug_read_seq6 := n\<rparr>) = ft6 si"
  by (simp_all add: ft6_def)

lemma same_shape_si6 [simp]:
  "same_shape6 si (si'\<lparr>connection_create_requests6 := n\<rparr>) = same_shape6 si si'"
  "same_shape6 si (si'\<lparr>connection_create_collisions6 := n\<rparr>) = same_shape6 si si'"
  "same_shape6 si (si'\<lparr>connection_destroy_requests6 := n\<rparr>) = same_shape6 si si'"
  "same_shape6 si (si'\<lparr>connection_destroy_misses6 := n\<rparr>) = same_shape6 si si'"
  "same_shape6 si (si'\<lparr>connection_match_hash_hits6 := n\<rparr>) = same_shape6 si si'"
  "same_shape6 si (si'\<lparr>connection_match_hash_reorders6 := n\<rparr>) = same_shape6 si si'"
  "same_shape6 si (si'\<lparr>connection_flushes6 := n\<rparr>) = same_shape6 si si'"
  "same_shape6 si (si'\<lparr>packets_forwarded6 := n\<rparr>) = same_shape6 si si'"
  "same_shape6 si (si'\<lparr>packets_not_forwarded6 := n\<rparr>) = same_shape6 si si'"
  "same_shape6 si (si'\<lparr>exception_events6 := ev\<rparr>) = same_shape6 si si'"
  "same_shape6 si (si'\<lparr>connection_create_requests64_v6 := w\<rparr>) = same_shape6 si si'"
  "same_shape6 si (si'\<lparr>connection_create_collisions64_v6 := w\<rparr>) = same_shape6 si si'"
  "same_shape6 si (si'\<lparr>connection_destroy_requests64_v6 := w\<rparr>) = same_shape6 si si'"
  "same_shape6 si (si'\<lparr>connection_destroy_misses64_v6 := w\<rparr>) = same_shape6 si si'"
  "same_shape6 si (si'\<lparr>connection_match_hash_hits64_v6 := w\<rparr>) = same_shape6 si si'"
  "same_shape6 si (si'\<lparr>connection_match_hash_reorders64_v6 := w\<rparr>) = same_shape6 si si'"
  "same_shape6 si (si'\<lparr>connection_flushes64_v6 := w\<rparr>) = same_shape6 si si'"
  "same_shape6 si (si'\<lparr>packets_forwarded64_v6 := w\<rparr>) = same_shape6 si si'"
  "same_shape6 si (si'\<lparr>packets_not_forwarded64_v6 := w\<rparr>) = same_shape6 si si'"
  "same_shape6 si (si'\<lparr>exception_events64_v6 := ew\<rparr>) = same_shape6 si si'"
  "same_shape6 si (si'\<lparr>timer_expires6 := w\<rparr>) = same_shape6 si si'"
  "same_shape6 si (si'\<lparr>sync_rule_callback6 := cb\<rparr>) = same_shape6 si si'"
  "same_shape6 si (si'\<lparr>debug_dev6 := n\<rparr>) = same_shape6 si si'"
  "same_shape6 si (si'\<lparr>debug_read_seq6 := n\<rparr>) = same_shape6 si si'"
  by (simp_all add: same_shape6_def)

lemma same_shape_update_summary_stats6 [simp]:
  "same_shape6 si (sfe_ipv6_update_summary_stats si') = same_shape6 si si'"
  unfolding sfe_ipv6_update_summary_stats_def by (simp only: same_shape_si6)

lemma same_shape_update_protocol_state6 [simp]:
  "same_shape6 si (sfe_ipv6_update_protocol_state si' c sic) = same_shape6 si si'"
  by (simp add: sfe_ipv6_update_protocol_state_def sfe_ipv6_update_tcp_state_def Let_def)

lemma same_shape_gen_sync6 [simp]:
  "same_shape6 si (snd (sfe_ipv6_gen_sync_connection si' c sis reason now)) = same_shape6 si si'"
  by (simp add: sfe_ipv6_gen_sync_connection_def Let_def)

section \<open>The invariant under flush, destroy, update and mark\<close>

lemma flush_state6:
  obtains si1 where "same_shape6 si si1"
    and "fst (sfe_ipv6_flush_connection j si c reason) =
      (let si2 = dev_put6 (c_reply_dev6 (connections6 si c)) (dev_put6 (c_original_dev6 (connections6 si c)) si1)
       in si2\<lparr>live_matches6 := live_matches6 si - {c_original_match6 (connections6 si c)} - {c_reply_match6 (connections6 si c)},
              live_connections6 := live_connections6 si - {c}\<rparr>)"
proof -
  let ?si0 = "si\<lparr>connection_flushes6 := connection_flushes6 si + 1\<rparr>"
  define si1 where "si1 = (case sync_rule_callback6 si of None \<Rightarrow> ?si0
    | Some cb \<Rightarrow> snd (sfe_ipv6_gen_sync_connection ?si0 c stack_sis reason j))"
  have s: "same_shape6 si si1" by (simp add: si1_def split: option.split)
  note k = same_shape_key6 [OF s, of c]
  have l: "live_matches6 si1 = live_matches6 si" "live_connections6 si1 = live_connections6 si"
    using s by (simp_all add: same_shape6_def)
  have e: "fst (sfe_ipv6_flush_connection j si c reason) =
      (let si = dev_put6 (c_original_dev6 (connections6 si1 c)) si1;
          si = dev_put6 (c_reply_dev6 (connections6 si c)) si;
          si = si\<lparr>live_matches6 := live_matches6 si - {c_original_match6 (connections6 si c)}\<rparr>;
          si = si\<lparr>live_matches6 := live_matches6 si - {c_reply_match6 (connections6 si c)}\<rparr>
      in si\<lparr>live_connections6 := live_connections6 si - {c}\<rparr>)"
    by (cases "sync_rule_callback6 si")
      (simp_all add: sfe_ipv6_flush_connection_def si1_def Let_def split_beta)
  show thesis
    by (rule that [OF s]) (simp add: e Let_def dev_put6_def k l)
qed

lemma flush_inv6:
  assumes i: "sfe_inv6 si g P" and c: "c \<in> set P"
  shows "sfe_inv6 (fst (sfe_ipv6_flush_connection j si c reason)) g (remove1 c P)"
proof -
  let ?si' = "fst (sfe_ipv6_flush_connection j si c reason)"
  let ?C = "set (ga g @ P)"
  obtain si1 where s: "same_shape6 si si1" and e: "?si' =
      (let si2 = dev_put6 (c_reply_dev6 (connections6 si c)) (dev_put6 (c_original_dev6 (connections6 si c)) si1)
       in si2\<lparr>live_matches6 := live_matches6 si - {c_original_match6 (connections6 si c)} - {c_reply_match6 (connections6 si c)},
              live_connections6 := live_connections6 si - {c}\<rparr>)"
    by (rule flush_state6)
  from i have m: "mem_ok6 si (ga g @ P)" by (simp add: sfe_inv6_def)
  then have d: "distinct (ga g @ P)" and po: "pairs_ok (ft6 si) ?C" by (simp_all add: mem_ok6_def)
  have f: "ft6 ?si' = ft6 si"
    using s by (simp add: e Let_def dev_put6_def same_shape6_def ft6_def)
  have C: "set (ga g @ remove1 c P) = ?C - {c}" using d c by auto
  have "c \<in> ?C" using c by simp
  note fl = ft_live_remove [OF po this]
  have "live_matches6 ?si' = ft_live (ft6 ?si') (set (ga g @ remove1 c P))"
    unfolding C f fl using m by (auto simp: e Let_def dev_put6_def mem_ok6_def)
  moreover have "live_connections6 ?si' = ?C - {c}"
    using m by (simp add: e Let_def dev_put6_def mem_ok6_def)
  moreover have "pairs_ok (ft6 si) (?C - {c})"
    using po by (auto simp: pairs_ok_def)
  moreover have "dev_refs6 ?si' dv = refs_of6 ?si' (ga g @ remove1 c P) dv" for dv
  proof -
    have "refs_of6 ?si' (ga g @ remove1 c P) dv = refs_of6 si (ga g @ remove1 c P) dv"
      using same_shape_key6(4,5) [OF s] by (simp add: refs_of6_def e Let_def dev_put6_def)
    moreover have "refs_of6 si (ga g @ P) dv = refs_of6 si (ga g @ remove1 c P) dv
        + of_bool (c_original_dev6 (connections6 si c) = dv) + of_bool (c_reply_dev6 (connections6 si c) = dv)"
      using c by (simp add: refs_of6_def sum_list_map_remove1)
    moreover have "dev_refs6 si1 dv = refs_of6 si (ga g @ P) dv"
      using m s by (simp add: mem_ok6_def same_shape6_def)
    moreover have "dev_refs6 ?si' dv = dev_refs6 si1 dv - of_bool (c_original_dev6 (connections6 si c) = dv)
        - of_bool (c_reply_dev6 (connections6 si c) = dv)"
      by (auto simp: e Let_def dev_put6_def)
    ultimately show ?thesis by linarith
  qed
  ultimately have "mem_ok6 ?si' (ga g @ remove1 c P)"
    using d C by (simp add: mem_ok6_def f fun_eq_iff) (use d in blast)
  moreover have "num_connections6 ?si' = num_connections6 si"
    using s by (simp add: e Let_def dev_put6_def same_shape6_def)
  ultimately show ?thesis using i f by (simp add: sfe_inv6_def)
qed

lemma remove_flush_inv6:
  assumes "sfe_inv6 si g P" and "c \<in> set (ga g)"
  shows "sfe_inv6 (fst (sfe_ipv6_flush_connection j (sfe_ipv6_remove_connection si c) c reason))
           (lists_remove (ft6 si) g c) P"
  using flush_inv6 [OF sfe_inv_remove6 [OF assms], of c] by simp

section \<open>The table as a map\<close>

text \<open>
  The abstract value of the engine: which connection a key has, and the part of a connection that
  the connection manager chose (translations, devices, mark).
\<close>

type_synonym rule6 = "sfe_ip_addr \<times> be16 \<times> sfe_ip_addr \<times> be16 \<times> dev_ptr \<times> dev_ptr \<times> u32"

definition sfe_lookup6 :: "sfe_ipv6 \<Rightarrow> conn_key6 \<Rightarrow> ptr option" where
  "sfe_lookup6 si = (\<lambda>(protocol, src_ip, src_port, dest_ip, dest_port).
     case sfe_ipv6_find_connection si protocol src_ip src_port dest_ip dest_port of
       None \<Rightarrow> None | Some r \<Rightarrow> r)"

definition c_rule6 :: "sfe_ipv6_connection \<Rightarrow> rule6" where
  "c_rule6 c = (c_src_ip_xlate6 c, c_src_port_xlate6 c, c_dest_ip_xlate6 c, c_dest_port_xlate6 c,
     c_original_dev6 c, c_reply_dev6 c, c_mark6 c)"

definition sfe_rules6 :: "sfe_ipv6 \<Rightarrow> conn_key6 \<Rightarrow> rule6 option" where
  "sfe_rules6 si key = map_option (\<lambda>c. c_rule6 (connections6 si c)) (sfe_lookup6 si key)"

lemma find_connection_inv6:
  assumes "sfe_inv6 si g P"
  obtains r where "sfe_ipv6_find_connection si protocol src_ip src_port dest_ip dest_port = Some r"
    and "\<And>c. r = Some c \<longleftrightarrow> c \<in> set (ga g)
             \<and> c_key6 (connections6 si c) = (protocol, src_ip, src_port, dest_ip, dest_port)"
proof -
  from assms have "ft_inv (ft6 si) g" by (simp add: sfe_inv6_def)
  from find_connection_spec6 [OF this, of protocol src_ip src_port dest_ip dest_port]
  show thesis by (elim exE conjE) (rule that, assumption, erule spec)
qed

lemma find_connection_lookup6:
  assumes "sfe_inv6 si g P"
  shows "sfe_ipv6_find_connection si protocol src_ip src_port dest_ip dest_port
    = Some (sfe_lookup6 si (protocol, src_ip, src_port, dest_ip, dest_port))"
  by (rule find_connection_inv6 [OF assms, of protocol src_ip src_port dest_ip dest_port]) (simp add: sfe_lookup6_def)

lemma lookup_iff6:
  assumes "sfe_inv6 si g P"
  shows "sfe_lookup6 si key = Some c \<longleftrightarrow> c \<in> set (ga g) \<and> c_key6 (connections6 si c) = key"
proof -
  obtain protocol src_ip src_port dest_ip dest_port where k: "key = (protocol, src_ip, src_port, dest_ip, dest_port)"
    by (cases key)
  obtain r where f: "sfe_ipv6_find_connection si protocol src_ip src_port dest_ip dest_port = Some r"
    and r: "\<And>c. r = Some c \<longleftrightarrow> c \<in> set (ga g)
             \<and> c_key6 (connections6 si c) = (protocol, src_ip, src_port, dest_ip, dest_port)"
    by (rule find_connection_inv6 [OF assms, of protocol src_ip src_port dest_ip dest_port]) blast
  have "sfe_lookup6 si key = r" by (simp add: sfe_lookup6_def k f)
  then show ?thesis by (simp only: r k)
qed

lemma lookup_None6:
  assumes "sfe_inv6 si g P"
  shows "sfe_lookup6 si key = None \<longleftrightarrow> (\<forall>c \<in> set (ga g). c_key6 (connections6 si c) \<noteq> key)"
  using lookup_iff6 [OF assms] by (metis not_Some_eq)

lemma lookup_eqI6:
  assumes i: "sfe_inv6 si g P" and i': "sfe_inv6 si' g' P'"
    and e: "\<And>c. (c \<in> set (ga g') \<and> c_key6 (connections6 si' c) = key) \<longleftrightarrow> (c \<in> set (ga g) \<and> c_key6 (connections6 si c) = key)"
  shows "sfe_lookup6 si' key = sfe_lookup6 si key"
proof (cases "sfe_lookup6 si key")
  case None
  then have "\<forall>c \<in> set (ga g). c_key6 (connections6 si c) \<noteq> key" by (simp only: lookup_None6 [OF i])
  then have "\<forall>c \<in> set (ga g'). c_key6 (connections6 si' c) \<noteq> key" using e by blast
  then have "sfe_lookup6 si' key = None" by (simp only: lookup_None6 [OF i'])
  with None show ?thesis by simp
next
  case (Some c)
  then have "c \<in> set (ga g) \<and> c_key6 (connections6 si c) = key" by (simp only: lookup_iff6 [OF i])
  then have "c \<in> set (ga g') \<and> c_key6 (connections6 si' c) = key" using e by blast
  then have "sfe_lookup6 si' key = Some c" by (simp only: lookup_iff6 [OF i'])
  with Some show ?thesis by simp
qed

lemma lookup_same_shape6:
  assumes "sfe_inv6 si g P" and s: "same_shape6 si si'"
  shows "sfe_lookup6 si' = sfe_lookup6 si"
proof
  show "sfe_lookup6 si' key = sfe_lookup6 si key" for key
    by (rule lookup_eqI6 [OF assms(1) sfe_inv_same_shape6 [OF s assms(1)]]) (simp only: same_shape_key6 [OF s])
qed

text \<open>States whose connections still carry the same rules.\<close>

definition same_rules6 :: "sfe_ipv6 \<Rightarrow> sfe_ipv6 \<Rightarrow> bool" where
  "same_rules6 si si' \<longleftrightarrow> (\<forall>p. c_key6 (connections6 si' p) = c_key6 (connections6 si p)
     \<and> c_rule6 (connections6 si' p) = c_rule6 (connections6 si p))"

lemma same_rules_data6:
  assumes "same_data6 si si'" shows "same_rules6 si si'"
proof -
  have "c_key6 (connections6 si' p) = c_key6 (connections6 si p) \<and> c_rule6 (connections6 si' p) = c_rule6 (connections6 si p)" for p
  proof -
    have "c_data6 (connections6 si' p) = c_data6 (connections6 si p)" using assms by (simp add: same_data6_def)
    then show ?thesis
      by (cases "connections6 si' p", cases "connections6 si p") (simp add: c_data6_def c_key6_def c_rule6_def)
  qed
  then show ?thesis by (simp add: same_rules6_def)
qed

lemma gen_sync_rules6:
  "same_rules6 si (snd (sfe_ipv6_gen_sync_connection si c sis reason now))"
  by (simp add: same_rules6_def sfe_ipv6_gen_sync_connection_def Let_def upd_c6_def upd_cm6_def
      c_key6_def c_rule6_def)

lemma flush_rules6: "same_rules6 si (fst (sfe_ipv6_flush_connection j si c reason))"
proof -
  let ?si0 = "si\<lparr>connection_flushes6 := connection_flushes6 si + 1\<rparr>"
  show ?thesis
    using gen_sync_rules6 [of ?si0 c stack_sis reason j]
    by (cases "sync_rule_callback6 si")
      (simp_all add: sfe_ipv6_flush_connection_def same_rules6_def Let_def split_beta dev_put6_def)
qed

lemma same_rules_trans6: "same_rules6 a b \<Longrightarrow> same_rules6 b c \<Longrightarrow> same_rules6 a c"
  by (simp add: same_rules6_def)

lemma remove_flush_rules6:
  "same_rules6 si (fst (sfe_ipv6_flush_connection j (sfe_ipv6_remove_connection si c) c reason))"
  by (rule same_rules_trans6 [OF same_rules_data6 [OF same_data_remove_connection6] flush_rules6])

lemma lookup_remove6:
  fixes j reason
  assumes i: "sfe_inv6 si g P" and c: "c \<in> set (ga g)"
  defines "si' \<equiv> fst (sfe_ipv6_flush_connection j (sfe_ipv6_remove_connection si c) c reason)"
  shows "sfe_lookup6 si' = (sfe_lookup6 si)(c_key6 (connections6 si c) := None)"
proof
  fix key
  note i' = remove_flush_inv6 [OF i c, of j reason, folded si'_def]
  have k: "c_key6 (connections6 si' p) = c_key6 (connections6 si p)" for p
    using remove_flush_rules6 [of si j c reason] by (simp add: same_rules6_def si'_def)
  have d: "distinct (ga g)" using i by (simp add: sfe_inv6_def mem_ok6_def)
  have ga: "ga (lists_remove (ft6 si) g c) = remove1 c (ga g)" by (simp add: lists_remove_def)
  have inj: "inj_on (\<lambda>p. c_key6 (connections6 si p)) (set (ga g))"
    using i by (simp add: sfe_inv6_def ft_inv_def conns_ok_def)
  show "sfe_lookup6 si' key = ((sfe_lookup6 si)(c_key6 (connections6 si c) := None)) key"
  proof (cases "key = c_key6 (connections6 si c)")
    case True
    then have "\<forall>x \<in> set (ga (lists_remove (ft6 si) g c)). c_key6 (connections6 si' x) \<noteq> key"
      using inj c d by (auto simp: ga k inj_on_def)
    then have "sfe_lookup6 si' key = None" by (simp only: lookup_None6 [OF i'])
    with True show ?thesis by simp
  next
    case False
    then have "sfe_lookup6 si' key = sfe_lookup6 si key"
      using d by (intro lookup_eqI6 [OF i i']) (auto simp: ga k)
    with False show ?thesis by simp
  qed
qed

section \<open>The operations\<close>

lemma rules_same_shape6:
  assumes "sfe_inv6 si g P" and "same_shape6 si si'" and "same_rules6 si si'"
  shows "sfe_rules6 si' = sfe_rules6 si"
  using lookup_same_shape6 [OF assms(1,2)] assms(3)
  by (auto simp: sfe_rules6_def fun_eq_iff same_rules6_def intro!: option.map_cong)

lemma same_rules_refl6 [simp]: "same_rules6 si si"
  by (simp add: same_rules6_def)

lemma same_rules_upd6 [simp]:
  "same_rules6 si (upd_cm6 p f si') = same_rules6 si si'"
  "same_rules6 si (si'\<lparr>connection_create_requests6 := n\<rparr>) = same_rules6 si si'"
  "same_rules6 si (si'\<lparr>connection_create_collisions6 := n\<rparr>) = same_rules6 si si'"
  "same_rules6 si (si'\<lparr>connection_destroy_requests6 := n\<rparr>) = same_rules6 si si'"
  "same_rules6 si (si'\<lparr>connection_destroy_misses6 := n\<rparr>) = same_rules6 si si'"
  by (simp_all add: same_rules6_def upd_cm6_def)

lemma update_protocol_state_rules6 [simp]:
  "same_rules6 si (sfe_ipv6_update_protocol_state si' c sic) = same_rules6 si si'"
  by (simp add: sfe_ipv6_update_protocol_state_def sfe_ipv6_update_tcp_state_def Let_def)

definition sic_key6 :: "sfe_connection_create \<Rightarrow> conn_key6" where
  "sic_key6 sic = (sic_protocol sic, sic_src_ip sic, sic_src_port sic, sic_dest_ip sic, sic_dest_port sic)"

definition sid_key6 :: "sfe_connection_destroy \<Rightarrow> conn_key6" where
  "sid_key6 sid = (sid_protocol sid, sid_src_ip sid, sid_src_port sid, sid_dest_ip sid, sid_dest_port sid)"

definition mk_key6 :: "sfe_connection_mark \<Rightarrow> conn_key6" where
  "mk_key6 mk = (mk_protocol mk, mk_src_ip mk, mk_src_port mk, mk_dest_ip mk, mk_dest_port mk)"

lemma update_rule_result6:
  assumes "sfe_inv6 si g P"
  shows "sfe_ipv6_update_rule si sic = Some (case sfe_lookup6 si (sic_key6 sic) of
     None \<Rightarrow> si | Some c \<Rightarrow> sfe_ipv6_update_protocol_state si c sic)"
  unfolding sfe_ipv6_update_rule_def find_connection_lookup6 [OF assms] sic_key6_def
  by (simp split: option.split)

lemma update_rule_inv6:
  assumes "sfe_inv6 si g P" and "sfe_ipv6_update_rule si sic = Some si'"
  shows "sfe_inv6 si' g P" and "sfe_rules6 si' = sfe_rules6 si"
proof -
  have s: "same_shape6 si si'" "same_rules6 si si'"
    using assms(2) unfolding update_rule_result6 [OF assms(1)] by (auto split: option.splits)
  show "sfe_inv6 si' g P" by (rule sfe_inv_same_shape6 [OF s(1) assms(1)])
  show "sfe_rules6 si' = sfe_rules6 si" by (rule rules_same_shape6 [OF assms(1) s])
qed

lemma mark_rule_result6:
  assumes "sfe_inv6 si g P"
  shows "sfe_ipv6_mark_rule si mk = Some (case sfe_lookup6 si (mk_key6 mk) of
     None \<Rightarrow> si | Some c \<Rightarrow> upd_c6 c (\<lambda>c. c\<lparr>c_mark6 := mk_mark mk\<rparr>) si)"
  unfolding sfe_ipv6_mark_rule_def find_connection_lookup6 [OF assms] mk_key6_def
  by (simp split: option.split)

lemma mark_rule_inv6:
  assumes "sfe_inv6 si g P" and "sfe_ipv6_mark_rule si mk = Some si'"
  shows "sfe_inv6 si' g P"
proof -
  have "same_shape6 si si'"
    using assms(2) unfolding mark_rule_result6 [OF assms(1)] by (auto split: option.splits)
  from sfe_inv_same_shape6 [OF this assms(1)] show ?thesis .
qed

definition set_mark6 :: "u32 \<Rightarrow> rule6 \<Rightarrow> rule6" where
  "set_mark6 m = (\<lambda>(a, b, c, d, e, f, _). (a, b, c, d, e, f, m))"

lemma mark_rule_rules6:
  assumes i: "sfe_inv6 si g P" and m: "sfe_ipv6_mark_rule si mk = Some si'"
  shows "sfe_rules6 si' = (sfe_rules6 si)(mk_key6 mk := map_option (set_mark6 (mk_mark mk)) (sfe_rules6 si (mk_key6 mk)))"
proof (cases "sfe_lookup6 si (mk_key6 mk)")
  case None
  with m show ?thesis
    unfolding mark_rule_result6 [OF i] by (auto simp: sfe_rules6_def fun_eq_iff)
next
  case (Some c)
  then have e: "si' = upd_c6 c (\<lambda>c. c\<lparr>c_mark6 := mk_mark mk\<rparr>) si"
    using m unfolding mark_rule_result6 [OF i] by simp
  have l: "sfe_lookup6 si' = sfe_lookup6 si"
    unfolding e by (rule lookup_same_shape6 [OF i]) simp
  have u: "c_rule6 (connections6 si' x) = (if x = c then set_mark6 (mk_mark mk) (c_rule6 (connections6 si c)) else c_rule6 (connections6 si x))" for x
    by (simp add: e upd_c6_def c_rule6_def set_mark6_def)
  have k: "key = mk_key6 mk" if "sfe_lookup6 si key = Some c" for key
    using that Some unfolding lookup_iff6 [OF i] by simp
  show ?thesis
  proof
    fix key
    show "sfe_rules6 si' key = ((sfe_rules6 si)(mk_key6 mk := map_option (set_mark6 (mk_mark mk)) (sfe_rules6 si (mk_key6 mk)))) key"
      using Some k [of key] by (cases "sfe_lookup6 si key") (auto simp: sfe_rules6_def l u)
  qed
qed

lemma destroy_rule_result6:
  assumes i: "sfe_inv6 si g P"
  defines "si1 \<equiv> si\<lparr>connection_destroy_requests6 := connection_destroy_requests6 si + 1\<rparr>"
  shows "sfe_ipv6_destroy_rule j si sid = Some (case sfe_lookup6 si (sid_key6 sid) of
     None \<Rightarrow> (si1\<lparr>connection_destroy_misses6 := connection_destroy_misses6 si + 1\<rparr>, [])
   | Some c \<Rightarrow> sfe_ipv6_flush_connection j (sfe_ipv6_remove_connection si1 c) c SFE_SYNC_REASON_DESTROY)"
proof -
  have s: "same_shape6 si si1" by (simp add: si1_def)
  have l: "sfe_ipv6_find_connection si1 (sid_protocol sid) (sid_src_ip sid) (sid_src_port sid)
      (sid_dest_ip sid) (sid_dest_port sid) = Some (sfe_lookup6 si (sid_key6 sid))"
    unfolding find_connection_lookup6 [OF sfe_inv_same_shape6 [OF s i]] sid_key6_def lookup_same_shape6 [OF i s] ..
  show ?thesis
    unfolding sfe_ipv6_destroy_rule_def Let_def si1_def [symmetric] l
    by (simp add: si1_def split: option.split)
qed

lemma destroy_rule_inv6:
  assumes i: "sfe_inv6 si g P" and d: "sfe_ipv6_destroy_rule j si sid = Some (si', out)"
  shows "\<exists>g'. sfe_inv6 si' g' P \<and> set (ga g') = {c \<in> set (ga g). c_key6 (connections6 si c) \<noteq> sid_key6 sid}"
    and "sfe_rules6 si' = (sfe_rules6 si)(sid_key6 sid := None)"
proof -
  define si1 where "si1 = si\<lparr>connection_destroy_requests6 := connection_destroy_requests6 si + 1\<rparr>"
  have s: "same_shape6 si si1" by (simp add: si1_def)
  have r1: "same_rules6 si si1" by (simp add: si1_def same_rules6_def)
  note i1 = sfe_inv_same_shape6 [OF s i]
  have "(\<exists>g'. sfe_inv6 si' g' P \<and> set (ga g') = {c \<in> set (ga g). c_key6 (connections6 si c) \<noteq> sid_key6 sid})
      \<and> sfe_rules6 si' = (sfe_rules6 si)(sid_key6 sid := None)"
  proof (cases "sfe_lookup6 si (sid_key6 sid)")
    case None
    then have e: "si' = si1\<lparr>connection_destroy_misses6 := connection_destroy_misses6 si + 1\<rparr>"
      using d unfolding destroy_rule_result6 [OF i] by (simp add: si1_def)
    have s2: "same_shape6 si si'" and r2: "same_rules6 si si'" by (simp_all add: e si1_def same_rules6_def)
    have "sfe_rules6 si' = sfe_rules6 si" by (rule rules_same_shape6 [OF i s2 r2])
    moreover have "sfe_rules6 si (sid_key6 sid) = None" using None by (simp add: sfe_rules6_def)
    moreover have "set (ga g) = {c \<in> set (ga g). c_key6 (connections6 si c) \<noteq> sid_key6 sid}"
      using None unfolding lookup_None6 [OF i] by auto
    ultimately show ?thesis using sfe_inv_same_shape6 [OF s2 i] by (auto simp: fun_eq_iff)
  next
    case (Some c)
    then have e: "si' = fst (sfe_ipv6_flush_connection j (sfe_ipv6_remove_connection si1 c) c SFE_SYNC_REASON_DESTROY)"
      using d unfolding destroy_rule_result6 [OF i] by (simp add: si1_def)
    from Some have c: "c \<in> set (ga g)" and k: "c_key6 (connections6 si c) = sid_key6 sid"
      by (simp_all only: lookup_iff6 [OF i])
    have k1: "c_key6 (connections6 si1 c) = sid_key6 sid" using k by (simp add: si1_def)
    have l: "sfe_lookup6 si' = (sfe_lookup6 si)(sid_key6 sid := None)"
      unfolding e lookup_remove6 [OF i1 c] k1 lookup_same_shape6 [OF i s] ..
    have "same_rules6 si si'"
      unfolding e by (rule same_rules_trans6 [OF r1 remove_flush_rules6])
    then have "sfe_rules6 si' = (sfe_rules6 si)(sid_key6 sid := None)"
      unfolding sfe_rules6_def l by (auto simp: fun_eq_iff same_rules6_def intro!: option.map_cong)
    moreover have "sfe_inv6 si' (lists_remove (ft6 si1) g c) P"
      unfolding e by (rule remove_flush_inv6 [OF i1 c])
    moreover have "set (ga (lists_remove (ft6 si1) g c)) = {x \<in> set (ga g). c_key6 (connections6 si x) \<noteq> sid_key6 sid}"
    proof -
      have "distinct (ga g)" using i by (simp add: sfe_inv6_def mem_ok6_def)
      moreover have "inj_on (\<lambda>p. c_key6 (connections6 si p)) (set (ga g))"
        using i by (simp add: sfe_inv6_def ft_inv_def conns_ok_def)
      ultimately show ?thesis using c k by (auto simp: lists_remove_def inj_on_def)
    qed
    ultimately show ?thesis by blast
  qed
  then show "\<exists>g'. sfe_inv6 si' g' P \<and> set (ga g') = {c \<in> set (ga g). c_key6 (connections6 si c) \<noteq> sid_key6 sid}"
    and "sfe_rules6 si' = (sfe_rules6 si)(sid_key6 sid := None)" by blast+
qed

section \<open>Destroying all rules of a device\<close>

definition sis_key6 :: "sfe_connection_sync \<Rightarrow> conn_key6" where
  "sis_key6 sis = (sis_protocol sis, sis_src_ip sis, sis_src_port sis, sis_dest_ip sis, sis_dest_port sis)"

definition rule_uses6 :: "dev_ptr \<Rightarrow> rule6 \<Rightarrow> bool" where
  "rule_uses6 dev = (\<lambda>(_, _, _, _, d, d', _). dev = 0 \<or> dev = d \<or> dev = d')"

lemma uses_dev_rule6: "uses_dev6 c dev \<longleftrightarrow> rule_uses6 dev (c_rule6 c)"
  by (simp add: uses_dev6_def rule_uses6_def c_rule6_def)

lemma gen_sync_key6:
  "sis_key6 (fst (sfe_ipv6_gen_sync_connection si c sis reason now)) = c_key6 (connections6 si c)"
  "sis_reason (fst (sfe_ipv6_gen_sync_connection si c sis reason now)) = reason"
  by (simp_all add: sis_key6_def c_key6_def sfe_ipv6_gen_sync_connection_def Let_def)

lemma flush_syncs6:
  "map (\<lambda>(cb, sis). (cb, sis_key6 sis, sis_reason sis)) (snd (sfe_ipv6_flush_connection j si c reason))
    = (case sync_rule_callback6 si of None \<Rightarrow> [] | Some cb \<Rightarrow> [(cb, c_key6 (connections6 si c), reason)])"
  by (simp add: sfe_ipv6_flush_connection_def Let_def split_beta gen_sync_key6 split: option.split)

lemma gen_sync_callback6 [simp]:
  "sync_rule_callback6 (snd (sfe_ipv6_gen_sync_connection si c sis reason now)) = sync_rule_callback6 si"
  by (simp add: sfe_ipv6_gen_sync_connection_def Let_def upd_c6_def upd_cm6_def)

lemma flush_callback6 [simp]:
  "sync_rule_callback6 (fst (sfe_ipv6_flush_connection j si c reason)) = sync_rule_callback6 si"
  by (simp add: sfe_ipv6_flush_connection_def Let_def split_beta dev_put6_def split: option.split)

lemma remove_callback6 [simp]:
  "sync_rule_callback6 (sfe_ipv6_remove_connection si c) = sync_rule_callback6 si"
  using same_data_remove_connection6 [of si c] by (simp add: same_data6_def)

lemma filter_remove1_not6: "\<not> Q x \<Longrightarrow> filter Q (remove1 x xs) = filter Q xs"
  by (induction xs) auto

lemma find_Some_sat6: "find Q xs = Some x \<Longrightarrow> Q x"
  by (auto simp: find_Some_iff)

lemma filter_remove1_find6:
  "find Q xs = Some x \<Longrightarrow> filter Q xs = x # filter Q (remove1 x xs)"
  by (induction xs) (auto split: if_splits dest: find_Some_sat6)

text \<open>What the sync messages say, for a list of destroyed connections.\<close>

definition syncs_of6 :: "ptr option \<Rightarrow> sfe_sync_reason \<Rightarrow> conn_key6 list \<Rightarrow> (ptr \<times> conn_key6 \<times> sfe_sync_reason) list" where
  "syncs_of6 cb reason ks = (case cb of None \<Rightarrow> [] | Some f \<Rightarrow> map (\<lambda>k. (f, k, reason)) ks)"

lemma destroy_all_find6:
  assumes "sfe_inv6 si g P"
  shows "chain_find (\<lambda>p. c_all_connections_next6 (connections6 si p)) Q (all_connections_head6 si) = Some (find Q (ga g))"
  by (rule chain_find_dlist [of _ "apv (ft6 si)"])
    (use assms in \<open>simp add: sfe_inv6_def ft_inv_def conns_ok_def dqueue_def\<close>)

lemma destroy_all_spec6:
  assumes "sfe_inv6 si g P"
  shows "\<exists>si' out g'. sfe_ipv6_destroy_all_rules_for_dev j dev si = Some (si', out) \<and> sfe_inv6 si' g' P
    \<and> ga g' = filter (\<lambda>c. \<not> uses_dev6 (connections6 si c) dev) (ga g) \<and> same_rules6 si si'
    \<and> sync_rule_callback6 si' = sync_rule_callback6 si
    \<and> map (\<lambda>(cb, sis). (cb, sis_key6 sis, sis_reason sis)) out
        = syncs_of6 (sync_rule_callback6 si) SFE_SYNC_REASON_DESTROY
            (map (\<lambda>c. c_key6 (connections6 si c)) (filter (\<lambda>c. uses_dev6 (connections6 si c) dev) (ga g)))"
  using assms
proof (induction "length (ga g)" arbitrary: si g rule: less_induct)
  case less
  let ?U = "\<lambda>c. uses_dev6 (connections6 si c) dev"
  note simps = sfe_ipv6_destroy_all_rules_for_dev.simps [of j dev si]
  note find = destroy_all_find6 [OF less.prems, of ?U]
  show ?case
  proof (cases "find ?U (ga g)")
    case None
    then have no: "\<forall>c \<in> set (ga g). \<not> ?U c" by (auto simp: find_None_iff)
    have "sfe_ipv6_destroy_all_rules_for_dev j dev si = Some (si, [])"
      using simps by (simp add: find None)
    moreover have "filter (\<lambda>c. \<not> ?U c) (ga g) = ga g" "filter ?U (ga g) = []"
      using no by (simp_all add: filter_id_conv filter_empty_conv)
    ultimately show ?thesis
      using less.prems by (intro exI [of _ si] exI [of _ "[]"] exI [of _ g]) (simp add: syncs_of6_def split: option.split)
  next
    case (Some c)
    then have c: "c \<in> set (ga g)" and Uc: "?U c" by (auto simp: find_Some_iff)
    let ?rm = "sfe_ipv6_remove_connection si c"
    let ?fl = "sfe_ipv6_flush_connection j ?rm c SFE_SYNC_REASON_DESTROY"
    let ?g = "lists_remove (ft6 si) g c"
    have ga: "ga ?g = remove1 c (ga g)" by (simp add: lists_remove_def)
    have d: "distinct (ga g)" using less.prems by (simp add: sfe_inv6_def mem_ok6_def)
    have r: "same_rules6 si (fst ?fl)" by (rule remove_flush_rules6)
    then have U: "uses_dev6 (connections6 (fst ?fl) x) dev \<longleftrightarrow> ?U x" for x
      by (simp add: uses_dev_rule6 same_rules6_def)
    have rm: "c_key6 (connections6 ?rm c) = c_key6 (connections6 si c)"
      using same_rules_data6 [OF same_data_remove_connection6 [of si c]] by (simp add: same_rules6_def)
    have "length (ga ?g) < length (ga g)"
      using c by (simp add: ga length_remove1) (use length_pos_if_in_set in fastforce)
    from less.hyps [OF this remove_flush_inv6 [OF less.prems c, of j SFE_SYNC_REASON_DESTROY]]
    obtain si' out g' where IH: "sfe_ipv6_destroy_all_rules_for_dev j dev (fst ?fl) = Some (si', out)"
      "sfe_inv6 si' g' P" "ga g' = filter (\<lambda>x. \<not> ?U x) (ga ?g)" "same_rules6 (fst ?fl) si'"
      "sync_rule_callback6 si' = sync_rule_callback6 si"
      "map (\<lambda>(cb, sis). (cb, sis_key6 sis, sis_reason sis)) out
        = syncs_of6 (sync_rule_callback6 si) SFE_SYNC_REASON_DESTROY
            (map (\<lambda>x. c_key6 (connections6 (fst ?fl) x)) (filter ?U (ga ?g)))"
      unfolding U flush_callback6 remove_callback6 by (elim exE conjE) (rule that)
    have e: "sfe_ipv6_destroy_all_rules_for_dev j dev si = Some (si', snd ?fl @ out)"
      using simps IH(1) by (simp add: find Some split_beta)
    have g': "ga g' = filter (\<lambda>c. \<not> ?U c) (ga g)"
      using Uc by (simp add: IH(3) ga filter_remove1_not6)
    have "map (\<lambda>(cb, sis). (cb, sis_key6 sis, sis_reason sis)) (snd ?fl @ out)
        = syncs_of6 (sync_rule_callback6 si) SFE_SYNC_REASON_DESTROY
            (map (\<lambda>c. c_key6 (connections6 si c)) (filter ?U (ga g)))"
      unfolding filter_remove1_find6 [OF Some] map_append IH(6) flush_syncs6 ga
      using r by (simp add: rm syncs_of6_def same_rules6_def split: option.split)
    with e g' IH(2,5) same_rules_trans6 [OF r IH(4)] show ?thesis
      by (intro exI [of _ si'] exI [of _ "snd ?fl @ out"] exI [of _ g']) simp
  qed
qed

lemma destroy_all_rules6:
  assumes i: "sfe_inv6 si g P" and i': "sfe_inv6 si' g' P'"
    and g: "ga g' = filter (\<lambda>c. \<not> uses_dev6 (connections6 si c) dev) (ga g)" and r: "same_rules6 si si'"
  shows "sfe_rules6 si' = (\<lambda>key. case sfe_rules6 si key of None \<Rightarrow> None | Some r \<Rightarrow> if rule_uses6 dev r then None else Some r)"
proof
  fix key
  show "sfe_rules6 si' key = (case sfe_rules6 si key of None \<Rightarrow> None | Some r \<Rightarrow> if rule_uses6 dev r then None else Some r)"
  proof (cases "sfe_lookup6 si key")
    case None
    then have "\<forall>c \<in> set (ga g'). c_key6 (connections6 si' c) \<noteq> key"
      using r unfolding lookup_None6 [OF i] by (auto simp: g same_rules6_def)
    then have "sfe_lookup6 si' key = None" by (simp only: lookup_None6 [OF i'])
    with None show ?thesis by (simp add: sfe_rules6_def)
  next
    case (Some c)
    then have c: "c \<in> set (ga g)" "c_key6 (connections6 si c) = key" by (simp_all only: lookup_iff6 [OF i])
    have cr: "c_rule6 (connections6 si' c) = c_rule6 (connections6 si c)" using r by (simp add: same_rules6_def)
    show ?thesis
    proof (cases "uses_dev6 (connections6 si c) dev")
      case True
      have "inj_on (\<lambda>p. c_key6 (connections6 si p)) (set (ga g))"
        using i by (simp add: sfe_inv6_def ft_inv_def conns_ok_def)
      then have "\<forall>x \<in> set (ga g'). c_key6 (connections6 si' x) \<noteq> key"
        using r True c by (auto simp: g same_rules6_def inj_on_def)
      then have "sfe_lookup6 si' key = None" by (simp only: lookup_None6 [OF i'])
      with Some True show ?thesis by (simp add: sfe_rules6_def uses_dev_rule6)
    next
      case False
      then have "sfe_lookup6 si' key = Some c"
        using r c by (simp add: lookup_iff6 [OF i'] g same_rules6_def)
      with Some False cr show ?thesis by (simp add: sfe_rules6_def uses_dev_rule6)
    qed
  qed
qed

section \<open>Creating a rule\<close>

text \<open>The two matches as \<open>build_rule6\<close> leaves them, apart from their links.\<close>

definition xlate_dest6 :: "sfe_connection_create \<Rightarrow> bool" where
  "xlate_dest6 sic \<longleftrightarrow> sic_dest_ip sic \<noteq> sic_dest_ip_xlate sic \<or> sic_dest_port sic \<noteq> sic_dest_port_xlate sic"

definition xlate_src6 :: "sfe_connection_create \<Rightarrow> bool" where
  "xlate_src6 sic \<longleftrightarrow> sic_src_ip sic \<noteq> sic_src_ip_xlate sic \<or> sic_src_port sic \<noteq> sic_src_port_xlate sic"

definition doif6 :: "bool \<Rightarrow> ('a \<Rightarrow> 'a) \<Rightarrow> 'a \<Rightarrow> 'a" where
  "doif6 b f x = (if b then f x else x)"

definition xlate_flags6 :: "bool \<Rightarrow> bool \<Rightarrow> sfe_ipv6_connection_match \<Rightarrow> sfe_ipv6_connection_match" where
  "xlate_flags6 dest src m = doif6 src (cm_set_flag6 SFE_IPV6_CONNECTION_MATCH_FLAG_XLATE_SRC)
     (doif6 dest (cm_set_flag6 SFE_IPV6_CONNECTION_MATCH_FLAG_XLATE_DEST) m)"

definition xlate_flags6' :: "bool \<Rightarrow> bool \<Rightarrow> sfe_ipv6_connection_match \<Rightarrow> sfe_ipv6_connection_match" where
  "xlate_flags6' dest src m = doif6 dest (cm_set_flag6 SFE_IPV6_CONNECTION_MATCH_FLAG_XLATE_DEST)
     (doif6 src (cm_set_flag6 SFE_IPV6_CONNECTION_MATCH_FLAG_XLATE_SRC) m)"

definition tcp_init6 :: "sfe_connection_create \<Rightarrow> sfe_ipv6_tcp_connection_match \<Rightarrow>
    sfe_ipv6_connection_match \<Rightarrow> sfe_ipv6_connection_match" where
  "tcp_init6 sic tcp m = doif6 (sic_protocol sic = ucast IPPROTO_TCP)
     (\<lambda>m. doif6 (has_flag (sic_flags sic) SFE_CREATE_FLAG_NO_SEQ_CHECK)
            (cm_set_flag6 SFE_IPV6_CONNECTION_MATCH_FLAG_NO_SEQ_CHECK) (m\<lparr>cm_tcp6 := tcp\<rparr>)) m"

definition sic_src_tcp6 :: "sfe_connection_create \<Rightarrow> sfe_ipv6_tcp_connection_match" where
  "sic_src_tcp6 sic = tcp_state_init6 (sic_src_td_window_scale sic) (sic_src_td_max_window sic)
     (sic_src_td_end sic) (sic_src_td_max_end sic)"

definition sic_dest_tcp6 :: "sfe_connection_create \<Rightarrow> sfe_ipv6_tcp_connection_match" where
  "sic_dest_tcp6 sic = tcp_state_init6 (sic_dest_td_window_scale sic) (sic_dest_td_max_window sic)
     (sic_dest_td_end sic) (sic_dest_td_max_end sic)"

definition new_original6 :: "(dev_ptr \<Rightarrow> net_device) \<Rightarrow> sfe_connection_create \<Rightarrow> ptr \<Rightarrow> ptr \<Rightarrow>
    sfe_ipv6_connection_match \<Rightarrow> sfe_ipv6_connection_match" where
  "new_original6 devs sic c r m = sfe_ipv6_connection_match_compute_translations
     (tcp_init6 sic (sic_src_tcp6 sic) (xlate_flags6 (xlate_dest6 sic) (xlate_src6 sic) (fill_original_cm6 devs sic c r m)))"

definition new_reply6 :: "(dev_ptr \<Rightarrow> net_device) \<Rightarrow> sfe_connection_create \<Rightarrow> ptr \<Rightarrow> ptr \<Rightarrow>
    sfe_ipv6_connection_match \<Rightarrow> sfe_ipv6_connection_match" where
  "new_reply6 devs sic c oc m = sfe_ipv6_connection_match_compute_translations
     (tcp_init6 sic (sic_dest_tcp6 sic) (xlate_flags6' (xlate_src6 sic) (xlate_dest6 sic) (fill_reply_cm6 devs sic c oc m)))"

definition built6 :: "(dev_ptr \<Rightarrow> net_device) \<Rightarrow> u64 \<Rightarrow> sfe_connection_create \<Rightarrow> ptr \<Rightarrow> ptr \<Rightarrow> ptr \<Rightarrow> sfe_ipv6 \<Rightarrow> sfe_ipv6" where
  "built6 devs jiffies sic c oc r si = dev_hold6 (sic_dest_dev sic) (dev_hold6 (sic_src_dev sic)
     (si\<lparr>matches6 := (matches6 si)(oc := new_original6 devs sic c r (matches6 si oc), r := new_reply6 devs sic c oc (matches6 si r)),
         connections6 := (connections6 si)(c := fill_connection6 jiffies sic oc r (connections6 si c))\<rparr>))"

lemma upd_cm_id6: "upd_cm6 p (\<lambda>m. m) si = si"
  by (simp add: upd_cm6_def)

lemma upd_cm_comp6: "upd_cm6 p f (upd_cm6 p h si) = upd_cm6 p (\<lambda>m. f (h m)) si"
  by (simp add: upd_cm6_def)

lemma upd_cm_swap6: "p \<noteq> q \<Longrightarrow> upd_cm6 p f (upd_cm6 q h si) = upd_cm6 q h (upd_cm6 p f si)"
  by (simp add: upd_cm6_def fun_upd_twist)

lemma set_xlate_flags_eq6:
  assumes "oc \<noteq> r"
  shows "set_xlate_flags6 sic oc r si =
    upd_cm6 r (xlate_flags6' (xlate_src6 sic) (xlate_dest6 sic)) (upd_cm6 oc (xlate_flags6 (xlate_dest6 sic) (xlate_src6 sic)) si)"
  unfolding set_xlate_flags6_def addr_equal_eq xlate_dest6_def [symmetric] xlate_src6_def [symmetric]
  by (cases "xlate_dest6 sic"; cases "xlate_src6 sic")
    (simp_all add: xlate_flags6_def [abs_def] xlate_flags6'_def [abs_def] doif6_def upd_cm_id6 upd_cm_comp6
      upd_cm_swap6 [OF assms] cong: if_cong)

lemma init_protocol_state_eq6:
  assumes "oc \<noteq> r"
  shows "init_protocol_state6 sic oc r si =
    upd_cm6 r (tcp_init6 sic (sic_dest_tcp6 sic)) (upd_cm6 oc (tcp_init6 sic (sic_src_tcp6 sic)) si)"
  unfolding init_protocol_state6_def sic_src_tcp6_def [symmetric] sic_dest_tcp6_def [symmetric] Let_def
  by (cases "sic_protocol sic = ucast IPPROTO_TCP"; cases "has_flag (sic_flags sic) SFE_CREATE_FLAG_NO_SEQ_CHECK")
    (simp_all add: tcp_init6_def [abs_def] doif6_def upd_cm_id6 upd_cm_comp6 upd_cm_swap6 [OF assms])

lemma build_rule_eq6:
  assumes "oc \<noteq> r"
  shows "build_rule6 devs jiffies sic c oc r si
    = sfe_ipv6_insert_connection (built6 devs jiffies sic c oc r si) c"
  unfolding build_rule6_def Let_def set_xlate_flags_eq6 [OF assms] init_protocol_state_eq6 [OF assms]
  by (rule arg_cong2 [where f = sfe_ipv6_insert_connection, OF _ refl])
    (use assms in \<open>simp add: built6_def dev_hold6_def upd_cm6_def upd_c6_def fill_connection6_def
      new_original6_def new_reply6_def fun_upd_twist\<close>)

lemma keeps_cm_comp6: "keeps_cm6 f \<Longrightarrow> keeps_cm6 h \<Longrightarrow> keeps_cm6 (\<lambda>m. f (h m))"
  by (simp add: keeps_cm6_def)

lemma keeps_cm_doif6: "keeps_cm6 f \<Longrightarrow> keeps_cm6 (doif6 b f)"
  by (simp add: keeps_cm6_def doif6_def)

lemma keeps_cm_new6 [simp]:
  "keeps_cm6 (xlate_flags6 b b')" "keeps_cm6 (xlate_flags6' b b')" "keeps_cm6 (tcp_init6 sic tcp)"
  by (simp_all add: keeps_cm6_def doif6_def xlate_flags6_def xlate_flags6'_def tcp_init6_def cm_set_flag6_def cm_view6_def cm_key6_def)

lemma set_remark_fields6 [simp]:
  "cm_connection6 (set_remark6 fl pr ds m) = cm_connection6 m" "cm_counter_match6 (set_remark6 fl pr ds m) = cm_counter_match6 m"
  "cm_key6 (set_remark6 fl pr ds m) = cm_key6 m"
  "cm_next6 (set_remark6 fl pr ds m) = cm_next6 m" "cm_prev6 (set_remark6 fl pr ds m) = cm_prev6 m"
  by (simp_all add: set_remark6_def cm_set_flag6_def Let_def cm_key6_def)

lemma set_l2_flags_fields6 [simp]:
  "cm_connection6 (set_l2_flags6 d m) = cm_connection6 m" "cm_counter_match6 (set_l2_flags6 d m) = cm_counter_match6 m"
  "cm_key6 (set_l2_flags6 d m) = cm_key6 m" "cm_active6 (set_l2_flags6 d m) = cm_active6 m"
  "cm_active_next6 (set_l2_flags6 d m) = cm_active_next6 m" "cm_active_prev6 (set_l2_flags6 d m) = cm_active_prev6 m"
  by (simp_all add: set_l2_flags6_def cm_set_flag6_def Let_def cm_key6_def)

lemma cm_key_irrelevant6 [simp]:
  "cm_key6 (m\<lparr>cm_flow_accel6 := a\<rparr>) = cm_key6 m" "cm_key6 (m\<lparr>cm_active_next6 := q\<rparr>) = cm_key6 m"
  "cm_key6 (m\<lparr>cm_active_prev6 := q\<rparr>) = cm_key6 m" "cm_key6 (m\<lparr>cm_active6 := b\<rparr>) = cm_key6 m"
  by (simp_all add: cm_key6_def)

definition sic_original_key6 :: "sfe_connection_create \<Rightarrow> match_key6" where
  "sic_original_key6 sic = (sic_src_dev sic, ucast (sic_protocol sic), sic_src_ip sic, sic_src_port sic,
     sic_dest_ip sic, sic_dest_port sic)"

definition sic_reply_key6 :: "sfe_connection_create \<Rightarrow> match_key6" where
  "sic_reply_key6 sic = (sic_dest_dev sic, ucast (sic_protocol sic), sic_dest_ip_xlate sic, sic_dest_port_xlate sic,
     sic_src_ip_xlate sic, sic_src_port_xlate sic)"

lemma fill_original_fields6:
  "cm_key6 (fill_original_cm6 devs sic c r m) = sic_original_key6 sic"
  "cm_active6 (fill_original_cm6 devs sic c r m) = False" "cm_active_next6 (fill_original_cm6 devs sic c r m) = None"
  "cm_connection6 (fill_original_cm6 devs sic c r m) = c" "cm_counter_match6 (fill_original_cm6 devs sic c r m) = r"
  by (simp_all add: fill_original_cm6_def Let_def) (simp add: cm_key6_def sic_original_key6_def)

lemma fill_reply_fields6:
  "cm_key6 (fill_reply_cm6 devs sic c oc m) = sic_reply_key6 sic"
  "cm_active6 (fill_reply_cm6 devs sic c oc m) = False" "cm_active_next6 (fill_reply_cm6 devs sic c oc m) = None"
  "cm_connection6 (fill_reply_cm6 devs sic c oc m) = c" "cm_counter_match6 (fill_reply_cm6 devs sic c oc m) = oc"
  by (simp_all add: fill_reply_cm6_def Let_def) (simp add: cm_key6_def sic_reply_key6_def)

lemma new_original_fields6:
  "cm_key6 (new_original6 devs sic c r m) = sic_original_key6 sic"
  "cm_active6 (new_original6 devs sic c r m) = False" "cm_active_next6 (new_original6 devs sic c r m) = None"
  "cm_connection6 (new_original6 devs sic c r m) = c" "cm_counter_match6 (new_original6 devs sic c r m) = r"
  unfolding new_original6_def
  by (simp_all add: keeps_cmD6 [of sfe_ipv6_connection_match_compute_translations]
      keeps_cmD6 [of "tcp_init6 sic (sic_src_tcp6 sic)"] keeps_cmD6 [of "xlate_flags6 b b'" for b b'] fill_original_fields6)

lemma new_reply_fields6:
  "cm_key6 (new_reply6 devs sic c oc m) = sic_reply_key6 sic"
  "cm_active6 (new_reply6 devs sic c oc m) = False" "cm_active_next6 (new_reply6 devs sic c oc m) = None"
  "cm_connection6 (new_reply6 devs sic c oc m) = c" "cm_counter_match6 (new_reply6 devs sic c oc m) = oc"
  unfolding new_reply6_def
  by (simp_all add: keeps_cmD6 [of sfe_ipv6_connection_match_compute_translations]
      keeps_cmD6 [of "tcp_init6 sic (sic_dest_tcp6 sic)"] keeps_cmD6 [of "xlate_flags6' b b'" for b b'] fill_reply_fields6)

lemma fill_connection_fields6:
  "c_key6 (fill_connection6 j sic oc r x) = sic_key6 sic"
  "c_original_match6 (fill_connection6 j sic oc r x) = oc" "c_reply_match6 (fill_connection6 j sic oc r x) = r"
  "c_original_dev6 (fill_connection6 j sic oc r x) = sic_src_dev sic" "c_reply_dev6 (fill_connection6 j sic oc r x) = sic_dest_dev sic"
  by (simp_all add: fill_connection6_def c_key6_def sic_key6_def)

text \<open>What \<open>kmalloc\<close> promises: three objects not in use.\<close>

definition fresh6 :: "sfe_ipv6 \<Rightarrow> ptr \<Rightarrow> ptr \<Rightarrow> ptr \<Rightarrow> bool" where
  "fresh6 si c oc r \<longleftrightarrow> c \<notin> live_connections6 si \<and> oc \<notin> live_matches6 si \<and> r \<notin> live_matches6 si \<and> oc \<noteq> r"

lemma built_fields6:
  "matches6 (built6 devs j sic c oc r si) = (matches6 si)(oc := new_original6 devs sic c r (matches6 si oc), r := new_reply6 devs sic c oc (matches6 si r))"
  "connections6 (built6 devs j sic c oc r si) = (connections6 si)(c := fill_connection6 j sic oc r (connections6 si c))"
  "dev_refs6 (built6 devs j sic c oc r si) d = dev_refs6 si d + of_bool (sic_src_dev sic = d) + of_bool (sic_dest_dev sic = d)"
  "live_matches6 (built6 devs j sic c oc r si) = live_matches6 si"
  "live_connections6 (built6 devs j sic c oc r si) = live_connections6 si"
  "num_connections6 (built6 devs j sic c oc r si) = num_connections6 si"
  "conn_hash6 (built6 devs j sic c oc r si) = conn_hash6 si" "conn_match_hash6 (built6 devs j sic c oc r si) = conn_match_hash6 si"
  "all_connections_head6 (built6 devs j sic c oc r si) = all_connections_head6 si"
  "all_connections_tail6 (built6 devs j sic c oc r si) = all_connections_tail6 si"
  "active_head6 (built6 devs j sic c oc r si) = active_head6 si" "active_tail6 (built6 devs j sic c oc r si) = active_tail6 si"
  by (simp_all add: built6_def dev_hold6_def)

lemma mem_live6:
  assumes "mem_ok6 si cs"
  shows "c \<notin> live_connections6 si \<Longrightarrow> c \<notin> set cs"
    and "x \<in> set cs \<Longrightarrow> m \<notin> live_matches6 si \<Longrightarrow> m \<noteq> c_original_match6 (connections6 si x) \<and> m \<noteq> c_reply_match6 (connections6 si x)"
  using assms by (auto simp: mem_ok6_def ft_live_def)

lemma create_agree6:
  assumes i: "sfe_inv6 si g P" and f: "fresh6 si c oc r"
  shows "ft_agree (ft6 si) (ft6 (built6 devs j sic c oc r si)) (set (ga g @ P)) (ft_live (ft6 si) (set (ga g @ P)))"
proof -
  have m: "mem_ok6 si (ga g @ P)" using i by (simp add: sfe_inv6_def)
  have "c \<notin> set (ga g @ P)" using mem_live6(1) [OF m] f by (simp add: fresh6_def)
  moreover have "oc \<notin> ft_live (ft6 si) (set (ga g @ P))" "r \<notin> ft_live (ft6 si) (set (ga g @ P))"
    using m f by (simp_all add: mem_ok6_def fresh6_def)
  ultimately have "x \<in> set (ga g @ P) \<Longrightarrow> connections6 (built6 devs j sic c oc r si) x = connections6 si x"
    and "y \<in> ft_live (ft6 si) (set (ga g @ P)) \<Longrightarrow> matches6 (built6 devs j sic c oc r si) y = matches6 si y" for x y
    by (auto simp: built_fields6)
  then show ?thesis by (simp add: ft_agree_def built_fields6)
qed

definition alloc6 :: "ptr \<Rightarrow> ptr \<Rightarrow> ptr \<Rightarrow> sfe_ipv6 \<Rightarrow> sfe_ipv6" where
  "alloc6 c oc r si = si\<lparr>live_connections6 := insert c (live_connections6 si),
                        live_matches6 := insert oc (insert r (live_matches6 si))\<rparr>"

lemma alloc_sel6 [simp]:
  "connections6 (alloc6 c oc r si) = connections6 si" "matches6 (alloc6 c oc r si) = matches6 si"
  "dev_refs6 (alloc6 c oc r si) = dev_refs6 si" "num_connections6 (alloc6 c oc r si) = num_connections6 si"
  by (simp_all add: alloc6_def)

lemma ft_built_alloc6: "ft6 (built6 devs j sic c oc r (alloc6 c oc r si)) = ft6 (built6 devs j sic c oc r si)"
  by (simp add: ft6_def built6_def dev_hold6_def alloc6_def)

lemma built_alloc_fields6:
  "matches6 (built6 devs j sic c oc r (alloc6 c oc r si)) = matches6 (built6 devs j sic c oc r si)"
  "connections6 (built6 devs j sic c oc r (alloc6 c oc r si)) = connections6 (built6 devs j sic c oc r si)"
  "dev_refs6 (built6 devs j sic c oc r (alloc6 c oc r si)) = dev_refs6 (built6 devs j sic c oc r si)"
  by (simp_all add: built6_def dev_hold6_def alloc6_def)

lemma ft_agree_mono6: "ft_agree t t' C L \<Longrightarrow> C' \<subseteq> C \<Longrightarrow> L' \<subseteq> L \<Longrightarrow> ft_agree t t' C' L'"
  by (auto simp: ft_agree_def)

lemma built_mem6:
  assumes i: "sfe_inv6 si g P" and f: "fresh6 si c oc r"
  shows "mem_ok6 (built6 devs j sic c oc r (alloc6 c oc r si)) (c # ga g @ P)"
proof -
  let ?b = "built6 devs j sic c oc r (alloc6 c oc r si)"
  let ?C = "set (ga g @ P)" and ?L = "ft_live (ft6 si) (set (ga g @ P))"
  have m: "mem_ok6 si (ga g @ P)" using i by (simp add: sfe_inv6_def)
  note a = create_agree6 [OF i f, of devs j sic]
  have c: "c \<notin> ?C" using mem_live6(1) [OF m] f by (simp add: fresh6_def)
  have cs: "connections6 ?b x = connections6 si x" if "x \<in> ?C" for x
    using that c by (auto simp: built_fields6 built_alloc_fields6)
  have "ft_live (ft6 ?b) (insert c ?C) = insert oc (insert r ?L)"
    using ft_agree_live [OF a order_refl]
    by (auto simp: ft_built_alloc6 ft_live_def built_fields6 fill_connection_fields6)
  moreover have "live_matches6 ?b = insert oc (insert r ?L)" "live_connections6 ?b = insert c ?C"
    using m by (simp_all add: built_fields6 alloc6_def mem_ok6_def)
  moreover have "pairs_ok (ft6 ?b) (insert c ?C)"
  proof -
    have "pairs_ok (ft6 si) ?C" using m by (simp add: mem_ok6_def)
    moreover have "com (ft6 si) x \<in> ?L \<and> crm (ft6 si) x \<in> ?L" if "x \<in> ?C" for x
      using that by (auto simp: ft_live_def)
    ultimately have "pairs_ok (ft6 ?b) ?C"
      using a unfolding pairs_ok_def ft_agree_def ft_built_alloc6 by metis
    moreover have "oc \<noteq> r" using f by (simp add: fresh6_def)
    ultimately show ?thesis
      by (simp add: pairs_ok_def built_fields6 built_alloc_fields6 fill_connection_fields6 new_original_fields6 new_reply_fields6)
  qed
  moreover have "dev_refs6 ?b dv = refs_of6 ?b (c # ga g @ P) dv" for dv
  proof -
    have "refs_of6 ?b (ga g @ P) dv = refs_of6 si (ga g @ P) dv"
      unfolding refs_of6_def by (rule arg_cong [where f = sum_list], rule map_cong) (simp_all only: cs)
    then have "refs_of6 ?b (c # ga g @ P) dv = of_bool (sic_src_dev sic = dv) + of_bool (sic_dest_dev sic = dv) + refs_of6 si (ga g @ P) dv"
      by (simp add: refs_of6_def built_fields6 built_alloc_fields6 fill_connection_fields6)
    moreover have "dev_refs6 si dv = refs_of6 si (ga g @ P) dv" using m by (simp add: mem_ok6_def)
    ultimately show ?thesis by (simp add: built_fields6 built_alloc_fields6)
  qed
  ultimately show ?thesis
    using c m by (simp add: mem_ok6_def fun_eq_iff)
qed

lemma build_rule_inv6:
  fixes devs j
  assumes i: "sfe_inv6 si g P" and f: "fresh6 si c oc r"
    and k: "sfe_lookup6 si (sic_key6 sic) = None"
  defines "si' \<equiv> build_rule6 devs j sic c oc r (alloc6 c oc r si)"
  shows "\<exists>g'. sfe_inv6 si' g' P \<and> ga g' = ga g @ [c]"
proof -
  let ?b = "built6 devs j sic c oc r (alloc6 c oc r si)"
  let ?C = "set (ga g)"
  have m: "mem_ok6 si (ga g @ P)" and fi: "ft_inv (ft6 si) g" using i by (simp_all add: sfe_inv6_def)
  have si': "si' = sfe_ipv6_insert_connection ?b c"
    unfolding si'_def using f by (intro build_rule_eq6) (simp add: fresh6_def)
  have a: "ft_agree (ft6 si) (ft6 ?b) ?C (ft_live (ft6 si) ?C)"
    unfolding ft_built_alloc6
    by (rule ft_agree_mono6 [OF create_agree6 [OF i f]]) (auto simp: ft_live_def)
  have c: "c \<notin> set (ga g @ P)" using mem_live6(1) [OF m] f by (simp add: fresh6_def)
  have live: "ft_live (ft6 ?b) ?C \<subseteq> live_matches6 si"
    using m ft_agree_live [OF a order_refl] by (auto simp: mem_ok6_def ft_live_def)
  have key: "ckey (ft6 ?b) c \<notin> ckey (ft6 ?b) ` ?C"
  proof
    assume "ckey (ft6 ?b) c \<in> ckey (ft6 ?b) ` ?C"
    then obtain x where x: "x \<in> ?C" and e: "c_key6 (connections6 ?b c) = c_key6 (connections6 ?b x)" by auto
    have "x \<noteq> c" using x c by auto
    with e have "c_key6 (connections6 si x) = sic_key6 sic"
      by (simp add: built_fields6 fill_connection_fields6)
    with k x show False unfolding lookup_None6 [OF i] by blast
  qed
  have "ft_inv (ft_insert_conn (ft6 ?b) c) (lists_insert (ft6 ?b) g c)"
    by (rule ft_insert_conn_inv [OF ft_inv_agree [OF fi a]])
      (use c key live f in \<open>auto simp: fresh6_def built_fields6 built_alloc_fields6 fill_connection_fields6
        new_original_fields6 new_reply_fields6\<close>)
  then have "ft_inv (ft6 si') (lists_insert (ft6 ?b) g c)"
    by (simp only: si' ft_insert_connection6)
  moreover have ga: "ga (lists_insert (ft6 ?b) g c) = ga g @ [c]" by (simp add: lists_insert_def)
  moreover have "mem_ok6 si' ((ga g @ [c]) @ P)"
    unfolding si'
    by (rule same_data_mem6 [OF same_data_insert_connection6 _ _ _ built_mem6 [OF i f]]) (use m c in \<open>auto simp: mem_ok6_def\<close>)
  moreover have "num_connections6 si' = of_nat (length (ga g @ [c]))"
    using i by (simp add: si' num_insert_connection6 built_fields6 alloc6_def sfe_inv6_def add.commute)
  ultimately show ?thesis by (auto simp: sfe_inv6_def)
qed

definition sic_rule6 :: "sfe_connection_create \<Rightarrow> rule6" where
  "sic_rule6 sic = (sic_src_ip_xlate sic, sic_src_port_xlate sic, sic_dest_ip_xlate sic,
     sic_dest_port_xlate sic, sic_src_dev sic, sic_dest_dev sic, sic_mark sic)"

lemma build_rule_rules6:
  fixes devs j
  assumes i: "sfe_inv6 si g P" and f: "fresh6 si c oc r"
    and k: "sfe_lookup6 si (sic_key6 sic) = None"
  defines "si' \<equiv> build_rule6 devs j sic c oc r (alloc6 c oc r si)"
  shows "sfe_lookup6 si' = (sfe_lookup6 si)(sic_key6 sic \<mapsto> c)"
    and "sfe_rules6 si' = (sfe_rules6 si)(sic_key6 sic \<mapsto> sic_rule6 sic)"
proof -
  let ?b = "built6 devs j sic c oc r (alloc6 c oc r si)"
  have si': "si' = sfe_ipv6_insert_connection ?b c"
    unfolding si'_def using f by (intro build_rule_eq6) (simp add: fresh6_def)
  obtain g' where i': "sfe_inv6 si' g' P" and ga: "ga g' = ga g @ [c]"
    using build_rule_inv6 [OF i f k, of devs j] unfolding si'_def [symmetric] by (elim exE conjE) (rule that)
  have m: "mem_ok6 si (ga g @ P)" using i by (simp add: sfe_inv6_def)
  have c: "c \<notin> set (ga g)" using mem_live6(1) [OF m] f by (simp add: fresh6_def)
  have r: "same_rules6 ?b si'" unfolding si' by (rule same_rules_data6 [OF same_data_insert_connection6])
  have kc: "c_key6 (connections6 si' c) = sic_key6 sic" "c_rule6 (connections6 si' c) = sic_rule6 sic"
    using r by (simp_all add: same_rules6_def built_fields6 fill_connection6_def c_key6_def sic_key6_def c_rule6_def sic_rule6_def)
  have ko: "c_key6 (connections6 si' x) = c_key6 (connections6 si x)" "c_rule6 (connections6 si' x) = c_rule6 (connections6 si x)"
    if "x \<noteq> c" for x
    using r that by (simp_all add: same_rules6_def built_fields6 alloc6_def)
  have old: "sfe_lookup6 si key = Some x \<Longrightarrow> x \<noteq> c" for key x
    using c unfolding lookup_iff6 [OF i] by auto
  have l: "sfe_lookup6 si' key = ((sfe_lookup6 si)(sic_key6 sic \<mapsto> c)) key" for key
  proof (cases "key = sic_key6 sic")
    case True
    then show ?thesis using kc by (simp add: lookup_iff6 [OF i'] ga)
  next
    case False
    have "c_key6 (connections6 si' x) = key \<longleftrightarrow> x \<noteq> c \<and> c_key6 (connections6 si x) = key" for x
      using False kc ko by (cases "x = c") auto
    then have "sfe_lookup6 si' key = sfe_lookup6 si key"
      using c by (intro lookup_eqI6 [OF i i']) (auto simp: ga)
    with False show ?thesis by simp
  qed
  then show l': "sfe_lookup6 si' = (sfe_lookup6 si)(sic_key6 sic \<mapsto> c)" by (rule ext)
  show "sfe_rules6 si' = (sfe_rules6 si)(sic_key6 sic \<mapsto> sic_rule6 sic)"
  proof
    show "sfe_rules6 si' key = ((sfe_rules6 si)(sic_key6 sic \<mapsto> sic_rule6 sic)) key" for key
      using old [of key] kc ko by (cases "sfe_lookup6 si key") (auto simp: sfe_rules6_def l)
  qed
qed

definition devs_up6 :: "(dev_ptr \<Rightarrow> net_device) \<Rightarrow> sfe_connection_create \<Rightarrow> bool" where
  "devs_up6 devs sic \<longleftrightarrow> nd_registered (devs (sic_dest_dev sic)) \<and> nd_registered (devs (sic_src_dev sic))"

lemma create_rule_result6:
  assumes i: "sfe_inv6 si g P"
  defines "si1 \<equiv> si\<lparr>connection_create_requests6 := connection_create_requests6 si + 1\<rparr>"
  shows "sfe_ipv6_create_rule devs j kc ko kr si sic = Some
    (if \<not> devs_up6 devs sic then (- EINVAL, si)
     else case sfe_lookup6 si (sic_key6 sic) of
       Some c \<Rightarrow> (- EADDRINUSE, sfe_ipv6_update_protocol_state
                     (si1\<lparr>connection_create_collisions6 := connection_create_collisions6 si + 1\<rparr>) c sic)
     | None \<Rightarrow> (case (kc, ko, kr) of
           (Some c, Some oc, Some r) \<Rightarrow> (0, build_rule6 devs j sic c oc r (alloc6 c oc r si1))
         | _ \<Rightarrow> (- ENOMEM, si1)))"
proof -
  have s: "same_shape6 si si1" by (simp add: si1_def)
  have l: "sfe_ipv6_find_connection si1 (sic_protocol sic) (sic_src_ip sic) (sic_src_port sic)
      (sic_dest_ip sic) (sic_dest_port sic) = Some (sfe_lookup6 si (sic_key6 sic))"
    unfolding find_connection_lookup6 [OF sfe_inv_same_shape6 [OF s i]] sic_key6_def lookup_same_shape6 [OF i s] ..
  have e: "connection_create_collisions6 si1 = connection_create_collisions6 si"
    "live_connections6 si1 = live_connections6 si" "live_matches6 si1 = live_matches6 si"
    by (simp_all add: si1_def)
  show ?thesis
    unfolding sfe_ipv6_create_rule_def si1_def [symmetric] Let_def l devs_up6_def
    by (simp add: e alloc6_def split: option.split)
qed

lemma create_rule_inv6:
  assumes i: "sfe_inv6 si g P" and e: "sfe_ipv6_create_rule devs j kc ko kr si sic = Some (rc, si')"
    and f: "\<And>c oc r. kc = Some c \<Longrightarrow> ko = Some oc \<Longrightarrow> kr = Some r \<Longrightarrow> fresh6 si c oc r"
  shows "\<exists>g'. sfe_inv6 si' g' P"
    and "rc = 0 \<Longrightarrow> sfe_rules6 si (sic_key6 sic) = None \<and> sfe_rules6 si' = (sfe_rules6 si)(sic_key6 sic \<mapsto> sic_rule6 sic)"
    and "rc \<noteq> 0 \<Longrightarrow> sfe_rules6 si' = sfe_rules6 si"
proof -
  define si1 where "si1 = si\<lparr>connection_create_requests6 := connection_create_requests6 si + 1\<rparr>"
  have s1: "same_shape6 si si1" "same_rules6 si si1" by (simp_all add: si1_def)
  note R = create_rule_result6 [OF i, of devs j kc ko kr sic, unfolded e, folded si1_def]
  have "(rc = 0 \<and> (\<exists>g'. sfe_inv6 si' g' P) \<and> sfe_rules6 si (sic_key6 sic) = None
           \<and> sfe_rules6 si' = (sfe_rules6 si)(sic_key6 sic \<mapsto> sic_rule6 sic))
      \<or> (rc \<noteq> 0 \<and> same_shape6 si si' \<and> same_rules6 si si')"
  proof (cases "devs_up6 devs sic \<and> sfe_lookup6 si (sic_key6 sic) = None \<and> kc \<noteq> None \<and> ko \<noteq> None \<and> kr \<noteq> None")
    case True
    then obtain c oc r where k: "kc = Some c" "ko = Some oc" "kr = Some r" by blast
    have fr: "fresh6 si1 c oc r" using f [OF k] by (simp add: fresh6_def si1_def)
    have l: "sfe_lookup6 si1 (sic_key6 sic) = None" using True lookup_same_shape6 [OF i s1(1)] by simp
    have r: "sfe_rules6 si1 = sfe_rules6 si" by (rule rules_same_shape6 [OF i s1])
    have E: "rc = 0" "si' = build_rule6 devs j sic c oc r (alloc6 c oc r si1)" using R True k by simp_all
    show ?thesis
      using build_rule_inv6 [OF sfe_inv_same_shape6 [OF s1(1) i] fr l, of devs j]
        build_rule_rules6(2) [OF sfe_inv_same_shape6 [OF s1(1) i] fr l, of devs j] True
      unfolding E r by (auto simp: sfe_rules6_def)
  next
    case False
    then have "rc \<noteq> 0 \<and> same_shape6 si si' \<and> same_rules6 si si'"
      using R s1 by (auto simp: EINVAL_def ENOMEM_def EADDRINUSE_def split: if_splits option.splits)
    then show ?thesis ..
  qed
  moreover have "\<exists>g'. sfe_inv6 si' g' P" if "same_shape6 si si'"
    using sfe_inv_same_shape6 [OF that i] by blast
  ultimately show "\<exists>g'. sfe_inv6 si' g' P"
    and "rc = 0 \<Longrightarrow> sfe_rules6 si (sic_key6 sic) = None \<and> sfe_rules6 si' = (sfe_rules6 si)(sic_key6 sic \<mapsto> sic_rule6 sic)"
    and "rc \<noteq> 0 \<Longrightarrow> sfe_rules6 si' = sfe_rules6 si"
    using rules_same_shape6 [OF i] by blast+
qed

end
