(* ===== verification/SFE_IPv6_Recv.thy ===== *)
theory SFE_IPv6_Recv
  imports SFE_IPv6_Rules SFE_TCP
begin

text \<open>
  The data path of the IPv6 engine: \<open>sfe_ipv6_recv\<close> with its walk over the extension headers, and the
  UDP, TCP and ICMPv6 handlers. A packet starts at offset 0 of the buffer memory, its transport header
  at \<open>ihl\<close>.
\<close>

text \<open>
  What a handler leaves behind: its return value, the engine, the buffer, the buffers given to
  \<open>dev_queue_xmit\<close> and the sync callbacks made.
\<close>

record recv_result6 =
  r_ret6 :: nat
  r_si6 :: sfe_ipv6
  r_skb6 :: sk_buff
  r_xmit6 :: "sk_buff list"
  r_sync6 :: syncs

section \<open>Header fields\<close>

text \<open>Offsets in \<open>struct sfe_ipv6_ip_hdr\<close>, in the extension headers, and their sizes.\<close>

definition IPH6_LEN :: u32 where "IPH6_LEN = 40"
definition EXTH_LEN :: u32 where "EXTH_LEN = 8"
definition ETH_P_IPV6 :: u16 where "ETH_P_IPV6 = 0x86DD"

definition iph6_version :: "mem \<Rightarrow> nat \<Rightarrow> u8" where "iph6_version m o' = drop_bit 4 (m o')"
definition iph6_payload_len :: nat where "iph6_payload_len = 4"
definition iph6_nexthdr :: nat where "iph6_nexthdr = 6"
definition iph6_hop_limit :: nat where "iph6_hop_limit = 7"
definition iph6_saddr :: nat where "iph6_saddr = 8"
definition iph6_daddr :: nat where "iph6_daddr = 24"
definition exth_next_hdr :: nat where "exth_next_hdr = 0"
definition exth_hdr_len :: nat where "exth_hdr_len = 1"
definition exth_frag_off :: nat where "exth_frag_off = 2"

lemmas hdr_defs6 = iph6_payload_len_def iph6_nexthdr_def iph6_hop_limit_def iph6_saddr_def iph6_daddr_def
  th_source_def th_dest_def udp_check_def tcp_seq_def tcp_ack_seq_def tcp_flag_offs_def tcp_window_def
  tcp_check_def

definition SFE_IPV6_EXT_HDR_HOP :: u8 where "SFE_IPV6_EXT_HDR_HOP = 0"
definition SFE_IPV6_EXT_HDR_ROUTING :: u8 where "SFE_IPV6_EXT_HDR_ROUTING = 43"
definition SFE_IPV6_EXT_HDR_FRAG :: u8 where "SFE_IPV6_EXT_HDR_FRAG = 44"
definition SFE_IPV6_EXT_HDR_AH :: u8 where "SFE_IPV6_EXT_HDR_AH = 51"
definition SFE_IPV6_EXT_HDR_DST :: u8 where "SFE_IPV6_EXT_HDR_DST = 60"
definition SFE_IPV6_EXT_HDR_MH :: u8 where "SFE_IPV6_EXT_HDR_MH = 135"
definition SFE_IPV6_FRAG_OFFSET :: u32 where "SFE_IPV6_FRAG_OFFSET = 0xfff8"

lemmas ext_hdr_defs = SFE_IPV6_EXT_HDR_HOP_def SFE_IPV6_EXT_HDR_ROUTING_def SFE_IPV6_EXT_HDR_FRAG_def
  SFE_IPV6_EXT_HDR_AH_def SFE_IPV6_EXT_HDR_DST_def SFE_IPV6_EXT_HDR_MH_def

definition sfe_ipv6_is_ext_hdr :: "u8 \<Rightarrow> bool" where
  "sfe_ipv6_is_ext_hdr hdr \<longleftrightarrow> hdr = SFE_IPV6_EXT_HDR_HOP \<or> hdr = SFE_IPV6_EXT_HDR_ROUTING
     \<or> hdr = SFE_IPV6_EXT_HDR_FRAG \<or> hdr = SFE_IPV6_EXT_HDR_AH \<or> hdr = SFE_IPV6_EXT_HDR_DST
     \<or> hdr = SFE_IPV6_EXT_HDR_MH"

section \<open>Dropping and flushing\<close>

definition exception6 :: "sfe_ipv6_exception_events \<Rightarrow> sfe_ipv6 \<Rightarrow> sfe_ipv6" where
  "exception6 e si = si\<lparr>exception_events6 := (exception_events6 si)(e := exception_events6 si e + 1),
                       packets_not_forwarded6 := packets_not_forwarded6 si + 1\<rparr>"

text \<open>Count the exception and leave the packet to the slow path.\<close>

definition not_forwarded6 :: "sfe_ipv6_exception_events \<Rightarrow> sfe_ipv6 \<Rightarrow> sk_buff \<Rightarrow> recv_result6" where
  "not_forwarded6 e si skb = \<lparr>r_ret6 = 0, r_si6 = exception6 e si, r_skb6 = skb, r_xmit6 = [], r_sync6 = []\<rparr>"

text \<open>The same, after taking the connection of \<open>cm\<close> out of the tables, and then flush it.\<close>

definition flush_not_forwarded6 ::
  "kernel \<Rightarrow> sfe_ipv6_exception_events \<Rightarrow> ptr \<Rightarrow> sfe_ipv6 \<Rightarrow> sk_buff \<Rightarrow> recv_result6" where
  "flush_not_forwarded6 k e cm si skb =
     (let c = cm_connection6 (matches6 si cm);
          si = sfe_ipv6_remove_connection si c;
          si = exception6 e si;
          (si, out) = sfe_ipv6_flush_connection (k_jiffies k) si c SFE_SYNC_REASON_FLUSH
      in \<lparr>r_ret6 = 0, r_si6 = si, r_skb6 = skb, r_xmit6 = [], r_sync6 = out\<rparr>)"

section \<open>Forwarding\<close>

definition SFE_IPV6_DSCP_MASK :: u16 where "SFE_IPV6_DSCP_MASK = 0xf03f"

text \<open>The first 16 bits of the header hold version, traffic class and the top of the flow label.\<close>

definition sfe_ipv6_change_dsfield :: "mem \<Rightarrow> u8 \<Rightarrow> mem" where
  "sfe_ipv6_change_dsfield m dscp =
     st16 m 0 ((ld16 m 0 AND ntohs SFE_IPV6_DSCP_MASK) OR ntohs (push_bit 4 (ucast dscp)))"

definition remark_dscp6 :: "sfe_ipv6_connection_match \<Rightarrow> mem \<Rightarrow> mem" where
  "remark_dscp6 cm m =
     (if has_flag (cm_flags6 cm) SFE_IPV6_CONNECTION_MATCH_FLAG_DSCP_REMARK
      then sfe_ipv6_change_dsfield m (ucast (cm_dscp6 cm)) else m)"

text \<open>The translations of \<open>sfe_ipv6_recv_udp\<close>: a zero checksum stays as it is.\<close>

definition udp_xlate_src6 :: "nat \<Rightarrow> sfe_ipv6_connection_match \<Rightarrow> mem \<Rightarrow> mem" where
  "udp_xlate_src6 ihl cm m =
     (if has_flag (cm_flags6 cm) SFE_IPV6_CONNECTION_MATCH_FLAG_XLATE_SRC
      then let m = st_ip6 m iph6_saddr (cm_xlate_src_ip6 cm);
               m = st16 m (ihl + th_source) (cm_xlate_src_port6 cm);
               udp_csum = ld16 m (ihl + udp_check)
           in if udp_csum \<noteq> 0
              then st16 m (ihl + udp_check)
                     (csum_update udp_csum (cm_xlate_src_csum_adjustment6 cm))
              else m
      else m)"

definition udp_xlate_dest6 :: "nat \<Rightarrow> sfe_ipv6_connection_match \<Rightarrow> mem \<Rightarrow> mem" where
  "udp_xlate_dest6 ihl cm m =
     (if has_flag (cm_flags6 cm) SFE_IPV6_CONNECTION_MATCH_FLAG_XLATE_DEST
      then let m = st_ip6 m iph6_daddr (cm_xlate_dest_ip6 cm);
               m = st16 m (ihl + th_dest) (cm_xlate_dest_port6 cm);
               udp_csum = ld16 m (ihl + udp_check)
           in if udp_csum \<noteq> 0
              then st16 m (ihl + udp_check)
                     (csum_update udp_csum (cm_xlate_dest_csum_adjustment6 cm))
              else m
      else m)"

definition tcp_xlate_src6 :: "nat \<Rightarrow> sfe_ipv6_connection_match \<Rightarrow> mem \<Rightarrow> mem" where
  "tcp_xlate_src6 ihl cm m =
     (if has_flag (cm_flags6 cm) SFE_IPV6_CONNECTION_MATCH_FLAG_XLATE_SRC
      then let m = st_ip6 m iph6_saddr (cm_xlate_src_ip6 cm);
               m = st16 m (ihl + th_source) (cm_xlate_src_port6 cm);
               tcp_csum = ld16 m (ihl + tcp_check)
           in st16 m (ihl + tcp_check)
                (csum_update tcp_csum (cm_xlate_src_csum_adjustment6 cm))
      else m)"

definition tcp_xlate_dest6 :: "nat \<Rightarrow> sfe_ipv6_connection_match \<Rightarrow> mem \<Rightarrow> mem" where
  "tcp_xlate_dest6 ihl cm m =
     (if has_flag (cm_flags6 cm) SFE_IPV6_CONNECTION_MATCH_FLAG_XLATE_DEST
      then let m = st_ip6 m iph6_daddr (cm_xlate_dest_ip6 cm);
               m = st16 m (ihl + th_dest) (cm_xlate_dest_port6 cm);
               tcp_csum = ld16 m (ihl + tcp_check)
           in st16 m (ihl + tcp_check)
                (csum_update tcp_csum (cm_xlate_dest_csum_adjustment6 cm))
      else m)"

text \<open>Entering the active list at its tail.\<close>

definition mark_active6 :: "ptr \<Rightarrow> sfe_ipv6 \<Rightarrow> sfe_ipv6" where
  "mark_active6 cm si =
     (if cm_active6 (matches6 si cm) then si
      else let si = upd_cm6 cm (\<lambda>m. m\<lparr>cm_active6 := True\<rparr>) si;
               si = upd_cm6 cm (\<lambda>m. m\<lparr>cm_active_prev6 := active_tail6 si\<rparr>) si;
               si = (case active_tail6 si of
                       Some t \<Rightarrow> upd_cm6 t (\<lambda>m. m\<lparr>cm_active_next6 := Some cm\<rparr>) si
                     | None \<Rightarrow> si\<lparr>active_head6 := Some cm\<rparr>)
           in si\<lparr>active_tail6 := Some cm\<rparr>)"

text \<open>The layer 2 header: none, the fast Ethernet one, or whatever the device writes.\<close>

definition write_eth_hdr6 :: "sfe_ipv6_connection_match \<Rightarrow> mem \<Rightarrow> mem" where
  "write_eth_hdr6 cm m =
     (let m = skb_push m ETH_HLEN;
          m = st16 m 12 (ntohs ETH_P_IPV6);
          m = st16 m 0 (ld16 (cm_xmit_dest_mac6 cm) 0);
          m = st16 m 2 (ld16 (cm_xmit_dest_mac6 cm) 2);
          m = st16 m 4 (ld16 (cm_xmit_dest_mac6 cm) 4);
          m = st16 m 6 (ld16 (cm_xmit_src_mac6 cm) 0);
          m = st16 m 8 (ld16 (cm_xmit_src_mac6 cm) 2)
      in st16 m 10 (ld16 (cm_xmit_src_mac6 cm) 4))"

definition write_l2_hdr6 :: "kernel \<Rightarrow> sfe_ipv6_connection_match \<Rightarrow> u32 \<Rightarrow> sk_buff \<Rightarrow> sk_buff" where
  "write_l2_hdr6 k cm len skb =
     (if has_flag (cm_flags6 cm) SFE_IPV6_CONNECTION_MATCH_FLAG_WRITE_L2_HDR
      then if \<not> has_flag (cm_flags6 cm) SFE_IPV6_CONNECTION_MATCH_FLAG_WRITE_FAST_ETH_HDR
           then k_hard_header k skb (cm_xmit_dev6 cm) ETH_P_IPV6 (cm_xmit_dest_mac6 cm) (cm_xmit_src_mac6 cm) len
           else skb\<lparr>skb_mem := write_eth_hdr6 cm (skb_mem skb), skb_len := skb_len skb + of_nat ETH_HLEN\<rparr>
      else skb)"

text \<open>From the counters to \<open>dev_queue_xmit\<close>, the same in both handlers.\<close>

definition forward_tail6 :: "kernel \<Rightarrow> u32 \<Rightarrow> ptr \<Rightarrow> sfe_ipv6 \<Rightarrow> sk_buff \<Rightarrow> recv_result6" where
  "forward_tail6 k len cm si skb =
     (let si = upd_cm6 cm (\<lambda>m. m\<lparr>cm_rx_packet_count6 := cm_rx_packet_count6 m + 1\<rparr>) si;
          si = upd_cm6 cm (\<lambda>m. m\<lparr>cm_rx_byte_count6 := cm_rx_byte_count6 m + len\<rparr>) si;
          si = mark_active6 cm si;
          cmv = matches6 si cm;
          skb = skb\<lparr>skb_dev := cm_xmit_dev6 cmv\<rparr>;
          skb = write_l2_hdr6 k cmv len skb;
          skb = (if has_flag (cm_flags6 cmv) SFE_IPV6_CONNECTION_MATCH_FLAG_PRIORITY_REMARK
                 then skb\<lparr>skb_priority := cm_priority6 cmv\<rparr> else skb);
          skb = skb\<lparr>skb_mark := c_mark6 (connections6 si (cm_connection6 cmv))\<rparr>;
          si = si\<lparr>packets_forwarded6 := packets_forwarded6 si + 1\<rparr>
      in \<lparr>r_ret6 = 1, r_si6 = si, r_skb6 = skb, r_xmit6 = [skb], r_sync6 = []\<rparr>)"

definition udp_forward6 :: "kernel \<Rightarrow> u32 \<Rightarrow> nat \<Rightarrow> ptr \<Rightarrow> sfe_ipv6 \<Rightarrow> sk_buff \<Rightarrow> recv_result6" where
  "udp_forward6 k len ihl cm si skb =
     (let cmv = matches6 si cm;
          m = remark_dscp6 cmv (skb_mem skb);
          m = st8 m iph6_hop_limit (m iph6_hop_limit - 1);
          m = udp_xlate_src6 ihl cmv m;
          m = udp_xlate_dest6 ihl cmv m
      in forward_tail6 k len cm si (skb\<lparr>skb_mem := m\<rparr>))"

definition tcp_forward6 :: "kernel \<Rightarrow> u32 \<Rightarrow> nat \<Rightarrow> ptr \<Rightarrow> sfe_ipv6 \<Rightarrow> sk_buff \<Rightarrow> recv_result6" where
  "tcp_forward6 k len ihl cm si skb =
     (let cmv = matches6 si cm;
          m = remark_dscp6 cmv (skb_mem skb);
          m = st8 m iph6_hop_limit (m iph6_hop_limit - 1);
          m = tcp_xlate_src6 ihl cmv m;
          m = tcp_xlate_dest6 ihl cmv m
      in forward_tail6 k len cm si (skb\<lparr>skb_mem := m\<rparr>))"

section \<open>UDP\<close>

definition sfe_ipv6_recv_udp ::
  "kernel \<Rightarrow> sfe_ipv6 \<Rightarrow> sk_buff \<Rightarrow> dev_ptr \<Rightarrow> u32 \<Rightarrow> u32 \<Rightarrow> bool \<Rightarrow> recv_result6 option" where
  "sfe_ipv6_recv_udp k si skb dev len ihl flush_on_find =
     (if \<not> k_may_pull k skb (UDPH_LEN + ihl) then Some (not_forwarded6 UDP_HEADER_INCOMPLETE6 si skb)
      else let m = skb_mem skb;
               src_ip = ld_ip6 m iph6_saddr;
               dest_ip = ld_ip6 m iph6_daddr;
               src_port = ld16 m (unat ihl + th_source);
               dest_port = ld16 m (unat ihl + th_dest)
      in do {
        (r, si) \<leftarrow> sfe_ipv6_find_connection_match si dev IPPROTO_UDP src_ip src_port dest_ip dest_port;
        case r of
          None \<Rightarrow> Some (not_forwarded6 UDP_NO_CONNECTION6 si skb)
        | Some cm \<Rightarrow> Some (
            if flush_on_find then flush_not_forwarded6 k UDP_IP_OPTIONS_OR_INITIAL_FRAGMENT6 cm si skb
            else if cm_flow_accel6 (matches6 si cm) = 0
            then \<lparr>r_ret6 = 0, r_si6 = si\<lparr>packets_not_forwarded6 := packets_not_forwarded6 si + 1\<rparr>,
                  r_skb6 = skb, r_xmit6 = [], r_sync6 = []\<rparr>
            else if m iph6_hop_limit < 2 then flush_not_forwarded6 k UDP_SMALL_TTL6 cm si skb
            else if len > ucast (cm_xmit_dev_mtu6 (matches6 si cm))
            then flush_not_forwarded6 k UDP_NEEDS_FRAGMENTATION6 cm si skb
            else udp_forward6 k len (unat ihl) cm si skb) })"

section \<open>TCP options\<close>

definition sfe_ipv6_process_tcp_option_sack :: "mem \<Rightarrow> nat \<Rightarrow> u32 \<Rightarrow> u32 \<Rightarrow> (bool \<times> u32) option" where
  "sfe_ipv6_process_tcp_option_sack m th data_offs ack =
     (let ptr = th + unat TCPH_LEN
      in if data_offs = TCPH_LEN + ucast TCPOLEN_TIMESTAMP + 1 + 1 \<and> m ptr = TCPOPT_NOP \<and> m (ptr + 1) = TCPOPT_NOP
            \<and> m (ptr + 2) = TCPOPT_TIMESTAMP \<and> m (ptr + 3) = TCPOLEN_TIMESTAMP
         then Some (True, ack)
         else sack_options m th data_offs TCPH_LEN ack)"

section \<open>TCP\<close>

definition SFE_IPV6_TCP_MAX_ACK_WINDOW :: u32 where "SFE_IPV6_TCP_MAX_ACK_WINDOW = 65520"

text \<open>
  The sequence number checks: the exception the packet raises, or the three numbers the window
  update needs (\<open>end\<close>, \<open>ack\<close> and \<open>sack\<close>).
\<close>

definition tcp_seq_check6 ::
  "mem \<Rightarrow> nat \<Rightarrow> u32 \<Rightarrow> sfe_ipv6_tcp_connection_match \<Rightarrow> sfe_ipv6_tcp_connection_match \<Rightarrow>
   (sfe_ipv6_exception_events + (u32 \<times> u32 \<times> u32)) option" where
  "tcp_seq_check6 m th len tcp counter_tcp =
     (let seq = ntohl (ld32 m (th + tcp_seq))
      in if s32 (seq - (tcp_max_end6 tcp + 1)) > 0 then Some (Inl TCP_SEQ_EXCEEDS_RIGHT_EDGE6)
      else let data_offs = push_bit 2 (ucast (drop_bit 4 (m (th + tcp_flag_offs)))) :: u32
      in if data_offs < TCPH_LEN then Some (Inl TCP_SMALL_DATA_OFFS6)
      else let ack = ntohl (ld32 m (th + tcp_ack_seq))
      in do {
        (ok, sack) \<leftarrow> sfe_ipv6_process_tcp_option_sack m th data_offs ack;
        if \<not> ok then Some (Inl TCP_BAD_SACK6)
        else let data_offs = data_offs + IPH6_LEN
        in if len < data_offs then Some (Inl TCP_BIG_DATA_OFFS6)
        else let end' = seq + len - data_offs
        in if s32 (end' - (tcp_end6 tcp - tcp_max_win6 counter_tcp - 1)) < 0 then Some (Inl TCP_SEQ_BEFORE_LEFT_EDGE6)
        else if s32 (sack - (tcp_end6 counter_tcp + 1)) > 0 then Some (Inl TCP_ACK_EXCEEDS_RIGHT_EDGE6)
        else let left_edge = tcp_end6 counter_tcp - tcp_max_win6 tcp - SFE_IPV6_TCP_MAX_ACK_WINDOW - 1
        in if s32 (sack - left_edge) < 0 then Some (Inl TCP_ACK_BEFORE_LEFT_EDGE6)
        else Some (Inr (end', ack, sack)) })"

text \<open>The window update. A shift count of 32 or more is undefined in C; it gives 0 here.\<close>

definition tcp_window_update6 :: "mem \<Rightarrow> nat \<Rightarrow> ptr \<Rightarrow> ptr \<Rightarrow> u32 \<Rightarrow> u32 \<Rightarrow> u32 \<Rightarrow> sfe_ipv6 \<Rightarrow> sfe_ipv6" where
  "tcp_window_update6 m th cm counter_cm end' ack sack si =
     (let scaled_win = push_bit (unat (tcp_win_scale6 (cm_tcp6 (matches6 si cm)))) (ucast (ntohs (ld16 m (th + tcp_window)))) :: u32;
          scaled_win = scaled_win + (sack - ack);
          si = (if tcp_max_win6 (cm_tcp6 (matches6 si cm)) < scaled_win
                then upd_cm6 cm (\<lambda>x. x\<lparr>cm_tcp6 := (cm_tcp6 x)\<lparr>tcp_max_win6 := scaled_win\<rparr>\<rparr>) si else si);
          si = (if s32 (end' - tcp_end6 (cm_tcp6 (matches6 si cm))) \<ge> 0
                then upd_cm6 cm (\<lambda>x. x\<lparr>cm_tcp6 := (cm_tcp6 x)\<lparr>tcp_end6 := end'\<rparr>\<rparr>) si else si);
          max_end = sack + scaled_win
      in if s32 (max_end - tcp_max_end6 (cm_tcp6 (matches6 si counter_cm))) \<ge> 0
         then upd_cm6 counter_cm (\<lambda>x. x\<lparr>cm_tcp6 := (cm_tcp6 x)\<lparr>tcp_max_end6 := max_end\<rparr>\<rparr>) si else si)"

text \<open>From the flag test on, for a packet of a known flow that may be forwarded.\<close>

definition recv_tcp_checked6 ::
  "kernel \<Rightarrow> sfe_ipv6 \<Rightarrow> sk_buff \<Rightarrow> u32 \<Rightarrow> u32 \<Rightarrow> ptr \<Rightarrow> recv_result6 option" where
  "recv_tcp_checked6 k si skb len ihl cm =
     (let counter_cm = cm_counter_match6 (matches6 si cm); m = skb_mem skb
      in if has_flag (cm_flags6 (matches6 si cm)) SFE_IPV6_CONNECTION_MATCH_FLAG_NO_SEQ_CHECK
         then Some (tcp_forward6 k len (unat ihl) cm si skb)
         else do {
           v \<leftarrow> tcp_seq_check6 m (unat ihl) len (cm_tcp6 (matches6 si cm)) (cm_tcp6 (matches6 si counter_cm));
           case v of
             Inl e \<Rightarrow> Some (flush_not_forwarded6 k e cm si skb)
           | Inr (end', ack, sack) \<Rightarrow>
               let si = tcp_window_update6 m (unat ihl) cm counter_cm end' ack sack si
               in Some (tcp_forward6 k len (unat ihl) cm si skb) })"

definition sfe_ipv6_recv_tcp ::
  "kernel \<Rightarrow> sfe_ipv6 \<Rightarrow> sk_buff \<Rightarrow> dev_ptr \<Rightarrow> u32 \<Rightarrow> u32 \<Rightarrow> bool \<Rightarrow> recv_result6 option" where
  "sfe_ipv6_recv_tcp k si skb dev len ihl flush_on_find =
     (if \<not> k_may_pull k skb (TCPH_LEN + ihl) then Some (not_forwarded6 TCP_HEADER_INCOMPLETE6 si skb)
      else let m = skb_mem skb;
               src_ip = ld_ip6 m iph6_saddr;
               dest_ip = ld_ip6 m iph6_daddr;
               src_port = ld16 m (unat ihl + th_source);
               dest_port = ld16 m (unat ihl + th_dest);
               flags = ld32 m (unat ihl + tcp_flag_offs)
      in do {
        (r, si) \<leftarrow> sfe_ipv6_find_connection_match si dev IPPROTO_TCP src_ip src_port dest_ip dest_port;
        case r of
          None \<Rightarrow> Some (not_forwarded6 (if fast_flags flags then TCP_NO_CONNECTION_FAST_FLAGS6
                                       else TCP_NO_CONNECTION_SLOW_FLAGS6) si skb)
        | Some cm \<Rightarrow>
            if flush_on_find then Some (flush_not_forwarded6 k TCP_IP_OPTIONS_OR_INITIAL_FRAGMENT6 cm si skb)
            else if cm_flow_accel6 (matches6 si cm) = 0
            then Some \<lparr>r_ret6 = 0, r_si6 = si\<lparr>packets_not_forwarded6 := packets_not_forwarded6 si + 1\<rparr>,
                       r_skb6 = skb, r_xmit6 = [], r_sync6 = []\<rparr>
            else if m iph6_hop_limit < 2 then Some (flush_not_forwarded6 k TCP_SMALL_TTL6 cm si skb)
            else if len > ucast (cm_xmit_dev_mtu6 (matches6 si cm)) \<and> \<not> skb_is_gso skb
            then Some (flush_not_forwarded6 k TCP_NEEDS_FRAGMENTATION6 cm si skb)
            else if \<not> fast_flags flags then Some (flush_not_forwarded6 k TCP_FLAGS6 cm si skb)
            else recv_tcp_checked6 k si skb len ihl cm })"

section \<open>Extension headers\<close>

text \<open>
  The loop over extension headers from offset \<open>ihl\<close> on, as \<open>sfe_ipv6_recv\<close> has it: the exception it
  raises, or the offset and kind of the header behind them and the flag \<open>flush_on_find\<close>. The loop in
  \<open>sfe_ipv6_recv_icmp\<close> is the same but for the flag. None is a loop that does not end.
\<close>

partial_function (option) ext_headers ::
  "kernel \<Rightarrow> sk_buff \<Rightarrow> u32 \<Rightarrow> u8 \<Rightarrow> bool \<Rightarrow> (sfe_ipv6_exception_events + (u32 \<times> u8 \<times> bool)) option" where
  "ext_headers k skb ihl next_hdr flush_on_find =
     (if \<not> sfe_ipv6_is_ext_hdr next_hdr then Some (Inr (ihl, next_hdr, flush_on_find))
      else let m = skb_mem skb; ext_hdr = unat ihl
      in if next_hdr = SFE_IPV6_EXT_HDR_FRAG
            \<and> (ucast (ntohs (ld16 m (ext_hdr + exth_frag_off))) :: u32) AND SFE_IPV6_FRAG_OFFSET \<noteq> 0
         then Some (Inl NON_INITIAL_FRAGMENT6)
      else let ext_hdr_len = ucast (m (ext_hdr + exth_hdr_len)) :: u32;
               ext_hdr_len = push_bit 3 ext_hdr_len;
               ext_hdr_len = ext_hdr_len + EXTH_LEN;
               ihl = ihl + ext_hdr_len
      in if \<not> k_may_pull k skb (ihl + EXTH_LEN) then Some (Inl HEADER_INCOMPLETE6)
      else ext_headers k skb ihl (m (ext_hdr + exth_next_hdr)) True)"

declare ext_headers.simps [code]

section \<open>ICMPv6\<close>

definition ICMPV6_DEST_UNREACH :: u8 where "ICMPV6_DEST_UNREACH = 1"
definition ICMPV6_TIME_EXCEED :: u8 where "ICMPV6_TIME_EXCEED = 3"

text \<open>The lookup takes the protocol from the quoted IP header, not the one behind its extension headers.\<close>

definition sfe_ipv6_recv_icmp ::
  "kernel \<Rightarrow> sfe_ipv6 \<Rightarrow> sk_buff \<Rightarrow> dev_ptr \<Rightarrow> u32 \<Rightarrow> u32 \<Rightarrow> recv_result6 option" where
  "sfe_ipv6_recv_icmp k si skb dev len ihl =
     (let m = skb_mem skb; icmph = unat ihl
      in if \<not> k_may_pull k skb (ihl + ICMPH_LEN) then Some (not_forwarded6 ICMP_HEADER_INCOMPLETE6 si skb)
      else if m icmph \<noteq> ICMPV6_DEST_UNREACH \<and> m icmph \<noteq> ICMPV6_TIME_EXCEED
      then Some (not_forwarded6 ICMP_UNHANDLED_TYPE6 si skb)
      else let ihl = ihl + ICMPH_LEN
      in if \<not> k_may_pull k skb (ihl + IPH6_LEN + EXTH_LEN)
      then Some (not_forwarded6 ICMP_IPV6_HEADER_INCOMPLETE si skb)
      else let icmp_iph = icmph + unat ICMPH_LEN
      in if iph6_version m icmp_iph \<noteq> 6 then Some (not_forwarded6 ICMP_IPV6_NON_V6 si skb)
      else do {
        w \<leftarrow> ext_headers k skb (ihl + IPH6_LEN) (m (icmp_iph + iph6_nexthdr)) False;
        case w of
          Inl e \<Rightarrow> Some (not_forwarded6 e si skb)
        | Inr (ihl, next_hdr, _) \<Rightarrow>
            if next_hdr \<noteq> IPPROTO_UDP \<and> next_hdr \<noteq> IPPROTO_TCP
            then Some (not_forwarded6 ICMP_IPV6_UNHANDLED_PROTOCOL si skb)
            else let src_port = ld16 m (unat ihl + th_source);
                     dest_port = ld16 m (unat ihl + th_dest);
                     src_ip = ld_ip6 m (icmp_iph + iph6_saddr);
                     dest_ip = ld_ip6 m (icmp_iph + iph6_daddr)
            in do {
              (r, si) \<leftarrow> sfe_ipv6_find_connection_match si dev (m (icmp_iph + iph6_nexthdr)) dest_ip dest_port src_ip src_port;
              case r of
                None \<Rightarrow> Some (not_forwarded6 ICMP_NO_CONNECTION6 si skb)
              | Some cm \<Rightarrow> Some (flush_not_forwarded6 k ICMP_FLUSHED_CONNECTION6 cm si skb) } })"

section \<open>The entry point\<close>

definition IPPROTO_ICMPV6 :: u8 where "IPPROTO_ICMPV6 = 58"

definition sfe_ipv6_recv :: "kernel \<Rightarrow> dev_ptr \<Rightarrow> sfe_ipv6 \<Rightarrow> sk_buff \<Rightarrow> recv_result6 option" where
  "sfe_ipv6_recv k dev si skb =
     (let len = skb_len skb; m = skb_mem skb; ihl = IPH6_LEN
      in if \<not> k_may_pull k skb (ihl + EXTH_LEN) then Some (not_forwarded6 HEADER_INCOMPLETE6 si skb)
      else if iph6_version m 0 \<noteq> 6 then Some (not_forwarded6 NON_V6 si skb)
      else let payload_len = ucast (ntohs (ld16 m iph6_payload_len)) :: u32
      in if payload_len > len - ihl then Some (not_forwarded6 DATAGRAM_INCOMPLETE6 si skb)
      else do {
        w \<leftarrow> ext_headers k skb ihl (m iph6_nexthdr) False;
        case w of
          Inl e \<Rightarrow> Some (not_forwarded6 e si skb)
        | Inr (ihl, next_hdr, flush_on_find) \<Rightarrow>
            if next_hdr = IPPROTO_UDP then sfe_ipv6_recv_udp k si skb dev len ihl flush_on_find
            else if next_hdr = IPPROTO_TCP then sfe_ipv6_recv_tcp k si skb dev len ihl flush_on_find
            else if next_hdr = IPPROTO_ICMPV6 then sfe_ipv6_recv_icmp k si skb dev len ihl
            else Some (not_forwarded6 UNHANDLED_PROTOCOL6 si skb) })"

end
