(* ===== verification/SFE_IPv6_Forward.thy ===== *)
theory SFE_IPv6_Forward
  imports SFE_IPv6_Recv
begin

text \<open>
  What forwarding does to the bytes of a packet without extension headers: the rewritten fields, the
  transport checksum that stays valid under translation, the partial checksum that does not, and the
  Ethernet header in front.
\<close>

section \<open>Flows with correct adjustments\<close>

definition adj_ok6 :: "sfe_ipv6_connection_match \<Rightarrow> bool" where
  "adj_ok6 cm \<longleftrightarrow>
     (has_flag (cm_flags6 cm) SFE_IPV6_CONNECTION_MATCH_FLAG_XLATE_SRC \<longrightarrow>
        cm_xlate_src_csum_adjustment6 cm = csum_adjustment6 (cm_match_src_ip6 cm) (cm_match_src_port6 cm)
          (cm_xlate_src_ip6 cm) (cm_xlate_src_port6 cm))
     \<and> (has_flag (cm_flags6 cm) SFE_IPV6_CONNECTION_MATCH_FLAG_XLATE_DEST \<longrightarrow>
        cm_xlate_dest_csum_adjustment6 cm = csum_adjustment6 (cm_match_dest_ip6 cm) (cm_match_dest_port6 cm)
          (cm_xlate_dest_ip6 cm) (cm_xlate_dest_port6 cm))"

lemma adj_ok_compute6: "adj_ok6 (sfe_ipv6_connection_match_compute_translations cm)"
  by (simp add: adj_ok6_def compute_translations_eq6 Let_def)

text \<open>The addresses and ports a packet of a flow carries before and after.\<close>

definition matches_flow6 :: "sfe_ipv6_connection_match \<Rightarrow> nat \<Rightarrow> mem \<Rightarrow> bool" where
  "matches_flow6 cm ihl m \<longleftrightarrow> cm_match_src_ip6 cm = ld_ip6 m iph6_saddr \<and> cm_match_dest_ip6 cm = ld_ip6 m iph6_daddr
     \<and> cm_match_src_port6 cm = ld16 m (ihl + th_source) \<and> cm_match_dest_port6 cm = ld16 m (ihl + th_dest)"

definition out_src_ip6 :: "sfe_ipv6_connection_match \<Rightarrow> sfe_ip_addr" where
  "out_src_ip6 cm = (if has_flag (cm_flags6 cm) SFE_IPV6_CONNECTION_MATCH_FLAG_XLATE_SRC
     then cm_xlate_src_ip6 cm else cm_match_src_ip6 cm)"

definition out_dest_ip6 :: "sfe_ipv6_connection_match \<Rightarrow> sfe_ip_addr" where
  "out_dest_ip6 cm = (if has_flag (cm_flags6 cm) SFE_IPV6_CONNECTION_MATCH_FLAG_XLATE_DEST
     then cm_xlate_dest_ip6 cm else cm_match_dest_ip6 cm)"

definition out_src_port6 :: "sfe_ipv6_connection_match \<Rightarrow> be16" where
  "out_src_port6 cm = (if has_flag (cm_flags6 cm) SFE_IPV6_CONNECTION_MATCH_FLAG_XLATE_SRC
     then cm_xlate_src_port6 cm else cm_match_src_port6 cm)"

definition out_dest_port6 :: "sfe_ipv6_connection_match \<Rightarrow> be16" where
  "out_dest_port6 cm = (if has_flag (cm_flags6 cm) SFE_IPV6_CONNECTION_MATCH_FLAG_XLATE_DEST
     then cm_xlate_dest_port6 cm else cm_match_dest_port6 cm)"

section \<open>The rewritten packet\<close>

text \<open>Remarking and the hop limit come first in both handlers.\<close>

definition hop_step :: "sfe_ipv6_connection_match \<Rightarrow> mem \<Rightarrow> mem" where
  "hop_step cm m = (let m = remark_dscp6 cm m in st8 m iph6_hop_limit (m iph6_hop_limit - 1))"

definition udp_rewrite6 :: "sfe_ipv6_connection_match \<Rightarrow> mem \<Rightarrow> mem" where
  "udp_rewrite6 cm m = udp_xlate_dest6 40 cm (udp_xlate_src6 40 cm (hop_step cm m))"

definition tcp_rewrite6 :: "sfe_ipv6_connection_match \<Rightarrow> mem \<Rightarrow> mem" where
  "tcp_rewrite6 cm m = tcp_xlate_dest6 40 cm (tcp_xlate_src6 40 cm (hop_step cm m))"

lemma remark_dscp_other6 [simp]: "1 < j \<Longrightarrow> remark_dscp6 cm m j = m j"
  by (simp add: remark_dscp6_def sfe_ipv6_change_dsfield_def)

lemma hop_step_other [simp]: "1 < j \<Longrightarrow> j \<noteq> 7 \<Longrightarrow> hop_step cm m j = m j"
  by (simp add: hop_step_def iph6_hop_limit_def Let_def)

lemma hop_step_ld [simp]:
  "7 < j \<Longrightarrow> ld_ip6 (hop_step cm m) j = ld_ip6 m j" "7 < j \<Longrightarrow> ld16 (hop_step cm m) j = ld16 m j"
  by (rule ld_ip6_cong, simp) (simp add: ld16_def)

lemma hop_step_limit: "hop_step cm m 7 = m 7 - 1"
  by (simp add: hop_step_def iph6_hop_limit_def Let_def)

lemma udp_rewrite_fields6:
  assumes f: "matches_flow6 cm 40 m"
  shows "ld_ip6 (udp_rewrite6 cm m) iph6_saddr = out_src_ip6 cm"
    and "ld_ip6 (udp_rewrite6 cm m) iph6_daddr = out_dest_ip6 cm"
    and "ld16 (udp_rewrite6 cm m) (40 + th_source) = out_src_port6 cm"
    and "ld16 (udp_rewrite6 cm m) (40 + th_dest) = out_dest_port6 cm"
    and "udp_rewrite6 cm m iph6_hop_limit = m iph6_hop_limit - 1"
    and "48 \<le> j \<Longrightarrow> udp_rewrite6 cm m j = m j"
    and "j \<in> {2, 3, 4, 5, 6} \<Longrightarrow> udp_rewrite6 cm m j = m j"
  using f unfolding udp_rewrite6_def udp_xlate_src6_def udp_xlate_dest6_def matches_flow6_def
    out_src_ip6_def out_dest_ip6_def out_src_port6_def out_dest_port6_def hdr_defs6
  by (auto simp: Let_def hop_step_limit)

lemma tcp_rewrite_fields6:
  assumes f: "matches_flow6 cm 40 m"
  shows "ld_ip6 (tcp_rewrite6 cm m) iph6_saddr = out_src_ip6 cm"
    and "ld_ip6 (tcp_rewrite6 cm m) iph6_daddr = out_dest_ip6 cm"
    and "ld16 (tcp_rewrite6 cm m) (40 + th_source) = out_src_port6 cm"
    and "ld16 (tcp_rewrite6 cm m) (40 + th_dest) = out_dest_port6 cm"
    and "tcp_rewrite6 cm m iph6_hop_limit = m iph6_hop_limit - 1"
    and "44 \<le> j \<Longrightarrow> j \<notin> {56, 57} \<Longrightarrow> tcp_rewrite6 cm m j = m j"
    and "j \<in> {2, 3, 4, 5, 6} \<Longrightarrow> tcp_rewrite6 cm m j = m j"
  using f unfolding tcp_rewrite6_def tcp_xlate_src6_def tcp_xlate_dest6_def matches_flow6_def
    out_src_ip6_def out_dest_ip6_def out_src_port6_def out_dest_port6_def hdr_defs6
  by (auto simp: Let_def hop_step_limit)

section \<open>The transport checksum\<close>

lemma transport_csum_ok_cong6:
  "(\<And>k. off \<le> k \<Longrightarrow> m' k = m k) \<Longrightarrow> transport_csum_ok6 src dest p m' off n = transport_csum_ok6 src dest p m off n"
  unfolding transport_csum_ok6_def transport_sum6_def using words_sum_cong [of off n m' m] by simp

lemma src_step6:
  assumes "2 * k + 1 < n" "k \<noteq> 0"
    and "m' = st16 (st16 (st_ip6 m 8 ip') 40 port') (40 + 2 * k)
                (csum_update (ld16 m (40 + 2 * k)) (csum_adjustment6 ip (ld16 m 40) ip' port'))"
  shows "transport_csum_ok6 ip' dest p m' 40 n = transport_csum_ok6 ip dest p m 40 n"
proof -
  let ?m = "st_ip6 m 8 ip'"
  have "transport_csum_ok6 ip' dest p m' 40 n = transport_csum_ok6 ip dest p ?m 40 n"
    by (rule transport_xlate_src6 [of 0 n k _ ?m]) (use assms in simp_all)
  also have "\<dots> = transport_csum_ok6 ip dest p m 40 n"
    by (rule transport_csum_ok_cong6) simp
  finally show ?thesis .
qed

lemma dest_step6:
  assumes "2 * k + 1 < n" "3 < n" "k \<noteq> 1"
    and "m' = st16 (st16 (st_ip6 m 24 ip') 42 port') (40 + 2 * k)
                (csum_update (ld16 m (40 + 2 * k)) (csum_adjustment6 ip (ld16 m 42) ip' port'))"
  shows "transport_csum_ok6 src ip' p m' 40 n = transport_csum_ok6 src ip p m 40 n"
proof -
  let ?m = "st_ip6 m 24 ip'"
  have "40 + 2 * k + 1 < 42 \<or> 43 < 40 + 2 * k" using assms(3) by linarith
  then have "transport_csum_ok6 src ip' p m' 40 n = transport_csum_ok6 src ip p ?m 40 n"
    by (intro transport_xlate_dest6 [of 1 n k _ ?m]) (use assms in simp_all)
  also have "\<dots> = transport_csum_ok6 src ip p m 40 n"
    by (rule transport_csum_ok_cong6) simp
  finally show ?thesis .
qed

lemma udp_xlate_src_csum6:
  assumes a: "adj_ok6 cm" and ip: "cm_match_src_ip6 cm = ld_ip6 m 8" and port: "cm_match_src_port6 cm = ld16 m 40"
    and nz: "ld16 m 46 \<noteq> 0" and n: "8 \<le> n"
  shows "transport_csum_ok6 (out_src_ip6 cm) dest p (udp_xlate_src6 40 cm m) 40 n
       = transport_csum_ok6 (ld_ip6 m 8) dest p m 40 n"
proof (cases "has_flag (cm_flags6 cm) SFE_IPV6_CONNECTION_MATCH_FLAG_XLATE_SRC")
  case True
  show ?thesis
    unfolding out_src_ip6_def if_P [OF True]
    by (rule src_step6 [of 3]) (use a n nz True ip port in \<open>simp_all add: udp_xlate_src6_def Let_def hdr_defs6 adj_ok6_def\<close>)
qed (simp add: udp_xlate_src6_def out_src_ip6_def ip)

lemma udp_xlate_dest_csum6:
  assumes a: "adj_ok6 cm" and ip: "cm_match_dest_ip6 cm = ld_ip6 m 24" and port: "cm_match_dest_port6 cm = ld16 m 42"
    and nz: "ld16 m 46 \<noteq> 0" and n: "8 \<le> n"
  shows "transport_csum_ok6 src (out_dest_ip6 cm) p (udp_xlate_dest6 40 cm m) 40 n
       = transport_csum_ok6 src (ld_ip6 m 24) p m 40 n"
proof (cases "has_flag (cm_flags6 cm) SFE_IPV6_CONNECTION_MATCH_FLAG_XLATE_DEST")
  case True
  show ?thesis
    unfolding out_dest_ip6_def if_P [OF True]
    by (rule dest_step6 [of 3]) (use a n nz True ip port in \<open>simp_all add: udp_xlate_dest6_def Let_def hdr_defs6 adj_ok6_def\<close>)
qed (simp add: udp_xlate_dest6_def out_dest_ip6_def ip)

lemma tcp_xlate_src_csum6:
  assumes a: "adj_ok6 cm" and ip: "cm_match_src_ip6 cm = ld_ip6 m 8" and port: "cm_match_src_port6 cm = ld16 m 40"
    and n: "20 \<le> n"
  shows "transport_csum_ok6 (out_src_ip6 cm) dest p (tcp_xlate_src6 40 cm m) 40 n
       = transport_csum_ok6 (ld_ip6 m 8) dest p m 40 n"
proof (cases "has_flag (cm_flags6 cm) SFE_IPV6_CONNECTION_MATCH_FLAG_XLATE_SRC")
  case True
  show ?thesis
    unfolding out_src_ip6_def if_P [OF True]
    by (rule src_step6 [of 8]) (use a n True ip port in \<open>simp_all add: tcp_xlate_src6_def Let_def hdr_defs6 adj_ok6_def\<close>)
qed (simp add: tcp_xlate_src6_def out_src_ip6_def ip)

lemma tcp_xlate_dest_csum6:
  assumes a: "adj_ok6 cm" and ip: "cm_match_dest_ip6 cm = ld_ip6 m 24" and port: "cm_match_dest_port6 cm = ld16 m 42"
    and n: "20 \<le> n"
  shows "transport_csum_ok6 src (out_dest_ip6 cm) p (tcp_xlate_dest6 40 cm m) 40 n
       = transport_csum_ok6 src (ld_ip6 m 24) p m 40 n"
proof (cases "has_flag (cm_flags6 cm) SFE_IPV6_CONNECTION_MATCH_FLAG_XLATE_DEST")
  case True
  show ?thesis
    unfolding out_dest_ip6_def if_P [OF True]
    by (rule dest_step6 [of 8]) (use a n True ip port in \<open>simp_all add: tcp_xlate_dest6_def Let_def hdr_defs6 adj_ok6_def\<close>)
qed (simp add: tcp_xlate_dest6_def out_dest_ip6_def ip)

lemma udp_rewrite_csum6:
  assumes a: "adj_ok6 cm" and f: "matches_flow6 cm 40 m" and nz: "ld16 m 46 \<noteq> 0" and n: "8 \<le> n"
  shows "transport_csum_ok6 (out_src_ip6 cm) (out_dest_ip6 cm) p (udp_rewrite6 cm m) 40 n
       = transport_csum_ok6 (ld_ip6 m iph6_saddr) (ld_ip6 m iph6_daddr) p m 40 n"
proof -
  let ?m0 = "hop_step cm m"
  let ?m1 = "udp_xlate_src6 40 cm ?m0"
  let ?m2 = "udp_xlate_dest6 40 cm ?m1"
  have m0: "ld_ip6 ?m0 8 = ld_ip6 m 8" "ld_ip6 ?m0 24 = ld_ip6 m 24" "ld16 ?m0 40 = ld16 m 40" "ld16 ?m0 42 = ld16 m 42"
    "ld16 ?m0 46 = ld16 m 46"
    by simp_all
  have m1: "ld_ip6 ?m1 24 = ld_ip6 m 24" "ld16 ?m1 42 = ld16 m 42" "ld16 ?m1 46 \<noteq> 0"
    using nz m0 csum_update_nonzero by (auto simp: udp_xlate_src6_def Let_def hdr_defs6)
  have "transport_csum_ok6 (out_src_ip6 cm) (out_dest_ip6 cm) p ?m2 40 n
      = transport_csum_ok6 (out_src_ip6 cm) (ld_ip6 m 24) p ?m1 40 n"
    using udp_xlate_dest_csum6 [OF a _ _ m1(3) n] f m1 by (simp add: matches_flow6_def hdr_defs6)
  also have "\<dots> = transport_csum_ok6 (ld_ip6 m 8) (ld_ip6 m 24) p ?m0 40 n"
    using udp_xlate_src_csum6 [OF a, of ?m0] f m0 nz n by (simp add: matches_flow6_def hdr_defs6)
  also have "\<dots> = transport_csum_ok6 (ld_ip6 m 8) (ld_ip6 m 24) p m 40 n"
    by (rule transport_csum_ok_cong6) simp
  finally show ?thesis by (simp add: udp_rewrite6_def hdr_defs6)
qed

lemma udp_rewrite_zero_csum6:
  assumes "ld16 m 46 = 0"
  shows "ld16 (udp_rewrite6 cm m) 46 = 0"
  using assms unfolding udp_rewrite6_def by (auto simp: udp_xlate_src6_def udp_xlate_dest6_def Let_def hdr_defs6)

lemma udp_rewrite_nonzero_csum6:
  assumes "ld16 m 46 \<noteq> 0"
  shows "ld16 (udp_rewrite6 cm m) 46 \<noteq> 0"
  using assms csum_update_nonzero unfolding udp_rewrite6_def
  by (auto simp: udp_xlate_src6_def udp_xlate_dest6_def Let_def hdr_defs6)

lemma tcp_rewrite_csum6:
  assumes a: "adj_ok6 cm" and f: "matches_flow6 cm 40 m" and n: "20 \<le> n"
  shows "transport_csum_ok6 (out_src_ip6 cm) (out_dest_ip6 cm) p (tcp_rewrite6 cm m) 40 n
       = transport_csum_ok6 (ld_ip6 m iph6_saddr) (ld_ip6 m iph6_daddr) p m 40 n"
proof -
  let ?m0 = "hop_step cm m"
  let ?m1 = "tcp_xlate_src6 40 cm ?m0"
  let ?m2 = "tcp_xlate_dest6 40 cm ?m1"
  have m0: "ld_ip6 ?m0 8 = ld_ip6 m 8" "ld_ip6 ?m0 24 = ld_ip6 m 24" "ld16 ?m0 40 = ld16 m 40" "ld16 ?m0 42 = ld16 m 42"
    by simp_all
  have m1: "ld_ip6 ?m1 24 = ld_ip6 m 24" "ld16 ?m1 42 = ld16 m 42"
    using m0 by (auto simp: tcp_xlate_src6_def Let_def hdr_defs6)
  have "transport_csum_ok6 (out_src_ip6 cm) (out_dest_ip6 cm) p ?m2 40 n
      = transport_csum_ok6 (out_src_ip6 cm) (ld_ip6 m 24) p ?m1 40 n"
    using tcp_xlate_dest_csum6 [OF a _ _ n, of ?m1] f m1 by (simp add: matches_flow6_def hdr_defs6)
  also have "\<dots> = transport_csum_ok6 (ld_ip6 m 8) (ld_ip6 m 24) p ?m0 40 n"
    using tcp_xlate_src_csum6 [OF a _ _ n, of ?m0] f m0 by (simp add: matches_flow6_def hdr_defs6)
  also have "\<dots> = transport_csum_ok6 (ld_ip6 m 8) (ld_ip6 m 24) p m 40 n"
    by (rule transport_csum_ok_cong6) simp
  finally show ?thesis by (simp add: tcp_rewrite6_def hdr_defs6)
qed

text \<open>
  With \<open>CHECKSUM_PARTIAL\<close> the check field holds the sum of the pseudo header, not complemented, for the
  device to complete. The handlers apply the adjustment of a complete checksum all the same, whose sign
  is the opposite one and which includes the port: the field stays right only by coincidence.
\<close>

definition pseudo_ok6 :: "sfe_ip_addr \<Rightarrow> sfe_ip_addr \<Rightarrow> u8 \<Rightarrow> nat \<Rightarrow> u16 \<Rightarrow> bool" where
  "pseudo_ok6 src dest protocol n c \<longleftrightarrow>
     csum_eq (unat c) (ip_sum6 src + ip_sum6 dest + unat (ntohs (ucast protocol))
       + unat (ntohs (of_nat (n div 65536))) + unat (ntohs (of_nat n)))"

lemma csum_eq_cancel_iff: "csum_eq (a + c) (b + c) \<longleftrightarrow> csum_eq a b"
  using csum_eq_cancel csum_eq_add [OF _ refl] by blast

lemma partial_step6:
  assumes c: "csum_eq (unat c) (ip_sum6 ip + x)"
  shows "csum_eq (unat (csum_update c (csum_adjustment6 ip port ip' port'))) (ip_sum6 ip' + x)
    \<longleftrightarrow> csum_eq (2 * ip_sum6 ip + unat port) (2 * ip_sum6 ip' + unat port')"
proof -
  let ?a = "csum_adjustment6 ip port ip' port'" and ?r = "ip_sum6 ip' + unat port'"
  have "csum_eq (unat (csum_update c ?a) + ?r) ((unat c + unat ?a) + ?r)"
    by (rule csum_eq_add [OF csum_update_cong refl])
  also have "(unat c + unat ?a) + ?r = (unat ?a + ip_sum6 ip' + unat port') + unat c" by simp
  also have "csum_eq \<dots> ((ip_sum6 ip + unat port) + (ip_sum6 ip + x))"
    by (rule csum_eq_add [OF csum_adjustment_law6 c])
  also have "(ip_sum6 ip + unat port) + (ip_sum6 ip + x) = (2 * ip_sum6 ip + unat port) + x" by simp
  finally have l: "csum_eq (unat (csum_update c ?a) + ?r) ((2 * ip_sum6 ip + unat port) + x)" .
  have r: "(ip_sum6 ip' + x) + ?r = (2 * ip_sum6 ip' + unat port') + x" by simp
  have "csum_eq (unat (csum_update c ?a)) (ip_sum6 ip' + x)
      \<longleftrightarrow> csum_eq (unat (csum_update c ?a) + ?r) ((ip_sum6 ip' + x) + ?r)"
    by (rule csum_eq_cancel_iff [symmetric])
  also have "\<dots> \<longleftrightarrow> csum_eq ((2 * ip_sum6 ip + unat port) + x) ((2 * ip_sum6 ip' + unat port') + x)"
    unfolding l by (simp only: r)
  also have "\<dots> \<longleftrightarrow> csum_eq (2 * ip_sum6 ip + unat port) (2 * ip_sum6 ip' + unat port')"
    by (rule csum_eq_cancel_iff)
  finally show ?thesis .
qed

lemma pseudo_src6:
  assumes "pseudo_ok6 ip dest p n c"
  shows "pseudo_ok6 ip' dest p n (csum_update c (csum_adjustment6 ip port ip' port'))
    \<longleftrightarrow> csum_eq (2 * ip_sum6 ip + unat port) (2 * ip_sum6 ip' + unat port')"
  using partial_step6 [of c ip "ip_sum6 dest + unat (ntohs (ucast p)) + unat (ntohs (of_nat (n div 65536)))
      + unat (ntohs (of_nat n))" port ip' port'] assms
  by (simp only: pseudo_ok6_def add.assoc)

section \<open>The traffic class\<close>

text \<open>Remarking replaces the DSCP and leaves version, ECN and flow label.\<close>

lemma change_dsfield_bytes:
  shows "sfe_ipv6_change_dsfield m dscp 0 = (m 0 AND 0xf0) OR drop_bit 4 dscp"
    and "sfe_ipv6_change_dsfield m dscp 1 = (m 1 AND 0x3f) OR push_bit 4 dscp"
    and "1 < j \<Longrightarrow> sfe_ipv6_change_dsfield m dscp j = m j"
proof -
  have mask: "ntohs SFE_IPV6_DSCP_MASK = 0x3ff0" by (simp add: ntohs_def SFE_IPV6_DSCP_MASK_def)
  have lo: "(ucast (0x3ff0 :: u16) :: u8) = 0xf0" and hi: "(ucast (drop_bit 8 (0x3ff0 :: u16)) :: u8) = 0x3f" by simp_all
  have b0: "(ucast (ld16 m 0) :: u8) = m 0" and b1: "(ucast (drop_bit 8 (ld16 m 0)) :: u8) = m 1"
    unfolding ld16_def by (rule bit_word_eqI, auto simp: bit_simps dest: bit_imp_le_length)+
  have d0: "(ucast (ntohs (push_bit 4 (ucast dscp))) :: u8) = drop_bit 4 dscp"
    and d1: "(ucast (drop_bit 8 (ntohs (push_bit 4 (ucast dscp)))) :: u8) = push_bit 4 dscp"
    unfolding ntohs_def by (rule bit_word_eqI, auto simp: bit_simps dest: bit_imp_le_length)+
  have an: "(ucast (drop_bit i (a AND b OR c)) :: u8) = ucast (drop_bit i a) AND ucast (drop_bit i b) OR ucast (drop_bit i c)"
    for i and a b c :: u16
    by (rule bit_word_eqI) (auto simp: bit_simps)
  show "sfe_ipv6_change_dsfield m dscp 0 = (m 0 AND 0xf0) OR drop_bit 4 dscp"
    unfolding sfe_ipv6_change_dsfield_def st16_def mask
    using b0 d0 lo an [of 0 "ld16 m 0" "0x3ff0"] by (simp only: drop_bit_0 id_apply fun_upd_apply) simp
  show "sfe_ipv6_change_dsfield m dscp 1 = (m 1 AND 0x3f) OR push_bit 4 dscp"
    unfolding sfe_ipv6_change_dsfield_def st16_def mask
    using b1 d1 hi an [of 8 "ld16 m 0" "0x3ff0"] by simp
  show "1 < j \<Longrightarrow> sfe_ipv6_change_dsfield m dscp j = m j"
    by (simp add: sfe_ipv6_change_dsfield_def)
qed

section \<open>The Ethernet header\<close>

lemma write_eth_hdr_bytes6:
  "k < 6 \<Longrightarrow> write_eth_hdr6 cm m k = cm_xmit_dest_mac6 cm k"
  "k < 6 \<Longrightarrow> write_eth_hdr6 cm m (6 + k) = cm_xmit_src_mac6 cm k"
  "write_eth_hdr6 cm m 12 = 0x86" "write_eth_hdr6 cm m 13 = 0xdd"
  "write_eth_hdr6 cm m (14 + j) = m j"
proof -
  have p: "st16 (skb_push m ETH_HLEN) 12 (ntohs ETH_P_IPV6) = (skb_push m ETH_HLEN)(12 := 0x86, 13 := 0xdd)"
  proof -
    have "(ucast (ntohs ETH_P_IPV6) :: u8) = 0x86" "(ucast (drop_bit 8 (ntohs ETH_P_IPV6)) :: u8) = 0xdd"
      by (simp_all add: ETH_P_IPV6_def ntohs_def)
    then show ?thesis by (simp add: st16_def)
  qed
  show "k < 6 \<Longrightarrow> write_eth_hdr6 cm m k = cm_xmit_dest_mac6 cm k"
    and "k < 6 \<Longrightarrow> write_eth_hdr6 cm m (6 + k) = cm_xmit_src_mac6 cm k"
    by (auto simp: write_eth_hdr6_def Let_def p st16_ld16 numeral_eq_Suc less_Suc_eq)
  show "write_eth_hdr6 cm m 12 = 0x86" "write_eth_hdr6 cm m 13 = 0xdd" "write_eth_hdr6 cm m (14 + j) = m j"
    by (simp_all add: write_eth_hdr6_def Let_def p st16_ld16) (simp add: skb_push_def ETH_HLEN_def)
qed

end
