(* ===== verification/SFE_IPv6_Adjust.thy ===== *)
theory SFE_IPv6_Adjust
  imports SFE_IPv6_Sync SFE_IPv6_Forward
begin

text \<open>
  The second invariant of the engine: every match in use carries checksum adjustments that belong
  to its translations. Every operation keeps it; creating a rule establishes it.
\<close>

definition adj_inv6 :: "sfe_ipv6 \<Rightarrow> bool" where
  "adj_inv6 si \<longleftrightarrow> (\<forall>m \<in> live_matches6 si. adj_ok6 (matches6 si m))"

definition same_adj6 :: "sfe_ipv6 \<Rightarrow> sfe_ipv6 \<Rightarrow> bool" where
  "same_adj6 si si' \<longleftrightarrow> live_matches6 si' \<subseteq> live_matches6 si \<and> (\<forall>p. adj_ok6 (matches6 si p) \<longrightarrow> adj_ok6 (matches6 si' p))"

definition keeps_adj6 :: "(sfe_ipv6_connection_match \<Rightarrow> sfe_ipv6_connection_match) \<Rightarrow> bool" where
  "keeps_adj6 f \<longleftrightarrow> (\<forall>m. adj_ok6 m \<longrightarrow> adj_ok6 (f m))"

lemma adj_inv_same6: "same_adj6 si si' \<Longrightarrow> adj_inv6 si \<Longrightarrow> adj_inv6 si'"
  by (auto simp: adj_inv6_def same_adj6_def)

lemma same_adj_refl6 [simp]: "same_adj6 si si"
  by (simp add: same_adj6_def)

lemma same_adj_trans6: "same_adj6 a b \<Longrightarrow> same_adj6 b c \<Longrightarrow> same_adj6 a c"
  by (auto simp: same_adj6_def)

lemma adj_ok_data6: "adj_ok6 (cm_data6 m) = adj_ok6 m"
  by (simp add: adj_ok6_def cm_data6_def)

lemma same_adj_data6: "same_data6 si si' \<Longrightarrow> same_adj6 si si'"
  unfolding same_adj6_def same_data6_def by (metis adj_ok_data6 order_refl)

lemma has_flag_or6: "has_flag (a OR b) f \<longleftrightarrow> has_flag a f \<or> has_flag b f"
  by (auto simp: has_flag_def bit.conj_disj_distrib2 or_eq_0_iff)

lemma has_flag_no_seq6 [simp]:
  "has_flag (fl OR SFE_IPV6_CONNECTION_MATCH_FLAG_NO_SEQ_CHECK) SFE_IPV6_CONNECTION_MATCH_FLAG_XLATE_SRC
     = has_flag fl SFE_IPV6_CONNECTION_MATCH_FLAG_XLATE_SRC"
  "has_flag (fl OR SFE_IPV6_CONNECTION_MATCH_FLAG_NO_SEQ_CHECK) SFE_IPV6_CONNECTION_MATCH_FLAG_XLATE_DEST
     = has_flag fl SFE_IPV6_CONNECTION_MATCH_FLAG_XLATE_DEST"
  "has_flag (fl AND NOT SFE_IPV6_CONNECTION_MATCH_FLAG_NO_SEQ_CHECK) SFE_IPV6_CONNECTION_MATCH_FLAG_XLATE_SRC
     = has_flag fl SFE_IPV6_CONNECTION_MATCH_FLAG_XLATE_SRC"
  "has_flag (fl AND NOT SFE_IPV6_CONNECTION_MATCH_FLAG_NO_SEQ_CHECK) SFE_IPV6_CONNECTION_MATCH_FLAG_XLATE_DEST
     = has_flag fl SFE_IPV6_CONNECTION_MATCH_FLAG_XLATE_DEST"
proof -
  have n: "NOT 4 AND (1 :: u32) = 1" "NOT 4 AND (2 :: u32) = 2" by simp_all
  show "has_flag (fl OR SFE_IPV6_CONNECTION_MATCH_FLAG_NO_SEQ_CHECK) SFE_IPV6_CONNECTION_MATCH_FLAG_XLATE_SRC
     = has_flag fl SFE_IPV6_CONNECTION_MATCH_FLAG_XLATE_SRC"
    and "has_flag (fl OR SFE_IPV6_CONNECTION_MATCH_FLAG_NO_SEQ_CHECK) SFE_IPV6_CONNECTION_MATCH_FLAG_XLATE_DEST
     = has_flag fl SFE_IPV6_CONNECTION_MATCH_FLAG_XLATE_DEST"
    unfolding has_flag_or6 by (simp_all add: has_flag_def match_flag_defs6)
  show "has_flag (fl AND NOT SFE_IPV6_CONNECTION_MATCH_FLAG_NO_SEQ_CHECK) SFE_IPV6_CONNECTION_MATCH_FLAG_XLATE_SRC
     = has_flag fl SFE_IPV6_CONNECTION_MATCH_FLAG_XLATE_SRC"
    and "has_flag (fl AND NOT SFE_IPV6_CONNECTION_MATCH_FLAG_NO_SEQ_CHECK) SFE_IPV6_CONNECTION_MATCH_FLAG_XLATE_DEST
     = has_flag fl SFE_IPV6_CONNECTION_MATCH_FLAG_XLATE_DEST"
    unfolding has_flag_def match_flag_defs6 and.assoc n by (rule refl)+
qed

lemma keeps_adj_simps6 [simp]:
  "keeps_adj6 (\<lambda>m. m\<lparr>cm_tcp6 := f m\<rparr>)"
  "keeps_adj6 (cm_set_flag6 SFE_IPV6_CONNECTION_MATCH_FLAG_NO_SEQ_CHECK)"
  "keeps_adj6 (cm_clear_flag6 SFE_IPV6_CONNECTION_MATCH_FLAG_NO_SEQ_CHECK)"
  "keeps_adj6 sfe_ipv6_connection_match_update_summary_stats"
  "keeps_adj6 (\<lambda>m. m\<lparr>cm_rx_packet_count6 := h m\<rparr>)" "keeps_adj6 (\<lambda>m. m\<lparr>cm_rx_byte_count6 := h m\<rparr>)"
  "keeps_adj6 (\<lambda>m. m\<lparr>cm_active6 := b\<rparr>)" "keeps_adj6 (\<lambda>m. m\<lparr>cm_active_prev6 := q\<rparr>)"
  "keeps_adj6 (\<lambda>m. m\<lparr>cm_active_next6 := q\<rparr>)"
  by (simp_all add: keeps_adj6_def adj_ok6_def cm_set_flag6_def cm_clear_flag6_def
      sfe_ipv6_connection_match_update_summary_stats_def)

lemma same_adj_upd_cm6: "keeps_adj6 f \<Longrightarrow> same_adj6 si si' \<Longrightarrow> same_adj6 si (upd_cm6 p f si')"
  by (simp add: same_adj6_def upd_cm6_def keeps_adj6_def)

lemma same_adj_frame6:
  "matches6 si' = matches6 si \<Longrightarrow> live_matches6 si' \<subseteq> live_matches6 si \<Longrightarrow> same_adj6 si si'"
  by (simp add: same_adj6_def)

lemma gen_sync_adj6: "same_adj6 si (snd (sfe_ipv6_gen_sync_connection si c sis reason now))"
proof -
  let ?f = sfe_ipv6_connection_match_update_summary_stats
  have "same_adj6 si (upd_cm6 (c_reply_match6 (connections6 si c)) ?f (upd_cm6 (c_original_match6 (connections6 si c)) ?f si))"
    by (intro same_adj_upd_cm6) simp_all
  then show ?thesis
    by (simp add: sfe_ipv6_gen_sync_connection_def Let_def same_adj6_def upd_c6_def)
qed

lemma flush_adj6: "same_adj6 si (fst (sfe_ipv6_flush_connection j si c reason))"
proof (cases "sync_rule_callback6 si")
  case None
  then show ?thesis
    by (intro same_adj_frame6) (auto simp: sfe_ipv6_flush_connection_def Let_def dev_put6_def)
next
  case (Some cb)
  let ?si0 = "si\<lparr>connection_flushes6 := connection_flushes6 si + 1\<rparr>"
  have "same_adj6 si (snd (sfe_ipv6_gen_sync_connection ?si0 c stack_sis reason j))"
    by (rule same_adj_trans6 [OF same_adj_frame6 gen_sync_adj6]) simp_all
  then show ?thesis
    by (rule same_adj_trans6 [OF _ same_adj_frame6])
      (use Some in \<open>auto simp: sfe_ipv6_flush_connection_def Let_def dev_put6_def split_beta\<close>)
qed

lemma remove_flush_adj6:
  "same_adj6 si (fst (sfe_ipv6_flush_connection j (sfe_ipv6_remove_connection si c) c reason))"
  by (rule same_adj_trans6 [OF same_adj_data6 [OF same_data_remove_connection6] flush_adj6])

lemma update_protocol_state_adj6: "same_adj6 si (sfe_ipv6_update_protocol_state si c sic)"
  by (auto simp: sfe_ipv6_update_protocol_state_def sfe_ipv6_update_tcp_state_def Let_def intro!: same_adj_upd_cm6)

lemma new_adj6: "adj_ok6 (new_original6 devs sic c r m)" "adj_ok6 (new_reply6 devs sic c oc m)"
  by (simp_all add: new_original6_def new_reply6_def adj_ok_compute6)

lemma create_rule_adj6:
  assumes i: "sfe_inv6 si g P" and a: "adj_inv6 si" and f: "\<And>c oc r. kc = Some c \<Longrightarrow> ko = Some oc \<Longrightarrow> kr = Some r \<Longrightarrow> fresh6 si c oc r"
    and e: "sfe_ipv6_create_rule devs j kc ko kr si sic = Some (rc, si')"
  shows "adj_inv6 si'"
proof -
  define si1 where "si1 = si\<lparr>connection_create_requests6 := connection_create_requests6 si + 1\<rparr>"
  note R = create_rule_result6 [OF i, of devs j kc ko kr sic, unfolded e, folded si1_def]
  have a1: "adj_inv6 si1" by (rule adj_inv_same6 [OF same_adj_frame6 a]) (simp_all add: si1_def)
  have u: "adj_inv6 (sfe_ipv6_update_protocol_state (si1\<lparr>connection_create_collisions6 := n\<rparr>) c sic)" for n c
    by (rule adj_inv_same6 [OF same_adj_trans6 [OF same_adj_frame6 update_protocol_state_adj6] a1]) simp_all
  show ?thesis
  proof (cases "devs_up6 devs sic \<and> sfe_lookup6 si (sic_key6 sic) = None \<and> kc \<noteq> None \<and> ko \<noteq> None \<and> kr \<noteq> None")
    case True
    then obtain c oc r where k: "kc = Some c" "ko = Some oc" "kr = Some r" by blast
    have ne: "oc \<noteq> r" using f [OF k] by (simp add: fresh6_def)
    let ?b = "built6 devs j sic c oc r (alloc6 c oc r si1)"
    have "adj_inv6 ?b"
      using a1 by (auto simp: adj_inv6_def built_fields6 new_adj6) (simp_all add: alloc6_def)
    then have "adj_inv6 (sfe_ipv6_insert_connection ?b c)"
      by (rule adj_inv_same6 [OF same_adj_data6 [OF same_data_insert_connection6]])
    moreover have "si' = sfe_ipv6_insert_connection ?b c"
      using R True k by (simp add: build_rule_eq6 [OF ne])
    ultimately show ?thesis by simp
  next
    case False
    then show ?thesis using R a a1 u by (auto split: if_splits option.splits)
  qed
qed

lemma destroy_rule_adj6:
  assumes i: "sfe_inv6 si g P" and a: "adj_inv6 si" and d: "sfe_ipv6_destroy_rule j si sid = Some (si', out)"
  shows "adj_inv6 si'"
proof -
  have f1: "same_adj6 si (si\<lparr>connection_destroy_requests6 := n\<rparr>)" "same_adj6 si (si\<lparr>connection_destroy_requests6 := n, connection_destroy_misses6 := n'\<rparr>)" for n n'
    by (rule same_adj_frame6, simp_all)+
  have "same_adj6 si si'"
    using d f1 same_adj_trans6 [OF f1(1) remove_flush_adj6]
    unfolding destroy_rule_result6 [OF i] by (auto split: option.splits) (metis fst_conv)
  then show ?thesis using a by (rule adj_inv_same6)
qed

lemma destroy_all_adj6:
  assumes "sfe_inv6 si g P" and "sfe_ipv6_destroy_all_rules_for_dev j dev si = Some (si', out)"
  shows "same_adj6 si si'"
  using assms
proof (induction "length (ga g)" arbitrary: si g out rule: less_induct)
  case less
  let ?U = "\<lambda>c. uses_dev6 (connections6 si c) dev"
  note e = less.prems(2) [unfolded sfe_ipv6_destroy_all_rules_for_dev.simps [of j dev si] destroy_all_find6 [OF less.prems(1), of ?U]]
  show ?case
  proof (cases "find ?U (ga g)")
    case None
    then show ?thesis using e by simp
  next
    case (Some c)
    then have c: "c \<in> set (ga g)" by (auto simp: find_Some_iff)
    let ?fl = "sfe_ipv6_flush_connection j (sfe_ipv6_remove_connection si c) c SFE_SYNC_REASON_DESTROY"
    have ga: "ga (lists_remove (ft6 si) g c) = remove1 c (ga g)" by (simp add: lists_remove_def)
    have l: "length (ga (lists_remove (ft6 si) g c)) < length (ga g)"
      using c by (simp add: ga length_remove1) (use length_pos_if_in_set in fastforce)
    obtain out' where "sfe_ipv6_destroy_all_rules_for_dev j dev (fst ?fl) = Some (si', out')"
      using e Some by (auto simp: split_beta Option.bind_eq_Some_conv)
    from less.hyps [OF l remove_flush_inv6 [OF less.prems(1) c, of j SFE_SYNC_REASON_DESTROY] this]
    show ?thesis by (rule same_adj_trans6 [OF remove_flush_adj6])
  qed
qed

lemma mark_rule_adj6:
  assumes i: "sfe_inv6 si g P" and m: "sfe_ipv6_mark_rule si mk = Some si'"
  shows "same_adj6 si si'"
  using m unfolding mark_rule_result6 [OF i]
  by (auto simp: upd_c6_def intro!: same_adj_frame6 split: option.splits)

lemma update_rule_adj6:
  assumes i: "sfe_inv6 si g P" and u: "sfe_ipv6_update_rule si sic = Some si'"
  shows "same_adj6 si si'"
  using u update_protocol_state_adj6 unfolding update_rule_result6 [OF i] by (auto split: option.splits)

lemma deactivate_adj6:
  "same_adj6 si (deactivate_head6 si cm)" "deactivate_counter6 si cc = Some si' \<Longrightarrow> same_adj6 si si'"
proof -
  have cm: "adj_ok6 (m\<lparr>cm_active6 := b\<rparr>) = adj_ok6 m" "adj_ok6 (m\<lparr>cm_active_next6 := q\<rparr>) = adj_ok6 m"
    "adj_ok6 (m\<lparr>cm_active_prev6 := q\<rparr>) = adj_ok6 m" for m b q
    by (simp_all add: adj_ok6_def)
  show "same_adj6 si (deactivate_head6 si cm)"
    by (simp add: same_adj6_def deactivate_head6_def Let_def upd_cm6_def cm split: option.split)
  show "deactivate_counter6 si cc = Some si' \<Longrightarrow> same_adj6 si si'"
    by (auto simp: same_adj6_def deactivate_counter6_def Let_def upd_cm6_def cm split: option.splits if_splits)
qed

lemma periodic_sync_loop_adj6:
  "periodic_sync_loop6 quota cb now si = Some (si', out) \<Longrightarrow> same_adj6 si si'"
proof (induction quota cb now si arbitrary: out rule: periodic_sync_loop6.induct)
  case (2 quota cb now si)
  show ?case
  proof (cases "active_head6 si")
    case None
    with 2 show ?thesis by simp
  next
    case (Some cm)
    with 2 obtain si1 where d: "deactivate_counter6 si (cm_counter_match6 (matches6 si cm)) = Some si1"
      by (auto simp: Option.bind_eq_Some_conv)
    let ?si2 = "deactivate_head6 si1 cm"
    let ?gs = "sfe_ipv6_gen_sync_connection ?si2 (cm_connection6 (matches6 ?si2 cm)) stack_sis SFE_SYNC_REASON_STATS now"
    have a: "same_adj6 si (snd ?gs)"
      by (rule same_adj_trans6 [OF deactivate_adj6(2) [OF d] same_adj_trans6 [OF deactivate_adj6(1) gen_sync_adj6]])
    from 2(2) Some d obtain out' where "periodic_sync_loop6 quota cb now (snd ?gs) = Some (si', out')"
      by (auto simp: Option.bind_eq_Some_conv split_beta Let_def)
    from 2(1) [OF Some d refl _ refl this, of "fst ?gs"] show ?thesis
      by (intro same_adj_trans6 [OF a]) simp
  qed
qed simp

lemma periodic_sync_adj6:
  assumes "sfe_ipv6_periodic_sync hz now j si = Some (si', out)"
  shows "same_adj6 si si'"
proof (cases "sync_rule_callback6 si")
  case None
  with assms show ?thesis by (auto simp: sfe_ipv6_periodic_sync_def intro: same_adj_frame6)
next
  case (Some cb)
  let ?si = "sfe_ipv6_update_summary_stats si"
  obtain si1 where l: "periodic_sync_loop6 (unat ((num_connections6 ?si + 63) div 64)) cb now ?si = Some (si1, out)"
    and e: "si' = si1\<lparr>timer_expires6 := j + (hz + 99) div 100\<rparr>"
    using assms Some by (auto simp: sfe_ipv6_periodic_sync_def Let_def Option.bind_eq_Some_conv)
  have "same_adj6 si ?si" by (rule same_adj_frame6) (simp_all add: sfe_ipv6_update_summary_stats_def)
  from same_adj_trans6 [OF this periodic_sync_loop_adj6 [OF l]]
  have "same_adj6 si si1" .
  then show ?thesis unfolding e by (rule same_adj_trans6) (rule same_adj_frame6, simp_all)
qed

end
