(* ===== verification/SFE_IPv6_Ext.thy ===== *)
theory SFE_IPv6_Ext
  imports SFE_IPv6_Recv
begin

text \<open>
  The walk over extension headers. It ends because each header moves the offset on and the kernel
  refuses to pull bytes that the packet does not have.
\<close>

text \<open>
  What \<open>pskb_may_pull\<close> is documented to do for a buffer: it fails when the buffer is shorter than the
  bytes asked for. A buffer of 2 GB or more does not exist.
\<close>

definition pull_checks :: "kernel \<Rightarrow> sk_buff \<Rightarrow> bool" where
  "pull_checks k skb \<longleftrightarrow> (\<forall>n. k_may_pull k skb n \<longrightarrow> n \<le> skb_len skb) \<and> skb_len skb < 0x80000000"

lemma pull_checksD:
  assumes "pull_checks k skb" and "k_may_pull k skb n"
  shows "unat n \<le> unat (skb_len skb)" and "unat (skb_len skb) < 2147483648"
  using assms by (simp_all add: pull_checks_def word_le_nat_alt word_less_nat_alt)

text \<open>Each step moves the offset on by at least 8 and at most 2048 bytes.\<close>

lemma ext_step_offset:
  assumes "unat ihl < 2147483648"
  shows "unat (ihl + (push_bit 3 (ucast (b :: u8)) + EXTH_LEN)) = unat ihl + 8 * unat b + 8"
    and "unat (ihl + (push_bit 3 (ucast b) + EXTH_LEN) + EXTH_LEN) = unat ihl + 8 * unat b + 16"
proof -
  have b: "unat (ucast b :: u32) = unat b" by (rule unat_ucast_u8_u32)
  have l: "unat b < 256" by (rule unat_u8_less)
  have p: "unat (push_bit 3 (ucast b) :: u32) = 8 * unat b"
    using b l by (simp add: push_bit_eq_mult unat_word_ariths)
  have e: "unat (push_bit 3 (ucast b) + EXTH_LEN) = 8 * unat b + 8"
    using p l by (subst unat_plus_u32) (simp_all add: EXTH_LEN_def)
  show s: "unat (ihl + (push_bit 3 (ucast b) + EXTH_LEN)) = unat ihl + 8 * unat b + 8"
    using e l assms by (subst unat_plus_u32) simp_all
  show "unat (ihl + (push_bit 3 (ucast b) + EXTH_LEN) + EXTH_LEN) = unat ihl + 8 * unat b + 16"
    using s l assms by (subst unat_plus_u32) (simp_all add: EXTH_LEN_def)
qed

definition walk_ok :: "sk_buff \<Rightarrow> u32 \<Rightarrow> u8 \<Rightarrow> bool \<Rightarrow> (sfe_ipv6_exception_events + (u32 \<times> u8 \<times> bool)) \<Rightarrow> bool" where
  "walk_ok skb ihl nh fl r \<longleftrightarrow> (case r of
     Inl e \<Rightarrow> sfe_ipv6_is_ext_hdr nh \<and> e \<in> {NON_INITIAL_FRAGMENT6, HEADER_INCOMPLETE6}
   | Inr (ihl', nh', fl') \<Rightarrow>
       unat ihl \<le> unat ihl' \<and> unat ihl' + 8 \<le> unat (skb_len skb) \<and> \<not> sfe_ipv6_is_ext_hdr nh'
       \<and> (fl' \<longleftrightarrow> fl \<or> sfe_ipv6_is_ext_hdr nh)
       \<and> (\<not> sfe_ipv6_is_ext_hdr nh \<longrightarrow> ihl' = ihl \<and> nh' = nh))"

lemma ext_headers_spec:
  assumes pc: "pull_checks k skb" and l: "unat ihl + 8 \<le> unat (skb_len skb)"
  shows "\<exists>r. ext_headers k skb ihl nh fl = Some r \<and> walk_ok skb ihl nh fl r"
  using l
proof (induction "unat (skb_len skb) - unat ihl" arbitrary: ihl nh fl rule: less_induct)
  case less
  have lt: "unat (skb_len skb) < 2147483648" using pc by (simp add: pull_checks_def word_less_nat_alt)
  show ?case
  proof (cases "sfe_ipv6_is_ext_hdr nh")
    case False
    with less.prems show ?thesis by (subst ext_headers.simps) (simp add: walk_ok_def)
  next
    case E: True
    let ?m = "skb_mem skb"
    let ?len = "push_bit 3 (ucast (?m (unat ihl + exth_hdr_len))) + EXTH_LEN :: u32"
    let ?nh = "?m (unat ihl + exth_next_hdr)"
    let ?frag = "nh = SFE_IPV6_EXT_HDR_FRAG
            \<and> (ucast (ntohs (ld16 ?m (unat ihl + exth_frag_off))) :: u32) AND SFE_IPV6_FRAG_OFFSET \<noteq> 0"
    show ?thesis
    proof (cases "?frag \<or> \<not> k_may_pull k skb (ihl + ?len + EXTH_LEN)")
      case True
      with E show ?thesis by (subst ext_headers.simps) (auto simp: Let_def walk_ok_def)
    next
      case False
      then have pull: "k_may_pull k skb (ihl + ?len + EXTH_LEN)" by simp
      have "unat ihl < 2147483648" using less.prems lt by linarith
      note off = ext_step_offset [OF this, of "?m (unat ihl + exth_hdr_len)"]
      have n: "unat (ihl + ?len) + 8 \<le> unat (skb_len skb)"
        using pull_checksD(1) [OF pc pull] off by linarith
      have "unat (skb_len skb) - unat (ihl + ?len) < unat (skb_len skb) - unat ihl"
        using off(1) n by linarith
      from less.hyps [OF this n, of ?nh True]
      obtain r where r: "ext_headers k skb (ihl + ?len) ?nh True = Some r" "walk_ok skb (ihl + ?len) ?nh True r" by blast
      have "ext_headers k skb ihl nh fl = Some r"
        by (subst ext_headers.simps) (use E False r(1) in \<open>auto simp: Let_def\<close>)
      moreover have "walk_ok skb ihl nh fl r"
        using r(2) E off(1) by (auto simp: walk_ok_def split: sum.splits)
      ultimately show ?thesis by blast
    qed
  qed
qed

end
