(* ===== verification/SFE_IPv6_Recv_Inv.thy ===== *)
theory SFE_IPv6_Recv_Inv
  imports SFE_IPv6_Adjust SFE_IPv6_Ext
begin

text \<open>
  The data path on a well-formed engine: it always returns, keeps the invariant, leaves a packet it
  does not forward untouched, and counts every packet exactly once. The option parser returns for
  every data offset a TCP header can encode.
\<close>

section \<open>The option parser\<close>

lemma process_sack_returns6:
  "data_offs \<le> 240 \<Longrightarrow> \<exists>r. sfe_ipv6_process_tcp_option_sack m th data_offs ack = Some r"
  using sack_options_returns unfolding sfe_ipv6_process_tcp_option_sack_def Let_def by auto

lemma tcp_seq_check_returns6: "\<exists>r. tcp_seq_check6 m th len tcp counter_tcp = Some r"
proof -
  obtain r where "sfe_ipv6_process_tcp_option_sack m th (push_bit 2 (ucast (drop_bit 4 (m (th + tcp_flag_offs)))))
      (ntohl (ld32 m (th + tcp_ack_seq))) = Some r"
    using process_sack_returns6 [OF doff_bound] by blast
  then show ?thesis unfolding tcp_seq_check6_def Let_def by (simp split: prod.split)
qed

section \<open>The engine under the data path\<close>

lemma ft_mark_active6: "ft6 (mark_active6 cm si) = ft_activate (ft6 si) cm"
  unfolding mark_active6_def Let_def ft_activate_def snoc_nx_def snoc_hd_def
  by (cases "von (ft6 si) cm"; cases "vtl (ft6 si)") (auto simp: ft_read6 simp del: ft_sel6)

lemma mark_active_frame6 [simp]:
  "connections6 (mark_active6 cm si) = connections6 si" "live_matches6 (mark_active6 cm si) = live_matches6 si"
  "live_connections6 (mark_active6 cm si) = live_connections6 si" "dev_refs6 (mark_active6 cm si) = dev_refs6 si"
  "num_connections6 (mark_active6 cm si) = num_connections6 si"
  "packets_forwarded6 (mark_active6 cm si) = packets_forwarded6 si"
  "packets_not_forwarded6 (mark_active6 cm si) = packets_not_forwarded6 si"
  "exception_events6 (mark_active6 cm si) = exception_events6 si"
  "sync_rule_callback6 (mark_active6 cm si) = sync_rule_callback6 si"
  by (simp_all add: mark_active6_def Let_def upd_cm6_def split: option.split)

lemma sfe_inv_mark_active6:
  assumes i: "sfe_inv6 si g P" and m: "cm \<in> ft_live (ft6 si) (set (ga g))"
  shows "\<exists>g'. sfe_inv6 (mark_active6 cm si) g' P \<and> ga g' = ga g"
proof -
  let ?g = "if von (ft6 si) cm then g else g\<lparr>gv := gv g @ [cm]\<rparr>"
  have fi: "ft_inv (ft6 si) g" using i by (simp add: sfe_inv6_def)
  have "ft_inv (ft6 (mark_active6 cm si)) ?g"
    unfolding ft_mark_active6 by (rule ft_activate_inv [OF fi m])
  moreover have "com (ft6 (mark_active6 cm si)) = com (ft6 si)" "crm (ft6 (mark_active6 cm si)) = crm (ft6 si)"
    "mco (ft6 (mark_active6 cm si)) = mco (ft6 si)" "mct (ft6 (mark_active6 cm si)) = mct (ft6 si)"
    unfolding ft_mark_active6 by (simp_all add: ft_activate_def del: ft_sel6)
  then have "ft_live (ft6 (mark_active6 cm si)) C = ft_live (ft6 si) C" "pairs_ok (ft6 (mark_active6 cm si)) C = pairs_ok (ft6 si) C" for C
    unfolding ft_live_def pairs_ok_def by simp_all
  moreover have "refs_of6 (mark_active6 cm si) cs d = refs_of6 si cs d" for cs d by (simp add: refs_of6_def)
  ultimately have "sfe_inv6 (mark_active6 cm si) ?g P"
    using i by (simp add: sfe_inv6_def mem_ok6_def fun_eq_iff)
  then show ?thesis by (intro exI [of _ ?g]) simp
qed

lemma same_shape_exception6 [simp]: "same_shape6 si (exception6 e si') = same_shape6 si si'"
  by (simp add: exception6_def)

lemma same_rules_exception6 [simp]: "same_rules6 si (exception6 e si') = same_rules6 si si'"
  by (simp add: exception6_def same_rules6_def)

lemma keeps_cm_counts6 [simp]:
  "keeps_cm6 (\<lambda>m. m\<lparr>cm_rx_packet_count6 := f m\<rparr>)" "keeps_cm6 (\<lambda>m. m\<lparr>cm_rx_byte_count6 := f m\<rparr>)"
  by (simp_all add: keeps_cm6_def cm_view6_def cm_key6_def)

lemma window_update_shape6 [simp]:
  "same_shape6 si (tcp_window_update6 m th cm counter_cm e a s si') = same_shape6 si si'"
  "same_rules6 si (tcp_window_update6 m th cm counter_cm e a s si') = same_rules6 si si'"
  by (simp_all add: tcp_window_update6_def Let_def)

lemma live_key_unique6:
  assumes i: "sfe_inv6 si g P" and s: "same_shape6 si si'"
  shows "ft_live (ft6 si') C = ft_live (ft6 si) C"
  using s by (simp add: same_shape6_def)

section \<open>What one packet does\<close>

text \<open>
  \<open>kept6\<close>: the rules are as before. \<open>flushed6 c\<close>: connection \<open>c\<close> is gone, reported once if a
  callback is registered, and the other rules are as before.
\<close>

definition flushed6 :: "sfe_ipv6 \<Rightarrow> ptr \<Rightarrow> recv_result6 \<Rightarrow> bool" where
  "flushed6 si c res \<longleftrightarrow> sfe_rules6 (r_si6 res) = (sfe_rules6 si)(c_key6 (connections6 si c) := None)
     \<and> sfe_lookup6 si (c_key6 (connections6 si c)) = Some c
     \<and> map (\<lambda>(cb, sis). (cb, sis_key6 sis, sis_reason sis)) (r_sync6 res)
         = syncs_of6 (sync_rule_callback6 si) SFE_SYNC_REASON_FLUSH [c_key6 (connections6 si c)]"

definition dropped6 :: "sfe_ipv6 \<Rightarrow> sk_buff \<Rightarrow> recv_result6 \<Rightarrow> bool" where
  "dropped6 si skb res \<longleftrightarrow> r_ret6 res = 0 \<and> r_skb6 res = skb \<and> r_xmit6 res = []
     \<and> packets_forwarded6 (r_si6 res) = packets_forwarded6 si
     \<and> packets_not_forwarded6 (r_si6 res) = packets_not_forwarded6 si + 1"

definition forwarded6 :: "sfe_ipv6 \<Rightarrow> recv_result6 \<Rightarrow> bool" where
  "forwarded6 si res \<longleftrightarrow> r_ret6 res = 1 \<and> r_xmit6 res = [r_skb6 res] \<and> r_sync6 res = []
     \<and> packets_forwarded6 (r_si6 res) = packets_forwarded6 si + 1
     \<and> packets_not_forwarded6 (r_si6 res) = packets_not_forwarded6 si
     \<and> exception_events6 (r_si6 res) = exception_events6 si"

definition kept6 :: "sfe_ipv6 \<Rightarrow> recv_result6 \<Rightarrow> bool" where
  "kept6 si res \<longleftrightarrow> sfe_rules6 (r_si6 res) = sfe_rules6 si \<and> r_sync6 res = []"

text \<open>The exception counters: event \<open>e\<close> counted once, or none.\<close>

definition counted6 :: "sfe_ipv6_exception_events option \<Rightarrow> sfe_ipv6 \<Rightarrow> sfe_ipv6 \<Rightarrow> bool" where
  "counted6 eo si si' \<longleftrightarrow> exception_events6 si' = (case eo of None \<Rightarrow> exception_events6 si
     | Some e \<Rightarrow> (exception_events6 si)(e := exception_events6 si e + 1))"

definition recv_outcome6 :: "sfe_ipv6 \<Rightarrow> sk_buff \<Rightarrow> recv_result6 \<Rightarrow> bool" where
  "recv_outcome6 si skb res \<longleftrightarrow>
     dropped6 si skb res \<and> (\<exists>eo. counted6 eo si (r_si6 res)) \<and> (kept6 si res \<or> (\<exists>c. flushed6 si c res))
     \<or> forwarded6 si res \<and> kept6 si res"

lemma flush_counters6:
  "packets_forwarded6 (fst (sfe_ipv6_flush_connection j si c reason)) = packets_forwarded6 si"
  "packets_not_forwarded6 (fst (sfe_ipv6_flush_connection j si c reason)) = packets_not_forwarded6 si"
  "exception_events6 (fst (sfe_ipv6_flush_connection j si c reason)) = exception_events6 si"
  by (simp_all add: sfe_ipv6_flush_connection_def sfe_ipv6_gen_sync_connection_def
      Let_def split_beta dev_put6_def upd_cm6_def upd_c6_def split: option.split)

lemma not_forwarded_ok6:
  assumes i: "sfe_inv6 si g P"
  shows "sfe_inv6 (r_si6 (not_forwarded6 e si skb)) g P" and "dropped6 si skb (not_forwarded6 e si skb)"
    and "kept6 si (not_forwarded6 e si skb)" and "counted6 (Some e) si (r_si6 (not_forwarded6 e si skb))"
proof -
  show "sfe_inv6 (r_si6 (not_forwarded6 e si skb)) g P"
    by (rule sfe_inv_same_shape6 [OF _ i]) (simp add: not_forwarded6_def)
  have "sfe_rules6 (exception6 e si) = sfe_rules6 si"
    by (rule rules_same_shape6 [OF i]) simp_all
  then show "kept6 si (not_forwarded6 e si skb)" by (simp add: kept6_def not_forwarded6_def)
  show "dropped6 si skb (not_forwarded6 e si skb)" "counted6 (Some e) si (r_si6 (not_forwarded6 e si skb))"
    by (simp_all add: dropped6_def not_forwarded6_def counted6_def exception6_def)
qed

lemma flush_not_forwarded_ok6:
  fixes k e skb
  assumes i: "sfe_inv6 si g P" and m: "cm \<in> ft_live (ft6 si) (set (ga g))"
  defines "res \<equiv> flush_not_forwarded6 k e cm si skb"
  shows "\<exists>g'. sfe_inv6 (r_si6 res) g' P" and "dropped6 si skb res" and "flushed6 si (cm_connection6 (matches6 si cm)) res"
    and "counted6 (Some e) si (r_si6 res)"
proof -
  let ?c = "cm_connection6 (matches6 si cm)"
  let ?si1 = "sfe_ipv6_remove_connection si ?c"
  let ?fl = "sfe_ipv6_flush_connection (k_jiffies k) (exception6 e ?si1) ?c SFE_SYNC_REASON_FLUSH"
  have res: "res = \<lparr>r_ret6 = 0, r_si6 = fst ?fl, r_skb6 = skb, r_xmit6 = [], r_sync6 = snd ?fl\<rparr>"
    by (simp add: res_def flush_not_forwarded6_def Let_def split_beta)
  have "pairs_ok (ft6 si) (set (ga g))" using i by (simp add: sfe_inv6_def ft_inv_def)
  then have c: "?c \<in> set (ga g)" using m by (auto simp: ft_live_def pairs_ok_def)
  have i1: "sfe_inv6 (exception6 e ?si1) (lists_remove (ft6 si) g ?c) (?c # P)"
    by (rule sfe_inv_same_shape6 [OF _ sfe_inv_remove6 [OF i c]]) simp
  have i2: "sfe_inv6 (fst ?fl) (lists_remove (ft6 si) g ?c) P"
    using flush_inv6 [OF i1, of ?c "k_jiffies k" SFE_SYNC_REASON_FLUSH] by simp
  then show "\<exists>g'. sfe_inv6 (r_si6 res) g' P" by (auto simp: res)
  have sd: "same_data6 si ?si1" by (rule same_data_remove_connection6)
  then show "dropped6 si skb res" "counted6 (Some e) si (r_si6 res)"
    by (simp_all add: res dropped6_def counted6_def flush_counters6 exception6_def same_data6_def)
  have r: "same_rules6 si (fst ?fl)"
    by (rule same_rules_trans6 [OF _ flush_rules6]) (simp add: same_rules_data6 [OF sd])
  have d: "distinct (ga g)" using i by (simp add: sfe_inv6_def mem_ok6_def)
  have inj: "inj_on (\<lambda>p. c_key6 (connections6 si p)) (set (ga g))"
    using i by (simp add: sfe_inv6_def ft_inv_def conns_ok_def)
  have look: "sfe_lookup6 si (c_key6 (connections6 si ?c)) = Some ?c" using c by (simp add: lookup_iff6 [OF i])
  have "sfe_rules6 (fst ?fl) key = ((sfe_rules6 si)(c_key6 (connections6 si ?c) := None)) key" for key
  proof (cases "key = c_key6 (connections6 si ?c)")
    case True
    have "\<forall>x \<in> set (ga (lists_remove (ft6 si) g ?c)). c_key6 (connections6 (fst ?fl) x) \<noteq> key"
      using r inj c d True by (auto simp: lists_remove_def same_rules6_def inj_on_def)
    then have "sfe_lookup6 (fst ?fl) key = None" by (simp only: lookup_None6 [OF i2])
    with True show ?thesis by (simp add: sfe_rules6_def)
  next
    case False
    have "sfe_lookup6 (fst ?fl) key = sfe_lookup6 si key"
      by (rule lookup_eqI6 [OF i i2]) (use r d False in \<open>auto simp: lists_remove_def same_rules6_def\<close>)
    then show ?thesis using False r by (auto simp: sfe_rules6_def same_rules6_def intro!: option.map_cong)
  qed
  moreover have "sync_rule_callback6 (exception6 e ?si1) = sync_rule_callback6 si"
    "c_key6 (connections6 (exception6 e ?si1) ?c) = c_key6 (connections6 si ?c)"
    using same_rules_data6 [OF sd] sd by (simp_all add: exception6_def same_rules6_def same_data6_def)
  ultimately show "flushed6 si ?c res"
    by (simp add: flushed6_def res look flush_syncs6 syncs_of6_def fun_eq_iff split: option.split)
qed

lemma find_match_inv6:
  assumes i: "sfe_inv6 si g P"
  obtains r si1 g1 where "sfe_ipv6_find_connection_match si dev protocol src_ip src_port dest_ip dest_port = Some (r, si1)"
    and "sfe_inv6 si1 g1 P" and "ga g1 = ga g" and "same_data6 si si1" and "sfe_rules6 si1 = sfe_rules6 si"
    and "sfe_lookup6 si1 = sfe_lookup6 si"
    and "case r of None \<Rightarrow> si1 = si \<and> (\<forall>m \<in> ft_live (ft6 si) (set (ga g)). cm_key6 (matches6 si m) \<noteq> (dev, protocol, src_ip, src_port, dest_ip, dest_port))
       | Some cm \<Rightarrow> cm \<in> ft_live (ft6 si1) (set (ga g1)) \<and> cm_key6 (matches6 si1 cm) = (dev, protocol, src_ip, src_port, dest_ip, dest_port)"
proof -
  have fi: "ft_inv (ft6 si) g" using i by (simp add: sfe_inv6_def)
  from find_match_spec6 [OF fi, of dev protocol src_ip src_port dest_ip dest_port]
  obtain r si1 g1 where F: "sfe_ipv6_find_connection_match si dev protocol src_ip src_port dest_ip dest_port = Some (r, si1)"
    "same_data6 si si1" "num_connections6 si1 = num_connections6 si" "ft_inv (ft6 si1) g1" "ga g1 = ga g" "gv g1 = gv g"
    "case r of None \<Rightarrow> si1 = si \<and> (\<forall>m \<in> ft_live (ft6 si) (set (ga g)). cm_key6 (matches6 si m) \<noteq> (dev, protocol, src_ip, src_port, dest_ip, dest_port))
       | Some m \<Rightarrow> m \<in> ft_live (ft6 si) (set (ga g)) \<and> cm_key6 (matches6 si m) = (dev, protocol, src_ip, src_port, dest_ip, dest_port)"
    by (elim exE conjE) (rule that)
  have m: "mem_ok6 si (ga g @ P)" using i by (simp add: sfe_inv6_def)
  then have "mem_ok6 si1 (ga g @ P)" by (intro same_data_mem6 [OF F(2) _ _ _ m]) (simp_all add: mem_ok6_def)
  then have i1: "sfe_inv6 si1 g1 P" using F(3,4,5) i by (simp add: sfe_inv6_def)
  note r1 = same_rules_data6 [OF F(2)]
  have l: "sfe_lookup6 si1 = sfe_lookup6 si"
  proof
    show "sfe_lookup6 si1 key = sfe_lookup6 si key" for key
      using r1 by (intro lookup_eqI6 [OF i i1]) (simp add: F(5) same_rules6_def)
  qed
  have "sfe_rules6 si1 = sfe_rules6 si"
    using r1 by (auto simp: sfe_rules6_def fun_eq_iff l same_rules6_def intro!: option.map_cong)
  moreover have "ft_live (ft6 si1) C = ft_live (ft6 si) C" for C
    using same_dataD6(6,7) [OF F(2)] by (simp add: ft_live_def)
  then have "case r of None \<Rightarrow> si1 = si \<and> (\<forall>m \<in> ft_live (ft6 si) (set (ga g)). cm_key6 (matches6 si m) \<noteq> (dev, protocol, src_ip, src_port, dest_ip, dest_port))
       | Some cm \<Rightarrow> cm \<in> ft_live (ft6 si1) (set (ga g1)) \<and> cm_key6 (matches6 si1 cm) = (dev, protocol, src_ip, src_port, dest_ip, dest_port)"
    using F(5,7) same_dataD6(14) [OF F(2)] by (simp split: option.splits)
  ultimately show thesis using F(1,2,5) i1 l by (intro that)
qed

text \<open>States that agree on everything an outcome is measured against.\<close>

definition same_base6 :: "sfe_ipv6 \<Rightarrow> sfe_ipv6 \<Rightarrow> bool" where
  "same_base6 si si1 \<longleftrightarrow> same_adj6 si si1 \<and> same_rules6 si si1 \<and> sfe_rules6 si1 = sfe_rules6 si \<and> sfe_lookup6 si1 = sfe_lookup6 si
     \<and> sync_rule_callback6 si1 = sync_rule_callback6 si \<and> exception_events6 si1 = exception_events6 si
     \<and> packets_forwarded6 si1 = packets_forwarded6 si \<and> packets_not_forwarded6 si1 = packets_not_forwarded6 si"

lemma outcome_same_base6:
  assumes s: "same_base6 si si1" and o: "recv_outcome6 si1 skb res"
  shows "recv_outcome6 si skb res"
proof -
  have k: "c_key6 (connections6 si1 c) = c_key6 (connections6 si c)" for c
    using s by (simp add: same_base6_def same_rules6_def)
  have e: "dropped6 si1 skb res = dropped6 si skb res" "forwarded6 si1 res = forwarded6 si res" "kept6 si1 res = kept6 si res"
    "flushed6 si1 c res = flushed6 si c res" "counted6 eo si1 x = counted6 eo si x" for c eo x
    using s by (simp_all add: dropped6_def forwarded6_def kept6_def flushed6_def counted6_def k same_base6_def
        split: option.split)
  show ?thesis using o unfolding recv_outcome6_def e .
qed

lemma window_update_base6:
  assumes i: "sfe_inv6 si g P"
  shows "same_base6 si (tcp_window_update6 m th cm counter_cm e a s si)"
proof -
  let ?si = "tcp_window_update6 m th cm counter_cm e a s si"
  have "sfe_rules6 ?si = sfe_rules6 si" by (rule rules_same_shape6 [OF i]) simp_all
  moreover have "sfe_lookup6 ?si = sfe_lookup6 si" by (rule lookup_same_shape6 [OF i]) simp
  moreover have "sync_rule_callback6 ?si = sync_rule_callback6 si \<and> exception_events6 ?si = exception_events6 si
     \<and> packets_forwarded6 ?si = packets_forwarded6 si \<and> packets_not_forwarded6 ?si = packets_not_forwarded6 si"
    by (simp add: tcp_window_update6_def Let_def upd_cm6_def)
  moreover have "same_adj6 si ?si"
    by (auto simp: tcp_window_update6_def Let_def intro!: same_adj_upd_cm6)
  ultimately show ?thesis by (simp add: same_base6_def)
qed

lemma forward_tail_ok6:
  fixes k len skb
  assumes i: "sfe_inv6 si g P" and m: "cm \<in> ft_live (ft6 si) (set (ga g))"
  defines "res \<equiv> forward_tail6 k len cm si skb"
  shows "\<exists>g'. sfe_inv6 (r_si6 res) g' P" and "forwarded6 si res" and "kept6 si res"
proof -
  let ?f = "\<lambda>m. m\<lparr>cm_rx_packet_count6 := cm_rx_packet_count6 m + 1\<rparr>"
  let ?h = "\<lambda>m. m\<lparr>cm_rx_byte_count6 := cm_rx_byte_count6 m + len\<rparr>"
  let ?si1 = "upd_cm6 cm ?h (upd_cm6 cm ?f si)"
  have s1: "same_shape6 si ?si1" by simp
  have i1: "sfe_inv6 ?si1 g P" by (rule sfe_inv_same_shape6 [OF s1 i])
  have "cm \<in> ft_live (ft6 ?si1) (set (ga g))" using m by simp
  from sfe_inv_mark_active6 [OF i1 this]
  obtain g' where i2: "sfe_inv6 (mark_active6 cm ?si1) g' P" and ga: "ga g' = ga g" by blast
  have r: "r_si6 res = (mark_active6 cm ?si1)\<lparr>packets_forwarded6 := packets_forwarded6 (mark_active6 cm ?si1) + 1\<rparr>"
    by (simp add: res_def forward_tail6_def Let_def)
  have i3: "sfe_inv6 (r_si6 res) g' P" unfolding r by (rule sfe_inv_same_shape6 [OF _ i2]) simp
  then show "\<exists>g'. sfe_inv6 (r_si6 res) g' P" by blast
  have sr: "connections6 (r_si6 res) = connections6 si" by (simp add: r upd_cm6_def)
  have "sfe_lookup6 (r_si6 res) key = sfe_lookup6 si key" for key
    by (rule lookup_eqI6 [OF i i3]) (simp add: ga sr)
  then have "sfe_rules6 (r_si6 res) = sfe_rules6 si" by (simp add: sfe_rules6_def sr fun_eq_iff)
  moreover have "r_sync6 res = []" by (simp add: res_def forward_tail6_def Let_def)
  ultimately show "kept6 si res" by (simp add: kept6_def)
  show "forwarded6 si res"
    by (simp add: forwarded6_def r) (simp add: res_def forward_tail6_def Let_def upd_cm6_def)
qed

lemma recv_ok_intros6:
  assumes "sfe_inv6 si g P"
  shows "\<exists>g'. sfe_inv6 (r_si6 (not_forwarded6 e si skb)) g' P \<and> recv_outcome6 si skb (not_forwarded6 e si skb)"
    and "cm \<in> ft_live (ft6 si) (set (ga g)) \<Longrightarrow>
      \<exists>g'. sfe_inv6 (r_si6 (flush_not_forwarded6 k e cm si skb)) g' P \<and> recv_outcome6 si skb (flush_not_forwarded6 k e cm si skb)"
    and "cm \<in> ft_live (ft6 si) (set (ga g)) \<Longrightarrow>
      \<exists>g'. sfe_inv6 (r_si6 (forward_tail6 k len cm si skb')) g' P \<and> recv_outcome6 si skb (forward_tail6 k len cm si skb')"
    and "\<exists>g'. sfe_inv6 (si\<lparr>packets_not_forwarded6 := packets_not_forwarded6 si + 1\<rparr>) g' P
      \<and> recv_outcome6 si skb \<lparr>r_ret6 = 0, r_si6 = si\<lparr>packets_not_forwarded6 := packets_not_forwarded6 si + 1\<rparr>,
                             r_skb6 = skb, r_xmit6 = [], r_sync6 = []\<rparr>"
proof -
  note i = assms
  show "\<exists>g'. sfe_inv6 (r_si6 (not_forwarded6 e si skb)) g' P \<and> recv_outcome6 si skb (not_forwarded6 e si skb)"
    using not_forwarded_ok6 [OF i] unfolding recv_outcome6_def by blast
  show "\<exists>g'. sfe_inv6 (r_si6 (flush_not_forwarded6 k e cm si skb)) g' P \<and> recv_outcome6 si skb (flush_not_forwarded6 k e cm si skb)"
    if "cm \<in> ft_live (ft6 si) (set (ga g))"
    using flush_not_forwarded_ok6 [OF i that] unfolding recv_outcome6_def by blast
  show "\<exists>g'. sfe_inv6 (r_si6 (forward_tail6 k len cm si skb')) g' P \<and> recv_outcome6 si skb (forward_tail6 k len cm si skb')"
    if "cm \<in> ft_live (ft6 si) (set (ga g))"
    using forward_tail_ok6 [OF i that] unfolding recv_outcome6_def by blast
  let ?si = "si\<lparr>packets_not_forwarded6 := packets_not_forwarded6 si + 1\<rparr>"
  have "sfe_inv6 ?si g P" by (rule sfe_inv_same_shape6 [OF _ i]) simp
  moreover have "sfe_rules6 ?si = sfe_rules6 si"
    by (rule rules_same_shape6 [OF i]) (simp_all add: same_rules6_def)
  moreover have "counted6 None si ?si" by (simp add: counted6_def)
  ultimately show "\<exists>g'. sfe_inv6 ?si g' P
      \<and> recv_outcome6 si skb \<lparr>r_ret6 = 0, r_si6 = ?si, r_skb6 = skb, r_xmit6 = [], r_sync6 = []\<rparr>"
    unfolding recv_outcome6_def dropped6_def kept6_def by auto
qed

section \<open>The handlers\<close>

lemma same_data_base6:
  "same_data6 si si1 \<Longrightarrow> sfe_rules6 si1 = sfe_rules6 si \<Longrightarrow> sfe_lookup6 si1 = sfe_lookup6 si \<Longrightarrow> same_base6 si si1"
  using same_adj_data6 [of si si1] by (simp add: same_base6_def same_rules_data6 same_data6_def)

lemma find_match_base6:
  assumes i: "sfe_inv6 si g P"
  shows "\<exists>r si1 g1. sfe_ipv6_find_connection_match si dev protocol src_ip src_port dest_ip dest_port = Some (r, si1)
    \<and> sfe_inv6 si1 g1 P \<and> same_base6 si si1 \<and> (\<forall>cm. r = Some cm \<longrightarrow> cm \<in> ft_live (ft6 si1) (set (ga g1)))"
proof (rule find_match_inv6 [OF i, of dev protocol src_ip src_port dest_ip dest_port])
  fix r si1 g1
  assume F: "sfe_ipv6_find_connection_match si dev protocol src_ip src_port dest_ip dest_port = Some (r, si1)"
    and i1: "sfe_inv6 si1 g1 P" and s: "same_data6 si si1" "sfe_rules6 si1 = sfe_rules6 si" "sfe_lookup6 si1 = sfe_lookup6 si"
    and c: "case r of None \<Rightarrow> si1 = si \<and> (\<forall>m \<in> ft_live (ft6 si) (set (ga g)). cm_key6 (matches6 si m) \<noteq> (dev, protocol, src_ip, src_port, dest_ip, dest_port))
       | Some cm \<Rightarrow> cm \<in> ft_live (ft6 si1) (set (ga g1)) \<and> cm_key6 (matches6 si1 cm) = (dev, protocol, src_ip, src_port, dest_ip, dest_port)"
  have "\<forall>cm. r = Some cm \<longrightarrow> cm \<in> ft_live (ft6 si1) (set (ga g1))"
    using c by (cases r) auto
  with F i1 same_data_base6 [OF s] show ?thesis by blast
qed

definition recv_returns6 :: "sfe_ipv6 \<Rightarrow> ptr list \<Rightarrow> sk_buff \<Rightarrow> recv_result6 option \<Rightarrow> bool" where
  "recv_returns6 si P skb ro \<longleftrightarrow> (\<exists>res g'. ro = Some res \<and> sfe_inv6 (r_si6 res) g' P \<and> recv_outcome6 si skb res \<and> same_adj6 si (r_si6 res))"

lemma recv_returns_base6:
  "same_base6 si si1 \<Longrightarrow> recv_returns6 si1 P skb ro \<Longrightarrow> recv_returns6 si P skb ro"
proof -
  assume b: "same_base6 si si1" and r: "recv_returns6 si1 P skb ro"
  from r obtain res g' where "ro = Some res" "sfe_inv6 (r_si6 res) g' P" "recv_outcome6 si1 skb res" "same_adj6 si1 (r_si6 res)"
    unfolding recv_returns6_def by (elim exE conjE) (rule that)
  moreover from b have "same_adj6 si si1" by (simp add: same_base6_def)
  ultimately show "recv_returns6 si P skb ro"
    using outcome_same_base6 [OF b] same_adj_trans6 unfolding recv_returns6_def by blast
qed

lemma mark_active_adj6: "same_adj6 si (mark_active6 cm si)"
proof -
  have cm: "adj_ok6 (m\<lparr>cm_active6 := b\<rparr>) = adj_ok6 m" "adj_ok6 (m\<lparr>cm_active_next6 := q\<rparr>) = adj_ok6 m"
    "adj_ok6 (m\<lparr>cm_active_prev6 := q\<rparr>) = adj_ok6 m" for m b q
    by (simp_all add: adj_ok6_def)
  show ?thesis by (simp add: same_adj6_def mark_active6_def Let_def upd_cm6_def cm split: option.split)
qed

lemma forward_tail_adj6: "same_adj6 si (r_si6 (forward_tail6 k len cm si skb))"
proof -
  let ?si1 = "upd_cm6 cm (\<lambda>m. m\<lparr>cm_rx_byte_count6 := cm_rx_byte_count6 m + len\<rparr>)
    (upd_cm6 cm (\<lambda>m. m\<lparr>cm_rx_packet_count6 := cm_rx_packet_count6 m + 1\<rparr>) si)"
  have "same_adj6 si ?si1" by (intro same_adj_upd_cm6) simp_all
  from same_adj_trans6 [OF this mark_active_adj6] have "same_adj6 si (mark_active6 cm ?si1)" .
  then show ?thesis
    by (rule same_adj_trans6) (rule same_adj_frame6, simp_all add: forward_tail6_def Let_def)
qed

lemma recv_returns_intros6:
  assumes "sfe_inv6 si g P"
  shows "recv_returns6 si P skb (Some (not_forwarded6 e si skb))"
    and "cm \<in> ft_live (ft6 si) (set (ga g)) \<Longrightarrow> recv_returns6 si P skb (Some (flush_not_forwarded6 k e cm si skb))"
    and "cm \<in> ft_live (ft6 si) (set (ga g)) \<Longrightarrow> recv_returns6 si P skb (Some (forward_tail6 k len cm si skb'))"
    and "recv_returns6 si P skb (Some \<lparr>r_ret6 = 0, r_si6 = si\<lparr>packets_not_forwarded6 := packets_not_forwarded6 si + 1\<rparr>,
                             r_skb6 = skb, r_xmit6 = [], r_sync6 = []\<rparr>)"
proof -
  note ok = recv_ok_intros6 [OF assms]
  have "same_adj6 si (exception6 e si')" if "same_adj6 si si'" for e si'
    using that by (simp add: same_adj6_def exception6_def)
  note ex = this
  show "recv_returns6 si P skb (Some (not_forwarded6 e si skb))"
    using ok(1) ex unfolding recv_returns6_def by (auto simp: not_forwarded6_def)
  show "recv_returns6 si P skb (Some (flush_not_forwarded6 k e cm si skb))" if "cm \<in> ft_live (ft6 si) (set (ga g))"
    using ok(2) [OF that] same_adj_trans6 [OF ex [OF same_adj_data6 [OF same_data_remove_connection6]] flush_adj6]
    unfolding recv_returns6_def by (auto simp: flush_not_forwarded6_def Let_def split_beta)
  show "recv_returns6 si P skb (Some (forward_tail6 k len cm si skb'))" if "cm \<in> ft_live (ft6 si) (set (ga g))"
    using ok(3) [OF that] forward_tail_adj6 unfolding recv_returns6_def by blast
  show "recv_returns6 si P skb (Some \<lparr>r_ret6 = 0, r_si6 = si\<lparr>packets_not_forwarded6 := packets_not_forwarded6 si + 1\<rparr>,
                             r_skb6 = skb, r_xmit6 = [], r_sync6 = []\<rparr>)"
    using ok(4) [of skb] unfolding recv_returns6_def by (auto intro!: same_adj_frame6)
qed

lemma recv_udp_returns6:
  assumes i: "sfe_inv6 si g P"
  shows "recv_returns6 si P skb (sfe_ipv6_recv_udp k si skb dev len ihl flush_on_find)"
proof (cases "k_may_pull k skb (UDPH_LEN + ihl)")
  case False
  then show ?thesis using recv_returns_intros6(1) [OF i] by (simp add: sfe_ipv6_recv_udp_def)
next
  case True
  let ?m = "skb_mem skb"
  obtain r si1 g1 where F: "sfe_ipv6_find_connection_match si dev IPPROTO_UDP (ld_ip6 ?m iph6_saddr)
      (ld16 ?m (unat ihl + th_source)) (ld_ip6 ?m iph6_daddr) (ld16 ?m (unat ihl + th_dest)) = Some (r, si1)"
    and i1: "sfe_inv6 si1 g1 P" and b: "same_base6 si si1"
    and live: "\<forall>cm. r = Some cm \<longrightarrow> cm \<in> ft_live (ft6 si1) (set (ga g1))"
    using find_match_base6 [OF i, of dev IPPROTO_UDP "ld_ip6 ?m iph6_saddr" "ld16 ?m (unat ihl + th_source)"
          "ld_ip6 ?m iph6_daddr" "ld16 ?m (unat ihl + th_dest)"] by (elim exE conjE) (rule that)
  note R = recv_returns_intros6 [OF i1]
  show ?thesis
  proof (cases r)
    case None
    then show ?thesis using True F by (simp add: sfe_ipv6_recv_udp_def Let_def recv_returns_base6 [OF b R(1)])
  next
    case (Some cm)
    have L: "cm \<in> ft_live (ft6 si1) (set (ga g1))" using live Some by simp
    show ?thesis
      by (rule recv_returns_base6 [OF b])
        (use True F Some R(2) [OF L] R(3) [OF L] R(4) in \<open>simp add: sfe_ipv6_recv_udp_def Let_def udp_forward6_def\<close>)
  qed
qed

lemma recv_tcp_checked_returns6:
  assumes i: "sfe_inv6 si g P" and L: "cm \<in> ft_live (ft6 si) (set (ga g))"
  shows "recv_returns6 si P skb (recv_tcp_checked6 k si skb len ihl cm)"
proof -
  note R = recv_returns_intros6 [OF i]
  let ?cc = "cm_counter_match6 (matches6 si cm)"
  obtain v where v: "tcp_seq_check6 (skb_mem skb) (unat ihl) len (cm_tcp6 (matches6 si cm)) (cm_tcp6 (matches6 si ?cc)) = Some v"
    using tcp_seq_check_returns6 by blast
  show ?thesis
  proof (cases "has_flag (cm_flags6 (matches6 si cm)) SFE_IPV6_CONNECTION_MATCH_FLAG_NO_SEQ_CHECK")
    case True
    then show ?thesis using R(3) [OF L] by (simp add: recv_tcp_checked6_def tcp_forward6_def Let_def)
  next
    case False
    show ?thesis
    proof (cases v)
      case (Inl e)
      then show ?thesis using False v R(2) [OF L] by (simp add: recv_tcp_checked6_def Let_def)
    next
      case (Inr w)
      obtain e a s where w: "w = (e, a, s)" by (cases w)
      let ?si = "tcp_window_update6 (skb_mem skb) (unat ihl) cm ?cc e a s si"
      have sh: "same_shape6 si ?si" by simp
      have "cm \<in> ft_live (ft6 ?si) (set (ga g))" using L sh by (simp add: same_shape6_def)
      note R' = recv_returns_base6 [OF window_update_base6 [OF i] recv_returns_intros6(3) [OF sfe_inv_same_shape6 [OF sh i] this]]
      show ?thesis
        using False v Inr w R' by (simp add: recv_tcp_checked6_def Let_def tcp_forward6_def)
    qed
  qed
qed

lemma recv_tcp_returns6:
  assumes i: "sfe_inv6 si g P"
  shows "recv_returns6 si P skb (sfe_ipv6_recv_tcp k si skb dev len ihl flush_on_find)"
proof (cases "k_may_pull k skb (TCPH_LEN + ihl)")
  case False
  then show ?thesis using recv_returns_intros6(1) [OF i] by (simp add: sfe_ipv6_recv_tcp_def)
next
  case True
  let ?m = "skb_mem skb"
  obtain r si1 g1 where F: "sfe_ipv6_find_connection_match si dev IPPROTO_TCP (ld_ip6 ?m iph6_saddr)
      (ld16 ?m (unat ihl + th_source)) (ld_ip6 ?m iph6_daddr) (ld16 ?m (unat ihl + th_dest)) = Some (r, si1)"
    and i1: "sfe_inv6 si1 g1 P" and b: "same_base6 si si1"
    and live: "\<forall>cm. r = Some cm \<longrightarrow> cm \<in> ft_live (ft6 si1) (set (ga g1))"
    using find_match_base6 [OF i, of dev IPPROTO_TCP "ld_ip6 ?m iph6_saddr" "ld16 ?m (unat ihl + th_source)"
          "ld_ip6 ?m iph6_daddr" "ld16 ?m (unat ihl + th_dest)"] by (elim exE conjE) (rule that)
  note R = recv_returns_intros6 [OF i1]
  show ?thesis
  proof (cases r)
    case None
    then show ?thesis using True F by (simp add: sfe_ipv6_recv_tcp_def Let_def recv_returns_base6 [OF b R(1)])
  next
    case (Some cm)
    have L: "cm \<in> ft_live (ft6 si1) (set (ga g1))" using live Some by simp
    show ?thesis
      by (rule recv_returns_base6 [OF b])
        (use True F Some R(2) [OF L] recv_tcp_checked_returns6 [OF i1 L] R(4) in \<open>simp add: sfe_ipv6_recv_tcp_def Let_def\<close>)
  qed
qed

lemma recv_icmp_returns6:
  assumes i: "sfe_inv6 si g P" and pc: "pull_checks k skb" and l: "unat ihl + 8 \<le> unat (skb_len skb)"
  shows "recv_returns6 si P skb (sfe_ipv6_recv_icmp k si skb dev len ihl)"
proof -
  have F: "recv_returns6 si P skb (do {
        (r, si) \<leftarrow> sfe_ipv6_find_connection_match si dev protocol dest_ip dest_port src_ip src_port;
        case r of
          None \<Rightarrow> Some (not_forwarded6 ICMP_NO_CONNECTION6 si skb)
        | Some cm \<Rightarrow> Some (flush_not_forwarded6 k ICMP_FLUSHED_CONNECTION6 cm si skb) })"
    for protocol dest_ip dest_port src_ip src_port
  proof -
    obtain r si1 g1 where F: "sfe_ipv6_find_connection_match si dev protocol dest_ip dest_port src_ip src_port = Some (r, si1)"
      and i1: "sfe_inv6 si1 g1 P" and b: "same_base6 si si1"
      and live: "\<forall>cm. r = Some cm \<longrightarrow> cm \<in> ft_live (ft6 si1) (set (ga g1))"
      using find_match_base6 [OF i, of dev protocol dest_ip dest_port src_ip src_port] by (elim exE conjE) (rule that)
    show ?thesis
      by (rule recv_returns_base6 [OF b])
        (use F recv_returns_intros6(1,2) [OF i1] live in \<open>simp split: option.split\<close>)
  qed
  let ?ihl = "ihl + ICMPH_LEN + IPH6_LEN" and ?nh = "skb_mem skb (unat ihl + unat ICMPH_LEN + iph6_nexthdr)"
  show ?thesis
  proof (cases "k_may_pull k skb (?ihl + EXTH_LEN)")
    case True
    have lt: "unat ihl < 2147483648" using l pull_checksD(2) [OF pc True] by linarith
    have u: "unat ?ihl = unat ihl + 48" "unat (?ihl + EXTH_LEN) = unat ihl + 56"
      using lt by (simp_all add: ICMPH_LEN_def IPH6_LEN_def EXTH_LEN_def unat_plus_u32)
    then have "unat ?ihl + 8 \<le> unat (skb_len skb)" using pull_checksD(1) [OF pc True] by linarith
    from ext_headers_spec [OF pc this, of ?nh False]
    obtain w where w: "ext_headers k skb ?ihl ?nh False = Some w" by blast
    show ?thesis
      unfolding sfe_ipv6_recv_icmp_def Let_def
      by (simp add: F recv_returns_intros6(1) [OF i] w split: sum.split prod.split)
  next
    case False
    then show ?thesis
      unfolding sfe_ipv6_recv_icmp_def Let_def
      by (simp add: recv_returns_intros6(1) [OF i])
  qed
qed

lemma recv_returns_recv6:
  assumes i: "sfe_inv6 si g P" and pc: "pull_checks k skb"
  shows "recv_returns6 si P skb (sfe_ipv6_recv k dev si skb)"
proof (cases "k_may_pull k skb (IPH6_LEN + EXTH_LEN)")
  case False
  then show ?thesis by (simp add: sfe_ipv6_recv_def recv_returns_intros6(1) [OF i])
next
  case True
  have l: "unat IPH6_LEN + 8 \<le> unat (skb_len skb)"
    using pull_checksD(1) [OF pc True] by (simp add: IPH6_LEN_def EXTH_LEN_def)
  obtain w where w: "ext_headers k skb IPH6_LEN (skb_mem skb iph6_nexthdr) False = Some w"
    and o: "walk_ok skb IPH6_LEN (skb_mem skb iph6_nexthdr) False w"
    using ext_headers_spec [OF pc l] by blast
  show ?thesis
  proof (cases w)
    case (Inl e)
    then show ?thesis
      unfolding sfe_ipv6_recv_def Let_def by (simp add: recv_returns_intros6(1) [OF i] w)
  next
    case (Inr v)
    obtain ihl nh fl where v: "v = (ihl, nh, fl)" by (cases v)
    have "unat ihl + 8 \<le> unat (skb_len skb)" using o Inr v by (simp add: walk_ok_def)
    then show ?thesis
      unfolding sfe_ipv6_recv_def Let_def
      by (simp add: Inr v w recv_returns_intros6(1) [OF i] recv_udp_returns6 [OF i] recv_tcp_returns6 [OF i]
          recv_icmp_returns6 [OF i pc])
  qed
qed

end
