(* ===== verification/SFE_IPv6_Packet.thy ===== *)
theory SFE_IPv6_Packet
  imports SFE_IPv6_Recv_Inv
begin

text \<open>
  The packet a forwarding leaves behind, from the entry point \<open>sfe_ipv6_recv\<close>: which flow it
  belongs to, which guards it passed, and that its bytes are the rewritten ones behind the layer 2
  header of the flow.
\<close>

section \<open>The buffer handed to the device\<close>

definition sent6 :: "kernel \<Rightarrow> sfe_ipv6_connection_match \<Rightarrow> u32 \<Rightarrow> u32 \<Rightarrow> sk_buff \<Rightarrow> mem \<Rightarrow> sk_buff" where
  "sent6 k cm mark len skb out =
     (let skb = skb\<lparr>skb_mem := out, skb_dev := cm_xmit_dev6 cm\<rparr>;
          skb = write_l2_hdr6 k cm len skb;
          skb = (if has_flag (cm_flags6 cm) SFE_IPV6_CONNECTION_MATCH_FLAG_PRIORITY_REMARK
                 then skb\<lparr>skb_priority := cm_priority6 cm\<rparr> else skb)
      in skb\<lparr>skb_mark := mark\<rparr>)"

text \<open>The part of a match that forwarding reads.\<close>

definition cm_core6 :: "sfe_ipv6_connection_match \<Rightarrow> sfe_ipv6_connection_match" where
  "cm_core6 m = m\<lparr>cm_next6 := None, cm_prev6 := None, cm_active_next6 := None, cm_active_prev6 := None, cm_active6 := False,
     cm_rx_packet_count6 := 0, cm_rx_byte_count6 := 0, cm_tcp6 := \<lparr>tcp_win_scale6 = 0, tcp_max_win6 = 0, tcp_end6 = 0, tcp_max_end6 = 0\<rparr>\<rparr>"

lemma core_sent6: "sent6 k (cm_core6 m) mark len skb out = sent6 k m mark len skb out"
  by (simp add: sent6_def cm_core6_def write_l2_hdr6_def write_eth_hdr6_def Let_def)

lemma core_sel6:
  "cm_flags6 (cm_core6 m) = cm_flags6 m" "cm_dscp6 (cm_core6 m) = cm_dscp6 m"
  "cm_xlate_src_ip6 (cm_core6 m) = cm_xlate_src_ip6 m" "cm_xlate_src_port6 (cm_core6 m) = cm_xlate_src_port6 m"
  "cm_xlate_src_csum_adjustment6 (cm_core6 m) = cm_xlate_src_csum_adjustment6 m"
  "cm_xlate_dest_ip6 (cm_core6 m) = cm_xlate_dest_ip6 m" "cm_xlate_dest_port6 (cm_core6 m) = cm_xlate_dest_port6 m"
  "cm_xlate_dest_csum_adjustment6 (cm_core6 m) = cm_xlate_dest_csum_adjustment6 m"
  by (simp_all add: cm_core6_def)

lemma core_xlate6:
  "remark_dscp6 (cm_core6 m) x = remark_dscp6 m x"
  "udp_xlate_src6 ihl (cm_core6 m) x = udp_xlate_src6 ihl m x"
  "udp_xlate_dest6 ihl (cm_core6 m) x = udp_xlate_dest6 ihl m x"
  "tcp_xlate_src6 ihl (cm_core6 m) x = tcp_xlate_src6 ihl m x"
  "tcp_xlate_dest6 ihl (cm_core6 m) x = tcp_xlate_dest6 ihl m x"
  unfolding remark_dscp6_def udp_xlate_src6_def udp_xlate_dest6_def tcp_xlate_src6_def tcp_xlate_dest6_def core_sel6
  by (rule refl)+

lemma core_rewrite6:
  "udp_rewrite6 (cm_core6 m) x = udp_rewrite6 m x" "tcp_rewrite6 (cm_core6 m) x = tcp_rewrite6 m x"
  by (simp_all only: udp_rewrite6_def tcp_rewrite6_def hop_step_def core_xlate6)

lemma core_fields6:
  "cm_connection6 (cm_core6 m) = cm_connection6 m" "cm_key6 (cm_core6 m) = cm_key6 m"
  "cm_flow_accel6 (cm_core6 m) = cm_flow_accel6 m" "cm_xmit_dev_mtu6 (cm_core6 m) = cm_xmit_dev_mtu6 m"
  by (simp_all add: cm_core6_def cm_key6_def)

lemma core_eq6:
  assumes "cm_core6 m' = cm_core6 m"
  shows "sent6 k m' mark len skb out = sent6 k m mark len skb out"
    and "udp_rewrite6 m' x = udp_rewrite6 m x" "tcp_rewrite6 m' x = tcp_rewrite6 m x"
    and "cm_connection6 m' = cm_connection6 m" "cm_key6 m' = cm_key6 m" "cm_flow_accel6 m' = cm_flow_accel6 m"
    and "cm_xmit_dev_mtu6 m' = cm_xmit_dev_mtu6 m"
  using assms core_sent6 core_rewrite6 core_fields6 by metis+

definition same_core6 :: "sfe_ipv6 \<Rightarrow> sfe_ipv6 \<Rightarrow> bool" where
  "same_core6 si si' \<longleftrightarrow> (\<forall>p. cm_core6 (matches6 si' p) = cm_core6 (matches6 si p))
     \<and> (\<forall>p. c_mark6 (connections6 si' p) = c_mark6 (connections6 si p))"

lemma same_core_trans6: "same_core6 a b \<Longrightarrow> same_core6 b c \<Longrightarrow> same_core6 a c"
  by (simp add: same_core6_def)

lemma same_core_data6:
  assumes s: "same_data6 si si'" shows "same_core6 si si'"
proof -
  have "cm_core6 (cm_data6 m) = cm_core6 m" for m by (simp add: cm_core6_def cm_data6_def)
  then have "cm_core6 (matches6 si' p) = cm_core6 (matches6 si p)" for p
    using s unfolding same_data6_def by metis
  then show ?thesis using same_dataD6(10) [OF s] by (simp add: same_core6_def)
qed

lemma same_core_upd6:
  assumes "\<And>m. cm_core6 (f m) = cm_core6 m"
  shows "same_core6 si (upd_cm6 p f si') = same_core6 si si'"
proof -
  have "cm_core6 (matches6 (upd_cm6 p f si') q) = cm_core6 (matches6 si' q)" for q
    using assms by (simp add: upd_cm6_def)
  then show ?thesis by (simp add: same_core6_def) (simp add: upd_cm6_def)
qed

lemma window_update_core6: "same_core6 si (tcp_window_update6 m th cm counter_cm e a s si)"
proof -
  have u: "cm_core6 (x\<lparr>cm_tcp6 := v\<rparr>) = cm_core6 x" for x v by (simp add: cm_core6_def)
  have r: "same_core6 si si" by (simp add: same_core6_def)
  show ?thesis by (simp add: tcp_window_update6_def Let_def same_core_upd6 u r)
qed

lemma forward_tail_core6:
  "cm_core6 (matches6 (mark_active6 cm (upd_cm6 cm (\<lambda>m. m\<lparr>cm_rx_byte_count6 := h m\<rparr>)
     (upd_cm6 cm (\<lambda>m. m\<lparr>cm_rx_packet_count6 := f m\<rparr>) si))) p) = cm_core6 (matches6 si p)"
  by (simp add: cm_core6_def mark_active6_def Let_def upd_cm6_def split: option.split)

lemma forward_tail_skb6:
  "r_skb6 (forward_tail6 k len cm si skb) = sent6 k (matches6 si cm)
     (c_mark6 (connections6 si (cm_connection6 (matches6 si cm)))) len skb (skb_mem skb)"
proof -
  define si1 where "si1 = mark_active6 cm (upd_cm6 cm (\<lambda>m. m\<lparr>cm_rx_byte_count6 := cm_rx_byte_count6 m + len\<rparr>)
     (upd_cm6 cm (\<lambda>m. m\<lparr>cm_rx_packet_count6 := cm_rx_packet_count6 m + 1\<rparr>) si))"
  have "r_skb6 (forward_tail6 k len cm si skb) = sent6 k (matches6 si1 cm)
     (c_mark6 (connections6 si1 (cm_connection6 (matches6 si1 cm)))) len skb (skb_mem skb)"
    by (simp add: forward_tail6_def sent6_def Let_def si1_def)
  moreover have "connections6 si1 = connections6 si" by (simp add: si1_def upd_cm6_def)
  moreover have "cm_core6 (matches6 si1 cm) = cm_core6 (matches6 si cm)" unfolding si1_def by (rule forward_tail_core6)
  ultimately show ?thesis using core_eq6(1,4) by metis
qed

lemma sent_mem_irrelevant6: "sent6 k cm mark len (skb\<lparr>skb_mem := x\<rparr>) out = sent6 k cm mark len skb out"
  by (simp add: sent6_def)

lemma udp_forward_skb6:
  "r_skb6 (udp_forward6 k len 40 cm si skb) = sent6 k (matches6 si cm)
     (c_mark6 (connections6 si (cm_connection6 (matches6 si cm)))) len skb
     (udp_rewrite6 (matches6 si cm) (skb_mem skb))"
  by (simp add: udp_forward6_def Let_def forward_tail_skb6 sent_mem_irrelevant6 udp_rewrite6_def hop_step_def)

lemma tcp_forward_skb6:
  "r_skb6 (tcp_forward6 k len 40 cm si skb) = sent6 k (matches6 si cm)
     (c_mark6 (connections6 si (cm_connection6 (matches6 si cm)))) len skb
     (tcp_rewrite6 (matches6 si cm) (skb_mem skb))"
  by (simp add: tcp_forward6_def Let_def forward_tail_skb6 sent_mem_irrelevant6 tcp_rewrite6_def hop_step_def)

section \<open>What a forwarded packet went through\<close>

lemma drop_returns_0_v6 [simp]: "r_ret6 (not_forwarded6 e si skb) = 0" "r_ret6 (flush_not_forwarded6 k e cm si skb) = 0"
  by (simp_all add: not_forwarded6_def flush_not_forwarded6_def Let_def split_beta)

lemma recv_udp_forwards6:
  assumes "sfe_ipv6_recv_udp k si skb dev len ihl flush_on_find = Some res" and "r_ret6 res = 1"
  shows "\<exists>cm si1. sfe_ipv6_find_connection_match si dev IPPROTO_UDP (ld_ip6 (skb_mem skb) iph6_saddr)
      (ld16 (skb_mem skb) (unat ihl + th_source)) (ld_ip6 (skb_mem skb) iph6_daddr) (ld16 (skb_mem skb) (unat ihl + th_dest))
      = Some (Some cm, si1)
    \<and> \<not> flush_on_find \<and> cm_flow_accel6 (matches6 si1 cm) \<noteq> 0 \<and> 2 \<le> skb_mem skb iph6_hop_limit
    \<and> len \<le> ucast (cm_xmit_dev_mtu6 (matches6 si1 cm)) \<and> k_may_pull k skb (UDPH_LEN + ihl)
    \<and> res = udp_forward6 k len (unat ihl) cm si1 skb"
proof -
  let ?m = "skb_mem skb"
  let ?find = "sfe_ipv6_find_connection_match si dev IPPROTO_UDP (ld_ip6 ?m iph6_saddr)
      (ld16 ?m (unat ihl + th_source)) (ld_ip6 ?m iph6_daddr) (ld16 ?m (unat ihl + th_dest))"
  have pull: "k_may_pull k skb (UDPH_LEN + ihl)"
    by (rule ccontr) (use assms in \<open>auto simp: sfe_ipv6_recv_udp_def\<close>)
  obtain r si1 where F: "?find = Some (r, si1)"
    using assms(1) pull by (cases ?find) (auto simp: sfe_ipv6_recv_udp_def Let_def)
  obtain cm where r: "r = Some cm"
    using assms pull F by (cases r) (auto simp: sfe_ipv6_recv_udp_def Let_def)
  have E: "res = (if flush_on_find then flush_not_forwarded6 k UDP_IP_OPTIONS_OR_INITIAL_FRAGMENT6 cm si1 skb
      else if cm_flow_accel6 (matches6 si1 cm) = 0
      then \<lparr>r_ret6 = 0, r_si6 = si1\<lparr>packets_not_forwarded6 := packets_not_forwarded6 si1 + 1\<rparr>, r_skb6 = skb, r_xmit6 = [], r_sync6 = []\<rparr>
      else if ?m iph6_hop_limit < 2 then flush_not_forwarded6 k UDP_SMALL_TTL6 cm si1 skb
      else if len > ucast (cm_xmit_dev_mtu6 (matches6 si1 cm)) then flush_not_forwarded6 k UDP_NEEDS_FRAGMENTATION6 cm si1 skb
      else udp_forward6 k len (unat ihl) cm si1 skb)"
    using assms(1) pull F r by (simp add: sfe_ipv6_recv_udp_def Let_def split: if_splits)
  show ?thesis
    using F r pull E assms(2) by (intro exI [of _ cm] exI [of _ si1]) (auto simp: not_less split: if_splits)
qed

lemma recv_tcp_checked_forwards6:
  assumes "recv_tcp_checked6 k si skb len ihl cm = Some res" and "r_ret6 res = 1"
  shows "\<exists>si2. same_core6 si si2 \<and> res = tcp_forward6 k len (unat ihl) cm si2 skb
    \<and> (has_flag (cm_flags6 (matches6 si cm)) SFE_IPV6_CONNECTION_MATCH_FLAG_NO_SEQ_CHECK
        \<or> (\<exists>w. tcp_seq_check6 (skb_mem skb) (unat ihl) len (cm_tcp6 (matches6 si cm))
                 (cm_tcp6 (matches6 si (cm_counter_match6 (matches6 si cm)))) = Some (Inr w)))"
proof (cases "has_flag (cm_flags6 (matches6 si cm)) SFE_IPV6_CONNECTION_MATCH_FLAG_NO_SEQ_CHECK")
  case True
  with assms show ?thesis by (intro exI [of _ si]) (simp add: recv_tcp_checked6_def Let_def same_core6_def)
next
  case False
  let ?cc = "cm_counter_match6 (matches6 si cm)"
  obtain v where v: "tcp_seq_check6 (skb_mem skb) (unat ihl) len (cm_tcp6 (matches6 si cm)) (cm_tcp6 (matches6 si ?cc)) = Some v"
    using tcp_seq_check_returns6 by blast
  show ?thesis
  proof (cases v)
    case (Inl e)
    with False v assms show ?thesis by (auto simp: recv_tcp_checked6_def Let_def)
  next
    case (Inr w)
    obtain e a s where w: "w = (e, a, s)" by (cases w)
    with False v Inr assms show ?thesis
      by (intro exI [of _ "tcp_window_update6 (skb_mem skb) (unat ihl) cm ?cc e a s si"])
        (simp add: recv_tcp_checked6_def Let_def window_update_core6)
  qed
qed

lemma recv_tcp_forwards6:
  assumes "sfe_ipv6_recv_tcp k si skb dev len ihl flush_on_find = Some res" and "r_ret6 res = 1"
  shows "\<exists>cm si1. sfe_ipv6_find_connection_match si dev IPPROTO_TCP (ld_ip6 (skb_mem skb) iph6_saddr)
      (ld16 (skb_mem skb) (unat ihl + th_source)) (ld_ip6 (skb_mem skb) iph6_daddr) (ld16 (skb_mem skb) (unat ihl + th_dest))
      = Some (Some cm, si1)
    \<and> \<not> flush_on_find \<and> cm_flow_accel6 (matches6 si1 cm) \<noteq> 0 \<and> 2 \<le> skb_mem skb iph6_hop_limit
    \<and> (len \<le> ucast (cm_xmit_dev_mtu6 (matches6 si1 cm)) \<or> skb_is_gso skb) \<and> k_may_pull k skb (TCPH_LEN + ihl)
    \<and> fast_flags (ld32 (skb_mem skb) (unat ihl + tcp_flag_offs))
    \<and> recv_tcp_checked6 k si1 skb len ihl cm = Some res"
proof -
  let ?m = "skb_mem skb"
  let ?find = "sfe_ipv6_find_connection_match si dev IPPROTO_TCP (ld_ip6 ?m iph6_saddr)
      (ld16 ?m (unat ihl + th_source)) (ld_ip6 ?m iph6_daddr) (ld16 ?m (unat ihl + th_dest))"
  have pull: "k_may_pull k skb (TCPH_LEN + ihl)"
    by (rule ccontr) (use assms in \<open>auto simp: sfe_ipv6_recv_tcp_def\<close>)
  obtain r si1 where F: "?find = Some (r, si1)"
    using assms(1) pull by (cases ?find) (auto simp: sfe_ipv6_recv_tcp_def Let_def)
  obtain cm where r: "r = Some cm"
    using assms pull F by (cases r) (auto simp: sfe_ipv6_recv_tcp_def Let_def)
  have E: "(if flush_on_find then Some (flush_not_forwarded6 k TCP_IP_OPTIONS_OR_INITIAL_FRAGMENT6 cm si1 skb)
      else if cm_flow_accel6 (matches6 si1 cm) = 0
      then Some \<lparr>r_ret6 = 0, r_si6 = si1\<lparr>packets_not_forwarded6 := packets_not_forwarded6 si1 + 1\<rparr>, r_skb6 = skb, r_xmit6 = [], r_sync6 = []\<rparr>
      else if ?m iph6_hop_limit < 2 then Some (flush_not_forwarded6 k TCP_SMALL_TTL6 cm si1 skb)
      else if len > ucast (cm_xmit_dev_mtu6 (matches6 si1 cm)) \<and> \<not> skb_is_gso skb
      then Some (flush_not_forwarded6 k TCP_NEEDS_FRAGMENTATION6 cm si1 skb)
      else if \<not> fast_flags (ld32 ?m (unat ihl + tcp_flag_offs)) then Some (flush_not_forwarded6 k TCP_FLAGS6 cm si1 skb)
      else recv_tcp_checked6 k si1 skb len ihl cm) = Some res"
    using assms(1) pull F r by (simp add: sfe_ipv6_recv_tcp_def Let_def cong: if_cong)
  show ?thesis
    using F r pull E assms(2) by (intro exI [of _ cm] exI [of _ si1]) (auto simp: not_less split: if_splits)
qed

text \<open>The flow and the bytes of a forwarded packet.\<close>

definition guards_passed6 :: "kernel \<Rightarrow> sk_buff \<Rightarrow> bool" where
  "guards_passed6 k skb \<longleftrightarrow> (let m = skb_mem skb in iph6_version m 0 = 6
     \<and> (ucast (ntohs (ld16 m iph6_payload_len)) :: u32) \<le> skb_len skb - IPH6_LEN
     \<and> \<not> sfe_ipv6_is_ext_hdr (m iph6_nexthdr) \<and> 2 \<le> m iph6_hop_limit)"

definition packet_key6 :: "dev_ptr \<Rightarrow> mem \<Rightarrow> match_key6" where
  "packet_key6 dev m = (dev, m iph6_nexthdr, ld_ip6 m iph6_saddr, ld16 m (40 + th_source), ld_ip6 m iph6_daddr, ld16 m (40 + th_dest))"

text \<open>The flag that the walk over extension headers returns tells whether there was one.\<close>

definition flag_says :: "u32 \<Rightarrow> u8 \<Rightarrow> bool \<Rightarrow> (sfe_ipv6_exception_events + (u32 \<times> u8 \<times> bool)) \<Rightarrow> bool" where
  "flag_says ihl nh fl r \<longleftrightarrow> (case r of Inl e \<Rightarrow> True | Inr (ihl', nh', fl') \<Rightarrow>
     (fl' \<longleftrightarrow> fl \<or> sfe_ipv6_is_ext_hdr nh) \<and> (\<not> sfe_ipv6_is_ext_hdr nh \<longrightarrow> ihl' = ihl \<and> nh' = nh))"

lemma flag_says_intros:
  "flag_says ihl nh fl (Inl e)"
  "\<not> sfe_ipv6_is_ext_hdr nh \<Longrightarrow> flag_says ihl nh fl (Inr (ihl, nh, fl))"
  "sfe_ipv6_is_ext_hdr nh \<Longrightarrow> flag_says ihl2 nh2 True r \<Longrightarrow> flag_says ihl nh fl r"
  by (auto simp: flag_says_def split: sum.splits)

lemma ext_headers_flag:
  assumes "ext_headers k skb ihl nh fl = Some r"
  shows "flag_says ihl nh fl r"
  by (rule ext_headers.raw_induct [where P = "\<lambda>k skb ihl nh fl r. flag_says ihl nh fl r", OF _ assms])
    (auto simp: Let_def intro: flag_says_intros(1,2) split: if_splits, (blast intro: flag_says_intros(3))+)

lemma recv_cases6:
  assumes r: "sfe_ipv6_recv k dev si skb = Some res" and f: "r_ret6 res = 1"
  shows "\<exists>ihl nh f. (let m = skb_mem skb in iph6_version m 0 = 6
     \<and> (ucast (ntohs (ld16 m iph6_payload_len)) :: u32) \<le> skb_len skb - IPH6_LEN
     \<and> (f \<longleftrightarrow> sfe_ipv6_is_ext_hdr (m iph6_nexthdr)) \<and> (\<not> f \<longrightarrow> ihl = IPH6_LEN \<and> nh = m iph6_nexthdr)
     \<and> (nh = IPPROTO_UDP \<and> sfe_ipv6_recv_udp k si skb dev (skb_len skb) ihl f = Some res
        \<or> nh = IPPROTO_TCP \<and> sfe_ipv6_recv_tcp k si skb dev (skb_len skb) ihl f = Some res
        \<or> nh = IPPROTO_ICMPV6 \<and> sfe_ipv6_recv_icmp k si skb dev (skb_len skb) ihl = Some res))"
proof -
  let ?m = "skb_mem skb"
  let ?w = "ext_headers k skb IPH6_LEN (?m iph6_nexthdr) False"
  have g: "k_may_pull k skb (IPH6_LEN + EXTH_LEN)" "iph6_version ?m 0 = 6"
    "\<not> (ucast (ntohs (ld16 ?m iph6_payload_len)) :: u32) > skb_len skb - IPH6_LEN"
    using r f by (auto simp: sfe_ipv6_recv_def Let_def split: if_splits)
  obtain w where w: "?w = Some w"
    using r g by (cases ?w) (simp_all add: sfe_ipv6_recv_def Let_def)
  obtain ihl nh fl where v: "w = Inr (ihl, nh, fl)"
    using r f g w by (cases w) (auto simp: sfe_ipv6_recv_def Let_def)
  note fl = ext_headers_flag [OF w [unfolded v], unfolded flag_says_def sum.case prod.case]
  have "nh = IPPROTO_UDP \<and> sfe_ipv6_recv_udp k si skb dev (skb_len skb) ihl fl = Some res
      \<or> nh = IPPROTO_TCP \<and> sfe_ipv6_recv_tcp k si skb dev (skb_len skb) ihl fl = Some res
      \<or> nh = IPPROTO_ICMPV6 \<and> sfe_ipv6_recv_icmp k si skb dev (skb_len skb) ihl = Some res"
    using r f g w v by (auto simp: sfe_ipv6_recv_def Let_def split: if_splits)
  with g fl show ?thesis
    unfolding Let_def by (intro exI [of _ ihl] exI [of _ nh] exI [of _ fl]) (simp add: not_less)
qed

lemma recv_icmp_ret6:
  assumes "sfe_ipv6_recv_icmp k si skb dev len ihl = Some res"
  shows "r_ret6 res = 0"
  using assms unfolding sfe_ipv6_recv_icmp_def Let_def
  by (auto split: if_splits option.splits sum.splits prod.splits Option.bind_splits)

lemma recv_forwarded_packet6:
  assumes i: "sfe_inv6 si g P" and r: "sfe_ipv6_recv k dev si skb = Some res" and f: "r_ret6 res = 1"
  shows "\<exists>cm. cm \<in> ft_live (ft6 si) (set (ga g)) \<and> cm_key6 (matches6 si cm) = packet_key6 dev (skb_mem skb) \<and> guards_passed6 k skb
    \<and> cm_flow_accel6 (matches6 si cm) \<noteq> 0
    \<and> (skb_mem skb iph6_nexthdr = IPPROTO_UDP \<and> skb_len skb \<le> ucast (cm_xmit_dev_mtu6 (matches6 si cm)) \<and>
       r_skb6 res = sent6 k (matches6 si cm) (c_mark6 (connections6 si (cm_connection6 (matches6 si cm)))) (skb_len skb) skb
         (udp_rewrite6 (matches6 si cm) (skb_mem skb))
     \<or> skb_mem skb iph6_nexthdr = IPPROTO_TCP \<and> fast_flags (ld32 (skb_mem skb) (40 + tcp_flag_offs)) \<and>
       (skb_len skb \<le> ucast (cm_xmit_dev_mtu6 (matches6 si cm)) \<or> skb_is_gso skb) \<and>
       r_skb6 res = sent6 k (matches6 si cm) (c_mark6 (connections6 si (cm_connection6 (matches6 si cm)))) (skb_len skb) skb
         (tcp_rewrite6 (matches6 si cm) (skb_mem skb)))"
proof -
  let ?m = "skb_mem skb" and ?len = "skb_len skb"
  obtain ihl nh fl where C: "iph6_version ?m 0 = 6"
     "(ucast (ntohs (ld16 ?m iph6_payload_len)) :: u32) \<le> ?len - IPH6_LEN"
     "fl \<longleftrightarrow> sfe_ipv6_is_ext_hdr (?m iph6_nexthdr)" "\<not> fl \<longrightarrow> ihl = IPH6_LEN \<and> nh = ?m iph6_nexthdr"
     "nh = IPPROTO_UDP \<and> sfe_ipv6_recv_udp k si skb dev ?len ihl fl = Some res
      \<or> nh = IPPROTO_TCP \<and> sfe_ipv6_recv_tcp k si skb dev ?len ihl fl = Some res
      \<or> nh = IPPROTO_ICMPV6 \<and> sfe_ipv6_recv_icmp k si skb dev ?len ihl = Some res"
    using recv_cases6 [OF r f] unfolding Let_def by (elim exE conjE) (rule that)
  have live: "cm \<in> ft_live (ft6 si) (set (ga g)) \<and> cm_key6 (matches6 si cm) = (dev, p, a, b, c, d) \<and> same_data6 si si1"
    if F: "sfe_ipv6_find_connection_match si dev p a b c d = Some (Some cm, si1)" for cm si1 p a b c d
  proof -
    have fi: "ft_inv (ft6 si) g" using i by (simp add: sfe_inv6_def)
    from find_match_spec6 [OF fi, of dev p a b c d] F show ?thesis by auto
  qed
  have u40: "unat IPH6_LEN = 40" by (simp add: IPH6_LEN_def)
  from C(5) show ?thesis
  proof (elim disjE conjE)
    assume p: "nh = IPPROTO_UDP" and R: "sfe_ipv6_recv_udp k si skb dev ?len ihl fl = Some res"
    obtain cm si1 where U: "sfe_ipv6_find_connection_match si dev IPPROTO_UDP (ld_ip6 ?m iph6_saddr)
        (ld16 ?m (unat ihl + th_source)) (ld_ip6 ?m iph6_daddr) (ld16 ?m (unat ihl + th_dest)) = Some (Some cm, si1)"
      "\<not> fl" "cm_flow_accel6 (matches6 si1 cm) \<noteq> 0" "2 \<le> ?m iph6_hop_limit" "?len \<le> ucast (cm_xmit_dev_mtu6 (matches6 si1 cm))"
      "res = udp_forward6 k ?len (unat ihl) cm si1 skb"
      using recv_udp_forwards6 [OF R f] by (elim exE conjE) (rule that)
    have ihl: "ihl = IPH6_LEN" and nf: "nh = ?m iph6_nexthdr" using U(2) C(4) by simp_all
    note L = live [OF U(1)]
    have sc: "same_core6 si si1" using L by (simp add: same_core_data6)
    then have core: "cm_core6 (matches6 si1 cm) = cm_core6 (matches6 si cm)" by (simp add: same_core6_def)
    note ce = core_eq6 [OF core]
    have "r_skb6 res = sent6 k (matches6 si cm) (c_mark6 (connections6 si (cm_connection6 (matches6 si cm)))) ?len skb
        (udp_rewrite6 (matches6 si cm) ?m)"
      unfolding U(6) ihl u40 udp_forward_skb6 ce using sc by (simp add: same_core6_def)
    then show ?thesis
      using L C(1-3) ihl nf U(2) U(3,4,5) p nf ce(6,7)
      by (intro exI [of _ cm]) (simp add: packet_key6_def guards_passed6_def Let_def u40)
  next
    assume p: "nh = IPPROTO_TCP" and R: "sfe_ipv6_recv_tcp k si skb dev ?len ihl fl = Some res"
    obtain cm si1 where U: "sfe_ipv6_find_connection_match si dev IPPROTO_TCP (ld_ip6 ?m iph6_saddr)
        (ld16 ?m (unat ihl + th_source)) (ld_ip6 ?m iph6_daddr) (ld16 ?m (unat ihl + th_dest)) = Some (Some cm, si1)"
      "\<not> fl" "cm_flow_accel6 (matches6 si1 cm) \<noteq> 0" "2 \<le> ?m iph6_hop_limit"
      "?len \<le> ucast (cm_xmit_dev_mtu6 (matches6 si1 cm)) \<or> skb_is_gso skb"
      "fast_flags (ld32 ?m (unat ihl + tcp_flag_offs))"
      "recv_tcp_checked6 k si1 skb ?len ihl cm = Some res"
      using recv_tcp_forwards6 [OF R f] by (elim exE conjE) (rule that)
    obtain si2 where s2: "same_core6 si1 si2" and rs: "res = tcp_forward6 k ?len (unat ihl) cm si2 skb"
      using recv_tcp_checked_forwards6 [OF U(7) f] by blast
    have ihl: "ihl = IPH6_LEN" and nf: "nh = ?m iph6_nexthdr" using U(2) C(4) by simp_all
    note L = live [OF U(1)]
    have s1: "same_core6 si si1" using L by (simp add: same_core_data6)
    note sc = same_core_trans6 [OF s1 s2]
    then have core: "cm_core6 (matches6 si2 cm) = cm_core6 (matches6 si cm)" by (simp add: same_core6_def)
    note ce = core_eq6 [OF core]
    have core1: "cm_core6 (matches6 si1 cm) = cm_core6 (matches6 si cm)" using s1 by (simp add: same_core6_def)
    have "r_skb6 res = sent6 k (matches6 si cm) (c_mark6 (connections6 si (cm_connection6 (matches6 si cm)))) ?len skb
        (tcp_rewrite6 (matches6 si cm) ?m)"
      unfolding rs ihl u40 tcp_forward_skb6 ce using sc by (simp add: same_core6_def)
    then show ?thesis
      using L C(1-3) ihl nf U(2) U(3,4,5,6) p core_eq6(6,7) [OF core1]
      by (intro exI [of _ cm]) (simp add: packet_key6_def guards_passed6_def Let_def u40)
  next
    assume "sfe_ipv6_recv_icmp k si skb dev ?len ihl = Some res"
    with f show ?thesis using recv_icmp_ret6 by fastforce
  qed
qed

end
