(* ===== verification/SFE_IPv6_Engine.thy ===== *)
theory SFE_IPv6_Engine
  imports SFE_IPv6_Packet Engine_Interface
begin

text \<open>
  The IPv6 engine as a provider of the manager's interface, and as a transition system: whole
  requests, packets, timer runs, and the unlocked gap between taking a connection out of the tables
  and freeing it, during which other CPUs run.
\<close>

section \<open>Well-formed engines\<close>

definition sfe_good6 :: "sfe_ipv6 \<Rightarrow> bool" where
  "sfe_good6 si \<longleftrightarrow> sfe_wf6 si \<and> adj_inv6 si"

lemma sfe_good_init6: "sfe_good6 init_si6"
  using sfe_inv_init6 by (auto simp: sfe_good6_def sfe_wf6_def adj_inv6_def init_si6_def)

lemma sfe_rules_init6: "sfe_rules6 init_si6 = (\<lambda>_. None)"
proof
  show "sfe_rules6 init_si6 key = None" for key
    using lookup_None6 [OF sfe_inv_init6, of key] by (simp add: sfe_rules6_def empty_lists6_def)
qed

section \<open>Requests\<close>

datatype request6 =
    Create6 "dev_ptr \<Rightarrow> net_device" u64 "ptr option" "ptr option" "ptr option" sfe_connection_create
  | Update6 sfe_connection_create
  | Mark6 sfe_connection_mark
  | Destroy6 u64 sfe_connection_destroy
  | Destroy_dev6 u64 dev_ptr
  | Register6 "ptr option"
  | Timer6 u64 u64 u64

fun run_request6 :: "request6 \<Rightarrow> sfe_ipv6 \<Rightarrow> sfe_ipv6 option" where
  "run_request6 (Create6 devs j kc ko kr sic) si = map_option snd (sfe_ipv6_create_rule devs j kc ko kr si sic)"
| "run_request6 (Update6 sic) si = sfe_ipv6_update_rule si sic"
| "run_request6 (Mark6 mk) si = sfe_ipv6_mark_rule si mk"
| "run_request6 (Destroy6 j sid) si = map_option fst (sfe_ipv6_destroy_rule j si sid)"
| "run_request6 (Destroy_dev6 j dev) si = map_option fst (sfe_ipv6_destroy_all_rules_for_dev j dev si)"
| "run_request6 (Register6 cb) si = Some (sfe_ipv6_register_sync_rule_callback si cb)"
| "run_request6 (Timer6 hz now j) si = map_option fst (sfe_ipv6_periodic_sync hz now j si)"

text \<open>\<open>kmalloc\<close> returns objects not in use, or NULL.\<close>

fun request_enabled6 :: "request6 \<Rightarrow> sfe_ipv6 \<Rightarrow> bool" where
  "request_enabled6 (Create6 devs j kc ko kr sic) si \<longleftrightarrow>
     (case (kc, ko, kr) of (Some c, Some oc, Some r) \<Rightarrow> fresh6 si c oc r | _ \<Rightarrow> True)"
| "request_enabled6 _ si \<longleftrightarrow> True"

fun request_effect6 :: "request6 \<Rightarrow> (conn_key6 \<Rightarrow> rule6 option) \<Rightarrow> conn_key6 \<Rightarrow> rule6 option" where
  "request_effect6 (Create6 devs j kc ko kr sic) m =
     (if devs_up6 devs sic \<and> m (sic_key6 sic) = None \<and> kc \<noteq> None \<and> ko \<noteq> None \<and> kr \<noteq> None
      then m(sic_key6 sic \<mapsto> sic_rule6 sic) else m)"
| "request_effect6 (Mark6 mk) m = m(mk_key6 mk := map_option (set_mark6 (mk_mark mk)) (m (mk_key6 mk)))"
| "request_effect6 (Destroy6 j sid) m = m(sid_key6 sid := None)"
| "request_effect6 (Destroy_dev6 j dev) m =
     (\<lambda>k. case m k of None \<Rightarrow> None | Some r \<Rightarrow> if rule_uses6 dev r then None else Some r)"
| "request_effect6 _ m = m"

lemma rules_same_lists6:
  assumes i: "sfe_inv6 si g P" and i': "sfe_inv6 si' g' P'" and ga: "ga g' = ga g" and r: "same_rules6 si si'"
  shows "sfe_rules6 si' = sfe_rules6 si"
proof
  fix key
  have "sfe_lookup6 si' key = sfe_lookup6 si key"
    by (rule lookup_eqI6 [OF i i']) (use r in \<open>simp add: ga same_rules6_def\<close>)
  then show "sfe_rules6 si' key = sfe_rules6 si key"
    using r by (auto simp: sfe_rules6_def same_rules6_def intro!: option.map_cong)
qed

lemma create_request6:
  assumes i: "sfe_inv6 si g P" and a: "adj_inv6 si" and e: "request_enabled6 (Create6 devs j kc ko kr sic) si"
  shows "\<exists>si' g'. run_request6 (Create6 devs j kc ko kr sic) si = Some si' \<and> sfe_inv6 si' g' P \<and> adj_inv6 si'
    \<and> sfe_rules6 si' = request_effect6 (Create6 devs j kc ko kr sic) (sfe_rules6 si)"
proof -
  have "sfe_ipv6_create_rule devs j kc ko kr si sic \<noteq> None"
    unfolding create_rule_result6 [OF i] by (rule option.distinct)
  then obtain rc si' where c: "sfe_ipv6_create_rule devs j kc ko kr si sic = Some (rc, si')" by auto
  have f: "fresh6 si c oc r" if "kc = Some c" "ko = Some oc" "kr = Some r" for c oc r
    using e that by simp
  have rc: "rc = 0 \<longleftrightarrow> devs_up6 devs sic \<and> sfe_rules6 si (sic_key6 sic) = None \<and> kc \<noteq> None \<and> ko \<noteq> None \<and> kr \<noteq> None"
    using create_rule_result6 [OF i, of devs j kc ko kr sic] c
    by (auto simp: sfe_rules6_def EINVAL_def ENOMEM_def EADDRINUSE_def split: if_splits option.splits)
  have ci: "\<exists>g'. sfe_inv6 si' g' P"
    "rc = 0 \<Longrightarrow> sfe_rules6 si (sic_key6 sic) = None \<and> sfe_rules6 si' = (sfe_rules6 si)(sic_key6 sic \<mapsto> sic_rule6 sic)"
    "rc \<noteq> 0 \<Longrightarrow> sfe_rules6 si' = sfe_rules6 si"
    by (rule create_rule_inv6 [OF i c], rule f, assumption+)+
  have a': "adj_inv6 si'" using create_rule_adj6 [OF i a _ c] f by blast
  have R: "sfe_rules6 si' = request_effect6 (Create6 devs j kc ko kr sic) (sfe_rules6 si)"
  proof (cases "rc = 0")
    case True
    show ?thesis unfolding conjunct2 [OF ci(2) [OF True]] request_effect6.simps if_P [OF rc [THEN iffD1, OF True]] by (rule refl)
  next
    case False
    with rc have "\<not> (devs_up6 devs sic \<and> sfe_rules6 si (sic_key6 sic) = None \<and> kc \<noteq> None \<and> ko \<noteq> None \<and> kr \<noteq> None)" by blast
    then show ?thesis unfolding ci(3) [OF False] request_effect6.simps by (rule if_not_P [symmetric])
  qed
  obtain g' where g': "sfe_inv6 si' g' P" using ci(1) by (elim exE)
  show ?thesis by (intro exI [of _ si'] exI [of _ g'] conjI g' a' R) (simp add: c)
qed

lemma run_request_law6:
  assumes i: "sfe_inv6 si g P" and a: "adj_inv6 si" and e: "request_enabled6 c si"
  shows "\<exists>si' g'. run_request6 c si = Some si' \<and> sfe_inv6 si' g' P \<and> adj_inv6 si' \<and> sfe_rules6 si' = request_effect6 c (sfe_rules6 si)"
proof (cases c)
  case (Create6 devs j kc ko kr sic)
  then show ?thesis using create_request6 [OF i a] e by simp
next
  case (Update6 sic)
  obtain si' where u: "sfe_ipv6_update_rule si sic = Some si'" using update_rule_result6 [OF i] by simp
  then show ?thesis
    using update_rule_inv6 [OF i u] adj_inv_same6 [OF update_rule_adj6 [OF i u] a] Update6 by auto
next
  case (Mark6 mk)
  obtain si' where u: "sfe_ipv6_mark_rule si mk = Some si'" using mark_rule_result6 [OF i] by simp
  then show ?thesis
    using mark_rule_inv6 [OF i u] mark_rule_rules6 [OF i u] adj_inv_same6 [OF mark_rule_adj6 [OF i u] a] Mark6 by auto
next
  case (Destroy6 j sid)
  have "sfe_ipv6_destroy_rule j si sid \<noteq> None"
    unfolding destroy_rule_result6 [OF i] by (rule option.distinct)
  then obtain si' out where u: "sfe_ipv6_destroy_rule j si sid = Some (si', out)" by auto
  then show ?thesis
    using destroy_rule_inv6 [OF i u] destroy_rule_adj6 [OF i a u] Destroy6 by auto
next
  case (Destroy_dev6 j dev)
  from destroy_all_spec6 [OF i, of j dev]
  obtain si' out g' where u: "sfe_ipv6_destroy_all_rules_for_dev j dev si = Some (si', out)" and i': "sfe_inv6 si' g' P"
    and ga: "ga g' = filter (\<lambda>c. \<not> uses_dev6 (connections6 si c) dev) (ga g)" and r: "same_rules6 si si'"
    by (elim exE conjE) (rule that)
  show ?thesis
    using u i' destroy_all_rules6 [OF i i' ga r] adj_inv_same6 [OF destroy_all_adj6 [OF i u] a] Destroy_dev6 by auto
next
  case (Register6 cb)
  let ?si = "sfe_ipv6_register_sync_rule_callback si cb"
  have s: "same_shape6 si ?si" "same_rules6 si ?si"
    by (simp_all add: sfe_ipv6_register_sync_rule_callback_def same_rules6_def)
  have "same_adj6 si ?si" by (rule same_adj_frame6) (simp_all add: sfe_ipv6_register_sync_rule_callback_def)
  then show ?thesis
    using sfe_inv_same_shape6 [OF s(1) i] rules_same_shape6 [OF i s] adj_inv_same6 [OF _ a] Register6 by auto
next
  case (Timer6 hz now j)
  from periodic_sync_spec6 [OF i, of hz now j]
  obtain si' out g' where u: "sfe_ipv6_periodic_sync hz now j si = Some (si', out)" and i': "sfe_inv6 si' g' P"
    and ga: "ga g' = ga g" and r: "same_rules6 si si'"
    by (elim exE conjE) (rule that)
  show ?thesis
    using u i' rules_same_lists6 [OF i i' ga r] adj_inv_same6 [OF periodic_sync_adj6 [OF u] a] Timer6 by auto
qed

interpretation v6: rule_engine sfe_good6 sfe_rules6 run_request6 request_enabled6 request_effect6
proof
  fix si c
  assume g: "sfe_good6 si" and e: "request_enabled6 c si"
  then obtain g where "sfe_inv6 si g []" "adj_inv6 si" by (auto simp: sfe_good6_def sfe_wf6_def)
  from run_request_law6 [OF this e]
  show "\<exists>s'. run_request6 c si = Some s' \<and> sfe_good6 s' \<and> sfe_rules6 s' = request_effect6 c (sfe_rules6 si)"
    by (auto simp: sfe_good6_def sfe_wf6_def)
qed

interpretation v6d: device_engine sfe_good6 sfe_rules6 run_request6 request_enabled6 request_effect6 rule_uses6 "Destroy_dev6 j"
  for j
  by unfold_locales simp_all

section \<open>The engine as a transition system\<close>

text \<open>
  \<open>Pend\<close> steps are the halves the code runs under the lock and after it: any connection of the
  tables is unlinked, and any unlinked one is flushed later, with other steps in between.
\<close>

inductive engine_step6 :: "sfe_ipv6 \<times> ptr list \<Rightarrow> sfe_ipv6 \<times> ptr list \<Rightarrow> bool" where
  request6: "request_enabled6 c si \<Longrightarrow> run_request6 c si = Some si' \<Longrightarrow> engine_step6 (si, P) (si', P)"
| packet6: "pull_checks k skb \<Longrightarrow> sfe_ipv6_recv k dev si skb = Some res \<Longrightarrow> engine_step6 (si, P) (r_si6 res, P)"
| unlink6: "sfe_lookup6 si key = Some c \<Longrightarrow> engine_step6 (si, P) (sfe_ipv6_remove_connection si c, c # P)"
| flush6: "c \<in> set P \<Longrightarrow> engine_step6 (si, P) (fst (sfe_ipv6_flush_connection j si c reason), remove1 c P)"

inductive_cases engine_stepE6: "engine_step6 s s'"

inductive_simps engine_step_simps6: "engine_step6 (si, P) (si', P')"

inductive engine_reach6 :: "sfe_ipv6 \<times> ptr list \<Rightarrow> bool" where
  start6: "engine_reach6 (init_si6, [])"
| next_step6: "engine_reach6 s \<Longrightarrow> engine_step6 s s' \<Longrightarrow> engine_reach6 s'"

lemma recv_inv6:
  assumes i: "sfe_inv6 si g P" and a: "adj_inv6 si" and pc: "pull_checks k skb"
    and r: "sfe_ipv6_recv k dev si skb = Some res"
  shows "\<exists>g'. sfe_inv6 (r_si6 res) g' P" and "adj_inv6 (r_si6 res)" and "recv_outcome6 si skb res"
proof -
  from recv_returns_recv6 [OF i pc, of dev] r
  have R: "(\<exists>g'. sfe_inv6 (r_si6 res) g' P) \<and> recv_outcome6 si skb res \<and> same_adj6 si (r_si6 res)"
    by (auto simp: recv_returns6_def)
  then show "\<exists>g'. sfe_inv6 (r_si6 res) g' P" "recv_outcome6 si skb res" by auto
  from R show "adj_inv6 (r_si6 res)" using adj_inv_same6 [OF _ a] by blast
qed

lemma step_inv6:
  assumes "engine_step6 s s'" and "\<exists>g. sfe_inv6 (fst s) g (snd s)" and "adj_inv6 (fst s)"
  shows "(\<exists>g. sfe_inv6 (fst s') g (snd s')) \<and> adj_inv6 (fst s')"
  using assms
proof (cases rule: engine_step6.cases)
  case (request6 c si si' P)
  with assms obtain g where "sfe_inv6 si g P" "adj_inv6 si" by auto
  from run_request_law6 [OF this request6(3)] request6 show ?thesis by auto
next
  case (packet6 k skb dev si res P)
  with assms obtain g where "sfe_inv6 si g P" "adj_inv6 si" by auto
  from recv_inv6 [OF this packet6(3,4)] packet6 show ?thesis by auto
next
  case (unlink6 si key c P)
  with assms obtain g where i: "sfe_inv6 si g P" and a: "adj_inv6 si" by auto
  then have "c \<in> set (ga g)" using unlink6(3) by (simp add: lookup_iff6)
  from sfe_inv_remove6 [OF i this] adj_inv_same6 [OF same_adj_data6 [OF same_data_remove_connection6] a] unlink6
  show ?thesis by auto
next
  case (flush6 c P si j reason)
  with assms obtain g where i: "sfe_inv6 si g P" and a: "adj_inv6 si" by auto
  from flush_inv6 [OF i flush6(3)] adj_inv_same6 [OF flush_adj6 a] flush6 show ?thesis by auto
qed

lemma reach_inv6: "engine_reach6 s \<Longrightarrow> (\<exists>g. sfe_inv6 (fst s) g (snd s)) \<and> adj_inv6 (fst s)"
proof (induction rule: engine_reach6.induct)
  case start6
  then show ?case using sfe_inv_init6 sfe_good_init6 by (auto simp: sfe_good6_def)
next
  case (next_step6 s s')
  then show ?case using step_inv6 [OF next_step6(2)] by blast
qed

lemma quiet_engine6:
  assumes i: "sfe_inv6 si g []" and n: "sfe_rules6 si = (\<lambda>_. None)"
  shows "live_connections6 si = {}" "live_matches6 si = {}" "dev_refs6 si = (\<lambda>_. 0)" "num_connections6 si = 0"
    and "all_connections_head6 si = None" "active_head6 si = None"
    and "conn_hash6 si i = None" "conn_match_hash6 si i = None"
proof -
  have "ga g = []"
  proof (rule ccontr)
    assume "ga g \<noteq> []"
    then obtain c where "c \<in> set (ga g)" by (cases "ga g") auto
    then have "sfe_lookup6 si (c_key6 (connections6 si c)) = Some c" by (simp add: lookup_iff6 [OF i])
    then have "sfe_rules6 si (c_key6 (connections6 si c)) \<noteq> None" by (simp add: sfe_rules6_def)
    with n show False by simp
  qed
  note e = this
  have fi: "ft_inv (ft6 si) g" and m: "mem_ok6 si (ga g @ [])" and nc: "num_connections6 si = of_nat (length (ga g))"
    using i by (simp_all add: sfe_inv6_def)
  show "live_connections6 si = {}" "live_matches6 si = {}" "dev_refs6 si = (\<lambda>_. 0)"
    using m by (simp_all add: mem_ok6_def ft_live_def refs_of6_def fun_eq_iff e)
  show "num_connections6 si = 0" using nc by (simp add: e)
  show "all_connections_head6 si = None"
    using fi by (simp add: ft_inv_def conns_ok_def dqueue_def e)
  have L: "ft_live (ft6 si) (set (ga g)) = {}" by (simp add: ft_live_def e)
  have v: "gv g = []" using fi L by (simp add: ft_inv_def matches_ok_def)
  have "dqueue (vnx (ft6 si)) (vpv (ft6 si)) (active_head6 si) (active_tail6 si) (gv g)"
    using fi unfolding ft_inv_def matches_ok_def by simp
  then show "active_head6 si = None" unfolding v by (simp add: dqueue_def)
  have c: "chains (cnx (ft6 si)) (cpv (ft6 si)) (conn_hash6 si) (cix (ft6 si)) (gc g) {}"
    and k: "chains (mnx (ft6 si)) (mpv (ft6 si)) (conn_match_hash6 si) (mix (ft6 si)) (gm g) {}"
    using fi L by (simp_all add: ft_inv_def conns_ok_def matches_ok_def e)
  show "conn_hash6 si i = None" using chainsD(1,2) [OF c, of i] by simp
  show "conn_match_hash6 si i = None" using chainsD(1,2) [OF k, of i] by simp
qed

end
