(* ===== verification/SFE_IPv6_Example.thy ===== *)
theory SFE_IPv6_Example
  imports SFE_IPv6_Engine SFE_Example
begin

text \<open>
  A concrete engine: one UDP flow from 2001:db8::2, port 4096, on device 1 to 2001:db8:1::35, port
  53, on device 2, its source translated to 2001:db8:2::9, port 20480, a TCP flow beside it, and
  packets of them. The witnesses of the properties use them.
\<close>

declare sfe_ipv6_destroy_all_rules_for_dev.simps [code]

definition example_addr6 :: "be32 \<Rightarrow> be32 \<Rightarrow> sfe_ip_addr" where
  "example_addr6 net host = \<lparr>ip6_0 = 0xb80d0120, ip6_1 = net, ip6_2 = 0, ip6_3 = host\<rparr>"

definition example_sic6 :: sfe_connection_create where
  "example_sic6 = \<lparr>sic_protocol = 17, sic_src_dev = 1, sic_dest_dev = 2, sic_flags = 0, sic_src_mtu = 1500,
     sic_dest_mtu = 1500, sic_src_ip = example_addr6 0 0x02000000, sic_src_ip_xlate = example_addr6 0x0200 0x09000000,
     sic_dest_ip = example_addr6 0x0100 0x35000000, sic_dest_ip_xlate = example_addr6 0x0100 0x35000000,
     sic_src_port = 0x0010, sic_src_port_xlate = 0x0050, sic_dest_port = 0x3500, sic_dest_port_xlate = 0x3500,
     sic_src_mac = example_mac, sic_src_mac_xlate = example_mac, sic_dest_mac = example_mac,
     sic_dest_mac_xlate = example_mac, sic_src_td_window_scale = 0, sic_src_td_max_window = 0,
     sic_src_td_end = 0, sic_src_td_max_end = 0, sic_dest_td_window_scale = 0, sic_dest_td_max_window = 0,
     sic_dest_td_end = 0, sic_dest_td_max_end = 0, sic_mark = 7, sic_original_accel = 1, sic_reply_accel = 1,
     sic_src_priority = 0, sic_dest_priority = 0, sic_src_dscp = 0, sic_dest_dscp = 0\<rparr>"

definition example_si6 :: sfe_ipv6 where
  "example_si6 = build_rule6 (\<lambda>_. example_dev) 0 example_sic6 2 3 4
     (alloc6 2 3 4 (init_si6\<lparr>connection_create_requests6 := 1\<rparr>))"

text \<open>The two addresses of a packet of the flow.\<close>

definition example_addrs6 :: "u8 list" where
  "example_addrs6 = [0x20, 0x01, 0x0d, 0xb8, 0, 0, 0, 0, 0, 0, 0, 0, 0, 0, 0, 2,
                     0x20, 0x01, 0x0d, 0xb8, 0, 1, 0, 0, 0, 0, 0, 0, 0, 0, 0, 0x35]"

text \<open>48 bytes: an IPv6 header (hop limit 64) and a UDP header with checksum 0xabcd.\<close>

definition example_mem6 :: mem where
  "example_mem6 = (\<lambda>k. if k < 48 then ([0x60, 0, 0, 0, 0, 8, 17, 64] @ example_addrs6
     @ [0x10, 0, 0, 0x35, 0, 8, 0xab, 0xcd]) ! k else 0)"

definition example_skb6 :: sk_buff where
  "example_skb6 = \<lparr>skb_mem = example_mem6, skb_len = 48, skb_ip_summed_partial = False, skb_is_gso = False,
     skb_dev = 1, skb_priority = 0, skb_mark = 0\<rparr>"

lemma example_pull: "skb_len skb < 0x80000000 \<Longrightarrow> pull_checks example_kernel skb"
  by (simp add: pull_checks_def example_kernel_def)

lemma example_pull6: "pull_checks example_kernel example_skb6"
  by (rule example_pull) (simp add: example_skb6_def)

lemma example_create6:
  "sfe_ipv6_create_rule (\<lambda>_. example_dev) 0 (Some 2) (Some 3) (Some 4) init_si6 example_sic6 = Some (0, example_si6)"
proof -
  have "devs_up6 (\<lambda>_. example_dev) example_sic6" by (simp add: devs_up6_def example_dev_def)
  moreover have "sfe_lookup6 init_si6 key = None" for key
    by (simp add: lookup_None6 [OF sfe_inv_init6] empty_lists6_def)
  moreover have "connection_create_requests6 init_si6 = 0" by (simp add: init_si6_def)
  ultimately show ?thesis
    using create_rule_result6 [OF sfe_inv_init6, of "\<lambda>_. example_dev" 0 "Some 2" "Some 3" "Some 4" example_sic6]
    by (simp add: example_si6_def)
qed

lemma example_fresh6: "fresh6 init_si6 2 3 4"
  by (simp add: fresh6_def init_si6_def)

lemma example_good6: "sfe_good6 example_si6"
  using create_rule_inv6(1) [OF sfe_inv_init6 example_create6] create_rule_adj6 [OF sfe_inv_init6 _ _ example_create6]
    example_fresh6 sfe_good_init6
  by (auto simp: sfe_good6_def sfe_wf6_def)

lemma example_recv6: "map_option r_ret6 (sfe_ipv6_recv example_kernel 1 example_si6 example_skb6) = Some 1"
  by code_simp

section \<open>A TCP flow beside it\<close>

definition example_tcp_sic6 :: sfe_connection_create where
  "example_tcp_sic6 = example_sic6\<lparr>sic_protocol := 6, sic_flags := SFE_CREATE_FLAG_NO_SEQ_CHECK, sic_src_td_max_window := 1000, sic_src_td_end := 100,
     sic_src_td_max_end := 1000, sic_dest_td_max_window := 1000, sic_dest_td_end := 100, sic_dest_td_max_end := 1000\<rparr>"

definition example_tcp_si6 :: sfe_ipv6 where
  "example_tcp_si6 = build_rule6 (\<lambda>_. example_dev) 0 example_tcp_sic6 5 6 7
     (alloc6 5 6 7 (example_si6\<lparr>connection_create_requests6 := connection_create_requests6 example_si6 + 1\<rparr>))"

text \<open>60 bytes: an IPv6 header and a TCP header with the ACK flag, sequence and acknowledgement number 10.\<close>

definition example_tcp_mem6 :: mem where
  "example_tcp_mem6 = (\<lambda>k. if k < 60 then ([0x60, 0, 0, 0, 0, 20, 6, 64] @ example_addrs6
     @ [0x10, 0, 0, 0x35, 0, 0, 0, 10, 0, 0, 0, 10, 0x50, 0x10, 0, 100, 0xab, 0xcd, 0, 0]) ! k else 0)"

definition example_tcp_skb6 :: sk_buff where
  "example_tcp_skb6 = example_skb6\<lparr>skb_mem := example_tcp_mem6, skb_len := 60\<rparr>"

lemma example_lookup_tcp6: "sfe_lookup6 example_si6 (sic_key6 example_tcp_sic6) = None"
  by code_simp

lemma example_tcp_fresh6: "fresh6 example_si6 5 6 7"
  by (simp add: fresh6_def example_si6_def) code_simp

lemma example_tcp_create6:
  "sfe_ipv6_create_rule (\<lambda>_. example_dev) 0 (Some 5) (Some 6) (Some 7) example_si6 example_tcp_sic6 = Some (0, example_tcp_si6)"
proof -
  obtain g where i: "sfe_inv6 example_si6 g []" using example_good6 by (auto simp: sfe_good6_def sfe_wf6_def)
  have "devs_up6 (\<lambda>_. example_dev) example_tcp_sic6" by (simp add: devs_up6_def example_dev_def)
  then show ?thesis
    using create_rule_result6 [OF i, of "\<lambda>_. example_dev" 0 "Some 5" "Some 6" "Some 7" example_tcp_sic6] example_lookup_tcp6
    by (simp add: example_tcp_si6_def)
qed

lemma example_tcp_good6: "sfe_good6 example_tcp_si6"
proof -
  obtain g where i: "sfe_inv6 example_si6 g []" and a: "adj_inv6 example_si6"
    using example_good6 by (auto simp: sfe_good6_def sfe_wf6_def)
  show ?thesis
    using create_rule_inv6(1) [OF i example_tcp_create6] create_rule_adj6 [OF i a _ example_tcp_create6] example_tcp_fresh6
    by (auto simp: sfe_good6_def sfe_wf6_def)
qed

lemma example_tcp_recv6: "map_option r_ret6 (sfe_ipv6_recv example_kernel 1 example_tcp_si6 example_tcp_skb6) = Some 1"
  by code_simp

end
