(* ===== verification/SFE_IPv6_Props.thy ===== *)
theory SFE_IPv6_Props
  imports SFE_IPv6_Example
begin

text \<open>
  The properties of the IPv6 engine, each over the whole operations of the code, with a witness at
  the concrete engine of \<open>SFE_IPv6_Example\<close> where it has hypotheses. What \<open>pskb_may_pull\<close> is
  documented to do is the hypothesis \<open>pull_checks\<close>.
\<close>

section \<open>Forwarding\<close>

text \<open>The flow a packet belongs to: a match in use, with the packet's key, that may be accelerated.\<close>

definition flow_of6 :: "sfe_ipv6 \<Rightarrow> dev_ptr \<Rightarrow> mem \<Rightarrow> ptr \<Rightarrow> bool" where
  "flow_of6 si dev m cm \<longleftrightarrow> cm \<in> live_matches6 si \<and> cm_key6 (matches6 si cm) = packet_key6 dev m
     \<and> cm_flow_accel6 (matches6 si cm) \<noteq> 0"

text \<open>What the IP header, the ports and the rest of the packet look like after the rewriting.\<close>

definition translated6 :: "sfe_ipv6_connection_match \<Rightarrow> mem \<Rightarrow> mem \<Rightarrow> bool" where
  "translated6 cm m out \<longleftrightarrow> ld_ip6 out iph6_saddr = out_src_ip6 cm \<and> ld_ip6 out iph6_daddr = out_dest_ip6 cm
     \<and> ld16 out (40 + th_source) = out_src_port6 cm \<and> ld16 out (40 + th_dest) = out_dest_port6 cm
     \<and> out iph6_hop_limit = m iph6_hop_limit - 1 \<and> (\<forall>j \<in> {2, 3, 4, 5, 6}. out j = m j)
     \<and> out 0 = (if has_flag (cm_flags6 cm) SFE_IPV6_CONNECTION_MATCH_FLAG_DSCP_REMARK
                then (m 0 AND 0xf0) OR drop_bit 4 (ucast (cm_dscp6 cm)) else m 0)
     \<and> out 1 = (if has_flag (cm_flags6 cm) SFE_IPV6_CONNECTION_MATCH_FLAG_DSCP_REMARK
                then (m 1 AND 0x3f) OR push_bit 4 (ucast (cm_dscp6 cm)) else m 1)"

definition sent_as6 :: "kernel \<Rightarrow> sfe_ipv6 \<Rightarrow> ptr \<Rightarrow> sk_buff \<Rightarrow> mem \<Rightarrow> sk_buff" where
  "sent_as6 k si cm skb out =
     sent6 k (matches6 si cm) (c_mark6 (connections6 si (cm_connection6 (matches6 si cm)))) (skb_len skb) skb out"

lemma key_flow6: "cm_key6 cm = packet_key6 dev m \<Longrightarrow> matches_flow6 cm 40 m"
  by (auto simp: cm_key6_def packet_key6_def matches_flow6_def)

lemma good_invE6:
  assumes "sfe_good6 si" obtains g where "sfe_inv6 si g []" and "adj_inv6 si"
  using assms by (auto simp: sfe_good6_def sfe_wf6_def)

lemma inv_live6: "sfe_inv6 si g [] \<Longrightarrow> ft_live (ft6 si) (set (ga g)) = live_matches6 si"
  by (simp add: sfe_inv6_def mem_ok6_def)

lemma forwarded_flow6:
  assumes g: "sfe_good6 si" and r: "sfe_ipv6_recv k dev si skb = Some res" and f: "r_ret6 res = 1"
  shows "\<exists>cm out. flow_of6 si dev (skb_mem skb) cm \<and> adj_ok6 (matches6 si cm) \<and> guards_passed6 k skb
    \<and> r_skb6 res = sent_as6 k si cm skb out
    \<and> (skb_mem skb iph6_nexthdr = IPPROTO_UDP \<and> skb_len skb \<le> ucast (cm_xmit_dev_mtu6 (matches6 si cm))
         \<and> out = udp_rewrite6 (matches6 si cm) (skb_mem skb)
       \<or> skb_mem skb iph6_nexthdr = IPPROTO_TCP
         \<and> (skb_len skb \<le> ucast (cm_xmit_dev_mtu6 (matches6 si cm)) \<or> skb_is_gso skb)
         \<and> out = tcp_rewrite6 (matches6 si cm) (skb_mem skb))"
proof -
  from g obtain g0 where i: "sfe_inv6 si g0 []" and a: "adj_inv6 si" by (rule good_invE6)
  note L = inv_live6 [OF i]
  obtain cm where C: "cm \<in> live_matches6 si" "cm_key6 (matches6 si cm) = packet_key6 dev (skb_mem skb)" "guards_passed6 k skb"
    "cm_flow_accel6 (matches6 si cm) \<noteq> 0" and D: "skb_mem skb iph6_nexthdr = IPPROTO_UDP \<and> skb_len skb \<le> ucast (cm_xmit_dev_mtu6 (matches6 si cm)) \<and>
       r_skb6 res = sent6 k (matches6 si cm) (c_mark6 (connections6 si (cm_connection6 (matches6 si cm)))) (skb_len skb) skb
         (udp_rewrite6 (matches6 si cm) (skb_mem skb))
     \<or> skb_mem skb iph6_nexthdr = IPPROTO_TCP \<and> fast_flags (ld32 (skb_mem skb) (40 + tcp_flag_offs)) \<and>
       (skb_len skb \<le> ucast (cm_xmit_dev_mtu6 (matches6 si cm)) \<or> skb_is_gso skb) \<and>
       r_skb6 res = sent6 k (matches6 si cm) (c_mark6 (connections6 si (cm_connection6 (matches6 si cm)))) (skb_len skb) skb
         (tcp_rewrite6 (matches6 si cm) (skb_mem skb))"
    using recv_forwarded_packet6 [OF i r f, unfolded L] by (elim exE conjE) (rule that)
  have F: "flow_of6 si dev (skb_mem skb) cm" "adj_ok6 (matches6 si cm)"
    using C a by (simp_all add: flow_of6_def adj_inv6_def)
  show ?thesis using F C D by (intro exI [of _ cm]) (auto simp: sent_as6_def)
qed

text \<open>The first two bytes, which hold the traffic class, after the rewriting.\<close>

lemma hop_step_tclass:
  shows "hop_step cm m 0 = (if has_flag (cm_flags6 cm) SFE_IPV6_CONNECTION_MATCH_FLAG_DSCP_REMARK
                then (m 0 AND 0xf0) OR drop_bit 4 (ucast (cm_dscp6 cm)) else m 0)"
    and "hop_step cm m 1 = (if has_flag (cm_flags6 cm) SFE_IPV6_CONNECTION_MATCH_FLAG_DSCP_REMARK
                then (m 1 AND 0x3f) OR push_bit 4 (ucast (cm_dscp6 cm)) else m 1)"
  using change_dsfield_bytes(1,2) [of m "ucast (cm_dscp6 cm)"]
  by (simp_all add: hop_step_def remark_dscp6_def iph6_hop_limit_def Let_def)

lemma udp_rewrite_tclass6: "j < 2 \<Longrightarrow> udp_rewrite6 cm m j = hop_step cm m j"
  by (simp add: udp_rewrite6_def udp_xlate_src6_def udp_xlate_dest6_def Let_def hdr_defs6)

lemma tcp_rewrite_tclass6: "j < 2 \<Longrightarrow> tcp_rewrite6 cm m j = hop_step cm m j"
  by (simp add: tcp_rewrite6_def tcp_xlate_src6_def tcp_xlate_dest6_def Let_def hdr_defs6)

lemma udp_translated6: "matches_flow6 cm 40 m \<Longrightarrow> translated6 cm m (udp_rewrite6 cm m)"
  unfolding translated6_def using udp_rewrite_tclass6 [of 0] udp_rewrite_tclass6 [of 1] hop_step_tclass [of cm m]
  by (intro conjI ballI udp_rewrite_fields6) simp_all

lemma tcp_translated6: "matches_flow6 cm 40 m \<Longrightarrow> translated6 cm m (tcp_rewrite6 cm m)"
  unfolding translated6_def using tcp_rewrite_tclass6 [of 0] tcp_rewrite_tclass6 [of 1] hop_step_tclass [of cm m]
  by (intro conjI ballI tcp_rewrite_fields6) simp_all

lemma flow_matches6: "flow_of6 si dev m cm \<Longrightarrow> matches_flow6 (matches6 si cm) 40 m"
  by (simp add: flow_of6_def key_flow6)

text \<open>
  C7: A packet that \<open>sfe_ipv6_recv\<close> forwards (return value 1) passed every guard of the fast path
  and belongs to a flow of the tables. Exactly one buffer is transmitted; its bytes are those of the
  packet with the addresses and ports of the flow's translation, the hop limit one less and the
  DSCP of the flow when it asks for remarking, behind the layer 2 header of the flow. It has no
  extension headers.
\<close>

theorem recv_forwards_translated6:
  assumes "sfe_good6 si" and "pull_checks k skb" and "sfe_ipv6_recv k dev si skb = Some res" and "r_ret6 res = 1"
  shows "\<exists>cm out. flow_of6 si dev (skb_mem skb) cm \<and> guards_passed6 k skb
    \<and> r_xmit6 res = [sent_as6 k si cm skb out] \<and> translated6 (matches6 si cm) (skb_mem skb) out"
proof -
  from assms(1) obtain g where i: "sfe_inv6 si g []" and "adj_inv6 si" by (rule good_invE6)
  have x: "r_xmit6 res = [r_skb6 res]"
    using recv_inv6(3) [OF i \<open>adj_inv6 si\<close> assms(2,3)] assms(4) by (auto simp: recv_outcome6_def dropped6_def forwarded6_def)
  obtain cm out where F: "flow_of6 si dev (skb_mem skb) cm" "guards_passed6 k skb" "r_skb6 res = sent_as6 k si cm skb out"
    and o: "out = udp_rewrite6 (matches6 si cm) (skb_mem skb) \<or> out = tcp_rewrite6 (matches6 si cm) (skb_mem skb)"
    using forwarded_flow6 [OF assms(1,3,4)] by auto
  have "translated6 (matches6 si cm) (skb_mem skb) out"
    using o udp_translated6 [OF flow_matches6 [OF F(1)]] tcp_translated6 [OF flow_matches6 [OF F(1)]] by auto
  with F x show ?thesis by auto
qed

lemma recv_forwards_translated6_witness:
  "\<exists>res cm out. sfe_ipv6_recv example_kernel 1 example_si6 example_skb6 = Some res
     \<and> flow_of6 example_si6 1 example_mem6 cm \<and> r_xmit6 res = [sent_as6 example_kernel example_si6 cm example_skb6 out]
     \<and> translated6 (matches6 example_si6 cm) example_mem6 out"
proof -
  obtain res where r: "sfe_ipv6_recv example_kernel 1 example_si6 example_skb6 = Some res" "r_ret6 res = 1"
    using example_recv6 by auto
  have m: "skb_mem example_skb6 = example_mem6" by (simp add: example_skb6_def)
  from recv_forwards_translated6 [OF example_good6 example_pull6 r] r(1) show ?thesis unfolding m by auto
qed

text \<open>
  Forwarding a UDP packet leaves its checksum as good or as bad as it was: a packet without a
  checksum still has none, one with a checksum never loses it, and a complete checksum is valid for
  the new addresses and ports exactly when it was valid for the old ones. The payload is unchanged.
\<close>

theorem forwarded_udp_checksum6:
  assumes "sfe_good6 si" and "sfe_ipv6_recv k dev si skb = Some res" and "r_ret6 res = 1"
    and "skb_mem skb iph6_nexthdr = IPPROTO_UDP"
  shows "\<exists>cm out. flow_of6 si dev (skb_mem skb) cm \<and> r_skb6 res = sent_as6 k si cm skb out
    \<and> (ld16 out (40 + udp_check) = 0 \<longleftrightarrow> ld16 (skb_mem skb) (40 + udp_check) = 0)
    \<and> (\<forall>n \<ge> 8. ld16 (skb_mem skb) (40 + udp_check) \<noteq> 0 \<longrightarrow>
          transport_csum_ok6 (ld_ip6 out iph6_saddr) (ld_ip6 out iph6_daddr) IPPROTO_UDP out 40 n
            = transport_csum_ok6 (ld_ip6 (skb_mem skb) iph6_saddr) (ld_ip6 (skb_mem skb) iph6_daddr) IPPROTO_UDP (skb_mem skb) 40 n)
    \<and> (\<forall>j \<ge> 48. out j = skb_mem skb j)"
proof -
  let ?m = "skb_mem skb"
  obtain cm out where F: "flow_of6 si dev ?m cm" "adj_ok6 (matches6 si cm)" "r_skb6 res = sent_as6 k si cm skb out"
    and o: "out = udp_rewrite6 (matches6 si cm) ?m"
    using forwarded_flow6 [OF assms(1-3)] assms(4) by (auto simp: ipproto_defs)
  note fl = flow_matches6 [OF F(1)]
  have a: "ld_ip6 out iph6_saddr = out_src_ip6 (matches6 si cm)" "ld_ip6 out iph6_daddr = out_dest_ip6 (matches6 si cm)"
    unfolding o by (rule udp_rewrite_fields6 [OF fl])+
  have c: "40 + udp_check = 46" by (simp add: udp_check_def)
  show ?thesis
  proof (intro exI [of _ cm] exI [of _ out] conjI F allI impI)
    show "(ld16 out (40 + udp_check) = 0) = (ld16 ?m (40 + udp_check) = 0)"
      unfolding c o using udp_rewrite_zero_csum6 udp_rewrite_nonzero_csum6 by blast
  next
    fix n :: nat assume n: "8 \<le> n" and nz: "ld16 ?m (40 + udp_check) \<noteq> 0"
    show "transport_csum_ok6 (ld_ip6 out iph6_saddr) (ld_ip6 out iph6_daddr) IPPROTO_UDP out 40 n
        = transport_csum_ok6 (ld_ip6 ?m iph6_saddr) (ld_ip6 ?m iph6_daddr) IPPROTO_UDP ?m 40 n"
      unfolding a unfolding o using udp_rewrite_csum6 [OF F(2) fl _ n] nz unfolding c by simp
  next
    fix j :: nat assume "48 \<le> j"
    then show "out j = ?m j" unfolding o by (rule udp_rewrite_fields6(6) [OF fl])
  qed
qed

lemma forwarded_udp_checksum6_witness:
  "\<exists>res cm out. sfe_ipv6_recv example_kernel 1 example_si6 example_skb6 = Some res
     \<and> r_skb6 res = sent_as6 example_kernel example_si6 cm example_skb6 out
     \<and> transport_csum_ok6 (ld_ip6 out iph6_saddr) (ld_ip6 out iph6_daddr) IPPROTO_UDP out 40 8
        = transport_csum_ok6 (ld_ip6 example_mem6 iph6_saddr) (ld_ip6 example_mem6 iph6_daddr) IPPROTO_UDP example_mem6 40 8"
proof -
  obtain res where r: "sfe_ipv6_recv example_kernel 1 example_si6 example_skb6 = Some res" "r_ret6 res = 1"
    using example_recv6 by auto
  have m: "skb_mem example_skb6 = example_mem6" by (simp add: example_skb6_def)
  have u: "skb_mem example_skb6 iph6_nexthdr = IPPROTO_UDP" and n: "ld16 example_mem6 (40 + udp_check) \<noteq> 0"
    by (simp_all add: m example_mem6_def example_addrs6_def hdr_defs6 ipproto_defs ld16_def)
  from forwarded_udp_checksum6 [OF example_good6 r u] r(1) n show ?thesis unfolding m by blast
qed

text \<open>
  Forwarding a TCP packet leaves its complete checksum as good or as bad as it was,
  and changes no byte of the TCP header besides ports and checksum, and none of the payload.
\<close>

theorem forwarded_tcp_checksum6:
  assumes "sfe_good6 si" and "sfe_ipv6_recv k dev si skb = Some res" and "r_ret6 res = 1"
    and "skb_mem skb iph6_nexthdr = IPPROTO_TCP"
  shows "\<exists>cm out. flow_of6 si dev (skb_mem skb) cm \<and> r_skb6 res = sent_as6 k si cm skb out
    \<and> (\<forall>n \<ge> 20.
          transport_csum_ok6 (ld_ip6 out iph6_saddr) (ld_ip6 out iph6_daddr) IPPROTO_TCP out 40 n
            = transport_csum_ok6 (ld_ip6 (skb_mem skb) iph6_saddr) (ld_ip6 (skb_mem skb) iph6_daddr) IPPROTO_TCP (skb_mem skb) 40 n)
    \<and> (\<forall>j \<ge> 44. j \<notin> {56, 57} \<longrightarrow> out j = skb_mem skb j)"
proof -
  let ?m = "skb_mem skb"
  obtain cm out where F: "flow_of6 si dev ?m cm" "adj_ok6 (matches6 si cm)" "r_skb6 res = sent_as6 k si cm skb out"
    and o: "out = tcp_rewrite6 (matches6 si cm) ?m"
    using forwarded_flow6 [OF assms(1-3)] assms(4) by (auto simp: ipproto_defs)
  note fl = flow_matches6 [OF F(1)]
  have a: "ld_ip6 out iph6_saddr = out_src_ip6 (matches6 si cm)" "ld_ip6 out iph6_daddr = out_dest_ip6 (matches6 si cm)"
    unfolding o by (rule tcp_rewrite_fields6 [OF fl])+
  show ?thesis
  proof (intro exI [of _ cm] exI [of _ out] conjI F allI impI)
    fix n :: nat assume n: "20 \<le> n"
    show "transport_csum_ok6 (ld_ip6 out iph6_saddr) (ld_ip6 out iph6_daddr) IPPROTO_TCP out 40 n
        = transport_csum_ok6 (ld_ip6 ?m iph6_saddr) (ld_ip6 ?m iph6_daddr) IPPROTO_TCP ?m 40 n"
      unfolding a unfolding o using tcp_rewrite_csum6 [OF F(2) fl n] by simp
  next
    fix j :: nat assume "44 \<le> j" "j \<notin> {56, 57}"
    then show "out j = ?m j" unfolding o by (rule tcp_rewrite_fields6(6) [OF fl])
  qed
qed

lemma forwarded_tcp_checksum6_witness:
  "\<exists>res cm out. sfe_ipv6_recv example_kernel 1 example_tcp_si6 example_tcp_skb6 = Some res
     \<and> r_skb6 res = sent_as6 example_kernel example_tcp_si6 cm example_tcp_skb6 out
     \<and> transport_csum_ok6 (ld_ip6 out iph6_saddr) (ld_ip6 out iph6_daddr) IPPROTO_TCP out 40 20
        = transport_csum_ok6 (ld_ip6 example_tcp_mem6 iph6_saddr) (ld_ip6 example_tcp_mem6 iph6_daddr) IPPROTO_TCP example_tcp_mem6 40 20"
proof -
  obtain res where r: "sfe_ipv6_recv example_kernel 1 example_tcp_si6 example_tcp_skb6 = Some res" "r_ret6 res = 1"
    using example_tcp_recv6 by auto
  have m: "skb_mem example_tcp_skb6 = example_tcp_mem6"
    by (simp add: example_tcp_skb6_def example_skb6_def)
  have u: "skb_mem example_tcp_skb6 iph6_nexthdr = IPPROTO_TCP"
    by (simp add: m example_tcp_mem6_def hdr_defs6 ipproto_defs)
  from forwarded_tcp_checksum6 [OF example_tcp_good6 r u] r(1) show ?thesis unfolding m by blast
qed

text \<open>
  C8: Whatever the packet and the device, \<open>sfe_ipv6_recv\<close> returns (the option parser, the walk
  over extension headers and the chain walks end), the engine stays well formed, and exactly one of three things has happened: the
  packet is counted, left alone and given back with its flow untouched, or with its flow removed and
  reported to the sync callback, or it is transmitted and counted as forwarded.
\<close>

theorem recv_total6:
  assumes "sfe_good6 si" and "pull_checks k skb"
  shows "\<exists>res. sfe_ipv6_recv k dev si skb = Some res \<and> sfe_good6 (r_si6 res) \<and> recv_outcome6 si skb res"
proof -
  from assms(1) obtain g where i: "sfe_inv6 si g []" and a: "adj_inv6 si" by (rule good_invE6)
  obtain res where r: "sfe_ipv6_recv k dev si skb = Some res"
    using recv_returns_recv6 [OF i assms(2), of dev] by (auto simp: recv_returns6_def)
  with recv_inv6 [OF i a assms(2) r] show ?thesis by (auto simp: sfe_good6_def sfe_wf6_def)
qed

lemma recv_total6_witness:
  "sfe_good6 example_si6 \<and> (\<exists>res. sfe_ipv6_recv example_kernel 2 example_si6 example_skb6 = Some res \<and> sfe_good6 (r_si6 res)
     \<and> recv_outcome6 example_si6 example_skb6 res)"
  using recv_total6 [OF example_good6 example_pull6] example_good6 by blast

end
