(* ===== verification/SFE_IPv6_System.thy ===== *)
theory SFE_IPv6_System
  imports SFE_IPv6_Props SFE_IPv6_Ext
begin

text \<open>
  What is peculiar to the IPv6 engine, the walk over extension headers, partial checksums and ICMPv6
  errors, and the engine as a whole under requests in any order and in every reachable state.
\<close>

section \<open>Extension headers\<close>

text \<open>
  C15: Whatever the bytes of the packet, the walk over its extension headers ends. It fails only at a
  non-initial fragment or at a header the packet does not have in full; otherwise the offset it
  returns is behind the fixed header with 8 more bytes inside the packet, the header there is no
  extension header, and the flag that makes the caller flush the flow is set exactly when there was
  an extension header.
\<close>

theorem ext_headers_safe:
  assumes "pull_checks k skb" and "k_may_pull k skb (IPH6_LEN + EXTH_LEN)"
  shows "\<exists>r. ext_headers k skb IPH6_LEN nh False = Some r \<and> (case r of
     Inl e \<Rightarrow> sfe_ipv6_is_ext_hdr nh \<and> (e = NON_INITIAL_FRAGMENT6 \<or> e = HEADER_INCOMPLETE6)
   | Inr (ihl, nh', flush) \<Rightarrow> 40 \<le> unat ihl \<and> unat ihl + 8 \<le> unat (skb_len skb) \<and> \<not> sfe_ipv6_is_ext_hdr nh'
       \<and> (flush \<longleftrightarrow> sfe_ipv6_is_ext_hdr nh) \<and> (\<not> flush \<longrightarrow> ihl = IPH6_LEN \<and> nh' = nh))"
proof -
  have "unat IPH6_LEN + 8 \<le> unat (skb_len skb)"
    using pull_checksD(1) [OF assms] by (simp add: IPH6_LEN_def EXTH_LEN_def)
  from ext_headers_spec [OF assms(1) this, of nh False]
  obtain r where "ext_headers k skb IPH6_LEN nh False = Some r" "walk_ok skb IPH6_LEN nh False r" by blast
  then show ?thesis
    by (intro exI [of _ r]) (auto simp: walk_ok_def IPH6_LEN_def split: sum.split)
qed

lemma ext_headers_safe_witness:
  "\<exists>r. ext_headers example_kernel example_skb6 IPH6_LEN SFE_IPV6_EXT_HDR_HOP False = Some r"
proof -
  have "k_may_pull example_kernel example_skb6 (IPH6_LEN + EXTH_LEN)"
    by (simp add: example_kernel_def example_skb6_def IPH6_LEN_def EXTH_LEN_def)
  from ext_headers_safe [OF example_pull6 this] show ?thesis by blast
qed

section \<open>Partial checksums\<close>

text \<open>Where the checksum of a packet without extension headers is.\<close>

definition transport_check :: "u8 \<Rightarrow> nat" where
  "transport_check p = 40 + (if p = IPPROTO_UDP then udp_check else tcp_check)"

lemma udp_rewrite_check_src:
  assumes "has_flag (cm_flags6 cm) SFE_IPV6_CONNECTION_MATCH_FLAG_XLATE_SRC"
    and "\<not> has_flag (cm_flags6 cm) SFE_IPV6_CONNECTION_MATCH_FLAG_XLATE_DEST" and "ld16 m 46 \<noteq> 0"
  shows "ld16 (udp_rewrite6 cm m) 46 = csum_update (ld16 m 46) (cm_xlate_src_csum_adjustment6 cm)"
  using assms by (simp add: udp_rewrite6_def udp_xlate_src6_def udp_xlate_dest6_def Let_def hdr_defs6)

lemma tcp_rewrite_check_src:
  assumes "has_flag (cm_flags6 cm) SFE_IPV6_CONNECTION_MATCH_FLAG_XLATE_SRC"
    and "\<not> has_flag (cm_flags6 cm) SFE_IPV6_CONNECTION_MATCH_FLAG_XLATE_DEST"
  shows "ld16 (tcp_rewrite6 cm m) 56 = csum_update (ld16 m 56) (cm_xlate_src_csum_adjustment6 cm)"
  using assms by (simp add: tcp_rewrite6_def tcp_xlate_src6_def tcp_xlate_dest6_def Let_def hdr_defs6)


text \<open>The packet of \<open>example_mem6\<close> with the sum of its pseudo header in the checksum field.\<close>

definition example_partial_mem6 :: mem where
  "example_partial_mem6 = example_mem6(46 := 0x5b, 47 := 0xc3)"

definition example_partial_skb6 :: sk_buff where
  "example_partial_skb6 = example_skb6\<lparr>skb_mem := example_partial_mem6, skb_ip_summed_partial := True\<rparr>"

lemma example_recv_partial6: "map_option r_ret6 (sfe_ipv6_recv example_kernel 1 example_si6 example_partial_skb6) = Some 1"
  by code_simp

lemma example_partial_fields:
  "ld_ip6 example_partial_mem6 iph6_saddr = example_addr6 0 0x02000000 \<and>
   ld_ip6 example_partial_mem6 iph6_daddr = example_addr6 0x0100 0x35000000 \<and>
   ld16 example_partial_mem6 (40 + th_source) = 0x0010 \<and> ld16 example_partial_mem6 46 = 0xc35b \<and>
   example_partial_mem6 iph6_nexthdr = IPPROTO_UDP \<and>
   packet_key6 1 example_partial_mem6 = (1, 17, example_addr6 0 0x02000000, 0x0010, example_addr6 0x0100 0x35000000, 0x3500)"
  by code_simp

lemma example_flow3:
  assumes "flow_of6 example_si6 1 example_partial_mem6 cm"
  shows "cm = 3"
proof -
  have "live_matches6 example_si6 = {3, 4} \<and> cm_key6 (matches6 example_si6 4)
      \<noteq> (1, 17, example_addr6 0 0x02000000, 0x0010, example_addr6 0x0100 0x35000000, 0x3500)"
    by code_simp
  with assms example_partial_fields show ?thesis by (auto simp: flow_of6_def)
qed

lemma example_match3:
  "has_flag (cm_flags6 (matches6 example_si6 3)) SFE_IPV6_CONNECTION_MATCH_FLAG_XLATE_SRC \<and>
   \<not> has_flag (cm_flags6 (matches6 example_si6 3)) SFE_IPV6_CONNECTION_MATCH_FLAG_XLATE_DEST \<and>
   cm_xlate_src_ip6 (matches6 example_si6 3) = example_addr6 0x0200 0x09000000 \<and>
   cm_xlate_src_port6 (matches6 example_si6 3) = 0x0050"
  by code_simp


section \<open>ICMPv6 errors\<close>

text \<open>The flow an ICMPv6 error reports on, in the direction of the packets this host received.\<close>

definition quoted_key6 :: "dev_ptr \<Rightarrow> mem \<Rightarrow> nat \<Rightarrow> match_key6" where
  "quoted_key6 dev m icmp =
     (let iph = icmp + 8; trans = iph + 40
      in (dev, m (iph + iph6_nexthdr), ld_ip6 m (iph + iph6_daddr), ld16 m (trans + th_dest),
          ld_ip6 m (iph + iph6_saddr), ld16 m (trans + th_source)))"

text \<open>The bytes the handler asks for, the type and the version of a message that quotes an IPv6 packet.\<close>

definition quotes_packet :: "kernel \<Rightarrow> sk_buff \<Rightarrow> u32 \<Rightarrow> bool" where
  "quotes_packet k skb ihl \<longleftrightarrow> k_may_pull k skb (ihl + ICMPH_LEN) \<and> k_may_pull k skb (ihl + ICMPH_LEN + IPH6_LEN + EXTH_LEN)
     \<and> (skb_mem skb (unat ihl) = ICMPV6_DEST_UNREACH \<or> skb_mem skb (unat ihl) = ICMPV6_TIME_EXCEED)
     \<and> iph6_version (skb_mem skb) (unat ihl + 8) = 6"

lemma ext_headers_none:
  "\<not> sfe_ipv6_is_ext_hdr nh \<Longrightarrow> ext_headers k skb ihl nh fl = Some (Inr (ihl, nh, fl))"
  by (subst ext_headers.simps) simp

lemma transport_not_ext: "p = IPPROTO_UDP \<or> p = IPPROTO_TCP \<Longrightarrow> \<not> sfe_ipv6_is_ext_hdr p"
  by (auto simp: sfe_ipv6_is_ext_hdr_def ext_hdr_defs ipproto_defs)

lemma recv_icmp_known6:
  assumes q: "quotes_packet k skb ihl" and lt: "unat ihl < 2147483648"
    and p: "skb_mem skb (unat ihl + 8 + iph6_nexthdr) = IPPROTO_UDP \<or> skb_mem skb (unat ihl + 8 + iph6_nexthdr) = IPPROTO_TCP"
    and k: "(d, p, a, b, c', e) = quoted_key6 dev (skb_mem skb) (unat ihl)"
    and f: "sfe_ipv6_find_connection_match si d p a b c' e = Some (Some cm, si1)"
  shows "sfe_ipv6_recv_icmp k si skb dev len ihl = Some (flush_not_forwarded6 k ICMP_FLUSHED_CONNECTION6 cm si1 skb)"
proof -
  have u: "unat ICMPH_LEN = 8" by (simp add: ICMPH_LEN_def)
  have u2: "unat (ihl + ICMPH_LEN + IPH6_LEN) = unat ihl + 48"
    using lt by (simp add: ICMPH_LEN_def IPH6_LEN_def unat_plus_u32)
  note E = ext_headers_none [OF transport_not_ext [OF p], of k skb "ihl + ICMPH_LEN + IPH6_LEN" False]
  show ?thesis
    using q p k f E u2 unfolding sfe_ipv6_recv_icmp_def quoted_key6_def quotes_packet_def Let_def u
    by (auto simp: add.assoc)
qed

lemma flushed_base6:
  assumes s: "same_data6 si si1" "sfe_rules6 si1 = sfe_rules6 si" "sfe_lookup6 si1 = sfe_lookup6 si"
    and f: "flushed6 si1 c res"
  shows "flushed6 si c res"
  using f same_rules_data6 [OF s(1)] s by (simp add: flushed6_def same_rules6_def same_data6_def)

text \<open>
  An ICMPv6 destination unreachable or time exceeded message that quotes a packet of a flow of the
  engine, without extension headers, takes that flow out: its rule is gone, its connection reported to
  the callback with reason FLUSH, and the message itself is left to the slow path.
\<close>

theorem icmp_error_flushes_flow6:
  assumes "sfe_good6 si" and "pull_checks k skb" and "quotes_packet k skb ihl" and "unat ihl + 8 \<le> unat (skb_len skb)"
    and "skb_mem skb (unat ihl + 8 + iph6_nexthdr) = IPPROTO_UDP \<or> skb_mem skb (unat ihl + 8 + iph6_nexthdr) = IPPROTO_TCP"
    and "m \<in> live_matches6 si" and "cm_key6 (matches6 si m) = quoted_key6 dev (skb_mem skb) (unat ihl)"
  shows "\<exists>res cm. sfe_ipv6_recv_icmp k si skb dev len ihl = Some res \<and> sfe_good6 (r_si6 res)
    \<and> cm \<in> live_matches6 si \<and> cm_key6 (matches6 si cm) = quoted_key6 dev (skb_mem skb) (unat ihl)
    \<and> dropped6 si skb res \<and> flushed6 si (cm_connection6 (matches6 si cm)) res"
proof -
  from assms(1) obtain g where i: "sfe_inv6 si g []" and a: "adj_inv6 si" by (rule good_invE6)
  obtain d p x y z w where q: "quoted_key6 dev (skb_mem skb) (unat ihl) = (d, p, x, y, z, w)"
    by (cases "quoted_key6 dev (skb_mem skb) (unat ihl)") auto
  obtain r si1 g1 where f: "sfe_ipv6_find_connection_match si d p x y z w = Some (r, si1)"
    and i1: "sfe_inv6 si1 g1 []" and D: "same_data6 si si1" and R: "sfe_rules6 si1 = sfe_rules6 si" "sfe_lookup6 si1 = sfe_lookup6 si"
    and c: "case r of None \<Rightarrow> si1 = si \<and> (\<forall>m \<in> ft_live (ft6 si) (set (ga g)). cm_key6 (matches6 si m) \<noteq> (d, p, x, y, z, w))
       | Some cm \<Rightarrow> cm \<in> ft_live (ft6 si1) (set (ga g1)) \<and> cm_key6 (matches6 si1 cm) = (d, p, x, y, z, w)"
    by (rule find_match_inv6 [OF i, of d p x y z w])
  obtain cm where r: "r = Some cm" using c assms(6,7) unfolding inv_live6 [OF i] q by (cases r) auto
  with c have L: "cm \<in> ft_live (ft6 si1) (set (ga g1))" and k: "cm_key6 (matches6 si1 cm) = (d, p, x, y, z, w)" by simp_all
  define res where "res = flush_not_forwarded6 k ICMP_FLUSHED_CONNECTION6 cm si1 skb"
  have lt: "unat ihl < 2147483648" using assms(2,4) by (simp add: pull_checks_def word_less_nat_alt)
  have e: "sfe_ipv6_recv_icmp k si skb dev len ihl = Some res"
    unfolding res_def using recv_icmp_known6 [OF assms(3) lt assms(5) q [symmetric]] f r by simp
  have same: "cm_connection6 (matches6 si1 cm) = cm_connection6 (matches6 si cm)" "cm_key6 (matches6 si1 cm) = cm_key6 (matches6 si cm)"
    "live_matches6 si1 = live_matches6 si"
    using same_dataD6(11,14) [OF D] D by (simp_all add: same_data6_def)
  note ok = flush_not_forwarded_ok6 [OF i1 L, where k = k and e = ICMP_FLUSHED_CONNECTION6 and skb = skb, folded res_def]
  have "flushed6 si (cm_connection6 (matches6 si cm)) res"
    using flushed_base6 [OF D R ok(3)] by (simp only: same)
  moreover have "dropped6 si skb res" using ok(2) D by (simp add: dropped6_def same_data6_def)
  moreover have "recv_returns6 si [] skb (Some res)"
    using recv_icmp_returns6 [OF i assms(2,4), of dev len] by (simp only: e)
  then have "sfe_good6 (r_si6 res)"
    using adj_inv_same6 [OF _ a] by (auto simp: recv_returns6_def sfe_good6_def sfe_wf6_def)
  ultimately show ?thesis
    using e k L same unfolding inv_live6 [OF i1] q by auto
qed

text \<open>A destination unreachable message about the packet of \<open>example_mem6\<close> after its translation.\<close>

definition example_icmp6 :: "u8 \<Rightarrow> mem" where
  "example_icmp6 nh = (\<lambda>k. if k < 104 then ([0x60, 0, 0, 0, 0, 64, 58, 64] @ example_addrs6 @ [1, 1, 0, 0, 0, 0, 0, 0]
     @ [0x60, 0, 0, 0, 0, 16, nh, 64, 0x20, 0x01, 0x0d, 0xb8, 0, 2, 0, 0, 0, 0, 0, 0, 0, 0, 0, 9,
        0x20, 0x01, 0x0d, 0xb8, 0, 1, 0, 0, 0, 0, 0, 0, 0, 0, 0, 0x35]
     @ (if nh = 17 then [0x50, 0, 0, 0x35, 0, 8, 0, 0, 0, 0, 0, 0, 0, 0, 0, 0]
        else [17, 0, 0, 0, 0, 0, 0, 0, 0x50, 0, 0, 0x35, 0, 8, 0, 0])) ! k else 0)"

definition example_icmp_skb6 :: "u8 \<Rightarrow> sk_buff" where
  "example_icmp_skb6 nh = example_skb6\<lparr>skb_mem := example_icmp6 nh, skb_len := 104\<rparr>"

lemma example_icmp_facts:
  "pull_checks example_kernel (example_icmp_skb6 nh)" "unat (40 :: u32) + 8 \<le> unat (skb_len (example_icmp_skb6 nh))"
  by (rule example_pull, simp_all add: example_icmp_skb6_def)

lemma example_quotes: "quotes_packet example_kernel (example_icmp_skb6 17) 40 \<and> quotes_packet example_kernel (example_icmp_skb6 0) 40"
  by code_simp

lemma icmp_error_flushes_flow6_witness:
  "\<exists>res c. sfe_ipv6_recv_icmp example_kernel example_si6 (example_icmp_skb6 17) 2 104 40 = Some res
     \<and> sfe_good6 (r_si6 res) \<and> flushed6 example_si6 c res"
proof -
  let ?skb = "example_icmp_skb6 17"
  have 1: "skb_mem ?skb (unat (40 :: u32) + 8 + iph6_nexthdr) = IPPROTO_UDP" by code_simp
  have 2: "4 \<in> live_matches6 example_si6 \<and> cm_key6 (matches6 example_si6 4) = quoted_key6 2 (skb_mem ?skb) (unat (40 :: u32))"
    by code_simp
  show ?thesis
    using icmp_error_flushes_flow6 [OF example_good6 example_icmp_facts(1) conjunct1 [OF example_quotes] example_icmp_facts(2)
        disjI1 [OF 1] conjunct1 [OF 2] conjunct2 [OF 2], of 104] by auto
qed

text \<open>
  C17: When the quoted packet starts with an extension header, the handler walks over it and then looks
  the flow up under the number of that extension header instead of its transport protocol. As long as
  the engine holds UDP and TCP flows only, such an error never flushes a flow: all rules stay.
\<close>

theorem icmp_error_ext_hdr_keeps_flows:
  assumes "sfe_good6 si" and "pull_checks k skb" and "unat ihl + 8 \<le> unat (skb_len skb)"
    and "sfe_ipv6_is_ext_hdr (skb_mem skb (unat ihl + 8 + iph6_nexthdr))"
    and "\<And>m. m \<in> live_matches6 si \<Longrightarrow> cm_match_protocol6 (matches6 si m) = IPPROTO_UDP \<or> cm_match_protocol6 (matches6 si m) = IPPROTO_TCP"
  shows "\<exists>res. sfe_ipv6_recv_icmp k si skb dev len ihl = Some res \<and> dropped6 si skb res \<and> kept6 si res"
proof -
  from assms(1) obtain g where i: "sfe_inv6 si g []" and a: "adj_inv6 si" by (rule good_invE6)
  let ?nh = "skb_mem skb (unat ihl + 8 + iph6_nexthdr)"
  have u: "unat ICMPH_LEN = 8" by (simp add: ICMPH_LEN_def)
  have find: "sfe_ipv6_find_connection_match si dev ?nh x y z w = Some (None, si)" for x y z w
  proof -
    obtain r si1 g1 where f: "sfe_ipv6_find_connection_match si dev ?nh x y z w = Some (r, si1)"
      and "sfe_inv6 si1 g1 []" and g1: "ga g1 = ga g" and D: "same_data6 si si1"
      and c: "case r of None \<Rightarrow> si1 = si \<and> (\<forall>m \<in> ft_live (ft6 si) (set (ga g)). cm_key6 (matches6 si m) \<noteq> (dev, ?nh, x, y, z, w))
         | Some cm \<Rightarrow> cm \<in> ft_live (ft6 si1) (set (ga g1)) \<and> cm_key6 (matches6 si1 cm) = (dev, ?nh, x, y, z, w)"
      by (rule find_match_inv6 [OF i, of dev ?nh x y z w])
    have False if "r = Some cm" for cm
    proof -
      have "ft_live (ft6 si1) (set (ga g1)) = live_matches6 si"
        using same_dataD6(6,7) [OF D] inv_live6 [OF i] by (simp add: ft_live_def g1)
      with c that have "cm \<in> live_matches6 si" "cm_key6 (matches6 si cm) = (dev, ?nh, x, y, z, w)"
        using same_dataD6(14) [OF D] by simp_all
      with assms(5) [of cm] transport_not_ext assms(4) show False by (auto simp: cm_key6_def)
    qed
    with c f show ?thesis by (cases r) simp_all
  qed
  have nf: "dropped6 si skb (not_forwarded6 e si skb)" "kept6 si (not_forwarded6 e si skb)" for e
    by (rule not_forwarded_ok6 [OF i])+
  obtain res where r: "sfe_ipv6_recv_icmp k si skb dev len ihl = Some res"
    using recv_icmp_returns6 [OF i assms(2,3), of dev len] by (auto simp: recv_returns6_def)
  then have "\<exists>e. res = not_forwarded6 e si skb"
    unfolding sfe_ipv6_recv_icmp_def Let_def u
    by (auto simp: find split: if_splits sum.splits prod.splits Option.bind_splits)
  with r nf show ?thesis by auto
qed

lemma example_udp_flows:
  "live_matches6 example_si6 = {3, 4} \<and> cm_match_protocol6 (matches6 example_si6 3) = IPPROTO_UDP
   \<and> cm_match_protocol6 (matches6 example_si6 4) = IPPROTO_UDP"
  by code_simp

text \<open>The same packet quoted with a hop-by-hop header in front: its flow stays.\<close>

lemma icmp_error_ext_hdr_keeps_flows_witness:
  "\<exists>res. sfe_ipv6_recv_icmp example_kernel example_si6 (example_icmp_skb6 0) 2 104 40 = Some res \<and> kept6 example_si6 res"
proof -
  have 1: "sfe_ipv6_is_ext_hdr (skb_mem (example_icmp_skb6 0) (unat (40 :: u32) + 8 + iph6_nexthdr))" by code_simp
  show ?thesis
    using icmp_error_ext_hdr_keeps_flows [OF example_good6 example_icmp_facts(1,2) 1, of 2 104] example_udp_flows by auto
qed

section \<open>The engine as a whole\<close>

text \<open>
  Any list of requests, each made when its memory is available, is served to the end by the IPv6
  engine; the map of rules it leaves is the one its abstract effects leave, and the engine is well
  formed.
\<close>

theorem requests_refine6:
  assumes "sfe_good6 si" and "v6.enabled_all cs si"
  shows "\<exists>si'. v6.run_all cs si = Some si' \<and> sfe_good6 si' \<and> sfe_rules6 si' = fold request_effect6 cs (sfe_rules6 si)"
  by (rule v6.run_all_refines [OF assms])

definition example_sid6 :: sfe_connection_destroy where
  "example_sid6 = \<lparr>sid_protocol = 17, sid_src_ip = example_addr6 0 0x02000000, sid_dest_ip = example_addr6 0x0100 0x35000000,
     sid_src_port = 0x0010, sid_dest_port = 0x3500\<rparr>"

lemma requests_refine6_witness:
  "\<exists>si'. v6.run_all [Create6 (\<lambda>_. example_dev) 0 (Some 2) (Some 3) (Some 4) example_sic6, Timer6 100 1 1, Destroy6 2 example_sid6] init_si6 = Some si'
     \<and> sfe_rules6 si' = (\<lambda>_. None)"
proof -
  let ?c = "Create6 (\<lambda>_. example_dev) 0 (Some 2) (Some 3) (Some 4) example_sic6"
  have e: "v6.enabled_all [?c, Timer6 100 1 1, Destroy6 2 example_sid6] init_si6" using example_fresh6 by simp
  have "devs_up6 (\<lambda>_. example_dev) example_sic6" "sid_key6 example_sid6 = sic_key6 example_sic6"
    by (simp_all add: devs_up6_def example_dev_def sid_key6_def sic_key6_def example_sid6_def example_sic6_def)
  with requests_refine6 [OF sfe_good_init6 e] show ?thesis
    by (auto simp: sfe_rules_init6 simp del: v6.run_all.simps)
qed

text \<open>
  C13: In every state of the IPv6 engine that requests, packets and removals of connections lead to,
  with the flushes of removed connections delayed arbitrarily, memory and references are exact, and
  every checksum adjustment fits the addresses and ports it was computed for.
\<close>

theorem reachable_memory_exact6:
  assumes "engine_reach6 (si, P)"
  shows "\<exists>cs. distinct (cs @ P) \<and> num_connections6 si = of_nat (length cs)
    \<and> (\<forall>key c. sfe_lookup6 si key = Some c \<longleftrightarrow> c \<in> set cs \<and> c_key6 (connections6 si c) = key)
    \<and> live_connections6 si = set (cs @ P) \<and> dev_refs6 si = refs_of6 si (cs @ P)
    \<and> live_matches6 si = (\<Union>c \<in> set (cs @ P). {c_original_match6 (connections6 si c), c_reply_match6 (connections6 si c)})
    \<and> (\<forall>m \<in> live_matches6 si. adj_ok6 (matches6 si m))"
proof -
  from reach_inv6 [OF assms] obtain g where i: "sfe_inv6 si g P" and a: "adj_inv6 si" by auto
  have m: "mem_ok6 si (ga g @ P)" and n: "num_connections6 si = of_nat (length (ga g))" using i by (simp_all add: sfe_inv6_def)
  have "live_matches6 si = (\<Union>c \<in> set (ga g @ P). {c_original_match6 (connections6 si c), c_reply_match6 (connections6 si c)})"
    using m by (auto simp: mem_ok6_def ft_live_def)
  with m n a lookup_iff6 [OF i] show ?thesis
    by (intro exI [of _ "ga g"]) (simp add: mem_ok6_def adj_inv6_def)
qed

lemma reachable_memory_exact6_witness: "dev_refs6 example_si6 1 = 1"
proof -
  have "run_request6 (Create6 (\<lambda>_. example_dev) 0 (Some 2) (Some 3) (Some 4) example_sic6) init_si6 = Some example_si6"
    using example_create6 by simp
  moreover have "request_enabled6 (Create6 (\<lambda>_. example_dev) 0 (Some 2) (Some 3) (Some 4) example_sic6) init_si6"
    using example_fresh6 by simp
  ultimately have "engine_reach6 (example_si6, [])"
    by (intro engine_reach6.next_step6 [OF engine_reach6.start6] engine_step6.request6)
  from reachable_memory_exact6 [OF this] obtain cs where c: "live_connections6 example_si6 = set cs" "distinct cs"
    "dev_refs6 example_si6 = refs_of6 example_si6 cs" by auto
  have "live_connections6 example_si6 = {2}" by code_simp
  with c have cs: "cs = [2]" by (cases cs; cases "tl cs") auto
  have "c_original_dev6 (connections6 example_si6 2) = 1 \<and> c_reply_dev6 (connections6 example_si6 2) = 2" by code_simp
  then show ?thesis unfolding c(3) cs by (simp add: refs_of6_def)
qed

text \<open>
  Unloading leaves no connection, match, device reference, list or table entry.
\<close>

lemma exit_releases_everything6:
  assumes "sfe_good6 si"
  shows "\<exists>si' out. sfe_ipv6_exit j si = Some (si', out) \<and> live_connections6 si' = {} \<and> live_matches6 si' = {}
    \<and> dev_refs6 si' = (\<lambda>_. 0) \<and> num_connections6 si' = 0 \<and> all_connections_head6 si' = None \<and> active_head6 si' = None
    \<and> (\<forall>i. conn_hash6 si' i = None \<and> conn_match_hash6 si' i = None)"
proof -
  from assms obtain g where i: "sfe_inv6 si g []" and a: "adj_inv6 si" by (rule good_invE6)
  from destroy_all_spec6 [OF i, of j 0]
  obtain si' out g' where u: "sfe_ipv6_destroy_all_rules_for_dev j 0 si = Some (si', out)" and i': "sfe_inv6 si' g' []"
    and ga: "ga g' = filter (\<lambda>c. \<not> uses_dev6 (connections6 si c) 0) (ga g)" and r: "same_rules6 si si'"
    by (elim exE conjE) (rule that)
  have n: "sfe_rules6 si' = (\<lambda>_. None)"
    unfolding destroy_all_rules6 [OF i i' ga r] by (auto simp: rule_uses6_def fun_eq_iff split: option.split)
  show ?thesis
    using u quiet_engine6 [OF i' n] unfolding sfe_ipv6_exit_def by blast
qed

end
