(* ===== verification/SFE_CM.thy ===== *)
theory SFE_CM
  imports SFE_IPv4_Recv SFE_IPv6_Recv SFE_Printf
begin

text \<open>
  The connection manager (\<open>sfe_cm.c\<close>): it watches packets that leave the slow path, builds rules
  from their conntrack entries, removes them on conntrack and device events, and copies the engine's
  counts back into conntrack. Built with \<open>SFE_SUPPORT_IPV6\<close>: it serves the IPv4 and the IPv6
  engine. What the kernel answers is a record of parameters; the references taken on kernel objects
  are counted per object.
\<close>

section \<open>Conntrack and kernel services\<close>

datatype l3num = AF_INET | AF_INET6
datatype ip_ct_dir = IP_CT_DIR_ORIGINAL | IP_CT_DIR_REPLY

record nf_conntrack_tuple =
  tp_src :: sfe_ip_addr
  tp_dst :: sfe_ip_addr
  tp_src_port :: be16
  tp_dst_port :: be16
  tp_protonum :: u8
  tp_l3num :: l3num

record ip_ct_tcp_state =
  td_scale :: u8
  td_maxwin :: u32
  td_end :: u32
  td_maxend :: u32
  td_be_liberal :: bool

record nf_conn_acct =
  ac_packets :: "ip_ct_dir \<Rightarrow> u64"
  ac_bytes :: "ip_ct_dir \<Rightarrow> u64"

record nf_conn =
  ct_untracked :: bool
  ct_confirmed :: bool
  ct_helper :: bool
  ct_acct :: "nf_conn_acct option"
  ct_orig_tuple :: nf_conntrack_tuple
  ct_reply_tuple :: nf_conntrack_tuple
  ct_l3num :: l3num
  ct_tcp_seen :: "ip_ct_dir \<Rightarrow> ip_ct_tcp_state"
  ct_tcp_state :: u8
  ct_assured :: bool
  ct_seen_reply :: bool
  ct_fixed_timeout :: bool
  ct_timeout_expires :: u64

definition TCP_CONNTRACK_ESTABLISHED :: u8 where "TCP_CONNTRACK_ESTABLISHED = 3"

text \<open>Kernel objects with a reference count.\<close>

datatype kobj = Kdev dev_ptr | Kdst nat | Kneigh nat | Kct nat

record neighbour =
  ne_valid :: bool \<comment> \<open>\<open>nud_state & NUD_VALID\<close>\<close>
  ne_dev :: "dev_ptr option"
  ne_ha :: mac

text \<open>
  Answers of the kernel: routes (\<open>ip_route_output\<close>, \<open>rt6_lookup\<close>, None for an error), neighbours,
  devices, bridge masters, conntrack lookup, and configuration.
\<close>

record cm_kernel =
  ck_route4 :: "be32 \<Rightarrow> nat option"
  ck_route6 :: "sfe_ip_addr \<Rightarrow> nat option"
  ck_neigh :: "nat \<Rightarrow> sfe_ip_addr \<Rightarrow> nat option"
  ck_neighbour :: "nat \<Rightarrow> neighbour"
  ck_addr_len :: "dev_ptr \<Rightarrow> nat"
  ck_devs :: "dev_ptr \<Rightarrow> net_device"
  ck_master :: "dev_ptr \<Rightarrow> dev_ptr option"
  ck_dev_by_index :: "u32 \<Rightarrow> dev_ptr option"
  ck_conntrack_find :: "nf_conntrack_tuple \<Rightarrow> nat option"
  ck_no_window_check :: bool
  ck_udp_replied_timeout :: "nat \<Rightarrow> u32"
  ck_jiffies :: u64

datatype pkt_type = PACKET_HOST | PACKET_BROADCAST | PACKET_MULTICAST | PACKET_OTHERHOST

text \<open>What the post routing hook reads of a packet.\<close>

record cm_skb =
  cs_pkt_type :: pkt_type
  cs_dst_xfrm :: bool
  cs_sk :: bool
  cs_iif :: u32
  cs_ct :: "(nat \<times> ip_ct_dir) option" \<comment> \<open>\<open>nf_ct_get\<close>\<close>
  cs_dsfield :: u8
  cs_sp :: bool
  cs_priority :: u32

section \<open>State\<close>

datatype sfe_cm_exception =
    CM_PACKET_BROADCAST
  | CM_PACKET_MULTICAST
  | CM_NO_IIF
  | CM_NO_CT
  | CM_CT_NO_TRACK
  | CM_CT_NO_CONFIRM
  | CM_CT_IS_ALG
  | CM_IS_IPV4_MCAST
  | CM_IS_IPV6_MCAST
  | CM_TCP_NOT_ASSURED
  | CM_TCP_NOT_ESTABLISHED
  | CM_UNKNOW_PROTOCOL
  | CM_NO_SRC_DEV
  | CM_NO_SRC_XLATE_DEV
  | CM_NO_DEST_DEV
  | CM_NO_DEST_XLATE_DEV
  | CM_NO_BRIDGE
  | CM_LOCAL_OUT

text \<open>
  The module structure with the two engines, the conntrack entries and the references the manager holds
  beside it; \<open>sc_recv_hook\<close> is \<open>athrs_fast_nat_recv\<close> and \<open>sc_notifiers\<close> what is registered.
\<close>

datatype notifier = Dev_notifier | Inet_notifier | Inet6_notifier | Nf_hooks | Ct_notifier | Sys_kobject

record sfe_cm =
  sc_exceptions :: "sfe_cm_exception \<Rightarrow> u32"
  sc_v4 :: sfe_ipv4
  sc_v6 :: sfe_ipv6
  sc_ct :: "nat \<Rightarrow> nf_conn"
  sc_refs :: "kobj \<Rightarrow> int"
  sc_recv_hook :: bool
  sc_notifiers :: "notifier set"

definition kget :: "kobj \<Rightarrow> sfe_cm \<Rightarrow> sfe_cm" where
  "kget ob sc = sc\<lparr>sc_refs := (sc_refs sc)(ob := sc_refs sc ob + 1)\<rparr>"

definition kput :: "kobj \<Rightarrow> sfe_cm \<Rightarrow> sfe_cm" where
  "kput ob sc = sc\<lparr>sc_refs := (sc_refs sc)(ob := sc_refs sc ob - 1)\<rparr>"

definition sfe_cm_incr_exceptions :: "sfe_cm_exception \<Rightarrow> sfe_cm \<Rightarrow> sfe_cm" where
  "sfe_cm_incr_exceptions except sc =
     sc\<lparr>sc_exceptions := (sc_exceptions sc)(except := sc_exceptions sc except + 1)\<rparr>"

section \<open>Copying counts back into conntrack\<close>

text \<open>\<open>if (seen.td_maxwin < ...)\<close> and the two serial comparisons for one direction.\<close>

definition seen_max :: "u32 \<Rightarrow> u32 \<Rightarrow> u32 \<Rightarrow> ip_ct_tcp_state \<Rightarrow> ip_ct_tcp_state" where
  "seen_max max_window td_end' td_max_end seen =
     (let seen = (if td_maxwin seen < max_window then seen\<lparr>td_maxwin := max_window\<rparr> else seen);
          seen = (if s32 (td_end seen - td_end') < 0 then seen\<lparr>td_end := td_end'\<rparr> else seen)
      in if s32 (td_maxend seen - td_max_end) < 0 then seen\<lparr>td_maxend := td_max_end\<rparr> else seen)"

definition add_acct :: "sfe_connection_sync \<Rightarrow> nf_conn_acct \<Rightarrow> nf_conn_acct" where
  "add_acct sis acct = acct
     \<lparr>ac_packets := (ac_packets acct)
        (IP_CT_DIR_ORIGINAL := ac_packets acct IP_CT_DIR_ORIGINAL + ucast (sis_src_new_packet_count sis),
         IP_CT_DIR_REPLY := ac_packets acct IP_CT_DIR_REPLY + ucast (sis_dest_new_packet_count sis)),
      ac_bytes := (ac_bytes acct)
        (IP_CT_DIR_ORIGINAL := ac_bytes acct IP_CT_DIR_ORIGINAL + ucast (sis_src_new_byte_count sis),
         IP_CT_DIR_REPLY := ac_bytes acct IP_CT_DIR_REPLY + ucast (sis_dest_new_byte_count sis))\<rparr>"

definition sync_conn :: "cm_kernel \<Rightarrow> nat \<Rightarrow> sfe_connection_sync \<Rightarrow> nf_conn \<Rightarrow> nf_conn" where
  "sync_conn k ctp sis ct =
     (let ct = (if \<not> ct_fixed_timeout ct
                then ct\<lparr>ct_timeout_expires := ct_timeout_expires ct + sis_delta_jiffies sis\<rparr> else ct);
          ct = (case ct_acct ct of None \<Rightarrow> ct | Some acct \<Rightarrow> ct\<lparr>ct_acct := Some (add_acct sis acct)\<rparr>)
      in if sis_protocol sis = ucast IPPROTO_TCP
         then ct\<lparr>ct_tcp_seen := (ct_tcp_seen ct)
                (IP_CT_DIR_ORIGINAL := seen_max (sis_src_td_max_window sis) (sis_src_td_end sis)
                    (sis_src_td_max_end sis) (ct_tcp_seen ct IP_CT_DIR_ORIGINAL),
                 IP_CT_DIR_REPLY := seen_max (sis_dest_td_max_window sis) (sis_dest_td_end sis)
                    (sis_dest_td_max_end sis) (ct_tcp_seen ct IP_CT_DIR_REPLY))\<rparr>
         else if sis_protocol sis = ucast IPPROTO_UDP
         then (case ct_acct ct of
                 Some acct \<Rightarrow>
                   if \<not> ct_assured ct \<and> ac_packets acct IP_CT_DIR_REPLY \<noteq> 0
                   then ct\<lparr>ct_seen_reply := True, ct_assured := True,
                           ct_timeout_expires := ck_jiffies k + ucast (ck_udp_replied_timeout k ctp)\<rparr>
                   else ct
               | None \<Rightarrow> ct)
         else ct)"

definition sync_tuple :: "sfe_connection_sync \<Rightarrow> nf_conntrack_tuple" where
  "sync_tuple sis =
     (if sis_is_v6 sis
      then \<lparr>tp_src = sis_src_ip sis, tp_dst = sis_dest_ip sis, tp_src_port = sis_src_port sis,
            tp_dst_port = sis_dest_port sis, tp_protonum = ucast (sis_protocol sis), tp_l3num = AF_INET6\<rparr>
      else \<lparr>tp_src = ip4_addr (sa_ip (sis_src_ip sis)), tp_dst = ip4_addr (sa_ip (sis_dest_ip sis)),
            tp_src_port = sis_src_port sis, tp_dst_port = sis_dest_port sis,
            tp_protonum = ucast (sis_protocol sis), tp_l3num = AF_INET\<rparr>)"

definition sfe_cm_sync_rule :: "cm_kernel \<Rightarrow> sfe_connection_sync \<Rightarrow> sfe_cm \<Rightarrow> sfe_cm" where
  "sfe_cm_sync_rule k sis sc =
     (case ck_conntrack_find k (sync_tuple sis) of
        None \<Rightarrow> sc
      | Some ct \<Rightarrow>
          let sc = kget (Kct ct) sc;
              sc = sc\<lparr>sc_ct := (sc_ct sc)(ct := sync_conn k ct sis (sc_ct sc ct))\<rparr>
          in kput (Kct ct) sc)"

text \<open>The engine's calls of its callback, which is \<open>sfe_cm_sync_rule\<close> when the manager registered it.\<close>

definition deliver :: "cm_kernel \<Rightarrow> syncs \<Rightarrow> sfe_cm \<Rightarrow> sfe_cm" where
  "deliver k out sc = fold (\<lambda>(cb, sis). sfe_cm_sync_rule k sis) out sc"

section \<open>The receive hook\<close>

text \<open>
  \<open>ip_addrs dev\<close>: None when the device has no \<open>ip_ptr\<close>, else whether it has an address;
  \<open>ip6_addrs\<close> the same for IPv6. The result of the hook, whichever engine was asked.
\<close>

record cm_recv_result =
  cr_ret :: nat
  cr_skb :: sk_buff
  cr_xmit :: "sk_buff list"

definition sfe_cm_recv ::
  "kernel \<Rightarrow> (dev_ptr \<Rightarrow> bool option) \<Rightarrow> (dev_ptr \<Rightarrow> bool option) \<Rightarrow> cm_kernel \<Rightarrow> be16 \<Rightarrow> sk_buff \<Rightarrow>
   sfe_cm \<Rightarrow> (cm_recv_result \<times> sfe_cm) option" where
  "sfe_cm_recv k ip_addrs ip6_addrs ck protocol skb sc =
     (let dev = skb_dev skb;
          ignore = Some (\<lparr>cr_ret = 0, cr_skb = skb, cr_xmit = []\<rparr>, sc)
      in if ntohs ETH_P_IP = protocol
      then (case ip_addrs dev of
              None \<Rightarrow> ignore
            | Some has_addr \<Rightarrow>
                if \<not> has_addr then ignore
                else do {
                  res \<leftarrow> sfe_ipv4_recv k dev (sc_v4 sc) skb;
                  Some (\<lparr>cr_ret = r_ret res, cr_skb = r_skb res, cr_xmit = r_xmit res\<rparr>,
                        deliver ck (r_sync res) (sc\<lparr>sc_v4 := r_si res\<rparr>)) })
      else if ntohs ETH_P_IPV6 = protocol
      then (case ip6_addrs dev of
              None \<Rightarrow> ignore
            | Some has_addr \<Rightarrow>
                if \<not> has_addr then ignore
                else do {
                  res \<leftarrow> sfe_ipv6_recv k dev (sc_v6 sc) skb;
                  Some (\<lparr>cr_ret = r_ret6 res, cr_skb = r_skb6 res, cr_xmit = r_xmit6 res\<rparr>,
                        deliver ck (r_sync6 res) (sc\<lparr>sc_v6 := r_si6 res\<rparr>)) })
      else ignore)"

section \<open>Neighbours\<close>

text \<open>
  The result is the device and the bytes copied to \<open>mac_addr\<close>. As many bytes are copied as the
  device's addresses have, whatever the size of the buffer.
\<close>

definition sfe_cm_find_dev_and_mac_addr ::
  "cm_kernel \<Rightarrow> sfe_ip_addr \<Rightarrow> bool \<Rightarrow> mac \<Rightarrow> sfe_cm \<Rightarrow> (dev_ptr \<times> mac) option \<times> sfe_cm" where
  "sfe_cm_find_dev_and_mac_addr k addr is_v4 mac_addr sc =
     (case (if is_v4 then ck_route4 k (sa_ip addr) else ck_route6 k addr) of
        None \<Rightarrow> (None, sc)
      | Some dst \<Rightarrow>
          let sc = kget (Kdst dst) sc
          in (case ck_neigh k dst addr of
                None \<Rightarrow> (None, kput (Kdst dst) sc)
              | Some neigh \<Rightarrow>
                  let sc = kget (Kneigh neigh) sc; ne = ck_neighbour k neigh
                  in if \<not> ne_valid ne then (None, kput (Kdst dst) (kput (Kneigh neigh) sc))
                     else (case ne_dev ne of
                             None \<Rightarrow> (None, kput (Kdst dst) (kput (Kneigh neigh) sc))
                           | Some mac_dev \<Rightarrow>
                               let mac = (\<lambda>i. if i < ck_addr_len k mac_dev then ne_ha ne i else mac_addr i);
                                   sc = kget (Kdev mac_dev) sc
                               in (Some (mac_dev, mac), kput (Kdst dst) (kput (Kneigh neigh) sc)))))"

section \<open>The post routing hook\<close>

definition XT_DSCP_SHIFT :: nat where "XT_DSCP_SHIFT = 2"

definition ipv4_is_multicast :: "be32 \<Rightarrow> bool" where
  "ipv4_is_multicast addr \<longleftrightarrow> addr AND ntohl 0xf0000000 = ntohl 0xe0000000"

definition ipv6_addr_is_multicast :: "sfe_ip_addr \<Rightarrow> bool" where
  "ipv6_addr_is_multicast addr \<longleftrightarrow> ip6_0 addr AND ntohl 0xFF000000 = ntohl 0xFF000000"

text \<open>
  Why a packet is left alone: counted under an exception, or silently. Each stage of the hook gives a
  reason or what the next one needs.
\<close>

type_synonym 'a stage = "sfe_cm_exception option + 'a"

text \<open>The checks before the conntrack entry is read.\<close>

definition post_routing_admit :: "cm_kernel \<Rightarrow> sfe_cm \<Rightarrow> cm_skb \<Rightarrow> (nat \<times> ip_ct_dir) stage" where
  "post_routing_admit k sc skb =
     (if cs_pkt_type skb = PACKET_BROADCAST then Inl (Some CM_PACKET_BROADCAST)
      else if cs_pkt_type skb = PACKET_MULTICAST then Inl (Some CM_PACKET_MULTICAST)
      else if cs_dst_xfrm skb then Inl None
      else if cs_sk skb then Inl (Some CM_LOCAL_OUT)
      else if ck_dev_by_index k (cs_iif skb) = None then Inl (Some CM_NO_IIF)
      else (case cs_ct skb of
              None \<Rightarrow> Inl (Some CM_NO_CT)
            | Some (ctp, dir) \<Rightarrow>
                let ct = sc_ct sc ctp
                in if ct_untracked ct then Inl (Some CM_CT_NO_TRACK)
                   else if \<not> ct_confirmed ct then Inl (Some CM_CT_NO_CONFIRM)
                   else if ct_helper ct then Inl (Some CM_CT_IS_ALG)
                   else (case ct_acct ct of
                           None \<Rightarrow> Inr (ctp, dir)
                         | Some acct \<Rightarrow>
                             let packets = ac_packets acct dir
                             in if sint packets > 0xff \<and> packets AND 0xff \<noteq> 0 then Inl None
                                else Inr (ctp, dir))))"

text \<open>Addresses and the DSCP field, written into the message \<open>sic\<close> on the stack.\<close>

definition post_routing_addresses ::
  "bool \<Rightarrow> cm_skb \<Rightarrow> nf_conn \<Rightarrow> sfe_connection_create \<Rightarrow> sfe_connection_create stage" where
  "post_routing_addresses is_v4 skb ct sic =
     (let orig = ct_orig_tuple ct; reply = ct_reply_tuple ct;
          sic = sic\<lparr>sic_protocol := ucast (tp_protonum orig), sic_flags := 0\<rparr>;
          dscp = (ucast (drop_bit XT_DSCP_SHIFT (cs_dsfield skb)) :: u32)
      in if is_v4
      then let sic = sic\<lparr>sic_src_ip := set_ip (sa_ip (tp_src orig)) (sic_src_ip sic),
                         sic_dest_ip := set_ip (sa_ip (tp_dst orig)) (sic_dest_ip sic)\<rparr>
           in if ipv4_is_multicast (sa_ip (sic_src_ip sic)) \<or> ipv4_is_multicast (sa_ip (sic_dest_ip sic))
              then Inl (Some CM_IS_IPV4_MCAST)
              else let sic = sic\<lparr>sic_src_ip_xlate := set_ip (sa_ip (tp_dst reply)) (sic_src_ip_xlate sic),
                                 sic_dest_ip_xlate := set_ip (sa_ip (tp_src reply)) (sic_dest_ip_xlate sic)\<rparr>
                   in Inr (if dscp \<noteq> 0
                           then sic\<lparr>sic_dest_dscp := dscp, sic_src_dscp := dscp,
                                    sic_flags := sic_flags sic OR SFE_CREATE_FLAG_REMARK_DSCP\<rparr>
                           else sic)
      else let sic = sic\<lparr>sic_src_ip := tp_src orig, sic_dest_ip := tp_dst orig\<rparr>
           in if ipv6_addr_is_multicast (sic_src_ip sic) \<or> ipv6_addr_is_multicast (sic_dest_ip sic)
              then Inl (Some CM_IS_IPV6_MCAST)
              else let sic = sic\<lparr>sic_src_ip_xlate := tp_dst reply, sic_dest_ip_xlate := tp_src reply\<rparr>
                   in Inr (if dscp \<noteq> 0
                           then sic\<lparr>sic_dest_dscp := dscp, sic_src_dscp := dscp,
                                    sic_flags := sic_flags sic OR SFE_CREATE_FLAG_REMARK_DSCP\<rparr>
                           else sic))"

definition post_routing_ports :: "nf_conn \<Rightarrow> sfe_connection_create \<Rightarrow> sfe_connection_create" where
  "post_routing_ports ct sic =
     (let orig = ct_orig_tuple ct; reply = ct_reply_tuple ct
      in sic\<lparr>sic_src_port := tp_src_port orig, sic_dest_port := tp_dst_port orig,
             sic_src_port_xlate := tp_dst_port reply, sic_dest_port_xlate := tp_src_port reply\<rparr>)"

definition post_routing_protocol ::
  "cm_kernel \<Rightarrow> nf_conn \<Rightarrow> sfe_connection_create \<Rightarrow> sfe_connection_create stage" where
  "post_routing_protocol k ct sic =
     (if sic_protocol sic = ucast IPPROTO_TCP
      then let sic = post_routing_ports ct sic;
               orig = ct_tcp_seen ct IP_CT_DIR_ORIGINAL; reply = ct_tcp_seen ct IP_CT_DIR_REPLY;
               sic = sic\<lparr>sic_src_td_window_scale := td_scale orig, sic_src_td_max_window := td_maxwin orig,
                         sic_src_td_end := td_end orig, sic_src_td_max_end := td_maxend orig,
                         sic_dest_td_window_scale := td_scale reply, sic_dest_td_max_window := td_maxwin reply,
                         sic_dest_td_end := td_end reply, sic_dest_td_max_end := td_maxend reply\<rparr>;
               sic = (if ck_no_window_check k \<or> td_be_liberal orig \<or> td_be_liberal reply
                      then sic\<lparr>sic_flags := sic_flags sic OR SFE_CREATE_FLAG_NO_SEQ_CHECK\<rparr> else sic)
           in if \<not> ct_assured ct then Inl (Some CM_TCP_NOT_ASSURED)
              else if ct_tcp_state ct \<noteq> TCP_CONNTRACK_ESTABLISHED then Inl (Some CM_TCP_NOT_ESTABLISHED)
              else Inr sic
      else if sic_protocol sic = ucast IPPROTO_UDP then Inr (post_routing_ports ct sic)
      else Inl (Some CM_UNKNOW_PROTOCOL))"

definition post_routing_accel :: "cm_skb \<Rightarrow> ip_ct_dir \<Rightarrow> sfe_connection_create \<Rightarrow> sfe_connection_create stage" where
  "post_routing_accel skb dir sic =
     (let sic = sic\<lparr>sic_original_accel := 1, sic_reply_accel := 1\<rparr>;
          qos = (\<lambda>sic. if cs_priority skb \<noteq> 0
                  then sic\<lparr>sic_dest_priority := cs_priority skb, sic_src_priority := cs_priority skb,
                           sic_flags := sic_flags sic OR SFE_CREATE_FLAG_REMARK_PRIORITY\<rparr>
                  else sic)
      in if cs_sp skb
      then if sic_protocol sic = ucast IPPROTO_TCP \<and> \<not> has_flag (sic_flags sic) SFE_CREATE_FLAG_NO_SEQ_CHECK
           then Inl None
           else Inr (qos (if dir = IP_CT_DIR_ORIGINAL then sic\<lparr>sic_reply_accel := 0\<rparr> else sic\<lparr>sic_original_accel := 0\<rparr>))
      else Inr (qos sic))"

text \<open>All of the message except devices and MAC addresses.\<close>

definition post_routing_message ::
  "cm_kernel \<Rightarrow> bool \<Rightarrow> cm_skb \<Rightarrow> sfe_connection_create \<Rightarrow> sfe_cm \<Rightarrow> sfe_connection_create stage" where
  "post_routing_message k is_v4 skb stack sc =
     (case post_routing_admit k sc skb of
        Inl e \<Rightarrow> Inl e
      | Inr (ctp, dir) \<Rightarrow>
         (case post_routing_addresses is_v4 skb (sc_ct sc ctp) stack of
            Inl e \<Rightarrow> Inl e
          | Inr sic \<Rightarrow>
             (case post_routing_protocol k (sc_ct sc ctp) sic of
                Inl e \<Rightarrow> Inl e
              | Inr sic \<Rightarrow> post_routing_accel skb dir sic)))"

text \<open>\<open>sfe_dev_get_master\<close> holds the bridge it finds.\<close>

definition sfe_dev_get_master :: "cm_kernel \<Rightarrow> dev_ptr \<Rightarrow> sfe_cm \<Rightarrow> dev_ptr option \<times> sfe_cm" where
  "sfe_dev_get_master k dev sc =
     (case ck_master k dev of None \<Rightarrow> (None, sc) | Some br \<Rightarrow> (Some br, kget (Kdev br) sc))"

text \<open>The result of the three calls of \<open>kmalloc\<close> in the engine.\<close>

type_synonym allocs = "ptr option \<times> ptr option \<times> ptr option"

definition post_routing_create ::
  "cm_kernel \<Rightarrow> allocs \<Rightarrow> bool \<Rightarrow> sfe_connection_create \<Rightarrow> sfe_cm \<Rightarrow> sfe_cm option" where
  "post_routing_create k al is_v4 sic sc =
     (if is_v4
      then do {
        (rc, si) \<leftarrow> sfe_ipv4_create_rule (ck_devs k) (ck_jiffies k) (fst al) (fst (snd al)) (snd (snd al)) (sc_v4 sc) sic;
        Some (sc\<lparr>sc_v4 := si\<rparr>) }
      else do {
        (rc, si) \<leftarrow> sfe_ipv6_create_rule (ck_devs k) (ck_jiffies k) (fst al) (fst (snd al)) (snd (snd al)) (sc_v6 sc) sic;
        Some (sc\<lparr>sc_v6 := si\<rparr>) })"

text \<open>
  From the bridge lookups to the end, with \<open>src_dev\<close> and \<open>dest_dev\<close> held. The local variables are
  overwritten by the bridges, and it is the variables that are released at the end.
\<close>

definition post_routing_bridge ::
  "cm_kernel \<Rightarrow> allocs \<Rightarrow> bool \<Rightarrow> sfe_connection_create \<Rightarrow> dev_ptr \<Rightarrow> dev_ptr \<Rightarrow> sfe_cm \<Rightarrow> sfe_cm option" where
  "post_routing_bridge k al is_v4 sic src_dev dest_dev sc =
     (let done1 = (\<lambda>src_dev sc. kput (Kdev src_dev) sc);
          done2 = (\<lambda>src_dev dest_dev sc. done1 src_dev (kput (Kdev dest_dev) sc));
          done3 = (\<lambda>src_br src_dev dest_dev sc. done2 src_dev dest_dev
                     (case src_br of None \<Rightarrow> sc | Some br \<Rightarrow> kput (Kdev br) sc));
          (src_br, sc) = (if nd_bridge_port (ck_devs k src_dev) then sfe_dev_get_master k src_dev sc else (None, sc))
      in if nd_bridge_port (ck_devs k src_dev) \<and> src_br = None
      then Some (done2 src_dev dest_dev (sfe_cm_incr_exceptions CM_NO_BRIDGE sc))
      else let src_dev = (case src_br of None \<Rightarrow> src_dev | Some br \<Rightarrow> br);
               (dest_br, sc) = (if nd_bridge_port (ck_devs k dest_dev) then sfe_dev_get_master k dest_dev sc else (None, sc))
      in if nd_bridge_port (ck_devs k dest_dev) \<and> dest_br = None
      then Some (done3 src_br src_dev dest_dev (sfe_cm_incr_exceptions CM_NO_BRIDGE sc))
      else let dest_dev = (case dest_br of None \<Rightarrow> dest_dev | Some br \<Rightarrow> br);
               sic = sic\<lparr>sic_src_dev := src_dev, sic_dest_dev := dest_dev,
                         sic_src_mtu := nd_mtu (ck_devs k src_dev), sic_dest_mtu := nd_mtu (ck_devs k dest_dev)\<rparr>
      in do {
        sc \<leftarrow> post_routing_create k al is_v4 sic sc;
        let sc = (case dest_br of None \<Rightarrow> sc | Some br \<Rightarrow> kput (Kdev br) sc);
        Some (done3 src_br src_dev dest_dev sc) })"

definition post_routing_devices ::
  "cm_kernel \<Rightarrow> allocs \<Rightarrow> bool \<Rightarrow> sfe_connection_create \<Rightarrow> sfe_cm \<Rightarrow> sfe_cm option" where
  "post_routing_devices k al is_v4 sic sc =
     (let find = sfe_cm_find_dev_and_mac_addr k
      in case find (sic_src_ip sic) is_v4 (sic_src_mac sic) sc of
        (None, sc) \<Rightarrow> Some (sfe_cm_incr_exceptions CM_NO_SRC_DEV sc)
      | (Some (src_dev, mac), sc) \<Rightarrow>
          let sic = sic\<lparr>sic_src_mac := mac\<rparr>
          in (case find (sic_src_ip_xlate sic) is_v4 (sic_src_mac_xlate sic) sc of
            (None, sc) \<Rightarrow> Some (kput (Kdev src_dev) (sfe_cm_incr_exceptions CM_NO_SRC_XLATE_DEV sc))
          | (Some (dev, mac), sc) \<Rightarrow>
              let sic = sic\<lparr>sic_src_mac_xlate := mac\<rparr>; sc = kput (Kdev dev) sc
              in (case find (sic_dest_ip sic) is_v4 (sic_dest_mac sic) sc of
                (None, sc) \<Rightarrow> Some (kput (Kdev src_dev) (sfe_cm_incr_exceptions CM_NO_DEST_DEV sc))
              | (Some (dev, mac), sc) \<Rightarrow>
                  let sic = sic\<lparr>sic_dest_mac := mac\<rparr>; sc = kput (Kdev dev) sc
                  in (case find (sic_dest_ip_xlate sic) is_v4 (sic_dest_mac_xlate sic) sc of
                    (None, sc) \<Rightarrow> Some (kput (Kdev src_dev) (sfe_cm_incr_exceptions CM_NO_DEST_XLATE_DEV sc))
                  | (Some (dest_dev, mac), sc) \<Rightarrow>
                      let sic = sic\<lparr>sic_dest_mac_xlate := mac\<rparr>
                      in post_routing_bridge k al is_v4 sic src_dev dest_dev sc))))"

text \<open>
  The hook accepts the packet in every case; \<open>stack\<close> is what the stack holds where \<open>sic\<close> is placed.
  The input device is held and released again at once.
\<close>

definition sfe_cm_post_routing ::
  "cm_kernel \<Rightarrow> allocs \<Rightarrow> bool \<Rightarrow> sfe_connection_create \<Rightarrow> cm_skb \<Rightarrow> sfe_cm \<Rightarrow> sfe_cm option" where
  "sfe_cm_post_routing k al is_v4 stack skb sc =
     (case post_routing_message k is_v4 skb stack sc of
        Inl None \<Rightarrow> Some sc
      | Inl (Some e) \<Rightarrow> Some (sfe_cm_incr_exceptions e sc)
      | Inr sic \<Rightarrow> post_routing_devices k al is_v4 sic sc)"

definition sfe_cm_ipv4_post_routing_hook ::
  "cm_kernel \<Rightarrow> allocs \<Rightarrow> sfe_connection_create \<Rightarrow> cm_skb \<Rightarrow> sfe_cm \<Rightarrow> sfe_cm option" where
  "sfe_cm_ipv4_post_routing_hook k al stack skb sc = sfe_cm_post_routing k al True stack skb sc"

definition sfe_cm_ipv6_post_routing_hook ::
  "cm_kernel \<Rightarrow> allocs \<Rightarrow> sfe_connection_create \<Rightarrow> cm_skb \<Rightarrow> sfe_cm \<Rightarrow> sfe_cm option" where
  "sfe_cm_ipv6_post_routing_hook k al stack skb sc = sfe_cm_post_routing k al False stack skb sc"

section \<open>Events\<close>

text \<open>
  A conntrack event; \<open>destroyed\<close> is the bit \<open>IPCT_DESTROY\<close> of the events. The message is built on
  the stack: only the fields written here are read by the engine.
\<close>

definition destroy_message :: "nf_conntrack_tuple \<Rightarrow> sfe_connection_destroy" where
  "destroy_message orig =
     \<lparr>sid_protocol = ucast (tp_protonum orig), sid_src_ip = tp_src orig, sid_dest_ip = tp_dst orig,
      sid_src_port = tp_src_port orig, sid_dest_port = tp_dst_port orig\<rparr>"

definition sfe_cm_conntrack_event :: "cm_kernel \<Rightarrow> bool \<Rightarrow> nat option \<Rightarrow> sfe_cm \<Rightarrow> sfe_cm option" where
  "sfe_cm_conntrack_event k destroyed ctp sc =
     (case ctp of
        None \<Rightarrow> Some sc
      | Some p \<Rightarrow>
          let ct = sc_ct sc p; orig = ct_orig_tuple ct; protocol = (ucast (tp_protonum orig) :: u32)
          in if ct_untracked ct then Some sc
             else if \<not> destroyed then Some sc
             else if protocol \<noteq> ucast IPPROTO_TCP \<and> protocol \<noteq> ucast IPPROTO_UDP then Some sc
             else (case ct_l3num ct of
                     AF_INET \<Rightarrow> do {
                       (si, out) \<leftarrow> sfe_ipv4_destroy_rule (ck_jiffies k) (sc_v4 sc) (destroy_message orig);
                       Some (deliver k out (sc\<lparr>sc_v4 := si\<rparr>)) }
                   | AF_INET6 \<Rightarrow> do {
                       (si, out) \<leftarrow> sfe_ipv6_destroy_rule (ck_jiffies k) (sc_v6 sc) (destroy_message orig);
                       Some (deliver k out (sc\<lparr>sc_v6 := si\<rparr>)) }))"

definition destroy_v4_rules_for :: "cm_kernel \<Rightarrow> dev_ptr \<Rightarrow> sfe_cm \<Rightarrow> sfe_cm option" where
  "destroy_v4_rules_for k dev sc = do {
     (si, out) \<leftarrow> sfe_ipv4_destroy_all_rules_for_dev (ck_jiffies k) dev (sc_v4 sc);
     Some (deliver k out (sc\<lparr>sc_v4 := si\<rparr>)) }"

definition destroy_v6_rules_for :: "cm_kernel \<Rightarrow> dev_ptr \<Rightarrow> sfe_cm \<Rightarrow> sfe_cm option" where
  "destroy_v6_rules_for k dev sc = do {
     (si, out) \<leftarrow> sfe_ipv6_destroy_all_rules_for_dev (ck_jiffies k) dev (sc_v6 sc);
     Some (deliver k out (sc\<lparr>sc_v6 := si\<rparr>)) }"

text \<open>\<open>down\<close> is \<open>event == NETDEV_DOWN\<close>; the NULL device is 0.\<close>

definition sfe_cm_device_event :: "cm_kernel \<Rightarrow> bool \<Rightarrow> dev_ptr \<Rightarrow> sfe_cm \<Rightarrow> sfe_cm option" where
  "sfe_cm_device_event k down dev sc =
     (if dev \<noteq> 0 \<and> down
      then do { sc \<leftarrow> destroy_v4_rules_for k dev sc; destroy_v6_rules_for k dev sc }
      else Some sc)"

definition sfe_cm_inet_event :: "cm_kernel \<Rightarrow> bool \<Rightarrow> dev_ptr \<Rightarrow> sfe_cm \<Rightarrow> sfe_cm option" where
  "sfe_cm_inet_event k down dev sc = (if dev \<noteq> 0 \<and> down then destroy_v4_rules_for k dev sc else Some sc)"

definition sfe_cm_inet6_event :: "cm_kernel \<Rightarrow> bool \<Rightarrow> dev_ptr \<Rightarrow> sfe_cm \<Rightarrow> sfe_cm option" where
  "sfe_cm_inet6_event k down dev sc = (if dev \<noteq> 0 \<and> down then destroy_v6_rules_for k dev sc else Some sc)"

section \<open>The exception counters in sysfs\<close>

definition sfe_cm_exception_events_string :: "(sfe_cm_exception \<times> string) list" where
  "sfe_cm_exception_events_string =
     [(CM_PACKET_BROADCAST, ''PACKET_BROADCAST''), (CM_PACKET_MULTICAST, ''PACKET_MULTICAST''),
      (CM_NO_IIF, ''NO_IIF''), (CM_NO_CT, ''NO_CT''), (CM_CT_NO_TRACK, ''CT_NO_TRACK''),
      (CM_CT_NO_CONFIRM, ''CT_NO_CONFIRM''), (CM_CT_IS_ALG, ''CT_IS_ALG''),
      (CM_IS_IPV4_MCAST, ''IS_IPV4_MCAST''), (CM_IS_IPV6_MCAST, ''IS_IPV6_MCAST''),
      (CM_TCP_NOT_ASSURED, ''TCP_NOT_ASSURED''), (CM_TCP_NOT_ESTABLISHED, ''TCP_NOT_ESTABLISHED''),
      (CM_UNKNOW_PROTOCOL, ''UNKNOW_PROTOCOL''), (CM_NO_SRC_DEV, ''NO_SRC_DEV''),
      (CM_NO_SRC_XLATE_DEV, ''NO_SRC_XLATE_DEV''), (CM_NO_DEST_DEV, ''NO_DEST_DEV''),
      (CM_NO_DEST_XLATE_DEV, ''NO_DEST_XLATE_DEV''), (CM_NO_BRIDGE, ''NO_BRIDGE''),
      (CM_LOCAL_OUT, ''LOCAL_OUT'')]"

definition PAGE_SIZE :: nat where "PAGE_SIZE = 4096"

text \<open>
  \<open>snprintf(buf + len, PAGE_SIZE - len, ...)\<close>: the text that fits in the room left, one byte of it
  for the terminating zero. The length grows by the whole text even when it did not fit.
\<close>

definition snprintf_at :: "string \<times> nat \<Rightarrow> string \<Rightarrow> string \<times> nat" where
  "snprintf_at = (\<lambda>(buf, len) msg. (buf @ take (PAGE_SIZE - len - 1) msg, len + length msg))"

definition exception_line :: "string \<Rightarrow> u32 \<Rightarrow> string" where
  "exception_line name n = name @ '' = '' @ print_d n @ [char_of (10 :: nat)]"

definition sfe_cm_get_exceptions :: "sfe_cm \<Rightarrow> string \<times> nat" where
  "sfe_cm_get_exceptions sc = fold
     (\<lambda>(e, name) st. if sc_exceptions sc e \<noteq> 0 then snprintf_at st (exception_line name (sc_exceptions sc e)) else st)
     sfe_cm_exception_events_string ([], 0)"

section \<open>Loading and unloading\<close>

text \<open>
  \<open>cb\<close> is the address of \<open>sfe_cm_sync_rule\<close>; the other arguments are results of kernel calls. None
  is the \<open>BUG_ON\<close> of a receive hook that is already taken.
\<close>

definition sfe_cm_init :: "ptr \<Rightarrow> bool \<Rightarrow> int \<Rightarrow> int \<Rightarrow> int \<Rightarrow> sfe_cm \<Rightarrow> (int \<times> sfe_cm) option" where
  "sfe_cm_init cb kobject sysfs hooks ct_notifier sc =
     (if \<not> kobject then Some (- 1, sc)
      else let sc = sc\<lparr>sc_notifiers := insert Sys_kobject (sc_notifiers sc)\<rparr>;
               exit2 = (\<lambda>sc. sc\<lparr>sc_notifiers := sc_notifiers sc - {Sys_kobject}\<rparr>);
               exit3 = (\<lambda>sc. exit2 (sc\<lparr>sc_notifiers := sc_notifiers sc - {Inet6_notifier, Inet_notifier, Dev_notifier}\<rparr>));
               exit4 = (\<lambda>sc. exit3 (sc\<lparr>sc_notifiers := sc_notifiers sc - {Nf_hooks}\<rparr>))
      in if sysfs \<noteq> 0 then Some (sysfs, exit2 sc)
      else let sc = sc\<lparr>sc_notifiers := insert Inet6_notifier (insert Inet_notifier (insert Dev_notifier (sc_notifiers sc)))\<rparr>
      in if hooks < 0 then Some (hooks, exit3 sc)
      else let sc = sc\<lparr>sc_notifiers := insert Nf_hooks (sc_notifiers sc)\<rparr>
      in if ct_notifier < 0 then Some (ct_notifier, exit4 sc)
      else let sc = sc\<lparr>sc_notifiers := insert Ct_notifier (sc_notifiers sc)\<rparr>
      in if sc_recv_hook sc then None
      else let sc = sc\<lparr>sc_recv_hook := True\<rparr>;
               sc = sc\<lparr>sc_v4 := sfe_ipv4_register_sync_rule_callback (sc_v4 sc) (Some cb)\<rparr>
      in Some (0, sc\<lparr>sc_v6 := sfe_ipv6_register_sync_rule_callback (sc_v6 sc) (Some cb)\<rparr>))"

definition sfe_cm_exit :: "cm_kernel \<Rightarrow> sfe_cm \<Rightarrow> sfe_cm option" where
  "sfe_cm_exit k sc =
     (let sc = sc\<lparr>sc_v4 := sfe_ipv4_register_sync_rule_callback (sc_v4 sc) None\<rparr>;
          sc = sc\<lparr>sc_v6 := sfe_ipv6_register_sync_rule_callback (sc_v6 sc) None\<rparr>;
          sc = sc\<lparr>sc_recv_hook := False\<rparr>
      in do {
        sc \<leftarrow> destroy_v4_rules_for k 0 sc;
        sc \<leftarrow> destroy_v6_rules_for k 0 sc;
        Some (sc\<lparr>sc_notifiers := sc_notifiers sc - {Ct_notifier, Nf_hooks, Inet6_notifier, Inet_notifier,
                                    Dev_notifier, Sys_kobject}\<rparr>) })"

end
