(* ===== verification/SFE_CM_Laws.thy ===== *)
theory SFE_CM_Laws
  imports SFE_IPv4_System SFE_IPv6_System SFE_CM
begin

text \<open>
  Lemmas about the connection manager: delivery of sync messages touches conntrack entries only, the
  neighbour lookup keeps one device reference exactly when it succeeds, and the post routing hook is
  one request to an engine over the message it composes, whichever of the two it is.
\<close>

section \<open>References\<close>

text \<open>\<open>n\<close> references more on \<open>ob\<close>.\<close>

definition shift :: "kobj \<Rightarrow> int \<Rightarrow> (kobj \<Rightarrow> int) \<Rightarrow> kobj \<Rightarrow> int" where
  "shift ob n f = (\<lambda>x. f x + (if x = ob then n else 0))"

lemma kget_shift: "kget ob sc = sc\<lparr>sc_refs := shift ob 1 (sc_refs sc)\<rparr>"
  and kput_shift: "kput ob sc = sc\<lparr>sc_refs := shift ob (- 1) (sc_refs sc)\<rparr>"
  by (auto simp: kget_def kput_def shift_def fun_eq_iff intro!: arg_cong [where f = "\<lambda>f. sc_refs_update f sc"])

lemma shift_inverse: "shift ob (- n) (shift ob n f) = f"
  and shift_commute: "shift ob n (shift ob' n' f) = shift ob' n' (shift ob n f)"
  and shift_0 [simp]: "shift ob 0 f = f"
  by (auto simp: shift_def fun_eq_iff)

lemma kput_kget [simp]: "kput ob (kget ob sc) = sc"
  by (simp add: kget_shift kput_shift shift_inverse)

lemma kput_kget_other: "kput ob (kget ob' sc) = kget ob' (kput ob sc)"
  by (simp add: kget_shift kput_shift shift_commute [of ob])

lemma kget_commute: "kget ob (kget ob' sc) = kget ob' (kget ob sc)"
  by (simp add: kget_shift shift_commute [of ob])

named_theorems cm_frame

lemma kget_frame [cm_frame]:
  "sc_v4 (kget ob sc) = sc_v4 sc" "sc_v6 (kget ob sc) = sc_v6 sc" "sc_ct (kget ob sc) = sc_ct sc" "sc_exceptions (kget ob sc) = sc_exceptions sc"
  "sc_recv_hook (kget ob sc) = sc_recv_hook sc" "sc_notifiers (kget ob sc) = sc_notifiers sc"
  by (simp_all add: kget_def)

lemma kput_frame [cm_frame]:
  "sc_v4 (kput ob sc) = sc_v4 sc" "sc_v6 (kput ob sc) = sc_v6 sc" "sc_ct (kput ob sc) = sc_ct sc" "sc_exceptions (kput ob sc) = sc_exceptions sc"
  "sc_recv_hook (kput ob sc) = sc_recv_hook sc" "sc_notifiers (kput ob sc) = sc_notifiers sc"
  by (simp_all add: kput_def)

lemma incr_frame [cm_frame]:
  "sc_v4 (sfe_cm_incr_exceptions e sc) = sc_v4 sc" "sc_v6 (sfe_cm_incr_exceptions e sc) = sc_v6 sc" "sc_ct (sfe_cm_incr_exceptions e sc) = sc_ct sc"
  "sc_refs (sfe_cm_incr_exceptions e sc) = sc_refs sc" "sc_recv_hook (sfe_cm_incr_exceptions e sc) = sc_recv_hook sc"
  "sc_notifiers (sfe_cm_incr_exceptions e sc) = sc_notifiers sc"
  by (simp_all add: sfe_cm_incr_exceptions_def)

section \<open>Delivery of sync messages\<close>

definition sync_cts :: "cm_kernel \<Rightarrow> sfe_connection_sync \<Rightarrow> (nat \<Rightarrow> nf_conn) \<Rightarrow> nat \<Rightarrow> nf_conn" where
  "sync_cts k sis f = (case ck_conntrack_find k (sync_tuple sis) of None \<Rightarrow> f | Some ct \<Rightarrow> f(ct := sync_conn k ct sis (f ct)))"

lemma sync_rule_eq: "sfe_cm_sync_rule k sis sc = sc\<lparr>sc_ct := sync_cts k sis (sc_ct sc)\<rparr>"
  by (simp add: sfe_cm_sync_rule_def sync_cts_def kget_shift kput_shift shift_inverse split: option.split)

lemma deliver_eq: "deliver k out sc = sc\<lparr>sc_ct := fold (sync_cts k \<circ> snd) out (sc_ct sc)\<rparr>"
  unfolding deliver_def by (induction out arbitrary: sc) (simp_all add: split_beta sync_rule_eq)

lemma deliver_frame [cm_frame]:
  "sc_v4 (deliver k out sc) = sc_v4 sc" "sc_v6 (deliver k out sc) = sc_v6 sc" "sc_refs (deliver k out sc) = sc_refs sc"
  "sc_exceptions (deliver k out sc) = sc_exceptions sc" "sc_recv_hook (deliver k out sc) = sc_recv_hook sc"
  "sc_notifiers (deliver k out sc) = sc_notifiers sc"
  by (simp_all add: deliver_eq)

section \<open>Neighbours\<close>

definition resolve :: "cm_kernel \<Rightarrow> sfe_ip_addr \<Rightarrow> bool \<Rightarrow> mac \<Rightarrow> (dev_ptr \<times> mac) option" where
  "resolve k addr is_v4 mac = do {
     dst \<leftarrow> (if is_v4 then ck_route4 k (sa_ip addr) else ck_route6 k addr);
     neigh \<leftarrow> ck_neigh k dst addr;
     dev \<leftarrow> (if ne_valid (ck_neighbour k neigh) then ne_dev (ck_neighbour k neigh) else None);
     Some (dev, \<lambda>i. if i < ck_addr_len k dev then ne_ha (ck_neighbour k neigh) i else mac i) }"

lemma find_dev_eq:
  "sfe_cm_find_dev_and_mac_addr k addr is_v4 mac sc =
     (resolve k addr is_v4 mac, case resolve k addr is_v4 mac of None \<Rightarrow> sc | Some (dev, _) \<Rightarrow> kget (Kdev dev) sc)"
proof -
  have e: "kput (Kdst d) (kput (Kneigh n) (kget (Kdev v) (kget (Kneigh n) (kget (Kdst d) sc)))) = kget (Kdev v) sc"
    "kput (Kdst d) (kput (Kneigh n) (kget (Kneigh n) (kget (Kdst d) sc))) = sc" for d n v
    by (simp_all add: kput_kget_other [of _ "Kdev v"])
  show ?thesis
    unfolding sfe_cm_find_dev_and_mac_addr_def resolve_def Let_def
    by (simp add: e split: option.split Option.bind_split)
qed

section \<open>The post routing hook\<close>

text \<open>The device a rule is made for: the bridge of a bridge port.\<close>

definition bridged :: "cm_kernel \<Rightarrow> dev_ptr \<Rightarrow> dev_ptr option" where
  "bridged k dev = (if nd_bridge_port (ck_devs k dev) then ck_master k dev else Some dev)"

text \<open>What the releases at the end of the hook get wrong about \<open>dev\<close> when it was replaced by its bridge.\<close>

definition drift :: "cm_kernel \<Rightarrow> dev_ptr \<Rightarrow> (kobj \<Rightarrow> int) \<Rightarrow> kobj \<Rightarrow> int" where
  "drift k dev f = (case bridged k dev of
     None \<Rightarrow> f
   | Some br \<Rightarrow> if nd_bridge_port (ck_devs k dev) then shift (Kdev dev) 1 (shift (Kdev br) (- 1) f) else f)"

definition drifted :: "cm_kernel \<Rightarrow> dev_ptr \<Rightarrow> sfe_cm \<Rightarrow> sfe_cm" where
  "drifted k dev sc = sc\<lparr>sc_refs := drift k dev (sc_refs sc)\<rparr>"

definition with_devs :: "cm_kernel \<Rightarrow> dev_ptr \<Rightarrow> dev_ptr \<Rightarrow> sfe_connection_create \<Rightarrow> sfe_connection_create" where
  "with_devs k src dest sic = sic\<lparr>sic_src_dev := src, sic_dest_dev := dest,
     sic_src_mtu := nd_mtu (ck_devs k src), sic_dest_mtu := nd_mtu (ck_devs k dest)\<rparr>"

text \<open>The four lookups: the first that fails, or the message with its MAC addresses and the two devices.\<close>

definition resolved ::
  "cm_kernel \<Rightarrow> bool \<Rightarrow> sfe_connection_create \<Rightarrow> sfe_cm_exception + (sfe_connection_create \<times> dev_ptr \<times> dev_ptr)" where
  "resolved k is_v4 sic =
     (case resolve k (sic_src_ip sic) is_v4 (sic_src_mac sic) of None \<Rightarrow> Inl CM_NO_SRC_DEV
      | Some (src, m1) \<Rightarrow>
     (case resolve k (sic_src_ip_xlate sic) is_v4 (sic_src_mac_xlate sic) of None \<Rightarrow> Inl CM_NO_SRC_XLATE_DEV
      | Some (_, m2) \<Rightarrow>
     (case resolve k (sic_dest_ip sic) is_v4 (sic_dest_mac sic) of None \<Rightarrow> Inl CM_NO_DEST_DEV
      | Some (_, m3) \<Rightarrow>
     (case resolve k (sic_dest_ip_xlate sic) is_v4 (sic_dest_mac_xlate sic) of None \<Rightarrow> Inl CM_NO_DEST_XLATE_DEV
      | Some (dest, m4) \<Rightarrow> Inr (sic\<lparr>sic_src_mac := m1, sic_src_mac_xlate := m2, sic_dest_mac := m3,
                                   sic_dest_mac_xlate := m4\<rparr>, src, dest)))))"

definition create_request :: "cm_kernel \<Rightarrow> allocs \<Rightarrow> sfe_connection_create \<Rightarrow> request" where
  "create_request k al sic = Create (ck_devs k) (ck_jiffies k) (fst al) (fst (snd al)) (snd (snd al)) sic"

lemma post_routing_create_v4:
  "post_routing_create k al True sic sc =
     map_option (\<lambda>si. sc\<lparr>sc_v4 := si\<rparr>) (run_request (create_request k al sic) (sc_v4 sc))"
  by (simp add: post_routing_create_def create_request_def split_beta map_option_case option.case_eq_if
      split: Option.bind_split)

definition create_request6 :: "cm_kernel \<Rightarrow> allocs \<Rightarrow> sfe_connection_create \<Rightarrow> request6" where
  "create_request6 k al sic = Create6 (ck_devs k) (ck_jiffies k) (fst al) (fst (snd al)) (snd (snd al)) sic"

lemma post_routing_create_v6:
  "post_routing_create k al False sic sc =
     map_option (\<lambda>si. sc\<lparr>sc_v6 := si\<rparr>) (run_request6 (create_request6 k al sic) (sc_v6 sc))"
  by (simp add: post_routing_create_def create_request6_def split_beta map_option_case option.case_eq_if
      split: Option.bind_split)

lemma refs_engine_commute:
  "sc\<lparr>sc_refs := f, sc_v4 := si\<rparr> = sc\<lparr>sc_v4 := si, sc_refs := f\<rparr>"
  "sc\<lparr>sc_refs := f, sc_v6 := si6\<rparr> = sc\<lparr>sc_v6 := si6, sc_refs := f\<rparr>"
  by (cases sc, simp)+

lemma post_routing_create_refs:
  "post_routing_create k al is_v4 sic (sc\<lparr>sc_refs := f\<rparr>) = map_option (\<lambda>sc. sc\<lparr>sc_refs := f\<rparr>) (post_routing_create k al is_v4 sic sc)"
  by (cases is_v4) (simp_all add: post_routing_create_v4 post_routing_create_v6 option.map_comp comp_def refs_engine_commute)

text \<open>Only one of the two engines is changed by a creation.\<close>

lemma post_routing_create_frame:
  assumes "post_routing_create k al is_v4 sic sc = Some sc'"
  shows "sc_refs sc' = sc_refs sc" "sc_ct sc' = sc_ct sc" "sc_exceptions sc' = sc_exceptions sc"
    "sc_recv_hook sc' = sc_recv_hook sc" "sc_notifiers sc' = sc_notifiers sc"
    "if is_v4 then sc_v6 sc' = sc_v6 sc else sc_v4 sc' = sc_v4 sc"
  using assms by (cases is_v4; auto simp: post_routing_create_v4 post_routing_create_v6)+

lemma incr_refs: "sfe_cm_incr_exceptions e (sc\<lparr>sc_refs := f\<rparr>) = (sfe_cm_incr_exceptions e sc)\<lparr>sc_refs := f\<rparr>"
  by (simp add: sfe_cm_incr_exceptions_def)

lemma refs_id: "f = sc_refs sc \<Longrightarrow> sc\<lparr>sc_refs := f\<rparr> = sc"
  and refs_cong: "f = f' \<Longrightarrow> sc\<lparr>sc_refs := f\<rparr> = sc\<lparr>sc_refs := f'\<rparr>"
  by simp_all

lemma bind_Some_map: "Option.bind x (\<lambda>y. Some (f y)) = map_option f x"
  by (cases x) simp_all

text \<open>With both devices held, the rest of the hook is the creation, up to the drift of references.\<close>

lemma post_routing_bridge_eq:
  "post_routing_bridge k al is_v4 sic src dest (kget (Kdev dest) (kget (Kdev src) sc)) =
     (case bridged k src of
        None \<Rightarrow> Some (sfe_cm_incr_exceptions CM_NO_BRIDGE sc)
      | Some s \<Rightarrow>
          (case bridged k dest of
             None \<Rightarrow> Some (drifted k src (sfe_cm_incr_exceptions CM_NO_BRIDGE sc))
           | Some d \<Rightarrow> map_option (drifted k dest \<circ> drifted k src)
                        (post_routing_create k al is_v4 (with_devs k s d sic) sc)))"
proof -
  note refs = kget_shift kput_shift incr_refs post_routing_create_refs drifted_def drift_def incr_frame
  have c: "map_option f (post_routing_create k al is_v4 sic sc) = map_option g (post_routing_create k al is_v4 sic sc)"
    if "\<And>sc'. sc_refs sc' = sc_refs sc \<Longrightarrow> f sc' = g sc'" for f g :: "sfe_cm \<Rightarrow> sfe_cm" and sic
    using that post_routing_create_frame(1) by (intro option.map_cong0) auto
  show ?thesis
    unfolding post_routing_bridge_def Let_def
    by (cases "nd_bridge_port (ck_devs k src)"; cases "nd_bridge_port (ck_devs k dest)";
      cases "ck_master k src"; cases "ck_master k dest")
      (simp_all add: bridged_def sfe_dev_get_master_def refs with_devs_def bind_Some_map option.map_comp,
       (auto simp: incr_frame comp_def drifted_def drift_def bridged_def shift_def fun_eq_iff intro!: c refs_id refs_cong)+)
qed

definition offered :: "cm_kernel \<Rightarrow> allocs \<Rightarrow> bool \<Rightarrow> sfe_connection_create \<Rightarrow> sfe_cm \<Rightarrow> sfe_cm option" where
  "offered k al is_v4 sic sc =
     (case resolved k is_v4 sic of
        Inl e \<Rightarrow> Some (sfe_cm_incr_exceptions e sc)
      | Inr (sic, src, dest) \<Rightarrow>
         (case bridged k src of
            None \<Rightarrow> Some (sfe_cm_incr_exceptions CM_NO_BRIDGE sc)
          | Some s \<Rightarrow>
             (case bridged k dest of
                None \<Rightarrow> Some (drifted k src (sfe_cm_incr_exceptions CM_NO_BRIDGE sc))
              | Some d \<Rightarrow> map_option (drifted k dest \<circ> drifted k src)
                           (post_routing_create k al is_v4 (with_devs k s d sic) sc))))"

lemma incr_kget: "sfe_cm_incr_exceptions e (kget ob sc) = kget ob (sfe_cm_incr_exceptions e sc)"
  by (simp add: sfe_cm_incr_exceptions_def kget_def)

lemma post_routing_devices_eq: "post_routing_devices k al is_v4 sic sc = offered k al is_v4 sic sc"
  unfolding post_routing_devices_def find_dev_eq offered_def resolved_def Let_def
  by (simp add: incr_kget post_routing_bridge_eq split: option.split prod.split)

lemma post_routing_eq:
  "sfe_cm_post_routing k al is_v4 stack skb sc =
     (case post_routing_message k is_v4 skb stack sc of
        Inl None \<Rightarrow> Some sc
      | Inl (Some e) \<Rightarrow> Some (sfe_cm_incr_exceptions e sc)
      | Inr sic \<Rightarrow> offered k al is_v4 sic sc)"
  unfolding sfe_cm_post_routing_def post_routing_devices_eq by (rule refl)

text \<open>The creation message the hook sends to the engine, if it gets that far.\<close>

definition offer :: "cm_kernel \<Rightarrow> bool \<Rightarrow> sfe_connection_create \<Rightarrow> cm_skb \<Rightarrow> sfe_cm \<Rightarrow> sfe_connection_create option" where
  "offer k is_v4 stack skb sc =
     (case post_routing_message k is_v4 skb stack sc of
        Inl _ \<Rightarrow> None
      | Inr sic \<Rightarrow> (case resolved k is_v4 sic of
           Inl _ \<Rightarrow> None
         | Inr (sic, src, dest) \<Rightarrow> (case bridged k src of
              None \<Rightarrow> None
            | Some s \<Rightarrow> map_option (\<lambda>d. with_devs k s d sic) (bridged k dest))))"

text \<open>The hook counts an exception or nothing, or is one creation request to its engine.\<close>

lemma post_routing_cases:
  obtains (refused) sc1 ex where "offer k is_v4 stack skb sc = None" and "sfe_cm_post_routing k al is_v4 stack skb sc = Some sc1"
      and "sc1 = sc \<or> sc1 = sfe_cm_incr_exceptions ex sc \<or> (\<exists>src. sc1 = drifted k src (sfe_cm_incr_exceptions ex sc))"
  | (made) sic src dest where "offer k is_v4 stack skb sc = Some sic"
      and "sfe_cm_post_routing k al is_v4 stack skb sc = map_option (\<lambda>sc. drifted k dest (drifted k src sc))
         (post_routing_create k al is_v4 sic sc)"
proof (cases "post_routing_message k is_v4 skb stack sc")
  case (Inl e)
  show thesis
    by (cases e) (auto intro!: refused [of "_" "the e"] simp: post_routing_eq offer_def Inl)
next
  case m: (Inr sic)
  show thesis
  proof (cases "resolved k is_v4 sic")
    case (Inl e)
    show thesis by (rule refused [of "sfe_cm_incr_exceptions e sc" e]) (simp_all add: post_routing_eq offer_def offered_def m Inl)
  next
    case (Inr r)
    obtain sic' src dest where r: "r = (sic', src, dest)" by (cases r)
    note R = post_routing_eq offer_def offered_def m Inr r
    show thesis
    proof (cases "bridged k src")
      case None
      show thesis by (rule refused [of "sfe_cm_incr_exceptions CM_NO_BRIDGE sc" CM_NO_BRIDGE]) (simp_all add: R None)
    next
      case s: (Some s)
      show thesis
      proof (cases "bridged k dest")
        case None
        show thesis
          by (rule refused [of "drifted k src (sfe_cm_incr_exceptions CM_NO_BRIDGE sc)" CM_NO_BRIDGE]) (auto simp: R None s)
      next
        case (Some d)
        show thesis
          by (rule made [of "with_devs k s d sic'" dest src]) (simp_all add: R Some s comp_def)
      qed
    qed
  qed
qed

section \<open>The message\<close>

definition tuple_key :: "nf_conntrack_tuple \<Rightarrow> conn_key" where
  "tuple_key t = (ucast (tp_protonum t), sa_ip (tp_src t), tp_src_port t, sa_ip (tp_dst t), tp_dst_port t)"

text \<open>The translated end points, as conntrack sees them in the reply direction.\<close>

definition tuple_xlate :: "nf_conntrack_tuple \<Rightarrow> be32 \<times> be16 \<times> be32 \<times> be16" where
  "tuple_xlate reply = (sa_ip (tp_dst reply), tp_dst_port reply, sa_ip (tp_src reply), tp_src_port reply)"

definition sic_xlate :: "sfe_connection_create \<Rightarrow> be32 \<times> be16 \<times> be32 \<times> be16" where
  "sic_xlate sic = (sa_ip (sic_src_ip_xlate sic), sic_src_port_xlate sic, sa_ip (sic_dest_ip_xlate sic), sic_dest_port_xlate sic)"

definition tuple_key6 :: "nf_conntrack_tuple \<Rightarrow> conn_key6" where
  "tuple_key6 t = (ucast (tp_protonum t), tp_src t, tp_src_port t, tp_dst t, tp_dst_port t)"

definition tuple_xlate6 :: "nf_conntrack_tuple \<Rightarrow> sfe_ip_addr \<times> be16 \<times> sfe_ip_addr \<times> be16" where
  "tuple_xlate6 reply = (tp_dst reply, tp_dst_port reply, tp_src reply, tp_src_port reply)"

definition sic_xlate6 :: "sfe_connection_create \<Rightarrow> sfe_ip_addr \<times> be16 \<times> sfe_ip_addr \<times> be16" where
  "sic_xlate6 sic = (sic_src_ip_xlate sic, sic_src_port_xlate sic, sic_dest_ip_xlate sic, sic_dest_port_xlate sic)"

text \<open>The key of the message is the original tuple of the entry, its translation the reply tuple.\<close>

definition made_from :: "bool \<Rightarrow> sfe_connection_create \<Rightarrow> nf_conn \<Rightarrow> bool" where
  "made_from is_v4 sic ct \<longleftrightarrow>
     (if is_v4 then sic_key sic = tuple_key (ct_orig_tuple ct) \<and> sic_xlate sic = tuple_xlate (ct_reply_tuple ct)
      else sic_key6 sic = tuple_key6 (ct_orig_tuple ct) \<and> sic_xlate6 sic = tuple_xlate6 (ct_reply_tuple ct))"

definition multicast :: "bool \<Rightarrow> sfe_ip_addr \<Rightarrow> bool" where
  "multicast is_v4 a \<longleftrightarrow> (if is_v4 then ipv4_is_multicast (sa_ip a) else ipv6_addr_is_multicast a)"

definition same_addr :: "bool \<Rightarrow> sfe_ip_addr \<Rightarrow> sfe_ip_addr \<Rightarrow> bool" where
  "same_addr is_v4 a b \<longleftrightarrow> (if is_v4 then sa_ip a = sa_ip b else a = b)"

definition admitted :: "cm_kernel \<Rightarrow> cm_skb \<Rightarrow> bool" where
  "admitted k skb \<longleftrightarrow> cs_pkt_type skb \<notin> {PACKET_BROADCAST, PACKET_MULTICAST} \<and> \<not> cs_dst_xfrm skb \<and> \<not> cs_sk skb
     \<and> ck_dev_by_index k (cs_iif skb) \<noteq> None"

lemma ucast8_32 [simp]: "(ucast (x :: u8) :: u32) = ucast y \<longleftrightarrow> x = y"
  by transfer (simp add: take_bit_take_bit min_def)

lemma tcp_udp: "IPPROTO_TCP \<noteq> IPPROTO_UDP" "IPPROTO_UDP \<noteq> IPPROTO_TCP"
  by (simp_all add: ipproto_defs)

lemma no_seq_check_flag:
  "has_flag (f OR SFE_CREATE_FLAG_NO_SEQ_CHECK) SFE_CREATE_FLAG_NO_SEQ_CHECK"
  "has_flag SFE_CREATE_FLAG_NO_SEQ_CHECK SFE_CREATE_FLAG_NO_SEQ_CHECK"
  "\<not> has_flag 0 SFE_CREATE_FLAG_NO_SEQ_CHECK" "\<not> has_flag SFE_CREATE_FLAG_REMARK_DSCP SFE_CREATE_FLAG_NO_SEQ_CHECK"
  by (simp_all add: has_flag_def SFE_CREATE_FLAG_NO_SEQ_CHECK_def SFE_CREATE_FLAG_REMARK_DSCP_def bit.conj_disj_distrib2)

lemma admit_iff:
  "post_routing_admit k sc skb = Inr (ctp, dir) \<longleftrightarrow> admitted k skb \<and> cs_ct skb = Some (ctp, dir)
     \<and> \<not> ct_untracked (sc_ct sc ctp) \<and> ct_confirmed (sc_ct sc ctp) \<and> \<not> ct_helper (sc_ct sc ctp)
     \<and> (\<forall>acct. ct_acct (sc_ct sc ctp) = Some acct \<longrightarrow> \<not> (sint (ac_packets acct dir) > 0xff \<and> ac_packets acct dir AND 0xff \<noteq> 0))"
  unfolding post_routing_admit_def admitted_def Let_def
  by (auto split: option.split prod.split)

lemma addresses_iff:
  "post_routing_addresses is_v4 skb ct sic = Inr sic' \<Longrightarrow>
     \<not> multicast is_v4 (tp_src (ct_orig_tuple ct)) \<and> \<not> multicast is_v4 (tp_dst (ct_orig_tuple ct))
     \<and> sic_protocol sic' = ucast (tp_protonum (ct_orig_tuple ct))
     \<and> same_addr is_v4 (sic_src_ip sic') (tp_src (ct_orig_tuple ct)) \<and> same_addr is_v4 (sic_dest_ip sic') (tp_dst (ct_orig_tuple ct))
     \<and> same_addr is_v4 (sic_src_ip_xlate sic') (tp_dst (ct_reply_tuple ct))
     \<and> same_addr is_v4 (sic_dest_ip_xlate sic') (tp_src (ct_reply_tuple ct))
     \<and> sic_mark sic' = sic_mark sic \<and> sic_flags sic' \<in> {0, SFE_CREATE_FLAG_REMARK_DSCP}"
  by (cases is_v4) (auto simp: post_routing_addresses_def Let_def set_ip_def multicast_def same_addr_def split: if_splits)

lemma addresses_ok:
  "\<not> multicast is_v4 (tp_src (ct_orig_tuple ct)) \<Longrightarrow> \<not> multicast is_v4 (tp_dst (ct_orig_tuple ct))
     \<Longrightarrow> \<exists>sic'. post_routing_addresses is_v4 skb ct sic = Inr sic'"
  by (cases is_v4) (simp_all add: post_routing_addresses_def Let_def set_ip_def multicast_def)

definition loose_window :: "cm_kernel \<Rightarrow> nf_conn \<Rightarrow> bool" where
  "loose_window k ct \<longleftrightarrow> ck_no_window_check k \<or> td_be_liberal (ct_tcp_seen ct IP_CT_DIR_ORIGINAL)
     \<or> td_be_liberal (ct_tcp_seen ct IP_CT_DIR_REPLY)"

definition proto_ok :: "nf_conn \<Rightarrow> bool" where
  "proto_ok ct \<longleftrightarrow> tp_protonum (ct_orig_tuple ct) = IPPROTO_TCP \<and> ct_assured ct \<and> ct_tcp_state ct = TCP_CONNTRACK_ESTABLISHED
     \<or> tp_protonum (ct_orig_tuple ct) = IPPROTO_UDP"

lemma protocol_ok:
  assumes "sic_protocol sic = ucast (tp_protonum (ct_orig_tuple ct))"
  shows "(\<exists>sic'. post_routing_protocol k ct sic = Inr sic') \<longleftrightarrow> proto_ok ct"
  using assms by (auto simp: post_routing_protocol_def proto_ok_def Let_def tcp_udp)

lemma protocol_iff:
  assumes "post_routing_protocol k ct sic = Inr sic'" and "sic_protocol sic = ucast (tp_protonum (ct_orig_tuple ct))"
    and "sic_flags sic \<in> {0, SFE_CREATE_FLAG_REMARK_DSCP}"
  shows "sic_protocol sic' = sic_protocol sic" "sic_src_ip sic' = sic_src_ip sic" "sic_dest_ip sic' = sic_dest_ip sic"
    "sic_src_ip_xlate sic' = sic_src_ip_xlate sic" "sic_dest_ip_xlate sic' = sic_dest_ip_xlate sic" "sic_mark sic' = sic_mark sic"
    "sic_src_port sic' = tp_src_port (ct_orig_tuple ct)" "sic_dest_port sic' = tp_dst_port (ct_orig_tuple ct)"
    "sic_src_port_xlate sic' = tp_dst_port (ct_reply_tuple ct)" "sic_dest_port_xlate sic' = tp_src_port (ct_reply_tuple ct)"
    "tp_protonum (ct_orig_tuple ct) = IPPROTO_TCP \<Longrightarrow> has_flag (sic_flags sic') SFE_CREATE_FLAG_NO_SEQ_CHECK \<longleftrightarrow> loose_window k ct"
  using assms
  by (auto simp: post_routing_protocol_def post_routing_ports_def Let_def no_seq_check_flag loose_window_def split: if_splits)

lemma accel_iff:
  "(\<exists>sic'. post_routing_accel skb dir sic = Inr sic')
     \<longleftrightarrow> \<not> (cs_sp skb \<and> sic_protocol sic = ucast IPPROTO_TCP \<and> \<not> has_flag (sic_flags sic) SFE_CREATE_FLAG_NO_SEQ_CHECK)"
  by (simp add: post_routing_accel_def Let_def)

lemma accel_keeps:
  assumes "post_routing_accel skb dir sic = Inr sic'"
  shows "sic_key sic' = sic_key sic \<and> sic_xlate sic' = sic_xlate sic \<and> sic_key6 sic' = sic_key6 sic
    \<and> sic_xlate6 sic' = sic_xlate6 sic \<and> sic_mark sic' = sic_mark sic \<and> sic_protocol sic' = sic_protocol sic"
  using assms
  by (auto simp: post_routing_accel_def Let_def sic_key_def sic_xlate_def sic_key6_def sic_xlate6_def split: if_splits)

definition eligible :: "cm_kernel \<Rightarrow> bool \<Rightarrow> cm_skb \<Rightarrow> nf_conn \<Rightarrow> ip_ct_dir \<Rightarrow> bool" where
  "eligible k is_v4 skb ct dir \<longleftrightarrow> admitted k skb \<and> \<not> ct_untracked ct \<and> ct_confirmed ct \<and> \<not> ct_helper ct
     \<and> (\<forall>acct. ct_acct ct = Some acct \<longrightarrow> \<not> (sint (ac_packets acct dir) > 0xff \<and> ac_packets acct dir AND 0xff \<noteq> 0))
     \<and> \<not> multicast is_v4 (tp_src (ct_orig_tuple ct)) \<and> \<not> multicast is_v4 (tp_dst (ct_orig_tuple ct))
     \<and> proto_ok ct \<and> \<not> (cs_sp skb \<and> tp_protonum (ct_orig_tuple ct) = IPPROTO_TCP \<and> \<not> loose_window k ct)"

text \<open>The stages that gave a message, and what each of them says.\<close>

lemma message_stages:
  assumes "post_routing_message k is_v4 skb stack sc = Inr sic"
  obtains ctp dir s1 s2 where "post_routing_admit k sc skb = Inr (ctp, dir)"
    and "post_routing_addresses is_v4 skb (sc_ct sc ctp) stack = Inr s1"
    and "post_routing_protocol k (sc_ct sc ctp) s1 = Inr s2" and "post_routing_accel skb dir s2 = Inr sic"
  using assms by (auto simp: post_routing_message_def split: sum.splits prod.splits)

lemma message_fields:
  assumes "post_routing_message k is_v4 skb stack sc = Inr sic"
  shows "\<exists>ctp dir. cs_ct skb = Some (ctp, dir) \<and> eligible k is_v4 skb (sc_ct sc ctp) dir
     \<and> made_from is_v4 sic (sc_ct sc ctp) \<and> sic_mark sic = sic_mark stack"
proof -
  obtain ctp dir s1 s2 where a: "post_routing_admit k sc skb = Inr (ctp, dir)"
    and b: "post_routing_addresses is_v4 skb (sc_ct sc ctp) stack = Inr s1"
    and c: "post_routing_protocol k (sc_ct sc ctp) s1 = Inr s2" and d: "post_routing_accel skb dir s2 = Inr sic"
    by (rule message_stages [OF assms])
  note A = a [unfolded admit_iff] and B = addresses_iff [OF b]
  have p: "sic_protocol s1 = ucast (tp_protonum (ct_orig_tuple (sc_ct sc ctp)))" "sic_flags s1 \<in> {0, SFE_CREATE_FLAG_REMARK_DSCP}"
    using B by simp_all
  note C = protocol_iff [OF c p] and D = accel_keeps [OF d]
  have "proto_ok (sc_ct sc ctp)" using protocol_ok [OF p(1), of k] c by blast
  moreover have "\<not> (cs_sp skb \<and> tp_protonum (ct_orig_tuple (sc_ct sc ctp)) = IPPROTO_TCP \<and> \<not> loose_window k (sc_ct sc ctp))"
    using accel_iff [of skb dir s2] d C(1,11) p(1) by auto
  ultimately have "eligible k is_v4 skb (sc_ct sc ctp) dir" using A B by (simp add: eligible_def)
  moreover have "made_from is_v4 sic (sc_ct sc ctp)" "sic_mark sic = sic_mark stack"
    using B C D
    by (simp_all add: made_from_def same_addr_def sic_key_def tuple_key_def sic_xlate_def tuple_xlate_def
        sic_key6_def tuple_key6_def sic_xlate6_def tuple_xlate6_def split: if_splits)
  ultimately show ?thesis using A by blast
qed

lemma message_offered:
  assumes "cs_ct skb = Some (ctp, dir)" and e: "eligible k is_v4 skb (sc_ct sc ctp) dir"
  shows "\<exists>sic. post_routing_message k is_v4 skb stack sc = Inr sic"
proof -
  have a: "post_routing_admit k sc skb = Inr (ctp, dir)" using assms by (simp add: admit_iff eligible_def)
  obtain s1 where b: "post_routing_addresses is_v4 skb (sc_ct sc ctp) stack = Inr s1"
    using addresses_ok [of is_v4 "sc_ct sc ctp" skb stack] e by (auto simp: eligible_def)
  have p: "sic_protocol s1 = ucast (tp_protonum (ct_orig_tuple (sc_ct sc ctp)))" "sic_flags s1 \<in> {0, SFE_CREATE_FLAG_REMARK_DSCP}"
    using addresses_iff [OF b] by simp_all
  obtain s2 where c: "post_routing_protocol k (sc_ct sc ctp) s1 = Inr s2"
    using protocol_ok [OF p(1), of k] e by (auto simp: eligible_def)
  have "\<exists>sic. post_routing_accel skb dir s2 = Inr sic"
    using protocol_iff(1,11) [OF c p] e p(1) unfolding accel_iff by (auto simp: eligible_def)
  then show ?thesis using a b c by (auto simp: post_routing_message_def)
qed

lemma offer_fields:
  assumes "offer k is_v4 stack skb sc = Some sic"
  shows "\<exists>ctp dir. cs_ct skb = Some (ctp, dir) \<and> eligible k is_v4 skb (sc_ct sc ctp) dir
     \<and> made_from is_v4 sic (sc_ct sc ctp) \<and> sic_mark sic = sic_mark stack"
proof -
  obtain sic0 where m: "post_routing_message k is_v4 skb stack sc = Inr sic0"
    and s: "sic_key sic = sic_key sic0" "sic_xlate sic = sic_xlate sic0" "sic_mark sic = sic_mark sic0"
      "sic_key6 sic = sic_key6 sic0" "sic_xlate6 sic = sic_xlate6 sic0"
    using assms
    by (auto simp: offer_def resolved_def with_devs_def sic_key_def sic_xlate_def sic_key6_def sic_xlate6_def
        split: sum.splits option.splits prod.splits)
  show ?thesis using message_fields [OF m] unfolding made_from_def s .
qed

lemma drifted_frame [cm_frame]:
  "sc_v4 (drifted k d sc) = sc_v4 sc" "sc_v6 (drifted k d sc) = sc_v6 sc" "sc_ct (drifted k d sc) = sc_ct sc" "sc_exceptions (drifted k d sc) = sc_exceptions sc"
  "sc_recv_hook (drifted k d sc) = sc_recv_hook sc" "sc_notifiers (drifted k d sc) = sc_notifiers sc"
  by (simp_all add: drifted_def)

end
