(* ===== verification/SFE_CM_Props.thy ===== *)
theory SFE_CM_Props
  imports SFE_CM_Laws
begin

text \<open>
  The connection manager over the two engines: which packets lead to a rule and which rule, the references
  it keeps on devices.
\<close>

section \<open>A concrete manager\<close>

definition example_ck :: cm_kernel where
  "example_ck = \<lparr>ck_route4 = (\<lambda>a. Some (if a = 0x0200000a then 1 else 2)), ck_route6 = (\<lambda>a. Some (if ip6_1 a = 0 then 1 else 2)),
     ck_neigh = (\<lambda>dst _. Some dst),
     ck_neighbour = (\<lambda>n. \<lparr>ne_valid = True, ne_dev = Some (of_nat n), ne_ha = example_mac\<rparr>),
     ck_addr_len = (\<lambda>_. 6), ck_devs = (\<lambda>_. example_dev), ck_master = (\<lambda>_. None), ck_dev_by_index = (\<lambda>i. Some (ucast i)),
     ck_conntrack_find = (\<lambda>t. if tp_dst_port t = 0x3500 then Some 5 else None),
     ck_no_window_check = False, ck_udp_replied_timeout = (\<lambda>_. 180), ck_jiffies = 0\<rparr>"

definition example_ct :: nf_conn where
  "example_ct = \<lparr>ct_untracked = False, ct_confirmed = True, ct_helper = False,
     ct_acct = Some \<lparr>ac_packets = (\<lambda>_. 1), ac_bytes = (\<lambda>_. 100)\<rparr>,
     ct_orig_tuple = \<lparr>tp_src = ip4_addr 0x0200000a, tp_dst = ip4_addr 0x08080808, tp_src_port = 0x0010,
        tp_dst_port = 0x3500, tp_protonum = 17, tp_l3num = AF_INET\<rparr>,
     ct_reply_tuple = \<lparr>tp_src = ip4_addr 0x08080808, tp_dst = ip4_addr 0x04030201, tp_src_port = 0x3500,
        tp_dst_port = 0x0050, tp_protonum = 17, tp_l3num = AF_INET\<rparr>,
     ct_l3num = AF_INET, ct_tcp_seen = (\<lambda>_. \<lparr>td_scale = 0, td_maxwin = 0, td_end = 0, td_maxend = 0, td_be_liberal = False\<rparr>),
     ct_tcp_state = 0, ct_assured = False, ct_seen_reply = True, ct_fixed_timeout = False, ct_timeout_expires = 0\<rparr>"

text \<open>The same flow over IPv6.\<close>

definition example_ct6 :: nf_conn where
  "example_ct6 = example_ct\<lparr>ct_l3num := AF_INET6,
     ct_orig_tuple := \<lparr>tp_src = example_addr6 0 0x02000000, tp_dst = example_addr6 0x0100 0x35000000,
        tp_src_port = 0x0010, tp_dst_port = 0x3500, tp_protonum = 17, tp_l3num = AF_INET6\<rparr>,
     ct_reply_tuple := \<lparr>tp_src = example_addr6 0x0100 0x35000000, tp_dst = example_addr6 0x0200 0x09000000,
        tp_src_port = 0x3500, tp_dst_port = 0x0050, tp_protonum = 17, tp_l3num = AF_INET6\<rparr>\<rparr>"

definition example_sc :: sfe_cm where
  "example_sc = \<lparr>sc_exceptions = (\<lambda>_. 0), sc_v4 = init_si, sc_v6 = init_si6,
     sc_ct = (\<lambda>p. if p = 6 then example_ct6 else example_ct), sc_refs = (\<lambda>_. 0), sc_recv_hook = True,
     sc_notifiers = {}\<rparr>"

definition example_cs :: cm_skb where
  "example_cs = \<lparr>cs_pkt_type = PACKET_OTHERHOST, cs_dst_xfrm = False, cs_sk = False, cs_iif = 1,
     cs_ct = Some (5, IP_CT_DIR_ORIGINAL), cs_dsfield = 0, cs_sp = False, cs_priority = 0\<rparr>"

definition example_cs6 :: cm_skb where
  "example_cs6 = example_cs\<lparr>cs_ct := Some (6, IP_CT_DIR_ORIGINAL)\<rparr>"

lemma example_offered:
  "\<not> Option.is_none (offer example_ck True example_sic example_cs example_sc)"
  "\<not> Option.is_none (offer example_ck False example_sic example_cs6 example_sc)"
  by code_simp+

section \<open>Rules from conntrack entries\<close>

text \<open>The two hooks, by the IP version of their packets.\<close>

abbreviation post_routing_hook ::
  "bool \<Rightarrow> cm_kernel \<Rightarrow> allocs \<Rightarrow> sfe_connection_create \<Rightarrow> cm_skb \<Rightarrow> sfe_cm \<Rightarrow> sfe_cm option" where
  "post_routing_hook is_v4 \<equiv> (if is_v4 then sfe_cm_ipv4_post_routing_hook else sfe_cm_ipv6_post_routing_hook)"

lemma hook_eq: "post_routing_hook is_v4 k al stack skb sc = sfe_cm_post_routing k al is_v4 stack skb sc"
  by (simp add: sfe_cm_ipv4_post_routing_hook_def sfe_cm_ipv6_post_routing_hook_def)

text \<open>Both engines are well formed; \<open>kmalloc\<close> returns objects not in use, or NULL.\<close>

definition cm_good :: "sfe_cm \<Rightarrow> bool" where
  "cm_good sc \<longleftrightarrow> sfe_good (sc_v4 sc) \<and> sfe_good6 (sc_v6 sc)"

definition allocs_ok :: "allocs \<Rightarrow> bool \<Rightarrow> sfe_cm \<Rightarrow> bool" where
  "allocs_ok al is_v4 sc \<longleftrightarrow> (case al of
     (Some c, Some oc, Some r) \<Rightarrow> if is_v4 then fresh (sc_v4 sc) c oc r else fresh6 (sc_v6 sc) c oc r
   | _ \<Rightarrow> True)"

lemma allocs_enabled:
  "allocs_ok al True sc \<Longrightarrow> request_enabled (create_request k al sic) (sc_v4 sc)"
  "allocs_ok al False sc \<Longrightarrow> request_enabled6 (create_request6 k al sic) (sc_v6 sc)"
  by (cases al; auto simp: allocs_ok_def create_request_def create_request6_def split: option.splits)+

text \<open>\<open>sc'\<close> has the rules of \<open>sc\<close> but for what the creation \<open>sic\<close> does to the map of its engine.\<close>

definition created :: "cm_kernel \<Rightarrow> allocs \<Rightarrow> bool \<Rightarrow> sfe_connection_create \<Rightarrow> sfe_cm \<Rightarrow> sfe_cm \<Rightarrow> bool" where
  "created k al is_v4 sic sc sc' \<longleftrightarrow>
     (if is_v4
      then sc_v6 sc' = sc_v6 sc \<and> sfe_rules (sc_v4 sc') = request_effect (create_request k al sic) (sfe_rules (sc_v4 sc))
      else sc_v4 sc' = sc_v4 sc \<and> sfe_rules6 (sc_v6 sc') = request_effect6 (create_request6 k al sic) (sfe_rules6 (sc_v6 sc)))"

lemma create_law:
  assumes "cm_good sc" and "allocs_ok al is_v4 sc"
  shows "\<exists>sc'. post_routing_create k al is_v4 sic sc = Some sc' \<and> cm_good sc' \<and> created k al is_v4 sic sc sc'"
proof (cases is_v4)
  case True
  have e: "request_enabled (create_request k al sic) (sc_v4 sc)" using allocs_enabled(1) assms(2) True by simp
  have g: "sfe_good (sc_v4 sc)" using assms(1) by (simp add: cm_good_def)
  obtain si' where "run_request (create_request k al sic) (sc_v4 sc) = Some si'" "sfe_good si'"
    "sfe_rules si' = request_effect (create_request k al sic) (sfe_rules (sc_v4 sc))"
    using v4.run_law [OF g e] by (elim exE conjE) (rule that)
  then show ?thesis using assms(1) True by (simp add: post_routing_create_v4 created_def cm_good_def)
next
  case False
  have e: "request_enabled6 (create_request6 k al sic) (sc_v6 sc)" using allocs_enabled(2) assms(2) False by simp
  have g: "sfe_good6 (sc_v6 sc)" using assms(1) by (simp add: cm_good_def)
  obtain si' where "run_request6 (create_request6 k al sic) (sc_v6 sc) = Some si'" "sfe_good6 si'"
    "sfe_rules6 si' = request_effect6 (create_request6 k al sic) (sfe_rules6 (sc_v6 sc))"
    using v6.run_law [OF g e] by (elim exE conjE) (rule that)
  then show ?thesis using assms(1) False by (simp add: post_routing_create_v6 created_def cm_good_def)
qed

lemma post_routing_returns:
  assumes "cm_good sc" and "allocs_ok al is_v4 sc"
  shows "\<exists>sc'. post_routing_hook is_v4 k al stack skb sc = Some sc' \<and> cm_good sc' \<and> sc_ct sc' = sc_ct sc
    \<and> sc_recv_hook sc' = sc_recv_hook sc \<and> sc_notifiers sc' = sc_notifiers sc
    \<and> (case offer k is_v4 stack skb sc of
         None \<Rightarrow> sc_v4 sc' = sc_v4 sc \<and> sc_v6 sc' = sc_v6 sc
       | Some sic \<Rightarrow> created k al is_v4 sic sc sc')"
proof (cases rule: post_routing_cases [of k is_v4 stack skb sc al])
  case (refused sc1 e)
  then show ?thesis using assms by (auto simp: hook_eq cm_frame cm_good_def)
next
  case (made sic src dest)
  obtain sc1 where c: "post_routing_create k al is_v4 sic sc = Some sc1" "cm_good sc1" "created k al is_v4 sic sc sc1"
    using create_law [OF assms, of k sic] by (elim exE conjE) (rule that)
  then show ?thesis
    using made post_routing_create_frame [OF c(1)] by (simp add: hook_eq cm_frame cm_good_def created_def)
qed

text \<open>
  C19: The post routing hooks always return, keep both engines well formed and conntrack as it is.
  A call changes the map of rules of the engine for its IP version by at most one entry and leaves
  the other engine alone. The entry is made from an eligible entry of conntrack: the key is its
  original tuple, the translation the end points of its reply tuple, and an existing rule is never
  replaced.
\<close>

theorem post_routing_refines:
  assumes "cm_good sc" and "allocs_ok al is_v4 sc"
  shows "\<exists>sc'. post_routing_hook is_v4 k al stack skb sc = Some sc' \<and> cm_good sc' \<and> sc_ct sc' = sc_ct sc
    \<and> (case offer k is_v4 stack skb sc of
         None \<Rightarrow> sc_v4 sc' = sc_v4 sc \<and> sc_v6 sc' = sc_v6 sc
       | Some sic \<Rightarrow> created k al is_v4 sic sc sc'
           \<and> (\<exists>ctp dir. cs_ct skb = Some (ctp, dir) \<and> eligible k is_v4 skb (sc_ct sc ctp) dir
                \<and> made_from is_v4 sic (sc_ct sc ctp)))"
proof -
  obtain sc' where r: "post_routing_hook is_v4 k al stack skb sc = Some sc'" "cm_good sc'" "sc_ct sc' = sc_ct sc"
    and c: "case offer k is_v4 stack skb sc of None \<Rightarrow> sc_v4 sc' = sc_v4 sc \<and> sc_v6 sc' = sc_v6 sc
       | Some sic \<Rightarrow> created k al is_v4 sic sc sc'"
    using post_routing_returns [OF assms, of k stack skb] by (elim exE conjE) (rule that)
  show ?thesis
  proof (cases "offer k is_v4 stack skb sc")
    case (Some sic)
    with r c offer_fields [OF Some] show ?thesis by auto
  qed (use r c in simp)
qed

text \<open>Memory for one rule of the example.\<close>

definition example_al :: allocs where "example_al = (Some 2, Some 3, Some 4)"

lemma example_allocs: "cm_good example_sc" "allocs_ok example_al is_v4 example_sc"
  using sfe_good_init example_fresh sfe_good_init6 example_fresh6
  by (simp_all add: example_sc_def example_al_def allocs_ok_def cm_good_def)

lemma post_routing_refines_witness:
  "(\<exists>sc' sic. sfe_cm_ipv4_post_routing_hook example_ck example_al example_sic example_cs example_sc = Some sc'
     \<and> sic_key sic = tuple_key (ct_orig_tuple example_ct) \<and> sfe_rules (sc_v4 sc') (sic_key sic) = Some (sic_rule sic))
   \<and> (\<exists>sc' sic. sfe_cm_ipv6_post_routing_hook example_ck example_al example_sic example_cs6 example_sc = Some sc'
     \<and> sic_key6 sic = tuple_key6 (ct_orig_tuple example_ct6) \<and> sfe_rules6 (sc_v6 sc') (sic_key6 sic) = Some (sic_rule6 sic))"
proof -
  have e: "request_effect (create_request example_ck example_al sic) (\<lambda>_. None) (sic_key sic) = Some (sic_rule sic)"
    "request_effect6 (create_request6 example_ck example_al sic) (\<lambda>_. None) (sic_key6 sic) = Some (sic_rule6 sic)" for sic
    by (simp_all add: create_request_def create_request6_def devs_up_def devs_up6_def example_ck_def example_dev_def example_al_def)
  have r: "sfe_rules (sc_v4 example_sc) = (\<lambda>_. None)" "sfe_rules6 (sc_v6 example_sc) = (\<lambda>_. None)"
    by (simp_all add: example_sc_def sfe_rules_init sfe_rules_init6)
  have ct: "sc_ct example_sc p = example_ct" if "cs_ct example_cs = Some (p, d)" for p d
    using that by (simp add: example_sc_def example_cs_def)
  have ct6: "sc_ct example_sc p = example_ct6" if "cs_ct example_cs6 = Some (p, d)" for p d
    using that by (simp add: example_sc_def example_cs6_def)
  obtain sic where o: "offer example_ck True example_sic example_cs example_sc = Some sic"
    using example_offered(1) by (cases "offer example_ck True example_sic example_cs example_sc") simp_all
  obtain sc1 where 1: "sfe_cm_ipv4_post_routing_hook example_ck example_al example_sic example_cs example_sc = Some sc1"
    "created example_ck example_al True sic example_sc sc1" "made_from True sic example_ct"
    using post_routing_refines [OF example_allocs, of True example_ck example_sic example_cs] ct unfolding o by auto
  obtain sic' where o': "offer example_ck False example_sic example_cs6 example_sc = Some sic'"
    using example_offered(2) by (cases "offer example_ck False example_sic example_cs6 example_sc") simp_all
  obtain sc2 where 2: "sfe_cm_ipv6_post_routing_hook example_ck example_al example_sic example_cs6 example_sc = Some sc2"
    "created example_ck example_al False sic' example_sc sc2" "made_from False sic' example_ct6"
    using post_routing_refines [OF example_allocs, of False example_ck example_sic example_cs6] ct6 unfolding o' by auto
  show ?thesis
    using 1 2 e [of sic] e [of sic'] unfolding created_def made_from_def r by (auto simp del: request_effect.simps request_effect6.simps)
qed

text \<open>
  A packet of no connection, or of one that must not be accelerated (untracked, unconfirmed, with
  a helper, multicast, another protocol, TCP not established and assured, or too often seen on the
  slow path), leaves everything as it is, but for at most one exception counter; an eligible one
  always yields a complete message, so that only the lookup of devices can still refuse it.
\<close>

theorem post_routing_only_eligible:
  "(\<exists>ctp dir. cs_ct skb = Some (ctp, dir) \<and> eligible k is_v4 skb (sc_ct sc ctp) dir)
     = (\<exists>sic. post_routing_message k is_v4 skb stack sc = Inr sic)
   \<and> ((\<exists>ctp dir. cs_ct skb = Some (ctp, dir) \<and> eligible k is_v4 skb (sc_ct sc ctp) dir)
      \<or> post_routing_hook is_v4 k al stack skb sc \<in> {Some sc} \<union> range (\<lambda>e. Some (sfe_cm_incr_exceptions e sc)))"
proof -
  have 1: "(\<exists>ctp dir. cs_ct skb = Some (ctp, dir) \<and> eligible k is_v4 skb (sc_ct sc ctp) dir)
     = (\<exists>sic. post_routing_message k is_v4 skb stack sc = Inr sic)" (is "?e = ?m")
    using message_fields [of k is_v4 skb stack sc] message_offered [of skb _ _ k is_v4 sc stack] by blast
  have "?m \<or> sfe_cm_post_routing k al is_v4 stack skb sc \<in> {Some sc} \<union> range (\<lambda>e. Some (sfe_cm_incr_exceptions e sc))"
    by (cases "post_routing_message k is_v4 skb stack sc") (auto simp: post_routing_eq split: option.split)
  with 1 show ?thesis by (simp add: hook_eq)
qed

section \<open>References on devices\<close>

definition port_refs :: "cm_kernel \<Rightarrow> dev_ptr list \<Rightarrow> kobj \<Rightarrow> int" where
  "port_refs k ports ob = of_nat (count_list (map Kdev ports) ob)
     - of_nat (count_list (map (\<lambda>p. Kdev (the (ck_master k p))) ports) ob)"

lemma drift_ports:
  "\<exists>ports. length ports \<le> 1 \<and> (\<forall>p \<in> set ports. nd_bridge_port (ck_devs k p) \<and> ck_master k p \<noteq> None)
     \<and> drift k dev f = (\<lambda>ob. f ob + port_refs k ports ob)"
proof (cases "nd_bridge_port (ck_devs k dev) \<and> ck_master k dev \<noteq> None")
  case True
  then show ?thesis
    by (intro exI [of _ "[dev]"]) (auto simp: drift_def bridged_def port_refs_def shift_def fun_eq_iff split: if_splits)
next
  case False
  then show ?thesis
    by (intro exI [of _ "[]"]) (auto simp: drift_def bridged_def port_refs_def fun_eq_iff split: option.split)
qed

lemma port_refs_append: "port_refs k (ps @ qs) ob = port_refs k ps ob + port_refs k qs ob"
  by (simp add: port_refs_def)

lemma post_routing_refs:
  assumes "post_routing_hook is_v4 k al stack skb sc = Some sc'"
  shows "\<exists>ports. length ports \<le> 2 \<and> set ports \<subseteq> {p. nd_bridge_port (ck_devs k p) \<and> ck_master k p \<noteq> None}
    \<and> sc_refs sc' = (\<lambda>ob. sc_refs sc ob + port_refs k ports ob)"
proof -
  have none: "?thesis" if "sc_refs sc' = sc_refs sc"
    by (rule exI [of _ "[]"]) (simp add: that port_refs_def)
  from assms have P: "sfe_cm_post_routing k al is_v4 stack skb sc = Some sc'" by (simp add: hook_eq)
  show ?thesis
  proof (cases rule: post_routing_cases [of k is_v4 stack skb sc al])
    case (refused sc1 e)
    then have s: "sc1 = sc'" using P by simp
    from refused(3) show ?thesis
    proof (elim disjE exE)
      fix src assume "sc1 = drifted k src (sfe_cm_incr_exceptions e sc)"
      then have r: "sc_refs sc' = drift k src (sc_refs sc)" by (simp add: s [symmetric] drifted_def cm_frame)
      show ?thesis using drift_ports [of k src "sc_refs sc"] unfolding r by (elim exE conjE) (intro exI conjI, auto)
    qed (use s none in \<open>simp_all add: cm_frame\<close>)
  next
    case (made sic src dest)
    then have r: "sc_refs sc' = drift k dest (drift k src (sc_refs sc))"
      using P by (cases "post_routing_create k al is_v4 sic sc") (auto simp: drifted_def dest: post_routing_create_frame(1))
    obtain ps where p: "length ps \<le> 1" "\<forall>p \<in> set ps. nd_bridge_port (ck_devs k p) \<and> ck_master k p \<noteq> None"
      "drift k src (sc_refs sc) = (\<lambda>ob. sc_refs sc ob + port_refs k ps ob)"
      using drift_ports [of k src "sc_refs sc"] by blast
    obtain qs where q: "length qs \<le> 1" "\<forall>p \<in> set qs. nd_bridge_port (ck_devs k p) \<and> ck_master k p \<noteq> None"
      "drift k dest (drift k src (sc_refs sc)) = (\<lambda>ob. drift k src (sc_refs sc) ob + port_refs k qs ob)"
      using drift_ports [of k dest "drift k src (sc_refs sc)"] by blast
    show ?thesis
      by (rule exI [of _ "ps @ qs"]) (use p q in \<open>auto simp: r port_refs_append fun_eq_iff\<close>)
  qed
qed

text \<open>
  C20: Over one call of the hook the references on routes, neighbours, conntrack entries and devices
  balance, with one exception: for each end of the flow that is a bridge port, at most two, one
  reference on the port is kept and one on its bridge too many is given back. So without bridge ports
  the hook keeps no reference.
\<close>

theorem post_routing_references:
  assumes "post_routing_hook is_v4 k al stack skb sc = Some sc'"
  shows "\<exists>ports. length ports \<le> 2 \<and> set ports \<subseteq> {p. nd_bridge_port (ck_devs k p) \<and> ck_master k p \<noteq> None}
    \<and> sc_refs sc' = (\<lambda>ob. sc_refs sc ob + port_refs k ports ob)"
  by (rule post_routing_refs [OF assms])

text \<open>The host at 10.0.0.2 behind port 1 of bridge 9.\<close>

definition bridge_ck :: cm_kernel where
  "bridge_ck = example_ck\<lparr>ck_master := (\<lambda>d. if d = 1 then Some 9 else None),
     ck_devs := (\<lambda>d. if d = 1 then example_dev\<lparr>nd_bridge_port := True\<rparr> else example_dev)\<rparr>"

lemma post_routing_references_witness:
  "\<exists>sc' ports. sfe_cm_ipv4_post_routing_hook bridge_ck example_al example_sic example_cs example_sc = Some sc'
     \<and> set ports \<subseteq> {p. nd_bridge_port (ck_devs bridge_ck p)} \<and> sc_refs sc' (Kdev 1) = port_refs bridge_ck ports (Kdev 1)"
proof -
  obtain sc' where s: "sfe_cm_ipv4_post_routing_hook bridge_ck example_al example_sic example_cs example_sc = Some sc'"
    using post_routing_returns [OF example_allocs, of True bridge_ck example_sic example_cs] by (auto intro: that)
  have "sc_refs example_sc (Kdev 1) = 0" by (simp add: example_sc_def)
  moreover obtain ports where "set ports \<subseteq> {p. nd_bridge_port (ck_devs bridge_ck p) \<and> ck_master bridge_ck p \<noteq> None}"
    "sc_refs sc' = (\<lambda>ob. sc_refs example_sc ob + port_refs bridge_ck ports ob)"
    using post_routing_references [of True, unfolded if_True, OF s] by (elim exE conjE) (rule that)
  ultimately show ?thesis using s by (intro exI [of _ sc'] exI [of _ ports]) (simp add: Collect_conj_eq)
qed

text \<open>
  A rule whose source or destination is a bridge port is paid for with references: the device
  variables are overwritten by the bridges before the final \<open>dev_put\<close> calls, so the port stays held
  (it can never be unregistered) and its bridge is released twice.
\<close>

theorem bridge_port_stays_held:
  assumes "post_routing_message k is_v4 skb stack sc = Inr m" and "resolved k is_v4 m = Inr (sic, src, dest)"
    and "bridged k src \<noteq> None" and "bridged k dest \<noteq> None"
    and "post_routing_hook is_v4 k al stack skb sc = Some sc'"
  shows "sc_refs sc' = (\<lambda>ob. sc_refs sc ob + port_refs k (filter (\<lambda>p. nd_bridge_port (ck_devs k p)) [src, dest]) ob)"
proof -
  obtain s d where b: "bridged k src = Some s" "bridged k dest = Some d" using assms(3,4) by auto
  have "sc_refs sc' = drift k dest (drift k src (sc_refs sc))"
    using assms(5) unfolding hook_eq post_routing_eq assms(1) offered_def assms(2) sum.case prod.case b option.case
    by (auto simp: drifted_def dest: post_routing_create_frame(1))
  also have "\<dots> = (\<lambda>ob. sc_refs sc ob + port_refs k (filter (\<lambda>p. nd_bridge_port (ck_devs k p)) [src, dest]) ob)"
    using b by (cases "nd_bridge_port (ck_devs k src)"; cases "nd_bridge_port (ck_devs k dest)")
      (simp_all add: drift_def bridged_def port_refs_def shift_def fun_eq_iff)
  finally show ?thesis .
qed

lemma bridge_port_stays_held_witness:
  "\<exists>sc'. sfe_cm_ipv4_post_routing_hook bridge_ck example_al example_sic example_cs example_sc = Some sc'
     \<and> sc_refs sc' (Kdev 1) = sc_refs example_sc (Kdev 1) + 1 \<and> sc_refs sc' (Kdev 9) = sc_refs example_sc (Kdev 9) - 1"
proof -
  obtain sc' where s: "sfe_cm_ipv4_post_routing_hook bridge_ck example_al example_sic example_cs example_sc = Some sc'"
    using post_routing_returns [OF example_allocs, of True bridge_ck example_sic example_cs] by (auto intro: that)
  have "(case post_routing_message bridge_ck True example_cs example_sic example_sc of Inl _ \<Rightarrow> False
     | Inr m \<Rightarrow> (case resolved bridge_ck True m of Inl _ \<Rightarrow> False | Inr (_, src, dest) \<Rightarrow> src = 1 \<and> dest = 2))"
    by code_simp
  then obtain m sic where m: "post_routing_message bridge_ck True example_cs example_sic example_sc = Inr m"
    "resolved bridge_ck True m = Inr (sic, 1, 2)"
    by (auto split: sum.splits prod.splits)
  have b: "bridged bridge_ck 1 \<noteq> None" "bridged bridge_ck 2 \<noteq> None"
    by (simp_all add: bridged_def bridge_ck_def example_dev_def)
  show ?thesis
    using bridge_port_stays_held [OF m b, of example_al sc'] s by (simp add: port_refs_def bridge_ck_def example_dev_def)
qed

end
