(* ===== verification/SFE_CM_Events.thy ===== *)
theory SFE_CM_Events
  imports SFE_CM_Props
begin

text \<open>
  Conntrack and device events, the counts copied back into conntrack, and the file with the
  exception counters.
\<close>

section \<open>Events\<close>

text \<open>The rules of a map that do not use a device.\<close>

definition without_dev :: "(dev_ptr \<Rightarrow> 'r \<Rightarrow> bool) \<Rightarrow> dev_ptr \<Rightarrow> ('k \<Rightarrow> 'r option) \<Rightarrow> 'k \<Rightarrow> 'r option" where
  "without_dev uses dev m = (\<lambda>k. case m k of None \<Rightarrow> None | Some r \<Rightarrow> if uses dev r then None else Some r)"

lemma without_dev_le: "without_dev uses dev m \<subseteq>\<^sub>m m"
  by (auto simp: without_dev_def map_le_def split: option.splits if_splits)

text \<open>
  An operation that keeps both engines well formed, adds no rule, and touches neither references nor
  registrations.
\<close>

definition cm_quiet :: "sfe_cm \<Rightarrow> sfe_cm \<Rightarrow> bool" where
  "cm_quiet sc sc' \<longleftrightarrow> cm_good sc' \<and> sc_refs sc' = sc_refs sc \<and> sc_recv_hook sc' = sc_recv_hook sc
     \<and> sc_notifiers sc' = sc_notifiers sc
     \<and> sfe_rules (sc_v4 sc') \<subseteq>\<^sub>m sfe_rules (sc_v4 sc) \<and> sfe_rules6 (sc_v6 sc') \<subseteq>\<^sub>m sfe_rules6 (sc_v6 sc)"

lemma cm_quiet_refl: "cm_good sc \<Longrightarrow> cm_quiet sc sc"
  by (simp add: cm_quiet_def)

lemma cm_quiet_trans: "cm_quiet a b \<Longrightarrow> cm_quiet b c \<Longrightarrow> cm_quiet a c"
  unfolding cm_quiet_def by (auto intro: map_le_trans)

text \<open>A change of one engine with messages delivered to conntrack.\<close>

lemma cm_quiet_v4: "cm_good sc \<Longrightarrow> sfe_good si \<Longrightarrow> sfe_rules si \<subseteq>\<^sub>m sfe_rules (sc_v4 sc) \<Longrightarrow> cm_quiet sc (deliver k out (sc\<lparr>sc_v4 := si\<rparr>))"
  and cm_quiet_v6: "cm_good sc \<Longrightarrow> sfe_good6 si6 \<Longrightarrow> sfe_rules6 si6 \<subseteq>\<^sub>m sfe_rules6 (sc_v6 sc) \<Longrightarrow> cm_quiet sc (deliver k out (sc\<lparr>sc_v6 := si6\<rparr>))"
  by (simp_all add: cm_quiet_def cm_good_def cm_frame)

lemma destroy_v4_for:
  assumes "cm_good sc"
  shows "\<exists>sc'. destroy_v4_rules_for k dev sc = Some sc' \<and> cm_quiet sc sc' \<and> sc_v6 sc' = sc_v6 sc
    \<and> sfe_rules (sc_v4 sc') = without_dev rule_uses dev (sfe_rules (sc_v4 sc))"
proof -
  have g: "sfe_good (sc_v4 sc)" using assms by (simp add: cm_good_def)
  obtain si' where r: "run_request (Destroy_dev (ck_jiffies k) dev) (sc_v4 sc) = Some si'" "sfe_good si'"
    "sfe_rules si' = without_dev rule_uses dev (sfe_rules (sc_v4 sc))"
    using v4.run_law [OF g, of "Destroy_dev (ck_jiffies k) dev"] by (auto simp: without_dev_def)
  then obtain out where "sfe_ipv4_destroy_all_rules_for_dev (ck_jiffies k) dev (sc_v4 sc) = Some (si', out)" by auto
  with r show ?thesis
    using cm_quiet_v4 [OF assms r(2), of k out] by (simp add: destroy_v4_rules_for_def cm_frame without_dev_le)
qed

lemma destroy_v6_for:
  assumes "cm_good sc"
  shows "\<exists>sc'. destroy_v6_rules_for k dev sc = Some sc' \<and> cm_quiet sc sc' \<and> sc_v4 sc' = sc_v4 sc
    \<and> sfe_rules6 (sc_v6 sc') = without_dev rule_uses6 dev (sfe_rules6 (sc_v6 sc))"
proof -
  have g: "sfe_good6 (sc_v6 sc)" using assms by (simp add: cm_good_def)
  obtain si' where r: "run_request6 (Destroy_dev6 (ck_jiffies k) dev) (sc_v6 sc) = Some si'" "sfe_good6 si'"
    "sfe_rules6 si' = without_dev rule_uses6 dev (sfe_rules6 (sc_v6 sc))"
    using v6.run_law [OF g, of "Destroy_dev6 (ck_jiffies k) dev"] by (auto simp: without_dev_def)
  then obtain out where "sfe_ipv6_destroy_all_rules_for_dev (ck_jiffies k) dev (sc_v6 sc) = Some (si', out)" by auto
  with r show ?thesis
    using cm_quiet_v6 [OF assms r(2), of k out] by (simp add: destroy_v6_rules_for_def cm_frame without_dev_le)
qed

lemma destroy_message_key: "sid_key (destroy_message t) = tuple_key t" "sid_key6 (destroy_message t) = tuple_key6 t"
  by (simp_all add: sid_key_def sid_key6_def destroy_message_def tuple_key_def tuple_key6_def)

text \<open>The events that concern a flow of an engine, and what they do to its rules.\<close>

definition ends_flow :: "bool \<Rightarrow> nf_conn \<Rightarrow> bool" where
  "ends_flow destroyed ct \<longleftrightarrow> destroyed \<and> \<not> ct_untracked ct \<and> tp_protonum (ct_orig_tuple ct) \<in> {IPPROTO_TCP, IPPROTO_UDP}"

definition flow_ended :: "nf_conn \<Rightarrow> sfe_cm \<Rightarrow> sfe_cm \<Rightarrow> bool" where
  "flow_ended ct sc sc' \<longleftrightarrow>
     (case ct_l3num ct of
        AF_INET \<Rightarrow> sc_v6 sc' = sc_v6 sc \<and> sfe_rules (sc_v4 sc') = (sfe_rules (sc_v4 sc))(tuple_key (ct_orig_tuple ct) := None)
      | AF_INET6 \<Rightarrow> sc_v4 sc' = sc_v4 sc \<and> sfe_rules6 (sc_v6 sc') = (sfe_rules6 (sc_v6 sc))(tuple_key6 (ct_orig_tuple ct) := None))"

lemma upd_None_le: "m(k := None) \<subseteq>\<^sub>m m"
  by (simp add: map_le_def)

lemma conntrack_event_spec:
  assumes "cm_good sc"
  shows "\<exists>sc'. sfe_cm_conntrack_event k destroyed (Some p) sc = Some sc' \<and> cm_quiet sc sc'
    \<and> (if ends_flow destroyed (sc_ct sc p) then flow_ended (sc_ct sc p) sc sc' else sc' = sc)"
proof (cases "ends_flow destroyed (sc_ct sc p)")
  case True
  let ?sid = "destroy_message (ct_orig_tuple (sc_ct sc p))"
  have e: "sfe_cm_conntrack_event k destroyed (Some p) sc = (case ct_l3num (sc_ct sc p) of
      AF_INET \<Rightarrow> Option.bind (sfe_ipv4_destroy_rule (ck_jiffies k) (sc_v4 sc) ?sid) (\<lambda>(si, out). Some (deliver k out (sc\<lparr>sc_v4 := si\<rparr>)))
    | AF_INET6 \<Rightarrow> Option.bind (sfe_ipv6_destroy_rule (ck_jiffies k) (sc_v6 sc) ?sid) (\<lambda>(si, out). Some (deliver k out (sc\<lparr>sc_v6 := si\<rparr>))))"
    using True by (auto simp: sfe_cm_conntrack_event_def Let_def ends_flow_def)
  show ?thesis
  proof (cases "ct_l3num (sc_ct sc p)")
    case AF_INET
    have g: "sfe_good (sc_v4 sc)" using assms by (simp add: cm_good_def)
    obtain si' where r: "run_request (Destroy (ck_jiffies k) ?sid) (sc_v4 sc) = Some si'" "sfe_good si'"
      "sfe_rules si' = (sfe_rules (sc_v4 sc))(tuple_key (ct_orig_tuple (sc_ct sc p)) := None)"
      using v4.run_law [OF g, of "Destroy (ck_jiffies k) ?sid"] by (auto simp: destroy_message_key)
    then obtain out where "sfe_ipv4_destroy_rule (ck_jiffies k) (sc_v4 sc) ?sid = Some (si', out)" by auto
    then show ?thesis
      using r True cm_quiet_v4 [OF assms r(2), of k out]
      by (simp add: e AF_INET flow_ended_def cm_frame upd_None_le)
  next
    case AF_INET6
    have g: "sfe_good6 (sc_v6 sc)" using assms by (simp add: cm_good_def)
    obtain si' where r: "run_request6 (Destroy6 (ck_jiffies k) ?sid) (sc_v6 sc) = Some si'" "sfe_good6 si'"
      "sfe_rules6 si' = (sfe_rules6 (sc_v6 sc))(tuple_key6 (ct_orig_tuple (sc_ct sc p)) := None)"
      using v6.run_law [OF g, of "Destroy6 (ck_jiffies k) ?sid"] by (auto simp: destroy_message_key)
    then obtain out where "sfe_ipv6_destroy_rule (ck_jiffies k) (sc_v6 sc) ?sid = Some (si', out)" by auto
    then show ?thesis
      using r True cm_quiet_v6 [OF assms r(2), of k out]
      by (simp add: e AF_INET6 flow_ended_def cm_frame upd_None_le)
  qed
next
  case False
  then have "sfe_cm_conntrack_event k destroyed (Some p) sc = Some sc"
    by (auto simp: sfe_cm_conntrack_event_def Let_def ends_flow_def)
  with False assms show ?thesis by (simp add: cm_quiet_refl)
qed

text \<open>
  C21: A conntrack event takes out the rule with the key of the entry's original tuple, from the
  engine for its IP version, when the entry is destroyed and is a tracked TCP or UDP flow; every
  other event changes nothing.
\<close>

theorem conntrack_event_refines:
  assumes "cm_good sc"
  shows "\<exists>sc'. sfe_cm_conntrack_event k destroyed ctp sc = Some sc' \<and> cm_quiet sc sc'
    \<and> (case ctp of
         None \<Rightarrow> sc' = sc
       | Some p \<Rightarrow> if ends_flow destroyed (sc_ct sc p) then flow_ended (sc_ct sc p) sc sc' else sc' = sc)"
proof (cases ctp)
  case None
  then show ?thesis using assms by (simp add: sfe_cm_conntrack_event_def cm_quiet_refl)
next
  case (Some p)
  then show ?thesis using conntrack_event_spec [OF assms, of k destroyed p] by auto
qed

text \<open>The example with one rule in each engine.\<close>

definition busy_sc :: sfe_cm where
  "busy_sc = example_sc\<lparr>sc_v4 := example_si, sc_v6 := example_si6\<rparr>"

lemma busy_good: "cm_good busy_sc"
  by (simp add: cm_good_def busy_sc_def example_good example_good6)

lemma busy_cts: "sc_ct busy_sc 5 = example_ct" "sc_ct busy_sc 6 = example_ct6" "sc_ct example_sc 5 = example_ct" "sc_ct example_sc 6 = example_ct6"
  by (simp_all add: busy_sc_def example_sc_def)

lemma busy_ends: "ends_flow True example_ct" "ends_flow True example_ct6"
  by (simp_all add: ends_flow_def example_ct_def example_ct6_def ipproto_defs)

lemma busy_l3num: "ct_l3num example_ct = AF_INET" "ct_l3num example_ct6 = AF_INET6"
  by (simp_all add: example_ct_def example_ct6_def)

lemma conntrack_event_refines_witness:
  "(\<exists>sc'. sfe_cm_conntrack_event example_ck True (Some 5) busy_sc = Some sc'
     \<and> sfe_rules (sc_v4 sc') (tuple_key (ct_orig_tuple example_ct)) = None)
   \<and> (\<exists>sc'. sfe_cm_conntrack_event example_ck True (Some 6) busy_sc = Some sc'
     \<and> sfe_rules6 (sc_v6 sc') (tuple_key6 (ct_orig_tuple example_ct6)) = None)"
  using conntrack_event_refines [OF busy_good, of example_ck True "Some 5"]
    conntrack_event_refines [OF busy_good, of example_ck True "Some 6"]
  by (auto simp: busy_cts busy_ends busy_l3num flow_ended_def)

text \<open>No engine has a rule for the original tuple.\<close>

definition new_flow :: "sfe_cm \<Rightarrow> nf_conn \<Rightarrow> bool" where
  "new_flow sc ct \<longleftrightarrow>
     (case ct_l3num ct of AF_INET \<Rightarrow> sfe_rules (sc_v4 sc) (tuple_key (ct_orig_tuple ct)) = None
      | AF_INET6 \<Rightarrow> sfe_rules6 (sc_v6 sc) (tuple_key6 (ct_orig_tuple ct)) = None)"

lemma created_ended:
  assumes "created k al is_v4 sic sc sc1" and "made_from is_v4 sic ct" and "is_v4 \<longleftrightarrow> ct_l3num ct = AF_INET"
    and "new_flow sc ct" and "flow_ended ct sc1 sc2"
  shows "sfe_rules (sc_v4 sc2) = sfe_rules (sc_v4 sc) \<and> sfe_rules6 (sc_v6 sc2) = sfe_rules6 (sc_v6 sc)"
  using assms
  by (cases "ct_l3num ct")
    (auto simp: created_def made_from_def new_flow_def flow_ended_def create_request_def create_request6_def fun_upd_idem)

text \<open>
  C22: A flow offered to the engines for the first time and destroyed by conntrack later leaves the
  maps of rules of both as they were before.
\<close>

theorem offer_then_destroy:
  assumes "cm_good sc" and "allocs_ok al is_v4 sc" and "cs_ct skb = Some (p, dir)"
    and "is_v4 \<longleftrightarrow> ct_l3num (sc_ct sc p) = AF_INET" and "ends_flow True (sc_ct sc p)" and "new_flow sc (sc_ct sc p)"
  shows "\<exists>sc1 sc2. post_routing_hook is_v4 k al stack skb sc = Some sc1
    \<and> sfe_cm_conntrack_event k' True (Some p) sc1 = Some sc2 \<and> cm_good sc2
    \<and> sfe_rules (sc_v4 sc2) = sfe_rules (sc_v4 sc) \<and> sfe_rules6 (sc_v6 sc2) = sfe_rules6 (sc_v6 sc)"
proof -
  obtain sc1 where h: "post_routing_hook is_v4 k al stack skb sc = Some sc1" "cm_good sc1" "sc_ct sc1 = sc_ct sc"
    and c: "case offer k is_v4 stack skb sc of None \<Rightarrow> sc_v4 sc1 = sc_v4 sc \<and> sc_v6 sc1 = sc_v6 sc
       | Some sic \<Rightarrow> created k al is_v4 sic sc sc1"
    using post_routing_returns [OF assms(1,2), of k stack skb] by (elim exE conjE) (rule that)
  obtain sc2 where e: "sfe_cm_conntrack_event k' True (Some p) sc1 = Some sc2" "cm_quiet sc1 sc2" "flow_ended (sc_ct sc p) sc1 sc2"
    using conntrack_event_spec [OF h(2), of k' True p] h(3) assms(5) by auto
  have "sfe_rules (sc_v4 sc2) = sfe_rules (sc_v4 sc) \<and> sfe_rules6 (sc_v6 sc2) = sfe_rules6 (sc_v6 sc)"
  proof (cases "offer k is_v4 stack skb sc")
    case None
    then show ?thesis
      using c e(3) assms(6) by (cases "ct_l3num (sc_ct sc p)") (simp_all add: flow_ended_def new_flow_def fun_upd_idem)
  next
    case (Some sic)
    then have "made_from is_v4 sic (sc_ct sc p)" using offer_fields [OF Some] assms(3) by auto
    then show ?thesis using created_ended [OF _ _ assms(4,6) e(3)] c Some by simp
  qed
  with h(1) e(1,2) show ?thesis unfolding cm_quiet_def by blast
qed

lemma offer_then_destroy_witness:
  "\<exists>sc1 sc2. sfe_cm_ipv6_post_routing_hook example_ck example_al example_sic example_cs6 example_sc = Some sc1
     \<and> sfe_cm_conntrack_event example_ck True (Some 6) sc1 = Some sc2 \<and> sfe_rules6 (sc_v6 sc2) = sfe_rules6 init_si6"
proof -
  have c: "cs_ct example_cs6 = Some (6, IP_CT_DIR_ORIGINAL)" by (simp add: example_cs6_def)
  have l: "False \<longleftrightarrow> ct_l3num (sc_ct example_sc 6) = AF_INET" by (simp add: busy_cts busy_l3num)
  have k: "ends_flow True (sc_ct example_sc 6)" "new_flow example_sc (sc_ct example_sc 6)" "sc_v6 example_sc = init_si6"
    using busy_ends by (simp_all add: busy_cts busy_l3num new_flow_def example_sc_def sfe_rules_init6)
  show ?thesis
    using offer_then_destroy [OF example_allocs c l k(1,2), of example_ck example_sic example_ck] unfolding k(3) by auto
qed

text \<open>
  When a device goes down, exactly the rules that use it are taken out of both engines; when an
  address of it does, out of the engine for that version only. No reference is kept, and other events
  change nothing.
\<close>

theorem device_event_refines:
  assumes "cm_good sc" and "dev \<noteq> 0"
  shows "\<exists>sc' sc4 sc6. sfe_cm_device_event k True dev sc = Some sc' \<and> cm_quiet sc sc'
    \<and> sfe_rules (sc_v4 sc') = without_dev rule_uses dev (sfe_rules (sc_v4 sc))
    \<and> sfe_rules6 (sc_v6 sc') = without_dev rule_uses6 dev (sfe_rules6 (sc_v6 sc))
    \<and> sfe_cm_inet_event k True dev sc = Some sc4 \<and> cm_quiet sc sc4 \<and> sc_v4 sc4 = sc_v4 sc' \<and> sc_v6 sc4 = sc_v6 sc
    \<and> sfe_cm_inet6_event k True dev sc = Some sc6 \<and> cm_quiet sc sc6 \<and> sc_v4 sc6 = sc_v4 sc
    \<and> sfe_rules6 (sc_v6 sc6) = sfe_rules6 (sc_v6 sc')
    \<and> sfe_cm_device_event k False dev sc = Some sc \<and> sfe_cm_inet_event k False dev sc = Some sc
    \<and> sfe_cm_inet6_event k False dev sc = Some sc"
proof -
  obtain sc4 where 4: "destroy_v4_rules_for k dev sc = Some sc4" "cm_quiet sc sc4" "sc_v6 sc4 = sc_v6 sc"
    "sfe_rules (sc_v4 sc4) = without_dev rule_uses dev (sfe_rules (sc_v4 sc))"
    using destroy_v4_for [OF assms(1), of k dev] by (elim exE conjE) (rule that)
  have g: "cm_good sc4" using 4(2) by (simp add: cm_quiet_def)
  obtain sc' where s: "destroy_v6_rules_for k dev sc4 = Some sc'" "cm_quiet sc4 sc'" "sc_v4 sc' = sc_v4 sc4"
    "sfe_rules6 (sc_v6 sc') = without_dev rule_uses6 dev (sfe_rules6 (sc_v6 sc4))"
    using destroy_v6_for [OF g, of k dev] by (elim exE conjE) (rule that)
  obtain sc6 where 6: "destroy_v6_rules_for k dev sc = Some sc6" "cm_quiet sc sc6" "sc_v4 sc6 = sc_v4 sc"
    "sfe_rules6 (sc_v6 sc6) = without_dev rule_uses6 dev (sfe_rules6 (sc_v6 sc))"
    using destroy_v6_for [OF assms(1), of k dev] by (elim exE conjE) (rule that)
  show ?thesis
    using 4 s 6 assms(2) cm_quiet_trans [OF 4(2) s(2)]
    by (simp add: sfe_cm_device_event_def sfe_cm_inet_event_def sfe_cm_inet6_event_def)
qed

lemma device_event_refines_witness:
  "\<exists>sc'. sfe_cm_device_event example_ck True 2 busy_sc = Some sc' \<and> cm_quiet busy_sc sc'"
proof -
  have "(2 :: dev_ptr) \<noteq> 0" by simp
  from device_event_refines [OF busy_good this, of example_ck] show ?thesis by blast
qed

section \<open>Counts copied back\<close>

text \<open>The window state a message asks for is reached or already passed, in serial arithmetic.\<close>

definition seen_covers :: "u32 \<Rightarrow> u32 \<Rightarrow> u32 \<Rightarrow> ip_ct_tcp_state \<Rightarrow> bool" where
  "seen_covers w e me seen \<longleftrightarrow> w \<le> td_maxwin seen \<and> s32 (td_end seen - e) \<ge> 0 \<and> s32 (td_maxend seen - me) \<ge> 0"

lemma seen_max_covers: "seen_covers w e me (seen_max w e me seen)"
  by (auto simp: seen_covers_def seen_max_def Let_def)

text \<open>Nothing that is ahead of the message already is moved back.\<close>

lemma seen_max_covered: "seen_covers w e me seen \<Longrightarrow> seen_max w e me seen = seen"
  by (auto simp: seen_covers_def seen_max_def Let_def not_less)

definition counted :: "sfe_connection_sync \<Rightarrow> nf_conn_acct \<Rightarrow> nf_conn_acct \<Rightarrow> bool" where
  "counted sis acct acct' \<longleftrightarrow>
     ac_packets acct' IP_CT_DIR_ORIGINAL = ac_packets acct IP_CT_DIR_ORIGINAL + ucast (sis_src_new_packet_count sis)
     \<and> ac_bytes acct' IP_CT_DIR_ORIGINAL = ac_bytes acct IP_CT_DIR_ORIGINAL + ucast (sis_src_new_byte_count sis)
     \<and> ac_packets acct' IP_CT_DIR_REPLY = ac_packets acct IP_CT_DIR_REPLY + ucast (sis_dest_new_packet_count sis)
     \<and> ac_bytes acct' IP_CT_DIR_REPLY = ac_bytes acct IP_CT_DIR_REPLY + ucast (sis_dest_new_byte_count sis)"

lemma add_acct_counted: "counted sis acct (add_acct sis acct)"
  by (simp add: counted_def add_acct_def)

lemma sync_conn_facts:
  "map_option (\<lambda>acct. add_acct sis acct) (ct_acct ct) = ct_acct (sync_conn k p sis ct)"
  "ct_orig_tuple (sync_conn k p sis ct) = ct_orig_tuple ct" "ct_reply_tuple (sync_conn k p sis ct) = ct_reply_tuple ct"
  "ct_tcp_state (sync_conn k p sis ct) = ct_tcp_state ct"
  "sis_protocol sis = ucast IPPROTO_TCP \<Longrightarrow>
     ct_tcp_seen (sync_conn k p sis ct) IP_CT_DIR_ORIGINAL = seen_max (sis_src_td_max_window sis) (sis_src_td_end sis)
       (sis_src_td_max_end sis) (ct_tcp_seen ct IP_CT_DIR_ORIGINAL)"
  "sis_protocol sis = ucast IPPROTO_TCP \<Longrightarrow>
     ct_tcp_seen (sync_conn k p sis ct) IP_CT_DIR_REPLY = seen_max (sis_dest_td_max_window sis) (sis_dest_td_end sis)
       (sis_dest_td_max_end sis) (ct_tcp_seen ct IP_CT_DIR_REPLY)"
  "sis_protocol sis \<noteq> ucast IPPROTO_TCP \<Longrightarrow> ct_tcp_seen (sync_conn k p sis ct) = ct_tcp_seen ct"
  "ct_fixed_timeout ct \<Longrightarrow> sis_protocol sis \<noteq> ucast IPPROTO_UDP \<Longrightarrow>
     ct_timeout_expires (sync_conn k p sis ct) = ct_timeout_expires ct"
  by (auto simp: sync_conn_def Let_def split: option.split)

text \<open>
  A sync message changes the conntrack entry of its tuple and no other, and keeps no reference on
  it: the new counts of both directions are added to its accounting, the tuples stay, and for TCP the
  window state of both directions covers that of the message.
\<close>

theorem sync_rule_correct:
  "let sc' = sfe_cm_sync_rule k sis sc
   in sc_v4 sc' = sc_v4 sc \<and> sc_v6 sc' = sc_v6 sc \<and> sc_refs sc' = sc_refs sc \<and> sc_exceptions sc' = sc_exceptions sc
      \<and> (case ck_conntrack_find k (sync_tuple sis) of
           None \<Rightarrow> sc' = sc
         | Some p \<Rightarrow> (\<exists>ct. sc_ct sc' = (sc_ct sc)(p := ct)
             \<and> ct_orig_tuple ct = ct_orig_tuple (sc_ct sc p) \<and> ct_reply_tuple ct = ct_reply_tuple (sc_ct sc p)
             \<and> rel_option (counted sis) (ct_acct (sc_ct sc p)) (ct_acct ct)
             \<and> (if sis_protocol sis = ucast IPPROTO_TCP
                then seen_covers (sis_src_td_max_window sis) (sis_src_td_end sis) (sis_src_td_max_end sis)
                       (ct_tcp_seen ct IP_CT_DIR_ORIGINAL)
                   \<and> seen_covers (sis_dest_td_max_window sis) (sis_dest_td_end sis) (sis_dest_td_max_end sis)
                       (ct_tcp_seen ct IP_CT_DIR_REPLY)
                else ct_tcp_seen ct = ct_tcp_seen (sc_ct sc p))))"
proof (cases "ck_conntrack_find k (sync_tuple sis)")
  case None
  then show ?thesis by (simp add: sync_rule_eq sync_cts_def)
next
  case (Some p)
  let ?ct = "sync_conn k p sis (sc_ct sc p)"
  have "rel_option (counted sis) (ct_acct (sc_ct sc p)) (ct_acct ?ct)"
    unfolding sync_conn_facts(1) [symmetric] by (cases "ct_acct (sc_ct sc p)") (simp_all add: add_acct_counted)
  then show ?thesis
    using Some by (simp add: sync_rule_eq sync_cts_def Let_def exI [of _ ?ct] sync_conn_facts seen_max_covers)
qed

section \<open>The exceptions file\<close>

text \<open>The lines of the counters that are not zero, in the order of the names.\<close>

definition exceptions_text :: "sfe_cm \<Rightarrow> (sfe_cm_exception \<times> string) list \<Rightarrow> string" where
  "exceptions_text sc ns = concat (map (\<lambda>(e, name). exception_line name (sc_exceptions sc e))
     (filter (\<lambda>(e, _). sc_exceptions sc e \<noteq> 0) ns))"

lemma exception_fold:
  assumes "\<forall>(e, name) \<in> set ns. length name \<le> 19" and "n + 34 * length ns < PAGE_SIZE" and "length buf = n"
  shows "fold (\<lambda>(e, name) st. if sc_exceptions sc e \<noteq> 0 then snprintf_at st (exception_line name (sc_exceptions sc e)) else st)
      ns (buf, n) = (buf @ exceptions_text sc ns, n + length (exceptions_text sc ns))
    \<and> length (exceptions_text sc ns) \<le> 34 * length ns"
  using assms
proof (induction ns arbitrary: buf n)
  case Nil
  then show ?case by (simp add: exceptions_text_def)
next
  case (Cons x ns)
  obtain e name where x: "x = (e, name)" by (cases x)
  let ?line = "exception_line name (sc_exceptions sc e)"
  have l: "length ?line \<le> 34"
    using print_d_length [of "sc_exceptions sc e"] Cons.prems(1) by (simp add: exception_line_def x)
  show ?case
  proof (cases "sc_exceptions sc e = 0")
    case True
    then show ?thesis using Cons.IH [of n buf] Cons.prems by (simp add: x exceptions_text_def)
  next
    case False
    have "snprintf_at (buf, n) ?line = (buf @ ?line, n + length ?line)"
      using l Cons.prems(2) by (simp add: snprintf_at_def)
    with False l show ?thesis
      using Cons.IH [of "n + length ?line" "buf @ ?line"] Cons.prems by (simp add: x exceptions_text_def)
  qed
qed

text \<open>
  Reading the exceptions file gives one line for every counter that is not zero, in order, whole:
  the text is never cut off at the page, and the length returned is that of the text.
\<close>

theorem exceptions_fit_page:
  "sfe_cm_get_exceptions sc = (exceptions_text sc sfe_cm_exception_events_string,
       length (exceptions_text sc sfe_cm_exception_events_string))
   \<and> length (exceptions_text sc sfe_cm_exception_events_string) < PAGE_SIZE"
proof -
  have l: "length sfe_cm_exception_events_string = 18" by (simp add: sfe_cm_exception_events_string_def)
  have n: "\<forall>(e, name) \<in> set sfe_cm_exception_events_string. length name \<le> 19"
    by (simp add: sfe_cm_exception_events_string_def)
  have p: "0 + 34 * length sfe_cm_exception_events_string < PAGE_SIZE" by (simp add: l PAGE_SIZE_def)
  note F = exception_fold [OF n p list.size(3), of sc]
  have "length (exceptions_text sc sfe_cm_exception_events_string) < PAGE_SIZE"
    using F [THEN conjunct2] by (rule le_less_trans) (use p in simp)
  then show ?thesis
    unfolding sfe_cm_get_exceptions_def F [THEN conjunct1] by simp
qed

end
