(* ===== verification/SFE_CM_System.thy ===== *)
theory SFE_CM_System
  imports SFE_CM_Events
begin

text \<open>
  Loading and unloading of the connection manager, and everything that may happen to the loaded
  manager as one transition system: packets, conntrack and device events, the timers of the engines
  and changes of the kernel's conntrack entries.
\<close>

section \<open>Loading and unloading\<close>

text \<open>Nothing is left in an engine, and nobody is told about anything.\<close>

definition engine_empty :: "sfe_ipv4 \<Rightarrow> bool" where
  "engine_empty si \<longleftrightarrow> sfe_rules si = (\<lambda>_. None) \<and> live_connections si = {} \<and> live_matches si = {} \<and> dev_refs si = (\<lambda>_. 0)
     \<and> (\<forall>i. conn_hash si i = None \<and> conn_match_hash si i = None) \<and> sync_rule_callback si = None"

definition engine_empty6 :: "sfe_ipv6 \<Rightarrow> bool" where
  "engine_empty6 si \<longleftrightarrow> sfe_rules6 si = (\<lambda>_. None) \<and> live_connections6 si = {} \<and> live_matches6 si = {} \<and> dev_refs6 si = (\<lambda>_. 0)
     \<and> (\<forall>i. conn_hash6 si i = None \<and> conn_match_hash6 si i = None) \<and> sync_rule_callback6 si = None"

lemma destroy_all_empty:
  assumes "sfe_good si"
  shows "\<exists>si'. sfe_ipv4_destroy_all_rules_for_dev j 0 (sfe_ipv4_register_sync_rule_callback si None) = Some (si', [])
    \<and> sfe_good si' \<and> engine_empty si'"
proof -
  let ?si = "sfe_ipv4_register_sync_rule_callback si None"
  have "sfe_good ?si" using v4.run_law [OF assms, of "Register None"] by auto
  then obtain g where i: "sfe_inv ?si g []" and a: "adj_inv ?si" by (rule good_invE)
  obtain si' out g' where u: "sfe_ipv4_destroy_all_rules_for_dev j 0 ?si = Some (si', out)" and i': "sfe_inv si' g' []"
    and ga: "ga g' = filter (\<lambda>c. \<not> uses_dev (connections ?si c) 0) (ga g)" and r: "same_rules ?si si'"
    and cb: "sync_rule_callback si' = sync_rule_callback ?si"
    and o: "map (\<lambda>(cb, sis). (cb, sis_key sis, sis_reason sis)) out = syncs_of (sync_rule_callback ?si) SFE_SYNC_REASON_DESTROY
        (map (\<lambda>c. c_key (connections ?si c)) (filter (\<lambda>c. uses_dev (connections ?si c) 0) (ga g)))"
    using destroy_all_spec [OF i, of j 0] by (elim exE conjE) (rule that)
  have n: "sfe_rules si' = (\<lambda>_. None)"
    unfolding destroy_all_rules [OF i i' ga r] by (auto simp: rule_uses_def fun_eq_iff split: option.split)
  have none: "sync_rule_callback ?si = None" by (simp add: sfe_ipv4_register_sync_rule_callback_def)
  then have out: "out = []" using o by (simp add: syncs_of_def)
  have "sfe_good si'" using i' adj_inv_same [OF destroy_all_adj [OF i u] a] by (auto simp: sfe_good_def sfe_wf_def)
  then show ?thesis using u n cb none quiet_engine [OF i' n] by (simp add: out engine_empty_def)
qed

lemma destroy_all_empty6:
  assumes "sfe_good6 si"
  shows "\<exists>si'. sfe_ipv6_destroy_all_rules_for_dev j 0 (sfe_ipv6_register_sync_rule_callback si None) = Some (si', [])
    \<and> sfe_good6 si' \<and> engine_empty6 si'"
proof -
  let ?si = "sfe_ipv6_register_sync_rule_callback si None"
  have "sfe_good6 ?si" using v6.run_law [OF assms, of "Register6 None"] by auto
  then obtain g where i: "sfe_inv6 ?si g []" and a: "adj_inv6 ?si" by (rule good_invE6)
  obtain si' out g' where u: "sfe_ipv6_destroy_all_rules_for_dev j 0 ?si = Some (si', out)" and i': "sfe_inv6 si' g' []"
    and ga: "ga g' = filter (\<lambda>c. \<not> uses_dev6 (connections6 ?si c) 0) (ga g)" and r: "same_rules6 ?si si'"
    and cb: "sync_rule_callback6 si' = sync_rule_callback6 ?si"
    and o: "map (\<lambda>(cb, sis). (cb, sis_key6 sis, sis_reason sis)) out = syncs_of6 (sync_rule_callback6 ?si) SFE_SYNC_REASON_DESTROY
        (map (\<lambda>c. c_key6 (connections6 ?si c)) (filter (\<lambda>c. uses_dev6 (connections6 ?si c) 0) (ga g)))"
    using destroy_all_spec6 [OF i, of j 0] by (elim exE conjE) (rule that)
  have n: "sfe_rules6 si' = (\<lambda>_. None)"
    unfolding destroy_all_rules6 [OF i i' ga r] by (auto simp: rule_uses6_def fun_eq_iff split: option.split)
  have none: "sync_rule_callback6 ?si = None" by (simp add: sfe_ipv6_register_sync_rule_callback_def)
  then have out: "out = []" using o by (simp add: syncs_of6_def)
  have "sfe_good6 si'" using i' adj_inv_same6 [OF destroy_all_adj6 [OF i u] a] by (auto simp: sfe_good6_def sfe_wf6_def)
  then show ?thesis using u n cb none quiet_engine6 [OF i' n] by (simp add: out engine_empty6_def)
qed

lemma unload_spec:
  assumes "cm_good sc"
  shows "\<exists>sc'. sfe_cm_exit k sc = Some sc' \<and> cm_good sc' \<and> engine_empty (sc_v4 sc') \<and> engine_empty6 (sc_v6 sc')
    \<and> \<not> sc_recv_hook sc' \<and> sc_notifiers sc' = {} \<and> sc_ct sc' = sc_ct sc \<and> sc_refs sc' = sc_refs sc"
proof -
  have g: "sfe_good (sc_v4 sc)" "sfe_good6 (sc_v6 sc)" using assms by (simp_all add: cm_good_def)
  obtain si where 4: "sfe_ipv4_destroy_all_rules_for_dev (ck_jiffies k) 0 (sfe_ipv4_register_sync_rule_callback (sc_v4 sc) None) = Some (si, [])"
    "sfe_good si" "engine_empty si" using destroy_all_empty [OF g(1), of "ck_jiffies k"] by (elim exE conjE) (rule that)
  obtain si6 where 6: "sfe_ipv6_destroy_all_rules_for_dev (ck_jiffies k) 0 (sfe_ipv6_register_sync_rule_callback (sc_v6 sc) None) = Some (si6, [])"
    "sfe_good6 si6" "engine_empty6 si6" using destroy_all_empty6 [OF g(2), of "ck_jiffies k"] by (elim exE conjE) (rule that)
  have "UNIV = {Ct_notifier, Nf_hooks, Inet6_notifier, Inet_notifier, Dev_notifier, Sys_kobject}"
    by (auto intro: notifier.exhaust)
  then have N: "S - {Ct_notifier, Nf_hooks, Inet6_notifier, Inet_notifier, Dev_notifier, Sys_kobject} = {}" for S by blast
  show ?thesis
    using 4 6 by (simp add: sfe_cm_exit_def destroy_v4_rules_for_def destroy_v6_rules_for_def deliver_def N cm_good_def Let_def)
qed

text \<open>
  C23: Unloading the manager always ends. Nothing is registered any more, neither the receive hook nor
  the callbacks of the engines, and both engines are empty: no connection, match, device reference or
  table entry is left, and no sync message is sent for the connections destroyed.
\<close>

theorem unload_releases_everything:
  assumes "cm_good sc"
  shows "\<exists>sc'. sfe_cm_exit k sc = Some sc' \<and> cm_good sc' \<and> engine_empty (sc_v4 sc') \<and> engine_empty6 (sc_v6 sc')
    \<and> \<not> sc_recv_hook sc' \<and> sc_notifiers sc' = {} \<and> sc_ct sc' = sc_ct sc \<and> sc_refs sc' = sc_refs sc"
  by (rule unload_spec [OF assms])

lemma unload_releases_everything_witness:
  "\<exists>sc'. sfe_cm_exit example_ck busy_sc = Some sc' \<and> live_connections (sc_v4 sc') = {} \<and> live_connections6 (sc_v6 sc') = {}"
  using unload_releases_everything [OF busy_good, of example_ck] by (auto simp: engine_empty_def engine_empty6_def)

lemma init_spec:
  assumes "\<not> sc_recv_hook sc" and "sc_notifiers sc = {}"
  shows "\<exists>rc sc'. sfe_cm_init cb kobject sysfs hooks ct_notifier sc = Some (rc, sc')
    \<and> (if kobject \<and> sysfs = 0 \<and> 0 \<le> hooks \<and> 0 \<le> ct_notifier
       then rc = 0 \<and> sc' = sc\<lparr>sc_notifiers := UNIV, sc_recv_hook := True,
          sc_v4 := sfe_ipv4_register_sync_rule_callback (sc_v4 sc) (Some cb),
          sc_v6 := sfe_ipv6_register_sync_rule_callback (sc_v6 sc) (Some cb)\<rparr>
       else rc \<noteq> 0 \<and> sc' = sc)"
proof -
  have U: "{Ct_notifier, Nf_hooks, Inet6_notifier, Inet_notifier, Dev_notifier, Sys_kobject} = UNIV"
    by (auto intro: notifier.exhaust)
  have "sc\<lparr>sc_notifiers := {}\<rparr> = sc" using assms(2) by (cases sc) simp
  then show ?thesis
    using assms by (auto simp: sfe_cm_init_def Let_def U)
qed

text \<open>
  Loading is all or nothing: it succeeds when every registration does, and then everything is
  registered and both engines report to the manager; after any failure the error is returned and
  nothing stays registered.
\<close>

theorem load_all_or_nothing:
  assumes "\<not> sc_recv_hook sc" and "sc_notifiers sc = {}"
  shows "\<exists>rc sc'. sfe_cm_init cb kobject sysfs hooks ct_notifier sc = Some (rc, sc')
    \<and> (if kobject \<and> sysfs = 0 \<and> 0 \<le> hooks \<and> 0 \<le> ct_notifier
       then rc = 0 \<and> sc_notifiers sc' = UNIV \<and> sc_recv_hook sc' \<and> sync_rule_callback (sc_v4 sc') = Some cb
         \<and> sync_rule_callback6 (sc_v6 sc') = Some cb \<and> sc_refs sc' = sc_refs sc
       else rc \<noteq> 0 \<and> sc' = sc)"
  using init_spec [OF assms, of cb kobject sysfs hooks ct_notifier]
  by (auto simp: sfe_ipv4_register_sync_rule_callback_def sfe_ipv6_register_sync_rule_callback_def split: if_splits)

definition unloaded_sc :: sfe_cm where
  "unloaded_sc = example_sc\<lparr>sc_recv_hook := False\<rparr>"

lemma load_all_or_nothing_witness:
  "sfe_cm_init 77 True 0 0 (- 12) unloaded_sc = Some (- 12, unloaded_sc)"
proof -
  have "\<not> sc_recv_hook unloaded_sc" "sc_notifiers unloaded_sc = {}" by (simp_all add: unloaded_sc_def example_sc_def)
  from load_all_or_nothing [OF this, of 77 True 0 0 "- 12"] show ?thesis
    by (auto simp: sfe_cm_init_def Let_def)
qed

section \<open>All events in any order\<close>

lemma recv_shrinks:
  assumes "sfe_good si" and "sfe_ipv4_recv k dev si skb = Some res"
  shows "sfe_good (r_si res)" and "sfe_rules (r_si res) \<subseteq>\<^sub>m sfe_rules si"
proof -
  from assms(1) obtain g where "sfe_inv si g []" "adj_inv si" by (rule good_invE)
  note r = recv_inv [OF this assms(2)]
  show "sfe_good (r_si res)" using r(1,2) by (auto simp: sfe_good_def sfe_wf_def)
  show "sfe_rules (r_si res) \<subseteq>\<^sub>m sfe_rules si"
    using r(3) by (auto simp: recv_outcome_def kept_def flushed_def upd_None_le)
qed

lemma recv_shrinks6:
  assumes "sfe_good6 si" and "pull_checks k skb" and "sfe_ipv6_recv k dev si skb = Some res"
  shows "sfe_good6 (r_si6 res)" and "sfe_rules6 (r_si6 res) \<subseteq>\<^sub>m sfe_rules6 si"
proof -
  from assms(1) obtain g where "sfe_inv6 si g []" "adj_inv6 si" by (rule good_invE6)
  note r = recv_inv6 [OF this assms(2,3)]
  show "sfe_good6 (r_si6 res)" using r(1,2) by (auto simp: sfe_good6_def sfe_wf6_def)
  show "sfe_rules6 (r_si6 res) \<subseteq>\<^sub>m sfe_rules6 si"
    using r(3) by (auto simp: recv_outcome6_def kept6_def flushed6_def upd_None_le)
qed

lemma recv_spec:
  assumes "cm_good sc" and "pull_checks k skb"
  shows "\<exists>res sc'. sfe_cm_recv k ia ia6 ck protocol skb sc = Some (res, sc') \<and> cm_quiet sc sc'"
proof -
  have g: "sfe_good (sc_v4 sc)" "sfe_good6 (sc_v6 sc)" using assms(1) by (simp_all add: cm_good_def)
  obtain r where r: "sfe_ipv4_recv k (skb_dev skb) (sc_v4 sc) skb = Some r"
    using recv_returns_recv good_invE [OF g(1)] unfolding recv_returns_def by (metis not_None_eq)
  obtain r6 where r6: "sfe_ipv6_recv k (skb_dev skb) (sc_v6 sc) skb = Some r6"
    using recv_returns_recv6 [OF _ assms(2)] good_invE6 [OF g(2)] unfolding recv_returns6_def by (metis not_None_eq)
  note q = cm_quiet_refl [OF assms(1)] cm_quiet_v4 [OF assms(1) recv_shrinks [OF g(1) r]] cm_quiet_v6 [OF assms(1) recv_shrinks6 [OF g(2) assms(2) r6]]
  show ?thesis
    by (simp add: sfe_cm_recv_def Let_def r r6 q split: option.split)
qed

text \<open>
  The manager's entry points, each called only while it is registered; \<open>bridges\<close> tells whether
  devices may be bridge ports. The timers belong to the engines and run in any case, and the kernel
  changes its conntrack entries at any time.
\<close>

inductive cm_step :: "bool \<Rightarrow> sfe_cm \<Rightarrow> sfe_cm \<Rightarrow> bool" for bridges where
  load: "\<not> sc_recv_hook sc \<Longrightarrow> sfe_cm_init cb kobject sysfs hooks ct_notifier sc = Some (rc, sc') \<Longrightarrow> cm_step bridges sc sc'"
| unload: "sc_recv_hook sc \<Longrightarrow> sfe_cm_exit k sc = Some sc' \<Longrightarrow> cm_step bridges sc sc'"
| packet: "sc_recv_hook sc \<Longrightarrow> pull_checks kk skb \<Longrightarrow> sfe_cm_recv kk ia ia6 k protocol skb sc = Some (res, sc') \<Longrightarrow> cm_step bridges sc sc'"
| post_routing: "Nf_hooks \<in> sc_notifiers sc \<Longrightarrow> allocs_ok al is_v4 sc \<Longrightarrow> (bridges \<or> (\<forall>d. \<not> nd_bridge_port (ck_devs k d)))
    \<Longrightarrow> post_routing_hook is_v4 k al stack cskb sc = Some sc' \<Longrightarrow> cm_step bridges sc sc'"
| conntrack: "Ct_notifier \<in> sc_notifiers sc \<Longrightarrow> sfe_cm_conntrack_event k destroyed ctp sc = Some sc' \<Longrightarrow> cm_step bridges sc sc'"
| device: "Dev_notifier \<in> sc_notifiers sc \<Longrightarrow> sfe_cm_device_event k down dev sc = Some sc' \<Longrightarrow> cm_step bridges sc sc'"
| inet: "Inet_notifier \<in> sc_notifiers sc \<Longrightarrow> sfe_cm_inet_event k down dev sc = Some sc' \<Longrightarrow> cm_step bridges sc sc'"
| inet6: "Inet6_notifier \<in> sc_notifiers sc \<Longrightarrow> sfe_cm_inet6_event k down dev sc = Some sc' \<Longrightarrow> cm_step bridges sc sc'"
| timer: "sfe_ipv4_periodic_sync hz now j (sc_v4 sc) = Some (si, out) \<Longrightarrow> cm_step bridges sc (deliver k out (sc\<lparr>sc_v4 := si\<rparr>))"
| timer6: "sfe_ipv6_periodic_sync hz now j (sc_v6 sc) = Some (si6, out) \<Longrightarrow> cm_step bridges sc (deliver k out (sc\<lparr>sc_v6 := si6\<rparr>))"
| entries: "cm_step bridges sc (sc\<lparr>sc_ct := cts\<rparr>)"

inductive cm_reach :: "bool \<Rightarrow> sfe_cm \<Rightarrow> bool" for bridges where
  start: "sc_v4 sc = init_si \<Longrightarrow> sc_v6 sc = init_si6 \<Longrightarrow> sc_refs sc = (\<lambda>_. 0) \<Longrightarrow> \<not> sc_recv_hook sc \<Longrightarrow> sc_notifiers sc = {}
    \<Longrightarrow> cm_reach bridges sc"
| next_event: "cm_reach bridges sc \<Longrightarrow> cm_step bridges sc sc' \<Longrightarrow> cm_reach bridges sc'"

text \<open>What a step is, once both engines are well formed.\<close>

inductive cm_change :: "bool \<Rightarrow> sfe_cm \<Rightarrow> sfe_cm \<Rightarrow> bool" for bridges where
  loaded: "sc' = sc\<lparr>sc_notifiers := UNIV, sc_recv_hook := True,
      sc_v4 := sfe_ipv4_register_sync_rule_callback (sc_v4 sc) (Some cb),
      sc_v6 := sfe_ipv6_register_sync_rule_callback (sc_v6 sc) (Some cb)\<rparr> \<Longrightarrow> cm_change bridges sc sc'"
| unloaded: "cm_good sc' \<Longrightarrow> engine_empty (sc_v4 sc') \<Longrightarrow> engine_empty6 (sc_v6 sc') \<Longrightarrow> \<not> sc_recv_hook sc' \<Longrightarrow> sc_notifiers sc' = {}
    \<Longrightarrow> sc_refs sc' = sc_refs sc \<Longrightarrow> cm_change bridges sc sc'"
| quiet: "cm_quiet sc sc' \<Longrightarrow> cm_change bridges sc sc'"
| offered: "cm_good sc' \<Longrightarrow> sc_recv_hook sc' = sc_recv_hook sc \<Longrightarrow> sc_notifiers sc' = sc_notifiers sc \<Longrightarrow> sc_recv_hook sc
    \<Longrightarrow> set ports \<subseteq> {p. nd_bridge_port (ck_devs k p)} \<Longrightarrow> ports = [] \<or> bridges
    \<Longrightarrow> sc_refs sc' = (\<lambda>ob. sc_refs sc ob + port_refs k ports ob)
    \<Longrightarrow> (sc_v4 sc' = sc_v4 sc \<and> sc_v6 sc' = sc_v6 sc
        \<or> (\<exists>ct skb dir sic. eligible k is_v4 skb ct dir \<and> made_from is_v4 sic ct \<and> created k al is_v4 sic sc sc'))
    \<Longrightarrow> cm_change bridges sc sc'"

definition cm_inv :: "bool \<Rightarrow> sfe_cm \<Rightarrow> bool" where
  "cm_inv bridges sc \<longleftrightarrow> cm_good sc
     \<and> sc_notifiers sc = (if sc_recv_hook sc then UNIV else {})
     \<and> (\<not> sc_recv_hook sc \<longrightarrow> sfe_rules (sc_v4 sc) = (\<lambda>_. None) \<and> sfe_rules6 (sc_v6 sc) = (\<lambda>_. None))
     \<and> (\<forall>n. sc_refs sc (Kdst n) = 0 \<and> sc_refs sc (Kneigh n) = 0 \<and> sc_refs sc (Kct n) = 0)
     \<and> (\<not> bridges \<longrightarrow> sc_refs sc = (\<lambda>_. 0))"

lemma offered_change:
  assumes "cm_good sc" and "allocs_ok al is_v4 sc" and "bridges \<or> (\<forall>d. \<not> nd_bridge_port (ck_devs k d))"
    and "post_routing_hook is_v4 k al stack skb sc = Some sc'" and "sc_recv_hook sc"
  shows "cm_change bridges sc sc'"
proof -
  have r: "cm_good sc'" "sc_recv_hook sc' = sc_recv_hook sc" "sc_notifiers sc' = sc_notifiers sc"
    and c: "case offer k is_v4 stack skb sc of None \<Rightarrow> sc_v4 sc' = sc_v4 sc \<and> sc_v6 sc' = sc_v6 sc
       | Some sic \<Rightarrow> created k al is_v4 sic sc sc'"
    using post_routing_returns [OF assms(1,2), of k stack skb] assms(4) by auto
  obtain ports where p: "set ports \<subseteq> {p. nd_bridge_port (ck_devs k p) \<and> ck_master k p \<noteq> None}"
    "sc_refs sc' = (\<lambda>ob. sc_refs sc ob + port_refs k ports ob)"
    using post_routing_refs [OF assms(4)] by (elim exE conjE) (rule that)
  have b: "set ports \<subseteq> {p. nd_bridge_port (ck_devs k p)}" "ports = [] \<or> bridges"
    using p(1) assms(3) by (auto simp: subset_iff)
  have o: "sc_v4 sc' = sc_v4 sc \<and> sc_v6 sc' = sc_v6 sc
      \<or> (\<exists>ct skb dir sic. eligible k is_v4 skb ct dir \<and> made_from is_v4 sic ct \<and> created k al is_v4 sic sc sc')"
    using c offer_fields [of k is_v4 stack skb sc] by (cases "offer k is_v4 stack skb sc") fastforce+
  show ?thesis by (rule cm_change.offered [OF r assms(5) b p(2) o])
qed

lemma cm_step_change:
  assumes "cm_step b sc sc'" and i: "cm_inv b sc"
  shows "cm_change b sc sc'"
  using assms(1)
proof cases
  case (load cb kobject sysfs hooks ct_notifier rc)
  have "sc_notifiers sc = {}" using load i by (simp add: cm_inv_def)
  then show ?thesis
    using init_spec [OF load(1), of cb kobject sysfs hooks ct_notifier] load i
    by (auto simp: cm_inv_def split: if_splits intro: cm_change.loaded cm_change.quiet cm_quiet_refl)
next
  case (unload k)
  have "cm_good sc" using i by (simp add: cm_inv_def)
  from unload_spec [OF this, of k] unload(2) show ?thesis by (auto intro!: cm_change.unloaded)
next
  case (packet kk skb ia ia6 k protocol res)
  have "cm_good sc" using i by (simp add: cm_inv_def)
  from recv_spec [OF this packet(2), of ia ia6 k protocol] packet(3) show ?thesis by (auto intro!: cm_change.quiet)
next
  case (post_routing al is_v4 k stack cskb)
  have "cm_good sc" "sc_recv_hook sc" using i post_routing(1) by (auto simp: cm_inv_def split: if_splits)
  then show ?thesis using offered_change post_routing(2-4) by blast
next
  case (conntrack k destroyed ctp)
  have g: "cm_good sc" using i by (simp add: cm_inv_def)
  show ?thesis
  proof (cases ctp)
    case None
    then show ?thesis using conntrack(2) g by (auto simp: sfe_cm_conntrack_event_def intro!: cm_change.quiet cm_quiet_refl)
  next
    case (Some p)
    then show ?thesis using conntrack_event_spec [OF g, of k destroyed p] conntrack(2) by (auto intro!: cm_change.quiet)
  qed
next
  case (device k down dev)
  have g: "cm_good sc" using i by (simp add: cm_inv_def)
  show ?thesis
  proof (cases "dev \<noteq> 0 \<and> down")
    case True
    obtain s1 where s: "destroy_v4_rules_for k dev sc = Some s1" "cm_quiet sc s1"
      using destroy_v4_for [OF g, of k dev] by (elim exE conjE) (rule that)
    have g1: "cm_good s1" using s(2) by (simp add: cm_quiet_def)
    obtain s2 where "destroy_v6_rules_for k dev s1 = Some s2" "cm_quiet s1 s2"
      using destroy_v6_for [OF g1, of k dev] by (elim exE conjE) (rule that)
    then show ?thesis
      using s True device(2) cm_quiet_trans [OF s(2)] by (auto simp: sfe_cm_device_event_def intro!: cm_change.quiet)
  qed (use device(2) g in \<open>auto simp: sfe_cm_device_event_def intro!: cm_change.quiet cm_quiet_refl\<close>)
next
  case (inet k down dev)
  have g: "cm_good sc" using i by (simp add: cm_inv_def)
  show ?thesis
    using destroy_v4_for [OF g, of k dev] inet(2) g
    by (auto simp: sfe_cm_inet_event_def split: if_splits intro!: cm_change.quiet cm_quiet_refl)
next
  case (inet6 k down dev)
  have g: "cm_good sc" using i by (simp add: cm_inv_def)
  show ?thesis
    using destroy_v6_for [OF g, of k dev] inet6(2) g
    by (auto simp: sfe_cm_inet6_event_def split: if_splits intro!: cm_change.quiet cm_quiet_refl)
next
  case (timer hz now j si out k)
  have g: "cm_good sc" "sfe_good (sc_v4 sc)" using i by (simp_all add: cm_inv_def cm_good_def)
  have "sfe_good si" "sfe_rules si = sfe_rules (sc_v4 sc)"
    using v4.run_law [OF g(2), of "Timer hz now j"] timer(2) by auto
  then show ?thesis unfolding timer(1) by (intro cm_change.quiet cm_quiet_v4 [OF g(1)]) simp_all
next
  case (timer6 hz now j si6 out k)
  have g: "cm_good sc" "sfe_good6 (sc_v6 sc)" using i by (simp_all add: cm_inv_def cm_good_def)
  have "sfe_good6 si6" "sfe_rules6 si6 = sfe_rules6 (sc_v6 sc)"
    using v6.run_law [OF g(2), of "Timer6 hz now j"] timer6(2) by auto
  then show ?thesis unfolding timer6(1) by (intro cm_change.quiet cm_quiet_v6 [OF g(1)]) simp_all
next
  case (entries cts)
  then show ?thesis using i by (auto simp: cm_inv_def cm_quiet_def cm_good_def intro!: cm_change.quiet)
qed

lemma port_refs_other: "(\<And>d. ob \<noteq> Kdev d) \<Longrightarrow> port_refs k ports ob = 0"
  unfolding port_refs_def by (induction ports) auto

lemma le_empty: "m \<subseteq>\<^sub>m (\<lambda>_. None) \<Longrightarrow> m = (\<lambda>_. None)"
  by (auto simp: map_le_def fun_eq_iff)

lemma cm_change_inv:
  assumes "cm_change b sc sc'" and i: "cm_inv b sc"
  shows "cm_inv b sc'"
  using assms(1)
proof cases
  case (loaded cb)
  have "sfe_good (sfe_ipv4_register_sync_rule_callback (sc_v4 sc) (Some cb))"
    "sfe_good6 (sfe_ipv6_register_sync_rule_callback (sc_v6 sc) (Some cb))"
    using v4.run_law [of "sc_v4 sc" "Register (Some cb)"] v6.run_law [of "sc_v6 sc" "Register6 (Some cb)"] i
    by (simp_all add: cm_inv_def cm_good_def)
  with loaded i show ?thesis by (simp add: cm_inv_def cm_good_def)
next
  case unloaded
  with i show ?thesis by (auto simp: cm_inv_def engine_empty_def engine_empty6_def)
next
  case quiet
  with i show ?thesis by (auto simp: cm_inv_def cm_quiet_def dest!: le_empty)
next
  case (offered ports k is_v4 al)
  have "port_refs k [] = (\<lambda>_. 0)" by (simp add: port_refs_def fun_eq_iff)
  with offered i show ?thesis by (auto simp: cm_inv_def port_refs_other)
qed

lemma reach_inv_cm: "cm_reach b sc \<Longrightarrow> cm_inv b sc"
proof (induction rule: cm_reach.induct)
  case (start sc)
  then show ?case using sfe_good_init sfe_rules_init sfe_good_init6 sfe_rules_init6 by (simp add: cm_inv_def cm_good_def)
next
  case (next_event sc sc')
  then show ?case using cm_change_inv cm_step_change by blast
qed

text \<open>
  C24: In every state that loading, unloading, packets, conntrack and device events, timer runs and
  changes of conntrack lead to, in any order: both engines are well formed; the manager is registered
  everywhere or nowhere, and while it is not, the engines hold no rule; no reference on a route,
  neighbour or conntrack entry is kept, and none on a device either if no device is a bridge port.
\<close>

theorem manager_invariant:
  assumes "cm_reach bridges sc"
  shows "cm_inv bridges sc"
  by (rule reach_inv_cm [OF assms])

lemma loaded_reachable: "\<exists>sc. cm_reach False sc \<and> sc_recv_hook sc"
proof -
  have u: "\<not> sc_recv_hook unloaded_sc" "sc_notifiers unloaded_sc = {}" by (simp_all add: unloaded_sc_def example_sc_def)
  obtain sc' where s: "sfe_cm_init 77 True 0 0 0 unloaded_sc = Some (0, sc')" "sc_recv_hook sc'"
    using init_spec [OF u, of 77 True 0 0 0] by auto
  have "cm_reach False unloaded_sc" by (rule cm_reach.start) (simp_all add: unloaded_sc_def example_sc_def)
  from cm_reach.next_event [OF this cm_step.load [OF u(1) s(1)]] s(2) show ?thesis by blast
qed

lemma manager_invariant_witness: "\<exists>sc. cm_reach False sc \<and> sc_recv_hook sc \<and> cm_inv False sc"
  using loaded_reachable manager_invariant by blast

section \<open>The type of a rule\<close>

fun typed_key :: "conn_key \<Rightarrow> bool" where
  "typed_key (protocol, src_ip, src_port, dest_ip, dest_port) \<longleftrightarrow>
     (protocol = ucast IPPROTO_TCP \<or> protocol = ucast IPPROTO_UDP) \<and> \<not> ipv4_is_multicast src_ip \<and> \<not> ipv4_is_multicast dest_ip"

fun typed_key6 :: "conn_key6 \<Rightarrow> bool" where
  "typed_key6 (protocol, src_ip, src_port, dest_ip, dest_port) \<longleftrightarrow>
     (protocol = ucast IPPROTO_TCP \<or> protocol = ucast IPPROTO_UDP)
     \<and> \<not> ipv6_addr_is_multicast src_ip \<and> \<not> ipv6_addr_is_multicast dest_ip"

definition cm_typed :: "sfe_cm \<Rightarrow> bool" where
  "cm_typed sc \<longleftrightarrow> dom (sfe_rules (sc_v4 sc)) \<subseteq> {key. typed_key key} \<and> dom (sfe_rules6 (sc_v6 sc)) \<subseteq> {key. typed_key6 key}"

lemma eligible_typed:
  assumes "eligible k is_v4 skb ct dir" and "made_from is_v4 sic ct"
  shows "if is_v4 then typed_key (sic_key sic) else typed_key6 (sic_key6 sic)"
  using assms
  by (cases is_v4) (auto simp: eligible_def proto_ok_def made_from_def tuple_key_def tuple_key6_def multicast_def)

lemma created_typed:
  assumes "cm_typed sc" and "created k al is_v4 sic sc sc'" and "if is_v4 then typed_key (sic_key sic) else typed_key6 (sic_key6 sic)"
  shows "cm_typed sc'"
  using assms
  by (cases is_v4) (auto simp: cm_typed_def created_def create_request_def create_request6_def split: if_splits)

lemma cm_change_typed:
  assumes "cm_change b sc sc'" and i: "cm_inv b sc" and t: "cm_typed sc"
  shows "cm_typed sc'"
  using assms(1)
proof cases
  case (loaded cb)
  have "sfe_rules (sfe_ipv4_register_sync_rule_callback (sc_v4 sc) (Some cb)) = sfe_rules (sc_v4 sc)"
    "sfe_rules6 (sfe_ipv6_register_sync_rule_callback (sc_v6 sc) (Some cb)) = sfe_rules6 (sc_v6 sc)"
    using v4.run_law [of "sc_v4 sc" "Register (Some cb)"] v6.run_law [of "sc_v6 sc" "Register6 (Some cb)"] i
    by (simp_all add: cm_inv_def cm_good_def)
  with loaded t show ?thesis by (simp add: cm_typed_def)
next
  case unloaded
  then show ?thesis by (simp add: cm_typed_def engine_empty_def engine_empty6_def)
next
  case quiet
  with t show ?thesis unfolding cm_typed_def cm_quiet_def by (meson map_le_implies_dom_le subset_trans)
next
  case (offered ports k is_v4 al)
  from offered(8) show ?thesis
  proof (elim disjE exE conjE)
    fix ct skb dir sic
    assume "eligible k is_v4 skb ct dir" "made_from is_v4 sic ct" "created k al is_v4 sic sc sc'"
    then show ?thesis using created_typed [OF t] eligible_typed by blast
  qed (use t in \<open>simp add: cm_typed_def\<close>)
qed



end
