(* ===== verification/SFE_FC.thy ===== *)
theory SFE_FC
  imports SFE_CM
begin

text \<open>
  The fast classifier (\<open>fast-classifier.c\<close>), the other connection manager of the engines: it keeps a
  hash table of the flows it has seen, offers a flow to its engine once it has seen it often enough or
  user space asked for it, and tells user space by netlink messages. Linux 4.0 or later,
  \<open>CONFIG_XFRM\<close> set. The file undefines \<open>CONFIG_NF_CONNTRACK_EVENTS\<close>: its conntrack handler is
  modelled, but never registered.
\<close>

section \<open>State\<close>

datatype fast_classifier_exception =
    FC_PACKET_BROADCAST
  | FC_PACKET_MULTICAST
  | FC_NO_IIF
  | FC_NO_CT
  | FC_CT_NO_TRACK
  | FC_CT_NO_CONFIRM
  | FC_CT_IS_ALG
  | FC_IS_IPV4_MCAST
  | FC_IS_IPV6_MCAST
  | FC_TCP_NOT_ASSURED
  | FC_TCP_NOT_ESTABLISHED
  | FC_UNKNOW_PROTOCOL
  | FC_NO_SRC_DEV
  | FC_NO_SRC_XLATE_DEV
  | FC_NO_DEST_DEV
  | FC_NO_DEST_XLATE_DEV
  | FC_NO_BRIDGE
  | FC_LOCAL_OUT
  | FC_WAIT_FOR_ACCELERATION
  | FC_UPDATE_PROTOCOL_FAIL
  | FC_CT_DESTROY_MISS

definition fast_classifier_exception_events_string :: "(fast_classifier_exception \<times> string) list" where
  "fast_classifier_exception_events_string =
     [(FC_PACKET_BROADCAST, ''PACKET_BROADCAST''), (FC_PACKET_MULTICAST, ''PACKET_MULTICAST''),
      (FC_NO_IIF, ''NO_IIF''), (FC_NO_CT, ''NO_CT''), (FC_CT_NO_TRACK, ''CT_NO_TRACK''),
      (FC_CT_NO_CONFIRM, ''CT_NO_CONFIRM''), (FC_CT_IS_ALG, ''CT_IS_ALG''),
      (FC_IS_IPV4_MCAST, ''IS_IPV4_MCAST''), (FC_IS_IPV6_MCAST, ''IS_IPV6_MCAST''),
      (FC_TCP_NOT_ASSURED, ''TCP_NOT_ASSURED''), (FC_TCP_NOT_ESTABLISHED, ''TCP_NOT_ESTABLISHED''),
      (FC_UNKNOW_PROTOCOL, ''UNKNOW_PROTOCOL''), (FC_NO_SRC_DEV, ''NO_SRC_DEV''),
      (FC_NO_SRC_XLATE_DEV, ''NO_SRC_XLATE_DEV''), (FC_NO_DEST_DEV, ''NO_DEST_DEV''),
      (FC_NO_DEST_XLATE_DEV, ''NO_DEST_XLATE_DEV''), (FC_NO_BRIDGE, ''NO_BRIDGE''),
      (FC_LOCAL_OUT, ''LOCAL_OUT''), (FC_WAIT_FOR_ACCELERATION, ''WAIT_FOR_ACCELERATION''),
      (FC_UPDATE_PROTOCOL_FAIL, ''UPDATE_PROTOCOL_FAIL''), (FC_CT_DESTROY_MISS, ''CT_DESTROY_MISS'')]"

text \<open>A flow of the table; \<open>fcc_sic\<close> is the message \<open>sic\<close> points to, \<open>fcc_hits\<close> an \<open>int\<close>.\<close>

record sfe_connection =
  fcc_sic :: sfe_connection_create
  fcc_ct :: nat
  fcc_hits :: u32
  fcc_offload_permit :: bool
  fcc_offloaded :: bool
  fcc_is_v4 :: bool
  fcc_smac :: mac
  fcc_dmac :: mac

text \<open>The netlink message; user space chooses the bits of the ones it sends.\<close>

definition AF_INET_NUM :: u16 where "AF_INET_NUM = 2"
definition AF_INET6_NUM :: u16 where "AF_INET6_NUM = 10"

record fast_classifier_tuple =
  ft_ethertype :: u16
  ft_proto :: u8
  ft_src_saddr :: sfe_ip_addr
  ft_dst_saddr :: sfe_ip_addr
  ft_sport :: be16
  ft_dport :: be16
  ft_smac :: mac
  ft_dmac :: mac

datatype fc_msg = FAST_CLASSIFIER_C_OFFLOADED | FAST_CLASSIFIER_C_DONE

datatype fc_registration =
    Fc_kobject | Fc_offload_at_pkts | Fc_debug_info | Fc_skip_to_bridge_ingress | Fc_exceptions
  | Fc_dev_notifier | Fc_inet_notifier | Fc_inet6_notifier | Fc_nf_hooks | Fc_genl

text \<open>
  The module structure and the static variables, with the engines, conntrack and references as in the
  other manager. \<open>fc_conn_ht\<close> is the list of each bucket, \<open>fc_conns\<close> the memory of the flows,
  \<open>fc_live\<close> what is allocated, \<open>fc_sent\<close> the messages multicast so far.
\<close>

record fast_classifier =
  fc_exceptions :: "fast_classifier_exception \<Rightarrow> u32"
  fc_v4 :: sfe_ipv4
  fc_v6 :: sfe_ipv6
  fc_ct :: "nat \<Rightarrow> nf_conn"
  fc_refs :: "kobj \<Rightarrow> int"
  fc_recv_hook :: bool
  fc_registered :: "fc_registration set"
  fc_conn_ht :: "nat \<Rightarrow> ptr list"
  fc_conns :: "ptr \<Rightarrow> sfe_connection"
  fc_live :: "ptr set"
  sfe_connections_size :: u32
  offload_msgs :: u32
  offload_no_match_msgs :: u32
  offloaded_msgs :: u32
  done_msgs :: u32
  offloaded_fail_msgs :: u32
  done_fail_msgs :: u32
  offload_at_pkts :: u32
  skip_to_bridge_ingress :: bool
  fc_sent :: "(fc_msg \<times> fast_classifier_tuple) list"

text \<open>
  What the kernel answers beside \<open>cm_kernel\<close>: the bucket of a key (\<open>hash_min\<close>), and the results of
  building and sending a netlink message.
\<close>

record fc_kernel =
  fk :: cm_kernel
  fk_bucket :: "u32 \<Rightarrow> nat"
  fk_genlmsg_new :: bool
  fk_genlmsg_put :: bool
  fk_nla_put :: int
  fk_genlmsg_multicast :: int

definition fget :: "kobj \<Rightarrow> fast_classifier \<Rightarrow> fast_classifier" where
  "fget ob sc = sc\<lparr>fc_refs := (fc_refs sc)(ob := fc_refs sc ob + 1)\<rparr>"

definition fput :: "kobj \<Rightarrow> fast_classifier \<Rightarrow> fast_classifier" where
  "fput ob sc = sc\<lparr>fc_refs := (fc_refs sc)(ob := fc_refs sc ob - 1)\<rparr>"

definition fast_classifier_incr_exceptions :: "fast_classifier_exception \<Rightarrow> fast_classifier \<Rightarrow> fast_classifier" where
  "fast_classifier_incr_exceptions except sc =
     sc\<lparr>fc_exceptions := (fc_exceptions sc)(except := fc_exceptions sc except + 1)\<rparr>"

definition upd_conn :: "ptr \<Rightarrow> (sfe_connection \<Rightarrow> sfe_connection) \<Rightarrow> fast_classifier \<Rightarrow> fast_classifier" where
  "upd_conn p f sc = sc\<lparr>fc_conns := (fc_conns sc)(p := f (fc_conns sc p))\<rparr>"

section \<open>The sync callback\<close>

definition fast_classifier_sync_conn :: "sfe_connection_sync \<Rightarrow> nf_conn \<Rightarrow> nf_conn" where
  "fast_classifier_sync_conn sis ct =
     (let ct = (if \<not> ct_fixed_timeout ct
                then ct\<lparr>ct_timeout_expires := ct_timeout_expires ct + sis_delta_jiffies sis\<rparr> else ct);
          ct = (case ct_acct ct of None \<Rightarrow> ct | Some acct \<Rightarrow> ct\<lparr>ct_acct := Some (add_acct sis acct)\<rparr>)
      in if sis_protocol sis = ucast IPPROTO_TCP
         then ct\<lparr>ct_tcp_seen := (ct_tcp_seen ct)
                (IP_CT_DIR_ORIGINAL := seen_max (sis_src_td_max_window sis) (sis_src_td_end sis)
                    (sis_src_td_max_end sis) (ct_tcp_seen ct IP_CT_DIR_ORIGINAL),
                 IP_CT_DIR_REPLY := seen_max (sis_dest_td_max_window sis) (sis_dest_td_end sis)
                    (sis_dest_td_max_end sis) (ct_tcp_seen ct IP_CT_DIR_REPLY))\<rparr>
         else ct)"

definition fast_classifier_sync_rule :: "cm_kernel \<Rightarrow> sfe_connection_sync \<Rightarrow> fast_classifier \<Rightarrow> fast_classifier" where
  "fast_classifier_sync_rule k sis sc =
     (case ck_conntrack_find k (sync_tuple sis) of
        None \<Rightarrow> sc
      | Some ct \<Rightarrow>
          let sc = fget (Kct ct) sc;
              sc = sc\<lparr>fc_ct := (fc_ct sc)(ct := fast_classifier_sync_conn sis (fc_ct sc ct))\<rparr>
          in fput (Kct ct) sc)"

definition fc_deliver :: "cm_kernel \<Rightarrow> syncs \<Rightarrow> fast_classifier \<Rightarrow> fast_classifier" where
  "fc_deliver k out sc = fold (\<lambda>(cb, sis). fast_classifier_sync_rule k sis) out sc"

section \<open>The receive hook\<close>

text \<open>None is the use of a NULL device: a bridge port without a bridge.\<close>

definition fast_classifier_recv ::
  "kernel \<Rightarrow> (dev_ptr \<Rightarrow> bool option) \<Rightarrow> (dev_ptr \<Rightarrow> bool option) \<Rightarrow> cm_kernel \<Rightarrow> be16 \<Rightarrow> sk_buff \<Rightarrow>
   fast_classifier \<Rightarrow> (cm_recv_result \<times> fast_classifier) option" where
  "fast_classifier_recv k ip_addrs ip6_addrs ck protocol skb sc =
     (let bridged = skip_to_bridge_ingress sc \<and> nd_bridge_port (ck_devs ck (skb_dev skb));
          master_dev = (if bridged then ck_master ck (skb_dev skb) else None);
          sc = (case master_dev of None \<Rightarrow> sc | Some br \<Rightarrow> fget (Kdev br) sc);
          dev_opt = (if bridged then master_dev else Some (skb_dev skb));
          rx_exit = (\<lambda>(res, sc). (res, case master_dev of None \<Rightarrow> sc | Some br \<Rightarrow> fput (Kdev br) sc));
          ignore = rx_exit (\<lparr>cr_ret = 0, cr_skb = skb, cr_xmit = []\<rparr>, sc)
      in if ntohs ETH_P_IP = protocol
      then do {
        dev \<leftarrow> dev_opt;
        case ip_addrs dev of
          None \<Rightarrow> Some ignore
        | Some has_addr \<Rightarrow>
            if \<not> has_addr then Some ignore
            else do {
              res \<leftarrow> sfe_ipv4_recv k dev (fc_v4 sc) skb;
              Some (rx_exit (\<lparr>cr_ret = r_ret res, cr_skb = r_skb res, cr_xmit = r_xmit res\<rparr>,
                             fc_deliver ck (r_sync res) (sc\<lparr>fc_v4 := r_si res\<rparr>))) } }
      else if ntohs ETH_P_IPV6 = protocol
      then do {
        dev \<leftarrow> dev_opt;
        case ip6_addrs dev of
          None \<Rightarrow> Some ignore
        | Some has_addr \<Rightarrow>
            if \<not> has_addr then Some ignore
            else do {
              res \<leftarrow> sfe_ipv6_recv k dev (fc_v6 sc) skb;
              Some (rx_exit (\<lparr>cr_ret = r_ret6 res, cr_skb = r_skb6 res, cr_xmit = r_xmit6 res\<rparr>,
                             fc_deliver ck (r_sync6 res) (sc\<lparr>fc_v6 := r_si6 res\<rparr>))) } }
      else Some ignore)"

section \<open>Neighbours\<close>

definition fast_classifier_find_dev_and_mac_addr ::
  "cm_kernel \<Rightarrow> sfe_ip_addr \<Rightarrow> bool \<Rightarrow> mac \<Rightarrow> fast_classifier \<Rightarrow> (dev_ptr \<times> mac) option \<times> fast_classifier" where
  "fast_classifier_find_dev_and_mac_addr k addr is_v4 mac_addr sc =
     (case (if is_v4 then ck_route4 k (sa_ip addr) else ck_route6 k addr) of
        None \<Rightarrow> (None, sc)
      | Some dst \<Rightarrow>
          let sc = fget (Kdst dst) sc
          in (case ck_neigh k dst addr of
                None \<Rightarrow> (None, fput (Kdst dst) sc)
              | Some neigh \<Rightarrow>
                  let sc = fget (Kneigh neigh) sc; ne = ck_neighbour k neigh
                  in if \<not> ne_valid ne then (None, fput (Kdst dst) (fput (Kneigh neigh) sc))
                     else (case ne_dev ne of
                             None \<Rightarrow> (None, fput (Kdst dst) (fput (Kneigh neigh) sc))
                           | Some mac_dev \<Rightarrow>
                               let mac = (\<lambda>i. if i < ck_addr_len k mac_dev then ne_ha ne i else mac_addr i);
                                   sc = fget (Kdev mac_dev) sc
                               in (Some (mac_dev, mac), fput (Kdst dst) (fput (Kneigh neigh) sc)))))"

section \<open>The table of flows\<close>

definition fc_conn_hash :: "sfe_ip_addr \<Rightarrow> sfe_ip_addr \<Rightarrow> be16 \<Rightarrow> be16 \<Rightarrow> bool \<Rightarrow> u32" where
  "fc_conn_hash saddr daddr sport dport is_v4 =
     (let h0 = sa_ip saddr XOR sa_ip daddr;
          hash = (if is_v4 then h0
                  else h0 XOR (ip6_1 saddr XOR ip6_1 daddr) XOR (ip6_2 saddr XOR ip6_2 daddr)
                       XOR (ip6_3 saddr XOR ip6_3 daddr))
      in hash XOR (ucast sport OR push_bit 16 (ucast dport)))"

text \<open>The walk over the bucket of \<open>key\<close>, in the order of the list.\<close>

definition fc_walk :: "fc_kernel \<Rightarrow> fast_classifier \<Rightarrow> u32 \<Rightarrow> (sfe_connection \<Rightarrow> bool) \<Rightarrow> ptr option" where
  "fc_walk k sc key test = find (\<lambda>p. test (fc_conns sc p)) (fc_conn_ht sc (fk_bucket k key))"

definition fast_classifier_find_conn ::
  "fc_kernel \<Rightarrow> fast_classifier \<Rightarrow> sfe_ip_addr \<Rightarrow> sfe_ip_addr \<Rightarrow> be16 \<Rightarrow> be16 \<Rightarrow> u8 \<Rightarrow> bool \<Rightarrow> ptr option" where
  "fast_classifier_find_conn k sc saddr daddr sport dport proto is_v4 =
     fc_walk k sc (fc_conn_hash saddr daddr sport dport is_v4)
       (\<lambda>conn. fcc_is_v4 conn = is_v4
          \<and> sic_protocol (fcc_sic conn) = ucast proto
          \<and> sic_src_port (fcc_sic conn) = sport
          \<and> sic_dest_port (fcc_sic conn) = dport
          \<and> sfe_addr_equal (sic_src_ip (fcc_sic conn)) saddr is_v4
          \<and> sfe_addr_equal (sic_dest_ip (fcc_sic conn)) daddr is_v4)"

text \<open>Flows are compared with their translated destination, first in one direction, then in the other.\<close>

definition sb_test ::
  "sfe_ip_addr \<Rightarrow> sfe_ip_addr \<Rightarrow> be16 \<Rightarrow> be16 \<Rightarrow> u8 \<Rightarrow> bool \<Rightarrow> sfe_connection \<Rightarrow> bool" where
  "sb_test saddr daddr sport dport proto is_v4 conn \<longleftrightarrow> fcc_is_v4 conn = is_v4
     \<and> sic_protocol (fcc_sic conn) = ucast proto
     \<and> sic_src_port (fcc_sic conn) = sport
     \<and> sic_dest_port_xlate (fcc_sic conn) = dport
     \<and> sfe_addr_equal (sic_src_ip (fcc_sic conn)) saddr is_v4
     \<and> sfe_addr_equal (sic_dest_ip_xlate (fcc_sic conn)) daddr is_v4"

definition fast_classifier_sb_find_conn ::
  "fc_kernel \<Rightarrow> fast_classifier \<Rightarrow> sfe_ip_addr \<Rightarrow> sfe_ip_addr \<Rightarrow> be16 \<Rightarrow> be16 \<Rightarrow> u8 \<Rightarrow> bool \<Rightarrow> ptr option" where
  "fast_classifier_sb_find_conn k sc saddr daddr sport dport proto is_v4 =
     (case fc_walk k sc (fc_conn_hash saddr daddr sport dport is_v4) (sb_test saddr daddr sport dport proto is_v4) of
        Some conn \<Rightarrow> Some conn
      | None \<Rightarrow> fc_walk k sc (fc_conn_hash daddr saddr dport sport is_v4) (sb_test daddr saddr dport sport proto is_v4))"

text \<open>False when the flow is known already.\<close>

definition fast_classifier_add_conn :: "fc_kernel \<Rightarrow> ptr \<Rightarrow> fast_classifier \<Rightarrow> bool \<times> fast_classifier" where
  "fast_classifier_add_conn k conn sc =
     (let sic = fcc_sic (fc_conns sc conn); is_v4 = fcc_is_v4 (fc_conns sc conn)
      in if fast_classifier_find_conn k sc (sic_src_ip sic) (sic_dest_ip sic) (sic_src_port sic) (sic_dest_port sic)
              (ucast (sic_protocol sic)) is_v4 \<noteq> None
         then (False, sc)
         else let key = fc_conn_hash (sic_src_ip sic) (sic_dest_ip sic) (sic_src_port sic) (sic_dest_port sic) is_v4;
                  b = fk_bucket k key
         in (True, sc\<lparr>fc_conn_ht := (fc_conn_ht sc)(b := conn # fc_conn_ht sc b),
                      sfe_connections_size := sfe_connections_size sc + 1\<rparr>))"

end
