(* ===== verification/SFE_FC_Control.thy ===== *)
theory SFE_FC_Control
  imports SFE_FC
begin

text \<open>
  The fast classifier, continued: offloading and its messages, the post routing hook, events, the
  files in sysfs, loading and unloading.
\<close>

section \<open>Offloading\<close>

text \<open>The message with fresh protocol state, or why the flow must not be offloaded.\<close>

definition fast_classifier_update_protocol ::
  "cm_kernel \<Rightarrow> nf_conn \<Rightarrow> sfe_connection_create \<Rightarrow> fast_classifier_exception option \<times> sfe_connection_create" where
  "fast_classifier_update_protocol k ct p_sic =
     (if sic_protocol p_sic = ucast IPPROTO_TCP
      then let orig = ct_tcp_seen ct IP_CT_DIR_ORIGINAL; reply = ct_tcp_seen ct IP_CT_DIR_REPLY;
               p_sic = p_sic\<lparr>sic_src_td_window_scale := td_scale orig, sic_src_td_max_window := td_maxwin orig,
                             sic_src_td_end := td_end orig, sic_src_td_max_end := td_maxend orig,
                             sic_dest_td_window_scale := td_scale reply, sic_dest_td_max_window := td_maxwin reply,
                             sic_dest_td_end := td_end reply, sic_dest_td_max_end := td_maxend reply\<rparr>;
               p_sic = (if ck_no_window_check k \<or> td_be_liberal orig \<or> td_be_liberal reply
                        then p_sic\<lparr>sic_flags := sic_flags p_sic OR SFE_CREATE_FLAG_NO_SEQ_CHECK\<rparr> else p_sic)
           in (if ct_tcp_state ct \<noteq> TCP_CONNTRACK_ESTABLISHED then Some FC_TCP_NOT_ESTABLISHED else None, p_sic)
      else if sic_protocol p_sic = ucast IPPROTO_UDP then (None, p_sic)
      else (Some FC_UNKNOW_PROTOCOL, p_sic))"

definition count_sent :: "fc_msg \<Rightarrow> bool \<Rightarrow> fast_classifier \<Rightarrow> fast_classifier" where
  "count_sent msg ok sc = (case msg of
     FAST_CLASSIFIER_C_OFFLOADED \<Rightarrow>
       if ok then sc\<lparr>offloaded_msgs := offloaded_msgs sc + 1\<rparr> else sc\<lparr>offloaded_fail_msgs := offloaded_fail_msgs sc + 1\<rparr>
   | FAST_CLASSIFIER_C_DONE \<Rightarrow>
       if ok then sc\<lparr>done_msgs := done_msgs sc + 1\<rparr> else sc\<lparr>done_fail_msgs := done_fail_msgs sc + 1\<rparr>)"

definition fast_classifier_send_genl_msg ::
  "fc_kernel \<Rightarrow> fc_msg \<Rightarrow> fast_classifier_tuple \<Rightarrow> fast_classifier \<Rightarrow> fast_classifier" where
  "fast_classifier_send_genl_msg k msg fc_msg sc =
     (if \<not> fk_genlmsg_new k then sc
      else if \<not> fk_genlmsg_put k then sc
      else if fk_nla_put k \<noteq> 0 then sc
      else let ok = fk_genlmsg_multicast k = 0
           in count_sent msg ok (if ok then sc\<lparr>fc_sent := fc_sent sc @ [(msg, fc_msg)]\<rparr> else sc))"

text \<open>
  The tuple sent for a flow. \<open>stack\<close> is what the stack holds where the message is built: of an IPv4
  message only the first word of each address is written.
\<close>

definition offload_tuple ::
  "fast_classifier_tuple \<Rightarrow> bool \<Rightarrow> sfe_connection_create \<Rightarrow> sfe_connection \<Rightarrow> fast_classifier_tuple" where
  "offload_tuple stack is_v4 sic conn =
     stack\<lparr>ft_ethertype := (if is_v4 then AF_INET_NUM else AF_INET6_NUM),
           ft_src_saddr := (if is_v4 then set_ip (sa_ip (sic_src_ip sic)) (ft_src_saddr stack) else sic_src_ip sic),
           ft_dst_saddr := (if is_v4 then set_ip (sa_ip (sic_dest_ip_xlate sic)) (ft_dst_saddr stack) else sic_dest_ip_xlate sic),
           ft_proto := ucast (sic_protocol sic),
           ft_sport := sic_src_port sic,
           ft_dport := sic_dest_port_xlate sic,
           ft_smac := fcc_smac conn,
           ft_dmac := fcc_dmac conn\<rparr>"

text \<open>None is the use of a NULL attribute: a request without the tuple.\<close>

definition fast_classifier_offload_genl_msg ::
  "fc_kernel \<Rightarrow> fast_classifier_tuple option \<Rightarrow> fast_classifier \<Rightarrow> fast_classifier option" where
  "fast_classifier_offload_genl_msg k na sc =
     (case na of
        None \<Rightarrow> None
      | Some fc_msg \<Rightarrow>
          Some (case fast_classifier_sb_find_conn k sc (ft_src_saddr fc_msg) (ft_dst_saddr fc_msg) (ft_sport fc_msg)
                       (ft_dport fc_msg) (ft_proto fc_msg) (ft_ethertype fc_msg = AF_INET_NUM) of
                  None \<Rightarrow> sc\<lparr>offload_no_match_msgs := offload_no_match_msgs sc + 1\<rparr>
                | Some p \<Rightarrow> (upd_conn p (\<lambda>conn. conn\<lparr>fcc_offload_permit := True\<rparr>) sc)\<lparr>offload_msgs := offload_msgs sc + 1\<rparr>))"

section \<open>The post routing hook\<close>

text \<open>\<open>memset(&sic, 0, sizeof(sic))\<close>.\<close>

definition zero_addr :: sfe_ip_addr where
  "zero_addr = \<lparr>ip6_0 = 0, ip6_1 = 0, ip6_2 = 0, ip6_3 = 0\<rparr>"

definition zero_sic :: sfe_connection_create where
  "zero_sic = \<lparr>sic_protocol = 0, sic_src_dev = 0, sic_dest_dev = 0, sic_flags = 0, sic_src_mtu = 0,
     sic_dest_mtu = 0, sic_src_ip = zero_addr, sic_src_ip_xlate = zero_addr, sic_dest_ip = zero_addr,
     sic_dest_ip_xlate = zero_addr, sic_src_port = 0, sic_src_port_xlate = 0, sic_dest_port = 0,
     sic_dest_port_xlate = 0, sic_src_mac = (\<lambda>_. 0), sic_src_mac_xlate = (\<lambda>_. 0), sic_dest_mac = (\<lambda>_. 0),
     sic_dest_mac_xlate = (\<lambda>_. 0), sic_src_td_window_scale = 0, sic_src_td_max_window = 0,
     sic_src_td_end = 0, sic_src_td_max_end = 0, sic_dest_td_window_scale = 0, sic_dest_td_max_window = 0,
     sic_dest_td_end = 0, sic_dest_td_max_end = 0, sic_mark = 0, sic_original_accel = 0, sic_reply_accel = 0,
     sic_src_priority = 0, sic_dest_priority = 0, sic_src_dscp = 0, sic_dest_dscp = 0\<rparr>"

record fc_skb = cm_skb +
  fs_mark :: u32

type_synonym 'a fc_stage = "fast_classifier_exception + 'a"

definition fc_admit :: "cm_kernel \<Rightarrow> fast_classifier \<Rightarrow> fc_skb \<Rightarrow> nat fc_stage" where
  "fc_admit k sc skb =
     (if cs_pkt_type skb = PACKET_BROADCAST then Inl FC_PACKET_BROADCAST
      else if cs_pkt_type skb = PACKET_MULTICAST then Inl FC_PACKET_MULTICAST
      else if ck_dev_by_index k (cs_iif skb) = None then Inl FC_NO_IIF
      else (case cs_ct skb of
              None \<Rightarrow> Inl FC_NO_CT
            | Some (ctp, dir) \<Rightarrow>
                let ct = fc_ct sc ctp
                in if ct_untracked ct then Inl FC_CT_NO_TRACK
                   else if \<not> ct_confirmed ct then Inl FC_CT_NO_CONFIRM
                   else if ct_helper ct then Inl FC_CT_IS_ALG
                   else Inr ctp))"

definition fc_addresses :: "bool \<Rightarrow> fc_skb \<Rightarrow> nf_conn \<Rightarrow> sfe_connection_create fc_stage" where
  "fc_addresses is_v4 skb ct =
     (let orig = ct_orig_tuple ct; reply = ct_reply_tuple ct;
          sic = zero_sic\<lparr>sic_protocol := ucast (tp_protonum orig), sic_flags := 0\<rparr>;
          dscp = (ucast (drop_bit XT_DSCP_SHIFT (cs_dsfield skb)) :: u32);
          remark = (\<lambda>sic. if dscp \<noteq> 0
                       then sic\<lparr>sic_dest_dscp := dscp, sic_src_dscp := dscp,
                                sic_flags := sic_flags sic OR SFE_CREATE_FLAG_REMARK_DSCP\<rparr>
                       else sic)
      in if is_v4
      then let sic = sic\<lparr>sic_src_ip := set_ip (sa_ip (tp_src orig)) (sic_src_ip sic),
                         sic_dest_ip := set_ip (sa_ip (tp_dst orig)) (sic_dest_ip sic)\<rparr>
           in if ipv4_is_multicast (sa_ip (sic_src_ip sic)) \<or> ipv4_is_multicast (sa_ip (sic_dest_ip sic))
              then Inl FC_IS_IPV4_MCAST
              else Inr (remark (sic\<lparr>sic_src_ip_xlate := set_ip (sa_ip (tp_dst reply)) (sic_src_ip_xlate sic),
                                    sic_dest_ip_xlate := set_ip (sa_ip (tp_src reply)) (sic_dest_ip_xlate sic)\<rparr>))
      else let sic = sic\<lparr>sic_src_ip := tp_src orig, sic_dest_ip := tp_dst orig\<rparr>
           in if ipv6_addr_is_multicast (sic_src_ip sic) \<or> ipv6_addr_is_multicast (sic_dest_ip sic)
              then Inl FC_IS_IPV6_MCAST
              else Inr (remark (sic\<lparr>sic_src_ip_xlate := tp_dst reply, sic_dest_ip_xlate := tp_src reply\<rparr>)))"

definition fc_protocol :: "nf_conn \<Rightarrow> sfe_connection_create \<Rightarrow> sfe_connection_create fc_stage" where
  "fc_protocol ct sic =
     (if sic_protocol sic = ucast IPPROTO_TCP
      then let sic = post_routing_ports ct sic
           in if \<not> ct_assured ct then Inl FC_TCP_NOT_ASSURED else Inr sic
      else if sic_protocol sic = ucast IPPROTO_UDP then Inr (post_routing_ports ct sic)
      else Inl FC_UNKNOW_PROTOCOL)"

definition fc_accel :: "fc_skb \<Rightarrow> sfe_connection_create \<Rightarrow> sfe_connection_create" where
  "fc_accel skb sic =
     (let sic = sic\<lparr>sic_original_accel := 1, sic_reply_accel := 1\<rparr>
      in if cs_priority skb \<noteq> 0
         then sic\<lparr>sic_dest_priority := cs_priority skb, sic_src_priority := cs_priority skb,
                  sic_flags := sic_flags sic OR SFE_CREATE_FLAG_REMARK_PRIORITY\<rparr>
         else sic)"

text \<open>The conntrack entry and all of the message except devices, MAC addresses and mark.\<close>

definition fc_message :: "cm_kernel \<Rightarrow> bool \<Rightarrow> fc_skb \<Rightarrow> fast_classifier \<Rightarrow> (nat \<times> sfe_connection_create) fc_stage" where
  "fc_message k is_v4 skb sc =
     (case fc_admit k sc skb of
        Inl e \<Rightarrow> Inl e
      | Inr ctp \<Rightarrow>
         (case fc_addresses is_v4 skb (fc_ct sc ctp) of
            Inl e \<Rightarrow> Inl e
          | Inr sic \<Rightarrow>
             (case fc_protocol (fc_ct sc ctp) sic of
                Inl e \<Rightarrow> Inl e
              | Inr sic \<Rightarrow> Inr (ctp, fc_accel skb sic))))"

text \<open>\<open>is_v4 ? sfe_ipv4_create_rule(sic) : sfe_ipv6_create_rule(sic)\<close>, and the same for updates.\<close>

definition fc_create_rule :: "cm_kernel \<Rightarrow> allocs \<Rightarrow> bool \<Rightarrow> sfe_connection_create \<Rightarrow> fast_classifier \<Rightarrow> (int \<times> fast_classifier) option" where
  "fc_create_rule k al is_v4 sic sc =
     (if is_v4
      then do {
        (ret, si) \<leftarrow> sfe_ipv4_create_rule (ck_devs k) (ck_jiffies k) (fst al) (fst (snd al)) (snd (snd al)) (fc_v4 sc) sic;
        Some (ret, sc\<lparr>fc_v4 := si\<rparr>) }
      else do {
        (ret, si) \<leftarrow> sfe_ipv6_create_rule (ck_devs k) (ck_jiffies k) (fst al) (fst (snd al)) (snd (snd al)) (fc_v6 sc) sic;
        Some (ret, sc\<lparr>fc_v6 := si\<rparr>) })"

definition fc_update_rule :: "bool \<Rightarrow> sfe_connection_create \<Rightarrow> fast_classifier \<Rightarrow> fast_classifier option" where
  "fc_update_rule is_v4 sic sc =
     (if is_v4 then do { si \<leftarrow> sfe_ipv4_update_rule (fc_v4 sc) sic; Some (sc\<lparr>fc_v4 := si\<rparr>) }
      else do { si \<leftarrow> sfe_ipv6_update_rule (fc_v6 sc) sic; Some (sc\<lparr>fc_v6 := si\<rparr>) })"

text \<open>
  A packet of a flow that is in the table, at \<open>p\<close>: count it, and when the count or user space says
  so, offload the flow.
\<close>

definition fc_known ::
  "fc_kernel \<Rightarrow> allocs \<Rightarrow> fast_classifier_tuple \<Rightarrow> bool \<Rightarrow> sfe_connection_create \<Rightarrow> ptr \<Rightarrow> fast_classifier \<Rightarrow> fast_classifier option" where
  "fc_known k al stack is_v4 sic p sc =
     (let sc = upd_conn p (\<lambda>conn. conn\<lparr>fcc_hits := fcc_hits conn + 1\<rparr>) sc;
          conn = fc_conns sc p
      in if \<not> fcc_offloaded conn \<and> (fcc_offload_permit conn \<or> s32 (offload_at_pkts sc) \<le> s32 (fcc_hits conn))
      then let (e, p_sic) = fast_classifier_update_protocol (fk k) (fc_ct sc (fcc_ct conn)) (fcc_sic conn);
               sc = upd_conn p (\<lambda>conn. conn\<lparr>fcc_sic := p_sic\<rparr>) sc
           in (case e of
                 Some e \<Rightarrow> Some (fast_classifier_incr_exceptions FC_UPDATE_PROTOCOL_FAIL (fast_classifier_incr_exceptions e sc))
               | None \<Rightarrow> do {
                   (ret, sc) \<leftarrow> fc_create_rule (fk k) al is_v4 p_sic sc;
                   if ret = 0 \<or> ret = - EADDRINUSE
                   then Some (upd_conn p (\<lambda>conn. conn\<lparr>fcc_offloaded := True\<rparr>)
                          (fast_classifier_send_genl_msg k FAST_CLASSIFIER_C_OFFLOADED (offload_tuple stack is_v4 sic conn) sc))
                   else Some sc })
      else do {
        sc \<leftarrow> (if fcc_offloaded conn then fc_update_rule is_v4 (fcc_sic conn) sc else Some sc);
        Some (fast_classifier_incr_exceptions FC_WAIT_FOR_ACCELERATION sc) })"

definition fc_get_master :: "cm_kernel \<Rightarrow> dev_ptr \<Rightarrow> fast_classifier \<Rightarrow> dev_ptr option \<times> fast_classifier" where
  "fc_get_master k dev sc =
     (case ck_master k dev of None \<Rightarrow> (None, sc) | Some br \<Rightarrow> (Some br, fget (Kdev br) sc))"

text \<open>
  The flow of the message is put into the table; the result is False when one of the two calls of
  \<open>kmalloc\<close> failed.
\<close>

definition fc_insert ::
  "fc_kernel \<Rightarrow> ptr option \<times> bool \<Rightarrow> bool \<Rightarrow> nat \<Rightarrow> sfe_connection_create \<Rightarrow> fast_classifier \<Rightarrow> bool \<times> fast_classifier" where
  "fc_insert k mem is_v4 ctp sic sc =
     (case fst mem of
        None \<Rightarrow> (False, sc)
      | Some p \<Rightarrow>
          if \<not> snd mem then (False, sc)
          else let sc = sc\<lparr>fc_live := insert p (fc_live sc),
                           fc_conns := (fc_conns sc)(p := \<lparr>fcc_sic = sic, fcc_ct = ctp, fcc_hits = 0,
                             fcc_offload_permit = False, fcc_offloaded = False, fcc_is_v4 = is_v4,
                             fcc_smac = sic_src_mac sic, fcc_dmac = sic_dest_mac_xlate sic\<rparr>)\<rparr>;
                   (added, sc) = fast_classifier_add_conn k p sc
               in (True, if added then sc else sc\<lparr>fc_live := fc_live sc - {p}\<rparr>))"

text \<open>From the bridge lookups to the end, with \<open>src_dev\<close> and \<open>dest_dev\<close> held.\<close>

definition fc_bridge ::
  "fc_kernel \<Rightarrow> ptr option \<times> bool \<Rightarrow> bool \<Rightarrow> fc_skb \<Rightarrow> nat \<Rightarrow> sfe_connection_create \<Rightarrow> dev_ptr \<Rightarrow> dev_ptr \<Rightarrow>
   fast_classifier \<Rightarrow> fast_classifier" where
  "fc_bridge k mem is_v4 skb ctp sic src_dev dest_dev sc =
     (let devs = ck_devs (fk k);
          done1 = (\<lambda>src_dev sc. fput (Kdev src_dev) sc);
          done2 = (\<lambda>src_dev dest_dev sc. done1 src_dev (fput (Kdev dest_dev) sc));
          done3 = (\<lambda>src_br src_dev dest_dev sc. done2 src_dev dest_dev
                     (case src_br of None \<Rightarrow> sc | Some br \<Rightarrow> fput (Kdev br) sc));
          (src_br, sc) = (if nd_bridge_port (devs src_dev) then fc_get_master (fk k) src_dev sc else (None, sc))
      in if nd_bridge_port (devs src_dev) \<and> src_br = None
      then done2 src_dev dest_dev (fast_classifier_incr_exceptions FC_NO_BRIDGE sc)
      else let src_dev = (case src_br of None \<Rightarrow> src_dev | Some br \<Rightarrow> br);
               (dest_br, sc) = (if nd_bridge_port (devs dest_dev) then fc_get_master (fk k) dest_dev sc else (None, sc))
      in if nd_bridge_port (devs dest_dev) \<and> dest_br = None
      then done3 src_br src_dev dest_dev (fast_classifier_incr_exceptions FC_NO_BRIDGE sc)
      else let dest_dev = (case dest_br of None \<Rightarrow> dest_dev | Some br \<Rightarrow> br);
               sic = sic\<lparr>sic_src_dev := src_dev, sic_dest_dev := dest_dev,
                         sic_src_mtu := nd_mtu (devs src_dev), sic_dest_mtu := nd_mtu (devs dest_dev),
                         sic_mark := fs_mark skb\<rparr>;
               (ok, sc) = fc_insert k mem is_v4 ctp sic sc
      in if \<not> ok then done3 src_br src_dev dest_dev sc
      else done3 src_br src_dev dest_dev (case dest_br of None \<Rightarrow> sc | Some br \<Rightarrow> fput (Kdev br) sc))"

definition fc_new ::
  "fc_kernel \<Rightarrow> ptr option \<times> bool \<Rightarrow> bool \<Rightarrow> fc_skb \<Rightarrow> nat \<Rightarrow> sfe_connection_create \<Rightarrow> fast_classifier \<Rightarrow> fast_classifier" where
  "fc_new k mem is_v4 skb ctp sic sc =
     (let find = fast_classifier_find_dev_and_mac_addr (fk k)
      in case find (sic_src_ip sic) is_v4 (sic_src_mac sic) sc of
        (None, sc) \<Rightarrow> fast_classifier_incr_exceptions FC_NO_SRC_DEV sc
      | (Some (src_dev, mac), sc) \<Rightarrow>
          let sic = sic\<lparr>sic_src_mac := mac\<rparr>
          in (case find (sic_src_ip_xlate sic) is_v4 (sic_src_mac_xlate sic) sc of
            (None, sc) \<Rightarrow> fput (Kdev src_dev) (fast_classifier_incr_exceptions FC_NO_SRC_XLATE_DEV sc)
          | (Some (dev, mac), sc) \<Rightarrow>
              let sic = sic\<lparr>sic_src_mac_xlate := mac\<rparr>; sc = fput (Kdev dev) sc
              in (case find (sic_dest_ip sic) is_v4 (sic_dest_mac sic) sc of
                (None, sc) \<Rightarrow> fput (Kdev src_dev) (fast_classifier_incr_exceptions FC_NO_DEST_DEV sc)
              | (Some (dev, mac), sc) \<Rightarrow>
                  let sic = sic\<lparr>sic_dest_mac := mac\<rparr>; sc = fput (Kdev dev) sc
                  in (case find (sic_dest_ip_xlate sic) is_v4 (sic_dest_mac_xlate sic) sc of
                    (None, sc) \<Rightarrow> fput (Kdev src_dev) (fast_classifier_incr_exceptions FC_NO_DEST_XLATE_DEV sc)
                  | (Some (dest_dev, mac), sc) \<Rightarrow>
                      fc_bridge k mem is_v4 skb ctp (sic\<lparr>sic_dest_mac_xlate := mac\<rparr>) src_dev dest_dev sc))))"

text \<open>
  The hook accepts the packet in every case. \<open>al\<close> is the engine's memory, \<open>mem\<close> that of a new flow.
  The input device is held and released again at once.
\<close>

definition fast_classifier_post_routing ::
  "fc_kernel \<Rightarrow> allocs \<Rightarrow> ptr option \<times> bool \<Rightarrow> fast_classifier_tuple \<Rightarrow> bool \<Rightarrow> fc_skb \<Rightarrow> fast_classifier \<Rightarrow>
   fast_classifier option" where
  "fast_classifier_post_routing k al mem stack is_v4 skb sc =
     (case fc_message (fk k) is_v4 skb sc of
        Inl e \<Rightarrow> Some (fast_classifier_incr_exceptions e sc)
      | Inr (ctp, sic) \<Rightarrow>
          (case fast_classifier_find_conn k sc (sic_src_ip sic) (sic_dest_ip sic) (sic_src_port sic) (sic_dest_port sic)
                  (ucast (sic_protocol sic)) is_v4 of
             Some p \<Rightarrow> fc_known k al stack is_v4 sic p sc
           | None \<Rightarrow> Some (fc_new k mem is_v4 skb ctp sic sc)))"

definition fast_classifier_ipv4_post_routing_hook ::
  "fc_kernel \<Rightarrow> allocs \<Rightarrow> ptr option \<times> bool \<Rightarrow> fast_classifier_tuple \<Rightarrow> fc_skb \<Rightarrow> fast_classifier \<Rightarrow> fast_classifier option" where
  "fast_classifier_ipv4_post_routing_hook k al mem stack skb sc = fast_classifier_post_routing k al mem stack True skb sc"

definition fast_classifier_ipv6_post_routing_hook ::
  "fc_kernel \<Rightarrow> allocs \<Rightarrow> ptr option \<times> bool \<Rightarrow> fast_classifier_tuple \<Rightarrow> fc_skb \<Rightarrow> fast_classifier \<Rightarrow> fast_classifier option" where
  "fast_classifier_ipv6_post_routing_hook k al mem stack skb sc = fast_classifier_post_routing k al mem stack False skb sc"

section \<open>The conntrack handler that is not compiled\<close>

definition fast_classifier_update_mark :: "fc_kernel \<Rightarrow> sfe_connection_mark \<Rightarrow> bool \<Rightarrow> fast_classifier \<Rightarrow> fast_classifier" where
  "fast_classifier_update_mark k mark is_v4 sc =
     (case fast_classifier_find_conn k sc (mk_src_ip mark) (mk_dest_ip mark) (mk_src_port mark) (mk_dest_port mark)
             (ucast (mk_protocol mark)) is_v4 of
        None \<Rightarrow> sc
      | Some p \<Rightarrow> upd_conn p (\<lambda>conn. conn\<lparr>fcc_sic := fcc_sic conn\<lparr>sic_mark := mk_mark mark\<rparr>\<rparr>) sc)"

text \<open>\<open>hash_del\<close>, the count, and the two calls of \<open>kfree\<close>.\<close>

definition fc_remove :: "ptr \<Rightarrow> fast_classifier \<Rightarrow> fast_classifier" where
  "fc_remove p sc = sc\<lparr>fc_conn_ht := (\<lambda>b. remove1 p (fc_conn_ht sc b)),
     sfe_connections_size := sfe_connections_size sc - 1, fc_live := fc_live sc - {p}\<rparr>"

definition fc_mark_rule :: "bool \<Rightarrow> sfe_connection_mark \<Rightarrow> fast_classifier \<Rightarrow> fast_classifier option" where
  "fc_mark_rule is_v4 mark sc =
     (if is_v4 then do { si \<leftarrow> sfe_ipv4_mark_rule (fc_v4 sc) mark; Some (sc\<lparr>fc_v4 := si\<rparr>) }
      else do { si \<leftarrow> sfe_ipv6_mark_rule (fc_v6 sc) mark; Some (sc\<lparr>fc_v6 := si\<rparr>) })"

definition fc_destroy_rule :: "cm_kernel \<Rightarrow> bool \<Rightarrow> sfe_connection_destroy \<Rightarrow> fast_classifier \<Rightarrow> fast_classifier option" where
  "fc_destroy_rule k is_v4 sid sc =
     (if is_v4
      then do { (si, out) \<leftarrow> sfe_ipv4_destroy_rule (ck_jiffies k) (fc_v4 sc) sid; Some (fc_deliver k out (sc\<lparr>fc_v4 := si\<rparr>)) }
      else do { (si, out) \<leftarrow> sfe_ipv6_destroy_rule (ck_jiffies k) (fc_v6 sc) sid; Some (fc_deliver k out (sc\<lparr>fc_v6 := si\<rparr>)) })"

text \<open>\<open>marked\<close> and \<open>destroyed\<close> are the bits of the event, \<open>ct_mark\<close> the mark of the entry.\<close>

definition fast_classifier_conntrack_event ::
  "fc_kernel \<Rightarrow> fast_classifier_tuple \<Rightarrow> bool \<Rightarrow> bool \<Rightarrow> u32 \<Rightarrow> nat option \<Rightarrow> fast_classifier \<Rightarrow> fast_classifier option" where
  "fast_classifier_conntrack_event k stack marked destroyed ct_mark ctp sc =
     (case ctp of
        None \<Rightarrow> Some sc
      | Some c \<Rightarrow>
          let ct = fc_ct sc c; orig = ct_orig_tuple ct; sid = destroy_message orig; is_v4 = (ct_l3num ct = AF_INET)
          in if ct_untracked ct then Some sc
             else if sid_protocol sid \<noteq> ucast IPPROTO_TCP \<and> sid_protocol sid \<noteq> ucast IPPROTO_UDP then Some sc
             else do {
               sc \<leftarrow> (if marked \<and> ct_mark \<noteq> 0
                     then let mark = \<lparr>mk_protocol = sid_protocol sid, mk_src_ip = sid_src_ip sid, mk_dest_ip = sid_dest_ip sid,
                                      mk_src_port = sid_src_port sid, mk_dest_port = sid_dest_port sid, mk_mark = ct_mark\<rparr>
                          in do { sc \<leftarrow> fc_mark_rule is_v4 mark sc; Some (fast_classifier_update_mark k mark is_v4 sc) }
                     else Some sc);
               if \<not> destroyed then Some sc
               else case fast_classifier_find_conn k sc (sid_src_ip sid) (sid_dest_ip sid) (sid_src_port sid) (sid_dest_port sid)
                           (ucast (sid_protocol sid)) is_v4 of
                 None \<Rightarrow> fc_destroy_rule (fk k) is_v4 sid (fast_classifier_incr_exceptions FC_CT_DESTROY_MISS sc)
               | Some p \<Rightarrow>
                   let conn = fc_conns sc p;
                       fc_msg = offload_tuple stack is_v4 (fcc_sic conn) conn
                   in do {
                     sc \<leftarrow> fc_destroy_rule (fk k) is_v4 sid (fc_remove p sc);
                     Some (if fcc_offloaded conn then fast_classifier_send_genl_msg k FAST_CLASSIFIER_C_DONE fc_msg sc else sc) } })"

end
