(* ===== verification/SFE_FC_Module.thy ===== *)
theory SFE_FC_Module
  imports SFE_FC_Control SFE_Debug_Msg
begin

text \<open>
  The fast classifier, continued: device events, the files in sysfs, loading and unloading.
\<close>

section \<open>Device events\<close>

definition fc_destroy_v4_for :: "cm_kernel \<Rightarrow> dev_ptr \<Rightarrow> fast_classifier \<Rightarrow> fast_classifier option" where
  "fc_destroy_v4_for k dev sc = do {
     (si, out) \<leftarrow> sfe_ipv4_destroy_all_rules_for_dev (ck_jiffies k) dev (fc_v4 sc);
     Some (fc_deliver k out (sc\<lparr>fc_v4 := si\<rparr>)) }"

definition fc_destroy_v6_for :: "cm_kernel \<Rightarrow> dev_ptr \<Rightarrow> fast_classifier \<Rightarrow> fast_classifier option" where
  "fc_destroy_v6_for k dev sc = do {
     (si, out) \<leftarrow> sfe_ipv6_destroy_all_rules_for_dev (ck_jiffies k) dev (fc_v6 sc);
     Some (fc_deliver k out (sc\<lparr>fc_v6 := si\<rparr>)) }"

definition fast_classifier_device_event :: "cm_kernel \<Rightarrow> bool \<Rightarrow> dev_ptr \<Rightarrow> fast_classifier \<Rightarrow> fast_classifier option" where
  "fast_classifier_device_event k down dev sc =
     (if dev \<noteq> 0 \<and> down then do { sc \<leftarrow> fc_destroy_v4_for k dev sc; fc_destroy_v6_for k dev sc } else Some sc)"

definition fast_classifier_inet_event :: "cm_kernel \<Rightarrow> bool \<Rightarrow> dev_ptr \<Rightarrow> fast_classifier \<Rightarrow> fast_classifier option" where
  "fast_classifier_inet_event k down dev sc = (if dev \<noteq> 0 \<and> down then fc_destroy_v4_for k dev sc else Some sc)"

definition fast_classifier_inet6_event :: "cm_kernel \<Rightarrow> bool \<Rightarrow> dev_ptr \<Rightarrow> fast_classifier \<Rightarrow> fast_classifier option" where
  "fast_classifier_inet6_event k down dev sc = (if dev \<noteq> 0 \<and> down then fc_destroy_v6_for k dev sc else Some sc)"

section \<open>Files in sysfs\<close>

definition fast_classifier_get_offload_at_pkts :: "fast_classifier \<Rightarrow> string" where
  "fast_classifier_get_offload_at_pkts sc = print_d (offload_at_pkts sc) @ newline"

text \<open>
  \<open>kstrtol\<close> is the kernel's: its result and the number it stored, which after an error is what the
  variable held before. The number is a \<open>long\<close>; the result an error or the bytes taken.
\<close>

definition fast_classifier_set_offload_at_pkts :: "(string \<Rightarrow> int \<times> u64) \<Rightarrow> string \<Rightarrow> fast_classifier \<Rightarrow> int \<times> fast_classifier" where
  "fast_classifier_set_offload_at_pkts kstrtol buf sc =
     (let (ret, new) = kstrtol buf
      in if ret = - EINVAL \<or> sint (ucast new :: u32) \<noteq> sint new then (- EINVAL, sc)
         else (int (length buf), sc\<lparr>offload_at_pkts := ucast new\<rparr>))"

definition fast_classifier_get_skip_bridge_ingress :: "fast_classifier \<Rightarrow> string" where
  "fast_classifier_get_skip_bridge_ingress sc = print_d (if skip_to_bridge_ingress sc then 1 else 0) @ newline"

definition fast_classifier_set_skip_bridge_ingress :: "(string \<Rightarrow> int \<times> u64) \<Rightarrow> string \<Rightarrow> fast_classifier \<Rightarrow> int \<times> fast_classifier" where
  "fast_classifier_set_skip_bridge_ingress kstrtol buf sc =
     (let (ret, new) = kstrtol buf
      in if ret = - EINVAL \<or> sint (ucast new :: u32) \<noteq> sint new then (- EINVAL, sc)
         else (int (length buf), sc\<lparr>skip_to_bridge_ingress := (new \<noteq> 0)\<rparr>))"

text \<open>\<open>scnprintf(buf + len, PAGE_SIZE - len, ...)\<close>: the text that fits; the length is what was written.\<close>

definition scnprintf_at :: "string \<Rightarrow> string \<Rightarrow> string" where
  "scnprintf_at buf msg = buf @ take (PAGE_SIZE - length buf - 1) msg"

definition print_mac :: "mac \<Rightarrow> string" where
  "print_mac m = print_02x (ucast (m 0)) @ '':'' @ print_02x (ucast (m 1)) @ '':'' @ print_02x (ucast (m 2)) @ '':''
     @ print_02x (ucast (m 3)) @ '':'' @ print_02x (ucast (m 4)) @ '':'' @ print_02x (ucast (m 5))"

definition print_addr :: "bool \<Rightarrow> sfe_ip_addr \<Rightarrow> string" where
  "print_addr is_v4 a = (if is_v4 then print_ip4 (sa_ip a) else print_ip6 (ip6_0 a, ip6_1 a, ip6_2 a, ip6_3 a))"

definition debug_header :: "fast_classifier \<Rightarrow> string" where
  "debug_header sc = ''size='' @ print_d (sfe_connections_size sc) @ '' offload='' @ print_d (offload_msgs sc)
     @ '' offload_no_match='' @ print_d (offload_no_match_msgs sc) @ '' offloaded='' @ print_d (offloaded_msgs sc)
     @ '' done='' @ print_d (done_msgs sc) @ '' offloaded_fail='' @ print_d (offloaded_fail_msgs sc)
     @ '' done_fail='' @ print_d (done_fail_msgs sc) @ newline"

definition debug_line :: "sfe_connection \<Rightarrow> string" where
  "debug_line conn = (let sic = fcc_sic conn; is_v4 = fcc_is_v4 conn in
     ''o='' @ print_d (if fcc_offloaded conn then 1 else 0) @ '', p='' @ print_d (sic_protocol sic)
     @ '' ['' @ print_mac (sic_src_mac sic) @ '']:'' @ print_addr is_v4 (sic_src_ip sic) @ '':'' @ print_u (sic_src_port sic)
     @ '' '' @ print_addr is_v4 (sic_dest_ip sic) @ '':'' @ print_u (sic_dest_port sic) @ '':['' @ print_mac (sic_dest_mac_xlate sic)
     @ ''] m='' @ print_08x (sic_mark sic) @ '' h='' @ print_d (fcc_hits conn) @ newline)"

definition FC_CONN_HASH_ORDER :: nat where "FC_CONN_HASH_ORDER = 13"

definition table_order :: "fast_classifier \<Rightarrow> ptr list" where
  "table_order sc = concat (map (fc_conn_ht sc) [0..<2 ^ FC_CONN_HASH_ORDER])"

definition fast_classifier_get_debug_info :: "fast_classifier \<Rightarrow> string" where
  "fast_classifier_get_debug_info sc =
     fold (\<lambda>p buf. scnprintf_at buf (debug_line (fc_conns sc p))) (table_order sc) (scnprintf_at [] (debug_header sc))"

definition fast_classifier_get_exceptions :: "fast_classifier \<Rightarrow> string \<times> nat" where
  "fast_classifier_get_exceptions sc = fold
     (\<lambda>(e, name) st. if fc_exceptions sc e \<noteq> 0 then snprintf_at st (exception_line name (fc_exceptions sc e)) else st)
     fast_classifier_exception_events_string ([], 0)"

section \<open>Loading and unloading\<close>

text \<open>\<open>kobject_put\<close> of the last reference removes the directory with the files in it.\<close>

definition fc_kobject_put :: "fast_classifier \<Rightarrow> fast_classifier" where
  "fc_kobject_put sc = sc\<lparr>fc_registered := fc_registered sc -
     {Fc_kobject, Fc_offload_at_pkts, Fc_debug_info, Fc_skip_to_bridge_ingress, Fc_exceptions}\<rparr>"

definition fc_reg :: "fc_registration set \<Rightarrow> fast_classifier \<Rightarrow> fast_classifier" where
  "fc_reg rs sc = sc\<lparr>fc_registered := fc_registered sc \<union> rs\<rparr>"

definition fc_unreg :: "fc_registration set \<Rightarrow> fast_classifier \<Rightarrow> fast_classifier" where
  "fc_unreg rs sc = sc\<lparr>fc_registered := fc_registered sc - rs\<rparr>"

text \<open>
  \<open>cb\<close> is the address of \<open>fast_classifier_sync_rule\<close>, \<open>files\<close> the results for the four files in their
  order; the other arguments are results of kernel calls. None is the \<open>BUG_ON\<close> of a receive hook that
  is already taken.
\<close>

definition fast_classifier_init ::
  "ptr \<Rightarrow> bool \<Rightarrow> int \<times> int \<times> int \<times> int \<Rightarrow> int \<Rightarrow> int \<Rightarrow> fast_classifier \<Rightarrow> (int \<times> fast_classifier) option" where
  "fast_classifier_init cb kobject files hooks genl sc =
     (let sc = sc\<lparr>fc_conn_ht := (\<lambda>_. [])\<rparr>;
          (f1, f2, f3, f4) = files;
          notifiers = {Fc_dev_notifier, Fc_inet_notifier, Fc_inet6_notifier};
          exit2 = fc_kobject_put;
          exit3 = (\<lambda>sc. exit2 (fc_unreg (notifiers \<union> {Fc_offload_at_pkts, Fc_debug_info, Fc_skip_to_bridge_ingress, Fc_exceptions}) sc));
          exit5 = (\<lambda>sc. exit3 (fc_unreg {Fc_nf_hooks} sc))
      in if \<not> kobject then Some (- 1, sc)
      else let sc = fc_reg {Fc_kobject} sc
      in if f1 \<noteq> 0 then Some (f1, exit2 sc)
      else let sc = fc_reg {Fc_offload_at_pkts} sc
      in if f2 \<noteq> 0 then Some (f2, exit2 (fc_unreg {Fc_offload_at_pkts} sc))
      else let sc = fc_reg {Fc_debug_info} sc
      in if f3 \<noteq> 0 then Some (f3, exit2 (fc_unreg {Fc_offload_at_pkts, Fc_debug_info} sc))
      else let sc = fc_reg {Fc_skip_to_bridge_ingress} sc
      in if f4 \<noteq> 0 then Some (f4, exit2 (fc_unreg {Fc_offload_at_pkts, Fc_debug_info, Fc_skip_to_bridge_ingress} sc))
      else let sc = fc_reg notifiers (fc_reg {Fc_exceptions} sc)
      in if hooks < 0 then Some (hooks, exit3 sc)
      else let sc = fc_reg {Fc_nf_hooks} sc
      in if genl \<noteq> 0 then Some (genl, exit5 sc)
      else let sc = fc_reg {Fc_genl} sc
      in if fc_recv_hook sc then None
      else let sc = sc\<lparr>fc_recv_hook := True\<rparr>
      in Some (0, sc\<lparr>fc_v4 := sfe_ipv4_register_sync_rule_callback (fc_v4 sc) (Some cb),
                     fc_v6 := sfe_ipv6_register_sync_rule_callback (fc_v6 sc) (Some cb)\<rparr>))"

text \<open>The table of flows is left as it is. A failure to unregister the netlink family is only printed.\<close>

definition fast_classifier_exit :: "cm_kernel \<Rightarrow> int \<Rightarrow> fast_classifier \<Rightarrow> fast_classifier option" where
  "fast_classifier_exit k genl sc =
     (let sc = sc\<lparr>fc_v4 := sfe_ipv4_register_sync_rule_callback (fc_v4 sc) None,
                  fc_v6 := sfe_ipv6_register_sync_rule_callback (fc_v6 sc) None\<rparr>;
          sc = sc\<lparr>fc_recv_hook := False\<rparr>
      in do {
        sc \<leftarrow> fc_destroy_v4_for k 0 sc;
        sc \<leftarrow> fc_destroy_v6_for k 0 sc;
        let sc = (if genl = 0 then fc_unreg {Fc_genl} sc else sc);
        Some (fc_kobject_put (fc_unreg {Fc_nf_hooks, Fc_inet6_notifier, Fc_inet_notifier, Fc_dev_notifier} sc)) })"

end
