(* ===== verification/SFE_FC_Table.thy ===== *)
theory SFE_FC_Table
  imports SFE_FC_Module
begin

text \<open>
  The table of flows as a finite map from flow keys: a key sits in the bucket of its hash, no two flows
  have the same key, and so lookup, insertion and removal act on the map.
\<close>

section \<open>Keys\<close>

text \<open>IP version, protocol, source and destination; an IPv4 address is its first word.\<close>

type_synonym fc_key = "bool \<times> u32 \<times> sfe_ip_addr \<times> be16 \<times> sfe_ip_addr \<times> be16"

definition addr_key :: "bool \<Rightarrow> sfe_ip_addr \<Rightarrow> sfe_ip_addr" where
  "addr_key is_v4 a = (if is_v4 then zero_addr\<lparr>ip6_0 := sa_ip a\<rparr> else a)"

definition msg_key :: "bool \<Rightarrow> sfe_connection_create \<Rightarrow> fc_key" where
  "msg_key is_v4 sic = (is_v4, sic_protocol sic, addr_key is_v4 (sic_src_ip sic), sic_src_port sic,
     addr_key is_v4 (sic_dest_ip sic), sic_dest_port sic)"

definition flow_key :: "sfe_connection \<Rightarrow> fc_key" where
  "flow_key conn = msg_key (fcc_is_v4 conn) (fcc_sic conn)"

fun key_hash :: "fc_key \<Rightarrow> u32" where
  "key_hash (is_v4, protocol, saddr, sport, daddr, dport) = fc_conn_hash saddr daddr sport dport is_v4"

lemma addr_equal_iff: "sfe_addr_equal a b is_v4 \<longleftrightarrow> addr_key is_v4 a = addr_key is_v4 b"
  by (cases a; cases b)
    (auto simp: sfe_addr_equal_def sfe_ipv4_addr_equal_def sfe_ipv6_addr_equal_iff addr_key_def zero_addr_def)

lemma hash_addr_key: "fc_conn_hash (addr_key v s) (addr_key v d) sp dp v = fc_conn_hash s d sp dp v"
  by (simp add: fc_conn_hash_def addr_key_def)

lemma key_hash_msg: "key_hash (msg_key v sic) = fc_conn_hash (sic_src_ip sic) (sic_dest_ip sic) (sic_src_port sic) (sic_dest_port sic) v"
  by (simp add: msg_key_def hash_addr_key)

section \<open>Well-formed tables\<close>

definition in_table :: "fast_classifier \<Rightarrow> ptr set" where
  "in_table sc = (\<Union>b. set (fc_conn_ht sc b))"

text \<open>The type of a flow: its protocol is one the engines know, and so fits the byte the lookups compare.\<close>

definition flow_typed :: "sfe_connection \<Rightarrow> bool" where
  "flow_typed conn \<longleftrightarrow> sic_protocol (fcc_sic conn) = ucast IPPROTO_TCP \<or> sic_protocol (fcc_sic conn) = ucast IPPROTO_UDP"

definition table_ok :: "(u32 \<Rightarrow> nat) \<Rightarrow> fast_classifier \<Rightarrow> bool" where
  "table_ok bk sc \<longleftrightarrow>
     (\<forall>b. distinct (fc_conn_ht sc b) \<and> (\<forall>p \<in> set (fc_conn_ht sc b). bk (key_hash (flow_key (fc_conns sc p))) = b))
     \<and> inj_on (\<lambda>p. flow_key (fc_conns sc p)) (in_table sc)
     \<and> (\<forall>p \<in> in_table sc. flow_typed (fc_conns sc p))
     \<and> in_table sc \<subseteq> fc_live sc \<and> finite (in_table sc)
     \<and> sfe_connections_size sc = of_nat (card (in_table sc))"

lemma table_okD:
  assumes "table_ok bk sc"
  shows "distinct (fc_conn_ht sc b)" "p \<in> set (fc_conn_ht sc b) \<Longrightarrow> bk (key_hash (flow_key (fc_conns sc p))) = b"
    "inj_on (\<lambda>p. flow_key (fc_conns sc p)) (in_table sc)" "p \<in> in_table sc \<Longrightarrow> flow_typed (fc_conns sc p)"
    "in_table sc \<subseteq> fc_live sc" "finite (in_table sc)" "sfe_connections_size sc = of_nat (card (in_table sc))"
  using assms by (simp_all add: table_ok_def)

text \<open>The flow with a key, and the table as a map.\<close>

definition fc_lookup :: "(u32 \<Rightarrow> nat) \<Rightarrow> fast_classifier \<Rightarrow> fc_key \<Rightarrow> ptr option" where
  "fc_lookup bk sc key = find (\<lambda>p. flow_key (fc_conns sc p) = key) (fc_conn_ht sc (bk (key_hash key)))"

definition fc_map :: "(u32 \<Rightarrow> nat) \<Rightarrow> fast_classifier \<Rightarrow> fc_key \<Rightarrow> sfe_connection option" where
  "fc_map bk sc key = map_option (fc_conns sc) (fc_lookup bk sc key)"

lemma in_tableI: "p \<in> set (fc_conn_ht sc b) \<Longrightarrow> p \<in> in_table sc"
  by (auto simp: in_table_def)

lemma fc_lookup_iff:
  assumes "table_ok bk sc"
  shows "fc_lookup bk sc key = Some p \<longleftrightarrow> p \<in> in_table sc \<and> flow_key (fc_conns sc p) = key"
proof
  assume "fc_lookup bk sc key = Some p"
  then show "p \<in> in_table sc \<and> flow_key (fc_conns sc p) = key"
    unfolding fc_lookup_def find_Some_iff by (metis in_tableI nth_mem)
next
  assume p: "p \<in> in_table sc \<and> flow_key (fc_conns sc p) = key"
  then have m: "p \<in> set (fc_conn_ht sc (bk (key_hash key)))"
    using assms by (auto simp: table_ok_def in_table_def)
  then obtain q where q: "fc_lookup bk sc key = Some q"
    unfolding fc_lookup_def using p by (cases "find (\<lambda>p. flow_key (fc_conns sc p) = key) (fc_conn_ht sc (bk (key_hash key)))")
      (auto simp: find_None_iff)
  then have "q \<in> in_table sc" "flow_key (fc_conns sc q) = key"
    unfolding fc_lookup_def find_Some_iff by (metis in_tableI nth_mem)+
  then have "q = p" using assms p by (auto simp: table_ok_def inj_on_def)
  with q show "fc_lookup bk sc key = Some p" by simp
qed

lemma fc_lookup_None:
  assumes "table_ok bk sc"
  shows "fc_lookup bk sc key = None \<longleftrightarrow> key \<notin> (\<lambda>p. flow_key (fc_conns sc p)) ` in_table sc"
proof (cases "fc_lookup bk sc key")
  case None
  then have "\<not> (p \<in> in_table sc \<and> flow_key (fc_conns sc p) = key)" for p using fc_lookup_iff [OF assms, of key p] by simp
  with None show ?thesis by auto
next
  case (Some p)
  then have "p \<in> in_table sc" "flow_key (fc_conns sc p) = key" using fc_lookup_iff [OF assms] by blast+
  with Some show ?thesis by auto
qed

lemma option_eqI: "(\<And>q. x = Some q \<longleftrightarrow> y = Some q) \<Longrightarrow> x = y"
  by (cases x; cases y) auto

text \<open>The C function looks up the key; the protocol of its argument is one byte.\<close>

lemma find_conn_lookup:
  assumes "table_ok bk sc" and "fk_bucket k = bk"
  shows "fast_classifier_find_conn k sc saddr daddr sport dport proto is_v4
     = fc_lookup bk sc (is_v4, ucast proto, addr_key is_v4 saddr, sport, addr_key is_v4 daddr, dport)"
proof -
  have "(\<lambda>p. fcc_is_v4 (fc_conns sc p) = is_v4 \<and> sic_protocol (fcc_sic (fc_conns sc p)) = ucast proto
      \<and> sic_src_port (fcc_sic (fc_conns sc p)) = sport \<and> sic_dest_port (fcc_sic (fc_conns sc p)) = dport
      \<and> sfe_addr_equal (sic_src_ip (fcc_sic (fc_conns sc p))) saddr is_v4
      \<and> sfe_addr_equal (sic_dest_ip (fcc_sic (fc_conns sc p))) daddr is_v4)
    = (\<lambda>p. flow_key (fc_conns sc p) = (is_v4, ucast proto, addr_key is_v4 saddr, sport, addr_key is_v4 daddr, dport))"
    by (auto simp: fun_eq_iff flow_key_def msg_key_def addr_equal_iff)
  then show ?thesis
    using assms(2) by (simp add: fast_classifier_find_conn_def fc_walk_def fc_lookup_def hash_addr_key)
qed

lemma find_conn_msg:
  assumes "table_ok bk sc" and "fk_bucket k = bk" and "sic_protocol sic = ucast IPPROTO_TCP \<or> sic_protocol sic = ucast IPPROTO_UDP"
  shows "fast_classifier_find_conn k sc (sic_src_ip sic) (sic_dest_ip sic) (sic_src_port sic) (sic_dest_port sic)
      (ucast (sic_protocol sic)) is_v4 = fc_lookup bk sc (msg_key is_v4 sic)"
proof -
  have "(ucast (ucast (sic_protocol sic) :: u8) :: u32) = sic_protocol sic"
    using assms(3) by (auto simp: ipproto_defs)
  then show ?thesis by (simp add: find_conn_lookup [OF assms(1,2)] msg_key_def)
qed

section \<open>Changes of the table\<close>

text \<open>Everything the table depends on.\<close>

definition same_table :: "fast_classifier \<Rightarrow> fast_classifier \<Rightarrow> bool" where
  "same_table sc sc' \<longleftrightarrow> fc_conn_ht sc' = fc_conn_ht sc \<and> fc_conns sc' = fc_conns sc \<and> fc_live sc' = fc_live sc
     \<and> sfe_connections_size sc' = sfe_connections_size sc"

lemma same_table_refl [simp]: "same_table sc sc"
  by (simp add: same_table_def)

lemma same_table_trans: "same_table a b \<Longrightarrow> same_table b c \<Longrightarrow> same_table a c"
  by (simp add: same_table_def)

lemma same_tableD:
  assumes "same_table sc sc'"
  shows "table_ok bk sc' \<longleftrightarrow> table_ok bk sc" "fc_map bk sc' = fc_map bk sc" "in_table sc' = in_table sc"
    "fc_lookup bk sc' = fc_lookup bk sc"
proof -
  have e: "fc_conn_ht sc' = fc_conn_ht sc" "fc_conns sc' = fc_conns sc" "fc_live sc' = fc_live sc"
    "sfe_connections_size sc' = sfe_connections_size sc" using assms by (simp_all add: same_table_def)
  show it: "in_table sc' = in_table sc" by (simp add: in_table_def e)
  show l: "fc_lookup bk sc' = fc_lookup bk sc" by (rule ext) (simp add: fc_lookup_def e)
  show "fc_map bk sc' = fc_map bk sc" by (rule ext) (simp add: fc_map_def e l)
  show "table_ok bk sc' \<longleftrightarrow> table_ok bk sc" by (simp add: table_ok_def it e)
qed

lemma upd_conn_sel [simp]:
  "fc_conn_ht (upd_conn p f sc) = fc_conn_ht sc" "fc_live (upd_conn p f sc) = fc_live sc"
  "sfe_connections_size (upd_conn p f sc) = sfe_connections_size sc" "fc_v4 (upd_conn p f sc) = fc_v4 sc"
  "fc_v6 (upd_conn p f sc) = fc_v6 sc" "fc_ct (upd_conn p f sc) = fc_ct sc" "fc_refs (upd_conn p f sc) = fc_refs sc"
  "fc_conns (upd_conn p f sc) = (fc_conns sc)(p := f (fc_conns sc p))" "in_table (upd_conn p f sc) = in_table sc"
  "fc_recv_hook (upd_conn p f sc) = fc_recv_hook sc" "fc_registered (upd_conn p f sc) = fc_registered sc"
  "offload_at_pkts (upd_conn p f sc) = offload_at_pkts sc" "skip_to_bridge_ingress (upd_conn p f sc) = skip_to_bridge_ingress sc" "fc_sent (upd_conn p f sc) = fc_sent sc"
  "fc_exceptions (upd_conn p f sc) = fc_exceptions sc"
  by (simp_all add: upd_conn_def in_table_def)

text \<open>A flow is changed, its key and type are not.\<close>

lemma upd_conn_table:
  assumes t: "table_ok bk sc" and p: "p \<in> in_table sc"
    and f: "flow_key (f (fc_conns sc p)) = flow_key (fc_conns sc p)" "flow_typed (f (fc_conns sc p))"
  shows "table_ok bk (upd_conn p f sc)"
    and "fc_map bk (upd_conn p f sc) = (fc_map bk sc)(flow_key (fc_conns sc p) \<mapsto> f (fc_conns sc p))"
proof -
  have k: "flow_key (fc_conns (upd_conn p f sc) q) = flow_key (fc_conns sc q)" for q
    using f(1) by simp
  show t': "table_ok bk (upd_conn p f sc)"
    using t f(2) unfolding table_ok_def k by (simp add: inj_on_def)
  have l: "fc_lookup bk (upd_conn p f sc) key = fc_lookup bk sc key" for key
    unfolding fc_lookup_def k by simp
  show "fc_map bk (upd_conn p f sc) = (fc_map bk sc)(flow_key (fc_conns sc p) \<mapsto> f (fc_conns sc p))"
  proof
    fix key
    have "fc_lookup bk sc key = Some p \<longleftrightarrow> key = flow_key (fc_conns sc p)" using fc_lookup_iff [OF t] p by auto
    then show "fc_map bk (upd_conn p f sc) key = ((fc_map bk sc)(flow_key (fc_conns sc p) \<mapsto> f (fc_conns sc p))) key"
      unfolding fc_map_def l by (cases "fc_lookup bk sc key") auto
  qed
qed

text \<open>A new flow; \<open>sc\<close> holds it in memory already.\<close>

lemma add_conn_table:
  assumes t: "table_ok bk sc" and k: "fk_bucket k = bk" and p: "p \<in> fc_live sc" "p \<notin> in_table sc"
    and y: "flow_typed (fc_conns sc p)" and a: "fast_classifier_add_conn k p sc = (added, sc')"
  shows "added \<longleftrightarrow> fc_map bk sc (flow_key (fc_conns sc p)) = None"
    and "\<not> added \<Longrightarrow> sc' = sc"
    and "added \<Longrightarrow> table_ok bk sc' \<and> fc_map bk sc' = (fc_map bk sc)(flow_key (fc_conns sc p) \<mapsto> fc_conns sc p)
           \<and> in_table sc' = insert p (in_table sc)"
    and "fc_conns sc' = fc_conns sc \<and> fc_live sc' = fc_live sc"
proof -
  define c where "c = fc_conns sc p"
  define b where "b = bk (key_hash (flow_key c))"
  define sc1 where "sc1 = sc\<lparr>fc_conn_ht := (fc_conn_ht sc)(b := p # fc_conn_ht sc b), sfe_connections_size := sfe_connections_size sc + 1\<rparr>"
  have fl: "fast_classifier_find_conn k sc (sic_src_ip (fcc_sic c)) (sic_dest_ip (fcc_sic c)) (sic_src_port (fcc_sic c))
      (sic_dest_port (fcc_sic c)) (ucast (sic_protocol (fcc_sic c))) (fcc_is_v4 c) = fc_lookup bk sc (flow_key c)"
    using find_conn_msg [OF t k, of "fcc_sic c"] y by (simp add: flow_typed_def flow_key_def c_def)
  have "fast_classifier_add_conn k p sc = (if fc_lookup bk sc (flow_key c) \<noteq> None then (False, sc) else (True, sc1))"
    unfolding fast_classifier_add_conn_def Let_def c_def [symmetric] fl by (simp add: sc1_def b_def k flow_key_def key_hash_msg)
  with a have e: "(added, sc') = (if fc_lookup bk sc (flow_key c) \<noteq> None then (False, sc) else (True, sc1))" by simp
  have s1: "fc_conns sc1 = fc_conns sc" "fc_live sc1 = fc_live sc" by (simp_all add: sc1_def)
  show "added \<longleftrightarrow> fc_map bk sc (flow_key (fc_conns sc p)) = None"
    using e by (cases "fc_lookup bk sc (flow_key c)") (simp_all add: fc_map_def c_def)
  show "\<not> added \<Longrightarrow> sc' = sc" using e by (cases "fc_lookup bk sc (flow_key c)") simp_all
  show "fc_conns sc' = fc_conns sc \<and> fc_live sc' = fc_live sc"
    using e by (cases "fc_lookup bk sc (flow_key c)") (simp_all add: s1)
  assume added
  then have s: "sc' = sc1" and n: "fc_lookup bk sc (flow_key c) = None"
    using e by (cases "fc_lookup bk sc (flow_key c)"; simp)+
  have ht: "fc_conn_ht sc' x = (if x = b then p # fc_conn_ht sc x else fc_conn_ht sc x)" for x by (simp add: s sc1_def)
  have it: "in_table sc' = insert p (in_table sc)"
    unfolding in_table_def ht by (auto split: if_splits)
  have nk: "flow_key c \<notin> (\<lambda>p. flow_key (fc_conns sc p)) ` in_table sc" using n fc_lookup_None [OF t] by simp
  have B: "distinct (fc_conn_ht sc' x) \<and> (\<forall>q \<in> set (fc_conn_ht sc' x). bk (key_hash (flow_key (fc_conns sc' q))) = x)" for x
    unfolding ht using table_okD(1) [OF t, of x] table_okD(2) [OF t, of _ x] p(2) in_tableI [of p sc x]
    by (auto simp: s s1 b_def c_def)
  have i: "inj_on (\<lambda>p. flow_key (fc_conns sc' p)) (in_table sc')"
    using table_okD(3) [OF t] nk p(2) unfolding it by (simp add: s s1 c_def)
  have z: "sfe_connections_size sc' = of_nat (card (in_table sc'))"
    using table_okD(6,7) [OF t] p(2) unfolding it by (simp add: s sc1_def)
  have u: "\<forall>q \<in> in_table sc'. flow_typed (fc_conns sc' q)" "in_table sc' \<subseteq> fc_live sc'" "finite (in_table sc')"
    unfolding it using y p(1) table_okD(4,5,6) [OF t] by (auto simp: s s1)
  have t': "table_ok bk sc'"
    unfolding table_ok_def using B i z u by blast
  moreover have "fc_map bk sc' = (fc_map bk sc)(flow_key (fc_conns sc p) \<mapsto> fc_conns sc p)"
  proof
    fix key
    have "fc_lookup bk sc' key = (if key = flow_key c then Some p else fc_lookup bk sc key)"
    proof (cases "key = flow_key c")
      case True
      have "p \<in> in_table sc'" "flow_key (fc_conns sc' p) = key" unfolding it using True by (simp_all add: s s1 c_def)
      then show ?thesis using fc_lookup_iff [OF t', of key p] True by simp
    next
      case False
      have "fc_lookup bk sc' key = Some q \<longleftrightarrow> fc_lookup bk sc key = Some q" for q
        unfolding fc_lookup_iff [OF t'] fc_lookup_iff [OF t] it using False by (auto simp: s s1 c_def)
      then show ?thesis unfolding if_not_P [OF False] by (rule option_eqI)
    qed
    then show "fc_map bk sc' key = ((fc_map bk sc)(flow_key (fc_conns sc p) \<mapsto> fc_conns sc p)) key"
      by (simp add: fc_map_def s s1 c_def)
  qed
  ultimately show "table_ok bk sc' \<and> fc_map bk sc' = (fc_map bk sc)(flow_key (fc_conns sc p) \<mapsto> fc_conns sc p) \<and> in_table sc' = insert p (in_table sc)"
    using it by blast
qed

text \<open>A flow taken out.\<close>

lemma remove_table:
  assumes t: "table_ok bk sc" and p: "p \<in> in_table sc"
  shows "table_ok bk (fc_remove p sc)"
    and "fc_map bk (fc_remove p sc) = (fc_map bk sc)(flow_key (fc_conns sc p) := None)"
proof -
  let ?sc = "fc_remove p sc"
  have d: "distinct (fc_conn_ht sc b)" for b using t by (simp add: table_ok_def)
  have it: "in_table ?sc = in_table sc - {p}"
    using d by (auto simp: in_table_def fc_remove_def)
  have c: "fc_conns ?sc = fc_conns sc" by (simp add: fc_remove_def)
  have "card (in_table sc - {p}) + 1 = card (in_table sc)"
    using card.remove [OF table_okD(6) [OF t] p] by simp
  then have "(of_nat (card (in_table sc)) :: u32) = of_nat (card (in_table sc - {p})) + 1"
    by (metis of_nat_1 of_nat_add)
  then have z: "sfe_connections_size ?sc = of_nat (card (in_table ?sc))"
    using table_okD(7) [OF t] unfolding it by (simp add: fc_remove_def)
  have b: "distinct (fc_conn_ht ?sc b) \<and> (\<forall>q \<in> set (fc_conn_ht ?sc b). bk (key_hash (flow_key (fc_conns ?sc q))) = b)" for b
    using table_okD(1,2) [OF t] by (auto simp: fc_remove_def)
  have i: "inj_on (\<lambda>q. flow_key (fc_conns sc q)) (in_table sc - {p})"
    using table_okD(3) [OF t] by (rule inj_on_subset) simp
  show t': "table_ok bk ?sc"
    unfolding table_ok_def using b z i table_okD(4,5,6) [OF t] by (simp add: it c) (auto simp: fc_remove_def)
  show "fc_map bk ?sc = (fc_map bk sc)(flow_key (fc_conns sc p) := None)"
  proof
    fix key
    have "q \<in> in_table sc \<Longrightarrow> flow_key (fc_conns sc q) = flow_key (fc_conns sc p) \<longleftrightarrow> q = p" for q
      using table_okD(3) [OF t] p by (auto simp: inj_on_def)
    then have "fc_lookup bk ?sc key = Some q \<longleftrightarrow> (if key = flow_key (fc_conns sc p) then None else fc_lookup bk sc key) = Some q" for q
      unfolding fc_lookup_iff [OF t'] it c by (auto simp: fc_lookup_iff [OF t])
    then have "fc_lookup bk ?sc key = (if key = flow_key (fc_conns sc p) then None else fc_lookup bk sc key)"
      by (rule option_eqI)
    then show "fc_map bk ?sc key = ((fc_map bk sc)(flow_key (fc_conns sc p) := None)) key" by (simp add: fc_map_def c)
  qed
qed

end
