(* ===== verification/SFE_FC_Laws.thy ===== *)
theory SFE_FC_Laws
  imports SFE_FC_Table SFE_CM_Events
begin

text \<open>
  Lemmas about the fast classifier: what each operation leaves alone, creation and update of rules
  through the two engines, the two outcomes of the post routing hook (a new flow, a known flow), and
  the references.
\<close>

section \<open>Frames and references\<close>

lemma fget_shift: "fget ob sc = sc\<lparr>fc_refs := shift ob 1 (fc_refs sc)\<rparr>"
  and fput_shift: "fput ob sc = sc\<lparr>fc_refs := shift ob (- 1) (fc_refs sc)\<rparr>"
  by (auto simp: fget_def fput_def shift_def fun_eq_iff intro!: arg_cong [where f = "\<lambda>f. fc_refs_update f sc"])

lemma fput_fget [simp]: "fput ob (fget ob sc) = sc"
  by (simp add: fget_shift fput_shift shift_inverse)

lemma fput_fget_other: "fput ob (fget ob' sc) = fget ob' (fput ob sc)"
  by (simp add: fget_shift fput_shift shift_commute [of ob])

lemma incr_fc_refs: "fast_classifier_incr_exceptions e (sc\<lparr>fc_refs := f\<rparr>) = (fast_classifier_incr_exceptions e sc)\<lparr>fc_refs := f\<rparr>"
  by (simp add: fast_classifier_incr_exceptions_def)

named_theorems fc_frame

lemma incr_fc_frame [fc_frame]:
  "fc_v4 (fast_classifier_incr_exceptions e sc) = fc_v4 sc" "fc_v6 (fast_classifier_incr_exceptions e sc) = fc_v6 sc"
  "fc_ct (fast_classifier_incr_exceptions e sc) = fc_ct sc" "fc_refs (fast_classifier_incr_exceptions e sc) = fc_refs sc"
  "fc_recv_hook (fast_classifier_incr_exceptions e sc) = fc_recv_hook sc"
  "fc_registered (fast_classifier_incr_exceptions e sc) = fc_registered sc"
  "offload_at_pkts (fast_classifier_incr_exceptions e sc) = offload_at_pkts sc"
  "skip_to_bridge_ingress (fast_classifier_incr_exceptions e sc) = skip_to_bridge_ingress sc"
  "fc_live (fast_classifier_incr_exceptions e sc) = fc_live sc" "fc_conns (fast_classifier_incr_exceptions e sc) = fc_conns sc"
  by (simp_all add: fast_classifier_incr_exceptions_def)

lemma incr_same_table [fc_frame]: "same_table sc (fast_classifier_incr_exceptions e sc)"
  by (simp add: fast_classifier_incr_exceptions_def same_table_def)

text \<open>An operation that touches neither table nor hooks; engines and conntrack may change.\<close>

definition fc_keeps :: "fast_classifier \<Rightarrow> fast_classifier \<Rightarrow> bool" where
  "fc_keeps sc sc' \<longleftrightarrow> same_table sc sc' \<and> fc_refs sc' = fc_refs sc \<and> fc_recv_hook sc' = fc_recv_hook sc
     \<and> fc_registered sc' = fc_registered sc \<and> offload_at_pkts sc' = offload_at_pkts sc
     \<and> skip_to_bridge_ingress sc' = skip_to_bridge_ingress sc"

lemma fc_keeps_refl [simp]: "fc_keeps sc sc"
  and fc_keeps_trans: "fc_keeps a b \<Longrightarrow> fc_keeps b c \<Longrightarrow> fc_keeps a c"
  by (auto simp: fc_keeps_def dest: same_table_trans)

definition fc_sync_cts :: "cm_kernel \<Rightarrow> sfe_connection_sync \<Rightarrow> (nat \<Rightarrow> nf_conn) \<Rightarrow> nat \<Rightarrow> nf_conn" where
  "fc_sync_cts k sis f = (case ck_conntrack_find k (sync_tuple sis) of
     None \<Rightarrow> f | Some ct \<Rightarrow> f(ct := fast_classifier_sync_conn sis (f ct)))"

lemma fc_sync_rule_eq: "fast_classifier_sync_rule k sis sc = sc\<lparr>fc_ct := fc_sync_cts k sis (fc_ct sc)\<rparr>"
  by (simp add: fast_classifier_sync_rule_def fc_sync_cts_def fget_shift fput_shift shift_inverse split: option.split)

lemma fc_deliver_eq: "fc_deliver k out sc = sc\<lparr>fc_ct := fold (fc_sync_cts k \<circ> snd) out (fc_ct sc)\<rparr>"
  unfolding fc_deliver_def by (induction out arbitrary: sc) (simp_all add: split_beta fc_sync_rule_eq)

lemma fc_deliver_frame [fc_frame]:
  "fc_v4 (fc_deliver k out sc) = fc_v4 sc" "fc_v6 (fc_deliver k out sc) = fc_v6 sc" "fc_keeps sc (fc_deliver k out sc)"
  by (simp_all add: fc_deliver_eq fc_keeps_def same_table_def)

lemma fc_find_dev_eq:
  "fast_classifier_find_dev_and_mac_addr k addr is_v4 mac sc =
     (resolve k addr is_v4 mac, case resolve k addr is_v4 mac of None \<Rightarrow> sc | Some (dev, _) \<Rightarrow> fget (Kdev dev) sc)"
proof -
  have e: "fput (Kdst d) (fput (Kneigh n) (fget (Kdev v) (fget (Kneigh n) (fget (Kdst d) sc)))) = fget (Kdev v) sc"
    "fput (Kdst d) (fput (Kneigh n) (fget (Kneigh n) (fget (Kdst d) sc))) = sc" for d n v
    by (simp_all add: fput_fget_other [of _ "Kdev v"])
  show ?thesis
    unfolding fast_classifier_find_dev_and_mac_addr_def resolve_def Let_def
    by (simp add: e split: option.split Option.bind_split)
qed

section \<open>The engines\<close>

definition fc_good :: "fast_classifier \<Rightarrow> bool" where
  "fc_good sc \<longleftrightarrow> sfe_good (fc_v4 sc) \<and> sfe_good6 (fc_v6 sc)"

definition fc_allocs_ok :: "allocs \<Rightarrow> bool \<Rightarrow> fast_classifier \<Rightarrow> bool" where
  "fc_allocs_ok al is_v4 sc \<longleftrightarrow> (case al of
     (Some c, Some oc, Some r) \<Rightarrow> if is_v4 then fresh (fc_v4 sc) c oc r else fresh6 (fc_v6 sc) c oc r
   | _ \<Rightarrow> True)"

text \<open>The rules of both engines are the same, but for the creation \<open>sic\<close>.\<close>

definition same_engine_rules :: "fast_classifier \<Rightarrow> fast_classifier \<Rightarrow> bool" where
  "same_engine_rules sc sc' \<longleftrightarrow> sfe_rules (fc_v4 sc') = sfe_rules (fc_v4 sc) \<and> sfe_rules6 (fc_v6 sc') = sfe_rules6 (fc_v6 sc)"

definition engine_created :: "cm_kernel \<Rightarrow> allocs \<Rightarrow> bool \<Rightarrow> sfe_connection_create \<Rightarrow> fast_classifier \<Rightarrow> fast_classifier \<Rightarrow> bool" where
  "engine_created k al is_v4 sic sc sc' \<longleftrightarrow>
     (if is_v4
      then fc_v6 sc' = fc_v6 sc \<and> sfe_rules (fc_v4 sc') = request_effect (create_request k al sic) (sfe_rules (fc_v4 sc))
      else fc_v4 sc' = fc_v4 sc \<and> sfe_rules6 (fc_v6 sc') = request_effect6 (create_request6 k al sic) (sfe_rules6 (fc_v6 sc)))"

definition has_rule :: "bool \<Rightarrow> fast_classifier \<Rightarrow> sfe_connection_create \<Rightarrow> bool" where
  "has_rule is_v4 sc sic \<longleftrightarrow>
     (if is_v4 then sfe_rules (fc_v4 sc) (sic_key sic) \<noteq> None else sfe_rules6 (fc_v6 sc) (sic_key6 sic) \<noteq> None)"

lemma create_rc:
  assumes g: "sfe_good si" and c: "sfe_ipv4_create_rule devs j kc ko kr si sic = Some (rc, si')"
  shows "rc = 0 \<or> rc = - EADDRINUSE \<longleftrightarrow> devs_up devs sic
    \<and> (sfe_rules si (sic_key sic) \<noteq> None \<or> kc \<noteq> None \<and> ko \<noteq> None \<and> kr \<noteq> None)"
proof -
  from g obtain g0 where "sfe_inv si g0 []" by (rule good_invE)
  from create_rule_result [OF this, of devs j kc ko kr sic, unfolded c] show ?thesis
    by (auto simp: EINVAL_def ENOMEM_def EADDRINUSE_def sfe_rules_def split: if_splits option.splits)
qed

lemma create_rc6:
  assumes g: "sfe_good6 si" and c: "sfe_ipv6_create_rule devs j kc ko kr si sic = Some (rc, si')"
  shows "rc = 0 \<or> rc = - EADDRINUSE \<longleftrightarrow> devs_up6 devs sic
    \<and> (sfe_rules6 si (sic_key6 sic) \<noteq> None \<or> kc \<noteq> None \<and> ko \<noteq> None \<and> kr \<noteq> None)"
proof -
  from g obtain g0 where "sfe_inv6 si g0 []" by (rule good_invE6)
  from create_rule_result6 [OF this, of devs j kc ko kr sic, unfolded c] show ?thesis
    by (auto simp: EINVAL_def ENOMEM_def EADDRINUSE_def sfe_rules6_def split: if_splits option.splits)
qed

text \<open>What \<open>sfe_ipv4_create_rule\<close> and \<open>sfe_ipv6_create_rule\<close> need to report success, or a rule that is there already.\<close>

definition fc_accepts :: "cm_kernel \<Rightarrow> allocs \<Rightarrow> bool \<Rightarrow> sfe_connection_create \<Rightarrow> fast_classifier \<Rightarrow> bool" where
  "fc_accepts k al is_v4 sic sc \<longleftrightarrow> (if is_v4 then devs_up (ck_devs k) sic else devs_up6 (ck_devs k) sic)
     \<and> (has_rule is_v4 sc sic \<or> fst al \<noteq> None \<and> fst (snd al) \<noteq> None \<and> snd (snd al) \<noteq> None)"

lemma created_has_rule:
  assumes "engine_created k al is_v4 sic sc sc'" and "fc_accepts k al is_v4 sic sc"
  shows "has_rule is_v4 sc' sic"
  using assms
  by (cases is_v4) (auto simp: engine_created_def fc_accepts_def has_rule_def create_request_def create_request6_def sic_rule_def sic_rule6_def)

text \<open>Only the engines are different.\<close>

definition only_engines :: "fast_classifier \<Rightarrow> fast_classifier \<Rightarrow> bool" where
  "only_engines sc sc' \<longleftrightarrow> (\<exists>si si6. sc' = sc\<lparr>fc_v4 := si, fc_v6 := si6\<rparr>)"

lemma only_engines_keeps: "only_engines sc sc' \<Longrightarrow> fc_keeps sc sc' \<and> fc_ct sc' = fc_ct sc"
  by (auto simp: only_engines_def fc_keeps_def same_table_def)

lemma only_engines_v4 [simp]: "only_engines sc (sc\<lparr>fc_v4 := si\<rparr>)" and only_engines_v6 [simp]: "only_engines sc (sc\<lparr>fc_v6 := si6\<rparr>)"
  and only_engines_refl [simp]: "only_engines sc sc"
  unfolding only_engines_def by (metis (no_types) fast_classifier.surjective fast_classifier.update_convs(2,3))+

lemma fc_create_law:
  assumes "fc_good sc" and "fc_allocs_ok al is_v4 sc"
  shows "\<exists>ret sc'. fc_create_rule k al is_v4 sic sc = Some (ret, sc') \<and> fc_good sc' \<and> only_engines sc sc'
    \<and> engine_created k al is_v4 sic sc sc' \<and> (ret = 0 \<or> ret = - EADDRINUSE \<longleftrightarrow> fc_accepts k al is_v4 sic sc)"
proof (cases is_v4)
  case True
  have g: "sfe_good (fc_v4 sc)" using assms(1) by (simp add: fc_good_def)
  have e: "request_enabled (create_request k al sic) (fc_v4 sc)"
    using assms(2) True by (cases al) (auto simp: fc_allocs_ok_def create_request_def split: option.splits)
  obtain si' where r: "run_request (create_request k al sic) (fc_v4 sc) = Some si'" "sfe_good si'"
    "sfe_rules si' = request_effect (create_request k al sic) (sfe_rules (fc_v4 sc))"
    using v4.run_law [OF g e] by (elim exE conjE) (rule that)
  then obtain ret where c: "sfe_ipv4_create_rule (ck_devs k) (ck_jiffies k) (fst al) (fst (snd al)) (snd (snd al)) (fc_v4 sc) sic = Some (ret, si')"
    by (auto simp: create_request_def)
  note has = create_rc [OF g c]
  show ?thesis
    using assms(1) r c has True by (simp add: fc_create_rule_def engine_created_def fc_good_def fc_accepts_def has_rule_def del: not_None_eq)
next
  case False
  have g: "sfe_good6 (fc_v6 sc)" using assms(1) by (simp add: fc_good_def)
  have e: "request_enabled6 (create_request6 k al sic) (fc_v6 sc)"
    using assms(2) False by (cases al) (auto simp: fc_allocs_ok_def create_request6_def split: option.splits)
  obtain si' where r: "run_request6 (create_request6 k al sic) (fc_v6 sc) = Some si'" "sfe_good6 si'"
    "sfe_rules6 si' = request_effect6 (create_request6 k al sic) (sfe_rules6 (fc_v6 sc))"
    using v6.run_law [OF g e] by (elim exE conjE) (rule that)
  then obtain ret where c: "sfe_ipv6_create_rule (ck_devs k) (ck_jiffies k) (fst al) (fst (snd al)) (snd (snd al)) (fc_v6 sc) sic = Some (ret, si')"
    by (auto simp: create_request6_def)
  note has = create_rc6 [OF g c]
  show ?thesis
    using assms(1) r c has False by (simp add: fc_create_rule_def engine_created_def fc_good_def fc_accepts_def has_rule_def del: not_None_eq)
qed

lemma fc_update_law:
  assumes "fc_good sc"
  shows "\<exists>sc'. fc_update_rule is_v4 sic sc = Some sc' \<and> fc_good sc' \<and> only_engines sc sc' \<and> same_engine_rules sc sc'"
proof (cases is_v4)
  case True
  have g: "sfe_good (fc_v4 sc)" using assms by (simp add: fc_good_def)
  obtain si' where "sfe_ipv4_update_rule (fc_v4 sc) sic = Some si'" "sfe_good si'" "sfe_rules si' = sfe_rules (fc_v4 sc)"
    using v4.run_law [OF g, of "Update sic"] by auto
  then show ?thesis using assms True by (simp add: fc_update_rule_def fc_good_def same_engine_rules_def)
next
  case False
  have g: "sfe_good6 (fc_v6 sc)" using assms by (simp add: fc_good_def)
  obtain si' where "sfe_ipv6_update_rule (fc_v6 sc) sic = Some si'" "sfe_good6 si'" "sfe_rules6 si' = sfe_rules6 (fc_v6 sc)"
    using v6.run_law [OF g, of "Update6 sic"] by auto
  then show ?thesis using assms False by (simp add: fc_update_rule_def fc_good_def same_engine_rules_def)
qed

end
