(* ===== verification/SFE_FC_Hook.thy ===== *)
theory SFE_FC_Hook
  imports SFE_FC_Laws
begin

text \<open>
  The post routing hook of the fast classifier: the message and where it comes from, the two outcomes
  (a new flow enters the table, a known one is counted and perhaps offloaded), the references.
\<close>

section \<open>The message\<close>

definition fc_eligible :: "cm_kernel \<Rightarrow> bool \<Rightarrow> fc_skb \<Rightarrow> nf_conn \<Rightarrow> bool" where
  "fc_eligible k is_v4 skb ct \<longleftrightarrow> cs_pkt_type skb \<notin> {PACKET_BROADCAST, PACKET_MULTICAST}
     \<and> ck_dev_by_index k (cs_iif skb) \<noteq> None \<and> \<not> ct_untracked ct \<and> ct_confirmed ct \<and> \<not> ct_helper ct
     \<and> \<not> multicast is_v4 (tp_src (ct_orig_tuple ct)) \<and> \<not> multicast is_v4 (tp_dst (ct_orig_tuple ct))
     \<and> (tp_protonum (ct_orig_tuple ct) = IPPROTO_TCP \<and> ct_assured ct \<or> tp_protonum (ct_orig_tuple ct) = IPPROTO_UDP)"

lemma fc_admit_iff:
  "fc_admit k sc skb = Inr ctp \<longleftrightarrow> cs_pkt_type skb \<notin> {PACKET_BROADCAST, PACKET_MULTICAST}
     \<and> ck_dev_by_index k (cs_iif skb) \<noteq> None \<and> (\<exists>dir. cs_ct skb = Some (ctp, dir))
     \<and> \<not> ct_untracked (fc_ct sc ctp) \<and> ct_confirmed (fc_ct sc ctp) \<and> \<not> ct_helper (fc_ct sc ctp)"
  unfolding fc_admit_def Let_def by (auto split: option.split prod.split)

lemma fc_addresses_iff:
  "fc_addresses is_v4 skb ct = Inr sic \<Longrightarrow>
     \<not> multicast is_v4 (tp_src (ct_orig_tuple ct)) \<and> \<not> multicast is_v4 (tp_dst (ct_orig_tuple ct))
     \<and> sic_protocol sic = ucast (tp_protonum (ct_orig_tuple ct))
     \<and> same_addr is_v4 (sic_src_ip sic) (tp_src (ct_orig_tuple ct)) \<and> same_addr is_v4 (sic_dest_ip sic) (tp_dst (ct_orig_tuple ct))
     \<and> same_addr is_v4 (sic_src_ip_xlate sic) (tp_dst (ct_reply_tuple ct))
     \<and> same_addr is_v4 (sic_dest_ip_xlate sic) (tp_src (ct_reply_tuple ct))"
  by (cases is_v4) (auto simp: fc_addresses_def Let_def set_ip_def multicast_def same_addr_def zero_sic_def split: if_splits)

lemma fc_addresses_ok:
  "\<not> multicast is_v4 (tp_src (ct_orig_tuple ct)) \<Longrightarrow> \<not> multicast is_v4 (tp_dst (ct_orig_tuple ct))
     \<Longrightarrow> \<exists>sic. fc_addresses is_v4 skb ct = Inr sic"
  by (cases is_v4) (simp_all add: fc_addresses_def Let_def set_ip_def multicast_def)

lemma fc_protocol_ok:
  assumes "sic_protocol sic = ucast (tp_protonum (ct_orig_tuple ct))"
  shows "(\<exists>sic'. fc_protocol ct sic = Inr sic')
    \<longleftrightarrow> tp_protonum (ct_orig_tuple ct) = IPPROTO_TCP \<and> ct_assured ct \<or> tp_protonum (ct_orig_tuple ct) = IPPROTO_UDP"
  using assms by (auto simp: fc_protocol_def Let_def tcp_udp)

lemma fc_protocol_fields:
  assumes "fc_protocol ct sic = Inr sic'"
  shows "sic' = post_routing_ports ct sic" "sic_protocol sic = ucast IPPROTO_TCP \<or> sic_protocol sic = ucast IPPROTO_UDP"
  using assms by (auto simp: fc_protocol_def Let_def split: if_splits)

lemma fc_accel_fields:
  "sic_key (fc_accel skb sic) = sic_key sic" "sic_xlate (fc_accel skb sic) = sic_xlate sic"
  "sic_key6 (fc_accel skb sic) = sic_key6 sic" "sic_xlate6 (fc_accel skb sic) = sic_xlate6 sic"
  "sic_protocol (fc_accel skb sic) = sic_protocol sic"
  by (simp_all add: fc_accel_def Let_def sic_key_def sic_xlate_def sic_key6_def sic_xlate6_def)

lemma ports_fields:
  "sic_key (post_routing_ports ct sic) = (sic_protocol sic, sa_ip (sic_src_ip sic), tp_src_port (ct_orig_tuple ct),
     sa_ip (sic_dest_ip sic), tp_dst_port (ct_orig_tuple ct))"
  "sic_key6 (post_routing_ports ct sic) = (sic_protocol sic, sic_src_ip sic, tp_src_port (ct_orig_tuple ct),
     sic_dest_ip sic, tp_dst_port (ct_orig_tuple ct))"
  "sic_xlate (post_routing_ports ct sic) = (sa_ip (sic_src_ip_xlate sic), tp_dst_port (ct_reply_tuple ct),
     sa_ip (sic_dest_ip_xlate sic), tp_src_port (ct_reply_tuple ct))"
  "sic_xlate6 (post_routing_ports ct sic) = (sic_src_ip_xlate sic, tp_dst_port (ct_reply_tuple ct),
     sic_dest_ip_xlate sic, tp_src_port (ct_reply_tuple ct))"
  "sic_protocol (post_routing_ports ct sic) = sic_protocol sic"
  by (simp_all add: post_routing_ports_def Let_def sic_key_def sic_xlate_def sic_key6_def sic_xlate6_def)

lemma fc_message_fields:
  assumes "fc_message k is_v4 skb sc = Inr (ctp, sic)"
  shows "\<exists>dir. cs_ct skb = Some (ctp, dir)" "fc_eligible k is_v4 skb (fc_ct sc ctp)" "made_from is_v4 sic (fc_ct sc ctp)"
    "sic_protocol sic = ucast IPPROTO_TCP \<or> sic_protocol sic = ucast IPPROTO_UDP"
proof -
  obtain s1 s2 where a: "fc_admit k sc skb = Inr ctp" and b: "fc_addresses is_v4 skb (fc_ct sc ctp) = Inr s1"
    and c: "fc_protocol (fc_ct sc ctp) s1 = Inr s2" and d: "sic = fc_accel skb s2"
    using assms by (auto simp: fc_message_def split: sum.splits)
  note A = a [unfolded fc_admit_iff] and B = fc_addresses_iff [OF b] and C = fc_protocol_fields [OF c]
  show "\<exists>dir. cs_ct skb = Some (ctp, dir)" using A by blast
  show "sic_protocol sic = ucast IPPROTO_TCP \<or> sic_protocol sic = ucast IPPROTO_UDP"
    using C by (simp add: d fc_accel_fields ports_fields)
  show "fc_eligible k is_v4 skb (fc_ct sc ctp)"
    unfolding fc_eligible_def using A B fc_protocol_ok [of s1 "fc_ct sc ctp"] c by blast
  show "made_from is_v4 sic (fc_ct sc ctp)"
    using B C(1)
    by (simp add: d fc_accel_fields ports_fields made_from_def same_addr_def tuple_key_def tuple_xlate_def
        tuple_key6_def tuple_xlate6_def split: if_splits)
qed

lemma fc_message_iff:
  "(\<exists>sic. fc_message k is_v4 skb sc = Inr (ctp, sic))
     \<longleftrightarrow> (\<exists>dir. cs_ct skb = Some (ctp, dir)) \<and> fc_eligible k is_v4 skb (fc_ct sc ctp)"
proof
  assume r: "(\<exists>dir. cs_ct skb = Some (ctp, dir)) \<and> fc_eligible k is_v4 skb (fc_ct sc ctp)"
  then have a: "fc_admit k sc skb = Inr ctp" by (simp add: fc_admit_iff fc_eligible_def)
  obtain s1 where b: "fc_addresses is_v4 skb (fc_ct sc ctp) = Inr s1"
    using fc_addresses_ok [of is_v4 "fc_ct sc ctp" skb] r by (auto simp: fc_eligible_def)
  have "sic_protocol s1 = ucast (tp_protonum (ct_orig_tuple (fc_ct sc ctp)))" using fc_addresses_iff [OF b] by simp
  then obtain s2 where "fc_protocol (fc_ct sc ctp) s1 = Inr s2" using fc_protocol_ok r by (auto simp: fc_eligible_def)
  then show "\<exists>sic. fc_message k is_v4 skb sc = Inr (ctp, sic)" by (simp add: fc_message_def a b)
qed (use fc_message_fields(1,2) in blast)

section \<open>The rules of both engines as a set of flow keys\<close>

definition fc_rules :: "fast_classifier \<Rightarrow> fc_key set" where
  "fc_rules sc = {key. \<exists>v sic. key = msg_key v sic \<and> has_rule v sc sic}"

lemma sa_ip_addr_key [simp]: "sa_ip (addr_key v a) = sa_ip a"
  by (simp add: addr_key_def zero_addr_def)

lemma addr_key_eq: "addr_key True a = addr_key True b \<longleftrightarrow> sa_ip a = sa_ip b" "addr_key False a = a"
  by (auto simp: addr_key_def zero_addr_def)

lemma msg_key_eq:
  "msg_key v sic = msg_key v' sic' \<longleftrightarrow> v' = v \<and> (if v then sic_key sic = sic_key sic' else sic_key6 sic = sic_key6 sic')"
  by (cases v; cases v') (auto simp: msg_key_def sic_key_def sic_key6_def addr_key_eq)

lemma rules_iff: "msg_key v sic \<in> fc_rules sc \<longleftrightarrow> has_rule v sc sic"
  unfolding fc_rules_def has_rule_def by (auto simp: msg_key_eq split: if_splits)

lemma same_rules_set: "same_engine_rules sc sc' \<Longrightarrow> fc_rules sc' = fc_rules sc"
  unfolding fc_rules_def has_rule_def same_engine_rules_def by simp

lemma engine_created_set:
  assumes "engine_created k al v sic sc sc'"
  shows "fc_rules sc \<subseteq> fc_rules sc'" "fc_rules sc' \<subseteq> insert (msg_key v sic) (fc_rules sc)"
proof -
  have "has_rule v' sc' s \<longleftrightarrow> has_rule v' sc s \<or> (msg_key v' s = msg_key v sic \<and> has_rule v sc' sic)" for v' s
    using assms unfolding has_rule_def engine_created_def msg_key_eq create_request_def create_request6_def
    by (cases v; cases v') auto
  then show "fc_rules sc \<subseteq> fc_rules sc'" "fc_rules sc' \<subseteq> insert (msg_key v sic) (fc_rules sc)"
    unfolding fc_rules_def by blast+
qed

end
