(* ===== verification/SFE_FC_Flows.thy ===== *)
theory SFE_FC_Flows
  imports SFE_FC_Hook
begin

text \<open>
  What one packet does to its flow: a flow that is not in the table enters it, one that is there is
  counted and perhaps offloaded.
\<close>

section \<open>A new flow\<close>

text \<open>The references after the hook: off only on bridge ports and their bridges.\<close>

definition refs_ok :: "cm_kernel \<Rightarrow> (kobj \<Rightarrow> int) \<Rightarrow> (kobj \<Rightarrow> int) \<Rightarrow> bool" where
  "refs_ok k f f' \<longleftrightarrow> (\<forall>ob. f' ob \<noteq> f ob \<longrightarrow>
     (\<exists>port. nd_bridge_port (ck_devs k port) \<and> (ob = Kdev port \<or> (\<exists>br. ck_master k port = Some br \<and> ob = Kdev br))))"

lemma refs_ok_refl [simp]: "refs_ok k f f"
  and refs_ok_trans: "refs_ok k f g \<Longrightarrow> refs_ok k g h \<Longrightarrow> refs_ok k f h"
  by (auto simp: refs_ok_def) metis

lemma refs_ok_port: "nd_bridge_port (ck_devs k port) \<Longrightarrow> refs_ok k f (shift (Kdev port) n f)"
  and refs_ok_master: "nd_bridge_port (ck_devs k port) \<Longrightarrow> ck_master k port = Some br \<Longrightarrow> refs_ok k f (shift (Kdev br) n f)"
  by (auto simp: refs_ok_def shift_def)

lemma refs_ok_drift: "refs_ok k f (drift k dev f)"
  unfolding drift_def bridged_def
  by (auto split: option.split if_splits intro: refs_ok_trans [OF refs_ok_master refs_ok_port])

text \<open>The four lookups fail with the exceptions of the other manager.\<close>

fun fc_refusal :: "sfe_cm_exception \<Rightarrow> fast_classifier_exception" where
  "fc_refusal CM_NO_SRC_DEV = FC_NO_SRC_DEV"
| "fc_refusal CM_NO_SRC_XLATE_DEV = FC_NO_SRC_XLATE_DEV"
| "fc_refusal CM_NO_DEST_DEV = FC_NO_DEST_DEV"
| "fc_refusal _ = FC_NO_DEST_XLATE_DEV"

lemma incr_fget: "fast_classifier_incr_exceptions e (fget ob sc) = fget ob (fast_classifier_incr_exceptions e sc)"
  by (simp add: fast_classifier_incr_exceptions_def fget_def)

lemma fc_new_eq:
  "fc_new k mem is_v4 skb ctp sic sc =
     (case resolved (fk k) is_v4 sic of
        Inl e \<Rightarrow> fast_classifier_incr_exceptions (fc_refusal e) sc
      | Inr (sic, src, dest) \<Rightarrow> fc_bridge k mem is_v4 skb ctp sic src dest (fget (Kdev dest) (fget (Kdev src) sc)))"
  unfolding fc_new_def fc_find_dev_eq resolved_def Let_def
  by (simp add: incr_fget split: option.split prod.split)

text \<open>The complete message of a flow that gets as far as the table.\<close>

definition fc_offer :: "cm_kernel \<Rightarrow> bool \<Rightarrow> fc_skb \<Rightarrow> sfe_connection_create \<Rightarrow> sfe_connection_create option" where
  "fc_offer k is_v4 skb sic =
     (case resolved k is_v4 sic of
        Inl _ \<Rightarrow> None
      | Inr (sic, src, dest) \<Rightarrow> (case bridged k src of
           None \<Rightarrow> None
         | Some s \<Rightarrow> map_option (\<lambda>d. (with_devs k s d sic)\<lparr>sic_mark := fs_mark skb\<rparr>) (bridged k dest)))"

definition at_refs :: "(kobj \<Rightarrow> int) \<Rightarrow> fast_classifier \<Rightarrow> fast_classifier" where
  "at_refs f sc = sc\<lparr>fc_refs := f\<rparr>"

lemma fget_at: "fget ob sc = at_refs (shift ob 1 (fc_refs sc)) sc"
  and fput_at: "fput ob sc = at_refs (shift ob (- 1) (fc_refs sc)) sc"
  by (simp_all add: fget_shift fput_shift at_refs_def)

lemma at_refs_simps [simp]: "at_refs f (at_refs g sc) = at_refs f sc" "fc_refs (at_refs f sc) = f"
  "fast_classifier_incr_exceptions e (at_refs f sc) = at_refs f (fast_classifier_incr_exceptions e sc)"
  "at_refs (fc_refs sc) sc = sc"
  by (simp_all add: at_refs_def fast_classifier_incr_exceptions_def)

lemma at_refs_find: "fast_classifier_find_conn k (at_refs f sc) = fast_classifier_find_conn k sc"
  by (intro ext) (simp add: fast_classifier_find_conn_def fc_walk_def at_refs_def)

lemma at_refs_insert: "fc_insert k mem v ctp sic (at_refs f sc) = map_prod id (at_refs f) (fc_insert k mem v ctp sic sc)"
proof -
  have c: "fast_classifier_find_conn k (sc\<lparr>fc_refs := f, fc_live := L, fc_conns := C\<rparr>)
      = fast_classifier_find_conn k (sc\<lparr>fc_live := L, fc_conns := C\<rparr>)" for L C
    by (intro ext) (simp add: fast_classifier_find_conn_def fc_walk_def)
  show ?thesis
    unfolding at_refs_def fc_insert_def fast_classifier_add_conn_def Let_def
    by (auto simp: c split: option.split)
qed

lemma fc_insert_refs [simp]: "fc_refs (snd (fc_insert k mem v ctp sic sc)) = fc_refs sc"
  unfolding fc_insert_def fast_classifier_add_conn_def Let_def by (simp split: option.split)

text \<open>Without memory for the flow, the port the destination was replaced for stays held, its bridge does not.\<close>

definition port_held :: "cm_kernel \<Rightarrow> dev_ptr \<Rightarrow> (kobj \<Rightarrow> int) \<Rightarrow> kobj \<Rightarrow> int" where
  "port_held k dev f = (if nd_bridge_port (ck_devs k dev) then shift (Kdev dev) 1 f else f)"

lemma refs_ok_held: "refs_ok k f (port_held k dev f)"
  by (simp add: port_held_def refs_ok_port)

lemma at_refs_cong: "f = g \<Longrightarrow> at_refs f sc = at_refs g sc"
  by simp

lemma fc_bridge_eq:
  "fc_bridge k mem is_v4 skb ctp sic src dest (fget (Kdev dest) (fget (Kdev src) sc)) =
     (case bridged (fk k) src of
        None \<Rightarrow> fast_classifier_incr_exceptions FC_NO_BRIDGE sc
      | Some s \<Rightarrow>
         (case bridged (fk k) dest of
            None \<Rightarrow> at_refs (drift (fk k) src (fc_refs sc)) (fast_classifier_incr_exceptions FC_NO_BRIDGE sc)
          | Some d \<Rightarrow>
             (let (ok, sc1) = fc_insert k mem is_v4 ctp ((with_devs (fk k) s d sic)\<lparr>sic_mark := fs_mark skb\<rparr>) sc
              in at_refs ((if ok then drift (fk k) dest else port_held (fk k) dest) (drift (fk k) src (fc_refs sc))) sc1)))"
proof -
  have m: "sic\<lparr>sic_src_dev := s, sic_dest_dev := d, sic_src_mtu := nd_mtu (ck_devs (fk k) s),
      sic_dest_mtu := nd_mtu (ck_devs (fk k) d), sic_mark := fs_mark skb\<rparr> = (with_devs (fk k) s d sic)\<lparr>sic_mark := fs_mark skb\<rparr>" for s d
    by (simp add: with_devs_def)
  have r: "at_refs (fc_refs sc) (fast_classifier_incr_exceptions e sc) = fast_classifier_incr_exceptions e sc" for e
    by (simp add: at_refs_def fast_classifier_incr_exceptions_def)
  have i: "fc_refs (snd (fc_insert k mem is_v4 ctp m sc)) = fc_refs sc" for m by simp
  show ?thesis
    unfolding fc_bridge_def Let_def fc_get_master_def fget_at fput_at m
    by (cases "nd_bridge_port (ck_devs (fk k) src)"; cases "nd_bridge_port (ck_devs (fk k) dest)";
      cases "ck_master (fk k) src"; cases "ck_master (fk k) dest")
      (simp_all add: bridged_def at_refs_insert split_beta,
       (auto simp: drift_def bridged_def port_held_def shift_def fun_eq_iff i split: if_splits intro!: at_refs_cong trans [OF at_refs_cong r])+)
qed

lemma fc_new_cases:
  "(case fc_offer (fk k) is_v4 skb sic of
      None \<Rightarrow> \<exists>e f. fc_new k mem is_v4 skb ctp sic sc = at_refs f (fast_classifier_incr_exceptions e sc) \<and> refs_ok (fk k) (fc_refs sc) f
    | Some m \<Rightarrow> \<exists>f. fc_new k mem is_v4 skb ctp sic sc = at_refs f (snd (fc_insert k mem is_v4 ctp m sc)) \<and> refs_ok (fk k) (fc_refs sc) f)"
proof -
  have r: "\<exists>e' f. fast_classifier_incr_exceptions e sc = at_refs f (fast_classifier_incr_exceptions e' sc) \<and> refs_ok (fk k) (fc_refs sc) f" for e
    by (intro exI [of _ e] exI [of _ "fc_refs sc"]) (simp add: at_refs_def fast_classifier_incr_exceptions_def)
  show ?thesis
  proof (cases "resolved (fk k) is_v4 sic")
    case (Inl e)
    then show ?thesis using r by (simp add: fc_offer_def fc_new_eq)
  next
    case (Inr x)
    obtain sic' src dest where x: "x = (sic', src, dest)" by (cases x)
    show ?thesis
    proof (cases "bridged (fk k) src")
      case None
      then show ?thesis using r by (simp add: fc_offer_def fc_new_eq fc_bridge_eq Inr x)
    next
      case s: (Some s)
      show ?thesis
      proof (cases "bridged (fk k) dest")
        case None
        then show ?thesis
          using refs_ok_drift [of "fk k" "fc_refs sc" src] by (auto simp: fc_offer_def fc_new_eq fc_bridge_eq Inr x s)
      next
        case (Some d)
        then show ?thesis
          using refs_ok_trans [OF refs_ok_drift refs_ok_drift] refs_ok_trans [OF refs_ok_drift refs_ok_held]
          by (auto simp: fc_offer_def fc_new_eq fc_bridge_eq Inr x s split_beta)
      qed
    qed
  qed
qed

lemma fc_offer_fields:
  assumes "fc_offer k is_v4 skb sic = Some m"
  shows "sic_key m = sic_key sic" "sic_xlate m = sic_xlate sic" "sic_key6 m = sic_key6 sic" "sic_xlate6 m = sic_xlate6 sic"
    "sic_protocol m = sic_protocol sic"
  using assms
  by (auto simp: fc_offer_def resolved_def with_devs_def sic_key_def sic_xlate_def sic_key6_def sic_xlate6_def
      split: sum.splits option.splits prod.splits)

text \<open>The memory \<open>kmalloc\<close> returns for a flow is not in use.\<close>

definition mem_ok :: "ptr option \<times> bool \<Rightarrow> fast_classifier \<Rightarrow> bool" where
  "mem_ok mem sc \<longleftrightarrow> (\<forall>p. fst mem = Some p \<longrightarrow> p \<notin> fc_live sc)"

definition new_conn :: "bool \<Rightarrow> nat \<Rightarrow> sfe_connection_create \<Rightarrow> sfe_connection" where
  "new_conn is_v4 ctp sic = \<lparr>fcc_sic = sic, fcc_ct = ctp, fcc_hits = 0, fcc_offload_permit = False, fcc_offloaded = False,
     fcc_is_v4 = is_v4, fcc_smac = sic_src_mac sic, fcc_dmac = sic_dest_mac_xlate sic\<rparr>"

lemma new_conn_table:
  fixes c
  assumes t: "table_ok bk sc" and p: "p \<notin> fc_live sc"
  defines "sc1 \<equiv> sc\<lparr>fc_live := insert p (fc_live sc), fc_conns := (fc_conns sc)(p := c)\<rparr>"
  shows "table_ok bk sc1" "fc_map bk sc1 = fc_map bk sc" "in_table sc1 = in_table sc" "p \<notin> in_table sc"
proof -
  have it: "in_table sc1 = in_table sc" by (simp add: in_table_def sc1_def)
  show n: "p \<notin> in_table sc" using table_okD(5) [OF t] p by blast
  have c: "fc_conns sc1 q = fc_conns sc q" if "q \<in> in_table sc" for q using that n by (auto simp: sc1_def)
  have b: "distinct (fc_conn_ht sc1 b) \<and> (\<forall>q \<in> set (fc_conn_ht sc1 b). bk (key_hash (flow_key (fc_conns sc1 q))) = b)" for b
    using table_okD(1,2) [OF t] c in_tableI [of _ sc b] by (auto simp: sc1_def)
  have i: "inj_on (\<lambda>q. flow_key (fc_conns sc1 q)) (in_table sc)"
    using table_okD(3) [OF t] by (rule inj_on_cong [THEN iffD1, rotated]) (simp add: c)
  have z: "sfe_connections_size sc1 = of_nat (card (in_table sc1))" "in_table sc1 \<subseteq> fc_live sc1" "finite (in_table sc1)"
    "\<forall>q \<in> in_table sc1. flow_typed (fc_conns sc1 q)"
    using table_okD(4,5,6,7) [OF t] unfolding it by (auto simp: c) (auto simp: sc1_def)
  show t1: "table_ok bk sc1"
    unfolding table_ok_def using b i z by (simp add: it)
  show "fc_map bk sc1 = fc_map bk sc"
  proof
    fix key
    have "fc_lookup bk sc1 key = Some q \<longleftrightarrow> fc_lookup bk sc key = Some q" for q
      unfolding fc_lookup_iff [OF t1] fc_lookup_iff [OF t] it using c by auto
    then have l: "fc_lookup bk sc1 key = fc_lookup bk sc key" by (rule option_eqI)
    show "fc_map bk sc1 key = fc_map bk sc key"
      using c fc_lookup_iff [OF t, of key] unfolding fc_map_def l by (cases "fc_lookup bk sc key") auto
  qed
  show "in_table sc1 = in_table sc" by (rule it)
qed

lemma fc_insert_table:
  assumes t: "table_ok (fk_bucket k) sc" and m: "mem_ok mem sc"
    and n: "fc_map (fk_bucket k) sc (msg_key v sic) = None" and y: "sic_protocol sic = ucast IPPROTO_TCP \<or> sic_protocol sic = ucast IPPROTO_UDP"
    and e: "fc_insert k mem v ctp sic sc = (ok, sc')"
  shows "ok \<longleftrightarrow> fst mem \<noteq> None \<and> snd mem" "table_ok (fk_bucket k) sc'"
    "fc_map (fk_bucket k) sc' = (if ok then (fc_map (fk_bucket k) sc)(msg_key v sic \<mapsto> new_conn v ctp sic) else fc_map (fk_bucket k) sc)"
    "fc_live sc \<subseteq> fc_live sc'" "in_table sc \<subseteq> in_table sc'" "\<not> ok \<Longrightarrow> sc' = sc"
proof -
  show ok: "ok \<longleftrightarrow> fst mem \<noteq> None \<and> snd mem"
    using e by (auto simp: fc_insert_def split: option.splits prod.splits if_splits)
  show no: "\<not> ok \<Longrightarrow> sc' = sc" using e by (auto simp: fc_insert_def split: option.splits prod.splits if_splits)
  have "table_ok (fk_bucket k) sc' \<and> fc_map (fk_bucket k) sc' = (if ok then (fc_map (fk_bucket k) sc)(msg_key v sic \<mapsto> new_conn v ctp sic)
        else fc_map (fk_bucket k) sc) \<and> fc_live sc \<subseteq> fc_live sc' \<and> in_table sc \<subseteq> in_table sc'"
  proof (cases ok)
    case True
    then obtain p where p: "fst mem = Some p" "snd mem" using ok by auto
    have f: "p \<notin> fc_live sc" using m p by (simp add: mem_ok_def)
    define c where "c = new_conn v ctp sic"
    define sc1 where "sc1 = sc\<lparr>fc_live := insert p (fc_live sc), fc_conns := (fc_conns sc)(p := c)\<rparr>"
    note N = new_conn_table(1-3) [OF t f, of c, folded sc1_def] new_conn_table(4) [OF t f]
    obtain added sc2 where a: "fast_classifier_add_conn k p sc1 = (added, sc2)" by (cases "fast_classifier_add_conn k p sc1")
    have c1: "fc_conns sc1 p = c" "p \<in> fc_live sc1" "p \<notin> in_table sc1" using N(3,4) by (simp_all add: sc1_def)
    have key: "flow_key c = msg_key v sic" "flow_typed c" using y by (simp_all add: c_def new_conn_def flow_key_def flow_typed_def)
    note A = add_conn_table [OF N(1) refl c1(2,3) _ a, unfolded c1(1) N(2) key(1), OF key(2)]
    have "added" using A(1) n by simp
    moreover have "sc' = (if added then sc2 else sc2\<lparr>fc_live := fc_live sc2 - {p}\<rparr>)"
      using e p a by (simp add: fc_insert_def sc1_def c_def new_conn_def)
    ultimately show ?thesis
      using A(3,4) True N(3) by (auto simp: c_def sc1_def)
  qed (use no t in simp)
  then show "table_ok (fk_bucket k) sc'"
    "fc_map (fk_bucket k) sc' = (if ok then (fc_map (fk_bucket k) sc)(msg_key v sic \<mapsto> new_conn v ctp sic) else fc_map (fk_bucket k) sc)"
    "fc_live sc \<subseteq> fc_live sc'" "in_table sc \<subseteq> in_table sc'"
    by blast+
qed

end
