(* ===== verification/SFE_FC_Props.thy ===== *)
theory SFE_FC_Props
  imports SFE_FC_Flows
begin

text \<open>
  The post routing hook of the fast classifier as an operation on the map of flows and the rules of the
  engines; requests of user space to offload a flow; the debug file.
\<close>

section \<open>A known flow\<close>

definition wants_offload :: "fast_classifier \<Rightarrow> sfe_connection \<Rightarrow> bool" where
  "wants_offload sc conn \<longleftrightarrow>
     \<not> fcc_offloaded conn \<and> (fcc_offload_permit conn \<or> s32 (offload_at_pkts sc) \<le> s32 (fcc_hits conn + 1))"

text \<open>Not a TCP connection that is shutting down.\<close>

definition still_open :: "nf_conn \<Rightarrow> sfe_connection \<Rightarrow> bool" where
  "still_open ct conn \<longleftrightarrow>
     (sic_protocol (fcc_sic conn) = ucast IPPROTO_TCP \<longrightarrow> ct_tcp_state ct = TCP_CONNTRACK_ESTABLISHED)"

definition refreshed :: "cm_kernel \<Rightarrow> nf_conn \<Rightarrow> sfe_connection \<Rightarrow> sfe_connection_create" where
  "refreshed k ct conn = snd (fast_classifier_update_protocol k ct (fcc_sic conn))"

text \<open>A flow that was counted, with the rules of the engines before and after.\<close>

definition flow_seen :: "fc_kernel \<Rightarrow> allocs \<Rightarrow> fast_classifier \<Rightarrow> sfe_connection \<Rightarrow> fast_classifier \<Rightarrow> sfe_connection \<Rightarrow> bool" where
  "flow_seen k al sc conn sc' conn' \<longleftrightarrow>
     (let ct = fc_ct sc (fcc_ct conn); sic = refreshed (fk k) ct conn; conn1 = conn\<lparr>fcc_hits := fcc_hits conn + 1\<rparr>
      in if \<not> wants_offload sc conn
         then conn' = conn1 \<and> same_engine_rules sc sc' \<and> (fcc_offloaded conn \<or> fc_v4 sc' = fc_v4 sc \<and> fc_v6 sc' = fc_v6 sc)
         else if \<not> still_open ct conn then conn' = conn1\<lparr>fcc_sic := sic\<rparr> \<and> same_engine_rules sc sc'
         else engine_created (fk k) al (fcc_is_v4 conn) sic sc sc'
           \<and> conn' = conn1\<lparr>fcc_sic := sic, fcc_offloaded := fc_accepts (fk k) al (fcc_is_v4 conn) sic sc\<rparr>)"

lemma update_protocol_fields:
  assumes "fast_classifier_update_protocol k ct sic = (e, sic')"
  shows "msg_key v sic' = msg_key v sic" "sic_protocol sic' = sic_protocol sic"
    "sic_protocol sic = ucast IPPROTO_TCP \<or> sic_protocol sic = ucast IPPROTO_UDP \<Longrightarrow>
       e = None \<longleftrightarrow> (sic_protocol sic = ucast IPPROTO_TCP \<longrightarrow> ct_tcp_state ct = TCP_CONNTRACK_ESTABLISHED)"
  using assms
  by (auto simp: fast_classifier_update_protocol_def Let_def msg_key_def tcp_udp split: if_splits)

lemma send_genl_frame [fc_frame]:
  "fc_v4 (fast_classifier_send_genl_msg k m t sc) = fc_v4 sc" "fc_v6 (fast_classifier_send_genl_msg k m t sc) = fc_v6 sc"
  "fc_ct (fast_classifier_send_genl_msg k m t sc) = fc_ct sc" "fc_keeps sc (fast_classifier_send_genl_msg k m t sc)"
  by (auto simp: fast_classifier_send_genl_msg_def count_sent_def Let_def fc_keeps_def same_table_def split: fc_msg.split)

lemma incr_fc_keeps [fc_frame]: "fc_keeps sc (fast_classifier_incr_exceptions e sc)"
  by (simp add: fc_keeps_def fc_frame)

text \<open>The hook leaves the rest of the module alone.\<close>

definition fc_rest :: "fast_classifier \<Rightarrow> fast_classifier \<Rightarrow> bool" where
  "fc_rest sc sc' \<longleftrightarrow> fc_ct sc' = fc_ct sc \<and> fc_recv_hook sc' = fc_recv_hook sc \<and> fc_registered sc' = fc_registered sc
     \<and> offload_at_pkts sc' = offload_at_pkts sc \<and> skip_to_bridge_ingress sc' = skip_to_bridge_ingress sc"

lemma upd_conn_keeps: "fc_keeps sc sc' \<Longrightarrow> fc_keeps (upd_conn p f sc) (upd_conn p f sc')"
  by (simp add: fc_keeps_def same_table_def)

lemma fc_known_spec:
  assumes g: "fc_good sc" and t: "table_ok bk sc" and p: "p \<in> in_table sc" and v: "fcc_is_v4 (fc_conns sc p) = is_v4"
    and a: "fc_allocs_ok al is_v4 sc"
  shows "\<exists>sc' conn'. fc_known k al stack is_v4 sic p sc = Some sc' \<and> fc_good sc' \<and> table_ok bk sc'
    \<and> fc_map bk sc' = (fc_map bk sc)(flow_key (fc_conns sc p) \<mapsto> conn') \<and> flow_seen k al sc (fc_conns sc p) sc' conn'
    \<and> flow_key conn' = flow_key (fc_conns sc p)
    \<and> fc_rest sc sc' \<and> fc_live sc' = fc_live sc \<and> in_table sc' = in_table sc \<and> fc_refs sc' = fc_refs sc"
proof -
  define conn where "conn = fc_conns sc p"
  define conn1 where "conn1 = conn\<lparr>fcc_hits := fcc_hits conn + 1\<rparr>"
  define sc1 where "sc1 = upd_conn p (\<lambda>_. conn1) sc"
  define ct where "ct = fc_ct sc (fcc_ct conn)"
  obtain e psic where u: "fast_classifier_update_protocol (fk k) ct (fcc_sic conn) = (e, psic)"
    by (cases "fast_classifier_update_protocol (fk k) ct (fcc_sic conn)")
  have y: "sic_protocol (fcc_sic conn) = ucast IPPROTO_TCP \<or> sic_protocol (fcc_sic conn) = ucast IPPROTO_UDP"
    using table_okD(4) [OF t p] by (simp add: flow_typed_def conn_def)
  note U = update_protocol_fields [OF u]
  have r: "refreshed (fk k) ct conn = psic" by (simp add: refreshed_def u)
  have e: "e = None \<longleftrightarrow> still_open ct conn" using U(3) [OF y] by (simp add: still_open_def)
  have keys: "flow_key conn1 = flow_key conn" "flow_typed conn1"
    "flow_key (conn1\<lparr>fcc_sic := psic\<rparr>) = flow_key conn" "flow_typed (conn1\<lparr>fcc_sic := psic\<rparr>)"
    "flow_key (conn1\<lparr>fcc_sic := psic, fcc_offloaded := b\<rparr>) = flow_key conn" "flow_typed (conn1\<lparr>fcc_sic := psic, fcc_offloaded := b\<rparr>)" for b
    using y U(1,2) by (simp_all add: conn1_def flow_key_def flow_typed_def msg_key_def)
  have fin: ?thesis
    if "fc_known k al stack is_v4 sic p sc = Some s" "fc_good s" "fc_keeps (upd_conn p (\<lambda>_. conn') sc) s" "fc_ct s = fc_ct sc"
      "flow_key conn' = flow_key conn" "flow_typed conn'" "flow_seen k al sc conn s conn'" for s conn'
  proof -
    have m: "same_table (upd_conn p (\<lambda>_. conn') sc) s" using that(3) by (simp add: fc_keeps_def)
    note T = upd_conn_table [OF t p, of "\<lambda>_. conn'", folded conn_def, OF that(5,6)]
    show ?thesis
      using that T same_tableD(1,2) [OF m, of bk] same_tableD(3) [OF m] m
      by (intro exI [of _ s] exI [of _ conn']) (simp add: conn_def [symmetric] fc_rest_def fc_keeps_def same_table_def)
  qed
  define scx where "scx = upd_conn p (\<lambda>_. conn1\<lparr>fcc_sic := psic\<rparr>) sc"
  have gx: "fc_good scx" "fc_good sc1" and ax: "fc_allocs_ok al is_v4 scx"
    using g a by (simp_all add: scx_def sc1_def fc_good_def fc_allocs_ok_def split: prod.splits option.splits)
  have X: "engine_created (fk k) al is_v4 psic scx s \<longleftrightarrow> engine_created (fk k) al is_v4 psic sc s"
    "fc_accepts (fk k) al is_v4 psic scx \<longleftrightarrow> fc_accepts (fk k) al is_v4 psic sc"
    "same_engine_rules scx s \<longleftrightarrow> same_engine_rules sc s" "same_engine_rules sc1 s \<longleftrightarrow> same_engine_rules sc s"
    "fc_ct scx = fc_ct sc" "fc_ct sc1 = fc_ct sc" for s
    by (simp_all add: scx_def sc1_def engine_created_def fc_accepts_def has_rule_def same_engine_rules_def)
  have c1: "upd_conn p (\<lambda>conn. conn\<lparr>fcc_hits := fcc_hits conn + 1\<rparr>) sc = sc1" "fc_conns sc1 p = conn1"
    "upd_conn p (\<lambda>conn. conn\<lparr>fcc_sic := psic\<rparr>) sc1 = scx" "fcc_ct conn1 = fcc_ct conn" "fcc_sic conn1 = fcc_sic conn"
    "fcc_offloaded conn1 = fcc_offloaded conn"
    by (simp_all add: sc1_def scx_def conn1_def conn_def upd_conn_def)
  have w: "\<not> fcc_offloaded conn \<and> (fcc_offload_permit conn1 \<or> s32 (offload_at_pkts sc1) \<le> s32 (fcc_hits conn1)) \<longleftrightarrow> wants_offload sc conn"
    by (simp add: wants_offload_def conn1_def sc1_def)
  note K = fc_known_def [of k al stack is_v4 sic p sc, unfolded Let_def c1(1,2), unfolded c1 w X(6) ct_def [symmetric] u prod.case]
  show ?thesis
  proof (cases "wants_offload sc conn")
    case False
    have "\<exists>s. (if fcc_offloaded conn then fc_update_rule is_v4 (fcc_sic conn) sc1 else Some sc1) = Some s
      \<and> fc_good s \<and> only_engines sc1 s \<and> same_engine_rules sc1 s \<and> (fcc_offloaded conn \<or> fc_v4 s = fc_v4 sc \<and> fc_v6 s = fc_v6 sc)"
      using fc_update_law [OF gx(2), of is_v4 "fcc_sic conn"] gx(2) by (simp add: same_engine_rules_def sc1_def)
    then obtain s where s: "(if fcc_offloaded conn then fc_update_rule is_v4 (fcc_sic conn) sc1 else Some sc1) = Some s"
      "fc_good s" "only_engines sc1 s" "same_engine_rules sc1 s" "fcc_offloaded conn \<or> fc_v4 s = fc_v4 sc \<and> fc_v6 s = fc_v6 sc" by (elim exE conjE) (rule that)
    let ?s = "fast_classifier_incr_exceptions FC_WAIT_FOR_ACCELERATION s"
    have kk: "fc_keeps (upd_conn p (\<lambda>_. conn1) sc) ?s" "fc_ct ?s = fc_ct sc"
      using only_engines_keeps [OF s(3)] fc_keeps_trans [OF _ incr_fc_keeps, of sc1 s] X(6) by (simp_all add: sc1_def fc_frame)
    have kn: "fc_known k al stack is_v4 sic p sc = Some ?s" using False s(1) by (simp add: K)
    have "flow_seen k al sc conn ?s conn1"
      using False s(4,5) unfolding X(4) by (simp add: flow_seen_def conn1_def same_engine_rules_def fc_frame)
    then show ?thesis
      using fin [OF kn _ kk keys(1,2)] s(2) by (simp add: fc_good_def fc_frame)
  next
    case w: True
    show ?thesis
    proof (cases "still_open ct conn")
      case False
      then obtain e' where e': "e = Some e'" using e by auto
      let ?s = "fast_classifier_incr_exceptions FC_UPDATE_PROTOCOL_FAIL (fast_classifier_incr_exceptions e' scx)"
      have kk: "fc_keeps (upd_conn p (\<lambda>_. conn1\<lparr>fcc_sic := psic\<rparr>) sc) ?s" "fc_ct ?s = fc_ct sc"
        using fc_keeps_trans [OF incr_fc_keeps incr_fc_keeps] X(5) by (simp_all add: scx_def fc_frame)
      have kn: "fc_known k al stack is_v4 sic p sc = Some ?s" using w by (simp add: K e')
      have "flow_seen k al sc conn ?s (conn1\<lparr>fcc_sic := psic\<rparr>)"
        using w False by (simp add: flow_seen_def Let_def ct_def [symmetric] r conn1_def same_engine_rules_def fc_frame scx_def)
      then show ?thesis
        using fin [OF kn _ kk keys(3,4)] gx(1) by (simp add: fc_good_def fc_frame)
    next
      case True
      then have e': "e = None" using e by simp
      obtain ret s where s: "fc_create_rule (fk k) al is_v4 psic scx = Some (ret, s)" "fc_good s" "only_engines scx s"
        "engine_created (fk k) al is_v4 psic scx s" "ret = 0 \<or> ret = - EADDRINUSE \<longleftrightarrow> fc_accepts (fk k) al is_v4 psic scx"
        using fc_create_law [OF gx(1) ax, of "fk k" psic] by (elim exE conjE) (rule that)
      have k: "fc_keeps scx s" "fc_ct s = fc_ct sc" using only_engines_keeps [OF s(3)] X(5) by simp_all
      define acc where "acc = fc_accepts (fk k) al is_v4 psic sc"
      define conn' where "conn' = conn1\<lparr>fcc_sic := psic, fcc_offloaded := acc\<rparr>"
      have off: "\<not> fcc_offloaded conn" using w by (simp add: wants_offload_def)
      let ?sent = "fast_classifier_send_genl_msg k FAST_CLASSIFIER_C_OFFLOADED (offload_tuple stack is_v4 sic conn1) s"
      let ?off = "\<lambda>conn. conn\<lparr>fcc_offloaded := True\<rparr>"
      let ?s = "if acc then upd_conn p ?off ?sent else s"
      have "conn1\<lparr>fcc_sic := psic\<rparr> = conn1\<lparr>fcc_sic := psic, fcc_offloaded := False\<rparr>"
        using off by (simp add: conn1_def)
      then have "upd_conn p (\<lambda>_. conn') sc = (if acc then upd_conn p ?off scx else scx)"
        by (simp add: scx_def conn'_def upd_conn_def)
      moreover have "fc_keeps scx ?sent" using fc_keeps_trans [OF k(1) send_genl_frame(4)] .
      ultimately have kk: "fc_keeps (upd_conn p (\<lambda>_. conn') sc) ?s" using k(1) upd_conn_keeps by simp
      have sv: "fc_v4 ?s = fc_v4 s" "fc_v6 ?s = fc_v6 s" "fc_ct ?s = fc_ct s" by (simp_all add: fc_frame)
      have kn: "fc_known k al stack is_v4 sic p sc = Some ?s"
        using w s(5) unfolding X(2) acc_def [symmetric] by (simp add: K e' s(1))
      have ec: "engine_created (fk k) al is_v4 psic sc ?s"
        using s(4) [unfolded X(1)] unfolding engine_created_def sv .
      have seen: "flow_seen k al sc conn ?s conn'"
        using w True v [folded conn_def] ec by (simp add: flow_seen_def Let_def ct_def [symmetric] r conn'_def acc_def conn1_def split del: if_split)
      show ?thesis
        by (rule fin [OF kn _ kk _ _ _ seen]) (use s(2) k(2) sv keys(5,6) in \<open>simp_all add: fc_good_def conn'_def\<close>)
    qed
  qed
qed

section \<open>The hook\<close>

abbreviation fc_hook ::
  "bool \<Rightarrow> fc_kernel \<Rightarrow> allocs \<Rightarrow> ptr option \<times> bool \<Rightarrow> fast_classifier_tuple \<Rightarrow> fc_skb \<Rightarrow> fast_classifier \<Rightarrow> fast_classifier option" where
  "fc_hook is_v4 \<equiv> (if is_v4 then fast_classifier_ipv4_post_routing_hook else fast_classifier_ipv6_post_routing_hook)"

lemma fc_hook_eq: "fc_hook is_v4 k al mem stack skb sc = fast_classifier_post_routing k al mem stack is_v4 skb sc"
  by (simp add: fast_classifier_ipv4_post_routing_hook_def fast_classifier_ipv6_post_routing_hook_def)

text \<open>The flow enters the table if its devices are found, as \<open>full\<close>, and there is memory for it.\<close>

definition flow_added :: "fc_kernel \<Rightarrow> ptr option \<times> bool \<Rightarrow> bool \<Rightarrow> fc_skb \<Rightarrow> nat \<Rightarrow> sfe_connection_create \<Rightarrow>
    (fc_key \<Rightarrow> sfe_connection option) \<Rightarrow> fc_key \<Rightarrow> sfe_connection option" where
  "flow_added k mem is_v4 skb ctp sic m =
     (case fc_offer (fk k) is_v4 skb sic of
        None \<Rightarrow> m
      | Some full \<Rightarrow> if fst mem = None \<or> \<not> snd mem then m else m(msg_key is_v4 sic \<mapsto> new_conn is_v4 ctp full))"

lemma at_refs_frame [fc_frame]:
  "fc_v4 (at_refs f sc) = fc_v4 sc" "fc_v6 (at_refs f sc) = fc_v6 sc" "fc_ct (at_refs f sc) = fc_ct sc"
  "fc_recv_hook (at_refs f sc) = fc_recv_hook sc" "fc_registered (at_refs f sc) = fc_registered sc"
  "offload_at_pkts (at_refs f sc) = offload_at_pkts sc" "skip_to_bridge_ingress (at_refs f sc) = skip_to_bridge_ingress sc"
  by (simp_all add: at_refs_def)

lemma at_refs_same_table [fc_frame]: "same_table sc (at_refs f sc)"
  by (simp add: at_refs_def same_table_def)

lemma fc_insert_frame [fc_frame]:
  "fc_v4 (snd (fc_insert k mem v ctp sic sc)) = fc_v4 sc" "fc_v6 (snd (fc_insert k mem v ctp sic sc)) = fc_v6 sc"
  "fc_ct (snd (fc_insert k mem v ctp sic sc)) = fc_ct sc" "fc_recv_hook (snd (fc_insert k mem v ctp sic sc)) = fc_recv_hook sc"
  "fc_registered (snd (fc_insert k mem v ctp sic sc)) = fc_registered sc"
  "offload_at_pkts (snd (fc_insert k mem v ctp sic sc)) = offload_at_pkts sc"
  "skip_to_bridge_ingress (snd (fc_insert k mem v ctp sic sc)) = skip_to_bridge_ingress sc"
  by (auto simp: fc_insert_def fast_classifier_add_conn_def Let_def split: option.split)

lemma fc_new_spec:
  fixes skb ctp
  assumes t: "table_ok (fk_bucket k) sc" and m: "mem_ok mem sc" and n: "fc_map (fk_bucket k) sc (msg_key is_v4 sic) = None"
    and y: "sic_protocol sic = ucast IPPROTO_TCP \<or> sic_protocol sic = ucast IPPROTO_UDP"
  defines "sc' \<equiv> fc_new k mem is_v4 skb ctp sic sc"
  shows "table_ok (fk_bucket k) sc' \<and> fc_v4 sc' = fc_v4 sc \<and> fc_v6 sc' = fc_v6 sc \<and> fc_rest sc sc'
    \<and> fc_map (fk_bucket k) sc' = flow_added k mem is_v4 skb ctp sic (fc_map (fk_bucket k) sc)
    \<and> fc_live sc \<subseteq> fc_live sc' \<and> in_table sc \<subseteq> in_table sc' \<and> refs_ok (fk k) (fc_refs sc) (fc_refs sc')"
proof (cases "fc_offer (fk k) is_v4 skb sic")
  case None
  then obtain e f where s: "sc' = at_refs f (fast_classifier_incr_exceptions e sc)" "refs_ok (fk k) (fc_refs sc) f"
    using fc_new_cases [of k mem is_v4 skb ctp sic sc] by (auto simp: sc'_def)
  have st: "same_table sc sc'" unfolding s using same_table_trans [OF incr_same_table at_refs_same_table] .
  show ?thesis
    using t s(2) same_tableD(1,2) [OF st, of "fk_bucket k"] same_tableD(3) [OF st] st None
    by (simp add: s fc_frame fc_rest_def flow_added_def same_table_def)
next
  case (Some full)
  then obtain f where s: "sc' = at_refs f (snd (fc_insert k mem is_v4 ctp full sc))" "refs_ok (fk k) (fc_refs sc) f"
    using fc_new_cases [of k mem is_v4 skb ctp sic sc] by (auto simp: sc'_def)
  obtain ok s1 where i: "fc_insert k mem is_v4 ctp full sc = (ok, s1)" by (cases "fc_insert k mem is_v4 ctp full sc")
  note F = fc_offer_fields [OF Some]
  have key: "msg_key is_v4 full = msg_key is_v4 sic" using F by (simp add: msg_key_eq)
  note T = fc_insert_table [OF t m _ _ i, unfolded key F(5), OF n y]
  have st: "same_table s1 sc'" using at_refs_same_table by (simp add: s i)
  show ?thesis
    using T(2-5) s(2) same_tableD(1,2) [OF st, of "fk_bucket k"] same_tableD(3) [OF st] st Some fc_insert_frame [of k mem is_v4 ctp full sc] T(1)
    by (simp add: s i fc_frame fc_rest_def flow_added_def same_table_def)
qed

definition hook_outcome ::
  "fc_kernel \<Rightarrow> allocs \<Rightarrow> ptr option \<times> bool \<Rightarrow> bool \<Rightarrow> fc_skb \<Rightarrow> fast_classifier \<Rightarrow> fast_classifier \<Rightarrow> bool" where
  "hook_outcome k al mem is_v4 skb sc sc' \<longleftrightarrow>
     (case fc_message (fk k) is_v4 skb sc of
        Inl e \<Rightarrow> sc' = fast_classifier_incr_exceptions e sc
      | Inr (ctp, sic) \<Rightarrow>
         (let key = msg_key is_v4 sic; m = fc_map (fk_bucket k) sc; m' = fc_map (fk_bucket k) sc'
          in case m key of
               None \<Rightarrow> m' = flow_added k mem is_v4 skb ctp sic m \<and> fc_v4 sc' = fc_v4 sc \<and> fc_v6 sc' = fc_v6 sc
             | Some conn \<Rightarrow> \<exists>conn'. m' = m(key \<mapsto> conn') \<and> flow_key conn' = key \<and> flow_seen k al sc conn sc' conn'))"

lemma fc_map_key: "table_ok bk sc \<Longrightarrow> fc_map bk sc key = Some conn \<Longrightarrow> \<exists>p \<in> in_table sc. fc_conns sc p = conn \<and> flow_key conn = key
    \<and> fc_lookup bk sc key = Some p"
  using fc_lookup_iff [of bk sc key] by (auto simp: fc_map_def)

lemma hook_known:
  assumes g: "fc_good sc" and t: "table_ok (fk_bucket k) sc" and m: "fc_message (fk k) is_v4 skb sc = Inr (ctp, sic)"
    and c: "fc_map (fk_bucket k) sc (msg_key is_v4 sic) = Some conn" and a: "fc_allocs_ok al is_v4 sc"
  shows "\<exists>sc' conn'. fc_hook is_v4 k al mem stack skb sc = Some sc' \<and> fc_good sc' \<and> table_ok (fk_bucket k) sc' \<and> fc_rest sc sc'
    \<and> fc_map (fk_bucket k) sc' = (fc_map (fk_bucket k) sc)(msg_key is_v4 sic \<mapsto> conn')
    \<and> flow_key conn' = msg_key is_v4 sic \<and> flow_seen k al sc conn sc' conn'
    \<and> fc_live sc' = fc_live sc \<and> in_table sc' = in_table sc \<and> fc_refs sc' = fc_refs sc"
proof -
  note f = find_conn_msg [OF t refl fc_message_fields(4) [OF m], of is_v4]
  obtain p where p: "p \<in> in_table sc" "fc_conns sc p = conn" "flow_key conn = msg_key is_v4 sic"
    "fc_lookup (fk_bucket k) sc (msg_key is_v4 sic) = Some p"
    using fc_map_key [OF t c] by blast
  have v: "fcc_is_v4 (fc_conns sc p) = is_v4" using p(2,3) by (simp add: flow_key_def msg_key_def)
  have h: "fc_hook is_v4 k al mem stack skb sc = fc_known k al stack is_v4 sic p sc"
    by (simp add: fc_hook_eq fast_classifier_post_routing_def m f p(4))
  show ?thesis
    unfolding h using fc_known_spec [OF g t p(1) v a, of k stack sic, unfolded p(2,3)] by blast
qed

lemma hook_spec:
  assumes g: "fc_good sc" and t: "table_ok (fk_bucket k) sc" and a: "fc_allocs_ok al is_v4 sc" and m: "mem_ok mem sc"
  shows "\<exists>sc'. fc_hook is_v4 k al mem stack skb sc = Some sc' \<and> fc_good sc' \<and> table_ok (fk_bucket k) sc' \<and> fc_rest sc sc'
    \<and> hook_outcome k al mem is_v4 skb sc sc'
    \<and> fc_live sc \<subseteq> fc_live sc' \<and> in_table sc \<subseteq> in_table sc' \<and> refs_ok (fk k) (fc_refs sc) (fc_refs sc')"
proof (cases "fc_message (fk k) is_v4 skb sc")
  case (Inl e)
  note st = incr_same_table [of sc e]
  show ?thesis
    using g t same_tableD(1) [OF st, of "fk_bucket k"] same_tableD(3) [OF st]
    by (simp add: fc_hook_eq fast_classifier_post_routing_def Inl hook_outcome_def fc_frame fc_good_def fc_rest_def)
next
  case (Inr r)
  obtain ctp sic where r: "r = (ctp, sic)" by (cases r)
  note y = fc_message_fields(4) [OF Inr [unfolded r]]
  note f = find_conn_msg [OF t refl y, of is_v4]
  note H = fc_hook_eq fast_classifier_post_routing_def Inr r f hook_outcome_def
  show ?thesis
  proof (cases "fc_map (fk_bucket k) sc (msg_key is_v4 sic)")
    case None
    then have l: "fc_lookup (fk_bucket k) sc (msg_key is_v4 sic) = None" by (simp add: fc_map_def)
    show ?thesis
      using fc_new_spec [OF t m None y, of skb ctp] g None by (simp add: H l fc_good_def)
  next
    case (Some conn)
    show ?thesis
      using hook_known [OF g t Inr [unfolded r] Some a, of mem stack]
      by (auto simp: hook_outcome_def Inr r Some Let_def del: fun_upd_apply)
  qed
qed

section \<open>A concrete classifier\<close>

text \<open>The bucket of a key is that of \<open>hash_32\<close>.\<close>

definition example_fk :: fc_kernel where
  "example_fk = \<lparr>fk = example_ck, fk_bucket = (\<lambda>h. unat (drop_bit 19 (h * 0x9e370001 :: u32))), fk_genlmsg_new = True,
     fk_genlmsg_put = True, fk_nla_put = 0, fk_genlmsg_multicast = 0\<rparr>"

definition example_fc :: fast_classifier where
  "example_fc = \<lparr>fc_exceptions = (\<lambda>_. 0), fc_v4 = init_si, fc_v6 = init_si6,
     fc_ct = (\<lambda>p. if p = 6 then example_ct6 else example_ct), fc_refs = (\<lambda>_. 0), fc_recv_hook = True,
     fc_registered = UNIV, fc_conn_ht = (\<lambda>_. []),
     fc_conns = (\<lambda>_. new_conn True 0 zero_sic), fc_live = {}, sfe_connections_size = 0, offload_msgs = 0,
     offload_no_match_msgs = 0, offloaded_msgs = 0, done_msgs = 0, offloaded_fail_msgs = 0, done_fail_msgs = 0,
     offload_at_pkts = 2, skip_to_bridge_ingress = False, fc_sent = []\<rparr>"

definition example_fskb :: fc_skb where
  "example_fskb = \<lparr>cs_pkt_type = PACKET_OTHERHOST, cs_dst_xfrm = False, cs_sk = False, cs_iif = 1,
     cs_ct = Some (5, IP_CT_DIR_ORIGINAL), cs_dsfield = 0, cs_sp = False, cs_priority = 0, fs_mark = 7\<rparr>"

definition example_fskb6 :: fc_skb where
  "example_fskb6 = example_fskb\<lparr>cs_ct := Some (6, IP_CT_DIR_ORIGINAL)\<rparr>"

definition example_stack :: fast_classifier_tuple where
  "example_stack = \<lparr>ft_ethertype = 0, ft_proto = 0, ft_src_saddr = zero_addr, ft_dst_saddr = zero_addr, ft_sport = 0, ft_dport = 0,
     ft_smac = (\<lambda>_. 0), ft_dmac = (\<lambda>_. 0)\<rparr>"

text \<open>The message of the example and the flow it makes.\<close>

definition example_msg :: "bool \<Rightarrow> sfe_connection_create" where
  "example_msg v = (case fc_message example_ck v (if v then example_fskb else example_fskb6) example_fc of
     Inr (_, sic) \<Rightarrow> sic | Inl _ \<Rightarrow> zero_sic)"

lemma example_message:
  "fc_message example_ck True example_fskb example_fc = Inr (5, example_msg True)"
  "fc_message example_ck False example_fskb6 example_fc = Inr (6, example_msg False)"
proof -
  have "case fc_message example_ck True example_fskb example_fc of Inr (p, _) \<Rightarrow> p = 5 | Inl _ \<Rightarrow> False"
    "case fc_message example_ck False example_fskb6 example_fc of Inr (p, _) \<Rightarrow> p = 6 | Inl _ \<Rightarrow> False" by code_simp+
  then show "fc_message example_ck True example_fskb example_fc = Inr (5, example_msg True)"
    "fc_message example_ck False example_fskb6 example_fc = Inr (6, example_msg False)"
    by (auto simp: example_msg_def split: sum.splits)
qed

lemma example_fc_offer:
  "\<not> Option.is_none (fc_offer example_ck True example_fskb (example_msg True))"
  "\<not> Option.is_none (fc_offer example_ck False example_fskb6 (example_msg False))"
  by code_simp+

lemma empty_table: "fc_conn_ht sc = (\<lambda>_. []) \<Longrightarrow> sfe_connections_size sc = 0 \<Longrightarrow> table_ok bk sc \<and> fc_map bk sc = Map.empty"
  by (simp add: table_ok_def in_table_def fc_map_def fc_lookup_def fun_eq_iff)

lemma example_fc_ok: "fc_good example_fc" "table_ok bk example_fc" "fc_map bk example_fc = Map.empty" "mem_ok (Some p, b) example_fc"
  "fc_allocs_ok example_al v example_fc"
  using empty_table [of example_fc bk] sfe_good_init sfe_good_init6 example_fresh example_fresh6
  by (simp_all add: example_fc_def fc_good_def mem_ok_def fc_allocs_ok_def example_al_def)

text \<open>
  C27: The post routing hooks of the fast classifier always return, keep both engines and the table well
  formed and conntrack as it is. A packet of no eligible conntrack entry only counts an exception.
  The first packet of an eligible one adds its flow to the map of flows, if its devices are found and
  there is memory. A later one counts the flow; it creates a rule, under the key of the flow and of
  conntrack's original tuple, if the flow is not offloaded yet, was seen often enough or user space
  asked for it, and is still open, and the flow then is offloaded if the engine has the rule. No
  flow is ever removed, and references change on bridge ports and bridges only.
\<close>

theorem fc_post_routing_refines:
  assumes "fc_good sc" and "table_ok (fk_bucket k) sc" and "fc_allocs_ok al is_v4 sc" and "mem_ok mem sc"
  shows "\<exists>sc'. fc_hook is_v4 k al mem stack skb sc = Some sc' \<and> fc_good sc' \<and> table_ok (fk_bucket k) sc' \<and> fc_rest sc sc'
    \<and> in_table sc \<subseteq> in_table sc' \<and> refs_ok (fk k) (fc_refs sc) (fc_refs sc')
    \<and> (case fc_message (fk k) is_v4 skb sc of
         Inl e \<Rightarrow> sc' = fast_classifier_incr_exceptions e sc
           \<and> (\<nexists>ctp dir. cs_ct skb = Some (ctp, dir) \<and> fc_eligible (fk k) is_v4 skb (fc_ct sc ctp))
       | Inr (ctp, sic) \<Rightarrow> fc_eligible (fk k) is_v4 skb (fc_ct sc ctp) \<and> made_from is_v4 sic (fc_ct sc ctp)
           \<and> hook_outcome k al mem is_v4 skb sc sc')"
proof -
  obtain sc' where s: "fc_hook is_v4 k al mem stack skb sc = Some sc'" "fc_good sc'" "table_ok (fk_bucket k) sc'" "fc_rest sc sc'"
    "hook_outcome k al mem is_v4 skb sc sc'" "in_table sc \<subseteq> in_table sc'" "refs_ok (fk k) (fc_refs sc) (fc_refs sc')"
    using hook_spec [OF assms, of stack skb] by (elim exE conjE) (rule that)
  have "case fc_message (fk k) is_v4 skb sc of
         Inl e \<Rightarrow> sc' = fast_classifier_incr_exceptions e sc
           \<and> (\<nexists>ctp dir. cs_ct skb = Some (ctp, dir) \<and> fc_eligible (fk k) is_v4 skb (fc_ct sc ctp))
       | Inr (ctp, sic) \<Rightarrow> fc_eligible (fk k) is_v4 skb (fc_ct sc ctp) \<and> made_from is_v4 sic (fc_ct sc ctp)
           \<and> hook_outcome k al mem is_v4 skb sc sc'"
  proof (cases "fc_message (fk k) is_v4 skb sc")
    case (Inl e)
    then have "\<not> ((\<exists>dir. cs_ct skb = Some (ctp, dir)) \<and> fc_eligible (fk k) is_v4 skb (fc_ct sc ctp))" for ctp
      unfolding fc_message_iff [symmetric] by simp
    with Inl s(5) show ?thesis by (simp add: hook_outcome_def)
  next
    case (Inr r)
    then show ?thesis using s(5) fc_message_fields(2,3) [of "fk k" is_v4 skb sc] by (cases r) auto
  qed
  with s show ?thesis by blast
qed

lemma fc_post_routing_refines_witness:
  "(\<exists>sc' conn. fast_classifier_ipv4_post_routing_hook example_fk example_al (Some 9, True) example_stack example_fskb example_fc = Some sc'
     \<and> fc_map (fk_bucket example_fk) sc' (msg_key True (example_msg True)) = Some conn \<and> fcc_ct conn = 5 \<and> \<not> fcc_offloaded conn)
   \<and> (\<exists>sc' conn. fast_classifier_ipv6_post_routing_hook example_fk example_al (Some 9, True) example_stack example_fskb6 example_fc = Some sc'
     \<and> fc_map (fk_bucket example_fk) sc' (msg_key False (example_msg False)) = Some conn \<and> fcc_ct conn = 6 \<and> \<not> fcc_offloaded conn)"
proof -
  have k: "fk example_fk = example_ck" by (simp add: example_fk_def)
  obtain f4 f6 where f: "fc_offer example_ck True example_fskb (example_msg True) = Some f4"
    "fc_offer example_ck False example_fskb6 (example_msg False) = Some f6"
    using example_fc_offer by (metis Option.is_none_def not_None_eq)
  show ?thesis
    using fc_post_routing_refines [OF example_fc_ok(1,2,5,4), of True example_fk 9 True example_stack example_fskb]
      fc_post_routing_refines [OF example_fc_ok(1,2,5,4), of False example_fk 9 True example_stack example_fskb6]
    by (auto simp: k example_message hook_outcome_def Let_def example_fc_ok(3) flow_added_def f new_conn_def)
qed

end
