(* ===== verification/SFE_FC_Offload.thy ===== *)
theory SFE_FC_Offload
  imports SFE_FC_Props
begin

text \<open>
  When a flow is offloaded: after enough packets, or at the request of user space; and which requests
  of user space miss their flow. The debug file.
\<close>

section \<open>Enough packets\<close>

primrec times :: "nat \<Rightarrow> ('a \<Rightarrow> 'a option) \<Rightarrow> 'a \<Rightarrow> 'a option" where
  "times 0 f x = Some x"
| "times (Suc n) f x = do { y \<leftarrow> times n f x; f y }"

lemma fc_message_cong: "fc_ct sc' = fc_ct sc \<Longrightarrow> fc_message k is_v4 skb sc' = fc_message k is_v4 skb sc"
  by (simp add: fc_message_def fc_admit_def cong: option.case_cong sum.case_cong)

lemma s32_le_iff:
  assumes "unat x < 2 ^ 31" and "unat y < 2 ^ 31"
  shows "s32 x \<le> s32 y \<longleftrightarrow> unat x \<le> unat y"
proof -
  have s: "s32 z = int (unat z)" if "unat z < 2 ^ 31" for z :: u32
  proof -
    have "int (unat z) < int (2 ^ 31)" using that by (simp only: of_nat_less_iff)
    then have u: "uint z < 2 ^ 31" by simp
    have "- (2 ^ 31) \<le> uint z" by (rule order_trans [OF _ uint_ge_0]) simp
    then have "signed_take_bit 31 (uint z) = uint z" using u by (rule signed_take_bit_int_eq_self)
    then show ?thesis by (simp add: sint_uint)
  qed
  show ?thesis unfolding s [OF assms(1)] s [OF assms(2)] by (rule of_nat_le_iff)
qed

text \<open>The state while a flow with \<open>conn\<close> waits, \<open>m\<close> packets later.\<close>

definition waits :: "fc_kernel \<Rightarrow> bool \<Rightarrow> fc_key \<Rightarrow> sfe_connection \<Rightarrow> fast_classifier \<Rightarrow> nat \<Rightarrow> fast_classifier \<Rightarrow> bool" where
  "waits k is_v4 key conn sc m sc' \<longleftrightarrow> fc_good sc' \<and> table_ok (fk_bucket k) sc' \<and> fc_rest sc sc'
     \<and> fc_v4 sc' = fc_v4 sc \<and> fc_v6 sc' = fc_v6 sc
     \<and> fc_map (fk_bucket k) sc' = (fc_map (fk_bucket k) sc)(key \<mapsto> conn\<lparr>fcc_hits := fcc_hits conn + of_nat m\<rparr>)"

lemma allocs_cong: "fc_v4 sc' = fc_v4 sc \<Longrightarrow> fc_v6 sc' = fc_v6 sc \<Longrightarrow> fc_allocs_ok al v sc' = fc_allocs_ok al v sc"
  by (simp add: fc_allocs_ok_def split: prod.split option.split)

lemma waits_step:
  assumes w: "waits k is_v4 key conn sc m sc'" and ms: "fc_message (fk k) is_v4 skb sc = Inr (ctp, sic)" "key = msg_key is_v4 sic"
    and a: "fc_allocs_ok al is_v4 sc" and c: "\<not> fcc_offloaded conn" "\<not> fcc_offload_permit conn"
    and n: "unat (fcc_hits conn) + Suc m < unat (offload_at_pkts sc)" "unat (offload_at_pkts sc) < 2 ^ 31"
  shows "\<exists>sc''. fc_hook is_v4 k al mem stack skb sc' = Some sc'' \<and> waits k is_v4 key conn sc (Suc m) sc''"
proof -
  let ?conn = "conn\<lparr>fcc_hits := fcc_hits conn + of_nat m\<rparr>"
  have r: "fc_ct sc' = fc_ct sc" "offload_at_pkts sc' = offload_at_pkts sc" "fc_v4 sc' = fc_v4 sc" "fc_v6 sc' = fc_v6 sc"
    "fc_good sc'" "table_ok (fk_bucket k) sc'" "fc_rest sc sc'"
    using w by (simp_all add: waits_def fc_rest_def)
  have mp: "fc_map (fk_bucket k) sc' (msg_key is_v4 sic) = Some ?conn" using w ms(2) by (simp add: waits_def)
  have a': "fc_allocs_ok al is_v4 sc'" using a allocs_cong [OF r(3,4)] by simp
  have m': "fc_message (fk k) is_v4 skb sc' = Inr (ctp, sic)" using ms(1) fc_message_cong [OF r(1)] by simp
  obtain sc'' conn' where h: "fc_hook is_v4 k al mem stack skb sc' = Some sc''" "fc_good sc''" "table_ok (fk_bucket k) sc''" "fc_rest sc' sc''"
    "fc_map (fk_bucket k) sc'' = (fc_map (fk_bucket k) sc')(msg_key is_v4 sic \<mapsto> conn')" "flow_seen k al sc' ?conn sc'' conn'"
    using hook_known [OF r(5,6) m' mp a', of mem stack] by (elim exE conjE) (rule that)
  have u: "unat (fcc_hits conn + of_nat m + 1) = unat (fcc_hits conn) + Suc m"
    using n by (simp add: unat_word_ariths unat_of_nat)
  then have "\<not> wants_offload sc' ?conn"
    using n c s32_le_iff [OF n(2), of "fcc_hits conn + of_nat m + 1"] by (simp add: wants_offload_def r(2))
  then have "conn' = ?conn\<lparr>fcc_hits := fcc_hits conn + of_nat m + 1\<rparr>" "fc_v4 sc'' = fc_v4 sc'" "fc_v6 sc'' = fc_v6 sc'"
    using h(6) c(1) by (simp_all add: flow_seen_def Let_def)
  then have "waits k is_v4 key conn sc (Suc m) sc''"
    using h w ms(2) by (simp add: waits_def fc_rest_def add.assoc add.commute [of 1])
  then show ?thesis using h(1) by blast
qed

lemma waits_times:
  assumes g: "fc_good sc" "table_ok (fk_bucket k) sc" and ms: "fc_message (fk k) is_v4 skb sc = Inr (ctp, sic)"
    and a: "fc_allocs_ok al is_v4 sc" and mp: "fc_map (fk_bucket k) sc (msg_key is_v4 sic) = Some conn"
    and c: "\<not> fcc_offloaded conn" "\<not> fcc_offload_permit conn"
    and n: "unat (fcc_hits conn) + m < unat (offload_at_pkts sc)" "unat (offload_at_pkts sc) < 2 ^ 31"
  shows "\<exists>sc'. times m (fc_hook is_v4 k al mem stack skb) sc = Some sc' \<and> waits k is_v4 (msg_key is_v4 sic) conn sc m sc'"
  using n(1)
proof (induction m)
  case 0
  have "(fc_map (fk_bucket k) sc)(msg_key is_v4 sic \<mapsto> conn\<lparr>fcc_hits := fcc_hits conn + of_nat 0\<rparr>) = fc_map (fk_bucket k) sc"
    using mp by (intro fun_upd_idem) simp
  then show ?case using g by (simp add: waits_def fc_rest_def)
next
  case (Suc m)
  then obtain sc' where "times m (fc_hook is_v4 k al mem stack skb) sc = Some sc'" "waits k is_v4 (msg_key is_v4 sic) conn sc m sc'" by auto
  then show ?case using waits_step [OF _ ms refl a c Suc.prems n(2), of sc' mem stack] by simp
qed

lemma fc_accepts_cong: "fc_v4 sc' = fc_v4 sc \<Longrightarrow> fc_v6 sc' = fc_v6 sc \<Longrightarrow> fc_accepts k al v sic sc' = fc_accepts k al v sic sc"
  by (simp add: fc_accepts_def has_rule_def)


text \<open>The first packet of the example flow, and its message.\<close>

lemma example_full:
  "\<exists>full. fc_offer example_ck True example_fskb (example_msg True) = Some full \<and> sic_key full = sic_key (example_msg True)
     \<and> sic_xlate full = sic_xlate (example_msg True) \<and> msg_key True full = msg_key True (example_msg True)
     \<and> sic_protocol full = ucast IPPROTO_UDP \<and> sic_src_dev full = 1"
proof -
  obtain full where f: "fc_offer example_ck True example_fskb (example_msg True) = Some full"
    using example_fc_offer by (metis Option.is_none_def not_None_eq)
  have "sic_protocol (example_msg True) = ucast IPPROTO_UDP" by code_simp
  moreover have "case fc_offer example_ck True example_fskb (example_msg True) of Some m \<Rightarrow> sic_src_dev m = 1 | None \<Rightarrow> False" by code_simp
  ultimately show ?thesis using fc_offer_fields [OF f] f by (simp add: msg_key_eq)
qed

lemma first_packet:
  assumes "fc_good sc" and "table_ok (fk_bucket example_fk) sc" and "fc_map (fk_bucket example_fk) sc = Map.empty"
    and "fc_ct sc = fc_ct example_fc" and "9 \<notin> fc_live sc" and "fc_allocs_ok example_al True sc"
    and "fc_offer example_ck True example_fskb (example_msg True) = Some full"
  shows "\<exists>sc'. fc_hook True example_fk example_al (Some 9, True) example_stack example_fskb sc = Some sc'
     \<and> fc_good sc' \<and> table_ok (fk_bucket example_fk) sc' \<and> fc_rest sc sc' \<and> fc_v4 sc' = fc_v4 sc \<and> fc_v6 sc' = fc_v6 sc
     \<and> fc_map (fk_bucket example_fk) sc' = [msg_key True (example_msg True) \<mapsto> new_conn True 5 full]"
proof -
  have k: "fk example_fk = example_ck" by (simp add: example_fk_def)
  have m: "mem_ok (Some 9, True) sc" using assms(5) by (simp add: mem_ok_def)
  have ms: "fc_message example_ck True example_fskb sc = Inr (5, example_msg True)"
    using example_message(1) fc_message_cong [OF assms(4)] by simp
  obtain sc' where s: "fc_hook True example_fk example_al (Some 9, True) example_stack example_fskb sc = Some sc'"
    "fc_good sc'" "table_ok (fk_bucket example_fk) sc'" "fc_rest sc sc'"
    "hook_outcome example_fk example_al (Some 9, True) True example_fskb sc sc'"
    using hook_spec [OF assms(1,2,6) m, of example_stack example_fskb] by (elim exE conjE) (rule that)
  have "fc_map (fk_bucket example_fk) sc' = [msg_key True (example_msg True) \<mapsto> new_conn True 5 full] \<and> fc_v4 sc' = fc_v4 sc
      \<and> fc_v6 sc' = fc_v6 sc"
    using s(5) by (simp add: hook_outcome_def k ms assms(3,7) Let_def flow_added_def)
  then show ?thesis using s by blast
qed

lemma example_flow:
  "\<exists>sc full. fc_hook True example_fk example_al (Some 9, True) example_stack example_fskb example_fc = Some sc
     \<and> fc_good sc \<and> table_ok (fk_bucket example_fk) sc \<and> fc_rest example_fc sc \<and> fc_v4 sc = fc_v4 example_fc \<and> fc_v6 sc = fc_v6 example_fc
     \<and> fc_map (fk_bucket example_fk) sc = [msg_key True (example_msg True) \<mapsto> new_conn True 5 full]
     \<and> msg_key True full = msg_key True (example_msg True) \<and> sic_protocol full = ucast IPPROTO_UDP
     \<and> fc_offer example_ck True example_fskb (example_msg True) = Some full"
proof -
  obtain full where f: "fc_offer example_ck True example_fskb (example_msg True) = Some full"
    "msg_key True full = msg_key True (example_msg True)" "sic_protocol full = ucast IPPROTO_UDP"
    using example_full by (elim exE conjE) (rule that)
  have "9 \<notin> fc_live example_fc" by (simp add: example_fc_def)
  from first_packet [OF example_fc_ok(1-3) refl this example_fc_ok(5) f(1)] f show ?thesis by blast
qed


section \<open>Requests of user space\<close>

definition req_v4 :: "fast_classifier_tuple \<Rightarrow> bool" where
  "req_v4 t \<longleftrightarrow> ft_ethertype t = AF_INET_NUM"

text \<open>The flow a tuple means, in either direction, and the two hashes under which it is looked for.\<close>

definition meant_forth :: "fast_classifier_tuple \<Rightarrow> sfe_connection \<Rightarrow> bool" where
  "meant_forth t = sb_test (ft_src_saddr t) (ft_dst_saddr t) (ft_sport t) (ft_dport t) (ft_proto t) (req_v4 t)"

definition meant_back :: "fast_classifier_tuple \<Rightarrow> sfe_connection \<Rightarrow> bool" where
  "meant_back t = sb_test (ft_dst_saddr t) (ft_src_saddr t) (ft_dport t) (ft_sport t) (ft_proto t) (req_v4 t)"

definition hash_forth :: "fast_classifier_tuple \<Rightarrow> u32" where
  "hash_forth t = fc_conn_hash (ft_src_saddr t) (ft_dst_saddr t) (ft_sport t) (ft_dport t) (req_v4 t)"

definition hash_back :: "fast_classifier_tuple \<Rightarrow> u32" where
  "hash_back t = fc_conn_hash (ft_dst_saddr t) (ft_src_saddr t) (ft_dport t) (ft_sport t) (req_v4 t)"

definition untranslated :: "sfe_connection \<Rightarrow> bool" where
  "untranslated conn \<longleftrightarrow> sic_dest_port_xlate (fcc_sic conn) = sic_dest_port (fcc_sic conn)
     \<and> addr_key (fcc_is_v4 conn) (sic_dest_ip_xlate (fcc_sic conn)) = addr_key (fcc_is_v4 conn) (sic_dest_ip (fcc_sic conn))"

lemma sb_test_hash:
  assumes "sb_test s d sp dp proto v conn" and "untranslated conn"
  shows "key_hash (flow_key conn) = fc_conn_hash s d sp dp v"
proof -
  have e: "fcc_is_v4 conn = v" "sic_src_port (fcc_sic conn) = sp" "sic_dest_port (fcc_sic conn) = dp"
    "addr_key v (sic_src_ip (fcc_sic conn)) = addr_key v s" "addr_key v (sic_dest_ip (fcc_sic conn)) = addr_key v d"
    using assms by (auto simp: sb_test_def untranslated_def addr_equal_iff)
  have "key_hash (flow_key conn) = fc_conn_hash (addr_key v (sic_src_ip (fcc_sic conn))) (addr_key v (sic_dest_ip (fcc_sic conn))) sp dp v"
    using e(1-3) by (simp add: flow_key_def msg_key_def)
  then show ?thesis unfolding e(4,5) hash_addr_key .
qed

lemma walk_Some:
  assumes "table_ok (fk_bucket k) sc" and "fc_walk k sc h test = Some p"
  shows "p \<in> in_table sc \<and> test (fc_conns sc p)"
  using assms(2) unfolding fc_walk_def find_Some_iff by (metis in_tableI nth_mem)

lemma walk_None:
  assumes t: "table_ok (fk_bucket k) sc" and w: "fc_walk k sc h test = None"
    and m: "fc_map (fk_bucket k) sc key = Some conn" and b: "fk_bucket k (key_hash key) = fk_bucket k h"
  shows "\<not> test conn"
proof -
  obtain p where p: "p \<in> in_table sc" "fc_conns sc p = conn" "flow_key conn = key" using fc_map_key [OF t m] by blast
  then have "p \<in> set (fc_conn_ht sc (fk_bucket k h))" using table_okD(2) [OF t] b by (auto simp: in_table_def)
  then show ?thesis using w p(2) unfolding fc_walk_def find_None_iff by auto
qed

lemma walk_missed:
  assumes t: "table_ok (fk_bucket k) sc"
    and n: "\<And>key conn. fc_map (fk_bucket k) sc key = Some conn \<Longrightarrow> fk_bucket k (key_hash key) = fk_bucket k h \<Longrightarrow> \<not> test conn"
  shows "fc_walk k sc h test = None"
proof (rule ccontr)
  assume "fc_walk k sc h test \<noteq> None"
  then obtain p where p: "p \<in> set (fc_conn_ht sc (fk_bucket k h))" "test (fc_conns sc p)"
    unfolding fc_walk_def find_None_iff by auto
  have i: "p \<in> in_table sc" using p(1) by (rule in_tableI)
  then have "fc_map (fk_bucket k) sc (flow_key (fc_conns sc p)) = Some (fc_conns sc p)"
    using fc_lookup_iff [OF t, of "flow_key (fc_conns sc p)" p] by (simp add: fc_map_def)
  from n [OF this table_okD(2) [OF t p(1)]] p(2) show False by simp
qed

lemma sb_find_eq:
  "fast_classifier_sb_find_conn k sc (ft_src_saddr t) (ft_dst_saddr t) (ft_sport t) (ft_dport t) (ft_proto t) (ft_ethertype t = AF_INET_NUM)
     = (case fc_walk k sc (hash_forth t) (meant_forth t) of Some p \<Rightarrow> Some p | None \<Rightarrow> fc_walk k sc (hash_back t) (meant_back t))"
  unfolding fast_classifier_sb_find_conn_def hash_forth_def hash_back_def meant_forth_def meant_back_def req_v4_def by (rule refl)

text \<open>
  C31: A request of user space with a tuple changes nothing but one flow and the two counters of requests:
  either it permits the offloading of one flow the tuple means, in one direction or the other, or it
  counts that no flow matches, and then the tuple means no flow whose destination is not translated.
\<close>

theorem fc_offload_request_refines:
  assumes "table_ok (fk_bucket k) sc"
  shows "\<exists>sc'. fast_classifier_offload_genl_msg k (Some t) sc = Some sc' \<and> table_ok (fk_bucket k) sc'
    \<and> fc_v4 sc' = fc_v4 sc \<and> fc_v6 sc' = fc_v6 sc \<and> fc_rest sc sc' \<and> fc_refs sc' = fc_refs sc \<and> in_table sc' = in_table sc
    \<and> ((\<exists>key conn. fc_map (fk_bucket k) sc key = Some conn \<and> (meant_forth t conn \<or> meant_back t conn)
          \<and> fc_map (fk_bucket k) sc' = (fc_map (fk_bucket k) sc)(key \<mapsto> conn\<lparr>fcc_offload_permit := True\<rparr>)
          \<and> offload_msgs sc' = offload_msgs sc + 1)
       \<or> (sc' = sc\<lparr>offload_no_match_msgs := offload_no_match_msgs sc + 1\<rparr>
          \<and> (\<forall>key conn. fc_map (fk_bucket k) sc key = Some conn \<and> (meant_forth t conn \<or> meant_back t conn) \<longrightarrow> \<not> untranslated conn)))"
proof (cases "fast_classifier_sb_find_conn k sc (ft_src_saddr t) (ft_dst_saddr t) (ft_sport t) (ft_dport t) (ft_proto t) (ft_ethertype t = AF_INET_NUM)")
  case None
  then have w: "fc_walk k sc (hash_forth t) (meant_forth t) = None" "fc_walk k sc (hash_back t) (meant_back t) = None"
    unfolding sb_find_eq by (simp_all split: option.splits)
  have "\<not> untranslated conn" if m: "fc_map (fk_bucket k) sc key = Some conn" and f: "meant_forth t conn \<or> meant_back t conn" for key conn
  proof
    assume u: "untranslated conn"
    have key: "flow_key conn = key" using fc_map_key [OF assms m] by blast
    from f show False
    proof
      assume h: "meant_forth t conn"
      have "key_hash key = hash_forth t"
        using sb_test_hash [OF h [unfolded meant_forth_def] u] unfolding key hash_forth_def .
      then show False using walk_None [OF assms w(1) m] h by simp
    next
      assume h: "meant_back t conn"
      have "key_hash key = hash_back t"
        using sb_test_hash [OF h [unfolded meant_back_def] u] unfolding key hash_back_def .
      then show False using walk_None [OF assms w(2) m] h by simp
    qed
  qed
  then have n: "\<forall>key conn. fc_map (fk_bucket k) sc key = Some conn \<and> (meant_forth t conn \<or> meant_back t conn) \<longrightarrow> \<not> untranslated conn"
    by blast
  let ?s = "sc\<lparr>offload_no_match_msgs := offload_no_match_msgs sc + 1\<rparr>"
  have st: "same_table sc ?s" by (simp add: same_table_def)
  have e: "fast_classifier_offload_genl_msg k (Some t) sc = Some ?s" by (simp add: fast_classifier_offload_genl_msg_def None)
  have r: "fc_rest sc ?s" "table_ok (fk_bucket k) ?s" "in_table ?s = in_table sc"
    using assms same_tableD(1) [OF st, of "fk_bucket k"] same_tableD(3) [OF st] by (simp_all add: fc_rest_def)
  have f: "fc_v4 ?s = fc_v4 sc" "fc_v6 ?s = fc_v6 sc" "fc_refs ?s = fc_refs sc" by simp_all
  show ?thesis by (rule exI [of _ ?s], intro conjI e r f disjI2 refl n)
next
  case (Some p)
  then have p: "p \<in> in_table sc" "meant_forth t (fc_conns sc p) \<or> meant_back t (fc_conns sc p)"
    using walk_Some [OF assms] unfolding sb_find_eq by (auto split: option.splits)
  let ?f = "\<lambda>conn. conn\<lparr>fcc_offload_permit := True\<rparr>"
  let ?s = "(upd_conn p ?f sc)\<lparr>offload_msgs := offload_msgs sc + 1\<rparr>"
  have "flow_key (?f (fc_conns sc p)) = flow_key (fc_conns sc p)" "flow_typed (?f (fc_conns sc p))"
    using table_okD(4) [OF assms p(1)] by (simp_all add: flow_key_def flow_typed_def)
  note U = upd_conn_table [OF assms p(1), of ?f, OF this]
  have st: "same_table (upd_conn p ?f sc) ?s" by (simp add: same_table_def)
  have m: "fc_map (fk_bucket k) sc (flow_key (fc_conns sc p)) = Some (fc_conns sc p)"
    using fc_lookup_iff [OF assms, of "flow_key (fc_conns sc p)" p] p(1) by (simp add: fc_map_def)
  have o: "offload_msgs (upd_conn p ?f sc) = offload_msgs sc" by (simp add: upd_conn_def)
  have e: "fast_classifier_offload_genl_msg k (Some t) sc = Some ?s" by (simp add: fast_classifier_offload_genl_msg_def Some o)
  have r: "fc_rest sc ?s" "table_ok (fk_bucket k) ?s" "in_table ?s = in_table sc" "offload_msgs ?s = offload_msgs sc + 1"
    "fc_map (fk_bucket k) ?s = (fc_map (fk_bucket k) sc)(flow_key (fc_conns sc p) \<mapsto> ?f (fc_conns sc p))"
    using U same_tableD(1,2) [OF st, of "fk_bucket k"] same_tableD(3) [OF st] by (simp_all add: fc_rest_def)
  then have "\<exists>key conn. fc_map (fk_bucket k) sc key = Some conn \<and> (meant_forth t conn \<or> meant_back t conn)
      \<and> fc_map (fk_bucket k) ?s = (fc_map (fk_bucket k) sc)(key \<mapsto> ?f conn) \<and> offload_msgs ?s = offload_msgs sc + 1"
    using m p(2) by blast
  note alt = this
  have f: "fc_v4 ?s = fc_v4 sc" "fc_v6 ?s = fc_v6 sc" "fc_refs ?s = fc_refs sc" by simp_all
  show ?thesis by (rule exI [of _ ?s], intro conjI e r f, rule disjI1, rule alt)
qed

text \<open>The request for the flow of the example.\<close>

definition example_request :: fast_classifier_tuple where
  "example_request = example_stack\<lparr>ft_ethertype := AF_INET_NUM, ft_proto := 17, ft_src_saddr := ip4_addr 0x0200000a,
     ft_dst_saddr := ip4_addr 0x08080808, ft_sport := 0x0010, ft_dport := 0x3500\<rparr>"

lemma example_msg_fields:
  "sic_key (example_msg True) = (17, 0x0200000a, 0x0010, 0x08080808, 0x3500)"
  "sic_xlate (example_msg True) = (0x04030201, 0x0050, 0x08080808, 0x3500)"
  by code_simp+

lemma fc_offload_request_refines_witness:
  "\<exists>sc sc' conn. fc_hook True example_fk example_al (Some 9, True) example_stack example_fskb example_fc = Some sc
     \<and> fast_classifier_offload_genl_msg example_fk (Some example_request) sc = Some sc'
     \<and> fc_map (fk_bucket example_fk) sc' (msg_key True (example_msg True)) = Some conn \<and> fcc_offload_permit conn"
proof -
  obtain sc full where s: "fc_hook True example_fk example_al (Some 9, True) example_stack example_fskb example_fc = Some sc"
    "table_ok (fk_bucket example_fk) sc" "fc_map (fk_bucket example_fk) sc = [msg_key True (example_msg True) \<mapsto> new_conn True 5 full]"
    "fc_offer example_ck True example_fskb (example_msg True) = Some full"
    using example_flow by (elim exE conjE) (rule that)
  have f: "sic_key full = (17, 0x0200000a, 0x0010, 0x08080808, 0x3500)" "sic_xlate full = (0x04030201, 0x0050, 0x08080808, 0x3500)"
    using fc_offer_fields [OF s(4)] example_msg_fields by simp_all
  have u: "untranslated (new_conn True 5 full)" "meant_forth example_request (new_conn True 5 full)"
    using f by (simp_all add: untranslated_def new_conn_def addr_key_eq sic_key_def sic_xlate_def meant_forth_def sb_test_def
        example_request_def req_v4_def addr_equal_iff ip4_addr_def)
  show ?thesis
    using fc_offload_request_refines [OF s(2), of example_request] u s(1) unfolding s(3) by (auto split: if_splits simp del: split_paired_All)
qed

text \<open>
  C32: A flow whose destination is translated is looked for under the hash of its translated destination,
  but stored under that of the original one: unless the two buckets happen to be the same, the very
  tuple with which the module announces the flow is counted as a request that matches no flow.
\<close>

theorem fc_offload_request_misses:
  assumes "table_ok (fk_bucket k) sc" and "fc_map (fk_bucket k) sc key = Some conn"
    and "t = offload_tuple stack (fcc_is_v4 conn) (fcc_sic conn) conn"
    and "fk_bucket k (key_hash key) \<notin> {fk_bucket k (hash_forth t), fk_bucket k (hash_back t)}"
    and "\<forall>key' conn'. fc_map (fk_bucket k) sc key' = Some conn' \<and> (meant_forth t conn' \<or> meant_back t conn') \<longrightarrow> conn' = conn"
  shows "meant_forth t conn \<and> fast_classifier_offload_genl_msg k (Some t) sc
    = Some (sc\<lparr>offload_no_match_msgs := offload_no_match_msgs sc + 1\<rparr>)"
proof -
  obtain p where p: "p \<in> in_table sc" "fc_conns sc p = conn" "flow_key conn = key" using fc_map_key [OF assms(1,2)] by blast
  have v: "req_v4 t \<longleftrightarrow> fcc_is_v4 conn"
    by (simp add: assms(3) offload_tuple_def req_v4_def AF_INET_NUM_def AF_INET6_NUM_def)
  have "flow_typed conn" using table_okD(4) [OF assms(1) p(1)] p(2) by simp
  then have m: "meant_forth t conn"
    by (auto simp: meant_forth_def sb_test_def v) (auto simp: assms(3) offload_tuple_def flow_typed_def addr_equal_iff addr_key_def set_ip_def ipproto_defs)
  have 1: "\<not> meant_forth t c" if "fc_map (fk_bucket k) sc key' = Some c" "fk_bucket k (key_hash key') = fk_bucket k (hash_forth t)" for key' c
  proof
    assume "meant_forth t c"
    then have "c = conn" using assms(5) that(1) by blast
    then have "key' = key" using fc_map_key [OF assms(1) that(1)] p(3) by blast
    then show False using that(2) assms(4) by simp
  qed
  have 2: "\<not> meant_back t c" if "fc_map (fk_bucket k) sc key' = Some c" "fk_bucket k (key_hash key') = fk_bucket k (hash_back t)" for key' c
  proof
    assume "meant_back t c"
    then have "c = conn" using assms(5) that(1) by blast
    then have "key' = key" using fc_map_key [OF assms(1) that(1)] p(3) by blast
    then show False using that(2) assms(4) by simp
  qed
  show ?thesis
    using m walk_missed [OF assms(1) 1] walk_missed [OF assms(1) 2]
    by (simp add: fast_classifier_offload_genl_msg_def sb_find_eq)
qed

lemma single_table:
  assumes "fc_conn_ht sc = (\<lambda>b. if b = bk (key_hash (flow_key c)) then [p] else [])" and "fc_conns sc p = c" and "p \<in> fc_live sc"
    and "sfe_connections_size sc = 1" and "flow_typed c"
  shows "table_ok bk sc" "fc_map bk sc = [flow_key c \<mapsto> c]"
proof -
  have i: "in_table sc = {p}" using assms(1) by (auto simp: in_table_def split: if_splits)
  show t: "table_ok bk sc" using assms by (auto simp: table_ok_def i)
  show "fc_map bk sc = [flow_key c \<mapsto> c]"
  proof
    fix key
    show "fc_map bk sc key = [flow_key c \<mapsto> c] key"
      by (cases "key = flow_key c") (auto simp: fc_map_def fc_lookup_def assms(1,2))
  qed
qed

text \<open>A flow to a server behind the router.\<close>

definition dnat_sic :: sfe_connection_create where
  "dnat_sic = zero_sic\<lparr>sic_protocol := 17, sic_src_ip := ip4_addr 0x0200000a, sic_src_ip_xlate := ip4_addr 0x0200000a,
     sic_dest_ip := ip4_addr 0x04030201, sic_dest_ip_xlate := ip4_addr 0x0a01a8c0, sic_src_port := 0x0010,
     sic_src_port_xlate := 0x0010, sic_dest_port := 0x5000, sic_dest_port_xlate := 0x901f\<rparr>"

definition dnat_fc :: fast_classifier where
  "dnat_fc = example_fc\<lparr>fc_conn_ht := (\<lambda>b. if b = fk_bucket example_fk (key_hash (flow_key (new_conn True 5 dnat_sic))) then [1] else []),
     fc_conns := (\<lambda>_. new_conn True 5 dnat_sic), fc_live := {1}, sfe_connections_size := 1\<rparr>"

lemma dnat_table: "table_ok (fk_bucket example_fk) dnat_fc"
  "fc_map (fk_bucket example_fk) dnat_fc = [flow_key (new_conn True 5 dnat_sic) \<mapsto> new_conn True 5 dnat_sic]"
proof -
  have "flow_typed (new_conn True 5 dnat_sic)" by (simp add: flow_typed_def new_conn_def dnat_sic_def ipproto_defs)
  then show "table_ok (fk_bucket example_fk) dnat_fc"
    "fc_map (fk_bucket example_fk) dnat_fc = [flow_key (new_conn True 5 dnat_sic) \<mapsto> new_conn True 5 dnat_sic]"
    using single_table [of dnat_fc "fk_bucket example_fk" "new_conn True 5 dnat_sic" 1] by (simp_all add: dnat_fc_def)
qed

lemma fc_offload_request_misses_witness:
  "meant_forth (offload_tuple example_stack True dnat_sic (new_conn True 5 dnat_sic)) (new_conn True 5 dnat_sic)
   \<and> fast_classifier_offload_genl_msg example_fk (Some (offload_tuple example_stack True dnat_sic (new_conn True 5 dnat_sic))) dnat_fc
     = Some (dnat_fc\<lparr>offload_no_match_msgs := 1\<rparr>)"
proof -
  let ?conn = "new_conn True 5 dnat_sic" and ?t = "offload_tuple example_stack True dnat_sic (new_conn True 5 dnat_sic)"
  have c: "fcc_is_v4 ?conn" "fcc_sic ?conn = dnat_sic" by (simp_all add: new_conn_def)
  have b: "fk_bucket example_fk (key_hash (flow_key ?conn)) \<notin> {fk_bucket example_fk (hash_forth ?t), fk_bucket example_fk (hash_back ?t)}"
    by code_simp
  have n: "offload_no_match_msgs dnat_fc = 0" by (simp add: dnat_fc_def example_fc_def)
  have m: "fc_map (fk_bucket example_fk) dnat_fc (flow_key ?conn) = Some ?conn" by (simp add: dnat_table(2))
  show ?thesis
    using fc_offload_request_misses [OF dnat_table(1) m, of ?t example_stack] b
    by (simp add: c n dnat_table(2) split: if_splits)
qed

section \<open>The debug file\<close>

lemma scnprintf_prefix: "scnprintf_at (take (PAGE_SIZE - 1) x) msg = take (PAGE_SIZE - 1) (x @ msg)"
  by (cases "length x < PAGE_SIZE - 1") (simp_all add: scnprintf_at_def min_def PAGE_SIZE_def)

lemma debug_fold:
  "fold (\<lambda>p buf. scnprintf_at buf (line p)) ps (take (PAGE_SIZE - 1) x) = take (PAGE_SIZE - 1) (x @ concat (map line ps))"
  by (induction ps arbitrary: x) (simp_all add: scnprintf_prefix del: take_append One_nat_def)

lemma distinct_buckets:
  assumes "\<And>b. distinct (ht b)" and "\<And>b c p. p \<in> set (ht b) \<Longrightarrow> p \<in> set (ht c) \<Longrightarrow> b = c"
  shows "distinct (concat (map ht [0..<n]))"
proof (induction n)
  case (Suc n)
  have "set (concat (map ht [0..<n])) \<inter> set (ht n) = {}" using assms(2) [of _ _ n] by (fastforce simp: set_concat)
  then show ?case using Suc assms(1) by simp
qed simp

lemma table_order:
  assumes t: "table_ok bk sc" and b: "\<And>h. bk h < 2 ^ FC_CONN_HASH_ORDER"
  shows "distinct (table_order sc)" "set (table_order sc) = in_table sc"
proof -
  show "distinct (table_order sc)"
    unfolding table_order_def by (rule distinct_buckets) (rule table_okD(1) [OF t], metis table_okD(2) [OF t])
  show "set (table_order sc) = in_table sc"
    unfolding table_order_def in_table_def using table_okD(2) [OF t] b by (fastforce simp: set_concat)
qed

text \<open>
  C36: Reading \<open>debug_info\<close> never writes outside its page: the text is the first \<open>PAGE_SIZE - 1\<close> characters
  at most of the line of counters followed by one line for each flow of the table, each flow exactly once.
\<close>

theorem fc_debug_info_prefix:
  assumes "table_ok bk sc" and "\<And>h. bk h < 2 ^ FC_CONN_HASH_ORDER"
  shows "\<exists>ps. distinct ps \<and> set ps = in_table sc
    \<and> fast_classifier_get_debug_info sc = take (PAGE_SIZE - 1) (debug_header sc @ concat (map (\<lambda>p. debug_line (fc_conns sc p)) ps))
    \<and> length (fast_classifier_get_debug_info sc) < PAGE_SIZE"
proof -
  have e: "fast_classifier_get_debug_info sc
      = take (PAGE_SIZE - 1) (debug_header sc @ concat (map (\<lambda>p. debug_line (fc_conns sc p)) (table_order sc)))"
    using debug_fold [of "\<lambda>p. debug_line (fc_conns sc p)" "table_order sc" "debug_header sc"] scnprintf_prefix [of "[]" "debug_header sc"]
    by (simp add: fast_classifier_get_debug_info_def del: take_append)
  then have "length (fast_classifier_get_debug_info sc) < PAGE_SIZE" by (simp add: PAGE_SIZE_def)
  with e table_order [OF assms] show ?thesis by blast
qed

lemma fc_debug_info_prefix_witness: "length (fast_classifier_get_debug_info dnat_fc) < PAGE_SIZE"
proof -
  have "fk_bucket example_fk h < 2 ^ FC_CONN_HASH_ORDER" for h
  proof -
    have "unat (drop_bit 19 x) < 2 ^ 13" for x :: u32
      using unat_u32_less [of x] unfolding unat_drop_bit_eq drop_bit_nat_def by (simp add: less_mult_imp_div_less)
    then show ?thesis by (simp add: example_fk_def FC_CONN_HASH_ORDER_def)
  qed
  from fc_debug_info_prefix [OF dnat_table(1) this] show ?thesis by blast
qed

end
