(* ===== verification/SFE_FC_System.thy ===== *)
theory SFE_FC_System
  imports SFE_FC_Offload SFE_CM_System
begin

text \<open>
  Loading and unloading of the fast classifier, its receive hook, and everything that may happen to
  the loaded module as one transition system.
\<close>

section \<open>Loading and unloading\<close>

text \<open>The static variables of a module that is loaded; what it allocated before is not freed by that.\<close>

definition fc_static_data :: "fast_classifier \<Rightarrow> fast_classifier" where
  "fc_static_data sc = sc\<lparr>fc_exceptions := (\<lambda>_. 0), offload_msgs := 0, offload_no_match_msgs := 0, offloaded_msgs := 0,
     done_msgs := 0, offloaded_fail_msgs := 0, done_fail_msgs := 0, skip_to_bridge_ingress := False,
     sfe_connections_size := 0, offload_at_pkts := 128\<rparr>"

lemma fc_regs_UNIV: "UNIV = {Fc_kobject, Fc_offload_at_pkts, Fc_debug_info, Fc_skip_to_bridge_ingress, Fc_exceptions,
    Fc_dev_notifier, Fc_inet_notifier, Fc_inet6_notifier, Fc_nf_hooks, Fc_genl}"
  by (auto intro: fc_registration.exhaust)

text \<open>The module with an empty table and \<open>rs\<close> registered.\<close>

definition fc_emptied :: "fc_registration set \<Rightarrow> fast_classifier \<Rightarrow> fast_classifier" where
  "fc_emptied rs sc = sc\<lparr>fc_conn_ht := (\<lambda>_. []), fc_registered := rs\<rparr>"

lemma fc_init_spec:
  assumes "\<not> fc_recv_hook sc" and "fc_registered sc = {}"
  shows "\<exists>rc sc'. fast_classifier_init cb kobject (f1, f2, f3, f4) hooks genl sc = Some (rc, sc')
    \<and> (if kobject \<and> f1 = 0 \<and> f2 = 0 \<and> f3 = 0 \<and> f4 = 0 \<and> 0 \<le> hooks \<and> genl = 0
       then rc = 0 \<and> sc' = (fc_emptied UNIV sc)\<lparr>fc_recv_hook := True,
          fc_v4 := sfe_ipv4_register_sync_rule_callback (fc_v4 sc) (Some cb),
          fc_v6 := sfe_ipv6_register_sync_rule_callback (fc_v6 sc) (Some cb)\<rparr>
       else rc \<noteq> 0 \<and> sc' = fc_emptied {} sc)"
proof -
  have e: "sc\<lparr>fc_conn_ht := (\<lambda>_. [])\<rparr> = fc_emptied {} sc" using assms(2) by (cases sc) (simp add: fc_emptied_def)
  have r: "fc_reg rs (fc_emptied qs sc) = fc_emptied (qs \<union> rs) sc" "fc_unreg rs (fc_emptied qs sc) = fc_emptied (qs - rs) sc"
    "fc_kobject_put (fc_emptied qs sc) = fc_emptied (qs - {Fc_kobject, Fc_offload_at_pkts, Fc_debug_info,
       Fc_skip_to_bridge_ingress, Fc_exceptions}) sc" "fc_recv_hook (fc_emptied qs sc) = fc_recv_hook sc"
    "fc_v4 (fc_emptied qs sc) = fc_v4 sc" "fc_v6 (fc_emptied qs sc) = fc_v6 sc" for rs qs
    by (simp_all add: fc_reg_def fc_unreg_def fc_kobject_put_def fc_emptied_def)
  have u: "{Fc_genl, Fc_nf_hooks, Fc_dev_notifier, Fc_inet_notifier, Fc_inet6_notifier, Fc_exceptions, Fc_skip_to_bridge_ingress,
     Fc_debug_info, Fc_offload_at_pkts, Fc_kobject} = UNIV" unfolding fc_regs_UNIV by blast
  note I = fast_classifier_init_def Let_def e prod.case
  show ?thesis
  proof (cases "kobject \<and> f1 = 0 \<and> f2 = 0 \<and> f3 = 0 \<and> f4 = 0 \<and> 0 \<le> hooks \<and> genl = 0")
    case True
    then show ?thesis unfolding I using assms(1) by (simp add: r u)
  next
    case False
    then show ?thesis unfolding I by (auto simp: r)
  qed
qed

text \<open>Every flow of the table is forgotten, its memory is not freed.\<close>

lemma fc_exit_spec:
  assumes "fc_good sc"
  shows "\<exists>sc'. fast_classifier_exit k genl sc = Some sc' \<and> fc_good sc' \<and> engine_empty (fc_v4 sc') \<and> engine_empty6 (fc_v6 sc')
    \<and> \<not> fc_recv_hook sc' \<and> fc_registered sc' = (if genl = 0 then {} else fc_registered sc \<inter> {Fc_genl})
    \<and> fc_ct sc' = fc_ct sc \<and> fc_refs sc' = fc_refs sc \<and> same_table sc sc'"
proof -
  have g: "sfe_good (fc_v4 sc)" "sfe_good6 (fc_v6 sc)" using assms by (simp_all add: fc_good_def)
  obtain si where 4: "sfe_ipv4_destroy_all_rules_for_dev (ck_jiffies k) 0 (sfe_ipv4_register_sync_rule_callback (fc_v4 sc) None) = Some (si, [])"
    "sfe_good si" "engine_empty si" using destroy_all_empty [OF g(1), of "ck_jiffies k"] by (elim exE conjE) (rule that)
  obtain si6 where 6: "sfe_ipv6_destroy_all_rules_for_dev (ck_jiffies k) 0 (sfe_ipv6_register_sync_rule_callback (fc_v6 sc) None) = Some (si6, [])"
    "sfe_good6 si6" "engine_empty6 si6" using destroy_all_empty6 [OF g(2), of "ck_jiffies k"] by (elim exE conjE) (rule that)
  have N: "S - {Fc_genl} - {Fc_nf_hooks, Fc_inet6_notifier, Fc_inet_notifier, Fc_dev_notifier}
      - {Fc_kobject, Fc_offload_at_pkts, Fc_debug_info, Fc_skip_to_bridge_ingress, Fc_exceptions} = {}"
    "S - {Fc_nf_hooks, Fc_inet6_notifier, Fc_inet_notifier, Fc_dev_notifier}
      - {Fc_kobject, Fc_offload_at_pkts, Fc_debug_info, Fc_skip_to_bridge_ingress, Fc_exceptions} = S \<inter> {Fc_genl}" for S
    using fc_regs_UNIV by blast+
  show ?thesis
    using 4 6
    by (simp add: fast_classifier_exit_def fc_destroy_v4_for_def fc_destroy_v6_for_def fc_deliver_def fc_good_def Let_def
        fc_unreg_def fc_kobject_put_def N same_table_def)
qed

text \<open>
  Loading the fast classifier is all or nothing: when every registration succeeds, everything is
  registered, the table is empty and both engines report to the module; after any failure the error
  is returned, nothing stays registered and the receive hook and the engines are as before.
\<close>

theorem fc_load_all_or_nothing:
  assumes "\<not> fc_recv_hook sc" and "fc_registered sc = {}"
  shows "\<exists>rc sc'. fast_classifier_init cb kobject (f1, f2, f3, f4) hooks genl sc = Some (rc, sc') \<and> fc_conn_ht sc' = (\<lambda>_. [])
    \<and> (if kobject \<and> f1 = 0 \<and> f2 = 0 \<and> f3 = 0 \<and> f4 = 0 \<and> 0 \<le> hooks \<and> genl = 0
       then rc = 0 \<and> fc_registered sc' = UNIV \<and> fc_recv_hook sc' \<and> sync_rule_callback (fc_v4 sc') = Some cb
         \<and> sync_rule_callback6 (fc_v6 sc') = Some cb
       else rc \<noteq> 0 \<and> fc_registered sc' = {} \<and> \<not> fc_recv_hook sc' \<and> fc_v4 sc' = fc_v4 sc \<and> fc_v6 sc' = fc_v6 sc)"
proof -
  obtain rc sc' where s: "fast_classifier_init cb kobject (f1, f2, f3, f4) hooks genl sc = Some (rc, sc')"
    "if kobject \<and> f1 = 0 \<and> f2 = 0 \<and> f3 = 0 \<and> f4 = 0 \<and> 0 \<le> hooks \<and> genl = 0
       then rc = 0 \<and> sc' = (fc_emptied UNIV sc)\<lparr>fc_recv_hook := True,
          fc_v4 := sfe_ipv4_register_sync_rule_callback (fc_v4 sc) (Some cb),
          fc_v6 := sfe_ipv6_register_sync_rule_callback (fc_v6 sc) (Some cb)\<rparr>
       else rc \<noteq> 0 \<and> sc' = fc_emptied {} sc"
    using fc_init_spec [OF assms, of cb kobject f1 f2 f3 f4 hooks genl] by (elim exE conjE) (rule that)
  show ?thesis
    using s assms(1)
    by (auto simp: fc_emptied_def sfe_ipv4_register_sync_rule_callback_def sfe_ipv6_register_sync_rule_callback_def split: if_splits)
qed

definition unloaded_fc :: fast_classifier where
  "unloaded_fc = example_fc\<lparr>fc_recv_hook := False, fc_registered := {}\<rparr>"

lemma fc_load_all_or_nothing_witness:
  "(\<exists>sc'. fast_classifier_init 77 True (0, 0, 0, 0) 0 0 unloaded_fc = Some (0, sc') \<and> fc_registered sc' = UNIV)
   \<and> (\<exists>rc sc'. fast_classifier_init 77 True (0, 0, - 17, 0) 0 0 unloaded_fc = Some (rc, sc') \<and> rc \<noteq> 0 \<and> fc_registered sc' = {})"
proof -
  have u: "\<not> fc_recv_hook unloaded_fc" "fc_registered unloaded_fc = {}" by (simp_all add: unloaded_fc_def)
  from fc_load_all_or_nothing [OF u, of 77 True 0 0 0 0 0 0] fc_load_all_or_nothing [OF u, of 77 True 0 0 "- 17" 0 0 0]
  show ?thesis by auto
qed

section \<open>Packets and events\<close>

text \<open>Nothing but the engines, which lose rules at most, and conntrack entries.\<close>

definition fc_quiet :: "fast_classifier \<Rightarrow> fast_classifier \<Rightarrow> bool" where
  "fc_quiet sc sc' \<longleftrightarrow> fc_good sc' \<and> fc_keeps sc sc' \<and> fc_rules sc' \<subseteq> fc_rules sc"

lemma fc_quiet_refl: "fc_good sc \<Longrightarrow> fc_quiet sc sc"
  by (simp add: fc_quiet_def)

lemma fc_quiet_trans: "fc_quiet a b \<Longrightarrow> fc_quiet b c \<Longrightarrow> fc_quiet a c"
  unfolding fc_quiet_def using fc_keeps_trans by blast

lemma fewer_rules:
  assumes "sfe_rules (fc_v4 sc') \<subseteq>\<^sub>m sfe_rules (fc_v4 sc)" and "sfe_rules6 (fc_v6 sc') \<subseteq>\<^sub>m sfe_rules6 (fc_v6 sc)"
  shows "fc_rules sc' \<subseteq> fc_rules sc"
proof -
  have "has_rule v sc sic" if "has_rule v sc' sic" for v sic
    using that map_le_implies_dom_le [OF assms(1)] map_le_implies_dom_le [OF assms(2)]
    by (auto simp: has_rule_def dom_def simp del: not_None_eq split: if_splits)
  then show ?thesis unfolding fc_rules_def by blast
qed

lemma fc_quiet_v4: "fc_good sc \<Longrightarrow> sfe_good si \<Longrightarrow> sfe_rules si \<subseteq>\<^sub>m sfe_rules (fc_v4 sc) \<Longrightarrow> fc_quiet sc (fc_deliver k out (sc\<lparr>fc_v4 := si\<rparr>))"
  and fc_quiet_v6: "fc_good sc \<Longrightarrow> sfe_good6 si6 \<Longrightarrow> sfe_rules6 si6 \<subseteq>\<^sub>m sfe_rules6 (fc_v6 sc) \<Longrightarrow> fc_quiet sc (fc_deliver k out (sc\<lparr>fc_v6 := si6\<rparr>))"
  unfolding fc_quiet_def
  by (intro conjI fewer_rules; simp add: fc_good_def fc_deliver_eq fc_keeps_def same_table_def)+

lemma fc_destroy_v4:
  assumes "fc_good sc"
  shows "\<exists>sc'. fc_destroy_v4_for k dev sc = Some sc' \<and> fc_quiet sc sc' \<and> fc_v6 sc' = fc_v6 sc
    \<and> sfe_rules (fc_v4 sc') = without_dev rule_uses dev (sfe_rules (fc_v4 sc))"
proof -
  have g: "sfe_good (fc_v4 sc)" using assms by (simp add: fc_good_def)
  obtain si' where r: "run_request (Destroy_dev (ck_jiffies k) dev) (fc_v4 sc) = Some si'" "sfe_good si'"
    "sfe_rules si' = without_dev rule_uses dev (sfe_rules (fc_v4 sc))"
    using v4.run_law [OF g, of "Destroy_dev (ck_jiffies k) dev"] by (auto simp: without_dev_def)
  then obtain out where "sfe_ipv4_destroy_all_rules_for_dev (ck_jiffies k) dev (fc_v4 sc) = Some (si', out)" by auto
  with r show ?thesis
    using fc_quiet_v4 [OF assms r(2), of k out] by (simp add: fc_destroy_v4_for_def fc_frame without_dev_le)
qed

lemma fc_destroy_v6:
  assumes "fc_good sc"
  shows "\<exists>sc'. fc_destroy_v6_for k dev sc = Some sc' \<and> fc_quiet sc sc' \<and> fc_v4 sc' = fc_v4 sc
    \<and> sfe_rules6 (fc_v6 sc') = without_dev rule_uses6 dev (sfe_rules6 (fc_v6 sc))"
proof -
  have g: "sfe_good6 (fc_v6 sc)" using assms by (simp add: fc_good_def)
  obtain si' where r: "run_request6 (Destroy_dev6 (ck_jiffies k) dev) (fc_v6 sc) = Some si'" "sfe_good6 si'"
    "sfe_rules6 si' = without_dev rule_uses6 dev (sfe_rules6 (fc_v6 sc))"
    using v6.run_law [OF g, of "Destroy_dev6 (ck_jiffies k) dev"] by (auto simp: without_dev_def)
  then obtain out where "sfe_ipv6_destroy_all_rules_for_dev (ck_jiffies k) dev (fc_v6 sc) = Some (si', out)" by auto
  with r show ?thesis
    using fc_quiet_v6 [OF assms r(2), of k out] by (simp add: fc_destroy_v6_for_def fc_frame without_dev_le)
qed

text \<open>The master device of a bridge port is held while its packet is processed.\<close>

lemma fc_rx_exit:
  "fput ob (fc_deliver ck out ((fget ob sc)\<lparr>fc_v4 := si\<rparr>)) = fc_deliver ck out (sc\<lparr>fc_v4 := si\<rparr>)"
  "fput ob (fc_deliver ck out ((fget ob sc)\<lparr>fc_v6 := si6\<rparr>)) = fc_deliver ck out (sc\<lparr>fc_v6 := si6\<rparr>)"
  by (cases sc; simp add: fc_deliver_eq fget_shift fput_shift shift_inverse)+

lemma fget_sel: "fc_v4 (fget ob sc) = fc_v4 sc" "fc_v6 (fget ob sc) = fc_v6 sc" "skip_to_bridge_ingress (fget ob sc) = skip_to_bridge_ingress sc"
  by (simp_all add: fget_def)

text \<open>Packets as if from the bridge, but the port has none.\<close>

definition fc_orphan :: "cm_kernel \<Rightarrow> sk_buff \<Rightarrow> fast_classifier \<Rightarrow> bool" where
  "fc_orphan ck skb sc \<longleftrightarrow> skip_to_bridge_ingress sc \<and> nd_bridge_port (ck_devs ck (skb_dev skb)) \<and> ck_master ck (skb_dev skb) = None"

lemma fc_recv_spec:
  assumes "fc_good sc" and "pull_checks k skb"
  shows "if fc_orphan ck skb sc \<and> protocol \<in> {ntohs ETH_P_IP, ntohs ETH_P_IPV6}
    then fast_classifier_recv k ia ia6 ck protocol skb sc = None
    else \<exists>res sc'. fast_classifier_recv k ia ia6 ck protocol skb sc = Some (res, sc') \<and> fc_quiet sc sc'"
proof -
  have g: "sfe_good (fc_v4 sc)" "sfe_good6 (fc_v6 sc)" using assms(1) by (simp_all add: fc_good_def)
  have r: "\<exists>r. sfe_ipv4_recv k dev (fc_v4 sc) skb = Some r \<and> (\<forall>out. fc_quiet sc (fc_deliver ck out (sc\<lparr>fc_v4 := r_si r\<rparr>)))" for dev
  proof -
    obtain r where "sfe_ipv4_recv k dev (fc_v4 sc) skb = Some r"
      using recv_returns_recv good_invE [OF g(1)] unfolding recv_returns_def by (metis not_None_eq)
    then show ?thesis using fc_quiet_v4 [OF assms(1) recv_shrinks [OF g(1)]] by blast
  qed
  have r6: "\<exists>r. sfe_ipv6_recv k dev (fc_v6 sc) skb = Some r \<and> (\<forall>out. fc_quiet sc (fc_deliver ck out (sc\<lparr>fc_v6 := r_si6 r\<rparr>)))" for dev
  proof -
    obtain r where "sfe_ipv6_recv k dev (fc_v6 sc) skb = Some r"
      using recv_returns_recv6 [OF _ assms(2)] good_invE6 [OF g(2)] unfolding recv_returns6_def by (metis not_None_eq)
    then show ?thesis using fc_quiet_v6 [OF assms(1) recv_shrinks6 [OF g(2) assms(2)]] by blast
  qed
  obtain q where q: "\<And>dev. sfe_ipv4_recv k dev (fc_v4 sc) skb = Some (q dev)"
    "\<And>dev out. fc_quiet sc (fc_deliver ck out (sc\<lparr>fc_v4 := r_si (q dev)\<rparr>))" using r by metis
  obtain q6 where q6: "\<And>dev. sfe_ipv6_recv k dev (fc_v6 sc) skb = Some (q6 dev)"
    "\<And>dev out. fc_quiet sc (fc_deliver ck out (sc\<lparr>fc_v6 := r_si6 (q6 dev)\<rparr>))" using r6 by metis
  note Q = fc_quiet_refl [OF assms(1)] q q6 fc_rx_exit fget_sel
  show ?thesis
  proof (cases "skip_to_bridge_ingress sc \<and> nd_bridge_port (ck_devs ck (skb_dev skb))")
    case False
    then have n: "\<not> fc_orphan ck skb sc" by (auto simp: fc_orphan_def)
    show ?thesis
      unfolding fast_classifier_recv_def Let_def using False n by (auto simp: Q split: option.split)
  next
    case True
    show ?thesis
    proof (cases "ck_master ck (skb_dev skb)")
      case None
      then have n: "fc_orphan ck skb sc" using True by (simp add: fc_orphan_def)
      show ?thesis
        unfolding fast_classifier_recv_def Let_def using True None n by (auto simp: Q split: option.split)
    next
      case (Some br)
      then have n: "\<not> fc_orphan ck skb sc" by (simp add: fc_orphan_def)
      show ?thesis
        unfolding fast_classifier_recv_def Let_def using True Some n by (auto simp: Q split: option.split)
    qed
  qed
qed

text \<open>
  C33: The receive hook returns for every packet but in one case, and then leaves both engines well formed,
  the table and all references as they were, and no engine with a rule it did not have. The case is a
  packet of a bridge port whose bridge is gone, while packets are taken as if from the bridge: then an
  IP packet makes the code read through a NULL device.
\<close>

theorem fc_recv_returns_or_orphan:
  assumes "fc_good sc" and "pull_checks k skb"
  shows "case fast_classifier_recv k ia ia6 ck protocol skb sc of
      None \<Rightarrow> skip_to_bridge_ingress sc \<and> nd_bridge_port (ck_devs ck (skb_dev skb)) \<and> ck_master ck (skb_dev skb) = None
        \<and> protocol \<in> {ntohs ETH_P_IP, ntohs ETH_P_IPV6}
    | Some (res, sc') \<Rightarrow> fc_quiet sc sc'
        \<and> \<not> (skip_to_bridge_ingress sc \<and> nd_bridge_port (ck_devs ck (skb_dev skb)) \<and> ck_master ck (skb_dev skb) = None
             \<and> protocol \<in> {ntohs ETH_P_IP, ntohs ETH_P_IPV6})"
  using fc_recv_spec [OF assms, of ck protocol ia ia6] unfolding fc_orphan_def
  by (cases "skip_to_bridge_ingress sc \<and> nd_bridge_port (ck_devs ck (skb_dev skb)) \<and> ck_master ck (skb_dev skb) = None
    \<and> protocol \<in> {ntohs ETH_P_IP, ntohs ETH_P_IPV6}") auto

lemma fc_recv_returns_or_orphan_witness:
  "fast_classifier_recv example_kernel (\<lambda>_. None) (\<lambda>_. None) (example_ck\<lparr>ck_devs := (\<lambda>_. example_dev\<lparr>nd_bridge_port := True\<rparr>)\<rparr>) (ntohs ETH_P_IPV6)
     example_skb6 (example_fc\<lparr>skip_to_bridge_ingress := True\<rparr>) = None
   \<and> fast_classifier_recv example_kernel (\<lambda>_. None) (\<lambda>_. None) example_ck (ntohs ETH_P_IPV6) example_skb6 example_fc \<noteq> None"
proof -
  have g: "fc_good (example_fc\<lparr>skip_to_bridge_ingress := True\<rparr>)" using example_fc_ok(1) by (simp add: fc_good_def)
  note W = fc_recv_returns_or_orphan [OF _ example_pull6, where protocol = "ntohs ETH_P_IPV6" and ia = "\<lambda>_. None"]
  show ?thesis
    using W [OF g, of "example_ck\<lparr>ck_devs := (\<lambda>_. example_dev\<lparr>nd_bridge_port := True\<rparr>)\<rparr>" "\<lambda>_. None"] W [OF example_fc_ok(1), of example_ck "\<lambda>_. None"]
    by (auto simp: example_ck_def example_fc_def example_dev_def split: option.splits)
qed

section \<open>All events in any order\<close>

text \<open>
  The entry points, each called only while it is registered; \<open>bk\<close> is the bucket of a hash, \<open>bridges\<close>
  tells whether devices may be bridge ports. Unregistering the netlink family succeeds. The conntrack
  handler is compiled out and so no event.
\<close>

inductive fc_step :: "(u32 \<Rightarrow> nat) \<Rightarrow> bool \<Rightarrow> fast_classifier \<Rightarrow> fast_classifier \<Rightarrow> bool" for bk bridges where
  load: "\<not> fc_recv_hook sc \<Longrightarrow> fast_classifier_init cb kobject files hooks genl (fc_static_data sc) = Some (rc, sc') \<Longrightarrow> fc_step bk bridges sc sc'"
| unload: "fc_recv_hook sc \<Longrightarrow> fast_classifier_exit k 0 sc = Some sc' \<Longrightarrow> fc_step bk bridges sc sc'"
| packet: "fc_recv_hook sc \<Longrightarrow> pull_checks kk skb \<Longrightarrow> fast_classifier_recv kk ia ia6 ck protocol skb sc = Some (res, sc') \<Longrightarrow> fc_step bk bridges sc sc'"
| post_routing: "Fc_nf_hooks \<in> fc_registered sc \<Longrightarrow> fk_bucket k = bk \<Longrightarrow> fc_allocs_ok al is_v4 sc \<Longrightarrow> mem_ok mem sc
    \<Longrightarrow> (bridges \<or> (\<forall>d. \<not> nd_bridge_port (ck_devs (fk k) d)))
    \<Longrightarrow> fc_hook is_v4 k al mem stack fskb sc = Some sc' \<Longrightarrow> fc_step bk bridges sc sc'"
| request: "Fc_genl \<in> fc_registered sc \<Longrightarrow> fk_bucket k = bk \<Longrightarrow> fast_classifier_offload_genl_msg k na sc = Some sc' \<Longrightarrow> fc_step bk bridges sc sc'"
| device: "Fc_dev_notifier \<in> fc_registered sc \<Longrightarrow> fast_classifier_device_event ck down dev sc = Some sc' \<Longrightarrow> fc_step bk bridges sc sc'"
| inet: "Fc_inet_notifier \<in> fc_registered sc \<Longrightarrow> fast_classifier_inet_event ck down dev sc = Some sc' \<Longrightarrow> fc_step bk bridges sc sc'"
| inet6: "Fc_inet6_notifier \<in> fc_registered sc \<Longrightarrow> fast_classifier_inet6_event ck down dev sc = Some sc' \<Longrightarrow> fc_step bk bridges sc sc'"
| set_pkts: "Fc_offload_at_pkts \<in> fc_registered sc \<Longrightarrow> fast_classifier_set_offload_at_pkts kstrtol buf sc = (ret, sc') \<Longrightarrow> fc_step bk bridges sc sc'"
| set_skip: "Fc_skip_to_bridge_ingress \<in> fc_registered sc \<Longrightarrow> fast_classifier_set_skip_bridge_ingress kstrtol buf sc = (ret, sc') \<Longrightarrow> fc_step bk bridges sc sc'"
| timer: "sfe_ipv4_periodic_sync hz now j (fc_v4 sc) = Some (si, out) \<Longrightarrow> fc_step bk bridges sc (fc_deliver ck out (sc\<lparr>fc_v4 := si\<rparr>))"
| timer6: "sfe_ipv6_periodic_sync hz now j (fc_v6 sc) = Some (si6, out) \<Longrightarrow> fc_step bk bridges sc (fc_deliver ck out (sc\<lparr>fc_v6 := si6\<rparr>))"
| entries: "fc_step bk bridges sc (sc\<lparr>fc_ct := cts\<rparr>)"

inductive fc_reach :: "(u32 \<Rightarrow> nat) \<Rightarrow> bool \<Rightarrow> fast_classifier \<Rightarrow> bool" for bk bridges where
  start: "fc_v4 sc = init_si \<Longrightarrow> fc_v6 sc = init_si6 \<Longrightarrow> fc_refs sc = (\<lambda>_. 0) \<Longrightarrow> \<not> fc_recv_hook sc \<Longrightarrow> fc_registered sc = {}
    \<Longrightarrow> fc_conn_ht sc = (\<lambda>_. []) \<Longrightarrow> sfe_connections_size sc = 0 \<Longrightarrow> fc_reach bk bridges sc"
| next_event: "fc_reach bk bridges sc \<Longrightarrow> fc_step bk bridges sc sc' \<Longrightarrow> fc_reach bk bridges sc'"

definition fc_offloaded_keys :: "(u32 \<Rightarrow> nat) \<Rightarrow> fast_classifier \<Rightarrow> fc_key set" where
  "fc_offloaded_keys bk sc = {key. \<exists>conn. fc_map bk sc key = Some conn \<and> fcc_offloaded conn}"

definition fc_inv :: "(u32 \<Rightarrow> nat) \<Rightarrow> bool \<Rightarrow> fast_classifier \<Rightarrow> bool" where
  "fc_inv bk bridges sc \<longleftrightarrow> fc_good sc \<and> table_ok bk sc
     \<and> fc_registered sc = (if fc_recv_hook sc then UNIV else {})
     \<and> fc_rules sc \<subseteq> fc_offloaded_keys bk sc
     \<and> (\<not> fc_recv_hook sc \<longrightarrow> fc_rules sc = {})
     \<and> (\<forall>n. fc_refs sc (Kdst n) = 0 \<and> fc_refs sc (Kneigh n) = 0 \<and> fc_refs sc (Kct n) = 0)
     \<and> (\<not> bridges \<longrightarrow> fc_refs sc = (\<lambda>_. 0))"

text \<open>
  What a step does to the flows: none is freed, and while the module stays loaded none leaves the
  table or is no longer offloaded, and a new rule is for a flow that was not offloaded.
\<close>

definition fc_flows_kept :: "(u32 \<Rightarrow> nat) \<Rightarrow> fast_classifier \<Rightarrow> fast_classifier \<Rightarrow> bool" where
  "fc_flows_kept bk sc sc' \<longleftrightarrow>
     (\<forall>key conn. fc_map bk sc key = Some conn \<longrightarrow> (\<exists>conn'. fc_map bk sc' key = Some conn' \<and> (fcc_offloaded conn \<longrightarrow> fcc_offloaded conn')))
     \<and> in_table sc \<subseteq> in_table sc' \<and> fc_rules sc' \<inter> fc_offloaded_keys bk sc \<subseteq> fc_rules sc"

definition fc_next :: "(u32 \<Rightarrow> nat) \<Rightarrow> bool \<Rightarrow> fast_classifier \<Rightarrow> fast_classifier \<Rightarrow> bool" where
  "fc_next bk bridges sc sc' \<longleftrightarrow> fc_inv bk bridges sc' \<and> fc_live sc \<subseteq> fc_live sc'
     \<and> (fc_recv_hook sc \<and> fc_recv_hook sc' \<longrightarrow> fc_flows_kept bk sc sc')"

lemma quiet_next:
  assumes i: "fc_inv bk bridges sc" and q: "fc_good sc'" "same_table sc sc'" "fc_refs sc' = fc_refs sc" "fc_recv_hook sc' = fc_recv_hook sc"
    "fc_registered sc' = fc_registered sc" "fc_rules sc' \<subseteq> fc_rules sc"
  shows "fc_next bk bridges sc sc'"
proof -
  note m = same_tableD(1,2) [OF q(2), of bk] same_tableD(3) [OF q(2)]
  have o: "fc_offloaded_keys bk sc' = fc_offloaded_keys bk sc" by (simp add: fc_offloaded_keys_def m(2))
  have l: "fc_live sc' = fc_live sc" using q(2) by (simp add: same_table_def)
  have "fc_inv bk bridges sc'"
    using i q(1,3,4,5,6) m(1) o unfolding fc_inv_def by auto
  then show ?thesis using q(6) by (auto simp: fc_next_def fc_flows_kept_def m l)
qed

lemma fc_quiet_next: "fc_inv bk bridges sc \<Longrightarrow> fc_quiet sc sc' \<Longrightarrow> fc_next bk bridges sc sc'"
  by (rule quiet_next) (simp_all add: fc_quiet_def fc_keeps_def)

lemma empty_rules: "sfe_rules (fc_v4 sc) = (\<lambda>_. None) \<Longrightarrow> sfe_rules6 (fc_v6 sc) = (\<lambda>_. None) \<Longrightarrow> fc_rules sc = {}"
  by (auto simp: fc_rules_def has_rule_def)

lemma refs_ok_inv:
  assumes "refs_ok k f f'" and "bridges \<or> (\<forall>d. \<not> nd_bridge_port (ck_devs k d))"
    and "\<forall>n. f (Kdst n) = 0 \<and> f (Kneigh n) = 0 \<and> f (Kct n) = 0" and "\<not> bridges \<longrightarrow> f = (\<lambda>_. 0)"
  shows "(\<forall>n. f' (Kdst n) = 0 \<and> f' (Kneigh n) = 0 \<and> f' (Kct n) = 0) \<and> (\<not> bridges \<longrightarrow> f' = (\<lambda>_. 0))"
proof -
  have e: "f' ob = f ob" if "(\<forall>d. ob \<noteq> Kdev d) \<or> \<not> bridges" for ob
    using assms(1,2) that unfolding refs_ok_def by metis
  then show ?thesis using assms(3,4) by (auto simp: e fun_eq_iff)
qed

lemma created_rules:
  assumes "engine_created k al v sic sc sc'"
  shows "fc_rules sc' \<subseteq> fc_rules sc \<union> (if fc_accepts k al v sic sc then {msg_key v sic} else {})"
proof (cases "fc_accepts k al v sic sc")
  case True
  then show ?thesis using engine_created_set(2) [OF assms] by auto
next
  case False
  then have "sfe_rules (fc_v4 sc') = sfe_rules (fc_v4 sc) \<and> sfe_rules6 (fc_v6 sc') = sfe_rules6 (fc_v6 sc)"
    using assms by (auto simp: fc_accepts_def engine_created_def create_request_def create_request6_def split: if_splits)
  then show ?thesis using same_rules_set [of sc sc'] by (simp add: same_engine_rules_def)
qed

lemma flow_seen_facts:
  assumes "flow_seen k al sc conn sc' conn'"
  shows "fcc_offloaded conn \<longrightarrow> fcc_offloaded conn'"
    and "fc_rules sc' \<subseteq> fc_rules sc \<union> (if fcc_offloaded conn' \<and> \<not> fcc_offloaded conn then {flow_key conn} else {})"
proof -
  let ?ct = "fc_ct sc (fcc_ct conn)"
  have K: "msg_key v (refreshed (fk k) ?ct conn) = msg_key v (fcc_sic conn)" for v
    using update_protocol_fields(1) [of "fk k" ?ct "fcc_sic conn", OF surjective_pairing] by (simp add: refreshed_def)
  have imp: "fc_rules sc' \<subseteq> fc_rules sc \<union> (if fc_accepts (fk k) al (fcc_is_v4 conn) (refreshed (fk k) ?ct conn) sc then {flow_key conn} else {})"
    if "engine_created (fk k) al (fcc_is_v4 conn) (refreshed (fk k) ?ct conn) sc sc'"
    using created_rules [OF that] unfolding K flow_key_def .
  show "fc_rules sc' \<subseteq> fc_rules sc \<union> (if fcc_offloaded conn' \<and> \<not> fcc_offloaded conn then {flow_key conn} else {})"
  proof (cases "wants_offload sc conn \<and> still_open ?ct conn")
    case True
    then have c: "engine_created (fk k) al (fcc_is_v4 conn) (refreshed (fk k) ?ct conn) sc sc'"
      "fcc_offloaded conn' = fc_accepts (fk k) al (fcc_is_v4 conn) (refreshed (fk k) ?ct conn) sc" "\<not> fcc_offloaded conn"
      using assms by (simp_all add: flow_seen_def Let_def wants_offload_def)
    show ?thesis using imp [OF c(1)] unfolding c(2) using c(3) by simp
  next
    case False
    then have "same_engine_rules sc sc'" using assms by (auto simp: flow_seen_def Let_def split: if_splits)
    then show ?thesis using same_rules_set [of sc sc'] by simp
  qed
  show "fcc_offloaded conn \<longrightarrow> fcc_offloaded conn'"
    using assms by (auto simp: flow_seen_def Let_def wants_offload_def split: if_splits)
qed

text \<open>The map of flows changes at one key.\<close>

lemma flow_next:
  assumes i: "fc_inv bk bridges sc" and h: "fc_recv_hook sc"
    and q: "fc_good sc'" "table_ok bk sc'" "fc_recv_hook sc' = fc_recv_hook sc" "fc_registered sc' = fc_registered sc"
    "fc_live sc \<subseteq> fc_live sc'" "in_table sc \<subseteq> in_table sc'"
    and r: "(\<forall>n. fc_refs sc' (Kdst n) = 0 \<and> fc_refs sc' (Kneigh n) = 0 \<and> fc_refs sc' (Kct n) = 0)" "\<not> bridges \<longrightarrow> fc_refs sc' = (\<lambda>_. 0)"
    and m: "fc_map bk sc' = (fc_map bk sc)(key \<mapsto> conn')"
    and o: "\<And>conn. fc_map bk sc key = Some conn \<Longrightarrow> fcc_offloaded conn \<Longrightarrow> fcc_offloaded conn'"
    and n: "fc_rules sc' \<subseteq> fc_rules sc \<union> (if fcc_offloaded conn' \<and> key \<notin> fc_offloaded_keys bk sc then {key} else {})"
  shows "fc_next bk bridges sc sc'"
proof -
  have k: "fc_offloaded_keys bk sc \<subseteq> fc_offloaded_keys bk sc'"
    unfolding fc_offloaded_keys_def m using o by auto
  have "fcc_offloaded conn' \<Longrightarrow> key \<in> fc_offloaded_keys bk sc'" by (simp add: fc_offloaded_keys_def m)
  then have "fc_rules sc' \<subseteq> fc_offloaded_keys bk sc'"
    using n k i unfolding fc_inv_def by (auto split: if_splits)
  then have "fc_inv bk bridges sc'" using i h q r by (simp add: fc_inv_def)
  moreover have "fc_flows_kept bk sc sc'"
    unfolding fc_flows_kept_def m using o q(6) n by (auto split: if_splits)
  ultimately show ?thesis using q(5) by (simp add: fc_next_def)
qed

lemma fc_inv_hook: "fc_inv bk bridges sc \<Longrightarrow> r \<in> fc_registered sc \<Longrightarrow> fc_recv_hook sc"
  by (auto simp: fc_inv_def split: if_splits)

lemma flow_added_cases:
  "flow_added k mem v skb ctp sic m = m \<or> (\<exists>full. flow_added k mem v skb ctp sic m = m(msg_key v sic \<mapsto> new_conn v ctp full))"
  by (cases "fc_offer (fk k) v skb sic") (auto simp: flow_added_def)

lemma hook_next:
  assumes i: "fc_inv bk bridges sc" and h: "Fc_nf_hooks \<in> fc_registered sc" and k: "fk_bucket k = bk"
    and a: "fc_allocs_ok al is_v4 sc" and m: "mem_ok mem sc" and b: "bridges \<or> (\<forall>d. \<not> nd_bridge_port (ck_devs (fk k) d))"
    and e: "fc_hook is_v4 k al mem stack skb sc = Some sc'"
  shows "fc_next bk bridges sc sc'"
proof -
  have g: "fc_good sc" "table_ok (fk_bucket k) sc" using i k by (simp_all add: fc_inv_def)
  have s: "fc_good sc'" "table_ok bk sc'" "fc_rest sc sc'" "hook_outcome k al mem is_v4 skb sc sc'"
    "fc_live sc \<subseteq> fc_live sc'" "in_table sc \<subseteq> in_table sc'" "refs_ok (fk k) (fc_refs sc) (fc_refs sc')"
    using hook_spec [OF g a m, of stack skb] e k by auto
  have r: "(\<forall>n. fc_refs sc' (Kdst n) = 0 \<and> fc_refs sc' (Kneigh n) = 0 \<and> fc_refs sc' (Kct n) = 0) \<and> (\<not> bridges \<longrightarrow> fc_refs sc' = (\<lambda>_. 0))"
    by (rule refs_ok_inv [OF s(7) b]) (use i in \<open>simp_all add: fc_inv_def\<close>)
  have f: "fc_recv_hook sc' = fc_recv_hook sc" "fc_registered sc' = fc_registered sc" using s(3) by (simp_all add: fc_rest_def)
  note F = flow_next [OF i fc_inv_hook [OF i h] s(1,2) f s(5,6) r [THEN conjunct1] r [THEN conjunct2]]
  show ?thesis
  proof (cases "fc_message (fk k) is_v4 skb sc")
    case (Inl ex)
    then have sc': "sc' = fast_classifier_incr_exceptions ex sc" using s(4) by (simp add: hook_outcome_def)
    have "fc_rules sc' = fc_rules sc" by (rule same_rules_set) (simp add: sc' same_engine_rules_def fc_frame)
    then show ?thesis
      using fc_quiet_next [OF i, of sc'] s(1) incr_fc_keeps [of sc ex] by (simp add: fc_quiet_def sc')
  next
    case (Inr x)
    obtain ctp sic where x: "x = (ctp, sic)" by (cases x)
    show ?thesis
    proof (cases "fc_map bk sc (msg_key is_v4 sic)")
      case None
      then have n: "fc_map bk sc' = flow_added k mem is_v4 skb ctp sic (fc_map bk sc)" "fc_v4 sc' = fc_v4 sc" "fc_v6 sc' = fc_v6 sc"
        using s(4) by (simp_all add: hook_outcome_def Inr x k Let_def)
      have n': "fc_rules sc' = fc_rules sc" by (rule same_rules_set) (simp add: same_engine_rules_def n)
      from flow_added_cases [of k mem is_v4 skb ctp sic "fc_map bk sc"] show ?thesis
      proof (elim disjE exE)
        fix full
        assume "flow_added k mem is_v4 skb ctp sic (fc_map bk sc) = (fc_map bk sc)(msg_key is_v4 sic \<mapsto> new_conn is_v4 ctp full)"
        then show ?thesis using F [of "msg_key is_v4 sic" "new_conn is_v4 ctp full"] n n' None by auto
      next
        assume "flow_added k mem is_v4 skb ctp sic (fc_map bk sc) = fc_map bk sc"
        then have "fc_map bk sc' = fc_map bk sc" using n(1) by simp
        then show ?thesis
          using i r s(1,2,5,6) f n' by (auto simp: fc_next_def fc_inv_def fc_flows_kept_def fc_offloaded_keys_def)
      qed
    next
      case (Some conn)
      then obtain conn' where c: "fc_map bk sc' = (fc_map bk sc)(msg_key is_v4 sic \<mapsto> conn')" "flow_seen k al sc conn sc' conn'"
        using s(4) by (auto simp: hook_outcome_def Inr x k Let_def simp del: fun_upd_apply)
      have key: "flow_key conn = msg_key is_v4 sic" using fc_map_key [OF g(2) [unfolded k] Some] by blast
      have o: "msg_key is_v4 sic \<in> fc_offloaded_keys bk sc \<longleftrightarrow> fcc_offloaded conn" by (simp add: fc_offloaded_keys_def Some)
      show ?thesis
        by (rule F [OF c(1)]) (use flow_seen_facts [OF c(2)] Some key o in \<open>auto split: if_splits\<close>)
    qed
  qed
qed

lemma request_next:
  assumes i: "fc_inv bk bridges sc" and h: "Fc_genl \<in> fc_registered sc" and k: "fk_bucket k = bk"
    and e: "fast_classifier_offload_genl_msg k na sc = Some sc'"
  shows "fc_next bk bridges sc sc'"
proof -
  have t: "table_ok bk sc" using i by (simp add: fc_inv_def)
  obtain t where na: "na = Some t" using e by (cases na) (simp_all add: fast_classifier_offload_genl_msg_def)
  show ?thesis
  proof (cases "fast_classifier_sb_find_conn k sc (ft_src_saddr t) (ft_dst_saddr t) (ft_sport t) (ft_dport t) (ft_proto t) (ft_ethertype t = AF_INET_NUM)")
    case None
    then have sc': "sc' = sc\<lparr>offload_no_match_msgs := offload_no_match_msgs sc + 1\<rparr>" using e by (simp add: fast_classifier_offload_genl_msg_def na)
    have "fc_rules sc' = fc_rules sc" by (rule same_rules_set) (simp add: sc' same_engine_rules_def)
    then show ?thesis
      using i by (intro quiet_next [OF i]) (simp_all add: sc' fc_inv_def fc_good_def same_table_def)
  next
    case (Some p)
    have p: "p \<in> in_table sc" using Some t k walk_Some unfolding sb_find_eq by (fastforce split: option.splits)
    let ?f = "\<lambda>conn. conn\<lparr>fcc_offload_permit := True\<rparr>"
    have sc': "sc' = (upd_conn p ?f sc)\<lparr>offload_msgs := offload_msgs sc + 1\<rparr>"
      using e Some by (simp add: fast_classifier_offload_genl_msg_def na upd_conn_def)
    have "flow_key (?f (fc_conns sc p)) = flow_key (fc_conns sc p)" "flow_typed (?f (fc_conns sc p))"
      using table_okD(4) [OF t p] by (simp_all add: flow_key_def flow_typed_def)
    note U = upd_conn_table [OF t p, of ?f, OF this]
    have st: "same_table (upd_conn p ?f sc) sc'" by (simp add: sc' same_table_def)
    have n: "fc_rules sc' = fc_rules sc" by (rule same_rules_set) (simp add: sc' same_engine_rules_def)
    have m: "fc_map bk sc (flow_key (fc_conns sc p)) = Some (fc_conns sc p)"
      using fc_lookup_iff [OF t, of "flow_key (fc_conns sc p)" p] p by (simp add: fc_map_def)
    show ?thesis
    proof (rule flow_next [OF i fc_inv_hook [OF i h]])
      show "fc_map bk sc' = (fc_map bk sc)(flow_key (fc_conns sc p) \<mapsto> ?f (fc_conns sc p))"
        using U(2) same_tableD(2) [OF st] by simp
      show "table_ok bk sc'" using U(1) same_tableD(1) [OF st] by simp
      show "in_table sc \<subseteq> in_table sc'" using same_tableD(3) [OF st] by simp
    qed (use i m n in \<open>simp_all add: sc' fc_inv_def fc_good_def\<close>)
  qed
qed

lemma empty_next:
  assumes i: "fc_inv bk bridges sc" and h: "\<not> fc_recv_hook sc" and s: "fc_good sc'" "fc_conn_ht sc' = (\<lambda>_. [])"
    "sfe_connections_size sc' = 0" "fc_registered sc' = (if fc_recv_hook sc' then UNIV else {})" "fc_rules sc' = {}"
    "fc_refs sc' = fc_refs sc" "fc_live sc' = fc_live sc"
  shows "fc_next bk bridges sc sc'"
  using i h s empty_table [OF s(2,3), of bk] by (simp add: fc_next_def fc_inv_def)

lemma load_next:
  assumes i: "fc_inv bk bridges sc" and h: "\<not> fc_recv_hook sc"
    and e: "fast_classifier_init cb kobject files hooks genl (fc_static_data sc) = Some (rc, sc')"
  shows "fc_next bk bridges sc sc'"
proof -
  obtain f1 f2 f3 f4 where f: "files = (f1, f2, f3, f4)" by (cases files) auto
  have u: "\<not> fc_recv_hook (fc_static_data sc)" "fc_registered (fc_static_data sc) = {}"
    using i h by (simp_all add: fc_static_data_def fc_inv_def)
  have rules: "fc_rules sc = {}" "fc_good sc" using i h by (simp_all add: fc_inv_def)
  let ?s = "(fc_emptied UNIV (fc_static_data sc))\<lparr>fc_recv_hook := True,
          fc_v4 := sfe_ipv4_register_sync_rule_callback (fc_v4 (fc_static_data sc)) (Some cb),
          fc_v6 := sfe_ipv6_register_sync_rule_callback (fc_v6 (fc_static_data sc)) (Some cb)\<rparr>"
  have "sc' = ?s \<or> sc' = fc_emptied {} (fc_static_data sc)"
    using fc_init_spec [OF u, of cb kobject f1 f2 f3 f4 hooks genl] e f by (auto split: if_splits)
  then show ?thesis
  proof
    assume s: "sc' = ?s"
    have v: "sfe_good (fc_v4 sc')" "sfe_good6 (fc_v6 sc')" "sfe_rules (fc_v4 sc') = sfe_rules (fc_v4 sc)"
      "sfe_rules6 (fc_v6 sc') = sfe_rules6 (fc_v6 sc)"
      using v4.run_law [of "fc_v4 sc" "Register (Some cb)"] v6.run_law [of "fc_v6 sc" "Register6 (Some cb)"] rules(2)
      by (simp_all add: s fc_static_data_def fc_good_def)
    have "fc_rules sc' = {}" using same_rules_set [of sc sc'] v(3,4) rules(1) by (simp add: same_engine_rules_def)
    then show ?thesis
      using v(1,2) by (intro empty_next [OF i h]) (simp_all add: s fc_good_def fc_emptied_def fc_static_data_def)
  next
    assume s: "sc' = fc_emptied {} (fc_static_data sc)"
    have "fc_rules sc' = {}" using same_rules_set [of sc sc'] rules(1) by (simp add: s same_engine_rules_def fc_emptied_def fc_static_data_def)
    then show ?thesis
      using rules(2) h by (intro empty_next [OF i h]) (simp_all add: s fc_good_def fc_emptied_def fc_static_data_def)
  qed
qed

lemma unload_next:
  assumes i: "fc_inv bk bridges sc" and e: "fast_classifier_exit k 0 sc = Some sc'"
  shows "fc_next bk bridges sc sc'"
proof -
  have g: "fc_good sc" using i by (simp add: fc_inv_def)
  have s: "fc_good sc'" "engine_empty (fc_v4 sc')" "engine_empty6 (fc_v6 sc')" "\<not> fc_recv_hook sc'" "fc_registered sc' = {}"
    "fc_refs sc' = fc_refs sc" "same_table sc sc'"
    using fc_exit_spec [OF g, of k 0] e by auto
  have "fc_rules sc' = {}" using s(2,3) by (intro empty_rules) (simp_all add: engine_empty_def engine_empty6_def)
  then show ?thesis
    using i s same_tableD(1) [OF s(7)] by (simp add: fc_next_def fc_inv_def same_table_def)
qed

lemma device_quiet:
  assumes g: "fc_good sc"
  shows "fast_classifier_device_event ck down dev sc = Some sc' \<Longrightarrow> fc_quiet sc sc'"
    "fast_classifier_inet_event ck down dev sc = Some sc' \<Longrightarrow> fc_quiet sc sc'"
    "fast_classifier_inet6_event ck down dev sc = Some sc' \<Longrightarrow> fc_quiet sc sc'"
proof -
  obtain s4 where 4: "fc_destroy_v4_for ck dev sc = Some s4" "fc_quiet sc s4"
    using fc_destroy_v4 [OF g, of ck dev] by (elim exE conjE) (rule that)
  have g4: "fc_good s4" using 4(2) by (simp add: fc_quiet_def)
  obtain s6 where 6: "fc_destroy_v6_for ck dev s4 = Some s6" "fc_quiet s4 s6"
    using fc_destroy_v6 [OF g4, of ck dev] by (elim exE conjE) (rule that)
  obtain s6' where six: "fc_destroy_v6_for ck dev sc = Some s6'" "fc_quiet sc s6'"
    using fc_destroy_v6 [OF g, of ck dev] by (elim exE conjE) (rule that)
  show "fast_classifier_device_event ck down dev sc = Some sc' \<Longrightarrow> fc_quiet sc sc'"
    "fast_classifier_inet_event ck down dev sc = Some sc' \<Longrightarrow> fc_quiet sc sc'"
    "fast_classifier_inet6_event ck down dev sc = Some sc' \<Longrightarrow> fc_quiet sc sc'"
    using 4 6 six fc_quiet_trans [OF 4(2) 6(2)] fc_quiet_refl [OF g]
    by (auto simp: fast_classifier_device_event_def fast_classifier_inet_event_def fast_classifier_inet6_event_def split: if_splits)
qed

lemma step_next:
  assumes "fc_step bk bridges sc sc'" and i: "fc_inv bk bridges sc"
  shows "fc_next bk bridges sc sc'"
  using assms(1)
proof cases
  case (load cb kobject files hooks genl rc)
  then show ?thesis using load_next [OF i] by blast
next
  case (unload k)
  then show ?thesis using unload_next [OF i] by blast
next
  case (packet kk skb ia ia6 ck protocol res)
  have "fc_good sc" using i by (simp add: fc_inv_def)
  from fc_recv_spec [OF this packet(2), of ck protocol ia ia6] packet(3) show ?thesis
    using fc_quiet_next [OF i] by (auto split: if_splits)
next
  case (post_routing k al is_v4 mem stack fskb)
  then show ?thesis using hook_next [OF i] by blast
next
  case (request k na)
  then show ?thesis using request_next [OF i] by blast
next
  case (device ck down dev)
  then show ?thesis using device_quiet(1) fc_quiet_next [OF i] i by (auto simp: fc_inv_def)
next
  case (inet ck down dev)
  then show ?thesis using device_quiet(2) fc_quiet_next [OF i] i by (auto simp: fc_inv_def)
next
  case (inet6 ck down dev)
  then show ?thesis using device_quiet(3) fc_quiet_next [OF i] i by (auto simp: fc_inv_def)
next
  case (set_pkts kstrtol buf ret)
  then have s: "sc' = sc\<lparr>offload_at_pkts := offload_at_pkts sc'\<rparr>"
    by (auto simp: fast_classifier_set_offload_at_pkts_def split: prod.splits if_splits)
  show ?thesis
    by (subst s, rule quiet_next [OF i]) (use i in \<open>simp_all add: fc_inv_def fc_good_def same_table_def fc_rules_def has_rule_def\<close>)
next
  case (set_skip kstrtol buf ret)
  then have s: "sc' = sc\<lparr>skip_to_bridge_ingress := skip_to_bridge_ingress sc'\<rparr>"
    by (auto simp: fast_classifier_set_skip_bridge_ingress_def split: prod.splits if_splits)
  show ?thesis
    by (subst s, rule quiet_next [OF i]) (use i in \<open>simp_all add: fc_inv_def fc_good_def same_table_def fc_rules_def has_rule_def\<close>)
next
  case (timer hz now j si out ck)
  have g: "fc_good sc" "sfe_good (fc_v4 sc)" using i by (simp_all add: fc_inv_def fc_good_def)
  have "sfe_good si" "sfe_rules si = sfe_rules (fc_v4 sc)"
    using v4.run_law [OF g(2), of "Timer hz now j"] timer(2) by auto
  then show ?thesis unfolding timer(1) by (intro fc_quiet_next [OF i] fc_quiet_v4 [OF g(1)]) simp_all
next
  case (timer6 hz now j si6 out ck)
  have g: "fc_good sc" "sfe_good6 (fc_v6 sc)" using i by (simp_all add: fc_inv_def fc_good_def)
  have "sfe_good6 si6" "sfe_rules6 si6 = sfe_rules6 (fc_v6 sc)"
    using v6.run_law [OF g(2), of "Timer6 hz now j"] timer6(2) by auto
  then show ?thesis unfolding timer6(1) by (intro fc_quiet_next [OF i] fc_quiet_v6 [OF g(1)]) simp_all
next
  case (entries cts)
  show ?thesis unfolding entries
    by (rule quiet_next [OF i]) (use i in \<open>simp_all add: fc_inv_def fc_good_def same_table_def fc_rules_def has_rule_def\<close>)
qed

lemma reach_fc_inv: "fc_reach bk bridges sc \<Longrightarrow> fc_inv bk bridges sc"
proof (induction rule: fc_reach.induct)
  case (start sc)
  have "fc_rules sc = {}" using start sfe_rules_init sfe_rules_init6 by (intro empty_rules) simp_all
  then show ?case
    using start sfe_good_init sfe_good_init6 empty_table [of sc bk] by (simp add: fc_inv_def fc_good_def)
next
  case (next_event sc sc')
  then show ?case using step_next unfolding fc_next_def by blast
qed

text \<open>
  C29: In every state that loading, unloading, packets, requests of user space, device events, timer runs,
  changed settings and changes of conntrack lead to, in any order: both engines and the table of flows
  are well formed (each flow once, in its bucket, counted); every rule of an engine belongs to a
  flow of the table that is marked as offloaded; the module is registered everywhere or nowhere, and
  while it is not, the engines hold no rule; no reference on a route, neighbour or conntrack entry is
  kept, and none on a device either if no device is a bridge port.
\<close>

theorem fc_invariant:
  assumes "fc_reach bk bridges sc"
  shows "fc_inv bk bridges sc"
  by (rule reach_fc_inv [OF assms])

text \<open>
  C30: A flow that is marked as offloaded while its engine has no rule for it (any more) never gets one
  again, whatever happens until the module is unloaded: the mark is never cleared.
\<close>

theorem fc_not_offloaded_again:
  assumes "fc_reach bk bridges sc" and "fc_map bk sc key = Some conn" and "fcc_offloaded conn" and "key \<notin> fc_rules sc"
    and "rtranclp (\<lambda>a b. fc_step bk bridges a b \<and> fc_recv_hook a \<and> fc_recv_hook b) sc sc'"
  shows "key \<notin> fc_rules sc' \<and> (\<exists>conn'. fc_map bk sc' key = Some conn' \<and> fcc_offloaded conn')"
proof -
  have "fc_inv bk bridges sc' \<and> key \<in> fc_offloaded_keys bk sc' \<and> key \<notin> fc_rules sc'"
    using assms(5)
  proof induction
    case base
    then show ?case using reach_fc_inv [OF assms(1)] assms(2-4) by (auto simp: fc_offloaded_keys_def)
  next
    case (step a b)
    then have "fc_next bk bridges a b" using step_next by blast
    then have "fc_inv bk bridges b" "fc_flows_kept bk a b" using step(2) by (simp_all add: fc_next_def)
    then show ?case using step(3) unfolding fc_flows_kept_def fc_offloaded_keys_def by blast
  qed
  then show ?thesis by (simp add: fc_offloaded_keys_def)
qed

text \<open>
  C34: Memory of flows is never given back: whatever happens, unloading and the end of a connection
  included, all that was allocated for flows stays allocated, the flows of the table among it.
\<close>

theorem fc_flows_never_freed:
  assumes "fc_reach bk bridges sc" and "rtranclp (fc_step bk bridges) sc sc'"
  shows "in_table sc \<subseteq> fc_live sc \<and> fc_live sc \<subseteq> fc_live sc'"
proof -
  have "fc_inv bk bridges sc' \<and> fc_live sc \<subseteq> fc_live sc'"
    using assms(2)
  proof induction
    case base
    then show ?case using reach_fc_inv [OF assms(1)] by simp
  next
    case (step a b)
    then have "fc_next bk bridges a b" using step_next by blast
    then show ?case using step(3) by (auto simp: fc_next_def)
  qed
  moreover have "in_table sc \<subseteq> fc_live sc" using reach_fc_inv [OF assms(1)] table_okD(5) by (auto simp: fc_inv_def)
  ultimately show ?thesis by blast
qed

section \<open>A history\<close>

text \<open>
  The module is loaded, the threshold set to one packet, a flow seen twice and so offloaded, and the
  device its packets come from goes down.
\<close>

lemma example_history:
  "\<exists>sc. fc_reach (fk_bucket example_fk) False sc \<and> fc_recv_hook sc
     \<and> msg_key True (example_msg True) \<in> fc_offloaded_keys (fk_bucket example_fk) sc
     \<and> msg_key True (example_msg True) \<notin> fc_rules sc"
proof -
  let ?bk = "fk_bucket example_fk" and ?key = "msg_key True (example_msg True)"
  define s0 where "s0 = example_fc\<lparr>fc_recv_hook := False, fc_registered := {}\<rparr>"
  define s1 where "s1 = (fc_emptied UNIV (fc_static_data s0))\<lparr>fc_recv_hook := True,
          fc_v4 := sfe_ipv4_register_sync_rule_callback (fc_v4 (fc_static_data s0)) (Some 77),
          fc_v6 := sfe_ipv6_register_sync_rule_callback (fc_v6 (fc_static_data s0)) (Some 77)\<rparr>"
  define s2 where "s2 = s1\<lparr>offload_at_pkts := 1\<rparr>"
  have k: "fk example_fk = example_ck" by (simp add: example_fk_def)
  have r0: "fc_reach ?bk False s0" by (rule fc_reach.start) (simp_all add: s0_def example_fc_def)
  have u: "\<not> fc_recv_hook (fc_static_data s0)" "fc_registered (fc_static_data s0) = {}" "\<not> fc_recv_hook s0"
    by (simp_all add: s0_def fc_static_data_def)
  have "fast_classifier_init 77 True (0, 0, 0, 0) 0 0 (fc_static_data s0) = Some (0, s1)"
    using fc_init_spec [OF u(1,2), of 77 True 0 0 0 0 0 0] by (simp add: s1_def)
  then have r1: "fc_reach ?bk False s1" by (rule fc_reach.next_event [OF r0 fc_step.load [OF u(3)]])
  have "fast_classifier_set_offload_at_pkts (\<lambda>_. (0, 1)) ''1'' s1 = (1, s2)"
    by (simp add: fast_classifier_set_offload_at_pkts_def s2_def EINVAL_def)
  then have r2: "fc_reach ?bk False s2"
    by (rule fc_reach.next_event [OF r1 fc_step.set_pkts, rotated]) (simp add: s1_def fc_emptied_def)
  have i2: "fc_good s2" "table_ok ?bk s2" using reach_fc_inv [OF r2] by (simp_all add: fc_inv_def)
  have e2: "fc_map ?bk s2 = Map.empty" "fc_ct s2 = fc_ct example_fc" "9 \<notin> fc_live s2" "fc_allocs_ok example_al True s2"
    "fc_registered s2 = UNIV" "fc_recv_hook s2" "offload_at_pkts s2 = 1" "sfe_rules (fc_v4 s2) = (\<lambda>_. None)"
  proof -
    have v: "fc_v4 s2 = sfe_ipv4_register_sync_rule_callback init_si (Some 77)"
      by (simp add: s2_def s1_def s0_def fc_static_data_def example_fc_def)
    show "fc_map ?bk s2 = Map.empty"
      using empty_table [of s2 ?bk] by (simp add: s2_def s1_def fc_emptied_def fc_static_data_def)
    show "fc_allocs_ok example_al True s2"
      using example_fresh by (simp add: fc_allocs_ok_def v example_al_def fresh_def sfe_ipv4_register_sync_rule_callback_def)
    show "sfe_rules (fc_v4 s2) = (\<lambda>_. None)"
      using v4.run_law [OF sfe_good_init, of "Register (Some 77)"] sfe_rules_init by (simp add: v)
  qed (simp_all add: s2_def s1_def s0_def fc_emptied_def fc_static_data_def example_fc_def)
  obtain full where f: "fc_offer example_ck True example_fskb (example_msg True) = Some full" "sic_key full = sic_key (example_msg True)"
    "msg_key True full = ?key" "sic_protocol full = ucast IPPROTO_UDP" "sic_src_dev full = 1"
    using example_full by (elim exE conjE) (rule that)
  obtain s3 where s3: "fc_hook True example_fk example_al (Some 9, True) example_stack example_fskb s2 = Some s3"
    "fc_good s3" "table_ok ?bk s3" "fc_rest s2 s3" "fc_v4 s3 = fc_v4 s2" "fc_v6 s3 = fc_v6 s2"
    "fc_map ?bk s3 = [?key \<mapsto> new_conn True 5 full]"
    using first_packet [OF i2 e2(1-4) f(1)] by (elim exE conjE) (rule that)
  have nb: "\<forall>d. \<not> nd_bridge_port (ck_devs (fk example_fk) d)" by (simp add: k example_ck_def example_dev_def)
  have "mem_ok (Some 9, True) s2" using e2(3) by (simp add: mem_ok_def)
  then have r3: "fc_reach ?bk False s3"
    using fc_reach.next_event [OF r2 fc_step.post_routing [OF _ refl e2(4) _ _ s3(1)]] e2(5) nb by simp
  have c3: "fc_ct s3 = fc_ct example_fc" "offload_at_pkts s3 = 1" "fc_registered s3 = UNIV" "fc_recv_hook s3"
    using s3(4) e2 by (simp_all add: fc_rest_def)
  have m3: "fc_message (fk example_fk) True example_fskb s3 = Inr (5, example_msg True)"
    using example_message(1) fc_message_cong [OF c3(1)] by (simp add: k)
  have a3: "fc_allocs_ok example_al True s3" using allocs_cong [OF s3(5,6)] e2(4) by simp
  have p3: "fc_map ?bk s3 ?key = Some (new_conn True 5 full)" by (simp add: s3(7))
  obtain s4 conn' where s4: "fc_hook True example_fk example_al (None, False) example_stack example_fskb s3 = Some s4"
    "fc_good s4" "table_ok ?bk s4" "fc_rest s3 s4" "fc_map ?bk s4 = (fc_map ?bk s3)(?key \<mapsto> conn')"
    "flow_seen example_fk example_al s3 (new_conn True 5 full) s4 conn'"
    using hook_known [OF s3(2,3) m3 p3 a3, of "(None, False)" example_stack] by (elim exE conjE) (rule that)
  have "mem_ok (None, False) s3" by (simp add: mem_ok_def)
  then have r4: "fc_reach ?bk False s4"
    using fc_reach.next_event [OF r3 fc_step.post_routing [OF _ refl a3 _ _ s4(1)]] c3(3) nb by simp
  have c4: "fc_ct s4 = fc_ct example_fc" "fc_registered s4 = UNIV" "fc_recv_hook s4"
    using s4(4) c3 by (simp_all add: fc_rest_def)
  have wants: "wants_offload s3 (new_conn True 5 full)" "still_open ct (new_conn True 5 full)" for ct
    using f(4) by (simp_all add: wants_offload_def still_open_def new_conn_def c3(2) tcp_udp)
  have same: "refreshed (fk example_fk) ct (new_conn True 5 full) = full" for ct
    using f(4) by (simp add: refreshed_def new_conn_def fast_classifier_update_protocol_def tcp_udp)
  have acc: "fc_accepts (fk example_fk) example_al True full s3"
    by (simp add: fc_accepts_def k devs_up_def example_ck_def example_dev_def example_al_def)
  have seen: "engine_created (fk example_fk) example_al True full s3 s4" "fcc_offloaded conn'"
    using s4(6) wants acc by (simp_all add: flow_seen_def Let_def same) (simp_all add: new_conn_def)
  have rl: "sfe_rules (fc_v4 s4) = [sic_key full \<mapsto> sic_rule full]"
    using seen(1) e2(8) by (simp add: engine_created_def create_request_def s3(5) devs_up_def k example_ck_def example_dev_def example_al_def)
  obtain s5 where s5: "fc_destroy_v4_for example_ck 1 s4 = Some s5" "fc_quiet s4 s5"
    "sfe_rules (fc_v4 s5) = without_dev rule_uses 1 (sfe_rules (fc_v4 s4))"
    using fc_destroy_v4 [OF s4(2), of example_ck 1] by (elim exE conjE) (rule that)
  have "fast_classifier_inet_event example_ck True 1 s4 = Some s5" using s5(1) by (simp add: fast_classifier_inet_event_def)
  then have r5: "fc_reach ?bk False s5" using fc_reach.next_event [OF r4 fc_step.inet] c4(2) by simp
  have st: "same_table s4 s5" "fc_recv_hook s5" using s5(2) c4(3) by (simp_all add: fc_quiet_def fc_keeps_def)
  have o5: "?key \<in> fc_offloaded_keys ?bk s5"
    using seen(2) by (simp add: fc_offloaded_keys_def same_tableD(2) [OF st(1)] s4(5))
  have "sfe_rules (fc_v4 s5) (sic_key full) = None"
    unfolding s5(3) rl by (simp add: without_dev_def sic_rule_def rule_uses_def f(5))
  then have n5: "?key \<notin> fc_rules s5" unfolding f(3) [symmetric] rules_iff by (simp add: has_rule_def)
  show ?thesis using r5 st(2) o5 n5 by blast
qed

lemma fc_invariant_witness:
  "\<exists>sc. fc_reach (fk_bucket example_fk) False sc \<and> fc_recv_hook sc \<and> fc_inv (fk_bucket example_fk) False sc"
  using example_history fc_invariant by blast

text \<open>The history goes on with another packet of the flow, or with unloading.\<close>

lemma fc_not_offloaded_again_witness:
  "\<exists>sc sc'. fc_reach (fk_bucket example_fk) False sc
     \<and> fc_hook True example_fk (None, None, None) (None, False) example_stack example_fskb sc = Some sc'
     \<and> msg_key True (example_msg True) \<notin> fc_rules sc'"
proof -
  let ?bk = "fk_bucket example_fk" and ?key = "msg_key True (example_msg True)"
  obtain sc where s: "fc_reach ?bk False sc" "fc_recv_hook sc" "?key \<in> fc_offloaded_keys ?bk sc" "?key \<notin> fc_rules sc"
    using example_history by (elim exE conjE) (rule that)
  obtain conn where c: "fc_map ?bk sc ?key = Some conn" "fcc_offloaded conn" using s(3) by (auto simp: fc_offloaded_keys_def)
  have i: "fc_good sc" "table_ok ?bk sc" "fc_registered sc = UNIV" using reach_fc_inv [OF s(1)] s(2) by (simp_all add: fc_inv_def)
  have a: "fc_allocs_ok (None, None, None) True sc" "mem_ok (None, False) sc" by (simp_all add: fc_allocs_ok_def mem_ok_def)
  obtain sc' where h: "fc_hook True example_fk (None, None, None) (None, False) example_stack example_fskb sc = Some sc'" "fc_rest sc sc'"
    using hook_spec [OF i(1,2) a, of example_stack example_fskb] by (elim exE conjE) (rule that)
  have nb: "\<forall>d. \<not> nd_bridge_port (ck_devs (fk example_fk) d)" by (simp add: example_fk_def example_ck_def example_dev_def)
  have "fc_step ?bk False sc sc'" by (rule fc_step.post_routing [OF _ refl a _ h(1)]) (use i(3) nb in simp_all)
  then have "rtranclp (\<lambda>a b. fc_step ?bk False a b \<and> fc_recv_hook a \<and> fc_recv_hook b) sc sc'"
    using s(2) h(2) by (auto simp: fc_rest_def)
  from fc_not_offloaded_again [OF s(1) c s(4) this] s(1) h(1) show ?thesis by blast
qed

lemma fc_flows_never_freed_witness:
  "\<exists>sc sc'. fc_reach (fk_bucket example_fk) False sc \<and> fast_classifier_exit example_ck 0 sc = Some sc' \<and> fc_live sc' \<noteq> {}"
proof -
  let ?bk = "fk_bucket example_fk"
  obtain sc where s: "fc_reach ?bk False sc" "fc_recv_hook sc" "msg_key True (example_msg True) \<in> fc_offloaded_keys ?bk sc"
    using example_history by (elim exE conjE) (rule that)
  have i: "fc_good sc" "table_ok ?bk sc" using reach_fc_inv [OF s(1)] by (simp_all add: fc_inv_def)
  obtain sc' where e: "fast_classifier_exit example_ck 0 sc = Some sc'" using fc_exit_spec [OF i(1)] by blast
  obtain conn where "fc_map ?bk sc (msg_key True (example_msg True)) = Some conn" using s(3) by (auto simp: fc_offloaded_keys_def)
  from fc_map_key [OF i(2) this] have "in_table sc \<noteq> {}" by blast
  moreover have "rtranclp (fc_step ?bk False) sc sc'" using fc_step.unload [OF s(2) e] by blast
  ultimately show ?thesis using fc_flows_never_freed [OF s(1)] s(1) e by blast
qed

text \<open>
  Unloading the fast classifier always ends and leaves both engines empty, without rules, memory,
  device references and callback, and nothing registered, unless the netlink family cannot be
  unregistered: then its registration stays. The table and the memory of its flows are left as they are.
\<close>

theorem fc_unload_releases_engines:
  assumes "fc_good sc"
  shows "\<exists>sc'. fast_classifier_exit k genl sc = Some sc' \<and> fc_good sc' \<and> engine_empty (fc_v4 sc') \<and> engine_empty6 (fc_v6 sc')
    \<and> \<not> fc_recv_hook sc' \<and> fc_registered sc' = (if genl = 0 then {} else fc_registered sc \<inter> {Fc_genl})
    \<and> fc_ct sc' = fc_ct sc \<and> fc_refs sc' = fc_refs sc \<and> in_table sc' = in_table sc \<and> fc_live sc' = fc_live sc"
proof -
  obtain sc' where s: "fast_classifier_exit k genl sc = Some sc'" "fc_good sc'" "engine_empty (fc_v4 sc')" "engine_empty6 (fc_v6 sc')"
    "\<not> fc_recv_hook sc'" "fc_registered sc' = (if genl = 0 then {} else fc_registered sc \<inter> {Fc_genl})"
    "fc_ct sc' = fc_ct sc" "fc_refs sc' = fc_refs sc" "same_table sc sc'"
    using fc_exit_spec [OF assms, of k genl] by (elim exE conjE) (rule that)
  then show ?thesis using same_tableD(3) [OF s(9)] by (simp add: same_table_def)
qed

lemma fc_unload_releases_engines_witness:
  "\<exists>sc'. fast_classifier_exit example_ck (- 2) dnat_fc = Some sc' \<and> fc_registered sc' = {Fc_genl} \<and> fc_live sc' = {1}"
proof -
  have "fc_good dnat_fc" using example_fc_ok(1) by (simp add: dnat_fc_def fc_good_def)
  from fc_unload_releases_engines [OF this, of example_ck "- 2"] show ?thesis by (auto simp: dnat_fc_def example_fc_def)
qed

end
