(* ===== verification/SFE_FC_Conntrack.thy ===== *)
theory SFE_FC_Conntrack
  imports SFE_FC_System
begin

text \<open>
  The conntrack handler of the fast classifier, which the file compiles out: what it would do for a
  flow that ends. And the sync callback compared with that of the connection manager.
\<close>

section \<open>Requests by key\<close>

definition end_key :: "bool \<Rightarrow> nf_conntrack_tuple \<Rightarrow> fc_key" where
  "end_key v t = (v, ucast (tp_protonum t), addr_key v (tp_src t), tp_src_port t, addr_key v (tp_dst t), tp_dst_port t)"

lemma msg_key_end: "msg_key v' s = end_key v t \<longleftrightarrow> v' = v \<and> (if v then sic_key s = tuple_key t else sic_key6 s = tuple_key6 t)"
  by (cases v; cases v')
    (auto simp: msg_key_def end_key_def sic_key_def sic_key6_def tuple_key_def tuple_key6_def addr_key_eq)

lemma fc_mark_law:
  assumes "fc_good sc"
  shows "\<exists>sc'. fc_mark_rule v mark sc = Some sc' \<and> fc_good sc' \<and> fc_keeps sc sc' \<and> fc_rules sc' = fc_rules sc"
proof -
  have g: "sfe_good (fc_v4 sc)" "sfe_good6 (fc_v6 sc)" using assms by (simp_all add: fc_good_def)
  obtain si where 4: "sfe_ipv4_mark_rule (fc_v4 sc) mark = Some si" "sfe_good si"
    "sfe_rules si = (sfe_rules (fc_v4 sc))(mk_key mark := map_option (set_mark (mk_mark mark)) (sfe_rules (fc_v4 sc) (mk_key mark)))"
    using v4.run_law [OF g(1), of "Mark mark"] by auto
  obtain si6 where 6: "sfe_ipv6_mark_rule (fc_v6 sc) mark = Some si6" "sfe_good6 si6"
    "sfe_rules6 si6 = (sfe_rules6 (fc_v6 sc))(mk_key6 mark := map_option (set_mark6 (mk_mark mark)) (sfe_rules6 (fc_v6 sc) (mk_key6 mark)))"
    using v6.run_law [OF g(2), of "Mark6 mark"] by auto
  have "has_rule w (sc\<lparr>fc_v4 := si\<rparr>) s = has_rule w sc s" "has_rule w (sc\<lparr>fc_v6 := si6\<rparr>) s = has_rule w sc s" for w s
    by (auto simp: has_rule_def 4(3) 6(3) simp del: not_None_eq)
  then have "fc_rules (sc\<lparr>fc_v4 := si\<rparr>) = fc_rules sc" "fc_rules (sc\<lparr>fc_v6 := si6\<rparr>) = fc_rules sc" by (simp_all add: fc_rules_def)
  then show ?thesis
    using assms 4(1,2) 6(1,2) by (cases v) (simp_all add: fc_mark_rule_def fc_good_def fc_keeps_def same_table_def)
qed

lemma fc_destroy_law:
  assumes "fc_good sc"
  shows "\<exists>sc'. fc_destroy_rule k v (destroy_message t) sc = Some sc' \<and> fc_good sc' \<and> fc_keeps sc sc'
    \<and> fc_rules sc' = fc_rules sc - {end_key v t}"
proof -
  have g: "sfe_good (fc_v4 sc)" "sfe_good6 (fc_v6 sc)" using assms by (simp_all add: fc_good_def)
  let ?sid = "destroy_message t"
  obtain si out where 4: "sfe_ipv4_destroy_rule (ck_jiffies k) (fc_v4 sc) ?sid = Some (si, out)" "sfe_good si"
    "sfe_rules si = (sfe_rules (fc_v4 sc))(tuple_key t := None)"
    using v4.run_law [OF g(1), of "Destroy (ck_jiffies k) ?sid"] by (auto simp: destroy_message_key)
  obtain si6 out6 where 6: "sfe_ipv6_destroy_rule (ck_jiffies k) (fc_v6 sc) ?sid = Some (si6, out6)" "sfe_good6 si6"
    "sfe_rules6 si6 = (sfe_rules6 (fc_v6 sc))(tuple_key6 t := None)"
    using v6.run_law [OF g(2), of "Destroy6 (ck_jiffies k) ?sid"] by (auto simp: destroy_message_key)
  let ?a = "fc_deliver k out (sc\<lparr>fc_v4 := si\<rparr>)" and ?b = "fc_deliver k out6 (sc\<lparr>fc_v6 := si6\<rparr>)"
  have h: "has_rule w ?a s \<longleftrightarrow> has_rule w sc s \<and> msg_key w s \<noteq> end_key True t"
    "has_rule w ?b s \<longleftrightarrow> has_rule w sc s \<and> msg_key w s \<noteq> end_key False t" for w s
    by (auto simp: has_rule_def fc_frame 4(3) 6(3) msg_key_end)
  have "fc_rules ?a = fc_rules sc - {end_key True t}" 
    by (simp only: fc_rules_def set_eq_iff Diff_iff mem_Collect_eq singleton_iff h(1)) metis
  moreover have "fc_rules ?b = fc_rules sc - {end_key False t}" 
    by (simp only: fc_rules_def set_eq_iff Diff_iff mem_Collect_eq singleton_iff h(2)) metis
  moreover have "fc_good ?a" "fc_good ?b" using g 4(2) 6(2) by (simp_all add: fc_good_def fc_frame)
  moreover have "fc_keeps sc ?a" "fc_keeps sc ?b" by (simp_all add: fc_deliver_eq fc_keeps_def same_table_def)
  ultimately show ?thesis using 4(1) 6(1) by (cases v) (simp_all add: fc_destroy_rule_def)
qed

section \<open>The handler\<close>

lemma find_end:
  assumes "table_ok (fk_bucket k) sc"
  shows "fast_classifier_find_conn k sc (tp_src t) (tp_dst t) (tp_src_port t) (tp_dst_port t) (ucast (ucast (tp_protonum t) :: u32)) v
    = fc_lookup (fk_bucket k) sc (end_key v t)"
proof -
  have "(ucast (ucast (ucast (tp_protonum t) :: u32) :: u8) :: u32) = ucast (tp_protonum t)"
    by (simp add: ucast_up_ucast_id is_up)
  then show ?thesis by (simp add: find_conn_lookup [OF assms refl] end_key_def)
qed

definition mark_message :: "nf_conntrack_tuple \<Rightarrow> u32 \<Rightarrow> sfe_connection_mark" where
  "mark_message t m = \<lparr>mk_protocol = ucast (tp_protonum t), mk_src_ip = tp_src t, mk_dest_ip = tp_dst t,
     mk_src_port = tp_src_port t, mk_dest_port = tp_dst_port t, mk_mark = m\<rparr>"

text \<open>The mark is kept with the flow, if there is one.\<close>

lemma update_mark_table:
  assumes t: "table_ok (fk_bucket k) sc" and s: "s = fast_classifier_update_mark k (mark_message t m) v sc"
  shows "fc_rules s = fc_rules sc" and "fc_good s \<longleftrightarrow> fc_good sc" and "fc_live s = fc_live sc" and "fc_ct s = fc_ct sc"
    and "table_ok (fk_bucket k) s" and "(fc_map (fk_bucket k) s)(end_key v t := None) = (fc_map (fk_bucket k) sc)(end_key v t := None)"
    and "fc_lookup (fk_bucket k) s (end_key v t) = fc_lookup (fk_bucket k) sc (end_key v t)"
proof -
  let ?f = "\<lambda>conn. conn\<lparr>fcc_sic := fcc_sic conn\<lparr>sic_mark := m\<rparr>\<rparr>"
  have e: "s = (case fc_lookup (fk_bucket k) sc (end_key v t) of None \<Rightarrow> sc | Some p \<Rightarrow> upd_conn p ?f sc)"
    unfolding s fast_classifier_update_mark_def
    by (simp add: mark_message_def find_end [OF t] cong: option.case_cong)
  show "fc_rules s = fc_rules sc" "fc_good s \<longleftrightarrow> fc_good sc" "fc_live s = fc_live sc" "fc_ct s = fc_ct sc"
    by (simp_all add: e fc_rules_def has_rule_def fc_good_def split: option.split)
  have k: "flow_key (?f c) = flow_key c" "flow_typed (?f c) \<longleftrightarrow> flow_typed c" for c
    by (simp_all add: flow_key_def msg_key_def flow_typed_def)
  have p: "p \<in> in_table sc" "flow_key (fc_conns sc p) = end_key v t" if "fc_lookup (fk_bucket k) sc (end_key v t) = Some p" for p
    using that fc_lookup_iff [OF t] by blast+
  have u: "table_ok (fk_bucket k) (upd_conn p ?f sc)"
    "fc_map (fk_bucket k) (upd_conn p ?f sc) = (fc_map (fk_bucket k) sc)(end_key v t \<mapsto> ?f (fc_conns sc p))"
    if "fc_lookup (fk_bucket k) sc (end_key v t) = Some p" for p
    using upd_conn_table [of _ _ p ?f, OF t p(1) [OF that] k(1)] k(2) table_okD(4) [OF t p(1) [OF that]] p(2) [OF that] by simp_all
  show "table_ok (fk_bucket k) s" using t u(1) by (simp add: e split: option.split)
  show "(fc_map (fk_bucket k) s)(end_key v t := None) = (fc_map (fk_bucket k) sc)(end_key v t := None)"
    using u(2) by (simp add: e split: option.split del: fun_upd_apply)
  show "fc_lookup (fk_bucket k) s (end_key v t) = fc_lookup (fk_bucket k) sc (end_key v t)"
  proof (cases "fc_lookup (fk_bucket k) sc (end_key v t)")
    case (Some p)
    then show ?thesis using fc_lookup_iff [OF u(1) [OF Some], of "end_key v t" p] p [OF Some] k(1) by (simp add: e)
  qed (simp add: e)
qed

lemma send_frame:
  "fc_rules (fast_classifier_send_genl_msg k msg t sc) = fc_rules sc" "fc_good (fast_classifier_send_genl_msg k msg t sc) = fc_good sc"
  "same_table sc (fast_classifier_send_genl_msg k msg t sc)"
  by (simp_all add: fast_classifier_send_genl_msg_def count_sent_def Let_def fc_rules_def has_rule_def fc_good_def same_table_def split: fc_msg.split)

text \<open>The end of a flow after its mark was handled.\<close>

definition flow_removed :: "(u32 \<Rightarrow> nat) \<Rightarrow> fc_key \<Rightarrow> fast_classifier \<Rightarrow> fast_classifier \<Rightarrow> bool" where
  "flow_removed bk key sc sc' \<longleftrightarrow> fc_good sc' \<and> table_ok bk sc' \<and> fc_map bk sc' = (fc_map bk sc)(key := None)
     \<and> fc_rules sc' = fc_rules sc - {key} \<and> fc_live sc' = fc_live sc - set_option (fc_lookup bk sc key)"

lemma destroyed_removed:
  assumes g: "fc_good sc" and t: "table_ok (fk_bucket k) sc"
  shows "\<exists>sc'. (case fc_lookup (fk_bucket k) sc (end_key v t) of
       None \<Rightarrow> fc_destroy_rule (fk k) v (destroy_message t) (fast_classifier_incr_exceptions e sc)
     | Some p \<Rightarrow> fc_destroy_rule (fk k) v (destroy_message t) (fc_remove p sc)) = Some sc'
    \<and> flow_removed (fk_bucket k) (end_key v t) sc sc'"
proof (cases "fc_lookup (fk_bucket k) sc (end_key v t)")
  case None
  let ?s = "fast_classifier_incr_exceptions e sc"
  have st: "same_table sc ?s" by (rule incr_same_table)
  have g': "fc_good ?s" and r: "fc_rules ?s = fc_rules sc"
    using g by (simp_all add: fast_classifier_incr_exceptions_def fc_good_def fc_rules_def has_rule_def)
  obtain sc' where "fc_destroy_rule (fk k) v (destroy_message t) ?s = Some sc'" "fc_good sc'" "fc_keeps ?s sc'" "fc_rules sc' = fc_rules ?s - {end_key v t}"
    using fc_destroy_law [OF g', of "fk k" v t] by (elim exE conjE) (rule that)
  moreover from this have "same_table sc sc'" using same_table_trans [OF st] by (simp add: fc_keeps_def)
  moreover have "fc_map (fk_bucket k) sc (end_key v t) = None" using None by (simp add: fc_map_def)
  ultimately show ?thesis
    using None t r same_tableD(1,2) [of sc sc'] by (auto simp: flow_removed_def same_table_def fun_upd_idem)
next
  case (Some p)
  then have p: "p \<in> in_table sc" "flow_key (fc_conns sc p) = end_key v t" using fc_lookup_iff [OF t] by blast+
  let ?s = "fc_remove p sc"
  have g': "fc_good ?s" and r: "fc_rules ?s = fc_rules sc" and l: "fc_live ?s = fc_live sc - {p}"
    using g by (simp_all add: fc_remove_def fc_good_def fc_rules_def has_rule_def)
  obtain sc' where "fc_destroy_rule (fk k) v (destroy_message t) ?s = Some sc'" "fc_good sc'" "fc_keeps ?s sc'" "fc_rules sc' = fc_rules ?s - {end_key v t}"
    using fc_destroy_law [OF g', of "fk k" v t] by (elim exE conjE) (rule that)
  moreover from this have "same_table ?s sc'" by (simp add: fc_keeps_def)
  ultimately show ?thesis
    using Some r l remove_table [OF t p(1)] p(2) same_tableD(1,2) [of ?s sc'] by (simp add: flow_removed_def same_table_def)
qed

lemma flow_removed_send:
  "flow_removed bk key sc sc' \<Longrightarrow> flow_removed bk key sc (fast_classifier_send_genl_msg k msg t sc')"
  using same_tableD(1,2) [of sc' "fast_classifier_send_genl_msg k msg t sc'" bk] send_frame
  by (simp add: flow_removed_def same_table_def)

text \<open>
  C35: The handler that the file compiles out, on the end of a tracked TCP or UDP flow, whatever its mark:
  it returns, the flow leaves the table and the engine its rule, and the memory of the flow is freed.
\<close>

theorem fc_conntrack_frees_flow:
  assumes "fc_good sc" and "table_ok (fk_bucket k) sc" and "ends_flow True (fc_ct sc c)"
  shows "\<exists>sc'. fast_classifier_conntrack_event k stack marked True m (Some c) sc = Some sc'
    \<and> flow_removed (fk_bucket k) (end_key (ct_l3num (fc_ct sc c) = AF_INET) (ct_orig_tuple (fc_ct sc c))) sc sc'"
proof -
  let ?ct = "fc_ct sc c"
  let ?t = "ct_orig_tuple ?ct" and ?v = "ct_l3num ?ct = AF_INET" and ?bk = "fk_bucket k"
  let ?key = "end_key ?v ?t"
  obtain s0 where s0: "fc_mark_rule ?v (mark_message ?t m) sc = Some s0" "fc_good s0" "fc_keeps sc s0" "fc_rules s0 = fc_rules sc"
    using fc_mark_law [OF assms(1), of ?v "mark_message ?t m"] by (elim exE conjE) (rule that)
  have st: "same_table sc s0" using s0(3) by (simp add: fc_keeps_def)
  have t0: "table_ok ?bk s0" using same_tableD(1) [OF st] assms(2) by simp
  define s1 where "s1 = (if marked \<and> m \<noteq> 0 then fast_classifier_update_mark k (mark_message ?t m) ?v s0 else sc)"
  note U = update_mark_table [OF t0 refl, of ?t m ?v]
  have s1: "fc_good s1" "table_ok ?bk s1" "fc_rules s1 = fc_rules sc" "fc_live s1 = fc_live sc"
    "(fc_map ?bk s1)(?key := None) = (fc_map ?bk sc)(?key := None)" "fc_lookup ?bk s1 ?key = fc_lookup ?bk sc ?key"
    using U s0(2,4) assms(1,2) same_tableD(2,4) [OF st, of ?bk] st
    by (simp_all add: s1_def same_table_def del: fun_upd_apply)
  obtain s2 where s2: "(case fc_lookup ?bk s1 ?key of
       None \<Rightarrow> fc_destroy_rule (fk k) ?v (destroy_message ?t) (fast_classifier_incr_exceptions FC_CT_DESTROY_MISS s1)
     | Some p \<Rightarrow> fc_destroy_rule (fk k) ?v (destroy_message ?t) (fc_remove p s1)) = Some s2"
    "flow_removed ?bk ?key s1 s2"
    using destroyed_removed [OF s1(1,2), of ?v ?t FC_CT_DESTROY_MISS] by (elim exE conjE) (rule that)
  have f: "flow_removed ?bk ?key sc s2" using s2(2) s1(3-6) by (simp add: flow_removed_def)
  have w: "fast_classifier_find_conn k s1 (tp_src ?t) (tp_dst ?t) (tp_src_port ?t) (tp_dst_port ?t) (ucast (ucast (tp_protonum ?t) :: u32)) ?v
      = fc_lookup ?bk s1 ?key" by (rule find_end [OF s1(2)])
  have "fast_classifier_conntrack_event k stack marked True m (Some c) sc = Some s2
      \<or> (\<exists>msg t. fast_classifier_conntrack_event k stack marked True m (Some c) sc = Some (fast_classifier_send_genl_msg k msg t s2))"
    using assms(3) s0(1) s2(1) w
    by (cases "fc_lookup ?bk s1 ?key")
      (auto simp: fast_classifier_conntrack_event_def Let_def ends_flow_def destroy_message_def mark_message_def s1_def split: if_splits)
  then show ?thesis using f flow_removed_send by blast
qed

text \<open>The flow of the example's IPv4 entry, alone in the table.\<close>

definition ending_conn :: sfe_connection where
  "ending_conn = new_conn True 5 (zero_sic\<lparr>sic_protocol := ucast (tp_protonum (ct_orig_tuple example_ct)),
     sic_src_ip := tp_src (ct_orig_tuple example_ct), sic_src_port := tp_src_port (ct_orig_tuple example_ct),
     sic_dest_ip := tp_dst (ct_orig_tuple example_ct), sic_dest_port := tp_dst_port (ct_orig_tuple example_ct)\<rparr>)"

definition ending_fc :: fast_classifier where
  "ending_fc = example_fc\<lparr>fc_conn_ht := (\<lambda>b. if b = fk_bucket example_fk (key_hash (flow_key ending_conn)) then [1] else []),
     fc_conns := (\<lambda>_. ending_conn), fc_live := {1}, sfe_connections_size := 1\<rparr>"

lemma fc_conntrack_frees_flow_witness:
  "fc_live ending_fc = {1} \<and> (\<exists>sc'. fast_classifier_conntrack_event example_fk example_stack True True 7 (Some 5) ending_fc = Some sc'
     \<and> fc_live sc' = {} \<and> (\<forall>key. fc_map (fk_bucket example_fk) sc' key = None))"
proof -
  have y: "flow_typed ending_conn" "flow_key ending_conn = end_key True (ct_orig_tuple example_ct)"
    by (simp_all add: ending_conn_def flow_typed_def new_conn_def example_ct_def flow_key_def msg_key_def end_key_def ipproto_defs)
  have t: "table_ok (fk_bucket example_fk) ending_fc" "fc_map (fk_bucket example_fk) ending_fc = [flow_key ending_conn \<mapsto> ending_conn]"
    using single_table [of ending_fc "fk_bucket example_fk" ending_conn 1] y(1) by (simp_all add: ending_fc_def)
  have g: "fc_good ending_fc" using example_fc_ok(1) by (simp add: ending_fc_def fc_good_def)
  have c: "fc_ct ending_fc 5 = example_ct" by (simp add: ending_fc_def example_fc_def)
  have l: "fc_lookup (fk_bucket example_fk) ending_fc (flow_key ending_conn) = Some 1"
    by (simp add: fc_lookup_def ending_fc_def)
  obtain sc' where s: "fast_classifier_conntrack_event example_fk example_stack True True 7 (Some 5) ending_fc = Some sc'"
    "flow_removed (fk_bucket example_fk) (flow_key ending_conn) ending_fc sc'"
    using fc_conntrack_frees_flow [OF g t(1), of 5 example_stack True 7] busy_ends(1) busy_l3num(1) y(2) c by auto
  have "fc_live ending_fc = {1}" by (simp add: ending_fc_def)
  with s l t(2) show ?thesis by (auto simp: flow_removed_def)
qed

end
