(* ===== verification/SFE_Drv.thy ===== *)
theory SFE_Drv
  imports SFE_CM
begin

text \<open>
  The simulated driver (\<open>simulated-driver/sfe_drv.c\<close>), a third client of the engines: its own client,
  the connection manager ECM, sends it messages to create and destroy rules; it turns them into
  requests to the engines, queues a response for each, and passes the engines' counts on. Responses
  are sent by a worker. \<open>CONFIG_XFRM\<close> and \<open>CONFIG_NET_CLS_ACT\<close> are set.
\<close>

section \<open>Messages\<close>

text \<open>
  The structures of \<open>sfe_drv.h\<close>. Those of IPv4 and IPv6 differ in the type of an address, \<open>'a\<close>, and in
  the translation that only IPv4 has: the IPv4 records extend the IPv6 ones. Padding is left out.
\<close>

definition SFE_RULE_CREATE_FLAG_NO_SEQ_CHECK :: u16 where "SFE_RULE_CREATE_FLAG_NO_SEQ_CHECK = 1"
definition SFE_RULE_CREATE_FLAG_BRIDGE_FLOW :: u16 where "SFE_RULE_CREATE_FLAG_BRIDGE_FLOW = 2"

definition SFE_RULE_CREATE_CONN_VALID :: u16 where "SFE_RULE_CREATE_CONN_VALID = 1"
definition SFE_RULE_CREATE_TCP_VALID :: u16 where "SFE_RULE_CREATE_TCP_VALID = 2"
definition SFE_RULE_CREATE_QOS_VALID :: u16 where "SFE_RULE_CREATE_QOS_VALID = 8"
definition SFE_RULE_CREATE_DSCP_MARKING_VALID :: u16 where "SFE_RULE_CREATE_DSCP_MARKING_VALID = 32"
definition SFE_RULE_CREATE_DIRECTION_VALID :: u16 where "SFE_RULE_CREATE_DIRECTION_VALID = 256"

definition SFE_RULE_SYNC_REASON_STATS :: u32 where "SFE_RULE_SYNC_REASON_STATS = 0"
definition SFE_RULE_SYNC_REASON_FLUSH :: u32 where "SFE_RULE_SYNC_REASON_FLUSH = 1"
definition SFE_RULE_SYNC_REASON_DESTROY :: u32 where "SFE_RULE_SYNC_REASON_DESTROY = 3"

datatype sfe_tx_status =
    SFE_TX_SUCCESS | SFE_TX_FAILURE | SFE_TX_FAILURE_QUEUE | SFE_TX_FAILURE_NOT_READY
  | SFE_TX_FAILURE_TOO_LARGE | SFE_TX_FAILURE_TOO_SHORT | SFE_TX_FAILURE_NOT_SUPPORTED
  | SFE_TX_FAILURE_BAD_PARAM | SFE_TX_FAILURE_NOT_ENABLED

datatype sfe_cmn_response =
    SFE_CMN_RESPONSE_ACK | SFE_CMN_RESPONSE_EVERSION | SFE_CMN_RESPONSE_EINTERFACE
  | SFE_CMN_RESPONSE_ELENGTH | SFE_CMN_RESPONSE_EMSG | SFE_CMM_RESPONSE_NOTIFY | SFE_CMN_RESPONSE_LAST

definition SFE_TX_CREATE_RULE_MSG :: u32 where "SFE_TX_CREATE_RULE_MSG = 0"
definition SFE_TX_DESTROY_RULE_MSG :: u32 where "SFE_TX_DESTROY_RULE_MSG = 1"
definition SFE_RX_CONN_STATS_SYNC_MSG :: u32 where "SFE_RX_CONN_STATS_SYNC_MSG = 2"

record sfe_cmn_msg =
  cmn_version :: u16
  cmn_interface :: u16
  cmn_response :: sfe_cmn_response
  cmn_type :: u32
  cmn_error :: u32
  cmn_cb :: u32
  cmn_app_data :: u32
  cmn_len :: u32

record 'a sfe_5tuple =
  flow_ip :: 'a
  return_ip :: 'a
  flow_ident :: be16
  return_ident :: be16
  tuple_protocol :: u8

record sfe_ipv6_connection_rule =
  flow_mac :: mac
  return_mac :: mac
  flow_interface_num :: u32
  return_interface_num :: u32
  flow_top_interface_num :: u32
  return_top_interface_num :: u32
  flow_mtu :: u32
  return_mtu :: u32

record sfe_ipv4_connection_rule = sfe_ipv6_connection_rule +
  flow_ip_xlate :: be32
  return_ip_xlate :: be32
  flow_ident_xlate :: be16
  return_ident_xlate :: be16

record sfe_protocol_tcp_rule =
  flow_max_window :: u32
  return_max_window :: u32
  flow_end :: u32
  return_end :: u32
  flow_max_end :: u32
  return_max_end :: u32
  flow_window_scale :: u8
  return_window_scale :: u8

record sfe_pppoe_rule =
  flow_pppoe_session_id :: u16
  flow_pppoe_remote_mac :: "nat \<Rightarrow> u16"
  return_pppoe_session_id :: u16
  return_pppoe_remote_mac :: "nat \<Rightarrow> u16"

record sfe_qos_rule =
  flow_qos_tag :: u32
  return_qos_tag :: u32

record sfe_dscp_rule =
  flow_dscp :: u8
  return_dscp :: u8

record sfe_vlan_rule =
  ingress_vlan_tag :: u32
  egress_vlan_tag :: u32

record sfe_acceleration_direction_rule =
  flow_accel :: u8
  return_accel :: u8

record ('a, 'c) sfe_rule_create_msg =
  valid_flags :: u16
  rule_flags :: u16
  rc_tuple :: "'a sfe_5tuple"
  conn_rule :: 'c
  tcp_rule :: sfe_protocol_tcp_rule
  pppoe_rule :: sfe_pppoe_rule
  qos_rule :: sfe_qos_rule
  dscp_rule :: sfe_dscp_rule
  vlan_primary_rule :: sfe_vlan_rule
  vlan_secondary_rule :: sfe_vlan_rule
  direction_rule :: sfe_acceleration_direction_rule
  rc_index :: u32

type_synonym sfe_ipv4_rule_create_msg = "(be32, sfe_ipv4_connection_rule) sfe_rule_create_msg"
type_synonym sfe_ipv6_rule_create_msg = "(sfe_ip_addr, sfe_ipv6_connection_rule) sfe_rule_create_msg"

record 'a sfe_conn_sync =
  ss_index :: u32
  ss_protocol :: u8
  ss_flow_ip :: 'a
  ss_flow_ident :: be16
  ss_flow_max_window :: u32
  ss_flow_end :: u32
  ss_flow_max_end :: u32
  ss_flow_rx_packet_count :: u32
  ss_flow_rx_byte_count :: u32
  ss_flow_tx_packet_count :: u32
  ss_flow_tx_byte_count :: u32
  ss_pppoe :: sfe_pppoe_rule
  ss_return_ip :: 'a
  ss_return_ident :: be16
  ss_return_max_window :: u32
  ss_return_end :: u32
  ss_return_max_end :: u32
  ss_return_rx_packet_count :: u32
  ss_return_rx_byte_count :: u32
  ss_return_tx_packet_count :: u32
  ss_return_tx_byte_count :: u32
  ss_inc_ticks :: u32
  ss_reason :: u32
  ss_flags :: u8
  ss_qos_tag :: u32
  ss_cause :: u32

type_synonym sfe_ipv6_conn_sync = "sfe_ip_addr sfe_conn_sync"

record sfe_ipv4_conn_sync = "be32 sfe_conn_sync" +
  ss_flow_ip_xlate :: be32
  ss_flow_ident_xlate :: be16
  ss_return_ip_xlate :: be32
  ss_return_ident_xlate :: be16

text \<open>
  A message of the client. The union is shown by what its members read, whichever was written; the
  driver reads one of them and writes none.
\<close>

record ('a, 'c) sfe_msg =
  cm :: sfe_cmn_msg
  rule_create :: "('a, 'c) sfe_rule_create_msg"
  rule_destroy :: "'a sfe_5tuple"

type_synonym sfe_ipv4_msg = "(be32, sfe_ipv4_connection_rule) sfe_msg"
type_synonym sfe_ipv6_msg = "(sfe_ip_addr, sfe_ipv6_connection_rule) sfe_msg"

text \<open>The queued responses; the constructor is the message type.\<close>

datatype sfe_drv_response_msg = SFE_DRV_MSG_TYPE_IPV4 sfe_ipv4_msg | SFE_DRV_MSG_TYPE_IPV6 sfe_ipv6_msg

section \<open>State\<close>

datatype sfe_drv_exception =
    SFE_DRV_EXCEPTION_IPV4_MSG_UNKNOW | SFE_DRV_EXCEPTION_IPV6_MSG_UNKNOW
  | SFE_DRV_EXCEPTION_CONNECTION_INVALID | SFE_DRV_EXCEPTION_NOT_SUPPORT_BRIDGE
  | SFE_DRV_EXCEPTION_TCP_INVALID | SFE_DRV_EXCEPTION_PROTOCOL_NOT_SUPPORT
  | SFE_DRV_EXCEPTION_SRC_DEV_NOT_L3 | SFE_DRV_EXCEPTION_DEST_DEV_NOT_L3
  | SFE_DRV_EXCEPTION_CREATE_FAILED | SFE_DRV_EXCEPTION_ENQUEUE_FAILED
  | SFE_DRV_EXCEPTION_NOT_SUPPORT_6RD | SFE_DRV_EXCEPTION_NO_SYNC_CB

definition sfe_drv_exception_events_string :: "(sfe_drv_exception \<times> string) list" where
  "sfe_drv_exception_events_string =
     [(SFE_DRV_EXCEPTION_IPV4_MSG_UNKNOW, ''IPV4_MSG_UNKNOW''), (SFE_DRV_EXCEPTION_IPV6_MSG_UNKNOW, ''IPV6_MSG_UNKNOW''),
      (SFE_DRV_EXCEPTION_CONNECTION_INVALID, ''CONNECTION_INVALID''), (SFE_DRV_EXCEPTION_NOT_SUPPORT_BRIDGE, ''NOT_SUPPORT_BRIDGE''),
      (SFE_DRV_EXCEPTION_TCP_INVALID, ''TCP_INVALID''), (SFE_DRV_EXCEPTION_PROTOCOL_NOT_SUPPORT, ''PROTOCOL_NOT_SUPPORT''),
      (SFE_DRV_EXCEPTION_SRC_DEV_NOT_L3, ''SRC_DEV_NOT_L3''), (SFE_DRV_EXCEPTION_DEST_DEV_NOT_L3, ''DEST_DEV_NOT_L3''),
      (SFE_DRV_EXCEPTION_CREATE_FAILED, ''CREATE_FAILED''), (SFE_DRV_EXCEPTION_ENQUEUE_FAILED, ''ENQUEUE_FAILED''),
      (SFE_DRV_EXCEPTION_NOT_SUPPORT_6RD, ''NOT_SUPPORT_6RD''), (SFE_DRV_EXCEPTION_NO_SYNC_CB, ''NO_SYNC_CB'')]"

text \<open>
  The context of the driver, with the engines and the references on devices. Pointers of the client
  are words, NULL is 0. \<open>sd_work\<close>: the worker is scheduled. \<open>sd_answers\<close>, \<open>sd_stats4\<close> and \<open>sd_stats6\<close>
  are the calls of the client's functions so far, with their arguments.
\<close>

type_synonym 's stats_call = "u64 \<times> u64 \<times> sfe_cmn_msg \<times> 's"

record sfe_drv =
  sd_v4 :: sfe_ipv4
  sd_v6 :: sfe_ipv6
  sd_refs :: "dev_ptr \<Rightarrow> int"
  sd_kobject :: bool
  sd_exceptions_file :: bool
  sd_recv_hook :: bool
  msg_queue :: "sfe_drv_response_msg list"
  sd_work :: bool
  ipv4_stats_sync_cb :: u64
  ipv4_stats_sync_data :: u64
  ipv6_stats_sync_cb :: u64
  ipv6_stats_sync_data :: u64
  sd_exceptions :: "sfe_drv_exception \<Rightarrow> u32"
  sd_answers :: "sfe_drv_response_msg list"
  sd_stats4 :: "sfe_ipv4_conn_sync stats_call list"
  sd_stats6 :: "sfe_ipv6_conn_sync stats_call list"

text \<open>
  Answers of the kernel: devices, \<open>dev_get_by_index\<close>, the addresses of a device (None when it has no
  \<open>ip_ptr\<close> or \<open>ip6_ptr\<close>), the clock and the number of its ticks in a second.
\<close>

record drv_kernel =
  dk_devs :: "dev_ptr \<Rightarrow> net_device"
  dk_dev_by_index :: "u32 \<Rightarrow> dev_ptr option"
  dk_ip_addrs :: "dev_ptr \<Rightarrow> bool option"
  dk_ip6_addrs :: "dev_ptr \<Rightarrow> bool option"
  dk_jiffies :: u64
  dk_hz :: nat

definition drv_hold :: "dev_ptr \<Rightarrow> sfe_drv \<Rightarrow> sfe_drv" where
  "drv_hold d sc = sc\<lparr>sd_refs := (sd_refs sc)(d := sd_refs sc d + 1)\<rparr>"

definition drv_put :: "dev_ptr \<Rightarrow> sfe_drv \<Rightarrow> sfe_drv" where
  "drv_put d sc = sc\<lparr>sd_refs := (sd_refs sc)(d := sd_refs sc d - 1)\<rparr>"

definition sfe_drv_incr_exceptions :: "sfe_drv_exception \<Rightarrow> sfe_drv \<Rightarrow> sfe_drv" where
  "sfe_drv_incr_exceptions except sc = sc\<lparr>sd_exceptions := (sd_exceptions sc)(except := sd_exceptions sc except + 1)\<rparr>"

definition sfe_drv_dev_is_layer_3_interface :: "drv_kernel \<Rightarrow> dev_ptr \<Rightarrow> bool \<Rightarrow> bool" where
  "sfe_drv_dev_is_layer_3_interface k dev check_v4 =
     (case (if check_v4 then dk_ip_addrs k dev else dk_ip6_addrs k dev) of
        None \<Rightarrow> False
      | Some has_addr \<Rightarrow> has_addr)"

section \<open>The queue of responses\<close>

fun is_ipv4_response :: "sfe_drv_response_msg \<Rightarrow> bool" where
  "is_ipv4_response (SFE_DRV_MSG_TYPE_IPV4 m) = True"
| "is_ipv4_response (SFE_DRV_MSG_TYPE_IPV6 m) = False"

fun response_cm :: "sfe_drv_response_msg \<Rightarrow> sfe_cmn_msg" where
  "response_cm (SFE_DRV_MSG_TYPE_IPV4 m) = cm m"
| "response_cm (SFE_DRV_MSG_TYPE_IPV6 m) = cm m"

definition sfe_drv_clean_response_msg_by_type :: "bool \<Rightarrow> sfe_drv \<Rightarrow> sfe_drv" where
  "sfe_drv_clean_response_msg_by_type v4 sc = sc\<lparr>msg_queue := filter (\<lambda>r. is_ipv4_response r \<noteq> v4) (msg_queue sc)\<rparr>"

text \<open>\<open>mem\<close> is whether \<open>kzalloc\<close> succeeds; the response is a copy of the message.\<close>

definition sfe_drv_alloc_response_msg :: "bool \<Rightarrow> ('m \<Rightarrow> sfe_drv_response_msg) \<Rightarrow> 'm \<Rightarrow> sfe_drv_response_msg option" where
  "sfe_drv_alloc_response_msg mem ty msg = (if mem then Some (ty msg) else None)"

definition sfe_drv_enqueue_msg :: "sfe_drv_response_msg \<Rightarrow> sfe_drv \<Rightarrow> sfe_drv" where
  "sfe_drv_enqueue_msg response sc = sc\<lparr>msg_queue := msg_queue sc @ [response], sd_work := True\<rparr>"

text \<open>
  One response taken from the queue is sent: \<open>client\<close> is what the client's function does to the driver
  when it is called, as it may send further messages.
\<close>

definition drv_send :: "(sfe_drv_response_msg \<Rightarrow> sfe_drv \<Rightarrow> sfe_drv option) \<Rightarrow> sfe_drv_response_msg \<Rightarrow> sfe_drv \<Rightarrow> sfe_drv option" where
  "drv_send client response sc =
     (if (if is_ipv4_response response then ipv4_stats_sync_cb sc \<noteq> 0 else ipv6_stats_sync_cb sc \<noteq> 0)
         \<and> cmn_cb (response_cm response) \<noteq> 0
      then client response (sc\<lparr>sd_answers := sd_answers sc @ [response]\<rparr>)
      else Some sc)"

partial_function (option) sfe_drv_process_response_msg ::
  "(sfe_drv_response_msg \<Rightarrow> sfe_drv \<Rightarrow> sfe_drv option) \<Rightarrow> sfe_drv \<Rightarrow> sfe_drv option" where
  "sfe_drv_process_response_msg client sc =
     (case msg_queue sc of
        [] \<Rightarrow> Some sc
      | response # rest \<Rightarrow> do {
          sc \<leftarrow> drv_send client response (sc\<lparr>msg_queue := rest\<rparr>);
          sfe_drv_process_response_msg client sc })"

text \<open>The worker is no longer scheduled once it runs.\<close>

definition drv_work :: "(sfe_drv_response_msg \<Rightarrow> sfe_drv \<Rightarrow> sfe_drv option) \<Rightarrow> sfe_drv \<Rightarrow> sfe_drv option" where
  "drv_work client sc = sfe_drv_process_response_msg client (sc\<lparr>sd_work := False\<rparr>)"

end
