(* ===== verification/SFE_Drv_Control.thy ===== *)
theory SFE_Drv_Control
  imports SFE_Drv
begin

text \<open>
  The simulated driver, continued: statistics, messages of the client, registration of the client,
  the receive hook, loading and unloading.
\<close>

section \<open>Message headers\<close>

definition SFE_MESSAGE_VERSION :: u16 where "SFE_MESSAGE_VERSION = 1"

text \<open>\<open>cb\<close> and \<open>app_data\<close> are pointers; the message keeps their low 32 bits.\<close>

definition sfe_cmn_msg_init :: "u16 \<Rightarrow> u32 \<Rightarrow> u32 \<Rightarrow> u64 \<Rightarrow> u64 \<Rightarrow> sfe_cmn_msg \<Rightarrow> sfe_cmn_msg" where
  "sfe_cmn_msg_init if_num type len cb app_data ncm =
     ncm\<lparr>cmn_interface := if_num, cmn_version := SFE_MESSAGE_VERSION, cmn_type := type, cmn_len := len,
         cmn_cb := ucast cb, cmn_app_data := ucast app_data\<rparr>"

definition sfe_ipv4_msg_init :: "u16 \<Rightarrow> u32 \<Rightarrow> u32 \<Rightarrow> u64 \<Rightarrow> u64 \<Rightarrow> sfe_ipv4_msg \<Rightarrow> sfe_ipv4_msg" where
  "sfe_ipv4_msg_init if_num type len cb app_data nim = nim\<lparr>cm := sfe_cmn_msg_init if_num type len cb app_data (cm nim)\<rparr>"

definition sfe_ipv6_msg_init :: "u16 \<Rightarrow> u32 \<Rightarrow> u32 \<Rightarrow> u64 \<Rightarrow> u64 \<Rightarrow> sfe_ipv6_msg \<Rightarrow> sfe_ipv6_msg" where
  "sfe_ipv6_msg_init if_num type len cb app_data nim = nim\<lparr>cm := sfe_cmn_msg_init if_num type len cb app_data (cm nim)\<rparr>"

text \<open>A message cleared by \<open>memset\<close>, with its header; \<open>SFE_CMN_RESPONSE_ACK\<close> is 0.\<close>

definition stats_header :: "u32 \<Rightarrow> sfe_cmn_msg" where
  "stats_header len = sfe_cmn_msg_init 0 SFE_RX_CONN_STATS_SYNC_MSG len 0 0
     \<lparr>cmn_version = 0, cmn_interface = 0, cmn_response = SFE_CMN_RESPONSE_ACK, cmn_type = 0, cmn_error = 0,
      cmn_cb = 0, cmn_app_data = 0, cmn_len = 0\<rparr>"

section \<open>Statistics\<close>

definition zero_pppoe :: sfe_pppoe_rule where
  "zero_pppoe = \<lparr>flow_pppoe_session_id = 0, flow_pppoe_remote_mac = (\<lambda>_. 0),
     return_pppoe_session_id = 0, return_pppoe_remote_mac = (\<lambda>_. 0)\<rparr>"

definition zero_stats :: "'a \<Rightarrow> 'a sfe_conn_sync" where
  "zero_stats z = \<lparr>ss_index = 0, ss_protocol = 0, ss_flow_ip = z, ss_flow_ident = 0, ss_flow_max_window = 0,
     ss_flow_end = 0, ss_flow_max_end = 0, ss_flow_rx_packet_count = 0, ss_flow_rx_byte_count = 0,
     ss_flow_tx_packet_count = 0, ss_flow_tx_byte_count = 0, ss_pppoe = zero_pppoe, ss_return_ip = z,
     ss_return_ident = 0, ss_return_max_window = 0, ss_return_end = 0, ss_return_max_end = 0,
     ss_return_rx_packet_count = 0, ss_return_rx_byte_count = 0, ss_return_tx_packet_count = 0,
     ss_return_tx_byte_count = 0, ss_inc_ticks = 0, ss_reason = 0, ss_flags = 0, ss_qos_tag = 0, ss_cause = 0\<rparr>"

text \<open>\<open>((u32)delta_jiffies * MSEC_PER_SEC) / HZ\<close>: the product is a \<open>long\<close>, the result kept in 32 bits.\<close>

definition inc_ticks :: "nat \<Rightarrow> u64 \<Rightarrow> u32" where
  "inc_ticks hz delta_jiffies = of_nat ((unat (ucast delta_jiffies :: u32) * 1000) div hz)"

text \<open>What both callbacks fill in the same way.\<close>

definition fill_stats :: "nat \<Rightarrow> sfe_connection_sync \<Rightarrow> ('a, 'b) sfe_conn_sync_scheme \<Rightarrow> ('a, 'b) sfe_conn_sync_scheme" where
  "fill_stats hz sis m =
     (let m = (if sis_protocol sis = ucast IPPROTO_TCP
               then m\<lparr>ss_flow_max_window := sis_src_td_max_window sis, ss_flow_end := sis_src_td_end sis,
                      ss_flow_max_end := sis_src_td_max_end sis, ss_return_max_window := sis_dest_td_max_window sis,
                      ss_return_end := sis_dest_td_end sis, ss_return_max_end := sis_dest_td_max_end sis\<rparr>
               else m)
      in m\<lparr>ss_flow_rx_packet_count := sis_src_new_packet_count sis, ss_flow_rx_byte_count := sis_src_new_byte_count sis,
           ss_flow_tx_packet_count := sis_dest_new_packet_count sis, ss_flow_tx_byte_count := sis_dest_new_byte_count sis,
           ss_return_rx_packet_count := sis_dest_new_packet_count sis, ss_return_rx_byte_count := sis_dest_new_byte_count sis,
           ss_return_tx_packet_count := sis_src_new_packet_count sis, ss_return_tx_byte_count := sis_src_new_byte_count sis,
           ss_inc_ticks := inc_ticks hz (sis_delta_jiffies sis),
           ss_reason := (case sis_reason sis of
               SFE_SYNC_REASON_DESTROY \<Rightarrow> SFE_RULE_SYNC_REASON_DESTROY
             | SFE_SYNC_REASON_FLUSH \<Rightarrow> SFE_RULE_SYNC_REASON_FLUSH
             | SFE_SYNC_REASON_STATS \<Rightarrow> SFE_RULE_SYNC_REASON_STATS)\<rparr>)"

definition ipv4_stats_message :: "nat \<Rightarrow> sfe_connection_sync \<Rightarrow> sfe_ipv4_conn_sync" where
  "ipv4_stats_message hz sis =
     (let m = sfe_conn_sync.extend (zero_stats 0)
                \<lparr>ss_flow_ip_xlate = 0, ss_flow_ident_xlate = 0, ss_return_ip_xlate = 0, ss_return_ident_xlate = 0\<rparr>
      in fill_stats hz sis (m\<lparr>ss_protocol := ucast (sis_protocol sis),
           ss_flow_ip := sa_ip (sis_src_ip sis), ss_flow_ip_xlate := sa_ip (sis_src_ip_xlate sis),
           ss_flow_ident := sis_src_port sis, ss_flow_ident_xlate := sis_src_port_xlate sis,
           ss_return_ip := sa_ip (sis_dest_ip sis), ss_return_ip_xlate := sa_ip (sis_dest_ip_xlate sis),
           ss_return_ident := sis_dest_port sis, ss_return_ident_xlate := sis_dest_port_xlate sis\<rparr>))"

definition ipv6_stats_message :: "nat \<Rightarrow> sfe_connection_sync \<Rightarrow> sfe_ipv6_conn_sync" where
  "ipv6_stats_message hz sis =
     fill_stats hz sis ((zero_stats (ip4_addr 0))\<lparr>ss_protocol := ucast (sis_protocol sis),
       ss_flow_ip := sis_src_ip sis, ss_flow_ident := sis_src_port sis,
       ss_return_ip := sis_dest_ip sis, ss_return_ident := sis_dest_port sis\<rparr>)"

text \<open>The lengths are \<open>sizeof(struct sfe_ipv4_conn_sync)\<close> and \<open>sizeof(struct sfe_ipv6_conn_sync)\<close>.\<close>

definition sfe_drv_ipv4_stats_sync_callback :: "drv_kernel \<Rightarrow> sfe_connection_sync \<Rightarrow> sfe_drv \<Rightarrow> sfe_drv" where
  "sfe_drv_ipv4_stats_sync_callback k sis sc =
     (let sync_cb = ipv4_stats_sync_cb sc
      in if sync_cb = 0 then sfe_drv_incr_exceptions SFE_DRV_EXCEPTION_NO_SYNC_CB sc
         else sc\<lparr>sd_stats4 := sd_stats4 sc @
                   [(sync_cb, ipv4_stats_sync_data sc, stats_header 124, ipv4_stats_message (dk_hz k) sis)]\<rparr>)"

definition sfe_drv_ipv6_stats_sync_callback :: "drv_kernel \<Rightarrow> sfe_connection_sync \<Rightarrow> sfe_drv \<Rightarrow> sfe_drv" where
  "sfe_drv_ipv6_stats_sync_callback k sis sc =
     (let sync_cb = ipv6_stats_sync_cb sc
      in if sync_cb = 0 then sfe_drv_incr_exceptions SFE_DRV_EXCEPTION_NO_SYNC_CB sc
         else sc\<lparr>sd_stats6 := sd_stats6 sc @
                   [(sync_cb, ipv6_stats_sync_data sc, stats_header 140, ipv6_stats_message (dk_hz k) sis)]\<rparr>)"

text \<open>The calls of the callbacks that an engine made.\<close>

definition drv_deliver4 :: "drv_kernel \<Rightarrow> syncs \<Rightarrow> sfe_drv \<Rightarrow> sfe_drv" where
  "drv_deliver4 k out sc = fold (\<lambda>(cb, sis). sfe_drv_ipv4_stats_sync_callback k sis) out sc"

definition drv_deliver6 :: "drv_kernel \<Rightarrow> syncs \<Rightarrow> sfe_drv \<Rightarrow> sfe_drv" where
  "drv_deliver6 k out sc = fold (\<lambda>(cb, sis). sfe_drv_ipv6_stats_sync_callback k sis) out sc"

section \<open>Creating rules\<close>

type_synonym 'a drv_stage = "(sfe_cmn_response \<times> sfe_drv_exception) + 'a"

definition drv_flag :: "u16 \<Rightarrow> u16 \<Rightarrow> bool" where
  "drv_flag flags f \<longleftrightarrow> flags AND f \<noteq> 0"

definition drv_admit :: "('a, 'c) sfe_rule_create_msg \<Rightarrow> unit drv_stage" where
  "drv_admit rc =
     (if \<not> drv_flag (valid_flags rc) SFE_RULE_CREATE_CONN_VALID
      then Inl (SFE_CMN_RESPONSE_EMSG, SFE_DRV_EXCEPTION_CONNECTION_INVALID)
      else if drv_flag (rule_flags rc) SFE_RULE_CREATE_FLAG_BRIDGE_FLOW
      then Inl (SFE_CMN_RESPONSE_EINTERFACE, SFE_DRV_EXCEPTION_NOT_SUPPORT_BRIDGE)
      else Inr ())"

definition drv_tcp :: "('a, 'c) sfe_rule_create_msg \<Rightarrow> sfe_connection_create \<Rightarrow> sfe_connection_create" where
  "drv_tcp rc sic =
     (let tr = tcp_rule rc;
          sic = sic\<lparr>sic_src_td_window_scale := flow_window_scale tr, sic_src_td_max_window := flow_max_window tr,
                    sic_src_td_end := flow_end tr, sic_src_td_max_end := flow_max_end tr,
                    sic_dest_td_window_scale := return_window_scale tr, sic_dest_td_max_window := return_max_window tr,
                    sic_dest_td_end := return_end tr, sic_dest_td_max_end := return_max_end tr\<rparr>
      in if drv_flag (rule_flags rc) SFE_RULE_CREATE_FLAG_NO_SEQ_CHECK
         then sic\<lparr>sic_flags := sic_flags sic OR SFE_CREATE_FLAG_NO_SEQ_CHECK\<rparr> else sic)"

text \<open>The switch over the protocol; \<open>ports\<close> are the assignments of the ports, the same for TCP and UDP.\<close>

definition drv_protocol ::
  "('a, 'c) sfe_rule_create_msg \<Rightarrow> (sfe_connection_create \<Rightarrow> sfe_connection_create) \<Rightarrow> sfe_connection_create \<Rightarrow>
   sfe_connection_create drv_stage" where
  "drv_protocol rc ports sic =
     (if sic_protocol sic = ucast IPPROTO_TCP
      then if \<not> drv_flag (valid_flags rc) SFE_RULE_CREATE_TCP_VALID
           then Inl (SFE_CMN_RESPONSE_EMSG, SFE_DRV_EXCEPTION_TCP_INVALID)
           else Inr (drv_tcp rc (ports sic))
      else if sic_protocol sic = ucast IPPROTO_UDP then Inr (ports sic)
      else Inl (SFE_CMN_RESPONSE_EMSG, SFE_DRV_EXCEPTION_PROTOCOL_NOT_SUPPORT))"

definition drv_macs :: "('a, ('z) sfe_ipv6_connection_rule_scheme) sfe_rule_create_msg \<Rightarrow> sfe_connection_create \<Rightarrow> sfe_connection_create" where
  "drv_macs rc sic = sic\<lparr>sic_src_mac := flow_mac (conn_rule rc), sic_src_mac_xlate := (\<lambda>_. 0),
     sic_dest_mac := (\<lambda>_. 0), sic_dest_mac_xlate := return_mac (conn_rule rc)\<rparr>"

text \<open>
  \<open>sic\<close> is a variable of the stack, \<open>stack\<close> what it holds at first; the mark, and what the message does
  not say to be valid, keep that.
\<close>

definition drv_message4 :: "sfe_connection_create \<Rightarrow> sfe_ipv4_rule_create_msg \<Rightarrow> sfe_connection_create drv_stage" where
  "drv_message4 stack rc =
     (case drv_admit rc of
        Inl e \<Rightarrow> Inl e
      | Inr _ \<Rightarrow>
          let t = rc_tuple rc; cr = conn_rule rc;
              sic = stack\<lparr>sic_protocol := ucast (tuple_protocol t),
                sic_src_ip := set_ip (flow_ip t) (sic_src_ip stack), sic_dest_ip := set_ip (return_ip t) (sic_dest_ip stack),
                sic_src_ip_xlate := set_ip (flow_ip_xlate cr) (sic_src_ip_xlate stack),
                sic_dest_ip_xlate := set_ip (return_ip_xlate cr) (sic_dest_ip_xlate stack), sic_flags := 0\<rparr>;
              ports = (\<lambda>sic. sic\<lparr>sic_src_port := flow_ident t, sic_dest_port := return_ident t,
                                 sic_src_port_xlate := flow_ident_xlate cr, sic_dest_port_xlate := return_ident_xlate cr\<rparr>)
          in map_sum id (drv_macs rc) (drv_protocol rc ports sic))"

definition drv_message6 :: "sfe_connection_create \<Rightarrow> sfe_ipv6_rule_create_msg \<Rightarrow> sfe_connection_create drv_stage" where
  "drv_message6 stack rc =
     (case drv_admit rc of
        Inl e \<Rightarrow> Inl e
      | Inr _ \<Rightarrow>
          let t = rc_tuple rc;
              sic = stack\<lparr>sic_protocol := ucast (tuple_protocol t), sic_src_ip := flow_ip t, sic_dest_ip := return_ip t,
                          sic_src_ip_xlate := flow_ip t, sic_dest_ip_xlate := return_ip t, sic_flags := 0\<rparr>;
              ports = (\<lambda>sic. sic\<lparr>sic_src_port := flow_ident t, sic_dest_port := return_ident t,
                                 sic_src_port_xlate := flow_ident t, sic_dest_port_xlate := return_ident t\<rparr>)
          in map_sum id (drv_macs rc) (drv_protocol rc ports sic))"

text \<open>What follows the lookup of the devices.\<close>

definition drv_complete ::
  "('a, ('z) sfe_ipv6_connection_rule_scheme) sfe_rule_create_msg \<Rightarrow> dev_ptr \<Rightarrow> dev_ptr \<Rightarrow> sfe_connection_create \<Rightarrow> sfe_connection_create" where
  "drv_complete rc src_dev dest_dev sic =
     (let sic = sic\<lparr>sic_src_dev := src_dev, sic_dest_dev := dest_dev,
                    sic_src_mtu := flow_mtu (conn_rule rc), sic_dest_mtu := return_mtu (conn_rule rc)\<rparr>;
          sic = (if drv_flag (valid_flags rc) SFE_RULE_CREATE_QOS_VALID
                 then sic\<lparr>sic_src_priority := flow_qos_tag (qos_rule rc), sic_dest_priority := return_qos_tag (qos_rule rc),
                          sic_flags := sic_flags sic OR SFE_CREATE_FLAG_REMARK_PRIORITY\<rparr> else sic);
          sic = (if drv_flag (valid_flags rc) SFE_RULE_CREATE_DSCP_MARKING_VALID
                 then sic\<lparr>sic_src_dscp := ucast (flow_dscp (dscp_rule rc)), sic_dest_dscp := ucast (return_dscp (dscp_rule rc)),
                          sic_flags := sic_flags sic OR SFE_CREATE_FLAG_REMARK_DSCP\<rparr> else sic)
      in if drv_flag (valid_flags rc) SFE_RULE_CREATE_DIRECTION_VALID
         then sic\<lparr>sic_original_accel := ucast (flow_accel (direction_rule rc)),
                  sic_reply_accel := ucast (return_accel (direction_rule rc))\<rparr>
         else sic\<lparr>sic_original_accel := 1, sic_reply_accel := 1\<rparr>)"

text \<open>The response and the devices held, from the device lookups to the creation; \<open>create\<close> asks the engine.\<close>

definition drv_create ::
  "drv_kernel \<Rightarrow> bool \<Rightarrow> ('a, ('z) sfe_ipv6_connection_rule_scheme) sfe_rule_create_msg \<Rightarrow>
   (sfe_connection_create \<Rightarrow> sfe_drv \<Rightarrow> (int \<times> sfe_drv) option) \<Rightarrow> sfe_connection_create \<Rightarrow> sfe_drv \<Rightarrow>
   (sfe_cmn_response \<times> dev_ptr option \<times> dev_ptr option \<times> sfe_drv) option" where
  "drv_create k v4 rc create sic sc =
     (let hold = (\<lambda>d sc. case d of None \<Rightarrow> sc | Some d \<Rightarrow> drv_hold d sc);
          not_l3 = (\<lambda>d. case d of None \<Rightarrow> True | Some d \<Rightarrow> \<not> sfe_drv_dev_is_layer_3_interface k d v4);
          src_dev = dk_dev_by_index k (flow_top_interface_num (conn_rule rc));
          sc = hold src_dev sc
      in if not_l3 src_dev
      then Some (SFE_CMN_RESPONSE_EINTERFACE, src_dev, None, sfe_drv_incr_exceptions SFE_DRV_EXCEPTION_SRC_DEV_NOT_L3 sc)
      else let dest_dev = dk_dev_by_index k (return_top_interface_num (conn_rule rc));
               sc = hold dest_dev sc
      in if not_l3 dest_dev
      then Some (SFE_CMN_RESPONSE_EINTERFACE, src_dev, dest_dev, sfe_drv_incr_exceptions SFE_DRV_EXCEPTION_DEST_DEV_NOT_L3 sc)
      else do {
        (err, sc) \<leftarrow> create (drv_complete rc (the src_dev) (the dest_dev) sic) sc;
        if err = 0 then Some (SFE_CMN_RESPONSE_ACK, src_dev, dest_dev, sc)
        else Some (SFE_CMN_RESPONSE_EMSG, src_dev, dest_dev, sfe_drv_incr_exceptions SFE_DRV_EXCEPTION_CREATE_FAILED sc) })"

text \<open>From \<open>failed_ret\<close> on: the devices are released.\<close>

definition drv_release :: "dev_ptr option \<Rightarrow> dev_ptr option \<Rightarrow> sfe_drv \<Rightarrow> sfe_drv" where
  "drv_release src_dev dest_dev sc =
     (let sc = (case src_dev of None \<Rightarrow> sc | Some d \<Rightarrow> drv_put d sc)
      in case dest_dev of None \<Rightarrow> sc | Some d \<Rightarrow> drv_put d sc)"

definition set_response :: "sfe_cmn_response \<Rightarrow> ('a, 'c) sfe_msg \<Rightarrow> ('a, 'c) sfe_msg" where
  "set_response ret msg = msg\<lparr>cm := (cm msg)\<lparr>cmn_response := ret\<rparr>\<rparr>"

text \<open>\<open>al\<close> is the memory of the engine, \<open>mem\<close> that of the response. The client's message is changed, too.\<close>

definition sfe_drv_create_ipv4_rule_msg ::
  "drv_kernel \<Rightarrow> allocs \<Rightarrow> bool \<Rightarrow> sfe_connection_create \<Rightarrow> sfe_ipv4_msg \<Rightarrow> sfe_drv \<Rightarrow> (sfe_tx_status \<times> sfe_ipv4_msg \<times> sfe_drv) option" where
  "sfe_drv_create_ipv4_rule_msg k al mem stack msg sc =
     (case sfe_drv_alloc_response_msg mem SFE_DRV_MSG_TYPE_IPV4 msg of
        None \<Rightarrow> Some (SFE_TX_FAILURE_QUEUE, msg, sfe_drv_incr_exceptions SFE_DRV_EXCEPTION_ENQUEUE_FAILED sc)
      | Some _ \<Rightarrow> do {
          (ret, src_dev, dest_dev, sc) \<leftarrow>
            (case drv_message4 stack (rule_create msg) of
               Inl (ret, e) \<Rightarrow> Some (ret, None, None, sfe_drv_incr_exceptions e sc)
             | Inr sic \<Rightarrow> drv_create k True (rule_create msg)
                 (\<lambda>sic sc. do {
                    (err, si) \<leftarrow> sfe_ipv4_create_rule (dk_devs k) (dk_jiffies k) (fst al) (fst (snd al)) (snd (snd al)) (sd_v4 sc) sic;
                    Some (err, sc\<lparr>sd_v4 := si\<rparr>) }) sic sc);
          let sc = drv_release src_dev dest_dev sc;
          let msg = set_response ret msg;
          Some (SFE_TX_SUCCESS, msg, sfe_drv_enqueue_msg (SFE_DRV_MSG_TYPE_IPV4 msg) sc) })"

definition sfe_drv_create_ipv6_rule_msg ::
  "drv_kernel \<Rightarrow> allocs \<Rightarrow> bool \<Rightarrow> sfe_connection_create \<Rightarrow> sfe_ipv6_msg \<Rightarrow> sfe_drv \<Rightarrow> (sfe_tx_status \<times> sfe_ipv6_msg \<times> sfe_drv) option" where
  "sfe_drv_create_ipv6_rule_msg k al mem stack msg sc =
     (case sfe_drv_alloc_response_msg mem SFE_DRV_MSG_TYPE_IPV6 msg of
        None \<Rightarrow> Some (SFE_TX_FAILURE_QUEUE, msg, sfe_drv_incr_exceptions SFE_DRV_EXCEPTION_ENQUEUE_FAILED sc)
      | Some _ \<Rightarrow> do {
          (ret, src_dev, dest_dev, sc) \<leftarrow>
            (case drv_message6 stack (rule_create msg) of
               Inl (ret, e) \<Rightarrow> Some (ret, None, None, sfe_drv_incr_exceptions e sc)
             | Inr sic \<Rightarrow> drv_create k False (rule_create msg)
                 (\<lambda>sic sc. do {
                    (err, si) \<leftarrow> sfe_ipv6_create_rule (dk_devs k) (dk_jiffies k) (fst al) (fst (snd al)) (snd (snd al)) (sd_v6 sc) sic;
                    Some (err, sc\<lparr>sd_v6 := si\<rparr>) }) sic sc);
          let sc = drv_release src_dev dest_dev sc;
          let msg = set_response ret msg;
          Some (SFE_TX_SUCCESS, msg, sfe_drv_enqueue_msg (SFE_DRV_MSG_TYPE_IPV6 msg) sc) })"

end
