(* ===== verification/SFE_Drv_Module.thy ===== *)
theory SFE_Drv_Module
  imports SFE_Drv_Control
begin

text \<open>
  The simulated driver, continued: removal of rules, the dispatch of messages, registration of the
  client, the receive hook, the file in sysfs, loading and unloading.
\<close>

section \<open>Removing rules\<close>

text \<open>Of an IPv4 address the message has the first word; the rest is what the stack holds.\<close>

definition drv_sid4 :: "sfe_connection_destroy \<Rightarrow> be32 sfe_5tuple \<Rightarrow> sfe_connection_destroy" where
  "drv_sid4 stack t = \<lparr>sid_protocol = ucast (tuple_protocol t), sid_src_ip = set_ip (flow_ip t) (sid_src_ip stack),
     sid_dest_ip = set_ip (return_ip t) (sid_dest_ip stack), sid_src_port = flow_ident t, sid_dest_port = return_ident t\<rparr>"

definition drv_sid6 :: "sfe_ip_addr sfe_5tuple \<Rightarrow> sfe_connection_destroy" where
  "drv_sid6 t = \<lparr>sid_protocol = ucast (tuple_protocol t), sid_src_ip = flow_ip t, sid_dest_ip = return_ip t,
     sid_src_port = flow_ident t, sid_dest_port = return_ident t\<rparr>"

definition sfe_drv_destroy_ipv4_rule_msg ::
  "drv_kernel \<Rightarrow> bool \<Rightarrow> sfe_connection_destroy \<Rightarrow> sfe_ipv4_msg \<Rightarrow> sfe_drv \<Rightarrow> (sfe_tx_status \<times> sfe_ipv4_msg \<times> sfe_drv) option" where
  "sfe_drv_destroy_ipv4_rule_msg k mem stack msg sc =
     (case sfe_drv_alloc_response_msg mem SFE_DRV_MSG_TYPE_IPV4 msg of
        None \<Rightarrow> Some (SFE_TX_FAILURE_QUEUE, msg, sfe_drv_incr_exceptions SFE_DRV_EXCEPTION_ENQUEUE_FAILED sc)
      | Some _ \<Rightarrow> do {
          (si, out) \<leftarrow> sfe_ipv4_destroy_rule (dk_jiffies k) (sd_v4 sc) (drv_sid4 stack (rule_destroy msg));
          let sc = drv_deliver4 k out (sc\<lparr>sd_v4 := si\<rparr>);
          let msg = set_response SFE_CMN_RESPONSE_ACK msg;
          Some (SFE_TX_SUCCESS, msg, sfe_drv_enqueue_msg (SFE_DRV_MSG_TYPE_IPV4 msg) sc) })"

definition sfe_drv_destroy_ipv6_rule_msg ::
  "drv_kernel \<Rightarrow> bool \<Rightarrow> sfe_ipv6_msg \<Rightarrow> sfe_drv \<Rightarrow> (sfe_tx_status \<times> sfe_ipv6_msg \<times> sfe_drv) option" where
  "sfe_drv_destroy_ipv6_rule_msg k mem msg sc =
     (case sfe_drv_alloc_response_msg mem SFE_DRV_MSG_TYPE_IPV6 msg of
        None \<Rightarrow> Some (SFE_TX_FAILURE_QUEUE, msg, sfe_drv_incr_exceptions SFE_DRV_EXCEPTION_ENQUEUE_FAILED sc)
      | Some _ \<Rightarrow> do {
          (si, out) \<leftarrow> sfe_ipv6_destroy_rule (dk_jiffies k) (sd_v6 sc) (drv_sid6 (rule_destroy msg));
          let sc = drv_deliver6 k out (sc\<lparr>sd_v6 := si\<rparr>);
          let msg = set_response SFE_CMN_RESPONSE_ACK msg;
          Some (SFE_TX_SUCCESS, msg, sfe_drv_enqueue_msg (SFE_DRV_MSG_TYPE_IPV6 msg) sc) })"

section \<open>Messages of the client\<close>

text \<open>What the stack holds where the two handlers build their request.\<close>

type_synonym drv_stack = "sfe_connection_create \<times> sfe_connection_destroy"

definition sfe_drv_ipv4_tx ::
  "drv_kernel \<Rightarrow> allocs \<Rightarrow> bool \<Rightarrow> drv_stack \<Rightarrow> sfe_ipv4_msg \<Rightarrow> sfe_drv \<Rightarrow> (sfe_tx_status \<times> sfe_ipv4_msg \<times> sfe_drv) option" where
  "sfe_drv_ipv4_tx k al mem stack msg sc =
     (if cmn_type (cm msg) = SFE_TX_CREATE_RULE_MSG then sfe_drv_create_ipv4_rule_msg k al mem (fst stack) msg sc
      else if cmn_type (cm msg) = SFE_TX_DESTROY_RULE_MSG then sfe_drv_destroy_ipv4_rule_msg k mem (snd stack) msg sc
      else Some (SFE_TX_FAILURE_NOT_ENABLED, msg, sfe_drv_incr_exceptions SFE_DRV_EXCEPTION_IPV4_MSG_UNKNOW sc))"

definition sfe_drv_ipv6_tx ::
  "drv_kernel \<Rightarrow> allocs \<Rightarrow> bool \<Rightarrow> drv_stack \<Rightarrow> sfe_ipv6_msg \<Rightarrow> sfe_drv \<Rightarrow> (sfe_tx_status \<times> sfe_ipv6_msg \<times> sfe_drv) option" where
  "sfe_drv_ipv6_tx k al mem stack msg sc =
     (if cmn_type (cm msg) = SFE_TX_CREATE_RULE_MSG then sfe_drv_create_ipv6_rule_msg k al mem (fst stack) msg sc
      else if cmn_type (cm msg) = SFE_TX_DESTROY_RULE_MSG then sfe_drv_destroy_ipv6_rule_msg k mem msg sc
      else Some (SFE_TX_FAILURE_NOT_ENABLED, msg, sfe_drv_incr_exceptions SFE_DRV_EXCEPTION_IPV6_MSG_UNKNOW sc))"

definition sfe_tun6rd_tx :: "sfe_drv \<Rightarrow> sfe_tx_status \<times> sfe_drv" where
  "sfe_tun6rd_tx sc = (SFE_TX_FAILURE_NOT_ENABLED, sfe_drv_incr_exceptions SFE_DRV_EXCEPTION_NOT_SUPPORT_6RD sc)"

record sfe_tun6rd_msg =
  tun6rd_cm :: sfe_cmn_msg
  tun6rd_ipv6_address :: sfe_ip_addr
  tun6rd_dest :: be32

definition sfe_tun6rd_msg_init :: "u16 \<Rightarrow> u32 \<Rightarrow> u32 \<Rightarrow> u64 \<Rightarrow> u64 \<Rightarrow> sfe_tun6rd_msg \<Rightarrow> sfe_tun6rd_msg" where
  "sfe_tun6rd_msg_init if_num type len cb app_data ncm =
     ncm\<lparr>tun6rd_cm := sfe_cmn_msg_init if_num type len cb app_data (tun6rd_cm ncm)\<rparr>"

definition SFE_MAX_CONNECTION_NUM :: nat where "SFE_MAX_CONNECTION_NUM = 65535"

definition sfe_drv_ipv4_max_conn_count :: nat where "sfe_drv_ipv4_max_conn_count = SFE_MAX_CONNECTION_NUM"
definition sfe_drv_ipv6_max_conn_count :: nat where "sfe_drv_ipv6_max_conn_count = SFE_MAX_CONNECTION_NUM"

section \<open>Registration of the client\<close>

text \<open>\<open>sync4\<close> and \<open>sync6\<close> are the addresses of the two callbacks of the driver.\<close>

definition sfe_drv_ipv4_notify_register :: "ptr \<Rightarrow> u64 \<Rightarrow> u64 \<Rightarrow> sfe_drv \<Rightarrow> sfe_drv" where
  "sfe_drv_ipv4_notify_register sync4 cb app_data sc =
     (let sc = (if cb \<noteq> 0 \<and> ipv4_stats_sync_cb sc = 0
                then sc\<lparr>sd_v4 := sfe_ipv4_register_sync_rule_callback (sd_v4 sc) (Some sync4)\<rparr> else sc)
      in sc\<lparr>ipv4_stats_sync_cb := cb, ipv4_stats_sync_data := app_data\<rparr>)"

definition sfe_drv_ipv4_notify_unregister :: "sfe_drv \<Rightarrow> sfe_drv" where
  "sfe_drv_ipv4_notify_unregister sc =
     (let sc = (if ipv4_stats_sync_cb sc \<noteq> 0
                then sc\<lparr>sd_v4 := sfe_ipv4_register_sync_rule_callback (sd_v4 sc) None,
                        ipv4_stats_sync_cb := 0, ipv4_stats_sync_data := 0\<rparr> else sc)
      in sfe_drv_clean_response_msg_by_type True sc)"

definition sfe_drv_ipv6_notify_register :: "ptr \<Rightarrow> u64 \<Rightarrow> u64 \<Rightarrow> sfe_drv \<Rightarrow> sfe_drv" where
  "sfe_drv_ipv6_notify_register sync6 cb app_data sc =
     (let sc = (if cb \<noteq> 0 \<and> ipv6_stats_sync_cb sc = 0
                then sc\<lparr>sd_v6 := sfe_ipv6_register_sync_rule_callback (sd_v6 sc) (Some sync6)\<rparr> else sc)
      in sc\<lparr>ipv6_stats_sync_cb := cb, ipv6_stats_sync_data := app_data\<rparr>)"

definition sfe_drv_ipv6_notify_unregister :: "sfe_drv \<Rightarrow> sfe_drv" where
  "sfe_drv_ipv6_notify_unregister sc =
     (let sc = (if ipv6_stats_sync_cb sc \<noteq> 0
                then sc\<lparr>sd_v6 := sfe_ipv6_register_sync_rule_callback (sd_v6 sc) None,
                        ipv6_stats_sync_cb := 0, ipv6_stats_sync_data := 0\<rparr> else sc)
      in sfe_drv_clean_response_msg_by_type False sc)"

section \<open>The receive hook\<close>

text \<open>\<open>ingress_queue dev\<close> is \<open>dev->ingress_queue\<close> not being NULL, \<open>ncls\<close> the bit \<open>TC_NCLS\<close> of the packet.\<close>

definition sfe_drv_recv ::
  "kernel \<Rightarrow> drv_kernel \<Rightarrow> (dev_ptr \<Rightarrow> bool) \<Rightarrow> bool \<Rightarrow> be16 \<Rightarrow> sk_buff \<Rightarrow> sfe_drv \<Rightarrow> (cm_recv_result \<times> sfe_drv) option" where
  "sfe_drv_recv k dk ingress_queue ncls protocol skb sc =
     (let dev = skb_dev skb;
          ignore = Some (\<lparr>cr_ret = 0, cr_skb = skb, cr_xmit = []\<rparr>, sc)
      in if ingress_queue dev \<and> \<not> ncls then ignore
      else if ntohs ETH_P_IP = protocol
      then if sfe_drv_dev_is_layer_3_interface dk dev True
           then do {
             res \<leftarrow> sfe_ipv4_recv k dev (sd_v4 sc) skb;
             Some (\<lparr>cr_ret = r_ret res, cr_skb = r_skb res, cr_xmit = r_xmit res\<rparr>,
                   drv_deliver4 dk (r_sync res) (sc\<lparr>sd_v4 := r_si res\<rparr>)) }
           else ignore
      else if ntohs ETH_P_IPV6 = protocol
      then if sfe_drv_dev_is_layer_3_interface dk dev False
           then do {
             res \<leftarrow> sfe_ipv6_recv k dev (sd_v6 sc) skb;
             Some (\<lparr>cr_ret = r_ret6 res, cr_skb = r_skb6 res, cr_xmit = r_xmit6 res\<rparr>,
                   drv_deliver6 dk (r_sync6 res) (sc\<lparr>sd_v6 := r_si6 res\<rparr>)) }
           else ignore
      else ignore)"

section \<open>The file in sysfs\<close>

definition sfe_drv_get_exceptions :: "sfe_drv \<Rightarrow> string \<times> nat" where
  "sfe_drv_get_exceptions sc = fold
     (\<lambda>(e, name) st. if sd_exceptions sc e \<noteq> 0 then snprintf_at st (exception_line name (sd_exceptions sc e)) else st)
     sfe_drv_exception_events_string ([], 0)"

section \<open>Loading and unloading\<close>

text \<open>
  \<open>kobject\<close> and \<open>file\<close> are the results of the kernel calls; putting the kobject removes the file with
  it. None is the \<open>BUG_ON\<close> of a receive hook that is already taken.
\<close>

definition drv_kobject_put :: "sfe_drv \<Rightarrow> sfe_drv" where
  "drv_kobject_put sc = sc\<lparr>sd_kobject := False, sd_exceptions_file := False\<rparr>"

definition sfe_drv_init :: "bool \<Rightarrow> int \<Rightarrow> sfe_drv \<Rightarrow> (int \<times> sfe_drv) option" where
  "sfe_drv_init kobject file sc =
     (if \<not> kobject then Some (- 1, sc)
      else let sc = sc\<lparr>sd_kobject := True\<rparr>
      in if file \<noteq> 0 then Some (file, drv_kobject_put sc)
      else let sc = sc\<lparr>sd_exceptions_file := True, msg_queue := [], sd_work := False\<rparr>
      in if sd_recv_hook sc then None
      else Some (0, sc\<lparr>sd_recv_hook := True\<rparr>))"

definition drv_destroy_all4 :: "drv_kernel \<Rightarrow> dev_ptr \<Rightarrow> sfe_drv \<Rightarrow> sfe_drv option" where
  "drv_destroy_all4 k dev sc = do {
     (si, out) \<leftarrow> sfe_ipv4_destroy_all_rules_for_dev (dk_jiffies k) dev (sd_v4 sc);
     Some (drv_deliver4 k out (sc\<lparr>sd_v4 := si\<rparr>)) }"

definition drv_destroy_all6 :: "drv_kernel \<Rightarrow> dev_ptr \<Rightarrow> sfe_drv \<Rightarrow> sfe_drv option" where
  "drv_destroy_all6 k dev sc = do {
     (si, out) \<leftarrow> sfe_ipv6_destroy_all_rules_for_dev (dk_jiffies k) dev (sd_v6 sc);
     Some (drv_deliver6 k out (sc\<lparr>sd_v6 := si\<rparr>)) }"

definition sfe_drv_exit ::
  "drv_kernel \<Rightarrow> (sfe_drv_response_msg \<Rightarrow> sfe_drv \<Rightarrow> sfe_drv option) \<Rightarrow> sfe_drv \<Rightarrow> sfe_drv option" where
  "sfe_drv_exit k client sc =
     (let sc = sc\<lparr>sd_recv_hook := False\<rparr>
      in do {
        sc \<leftarrow> drv_destroy_all4 k 0 sc;
        sc \<leftarrow> drv_destroy_all6 k 0 sc;
        sc \<leftarrow> sfe_drv_process_response_msg client (sc\<lparr>sd_work := False\<rparr>);
        let sc = sfe_drv_ipv4_notify_unregister sc;
        let sc = sfe_drv_ipv6_notify_unregister sc;
        Some (drv_kobject_put sc) })"

end
