(* ===== verification/SFE_Drv_Laws.thy ===== *)
theory SFE_Drv_Laws
  imports SFE_Drv_Module SFE_CM_Laws
begin

text \<open>
  Lemmas about the simulated driver: what a message asks for, what the two handlers do to the map of
  rules of their engine, and what they leave alone.
\<close>

section \<open>References and statistics\<close>

named_theorems drv_frame

lemma drv_hold_put:
  "drv_put a (drv_hold a sc) = sc" "drv_put a (drv_hold b (drv_hold a sc)) = drv_hold b sc"
  "drv_hold a sc\<lparr>sd_v4 := si\<rparr> = drv_hold a (sc\<lparr>sd_v4 := si\<rparr>)" "drv_hold a sc\<lparr>sd_v6 := si6\<rparr> = drv_hold a (sc\<lparr>sd_v6 := si6\<rparr>)"
  "sfe_drv_incr_exceptions e (drv_hold a sc) = drv_hold a (sfe_drv_incr_exceptions e sc)"
  "sd_v4 (drv_hold a sc) = sd_v4 sc" "sd_v6 (drv_hold a sc) = sd_v6 sc"
  by (cases sc; auto simp: drv_hold_def drv_put_def sfe_drv_incr_exceptions_def fun_eq_iff)+

lemma drv_deliver4_eq:
  "drv_deliver4 k out sc = (if ipv4_stats_sync_cb sc = 0
     then sc\<lparr>sd_exceptions := (sd_exceptions sc)(SFE_DRV_EXCEPTION_NO_SYNC_CB :=
            sd_exceptions sc SFE_DRV_EXCEPTION_NO_SYNC_CB + of_nat (length out))\<rparr>
     else sc\<lparr>sd_stats4 := sd_stats4 sc @ map (\<lambda>(_, sis). (ipv4_stats_sync_cb sc, ipv4_stats_sync_data sc,
            stats_header 124, ipv4_stats_message (dk_hz k) sis)) out\<rparr>)"
proof (induction out arbitrary: sc)
  case (Cons x out)
  obtain cb sis where x: "x = (cb, sis)" by (cases x)
  have "drv_deliver4 k (x # out) sc = drv_deliver4 k out (sfe_drv_ipv4_stats_sync_callback k sis sc)"
    by (simp add: drv_deliver4_def x)
  then show ?case
    by (cases "ipv4_stats_sync_cb sc = 0")
      (simp_all add: Cons.IH x sfe_drv_ipv4_stats_sync_callback_def sfe_drv_incr_exceptions_def ac_simps)
qed (simp add: drv_deliver4_def)

lemma drv_deliver6_eq:
  "drv_deliver6 k out sc = (if ipv6_stats_sync_cb sc = 0
     then sc\<lparr>sd_exceptions := (sd_exceptions sc)(SFE_DRV_EXCEPTION_NO_SYNC_CB :=
            sd_exceptions sc SFE_DRV_EXCEPTION_NO_SYNC_CB + of_nat (length out))\<rparr>
     else sc\<lparr>sd_stats6 := sd_stats6 sc @ map (\<lambda>(_, sis). (ipv6_stats_sync_cb sc, ipv6_stats_sync_data sc,
            stats_header 140, ipv6_stats_message (dk_hz k) sis)) out\<rparr>)"
proof (induction out arbitrary: sc)
  case (Cons x out)
  obtain cb sis where x: "x = (cb, sis)" by (cases x)
  have "drv_deliver6 k (x # out) sc = drv_deliver6 k out (sfe_drv_ipv6_stats_sync_callback k sis sc)"
    by (simp add: drv_deliver6_def x)
  then show ?case
    by (cases "ipv6_stats_sync_cb sc = 0")
      (simp_all add: Cons.IH x sfe_drv_ipv6_stats_sync_callback_def sfe_drv_incr_exceptions_def ac_simps)
qed (simp add: drv_deliver6_def)

text \<open>What no operation of a client or engine changes: hooks, references, registration of the client.\<close>

definition drv_keeps :: "sfe_drv \<Rightarrow> sfe_drv \<Rightarrow> bool" where
  "drv_keeps sc sc' \<longleftrightarrow> sd_refs sc' = sd_refs sc \<and> sd_kobject sc' = sd_kobject sc
     \<and> sd_exceptions_file sc' = sd_exceptions_file sc \<and> sd_recv_hook sc' = sd_recv_hook sc
     \<and> ipv4_stats_sync_cb sc' = ipv4_stats_sync_cb sc \<and> ipv4_stats_sync_data sc' = ipv4_stats_sync_data sc
     \<and> ipv6_stats_sync_cb sc' = ipv6_stats_sync_cb sc \<and> ipv6_stats_sync_data sc' = ipv6_stats_sync_data sc
     \<and> sd_answers sc' = sd_answers sc"

lemma drv_keeps_refl [simp]: "drv_keeps sc sc"
  and drv_keeps_trans: "drv_keeps a b \<Longrightarrow> drv_keeps b c \<Longrightarrow> drv_keeps a c"
  by (simp_all add: drv_keeps_def)

lemma drv_deliver_frame [drv_frame]:
  "sd_v4 (drv_deliver4 k out sc) = sd_v4 sc" "sd_v6 (drv_deliver4 k out sc) = sd_v6 sc"
  "msg_queue (drv_deliver4 k out sc) = msg_queue sc" "sd_work (drv_deliver4 k out sc) = sd_work sc"
  "drv_keeps sc (drv_deliver4 k out sc)"
  "sd_v4 (drv_deliver6 k out sc) = sd_v4 sc" "sd_v6 (drv_deliver6 k out sc) = sd_v6 sc"
  "msg_queue (drv_deliver6 k out sc) = msg_queue sc" "sd_work (drv_deliver6 k out sc) = sd_work sc"
  "drv_keeps sc (drv_deliver6 k out sc)"
  by (simp_all add: drv_deliver4_eq drv_deliver6_eq drv_keeps_def)

lemma incr_drv_frame [drv_frame]:
  "sd_v4 (sfe_drv_incr_exceptions e sc) = sd_v4 sc" "sd_v6 (sfe_drv_incr_exceptions e sc) = sd_v6 sc"
  "msg_queue (sfe_drv_incr_exceptions e sc) = msg_queue sc" "sd_work (sfe_drv_incr_exceptions e sc) = sd_work sc"
  "drv_keeps sc (sfe_drv_incr_exceptions e sc)"
  by (simp_all add: sfe_drv_incr_exceptions_def drv_keeps_def)

section \<open>What a message asks for\<close>

text \<open>The message is one the driver handles.\<close>

definition drv_valid :: "('a, 'c) sfe_rule_create_msg \<Rightarrow> bool" where
  "drv_valid rc \<longleftrightarrow> drv_flag (valid_flags rc) SFE_RULE_CREATE_CONN_VALID
     \<and> \<not> drv_flag (rule_flags rc) SFE_RULE_CREATE_FLAG_BRIDGE_FLOW
     \<and> (tuple_protocol (rc_tuple rc) = IPPROTO_TCP \<and> drv_flag (valid_flags rc) SFE_RULE_CREATE_TCP_VALID
        \<or> tuple_protocol (rc_tuple rc) = IPPROTO_UDP)"

text \<open>The devices of the message, both with an address of the version.\<close>

definition drv_ends :: "drv_kernel \<Rightarrow> bool \<Rightarrow> ('a, ('z) sfe_ipv6_connection_rule_scheme) sfe_rule_create_msg \<Rightarrow> (dev_ptr \<times> dev_ptr) option" where
  "drv_ends k v4 rc =
     (case (dk_dev_by_index k (flow_top_interface_num (conn_rule rc)), dk_dev_by_index k (return_top_interface_num (conn_rule rc))) of
        (Some s, Some d) \<Rightarrow> if sfe_drv_dev_is_layer_3_interface k s v4 \<and> sfe_drv_dev_is_layer_3_interface k d v4 then Some (s, d) else None
      | _ \<Rightarrow> None)"

definition tuple_key4 :: "be32 sfe_5tuple \<Rightarrow> conn_key" where
  "tuple_key4 t = (ucast (tuple_protocol t), flow_ip t, flow_ident t, return_ip t, return_ident t)"

definition drv_key6 :: "sfe_ip_addr sfe_5tuple \<Rightarrow> conn_key6" where
  "drv_key6 t = (ucast (tuple_protocol t), flow_ip t, flow_ident t, return_ip t, return_ident t)"

text \<open>The rules: IPv6 flows are not translated; the mark is what the stack held.\<close>

definition drv_rule4 :: "u32 \<Rightarrow> dev_ptr \<Rightarrow> dev_ptr \<Rightarrow> sfe_ipv4_rule_create_msg \<Rightarrow> rule" where
  "drv_rule4 mark s d rc = (flow_ip_xlate (conn_rule rc), flow_ident_xlate (conn_rule rc), return_ip_xlate (conn_rule rc),
     return_ident_xlate (conn_rule rc), s, d, mark)"

definition drv_rule6 :: "u32 \<Rightarrow> dev_ptr \<Rightarrow> dev_ptr \<Rightarrow> sfe_ipv6_rule_create_msg \<Rightarrow> rule6" where
  "drv_rule6 mark s d rc = (flow_ip (rc_tuple rc), flow_ident (rc_tuple rc), return_ip (rc_tuple rc),
     return_ident (rc_tuple rc), s, d, mark)"

lemma proto_eq: "(ucast p :: u32) = ucast q \<longleftrightarrow> p = (q :: u8)"
proof
  assume "(ucast p :: u32) = ucast q"
  then have "(ucast (ucast p :: u32) :: u8) = ucast (ucast q :: u32)" by simp
  then show "p = q" by (simp add: ucast_up_ucast_id is_up)
qed simp

lemma ipproto_neq: "IPPROTO_UDP \<noteq> IPPROTO_TCP" "IPPROTO_TCP \<noteq> IPPROTO_UDP"
  by (simp_all add: ipproto_defs)

text \<open>TCP and UDP differ in what else is copied, none of which is in a key or a rule.\<close>

lemma drv_protocol_ok:
  assumes "sic_protocol sic = ucast (tuple_protocol (rc_tuple rc))" and "drv_admit rc = Inr ()"
  shows "if drv_valid rc then drv_protocol rc ports sic \<in> {Inr (ports sic), Inr (drv_tcp rc (ports sic))}
    else \<exists>e. drv_protocol rc ports sic = Inl (SFE_CMN_RESPONSE_EMSG, e)"
  using assms by (auto simp: drv_protocol_def drv_valid_def drv_admit_def proto_eq ipproto_neq split: if_splits)

lemma drv_admit_cases: "drv_admit rc = Inr () \<or> \<not> drv_valid rc \<and> (\<exists>r e. drv_admit rc = Inl (r, e) \<and> r \<in> {SFE_CMN_RESPONSE_EMSG, SFE_CMN_RESPONSE_EINTERFACE})"
  by (simp add: drv_admit_def drv_valid_def)

lemma drv_tcp_fields:
  "sic_key (drv_tcp rc sic) = sic_key sic" "sic_key6 (drv_tcp rc sic) = sic_key6 sic"
  "sic_rule (drv_tcp rc sic) = sic_rule sic" "sic_rule6 (drv_tcp rc sic) = sic_rule6 sic"
  by (simp_all add: drv_tcp_def Let_def sic_key_def sic_key6_def sic_rule_def sic_rule6_def)

lemma drv_macs_fields:
  "sic_key (drv_macs rc sic) = sic_key sic" "sic_key6 (drv_macs rc sic) = sic_key6 sic"
  "sic_rule (drv_macs rc sic) = sic_rule sic" "sic_rule6 (drv_macs rc sic) = sic_rule6 sic"
  by (simp_all add: drv_macs_def sic_key_def sic_key6_def sic_rule_def sic_rule6_def)

text \<open>A rule without its devices.\<close>

definition undev :: "'a \<times> 'b \<times> 'c \<times> 'd \<times> dev_ptr \<times> dev_ptr \<times> u32 \<Rightarrow> dev_ptr \<Rightarrow> dev_ptr \<Rightarrow> 'a \<times> 'b \<times> 'c \<times> 'd \<times> dev_ptr \<times> dev_ptr \<times> u32" where
  "undev = (\<lambda>(a, b, c, d, _, _, m) src dest. (a, b, c, d, src, dest, m))"

lemma drv_complete_fields:
  "sic_key (drv_complete rc s d sic) = sic_key sic" "sic_key6 (drv_complete rc s d sic) = sic_key6 sic"
  "sic_rule (drv_complete rc s d sic) = undev (sic_rule sic) s d" "sic_rule6 (drv_complete rc s d sic) = undev (sic_rule6 sic) s d"
  "sic_src_dev (drv_complete rc s d sic) = s" "sic_dest_dev (drv_complete rc s d sic) = d"
  by (simp_all add: drv_complete_def Let_def sic_key_def sic_key6_def sic_rule_def sic_rule6_def undev_def)

lemma drv_message4_spec:
  "if drv_valid rc then \<exists>sic. drv_message4 stack rc = Inr sic \<and> sic_key sic = tuple_key4 (rc_tuple rc)
       \<and> undev (sic_rule sic) s d = drv_rule4 (sic_mark stack) s d rc
   else \<exists>r e. drv_message4 stack rc = Inl (r, e) \<and> r \<in> {SFE_CMN_RESPONSE_EMSG, SFE_CMN_RESPONSE_EINTERFACE}"
proof (cases "drv_admit rc = Inr ()")
  case True
  let ?t = "rc_tuple rc" and ?cr = "conn_rule rc"
  let ?sic = "stack\<lparr>sic_protocol := ucast (tuple_protocol ?t),
    sic_src_ip := set_ip (flow_ip ?t) (sic_src_ip stack), sic_dest_ip := set_ip (return_ip ?t) (sic_dest_ip stack),
    sic_src_ip_xlate := set_ip (flow_ip_xlate ?cr) (sic_src_ip_xlate stack),
    sic_dest_ip_xlate := set_ip (return_ip_xlate ?cr) (sic_dest_ip_xlate stack), sic_flags := 0\<rparr>"
  let ?ports = "\<lambda>sic. sic\<lparr>sic_src_port := flow_ident ?t, sic_dest_port := return_ident ?t,
    sic_src_port_xlate := flow_ident_xlate ?cr, sic_dest_port_xlate := return_ident_xlate ?cr\<rparr>"
  have e: "drv_message4 stack rc = map_sum id (drv_macs rc) (drv_protocol rc ?ports ?sic)"
    by (simp add: drv_message4_def True Let_def)
  have k: "sic_key (?ports ?sic) = tuple_key4 ?t" "undev (sic_rule (?ports ?sic)) s d = drv_rule4 (sic_mark stack) s d rc"
    by (simp_all add: sic_key_def tuple_key4_def sic_rule_def drv_rule4_def undev_def set_ip_def)
  have "sic_protocol ?sic = ucast (tuple_protocol ?t)" by simp
  from drv_protocol_ok [OF this True, of ?ports] show ?thesis
    unfolding e using k by (auto simp: drv_macs_fields drv_tcp_fields split: if_splits)
next
  case False
  then show ?thesis using drv_admit_cases [of rc] by (auto simp: drv_message4_def)
qed

lemma drv_message6_spec:
  "if drv_valid rc then \<exists>sic. drv_message6 stack rc = Inr sic \<and> sic_key6 sic = drv_key6 (rc_tuple rc)
       \<and> undev (sic_rule6 sic) s d = drv_rule6 (sic_mark stack) s d rc
   else \<exists>r e. drv_message6 stack rc = Inl (r, e) \<and> r \<in> {SFE_CMN_RESPONSE_EMSG, SFE_CMN_RESPONSE_EINTERFACE}"
proof (cases "drv_admit rc = Inr ()")
  case True
  let ?t = "rc_tuple rc"
  let ?sic = "stack\<lparr>sic_protocol := ucast (tuple_protocol ?t), sic_src_ip := flow_ip ?t, sic_dest_ip := return_ip ?t,
    sic_src_ip_xlate := flow_ip ?t, sic_dest_ip_xlate := return_ip ?t, sic_flags := 0\<rparr>"
  let ?ports = "\<lambda>sic. sic\<lparr>sic_src_port := flow_ident ?t, sic_dest_port := return_ident ?t,
    sic_src_port_xlate := flow_ident ?t, sic_dest_port_xlate := return_ident ?t\<rparr>"
  have e: "drv_message6 stack rc = map_sum id (drv_macs rc) (drv_protocol rc ?ports ?sic)"
    by (simp add: drv_message6_def True Let_def)
  have k: "sic_key6 (?ports ?sic) = drv_key6 ?t" "undev (sic_rule6 (?ports ?sic)) s d = drv_rule6 (sic_mark stack) s d rc"
    by (simp_all add: sic_key6_def drv_key6_def sic_rule6_def drv_rule6_def undev_def)
  have "sic_protocol ?sic = ucast (tuple_protocol ?t)" by simp
  from drv_protocol_ok [OF this True, of ?ports] show ?thesis
    unfolding e using k by (auto simp: drv_macs_fields drv_tcp_fields split: if_splits)
next
  case False
  then show ?thesis using drv_admit_cases [of rc] by (auto simp: drv_message6_def)
qed

section \<open>From the devices to the response\<close>

lemma drv_create_no_ends:
  assumes "drv_ends k v4 rc = None"
  shows "\<exists>s d sc1 e. drv_create k v4 rc create sic sc = Some (SFE_CMN_RESPONSE_EINTERFACE, s, d, sc1)
    \<and> drv_release s d sc1 = sfe_drv_incr_exceptions e sc"
  using assms
  by (auto simp: drv_create_def drv_ends_def drv_release_def Let_def drv_hold_put split: option.splits if_splits)

lemma drv_create_ends:
  assumes "drv_ends k v4 rc = Some (s, d)"
  shows "drv_create k v4 rc create sic sc = do {
     (err, sc) \<leftarrow> create (drv_complete rc s d sic) (drv_hold d (drv_hold s sc));
     if err = 0 then Some (SFE_CMN_RESPONSE_ACK, Some s, Some d, sc)
     else Some (SFE_CMN_RESPONSE_EMSG, Some s, Some d, sfe_drv_incr_exceptions SFE_DRV_EXCEPTION_CREATE_FAILED sc) }"
  using assms by (auto simp: drv_create_def drv_ends_def Let_def split: option.splits if_splits cong: if_cong)

lemma drv_release_both: "drv_release (Some s) (Some d) (drv_hold d (drv_hold s sc)) = sc"
  by (cases sc) (auto simp: drv_release_def drv_hold_def drv_put_def fun_eq_iff)

end
