(* ===== verification/SFE_Drv_Props.thy ===== *)
theory SFE_Drv_Props
  imports SFE_Drv_Laws
begin

text \<open>
  What the messages of the client do: one step of the driver is one update of the map of rules of one
  engine and one response in the queue.
\<close>

section \<open>Messages as updates of a map\<close>

definition drv_good :: "sfe_drv \<Rightarrow> bool" where
  "drv_good sc \<longleftrightarrow> sfe_good (sd_v4 sc) \<and> sfe_good6 (sd_v6 sc)"

text \<open>\<open>kmalloc\<close> gives an engine memory that is not in use, or none.\<close>

definition drv_allocs_ok :: "allocs \<Rightarrow> sfe_drv \<Rightarrow> bool" where
  "drv_allocs_ok al sc \<longleftrightarrow> (case al of
     (Some c, Some oc, Some r) \<Rightarrow> fresh (sd_v4 sc) c oc r \<and> fresh6 (sd_v6 sc) c oc r
   | _ \<Rightarrow> True)"

abbreviation all_memory :: "allocs \<Rightarrow> bool" where
  "all_memory al \<equiv> fst al \<noteq> None \<and> fst (snd al) \<noteq> None \<and> snd (snd al) \<noteq> None"

text \<open>The devices of a message that creates a rule; \<open>free\<close> is whether its key has no rule yet.\<close>

definition drv_creates ::
  "drv_kernel \<Rightarrow> allocs \<Rightarrow> bool \<Rightarrow> ('a, ('z) sfe_ipv6_connection_rule_scheme) sfe_rule_create_msg \<Rightarrow> bool \<Rightarrow> (dev_ptr \<times> dev_ptr) option" where
  "drv_creates k al v4 rc free = (case drv_ends k v4 rc of None \<Rightarrow> None | Some (s, d) \<Rightarrow>
     if drv_valid rc \<and> nd_registered (dk_devs k s) \<and> nd_registered (dk_devs k d) \<and> free \<and> all_memory al then Some (s, d) else None)"

lemma create_zero:
  assumes g: "sfe_good si" and c: "sfe_ipv4_create_rule devs j kc ko kr si sic = Some (rc, si')"
  shows "rc = 0 \<longleftrightarrow> devs_up devs sic \<and> sfe_rules si (sic_key sic) = None \<and> kc \<noteq> None \<and> ko \<noteq> None \<and> kr \<noteq> None"
proof -
  from g obtain g0 where "sfe_inv si g0 []" by (rule good_invE)
  from create_rule_result [OF this, of devs j kc ko kr sic, unfolded c] show ?thesis
    by (auto simp: EINVAL_def ENOMEM_def EADDRINUSE_def sfe_rules_def split: if_splits option.splits)
qed

lemma create_zero6:
  assumes g: "sfe_good6 si" and c: "sfe_ipv6_create_rule devs j kc ko kr si sic = Some (rc, si')"
  shows "rc = 0 \<longleftrightarrow> devs_up6 devs sic \<and> sfe_rules6 si (sic_key6 sic) = None \<and> kc \<noteq> None \<and> ko \<noteq> None \<and> kr \<noteq> None"
proof -
  from g obtain g0 where "sfe_inv6 si g0 []" by (rule good_invE6)
  from create_rule_result6 [OF this, of devs j kc ko kr sic, unfolded c] show ?thesis
    by (auto simp: EINVAL_def ENOMEM_def EADDRINUSE_def sfe_rules6_def split: if_splits option.splits)
qed

text \<open>The engines asked to create a rule.\<close>

lemma drv_engine4:
  assumes "drv_good sc" and "drv_allocs_ok al sc"
  shows "\<exists>err si. sfe_ipv4_create_rule devs j (fst al) (fst (snd al)) (snd (snd al)) (sd_v4 sc) sic = Some (err, si)
    \<and> sfe_good si \<and> (err = 0 \<longleftrightarrow> devs_up devs sic \<and> sfe_rules (sd_v4 sc) (sic_key sic) = None \<and> all_memory al)
    \<and> sfe_rules si = (if err = 0 then (sfe_rules (sd_v4 sc))(sic_key sic \<mapsto> sic_rule sic) else sfe_rules (sd_v4 sc))"
proof -
  let ?r = "Create devs j (fst al) (fst (snd al)) (snd (snd al)) sic"
  have g: "sfe_good (sd_v4 sc)" using assms(1) by (simp add: drv_good_def)
  have e: "request_enabled ?r (sd_v4 sc)"
    using assms(2) by (cases al) (auto simp: drv_allocs_ok_def split: option.splits)
  obtain si where r: "run_request ?r (sd_v4 sc) = Some si" "sfe_good si" "sfe_rules si = request_effect ?r (sfe_rules (sd_v4 sc))"
    using v4.run_law [OF g e] by (elim exE conjE) (rule that)
  then obtain err where c: "sfe_ipv4_create_rule devs j (fst al) (fst (snd al)) (snd (snd al)) (sd_v4 sc) sic = Some (err, si)"
    by auto
  then show ?thesis using r(2,3) create_zero [OF g c] by (simp del: not_None_eq)
qed

lemma drv_engine6:
  assumes "drv_good sc" and "drv_allocs_ok al sc"
  shows "\<exists>err si. sfe_ipv6_create_rule devs j (fst al) (fst (snd al)) (snd (snd al)) (sd_v6 sc) sic = Some (err, si)
    \<and> sfe_good6 si \<and> (err = 0 \<longleftrightarrow> devs_up6 devs sic \<and> sfe_rules6 (sd_v6 sc) (sic_key6 sic) = None \<and> all_memory al)
    \<and> sfe_rules6 si = (if err = 0 then (sfe_rules6 (sd_v6 sc))(sic_key6 sic \<mapsto> sic_rule6 sic) else sfe_rules6 (sd_v6 sc))"
proof -
  let ?r = "Create6 devs j (fst al) (fst (snd al)) (snd (snd al)) sic"
  have g: "sfe_good6 (sd_v6 sc)" using assms(1) by (simp add: drv_good_def)
  have e: "request_enabled6 ?r (sd_v6 sc)"
    using assms(2) by (cases al) (auto simp: drv_allocs_ok_def split: option.splits)
  obtain si where r: "run_request6 ?r (sd_v6 sc) = Some si" "sfe_good6 si" "sfe_rules6 si = request_effect6 ?r (sfe_rules6 (sd_v6 sc))"
    using v6.run_law [OF g e] by (elim exE conjE) (rule that)
  then obtain err where c: "sfe_ipv6_create_rule devs j (fst al) (fst (snd al)) (snd (snd al)) (sd_v6 sc) sic = Some (err, si)"
    by auto
  then show ?thesis using r(2,3) create_zero6 [OF g c] by (simp del: not_None_eq)
qed

section \<open>One message\<close>

text \<open>A message of either version, and the handler for it.\<close>

definition drv_tx ::
  "drv_kernel \<Rightarrow> allocs \<Rightarrow> bool \<Rightarrow> drv_stack \<Rightarrow> sfe_drv_response_msg \<Rightarrow> sfe_drv \<Rightarrow> (sfe_tx_status \<times> sfe_drv_response_msg \<times> sfe_drv) option" where
  "drv_tx k al mem stack m sc = (case m of
     SFE_DRV_MSG_TYPE_IPV4 msg \<Rightarrow> map_option (apsnd (apfst SFE_DRV_MSG_TYPE_IPV4)) (sfe_drv_ipv4_tx k al mem stack msg sc)
   | SFE_DRV_MSG_TYPE_IPV6 msg \<Rightarrow> map_option (apsnd (apfst SFE_DRV_MSG_TYPE_IPV6)) (sfe_drv_ipv6_tx k al mem stack msg sc))"

text \<open>What it means: the effect on the rules of its engine, and whether it is acknowledged.\<close>

definition drv_effect4 :: "drv_kernel \<Rightarrow> allocs \<Rightarrow> u32 \<Rightarrow> sfe_ipv4_msg \<Rightarrow> (conn_key \<Rightarrow> rule option) \<Rightarrow> conn_key \<Rightarrow> rule option" where
  "drv_effect4 k al mark msg m =
     (if cmn_type (cm msg) = SFE_TX_DESTROY_RULE_MSG then m(tuple_key4 (rule_destroy msg) := None)
      else let rc = rule_create msg; key = tuple_key4 (rc_tuple rc)
           in case drv_creates k al True rc (m key = None) of None \<Rightarrow> m | Some (s, d) \<Rightarrow> m(key \<mapsto> drv_rule4 mark s d rc))"

definition drv_effect6 :: "drv_kernel \<Rightarrow> allocs \<Rightarrow> u32 \<Rightarrow> sfe_ipv6_msg \<Rightarrow> (conn_key6 \<Rightarrow> rule6 option) \<Rightarrow> conn_key6 \<Rightarrow> rule6 option" where
  "drv_effect6 k al mark msg m =
     (if cmn_type (cm msg) = SFE_TX_DESTROY_RULE_MSG then m(drv_key6 (rule_destroy msg) := None)
      else let rc = rule_create msg; key = drv_key6 (rc_tuple rc)
           in case drv_creates k al False rc (m key = None) of None \<Rightarrow> m | Some (s, d) \<Rightarrow> m(key \<mapsto> drv_rule6 mark s d rc))"

definition drv_acked :: "drv_kernel \<Rightarrow> allocs \<Rightarrow> sfe_drv_response_msg \<Rightarrow> sfe_drv \<Rightarrow> bool" where
  "drv_acked k al m sc \<longleftrightarrow> cmn_type (response_cm m) = SFE_TX_DESTROY_RULE_MSG \<or> (case m of
     SFE_DRV_MSG_TYPE_IPV4 msg \<Rightarrow>
       drv_creates k al True (rule_create msg) (sfe_rules (sd_v4 sc) (tuple_key4 (rc_tuple (rule_create msg))) = None) \<noteq> None
   | SFE_DRV_MSG_TYPE_IPV6 msg \<Rightarrow>
       drv_creates k al False (rule_create msg) (sfe_rules6 (sd_v6 sc) (drv_key6 (rc_tuple (rule_create msg))) = None) \<noteq> None)"

fun answer :: "sfe_cmn_response \<Rightarrow> sfe_drv_response_msg \<Rightarrow> sfe_drv_response_msg" where
  "answer ret (SFE_DRV_MSG_TYPE_IPV4 m) = SFE_DRV_MSG_TYPE_IPV4 (set_response ret m)"
| "answer ret (SFE_DRV_MSG_TYPE_IPV6 m) = SFE_DRV_MSG_TYPE_IPV6 (set_response ret m)"

text \<open>The new state of the rules and of the queue.\<close>

definition drv_handled :: "drv_kernel \<Rightarrow> allocs \<Rightarrow> u32 \<Rightarrow> sfe_drv_response_msg \<Rightarrow> sfe_drv \<Rightarrow> sfe_drv_response_msg \<Rightarrow> sfe_drv \<Rightarrow> bool" where
  "drv_handled k al mark m sc m' sc' \<longleftrightarrow>
     (\<exists>ret. m' = answer ret m \<and> (ret = SFE_CMN_RESPONSE_ACK \<longleftrightarrow> drv_acked k al m sc))
     \<and> msg_queue sc' = msg_queue sc @ [m'] \<and> sd_work sc'
     \<and> (case m of
          SFE_DRV_MSG_TYPE_IPV4 msg \<Rightarrow> sd_v6 sc' = sd_v6 sc \<and> sfe_rules (sd_v4 sc') = drv_effect4 k al mark msg (sfe_rules (sd_v4 sc))
        | SFE_DRV_MSG_TYPE_IPV6 msg \<Rightarrow> sd_v4 sc' = sd_v4 sc \<and> sfe_rules6 (sd_v6 sc') = drv_effect6 k al mark msg (sfe_rules6 (sd_v6 sc)))"

lemma enqueue_frame [drv_frame]:
  "sd_v4 (sfe_drv_enqueue_msg r sc) = sd_v4 sc" "sd_v6 (sfe_drv_enqueue_msg r sc) = sd_v6 sc"
  "msg_queue (sfe_drv_enqueue_msg r sc) = msg_queue sc @ [r]" "sd_work (sfe_drv_enqueue_msg r sc)"
  "drv_keeps a (sfe_drv_enqueue_msg r sc) \<longleftrightarrow> drv_keeps a sc"
  by (simp_all add: sfe_drv_enqueue_msg_def drv_keeps_def)

lemma type_neq: "SFE_TX_CREATE_RULE_MSG \<noteq> SFE_TX_DESTROY_RULE_MSG" "SFE_TX_DESTROY_RULE_MSG \<noteq> SFE_TX_CREATE_RULE_MSG"
  by (simp_all add: SFE_TX_CREATE_RULE_MSG_def SFE_TX_DESTROY_RULE_MSG_def)

text \<open>The creation of a rule up to the response: what the rest of the handler starts from.\<close>

lemma drv_created4:
  fixes rc :: sfe_ipv4_rule_create_msg
  assumes g: "drv_good sc" and a: "drv_allocs_ok al sc"
  defines "free \<equiv> sfe_rules (sd_v4 sc) (tuple_key4 (rc_tuple rc)) = None"
  shows "\<exists>ret s d sc1 sc2. (case drv_message4 stack rc of
       Inl (ret, e) \<Rightarrow> Some (ret, None, None, sfe_drv_incr_exceptions e sc)
     | Inr sic \<Rightarrow> drv_create k True rc (\<lambda>sic sc. do {
           (err, si) \<leftarrow> sfe_ipv4_create_rule (dk_devs k) (dk_jiffies k) (fst al) (fst (snd al)) (snd (snd al)) (sd_v4 sc) sic;
           Some (err, sc\<lparr>sd_v4 := si\<rparr>) }) sic sc) = Some (ret, s, d, sc1)
     \<and> drv_release s d sc1 = sc2 \<and> drv_good sc2 \<and> drv_keeps sc sc2 \<and> msg_queue sc2 = msg_queue sc \<and> sd_v6 sc2 = sd_v6 sc
     \<and> (ret = SFE_CMN_RESPONSE_ACK \<longleftrightarrow> drv_creates k al True rc free \<noteq> None)
     \<and> sfe_rules (sd_v4 sc2) = (case drv_creates k al True rc free of None \<Rightarrow> sfe_rules (sd_v4 sc)
          | Some (s, d) \<Rightarrow> (sfe_rules (sd_v4 sc))(tuple_key4 (rc_tuple rc) \<mapsto> drv_rule4 (sic_mark stack) s d rc))"
    (is "\<exists>ret s d sc1 sc2. ?run = Some (ret, s, d, sc1) \<and> ?post ret s d sc1 sc2")
proof (cases "drv_valid rc")
  case False
  then obtain r e where m: "drv_message4 stack rc = Inl (r, e)" "r \<noteq> SFE_CMN_RESPONSE_ACK"
    using drv_message4_spec [of rc stack] by auto
  have "drv_creates k al True rc free = None" using False by (simp add: drv_creates_def split: option.split)
  then show ?thesis using m g by (simp add: drv_release_def drv_frame drv_good_def)
next
  case True
  show ?thesis
  proof (cases "drv_ends k True rc")
    case None
    then have c: "drv_creates k al True rc free = None" by (simp add: drv_creates_def)
    obtain sic where m: "drv_message4 stack rc = Inr sic" using drv_message4_spec [of rc stack] True by auto
    then show ?thesis
      using drv_create_no_ends [OF None, of _ sic sc] g c by (fastforce simp: drv_frame drv_good_def)
  next
    case (Some sd)
    obtain s d where sd: "sd = (s, d)" by (cases sd)
    note E = drv_create_ends [OF Some [unfolded sd]]
    obtain sic where m: "drv_message4 stack rc = Inr sic" "sic_key sic = tuple_key4 (rc_tuple rc)"
      "undev (sic_rule sic) s d = drv_rule4 (sic_mark stack) s d rc"
      using drv_message4_spec [of rc stack s d] True by auto
    let ?sic = "drv_complete rc s d sic"
    obtain err si where c: "sfe_ipv4_create_rule (dk_devs k) (dk_jiffies k) (fst al) (fst (snd al)) (snd (snd al)) (sd_v4 sc) ?sic = Some (err, si)"
      "sfe_good si" "err = 0 \<longleftrightarrow> devs_up (dk_devs k) ?sic \<and> sfe_rules (sd_v4 sc) (sic_key ?sic) = None \<and> all_memory al"
      "sfe_rules si = (if err = 0 then (sfe_rules (sd_v4 sc))(sic_key ?sic \<mapsto> sic_rule ?sic) else sfe_rules (sd_v4 sc))"
      using drv_engine4 [OF g a, of "dk_devs k" "dk_jiffies k" ?sic] by (elim exE conjE) (rule that)
    have f: "drv_creates k al True rc free = (if err = 0 then Some (s, d) else None)"
      using True c(3) by (auto simp: drv_creates_def Some sd free_def devs_up_def drv_complete_fields m(2))
    let ?sc2 = "if err = 0 then sc\<lparr>sd_v4 := si\<rparr> else sfe_drv_incr_exceptions SFE_DRV_EXCEPTION_CREATE_FAILED (sc\<lparr>sd_v4 := si\<rparr>)"
    let ?ret = "if err = 0 then SFE_CMN_RESPONSE_ACK else SFE_CMN_RESPONSE_EMSG"
    have r: "?run = Some (?ret, Some s, Some d, drv_hold d (drv_hold s ?sc2))"
      using c(1) by (simp add: m(1) E drv_hold_put)
    have "?post ?ret (Some s) (Some d) (drv_hold d (drv_hold s ?sc2)) ?sc2"
      using c(2,4) f g m(2,3)
      by (simp add: drv_release_both drv_good_def drv_frame drv_complete_fields drv_keeps_def sfe_drv_incr_exceptions_def)
    with r show ?thesis by blast
  qed
qed

lemma drv_created6:
  fixes rc :: sfe_ipv6_rule_create_msg
  assumes g: "drv_good sc" and a: "drv_allocs_ok al sc"
  defines "free \<equiv> sfe_rules6 (sd_v6 sc) (drv_key6 (rc_tuple rc)) = None"
  shows "\<exists>ret s d sc1 sc2. (case drv_message6 stack rc of
       Inl (ret, e) \<Rightarrow> Some (ret, None, None, sfe_drv_incr_exceptions e sc)
     | Inr sic \<Rightarrow> drv_create k False rc (\<lambda>sic sc. do {
           (err, si) \<leftarrow> sfe_ipv6_create_rule (dk_devs k) (dk_jiffies k) (fst al) (fst (snd al)) (snd (snd al)) (sd_v6 sc) sic;
           Some (err, sc\<lparr>sd_v6 := si\<rparr>) }) sic sc) = Some (ret, s, d, sc1)
     \<and> drv_release s d sc1 = sc2 \<and> drv_good sc2 \<and> drv_keeps sc sc2 \<and> msg_queue sc2 = msg_queue sc \<and> sd_v4 sc2 = sd_v4 sc
     \<and> (ret = SFE_CMN_RESPONSE_ACK \<longleftrightarrow> drv_creates k al False rc free \<noteq> None)
     \<and> sfe_rules6 (sd_v6 sc2) = (case drv_creates k al False rc free of None \<Rightarrow> sfe_rules6 (sd_v6 sc)
          | Some (s, d) \<Rightarrow> (sfe_rules6 (sd_v6 sc))(drv_key6 (rc_tuple rc) \<mapsto> drv_rule6 (sic_mark stack) s d rc))"
    (is "\<exists>ret s d sc1 sc2. ?run = Some (ret, s, d, sc1) \<and> ?post ret s d sc1 sc2")
proof (cases "drv_valid rc")
  case False
  then obtain r e where m: "drv_message6 stack rc = Inl (r, e)" "r \<noteq> SFE_CMN_RESPONSE_ACK"
    using drv_message6_spec [of rc stack] by auto
  have "drv_creates k al False rc free = None" using False by (simp add: drv_creates_def split: option.split)
  then show ?thesis using m g by (simp add: drv_release_def drv_frame drv_good_def)
next
  case True
  show ?thesis
  proof (cases "drv_ends k False rc")
    case None
    then have c: "drv_creates k al False rc free = None" by (simp add: drv_creates_def)
    obtain sic where m: "drv_message6 stack rc = Inr sic" using drv_message6_spec [of rc stack] True by auto
    then show ?thesis
      using drv_create_no_ends [OF None, of _ sic sc] g c by (fastforce simp: drv_frame drv_good_def)
  next
    case (Some sd)
    obtain s d where sd: "sd = (s, d)" by (cases sd)
    note E = drv_create_ends [OF Some [unfolded sd]]
    obtain sic where m: "drv_message6 stack rc = Inr sic" "sic_key6 sic = drv_key6 (rc_tuple rc)"
      "undev (sic_rule6 sic) s d = drv_rule6 (sic_mark stack) s d rc"
      using drv_message6_spec [of rc stack s d] True by auto
    let ?sic = "drv_complete rc s d sic"
    obtain err si where c: "sfe_ipv6_create_rule (dk_devs k) (dk_jiffies k) (fst al) (fst (snd al)) (snd (snd al)) (sd_v6 sc) ?sic = Some (err, si)"
      "sfe_good6 si" "err = 0 \<longleftrightarrow> devs_up6 (dk_devs k) ?sic \<and> sfe_rules6 (sd_v6 sc) (sic_key6 ?sic) = None \<and> all_memory al"
      "sfe_rules6 si = (if err = 0 then (sfe_rules6 (sd_v6 sc))(sic_key6 ?sic \<mapsto> sic_rule6 ?sic) else sfe_rules6 (sd_v6 sc))"
      using drv_engine6 [OF g a, of "dk_devs k" "dk_jiffies k" ?sic] by (elim exE conjE) (rule that)
    have f: "drv_creates k al False rc free = (if err = 0 then Some (s, d) else None)"
      using True c(3) by (auto simp: drv_creates_def Some sd free_def devs_up6_def drv_complete_fields m(2))
    let ?sc2 = "if err = 0 then sc\<lparr>sd_v6 := si\<rparr> else sfe_drv_incr_exceptions SFE_DRV_EXCEPTION_CREATE_FAILED (sc\<lparr>sd_v6 := si\<rparr>)"
    let ?ret = "if err = 0 then SFE_CMN_RESPONSE_ACK else SFE_CMN_RESPONSE_EMSG"
    have r: "?run = Some (?ret, Some s, Some d, drv_hold d (drv_hold s ?sc2))"
      using c(1) by (simp add: m(1) E drv_hold_put)
    have "?post ?ret (Some s) (Some d) (drv_hold d (drv_hold s ?sc2)) ?sc2"
      using c(2,4) f g m(2,3)
      by (simp add: drv_release_both drv_good_def drv_frame drv_complete_fields drv_keeps_def sfe_drv_incr_exceptions_def)
    with r show ?thesis by blast
  qed
qed


section \<open>The handlers\<close>

definition drv_known :: "sfe_drv_response_msg \<Rightarrow> bool" where
  "drv_known m \<longleftrightarrow> cmn_type (response_cm m) = SFE_TX_CREATE_RULE_MSG \<or> cmn_type (response_cm m) = SFE_TX_DESTROY_RULE_MSG"

lemma drv_destroyed4:
  assumes g: "drv_good sc"
  shows "\<exists>si out. sfe_ipv4_destroy_rule (dk_jiffies k) (sd_v4 sc) (drv_sid4 stack t) = Some (si, out)
    \<and> drv_good (drv_deliver4 k out (sc\<lparr>sd_v4 := si\<rparr>)) \<and> sfe_rules si = (sfe_rules (sd_v4 sc))(tuple_key4 t := None)"
proof -
  have g4: "sfe_good (sd_v4 sc)" "sfe_good6 (sd_v6 sc)" using g by (simp_all add: drv_good_def)
  have key: "sid_key (drv_sid4 stack t) = tuple_key4 t" by (simp add: sid_key_def drv_sid4_def tuple_key4_def set_ip_def)
  obtain si where r: "run_request (Destroy (dk_jiffies k) (drv_sid4 stack t)) (sd_v4 sc) = Some si" "sfe_good si"
    "sfe_rules si = (sfe_rules (sd_v4 sc))(tuple_key4 t := None)"
    using v4.run_law [OF g4(1), of "Destroy (dk_jiffies k) (drv_sid4 stack t)"] by (auto simp: key)
  then show ?thesis using g4(2) by (auto simp: drv_good_def drv_frame)
qed

lemma drv_destroyed6:
  assumes g: "drv_good sc"
  shows "\<exists>si out. sfe_ipv6_destroy_rule (dk_jiffies k) (sd_v6 sc) (drv_sid6 t) = Some (si, out)
    \<and> drv_good (drv_deliver6 k out (sc\<lparr>sd_v6 := si\<rparr>)) \<and> sfe_rules6 si = (sfe_rules6 (sd_v6 sc))(drv_key6 t := None)"
proof -
  have g6: "sfe_good (sd_v4 sc)" "sfe_good6 (sd_v6 sc)" using g by (simp_all add: drv_good_def)
  have key: "sid_key6 (drv_sid6 t) = drv_key6 t" by (simp add: sid_key6_def drv_sid6_def drv_key6_def)
  obtain si where r: "run_request6 (Destroy6 (dk_jiffies k) (drv_sid6 t)) (sd_v6 sc) = Some si" "sfe_good6 si"
    "sfe_rules6 si = (sfe_rules6 (sd_v6 sc))(drv_key6 t := None)"
    using v6.run_law [OF g6(2), of "Destroy6 (dk_jiffies k) (drv_sid6 t)"] by (auto simp: key)
  then show ?thesis using g6(1) by (auto simp: drv_good_def drv_frame)
qed

lemma enqueue_good [simp]: "drv_good (sfe_drv_enqueue_msg r sc) = drv_good sc"
  by (simp add: drv_good_def drv_frame)

lemma drv_tx4_handled:
  assumes g: "drv_good sc" and a: "drv_allocs_ok al sc" and y: "drv_known (SFE_DRV_MSG_TYPE_IPV4 msg)"
  shows "\<exists>msg' sc'. sfe_drv_ipv4_tx k al True stack msg sc = Some (SFE_TX_SUCCESS, msg', sc') \<and> drv_good sc' \<and> drv_keeps sc sc'
    \<and> drv_handled k al (sic_mark (fst stack)) (SFE_DRV_MSG_TYPE_IPV4 msg) sc (SFE_DRV_MSG_TYPE_IPV4 msg') sc'"
proof (cases "cmn_type (cm msg) = SFE_TX_DESTROY_RULE_MSG")
  case True
  obtain si out where d: "sfe_ipv4_destroy_rule (dk_jiffies k) (sd_v4 sc) (drv_sid4 (snd stack) (rule_destroy msg)) = Some (si, out)"
    "drv_good (drv_deliver4 k out (sc\<lparr>sd_v4 := si\<rparr>))" "sfe_rules si = (sfe_rules (sd_v4 sc))(tuple_key4 (rule_destroy msg) := None)"
    using drv_destroyed4 [OF g, of k "snd stack" "rule_destroy msg"] by (elim exE conjE) (rule that)
  have "drv_keeps sc (drv_deliver4 k out (sc\<lparr>sd_v4 := si\<rparr>))" by (simp add: drv_deliver4_eq drv_keeps_def)
  then show ?thesis
    using True d by (auto simp: sfe_drv_ipv4_tx_def type_neq sfe_drv_destroy_ipv4_rule_msg_def sfe_drv_alloc_response_msg_def Let_def
        drv_handled_def drv_effect4_def drv_acked_def drv_frame)
next
  case False
  let ?rc = "rule_create msg"
  obtain ret s d sc1 sc2 where c: "(case drv_message4 (fst stack) ?rc of
       Inl (ret, e) \<Rightarrow> Some (ret, None, None, sfe_drv_incr_exceptions e sc)
     | Inr sic \<Rightarrow> drv_create k True ?rc (\<lambda>sic sc. do {
           (err, si) \<leftarrow> sfe_ipv4_create_rule (dk_devs k) (dk_jiffies k) (fst al) (fst (snd al)) (snd (snd al)) (sd_v4 sc) sic;
           Some (err, sc\<lparr>sd_v4 := si\<rparr>) }) sic sc) = Some (ret, s, d, sc1)"
    and p: "drv_release s d sc1 = sc2" "drv_good sc2" "drv_keeps sc sc2" "msg_queue sc2 = msg_queue sc" "sd_v6 sc2 = sd_v6 sc"
    "ret = SFE_CMN_RESPONSE_ACK \<longleftrightarrow> drv_creates k al True ?rc (sfe_rules (sd_v4 sc) (tuple_key4 (rc_tuple ?rc)) = None) \<noteq> None"
    "sfe_rules (sd_v4 sc2) = (case drv_creates k al True ?rc (sfe_rules (sd_v4 sc) (tuple_key4 (rc_tuple ?rc)) = None) of None \<Rightarrow> sfe_rules (sd_v4 sc)
          | Some (s, d) \<Rightarrow> (sfe_rules (sd_v4 sc))(tuple_key4 (rc_tuple ?rc) \<mapsto> drv_rule4 (sic_mark (fst stack)) s d ?rc))"
    using drv_created4 [OF g a, where stack = "fst stack" and rc = ?rc and k = k] by (elim exE conjE) (rule that)
  let ?msg = "set_response ret msg"
  have "sfe_drv_ipv4_tx k al True stack msg sc = Some (SFE_TX_SUCCESS, ?msg, sfe_drv_enqueue_msg (SFE_DRV_MSG_TYPE_IPV4 ?msg) sc2)"
    using False y c p(1) by (simp add: drv_known_def sfe_drv_ipv4_tx_def sfe_drv_create_ipv4_rule_msg_def sfe_drv_alloc_response_msg_def Let_def)
  moreover have "drv_handled k al (sic_mark (fst stack)) (SFE_DRV_MSG_TYPE_IPV4 msg) sc (SFE_DRV_MSG_TYPE_IPV4 ?msg)
      (sfe_drv_enqueue_msg (SFE_DRV_MSG_TYPE_IPV4 ?msg) sc2)"
    using False p(4-7) by (auto simp: drv_handled_def drv_effect4_def drv_acked_def drv_frame Let_def simp del: not_None_eq)
  ultimately show ?thesis using p(2,3) by (auto simp: drv_frame)
qed

lemma drv_tx6_handled:
  assumes g: "drv_good sc" and a: "drv_allocs_ok al sc" and y: "drv_known (SFE_DRV_MSG_TYPE_IPV6 msg)"
  shows "\<exists>msg' sc'. sfe_drv_ipv6_tx k al True stack msg sc = Some (SFE_TX_SUCCESS, msg', sc') \<and> drv_good sc' \<and> drv_keeps sc sc'
    \<and> drv_handled k al (sic_mark (fst stack)) (SFE_DRV_MSG_TYPE_IPV6 msg) sc (SFE_DRV_MSG_TYPE_IPV6 msg') sc'"
proof (cases "cmn_type (cm msg) = SFE_TX_DESTROY_RULE_MSG")
  case True
  obtain si out where d: "sfe_ipv6_destroy_rule (dk_jiffies k) (sd_v6 sc) (drv_sid6 (rule_destroy msg)) = Some (si, out)"
    "drv_good (drv_deliver6 k out (sc\<lparr>sd_v6 := si\<rparr>))" "sfe_rules6 si = (sfe_rules6 (sd_v6 sc))(drv_key6 (rule_destroy msg) := None)"
    using drv_destroyed6 [OF g, of k "rule_destroy msg"] by (elim exE conjE) (rule that)
  have "drv_keeps sc (drv_deliver6 k out (sc\<lparr>sd_v6 := si\<rparr>))" by (simp add: drv_deliver6_eq drv_keeps_def)
  then show ?thesis
    using True d by (auto simp: sfe_drv_ipv6_tx_def type_neq sfe_drv_destroy_ipv6_rule_msg_def sfe_drv_alloc_response_msg_def Let_def
        drv_handled_def drv_effect6_def drv_acked_def drv_frame)
next
  case False
  let ?rc = "rule_create msg"
  obtain ret s d sc1 sc2 where c: "(case drv_message6 (fst stack) ?rc of
       Inl (ret, e) \<Rightarrow> Some (ret, None, None, sfe_drv_incr_exceptions e sc)
     | Inr sic \<Rightarrow> drv_create k False ?rc (\<lambda>sic sc. do {
           (err, si) \<leftarrow> sfe_ipv6_create_rule (dk_devs k) (dk_jiffies k) (fst al) (fst (snd al)) (snd (snd al)) (sd_v6 sc) sic;
           Some (err, sc\<lparr>sd_v6 := si\<rparr>) }) sic sc) = Some (ret, s, d, sc1)"
    and p: "drv_release s d sc1 = sc2" "drv_good sc2" "drv_keeps sc sc2" "msg_queue sc2 = msg_queue sc" "sd_v4 sc2 = sd_v4 sc"
    "ret = SFE_CMN_RESPONSE_ACK \<longleftrightarrow> drv_creates k al False ?rc (sfe_rules6 (sd_v6 sc) (drv_key6 (rc_tuple ?rc)) = None) \<noteq> None"
    "sfe_rules6 (sd_v6 sc2) = (case drv_creates k al False ?rc (sfe_rules6 (sd_v6 sc) (drv_key6 (rc_tuple ?rc)) = None) of None \<Rightarrow> sfe_rules6 (sd_v6 sc)
          | Some (s, d) \<Rightarrow> (sfe_rules6 (sd_v6 sc))(drv_key6 (rc_tuple ?rc) \<mapsto> drv_rule6 (sic_mark (fst stack)) s d ?rc))"
    using drv_created6 [OF g a, where stack = "fst stack" and rc = ?rc and k = k] by (elim exE conjE) (rule that)
  let ?msg = "set_response ret msg"
  have "sfe_drv_ipv6_tx k al True stack msg sc = Some (SFE_TX_SUCCESS, ?msg, sfe_drv_enqueue_msg (SFE_DRV_MSG_TYPE_IPV6 ?msg) sc2)"
    using False y c p(1) by (simp add: drv_known_def sfe_drv_ipv6_tx_def sfe_drv_create_ipv6_rule_msg_def sfe_drv_alloc_response_msg_def Let_def)
  moreover have "drv_handled k al (sic_mark (fst stack)) (SFE_DRV_MSG_TYPE_IPV6 msg) sc (SFE_DRV_MSG_TYPE_IPV6 ?msg)
      (sfe_drv_enqueue_msg (SFE_DRV_MSG_TYPE_IPV6 ?msg) sc2)"
    using False p(4-7) by (auto simp: drv_handled_def drv_effect6_def drv_acked_def drv_frame Let_def simp del: not_None_eq)
  ultimately show ?thesis using p(2,3) by (auto simp: drv_frame)
qed

lemma drv_message_outcome:
  assumes "drv_good sc" and "drv_allocs_ok al sc"
  shows "\<exists>st m' sc'. drv_tx k al mem stack m sc = Some (st, m', sc') \<and> drv_good sc' \<and> drv_keeps sc sc'
    \<and> (if drv_known m \<and> mem then st = SFE_TX_SUCCESS \<and> drv_handled k al (sic_mark (fst stack)) m sc m' sc'
       else st = (if drv_known m then SFE_TX_FAILURE_QUEUE else SFE_TX_FAILURE_NOT_ENABLED) \<and> m' = m
         \<and> sd_v4 sc' = sd_v4 sc \<and> sd_v6 sc' = sd_v6 sc \<and> msg_queue sc' = msg_queue sc \<and> sd_work sc' = sd_work sc)"
proof (cases "drv_known m \<and> mem")
  case True
  then show ?thesis
    using drv_tx4_handled [OF assms, of _ k stack] drv_tx6_handled [OF assms, of _ k stack]
    by (cases m) (fastforce simp: drv_tx_def)+
next
  case False
  have f: "drv_good (sfe_drv_incr_exceptions e sc)" for e using assms(1) by (simp add: drv_good_def drv_frame)
  show ?thesis
    using False f
    by (cases m) (auto simp: drv_tx_def sfe_drv_ipv4_tx_def sfe_drv_ipv6_tx_def drv_known_def sfe_drv_create_ipv4_rule_msg_def
        sfe_drv_create_ipv6_rule_msg_def sfe_drv_destroy_ipv4_rule_msg_def sfe_drv_destroy_ipv6_rule_msg_def
        sfe_drv_alloc_response_msg_def drv_frame)
qed

text \<open>
  C37: Sending a message to the driver always returns and gives back every device. A message of unknown
  type, or without memory for its response, changes neither rules nor queue. Any other is answered:
  exactly one response is queued behind the others, a copy of the message, and the rules of the engine
  of its version change as the message says: a creation adds the rule of its tuple, with its
  translation for IPv4 and none for IPv6, exactly when it is acknowledged, that is, when it is
  complete, its devices have addresses and are registered, there is memory and no rule with the key; a
  destruction removes the rule and is acknowledged whether there was one or not. The mark of a new rule
  is what the stack held.
\<close>

theorem drv_message_refines:
  assumes "drv_good sc" and "drv_allocs_ok al sc"
  shows "\<exists>st m' sc'. drv_tx k al mem stack m sc = Some (st, m', sc') \<and> drv_good sc' \<and> drv_keeps sc sc'
    \<and> (if drv_known m \<and> mem then st = SFE_TX_SUCCESS \<and> drv_handled k al (sic_mark (fst stack)) m sc m' sc'
       else st = (if drv_known m then SFE_TX_FAILURE_QUEUE else SFE_TX_FAILURE_NOT_ENABLED) \<and> m' = m
         \<and> sd_v4 sc' = sd_v4 sc \<and> sd_v6 sc' = sd_v6 sc \<and> msg_queue sc' = msg_queue sc \<and> sd_work sc' = sd_work sc)"
  by (rule drv_message_outcome [OF assms])

text \<open>A kernel in which every number is a device with an address, and a UDP flow.\<close>

definition example_dk :: drv_kernel where
  "example_dk = \<lparr>dk_devs = (\<lambda>_. example_dev), dk_dev_by_index = (\<lambda>i. Some (ucast i)), dk_ip_addrs = (\<lambda>_. Some True),
     dk_ip6_addrs = (\<lambda>_. Some True), dk_jiffies = 0, dk_hz = 100\<rparr>"

definition example_drv :: sfe_drv where
  "example_drv = \<lparr>sd_v4 = init_si, sd_v6 = init_si6, sd_refs = (\<lambda>_. 0), sd_kobject = True, sd_exceptions_file = True,
     sd_recv_hook = True, msg_queue = [], sd_work = False, ipv4_stats_sync_cb = 500, ipv4_stats_sync_data = 0,
     ipv6_stats_sync_cb = 600, ipv6_stats_sync_data = 0, sd_exceptions = (\<lambda>_. 0), sd_answers = [], sd_stats4 = [], sd_stats6 = []\<rparr>"

definition example_create4 :: sfe_ipv4_rule_create_msg where
  "example_create4 = \<lparr>valid_flags = SFE_RULE_CREATE_CONN_VALID, rule_flags = 0,
     rc_tuple = \<lparr>flow_ip = 0x0200000a, return_ip = 0x08080808, flow_ident = 0x0010, return_ident = 0x3500, tuple_protocol = IPPROTO_UDP\<rparr>,
     conn_rule = \<lparr>flow_mac = example_mac, return_mac = example_mac, flow_interface_num = 1, return_interface_num = 2,
       flow_top_interface_num = 1, return_top_interface_num = 2, flow_mtu = 1500, return_mtu = 1500,
       flow_ip_xlate = 0x04030201, return_ip_xlate = 0x08080808, flow_ident_xlate = 0x0050, return_ident_xlate = 0x3500\<rparr>,
     tcp_rule = \<lparr>flow_max_window = 0, return_max_window = 0, flow_end = 0, return_end = 0, flow_max_end = 0, return_max_end = 0,
       flow_window_scale = 0, return_window_scale = 0\<rparr>,
     pppoe_rule = zero_pppoe, qos_rule = \<lparr>flow_qos_tag = 0, return_qos_tag = 0\<rparr>, dscp_rule = \<lparr>flow_dscp = 0, return_dscp = 0\<rparr>,
     vlan_primary_rule = \<lparr>ingress_vlan_tag = 0, egress_vlan_tag = 0\<rparr>, vlan_secondary_rule = \<lparr>ingress_vlan_tag = 0, egress_vlan_tag = 0\<rparr>,
     direction_rule = \<lparr>flow_accel = 0, return_accel = 0\<rparr>, rc_index = 0\<rparr>"

definition example_msg4 :: sfe_ipv4_msg where
  "example_msg4 = sfe_ipv4_msg_init 0 SFE_TX_CREATE_RULE_MSG 0 501 7
     \<lparr>cm = stats_header 0, rule_create = example_create4, rule_destroy = rc_tuple example_create4\<rparr>"

text \<open>What is left on the stack: another message, with mark 99.\<close>

definition example_drv_stack :: drv_stack where
  "example_drv_stack = (example_sic\<lparr>sic_mark := 99\<rparr>, \<lparr>sid_protocol = 0, sid_src_ip = ip4_addr 0, sid_dest_ip = ip4_addr 0,
     sid_src_port = 0, sid_dest_port = 0\<rparr>)"

lemma example_drv_ok: "drv_good example_drv" "drv_allocs_ok (Some 2, Some 3, Some 4) example_drv"
  using sfe_good_init sfe_good_init6 example_fresh example_fresh6 by (simp_all add: drv_good_def drv_allocs_ok_def example_drv_def)

lemma example_msg4_type: "cmn_type (cm example_msg4) = SFE_TX_CREATE_RULE_MSG" "drv_known (SFE_DRV_MSG_TYPE_IPV4 example_msg4)"
  "rule_create example_msg4 = example_create4" "cmn_cb (cm example_msg4) = 501"
  by (simp_all add: example_msg4_def sfe_ipv4_msg_init_def sfe_cmn_msg_init_def drv_known_def)

lemma example_creates: "drv_creates example_dk (Some 2, Some 3, Some 4) True example_create4 True = Some (1, 2)"
  by (simp add: drv_creates_def drv_ends_def drv_valid_def drv_flag_def example_create4_def example_dk_def example_dev_def
      sfe_drv_dev_is_layer_3_interface_def SFE_RULE_CREATE_CONN_VALID_def)

text \<open>The request is acknowledged; its rule has the 99 of the stack for a mark.\<close>

lemma drv_message_refines_witness:
  "\<exists>m' sc'. drv_tx example_dk (Some 2, Some 3, Some 4) True example_drv_stack
       (SFE_DRV_MSG_TYPE_IPV4 example_msg4) example_drv = Some (SFE_TX_SUCCESS, m', sc')
     \<and> msg_queue sc' = [m'] \<and> m' = answer SFE_CMN_RESPONSE_ACK (SFE_DRV_MSG_TYPE_IPV4 example_msg4)
     \<and> sfe_rules (sd_v4 sc') (tuple_key4 (rc_tuple example_create4)) = Some (drv_rule4 99 1 2 example_create4)"
  using drv_message_refines [OF example_drv_ok, of example_dk True example_drv_stack
      "SFE_DRV_MSG_TYPE_IPV4 example_msg4"]
  by (auto simp: example_msg4_type drv_handled_def drv_acked_def drv_effect4_def example_creates type_neq Let_def
      example_drv_def example_drv_stack_def sfe_rules_init)

end
