(* ===== verification/SFE_Drv_System.thy ===== *)
theory SFE_Drv_System
  imports SFE_Drv_Props SFE_CM_System
begin

text \<open>
  The simulated driver as a whole: its worker and the order of responses, loading and unloading, and
  all entry points in any order.
\<close>

section \<open>The worker\<close>

text \<open>Responses are sent when the client is registered for their version and gave a function.\<close>

definition drv_wanted :: "sfe_drv \<Rightarrow> sfe_drv_response_msg \<Rightarrow> bool" where
  "drv_wanted sc r \<longleftrightarrow> (if is_ipv4_response r then ipv4_stats_sync_cb sc \<noteq> 0 else ipv6_stats_sync_cb sc \<noteq> 0) \<and> cmn_cb (response_cm r) \<noteq> 0"

text \<open>The function of a calm client returns and calls nothing of the driver.\<close>

definition calm :: "(sfe_drv_response_msg \<Rightarrow> sfe_drv \<Rightarrow> sfe_drv option) \<Rightarrow> bool" where
  "calm client \<longleftrightarrow> (\<forall>r sc. client r sc = Some sc)"

lemma drv_send_calm:
  assumes "calm client"
  shows "drv_send client r sc = Some (sc\<lparr>sd_answers := sd_answers sc @ filter (drv_wanted sc) [r]\<rparr>)"
  using assms by (simp add: drv_send_def drv_wanted_def calm_def)

lemma process_calm:
  assumes "calm client"
  shows "sfe_drv_process_response_msg client sc = Some (sc\<lparr>msg_queue := [], sd_answers := sd_answers sc @ filter (drv_wanted sc) (msg_queue sc)\<rparr>)"
proof (induction "msg_queue sc" arbitrary: sc)
  case Nil
  then show ?case by (subst sfe_drv_process_response_msg.simps) (cases sc; simp)
next
  case (Cons r rest)
  let ?s = "sc\<lparr>msg_queue := rest, sd_answers := sd_answers sc @ filter (drv_wanted sc) [r]\<rparr>"
  have w: "drv_wanted ?s = drv_wanted sc" "drv_wanted (sc\<lparr>msg_queue := rest\<rparr>) = drv_wanted sc"
    by (simp_all add: drv_wanted_def fun_eq_iff)
  have "sfe_drv_process_response_msg client sc = sfe_drv_process_response_msg client ?s"
    by (subst sfe_drv_process_response_msg.simps) (simp add: Cons.hyps(2) [symmetric] drv_send_calm [OF assms] w(2))
  also have "\<dots> = Some (?s\<lparr>msg_queue := [], sd_answers := sd_answers ?s @ filter (drv_wanted ?s) (msg_queue ?s)\<rparr>)"
    by (rule Cons.hyps(1)) simp
  finally show ?case unfolding w by (simp add: Cons.hyps(2) [symmetric])
qed

section \<open>Packets\<close>

text \<open>Nothing but the engines, which lose rules at most, statistics and exceptions.\<close>

definition drv_quiet :: "sfe_drv \<Rightarrow> sfe_drv \<Rightarrow> bool" where
  "drv_quiet sc sc' \<longleftrightarrow> drv_good sc' \<and> drv_keeps sc sc' \<and> msg_queue sc' = msg_queue sc \<and> sd_work sc' = sd_work sc
     \<and> sfe_rules (sd_v4 sc') \<subseteq>\<^sub>m sfe_rules (sd_v4 sc) \<and> sfe_rules6 (sd_v6 sc') \<subseteq>\<^sub>m sfe_rules6 (sd_v6 sc)"

lemma drv_quiet_refl: "drv_good sc \<Longrightarrow> drv_quiet sc sc"
  by (simp add: drv_quiet_def)

lemma drv_quiet_v4: "drv_good sc \<Longrightarrow> sfe_good si \<Longrightarrow> sfe_rules si \<subseteq>\<^sub>m sfe_rules (sd_v4 sc) \<Longrightarrow> drv_quiet sc (drv_deliver4 k out (sc\<lparr>sd_v4 := si\<rparr>))"
  and drv_quiet_v6: "drv_good sc \<Longrightarrow> sfe_good6 si6 \<Longrightarrow> sfe_rules6 si6 \<subseteq>\<^sub>m sfe_rules6 (sd_v6 sc) \<Longrightarrow> drv_quiet sc (drv_deliver6 k out (sc\<lparr>sd_v6 := si6\<rparr>))"
  by (simp_all add: drv_quiet_def drv_good_def drv_deliver4_eq drv_deliver6_eq drv_keeps_def)

lemma drv_recv_quiet:
  assumes "drv_good sc" and "pull_checks k skb"
  shows "\<exists>res sc'. sfe_drv_recv k dk iq ncls protocol skb sc = Some (res, sc') \<and> drv_quiet sc sc'"
proof -
  have g: "sfe_good (sd_v4 sc)" "sfe_good6 (sd_v6 sc)" using assms(1) by (simp_all add: drv_good_def)
  obtain r where r: "sfe_ipv4_recv k (skb_dev skb) (sd_v4 sc) skb = Some r"
    using recv_returns_recv good_invE [OF g(1)] unfolding recv_returns_def by (metis not_None_eq)
  obtain r6 where r6: "sfe_ipv6_recv k (skb_dev skb) (sd_v6 sc) skb = Some r6"
    using recv_returns_recv6 [OF _ assms(2)] good_invE6 [OF g(2)] unfolding recv_returns6_def by (metis not_None_eq)
  show ?thesis
    using drv_quiet_v4 [OF assms(1) recv_shrinks [OF g(1) r]] drv_quiet_v6 [OF assms(1) recv_shrinks6 [OF g(2) assms(2) r6]]
      drv_quiet_refl [OF assms(1)]
    by (simp add: sfe_drv_recv_def Let_def r r6)
qed

section \<open>Sessions\<close>

text \<open>
  What happens while the client stays registered: it sends messages, also while the worker runs and
  from its own functions; the worker sends one response after the other; packets arrive. The list is
  what the driver accepted, as it will be answered.
\<close>

inductive drv_session :: "sfe_drv \<Rightarrow> sfe_drv_response_msg list \<Rightarrow> sfe_drv \<Rightarrow> bool" for sc0 where
  start: "drv_session sc0 [] sc0"
| message: "drv_session sc0 ms sc \<Longrightarrow> drv_allocs_ok al sc \<Longrightarrow> drv_tx k al mem stack m sc = Some (st, m', sc')
    \<Longrightarrow> drv_session sc0 (if st = SFE_TX_SUCCESS then ms @ [m'] else ms) sc'"
| response: "drv_session sc0 ms sc \<Longrightarrow> msg_queue sc = r # rest \<Longrightarrow> drv_send (\<lambda>_. Some) r (sc\<lparr>msg_queue := rest\<rparr>) = Some sc'
    \<Longrightarrow> drv_session sc0 ms sc'"
| packet: "drv_session sc0 ms sc \<Longrightarrow> pull_checks k skb \<Longrightarrow> sfe_drv_recv k dk iq ncls protocol skb sc = Some (res, sc')
    \<Longrightarrow> drv_session sc0 ms sc'"

lemma session_inv:
  assumes "drv_session sc0 ms sc" and "drv_good sc0"
  shows "drv_good sc \<and> drv_wanted sc = drv_wanted sc0
    \<and> sd_answers sc @ filter (drv_wanted sc0) (msg_queue sc) = sd_answers sc0 @ filter (drv_wanted sc0) (msg_queue sc0 @ ms)"
  using assms(1)
proof induction
  case start
  then show ?case using assms(2) by simp
next
  case (message ms sc al k mem stack m st m' sc')
  obtain st1 m1 sc1 where t: "drv_tx k al mem stack m sc = Some (st1, m1, sc1)" "drv_good sc1" "drv_keeps sc sc1"
    "if drv_known m \<and> mem then st1 = SFE_TX_SUCCESS \<and> drv_handled k al (sic_mark (fst stack)) m sc m1 sc1
       else st1 \<noteq> SFE_TX_SUCCESS \<and> msg_queue sc1 = msg_queue sc"
    using drv_message_outcome [of sc al k mem stack m] message by (elim exE conjE) (auto split: if_splits)
  have e: "st1 = st" "m1 = m'" "sc1 = sc'" using t(1) message(3) by simp_all
  have w: "drv_wanted sc' = drv_wanted sc" "sd_answers sc' = sd_answers sc"
    using t(3) by (simp_all add: e drv_keeps_def drv_wanted_def fun_eq_iff)
  show ?case
    using message.IH t(2,4) w by (auto simp: e drv_handled_def split: if_splits)
next
  case (response ms sc r rest sc')
  have w: "drv_wanted (sc\<lparr>msg_queue := rest\<rparr>) = drv_wanted sc" by (simp add: drv_wanted_def fun_eq_iff)
  have s: "sc' = sc\<lparr>msg_queue := rest, sd_answers := sd_answers sc @ filter (drv_wanted sc) [r]\<rparr>"
    using response(3) drv_send_calm [of "\<lambda>_. Some" r "sc\<lparr>msg_queue := rest\<rparr>"] by (simp add: calm_def w)
  have w': "drv_wanted sc' = drv_wanted sc" by (simp add: s drv_wanted_def fun_eq_iff)
  show ?case using response.IH response(2) unfolding w' by (auto simp: s drv_good_def split: if_splits)
next
  case (packet ms sc k skb dk iq ncls protocol res sc')
  have q: "drv_quiet sc sc'"
    using drv_recv_quiet [of sc k skb dk iq ncls protocol] packet by auto
  have w: "drv_wanted sc' = drv_wanted sc" using q by (simp add: drv_quiet_def drv_keeps_def drv_wanted_def fun_eq_iff)
  show ?case using packet.IH q unfolding w by (simp add: drv_quiet_def drv_keeps_def)
qed



section \<open>Loading and unloading\<close>

text \<open>An engine without rules, whoever is told about them.\<close>

definition drv_cleared :: "sfe_drv \<Rightarrow> bool" where
  "drv_cleared sc \<longleftrightarrow> engine_empty (sfe_ipv4_register_sync_rule_callback (sd_v4 sc) None)
     \<and> engine_empty6 (sfe_ipv6_register_sync_rule_callback (sd_v6 sc) None)"

lemma register_rules:
  assumes "sfe_good si" shows "sfe_good (sfe_ipv4_register_sync_rule_callback si cb)" "sfe_rules (sfe_ipv4_register_sync_rule_callback si cb) = sfe_rules si"
  using v4.run_law [OF assms, of "Register cb"] by auto

lemma register_rules6:
  assumes "sfe_good6 si" shows "sfe_good6 (sfe_ipv6_register_sync_rule_callback si cb)" "sfe_rules6 (sfe_ipv6_register_sync_rule_callback si cb) = sfe_rules6 si"
  using v6.run_law [OF assms, of "Register6 cb"] by auto

lemma destroy_all_cleared:
  assumes "sfe_good si"
  shows "\<exists>si' out. sfe_ipv4_destroy_all_rules_for_dev j 0 si = Some (si', out) \<and> sfe_good si' \<and> sfe_rules si' = (\<lambda>_. None)
    \<and> engine_empty (sfe_ipv4_register_sync_rule_callback si' None) \<and> sync_rule_callback si' = sync_rule_callback si"
proof -
  from assms obtain g where i: "sfe_inv si g []" and a: "adj_inv si" by (rule good_invE)
  obtain si' out g' where u: "sfe_ipv4_destroy_all_rules_for_dev j 0 si = Some (si', out)" and i': "sfe_inv si' g' []"
    and ga: "ga g' = filter (\<lambda>c. \<not> uses_dev (connections si c) 0) (ga g)" and r: "same_rules si si'"
    and cb: "sync_rule_callback si' = sync_rule_callback si"
    using destroy_all_spec [OF i, of j 0] by (elim exE conjE) (rule that)
  have n: "sfe_rules si' = (\<lambda>_. None)"
    unfolding destroy_all_rules [OF i i' ga r] by (auto simp: rule_uses_def fun_eq_iff split: option.split)
  have "sfe_good si'" using i' adj_inv_same [OF destroy_all_adj [OF i u] a] by (auto simp: sfe_good_def sfe_wf_def)
  moreover have "engine_empty (sfe_ipv4_register_sync_rule_callback si' None)"
    using quiet_engine [OF i' n] n register_rules(2) [OF \<open>sfe_good si'\<close>, of None]
    by (simp add: engine_empty_def sfe_ipv4_register_sync_rule_callback_def)
  ultimately show ?thesis using u n cb by blast
qed

lemma destroy_all_cleared6:
  assumes "sfe_good6 si"
  shows "\<exists>si' out. sfe_ipv6_destroy_all_rules_for_dev j 0 si = Some (si', out) \<and> sfe_good6 si' \<and> sfe_rules6 si' = (\<lambda>_. None)
    \<and> engine_empty6 (sfe_ipv6_register_sync_rule_callback si' None) \<and> sync_rule_callback6 si' = sync_rule_callback6 si"
proof -
  from assms obtain g where i: "sfe_inv6 si g []" and a: "adj_inv6 si" by (rule good_invE6)
  obtain si' out g' where u: "sfe_ipv6_destroy_all_rules_for_dev j 0 si = Some (si', out)" and i': "sfe_inv6 si' g' []"
    and ga: "ga g' = filter (\<lambda>c. \<not> uses_dev6 (connections6 si c) 0) (ga g)" and r: "same_rules6 si si'"
    and cb: "sync_rule_callback6 si' = sync_rule_callback6 si"
    using destroy_all_spec6 [OF i, of j 0] by (elim exE conjE) (rule that)
  have n: "sfe_rules6 si' = (\<lambda>_. None)"
    unfolding destroy_all_rules6 [OF i i' ga r] by (auto simp: rule_uses6_def fun_eq_iff split: option.split)
  have "sfe_good6 si'" using i' adj_inv_same6 [OF destroy_all_adj6 [OF i u] a] by (auto simp: sfe_good6_def sfe_wf6_def)
  moreover have "engine_empty6 (sfe_ipv6_register_sync_rule_callback si' None)"
    using quiet_engine6 [OF i' n] n register_rules6(2) [OF \<open>sfe_good6 si'\<close>, of None]
    by (simp add: engine_empty6_def sfe_ipv6_register_sync_rule_callback_def)
  ultimately show ?thesis using u n cb by blast
qed

lemma drv_destroy_all4_spec:
  assumes "drv_good sc"
  shows "\<exists>sc'. drv_destroy_all4 k 0 sc = Some sc' \<and> drv_quiet sc sc' \<and> sd_v6 sc' = sd_v6 sc
    \<and> engine_empty (sfe_ipv4_register_sync_rule_callback (sd_v4 sc') None) \<and> sync_rule_callback (sd_v4 sc') = sync_rule_callback (sd_v4 sc)"
proof -
  have g: "sfe_good (sd_v4 sc)" using assms by (simp add: drv_good_def)
  obtain si' out where d: "sfe_ipv4_destroy_all_rules_for_dev (dk_jiffies k) 0 (sd_v4 sc) = Some (si', out)" "sfe_good si'"
    "sfe_rules si' = (\<lambda>_. None)" "engine_empty (sfe_ipv4_register_sync_rule_callback si' None)"
    "sync_rule_callback si' = sync_rule_callback (sd_v4 sc)"
    using destroy_all_cleared [OF g, of "dk_jiffies k"] by (elim exE conjE) (rule that)
  then show ?thesis
    using drv_quiet_v4 [OF assms d(2), of k out] by (simp add: drv_destroy_all4_def drv_frame)
qed

lemma drv_destroy_all6_spec:
  assumes "drv_good sc"
  shows "\<exists>sc'. drv_destroy_all6 k 0 sc = Some sc' \<and> drv_quiet sc sc' \<and> sd_v4 sc' = sd_v4 sc
    \<and> engine_empty6 (sfe_ipv6_register_sync_rule_callback (sd_v6 sc') None) \<and> sync_rule_callback6 (sd_v6 sc') = sync_rule_callback6 (sd_v6 sc)"
proof -
  have g: "sfe_good6 (sd_v6 sc)" using assms by (simp add: drv_good_def)
  obtain si' out where d: "sfe_ipv6_destroy_all_rules_for_dev (dk_jiffies k) 0 (sd_v6 sc) = Some (si', out)" "sfe_good6 si'"
    "sfe_rules6 si' = (\<lambda>_. None)" "engine_empty6 (sfe_ipv6_register_sync_rule_callback si' None)"
    "sync_rule_callback6 si' = sync_rule_callback6 (sd_v6 sc)"
    using destroy_all_cleared6 [OF g, of "dk_jiffies k"] by (elim exE conjE) (rule that)
  then show ?thesis
    using drv_quiet_v6 [OF assms d(2), of k out] by (simp add: drv_destroy_all6_def drv_frame)
qed

lemma clean_all: "filter (\<lambda>r. is_ipv4_response r) (filter (\<lambda>r. \<not> is_ipv4_response r) q) = []"
  by (induction q) simp_all

text \<open>What unloading leaves.\<close>

definition drv_unloaded :: "sfe_drv \<Rightarrow> bool" where
  "drv_unloaded sc \<longleftrightarrow> drv_good sc \<and> drv_cleared sc \<and> \<not> sd_recv_hook sc \<and> \<not> sd_kobject sc \<and> \<not> sd_exceptions_file sc
     \<and> msg_queue sc = [] \<and> \<not> sd_work sc \<and> ipv4_stats_sync_cb sc = 0 \<and> ipv6_stats_sync_cb sc = 0"

lemma drv_exit_spec:
  assumes "drv_good sc" and "calm client"
  shows "\<exists>sc'. sfe_drv_exit k client sc = Some sc' \<and> drv_unloaded sc' \<and> sd_refs sc' = sd_refs sc
    \<and> sd_answers sc' = sd_answers sc @ filter (drv_wanted sc) (msg_queue sc)
    \<and> sync_rule_callback (sd_v4 sc') = (if ipv4_stats_sync_cb sc = 0 then sync_rule_callback (sd_v4 sc) else None)
    \<and> sync_rule_callback6 (sd_v6 sc') = (if ipv6_stats_sync_cb sc = 0 then sync_rule_callback6 (sd_v6 sc) else None)"
proof -
  let ?s0 = "sc\<lparr>sd_recv_hook := False\<rparr>"
  have g0: "drv_good ?s0" using assms(1) by (simp add: drv_good_def)
  obtain s1 where 1: "drv_destroy_all4 k 0 ?s0 = Some s1" "drv_quiet ?s0 s1" "sd_v6 s1 = sd_v6 ?s0"
    "engine_empty (sfe_ipv4_register_sync_rule_callback (sd_v4 s1) None)" "sync_rule_callback (sd_v4 s1) = sync_rule_callback (sd_v4 ?s0)"
    using drv_destroy_all4_spec [OF g0, of k] by (elim exE conjE) (rule that)
  have g1: "drv_good s1" using 1(2) by (simp add: drv_quiet_def)
  obtain s2 where 2: "drv_destroy_all6 k 0 s1 = Some s2" "drv_quiet s1 s2" "sd_v4 s2 = sd_v4 s1"
    "engine_empty6 (sfe_ipv6_register_sync_rule_callback (sd_v6 s2) None)" "sync_rule_callback6 (sd_v6 s2) = sync_rule_callback6 (sd_v6 s1)"
    using drv_destroy_all6_spec [OF g1, of k] by (elim exE conjE) (rule that)
  have k: "drv_keeps ?s0 s2" "msg_queue s2 = msg_queue sc" "drv_good s2"
    using 1(2) 2(2) drv_keeps_trans by (auto simp: drv_quiet_def)
  let ?s3 = "s2\<lparr>sd_work := False, msg_queue := [], sd_answers := sd_answers s2 @ filter (drv_wanted s2) (msg_queue s2)\<rparr>"
  have w: "drv_wanted (s2\<lparr>sd_work := False\<rparr>) = drv_wanted s2" "drv_wanted s2 = drv_wanted sc"
    using k(1) by (simp_all add: drv_wanted_def drv_keeps_def fun_eq_iff)
  have p: "sfe_drv_process_response_msg client (s2\<lparr>sd_work := False\<rparr>) = Some ?s3"
    by (simp add: process_calm [OF assms(2)] w(1))
  let ?s4 = "drv_kobject_put (sfe_drv_ipv6_notify_unregister (sfe_drv_ipv4_notify_unregister ?s3))"
  have e: "sfe_drv_exit k client sc = Some ?s4" using 1(1) 2(1) p by (simp add: sfe_drv_exit_def Let_def)
  have f: "sd_v4 ?s4 = (if ipv4_stats_sync_cb sc = 0 then sd_v4 s2 else sfe_ipv4_register_sync_rule_callback (sd_v4 s2) None)"
    "sd_v6 ?s4 = (if ipv6_stats_sync_cb sc = 0 then sd_v6 s2 else sfe_ipv6_register_sync_rule_callback (sd_v6 s2) None)"
    "sd_refs ?s4 = sd_refs sc" "sd_answers ?s4 = sd_answers sc @ filter (drv_wanted sc) (msg_queue sc)" "msg_queue ?s4 = []"
    "\<not> sd_recv_hook ?s4" "\<not> sd_kobject ?s4" "\<not> sd_exceptions_file ?s4" "\<not> sd_work ?s4" "ipv4_stats_sync_cb ?s4 = 0" "ipv6_stats_sync_cb ?s4 = 0"
    using k(1,2) w(2)
    by (simp_all add: drv_kobject_put_def sfe_drv_ipv6_notify_unregister_def sfe_drv_ipv4_notify_unregister_def Let_def
        sfe_drv_clean_response_msg_by_type_def drv_keeps_def)
  have i: "sfe_ipv4_register_sync_rule_callback (sfe_ipv4_register_sync_rule_callback si None) None = sfe_ipv4_register_sync_rule_callback si None"
    "sfe_ipv6_register_sync_rule_callback (sfe_ipv6_register_sync_rule_callback si6 None) None = sfe_ipv6_register_sync_rule_callback si6 None" for si si6
    by (simp_all add: sfe_ipv4_register_sync_rule_callback_def sfe_ipv6_register_sync_rule_callback_def)
  have c: "drv_cleared ?s4" using 1(4) 2(3,4) by (simp add: drv_cleared_def f(1,2) i)
  have g: "drv_good ?s4" using k(3) register_rules(1) register_rules6(1) by (simp add: drv_good_def f(1,2))
  have cb: "sync_rule_callback (sfe_ipv4_register_sync_rule_callback si None) = None"
    "sync_rule_callback6 (sfe_ipv6_register_sync_rule_callback si6 None) = None" for si si6
    by (simp_all add: sfe_ipv4_register_sync_rule_callback_def sfe_ipv6_register_sync_rule_callback_def)
  show ?thesis
    using f(3-11) c g 1(3,5) 2(3,5) by (intro exI [of _ ?s4] conjI e) (simp_all add: drv_unloaded_def f(1,2) cb)
qed

lemma drv_init_spec:
  assumes "\<not> sd_recv_hook sc" and "\<not> sd_kobject sc" and "\<not> sd_exceptions_file sc"
  shows "\<exists>rc sc'. sfe_drv_init kobject sysfs sc = Some (rc, sc') \<and> sd_v4 sc' = sd_v4 sc \<and> sd_v6 sc' = sd_v6 sc
    \<and> (if kobject \<and> sysfs = 0
       then rc = 0 \<and> sd_recv_hook sc' \<and> sd_kobject sc' \<and> sd_exceptions_file sc' \<and> msg_queue sc' = []
         \<and> sd_refs sc' = sd_refs sc \<and> ipv4_stats_sync_cb sc' = ipv4_stats_sync_cb sc \<and> ipv6_stats_sync_cb sc' = ipv6_stats_sync_cb sc
       else rc \<noteq> 0 \<and> sc' = sc)"
  using assms by (cases sc) (auto simp: sfe_drv_init_def Let_def drv_kobject_put_def)

text \<open>
  C40: A client that registers and later registers the null function, as if to take itself back, leaves the
  engine's callback in place: unloading, which takes the callback back only while a function is
  registered, then returns with the engine still pointing into the module. Without the null
  registration it is taken back.
\<close>

theorem drv_null_client_leaves_callback:
  assumes "drv_good sc" and "calm client" and "cb \<noteq> 0" and "ipv4_stats_sync_cb sc = 0"
  shows "\<exists>sc1 sc2. sfe_drv_exit k client (sfe_drv_ipv4_notify_register sync4 cb d sc) = Some sc1
    \<and> sync_rule_callback (sd_v4 sc1) = None
    \<and> sfe_drv_exit k client (sfe_drv_ipv4_notify_register sync4 0 0 (sfe_drv_ipv4_notify_register sync4 cb d sc)) = Some sc2
    \<and> drv_unloaded sc2 \<and> sync_rule_callback (sd_v4 sc2) = Some sync4"
proof -
  let ?a = "sfe_drv_ipv4_notify_register sync4 cb d sc"
  let ?b = "sfe_drv_ipv4_notify_register sync4 0 0 ?a"
  have g: "drv_good ?a" "drv_good ?b"
    using assms(1,3,4) register_rules(1) by (simp_all add: sfe_drv_ipv4_notify_register_def Let_def drv_good_def)
  have c: "ipv4_stats_sync_cb ?a \<noteq> 0" "ipv4_stats_sync_cb ?b = 0" "sync_rule_callback (sd_v4 ?b) = Some sync4"
    using assms(3,4) by (simp_all add: sfe_drv_ipv4_notify_register_def Let_def sfe_ipv4_register_sync_rule_callback_def)
  show ?thesis
    using drv_exit_spec [OF g(1) assms(2), of k] drv_exit_spec [OF g(2) assms(2), of k] c by auto
qed

lemma drv_null_client_leaves_callback_witness:
  "\<exists>sc2. sfe_drv_exit example_dk (\<lambda>_. Some) (sfe_drv_ipv4_notify_register 9 0 0 (sfe_drv_ipv4_notify_register 9 500 1
       (example_drv\<lparr>ipv4_stats_sync_cb := 0\<rparr>))) = Some sc2 \<and> sync_rule_callback (sd_v4 sc2) = Some 9"
proof -
  have g: "drv_good (example_drv\<lparr>ipv4_stats_sync_cb := 0\<rparr>)" using example_drv_ok(1) by (simp add: drv_good_def)
  have "calm (\<lambda>_. Some)" by (simp add: calm_def)
  from drv_null_client_leaves_callback [OF g this, of 500 example_dk 9 1] show ?thesis by auto
qed

section \<open>All entry points in any order\<close>

text \<open>
  The entry points, each called only while the driver is loaded; the functions of the client call the
  driver at most by further messages, which are steps of their own.
\<close>

inductive drv_step :: "sfe_drv \<Rightarrow> sfe_drv \<Rightarrow> bool" where
  load: "\<not> sd_recv_hook sc \<Longrightarrow> sfe_drv_init kobject sysfs sc = Some (rc, sc') \<Longrightarrow> drv_step sc sc'"
| unload: "sd_recv_hook sc \<Longrightarrow> calm client \<Longrightarrow> sfe_drv_exit k client sc = Some sc' \<Longrightarrow> drv_step sc sc'"
| message: "sd_recv_hook sc \<Longrightarrow> drv_allocs_ok al sc \<Longrightarrow> drv_tx k al mem stack m sc = Some (st, m', sc') \<Longrightarrow> drv_step sc sc'"
| message_6rd: "sd_recv_hook sc \<Longrightarrow> sfe_tun6rd_tx sc = (st, sc') \<Longrightarrow> drv_step sc sc'"
| response: "sd_recv_hook sc \<Longrightarrow> msg_queue sc = r # rest \<Longrightarrow> drv_send (\<lambda>_. Some) r (sc\<lparr>msg_queue := rest\<rparr>) = Some sc' \<Longrightarrow> drv_step sc sc'"
| register4: "sd_recv_hook sc \<Longrightarrow> drv_step sc (sfe_drv_ipv4_notify_register sync4 cb d sc)"
| register6: "sd_recv_hook sc \<Longrightarrow> drv_step sc (sfe_drv_ipv6_notify_register sync6 cb d sc)"
| unregister4: "sd_recv_hook sc \<Longrightarrow> drv_step sc (sfe_drv_ipv4_notify_unregister sc)"
| unregister6: "sd_recv_hook sc \<Longrightarrow> drv_step sc (sfe_drv_ipv6_notify_unregister sc)"
| packet: "sd_recv_hook sc \<Longrightarrow> pull_checks k skb \<Longrightarrow> sfe_drv_recv k dk iq ncls protocol skb sc = Some (res, sc') \<Longrightarrow> drv_step sc sc'"
| timer: "sd_recv_hook sc \<Longrightarrow> sfe_ipv4_periodic_sync hz now j (sd_v4 sc) = Some (si, out) \<Longrightarrow> drv_step sc (drv_deliver4 dk out (sc\<lparr>sd_v4 := si\<rparr>))"
| timer6: "sd_recv_hook sc \<Longrightarrow> sfe_ipv6_periodic_sync hz now j (sd_v6 sc) = Some (si6, out) \<Longrightarrow> drv_step sc (drv_deliver6 dk out (sc\<lparr>sd_v6 := si6\<rparr>))"

inductive drv_reach :: "sfe_drv \<Rightarrow> bool" where
  start: "sd_v4 sc = init_si \<Longrightarrow> sd_v6 sc = init_si6 \<Longrightarrow> sd_refs sc = (\<lambda>_. 0) \<Longrightarrow> \<not> sd_recv_hook sc \<Longrightarrow> \<not> sd_kobject sc
    \<Longrightarrow> \<not> sd_exceptions_file sc \<Longrightarrow> msg_queue sc = [] \<Longrightarrow> ipv4_stats_sync_cb sc = 0 \<Longrightarrow> ipv6_stats_sync_cb sc = 0 \<Longrightarrow> drv_reach sc"
| next_event: "drv_reach sc \<Longrightarrow> drv_step sc sc' \<Longrightarrow> drv_reach sc'"

definition drv_inv :: "sfe_drv \<Rightarrow> bool" where
  "drv_inv sc \<longleftrightarrow> drv_good sc \<and> sd_refs sc = (\<lambda>_. 0)
     \<and> sd_kobject sc = sd_recv_hook sc \<and> sd_exceptions_file sc = sd_recv_hook sc
     \<and> (\<not> sd_recv_hook sc \<longrightarrow> msg_queue sc = [] \<and> ipv4_stats_sync_cb sc = 0 \<and> ipv6_stats_sync_cb sc = 0
          \<and> sfe_rules (sd_v4 sc) = (\<lambda>_. None) \<and> sfe_rules6 (sd_v6 sc) = (\<lambda>_. None))"

lemma keeps_inv: "drv_inv sc \<Longrightarrow> sd_recv_hook sc \<Longrightarrow> drv_keeps sc sc' \<Longrightarrow> drv_good sc' \<Longrightarrow> drv_inv sc'"
  by (simp add: drv_inv_def drv_keeps_def)

lemma cleared_rules:
  assumes "drv_good sc" and "drv_cleared sc"
  shows "sfe_rules (sd_v4 sc) = (\<lambda>_. None)" "sfe_rules6 (sd_v6 sc) = (\<lambda>_. None)"
  using assms register_rules(2) register_rules6(2) by (simp_all add: drv_good_def drv_cleared_def engine_empty_def engine_empty6_def)

lemma drv_step_inv:
  assumes "drv_step sc sc'" and i: "drv_inv sc"
  shows "drv_inv sc'"
  using assms(1)
proof cases
  case (load kobject sysfs rc)
  then show ?thesis
    using i drv_init_spec [of sc kobject sysfs] by (auto simp: drv_inv_def drv_good_def split: if_splits)
next
  case (unload client k)
  have g: "drv_good sc" using i by (simp add: drv_inv_def)
  have u: "drv_unloaded sc'" "sd_refs sc' = sd_refs sc" using drv_exit_spec [OF g unload(2), of k] unload(3) by auto
  then show ?thesis using i cleared_rules [of sc'] by (simp add: drv_inv_def drv_unloaded_def)
next
  case (message al k mem stack m st m')
  then have "drv_keeps sc sc' \<and> drv_good sc'" using i drv_message_outcome [of sc al k mem stack m] by (auto simp: drv_inv_def)
  then show ?thesis using keeps_inv [OF i message(1)] by blast
next
  case (message_6rd st)
  then have "sc' = sfe_drv_incr_exceptions SFE_DRV_EXCEPTION_NOT_SUPPORT_6RD sc" by (simp add: sfe_tun6rd_tx_def)
  moreover from this have "drv_keeps sc sc'" "drv_good sc'" using i by (simp_all add: drv_frame drv_inv_def drv_good_def)
  ultimately show ?thesis using keeps_inv [OF i message_6rd(1)] by blast
next
  case (response r rest)
  have "sc' = sc\<lparr>msg_queue := rest, sd_answers := sd_answers sc @ filter (drv_wanted (sc\<lparr>msg_queue := rest\<rparr>)) [r]\<rparr>"
    using response(3) drv_send_calm [of "\<lambda>_. Some" r "sc\<lparr>msg_queue := rest\<rparr>"] by (simp add: calm_def)
  then show ?thesis using i response(1) by (simp add: drv_inv_def drv_good_def)
next
  case (register4 sync4 cb d)
  then show ?thesis using i register_rules(1) by (auto simp: drv_inv_def drv_good_def sfe_drv_ipv4_notify_register_def Let_def)
next
  case (register6 sync6 cb d)
  then show ?thesis using i register_rules6(1) by (auto simp: drv_inv_def drv_good_def sfe_drv_ipv6_notify_register_def Let_def)
next
  case unregister4
  then show ?thesis using i register_rules(1)
    by (auto simp: drv_inv_def drv_good_def sfe_drv_ipv4_notify_unregister_def sfe_drv_clean_response_msg_by_type_def Let_def)
next
  case unregister6
  then show ?thesis using i register_rules6(1)
    by (auto simp: drv_inv_def drv_good_def sfe_drv_ipv6_notify_unregister_def sfe_drv_clean_response_msg_by_type_def Let_def)
next
  case (packet k skb dk iq ncls protocol res)
  then have "drv_quiet sc sc'" using i drv_recv_quiet [of sc k skb dk iq ncls protocol] by (auto simp: drv_inv_def)
  then show ?thesis using keeps_inv [OF i packet(1)] by (simp add: drv_quiet_def)
next
  case (timer hz now j si out dk)
  have g: "drv_good sc" "sfe_good (sd_v4 sc)" using i by (simp_all add: drv_inv_def drv_good_def)
  have "sfe_good si" "sfe_rules si = sfe_rules (sd_v4 sc)" using v4.run_law [OF g(2), of "Timer hz now j"] timer(3) by auto
  then have "drv_quiet sc sc'" unfolding timer(1) by (intro drv_quiet_v4 [OF g(1)]) simp_all
  then show ?thesis using keeps_inv [OF i timer(2)] by (simp add: drv_quiet_def)
next
  case (timer6 hz now j si6 out dk)
  have g: "drv_good sc" "sfe_good6 (sd_v6 sc)" using i by (simp_all add: drv_inv_def drv_good_def)
  have "sfe_good6 si6" "sfe_rules6 si6 = sfe_rules6 (sd_v6 sc)" using v6.run_law [OF g(2), of "Timer6 hz now j"] timer6(3) by auto
  then have "drv_quiet sc sc'" unfolding timer6(1) by (intro drv_quiet_v6 [OF g(1)]) simp_all
  then show ?thesis using keeps_inv [OF i timer6(2)] by (simp add: drv_quiet_def)
qed

lemma reach_drv_inv: "drv_reach sc \<Longrightarrow> drv_inv sc"
proof (induction rule: drv_reach.induct)
  case (start sc)
  then show ?case using sfe_good_init sfe_good_init6 sfe_rules_init sfe_rules_init6 by (simp add: drv_inv_def drv_good_def)
qed (use drv_step_inv in blast)

text \<open>
  C39: In every state that loading, unloading, messages, registrations, packets, responses and timer runs
  lead to, in any order: both engines are well formed, no device is held, the driver is set up
  completely or not at all, and while it is not, no response waits, no client is registered and no
  engine has a rule.
\<close>

theorem drv_invariant:
  assumes "drv_reach sc"
  shows "drv_inv sc"
  by (rule reach_drv_inv [OF assms])

text \<open>Loaded, registered, one rule created, unloaded.\<close>

lemma drv_invariant_witness:
  "\<exists>sc1 sc2. drv_reach sc1 \<and> sfe_rules (sd_v4 sc1) \<noteq> (\<lambda>_. None) \<and> drv_inv sc1 \<and> drv_step sc1 sc2 \<and> drv_inv sc2 \<and> \<not> sd_recv_hook sc2"
proof -
  let ?s0 = "example_drv\<lparr>sd_recv_hook := False, sd_kobject := False, sd_exceptions_file := False, ipv4_stats_sync_cb := 0, ipv6_stats_sync_cb := 0\<rparr>"
  have r0: "drv_reach ?s0" by (rule drv_reach.start) (simp_all add: example_drv_def)
  let ?s1 = "?s0\<lparr>sd_recv_hook := True, sd_kobject := True, sd_exceptions_file := True\<rparr>"
  have "sfe_drv_init True 0 ?s0 = Some (0, ?s1)" by (simp add: sfe_drv_init_def example_drv_def)
  then have r1: "drv_reach ?s1" using drv_reach.next_event [OF r0 drv_step.load] by (simp add: example_drv_def)
  have a: "drv_allocs_ok (Some 2, Some 3, Some 4) ?s1" "drv_good ?s1"
    using example_drv_ok by (simp_all add: drv_allocs_ok_def drv_good_def)
  let ?m = "SFE_DRV_MSG_TYPE_IPV4 example_msg4"
  obtain sc m' where t: "drv_tx example_dk (Some 2, Some 3, Some 4) True example_drv_stack ?m ?s1 = Some (SFE_TX_SUCCESS, m', sc)"
    "sd_recv_hook sc" "sfe_rules (sd_v4 sc) (tuple_key4 (rc_tuple example_create4)) = Some (drv_rule4 (sic_mark (fst example_drv_stack)) 1 2 example_create4)"
    using drv_message_outcome [OF a(2,1), of example_dk True example_drv_stack ?m]
    by (auto simp: example_msg4_type drv_handled_def drv_effect4_def example_creates type_neq Let_def example_drv_def sfe_rules_init drv_keeps_def)
  have r2: "drv_reach sc" by (rule drv_reach.next_event [OF r1 drv_step.message [OF _ a(1) t(1)]]) simp
  have i2: "drv_inv sc" by (rule drv_invariant [OF r2])
  then have g: "drv_good sc" by (simp add: drv_inv_def)
  have c: "calm (\<lambda>_. Some)" by (simp add: calm_def)
  obtain sc2 where u: "sfe_drv_exit example_dk (\<lambda>_. Some) sc = Some sc2" "drv_unloaded sc2"
    using drv_exit_spec [OF g c, of example_dk] by (elim exE conjE) (rule that)
  have s: "drv_step sc sc2" by (rule drv_step.unload [OF t(2) c u(1)])
  have n: "sfe_rules (sd_v4 sc) \<noteq> (\<lambda>_. None)"
  proof
    assume "sfe_rules (sd_v4 sc) = (\<lambda>_. None)"
    then show False using t(3) by simp
  qed
  have i3: "drv_inv sc2" by (rule drv_invariant [OF drv_reach.next_event [OF r2 s]])
  show ?thesis
    using r2 n i2 s i3 u(2) unfolding drv_unloaded_def by blast
qed

end
