(* ===== verification/SFE_IPv4_Debug.thy ===== *)
theory SFE_IPv4_Debug
  imports SFE_IPv4_Rules SFE_Debug_Msg
begin

text \<open>
  The debug character device of \<open>sfe_ipv4.c\<close>: reading it gives the state of the engine as XML, piece
  by piece, by a state machine kept in the open file. The lock is taken for each piece only; between
  two pieces other CPUs may run. The message buffer on the stack and the memory of the reading process
  are modelled byte by byte, since whole buffers are copied.
\<close>

section \<open>The state machine\<close>

datatype sfe_ipv4_debug_xml_states =
    XML_START
  | XML_CONNECTIONS_START
  | XML_CONNECTIONS_CONNECTION
  | XML_CONNECTIONS_END
  | XML_EXCEPTIONS_START
  | XML_EXCEPTIONS_EXCEPTION
  | XML_EXCEPTIONS_END
  | XML_STATS
  | XML_END
  | XML_DONE

text \<open>\<open>ws->state++\<close>\<close>

fun xml_next :: "sfe_ipv4_debug_xml_states \<Rightarrow> sfe_ipv4_debug_xml_states" where
  "xml_next XML_START = XML_CONNECTIONS_START"
| "xml_next XML_CONNECTIONS_START = XML_CONNECTIONS_CONNECTION"
| "xml_next XML_CONNECTIONS_CONNECTION = XML_CONNECTIONS_END"
| "xml_next XML_CONNECTIONS_END = XML_EXCEPTIONS_START"
| "xml_next XML_EXCEPTIONS_START = XML_EXCEPTIONS_EXCEPTION"
| "xml_next XML_EXCEPTIONS_EXCEPTION = XML_EXCEPTIONS_END"
| "xml_next XML_EXCEPTIONS_END = XML_STATS"
| "xml_next XML_STATS = XML_END"
| "xml_next XML_END = XML_DONE"
| "xml_next XML_DONE = XML_DONE"

record sfe_ipv4_debug_xml_write_state =
  ws_state :: sfe_ipv4_debug_xml_states
  ws_iter_exception :: nat

definition sfe_ipv4_exception_events_string :: "(sfe_ipv4_exception_events \<times> string) list" where
  "sfe_ipv4_exception_events_string =
     [(UDP_HEADER_INCOMPLETE, ''UDP_HEADER_INCOMPLETE''), (UDP_NO_CONNECTION, ''UDP_NO_CONNECTION''),
      (UDP_IP_OPTIONS_OR_INITIAL_FRAGMENT, ''UDP_IP_OPTIONS_OR_INITIAL_FRAGMENT''),
      (UDP_SMALL_TTL, ''UDP_SMALL_TTL''), (UDP_NEEDS_FRAGMENTATION, ''UDP_NEEDS_FRAGMENTATION''),
      (TCP_HEADER_INCOMPLETE, ''TCP_HEADER_INCOMPLETE''),
      (TCP_NO_CONNECTION_SLOW_FLAGS, ''TCP_NO_CONNECTION_SLOW_FLAGS''),
      (TCP_NO_CONNECTION_FAST_FLAGS, ''TCP_NO_CONNECTION_FAST_FLAGS''),
      (TCP_IP_OPTIONS_OR_INITIAL_FRAGMENT, ''TCP_IP_OPTIONS_OR_INITIAL_FRAGMENT''),
      (TCP_SMALL_TTL, ''TCP_SMALL_TTL''), (TCP_NEEDS_FRAGMENTATION, ''TCP_NEEDS_FRAGMENTATION''),
      (TCP_FLAGS, ''TCP_FLAGS''), (TCP_SEQ_EXCEEDS_RIGHT_EDGE, ''TCP_SEQ_EXCEEDS_RIGHT_EDGE''),
      (TCP_SMALL_DATA_OFFS, ''TCP_SMALL_DATA_OFFS''), (TCP_BAD_SACK, ''TCP_BAD_SACK''),
      (TCP_BIG_DATA_OFFS, ''TCP_BIG_DATA_OFFS''), (TCP_SEQ_BEFORE_LEFT_EDGE, ''TCP_SEQ_BEFORE_LEFT_EDGE''),
      (TCP_ACK_EXCEEDS_RIGHT_EDGE, ''TCP_ACK_EXCEEDS_RIGHT_EDGE''),
      (TCP_ACK_BEFORE_LEFT_EDGE, ''TCP_ACK_BEFORE_LEFT_EDGE''),
      (ICMP_HEADER_INCOMPLETE, ''ICMP_HEADER_INCOMPLETE''), (ICMP_UNHANDLED_TYPE, ''ICMP_UNHANDLED_TYPE''),
      (ICMP_IPV4_HEADER_INCOMPLETE, ''ICMP_IPV4_HEADER_INCOMPLETE''), (ICMP_IPV4_NON_V4, ''ICMP_IPV4_NON_V4''),
      (ICMP_IPV4_IP_OPTIONS_INCOMPLETE, ''ICMP_IPV4_IP_OPTIONS_INCOMPLETE''),
      (ICMP_IPV4_UDP_HEADER_INCOMPLETE, ''ICMP_IPV4_UDP_HEADER_INCOMPLETE''),
      (ICMP_IPV4_TCP_HEADER_INCOMPLETE, ''ICMP_IPV4_TCP_HEADER_INCOMPLETE''),
      (ICMP_IPV4_UNHANDLED_PROTOCOL, ''ICMP_IPV4_UNHANDLED_PROTOCOL''),
      (ICMP_NO_CONNECTION, ''ICMP_NO_CONNECTION''), (ICMP_FLUSHED_CONNECTION, ''ICMP_FLUSHED_CONNECTION''),
      (HEADER_INCOMPLETE, ''HEADER_INCOMPLETE''), (BAD_TOTAL_LENGTH, ''BAD_TOTAL_LENGTH''), (NON_V4, ''NON_V4''),
      (NON_INITIAL_FRAGMENT, ''NON_INITIAL_FRAGMENT''), (DATAGRAM_INCOMPLETE, ''DATAGRAM_INCOMPLETE''),
      (IP_OPTIONS_INCOMPLETE, ''IP_OPTIONS_INCOMPLETE''), (UNHANDLED_PROTOCOL, ''UNHANDLED_PROTOCOL'')]"

definition SFE_IPV4_EXCEPTION_EVENT_LAST :: nat where "SFE_IPV4_EXCEPTION_EVENT_LAST = 36"
section \<open>One piece of output\<close>

text \<open>
  The variables of a read: \<open>dr_msg\<close> is the buffer on the stack, \<open>dr_user\<close> the memory from \<open>buffer\<close> on,
  \<open>dr_calls\<close> the number of calls of \<open>copy_to_user\<close> so far.
\<close>

record debug_read =
  dr_si :: sfe_ipv4
  dr_ws :: sfe_ipv4_debug_xml_write_state
  dr_msg :: "nat \<Rightarrow> char"
  dr_user :: "nat \<Rightarrow> char"
  dr_length :: u64
  dr_total :: nat
  dr_calls :: nat

text \<open>
  Formatting a message and copying the buffer out, as every writer does it. A copy that fails is shown
  as writing nothing.
\<close>

definition write_msg :: "debug_env \<Rightarrow> string \<Rightarrow> debug_read \<Rightarrow> bool \<times> debug_read" where
  "write_msg env s rd =
     (let rd = rd\<lparr>dr_msg := snprintf_msg s (dr_msg rd)\<rparr>;
          ok = de_copy_ok env (dr_calls rd);
          rd = rd\<lparr>dr_calls := dr_calls rd + 1\<rparr>
      in if \<not> ok then (False, rd)
         else (True, rd\<lparr>dr_user := copy_to_user (dr_total rd) (dr_msg rd) (dr_user rd),
                       dr_length := dr_length rd - of_nat (length s), dr_total := dr_total rd + length s\<rparr>))"

definition next_state :: "debug_read \<Rightarrow> debug_read" where
  "next_state rd = rd\<lparr>dr_ws := (dr_ws rd)\<lparr>ws_state := xml_next (ws_state (dr_ws rd))\<rparr>\<rparr>"

text \<open>A writer that prints one fixed line and moves on.\<close>

definition write_line :: "debug_env \<Rightarrow> string \<Rightarrow> debug_read \<Rightarrow> bool \<times> debug_read" where
  "write_line env s rd =
     (let (ok, rd) = write_msg env s rd
      in if \<not> ok then (False, rd) else (True, next_state rd))"

section \<open>The writers\<close>

definition sfe_ipv4_debug_dev_read_start :: "debug_env \<Rightarrow> debug_read \<Rightarrow> (bool \<times> debug_read) option" where
  "sfe_ipv4_debug_dev_read_start env rd =
     (let rd = rd\<lparr>dr_si := (dr_si rd)\<lparr>debug_read_seq := debug_read_seq (dr_si rd) + 1\<rparr>\<rparr>
      in Some (write_line env (''<sfe_ipv4>'' @ newline) rd))"

definition sfe_ipv4_debug_dev_read_connections_start :: "debug_env \<Rightarrow> debug_read \<Rightarrow> (bool \<times> debug_read) option" where
  "sfe_ipv4_debug_dev_read_connections_start env rd = Some (write_line env (tab @ ''<connections>'' @ newline) rd)"

text \<open>The line for a connection whose matches have had their counts summed up.\<close>

definition connection_line ::
  "debug_env \<Rightarrow> sfe_ipv4_connection \<Rightarrow> sfe_ipv4_connection_match \<Rightarrow> sfe_ipv4_connection_match \<Rightarrow> string" where
  "connection_line env c original_cm reply_cm =
     tab @ tab @ ''<connection ''
     @ attr ''protocol'' (print_u (c_protocol c))
     @ attr ''src_dev'' (de_name env (c_original_dev c))
     @ attr ''src_ip'' (print_ip4 (c_src_ip c)) @ attr ''src_ip_xlate'' (print_ip4 (c_src_ip_xlate c))
     @ attr ''src_port'' (print_u (ntohs (c_src_port c))) @ attr ''src_port_xlate'' (print_u (ntohs (c_src_port_xlate c)))
     @ attr ''src_priority'' (print_u (cm_priority original_cm))
     @ attr ''src_dscp'' (print_u (drop_bit SFE_IPV4_DSCP_SHIFT (cm_dscp original_cm)))
     @ attr ''src_rx_pkts'' (print_u (cm_rx_packet_count64 original_cm))
     @ attr ''src_rx_bytes'' (print_u (cm_rx_byte_count64 original_cm))
     @ attr ''dest_dev'' (de_name env (c_reply_dev c))
     @ attr ''dest_ip'' (print_ip4 (c_dest_ip c)) @ attr ''dest_ip_xlate'' (print_ip4 (c_dest_ip_xlate c))
     @ attr ''dest_port'' (print_u (ntohs (c_dest_port c))) @ attr ''dest_port_xlate'' (print_u (ntohs (c_dest_port_xlate c)))
     @ attr ''dest_priority'' (print_u (cm_priority reply_cm))
     @ attr ''dest_dscp'' (print_u (drop_bit SFE_IPV4_DSCP_SHIFT (cm_dscp reply_cm)))
     @ attr ''dest_rx_pkts'' (print_u (cm_rx_packet_count64 reply_cm))
     @ attr ''dest_rx_bytes'' (print_u (cm_rx_byte_count64 reply_cm))
     @ attr ''last_sync'' (print_u (de_jiffies env - c_last_sync_jiffies c))
     @ attr ''mark'' (print_08x (c_mark c)) @ ''/>'' @ newline"

definition sfe_ipv4_debug_dev_read_connections_connection ::
  "debug_env \<Rightarrow> debug_read \<Rightarrow> (bool \<times> debug_read) option" where
  "sfe_ipv4_debug_dev_read_connections_connection env rd =
     (let si = dr_si rd
      in do {
        r \<leftarrow> chain_find (\<lambda>p. c_all_connections_next (connections si p))
               (\<lambda>p. c_debug_read_seq (connections si p) < debug_read_seq si) (all_connections_head si);
        case r of
          None \<Rightarrow> Some (True, next_state rd)
        | Some c \<Rightarrow>
            let si = upd_c c (\<lambda>x. x\<lparr>c_debug_read_seq := debug_read_seq si\<rparr>) si;
                original_cm = c_original_match (connections si c);
                reply_cm = c_reply_match (connections si c);
                si = upd_cm original_cm sfe_ipv4_connection_match_update_summary_stats si;
                si = upd_cm reply_cm sfe_ipv4_connection_match_update_summary_stats si
            in Some (write_msg env (connection_line env (connections si c) (matches si original_cm) (matches si reply_cm))
                      (rd\<lparr>dr_si := si\<rparr>)) })"

definition sfe_ipv4_debug_dev_read_connections_end :: "debug_env \<Rightarrow> debug_read \<Rightarrow> (bool \<times> debug_read) option" where
  "sfe_ipv4_debug_dev_read_connections_end env rd = Some (write_line env (tab @ ''</connections>'' @ newline) rd)"

definition sfe_ipv4_debug_dev_read_exceptions_start :: "debug_env \<Rightarrow> debug_read \<Rightarrow> (bool \<times> debug_read) option" where
  "sfe_ipv4_debug_dev_read_exceptions_start env rd = Some (write_line env (tab @ ''<exceptions>'' @ newline) rd)"

definition sfe_ipv4_debug_dev_read_exceptions_exception :: "debug_env \<Rightarrow> debug_read \<Rightarrow> (bool \<times> debug_read) option" where
  "sfe_ipv4_debug_dev_read_exceptions_exception env rd =
     (let (e, name) = sfe_ipv4_exception_events_string ! ws_iter_exception (dr_ws rd);
          ct = exception_events64 (dr_si rd) e;
          (ok, rd) = (if ct \<noteq> 0 then write_msg env (exception_xml name ct) rd else (True, rd))
      in if \<not> ok then Some (False, rd)
         else let rd = rd\<lparr>dr_ws := (dr_ws rd)\<lparr>ws_iter_exception := ws_iter_exception (dr_ws rd) + 1\<rparr>\<rparr>
              in Some (True, if ws_iter_exception (dr_ws rd) \<ge> SFE_IPV4_EXCEPTION_EVENT_LAST
                             then next_state (rd\<lparr>dr_ws := (dr_ws rd)\<lparr>ws_iter_exception := 0\<rparr>\<rparr>) else rd))"

definition sfe_ipv4_debug_dev_read_exceptions_end :: "debug_env \<Rightarrow> debug_read \<Rightarrow> (bool \<times> debug_read) option" where
  "sfe_ipv4_debug_dev_read_exceptions_end env rd = Some (write_line env (tab @ ''</exceptions>'' @ newline) rd)"

definition stats_line :: "sfe_ipv4 \<Rightarrow> string" where
  "stats_line si =
     tab @ ''<stats ''
     @ attr ''num_connections'' (print_u (num_connections si))
     @ attr ''pkts_forwarded'' (print_u (packets_forwarded64 si))
     @ attr ''pkts_not_forwarded'' (print_u (packets_not_forwarded64 si))
     @ attr ''create_requests'' (print_u (connection_create_requests64 si))
     @ attr ''create_collisions'' (print_u (connection_create_collisions64 si))
     @ attr ''destroy_requests'' (print_u (connection_destroy_requests64 si))
     @ attr ''destroy_misses'' (print_u (connection_destroy_misses64 si))
     @ attr ''flushes'' (print_u (connection_flushes64 si))
     @ attr ''hash_hits'' (print_u (connection_match_hash_hits64 si))
     @ attr ''hash_reorders'' (print_u (connection_match_hash_reorders64 si)) @ ''/>'' @ newline"

definition sfe_ipv4_debug_dev_read_stats :: "debug_env \<Rightarrow> debug_read \<Rightarrow> (bool \<times> debug_read) option" where
  "sfe_ipv4_debug_dev_read_stats env rd =
     (let rd = rd\<lparr>dr_si := sfe_ipv4_update_summary_stats (dr_si rd)\<rparr>
      in Some (write_line env (stats_line (dr_si rd)) rd))"

definition sfe_ipv4_debug_dev_read_end :: "debug_env \<Rightarrow> debug_read \<Rightarrow> (bool \<times> debug_read) option" where
  "sfe_ipv4_debug_dev_read_end env rd = Some (write_line env (''</sfe_ipv4>'' @ newline) rd)"

section \<open>Reading, opening and closing\<close>

text \<open>The table of writers, indexed by state; the loop never indexes it with the last state.\<close>

fun sfe_ipv4_debug_xml_write_methods ::
  "sfe_ipv4_debug_xml_states \<Rightarrow> debug_env \<Rightarrow> debug_read \<Rightarrow> (bool \<times> debug_read) option" where
  "sfe_ipv4_debug_xml_write_methods XML_START = sfe_ipv4_debug_dev_read_start"
| "sfe_ipv4_debug_xml_write_methods XML_CONNECTIONS_START = sfe_ipv4_debug_dev_read_connections_start"
| "sfe_ipv4_debug_xml_write_methods XML_CONNECTIONS_CONNECTION = sfe_ipv4_debug_dev_read_connections_connection"
| "sfe_ipv4_debug_xml_write_methods XML_CONNECTIONS_END = sfe_ipv4_debug_dev_read_connections_end"
| "sfe_ipv4_debug_xml_write_methods XML_EXCEPTIONS_START = sfe_ipv4_debug_dev_read_exceptions_start"
| "sfe_ipv4_debug_xml_write_methods XML_EXCEPTIONS_EXCEPTION = sfe_ipv4_debug_dev_read_exceptions_exception"
| "sfe_ipv4_debug_xml_write_methods XML_EXCEPTIONS_END = sfe_ipv4_debug_dev_read_exceptions_end"
| "sfe_ipv4_debug_xml_write_methods XML_STATS = sfe_ipv4_debug_dev_read_stats"
| "sfe_ipv4_debug_xml_write_methods XML_END = sfe_ipv4_debug_dev_read_end"
| "sfe_ipv4_debug_xml_write_methods XML_DONE = (\<lambda>env rd. None)"

text \<open>A writer that fails is called again: the loop has no other way out.\<close>

partial_function (option) debug_read_loop :: "debug_env \<Rightarrow> debug_read \<Rightarrow> debug_read option" where
  "debug_read_loop env rd =
     (if ws_state (dr_ws rd) \<noteq> XML_DONE \<and> dr_length rd > of_nat CHAR_DEV_MSG_SIZE
      then do {
        (ok, rd) \<leftarrow> sfe_ipv4_debug_xml_write_methods (ws_state (dr_ws rd)) env rd;
        debug_read_loop env rd }
      else Some rd)"

text \<open>\<open>msg\<close> is what the stack holds where the message buffer is placed.\<close>

definition sfe_ipv4_debug_dev_read ::
  "debug_env \<Rightarrow> sfe_ipv4 \<Rightarrow> sfe_ipv4_debug_xml_write_state \<Rightarrow> (nat \<Rightarrow> char) \<Rightarrow> (nat \<Rightarrow> char) \<Rightarrow> u64 \<Rightarrow>
   (nat \<times> debug_read) option" where
  "sfe_ipv4_debug_dev_read env si ws msg user len = do {
     rd \<leftarrow> debug_read_loop env \<lparr>dr_si = si, dr_ws = ws, dr_msg = msg, dr_user = user, dr_length = len,
             dr_total = 0, dr_calls = 0\<rparr>;
     Some (dr_total rd, rd) }"

text \<open>\<open>private\<close> is \<open>file->private_data\<close>, \<open>mem\<close> whether \<open>kzalloc\<close> finds memory.\<close>

definition sfe_ipv4_debug_dev_open ::
  "bool \<Rightarrow> sfe_ipv4_debug_xml_write_state option \<Rightarrow> int \<times> sfe_ipv4_debug_xml_write_state option" where
  "sfe_ipv4_debug_dev_open mem private =
     (case private of
        Some ws \<Rightarrow> (0, Some ws)
      | None \<Rightarrow> if \<not> mem then (- ENOMEM, None) else (0, Some \<lparr>ws_state = XML_START, ws_iter_exception = 0\<rparr>))"

text \<open>The result and whether the write state is freed.\<close>

definition sfe_ipv4_debug_dev_release :: "sfe_ipv4_debug_xml_write_state option \<Rightarrow> int \<times> bool" where
  "sfe_ipv4_debug_dev_release private = (0, private \<noteq> None)"

text \<open>The number of the character device, for user space to create its node.\<close>

definition sfe_ipv4_get_debug_dev :: "sfe_ipv4 \<Rightarrow> string" where
  "sfe_ipv4_get_debug_dev si = print_d (debug_dev si) @ newline"

end
