(* ===== verification/SFE_IPv4_Debug_Props.thy ===== *)
theory SFE_IPv4_Debug_Props
  imports SFE_IPv4_System SFE_IPv4_Debug
begin

text \<open>
  What the debug device shows: the pieces of output still to come are a function of the engine and the
  state of the file, each writer takes the next one off, and a read returns as many as fit.
\<close>

section \<open>The pieces to come\<close>

abbreviation summed :: "sfe_ipv4_connection_match \<Rightarrow> sfe_ipv4_connection_match" where
  "summed \<equiv> sfe_ipv4_connection_match_update_summary_stats"

lemma summed_summed [simp]: "summed (summed m) = summed m"
  by (simp add: sfe_ipv4_connection_match_update_summary_stats_def)

definition conn_xml :: "debug_env \<Rightarrow> sfe_ipv4 \<Rightarrow> ptr \<Rightarrow> string" where
  "conn_xml env si c = (let x = connections si c
     in connection_line env x (summed (matches si (c_original_match x))) (summed (matches si (c_reply_match x))))"

definition unread :: "sfe_ipv4 \<Rightarrow> ptr list \<Rightarrow> ptr list" where
  "unread si cs = filter (\<lambda>c. c_debug_read_seq (connections si c) < debug_read_seq si) cs"

definition exception_pieces :: "sfe_ipv4 \<Rightarrow> nat \<Rightarrow> string list" where
  "exception_pieces si i = map (\<lambda>(e, name). exception_xml name (exception_events64 si e))
     (filter (\<lambda>(e, _). exception_events64 si e \<noteq> 0) (drop i sfe_ipv4_exception_events_string))"

definition rest_end :: "string list" where "rest_end = [''</sfe_ipv4>'' @ newline]"
definition rest_stats :: "sfe_ipv4 \<Rightarrow> string list" where
  "rest_stats si = stats_line (sfe_ipv4_update_summary_stats si) # rest_end"
definition rest_exceptions :: "sfe_ipv4 \<Rightarrow> nat \<Rightarrow> string list" where
  "rest_exceptions si i = exception_pieces si i @ (tab @ ''</exceptions>'' @ newline) # rest_stats si"
definition rest_connections_end :: "sfe_ipv4 \<Rightarrow> string list" where
  "rest_connections_end si = [tab @ ''</connections>'' @ newline, tab @ ''<exceptions>'' @ newline] @ rest_exceptions si 0"
definition rest_connections :: "debug_env \<Rightarrow> ptr list \<Rightarrow> sfe_ipv4 \<Rightarrow> string list" where
  "rest_connections env cs si = map (conn_xml env si) (unread si cs) @ rest_connections_end si"

text \<open>\<open>cs\<close> is the list of all connections.\<close>

fun pending :: "debug_env \<Rightarrow> ptr list \<Rightarrow> sfe_ipv4 \<Rightarrow> sfe_ipv4_debug_xml_write_state \<Rightarrow> string list" where
  "pending env cs si ws = (case ws_state ws of
     XML_START \<Rightarrow> (''<sfe_ipv4>'' @ newline) # (tab @ ''<connections>'' @ newline)
        # rest_connections env cs (si\<lparr>debug_read_seq := debug_read_seq si + 1\<rparr>)
   | XML_CONNECTIONS_START \<Rightarrow> (tab @ ''<connections>'' @ newline) # rest_connections env cs si
   | XML_CONNECTIONS_CONNECTION \<Rightarrow> rest_connections env cs si
   | XML_CONNECTIONS_END \<Rightarrow> rest_connections_end si
   | XML_EXCEPTIONS_START \<Rightarrow> tl (rest_connections_end si)
   | XML_EXCEPTIONS_EXCEPTION \<Rightarrow> rest_exceptions si (ws_iter_exception ws)
   | XML_EXCEPTIONS_END \<Rightarrow> (tab @ ''</exceptions>'' @ newline) # rest_stats si
   | XML_STATS \<Rightarrow> rest_stats si
   | XML_END \<Rightarrow> rest_end
   | XML_DONE \<Rightarrow> [])"

declare pending.simps [simp del]

section \<open>One writer\<close>

text \<open>The effect of printing \<open>s\<close> on the memory and the counters of a read.\<close>

definition printed :: "string \<Rightarrow> debug_read \<Rightarrow> debug_read \<Rightarrow> bool" where
  "printed s rd rd' \<longleftrightarrow> dr_length rd' = dr_length rd - of_nat (length s) \<and> dr_total rd' = dr_total rd + length s
     \<and> (\<forall>i < length s. i < CHAR_DEV_MSG_SIZE - 1 \<longrightarrow> dr_user rd' (dr_total rd + i) = s ! i)
     \<and> (\<forall>i. i < dr_total rd \<or> dr_total rd + CHAR_DEV_MSG_SIZE \<le> i \<longrightarrow> dr_user rd' i = dr_user rd i)"

lemma write_msg_ok:
  assumes "\<And>n. de_copy_ok env n"
  shows "\<exists>rd'. write_msg env s rd = (True, rd') \<and> printed s rd rd' \<and> dr_si rd' = dr_si rd \<and> dr_ws rd' = dr_ws rd"
proof -
  obtain rd' where w: "write_msg env s rd = (True, rd')"
    and f: "dr_si rd' = dr_si rd" "dr_ws rd' = dr_ws rd" "dr_length rd' = dr_length rd - of_nat (length s)"
      "dr_total rd' = dr_total rd + length s"
      "dr_user rd' = copy_to_user (dr_total rd) (snprintf_msg s (dr_msg rd)) (dr_user rd)"
    using assms by (simp add: write_msg_def Let_def)
  have "printed s rd rd'"
    unfolding printed_def f by (auto simp: copy_to_user_def snprintf_msg_def Let_def CHAR_DEV_MSG_SIZE_def)
  with w f show ?thesis by blast
qed

text \<open>A piece printed, or none.\<close>

definition printed_all :: "string list \<Rightarrow> debug_read \<Rightarrow> debug_read \<Rightarrow> bool" where
  "printed_all ss rd rd' \<longleftrightarrow> (case ss of [] \<Rightarrow> dr_length rd' = dr_length rd \<and> dr_total rd' = dr_total rd \<and> dr_user rd' = dr_user rd
     | [s] \<Rightarrow> printed s rd rd' | _ \<Rightarrow> False)"

fun state_rank :: "sfe_ipv4_debug_xml_states \<Rightarrow> nat" where
  "state_rank XML_START = 9" | "state_rank XML_CONNECTIONS_START = 8" | "state_rank XML_CONNECTIONS_CONNECTION = 7"
| "state_rank XML_CONNECTIONS_END = 6" | "state_rank XML_EXCEPTIONS_START = 5" | "state_rank XML_EXCEPTIONS_EXCEPTION = 4"
| "state_rank XML_EXCEPTIONS_END = 3" | "state_rank XML_STATS = 2" | "state_rank XML_END = 1" | "state_rank XML_DONE = 0"

definition read_order :: "ptr list \<Rightarrow> (debug_read \<times> debug_read) set" where
  "read_order cs = measures [\<lambda>rd. state_rank (ws_state (dr_ws rd)), \<lambda>rd. length (unread (dr_si rd) cs),
     \<lambda>rd. SFE_IPV4_EXCEPTION_EVENT_LAST - ws_iter_exception (dr_ws rd)]"

definition ws_ok :: "sfe_ipv4_debug_xml_write_state \<Rightarrow> bool" where
  "ws_ok ws \<longleftrightarrow> (if ws_state ws = XML_EXCEPTIONS_EXCEPTION then ws_iter_exception ws < SFE_IPV4_EXCEPTION_EVENT_LAST
     else ws_iter_exception ws = 0)"

lemma wf_read_order: "wf (read_order cs)"
  by (simp add: read_order_def)

text \<open>The engine during a read: nothing but statistics and read marks changes.\<close>

definition only_stats :: "sfe_ipv4 \<Rightarrow> sfe_ipv4 \<Rightarrow> bool" where
  "only_stats si si' \<longleftrightarrow> same_shape si si' \<and> same_rules si si' \<and> same_adj si si'"

lemma only_stats_refl [simp]: "only_stats si si"
  by (simp add: only_stats_def)

lemma only_stats_trans: "only_stats a b \<Longrightarrow> only_stats b c \<Longrightarrow> only_stats a c"
  unfolding only_stats_def using same_shape_trans same_adj_trans by (auto simp: same_rules_def)

text \<open>What a writer does when its copy succeeds: it takes at most one piece off and comes closer to the end.\<close>

definition good_write :: "debug_env \<Rightarrow> ptr list \<Rightarrow> debug_read \<Rightarrow> bool" where
  "good_write env cs rd \<longleftrightarrow> (\<exists>rd' ss. sfe_ipv4_debug_xml_write_methods (ws_state (dr_ws rd)) env rd = Some (True, rd')
     \<and> pending env cs (dr_si rd) (dr_ws rd) = ss @ pending env cs (dr_si rd') (dr_ws rd') \<and> printed_all ss rd rd'
     \<and> only_stats (dr_si rd) (dr_si rd') \<and> ws_ok (dr_ws rd') \<and> (rd', rd) \<in> read_order cs)"

lemma write_line_good:
  assumes "\<And>n. de_copy_ok env n" and "sfe_ipv4_debug_xml_write_methods (ws_state (dr_ws rd)) env rd = Some (write_line env s (rd\<lparr>dr_si := si\<rparr>))"
    and "pending env cs (dr_si rd) (dr_ws rd) = s # pending env cs si ((dr_ws rd)\<lparr>ws_state := xml_next (ws_state (dr_ws rd))\<rparr>)"
    and "only_stats (dr_si rd) si" and "ws_ok (dr_ws rd)" and "ws_state (dr_ws rd) \<notin> {XML_EXCEPTIONS_EXCEPTION, XML_DONE}"
  shows "good_write env cs rd"
proof -
  let ?rd = "rd\<lparr>dr_si := si\<rparr>"
  obtain rd1 where w: "write_msg env s ?rd = (True, rd1)" and p: "printed s ?rd rd1" and f: "dr_si rd1 = si" "dr_ws rd1 = dr_ws rd"
    using write_msg_ok [OF assms(1), of s ?rd] by auto
  have "(next_state rd1, rd) \<in> read_order cs" "ws_ok (dr_ws (next_state rd1))"
    using assms(5,6) f by (cases "ws_state (dr_ws rd)"; simp add: read_order_def next_state_def ws_ok_def SFE_IPV4_EXCEPTION_EVENT_LAST_def)+
  moreover have "printed_all [s] rd (next_state rd1)"
    using p by (simp add: printed_all_def printed_def next_state_def)
  ultimately show ?thesis
    unfolding good_write_def
    using w assms(2,3,4) f by (intro exI [of _ "next_state rd1"] exI [of _ "[s]"]) (simp add: write_line_def next_state_def)
qed

subsection \<open>Connections\<close>

text \<open>The engine after one connection was read.\<close>

definition read_conn :: "ptr \<Rightarrow> sfe_ipv4 \<Rightarrow> sfe_ipv4" where
  "read_conn c si = upd_cm (c_reply_match (connections si c)) summed (upd_cm (c_original_match (connections si c)) summed
     (upd_c c (\<lambda>x. x\<lparr>c_debug_read_seq := debug_read_seq si\<rparr>) si))"

lemma read_conn_fields:
  "connections (read_conn c si) = (connections si)(c := (connections si c)\<lparr>c_debug_read_seq := debug_read_seq si\<rparr>)"
  "matches (read_conn c si) p \<in> {matches si p, summed (matches si p)}"
  "debug_read_seq (read_conn c si) = debug_read_seq si" "exception_events64 (read_conn c si) = exception_events64 si"
  by (simp_all add: read_conn_def upd_cm_def upd_c_def)

lemma summed_read_conn: "summed (matches (read_conn c si) p) = summed (matches si p)"
  using read_conn_fields(2) [of c si p] by auto

lemma conn_xml_read_conn: "conn_xml env (read_conn c si) p = conn_xml env si p"
  by (simp add: conn_xml_def Let_def read_conn_fields(1) summed_read_conn connection_line_def)

lemma stats_read_conn: "rest_stats (read_conn c si) = rest_stats si"
  by (simp add: rest_stats_def stats_line_def sfe_ipv4_update_summary_stats_def read_conn_def upd_cm_def upd_c_def)

lemma rest_end_read_conn: "rest_connections_end (read_conn c si) = rest_connections_end si"
  by (simp add: rest_connections_end_def rest_exceptions_def exception_pieces_def stats_read_conn read_conn_fields(4))

lemma unread_read_conn:
  assumes "find (\<lambda>p. c_debug_read_seq (connections si p) < debug_read_seq si) cs = Some c" and "distinct cs"
  shows "unread si cs = c # unread (read_conn c si) cs"
  unfolding unread_def find_filter [OF assms] read_conn_fields
  by (auto intro!: filter_cong)

lemma only_stats_read_conn: "only_stats si (read_conn c si)"
proof -
  have "same_shape si (read_conn c si)" by (simp add: read_conn_def)
  moreover have "same_rules si (read_conn c si)"
    by (simp add: same_rules_def read_conn_fields(1) c_key_def c_rule_def)
  moreover have "same_adj si (read_conn c si)"
  proof -
    have "adj_ok (matches (read_conn c si) p)" if "adj_ok (matches si p)" for p
      using read_conn_fields(2) [of c si p] that keeps_adj_simps(4) by (auto simp: keeps_adj_def)
    moreover have "live_matches (read_conn c si) = live_matches si" by (simp add: read_conn_def upd_cm_def upd_c_def)
    ultimately show ?thesis by (simp add: same_adj_def)
  qed
  ultimately show ?thesis by (simp add: only_stats_def)
qed

lemma connection_good:
  assumes i: "sfe_inv (dr_si rd) g []" and ok: "\<And>n. de_copy_ok env n" and st: "ws_state (dr_ws rd) = XML_CONNECTIONS_CONNECTION"
    and w: "ws_ok (dr_ws rd)"
  shows "good_write env (ga g) rd"
proof -
  let ?si = "dr_si rd" and ?P = "\<lambda>p. c_debug_read_seq (connections (dr_si rd) p) < debug_read_seq (dr_si rd)"
  have d: "distinct (ga g)" using i by (simp add: sfe_inv_def mem_ok_def)
  note F = destroy_all_find [OF i, of ?P]
  note D = sfe_ipv4_debug_dev_read_connections_connection_def Let_def F
  show ?thesis
  proof (cases "find ?P (ga g)")
    case None
    then have "unread ?si (ga g) = []" by (simp add: unread_def find_None_filter)
    then have "pending env (ga g) ?si (dr_ws rd) = pending env (ga g) ?si (dr_ws (next_state rd))"
      by (simp add: pending.simps st rest_connections_def next_state_def)
    then show ?thesis
      unfolding good_write_def using w st None
      by (intro exI [of _ "next_state rd"] exI [of _ "[]"])
        (simp add: D printed_all_def next_state_def read_order_def ws_ok_def)
  next
    case (Some c)
    let ?s = "conn_xml env ?si c" and ?rd = "rd\<lparr>dr_si := read_conn c (dr_si rd)\<rparr>"
    obtain rd1 where m: "write_msg env ?s ?rd = (True, rd1)" and p: "printed ?s ?rd rd1"
      and f: "dr_si rd1 = read_conn c ?si" "dr_ws rd1 = dr_ws rd"
      using write_msg_ok [OF ok, of ?s ?rd] by auto
    have "conn_xml env ?si c = connection_line env (connections (read_conn c ?si) c)
        (matches (read_conn c ?si) (c_original_match (connections ?si c))) (matches (read_conn c ?si) (c_reply_match (connections ?si c)))"
      by (simp add: conn_xml_def Let_def read_conn_def upd_cm_def upd_c_def connection_line_def)
    then have "sfe_ipv4_debug_xml_write_methods (ws_state (dr_ws rd)) env rd = Some (True, rd1)"
      using m by (simp add: st D Some read_conn_def upd_c_def)
    moreover have "pending env (ga g) ?si (dr_ws rd) = [?s] @ pending env (ga g) (dr_si rd1) (dr_ws rd1)"
      by (simp add: f pending.simps st rest_connections_def unread_read_conn [OF Some d] conn_xml_read_conn rest_end_read_conn)
    moreover have "printed_all [?s] rd rd1" using p by (simp add: printed_all_def printed_def)
    moreover have "(rd1, rd) \<in> read_order (ga g)" using unread_read_conn [OF Some d] by (simp add: read_order_def f)
    ultimately show ?thesis
      unfolding good_write_def using w only_stats_read_conn f by (intro exI [of _ rd1] exI [of _ "[?s]"]) simp
  qed
qed

subsection \<open>Exceptions\<close>

lemma exception_pieces_step:
  assumes "i < SFE_IPV4_EXCEPTION_EVENT_LAST" and "sfe_ipv4_exception_events_string ! i = (e, name)"
  shows "exception_pieces si i = (if exception_events64 si e \<noteq> 0 then [exception_xml name (exception_events64 si e)] else [])
    @ exception_pieces si (Suc i)"
proof -
  have "i < length sfe_ipv4_exception_events_string"
    using assms(1) by (simp add: SFE_IPV4_EXCEPTION_EVENT_LAST_def sfe_ipv4_exception_events_string_def)
  from Cons_nth_drop_Suc [OF this] assms(2)
  have "drop i sfe_ipv4_exception_events_string = (e, name) # drop (Suc i) sfe_ipv4_exception_events_string" by simp
  then show ?thesis by (simp add: exception_pieces_def)
qed

lemma exception_pieces_last: "SFE_IPV4_EXCEPTION_EVENT_LAST \<le> i \<Longrightarrow> exception_pieces si i = []"
  by (simp add: exception_pieces_def SFE_IPV4_EXCEPTION_EVENT_LAST_def sfe_ipv4_exception_events_string_def)

text \<open>The iterator moves on, and with it the state after the last exception.\<close>

definition next_exception :: "debug_read \<Rightarrow> debug_read" where
  "next_exception rd = (let rd = rd\<lparr>dr_ws := (dr_ws rd)\<lparr>ws_iter_exception := ws_iter_exception (dr_ws rd) + 1\<rparr>\<rparr>
     in if ws_iter_exception (dr_ws rd) \<ge> SFE_IPV4_EXCEPTION_EVENT_LAST
        then next_state (rd\<lparr>dr_ws := (dr_ws rd)\<lparr>ws_iter_exception := 0\<rparr>\<rparr>) else rd)"

lemma next_exception_facts:
  assumes "ws_state (dr_ws rd) = XML_EXCEPTIONS_EXCEPTION" and "ws_iter_exception (dr_ws rd) < SFE_IPV4_EXCEPTION_EVENT_LAST"
  shows "pending env cs (dr_si rd) (dr_ws (next_exception rd)) = rest_exceptions (dr_si rd) (Suc (ws_iter_exception (dr_ws rd)))"
    "ws_ok (dr_ws (next_exception rd))" "(next_exception rd, rd) \<in> read_order cs"
    "dr_si (next_exception rd) = dr_si rd" "dr_length (next_exception rd) = dr_length rd"
    "dr_total (next_exception rd) = dr_total rd" "dr_user (next_exception rd) = dr_user rd"
  using assms
  by (auto simp: next_exception_def Let_def next_state_def pending.simps rest_exceptions_def ws_ok_def read_order_def
      exception_pieces_last)

lemma exception_good:
  assumes ok: "\<And>n. de_copy_ok env n" and st: "ws_state (dr_ws rd) = XML_EXCEPTIONS_EXCEPTION" and w: "ws_ok (dr_ws rd)"
  shows "good_write env cs rd"
proof -
  let ?si = "dr_si rd" and ?i = "ws_iter_exception (dr_ws rd)"
  have i: "?i < SFE_IPV4_EXCEPTION_EVENT_LAST" using w st by (simp add: ws_ok_def)
  obtain e name where n: "sfe_ipv4_exception_events_string ! ?i = (e, name)" by (cases "sfe_ipv4_exception_events_string ! ?i")
  note D = sfe_ipv4_debug_dev_read_exceptions_exception_def Let_def n
  show ?thesis
  proof (cases "exception_events64 ?si e = 0")
    case True
    then show ?thesis
      unfolding good_write_def using next_exception_facts [OF st i]
      by (intro exI [of _ "next_exception rd"] exI [of _ "[]"])
        (simp add: st D printed_all_def pending.simps [of env cs "dr_si rd" "dr_ws rd"] rest_exceptions_def
          exception_pieces_step [OF i n] next_exception_def)
  next
    case False
    let ?s = "exception_xml name (exception_events64 ?si e)"
    obtain rd1 where m: "write_msg env ?s rd = (True, rd1)" and p: "printed ?s rd rd1" and f: "dr_si rd1 = ?si" "dr_ws rd1 = dr_ws rd"
      using write_msg_ok [OF ok, of ?s rd] by auto
    have st1: "ws_state (dr_ws rd1) = XML_EXCEPTIONS_EXCEPTION" "ws_iter_exception (dr_ws rd1) < SFE_IPV4_EXCEPTION_EVENT_LAST"
      using st i f by simp_all
    note N = next_exception_facts [OF st1, unfolded f]
    have "(next_exception rd1, rd) \<in> read_order cs"
      using N(3) [of cs] f by (simp add: read_order_def)
    moreover have "printed_all [?s] rd (next_exception rd1)" using p N by (simp add: printed_all_def printed_def)
    ultimately show ?thesis
      unfolding good_write_def using False N(1,2,4) m
      by (intro exI [of _ "next_exception rd1"] exI [of _ "[?s]"])
        (simp add: st D pending.simps [of env cs "dr_si rd" "dr_ws rd"] rest_exceptions_def exception_pieces_step [OF i n] next_exception_def)
  qed
qed

subsection \<open>All writers\<close>

lemma only_stats_si:
  "only_stats si (si\<lparr>debug_read_seq := n\<rparr>)" "only_stats si (sfe_ipv4_update_summary_stats si)"
proof -
  have "same_shape si (si\<lparr>debug_read_seq := n\<rparr>)" by (simp add: same_shape_def ft_def)
  then show "only_stats si (si\<lparr>debug_read_seq := n\<rparr>)"
    by (simp add: only_stats_def same_rules_def same_adj_frame)
  have "connections (sfe_ipv4_update_summary_stats si) = connections si" "matches (sfe_ipv4_update_summary_stats si) = matches si"
    "live_matches (sfe_ipv4_update_summary_stats si) = live_matches si"
    by (simp_all add: sfe_ipv4_update_summary_stats_def)
  then show "only_stats si (sfe_ipv4_update_summary_stats si)"
    by (simp add: only_stats_def same_rules_def same_adj_frame)
qed

lemma writer_good:
  assumes i: "sfe_inv (dr_si rd) g []" and ok: "\<And>n. de_copy_ok env n" and w: "ws_ok (dr_ws rd)"
    and st: "ws_state (dr_ws rd) \<noteq> XML_DONE"
  shows "good_write env (ga g) rd"
proof (cases "ws_state (dr_ws rd)")
  case XML_START
  then show ?thesis
    by (intro write_line_good [OF ok _ _ only_stats_si(1) w])
      (simp_all add: sfe_ipv4_debug_dev_read_start_def pending.simps Let_def)
next
  case XML_CONNECTIONS_START
  then show ?thesis
    by (intro write_line_good [OF ok _ _ only_stats_refl w])
      (simp_all add: sfe_ipv4_debug_dev_read_connections_start_def pending.simps)
next
  case XML_CONNECTIONS_CONNECTION
  then show ?thesis by (rule connection_good [OF i ok _ w])
next
  case XML_CONNECTIONS_END
  then show ?thesis
    by (intro write_line_good [OF ok _ _ only_stats_refl w])
      (simp_all add: sfe_ipv4_debug_dev_read_connections_end_def pending.simps rest_connections_end_def)
next
  case XML_EXCEPTIONS_START
  then show ?thesis
    using w by (intro write_line_good [OF ok _ _ only_stats_refl w])
      (simp_all add: sfe_ipv4_debug_dev_read_exceptions_start_def pending.simps rest_connections_end_def ws_ok_def)
next
  case XML_EXCEPTIONS_EXCEPTION
  then show ?thesis by (rule exception_good [OF ok _ w])
next
  case XML_EXCEPTIONS_END
  then show ?thesis
    by (intro write_line_good [OF ok _ _ only_stats_refl w])
      (simp_all add: sfe_ipv4_debug_dev_read_exceptions_end_def pending.simps)
next
  case XML_STATS
  then show ?thesis
    by (intro write_line_good [OF ok _ _ only_stats_si(2) w])
      (simp_all add: sfe_ipv4_debug_dev_read_stats_def pending.simps rest_stats_def Let_def)
next
  case XML_END
  then show ?thesis
    by (intro write_line_good [OF ok _ _ only_stats_refl w])
      (simp_all add: sfe_ipv4_debug_dev_read_end_def pending.simps rest_end_def)
qed (use st in simp)

section \<open>Every piece fits the buffer\<close>

lemma connection_line_short:
  assumes "\<And>d. length (de_name env d) \<le> 15"
  shows "length (connection_line env c m m') < CHAR_DEV_MSG_SIZE - 1"
proof -
  note L = assms [of "c_original_dev c"] assms [of "c_reply_dev c"] print_u32_length [of "c_protocol c"]
    print_ip4_length [of "c_src_ip c"] print_ip4_length [of "c_src_ip_xlate c"] print_ip4_length [of "c_dest_ip c"]
    print_ip4_length [of "c_dest_ip_xlate c"] print_u16_length [of "ntohs (c_src_port c)"]
    print_u16_length [of "ntohs (c_src_port_xlate c)"] print_u16_length [of "ntohs (c_dest_port c)"]
    print_u16_length [of "ntohs (c_dest_port_xlate c)"] print_u32_length [of "cm_priority m"] print_u32_length [of "cm_priority m'"]
    print_u32_length [of "drop_bit SFE_IPV4_DSCP_SHIFT (cm_dscp m)"] print_u32_length [of "drop_bit SFE_IPV4_DSCP_SHIFT (cm_dscp m')"]
    print_u64_length [of "cm_rx_packet_count64 m"] print_u64_length [of "cm_rx_packet_count64 m'"]
    print_u64_length [of "cm_rx_byte_count64 m"] print_u64_length [of "cm_rx_byte_count64 m'"]
    print_u64_length [of "de_jiffies env - c_last_sync_jiffies c"]
  show ?thesis
    using L by (simp add: connection_line_def attr_length CHAR_DEV_MSG_SIZE_def)
qed

lemma stats_line_short: "length (stats_line si) < CHAR_DEV_MSG_SIZE - 1"
  using print_u32_length [of "num_connections si"] print_u64_length [of "packets_forwarded64 si"]
    print_u64_length [of "packets_not_forwarded64 si"] print_u64_length [of "connection_create_requests64 si"]
    print_u64_length [of "connection_create_collisions64 si"] print_u64_length [of "connection_destroy_requests64 si"]
    print_u64_length [of "connection_destroy_misses64 si"] print_u64_length [of "connection_flushes64 si"]
    print_u64_length [of "connection_match_hash_hits64 si"] print_u64_length [of "connection_match_hash_reorders64 si"]
  by (simp add: stats_line_def attr_length CHAR_DEV_MSG_SIZE_def)

lemma exception_names_short: "\<forall>(e, name) \<in> set sfe_ipv4_exception_events_string. length name \<le> 40"
  by (simp add: sfe_ipv4_exception_events_string_def)

lemma exception_pieces_short: "s \<in> set (exception_pieces si i) \<Longrightarrow> length s < CHAR_DEV_MSG_SIZE - 1"
proof -
  assume "s \<in> set (exception_pieces si i)"
  then obtain e name where n: "(e, name) \<in> set sfe_ipv4_exception_events_string"
    and s: "s = exception_xml name (exception_events64 si e)"
    by (auto simp: exception_pieces_def dest: in_set_dropD)
  from n exception_names_short have "length name \<le> 40" by auto
  then show ?thesis
    using print_u64_length [of "exception_events64 si e"] by (simp add: s exception_xml_def attr_length CHAR_DEV_MSG_SIZE_def)
qed

lemma pending_short:
  assumes "\<And>d. length (de_name env d) \<le> 15" and "s \<in> set (pending env cs si ws)"
  shows "length s < CHAR_DEV_MSG_SIZE - 1"
proof -
  have e: "s \<in> set rest_end \<Longrightarrow> length s < CHAR_DEV_MSG_SIZE - 1" by (simp add: rest_end_def CHAR_DEV_MSG_SIZE_def)
  have st: "s \<in> set (rest_stats si) \<Longrightarrow> length s < CHAR_DEV_MSG_SIZE - 1" for si
    using e stats_line_short by (auto simp: rest_stats_def)
  have x: "s \<in> set (rest_exceptions si i) \<Longrightarrow> length s < CHAR_DEV_MSG_SIZE - 1" for si i
    using st exception_pieces_short by (auto simp: rest_exceptions_def CHAR_DEV_MSG_SIZE_def)
  have ce: "s \<in> set (rest_connections_end si) \<Longrightarrow> length s < CHAR_DEV_MSG_SIZE - 1" for si
    using x by (auto simp: rest_connections_end_def CHAR_DEV_MSG_SIZE_def)
  have c: "s \<in> set (rest_connections env cs si) \<Longrightarrow> length s < CHAR_DEV_MSG_SIZE - 1" for si
    using ce connection_line_short [OF assms(1)] by (auto simp: rest_connections_def conn_xml_def Let_def)
  show ?thesis
    using assms(2) e st x ce c list.set_sel(2) [of "rest_connections_end si" s]
    by (cases "ws_state ws") (auto simp: pending.simps rest_connections_end_def CHAR_DEV_MSG_SIZE_def)
qed

section \<open>A whole read\<close>

definition read_done :: "debug_env \<Rightarrow> ptr list \<Rightarrow> debug_read \<Rightarrow> debug_read \<Rightarrow> bool" where
  "read_done env cs rd rd' \<longleftrightarrow> (\<exists>out. pending env cs (dr_si rd) (dr_ws rd) = out @ pending env cs (dr_si rd') (dr_ws rd')
     \<and> only_stats (dr_si rd) (dr_si rd') \<and> ws_ok (dr_ws rd')
     \<and> text_at (dr_user rd') (dr_total rd) (concat out) \<and> dr_total rd' = dr_total rd + length (concat out)
     \<and> unat (dr_length rd') + length (concat out) = unat (dr_length rd)
     \<and> (\<forall>i. i < dr_total rd \<or> dr_total rd + unat (dr_length rd) \<le> i \<longrightarrow> dr_user rd' i = dr_user rd i))"

lemma read_done_refl: "ws_ok (dr_ws rd) \<Longrightarrow> read_done env cs rd rd"
  by (simp add: read_done_def text_at_def)

text \<open>One writer with room for a whole buffer, then the rest.\<close>

lemma read_done_step:
  assumes p: "pending env cs (dr_si rd) (dr_ws rd) = ss @ pending env cs (dr_si rd1) (dr_ws rd1)" and w: "printed_all ss rd rd1"
    and s: "\<forall>s \<in> set ss. length s < CHAR_DEV_MSG_SIZE - 1" and l: "of_nat CHAR_DEV_MSG_SIZE < dr_length rd"
    and o: "only_stats (dr_si rd) (dr_si rd1)" and d: "read_done env cs rd1 rd'"
  shows "read_done env cs rd rd'"
proof -
  obtain out where D: "pending env cs (dr_si rd1) (dr_ws rd1) = out @ pending env cs (dr_si rd') (dr_ws rd')"
    "only_stats (dr_si rd1) (dr_si rd')" "ws_ok (dr_ws rd')" "text_at (dr_user rd') (dr_total rd1) (concat out)"
    "dr_total rd' = dr_total rd1 + length (concat out)" "unat (dr_length rd') + length (concat out) = unat (dr_length rd1)"
    "\<And>i. i < dr_total rd1 \<or> dr_total rd1 + unat (dr_length rd1) \<le> i \<Longrightarrow> dr_user rd' i = dr_user rd1 i"
    using d unfolding read_done_def by (elim exE conjE) (rule that, assumption+, blast)
  have len: "768 < unat (dr_length rd)" using l by (simp add: CHAR_DEV_MSG_SIZE_def word_less_nat_alt)
  have P: "dr_total rd1 = dr_total rd + length (concat ss) \<and> unat (dr_length rd1) + length (concat ss) = unat (dr_length rd)
    \<and> text_at (dr_user rd1) (dr_total rd) (concat ss)
    \<and> (\<forall>i. i < dr_total rd \<or> dr_total rd + unat (dr_length rd) \<le> i \<longrightarrow> dr_user rd1 i = dr_user rd i)"
  proof (cases ss)
    case Nil
    then show ?thesis using w by (simp add: printed_all_def text_at_def)
  next
    case (Cons x xs)
    then have x: "ss = [x]" using w by (cases xs) (simp_all add: printed_all_def)
    have lx: "length x < 767" using s by (simp add: x CHAR_DEV_MSG_SIZE_def)
    then have "of_nat (length x) \<le> dr_length rd" and "unat (of_nat (length x) :: u64) = length x"
      using len by (simp_all add: word_le_nat_alt unat_of_nat take_bit_eq_mod)
    then have "unat (dr_length rd - of_nat (length x)) + length x = unat (dr_length rd)"
      by (simp add: unat_sub word_le_nat_alt)
    then show ?thesis
      using w lx len by (simp add: x printed_all_def printed_def text_at_def CHAR_DEV_MSG_SIZE_def)
  qed
  have keep: "dr_user rd' i = dr_user rd1 i" if "i < dr_total rd + length (concat ss)" for i using D(7) P that by simp
  have "text_at (dr_user rd') (dr_total rd) (concat ss)"
    using P keep by (simp add: text_at_def)
  then show ?thesis
    unfolding read_done_def using p D P o
    by (intro exI [of _ "ss @ out"]) (auto simp: text_at_append keep intro: only_stats_trans)
qed

lemma debug_read_loop_done:
  assumes "\<And>n. de_copy_ok env n" and "\<And>d. length (de_name env d) \<le> 15" and "sfe_inv (dr_si rd) g []" and "ws_ok (dr_ws rd)"
  shows "\<exists>rd'. debug_read_loop env rd = Some rd' \<and> read_done env (ga g) rd rd'
    \<and> (ws_state (dr_ws rd') = XML_DONE \<or> dr_length rd' \<le> of_nat CHAR_DEV_MSG_SIZE)"
  using assms(3,4)
proof (induction rd rule: wf_induct_rule [OF wf_read_order [of "ga g"]])
  case 2: (1 rd)
  show ?case
  proof (cases "ws_state (dr_ws rd) \<noteq> XML_DONE \<and> dr_length rd > of_nat CHAR_DEV_MSG_SIZE")
    case False
    then show ?thesis
      using 2 read_done_refl by (intro exI [of _ rd]) (auto simp: debug_read_loop.simps not_less)
  next
    case True
    then have "good_write env (ga g) rd" using writer_good [OF 2(2) assms(1) 2(3)] by blast
    then obtain rd1 ss where W: "sfe_ipv4_debug_xml_write_methods (ws_state (dr_ws rd)) env rd = Some (True, rd1)"
      "pending env (ga g) (dr_si rd) (dr_ws rd) = ss @ pending env (ga g) (dr_si rd1) (dr_ws rd1)" "printed_all ss rd rd1"
      "only_stats (dr_si rd) (dr_si rd1)" "ws_ok (dr_ws rd1)" "(rd1, rd) \<in> read_order (ga g)"
      unfolding good_write_def by (elim exE conjE) (rule that)
    have i1: "sfe_inv (dr_si rd1) g []" using W(4) sfe_inv_same_shape [OF _ 2(2)] by (simp add: only_stats_def)
    obtain rd' where R: "debug_read_loop env rd1 = Some rd'" "read_done env (ga g) rd1 rd'"
      "ws_state (dr_ws rd') = XML_DONE \<or> dr_length rd' \<le> of_nat CHAR_DEV_MSG_SIZE"
      using 2(1) [OF W(6) i1 W(5)] by (elim exE conjE) (rule that)
    have "\<forall>s \<in> set ss. length s < CHAR_DEV_MSG_SIZE - 1"
      using pending_short [OF assms(2)] W(2) by (metis UnCI set_append)
    then have "read_done env (ga g) rd rd'"
      using read_done_step [OF W(2,3) _ _ W(4) R(2)] True by simp
    moreover have "debug_read_loop env rd = debug_read_loop env rd1"
      using True W(1) by (subst debug_read_loop.simps) simp
    ultimately show ?thesis using R by simp
  qed
qed

lemma only_stats_good:
  assumes "only_stats si si'" and "sfe_inv si g []" and "adj_inv si" shows "sfe_good si'"
proof -
  have "sfe_inv si' g []" "adj_inv si'"
    using sfe_inv_same_shape [OF _ assms(2)] adj_inv_same [OF _ assms(3)] assms(1) by (simp_all add: only_stats_def)
  then show ?thesis unfolding sfe_good_def sfe_wf_def by blast
qed

lemma debug_read_spec:
  assumes "sfe_inv si g []" and "adj_inv si" and "ws_ok ws" and "\<And>n. de_copy_ok env n" and "\<And>d. length (de_name env d) \<le> 15"
  shows "\<exists>n rd out. sfe_ipv4_debug_dev_read env si ws msg user len = Some (n, rd) \<and> sfe_good (dr_si rd)
    \<and> sfe_rules (dr_si rd) = sfe_rules si \<and> ws_ok (dr_ws rd)
    \<and> pending env (ga g) si ws = out @ pending env (ga g) (dr_si rd) (dr_ws rd)
    \<and> n = length (concat out) \<and> text_at (dr_user rd) 0 (concat out)
    \<and> n \<le> unat len \<and> (\<forall>i \<ge> unat len. dr_user rd i = user i)
    \<and> (ws_state (dr_ws rd) = XML_DONE \<or> unat len \<le> n + CHAR_DEV_MSG_SIZE)"
proof -
  let ?rd = "\<lparr>dr_si = si, dr_ws = ws, dr_msg = msg, dr_user = user, dr_length = len, dr_total = 0, dr_calls = 0\<rparr>"
  have "sfe_inv (dr_si ?rd) g []" "ws_ok (dr_ws ?rd)" using assms by simp_all
  from debug_read_loop_done [OF assms(4,5) this] obtain rd where R: "debug_read_loop env ?rd = Some rd" "read_done env (ga g) ?rd rd"
    "ws_state (dr_ws rd) = XML_DONE \<or> dr_length rd \<le> of_nat CHAR_DEV_MSG_SIZE"
    by (elim exE conjE) (rule that)
  obtain out where D: "pending env (ga g) si ws = out @ pending env (ga g) (dr_si rd) (dr_ws rd)" "only_stats si (dr_si rd)"
    "ws_ok (dr_ws rd)" "text_at (dr_user rd) 0 (concat out)" "dr_total rd = length (concat out)"
    "unat (dr_length rd) + length (concat out) = unat len" "\<forall>i. unat len \<le> i \<longrightarrow> dr_user rd i = user i"
    using R(2) unfolding read_done_def debug_read.simps by (elim exE conjE) (rule that, simp_all)
  have g: "sfe_good (dr_si rd)"
    by (rule only_stats_good [OF D(2) assms(1,2)])
  have r: "sfe_rules (dr_si rd) = sfe_rules si"
    by (rule rules_same_shape [OF assms(1)]) (use D(2) in \<open>simp_all add: only_stats_def\<close>)
  have l: "ws_state (dr_ws rd) = XML_DONE \<or> unat len \<le> length (concat out) + CHAR_DEV_MSG_SIZE"
    using R(3) D(6) by (auto simp: CHAR_DEV_MSG_SIZE_def word_le_nat_alt)
  have le: "length (concat out) \<le> unat len" using D(6) by linarith
  have "sfe_ipv4_debug_dev_read env si ws msg user len = Some (length (concat out), rd)"
    using R(1) D(5) by (simp add: sfe_ipv4_debug_dev_read_def)
  then show ?thesis
    using D(1,3,4,7) g r l le by (intro exI [of _ "length (concat out)"] exI [of _ rd] exI [of _ out] conjI) simp_all
qed

text \<open>The connections of the tables, in the order of the list of all connections.\<close>

definition connection_list :: "sfe_ipv4 \<Rightarrow> ptr list \<Rightarrow> bool" where
  "connection_list si cs \<longleftrightarrow> distinct cs \<and> (\<forall>key c. sfe_lookup si key = Some c \<longleftrightarrow> c \<in> set cs \<and> c_key (connections si c) = key)"

lemma inv_connection_list:
  assumes "sfe_inv si g []" shows "connection_list si (ga g)"
  unfolding connection_list_def lookup_iff [OF assms] using assms by (simp add: sfe_inv_def mem_ok_def)


definition fresh_ws :: sfe_ipv4_debug_xml_write_state where
  "fresh_ws = \<lparr>ws_state = XML_START, ws_iter_exception = 0\<rparr>"

lemma example_env_ok: "ws_ok fresh_ws" "de_copy_ok example_env n" "length (de_name example_env d) \<le> 15"
  by (simp_all add: ws_ok_def fresh_ws_def example_env_def)


definition document :: "debug_env \<Rightarrow> sfe_ipv4 \<Rightarrow> ptr list \<Rightarrow> string" where
  "document env si cs = concat ([''<sfe_ipv4>'' @ newline, tab @ ''<connections>'' @ newline]
     @ map (conn_xml env si) cs
     @ [tab @ ''</connections>'' @ newline, tab @ ''<exceptions>'' @ newline]
     @ exception_pieces si 0
     @ [tab @ ''</exceptions>'' @ newline, stats_line (sfe_ipv4_update_summary_stats si), ''</sfe_ipv4>'' @ newline])"

lemma pending_document:
  assumes "\<And>c. c \<in> set cs \<Longrightarrow> c_debug_read_seq (connections si c) \<le> debug_read_seq si" and "debug_read_seq si \<noteq> - 1"
  shows "concat (pending env cs si fresh_ws) = document env si cs"
proof -
  let ?si = "si\<lparr>debug_read_seq := debug_read_seq si + 1\<rparr>"
  have lt: "debug_read_seq si < debug_read_seq si + 1"
    using assms(2) inc_less_eq_triv_imp [of "debug_read_seq si"] by (metis not_le)
  have "unread ?si cs = cs"
    unfolding unread_def by (rule filter_True) (use order.strict_trans1 [OF assms(1) lt] in simp)
  moreover have "conn_xml env ?si c = conn_xml env si c" for c by (simp add: conn_xml_def)
  moreover have "rest_connections_end ?si = rest_connections_end si"
    by (simp add: rest_connections_end_def rest_exceptions_def exception_pieces_def rest_stats_def stats_line_def
        sfe_ipv4_update_summary_stats_def)
  ultimately show ?thesis
    by (simp add: pending.simps fresh_ws_def rest_connections_def document_def rest_connections_end_def rest_exceptions_def
        rest_stats_def rest_end_def cong: map_cong)
qed

text \<open>
  One read with room enough gives the whole document: the connections of the tables, each exactly
  once, then the exceptions that occurred and the statistics, in well-nested elements; the state
  machine is then at its end, and another read gives nothing.
\<close>

theorem debug_read_document:
  assumes "sfe_good si" and "\<And>n. de_copy_ok env n" and "\<And>d. length (de_name env d) \<le> 15"
    and "\<And>c. c \<in> live_connections si \<Longrightarrow> c_debug_read_seq (connections si c) \<le> debug_read_seq si" and "debug_read_seq si \<noteq> - 1"
    and "\<And>cs. connection_list si cs \<Longrightarrow> length (document env si cs) + CHAR_DEV_MSG_SIZE < unat len"
  shows "\<exists>rd cs. connection_list si cs
    \<and> sfe_ipv4_debug_dev_read env si fresh_ws msg user len = Some (length (document env si cs), rd)
    \<and> text_at (dr_user rd) 0 (document env si cs) \<and> ws_state (dr_ws rd) = XML_DONE
    \<and> map_option fst (sfe_ipv4_debug_dev_read env (dr_si rd) (dr_ws rd) msg user len) = Some 0"
proof -
  from assms(1) obtain g where i: "sfe_inv si g []" and a: "adj_inv si" by (rule good_invE)
  note cl = inv_connection_list [OF i]
  obtain n rd out where R: "sfe_ipv4_debug_dev_read env si fresh_ws msg user len = Some (n, rd)"
    "pending env (ga g) si fresh_ws = out @ pending env (ga g) (dr_si rd) (dr_ws rd)" "n = length (concat out)"
    "text_at (dr_user rd) 0 (concat out)" "ws_state (dr_ws rd) = XML_DONE \<or> unat len \<le> n + CHAR_DEV_MSG_SIZE"
    using debug_read_spec [OF i a example_env_ok(1) assms(2,3), of msg user len] by (elim exE conjE) (rule that)
  have "c \<in> live_connections si" if "c \<in> set (ga g)" for c using that i by (simp add: sfe_inv_def mem_ok_def)
  then have doc: "concat (pending env (ga g) si fresh_ws) = document env si (ga g)"
    using assms(4,5) by (intro pending_document) auto
  then have "n \<le> length (document env si (ga g))" using R(2,3) by (simp flip: doc)
  then have fin: "ws_state (dr_ws rd) = XML_DONE" using R(5) assms(6) [OF cl] by linarith
  then have "pending env (ga g) (dr_si rd) (dr_ws rd) = []" by (simp add: pending.simps)
  then have "concat out = document env si (ga g)" using R(2) doc by simp
  moreover have "map_option fst (sfe_ipv4_debug_dev_read env (dr_si rd) (dr_ws rd) msg user len) = Some 0"
    using fin by (simp add: sfe_ipv4_debug_dev_read_def debug_read_loop.simps)
  ultimately show ?thesis using R cl fin by (intro exI [of _ rd] exI [of _ "ga g"]) simp
qed

lemma example_connection_list: "connection_list example_si cs \<Longrightarrow> cs = [2]"
proof -
  assume c: "connection_list example_si cs"
  obtain g where i: "sfe_inv example_si g []" using example_good by (rule good_invE)
  have "live_connections example_si = {2}" by code_simp
  then have "set (ga g) = {2}" using i by (simp add: sfe_inv_def mem_ok_def)
  moreover have "set cs = set (ga g)"
    using c inv_connection_list [OF i] unfolding connection_list_def by blast
  ultimately show "cs = [2]" using c unfolding connection_list_def by (cases cs; cases "tl cs") auto
qed

text \<open>The number of pieces bounds the length of the document.\<close>

lemma document_length:
  assumes "\<And>d. length (de_name env d) \<le> 15"
    and "\<And>c. c \<in> set cs \<Longrightarrow> c_debug_read_seq (connections si c) \<le> debug_read_seq si" and "debug_read_seq si \<noteq> - 1"
  shows "length (document env si cs) \<le> 768 * (length cs + 43)"
proof -
  have bound: "length (concat ss) \<le> 768 * length ss" if "\<And>s. s \<in> set ss \<Longrightarrow> length s < 767" for ss :: "string list"
    using that by (induction ss) (force, fastforce intro: less_imp_le)
  have "length (exception_pieces si 0) \<le> 36"
    unfolding exception_pieces_def length_map
    by (rule order.trans [OF length_filter_le]) (simp add: sfe_ipv4_exception_events_string_def)
  then have "length (unread (si\<lparr>debug_read_seq := debug_read_seq si + 1\<rparr>) cs) + length (exception_pieces si 0) \<le> length cs + 36"
    unfolding unread_def by (rule add_mono [OF length_filter_le])
  moreover have "exception_pieces (si\<lparr>debug_read_seq := n\<rparr>) 0 = exception_pieces si 0" for n
    by (simp add: exception_pieces_def)
  ultimately have "length (pending env cs si fresh_ws) \<le> length cs + 43"
    by (simp add: pending.simps fresh_ws_def rest_connections_def rest_connections_end_def rest_exceptions_def rest_stats_def
        rest_end_def)
  moreover have "length (concat (pending env cs si fresh_ws)) \<le> 768 * length (pending env cs si fresh_ws)"
    using pending_short [OF assms(1)] by (intro bound) (simp add: CHAR_DEV_MSG_SIZE_def)
  moreover have "concat (pending env cs si fresh_ws) = document env si cs"
    by (rule pending_document) (use assms(2,3) in blast)+
  ultimately show ?thesis by simp
qed

lemma debug_read_document_witness:
  "\<exists>rd. sfe_ipv4_debug_dev_read example_env example_si fresh_ws (\<lambda>_. CHR ''x'') (\<lambda>_. CHR ''y'') 100000
     = Some (length (document example_env example_si [2]), rd) \<and> text_at (dr_user rd) 0 (document example_env example_si [2])"
proof -
  have 1: "c_debug_read_seq (connections example_si c) \<le> debug_read_seq example_si" if "c \<in> live_connections example_si" for c
  proof -
    have "live_connections example_si = {2} \<and> c_debug_read_seq (connections example_si 2) \<le> debug_read_seq example_si" by code_simp
    with that show ?thesis by simp
  qed
  have 2: "debug_read_seq example_si \<noteq> - 1" by code_simp
  have live: "(2 :: ptr) \<in> live_connections example_si" by code_simp
  have 3: "length (document example_env example_si cs) + CHAR_DEV_MSG_SIZE < unat (100000 :: u64)"
    if "connection_list example_si cs" for cs
  proof -
    have "length (document example_env example_si cs) \<le> 768 * (length cs + 43)"
      using 1 live example_connection_list [OF that] by (intro document_length example_env_ok 2) simp
    then show ?thesis using example_connection_list [OF that] by (simp add: CHAR_DEV_MSG_SIZE_def)
  qed
  have "\<exists>rd cs. connection_list example_si cs
    \<and> sfe_ipv4_debug_dev_read example_env example_si fresh_ws (\<lambda>_. CHR ''x'') (\<lambda>_. CHR ''y'') 100000
        = Some (length (document example_env example_si cs), rd)
    \<and> text_at (dr_user rd) 0 (document example_env example_si cs) \<and> ws_state (dr_ws rd) = XML_DONE
    \<and> map_option fst (sfe_ipv4_debug_dev_read example_env (dr_si rd) (dr_ws rd) (\<lambda>_. CHR ''x'') (\<lambda>_. CHR ''y'') 100000) = Some 0"
    by (rule debug_read_document [OF example_good example_env_ok(2,3)]) (use 1 2 3 in blast)+
  with example_connection_list show ?thesis by blast
qed

section \<open>A copy that keeps failing\<close>

text \<open>
  When the caller's memory cannot be written, a read of the debug device never returns: the loop
  calls the failed writer again, for ever.
\<close>

theorem debug_read_stuck:
  assumes "\<And>n. \<not> de_copy_ok env n" and "ws_state ws = XML_START" and "len > of_nat CHAR_DEV_MSG_SIZE"
  shows "sfe_ipv4_debug_dev_read env si ws msg user len = None"
proof -
  have stuck: "\<not> (ws_state (dr_ws rd) = XML_START \<and> dr_length rd > of_nat CHAR_DEV_MSG_SIZE)"
    if "debug_read_loop env rd = Some rd'" for rd rd'
  proof -
    have "(\<forall>n. \<not> de_copy_ok env n) \<longrightarrow> \<not> (ws_state (dr_ws rd) = XML_START \<and> dr_length rd > of_nat CHAR_DEV_MSG_SIZE)"
      using _ that
    proof (rule debug_read_loop.raw_induct)
      fix loop :: "debug_env \<Rightarrow> debug_read \<Rightarrow> debug_read option" and e :: debug_env and rd rd'
      assume IH: "\<And>e rd rd'. loop e rd = Some rd' \<Longrightarrow> (\<forall>n. \<not> de_copy_ok e n)
          \<longrightarrow> \<not> (ws_state (dr_ws rd) = XML_START \<and> dr_length rd > of_nat CHAR_DEV_MSG_SIZE)"
        and r: "(if ws_state (dr_ws rd) \<noteq> XML_DONE \<and> of_nat CHAR_DEV_MSG_SIZE < dr_length rd
           then sfe_ipv4_debug_xml_write_methods (ws_state (dr_ws rd)) e rd \<bind> (\<lambda>(ok, rd). loop e rd) else Some rd) = Some rd'"
      show "(\<forall>n. \<not> de_copy_ok e n) \<longrightarrow> \<not> (ws_state (dr_ws rd) = XML_START \<and> dr_length rd > of_nat CHAR_DEV_MSG_SIZE)"
      proof (intro impI notI)
        assume no: "\<forall>n. \<not> de_copy_ok e n" and s: "ws_state (dr_ws rd) = XML_START \<and> dr_length rd > of_nat CHAR_DEV_MSG_SIZE"
        obtain rd1 where "sfe_ipv4_debug_xml_write_methods (ws_state (dr_ws rd)) e rd = Some (False, rd1)"
          and f: "dr_ws rd1 = dr_ws rd" "dr_length rd1 = dr_length rd"
          using no s by (auto simp: sfe_ipv4_debug_dev_read_start_def write_line_def write_msg_def Let_def)
        with r s have "loop e rd1 = Some rd'" by simp
        from IH [OF this] no s f show False by simp
      qed
    qed
    with assms(1) show ?thesis by blast
  qed
  let ?rd = "\<lparr>dr_si = si, dr_ws = ws, dr_msg = msg, dr_user = user, dr_length = len, dr_total = 0, dr_calls = 0\<rparr>"
  have "debug_read_loop env ?rd = None"
    using stuck [of ?rd] assms(2,3) by (cases "debug_read_loop env ?rd") simp_all
  then show ?thesis unfolding sfe_ipv4_debug_dev_read_def by simp
qed

lemma debug_read_stuck_witness:
  "sfe_ipv4_debug_dev_read (example_env\<lparr>de_copy_ok := \<lambda>_. False\<rparr>) example_si fresh_ws (\<lambda>_. CHR ''x'') (\<lambda>_. CHR ''y'') 10000 = None"
  by (rule debug_read_stuck) (simp_all add: fresh_ws_def CHAR_DEV_MSG_SIZE_def)

end
