(* ===== verification/SFE_IPv6_Debug.thy ===== *)
theory SFE_IPv6_Debug
  imports SFE_IPv6_Rules SFE_Debug_Msg
begin

text \<open>
  The debug character device of \<open>sfe_ipv6.c\<close>: reading it gives the state of the engine as XML, piece
  by piece, by a state machine kept in the open file. The lock is taken for each piece only; between
  two pieces other CPUs may run. The message buffer on the stack and the memory of the reading process
  are modelled byte by byte, since whole buffers are copied.
\<close>

section \<open>The state machine\<close>

datatype sfe_ipv6_debug_xml_states =
    XML_START6
  | XML_CONNECTIONS_START6
  | XML_CONNECTIONS_CONNECTION6
  | XML_CONNECTIONS_END6
  | XML_EXCEPTIONS_START6
  | XML_EXCEPTIONS_EXCEPTION6
  | XML_EXCEPTIONS_END6
  | XML_STATS6
  | XML_END6
  | XML_DONE6

text \<open>\<open>ws->state++\<close>\<close>

fun xml_next6 :: "sfe_ipv6_debug_xml_states \<Rightarrow> sfe_ipv6_debug_xml_states" where
  "xml_next6 XML_START6 = XML_CONNECTIONS_START6"
| "xml_next6 XML_CONNECTIONS_START6 = XML_CONNECTIONS_CONNECTION6"
| "xml_next6 XML_CONNECTIONS_CONNECTION6 = XML_CONNECTIONS_END6"
| "xml_next6 XML_CONNECTIONS_END6 = XML_EXCEPTIONS_START6"
| "xml_next6 XML_EXCEPTIONS_START6 = XML_EXCEPTIONS_EXCEPTION6"
| "xml_next6 XML_EXCEPTIONS_EXCEPTION6 = XML_EXCEPTIONS_END6"
| "xml_next6 XML_EXCEPTIONS_END6 = XML_STATS6"
| "xml_next6 XML_STATS6 = XML_END6"
| "xml_next6 XML_END6 = XML_DONE6"
| "xml_next6 XML_DONE6 = XML_DONE6"

record sfe_ipv6_debug_xml_write_state =
  ws_state6 :: sfe_ipv6_debug_xml_states
  ws_iter_exception6 :: nat

definition sfe_ipv6_exception_events_string :: "(sfe_ipv6_exception_events \<times> string) list" where
  "sfe_ipv6_exception_events_string =
     [(UDP_HEADER_INCOMPLETE6, ''UDP_HEADER_INCOMPLETE''), (UDP_NO_CONNECTION6, ''UDP_NO_CONNECTION''),
      (UDP_IP_OPTIONS_OR_INITIAL_FRAGMENT6, ''UDP_IP_OPTIONS_OR_INITIAL_FRAGMENT''),
      (UDP_SMALL_TTL6, ''UDP_SMALL_TTL''), (UDP_NEEDS_FRAGMENTATION6, ''UDP_NEEDS_FRAGMENTATION''),
      (TCP_HEADER_INCOMPLETE6, ''TCP_HEADER_INCOMPLETE''),
      (TCP_NO_CONNECTION_SLOW_FLAGS6, ''TCP_NO_CONNECTION_SLOW_FLAGS''),
      (TCP_NO_CONNECTION_FAST_FLAGS6, ''TCP_NO_CONNECTION_FAST_FLAGS''),
      (TCP_IP_OPTIONS_OR_INITIAL_FRAGMENT6, ''TCP_IP_OPTIONS_OR_INITIAL_FRAGMENT''),
      (TCP_SMALL_TTL6, ''TCP_SMALL_TTL''), (TCP_NEEDS_FRAGMENTATION6, ''TCP_NEEDS_FRAGMENTATION''),
      (TCP_FLAGS6, ''TCP_FLAGS''), (TCP_SEQ_EXCEEDS_RIGHT_EDGE6, ''TCP_SEQ_EXCEEDS_RIGHT_EDGE''),
      (TCP_SMALL_DATA_OFFS6, ''TCP_SMALL_DATA_OFFS''), (TCP_BAD_SACK6, ''TCP_BAD_SACK''),
      (TCP_BIG_DATA_OFFS6, ''TCP_BIG_DATA_OFFS''), (TCP_SEQ_BEFORE_LEFT_EDGE6, ''TCP_SEQ_BEFORE_LEFT_EDGE''),
      (TCP_ACK_EXCEEDS_RIGHT_EDGE6, ''TCP_ACK_EXCEEDS_RIGHT_EDGE''),
      (TCP_ACK_BEFORE_LEFT_EDGE6, ''TCP_ACK_BEFORE_LEFT_EDGE''),
      (ICMP_HEADER_INCOMPLETE6, ''ICMP_HEADER_INCOMPLETE''), (ICMP_UNHANDLED_TYPE6, ''ICMP_UNHANDLED_TYPE''),
      (ICMP_IPV6_HEADER_INCOMPLETE, ''ICMP_IPV6_HEADER_INCOMPLETE''), (ICMP_IPV6_NON_V6, ''ICMP_IPV6_NON_V6''),
      (ICMP_IPV6_IP_OPTIONS_INCOMPLETE, ''ICMP_IPV6_IP_OPTIONS_INCOMPLETE''),
      (ICMP_IPV6_UDP_HEADER_INCOMPLETE, ''ICMP_IPV6_UDP_HEADER_INCOMPLETE''),
      (ICMP_IPV6_TCP_HEADER_INCOMPLETE, ''ICMP_IPV6_TCP_HEADER_INCOMPLETE''),
      (ICMP_IPV6_UNHANDLED_PROTOCOL, ''ICMP_IPV6_UNHANDLED_PROTOCOL''),
      (ICMP_NO_CONNECTION6, ''ICMP_NO_CONNECTION''), (ICMP_FLUSHED_CONNECTION6, ''ICMP_FLUSHED_CONNECTION''),
      (HEADER_INCOMPLETE6, ''HEADER_INCOMPLETE''), (BAD_TOTAL_LENGTH6, ''BAD_TOTAL_LENGTH''), (NON_V6, ''NON_V6''),
      (NON_INITIAL_FRAGMENT6, ''NON_INITIAL_FRAGMENT''), (DATAGRAM_INCOMPLETE6, ''DATAGRAM_INCOMPLETE''),
      (IP_OPTIONS_INCOMPLETE6, ''IP_OPTIONS_INCOMPLETE''), (UNHANDLED_PROTOCOL6, ''UNHANDLED_PROTOCOL''),
      (FLOW_COOKIE_ADD_FAIL, ''FLOW_COOKIE_ADD_FAIL'')]"

definition SFE_IPV6_EXCEPTION_EVENT_LAST :: nat where "SFE_IPV6_EXCEPTION_EVENT_LAST = 37"

section \<open>One piece of output\<close>

text \<open>
  The variables of a read: \<open>dr_msg6\<close> is the buffer on the stack, \<open>dr_user6\<close> the memory from \<open>buffer\<close> on,
  \<open>dr_calls6\<close> the number of calls of \<open>copy_to_user\<close> so far.
\<close>

record debug_read6 =
  dr_si6 :: sfe_ipv6
  dr_ws6 :: sfe_ipv6_debug_xml_write_state
  dr_msg6 :: "nat \<Rightarrow> char"
  dr_user6 :: "nat \<Rightarrow> char"
  dr_length6 :: u64
  dr_total6 :: nat
  dr_calls6 :: nat

text \<open>
  Formatting a message and copying the buffer out, as every writer does it. A copy that fails is shown
  as writing nothing.
\<close>

definition write_msg6 :: "debug_env \<Rightarrow> string \<Rightarrow> debug_read6 \<Rightarrow> bool \<times> debug_read6" where
  "write_msg6 env s rd =
     (let rd = rd\<lparr>dr_msg6 := snprintf_msg s (dr_msg6 rd)\<rparr>;
          ok = de_copy_ok env (dr_calls6 rd);
          rd = rd\<lparr>dr_calls6 := dr_calls6 rd + 1\<rparr>
      in if \<not> ok then (False, rd)
         else (True, rd\<lparr>dr_user6 := copy_to_user (dr_total6 rd) (dr_msg6 rd) (dr_user6 rd),
                       dr_length6 := dr_length6 rd - of_nat (length s), dr_total6 := dr_total6 rd + length s\<rparr>))"

definition next_state6 :: "debug_read6 \<Rightarrow> debug_read6" where
  "next_state6 rd = rd\<lparr>dr_ws6 := (dr_ws6 rd)\<lparr>ws_state6 := xml_next6 (ws_state6 (dr_ws6 rd))\<rparr>\<rparr>"

text \<open>A writer that prints one fixed line and moves on.\<close>

definition write_line6 :: "debug_env \<Rightarrow> string \<Rightarrow> debug_read6 \<Rightarrow> bool \<times> debug_read6" where
  "write_line6 env s rd =
     (let (ok, rd) = write_msg6 env s rd
      in if \<not> ok then (False, rd) else (True, next_state6 rd))"

section \<open>The writers\<close>

definition sfe_ipv6_debug_dev_read_start :: "debug_env \<Rightarrow> debug_read6 \<Rightarrow> (bool \<times> debug_read6) option" where
  "sfe_ipv6_debug_dev_read_start env rd =
     (let rd = rd\<lparr>dr_si6 := (dr_si6 rd)\<lparr>debug_read_seq6 := debug_read_seq6 (dr_si6 rd) + 1\<rparr>\<rparr>
      in Some (write_line6 env (''<sfe_ipv6>'' @ newline) rd))"

definition sfe_ipv6_debug_dev_read_connections_start :: "debug_env \<Rightarrow> debug_read6 \<Rightarrow> (bool \<times> debug_read6) option" where
  "sfe_ipv6_debug_dev_read_connections_start env rd = Some (write_line6 env (tab @ ''<connections>'' @ newline) rd)"

definition print_pI6 :: "sfe_ip_addr \<Rightarrow> string" where
  "print_pI6 a = print_ip6 (ip6_0 a, ip6_1 a, ip6_2 a, ip6_3 a)"

text \<open>The line for a connection whose matches have had their counts summed up.\<close>

definition connection_line6 ::
  "debug_env \<Rightarrow> sfe_ipv6_connection \<Rightarrow> sfe_ipv6_connection_match \<Rightarrow> sfe_ipv6_connection_match \<Rightarrow> string" where
  "connection_line6 env c original_cm reply_cm =
     tab @ tab @ ''<connection ''
     @ attr ''protocol'' (print_u (c_protocol6 c))
     @ attr ''src_dev'' (de_name env (c_original_dev6 c))
     @ attr ''src_ip'' (print_pI6 (c_src_ip6 c)) @ attr ''src_ip_xlate'' (print_pI6 (c_src_ip_xlate6 c))
     @ attr ''src_port'' (print_u (ntohs (c_src_port6 c))) @ attr ''src_port_xlate'' (print_u (ntohs (c_src_port_xlate6 c)))
     @ attr ''src_priority'' (print_u (cm_priority6 original_cm))
     @ attr ''src_dscp'' (print_u (drop_bit SFE_IPV6_DSCP_SHIFT (cm_dscp6 original_cm)))
     @ attr ''src_rx_pkts'' (print_u (cm_rx_packet_count64_v6 original_cm))
     @ attr ''src_rx_bytes'' (print_u (cm_rx_byte_count64_v6 original_cm))
     @ attr ''dest_dev'' (de_name env (c_reply_dev6 c))
     @ attr ''dest_ip'' (print_pI6 (c_dest_ip6 c)) @ attr ''dest_ip_xlate'' (print_pI6 (c_dest_ip_xlate6 c))
     @ attr ''dest_port'' (print_u (ntohs (c_dest_port6 c))) @ attr ''dest_port_xlate'' (print_u (ntohs (c_dest_port_xlate6 c)))
     @ attr ''dest_priority'' (print_u (cm_priority6 reply_cm))
     @ attr ''dest_dscp'' (print_u (drop_bit SFE_IPV6_DSCP_SHIFT (cm_dscp6 reply_cm)))
     @ attr ''dest_rx_pkts'' (print_u (cm_rx_packet_count64_v6 reply_cm))
     @ attr ''dest_rx_bytes'' (print_u (cm_rx_byte_count64_v6 reply_cm))
     @ attr ''last_sync'' (print_u (de_jiffies env - c_last_sync_jiffies6 c))
     @ attr ''mark'' (print_08x (c_mark6 c)) @ ''/>'' @ newline"

definition sfe_ipv6_debug_dev_read_connections_connection ::
  "debug_env \<Rightarrow> debug_read6 \<Rightarrow> (bool \<times> debug_read6) option" where
  "sfe_ipv6_debug_dev_read_connections_connection env rd =
     (let si = dr_si6 rd
      in do {
        r \<leftarrow> chain_find (\<lambda>p. c_all_connections_next6 (connections6 si p))
               (\<lambda>p. c_debug_read_seq6 (connections6 si p) < debug_read_seq6 si) (all_connections_head6 si);
        case r of
          None \<Rightarrow> Some (True, next_state6 rd)
        | Some c \<Rightarrow>
            let si = upd_c6 c (\<lambda>x. x\<lparr>c_debug_read_seq6 := debug_read_seq6 si\<rparr>) si;
                original_cm = c_original_match6 (connections6 si c);
                reply_cm = c_reply_match6 (connections6 si c);
                si = upd_cm6 original_cm sfe_ipv6_connection_match_update_summary_stats si;
                si = upd_cm6 reply_cm sfe_ipv6_connection_match_update_summary_stats si
            in Some (write_msg6 env (connection_line6 env (connections6 si c) (matches6 si original_cm) (matches6 si reply_cm))
                      (rd\<lparr>dr_si6 := si\<rparr>)) })"

definition sfe_ipv6_debug_dev_read_connections_end :: "debug_env \<Rightarrow> debug_read6 \<Rightarrow> (bool \<times> debug_read6) option" where
  "sfe_ipv6_debug_dev_read_connections_end env rd = Some (write_line6 env (tab @ ''</connections>'' @ newline) rd)"

definition sfe_ipv6_debug_dev_read_exceptions_start :: "debug_env \<Rightarrow> debug_read6 \<Rightarrow> (bool \<times> debug_read6) option" where
  "sfe_ipv6_debug_dev_read_exceptions_start env rd = Some (write_line6 env (tab @ ''<exceptions>'' @ newline) rd)"

definition sfe_ipv6_debug_dev_read_exceptions_exception :: "debug_env \<Rightarrow> debug_read6 \<Rightarrow> (bool \<times> debug_read6) option" where
  "sfe_ipv6_debug_dev_read_exceptions_exception env rd =
     (let (e, name) = sfe_ipv6_exception_events_string ! ws_iter_exception6 (dr_ws6 rd);
          ct = exception_events64_v6 (dr_si6 rd) e;
          (ok, rd) = (if ct \<noteq> 0 then write_msg6 env (exception_xml name ct) rd else (True, rd))
      in if \<not> ok then Some (False, rd)
         else let rd = rd\<lparr>dr_ws6 := (dr_ws6 rd)\<lparr>ws_iter_exception6 := ws_iter_exception6 (dr_ws6 rd) + 1\<rparr>\<rparr>
              in Some (True, if ws_iter_exception6 (dr_ws6 rd) \<ge> SFE_IPV6_EXCEPTION_EVENT_LAST
                             then next_state6 (rd\<lparr>dr_ws6 := (dr_ws6 rd)\<lparr>ws_iter_exception6 := 0\<rparr>\<rparr>) else rd))"

definition sfe_ipv6_debug_dev_read_exceptions_end :: "debug_env \<Rightarrow> debug_read6 \<Rightarrow> (bool \<times> debug_read6) option" where
  "sfe_ipv6_debug_dev_read_exceptions_end env rd = Some (write_line6 env (tab @ ''</exceptions>'' @ newline) rd)"

definition stats_line6 :: "sfe_ipv6 \<Rightarrow> string" where
  "stats_line6 si =
     tab @ ''<stats ''
     @ attr ''num_connections'' (print_u (num_connections6 si))
     @ attr ''pkts_forwarded'' (print_u (packets_forwarded64_v6 si))
     @ attr ''pkts_not_forwarded'' (print_u (packets_not_forwarded64_v6 si))
     @ attr ''create_requests'' (print_u (connection_create_requests64_v6 si))
     @ attr ''create_collisions'' (print_u (connection_create_collisions64_v6 si))
     @ attr ''destroy_requests'' (print_u (connection_destroy_requests64_v6 si))
     @ attr ''destroy_misses'' (print_u (connection_destroy_misses64_v6 si))
     @ attr ''flushes'' (print_u (connection_flushes64_v6 si))
     @ attr ''hash_hits'' (print_u (connection_match_hash_hits64_v6 si))
     @ attr ''hash_reorders'' (print_u (connection_match_hash_reorders64_v6 si)) @ ''/>'' @ newline"

definition sfe_ipv6_debug_dev_read_stats :: "debug_env \<Rightarrow> debug_read6 \<Rightarrow> (bool \<times> debug_read6) option" where
  "sfe_ipv6_debug_dev_read_stats env rd =
     (let rd = rd\<lparr>dr_si6 := sfe_ipv6_update_summary_stats (dr_si6 rd)\<rparr>
      in Some (write_line6 env (stats_line6 (dr_si6 rd)) rd))"

definition sfe_ipv6_debug_dev_read_end :: "debug_env \<Rightarrow> debug_read6 \<Rightarrow> (bool \<times> debug_read6) option" where
  "sfe_ipv6_debug_dev_read_end env rd = Some (write_line6 env (''</sfe_ipv6>'' @ newline) rd)"

section \<open>Reading, opening and closing\<close>

text \<open>The table of writers, indexed by state; the loop never indexes it with the last state.\<close>

fun sfe_ipv6_debug_xml_write_methods ::
  "sfe_ipv6_debug_xml_states \<Rightarrow> debug_env \<Rightarrow> debug_read6 \<Rightarrow> (bool \<times> debug_read6) option" where
  "sfe_ipv6_debug_xml_write_methods XML_START6 = sfe_ipv6_debug_dev_read_start"
| "sfe_ipv6_debug_xml_write_methods XML_CONNECTIONS_START6 = sfe_ipv6_debug_dev_read_connections_start"
| "sfe_ipv6_debug_xml_write_methods XML_CONNECTIONS_CONNECTION6 = sfe_ipv6_debug_dev_read_connections_connection"
| "sfe_ipv6_debug_xml_write_methods XML_CONNECTIONS_END6 = sfe_ipv6_debug_dev_read_connections_end"
| "sfe_ipv6_debug_xml_write_methods XML_EXCEPTIONS_START6 = sfe_ipv6_debug_dev_read_exceptions_start"
| "sfe_ipv6_debug_xml_write_methods XML_EXCEPTIONS_EXCEPTION6 = sfe_ipv6_debug_dev_read_exceptions_exception"
| "sfe_ipv6_debug_xml_write_methods XML_EXCEPTIONS_END6 = sfe_ipv6_debug_dev_read_exceptions_end"
| "sfe_ipv6_debug_xml_write_methods XML_STATS6 = sfe_ipv6_debug_dev_read_stats"
| "sfe_ipv6_debug_xml_write_methods XML_END6 = sfe_ipv6_debug_dev_read_end"
| "sfe_ipv6_debug_xml_write_methods XML_DONE6 = (\<lambda>env rd. None)"

text \<open>A writer that fails is called again: the loop has no other way out.\<close>

partial_function (option) debug_read_loop6 :: "debug_env \<Rightarrow> debug_read6 \<Rightarrow> debug_read6 option" where
  "debug_read_loop6 env rd =
     (if ws_state6 (dr_ws6 rd) \<noteq> XML_DONE6 \<and> dr_length6 rd > of_nat CHAR_DEV_MSG_SIZE
      then do {
        (ok, rd) \<leftarrow> sfe_ipv6_debug_xml_write_methods (ws_state6 (dr_ws6 rd)) env rd;
        debug_read_loop6 env rd }
      else Some rd)"

text \<open>\<open>msg\<close> is what the stack holds where the message buffer is placed.\<close>

definition sfe_ipv6_debug_dev_read ::
  "debug_env \<Rightarrow> sfe_ipv6 \<Rightarrow> sfe_ipv6_debug_xml_write_state \<Rightarrow> (nat \<Rightarrow> char) \<Rightarrow> (nat \<Rightarrow> char) \<Rightarrow> u64 \<Rightarrow>
   (nat \<times> debug_read6) option" where
  "sfe_ipv6_debug_dev_read env si ws msg user len = do {
     rd \<leftarrow> debug_read_loop6 env \<lparr>dr_si6 = si, dr_ws6 = ws, dr_msg6 = msg, dr_user6 = user, dr_length6 = len,
             dr_total6 = 0, dr_calls6 = 0\<rparr>;
     Some (dr_total6 rd, rd) }"

text \<open>\<open>private\<close> is \<open>file->private_data\<close>, \<open>mem\<close> whether \<open>kzalloc\<close> finds memory.\<close>

definition sfe_ipv6_debug_dev_open ::
  "bool \<Rightarrow> sfe_ipv6_debug_xml_write_state option \<Rightarrow> int \<times> sfe_ipv6_debug_xml_write_state option" where
  "sfe_ipv6_debug_dev_open mem private =
     (case private of
        Some ws \<Rightarrow> (0, Some ws)
      | None \<Rightarrow> if \<not> mem then (- ENOMEM, None) else (0, Some \<lparr>ws_state6 = XML_START6, ws_iter_exception6 = 0\<rparr>))"

text \<open>The result and whether the write state is freed.\<close>

definition sfe_ipv6_debug_dev_release :: "sfe_ipv6_debug_xml_write_state option \<Rightarrow> int \<times> bool" where
  "sfe_ipv6_debug_dev_release private = (0, private \<noteq> None)"

text \<open>The number of the character device, for user space to create its node.\<close>

definition sfe_ipv6_get_debug_dev :: "sfe_ipv6 \<Rightarrow> string" where
  "sfe_ipv6_get_debug_dev si = print_d (debug_dev6 si) @ newline"

end
