(* ===== verification/SFE_IPv6_Debug_Props.thy ===== *)
theory SFE_IPv6_Debug_Props
  imports SFE_IPv6_System SFE_IPv6_Debug
begin

text \<open>
  What the debug device shows: the pieces of output still to come are a function of the engine and the
  state of the file, each writer takes the next one off, and a read returns as many as fit.
\<close>

section \<open>The pieces to come\<close>

abbreviation summed6 :: "sfe_ipv6_connection_match \<Rightarrow> sfe_ipv6_connection_match" where
  "summed6 \<equiv> sfe_ipv6_connection_match_update_summary_stats"

lemma summed_summed6 [simp]: "summed6 (summed6 m) = summed6 m"
  by (simp add: sfe_ipv6_connection_match_update_summary_stats_def)

definition conn_xml6 :: "debug_env \<Rightarrow> sfe_ipv6 \<Rightarrow> ptr \<Rightarrow> string" where
  "conn_xml6 env si c = (let x = connections6 si c
     in connection_line6 env x (summed6 (matches6 si (c_original_match6 x))) (summed6 (matches6 si (c_reply_match6 x))))"

definition unread6 :: "sfe_ipv6 \<Rightarrow> ptr list \<Rightarrow> ptr list" where
  "unread6 si cs = filter (\<lambda>c. c_debug_read_seq6 (connections6 si c) < debug_read_seq6 si) cs"

definition exception_pieces6 :: "sfe_ipv6 \<Rightarrow> nat \<Rightarrow> string list" where
  "exception_pieces6 si i = map (\<lambda>(e, name). exception_xml name (exception_events64_v6 si e))
     (filter (\<lambda>(e, _). exception_events64_v6 si e \<noteq> 0) (drop i sfe_ipv6_exception_events_string))"

definition rest_end6 :: "string list" where "rest_end6 = [''</sfe_ipv6>'' @ newline]"
definition rest_stats6 :: "sfe_ipv6 \<Rightarrow> string list" where
  "rest_stats6 si = stats_line6 (sfe_ipv6_update_summary_stats si) # rest_end6"
definition rest_exceptions6 :: "sfe_ipv6 \<Rightarrow> nat \<Rightarrow> string list" where
  "rest_exceptions6 si i = exception_pieces6 si i @ (tab @ ''</exceptions>'' @ newline) # rest_stats6 si"
definition rest_connections_end6 :: "sfe_ipv6 \<Rightarrow> string list" where
  "rest_connections_end6 si = [tab @ ''</connections>'' @ newline, tab @ ''<exceptions>'' @ newline] @ rest_exceptions6 si 0"
definition rest_connections6 :: "debug_env \<Rightarrow> ptr list \<Rightarrow> sfe_ipv6 \<Rightarrow> string list" where
  "rest_connections6 env cs si = map (conn_xml6 env si) (unread6 si cs) @ rest_connections_end6 si"

text \<open>\<open>cs\<close> is the list of all connections.\<close>

fun pending6 :: "debug_env \<Rightarrow> ptr list \<Rightarrow> sfe_ipv6 \<Rightarrow> sfe_ipv6_debug_xml_write_state \<Rightarrow> string list" where
  "pending6 env cs si ws = (case ws_state6 ws of
     XML_START6 \<Rightarrow> (''<sfe_ipv6>'' @ newline) # (tab @ ''<connections>'' @ newline)
        # rest_connections6 env cs (si\<lparr>debug_read_seq6 := debug_read_seq6 si + 1\<rparr>)
   | XML_CONNECTIONS_START6 \<Rightarrow> (tab @ ''<connections>'' @ newline) # rest_connections6 env cs si
   | XML_CONNECTIONS_CONNECTION6 \<Rightarrow> rest_connections6 env cs si
   | XML_CONNECTIONS_END6 \<Rightarrow> rest_connections_end6 si
   | XML_EXCEPTIONS_START6 \<Rightarrow> tl (rest_connections_end6 si)
   | XML_EXCEPTIONS_EXCEPTION6 \<Rightarrow> rest_exceptions6 si (ws_iter_exception6 ws)
   | XML_EXCEPTIONS_END6 \<Rightarrow> (tab @ ''</exceptions>'' @ newline) # rest_stats6 si
   | XML_STATS6 \<Rightarrow> rest_stats6 si
   | XML_END6 \<Rightarrow> rest_end6
   | XML_DONE6 \<Rightarrow> [])"

declare pending6.simps [simp del]

section \<open>One writer\<close>

text \<open>The effect of printing \<open>s\<close> on the memory and the counters of a read.\<close>

definition printed6 :: "string \<Rightarrow> debug_read6 \<Rightarrow> debug_read6 \<Rightarrow> bool" where
  "printed6 s rd rd' \<longleftrightarrow> dr_length6 rd' = dr_length6 rd - of_nat (length s) \<and> dr_total6 rd' = dr_total6 rd + length s
     \<and> (\<forall>i < length s. i < CHAR_DEV_MSG_SIZE - 1 \<longrightarrow> dr_user6 rd' (dr_total6 rd + i) = s ! i)
     \<and> (\<forall>i. i < dr_total6 rd \<or> dr_total6 rd + CHAR_DEV_MSG_SIZE \<le> i \<longrightarrow> dr_user6 rd' i = dr_user6 rd i)"

lemma write_msg_ok6:
  assumes "\<And>n. de_copy_ok env n"
  shows "\<exists>rd'. write_msg6 env s rd = (True, rd') \<and> printed6 s rd rd' \<and> dr_si6 rd' = dr_si6 rd \<and> dr_ws6 rd' = dr_ws6 rd"
proof -
  obtain rd' where w: "write_msg6 env s rd = (True, rd')"
    and f: "dr_si6 rd' = dr_si6 rd" "dr_ws6 rd' = dr_ws6 rd" "dr_length6 rd' = dr_length6 rd - of_nat (length s)"
      "dr_total6 rd' = dr_total6 rd + length s"
      "dr_user6 rd' = copy_to_user (dr_total6 rd) (snprintf_msg s (dr_msg6 rd)) (dr_user6 rd)"
    using assms by (simp add: write_msg6_def Let_def)
  have "printed6 s rd rd'"
    unfolding printed6_def f by (auto simp: copy_to_user_def snprintf_msg_def Let_def CHAR_DEV_MSG_SIZE_def)
  with w f show ?thesis by blast
qed

text \<open>A piece printed, or none.\<close>

definition printed_all6 :: "string list \<Rightarrow> debug_read6 \<Rightarrow> debug_read6 \<Rightarrow> bool" where
  "printed_all6 ss rd rd' \<longleftrightarrow> (case ss of [] \<Rightarrow> dr_length6 rd' = dr_length6 rd \<and> dr_total6 rd' = dr_total6 rd \<and> dr_user6 rd' = dr_user6 rd
     | [s] \<Rightarrow> printed6 s rd rd' | _ \<Rightarrow> False)"

fun state_rank6 :: "sfe_ipv6_debug_xml_states \<Rightarrow> nat" where
  "state_rank6 XML_START6 = 9" | "state_rank6 XML_CONNECTIONS_START6 = 8" | "state_rank6 XML_CONNECTIONS_CONNECTION6 = 7"
| "state_rank6 XML_CONNECTIONS_END6 = 6" | "state_rank6 XML_EXCEPTIONS_START6 = 5" | "state_rank6 XML_EXCEPTIONS_EXCEPTION6 = 4"
| "state_rank6 XML_EXCEPTIONS_END6 = 3" | "state_rank6 XML_STATS6 = 2" | "state_rank6 XML_END6 = 1" | "state_rank6 XML_DONE6 = 0"

definition read_order6 :: "ptr list \<Rightarrow> (debug_read6 \<times> debug_read6) set" where
  "read_order6 cs = measures [\<lambda>rd. state_rank6 (ws_state6 (dr_ws6 rd)), \<lambda>rd. length (unread6 (dr_si6 rd) cs),
     \<lambda>rd. SFE_IPV6_EXCEPTION_EVENT_LAST - ws_iter_exception6 (dr_ws6 rd)]"

definition ws_ok6 :: "sfe_ipv6_debug_xml_write_state \<Rightarrow> bool" where
  "ws_ok6 ws \<longleftrightarrow> (if ws_state6 ws = XML_EXCEPTIONS_EXCEPTION6 then ws_iter_exception6 ws < SFE_IPV6_EXCEPTION_EVENT_LAST
     else ws_iter_exception6 ws = 0)"

lemma wf_read_order6: "wf (read_order6 cs)"
  by (simp add: read_order6_def)

text \<open>The engine during a read: nothing but statistics and read marks changes.\<close>

definition only_stats6 :: "sfe_ipv6 \<Rightarrow> sfe_ipv6 \<Rightarrow> bool" where
  "only_stats6 si si' \<longleftrightarrow> same_shape6 si si' \<and> same_rules6 si si' \<and> same_adj6 si si'"

lemma only_stats_refl6 [simp]: "only_stats6 si si"
  by (simp add: only_stats6_def)

lemma only_stats_trans6: "only_stats6 a b \<Longrightarrow> only_stats6 b c \<Longrightarrow> only_stats6 a c"
  unfolding only_stats6_def using same_shape_trans6 same_adj_trans6 by (auto simp: same_rules6_def)

text \<open>What a writer does when its copy succeeds: it takes at most one piece off and comes closer to the end.\<close>

definition good_write6 :: "debug_env \<Rightarrow> ptr list \<Rightarrow> debug_read6 \<Rightarrow> bool" where
  "good_write6 env cs rd \<longleftrightarrow> (\<exists>rd' ss. sfe_ipv6_debug_xml_write_methods (ws_state6 (dr_ws6 rd)) env rd = Some (True, rd')
     \<and> pending6 env cs (dr_si6 rd) (dr_ws6 rd) = ss @ pending6 env cs (dr_si6 rd') (dr_ws6 rd') \<and> printed_all6 ss rd rd'
     \<and> only_stats6 (dr_si6 rd) (dr_si6 rd') \<and> ws_ok6 (dr_ws6 rd') \<and> (rd', rd) \<in> read_order6 cs)"

lemma write_line_good6:
  assumes "\<And>n. de_copy_ok env n" and "sfe_ipv6_debug_xml_write_methods (ws_state6 (dr_ws6 rd)) env rd = Some (write_line6 env s (rd\<lparr>dr_si6 := si\<rparr>))"
    and "pending6 env cs (dr_si6 rd) (dr_ws6 rd) = s # pending6 env cs si ((dr_ws6 rd)\<lparr>ws_state6 := xml_next6 (ws_state6 (dr_ws6 rd))\<rparr>)"
    and "only_stats6 (dr_si6 rd) si" and "ws_ok6 (dr_ws6 rd)" and "ws_state6 (dr_ws6 rd) \<notin> {XML_EXCEPTIONS_EXCEPTION6, XML_DONE6}"
  shows "good_write6 env cs rd"
proof -
  let ?rd = "rd\<lparr>dr_si6 := si\<rparr>"
  obtain rd1 where w: "write_msg6 env s ?rd = (True, rd1)" and p: "printed6 s ?rd rd1" and f: "dr_si6 rd1 = si" "dr_ws6 rd1 = dr_ws6 rd"
    using write_msg_ok6 [OF assms(1), of s ?rd] by auto
  have "(next_state6 rd1, rd) \<in> read_order6 cs" "ws_ok6 (dr_ws6 (next_state6 rd1))"
    using assms(5,6) f by (cases "ws_state6 (dr_ws6 rd)"; simp add: read_order6_def next_state6_def ws_ok6_def SFE_IPV6_EXCEPTION_EVENT_LAST_def)+
  moreover have "printed_all6 [s] rd (next_state6 rd1)"
    using p by (simp add: printed_all6_def printed6_def next_state6_def)
  ultimately show ?thesis
    unfolding good_write6_def
    using w assms(2,3,4) f by (intro exI [of _ "next_state6 rd1"] exI [of _ "[s]"]) (simp add: write_line6_def next_state6_def)
qed

subsection \<open>Connections\<close>

text \<open>The engine after one connection was read.\<close>

definition read_conn6 :: "ptr \<Rightarrow> sfe_ipv6 \<Rightarrow> sfe_ipv6" where
  "read_conn6 c si = upd_cm6 (c_reply_match6 (connections6 si c)) summed6 (upd_cm6 (c_original_match6 (connections6 si c)) summed6
     (upd_c6 c (\<lambda>x. x\<lparr>c_debug_read_seq6 := debug_read_seq6 si\<rparr>) si))"

lemma read_conn_fields6:
  "connections6 (read_conn6 c si) = (connections6 si)(c := (connections6 si c)\<lparr>c_debug_read_seq6 := debug_read_seq6 si\<rparr>)"
  "matches6 (read_conn6 c si) p \<in> {matches6 si p, summed6 (matches6 si p)}"
  "debug_read_seq6 (read_conn6 c si) = debug_read_seq6 si" "exception_events64_v6 (read_conn6 c si) = exception_events64_v6 si"
  by (simp_all add: read_conn6_def upd_cm6_def upd_c6_def)

lemma summed_read_conn6: "summed6 (matches6 (read_conn6 c si) p) = summed6 (matches6 si p)"
  using read_conn_fields6(2) [of c si p] by auto

lemma conn_xml_read_conn6: "conn_xml6 env (read_conn6 c si) p = conn_xml6 env si p"
  by (simp add: conn_xml6_def Let_def read_conn_fields6(1) summed_read_conn6 connection_line6_def)

lemma stats_read_conn6: "rest_stats6 (read_conn6 c si) = rest_stats6 si"
  by (simp add: rest_stats6_def stats_line6_def sfe_ipv6_update_summary_stats_def read_conn6_def upd_cm6_def upd_c6_def)

lemma rest_end_read_conn6: "rest_connections_end6 (read_conn6 c si) = rest_connections_end6 si"
  by (simp add: rest_connections_end6_def rest_exceptions6_def exception_pieces6_def stats_read_conn6 read_conn_fields6(4))

lemma unread_read_conn6:
  assumes "find (\<lambda>p. c_debug_read_seq6 (connections6 si p) < debug_read_seq6 si) cs = Some c" and "distinct cs"
  shows "unread6 si cs = c # unread6 (read_conn6 c si) cs"
  unfolding unread6_def find_filter [OF assms] read_conn_fields6
  by (auto intro!: filter_cong)

lemma only_stats_read_conn6: "only_stats6 si (read_conn6 c si)"
proof -
  have "same_shape6 si (read_conn6 c si)" by (simp add: read_conn6_def)
  moreover have "same_rules6 si (read_conn6 c si)"
    by (simp add: same_rules6_def read_conn_fields6(1) c_key6_def c_rule6_def)
  moreover have "same_adj6 si (read_conn6 c si)"
  proof -
    have "adj_ok6 (matches6 (read_conn6 c si) p)" if "adj_ok6 (matches6 si p)" for p
      using read_conn_fields6(2) [of c si p] that keeps_adj_simps6(4) by (auto simp: keeps_adj6_def)
    moreover have "live_matches6 (read_conn6 c si) = live_matches6 si" by (simp add: read_conn6_def upd_cm6_def upd_c6_def)
    ultimately show ?thesis by (simp add: same_adj6_def)
  qed
  ultimately show ?thesis by (simp add: only_stats6_def)
qed

lemma connection_good6:
  assumes i: "sfe_inv6 (dr_si6 rd) g []" and ok: "\<And>n. de_copy_ok env n" and st: "ws_state6 (dr_ws6 rd) = XML_CONNECTIONS_CONNECTION6"
    and w: "ws_ok6 (dr_ws6 rd)"
  shows "good_write6 env (ga g) rd"
proof -
  let ?si = "dr_si6 rd" and ?P = "\<lambda>p. c_debug_read_seq6 (connections6 (dr_si6 rd) p) < debug_read_seq6 (dr_si6 rd)"
  have d: "distinct (ga g)" using i by (simp add: sfe_inv6_def mem_ok6_def)
  note F = destroy_all_find6 [OF i, of ?P]
  note D = sfe_ipv6_debug_dev_read_connections_connection_def Let_def F
  show ?thesis
  proof (cases "find ?P (ga g)")
    case None
    then have "unread6 ?si (ga g) = []" by (simp add: unread6_def find_None_filter)
    then have "pending6 env (ga g) ?si (dr_ws6 rd) = pending6 env (ga g) ?si (dr_ws6 (next_state6 rd))"
      by (simp add: pending6.simps st rest_connections6_def next_state6_def)
    then show ?thesis
      unfolding good_write6_def using w st None
      by (intro exI [of _ "next_state6 rd"] exI [of _ "[]"])
        (simp add: D printed_all6_def next_state6_def read_order6_def ws_ok6_def)
  next
    case (Some c)
    let ?s = "conn_xml6 env ?si c" and ?rd = "rd\<lparr>dr_si6 := read_conn6 c (dr_si6 rd)\<rparr>"
    obtain rd1 where m: "write_msg6 env ?s ?rd = (True, rd1)" and p: "printed6 ?s ?rd rd1"
      and f: "dr_si6 rd1 = read_conn6 c ?si" "dr_ws6 rd1 = dr_ws6 rd"
      using write_msg_ok6 [OF ok, of ?s ?rd] by auto
    have "conn_xml6 env ?si c = connection_line6 env (connections6 (read_conn6 c ?si) c)
        (matches6 (read_conn6 c ?si) (c_original_match6 (connections6 ?si c))) (matches6 (read_conn6 c ?si) (c_reply_match6 (connections6 ?si c)))"
      by (simp add: conn_xml6_def Let_def read_conn6_def upd_cm6_def upd_c6_def connection_line6_def)
    then have "sfe_ipv6_debug_xml_write_methods (ws_state6 (dr_ws6 rd)) env rd = Some (True, rd1)"
      using m by (simp add: st D Some read_conn6_def upd_c6_def)
    moreover have "pending6 env (ga g) ?si (dr_ws6 rd) = [?s] @ pending6 env (ga g) (dr_si6 rd1) (dr_ws6 rd1)"
      by (simp add: f pending6.simps st rest_connections6_def unread_read_conn6 [OF Some d] conn_xml_read_conn6 rest_end_read_conn6)
    moreover have "printed_all6 [?s] rd rd1" using p by (simp add: printed_all6_def printed6_def)
    moreover have "(rd1, rd) \<in> read_order6 (ga g)" using unread_read_conn6 [OF Some d] by (simp add: read_order6_def f)
    ultimately show ?thesis
      unfolding good_write6_def using w only_stats_read_conn6 f by (intro exI [of _ rd1] exI [of _ "[?s]"]) simp
  qed
qed

subsection \<open>Exceptions\<close>

lemma exception_pieces_step6:
  assumes "i < SFE_IPV6_EXCEPTION_EVENT_LAST" and "sfe_ipv6_exception_events_string ! i = (e, name)"
  shows "exception_pieces6 si i = (if exception_events64_v6 si e \<noteq> 0 then [exception_xml name (exception_events64_v6 si e)] else [])
    @ exception_pieces6 si (Suc i)"
proof -
  have "i < length sfe_ipv6_exception_events_string"
    using assms(1) by (simp add: SFE_IPV6_EXCEPTION_EVENT_LAST_def sfe_ipv6_exception_events_string_def)
  from Cons_nth_drop_Suc [OF this] assms(2)
  have "drop i sfe_ipv6_exception_events_string = (e, name) # drop (Suc i) sfe_ipv6_exception_events_string" by simp
  then show ?thesis by (simp add: exception_pieces6_def)
qed

lemma exception_pieces_last6: "SFE_IPV6_EXCEPTION_EVENT_LAST \<le> i \<Longrightarrow> exception_pieces6 si i = []"
  by (simp add: exception_pieces6_def SFE_IPV6_EXCEPTION_EVENT_LAST_def sfe_ipv6_exception_events_string_def)

text \<open>The iterator moves on, and with it the state after the last exception.\<close>

definition next_exception6 :: "debug_read6 \<Rightarrow> debug_read6" where
  "next_exception6 rd = (let rd = rd\<lparr>dr_ws6 := (dr_ws6 rd)\<lparr>ws_iter_exception6 := ws_iter_exception6 (dr_ws6 rd) + 1\<rparr>\<rparr>
     in if ws_iter_exception6 (dr_ws6 rd) \<ge> SFE_IPV6_EXCEPTION_EVENT_LAST
        then next_state6 (rd\<lparr>dr_ws6 := (dr_ws6 rd)\<lparr>ws_iter_exception6 := 0\<rparr>\<rparr>) else rd)"

lemma next_exception_facts6:
  assumes "ws_state6 (dr_ws6 rd) = XML_EXCEPTIONS_EXCEPTION6" and "ws_iter_exception6 (dr_ws6 rd) < SFE_IPV6_EXCEPTION_EVENT_LAST"
  shows "pending6 env cs (dr_si6 rd) (dr_ws6 (next_exception6 rd)) = rest_exceptions6 (dr_si6 rd) (Suc (ws_iter_exception6 (dr_ws6 rd)))"
    "ws_ok6 (dr_ws6 (next_exception6 rd))" "(next_exception6 rd, rd) \<in> read_order6 cs"
    "dr_si6 (next_exception6 rd) = dr_si6 rd" "dr_length6 (next_exception6 rd) = dr_length6 rd"
    "dr_total6 (next_exception6 rd) = dr_total6 rd" "dr_user6 (next_exception6 rd) = dr_user6 rd"
  using assms
  by (auto simp: next_exception6_def Let_def next_state6_def pending6.simps rest_exceptions6_def ws_ok6_def read_order6_def
      exception_pieces_last6)

lemma exception_good6:
  assumes ok: "\<And>n. de_copy_ok env n" and st: "ws_state6 (dr_ws6 rd) = XML_EXCEPTIONS_EXCEPTION6" and w: "ws_ok6 (dr_ws6 rd)"
  shows "good_write6 env cs rd"
proof -
  let ?si = "dr_si6 rd" and ?i = "ws_iter_exception6 (dr_ws6 rd)"
  have i: "?i < SFE_IPV6_EXCEPTION_EVENT_LAST" using w st by (simp add: ws_ok6_def)
  obtain e name where n: "sfe_ipv6_exception_events_string ! ?i = (e, name)" by (cases "sfe_ipv6_exception_events_string ! ?i")
  note D = sfe_ipv6_debug_dev_read_exceptions_exception_def Let_def n
  show ?thesis
  proof (cases "exception_events64_v6 ?si e = 0")
    case True
    then show ?thesis
      unfolding good_write6_def using next_exception_facts6 [OF st i]
      by (intro exI [of _ "next_exception6 rd"] exI [of _ "[]"])
        (simp add: st D printed_all6_def pending6.simps [of env cs "dr_si6 rd" "dr_ws6 rd"] rest_exceptions6_def
          exception_pieces_step6 [OF i n] next_exception6_def)
  next
    case False
    let ?s = "exception_xml name (exception_events64_v6 ?si e)"
    obtain rd1 where m: "write_msg6 env ?s rd = (True, rd1)" and p: "printed6 ?s rd rd1" and f: "dr_si6 rd1 = ?si" "dr_ws6 rd1 = dr_ws6 rd"
      using write_msg_ok6 [OF ok, of ?s rd] by auto
    have st1: "ws_state6 (dr_ws6 rd1) = XML_EXCEPTIONS_EXCEPTION6" "ws_iter_exception6 (dr_ws6 rd1) < SFE_IPV6_EXCEPTION_EVENT_LAST"
      using st i f by simp_all
    note N = next_exception_facts6 [OF st1, unfolded f]
    have "(next_exception6 rd1, rd) \<in> read_order6 cs"
      using N(3) [of cs] f by (simp add: read_order6_def)
    moreover have "printed_all6 [?s] rd (next_exception6 rd1)" using p N by (simp add: printed_all6_def printed6_def)
    ultimately show ?thesis
      unfolding good_write6_def using False N(1,2,4) m
      by (intro exI [of _ "next_exception6 rd1"] exI [of _ "[?s]"])
        (simp add: st D pending6.simps [of env cs "dr_si6 rd" "dr_ws6 rd"] rest_exceptions6_def exception_pieces_step6 [OF i n] next_exception6_def)
  qed
qed

subsection \<open>All writers\<close>

lemma only_stats_si6:
  "only_stats6 si (si\<lparr>debug_read_seq6 := n\<rparr>)" "only_stats6 si (sfe_ipv6_update_summary_stats si)"
proof -
  have "same_shape6 si (si\<lparr>debug_read_seq6 := n\<rparr>)" by (simp add: same_shape6_def ft6_def)
  then show "only_stats6 si (si\<lparr>debug_read_seq6 := n\<rparr>)"
    by (simp add: only_stats6_def same_rules6_def same_adj_frame6)
  have "connections6 (sfe_ipv6_update_summary_stats si) = connections6 si" "matches6 (sfe_ipv6_update_summary_stats si) = matches6 si"
    "live_matches6 (sfe_ipv6_update_summary_stats si) = live_matches6 si"
    by (simp_all add: sfe_ipv6_update_summary_stats_def)
  then show "only_stats6 si (sfe_ipv6_update_summary_stats si)"
    by (simp add: only_stats6_def same_rules6_def same_adj_frame6)
qed

lemma writer_good6:
  assumes i: "sfe_inv6 (dr_si6 rd) g []" and ok: "\<And>n. de_copy_ok env n" and w: "ws_ok6 (dr_ws6 rd)"
    and st: "ws_state6 (dr_ws6 rd) \<noteq> XML_DONE6"
  shows "good_write6 env (ga g) rd"
proof (cases "ws_state6 (dr_ws6 rd)")
  case XML_START6
  then show ?thesis
    by (intro write_line_good6 [OF ok _ _ only_stats_si6(1) w])
      (simp_all add: sfe_ipv6_debug_dev_read_start_def pending6.simps Let_def)
next
  case XML_CONNECTIONS_START6
  then show ?thesis
    by (intro write_line_good6 [OF ok _ _ only_stats_refl6 w])
      (simp_all add: sfe_ipv6_debug_dev_read_connections_start_def pending6.simps)
next
  case XML_CONNECTIONS_CONNECTION6
  then show ?thesis by (rule connection_good6 [OF i ok _ w])
next
  case XML_CONNECTIONS_END6
  then show ?thesis
    by (intro write_line_good6 [OF ok _ _ only_stats_refl6 w])
      (simp_all add: sfe_ipv6_debug_dev_read_connections_end_def pending6.simps rest_connections_end6_def)
next
  case XML_EXCEPTIONS_START6
  then show ?thesis
    using w by (intro write_line_good6 [OF ok _ _ only_stats_refl6 w])
      (simp_all add: sfe_ipv6_debug_dev_read_exceptions_start_def pending6.simps rest_connections_end6_def ws_ok6_def)
next
  case XML_EXCEPTIONS_EXCEPTION6
  then show ?thesis by (rule exception_good6 [OF ok _ w])
next
  case XML_EXCEPTIONS_END6
  then show ?thesis
    by (intro write_line_good6 [OF ok _ _ only_stats_refl6 w])
      (simp_all add: sfe_ipv6_debug_dev_read_exceptions_end_def pending6.simps)
next
  case XML_STATS6
  then show ?thesis
    by (intro write_line_good6 [OF ok _ _ only_stats_si6(2) w])
      (simp_all add: sfe_ipv6_debug_dev_read_stats_def pending6.simps rest_stats6_def Let_def)
next
  case XML_END6
  then show ?thesis
    by (intro write_line_good6 [OF ok _ _ only_stats_refl6 w])
      (simp_all add: sfe_ipv6_debug_dev_read_end_def pending6.simps rest_end6_def)
qed (use st in simp)

section \<open>Every piece fits the buffer\<close>

lemma connection_line_short6:
  assumes "\<And>d. length (de_name env d) \<le> 15"
  shows "length (connection_line6 env c m m') < CHAR_DEV_MSG_SIZE - 1"
proof -
  note L = assms [of "c_original_dev6 c"] assms [of "c_reply_dev6 c"] print_u32_length [of "c_protocol6 c"]
    print_u16_length [of "ntohs (c_src_port6 c)"]
    print_u16_length [of "ntohs (c_src_port_xlate6 c)"] print_u16_length [of "ntohs (c_dest_port6 c)"]
    print_u16_length [of "ntohs (c_dest_port_xlate6 c)"] print_u32_length [of "cm_priority6 m"] print_u32_length [of "cm_priority6 m'"]
    print_u32_length [of "drop_bit SFE_IPV6_DSCP_SHIFT (cm_dscp6 m)"] print_u32_length [of "drop_bit SFE_IPV6_DSCP_SHIFT (cm_dscp6 m')"]
    print_u64_length [of "cm_rx_packet_count64_v6 m"] print_u64_length [of "cm_rx_packet_count64_v6 m'"]
    print_u64_length [of "cm_rx_byte_count64_v6 m"] print_u64_length [of "cm_rx_byte_count64_v6 m'"]
    print_u64_length [of "de_jiffies env - c_last_sync_jiffies6 c"]
  show ?thesis
    using L by (simp add: connection_line6_def attr_length CHAR_DEV_MSG_SIZE_def print_pI6_def print_ip6_length)
qed

lemma stats_line_short6: "length (stats_line6 si) < CHAR_DEV_MSG_SIZE - 1"
  using print_u32_length [of "num_connections6 si"] print_u64_length [of "packets_forwarded64_v6 si"]
    print_u64_length [of "packets_not_forwarded64_v6 si"] print_u64_length [of "connection_create_requests64_v6 si"]
    print_u64_length [of "connection_create_collisions64_v6 si"] print_u64_length [of "connection_destroy_requests64_v6 si"]
    print_u64_length [of "connection_destroy_misses64_v6 si"] print_u64_length [of "connection_flushes64_v6 si"]
    print_u64_length [of "connection_match_hash_hits64_v6 si"] print_u64_length [of "connection_match_hash_reorders64_v6 si"]
  by (simp add: stats_line6_def attr_length CHAR_DEV_MSG_SIZE_def)

lemma exception_names_short6: "\<forall>(e, name) \<in> set sfe_ipv6_exception_events_string. length name \<le> 40"
  by (simp add: sfe_ipv6_exception_events_string_def)

lemma exception_pieces_short6: "s \<in> set (exception_pieces6 si i) \<Longrightarrow> length s < CHAR_DEV_MSG_SIZE - 1"
proof -
  assume "s \<in> set (exception_pieces6 si i)"
  then obtain e name where n: "(e, name) \<in> set sfe_ipv6_exception_events_string"
    and s: "s = exception_xml name (exception_events64_v6 si e)"
    by (auto simp: exception_pieces6_def dest: in_set_dropD)
  from n exception_names_short6 have "length name \<le> 40" by auto
  then show ?thesis
    using print_u64_length [of "exception_events64_v6 si e"] by (simp add: s exception_xml_def attr_length CHAR_DEV_MSG_SIZE_def)
qed

lemma pending_short6:
  assumes "\<And>d. length (de_name env d) \<le> 15" and "s \<in> set (pending6 env cs si ws)"
  shows "length s < CHAR_DEV_MSG_SIZE - 1"
proof -
  have e: "s \<in> set rest_end6 \<Longrightarrow> length s < CHAR_DEV_MSG_SIZE - 1" by (simp add: rest_end6_def CHAR_DEV_MSG_SIZE_def)
  have st: "s \<in> set (rest_stats6 si) \<Longrightarrow> length s < CHAR_DEV_MSG_SIZE - 1" for si
    using e stats_line_short6 by (auto simp: rest_stats6_def)
  have x: "s \<in> set (rest_exceptions6 si i) \<Longrightarrow> length s < CHAR_DEV_MSG_SIZE - 1" for si i
    using st exception_pieces_short6 by (auto simp: rest_exceptions6_def CHAR_DEV_MSG_SIZE_def)
  have ce: "s \<in> set (rest_connections_end6 si) \<Longrightarrow> length s < CHAR_DEV_MSG_SIZE - 1" for si
    using x by (auto simp: rest_connections_end6_def CHAR_DEV_MSG_SIZE_def)
  have c: "s \<in> set (rest_connections6 env cs si) \<Longrightarrow> length s < CHAR_DEV_MSG_SIZE - 1" for si
    using ce connection_line_short6 [OF assms(1)] by (auto simp: rest_connections6_def conn_xml6_def Let_def)
  show ?thesis
    using assms(2) e st x ce c list.set_sel(2) [of "rest_connections_end6 si" s]
    by (cases "ws_state6 ws") (auto simp: pending6.simps rest_connections_end6_def CHAR_DEV_MSG_SIZE_def)
qed

section \<open>A whole read\<close>

definition read_done6 :: "debug_env \<Rightarrow> ptr list \<Rightarrow> debug_read6 \<Rightarrow> debug_read6 \<Rightarrow> bool" where
  "read_done6 env cs rd rd' \<longleftrightarrow> (\<exists>out. pending6 env cs (dr_si6 rd) (dr_ws6 rd) = out @ pending6 env cs (dr_si6 rd') (dr_ws6 rd')
     \<and> only_stats6 (dr_si6 rd) (dr_si6 rd') \<and> ws_ok6 (dr_ws6 rd')
     \<and> text_at (dr_user6 rd') (dr_total6 rd) (concat out) \<and> dr_total6 rd' = dr_total6 rd + length (concat out)
     \<and> unat (dr_length6 rd') + length (concat out) = unat (dr_length6 rd)
     \<and> (\<forall>i. i < dr_total6 rd \<or> dr_total6 rd + unat (dr_length6 rd) \<le> i \<longrightarrow> dr_user6 rd' i = dr_user6 rd i))"

lemma read_done_refl6: "ws_ok6 (dr_ws6 rd) \<Longrightarrow> read_done6 env cs rd rd"
  by (simp add: read_done6_def text_at_def)

text \<open>One writer with room for a whole buffer, then the rest.\<close>

lemma read_done_step6:
  assumes p: "pending6 env cs (dr_si6 rd) (dr_ws6 rd) = ss @ pending6 env cs (dr_si6 rd1) (dr_ws6 rd1)" and w: "printed_all6 ss rd rd1"
    and s: "\<forall>s \<in> set ss. length s < CHAR_DEV_MSG_SIZE - 1" and l: "of_nat CHAR_DEV_MSG_SIZE < dr_length6 rd"
    and o: "only_stats6 (dr_si6 rd) (dr_si6 rd1)" and d: "read_done6 env cs rd1 rd'"
  shows "read_done6 env cs rd rd'"
proof -
  obtain out where D: "pending6 env cs (dr_si6 rd1) (dr_ws6 rd1) = out @ pending6 env cs (dr_si6 rd') (dr_ws6 rd')"
    "only_stats6 (dr_si6 rd1) (dr_si6 rd')" "ws_ok6 (dr_ws6 rd')" "text_at (dr_user6 rd') (dr_total6 rd1) (concat out)"
    "dr_total6 rd' = dr_total6 rd1 + length (concat out)" "unat (dr_length6 rd') + length (concat out) = unat (dr_length6 rd1)"
    "\<And>i. i < dr_total6 rd1 \<or> dr_total6 rd1 + unat (dr_length6 rd1) \<le> i \<Longrightarrow> dr_user6 rd' i = dr_user6 rd1 i"
    using d unfolding read_done6_def by (elim exE conjE) (rule that, assumption+, blast)
  have len: "768 < unat (dr_length6 rd)" using l by (simp add: CHAR_DEV_MSG_SIZE_def word_less_nat_alt)
  have P: "dr_total6 rd1 = dr_total6 rd + length (concat ss) \<and> unat (dr_length6 rd1) + length (concat ss) = unat (dr_length6 rd)
    \<and> text_at (dr_user6 rd1) (dr_total6 rd) (concat ss)
    \<and> (\<forall>i. i < dr_total6 rd \<or> dr_total6 rd + unat (dr_length6 rd) \<le> i \<longrightarrow> dr_user6 rd1 i = dr_user6 rd i)"
  proof (cases ss)
    case Nil
    then show ?thesis using w by (simp add: printed_all6_def text_at_def)
  next
    case (Cons x xs)
    then have x: "ss = [x]" using w by (cases xs) (simp_all add: printed_all6_def)
    have lx: "length x < 767" using s by (simp add: x CHAR_DEV_MSG_SIZE_def)
    then have "of_nat (length x) \<le> dr_length6 rd" and "unat (of_nat (length x) :: u64) = length x"
      using len by (simp_all add: word_le_nat_alt unat_of_nat take_bit_eq_mod)
    then have "unat (dr_length6 rd - of_nat (length x)) + length x = unat (dr_length6 rd)"
      by (simp add: unat_sub word_le_nat_alt)
    then show ?thesis
      using w lx len by (simp add: x printed_all6_def printed6_def text_at_def CHAR_DEV_MSG_SIZE_def)
  qed
  have keep: "dr_user6 rd' i = dr_user6 rd1 i" if "i < dr_total6 rd + length (concat ss)" for i using D(7) P that by simp
  have "text_at (dr_user6 rd') (dr_total6 rd) (concat ss)"
    using P keep by (simp add: text_at_def)
  then show ?thesis
    unfolding read_done6_def using p D P o
    by (intro exI [of _ "ss @ out"]) (auto simp: text_at_append keep intro: only_stats_trans6)
qed

lemma debug_read_loop_done6:
  assumes "\<And>n. de_copy_ok env n" and "\<And>d. length (de_name env d) \<le> 15" and "sfe_inv6 (dr_si6 rd) g []" and "ws_ok6 (dr_ws6 rd)"
  shows "\<exists>rd'. debug_read_loop6 env rd = Some rd' \<and> read_done6 env (ga g) rd rd'
    \<and> (ws_state6 (dr_ws6 rd') = XML_DONE6 \<or> dr_length6 rd' \<le> of_nat CHAR_DEV_MSG_SIZE)"
  using assms(3,4)
proof (induction rd rule: wf_induct_rule [OF wf_read_order6 [of "ga g"]])
  case 2: (1 rd)
  show ?case
  proof (cases "ws_state6 (dr_ws6 rd) \<noteq> XML_DONE6 \<and> dr_length6 rd > of_nat CHAR_DEV_MSG_SIZE")
    case False
    then show ?thesis
      using 2 read_done_refl6 by (intro exI [of _ rd]) (auto simp: debug_read_loop6.simps not_less)
  next
    case True
    then have "good_write6 env (ga g) rd" using writer_good6 [OF 2(2) assms(1) 2(3)] by blast
    then obtain rd1 ss where W: "sfe_ipv6_debug_xml_write_methods (ws_state6 (dr_ws6 rd)) env rd = Some (True, rd1)"
      "pending6 env (ga g) (dr_si6 rd) (dr_ws6 rd) = ss @ pending6 env (ga g) (dr_si6 rd1) (dr_ws6 rd1)" "printed_all6 ss rd rd1"
      "only_stats6 (dr_si6 rd) (dr_si6 rd1)" "ws_ok6 (dr_ws6 rd1)" "(rd1, rd) \<in> read_order6 (ga g)"
      unfolding good_write6_def by (elim exE conjE) (rule that)
    have i1: "sfe_inv6 (dr_si6 rd1) g []" using W(4) sfe_inv_same_shape6 [OF _ 2(2)] by (simp add: only_stats6_def)
    obtain rd' where R: "debug_read_loop6 env rd1 = Some rd'" "read_done6 env (ga g) rd1 rd'"
      "ws_state6 (dr_ws6 rd') = XML_DONE6 \<or> dr_length6 rd' \<le> of_nat CHAR_DEV_MSG_SIZE"
      using 2(1) [OF W(6) i1 W(5)] by (elim exE conjE) (rule that)
    have "\<forall>s \<in> set ss. length s < CHAR_DEV_MSG_SIZE - 1"
      using pending_short6 [OF assms(2)] W(2) by (metis UnCI set_append)
    then have "read_done6 env (ga g) rd rd'"
      using read_done_step6 [OF W(2,3) _ _ W(4) R(2)] True by simp
    moreover have "debug_read_loop6 env rd = debug_read_loop6 env rd1"
      using True W(1) by (subst debug_read_loop6.simps) simp
    ultimately show ?thesis using R by simp
  qed
qed

lemma only_stats_good6:
  assumes "only_stats6 si si'" and "sfe_inv6 si g []" and "adj_inv6 si" shows "sfe_good6 si'"
proof -
  have "sfe_inv6 si' g []" "adj_inv6 si'"
    using sfe_inv_same_shape6 [OF _ assms(2)] adj_inv_same6 [OF _ assms(3)] assms(1) by (simp_all add: only_stats6_def)
  then show ?thesis unfolding sfe_good6_def sfe_wf6_def by blast
qed

lemma debug_read_spec6:
  assumes "sfe_inv6 si g []" and "adj_inv6 si" and "ws_ok6 ws" and "\<And>n. de_copy_ok env n" and "\<And>d. length (de_name env d) \<le> 15"
  shows "\<exists>n rd out. sfe_ipv6_debug_dev_read env si ws msg user len = Some (n, rd) \<and> sfe_good6 (dr_si6 rd)
    \<and> sfe_rules6 (dr_si6 rd) = sfe_rules6 si \<and> ws_ok6 (dr_ws6 rd)
    \<and> pending6 env (ga g) si ws = out @ pending6 env (ga g) (dr_si6 rd) (dr_ws6 rd)
    \<and> n = length (concat out) \<and> text_at (dr_user6 rd) 0 (concat out)
    \<and> n \<le> unat len \<and> (\<forall>i \<ge> unat len. dr_user6 rd i = user i)
    \<and> (ws_state6 (dr_ws6 rd) = XML_DONE6 \<or> unat len \<le> n + CHAR_DEV_MSG_SIZE)"
proof -
  let ?rd = "\<lparr>dr_si6 = si, dr_ws6 = ws, dr_msg6 = msg, dr_user6 = user, dr_length6 = len, dr_total6 = 0, dr_calls6 = 0\<rparr>"
  have "sfe_inv6 (dr_si6 ?rd) g []" "ws_ok6 (dr_ws6 ?rd)" using assms by simp_all
  from debug_read_loop_done6 [OF assms(4,5) this] obtain rd where R: "debug_read_loop6 env ?rd = Some rd" "read_done6 env (ga g) ?rd rd"
    "ws_state6 (dr_ws6 rd) = XML_DONE6 \<or> dr_length6 rd \<le> of_nat CHAR_DEV_MSG_SIZE"
    by (elim exE conjE) (rule that)
  obtain out where D: "pending6 env (ga g) si ws = out @ pending6 env (ga g) (dr_si6 rd) (dr_ws6 rd)" "only_stats6 si (dr_si6 rd)"
    "ws_ok6 (dr_ws6 rd)" "text_at (dr_user6 rd) 0 (concat out)" "dr_total6 rd = length (concat out)"
    "unat (dr_length6 rd) + length (concat out) = unat len" "\<forall>i. unat len \<le> i \<longrightarrow> dr_user6 rd i = user i"
    using R(2) unfolding read_done6_def debug_read6.simps by (elim exE conjE) (rule that, simp_all)
  have g: "sfe_good6 (dr_si6 rd)"
    by (rule only_stats_good6 [OF D(2) assms(1,2)])
  have r: "sfe_rules6 (dr_si6 rd) = sfe_rules6 si"
    by (rule rules_same_shape6 [OF assms(1)]) (use D(2) in \<open>simp_all add: only_stats6_def\<close>)
  have l: "ws_state6 (dr_ws6 rd) = XML_DONE6 \<or> unat len \<le> length (concat out) + CHAR_DEV_MSG_SIZE"
    using R(3) D(6) by (auto simp: CHAR_DEV_MSG_SIZE_def word_le_nat_alt)
  have le: "length (concat out) \<le> unat len" using D(6) by linarith
  have "sfe_ipv6_debug_dev_read env si ws msg user len = Some (length (concat out), rd)"
    using R(1) D(5) by (simp add: sfe_ipv6_debug_dev_read_def)
  then show ?thesis
    using D(1,3,4,7) g r l le by (intro exI [of _ "length (concat out)"] exI [of _ rd] exI [of _ out] conjI) simp_all
qed

text \<open>The connections of the tables, in the order of the list of all connections.\<close>

definition connection_list6 :: "sfe_ipv6 \<Rightarrow> ptr list \<Rightarrow> bool" where
  "connection_list6 si cs \<longleftrightarrow> distinct cs \<and> (\<forall>key c. sfe_lookup6 si key = Some c \<longleftrightarrow> c \<in> set cs \<and> c_key6 (connections6 si c) = key)"

lemma inv_connection_list6:
  assumes "sfe_inv6 si g []" shows "connection_list6 si (ga g)"
  unfolding connection_list6_def lookup_iff6 [OF assms] using assms by (simp add: sfe_inv6_def mem_ok6_def)

text \<open>
  A read of the debug device always returns when its copies succeed, keeps the engine well formed
  and its rules, and writes nothing past the end of the caller's buffer. What it returns is the next
  pieces of the document, whole and in order; what is left is exactly what the next read starts with,
  and it stops only at the end of the document or when less than a buffer is free.
\<close>

theorem debug_read_pieces6:
  assumes "sfe_good6 si" and "ws_ok6 ws" and "\<And>n. de_copy_ok env n" and "\<And>d. length (de_name env d) \<le> 15"
  shows "\<exists>n rd out cs. sfe_ipv6_debug_dev_read env si ws msg user len = Some (n, rd) \<and> sfe_good6 (dr_si6 rd)
    \<and> sfe_rules6 (dr_si6 rd) = sfe_rules6 si \<and> ws_ok6 (dr_ws6 rd) \<and> connection_list6 si cs
    \<and> pending6 env cs si ws = out @ pending6 env cs (dr_si6 rd) (dr_ws6 rd)
    \<and> n = length (concat out) \<and> text_at (dr_user6 rd) 0 (concat out)
    \<and> n \<le> unat len \<and> (\<forall>i \<ge> unat len. dr_user6 rd i = user i)
    \<and> (ws_state6 (dr_ws6 rd) = XML_DONE6 \<or> unat len \<le> n + CHAR_DEV_MSG_SIZE)"
proof -
  from assms(1) obtain g where i: "sfe_inv6 si g []" and a: "adj_inv6 si" by (rule good_invE6)
  obtain n rd out where "sfe_ipv6_debug_dev_read env si ws msg user len = Some (n, rd) \<and> sfe_good6 (dr_si6 rd)
    \<and> sfe_rules6 (dr_si6 rd) = sfe_rules6 si \<and> ws_ok6 (dr_ws6 rd)
    \<and> pending6 env (ga g) si ws = out @ pending6 env (ga g) (dr_si6 rd) (dr_ws6 rd)
    \<and> n = length (concat out) \<and> text_at (dr_user6 rd) 0 (concat out)
    \<and> n \<le> unat len \<and> (\<forall>i \<ge> unat len. dr_user6 rd i = user i)
    \<and> (ws_state6 (dr_ws6 rd) = XML_DONE6 \<or> unat len \<le> n + CHAR_DEV_MSG_SIZE)"
    using debug_read_spec6 [OF i a assms(2-4), of msg user len] by (elim exE) (rule that)
  then show ?thesis
    using inv_connection_list6 [OF i] by blast
qed

definition fresh_ws6 :: sfe_ipv6_debug_xml_write_state where
  "fresh_ws6 = \<lparr>ws_state6 = XML_START6, ws_iter_exception6 = 0\<rparr>"

lemma example_env_ok6: "ws_ok6 fresh_ws6" "de_copy_ok example_env n" "length (de_name example_env d) \<le> 15"
  by (simp_all add: ws_ok6_def fresh_ws6_def example_env_def)

lemma debug_read_pieces6_witness:
  "\<exists>n rd. sfe_ipv6_debug_dev_read example_env example_si6 fresh_ws6 (\<lambda>_. CHR ''x'') (\<lambda>_. CHR ''y'') 1000 = Some (n, rd)
     \<and> sfe_good6 (dr_si6 rd) \<and> dr_user6 rd 1000 = CHR ''y''"
proof -
  have "unat (1000 :: u64) \<le> 1000" by simp
  then show ?thesis
    using debug_read_pieces6 [OF example_good6 example_env_ok6, of "\<lambda>_. CHR ''x''" "\<lambda>_. CHR ''y''" 1000] by blast
qed

definition document6 :: "debug_env \<Rightarrow> sfe_ipv6 \<Rightarrow> ptr list \<Rightarrow> string" where
  "document6 env si cs = concat ([''<sfe_ipv6>'' @ newline, tab @ ''<connections>'' @ newline]
     @ map (conn_xml6 env si) cs
     @ [tab @ ''</connections>'' @ newline, tab @ ''<exceptions>'' @ newline]
     @ exception_pieces6 si 0
     @ [tab @ ''</exceptions>'' @ newline, stats_line6 (sfe_ipv6_update_summary_stats si), ''</sfe_ipv6>'' @ newline])"

lemma pending_document6:
  assumes "\<And>c. c \<in> set cs \<Longrightarrow> c_debug_read_seq6 (connections6 si c) \<le> debug_read_seq6 si" and "debug_read_seq6 si \<noteq> - 1"
  shows "concat (pending6 env cs si fresh_ws6) = document6 env si cs"
proof -
  let ?si = "si\<lparr>debug_read_seq6 := debug_read_seq6 si + 1\<rparr>"
  have lt: "debug_read_seq6 si < debug_read_seq6 si + 1"
    using assms(2) inc_less_eq_triv_imp [of "debug_read_seq6 si"] by (metis not_le)
  have "unread6 ?si cs = cs"
    unfolding unread6_def by (rule filter_True) (use order.strict_trans1 [OF assms(1) lt] in simp)
  moreover have "conn_xml6 env ?si c = conn_xml6 env si c" for c by (simp add: conn_xml6_def)
  moreover have "rest_connections_end6 ?si = rest_connections_end6 si"
    by (simp add: rest_connections_end6_def rest_exceptions6_def exception_pieces6_def rest_stats6_def stats_line6_def
        sfe_ipv6_update_summary_stats_def)
  ultimately show ?thesis
    by (simp add: pending6.simps fresh_ws6_def rest_connections6_def document6_def rest_connections_end6_def rest_exceptions6_def
        rest_stats6_def rest_end6_def cong: map_cong)
qed

text \<open>
  One read with room enough gives the whole document: the connections of the tables, each exactly
  once, then the exceptions that occurred and the statistics, in well-nested elements; the state
  machine is then at its end, and another read gives nothing.
\<close>

theorem debug_read_document6:
  assumes "sfe_good6 si" and "\<And>n. de_copy_ok env n" and "\<And>d. length (de_name env d) \<le> 15"
    and "\<And>c. c \<in> live_connections6 si \<Longrightarrow> c_debug_read_seq6 (connections6 si c) \<le> debug_read_seq6 si" and "debug_read_seq6 si \<noteq> - 1"
    and "\<And>cs. connection_list6 si cs \<Longrightarrow> length (document6 env si cs) + CHAR_DEV_MSG_SIZE < unat len"
  shows "\<exists>rd cs. connection_list6 si cs
    \<and> sfe_ipv6_debug_dev_read env si fresh_ws6 msg user len = Some (length (document6 env si cs), rd)
    \<and> text_at (dr_user6 rd) 0 (document6 env si cs) \<and> ws_state6 (dr_ws6 rd) = XML_DONE6
    \<and> map_option fst (sfe_ipv6_debug_dev_read env (dr_si6 rd) (dr_ws6 rd) msg user len) = Some 0"
proof -
  from assms(1) obtain g where i: "sfe_inv6 si g []" and a: "adj_inv6 si" by (rule good_invE6)
  note cl = inv_connection_list6 [OF i]
  obtain n rd out where R: "sfe_ipv6_debug_dev_read env si fresh_ws6 msg user len = Some (n, rd)"
    "pending6 env (ga g) si fresh_ws6 = out @ pending6 env (ga g) (dr_si6 rd) (dr_ws6 rd)" "n = length (concat out)"
    "text_at (dr_user6 rd) 0 (concat out)" "ws_state6 (dr_ws6 rd) = XML_DONE6 \<or> unat len \<le> n + CHAR_DEV_MSG_SIZE"
    using debug_read_spec6 [OF i a example_env_ok6(1) assms(2,3), of msg user len] by (elim exE conjE) (rule that)
  have "c \<in> live_connections6 si" if "c \<in> set (ga g)" for c using that i by (simp add: sfe_inv6_def mem_ok6_def)
  then have doc: "concat (pending6 env (ga g) si fresh_ws6) = document6 env si (ga g)"
    using assms(4,5) by (intro pending_document6) auto
  then have "n \<le> length (document6 env si (ga g))" using R(2,3) by (simp flip: doc)
  then have fin: "ws_state6 (dr_ws6 rd) = XML_DONE6" using R(5) assms(6) [OF cl] by linarith
  then have "pending6 env (ga g) (dr_si6 rd) (dr_ws6 rd) = []" by (simp add: pending6.simps)
  then have "concat out = document6 env si (ga g)" using R(2) doc by simp
  moreover have "map_option fst (sfe_ipv6_debug_dev_read env (dr_si6 rd) (dr_ws6 rd) msg user len) = Some 0"
    using fin by (simp add: sfe_ipv6_debug_dev_read_def debug_read_loop6.simps)
  ultimately show ?thesis using R cl fin by (intro exI [of _ rd] exI [of _ "ga g"]) simp
qed

lemma example_connection_list6: "connection_list6 example_si6 cs \<Longrightarrow> cs = [2]"
proof -
  assume c: "connection_list6 example_si6 cs"
  obtain g where i: "sfe_inv6 example_si6 g []" using example_good6 by (rule good_invE6)
  have "live_connections6 example_si6 = {2}" by code_simp
  then have "set (ga g) = {2}" using i by (simp add: sfe_inv6_def mem_ok6_def)
  moreover have "set cs = set (ga g)"
    using c inv_connection_list6 [OF i] unfolding connection_list6_def by blast
  ultimately show "cs = [2]" using c unfolding connection_list6_def by (cases cs; cases "tl cs") auto
qed

text \<open>The number of pieces bounds the length of the document.\<close>

lemma document_length6:
  assumes "\<And>d. length (de_name env d) \<le> 15"
    and "\<And>c. c \<in> set cs \<Longrightarrow> c_debug_read_seq6 (connections6 si c) \<le> debug_read_seq6 si" and "debug_read_seq6 si \<noteq> - 1"
  shows "length (document6 env si cs) \<le> 768 * (length cs + 44)"
proof -
  have bound: "length (concat ss) \<le> 768 * length ss" if "\<And>s. s \<in> set ss \<Longrightarrow> length s < 767" for ss :: "string list"
    using that by (induction ss) (force, fastforce intro: less_imp_le)
  have "length (exception_pieces6 si 0) \<le> 37"
    unfolding exception_pieces6_def length_map
    by (rule order.trans [OF length_filter_le]) (simp add: sfe_ipv6_exception_events_string_def)
  then have "length (unread6 (si\<lparr>debug_read_seq6 := debug_read_seq6 si + 1\<rparr>) cs) + length (exception_pieces6 si 0) \<le> length cs + 37"
    unfolding unread6_def by (rule add_mono [OF length_filter_le])
  moreover have "exception_pieces6 (si\<lparr>debug_read_seq6 := n\<rparr>) 0 = exception_pieces6 si 0" for n
    by (simp add: exception_pieces6_def)
  ultimately have "length (pending6 env cs si fresh_ws6) \<le> length cs + 44"
    by (simp add: pending6.simps fresh_ws6_def rest_connections6_def rest_connections_end6_def rest_exceptions6_def rest_stats6_def
        rest_end6_def)
  moreover have "length (concat (pending6 env cs si fresh_ws6)) \<le> 768 * length (pending6 env cs si fresh_ws6)"
    using pending_short6 [OF assms(1)] by (intro bound) (simp add: CHAR_DEV_MSG_SIZE_def)
  moreover have "concat (pending6 env cs si fresh_ws6) = document6 env si cs"
    by (rule pending_document6) (use assms(2,3) in blast)+
  ultimately show ?thesis by simp
qed

lemma debug_read_document6_witness:
  "\<exists>rd. sfe_ipv6_debug_dev_read example_env example_si6 fresh_ws6 (\<lambda>_. CHR ''x'') (\<lambda>_. CHR ''y'') 100000
     = Some (length (document6 example_env example_si6 [2]), rd) \<and> text_at (dr_user6 rd) 0 (document6 example_env example_si6 [2])"
proof -
  have 1: "c_debug_read_seq6 (connections6 example_si6 c) \<le> debug_read_seq6 example_si6" if "c \<in> live_connections6 example_si6" for c
  proof -
    have "live_connections6 example_si6 = {2} \<and> c_debug_read_seq6 (connections6 example_si6 2) \<le> debug_read_seq6 example_si6" by code_simp
    with that show ?thesis by simp
  qed
  have 2: "debug_read_seq6 example_si6 \<noteq> - 1" by code_simp
  have live: "(2 :: ptr) \<in> live_connections6 example_si6" by code_simp
  have 3: "length (document6 example_env example_si6 cs) + CHAR_DEV_MSG_SIZE < unat (100000 :: u64)"
    if "connection_list6 example_si6 cs" for cs
  proof -
    have "length (document6 example_env example_si6 cs) \<le> 768 * (length cs + 44)"
      using 1 live example_connection_list6 [OF that] by (intro document_length6 example_env_ok6 2) simp
    then show ?thesis using example_connection_list6 [OF that] by (simp add: CHAR_DEV_MSG_SIZE_def)
  qed
  have "\<exists>rd cs. connection_list6 example_si6 cs
    \<and> sfe_ipv6_debug_dev_read example_env example_si6 fresh_ws6 (\<lambda>_. CHR ''x'') (\<lambda>_. CHR ''y'') 100000
        = Some (length (document6 example_env example_si6 cs), rd)
    \<and> text_at (dr_user6 rd) 0 (document6 example_env example_si6 cs) \<and> ws_state6 (dr_ws6 rd) = XML_DONE6
    \<and> map_option fst (sfe_ipv6_debug_dev_read example_env (dr_si6 rd) (dr_ws6 rd) (\<lambda>_. CHR ''x'') (\<lambda>_. CHR ''y'') 100000) = Some 0"
    by (rule debug_read_document6 [OF example_good6 example_env_ok6(2,3)]) (use 1 2 3 in blast)+
  with example_connection_list6 show ?thesis by blast
qed

section \<open>A copy that keeps failing\<close>

text \<open>
  When the caller's memory cannot be written, a read of the debug device never returns: the loop
  calls the failed writer again, for ever.
\<close>

theorem debug_read_stuck6:
  assumes "\<And>n. \<not> de_copy_ok env n" and "ws_state6 ws = XML_START6" and "len > of_nat CHAR_DEV_MSG_SIZE"
  shows "sfe_ipv6_debug_dev_read env si ws msg user len = None"
proof -
  have stuck: "\<not> (ws_state6 (dr_ws6 rd) = XML_START6 \<and> dr_length6 rd > of_nat CHAR_DEV_MSG_SIZE)"
    if "debug_read_loop6 env rd = Some rd'" for rd rd'
  proof -
    have "(\<forall>n. \<not> de_copy_ok env n) \<longrightarrow> \<not> (ws_state6 (dr_ws6 rd) = XML_START6 \<and> dr_length6 rd > of_nat CHAR_DEV_MSG_SIZE)"
      using _ that
    proof (rule debug_read_loop6.raw_induct)
      fix loop :: "debug_env \<Rightarrow> debug_read6 \<Rightarrow> debug_read6 option" and e :: debug_env and rd rd'
      assume IH: "\<And>e rd rd'. loop e rd = Some rd' \<Longrightarrow> (\<forall>n. \<not> de_copy_ok e n)
          \<longrightarrow> \<not> (ws_state6 (dr_ws6 rd) = XML_START6 \<and> dr_length6 rd > of_nat CHAR_DEV_MSG_SIZE)"
        and r: "(if ws_state6 (dr_ws6 rd) \<noteq> XML_DONE6 \<and> of_nat CHAR_DEV_MSG_SIZE < dr_length6 rd
           then sfe_ipv6_debug_xml_write_methods (ws_state6 (dr_ws6 rd)) e rd \<bind> (\<lambda>(ok, rd). loop e rd) else Some rd) = Some rd'"
      show "(\<forall>n. \<not> de_copy_ok e n) \<longrightarrow> \<not> (ws_state6 (dr_ws6 rd) = XML_START6 \<and> dr_length6 rd > of_nat CHAR_DEV_MSG_SIZE)"
      proof (intro impI notI)
        assume no: "\<forall>n. \<not> de_copy_ok e n" and s: "ws_state6 (dr_ws6 rd) = XML_START6 \<and> dr_length6 rd > of_nat CHAR_DEV_MSG_SIZE"
        obtain rd1 where "sfe_ipv6_debug_xml_write_methods (ws_state6 (dr_ws6 rd)) e rd = Some (False, rd1)"
          and f: "dr_ws6 rd1 = dr_ws6 rd" "dr_length6 rd1 = dr_length6 rd"
          using no s by (auto simp: sfe_ipv6_debug_dev_read_start_def write_line6_def write_msg6_def Let_def)
        with r s have "loop e rd1 = Some rd'" by simp
        from IH [OF this] no s f show False by simp
      qed
    qed
    with assms(1) show ?thesis by blast
  qed
  let ?rd = "\<lparr>dr_si6 = si, dr_ws6 = ws, dr_msg6 = msg, dr_user6 = user, dr_length6 = len, dr_total6 = 0, dr_calls6 = 0\<rparr>"
  have "debug_read_loop6 env ?rd = None"
    using stuck [of ?rd] assms(2,3) by (cases "debug_read_loop6 env ?rd") simp_all
  then show ?thesis unfolding sfe_ipv6_debug_dev_read_def by simp
qed

lemma debug_read_stuck6_witness:
  "sfe_ipv6_debug_dev_read (example_env\<lparr>de_copy_ok := \<lambda>_. False\<rparr>) example_si6 fresh_ws6 (\<lambda>_. CHR ''x'') (\<lambda>_. CHR ''y'') 10000 = None"
  by (rule debug_read_stuck6) (simp_all add: fresh_ws6_def CHAR_DEV_MSG_SIZE_def)

end
