(* ===== verification/Spec2Isabelle.thy ===== *)
theory Spec2Isabelle
  imports SFE_CM_System SFE_FC_Conntrack SFE_Drv_System SFE_IPv4_Debug_Props SFE_IPv6_System SFE_IPv6_Debug_Props
begin

text \<open>
  A verification development for the Shortcut Forwarding Engine of the router's kernel packages
  (\<open>src/qca/src/shortcut-fe\<close>).

  THE PROGRAM. Two engines (\<open>sfe_ipv4.c\<close>, \<open>sfe_ipv6.c\<close>) forward packets
  of known flows without the Linux network stack. Each keeps connections, with two matches each
  (one per direction), in two hash tables, in one list of all connections and one list of matches
  with unreported counts. The data path (\<open>sfe_ipv4_recv\<close>,
  \<open>sfe_ipv6_recv\<close>) looks a packet's match up, checks that the packet may be
  forwarded, rewrites addresses, ports, TTL or hop limit and checksums, puts the layer 2 header in
  front and hands the buffer to the output device; a packet it does not forward goes back to the
  network stack untouched. The control path adds, updates, marks and removes rules, reports counts
  by a callback, and runs from a timer. The connection manager (\<open>sfe_cm.c\<close>) feeds
  both: a hook in post routing reads the conntrack entry of a slow packet and composes a rule,
  conntrack and device events remove rules, and the sync callback writes counts and TCP windows
  back into conntrack. The fast classifier (\<open>fast-classifier.c\<close>) does the same job in
  another way: its hook keeps a table of the flows it has seen and offloads a flow after a number
  of packets or when user space asks for it. The simulated driver
  (\<open>simulated-driver/sfe_drv.c\<close>) is a third client: it turns messages of another
  connection manager into requests and queues a response to each, which a worker sends. A
  character device of each engine shows its state as XML.

  CONFIGURATION. 64 bit little-endian host, Linux 3.9 or later, \<open>CONFIG_XFRM\<close>,
  \<open>CONFIG_NF_CONNTRACK_EVENTS\<close> and \<open>SFE_SUPPORT_IPV6\<close> set,
  \<open>CONFIG_NF_FLOW_COOKIE\<close> and \<open>CONFIG_NF_CONNTRACK_CHAIN_EVENTS\<close> unset;
  \<open>CONFIG_NET_CLS_ACT\<close> is set for the simulated driver. The fast classifier undefines
  \<open>CONFIG_NF_CONNTRACK_EVENTS\<close> for itself.

  THEORIES AND CODE. Shared by the engines:
  \<open>SFE_Prelude\<close>: machine words, packet bytes with 16 and 32 bit loads and stores, sums modulo 65535,
  the \<open>mem_simps\<close> hints.
  \<open>Dll\<close>: doubly linked lists as one function per pointer field; insertion at either end, removal.
  \<open>Flow_Table\<close>: the pointer structure of an engine, whatever its address type: invariant \<open>ft_inv\<close> over
  a ghost description of chains and queues, and its preservation by every list operation.
  \<open>Engine_Interface\<close>: the locale \<open>rule_engine\<close>, the contract between a manager and an engine: each
  request returns, keeps the engine well formed and acts on a map of rules as its effect says; what a
  sequence of requests does follows there once. Both engines are interpretations.
  \<open>SFE_Types\<close>: \<open>struct sfe_connection_create\<close>, \<open>_sync\<close>, \<open>_mark\<close>, \<open>_destroy\<close>. \<open>SFE_Kernel\<close>: socket
  buffers, devices and the kernel services as far as the engines read them, transport headers.
  \<open>SFE_Csum\<close>: ones complement sums and the incremental update. \<open>SFE_TCP\<close>: the parser of TCP options.
  \<open>SFE_Printf\<close>, \<open>SFE_Debug_Msg\<close>: printf conversions, and the message buffer of the debug devices.
  The IPv4 engine, and with the same names the IPv6 engine (its definitions and lemmas carry a 6 where
  the C code has the same name for both):
  \<open>SFE_IPv4_State\<close>: \<open>struct sfe_ipv4\<close>, connections, matches, exception events, and the abstraction
  into a flow table. Pointers are naturals, NULL is 0; the memory of each kind of entry is a function
  from pointers to records. References on devices and allocated entries are counted.
  \<open>SFE_IPv4_Table\<close>: hashes, lookups, insertion and removal; \<open>SFE_IPv4_Csum\<close>: checksums;
  \<open>SFE_IPv4_Rules\<close>: the control path; \<open>SFE_IPv4_Recv\<close>: the data path; \<open>SFE_IPv4_Debug\<close>: the debug
  device. Each definition has the name of the C function.
  \<open>SFE_IPv4_Rules_Inv\<close>, \<open>SFE_IPv4_Sync\<close>, \<open>SFE_IPv4_Recv_Inv\<close>, \<open>SFE_IPv4_Forward\<close>,
  \<open>SFE_IPv4_Adjust\<close>, \<open>SFE_IPv4_Packet\<close>: lemmas about these; \<open>SFE_IPv6_Ext\<close>: the walk over extension
  headers.
  \<open>SFE_IPv4_Engine\<close>: the engine satisfies \<open>rule_engine\<close>, and the step relation of the whole engine in
  which a flush is split at the point where the code drops its lock. \<open>SFE_Example\<close>,
  \<open>SFE_IPv4_Example\<close>, \<open>SFE_IPv6_Example\<close>: the concrete engines that the witnesses evaluate.
  The manager: \<open>SFE_CM\<close> (the code), \<open>SFE_CM_Laws\<close> (lemmas), \<open>SFE_CM_Props\<close> (post routing),
  \<open>SFE_CM_Events\<close> (events, counts, the exceptions file), \<open>SFE_CM_System\<close> (loading, unloading, all
  events in any order).
  The fast classifier (\<open>fast-classifier.c\<close>), the other manager: \<open>SFE_FC\<close> (its table of flows, sync
  callback, receive hook), \<open>SFE_FC_Control\<close> (offloading, netlink messages, post routing, the conntrack
  handler), \<open>SFE_FC_Module\<close> (device events, files, loading and unloading), \<open>SFE_FC_Table\<close> (the table
  as a finite map), \<open>SFE_FC_Laws\<close>, \<open>SFE_FC_Hook\<close> and \<open>SFE_FC_Flows\<close> (lemmas),
  \<open>SFE_FC_Props\<close> (post routing), \<open>SFE_FC_Offload\<close> (offloading in time and on request, the debug
  file), \<open>SFE_FC_System\<close> (loading, unloading, all events in any order), \<open>SFE_FC_Conntrack\<close> (the
  handler that the file compiles out).
  The simulated driver (\<open>sfe_drv.c\<close>, \<open>sfe_drv.h\<close>), a third client of the engines:
  \<open>SFE_Drv\<close> (messages, state, the queue of responses and its worker), \<open>SFE_Drv_Control\<close> (statistics,
  creation of rules), \<open>SFE_Drv_Module\<close> (removal, dispatch, registration of the client, receive hook,
  loading and unloading), \<open>SFE_Drv_Laws\<close> (lemmas), \<open>SFE_Drv_Props\<close> (one message),
  \<open>SFE_Drv_System\<close> (the worker, unloading, all entry points in any order).

  PROPERTIES. \<open>SFE_IPv4_Props\<close> (C1 to C6): forwarding and its checksums, totality of
  the data path, creation and removal of rules as updates of a map; \<open>SFE_IPv6_Props\<close>
  (C7, C8): the same for IPv6; \<open>SFE_IPv4_Lifecycle\<close> (C9 to C11): devices going down,
  unloading, the timer; \<open>SFE_IPv4_System\<close> (C12, C14, C18): reachable states,
  sequences of requests, devices going down; \<open>SFE_IPv6_System\<close> (C13, C15 to C17): the
  same for IPv6, extension headers, and two faults of the code; \<open>SFE_CM_Props\<close> (C19,
  C20): the post routing hooks; \<open>SFE_CM_Events\<close> (C21, C22): events and counts;
  \<open>SFE_CM_System\<close> (C23 to C25): the manager over both engines;
  \<open>SFE_IPv4_Debug_Props\<close> (C26): the debug device; \<open>SFE_FC_Props\<close> (C27):
  the hook of the fast classifier; \<open>SFE_FC_Offload\<close> (C28, C31, C32, C36): when flows
  are offloaded; \<open>SFE_FC_System\<close> (C29, C30, C33, C34): the fast classifier over both
  engines; \<open>SFE_FC_Conntrack\<close> (C35): the end of a flow; \<open>SFE_Drv_Props\<close>
  (C37): the messages of the simulated driver; \<open>SFE_Drv_System\<close> (C38 to C40): the
  simulated driver over both engines. Further theorems of the same kind that are no claims stand
  beside them (\<open>SFE_IPv4_Details\<close>, \<open>SFE_IPv4_TCP_Props\<close>,
  \<open>SFE_IPv6_Debug_Props\<close>).

  LOOPS AND PARTIAL FUNCTIONS. Walks along pointers (hash chains, the list of connections, the
  active list), the walk over extension headers and the retry loop of the debug device are
  \<open>partial_function (option)\<close>: None is a loop that does not end or a NULL
  dereference. C4, C5, C8 to C11, C15, C23, C26, C27, C37, C38 prove that the result is Some;
  \<open>debug_read_stuck\<close> and C33 prove cases in which it is None. There is no fuel.

  PARAMETERS. What the kernel answers (\<open>pskb_may_pull\<close>,
  \<open>dev_hard_header\<close>, routes, neighbours, conntrack, registration, allocation) are
  fields of the records \<open>kernel\<close>, \<open>cm_kernel\<close>, \<open>drv_kernel\<close>
  and \<open>fc_kernel\<close> (whose \<open>fk_bucket\<close> is the kernel's
  \<open>hash_min\<close>) or arguments; so are what the stack holds where the code sends
  uninitialised bytes. Of \<open>pskb_may_pull\<close> the IPv6 properties use that it succeeds
  only for bytes the packet has (\<open>pull_checks\<close>). Calls of the sync callback are
  returned as a list; the models of the managers and of the driver deliver them. What the client
  of the simulated driver does when it is answered is a function; the theorems about its worker
  take one that sends no message (\<open>calm\<close>).

  NOT MODELLED. Spin locks and RCU: an operation under the lock is one step, and the steps of
  \<open>SFE_IPv4_Engine\<close> and \<open>SFE_IPv6_Engine\<close> interleave at the points where the lock is free.
  Statistics that the code only traces; the vendored libraries and drivers, listed in the manifest.
\<close>

end
